(* ===== verification/Prelude.thy ===== *)
theory Prelude imports Main "HOL-Library.Word" begin

text \<open>
  Shared vocabulary of the development: the emulator's integer types (src/common/common_types.h),
  the result codes of src/core/hle/kernel/errors.h that the modelled code returns, the theorem
  collections the component theories fill, and the generic facts on words and lists they share.
\<close>

unbundle bit_operations_syntax

section \<open>Integer types\<close>

type_synonym u8 = "8 word"
type_synonym u16 = "16 word"
type_synonym u32 = "32 word"
type_synonym u64 = "64 word"
type_synonym VAddr = "32 word"

section \<open>Result codes\<close>

text \<open>
  A \<open>Result\<close> of the source is a 32-bit code; the code only ever compares it with the named
  constants of \<^verbatim>\<open>errors.h\<close>, so the model keeps one constructor per named constant, and \<open>ResultInvalidAddressKernel\<close> for the
  unnamed code \<open>CreateThread\<close> returns.
\<close>

datatype result_code =
    ResultOutOfHandles
  | ResultInvalidHandle
  | ResultInvalidPointer
  | ResultInvalidAddress
  | ResultInvalidAddressState
  | ResultInvalidAddressKernel
  | ResultOutOfMemory
  | ResultOutOfRange
  | ResultOutOfRangeKernel
  | ResultInvalidCombinationKernel
  | ResultInvalidEnumValueFnd
  | ResultTimeout
  | ResultWrongLockingThread
  | ResultInvalidResultValue
  | ResultOutOfHeapMemory
  | ResultInvalidCombination
  | ResultMisalignedAddress
  | ResultMisalignedSize
  | ResultWrongPermission
  | ResultCommandTooLarge
  | ResultOutOfSharedMems

section \<open>Theorem collections\<close>

named_theorems frame_simps \<open>fields an operation leaves alone\<close>
named_theorems inv_intros \<open>operations preserve their component's invariant\<close>
named_theorems word_bounds \<open>numeric bounds on values taken out of words\<close>

section \<open>Words\<close>

lemma unat_of_nat_u16 [simp]: "n < 65536 \<Longrightarrow> unat (of_nat n :: u16) = n"
  by (simp add: unat_of_nat take_bit_nat_eq_self)

lemma unat_of_nat_u32 [simp]: "n < 4294967296 \<Longrightarrow> unat (of_nat n :: u32) = n"
  by (simp add: unat_of_nat take_bit_nat_eq_self)

lemma unat_lt_u16 [word_bounds]: "unat (w :: u16) < 65536"
proof -
  have "unat w < 2 ^ LENGTH(16)" by (rule unsigned_less)
  then show ?thesis by simp
qed

lemma unat_lt_u32 [word_bounds]: "unat (w :: u32) < 4294967296"
proof -
  have "unat w < 2 ^ LENGTH(32)" by (rule unsigned_less)
  then show ?thesis by simp
qed

lemma unat_ucast_u16_u32 [simp]: "unat (ucast (w :: u16) :: u32) = unat w"
  by (simp add: unsigned_ucast_eq take_bit_nat_eq_self order.strict_trans [OF unat_lt_u16])

lemma unat_plus_no_wrap_u32:
  "unat a + unat b < 4294967296 \<Longrightarrow> unat (a + b :: u32) = unat a + unat b"
  by (simp add: unat_word_ariths)

lemma unat_minus_no_wrap:
  "b \<le> a \<Longrightarrow> unat (a - b :: 'a::len word) = unat a - unat b"
  by (simp add: unat_sub)

text \<open>A value below \<open>2 ^ n\<close> has no bit at or above position \<open>n\<close>.\<close>

lemma not_bit_ge:
  assumes "unat (w :: 'a::len word) < 2 ^ n" and "n \<le> m"
  shows "\<not> bit w m"
proof -
  from assms(2) have "(2::nat) ^ n \<le> 2 ^ m" by simp
  with assms(1) have "unat w < 2 ^ m" by (rule order.strict_trans2)
  then have "\<not> bit (unat w) m" by (simp add: bit_iff_odd)
  then show ?thesis by (simp add: bit_unsigned_iff bit_imp_le_length)
qed

lemma unat_less_pow:
  assumes "\<And>m. n \<le> m \<Longrightarrow> \<not> bit (w :: 'a::len word) m"
  shows "unat w < 2 ^ n"
proof -
  have "take_bit n w = w"
    using assms by (intro bit_word_eqI) (auto simp: bit_simps not_le [symmetric])
  then have "take_bit n (unat w) = unat w"
    by (metis unsigned_take_bit_eq)
  then show ?thesis by (simp add: take_bit_nat_eq_self_iff)
qed

lemma unat_of_nat_plus_1: "Suc n < 65536 \<Longrightarrow> unat (of_nat n + 1 :: u16) = Suc n"
proof -
  assume "Suc n < 65536"
  moreover have "(of_nat n + 1 :: u16) = of_nat (Suc n)" by simp
  ultimately show ?thesis by (simp only: unat_of_nat_u16)
qed

lemma unat_plus_one_u16: "Suc (unat g) < 65536 \<Longrightarrow> unat (g + 1 :: u16) = unat g + 1"
  by (simp add: unat_word_ariths)

lemma unat_neqI: "v \<noteq> w \<Longrightarrow> unat v \<noteq> unat w"
  by (simp add: word_unat_eq_iff)

section \<open>Cyclic counters\<close>

lemma cyclic_successor_neq:
  assumes "n < m" and "Suc i < m"
  shows "(Suc n + i) mod m \<noteq> (n :: nat)"
proof (cases "Suc n + i < m")
  case True
  then show ?thesis by simp
next
  case False
  with assms have "(Suc n + i) mod m = Suc n + i - m"
    by (simp add: le_mod_geq)
  with assms False show ?thesis by simp
qed

end
