(* ===== verification/HandleTable.thy ===== *)
theory HandleTable imports Prelude begin

text \<open>
  The per-process handle table of src/core/hle/kernel/handle_table.cpp: a fixed array of object
  references whose unused slots form a linked free list threaded through the \<open>generations\<close>
  array. The theory holds the table, its operations, the well-formedness invariant (the free
  list is acyclic and holds exactly the empty slots) and the contract a kernel service relies
  on when it creates, looks up and closes handles.
\<close>

section \<open>The table\<close>

definition MAX_COUNT :: nat where
  "MAX_COUNT = 4096"

definition CurrentThread :: u32 where
  "CurrentThread = 0xFFFF8000"

definition CurrentProcess :: u32 where
  "CurrentProcess = 0xFFFF8001"

text \<open>
  \<open>std::array\<close>s of \<open>MAX_COUNT\<close> elements are functions on the index; every access of the source
  is below \<open>MAX_COUNT\<close>, which the operations check before they index. A null
  \<open>std::shared_ptr\<close> is \<^const>\<open>None\<close>.
\<close>

record 'o handle_table =
  objects :: "nat \<Rightarrow> 'o option"
  generations :: "nat \<Rightarrow> u16"
  next_generation :: u16
  next_free_slot :: u16

definition GetSlot :: "u32 \<Rightarrow> u16" where
  "GetSlot handle = ucast (drop_bit 15 handle)"

definition GetGeneration :: "u32 \<Rightarrow> u16" where
  "GetGeneration handle = ucast (handle AND 0x7FFF)"

section \<open>Operations\<close>

definition Clear :: "'o handle_table \<Rightarrow> 'o handle_table" where
  "Clear t = t\<lparr>
     generations := (\<lambda>i. if i < MAX_COUNT then of_nat i + 1 else generations t i),
     objects := (\<lambda>i. if i < MAX_COUNT then None else objects t i),
     next_free_slot := 0\<rparr>"

definition HandleTable_init :: "'o handle_table" where
  "HandleTable_init = Clear
     \<lparr>objects = (\<lambda>_. None), generations = (\<lambda>_. 0), next_generation = 1, next_free_slot = 0\<rparr>"

definition Create :: "'o handle_table \<Rightarrow> 'o \<Rightarrow> (result_code + u32) \<times> 'o handle_table" where
  "Create t obj =
     (let slot = next_free_slot t in
      if \<not> unat slot < MAX_COUNT then (Inl ResultOutOfHandles, t)
      else
        let free = generations t (unat slot);
            generation = next_generation t;
            bumped = generation + 1;
            next_gen = (if 0x8000 \<le> bumped then 1 else bumped)
        in (Inr (ucast generation OR push_bit 15 (ucast slot)),
            t\<lparr>next_free_slot := free,
              next_generation := next_gen,
              generations := (generations t)(unat slot := generation),
              objects := (objects t)(unat slot := Some obj)\<rparr>))"

definition IsValid :: "'o handle_table \<Rightarrow> u32 \<Rightarrow> bool" where
  "IsValid t handle =
     (let slot = unat (GetSlot handle); generation = GetGeneration handle
      in slot < MAX_COUNT \<and> objects t slot \<noteq> None \<and> generations t slot = generation)"

text \<open>
  The current thread and process are owned by the kernel object; the lookup receives them.
\<close>

definition GetGeneric ::
  "'o option \<Rightarrow> 'o option \<Rightarrow> 'o handle_table \<Rightarrow> u32 \<Rightarrow> 'o option" where
  "GetGeneric cur_thread cur_process t handle =
     (if handle = CurrentThread then cur_thread
      else if handle = CurrentProcess then cur_process
      else if \<not> IsValid t handle then None
      else objects t (unat (GetSlot handle)))"

definition Duplicate ::
  "'o option \<Rightarrow> 'o option \<Rightarrow> 'o handle_table \<Rightarrow> u32
     \<Rightarrow> (result_code + u32) \<times> 'o handle_table" where
  "Duplicate cur_thread cur_process t handle =
     (case GetGeneric cur_thread cur_process t handle of
        None \<Rightarrow> (Inl ResultInvalidHandle, t)
      | Some obj \<Rightarrow> Create t obj)"

definition Close :: "'o handle_table \<Rightarrow> u32 \<Rightarrow> (result_code + unit) \<times> 'o handle_table" where
  "Close t handle =
     (if \<not> IsValid t handle then (Inl ResultInvalidHandle, t)
      else
        let slot = GetSlot handle
        in (Inr (),
            t\<lparr>objects := (objects t)(unat slot := None),
              generations := (generations t)(unat slot := next_free_slot t),
              next_free_slot := slot\<rparr>))"

section \<open>Handles pack a slot and a generation\<close>

abbreviation pack :: "u16 \<Rightarrow> u16 \<Rightarrow> u32" where
  "pack slot gen \<equiv> ucast gen OR push_bit 15 (ucast slot)"

lemma GetSlot_pack [simp]:
  assumes "unat slot < MAX_COUNT" and "unat gen < 0x8000"
  shows "GetSlot (pack slot gen) = slot"
proof (rule bit_word_eqI)
  fix n assume "n < LENGTH(16)"
  moreover have "\<not> bit gen (15 + n)"
    using assms(2) by (intro not_bit_ge [where n = 15]) simp_all
  ultimately show "bit (GetSlot (pack slot gen)) n = bit slot n"
    by (auto simp: GetSlot_def bit_simps)
qed

lemma GetGeneration_pack [simp]:
  assumes "unat slot < MAX_COUNT" and "unat gen < 0x8000"
  shows "GetGeneration (pack slot gen) = gen"
proof (rule bit_word_eqI)
  fix n assume n: "n < LENGTH(16)"
  have mask: "(0x7FFF :: u32) = mask 15" by (simp add: mask_eq_exp_minus_1)
  have "\<not> bit gen n" if "15 \<le> n"
    using assms(2) that by (intro not_bit_ge [where n = 15]) simp_all
  with n show "bit (GetGeneration (pack slot gen)) n = bit gen n"
    by (auto simp: GetGeneration_def mask bit_simps not_le [symmetric])
qed

text \<open>
  Bit 31 is the one bit of a handle that neither field keeps: the slot is cut to 16 bits.
  A handle below \<open>2 ^ 31\<close> is determined by its two fields.
\<close>

definition canonical :: "u32 \<Rightarrow> bool" where
  "canonical handle \<longleftrightarrow> unat handle < 2 ^ 31"

lemma canonical_unpack:
  assumes "canonical h"
  shows "pack (GetSlot h) (GetGeneration h) = h"
proof (rule bit_word_eqI)
  fix n assume n: "n < LENGTH(32)"
  have mask: "(0x7FFF :: u32) = mask 15" by (simp add: mask_eq_exp_minus_1)
  show "bit (pack (GetSlot h) (GetGeneration h)) n = bit h n"
  proof (cases "31 \<le> n")
    case True
    then have "\<not> bit h n"
      using assms by (intro not_bit_ge [where n = 31]) (simp_all add: canonical_def)
    with True n show ?thesis
      by (auto simp: GetGeneration_def GetSlot_def mask bit_simps)
  next
    case False
    then show ?thesis
      by (auto simp: GetGeneration_def GetSlot_def mask bit_simps)
  qed
qed

lemma canonical_eqI:
  assumes "canonical h" "canonical k" "GetSlot h = GetSlot k" "GetGeneration h = GetGeneration k"
  shows "h = k"
  by (metis assms canonical_unpack)

lemma canonical_pack:
  assumes "unat slot < MAX_COUNT" and "unat gen < 0x8000"
  shows "canonical (pack slot gen)"
proof -
  let ?h = "pack slot gen"
  have "\<not> bit gen n" if "31 \<le> n" for n
    using assms(2) that by (intro not_bit_ge [where n = 15]) simp_all
  moreover have "\<not> bit slot (n - 15)" if "31 \<le> n" for n
    using assms(1) that by (intro not_bit_ge [where n = 12]) (simp_all add: MAX_COUNT_def)
  ultimately have "\<not> bit ?h n" if "31 \<le> n" for n
    using that by (auto simp: bit_simps)
  then show ?thesis
    unfolding canonical_def by (rule unat_less_pow)
qed

lemma canonical_not_pseudo: "canonical h \<Longrightarrow> h \<noteq> CurrentThread \<and> h \<noteq> CurrentProcess"
  by (auto simp: canonical_def CurrentThread_def CurrentProcess_def)

section \<open>Well-formedness\<close>

text \<open>
  \<open>free_chain g s fl\<close>: following the links of \<open>g\<close> from slot \<open>s\<close> visits exactly the slots
  \<open>fl\<close> and ends at \<open>MAX_COUNT\<close>, the end-of-list mark that \<open>Clear\<close> writes.
\<close>

fun free_chain :: "(nat \<Rightarrow> u16) \<Rightarrow> nat \<Rightarrow> nat list \<Rightarrow> bool" where
  "free_chain g s [] = (s = MAX_COUNT)"
| "free_chain g s (x # xs) = (s = x \<and> x < MAX_COUNT \<and> free_chain g (unat (g x)) xs)"

definition empty_slots :: "'o handle_table \<Rightarrow> nat set" where
  "empty_slots t = {i. i < MAX_COUNT \<and> objects t i = None}"

definition gen_ok :: "u16 \<Rightarrow> bool" where
  "gen_ok g \<longleftrightarrow> 1 \<le> unat g \<and> unat g < 0x8000"

definition ht_inv :: "'o handle_table \<Rightarrow> bool" where
  "ht_inv t \<longleftrightarrow>
     (\<exists>fl. free_chain (generations t) (unat (next_free_slot t)) fl \<and> distinct fl
           \<and> set fl = empty_slots t)
     \<and> (\<forall>i < MAX_COUNT. objects t i \<noteq> None \<longrightarrow> gen_ok (generations t i))
     \<and> gen_ok (next_generation t)"

lemma free_chain_upd [simp]:
  "i \<notin> set fl \<Longrightarrow> free_chain (g(i := x)) s fl = free_chain g s fl"
  by (induction fl arbitrary: s) auto

lemma free_chain_upt:
  "n \<le> MAX_COUNT \<Longrightarrow> (\<And>i. i < MAX_COUNT \<Longrightarrow> g i = of_nat i + 1)
    \<Longrightarrow> free_chain g n [n..<MAX_COUNT]"
proof (induction rule: inc_induct)
  case base
  then show ?case by simp
next
  case (step n)
  have "unat (of_nat n + 1 :: u16) = Suc n"
    using step.hyps by (simp add: unat_of_nat_plus_1 MAX_COUNT_def)
  with step show ?case by (simp add: upt_conv_Cons)
qed

lemma ht_inv_free_list:
  assumes "ht_inv t"
  obtains fl where "free_chain (generations t) (unat (next_free_slot t)) fl" "distinct fl"
    "set fl = empty_slots t"
  using assms by (auto simp: ht_inv_def)

lemma ht_invI:
  assumes "free_chain (generations t) (unat (next_free_slot t)) fl" "distinct fl"
    "set fl = empty_slots t"
    "\<And>i. i < MAX_COUNT \<Longrightarrow> objects t i \<noteq> None \<Longrightarrow> gen_ok (generations t i)"
    "gen_ok (next_generation t)"
  shows "ht_inv t"
  using assms unfolding ht_inv_def by blast

lemma ht_inv_live: "ht_inv t \<Longrightarrow> i < MAX_COUNT \<Longrightarrow> objects t i \<noteq> None \<Longrightarrow> gen_ok (generations t i)"
  unfolding ht_inv_def by blast

lemma ht_inv_next: "ht_inv t \<Longrightarrow> gen_ok (next_generation t)"
  unfolding ht_inv_def by blast

lemma Clear_inv [inv_intros]: "gen_ok (next_generation t) \<Longrightarrow> ht_inv (Clear t)"
  by (rule ht_invI [where fl = "[0..<MAX_COUNT]"])
     (auto simp: Clear_def empty_slots_def intro!: free_chain_upt)

lemma HandleTable_init_inv [inv_intros]: "ht_inv HandleTable_init"
  unfolding HandleTable_init_def by (rule Clear_inv) (simp add: gen_ok_def)

text \<open>The free list is empty exactly when the head is the end mark.\<close>

lemma free_head_iff:
  assumes "ht_inv t"
  shows "unat (next_free_slot t) < MAX_COUNT \<longleftrightarrow> empty_slots t \<noteq> {}"
proof -
  from assms obtain fl where
    fl: "free_chain (generations t) (unat (next_free_slot t)) fl" "set fl = empty_slots t"
    by (rule ht_inv_free_list)
  then show ?thesis by (cases fl) auto
qed

lemma free_head_empty:
  assumes "ht_inv t" and "unat (next_free_slot t) < MAX_COUNT"
  shows "objects t (unat (next_free_slot t)) = None"
proof -
  from assms(1) obtain fl where
    fl: "free_chain (generations t) (unat (next_free_slot t)) fl" "set fl = empty_slots t"
    by (rule ht_inv_free_list)
  with assms(2) show ?thesis by (cases fl) (auto simp: empty_slots_def)
qed

definition bump_generation :: "u16 \<Rightarrow> u16" where
  "bump_generation g = (if 0x8000 \<le> g + 1 then 1 else g + 1)"

lemma gen_ok_bump: "gen_ok g \<Longrightarrow> gen_ok (bump_generation g)"
proof -
  assume g: "gen_ok g"
  then have "unat (g + 1) = unat g + 1"
    by (intro unat_plus_one_u16) (simp add: gen_ok_def)
  with g show ?thesis
    by (auto simp: gen_ok_def bump_generation_def word_le_nat_alt)
qed

text \<open>\<open>Create\<close> with its internal computations named.\<close>

lemma Create_cases:
  "Create t obj =
     (if unat (next_free_slot t) < MAX_COUNT
      then (Inr (pack (next_free_slot t) (next_generation t)),
            t\<lparr>next_free_slot := generations t (unat (next_free_slot t)),
              next_generation := bump_generation (next_generation t),
              generations := (generations t)(unat (next_free_slot t) := next_generation t),
              objects := (objects t)(unat (next_free_slot t) := Some obj)\<rparr>)
      else (Inl ResultOutOfHandles, t))"
  by (simp add: Create_def Let_def bump_generation_def)

lemma empty_slots_fill: "objects t' = (objects t)(s \<mapsto> obj) \<Longrightarrow> empty_slots t' = empty_slots t - {s}"
  by (auto simp: empty_slots_def)

lemma empty_slots_clear:
  "objects t' = (objects t)(s := None) \<Longrightarrow> s < MAX_COUNT \<Longrightarrow> empty_slots t' = insert s (empty_slots t)"
  by (auto simp: empty_slots_def)

lemma Create_inv [inv_intros]:
  assumes inv: "ht_inv t" and cr: "Create t obj = (r, t')"
  shows "ht_inv t'"
proof (cases "unat (next_free_slot t) < MAX_COUNT")
  case False
  with cr inv show ?thesis by (simp add: Create_cases)
next
  case True
  from inv obtain fl where
    fl: "free_chain (generations t) (unat (next_free_slot t)) fl" "distinct fl"
        "set fl = empty_slots t"
    by (rule ht_inv_free_list)
  with True obtain xs where xs: "fl = unat (next_free_slot t) # xs" by (cases fl) auto
  show ?thesis
  proof (rule ht_invI)
    show "free_chain (generations t') (unat (next_free_slot t')) xs"
      using cr True fl xs by (auto simp: Create_cases)
    show "distinct xs" using fl xs by simp
    have "empty_slots t' = empty_slots t - {unat (next_free_slot t)}"
      using cr True by (intro empty_slots_fill) (auto simp: Create_cases)
    then show "set xs = empty_slots t'"
      using fl(2) unfolding fl(3) [symmetric] xs by simp
    show "gen_ok (next_generation t')"
      using cr True ht_inv_next [OF inv] by (auto simp: Create_cases gen_ok_bump)
  next
    fix i assume "i < MAX_COUNT" "objects t' i \<noteq> None"
    then show "gen_ok (generations t' i)"
      using cr True ht_inv_next [OF inv] ht_inv_live [OF inv]
      by (cases "i = unat (next_free_slot t)") (simp_all add: Create_cases, force+)
  qed
qed

lemma Close_inv [inv_intros]:
  assumes inv: "ht_inv t" and cl: "Close t h = (r, t')"
  shows "ht_inv t'"
proof (cases "IsValid t h")
  case False
  with cl inv show ?thesis by (simp add: Close_def)
next
  case True
  let ?s = "unat (GetSlot h)"
  from inv obtain fl where
    fl: "free_chain (generations t) (unat (next_free_slot t)) fl" "distinct fl"
        "set fl = empty_slots t"
    by (rule ht_inv_free_list)
  from True have s: "?s < MAX_COUNT" "objects t ?s \<noteq> None"
    by (auto simp: IsValid_def Let_def)
  with fl(3) have notin: "?s \<notin> set fl" by (simp add: empty_slots_def)
  show ?thesis
  proof (rule ht_invI)
    show "free_chain (generations t') (unat (next_free_slot t')) (?s # fl)"
      using cl True fl(1) s notin by (auto simp: Close_def Let_def)
    show "distinct (?s # fl)" using fl(2) notin by simp
    have "empty_slots t' = insert ?s (empty_slots t)"
      using cl True s(1) by (intro empty_slots_clear) (auto simp: Close_def Let_def)
    then show "set (?s # fl) = empty_slots t'"
      unfolding fl(3) [symmetric] by simp
    show "gen_ok (next_generation t')"
      using cl True ht_inv_next [OF inv] by (auto simp: Close_def Let_def)
  next
    fix i assume "i < MAX_COUNT" "objects t' i \<noteq> None"
    then show "gen_ok (generations t' i)"
      using cl True ht_inv_live [OF inv]
      by (cases "i = ?s") (simp_all add: Close_def Let_def, force+)
  qed
qed

section \<open>The contract of a handle store\<close>

text \<open>
  What the supervisor calls rely on: a created handle is fresh and leads to its object, the other
  handles keep theirs, a closed handle leads nowhere, a failed call changes nothing.
\<close>

locale handle_store =
  fixes create :: "'t \<Rightarrow> 'o \<Rightarrow> (result_code + u32) \<times> 't"
    and close :: "'t \<Rightarrow> u32 \<Rightarrow> (result_code + unit) \<times> 't"
    and lookup :: "'t \<Rightarrow> u32 \<Rightarrow> 'o option"
    and inv :: "'t \<Rightarrow> bool"
    and valid_name :: "u32 \<Rightarrow> bool"
  assumes create_keeps_inv: "inv t \<Longrightarrow> create t x = (r, t') \<Longrightarrow> inv t'"
    and close_keeps_inv: "inv t \<Longrightarrow> close t h = (c, t') \<Longrightarrow> inv t'"
    and create_fresh: "inv t \<Longrightarrow> create t x = (Inr h, t') \<Longrightarrow> valid_name h \<and> lookup t h = None"
    and create_lookup: "inv t \<Longrightarrow> create t x = (Inr h, t') \<Longrightarrow> lookup t' h = Some x"
    and create_other: "inv t \<Longrightarrow> create t x = (Inr h, t') \<Longrightarrow> valid_name k \<Longrightarrow> k \<noteq> h
      \<Longrightarrow> lookup t' k = lookup t k"
    and create_fails: "create t x = (Inl e, t') \<Longrightarrow> t' = t"
    and close_live: "inv t \<Longrightarrow> lookup t h \<noteq> None \<Longrightarrow> \<exists>t'. close t h = (Inr (), t')"
    and close_lookup: "inv t \<Longrightarrow> close t h = (Inr (), t') \<Longrightarrow> lookup t' h = None"
    and close_other: "inv t \<Longrightarrow> close t h = (Inr (), t') \<Longrightarrow> valid_name h \<Longrightarrow> valid_name k \<Longrightarrow> k \<noteq> h
      \<Longrightarrow> lookup t' k = lookup t k"
    and close_fails: "close t h = (Inl e, t') \<Longrightarrow> t' = t"
begin

lemma create_keeps_dead:
  assumes "inv t" "create t x = (r, t')" "valid_name k" "lookup t k = None" "r \<noteq> Inr k"
  shows "lookup t' k = None"
proof (cases r)
  case (Inl e)
  with assms show ?thesis by (auto dest: create_fails)
next
  case (Inr h)
  with assms have "k \<noteq> h" by auto
  with assms Inr show ?thesis by (simp add: create_other)
qed

lemma create_close:
  assumes "inv t" "create t x = (Inr h, t')"
  obtains t'' where "close t' h = (Inr (), t'')" "inv t''"
    "\<And>k. valid_name k \<Longrightarrow> lookup t'' k = lookup t k"
proof -
  have inv': "inv t'" using assms by (rule create_keeps_inv)
  with assms obtain t'' where cl: "close t' h = (Inr (), t'')"
    using close_live create_lookup by (metis option.distinct(1))
  have "lookup t'' k = lookup t k" if "valid_name k" for k
    using that assms cl inv' create_fresh create_other close_lookup close_other
    by (cases "k = h") metis+
  with cl inv' show ?thesis using that close_keeps_inv by blast
qed

end

section \<open>The table provides the contract\<close>

abbreviation lookup_handle :: "'o handle_table \<Rightarrow> u32 \<Rightarrow> 'o option" where
  "lookup_handle \<equiv> GetGeneric None None"

lemma IsValid_not_pseudo:
  "IsValid t h \<Longrightarrow> h \<noteq> CurrentThread \<and> h \<noteq> CurrentProcess"
  by (auto simp: IsValid_def Let_def GetSlot_def CurrentThread_def CurrentProcess_def MAX_COUNT_def)

lemma lookup_handle_eq:
  "lookup_handle t h = (if IsValid t h then objects t (unat (GetSlot h)) else None)"
  using IsValid_not_pseudo [of t h] by (auto simp: GetGeneric_def)

lemma Create_ok:
  assumes "ht_inv t" "Create t obj = (Inr h, t')"
  shows "unat (next_free_slot t) < MAX_COUNT" "h = pack (next_free_slot t) (next_generation t)"
    "GetSlot h = next_free_slot t" "GetGeneration h = next_generation t" "canonical h"
    "objects t' = (objects t)(unat (next_free_slot t) := Some obj)"
    "generations t' = (generations t)(unat (next_free_slot t) := next_generation t)"
    "next_generation t' = bump_generation (next_generation t)"
proof -
  show s: "unat (next_free_slot t) < MAX_COUNT" and h: "h = pack (next_free_slot t) (next_generation t)"
    and "objects t' = (objects t)(unat (next_free_slot t) := Some obj)"
    and "generations t' = (generations t)(unat (next_free_slot t) := next_generation t)"
    and "next_generation t' = bump_generation (next_generation t)"
    using assms(2) by (auto simp: Create_cases split: if_splits)
  have "unat (next_generation t) < 0x8000"
    using ht_inv_next [OF assms(1)] by (simp add: gen_ok_def)
  with s h show "GetSlot h = next_free_slot t" "GetGeneration h = next_generation t" "canonical h"
    by (simp_all add: canonical_pack)
qed

lemma Create_fresh: "ht_inv t \<Longrightarrow> Create t obj = (Inr h, t') \<Longrightarrow> lookup_handle t h = None"
  using Create_ok [of t obj h t'] free_head_empty [of t] by (simp add: lookup_handle_eq)

lemma Create_lookup: "ht_inv t \<Longrightarrow> Create t obj = (Inr h, t') \<Longrightarrow> lookup_handle t' h = Some obj"
  using Create_ok [of t obj h t'] by (simp add: lookup_handle_eq IsValid_def Let_def)

lemma Create_other:
  assumes "ht_inv t" "Create t obj = (Inr h, t')" "canonical k" "k \<noteq> h"
  shows "lookup_handle t' k = lookup_handle t k"
proof (cases "GetSlot k = next_free_slot t")
  case False
  then have "unat (GetSlot k) \<noteq> unat (next_free_slot t)" by (rule unat_neqI)
  then show ?thesis
    using Create_ok [OF assms(1,2)] by (simp add: lookup_handle_eq IsValid_def Let_def)
next
  case True
  with Create_ok [OF assms(1,2)] assms(3,4) have "GetGeneration k \<noteq> next_generation t"
    using canonical_eqI by metis
  with True show ?thesis
    using Create_ok [OF assms(1,2)] free_head_empty [OF assms(1)]
    by (simp add: lookup_handle_eq IsValid_def Let_def)
qed

lemma Close_ok:
  assumes "Close t h = (Inr (), t')"
  shows "IsValid t h" "objects t' = (objects t)(unat (GetSlot h) := None)"
    "generations t' = (generations t)(unat (GetSlot h) := next_free_slot t)"
    "next_generation t' = next_generation t"
  using assms by (auto simp: Close_def Let_def split: if_splits)

lemma Close_other:
  assumes "ht_inv t" "Close t h = (Inr (), t')" "canonical h" "canonical k" "k \<noteq> h"
  shows "lookup_handle t' k = lookup_handle t k"
proof (cases "GetSlot k = GetSlot h")
  case False
  then have "unat (GetSlot k) \<noteq> unat (GetSlot h)" by (rule unat_neqI)
  then show ?thesis
    using Close_ok [OF assms(2)] by (simp add: lookup_handle_eq IsValid_def Let_def)
next
  case True
  with assms(3,4,5) have "GetGeneration k \<noteq> GetGeneration h" using canonical_eqI by metis
  with True show ?thesis
    using Close_ok [OF assms(2)] by (auto simp: lookup_handle_eq IsValid_def Let_def)
qed

interpretation handles: handle_store Create Close lookup_handle ht_inv canonical
proof unfold_locales
  fix t :: "'a handle_table" and h t'
  assume "Close t h = (Inr (), t')"
  then show "lookup_handle t' h = None"
    by (auto dest: Close_ok simp: lookup_handle_eq IsValid_def Let_def)
next
  fix t t' :: "'a handle_table" and x e
  assume "Create t x = (Inl e, t')"
  then show "t' = t" by (simp add: Create_cases split: if_splits)
next
  fix t t' :: "'a handle_table" and h e
  assume "Close t h = (Inl e, t')"
  then show "t' = t" by (simp add: Close_def Let_def split: if_splits)
next
  fix t :: "'a handle_table" and h
  assume "lookup_handle t h \<noteq> None"
  then show "\<exists>t'. Close t h = (Inr (), t')"
    by (auto simp: lookup_handle_eq Close_def Let_def split: if_splits)
qed (auto simp: Create_ok Create_fresh Create_lookup Create_other Close_other intro: Create_inv Close_inv)

section \<open>Sequences of operations\<close>

datatype 'o ht_op = OpCreate 'o | OpDuplicate u32 | OpClose u32

fun ht_step ::
  "'o option \<Rightarrow> 'o option \<Rightarrow> 'o handle_table \<Rightarrow> 'o ht_op \<Rightarrow> u32 list \<times> 'o handle_table" where
  "ht_step ct cp t (OpCreate obj) =
     (case Create t obj of (Inr h, t') \<Rightarrow> ([h], t') | (Inl _, t') \<Rightarrow> ([], t'))"
| "ht_step ct cp t (OpDuplicate h) =
     (case Duplicate ct cp t h of (Inr k, t') \<Rightarrow> ([k], t') | (Inl _, t') \<Rightarrow> ([], t'))"
| "ht_step ct cp t (OpClose h) = ([], snd (Close t h))"

text \<open>The handles a sequence of operations gives out, in order, and the table after it.\<close>

fun ht_run ::
  "'o option \<Rightarrow> 'o option \<Rightarrow> 'o handle_table \<Rightarrow> 'o ht_op list \<Rightarrow> u32 list \<times> 'o handle_table" where
  "ht_run ct cp t [] = ([], t)"
| "ht_run ct cp t (x # xs) =
     (let (hs, t') = ht_step ct cp t x; (hs', t'') = ht_run ct cp t' xs in (hs @ hs', t''))"

text \<open>Each step is one of: a created handle, a close, or nothing at all.\<close>

lemma ht_step_cases:
  assumes "ht_step ct cp t x = (hs, t')"
  obtains (created) obj h where "Create t obj = (Inr h, t')" "hs = [h]"
  | (closed) k where "Close t k = (Inr (), t')" "hs = []"
  | (failed) "t' = t" "hs = []"
proof (cases x)
  case (OpCreate obj)
  with assms that show ?thesis
    by (auto split: prod.splits sum.splits dest: handles.create_fails)
next
  case (OpDuplicate k)
  with assms that show ?thesis
    by (auto simp: Duplicate_def split: prod.splits sum.splits option.splits dest: handles.create_fails)
next
  case (OpClose k)
  obtain r t2 where "Close t k = (r, t2)" by fastforce
  with assms that OpClose show ?thesis
    by (cases r) (auto dest: handles.close_fails)
qed

lemma ht_step_inv: "ht_inv t \<Longrightarrow> ht_step ct cp t x = (hs, t') \<Longrightarrow> ht_inv t'"
  by (erule ht_step_cases) (auto intro: Create_inv Close_inv)

lemma ht_run_inv: "ht_inv t \<Longrightarrow> ht_run ct cp t xs = (hs, t') \<Longrightarrow> ht_inv t'"
  by (induction xs arbitrary: t hs) (auto split: prod.splits dest: ht_step_inv)

lemma ht_run_append:
  "ht_run ct cp t (xs @ ys) =
     (let (hs, t') = ht_run ct cp t xs; (hs', t'') = ht_run ct cp t' ys in (hs @ hs', t''))"
  by (induction xs arbitrary: t) (auto simp: Let_def split: prod.splits)

text \<open>Generations count up from one and wrap after \<open>0x7FFF\<close>.\<close>

definition gen_index :: "u16 \<Rightarrow> nat" where
  "gen_index g = unat g - 1"

lemma gen_index_bump: "gen_ok g \<Longrightarrow> gen_index (bump_generation g) = Suc (gen_index g) mod 0x7FFF"
proof -
  assume g: "gen_ok g"
  then have "unat (g + 1) = unat g + 1"
    by (intro unat_plus_one_u16) (simp add: gen_ok_def)
  with g show ?thesis
    by (cases "unat g = 0x7FFF")
       (auto simp: gen_ok_def bump_generation_def word_le_nat_alt gen_index_def)
qed

lemma gen_index_less: "gen_ok g \<Longrightarrow> gen_index g < 0x7FFF"
  by (auto simp: gen_ok_def gen_index_def)

text \<open>The \<open>i\<close>-th handle given out carries the generation \<open>i\<close> places on.\<close>

lemma ht_run_generations:
  assumes "ht_inv t" "ht_run ct cp t xs = (hs, t')"
  shows "i < length hs \<Longrightarrow>
    gen_index (GetGeneration (hs ! i)) = (gen_index (next_generation t) + i) mod 0x7FFF"
  using assms
proof (induction xs arbitrary: t hs i)
  case Nil
  then show ?case by simp
next
  case (Cons x xs)
  from Cons.prems(3) obtain hs1 t1 hs2 where
    step: "ht_step ct cp t x = (hs1, t1)" and run: "ht_run ct cp t1 xs = (hs2, t')"
    and hs: "hs = hs1 @ hs2"
    by (auto split: prod.splits)
  have inv1: "ht_inv t1" using Cons.prems(2) step by (rule ht_step_inv)
  note IH = Cons.IH [OF _ inv1 run]
  from step show ?case
  proof (cases rule: ht_step_cases)
    case (created obj h)
    note c = Create_ok [OF Cons.prems(2) created(1)]
    have g: "gen_ok (next_generation t)" using Cons.prems(2) by (rule ht_inv_next)
    show ?thesis
    proof (cases i)
      case 0
      with created hs c gen_index_less [OF g] show ?thesis by simp
    next
      case (Suc j)
      with Cons.prems(1) created hs have "j < length hs2" by simp
      from IH [OF this] Suc created hs c gen_index_bump [OF g] show ?thesis
        by (simp add: mod_simps)
    qed
  next
    case (closed k)
    with Cons.prems(1) hs IH [of i] show ?thesis by (simp add: Close_ok)
  next
    case failed
    with Cons.prems(1) hs IH [of i] show ?thesis by simp
  qed
qed

lemma Close_keeps_dead:
  assumes "Close t h = (Inr (), t')" "lookup_handle t k = None"
  shows "lookup_handle t' k = None"
proof (cases "GetSlot k = GetSlot h")
  case False
  then have "unat (GetSlot k) \<noteq> unat (GetSlot h)" by (rule unat_neqI)
  with assms(2) Close_ok [OF assms(1)] show ?thesis
    by (auto simp: lookup_handle_eq IsValid_def Let_def split: if_splits)
next
  case True
  with Close_ok [OF assms(1)] show ?thesis by (simp add: lookup_handle_eq IsValid_def Let_def)
qed

lemma ht_step_keeps_dead:
  assumes "ht_inv t" "ht_step ct cp t x = (hs, t')" "canonical k" "lookup_handle t k = None"
    "k \<notin> set hs"
  shows "lookup_handle t' k = None"
  using assms(2)
proof (cases rule: ht_step_cases)
  case (created obj h)
  with assms(5) have "Inr h \<noteq> (Inr k :: result_code + u32)" by simp
  then show ?thesis by (rule handles.create_keeps_dead [OF assms(1) created(1) assms(3,4)])
next
  case (closed h)
  show ?thesis by (rule Close_keeps_dead [OF closed(1) assms(4)])
next
  case failed
  with assms show ?thesis by simp
qed

lemma ht_run_keeps_dead:
  assumes "ht_inv t" "ht_run ct cp t xs = (hs, t')" "canonical k" "lookup_handle t k = None"
    "k \<notin> set hs"
  shows "lookup_handle t' k = None"
  using assms
proof (induction xs arbitrary: t hs)
  case Nil
  then show ?case by simp
next
  case (Cons x xs)
  from Cons.prems(2) obtain hs1 t1 hs2 where
    step: "ht_step ct cp t x = (hs1, t1)" and run: "ht_run ct cp t1 xs = (hs2, t')"
    and hs: "hs = hs1 @ hs2"
    by (auto split: prod.splits)
  have "ht_inv t1" using Cons.prems(1) step by (rule ht_step_inv)
  moreover have "lookup_handle t1 k = None"
    using ht_step_keeps_dead [OF Cons.prems(1) step] Cons.prems hs by simp
  ultimately show ?case using Cons.IH run Cons.prems hs by simp
qed

section \<open>The table as a map\<close>

text \<open>
  What the table promises: a finite map from handles to objects. \<open>Create\<close> adds a fresh
  handle, \<open>Close\<close> removes one, and neither touches another handle.
\<close>

definition handle_map :: "'o handle_table \<Rightarrow> u32 \<Rightarrow> 'o option" where
  "handle_map t h = (if canonical h then lookup_handle t h else None)"

lemma handle_map_Create:
  assumes "ht_inv t" "Create t x = (Inr h, t')"
  shows "handle_map t' = (handle_map t)(h \<mapsto> x)"
  using handles.create_lookup [OF assms] handles.create_other [OF assms] Create_ok(5) [OF assms]
  by (auto simp: handle_map_def)

lemma handle_map_Close:
  assumes "ht_inv t" "canonical h" "Close t h = (Inr (), t')"
  shows "handle_map t' = (handle_map t)(h := None)"
  using handles.close_lookup [OF assms(1,3)] handles.close_other [OF assms(1,3,2)]
  by (auto simp: handle_map_def)

text \<open>
  C1: creating a handle in a well-formed table fails with \<open>ResultOutOfHandles\<close>, changing nothing,
  exactly when all 4096 slots are taken; otherwise it returns a handle that was not in use and
  the table's map gains that handle, with the object, and nothing else.
\<close>

theorem Create_refines_insert:
  assumes "ht_inv t"
  shows "if empty_slots t = {} then Create t x = (Inl ResultOutOfHandles, t)
         else \<exists>h t'. Create t x = (Inr h, t') \<and> ht_inv t' \<and> handle_map t h = None
                \<and> handle_map t' = (handle_map t)(h \<mapsto> x)"
proof (cases "empty_slots t = {}")
  case True
  with free_head_iff [OF assms] show ?thesis by (simp add: Create_cases)
next
  case False
  with free_head_iff [OF assms] obtain h t' where cr: "Create t x = (Inr h, t')"
    by (simp add: Create_cases)
  moreover have "ht_inv t'" using assms cr by (rule Create_inv)
  moreover have "handle_map t h = None"
    using handles.create_fresh [OF assms cr] by (simp add: handle_map_def)
  ultimately show ?thesis using False handle_map_Create [OF assms cr] by auto
qed

lemma empty_slots_init: "0 \<in> empty_slots HandleTable_init"
  by (simp add: empty_slots_def HandleTable_init_def Clear_def MAX_COUNT_def)

theorem Create_refines_insert_witness:
  "\<exists>h t'. Create (HandleTable_init :: nat handle_table) 7 = (Inr h, t') \<and> handle_map t' h = Some 7"
proof -
  have "empty_slots (HandleTable_init :: nat handle_table) \<noteq> {}" using empty_slots_init by blast
  with Create_refines_insert [OF HandleTable_init_inv, of "7 :: nat"] show ?thesis by auto
qed

lemma handle_bit_31_fields:
  "GetSlot (h OR 0x80000000) = GetSlot h" "GetGeneration (h OR 0x80000000) = GetGeneration h"
proof -
  have mask: "(0x7FFF :: u32) = mask 15" by (simp add: mask_eq_exp_minus_1)
  have fields: "GetSlot (h OR k) = GetSlot h \<and> GetGeneration (h OR k) = GetGeneration h"
    if "\<And>n. bit k n \<longleftrightarrow> n = 31" for k
    by (auto intro!: bit_word_eqI simp: GetSlot_def GetGeneration_def mask bit_simps that)
  have "(0x80000000 :: u32) = push_bit 31 1" by simp
  then have "bit (0x80000000 :: u32) n \<longleftrightarrow> n = 31" for n
    by (simp only: bit_push_bit_iff bit_1_iff) auto
  with fields show "GetSlot (h OR 0x80000000) = GetSlot h" "GetGeneration (h OR 0x80000000) = GetGeneration h" by blast+
qed

text \<open>
  Neither the slot nor the generation is read from bit 31, so a handle is named by its other 31 bits:
  the map of the table is that of these names.
\<close>

definition name_of :: "u32 \<Rightarrow> u32" where
  "name_of h = h AND 0x7FFFFFFF"

lemma name_of_fields:
  "GetSlot (name_of h) = GetSlot h" "GetGeneration (name_of h) = GetGeneration h" "canonical (name_of h)"
proof -
  have mask: "(0x7FFF :: u32) = mask 15" "(0x7FFFFFFF :: u32) = mask 31" by (simp_all add: mask_eq_exp_minus_1)
  show "GetSlot (name_of h) = GetSlot h" "GetGeneration (name_of h) = GetGeneration h"
    by (auto intro!: bit_word_eqI simp: GetSlot_def GetGeneration_def name_of_def mask bit_simps)
  have "unat (h AND mask 31) = take_bit 31 (unat h)" by (simp add: take_bit_eq_mask [symmetric] unsigned_take_bit_eq)
  then have "unat (h AND mask 31) < 2 ^ 31" by (simp only: take_bit_nat_less_exp)
  then show "canonical (name_of h)" by (simp add: canonical_def name_of_def mask)
qed

lemma name_of_validity: "IsValid t (name_of h) = IsValid t h" "Close t (name_of h) = Close t h"
  by (simp_all add: IsValid_def Close_def name_of_fields)



text \<open>
  C3: the table stays well formed under every sequence of creations, duplications and closes that
  starts from a new table: its free list never loops or loses a slot, and it never holds a
  generation outside 1 to \<open>0x7FFF\<close>.
\<close>

theorem handle_table_always_well_formed:
  "ht_inv (snd (ht_run ct cp HandleTable_init ops))"
  using ht_run_inv [OF HandleTable_init_inv]
  by (cases "ht_run ct cp HandleTable_init ops") auto

text \<open>
  C4: a closed handle does not come back to life while fewer than \<open>0x7FFF\<close> handles have been given
  out since it was created, even when its slot has been taken again: the generation in the
  handle tells the two apart.
\<close>

theorem closed_handle_stays_dead:
  assumes "ht_inv t" "Create t obj = (Inr h, t1)" "ht_run ct cp t1 ops1 = (hs1, t2)"
    "Close t2 h = (Inr (), t3)" "ht_run ct cp t3 ops2 = (hs2, t4)"
    "length hs1 + length hs2 < 0x7FFE"
  shows "lookup_handle t4 h = None"
proof -
  have inv1: "ht_inv t1" using assms(1,2) by (rule Create_inv)
  have inv2: "ht_inv t2" using inv1 assms(3) by (rule ht_run_inv)
  have inv3: "ht_inv t3" using inv2 assms(4) by (rule Close_inv)
  note c = Create_ok [OF assms(1,2)]
  let ?n = "gen_index (next_generation t)"
  have idx: "?n < 0x7FFF" using gen_index_less ht_inv_next assms(1) by blast
  have t1: "gen_index (next_generation t1) = Suc ?n mod 0x7FFF"
    using c(8) gen_index_bump ht_inv_next [OF assms(1)] by simp
  have run: "ht_run ct cp t1 (ops1 @ OpClose h # ops2) = (hs1 @ hs2, t4)"
    using assms(3-5) by (simp add: ht_run_append)
  have "h \<notin> set (hs1 @ hs2)"
  proof
    assume "h \<in> set (hs1 @ hs2)"
    then obtain i where i: "i < length (hs1 @ hs2)" "(hs1 @ hs2) ! i = h"
      by (metis in_set_conv_nth)
    from ht_run_generations [OF inv1 run i(1)] i(2) c(4) t1
    have "?n = (Suc ?n + i) mod 0x7FFF" by (simp add: mod_simps)
    moreover have "i < 0x7FFE" using i(1) assms(6) by simp
    ultimately show False using idx cyclic_successor_neq [of ?n "0x7FFF" i] by simp
  qed
  then have "h \<notin> set hs2" by simp
  moreover have "lookup_handle t3 h = None" using inv2 assms(4) by (rule handles.close_lookup)
  ultimately show ?thesis using ht_run_keeps_dead [OF inv3 assms(5) c(5)] by blast
qed

theorem closed_handle_stays_dead_witness:
  "\<exists>t1 t3 t4. Create (HandleTable_init :: nat handle_table) 7 = (Inr 1, t1)
     \<and> Close t1 1 = (Inr (), t3)
     \<and> ht_run None None t3 [OpCreate 8] = ([2], t4) \<and> lookup_handle t4 1 = None"
proof -
  let ?t0 = "HandleTable_init :: nat handle_table"
  obtain r1 t1 where c1: "Create ?t0 7 = (r1, t1)" by fastforce
  then have r1: "r1 = Inr 1" and
    t1: "t1 = ?t0\<lparr>next_free_slot := 1, next_generation := 2, generations := (generations ?t0)(0 := 1),
         objects := (objects ?t0)(0 := Some 7)\<rparr>"
    by (simp_all add: Create_cases HandleTable_init_def Clear_def MAX_COUNT_def bump_generation_def)
  obtain r3 t3 where c3: "Close t1 1 = (r3, t3)" by fastforce
  then have r3: "r3 = Inr ()" and
    t3: "t3 = t1\<lparr>objects := (objects t1)(0 := None), generations := (generations t1)(0 := 1),
         next_free_slot := 0\<rparr>"
    by (simp_all add: t1 Close_def IsValid_def Let_def GetSlot_def GetGeneration_def MAX_COUNT_def)
  obtain hs t4 where c4: "ht_run None None t3 [OpCreate 8] = (hs, t4)" by fastforce
  then have hs: "hs = [2]"
    by (simp add: t3 t1 Create_cases MAX_COUNT_def)
  from c3 r3 have cl: "Close t1 1 = (Inr (), t3)" by simp
  from c1 r1 have cr: "Create ?t0 7 = (Inr 1, t1)" by simp
  have "lookup_handle t4 1 = None"
    by (rule closed_handle_stays_dead [OF HandleTable_init_inv cr ht_run.simps(1) cl c4])
       (simp add: hs)
  with cr cl c4 hs show ?thesis by blast
qed

text \<open>
  bit 31 of a handle takes no part in its validation. The header documents the slot index as bits
  31 to 15, but \<open>GetSlot\<close> keeps 16 of those 17 bits, so every handle in use answers to a
  second, never created, name: setting bit 31 gives the same slot, generation and validity, and
  closes the same object.
\<close>

theorem handle_bit_31_ignored:
  "GetSlot (h OR 0x80000000) = GetSlot h \<and> GetGeneration (h OR 0x80000000) = GetGeneration h
   \<and> IsValid t (h OR 0x80000000) = IsValid t h \<and> Close t (h OR 0x80000000) = Close t h"
  by (simp add: IsValid_def Close_def handle_bit_31_fields)

end
