(* ===== verification/Memory.thy ===== *)
theory Memory imports Prelude "HOL-Library.Monad_Syntax" begin

text \<open>
  The emulated address space of src/core/memory.cpp: backing buffers, per-process page tables,
  the rasterizer cache marker, typed reads and writes, block transfers across pages and the
  physical-address lookup with its one-entry cache.

  A failed \<open>ASSERT\<close>, an \<open>UNREACHABLE\<close> (both stop the emulator in every build) or an index past
  the page table's last entry is the outcome \<^const>\<open>None\<close>, and so is a copy that does not stay within
  one backing buffer (\<open>host_read\<close>, \<open>host_write\<close>).
\<close>

section \<open>Constants\<close>

abbreviation PAGE_SIZE :: nat where "PAGE_SIZE \<equiv> 4096"
abbreviation PAGE_TABLE_NUM_ENTRIES :: nat where "PAGE_TABLE_NUM_ENTRIES \<equiv> 1048576"

definition IO_AREA_PADDR :: u32 where "IO_AREA_PADDR = 0x10100000"
definition VRAM_PADDR :: u32 where "VRAM_PADDR = 0x18000000"
definition VRAM_SIZE :: u32 where "VRAM_SIZE = 0x00600000"
definition N3DS_EXTRA_RAM_PADDR :: u32 where "N3DS_EXTRA_RAM_PADDR = 0x1F000000"
definition N3DS_EXTRA_RAM_SIZE :: u32 where "N3DS_EXTRA_RAM_SIZE = 0x00400000"
definition DSP_RAM_PADDR :: u32 where "DSP_RAM_PADDR = 0x1FF00000"
definition DSP_RAM_SIZE :: u32 where "DSP_RAM_SIZE = 0x00080000"
definition FCRAM_PADDR :: u32 where "FCRAM_PADDR = 0x20000000"
definition FCRAM_SIZE :: u32 where "FCRAM_SIZE = 0x08000000"
definition FCRAM_N3DS_SIZE :: u32 where "FCRAM_N3DS_SIZE = 0x10000000"
definition LINEAR_HEAP_VADDR :: u32 where "LINEAR_HEAP_VADDR = 0x14000000"
definition LINEAR_HEAP_SIZE :: u32 where "LINEAR_HEAP_SIZE = 0x08000000"
definition VRAM_VADDR :: u32 where "VRAM_VADDR = 0x1F000000"
definition NEW_LINEAR_HEAP_VADDR :: u32 where "NEW_LINEAR_HEAP_VADDR = 0x30000000"
definition NEW_LINEAR_HEAP_SIZE :: u32 where "NEW_LINEAR_HEAP_SIZE = 0x10000000"
definition PLUGIN_3GX_FB_VADDR :: u32 where "PLUGIN_3GX_FB_VADDR = 0x06000000"
definition PLUGIN_3GX_FB_SIZE :: u32 where "PLUGIN_3GX_FB_SIZE = 0x000A9000"

lemmas memory_map_defs =
  IO_AREA_PADDR_def VRAM_PADDR_def VRAM_SIZE_def N3DS_EXTRA_RAM_PADDR_def N3DS_EXTRA_RAM_SIZE_def
  DSP_RAM_PADDR_def DSP_RAM_SIZE_def FCRAM_PADDR_def FCRAM_SIZE_def FCRAM_N3DS_SIZE_def
  LINEAR_HEAP_VADDR_def LINEAR_HEAP_SIZE_def VRAM_VADDR_def NEW_LINEAR_HEAP_VADDR_def
  NEW_LINEAR_HEAP_SIZE_def PLUGIN_3GX_FB_VADDR_def PLUGIN_3GX_FB_SIZE_def

definition in_range :: "u32 \<Rightarrow> u32 \<Rightarrow> u32 \<Rightarrow> bool" where
  "in_range a start sz \<longleftrightarrow> start \<le> a \<and> a < start + sz"

section \<open>Backing memory and references\<close>

datatype Region = FCRAM | VRAM | DSP | N3DS

text \<open>A backing object: one of the fixed regions, or a buffer of its own size.\<close>

datatype BackingMem = RegionMem Region | BufferMem nat nat

fun GetSize :: "Region \<Rightarrow> u32" where
  "GetSize VRAM = VRAM_SIZE"
| "GetSize DSP = DSP_RAM_SIZE"
| "GetSize FCRAM = FCRAM_N3DS_SIZE"
| "GetSize N3DS = N3DS_EXTRA_RAM_SIZE"

fun backing_size :: "BackingMem \<Rightarrow> nat" where
  "backing_size (RegionMem r) = unat (GetSize r)"
| "backing_size (BufferMem _ sz) = sz"

text \<open>A \<open>MemoryRef\<close> is a backing object and an offset; \<^const>\<open>None\<close> is the null reference.\<close>

type_synonym MemoryRef = "(BackingMem \<times> nat) option"

definition make_ref :: "BackingMem \<Rightarrow> nat \<Rightarrow> MemoryRef option" where
  "make_ref b offset = (if offset \<le> backing_size b then Some (Some (b, offset)) else None)"

fun ref_size :: "MemoryRef \<Rightarrow> nat" where
  "ref_size None = 0"
| "ref_size (Some (b, offset)) = backing_size b - offset"

definition ref_plus :: "MemoryRef \<Rightarrow> nat \<Rightarrow> MemoryRef option" where
  "ref_plus m n = (if n < ref_size m then Some (map_option (\<lambda>(b, offset). (b, offset + n)) m) else None)"

type_synonym store = "BackingMem \<Rightarrow> nat \<Rightarrow> u8"

definition read_bytes :: "store \<Rightarrow> BackingMem \<Rightarrow> nat \<Rightarrow> nat \<Rightarrow> u8 list" where
  "read_bytes st b offset n = map (\<lambda>i. st b (offset + i)) [0..<n]"

definition write_bytes :: "store \<Rightarrow> BackingMem \<Rightarrow> nat \<Rightarrow> u8 list \<Rightarrow> store" where
  "write_bytes st b offset bs =
     st(b := (\<lambda>i. if offset \<le> i \<and> i < offset + length bs then bs ! (i - offset) else st b i))"

text \<open>
  \<open>memcpy\<close> and \<open>memset\<close> on a host buffer: a range that is not all inside the buffer is \<^const>\<open>None\<close>.
\<close>

definition host_read :: "store \<Rightarrow> BackingMem \<Rightarrow> nat \<Rightarrow> nat \<Rightarrow> u8 list option" where
  "host_read st b offset n = (if offset + n \<le> backing_size b then Some (read_bytes st b offset n) else None)"

definition host_write :: "store \<Rightarrow> BackingMem \<Rightarrow> nat \<Rightarrow> u8 list \<Rightarrow> store option" where
  "host_write st b offset bs =
     (if offset + length bs \<le> backing_size b then Some (write_bytes st b offset bs) else None)"

section \<open>Page tables and the memory system's state\<close>

datatype PageType = Unmapped | PageMemory | RasterizerCachedMemory

record PageTable =
  pointers :: "nat \<Rightarrow> MemoryRef"
  attributes :: "nat \<Rightarrow> PageType"

definition PageTable_Clear :: PageTable where
  "PageTable_Clear = \<lparr>pointers = (\<lambda>_. None), attributes = (\<lambda>_. Unmapped)\<rparr>"

record CacheMarker =
  cm_vram :: "nat \<Rightarrow> bool"
  cm_linear_heap :: "nat \<Rightarrow> bool"
  cm_new_linear_heap :: "nat \<Rightarrow> bool"
  cm_plugin_fb :: "nat \<Rightarrow> bool"

datatype FlushMode = Flush | Invalidate | FlushAndInvalidate

text \<open>
  \<open>page_tables\<close> holds the page tables the processes own, by identity; \<open>page_table_list\<close> and
  \<open>current_page_table\<close> refer to them. \<open>plugin_fb\<close> is the plugin loader's framebuffer address,
  \<^const>\<open>None\<close> when the service is not there. \<open>physical_ptr_cache\<close> is the last lookup of
  \<open>GetPhysicalRef\<close>.
\<close>

record MemorySystem =
  bytes :: store
  page_tables :: "nat \<Rightarrow> PageTable"
  current_page_table :: nat
  page_table_list :: "nat list"
  cache_marker :: CacheMarker
  plugin_fb :: "u32 option"
  powered_on :: bool
  physical_ptr_cache :: "u32 \<times> MemoryRef"

text \<open>
  What the memory system calls and this development does not model: the renderer's three cache
  operations, which may write surfaces back to the buffers and call back to unmark pages, and
  the GPU's registers.
\<close>

record Devices =
  rasterizer :: "FlushMode \<Rightarrow> u32 \<Rightarrow> u32 \<Rightarrow> MemorySystem \<Rightarrow> MemorySystem"
  ReadReg :: "u32 \<Rightarrow> MemorySystem \<Rightarrow> u32"
  WriteReg :: "u32 \<Rightarrow> u32 \<Rightarrow> MemorySystem \<Rightarrow> MemorySystem"

abbreviation current_table :: "MemorySystem \<Rightarrow> PageTable" where
  "current_table m \<equiv> page_tables m (current_page_table m)"

definition page_of :: "u32 \<Rightarrow> nat" where
  "page_of vaddr = unat (drop_bit 12 vaddr)"

definition page_offset_of :: "u32 \<Rightarrow> nat" where
  "page_offset_of vaddr = unat (vaddr AND 0xFFF)"

section \<open>The rasterizer cache marker\<close>

definition page_in :: "u32 \<Rightarrow> u32 \<Rightarrow> nat" where
  "page_in addr start = unat (drop_bit 12 (addr - start))"

definition Mark :: "CacheMarker \<Rightarrow> u32 \<Rightarrow> bool \<Rightarrow> CacheMarker" where
  "Mark c addr cached =
     (if in_range addr VRAM_VADDR VRAM_SIZE
      then c\<lparr>cm_vram := (cm_vram c)(page_in addr VRAM_VADDR := cached)\<rparr>
      else if in_range addr LINEAR_HEAP_VADDR LINEAR_HEAP_SIZE
      then c\<lparr>cm_linear_heap := (cm_linear_heap c)(page_in addr LINEAR_HEAP_VADDR := cached)\<rparr>
      else if in_range addr NEW_LINEAR_HEAP_VADDR NEW_LINEAR_HEAP_SIZE
      then c\<lparr>cm_new_linear_heap :=
                (cm_new_linear_heap c)(page_in addr NEW_LINEAR_HEAP_VADDR := cached)\<rparr>
      else if in_range addr PLUGIN_3GX_FB_VADDR PLUGIN_3GX_FB_SIZE
      then c\<lparr>cm_plugin_fb := (cm_plugin_fb c)(page_in addr PLUGIN_3GX_FB_VADDR := cached)\<rparr>
      else c)"

definition IsCached :: "CacheMarker \<Rightarrow> u32 \<Rightarrow> bool" where
  "IsCached c addr =
     (if in_range addr VRAM_VADDR VRAM_SIZE then cm_vram c (page_in addr VRAM_VADDR)
      else if in_range addr LINEAR_HEAP_VADDR LINEAR_HEAP_SIZE
      then cm_linear_heap c (page_in addr LINEAR_HEAP_VADDR)
      else if in_range addr NEW_LINEAR_HEAP_VADDR NEW_LINEAR_HEAP_SIZE
      then cm_new_linear_heap c (page_in addr NEW_LINEAR_HEAP_VADDR)
      else if in_range addr PLUGIN_3GX_FB_VADDR PLUGIN_3GX_FB_SIZE
      then cm_plugin_fb c (page_in addr PLUGIN_3GX_FB_VADDR)
      else False)"

section \<open>Rasterizer pointers and flushes\<close>

definition GetPointerForRasterizerCache :: "MemorySystem \<Rightarrow> u32 \<Rightarrow> MemoryRef option" where
  "GetPointerForRasterizerCache m addr =
     (if in_range addr LINEAR_HEAP_VADDR LINEAR_HEAP_SIZE
      then make_ref (RegionMem FCRAM) (unat (addr - LINEAR_HEAP_VADDR))
      else if in_range addr NEW_LINEAR_HEAP_VADDR NEW_LINEAR_HEAP_SIZE
      then make_ref (RegionMem FCRAM) (unat (addr - NEW_LINEAR_HEAP_VADDR))
      else if in_range addr VRAM_VADDR VRAM_SIZE
      then make_ref (RegionMem VRAM) (unat (addr - VRAM_VADDR))
      else if in_range addr PLUGIN_3GX_FB_VADDR PLUGIN_3GX_FB_SIZE
      then (case plugin_fb m of
              Some fb \<Rightarrow> make_ref (RegionMem FCRAM)
                            (unat (addr - PLUGIN_3GX_FB_VADDR + fb - FCRAM_PADDR))
            | None \<Rightarrow> None)
      else None)"

text \<open>The raw-pointer twin, which skips the reference and its bound check on the common regions.\<close>

definition GetRawPointerForRasterizerCache ::
  "MemorySystem \<Rightarrow> u32 \<Rightarrow> (BackingMem \<times> nat) option" where
  "GetRawPointerForRasterizerCache m addr =
     (if in_range addr LINEAR_HEAP_VADDR LINEAR_HEAP_SIZE
      then Some (RegionMem FCRAM, unat (addr - LINEAR_HEAP_VADDR))
      else if in_range addr NEW_LINEAR_HEAP_VADDR NEW_LINEAR_HEAP_SIZE
      then Some (RegionMem FCRAM, unat (addr - NEW_LINEAR_HEAP_VADDR))
      else if in_range addr VRAM_VADDR VRAM_SIZE
      then Some (RegionMem VRAM, unat (addr - VRAM_VADDR))
      else (case GetPointerForRasterizerCache m addr of None \<Rightarrow> None | Some r \<Rightarrow> r))"

definition CheckRegion ::
  "Devices \<Rightarrow> u32 \<Rightarrow> u32 \<Rightarrow> FlushMode \<Rightarrow> u32 \<Rightarrow> u32 \<Rightarrow> u32 \<Rightarrow> MemorySystem \<Rightarrow> MemorySystem" where
  "CheckRegion D start finish mode region_start region_end paddr_region_start m =
     (if region_end \<le> start \<or> finish \<le> region_start then m
      else
        let overlap_start = max start region_start;
            overlap_end = min finish region_end;
            physical_start = paddr_region_start + (overlap_start - region_start);
            overlap_size = overlap_end - overlap_start
        in rasterizer D mode physical_start overlap_size m)"

definition RasterizerFlushVirtualRegion ::
  "Devices \<Rightarrow> MemorySystem \<Rightarrow> u32 \<Rightarrow> u32 \<Rightarrow> FlushMode \<Rightarrow> MemorySystem" where
  "RasterizerFlushVirtualRegion D m start sz mode =
     (let finish = start + sz;
          m1 = CheckRegion D start finish mode LINEAR_HEAP_VADDR
                 (LINEAR_HEAP_VADDR + LINEAR_HEAP_SIZE) FCRAM_PADDR m;
          m2 = CheckRegion D start finish mode NEW_LINEAR_HEAP_VADDR
                 (NEW_LINEAR_HEAP_VADDR + NEW_LINEAR_HEAP_SIZE) FCRAM_PADDR m1;
          m3 = CheckRegion D start finish mode VRAM_VADDR (VRAM_VADDR + VRAM_SIZE) VRAM_PADDR m2
      in case plugin_fb m3 of
           Some fb \<Rightarrow>
             if fb \<noteq> 0
             then CheckRegion D start finish mode PLUGIN_3GX_FB_VADDR
                    (PLUGIN_3GX_FB_VADDR + PLUGIN_3GX_FB_SIZE) fb m3
             else m3
         | None \<Rightarrow> m3)"

section \<open>Mapping pages\<close>

definition set_page :: "nat \<Rightarrow> PageType \<Rightarrow> MemoryRef \<Rightarrow> PageTable \<Rightarrow> PageTable" where
  "set_page page type ref pt =
     pt\<lparr>attributes := (attributes pt)(page := type), pointers := (pointers pt)(page := ref)\<rparr>"

function MapPages_loop ::
  "CacheMarker \<Rightarrow> PageTable \<Rightarrow> nat \<Rightarrow> nat \<Rightarrow> MemoryRef \<Rightarrow> PageType \<Rightarrow> PageTable option" where
  "MapPages_loop c pt base finish memory type =
     (if base = finish then Some pt
      else if \<not> base < PAGE_TABLE_NUM_ENTRIES then None
      else
        let pt1 = set_page base type memory pt;
            pt2 = (if type = PageMemory \<and> IsCached c (of_nat base * 0x1000)
                   then set_page base RasterizerCachedMemory None pt1 else pt1)
        in do {
             memory' \<leftarrow> (if memory \<noteq> None \<and> PAGE_SIZE < ref_size memory
                        then ref_plus memory PAGE_SIZE else Some memory);
             MapPages_loop c pt2 (Suc base) finish memory' type
           })"
  by pat_completeness auto
termination
  by (relation "measure (\<lambda>(_, _, base, _). PAGE_TABLE_NUM_ENTRIES - base)") auto

declare MapPages_loop.simps [simp del]

definition MapPages ::
  "Devices \<Rightarrow> MemorySystem \<Rightarrow> nat \<Rightarrow> u32 \<Rightarrow> u32 \<Rightarrow> MemoryRef \<Rightarrow> PageType \<Rightarrow> MemorySystem option" where
  "MapPages D m table base sz memory type =
     (let m1 = (if powered_on m
                then RasterizerFlushVirtualRegion D m (push_bit 12 base) (sz * 0x1000) FlushAndInvalidate
                else m)
      in do {
           pt \<leftarrow> MapPages_loop (cache_marker m1) (page_tables m1 table) (unat base)
                  (unat (base + sz)) memory type;
           Some (m1\<lparr>page_tables := (page_tables m1)(table := pt)\<rparr>)
         })"

definition page_aligned :: "u32 \<Rightarrow> bool" where
  "page_aligned w \<longleftrightarrow> w AND 0xFFF = 0"

definition MapMemoryRegion ::
  "Devices \<Rightarrow> MemorySystem \<Rightarrow> nat \<Rightarrow> u32 \<Rightarrow> u32 \<Rightarrow> MemoryRef \<Rightarrow> MemorySystem option" where
  "MapMemoryRegion D m table base sz target =
     (if \<not> page_aligned sz \<or> \<not> page_aligned base then None
      else MapPages D m table (base div 0x1000) (sz div 0x1000) target PageMemory)"

definition UnmapRegion ::
  "Devices \<Rightarrow> MemorySystem \<Rightarrow> nat \<Rightarrow> u32 \<Rightarrow> u32 \<Rightarrow> MemorySystem option" where
  "UnmapRegion D m table base sz =
     (if \<not> page_aligned sz \<or> \<not> page_aligned base then None
      else MapPages D m table (base div 0x1000) (sz div 0x1000) None Unmapped)"

section \<open>Typed reads and writes\<close>

text \<open>
  \<open>memcpy\<close> between a little-endian host integer and the buffer. \<open>le_bytes n w\<close> is the first \<open>n\<close>
  bytes of \<open>w\<close>, \<open>le_word\<close> puts them together again.
\<close>

definition le_bytes :: "nat \<Rightarrow> 'a::len word \<Rightarrow> u8 list" where
  "le_bytes n w = map (\<lambda>i. ucast (drop_bit (8 * i) w)) [0..<n]"

fun le_word :: "u8 list \<Rightarrow> 'a::len word" where
  "le_word [] = 0"
| "le_word (b # bs) = ucast b OR push_bit 8 (le_word bs)"

definition load :: "store \<Rightarrow> BackingMem \<Rightarrow> nat \<Rightarrow> 'a::len word option" where
  "load st b offset = map_option le_word (host_read st b offset (LENGTH('a) div 8))"

definition store_word :: "store \<Rightarrow> BackingMem \<Rightarrow> nat \<Rightarrow> 'a::len word \<Rightarrow> store option" where
  "store_word st b offset w = host_write st b offset (le_bytes (LENGTH('a) div 8) w)"

text \<open>The Luma3DS window: with bit 31 set, the rest is a physical address.\<close>

definition luma_paddr :: "u32 \<Rightarrow> u32" where
  "luma_paddr vaddr = vaddr AND NOT 0x80000000"

definition luma_fcram :: "u32 \<Rightarrow> bool" where
  "luma_fcram vaddr \<longleftrightarrow> bit vaddr 31 \<and> luma_paddr vaddr AND 0xF0000000 = FCRAM_PADDR"

definition luma_mmio :: "u32 \<Rightarrow> bool" where
  "luma_mmio vaddr \<longleftrightarrow> bit vaddr 31 \<and> luma_paddr vaddr AND 0xF0000000 = 0x10000000
     \<and> IO_AREA_PADDR \<le> luma_paddr vaddr"

definition mmio_reg :: "u32 \<Rightarrow> u32" where
  "mmio_reg vaddr = luma_paddr vaddr - IO_AREA_PADDR + 0x1EC00000"

definition Read :: "Devices \<Rightarrow> MemorySystem \<Rightarrow> u32 \<Rightarrow> ('a::len word \<times> MemorySystem) option" where
  "Read D m vaddr =
     (case pointers (current_table m) (page_of vaddr) of
        Some (b, offset) \<Rightarrow> map_option (\<lambda>w. (w, m)) (load (bytes m) b (offset + page_offset_of vaddr))
      | None \<Rightarrow>
          if luma_fcram vaddr
          then map_option (\<lambda>w. (w, m)) (load (bytes m) (RegionMem FCRAM) (unat (luma_paddr vaddr - FCRAM_PADDR)))
          else if luma_mmio vaddr then Some (ucast (ReadReg D (mmio_reg vaddr) m), m)
          else (case attributes (current_table m) (page_of vaddr) of
            Unmapped \<Rightarrow> Some (0, m)
          | PageMemory \<Rightarrow> None
          | RasterizerCachedMemory \<Rightarrow>
              let m' = RasterizerFlushVirtualRegion D m vaddr (of_nat (LENGTH('a) div 8)) Flush
              in do { (b, offset) \<leftarrow> GetRawPointerForRasterizerCache m' vaddr;
                      map_option (\<lambda>w. (w, m')) (load (bytes m') b offset) }))"

definition Write :: "Devices \<Rightarrow> MemorySystem \<Rightarrow> u32 \<Rightarrow> 'a::len word \<Rightarrow> MemorySystem option" where
  "Write D m vaddr data =
     (case pointers (current_table m) (page_of vaddr) of
        Some (b, offset) \<Rightarrow>
          map_option (\<lambda>st. m\<lparr>bytes := st\<rparr>) (store_word (bytes m) b (offset + page_offset_of vaddr) data)
      | None \<Rightarrow>
          if luma_fcram vaddr
          then map_option (\<lambda>st. m\<lparr>bytes := st\<rparr>)
                 (store_word (bytes m) (RegionMem FCRAM) (unat (luma_paddr vaddr - FCRAM_PADDR)) data)
          else if luma_mmio vaddr
          then (if LENGTH('a) = 32 then Some (WriteReg D (mmio_reg vaddr) (ucast data) m) else None)
          else (case attributes (current_table m) (page_of vaddr) of
            Unmapped \<Rightarrow> Some m
          | PageMemory \<Rightarrow> None
          | RasterizerCachedMemory \<Rightarrow>
              let m' = RasterizerFlushVirtualRegion D m vaddr (of_nat (LENGTH('a) div 8)) Invalidate
              in do { (b, offset) \<leftarrow> GetRawPointerForRasterizerCache m' vaddr;
                      map_option (\<lambda>st. m'\<lparr>bytes := st\<rparr>) (store_word (bytes m') b offset data) }))"

text \<open>The compare-and-swap: whether it stored is the result; an unmapped page counts as stored.\<close>

definition AtomicCompareAndSwap ::
  "MemorySystem \<Rightarrow> BackingMem \<Rightarrow> nat \<Rightarrow> 'a::len word \<Rightarrow> 'a word \<Rightarrow> (bool \<times> MemorySystem) option" where
  "AtomicCompareAndSwap m b offset data expected = do {
     w \<leftarrow> load (bytes m) b offset;
     if w = expected then map_option (\<lambda>st. (True, m\<lparr>bytes := st\<rparr>)) (store_word (bytes m) b offset data)
     else Some (False, m) }"

definition WriteExclusive ::
  "Devices \<Rightarrow> MemorySystem \<Rightarrow> u32 \<Rightarrow> 'a::len word \<Rightarrow> 'a word \<Rightarrow> (bool \<times> MemorySystem) option" where
  "WriteExclusive D m vaddr data expected =
     (case pointers (current_table m) (page_of vaddr) of
        Some (b, offset) \<Rightarrow>
          AtomicCompareAndSwap m b (offset + page_offset_of vaddr) data expected
      | None \<Rightarrow>
          (case attributes (current_table m) (page_of vaddr) of
             Unmapped \<Rightarrow> Some (True, m)
           | PageMemory \<Rightarrow> None
           | RasterizerCachedMemory \<Rightarrow>
               let m' = RasterizerFlushVirtualRegion D m vaddr (of_nat (LENGTH('a) div 8)) Invalidate
               in do { (b, offset) \<leftarrow> GetRawPointerForRasterizerCache m' vaddr;
                       AtomicCompareAndSwap m' b offset data expected }))"

definition Read8 :: "Devices \<Rightarrow> MemorySystem \<Rightarrow> u32 \<Rightarrow> (u8 \<times> MemorySystem) option" where
  "Read8 = Read"
definition Read16 :: "Devices \<Rightarrow> MemorySystem \<Rightarrow> u32 \<Rightarrow> (u16 \<times> MemorySystem) option" where
  "Read16 = Read"
definition Read32 :: "Devices \<Rightarrow> MemorySystem \<Rightarrow> u32 \<Rightarrow> (u32 \<times> MemorySystem) option" where
  "Read32 = Read"
definition Read64 :: "Devices \<Rightarrow> MemorySystem \<Rightarrow> u32 \<Rightarrow> (u64 \<times> MemorySystem) option" where
  "Read64 = Read"
definition Write8 :: "Devices \<Rightarrow> MemorySystem \<Rightarrow> u32 \<Rightarrow> u8 \<Rightarrow> MemorySystem option" where
  "Write8 = Write"
definition Write16 :: "Devices \<Rightarrow> MemorySystem \<Rightarrow> u32 \<Rightarrow> u16 \<Rightarrow> MemorySystem option" where
  "Write16 = Write"
definition Write32 :: "Devices \<Rightarrow> MemorySystem \<Rightarrow> u32 \<Rightarrow> u32 \<Rightarrow> MemorySystem option" where
  "Write32 = Write"
definition Write64 :: "Devices \<Rightarrow> MemorySystem \<Rightarrow> u32 \<Rightarrow> u64 \<Rightarrow> MemorySystem option" where
  "Write64 = Write"

lemmas access_defs =
  Read8_def Read16_def Read32_def Read64_def Write8_def Write16_def Write32_def Write64_def

section \<open>Blocks\<close>

text \<open>The address the loops compute back from a page index and an offset in it.\<close>

definition vaddr_at :: "nat \<Rightarrow> nat \<Rightarrow> u32" where
  "vaddr_at page_index page_offset = of_nat (page_index * PAGE_SIZE + page_offset)"

definition copy_amount :: "nat \<Rightarrow> nat \<Rightarrow> nat" where
  "copy_amount page_offset remaining = min (PAGE_SIZE - page_offset) remaining"

text \<open>
  One page's part of a block read. \<open>unsafe\<close> is the template flag that leaves out the flush.
\<close>

definition read_page ::
  "Devices \<Rightarrow> bool \<Rightarrow> nat \<Rightarrow> MemorySystem \<Rightarrow> nat \<Rightarrow> nat \<Rightarrow> nat \<Rightarrow> (u8 list \<times> MemorySystem) option" where
  "read_page D unsafe table m page off n =
     (if \<not> page < PAGE_TABLE_NUM_ENTRIES then None
      else case attributes (page_tables m table) page of
        Unmapped \<Rightarrow> Some (replicate n 0, m)
      | PageMemory \<Rightarrow> do { (b, offset) \<leftarrow> pointers (page_tables m table) page;
                          map_option (\<lambda>bs. (bs, m)) (host_read (bytes m) b (offset + off) n) }
      | RasterizerCachedMemory \<Rightarrow>
          let m' = (if unsafe then m
                    else RasterizerFlushVirtualRegion D m (vaddr_at page off) (of_nat n) Flush)
          in do { (b, offset) \<leftarrow> GetRawPointerForRasterizerCache m' (vaddr_at page off);
                  map_option (\<lambda>bs. (bs, m')) (host_read (bytes m') b offset n) })"

function ReadBlock_loop ::
  "Devices \<Rightarrow> bool \<Rightarrow> nat \<Rightarrow> MemorySystem \<Rightarrow> nat \<Rightarrow> nat \<Rightarrow> nat \<Rightarrow> (u8 list \<times> MemorySystem) option" where
  "ReadBlock_loop D unsafe table m page off remaining =
     (if remaining = 0 then Some ([], m)
      else
        let n = copy_amount off remaining
        in do {
             (bs, m1) \<leftarrow> read_page D unsafe table m page off n;
             (rest, m2) \<leftarrow> ReadBlock_loop D unsafe table m1 (Suc page) 0 (remaining - n);
             Some (bs @ rest, m2)
           })"
  by pat_completeness auto
termination
  by (relation "measure (\<lambda>(_, _, _, _, _, off, remaining). remaining + (if off < PAGE_SIZE then 0 else 1))")
     (auto simp: copy_amount_def)

declare ReadBlock_loop.simps [simp del]

definition ReadBlockImpl ::
  "Devices \<Rightarrow> bool \<Rightarrow> nat \<Rightarrow> MemorySystem \<Rightarrow> u32 \<Rightarrow> nat \<Rightarrow> (u8 list \<times> MemorySystem) option" where
  "ReadBlockImpl D unsafe table m src_addr sz =
     ReadBlock_loop D unsafe table m (page_of src_addr) (page_offset_of src_addr) sz"

definition write_page ::
  "Devices \<Rightarrow> bool \<Rightarrow> nat \<Rightarrow> MemorySystem \<Rightarrow> nat \<Rightarrow> nat \<Rightarrow> u8 list \<Rightarrow> MemorySystem option" where
  "write_page D unsafe table m page off bs =
     (if \<not> page < PAGE_TABLE_NUM_ENTRIES then None
      else case attributes (page_tables m table) page of
        Unmapped \<Rightarrow> Some m
      | PageMemory \<Rightarrow> do { (b, offset) \<leftarrow> pointers (page_tables m table) page;
                          map_option (\<lambda>st. m\<lparr>bytes := st\<rparr>) (host_write (bytes m) b (offset + off) bs) }
      | RasterizerCachedMemory \<Rightarrow>
          let m' = (if unsafe then m
                    else RasterizerFlushVirtualRegion D m (vaddr_at page off) (of_nat (length bs))
                           Invalidate)
          in do { (b, offset) \<leftarrow> GetRawPointerForRasterizerCache m' (vaddr_at page off);
                  map_option (\<lambda>st. m'\<lparr>bytes := st\<rparr>) (host_write (bytes m') b offset bs) })"

function WriteBlock_loop ::
  "Devices \<Rightarrow> bool \<Rightarrow> nat \<Rightarrow> MemorySystem \<Rightarrow> nat \<Rightarrow> nat \<Rightarrow> u8 list \<Rightarrow> MemorySystem option" where
  "WriteBlock_loop D unsafe table m page off src =
     (if src = [] then Some m
      else
        let n = copy_amount off (length src)
        in do {
             m1 \<leftarrow> write_page D unsafe table m page off (take n src);
             WriteBlock_loop D unsafe table m1 (Suc page) 0 (drop n src)
           })"
  by pat_completeness auto
termination
  by (relation "measure (\<lambda>(_, _, _, _, _, off, src). length src + (if off < PAGE_SIZE then 0 else 1))")
     (auto simp: copy_amount_def)

declare WriteBlock_loop.simps [simp del]

definition WriteBlockImpl ::
  "Devices \<Rightarrow> bool \<Rightarrow> nat \<Rightarrow> MemorySystem \<Rightarrow> u32 \<Rightarrow> u8 list \<Rightarrow> MemorySystem option" where
  "WriteBlockImpl D unsafe table m dest_addr src =
     WriteBlock_loop D unsafe table m (page_of dest_addr) (page_offset_of dest_addr) src"

text \<open>\<open>memset\<close> of one page's part, through the checked reference on cached pages.\<close>

definition zero_page ::
  "Devices \<Rightarrow> nat \<Rightarrow> MemorySystem \<Rightarrow> nat \<Rightarrow> nat \<Rightarrow> nat \<Rightarrow> MemorySystem option" where
  "zero_page D table m page off n =
     (if \<not> page < PAGE_TABLE_NUM_ENTRIES then None
      else case attributes (page_tables m table) page of
        Unmapped \<Rightarrow> Some m
      | PageMemory \<Rightarrow> do { (b, offset) \<leftarrow> pointers (page_tables m table) page;
                          map_option (\<lambda>st. m\<lparr>bytes := st\<rparr>) (host_write (bytes m) b (offset + off) (replicate n 0)) }
      | RasterizerCachedMemory \<Rightarrow>
          let m' = RasterizerFlushVirtualRegion D m (vaddr_at page off) (of_nat n) Invalidate
          in do { ref \<leftarrow> GetPointerForRasterizerCache m' (vaddr_at page off);
                  (b, offset) \<leftarrow> ref;
                  map_option (\<lambda>st. m'\<lparr>bytes := st\<rparr>) (host_write (bytes m') b offset (replicate n 0)) })"

function ZeroBlock_loop ::
  "Devices \<Rightarrow> nat \<Rightarrow> MemorySystem \<Rightarrow> nat \<Rightarrow> nat \<Rightarrow> nat \<Rightarrow> MemorySystem option" where
  "ZeroBlock_loop D table m page off remaining =
     (if remaining = 0 then Some m
      else
        let n = copy_amount off remaining
        in do {
             m1 \<leftarrow> zero_page D table m page off n;
             ZeroBlock_loop D table m1 (Suc page) 0 (remaining - n)
           })"
  by pat_completeness auto
termination
  by (relation "measure (\<lambda>(_, _, _, _, off, remaining). remaining + (if off < PAGE_SIZE then 0 else 1))")
     (auto simp: copy_amount_def)

declare ZeroBlock_loop.simps [simp del]

definition ZeroBlock ::
  "Devices \<Rightarrow> nat \<Rightarrow> MemorySystem \<Rightarrow> u32 \<Rightarrow> nat \<Rightarrow> MemorySystem option" where
  "ZeroBlock D table m dest_addr sz =
     ZeroBlock_loop D table m (page_of dest_addr) (page_offset_of dest_addr) sz"

text \<open>Copying walks the source's pages and writes each part through the destination's table.\<close>

definition copy_page ::
  "Devices \<Rightarrow> nat \<Rightarrow> nat \<Rightarrow> MemorySystem \<Rightarrow> u32 \<Rightarrow> nat \<Rightarrow> nat \<Rightarrow> nat \<Rightarrow> MemorySystem option" where
  "copy_page D dest_table src_table m dest_addr page off n =
     (if \<not> page < PAGE_TABLE_NUM_ENTRIES then None
      else case attributes (page_tables m src_table) page of
        Unmapped \<Rightarrow> ZeroBlock D dest_table m dest_addr n
      | PageMemory \<Rightarrow> do { (b, offset) \<leftarrow> pointers (page_tables m src_table) page;
                          bs \<leftarrow> host_read (bytes m) b (offset + off) n;
                          WriteBlockImpl D False dest_table m dest_addr bs }
      | RasterizerCachedMemory \<Rightarrow>
          let m' = RasterizerFlushVirtualRegion D m (vaddr_at page off) (of_nat n) Flush
          in do { ref \<leftarrow> GetPointerForRasterizerCache m' (vaddr_at page off);
                  (b, offset) \<leftarrow> ref;
                  bs \<leftarrow> host_read (bytes m') b offset n;
                  WriteBlockImpl D False dest_table m' dest_addr bs })"

function CopyBlock_loop ::
  "Devices \<Rightarrow> nat \<Rightarrow> nat \<Rightarrow> MemorySystem \<Rightarrow> u32 \<Rightarrow> nat \<Rightarrow> nat \<Rightarrow> nat \<Rightarrow> MemorySystem option" where
  "CopyBlock_loop D dest_table src_table m dest_addr page off remaining =
     (if remaining = 0 then Some m
      else
        let n = copy_amount off remaining
        in do {
             m1 \<leftarrow> copy_page D dest_table src_table m dest_addr page off n;
             CopyBlock_loop D dest_table src_table m1 (dest_addr + of_nat n) (Suc page) 0 (remaining - n)
           })"
  by pat_completeness auto
termination
  by (relation "measure (\<lambda>(_, _, _, _, _, _, off, remaining).
        remaining + (if off < PAGE_SIZE then 0 else 1))")
     (auto simp: copy_amount_def)

declare CopyBlock_loop.simps [simp del]

definition CopyBlock ::
  "Devices \<Rightarrow> nat \<Rightarrow> nat \<Rightarrow> MemorySystem \<Rightarrow> u32 \<Rightarrow> u32 \<Rightarrow> nat \<Rightarrow> MemorySystem option" where
  "CopyBlock D dest_table src_table m dest_addr src_addr sz =
     CopyBlock_loop D dest_table src_table m dest_addr (page_of src_addr) (page_offset_of src_addr) sz"

section \<open>Address queries\<close>

definition SetCurrentPageTable :: "MemorySystem \<Rightarrow> nat \<Rightarrow> MemorySystem" where
  "SetCurrentPageTable m table = m\<lparr>current_page_table := table\<rparr>"

definition RegisterPageTable :: "MemorySystem \<Rightarrow> nat \<Rightarrow> MemorySystem" where
  "RegisterPageTable m table = m\<lparr>page_table_list := page_table_list m @ [table]\<rparr>"

definition UnregisterPageTable :: "MemorySystem \<Rightarrow> nat \<Rightarrow> MemorySystem" where
  "UnregisterPageTable m table = m\<lparr>page_table_list := remove1 table (page_table_list m)\<rparr>"

definition IsValidVirtualAddress :: "MemorySystem \<Rightarrow> nat \<Rightarrow> u32 \<Rightarrow> bool" where
  "IsValidVirtualAddress m table vaddr \<longleftrightarrow>
     pointers (page_tables m table) (page_of vaddr) \<noteq> None
     \<or> attributes (page_tables m table) (page_of vaddr) = RasterizerCachedMemory"

text \<open>The outer option is the abort, the inner one the null pointer.\<close>

definition GetPointer :: "MemorySystem \<Rightarrow> u32 \<Rightarrow> (BackingMem \<times> nat) option option" where
  "GetPointer m vaddr =
     (case pointers (current_table m) (page_of vaddr) of
        Some (b, offset) \<Rightarrow> Some (Some (b, offset + page_offset_of vaddr))
      | None \<Rightarrow>
          if attributes (current_table m) (page_of vaddr) = RasterizerCachedMemory
          then GetPointerForRasterizerCache m vaddr else Some None)"

fun ReadCString ::
  "Devices \<Rightarrow> MemorySystem \<Rightarrow> u32 \<Rightarrow> nat \<Rightarrow> (u8 list \<times> MemorySystem) option" where
  "ReadCString D m vaddr 0 = Some ([], m)"
| "ReadCString D m vaddr (Suc n) =
     do { (c, m1) \<leftarrow> Read8 D m vaddr;
          if c = 0 then Some ([], m1)
          else do { (rest, m2) \<leftarrow> ReadCString D m1 (vaddr + 1) n; Some (c # rest, m2) } }"

definition memory_areas :: "(u32 \<times> u32 \<times> Region) list" where
  "memory_areas =
     [(VRAM_PADDR, VRAM_SIZE, VRAM), (DSP_RAM_PADDR, DSP_RAM_SIZE, DSP),
      (FCRAM_PADDR, FCRAM_N3DS_SIZE, FCRAM), (N3DS_EXTRA_RAM_PADDR, N3DS_EXTRA_RAM_SIZE, N3DS)]"

text \<open>The lookup proper: the first area that holds the address, its end included.\<close>

definition lookup_physical :: "u32 \<Rightarrow> MemoryRef option" where
  "lookup_physical address =
     (case find (\<lambda>(start, sz, _). start \<le> address \<and> address \<le> start + sz) memory_areas of
        None \<Rightarrow> Some None
      | Some (start, _, r) \<Rightarrow>
          let offset = address - start
          in if GetSize r < offset then Some None else make_ref (RegionMem r) (unat offset))"

definition GetPhysicalRef :: "MemorySystem \<Rightarrow> u32 \<Rightarrow> (MemoryRef \<times> MemorySystem) option" where
  "GetPhysicalRef m address =
     (if address = fst (physical_ptr_cache m) then Some (snd (physical_ptr_cache m), m)
      else do { ref \<leftarrow> lookup_physical address;
                Some (ref, m\<lparr>physical_ptr_cache := (address, ref)\<rparr>) })"

definition IsValidPhysicalAddress :: "MemorySystem \<Rightarrow> u32 \<Rightarrow> (bool \<times> MemorySystem) option" where
  "IsValidPhysicalAddress m paddr =
     do { (ref, m') \<leftarrow> GetPhysicalRef m paddr; Some (ref \<noteq> None, m') }"

definition PhysicalToVirtualAddressForRasterizer :: "MemorySystem \<Rightarrow> u32 \<Rightarrow> u32 list" where
  "PhysicalToVirtualAddressForRasterizer m addr =
     (if in_range addr VRAM_PADDR VRAM_SIZE then [addr - VRAM_PADDR + VRAM_VADDR]
      else if (case plugin_fb m of Some fb \<Rightarrow> in_range addr fb PLUGIN_3GX_FB_SIZE | None \<Rightarrow> False)
      then [addr - the (plugin_fb m) + PLUGIN_3GX_FB_VADDR]
      else if in_range addr FCRAM_PADDR FCRAM_SIZE
      then [addr - FCRAM_PADDR + LINEAR_HEAP_VADDR, addr - FCRAM_PADDR + NEW_LINEAR_HEAP_VADDR]
      else if FCRAM_PADDR + FCRAM_SIZE \<le> addr \<and> addr < FCRAM_PADDR + FCRAM_N3DS_SIZE
      then [addr - FCRAM_PADDR + NEW_LINEAR_HEAP_VADDR]
      else [])"

section \<open>Marking regions as cached\<close>

definition mark_page_table ::
  "MemorySystem \<Rightarrow> u32 \<Rightarrow> bool \<Rightarrow> PageTable \<Rightarrow> PageTable option" where
  "mark_page_table m vaddr cached pt =
     (let page = page_of vaddr in
      if cached
      then (case attributes pt page of
              Unmapped \<Rightarrow> Some pt
            | PageMemory \<Rightarrow> Some (set_page page RasterizerCachedMemory None pt)
            | RasterizerCachedMemory \<Rightarrow> None)
      else (case attributes pt page of
              Unmapped \<Rightarrow> Some pt
            | RasterizerCachedMemory \<Rightarrow>
                do { ref \<leftarrow> GetPointerForRasterizerCache m (vaddr AND NOT 0xFFF);
                     Some (set_page page PageMemory ref pt) }
            | PageMemory \<Rightarrow> None))"

fun mark_tables :: "MemorySystem \<Rightarrow> u32 \<Rightarrow> bool \<Rightarrow> nat list \<Rightarrow> MemorySystem option" where
  "mark_tables m vaddr cached [] = Some m"
| "mark_tables m vaddr cached (t # ts) =
     do { pt \<leftarrow> mark_page_table m vaddr cached (page_tables m t);
          mark_tables (m\<lparr>page_tables := (page_tables m)(t := pt)\<rparr>) vaddr cached ts }"

fun mark_vaddrs :: "MemorySystem \<Rightarrow> bool \<Rightarrow> u32 list \<Rightarrow> MemorySystem option" where
  "mark_vaddrs m cached [] = Some m"
| "mark_vaddrs m cached (v # vs) =
     do { m1 \<leftarrow> mark_tables (m\<lparr>cache_marker := Mark (cache_marker m) v cached\<rparr>) v cached
                  (page_table_list m);
          mark_vaddrs m1 cached vs }"

fun mark_pages :: "MemorySystem \<Rightarrow> u32 \<Rightarrow> bool \<Rightarrow> nat \<Rightarrow> MemorySystem option" where
  "mark_pages m paddr cached 0 = Some m"
| "mark_pages m paddr cached (Suc n) =
     do { m1 \<leftarrow> mark_vaddrs m cached (PhysicalToVirtualAddressForRasterizer m paddr);
          mark_pages m1 (paddr + 0x1000) cached n }"

definition num_pages_of :: "u32 \<Rightarrow> u32 \<Rightarrow> u32" where
  "num_pages_of start sz = drop_bit 12 (start + sz - 1) - drop_bit 12 start + 1"

definition RasterizerMarkRegionCached ::
  "MemorySystem \<Rightarrow> u32 \<Rightarrow> u32 \<Rightarrow> bool \<Rightarrow> MemorySystem option" where
  "RasterizerMarkRegionCached m start sz cached =
     (if start < VRAM_PADDR then Some m
      else mark_pages m start cached (unat (num_pages_of start sz)))"

end
