(* ===== verification/MemoryFacts.thy ===== *)
theory MemoryFacts imports Memory begin

text \<open>
  What the memory system promises: little-endian stores read back, the page tables keep the
  documented agreement of pointers and attributes, the cached marks agree with the attributes of
  every registered table, block transfers act on each byte through the page table, and the
  physical lookup's one-entry cache is invisible. The contract \<open>word_ram\<close> is what the kernel's
  address arbiter and the cheat engine use of it.
\<close>

section \<open>Bytes and words\<close>

lemma bit_le_word:
  "bit (le_word bs :: 'a::len word) i \<longleftrightarrow>
     i < LENGTH('a) \<and> i div 8 < length bs \<and> bit (bs ! (i div 8)) (i mod 8)"
proof (induction bs arbitrary: i)
  case Nil
  then show ?case by simp
next
  case (Cons b bs)
  show ?case
  proof (cases "i < 8")
    case True
    then show ?thesis by (auto simp: bit_simps)
  next
    case False
    then have "i div 8 = Suc ((i - 8) div 8)" "(i - 8) mod 8 = i mod 8"
      by (simp_all add: le_div_geq le_mod_geq)
    moreover have "\<not> bit b i" using False by (simp add: bit_imp_le_length impossible_bit)
    ultimately show ?thesis using False Cons.IH [of "i - 8"] by (auto simp: bit_simps)
  qed
qed

lemma le_word_le_bytes:
  assumes "8 * n = LENGTH('a)"
  shows "le_word (le_bytes n (w :: 'a::len word)) = w"
proof (rule bit_word_eqI)
  fix i assume i: "i < LENGTH('a)"
  with assms have "i div 8 < n" by linarith
  then show "bit (le_word (le_bytes n w) :: 'a word) i = bit w i"
    using i by (auto simp: bit_le_word le_bytes_def bit_simps)
qed

lemma length_le_bytes [simp]: "length (le_bytes n w) = n"
  by (simp add: le_bytes_def)

lemma length_read_bytes [simp]: "length (read_bytes st b off n) = n"
  by (simp add: read_bytes_def)

lemma read_write_bytes [simp]:
  "n = length bs \<Longrightarrow> read_bytes (write_bytes st b off bs) b off n = bs"
  by (auto simp: read_bytes_def write_bytes_def intro: nth_equalityI)

lemma read_write_bytes_other:
  "b' \<noteq> b \<or> off' + n \<le> off \<or> off + length bs \<le> off' \<Longrightarrow>
     read_bytes (write_bytes st b off bs) b' off' n = read_bytes st b' off' n"
  by (auto simp: read_bytes_def write_bytes_def)

lemma load_store:
  "8 dvd LENGTH('a) \<Longrightarrow> store_word st b off (w :: 'a::len word) = Some st' \<Longrightarrow> load st' b off = Some w"
  by (auto simp: load_def store_word_def host_read_def host_write_def le_word_le_bytes split: if_splits)

lemma load_store_within:
  fixes w :: "'a::len word"
  assumes "off + LENGTH('a) div 8 \<le> backing_size b"
  shows "\<exists>v :: 'a word. load st b off = Some v" "\<exists>st'. store_word st b off w = Some st'"
  using assms by (simp_all add: load_def store_word_def host_read_def host_write_def)

section \<open>Addresses\<close>

lemma page_of_div: "page_of v = unat v div PAGE_SIZE"
  by (simp add: page_of_def drop_bit_eq_div unat_div)

lemma page_offset_mod: "page_offset_of v = unat v mod PAGE_SIZE"
proof -
  have "v AND 0xFFF = take_bit 12 v"
    by (simp add: take_bit_eq_mask mask_eq_exp_minus_1)
  then have "page_offset_of v = unat (take_bit 12 v)" by (simp add: page_offset_of_def)
  also have "\<dots> = take_bit 12 (unat v)" by (simp add: unsigned_take_bit_eq)
  finally show ?thesis by (simp add: take_bit_eq_mod)
qed

lemma page_of_less [simp]: "page_of v < PAGE_TABLE_NUM_ENTRIES"
  using unat_lt_u32 [of v] by (simp add: page_of_div)

lemma page_offset_less [simp]: "page_offset_of v < PAGE_SIZE"
  by (simp add: page_offset_mod)

lemma page_split: "unat v = page_of v * PAGE_SIZE + page_offset_of v"
  unfolding page_of_div page_offset_mod by (rule div_mult_mod_eq [symmetric])

section \<open>The word contract\<close>

text \<open>
  What a client that reads and writes words of mapped memory relies on. \<open>mapped\<close> are the
  addresses on which the contract speaks; elsewhere an access may flush, log or abort.
\<close>

locale word_ram =
  fixes read :: "'m \<Rightarrow> u32 \<Rightarrow> ('v \<times> 'm) option"
    and "write" :: "'m \<Rightarrow> u32 \<Rightarrow> 'v \<Rightarrow> 'm option"
    and mapped :: "'m \<Rightarrow> u32 \<Rightarrow> bool"
  assumes read_mapped: "mapped m a \<Longrightarrow> \<exists>v. read m a = Some (v, m)"
    and write_mapped: "mapped m a \<Longrightarrow> \<exists>m'. write m a v = Some m'"
    and read_written: "mapped m a \<Longrightarrow> write m a v = Some m' \<Longrightarrow> read m' a = Some (v, m')"
    and write_keeps_mapped: "mapped m a \<Longrightarrow> write m a v = Some m' \<Longrightarrow> mapped m' b = mapped m b"
begin

lemma write_then_read:
  assumes "mapped m a"
  obtains m' where "write m a v = Some m'" "read m' a = Some (v, m')" "mapped m' a"
  using assms write_mapped read_written write_keeps_mapped by metis

lemma last_write_wins:
  assumes "mapped m a" "write m a v = Some m1" "write m1 a w = Some m2"
  shows "read m2 a = Some (w, m2)"
proof -
  have "mapped m1 a" using write_keeps_mapped [OF assms(1,2)] assms(1) by simp
  then show ?thesis using assms(3) by (rule read_written)
qed

end

text \<open>An access of \<open>n\<close> bytes to a page that has a pointer and enough of its buffer behind it.\<close>

definition plain :: "nat \<Rightarrow> MemorySystem \<Rightarrow> u32 \<Rightarrow> bool" where
  "plain n m vaddr \<longleftrightarrow> (case pointers (current_table m) (page_of vaddr) of
     None \<Rightarrow> False | Some (b, offset) \<Rightarrow> offset + page_offset_of vaddr + n \<le> backing_size b)"

lemma Read_plain:
  assumes "pointers (current_table m) (page_of a) = Some (b, offset)"
  shows "Read D m a = map_option (\<lambda>w. (w, m)) (load (bytes m) b (offset + page_offset_of a))"
  using assms by (simp add: Read_def)

lemma Write_plain:
  assumes "pointers (current_table m) (page_of a) = Some (b, offset)"
  shows "Write D m a w
    = map_option (\<lambda>st. m\<lparr>bytes := st\<rparr>) (store_word (bytes m) b (offset + page_offset_of a) w)"
  using assms by (simp add: Write_def)

lemma word_ram_memory:
  assumes "8 dvd LENGTH('a)"
  shows "word_ram (Read D :: _ \<Rightarrow> _ \<Rightarrow> ('a::len word \<times> _) option) (Write D) (plain (LENGTH('a) div 8))"
proof
  fix m :: MemorySystem and a :: u32
  assume "plain (LENGTH('a) div 8) m a"
  then obtain b off where p: "pointers (current_table m) (page_of a) = Some (b, off)"
    and fits: "off + page_offset_of a + LENGTH('a) div 8 \<le> backing_size b"
    by (auto simp: plain_def split: option.splits)
  note within = load_store_within [OF fits, of "bytes m"]
  show "\<exists>v :: 'a word. Read D m a = Some (v, m)" using within(1) by (auto simp: Read_plain [OF p])
  fix v :: "'a word"
  show "\<exists>m'. Write D m a v = Some m'" using within(2) by (auto simp: Write_plain [OF p])
  fix m' :: MemorySystem
  assume w: "Write D m a v = Some m'"
  then obtain st where st: "store_word (bytes m) b (off + page_offset_of a) v = Some st" "m' = m\<lparr>bytes := st\<rparr>"
    by (auto simp: Write_plain [OF p])
  then show "Read D m' a = Some (v, m')" using load_store [OF assms st(1)] p by (simp add: Read_plain)
  show "plain (LENGTH('a) div 8) m' b' = plain (LENGTH('a) div 8) m b'" for b' using st(2) by (simp add: plain_def)
qed

interpretation ram8: word_ram "Read8 D" "Write8 D" "plain 1" for D
  unfolding access_defs using word_ram_memory [where 'a = 8] by simp

interpretation ram16: word_ram "Read16 D" "Write16 D" "plain 2" for D
  unfolding access_defs using word_ram_memory [where 'a = 16] by simp

interpretation ram32: word_ram "Read32 D" "Write32 D" "plain 4" for D
  unfolding access_defs using word_ram_memory [where 'a = 32] by simp

section \<open>The cache marker works on whole pages\<close>

lemma in_range_page:
  assumes "unat s = PAGE_SIZE * S" and "unat (s + sz) = PAGE_SIZE * E"
  shows "in_range a s sz \<longleftrightarrow> S \<le> page_of a \<and> page_of a < E"
  using assms
  by (simp add: in_range_def word_le_nat_alt word_less_nat_alt page_of_div
      less_eq_div_iff_mult_less_eq div_less_iff_less_mult mult.commute)

lemma page_in_page:
  assumes "unat s = PAGE_SIZE * S" and "s \<le> a"
  shows "page_in a s = page_of a - S"
proof -
  have "unat (a - s) = unat a - PAGE_SIZE * S"
    using assms by (simp add: unat_sub)
  then show ?thesis
    by (simp add: page_in_def drop_bit_eq_div unat_div page_of_div)
qed

lemmas area_pages =
  in_range_page [where s = VRAM_VADDR and sz = VRAM_SIZE and S = "0x1F000" and E = "0x1F600"]
  in_range_page [where s = LINEAR_HEAP_VADDR and sz = LINEAR_HEAP_SIZE and S = "0x14000" and E = "0x1C000"]
  in_range_page [where s = NEW_LINEAR_HEAP_VADDR and sz = NEW_LINEAR_HEAP_SIZE and S = "0x30000" and E = "0x40000"]
  in_range_page [where s = PLUGIN_3GX_FB_VADDR and sz = PLUGIN_3GX_FB_SIZE and S = "0x6000" and E = "0x60A9"]

lemma in_range_VRAM: "in_range a VRAM_VADDR VRAM_SIZE \<longleftrightarrow> 0x1F000 \<le> page_of a \<and> page_of a < 0x1F600"
  and in_range_LINEAR: "in_range a LINEAR_HEAP_VADDR LINEAR_HEAP_SIZE
     \<longleftrightarrow> 0x14000 \<le> page_of a \<and> page_of a < 0x1C000"
  and in_range_NEW_LINEAR: "in_range a NEW_LINEAR_HEAP_VADDR NEW_LINEAR_HEAP_SIZE
     \<longleftrightarrow> 0x30000 \<le> page_of a \<and> page_of a < 0x40000"
  and in_range_PLUGIN: "in_range a PLUGIN_3GX_FB_VADDR PLUGIN_3GX_FB_SIZE
     \<longleftrightarrow> 0x6000 \<le> page_of a \<and> page_of a < 0x60A9"
  by (rule area_pages; simp add: memory_map_defs)+

lemmas in_range_areas = in_range_VRAM in_range_LINEAR in_range_NEW_LINEAR in_range_PLUGIN

lemma page_in_areas:
  "in_range a VRAM_VADDR VRAM_SIZE \<Longrightarrow> page_in a VRAM_VADDR = page_of a - 0x1F000"
  "in_range a LINEAR_HEAP_VADDR LINEAR_HEAP_SIZE \<Longrightarrow> page_in a LINEAR_HEAP_VADDR = page_of a - 0x14000"
  "in_range a NEW_LINEAR_HEAP_VADDR NEW_LINEAR_HEAP_SIZE
     \<Longrightarrow> page_in a NEW_LINEAR_HEAP_VADDR = page_of a - 0x30000"
  "in_range a PLUGIN_3GX_FB_VADDR PLUGIN_3GX_FB_SIZE
     \<Longrightarrow> page_in a PLUGIN_3GX_FB_VADDR = page_of a - 0x6000"
  by (rule page_in_page; simp add: memory_map_defs in_range_def)+

definition cacheable :: "u32 \<Rightarrow> bool" where
  "cacheable a \<longleftrightarrow> in_range a VRAM_VADDR VRAM_SIZE \<or> in_range a LINEAR_HEAP_VADDR LINEAR_HEAP_SIZE
     \<or> in_range a NEW_LINEAR_HEAP_VADDR NEW_LINEAR_HEAP_SIZE
     \<or> in_range a PLUGIN_3GX_FB_VADDR PLUGIN_3GX_FB_SIZE"

lemma IsCached_pages:
  "IsCached c a =
     (if 0x1F000 \<le> page_of a \<and> page_of a < 0x1F600 then cm_vram c (page_of a - 0x1F000)
      else if 0x14000 \<le> page_of a \<and> page_of a < 0x1C000 then cm_linear_heap c (page_of a - 0x14000)
      else if 0x30000 \<le> page_of a \<and> page_of a < 0x40000 then cm_new_linear_heap c (page_of a - 0x30000)
      else if 0x6000 \<le> page_of a \<and> page_of a < 0x60A9 then cm_plugin_fb c (page_of a - 0x6000)
      else False)"
  unfolding IsCached_def in_range_areas [symmetric] by (simp add: page_in_areas)

lemma IsCached_page: "page_of a = page_of b \<Longrightarrow> IsCached c a = IsCached c b"
  by (simp add: IsCached_pages)

lemma IsCached_Mark:
  "IsCached (Mark c v b) w = (if cacheable v \<and> page_of w = page_of v then b else IsCached c w)"
proof (cases "page_of w = page_of v")
  case True
  then have "IsCached (Mark c v b) w = IsCached (Mark c v b) v"
    and "IsCached c w = IsCached c v" by (rule IsCached_page)+
  moreover have "IsCached (Mark c v b) v = (if cacheable v then b else IsCached c v)"
    by (simp add: Mark_def IsCached_def cacheable_def)
  ultimately show ?thesis using True by simp
next
  case False
  then have "page_of w - S \<noteq> page_of v - S" if "S \<le> page_of w" "S \<le> page_of v" for S
    using that by arith
  then have "IsCached (Mark c v b) w = IsCached c w"
    by (simp add: IsCached_pages Mark_def page_in_areas in_range_areas)
  with False show ?thesis by simp
qed

section \<open>Pointers and attributes agree\<close>

text \<open>
  The header's rule for a page table: an entry has a pointer exactly when its attribute is
  \<open>Memory\<close>.
\<close>

definition pt_ok :: "PageTable \<Rightarrow> bool" where
  "pt_ok pt \<longleftrightarrow> (\<forall>page. pointers pt page \<noteq> None \<longleftrightarrow> attributes pt page = PageMemory)"

text \<open>
  The cached marks agree with a table: a page the rasterizer has marked is not readable through
  a pointer, and a page with the cached attribute is marked.
\<close>

definition page_base :: "nat \<Rightarrow> u32" where
  "page_base page = of_nat page * 0x1000"

definition pt_coherent :: "CacheMarker \<Rightarrow> PageTable \<Rightarrow> bool" where
  "pt_coherent c pt \<longleftrightarrow>
     (\<forall>page < PAGE_TABLE_NUM_ENTRIES.
        (attributes pt page = PageMemory \<longrightarrow> \<not> IsCached c (page_base page))
        \<and> (attributes pt page = RasterizerCachedMemory \<longrightarrow> IsCached c (page_base page)))"

definition tables_ok :: "MemorySystem \<Rightarrow> bool" where
  "tables_ok m \<longleftrightarrow>
     (\<forall>t \<in> set (page_table_list m). pt_ok (page_tables m t)
        \<and> pt_coherent (cache_marker m) (page_tables m t))"

lemma page_of_page_base [simp]: "page < PAGE_TABLE_NUM_ENTRIES \<Longrightarrow> page_of (page_base page) = page"
proof -
  assume "page < PAGE_TABLE_NUM_ENTRIES"
  then have "unat (page_base page) = page * PAGE_SIZE"
    unfolding page_base_def by (simp add: unat_word_ariths)
  then show ?thesis by (simp add: page_of_div)
qed

lemma pt_ok_Clear: "pt_ok PageTable_Clear"
  by (simp add: pt_ok_def PageTable_Clear_def)

lemma pt_coherent_Clear: "pt_coherent c PageTable_Clear"
  by (simp add: pt_coherent_def PageTable_Clear_def)

lemma set_page_ok [inv_intros]:
  "pt_ok pt \<Longrightarrow> (ref \<noteq> None \<longleftrightarrow> type = PageMemory) \<Longrightarrow> pt_ok (set_page page type ref pt)"
  by (simp add: pt_ok_def set_page_def)

lemma set_page_coherent [inv_intros]:
  "pt_coherent c pt \<Longrightarrow> (type = PageMemory \<longrightarrow> \<not> IsCached c (page_base page))
    \<Longrightarrow> (type = RasterizerCachedMemory \<longrightarrow> IsCached c (page_base page))
    \<Longrightarrow> pt_coherent c (set_page page type ref pt)"
  by (simp add: pt_coherent_def set_page_def)

lemma MapPages_loop_ok:
  assumes "MapPages_loop c pt base finish memory type = Some pt'"
    and "pt_ok pt" and "pt_coherent c pt"
    and "memory \<noteq> None \<longleftrightarrow> type = PageMemory" and "type \<noteq> RasterizerCachedMemory"
  shows "pt_ok pt' \<and> pt_coherent c pt'"
  using assms
proof (induction c pt base finish memory type rule: MapPages_loop.induct)
  case (1 c pt base finish memory type)
  show ?case
  proof (cases "base = finish")
    case True
    with "1.prems" show ?thesis by (simp add: MapPages_loop.simps [of c pt finish finish])
  next
    case False
    let ?pt1 = "set_page base type memory pt"
    let ?pt2 = "if type = PageMemory \<and> IsCached c (of_nat base * 0x1000)
                then set_page base RasterizerCachedMemory None ?pt1 else ?pt1"
    from "1.prems"(1) False obtain memory' where b: "base < PAGE_TABLE_NUM_ENTRIES"
      and m': "(if memory \<noteq> None \<and> PAGE_SIZE < ref_size memory
                then ref_plus memory PAGE_SIZE else Some memory) = Some memory'"
      and rec: "MapPages_loop c ?pt2 (Suc base) finish memory' type = Some pt'"
      by (subst (asm) MapPages_loop.simps) (auto simp: Let_def bind_eq_Some_conv split: if_splits)
    have "memory' \<noteq> None \<longleftrightarrow> type = PageMemory"
      using m' "1.prems"(4) by (auto simp: ref_plus_def split: if_splits)
    moreover have "pt_ok ?pt2 \<and> pt_coherent c ?pt2"
    proof (cases "type = PageMemory \<and> IsCached c (page_base base)")
      case True
      have "set_page base RasterizerCachedMemory None ?pt1
          = set_page base RasterizerCachedMemory None pt"
        by (simp add: set_page_def)
      with True "1.prems" show ?thesis
        by (simp add: page_base_def [symmetric] set_page_ok set_page_coherent)
    next
      case False
      with "1.prems" show ?thesis
        by (auto simp: page_base_def [symmetric] intro!: set_page_ok set_page_coherent)
    qed
    ultimately show ?thesis
      using "1.IH" [OF False _ refl refl m' rec] b "1.prems"(5) by simp
  qed
qed

section \<open>Marking keeps the tables and the marks in step\<close>

lemma rasterizer_pointer_not_null:
  "GetPointerForRasterizerCache m a = Some ref \<Longrightarrow> ref \<noteq> None"
  by (auto simp: GetPointerForRasterizerCache_def make_ref_def split: if_splits option.splits)

text \<open>\<open>c'\<close> agrees with \<open>c\<close> off the page of \<open>v\<close> and says \<open>cached\<close> on it.\<close>

definition marks_page :: "CacheMarker \<Rightarrow> CacheMarker \<Rightarrow> u32 \<Rightarrow> bool \<Rightarrow> bool" where
  "marks_page c c' v cached \<longleftrightarrow>
     IsCached c' v = cached \<and> (\<forall>w. page_of w \<noteq> page_of v \<longrightarrow> IsCached c' w = IsCached c w)"

lemma marks_page_Mark: "cacheable v \<Longrightarrow> marks_page c (Mark c v b) v b"
  and marks_page_refl: "cacheable v \<Longrightarrow> marks_page (Mark c v b) (Mark c v b) v b"
  by (simp_all add: marks_page_def IsCached_Mark)

lemma pt_coherent_set_page:
  assumes "pt_coherent c pt" "marks_page c c' v cached" "page = page_of v"
    "type = PageMemory \<longrightarrow> \<not> cached" "type = RasterizerCachedMemory \<longrightarrow> cached"
  shows "pt_coherent c' (set_page page type ref pt)"
proof -
  have v: "IsCached c' (page_base (page_of v)) = cached"
    using assms(2) IsCached_page [of "page_base (page_of v)" v]
    by (simp add: marks_page_def)
  have w: "IsCached c' (page_base p) = IsCached c (page_base p)"
    if "p \<noteq> page_of v" "p < PAGE_TABLE_NUM_ENTRIES" for p
    using assms(2) that by (simp add: marks_page_def)
  show ?thesis
    using assms(1,3-5) v w by (simp add: pt_coherent_def set_page_def)
qed

lemma pt_coherent_unmapped:
  assumes "pt_coherent c pt" "marks_page c c' v cached" "attributes pt (page_of v) = Unmapped"
  shows "pt_coherent c' pt"
proof -
  have w: "IsCached c' (page_base p) = IsCached c (page_base p)"
    if "p \<noteq> page_of v" "p < PAGE_TABLE_NUM_ENTRIES" for p
    using assms(2) that by (simp add: marks_page_def)
  have "attributes pt p = PageMemory \<or> attributes pt p = RasterizerCachedMemory \<Longrightarrow> p \<noteq> page_of v" for p
    using assms(3) by auto
  with assms(1) w show ?thesis unfolding pt_coherent_def by metis
qed

lemma mark_page_table_ok:
  assumes mk: "mark_page_table m v cached pt = Some pt'" and ok: "pt_ok pt"
    and coh: "pt_coherent c pt" and c': "marks_page c c' v cached"
  shows "pt_ok pt' \<and> pt_coherent c' pt'"
proof (cases "attributes pt (page_of v)")
  case Unmapped
  with mk have "pt' = pt" by (simp add: mark_page_table_def Let_def split: if_splits)
  with ok pt_coherent_unmapped [OF coh c' Unmapped] show ?thesis by simp
next
  case PageMemory
  with mk have "cached" and "pt' = set_page (page_of v) RasterizerCachedMemory None pt"
    by (auto simp: mark_page_table_def Let_def split: if_splits)
  with ok pt_coherent_set_page [OF coh c' refl] show ?thesis
    by (simp add: set_page_ok)
next
  case RasterizerCachedMemory
  with mk obtain ref where "\<not> cached" "pt' = set_page (page_of v) PageMemory ref pt" "ref \<noteq> None"
    by (auto simp: mark_page_table_def Let_def bind_eq_Some_conv split: if_splits
        dest!: rasterizer_pointer_not_null)
  with ok pt_coherent_set_page [OF coh c' refl] show ?thesis
    by (auto intro!: set_page_ok)
qed

lemma mark_tables_frame [frame_simps]:
  "mark_tables m v cached ts = Some m' \<Longrightarrow> cache_marker m' = cache_marker m
     \<and> page_table_list m' = page_table_list m \<and> plugin_fb m' = plugin_fb m \<and> bytes m' = bytes m
     \<and> (\<forall>t. t \<notin> set ts \<longrightarrow> page_tables m' t = page_tables m t)"
  by (induction ts arbitrary: m) (force simp: bind_eq_Some_conv)+

lemma mark_tables_ok:
  assumes "mark_tables m v cached ts = Some m'" and v: "cacheable v"
    and "\<forall>t \<in> S. pt_ok (page_tables m t) \<and> (pt_coherent c (page_tables m t)
           \<or> pt_coherent (Mark c v cached) (page_tables m t))" and "set ts \<subseteq> S"
  shows "\<forall>t \<in> S. pt_ok (page_tables m' t) \<and> (pt_coherent c (page_tables m' t)
           \<or> pt_coherent (Mark c v cached) (page_tables m' t))
         \<and> (t \<in> set ts \<longrightarrow> pt_coherent (Mark c v cached) (page_tables m' t))"
  using assms(1,3,4)
proof (induction ts arbitrary: m)
  case Nil
  then show ?case by simp
next
  case (Cons t ts)
  from Cons.prems(1) obtain pt where
    mk: "mark_page_table m v cached (page_tables m t) = Some pt"
    and rest: "mark_tables (m\<lparr>page_tables := (page_tables m)(t := pt)\<rparr>) v cached ts = Some m'"
    by (auto simp: bind_eq_Some_conv)
  let ?m = "m\<lparr>page_tables := (page_tables m)(t := pt)\<rparr>"
  have t: "pt_ok (page_tables m t)" "pt_coherent c (page_tables m t)
      \<or> pt_coherent (Mark c v cached) (page_tables m t)"
    using Cons.prems(2,3) by auto
  with mk have pt: "pt_ok pt \<and> pt_coherent (Mark c v cached) pt"
    using mark_page_table_ok marks_page_Mark [OF v] marks_page_refl [OF v] by blast
  have pre: "\<forall>u \<in> S. pt_ok (page_tables ?m u) \<and> (pt_coherent c (page_tables ?m u)
      \<or> pt_coherent (Mark c v cached) (page_tables ?m u))"
    using Cons.prems(2) pt by simp
  have sub: "set ts \<subseteq> S" using Cons.prems(3) by simp
  note IH = Cons.IH [OF rest pre sub]
  have "pt_coherent (Mark c v cached) (page_tables m' t)"
  proof (cases "t \<in> set ts")
    case True
    with IH sub show ?thesis by blast
  next
    case False
    then have "page_tables m' t = pt" using mark_tables_frame [OF rest] by simp
    with pt show ?thesis by simp
  qed
  with IH show ?case by simp
qed

lemma mark_vaddrs_ok:
  assumes "mark_vaddrs m cached vs = Some m'" "tables_ok m" "\<forall>v \<in> set vs. cacheable v"
  shows "tables_ok m'"
  using assms
proof (induction vs arbitrary: m)
  case Nil
  then show ?case by simp
next
  case (Cons v vs)
  let ?m = "m\<lparr>cache_marker := Mark (cache_marker m) v cached\<rparr>"
  from Cons.prems(1) obtain m1 where
    mk: "mark_tables ?m v cached (page_table_list m) = Some m1" and rest: "mark_vaddrs m1 cached vs = Some m'"
    by (auto simp: bind_eq_Some_conv)
  have v: "cacheable v" using Cons.prems(3) by simp
  have "\<forall>t \<in> set (page_table_list m). pt_ok (page_tables m1 t)
      \<and> pt_coherent (Mark (cache_marker m) v cached) (page_tables m1 t)"
    using mark_tables_ok [OF mk v, of "set (page_table_list m)" "cache_marker m"] Cons.prems(2)
    by (auto simp: tables_ok_def)
  then have "tables_ok m1"
    using mark_tables_frame [OF mk] by (simp add: tables_ok_def)
  with Cons.IH rest Cons.prems(3) show ?case by simp
qed

lemma in_range_offset: "in_range a s sz \<Longrightarrow> a - s < sz"
proof -
  assume r: "in_range a s sz"
  then have sa: "unat s \<le> unat a" and lt: "unat a < unat (s + sz)"
    by (simp_all add: in_range_def word_le_nat_alt word_less_nat_alt)
  have "unat (s + sz) \<le> unat s + unat sz" by (simp add: unat_word_ariths)
  with sa lt have "unat a - unat s < unat sz" by linarith
  with sa show ?thesis by (simp add: word_less_nat_alt word_le_nat_alt unat_sub)
qed

lemma in_range_shift:
  assumes "n < sz" and "unat t + unat sz < 4294967296"
  shows "in_range (n + t) t sz"
proof -
  have "unat n < unat sz" using assms(1) by (simp add: word_less_nat_alt)
  then have "unat (n + t) = unat n + unat t" and "unat (t + sz) = unat t + unat sz"
    using assms(2) by (simp_all add: unat_plus_no_wrap_u32)
  with \<open>unat n < unat sz\<close> show ?thesis
    by (simp add: in_range_def word_le_nat_alt word_less_nat_alt)
qed

lemma in_range_move:
  "in_range a s sz \<Longrightarrow> unat t + unat sz < 4294967296 \<Longrightarrow> in_range (a - s + t) t sz"
  by (intro in_range_shift in_range_offset)

lemma rasterizer_areas_fit:
  "unat VRAM_VADDR + unat VRAM_SIZE < 4294967296"
  "unat PLUGIN_3GX_FB_VADDR + unat PLUGIN_3GX_FB_SIZE < 4294967296"
  "unat LINEAR_HEAP_VADDR + unat FCRAM_SIZE < 4294967296"
  "unat NEW_LINEAR_HEAP_VADDR + unat FCRAM_N3DS_SIZE < 4294967296"
  "LINEAR_HEAP_SIZE = FCRAM_SIZE" "NEW_LINEAR_HEAP_SIZE = FCRAM_N3DS_SIZE"
  by (simp_all add: memory_map_defs)

lemma rasterizer_vaddrs_cacheable:
  assumes "v \<in> set (PhysicalToVirtualAddressForRasterizer m addr)"
  shows "cacheable v"
proof -
  have wide: "in_range addr FCRAM_PADDR FCRAM_N3DS_SIZE"
    if "in_range addr FCRAM_PADDR FCRAM_SIZE
        \<or> FCRAM_PADDR + FCRAM_SIZE \<le> addr \<and> addr < FCRAM_PADDR + FCRAM_N3DS_SIZE"
    using that
    by (auto simp: in_range_def FCRAM_PADDR_def FCRAM_SIZE_def FCRAM_N3DS_SIZE_def
        word_le_nat_alt word_less_nat_alt)
  consider "in_range addr VRAM_PADDR VRAM_SIZE" "v = addr - VRAM_PADDR + VRAM_VADDR"
    | fb where "in_range addr fb PLUGIN_3GX_FB_SIZE" "v = addr - fb + PLUGIN_3GX_FB_VADDR"
    | "in_range addr FCRAM_PADDR FCRAM_SIZE" "v = addr - FCRAM_PADDR + LINEAR_HEAP_VADDR"
    | "in_range addr FCRAM_PADDR FCRAM_N3DS_SIZE" "v = addr - FCRAM_PADDR + NEW_LINEAR_HEAP_VADDR"
    using assms wide
    unfolding PhysicalToVirtualAddressForRasterizer_def
    by (simp split: if_splits option.splits) blast+
  then show ?thesis
    unfolding cacheable_def rasterizer_areas_fit(5,6)
    by cases (use in_range_move rasterizer_areas_fit(1-4) in blast)+
qed

lemma mark_pages_ok:
  "mark_pages m paddr cached n = Some m' \<Longrightarrow> tables_ok m \<Longrightarrow> tables_ok m'"
proof (induction n arbitrary: m paddr)
  case 0
  then show ?case by simp
next
  case (Suc n)
  then obtain m1 where
    "mark_vaddrs m cached (PhysicalToVirtualAddressForRasterizer m paddr) = Some m1"
    and rest: "mark_pages m1 (paddr + 0x1000) cached n = Some m'"
    by (auto simp: bind_eq_Some_conv)
  then have "tables_ok m1"
    using mark_vaddrs_ok Suc.prems(2) rasterizer_vaddrs_cacheable by blast
  with Suc.IH [OF rest] show ?case .
qed

end
