(* ===== verification/MemoryBlocks.thy ===== *)
theory MemoryBlocks imports MemoryFacts begin

text \<open>
  The properties of the memory system: the invariant of the page tables and the rasterizer marks
  under mapping and marking, typed accesses, the byte-wise meaning of the block transfers on
  mapped pages, and the transparency of the physical lookup's cache.
\<close>

section \<open>The invariant of the page tables\<close>

text \<open>What the renderer keeps when it flushes or drops a surface.\<close>

definition keeps_tables :: "Devices \<Rightarrow> bool" where
  "keeps_tables D \<longleftrightarrow> (\<forall>mode a sz m. tables_ok m \<longrightarrow> tables_ok (rasterizer D mode a sz m))"

lemma CheckRegion_keeps:
  "keeps_tables D \<Longrightarrow> tables_ok m \<Longrightarrow> tables_ok (CheckRegion D s e mode rs re p m)"
  by (simp add: CheckRegion_def Let_def keeps_tables_def)

lemma RasterizerFlushVirtualRegion_keeps:
  "keeps_tables D \<Longrightarrow> tables_ok m \<Longrightarrow> tables_ok (RasterizerFlushVirtualRegion D m s sz mode)"
  by (simp add: RasterizerFlushVirtualRegion_def Let_def CheckRegion_keeps split: option.split)

lemma MapPages_loop_table:
  assumes "tables_ok m" "MapPages_loop (cache_marker m) (page_tables m t) b e memory type = Some pt"
    and "memory \<noteq> None \<longleftrightarrow> type = PageMemory" "type \<noteq> RasterizerCachedMemory"
  shows "tables_ok (m\<lparr>page_tables := (page_tables m)(t := pt)\<rparr>)"
  using assms MapPages_loop_ok [OF assms(2) _ _ assms(3,4)] by (auto simp: tables_ok_def)

text \<open>
  C5: mapping, unmapping or re-typing pages keeps the invariant of memory.h for every registered
  page table: an entry has a pointer exactly when its attribute is Memory, and the attribute is
  RasterizerCachedMemory only on pages the rasterizer has marked, Memory only on unmarked ones.
  It holds for any renderer that keeps the invariant in its own call-backs.
\<close>

theorem MapPages_keeps_tables:
  assumes "keeps_tables D" "tables_ok m" "MapPages D m table base sz memory type = Some m'"
    and "memory \<noteq> None \<longleftrightarrow> type = PageMemory" "type \<noteq> RasterizerCachedMemory"
  shows "tables_ok m'"
proof -
  define m1 where "m1 = (if powered_on m
    then RasterizerFlushVirtualRegion D m (push_bit 12 base) (sz * 0x1000) FlushAndInvalidate else m)"
  from assms(3) obtain pt where
    "MapPages_loop (cache_marker m1) (page_tables m1 table) (unat base) (unat (base + sz)) memory type = Some pt"
    and "m' = m1\<lparr>page_tables := (page_tables m1)(table := pt)\<rparr>"
    by (auto simp: MapPages_def m1_def Let_def bind_eq_Some_conv)
  moreover have "tables_ok m1"
    using assms(1,2) by (simp add: m1_def RasterizerFlushVirtualRegion_keeps)
  ultimately show ?thesis using assms(4,5) MapPages_loop_table by simp
qed

text \<open>A small system for the examples: one table, an idle renderer, nothing marked.\<close>

definition idle_devices :: Devices where
  "idle_devices = \<lparr>rasterizer = (\<lambda>_ _ _ m. m), ReadReg = (\<lambda>_ _. 0), WriteReg = (\<lambda>_ _ m. m)\<rparr>"

definition no_marks :: CacheMarker where
  "no_marks = \<lparr>cm_vram = (\<lambda>_. False), cm_linear_heap = (\<lambda>_. False),
     cm_new_linear_heap = (\<lambda>_. False), cm_plugin_fb = (\<lambda>_. False)\<rparr>"

definition empty_memory :: MemorySystem where
  "empty_memory = \<lparr>bytes = (\<lambda>_ _. 0), page_tables = (\<lambda>_. PageTable_Clear), current_page_table = 0,
     page_table_list = [0], cache_marker = no_marks, plugin_fb = None, powered_on = True,
     physical_ptr_cache = (0, None)\<rparr>"

lemma idle_keeps: "keeps_tables idle_devices"
  by (simp add: keeps_tables_def idle_devices_def)

lemma idle_flush [simp]: "RasterizerFlushVirtualRegion idle_devices m s sz mode = m"
  by (simp add: RasterizerFlushVirtualRegion_def CheckRegion_def idle_devices_def Let_def
      split: option.split)

lemma empty_memory_ok: "tables_ok empty_memory"
  by (simp add: tables_ok_def empty_memory_def pt_ok_Clear pt_coherent_Clear)

definition one_page :: MemorySystem where
  "one_page = empty_memory\<lparr>page_tables := (\<lambda>_. PageTable_Clear)
     (0 := set_page 0x1F000 PageMemory (Some (RegionMem VRAM, 0)) PageTable_Clear)\<rparr>"

lemma no_marks_IsCached [simp]: "\<not> IsCached no_marks a"
  by (simp add: IsCached_def no_marks_def)

lemma MapPages_one_page:
  "MapPages idle_devices empty_memory 0 0x1F000 1 (Some (RegionMem VRAM, 0)) PageMemory
     = Some one_page"
  by (simp add: MapPages_def one_page_def empty_memory_def Let_def MapPages_loop.simps ref_plus_def
      VRAM_SIZE_def)

lemma MapPages_keeps_tables_witness: "tables_ok one_page"
  by (rule MapPages_keeps_tables [OF idle_keeps empty_memory_ok MapPages_one_page]) simp_all

text \<open>
  marking or unmarking a physical region as cached keeps the same invariant in every
  registered page table at once, whatever memory configuration the process has: no table is left
  with a readable pointer to a page whose contents may be stale in the rasterizer.
\<close>

theorem RasterizerMarkRegionCached_keeps_tables:
  assumes "tables_ok m" "RasterizerMarkRegionCached m start sz cached = Some m'"
  shows "tables_ok m'"
  using assms mark_pages_ok
  by (auto simp: RasterizerMarkRegionCached_def split: if_splits)

definition one_page_cached :: MemorySystem where
  "one_page_cached = one_page\<lparr>cache_marker := Mark no_marks 0x1F000000 True,
     page_tables := (page_tables one_page)
       (0 := set_page 0x1F000 RasterizerCachedMemory None (page_tables one_page 0))\<rparr>"

lemma one_page_ok: "tables_ok one_page"
  unfolding one_page_def tables_ok_def empty_memory_def
  by (auto intro!: set_page_ok set_page_coherent pt_ok_Clear pt_coherent_Clear)

lemma mark_one_page: "RasterizerMarkRegionCached one_page 0x18000000 0x1000 True = Some one_page_cached"
  by (simp add: RasterizerMarkRegionCached_def num_pages_of_def numeral_eq_Suc [of num.One]
      PhysicalToVirtualAddressForRasterizer_def one_page_def one_page_cached_def empty_memory_def
      in_range_def memory_map_defs mark_page_table_def page_of_def set_page_def Let_def)

lemma RasterizerMarkRegionCached_keeps_tables_witness:
  "tables_ok one_page \<and> tables_ok one_page_cached"
  using one_page_ok
    RasterizerMarkRegionCached_keeps_tables [OF one_page_ok mark_one_page] by simp

section \<open>Typed accesses\<close>

text \<open>A word written to a page that has a pointer and room for it behind that reads back, at every access width.\<close>

theorem Write_then_Read:
  assumes "8 dvd LENGTH('a)" "plain (LENGTH('a) div 8) m a"
  shows "\<exists>m'. Write D m a (w :: 'a::len word) = Some m' \<and> Read D m' a = Some (w, m')"
  using word_ram.write_then_read [OF word_ram_memory [OF assms(1)] assms(2)] by metis

section \<open>Blocks, byte by byte\<close>

text \<open>
  The byte a table shows at an address: zero where nothing is mapped, the buffer's byte on a page
  with a pointer, no answer beyond the end of the buffer or on a page whose contents the rasterizer
  holds.
\<close>

definition byte_at :: "MemorySystem \<Rightarrow> nat \<Rightarrow> u32 \<Rightarrow> u8 option" where
  "byte_at m table v =
     (case attributes (page_tables m table) (page_of v) of
        Unmapped \<Rightarrow> Some 0
      | PageMemory \<Rightarrow> (case pointers (page_tables m table) (page_of v) of
            Some (b, offset) \<Rightarrow>
              if offset + page_offset_of v < backing_size b
              then Some (bytes m b (offset + page_offset_of v)) else None
          | None \<Rightarrow> None)
      | RasterizerCachedMemory \<Rightarrow> None)"

lemma vaddr_at_split:
  assumes "page * PAGE_SIZE + off < 4294967296" "off < PAGE_SIZE"
  shows "page_of (vaddr_at page off) = page" "page_offset_of (vaddr_at page off) = off"
proof -
  have "unat (vaddr_at page off) = page * PAGE_SIZE + off"
    unfolding vaddr_at_def using assms(1) by (rule unat_of_nat_u32)
  then show "page_of (vaddr_at page off) = page" "page_offset_of (vaddr_at page off) = off"
    using assms(2) by (simp_all add: page_of_div page_offset_mod)
qed

lemma vaddr_at_page: "vaddr_at page (PAGE_SIZE + i) = vaddr_at (Suc page) i"
  by (simp add: vaddr_at_def algebra_simps)

lemma vaddr_at_address: "vaddr_at (page_of v) (page_offset_of v + i) = v + of_nat i"
proof -
  have "vaddr_at (page_of v) (page_offset_of v + i) = of_nat (unat v) + of_nat i"
    by (simp add: vaddr_at_def page_split [of v])
  then show ?thesis by simp
qed

text \<open>What a transfer of the bytes shown gives: nothing at all when one of them is missing.\<close>

lemma those_map: "those (map f xs) = (if \<forall>x\<in>set xs. f x \<noteq> None then Some (map (\<lambda>x. the (f x)) xs) else None)"
  by (induction xs) (auto split: option.split)

lemma those_append: "those (xs @ ys) = do { us \<leftarrow> those xs; vs \<leftarrow> those ys; Some (us @ vs) }"
proof (induction xs)
  case (Cons x xs)
  then show ?case by (cases x; cases "those xs"; cases "those ys") simp_all
qed (simp add: map_option_case split: option.split)

text \<open>Pages whose contents the rasterizer holds take the other path, that flushes them first.\<close>

abbreviation uncached :: "MemorySystem \<Rightarrow> nat \<Rightarrow> u32 \<Rightarrow> bool" where
  "uncached m table v \<equiv> attributes (page_tables m table) (page_of v) \<noteq> RasterizerCachedMemory"

lemma page_addresses:
  assumes "page * PAGE_SIZE + off + n \<le> 4294967296" "off + n \<le> PAGE_SIZE" "i < n"
  shows "page_of (vaddr_at page (off + i)) = page" "page_offset_of (vaddr_at page (off + i)) = off + i"
  using vaddr_at_split [of page "off + i"] assms by simp_all

lemma fits_iff: "0 < n \<Longrightarrow> (\<forall>i<n. (k :: nat) + i < sz) \<longleftrightarrow> k + n \<le> sz"
proof
  assume n: "0 < n" and "\<forall>i<n. k + i < sz"
  then have "k + (n - 1) < sz" by (meson diff_less zero_less_one)
  with n show "k + n \<le> sz" by linarith
qed auto

lemma byte_at_page:
  assumes "page * PAGE_SIZE + off + n \<le> 4294967296" "off + n \<le> PAGE_SIZE" "i < n"
    and "attributes (page_tables m table) page = PageMemory" "pointers (page_tables m table) page = Some (b, offset)"
  shows "byte_at m table (vaddr_at page (off + i))
    = (if offset + off + i < backing_size b then Some (bytes m b (offset + off + i)) else None)"
  using assms page_addresses [OF assms(1-3)] by (simp add: byte_at_def add.assoc)

lemma read_page_bytes:
  assumes "page * PAGE_SIZE + off + n \<le> 4294967296" "off + n \<le> PAGE_SIZE" "0 < n"
    and "attributes (page_tables m table) page \<noteq> RasterizerCachedMemory"
  shows "read_page D unsafe table m page off n
    = map_option (\<lambda>bs. (bs, m)) (those (map (\<lambda>i. byte_at m table (vaddr_at page (off + i))) [0..<n]))"
proof -
  have p: "page < PAGE_TABLE_NUM_ENTRIES" using assms(1,3) by linarith
  note at = page_addresses [OF assms(1,2)]
  show ?thesis
  proof (cases "attributes (page_tables m table) page")
    case Unmapped
    have "map (\<lambda>i. byte_at m table (vaddr_at page (off + i))) [0..<n] = map Some (replicate n 0)"
      by (rule nth_equalityI) (use Unmapped at in \<open>simp_all add: byte_at_def\<close>)
    with Unmapped p show ?thesis by (simp add: read_page_def those_map del: map_replicate)
  next
    case PageMemory
    show ?thesis
    proof (cases "pointers (page_tables m table) page")
      case None
      have "byte_at m table (vaddr_at page (off + 0)) = None" using at [OF assms(3)] None PageMemory by (simp add: byte_at_def)
      with None PageMemory p assms(3) show ?thesis by (force simp: read_page_def those_map)
    next
      case (Some r)
      then obtain b offset where r: "pointers (page_tables m table) page = Some (b, offset)" by (cases r) simp
      note shown = byte_at_page [OF assms(1,2) _ PageMemory r]
      have "(\<forall>i<n. offset + off + i < backing_size b) \<longleftrightarrow> offset + off + n \<le> backing_size b"
        by (rule fits_iff) (rule assms(3))
      with PageMemory p r shown show ?thesis
        by (auto simp: read_page_def those_map host_read_def read_bytes_def)
    qed
  qed (use assms(4) in simp)
qed

lemma upt_append_shift:
  "n \<le> r \<Longrightarrow> map f [0..<n] @ map (\<lambda>i. f (n + i)) [0..<r - n] = map f [0..<r]"
  by (rule nth_equalityI) (auto simp: nth_append)

lemma ReadBlock_loop_bytes:
  "page * PAGE_SIZE + off + remaining \<le> 4294967296 \<Longrightarrow> off < PAGE_SIZE
    \<Longrightarrow> \<forall>i < remaining. uncached m table (vaddr_at page (off + i))
    \<Longrightarrow> ReadBlock_loop D unsafe table m page off remaining
      = map_option (\<lambda>bs. (bs, m)) (those (map (\<lambda>i. byte_at m table (vaddr_at page (off + i))) [0..<remaining]))"
proof (induction D unsafe table m page off remaining rule: ReadBlock_loop.induct)
  case (1 D unsafe table m page off remaining)
  let ?f = "\<lambda>i. byte_at m table (vaddr_at page (off + i))"
  let ?n = "copy_amount off remaining"
  show ?case
  proof (cases "remaining = 0")
    case True
    then show ?thesis by (simp add: ReadBlock_loop.simps)
  next
    case False
    have n: "0 < ?n" "?n \<le> remaining" "off + ?n \<le> PAGE_SIZE"
      using False "1.prems"(2) by (auto simp: copy_amount_def)
    have bound: "page * PAGE_SIZE + off + ?n \<le> 4294967296" using n(2) "1.prems"(1) by simp
    have "attributes (page_tables m table) page \<noteq> RasterizerCachedMemory"
      using "1.prems"(3) False page_addresses(1) [OF bound n(3,1)] by (metis gr0I)
    note this_page = read_page_bytes [OF bound n(3,1) this, of D unsafe]
    have rest: "ReadBlock_loop D unsafe table m (Suc page) 0 (remaining - ?n)
        = map_option (\<lambda>bs. (bs, m)) (those (map (\<lambda>i. ?f (?n + i)) [0..<remaining - ?n]))"
      if ok: "read_page D unsafe table m page off ?n = Some (bs, m)" for bs
    proof (cases "?n = remaining")
      case True
      then show ?thesis by (simp add: ReadBlock_loop.simps)
    next
      case more: False
      then have full: "off + ?n = PAGE_SIZE" using "1.prems"(2) by (auto simp: copy_amount_def)
      have shift: "vaddr_at (Suc page) i = vaddr_at page (off + (?n + i))" for i
        using vaddr_at_page [of page i] full by (simp add: add.assoc [symmetric])
      show ?thesis
        unfolding shift [of "0 + _", simplified]
        using "1.IH" [OF False refl ok refl] "1.prems"(1,3) full n more shift by simp
    qed
    have split: "map ?f [0..<remaining] = map ?f [0..<?n] @ map (\<lambda>i. ?f (?n + i)) [0..<remaining - ?n]"
      using upt_append_shift [OF n(2), of ?f] by simp
    show ?thesis
    proof (cases "those (map ?f [0..<?n])")
      case None
      then show ?thesis
        by (subst ReadBlock_loop.simps) (simp only: split those_append this_page False Let_def if_False None
            option.map bind.bind_lzero)
    next
      case (Some bs)
      with this_page have ok: "read_page D unsafe table m page off ?n = Some (bs, m)" by simp
      show ?thesis
        by (subst ReadBlock_loop.simps)
          (simp add: split those_append False Let_def ok rest [OF ok] Some map_option_case split: option.split)
    qed
  qed
qed

lemma byte_at_one_page [simp]: "byte_at one_page 0 v =
    Some (if page_of v = 0x1F000 then bytes one_page (RegionMem VRAM) (page_offset_of v) else 0)"
  using page_offset_less [of v]
  by (simp add: byte_at_def one_page_def empty_memory_def set_page_def PageTable_Clear_def VRAM_SIZE_def
      less_trans [OF page_offset_less] del: page_offset_less)

lemma one_page_uncached [simp]: "uncached one_page 0 v"
  by (simp add: one_page_def empty_memory_def set_page_def PageTable_Clear_def)

text \<open>
  C6: a block read of a range that does not wrap round the address space and none of whose pages is
  held by the rasterizer's cache: it returns the bytes the page table shows, one address at a time,
  across any number of pages, a hole of the mapping as zeros, and changes nothing; and it stops
  the emulator exactly when one of the bytes is not there, on a page without a pointer or beyond the
  end of its host buffer. Pages held by the cache, which are flushed first, are not covered.
\<close>

theorem ReadBlock_bytewise:
  assumes "unat a + sz \<le> 4294967296" "\<forall>i < sz. uncached m table (a + of_nat i)"
  shows "ReadBlockImpl D unsafe table m a sz
    = map_option (\<lambda>bs. (bs, m)) (those (map (\<lambda>i. byte_at m table (a + of_nat i)) [0..<sz]))"
  unfolding ReadBlockImpl_def
  using ReadBlock_loop_bytes [of "page_of a" "page_offset_of a" sz m table D unsafe] assms
  by (simp add: vaddr_at_address page_split [of a])

lemma ReadBlock_bytewise_witness:
  "ReadBlockImpl idle_devices False 0 one_page 0x1F000FFE 4 = Some ([0, 0, 0, 0], one_page)"
proof -
  have "bytes one_page b i = 0" for b i by (simp add: one_page_def empty_memory_def)
  then have "those (map (\<lambda>i. byte_at one_page 0 (0x1F000FFE + of_nat i)) [0..<4]) = Some [0, 0, 0, 0]"
    by (simp add: upt_rec)
  with ReadBlock_bytewise [of "0x1F000FFE" 4 one_page 0 idle_devices False] show ?thesis by simp
qed

text \<open>No two pages of a table share a byte of a buffer.\<close>

definition separate :: "PageTable \<Rightarrow> bool" where
  "separate pt \<longleftrightarrow> (\<forall>p q b i j. p \<noteq> q \<and> pointers pt p = Some (b, i) \<and> pointers pt q = Some (b, j)
     \<longrightarrow> i + PAGE_SIZE \<le> j \<or> j + PAGE_SIZE \<le> i)"

lemma one_page_separate: "separate (page_tables one_page 0)" "pt_ok (page_tables one_page 0)"
  using one_page_ok
  by (auto simp: separate_def tables_ok_def one_page_def empty_memory_def set_page_def
      PageTable_Clear_def split: if_splits)

text \<open>The bytes a table shows after \<open>bs\<close> is written at \<open>start\<close>: holes swallow their part.\<close>

definition overwritten :: "MemorySystem \<Rightarrow> nat \<Rightarrow> nat \<Rightarrow> u8 list \<Rightarrow> u32 \<Rightarrow> u8 option" where
  "overwritten m table start bs v =
     (if attributes (page_tables m table) (page_of v) = PageMemory
         \<and> start \<le> unat v \<and> unat v < start + length bs
      then Some (bs ! (unat v - start)) else byte_at m table v)"

lemma byte_at_None: "byte_at (m\<lparr>bytes := st\<rparr>) table v = None \<longleftrightarrow> byte_at m table v = None"
  by (auto simp: byte_at_def split: PageType.splits option.splits)

text \<open>
  Writing one byte after the other: where a byte of the table lies on the host, and what a buffer
  holds after the bytes are put there in order. Two addresses may show the same place.
\<close>

definition host_at :: "PageTable \<Rightarrow> u32 \<Rightarrow> (BackingMem \<times> nat) option" where
  "host_at pt v = (if attributes pt (page_of v) = PageMemory
     then map_option (\<lambda>(b, offset). (b, offset + page_offset_of v)) (pointers pt (page_of v)) else None)"

definition poke :: "PageTable \<Rightarrow> store \<Rightarrow> u32 \<Rightarrow> u8 \<Rightarrow> store" where
  "poke pt st v x = (case host_at pt v of None \<Rightarrow> st | Some (b, i) \<Rightarrow> st(b := (st b)(i := x)))"

fun poke_all :: "PageTable \<Rightarrow> store \<Rightarrow> u32 \<Rightarrow> u8 list \<Rightarrow> store" where
  "poke_all pt st v [] = st"
| "poke_all pt st v (x # xs) = poke_all pt (poke pt st v x) (v + 1) xs"

lemma poke_all_append: "poke_all pt st v (xs @ ys) = poke_all pt (poke_all pt st v xs) (v + of_nat (length xs)) ys"
  by (induction xs arbitrary: st v) (simp_all add: algebra_simps)

lemma poke_all_hole: "(\<And>i. i < length xs \<Longrightarrow> host_at pt (v + of_nat i) = None) \<Longrightarrow> poke_all pt st v xs = st"
proof (induction xs arbitrary: v)
  case (Cons x xs)
  have "poke_all pt st (v + 1) xs = st"
    by (rule Cons.IH) (use Cons.prems [of "Suc _"] in \<open>simp add: algebra_simps\<close>)
  with Cons.prems [of 0] show ?case by (simp add: poke_def)
qed simp

lemma write_bytes_Cons: "write_bytes st b i (x # xs) = write_bytes (st(b := (st b)(i := x))) b (Suc i) xs"
  by (auto simp: write_bytes_def fun_eq_iff nth_Cons' intro!: arg_cong [where f = "(!) xs"])

lemma poke_all_run:
  assumes "\<And>j. j < length xs \<Longrightarrow> host_at pt (v + of_nat j) = Some (b, i + j)"
  shows "poke_all pt st v xs = write_bytes st b i xs"
  using assms
proof (induction xs arbitrary: st v i)
  case Nil
  then show ?case by (auto simp: write_bytes_def fun_eq_iff)
next
  case (Cons x xs)
  have "poke_all pt st' (v + 1) xs = write_bytes st' b (Suc i) xs" for st'
    by (rule Cons.IH) (use Cons.prems [of "Suc _"] in \<open>simp add: algebra_simps\<close>)
  with Cons.prems [of 0] show ?case by (simp add: poke_def write_bytes_Cons)
qed

definition all_shown :: "MemorySystem \<Rightarrow> nat \<Rightarrow> u32 \<Rightarrow> nat \<Rightarrow> bool" where
  "all_shown m table v n \<longleftrightarrow> (\<forall>i < n. byte_at m table (v + of_nat i) \<noteq> None)"

lemma all_shown_split: "n \<le> k \<Longrightarrow> all_shown m table v k \<longleftrightarrow> all_shown m table v n \<and> all_shown m table (v + of_nat n) (k - n)"
proof -
  assume n: "n \<le> k"
  have "P k \<longleftrightarrow> P' \<and> P''" if "P k \<longleftrightarrow> (\<forall>i<k. Q i)" "P' \<longleftrightarrow> (\<forall>i<n. Q i)" "P'' \<longleftrightarrow> (\<forall>i<k - n. Q (n + i))" for P Q and P' P'' :: bool
    using that n by (auto, metis add_diff_inverse_nat diff_less_mono not_le)
  from this [of "all_shown m table v" "\<lambda>i. byte_at m table (v + of_nat i) \<noteq> None"] show ?thesis
    by (simp add: all_shown_def add.assoc)
qed

lemma all_shown_bytes [simp]: "all_shown (m\<lparr>bytes := st\<rparr>) table v n \<longleftrightarrow> all_shown m table v n"
  by (simp add: all_shown_def byte_at_None)

lemma vaddr_at_plus: "vaddr_at page off + of_nat i = vaddr_at page (off + i)"
  by (simp add: vaddr_at_def add.assoc)

lemma write_page_bytes:
  assumes "page * PAGE_SIZE + off + length bs \<le> 4294967296" "off + length bs \<le> PAGE_SIZE" "bs \<noteq> []"
    and "attributes (page_tables m table) page \<noteq> RasterizerCachedMemory"
  shows "write_page D unsafe table m page off bs =
    (if all_shown m table (vaddr_at page off) (length bs)
     then Some (m\<lparr>bytes := poke_all (page_tables m table) (bytes m) (vaddr_at page off) bs\<rparr>) else None)"
proof -
  let ?pt = "page_tables m table"
  have n: "0 < length bs" using assms(3) by simp
  then have p: "page < PAGE_TABLE_NUM_ENTRIES" using assms(1) by linarith
  note at = page_addresses [OF assms(1,2)]
  show ?thesis
  proof (cases "attributes ?pt page")
    case Unmapped
    have "poke_all ?pt (bytes m) (vaddr_at page off) bs = bytes m"
      by (rule poke_all_hole) (use Unmapped at in \<open>simp add: host_at_def vaddr_at_plus\<close>)
    with Unmapped p at show ?thesis by (simp add: write_page_def all_shown_def byte_at_def vaddr_at_plus)
  next
    case PageMemory
    show ?thesis
    proof (cases "pointers ?pt page")
      case None
      have "byte_at m table (vaddr_at page (off + 0)) = None" using at [OF n] None PageMemory by (simp add: byte_at_def)
      with None PageMemory p n show ?thesis by (auto simp: write_page_def all_shown_def vaddr_at_plus)
    next
      case (Some r)
      then obtain b offset where r: "pointers ?pt page = Some (b, offset)" by (cases r) simp
      note shown = byte_at_page [OF assms(1,2) _ PageMemory r]
      have "all_shown m table (vaddr_at page off) (length bs) \<longleftrightarrow> (\<forall>i<length bs. offset + off + i < backing_size b)"
        unfolding all_shown_def vaddr_at_plus using shown by (metis option.distinct(1))
      moreover have "\<dots> \<longleftrightarrow> offset + off + length bs \<le> backing_size b" by (rule fits_iff) (rule n)
      moreover have "poke_all ?pt (bytes m) (vaddr_at page off) bs = write_bytes (bytes m) b (offset + off) bs"
        by (rule poke_all_run) (use PageMemory r at in \<open>simp add: host_at_def vaddr_at_plus\<close>)
      ultimately show ?thesis using PageMemory p r by (simp add: write_page_def host_write_def)
    qed
  qed (use assms(4) in simp)
qed

lemma WriteBlock_loop_bytes:
  "page * PAGE_SIZE + off + length src \<le> 4294967296 \<Longrightarrow> off < PAGE_SIZE
    \<Longrightarrow> \<forall>i < length src. uncached m table (vaddr_at page (off + i))
    \<Longrightarrow> WriteBlock_loop D unsafe table m page off src =
      (if all_shown m table (vaddr_at page off) (length src)
       then Some (m\<lparr>bytes := poke_all (page_tables m table) (bytes m) (vaddr_at page off) src\<rparr>) else None)"
proof (induction D unsafe table m page off src rule: WriteBlock_loop.induct)
  case (1 D unsafe table m page off src)
  let ?n = "copy_amount off (length src)" and ?pt = "page_tables m table" and ?v = "vaddr_at page off"
  show ?case
  proof (cases "src = []")
    case True
    then show ?thesis by (simp add: WriteBlock_loop.simps all_shown_def)
  next
    case False
    have n: "0 < ?n" "?n \<le> length src" "off + ?n \<le> PAGE_SIZE"
      using False "1.prems"(2) by (auto simp: copy_amount_def)
    have len: "length (take ?n src) = ?n" using n(2) by simp
    have bound: "page * PAGE_SIZE + off + ?n \<le> 4294967296" using n(2) "1.prems"(1) by simp
    have unc: "attributes ?pt page \<noteq> RasterizerCachedMemory"
      using "1.prems"(3) False page_addresses(1) [OF bound n(3,1)] by (metis length_greater_0_conv)
    have "take ?n src \<noteq> []" using False n(1) by simp
    note w = write_page_bytes [OF _ _ this unc, unfolded len, OF bound n(3), of D unsafe]
    show ?thesis
    proof (cases "all_shown m table ?v ?n")
      case False
      then have "\<not> all_shown m table ?v (length src)" using all_shown_split [OF n(2)] by blast
      with False w \<open>src \<noteq> []\<close> show ?thesis by (subst WriteBlock_loop.simps) (simp add: Let_def)
    next
      case True
      let ?m = "m\<lparr>bytes := poke_all ?pt (bytes m) ?v (take ?n src)\<rparr>"
      have ok: "write_page D unsafe table m page off (take ?n src) = Some ?m" using w True by simp
      have "WriteBlock_loop D unsafe table ?m (Suc page) 0 (drop ?n src) =
        (if all_shown m table (?v + of_nat ?n) (length src - ?n)
         then Some (m\<lparr>bytes := poke_all ?pt (bytes m) ?v src\<rparr>) else None)"
      proof (cases "?n = length src")
        case True
        then show ?thesis by (simp add: WriteBlock_loop.simps all_shown_def)
      next
        case more: False
        then have full: "off + ?n = PAGE_SIZE" using "1.prems"(2) by (auto simp: copy_amount_def)
        have shift: "vaddr_at (Suc page) i = vaddr_at page (off + (?n + i))" for i
          using vaddr_at_page [of page i] full by (simp add: add.assoc [symmetric])
        have next_page: "vaddr_at (Suc page) 0 = ?v + of_nat ?n" using shift [of 0] by (simp add: vaddr_at_plus)
        have bound': "Suc page * PAGE_SIZE + 0 + length (drop ?n src) \<le> 4294967296"
          using "1.prems"(1) full n(2) by simp
        have unc': "\<forall>i < length (drop ?n src). uncached ?m table (vaddr_at (Suc page) (0 + i))"
          using "1.prems"(3) by (simp add: shift)
        have "poke_all ?pt (poke_all ?pt (bytes m) ?v (take ?n src)) (?v + of_nat ?n) (drop ?n src)
            = poke_all ?pt (bytes m) ?v (take ?n src @ drop ?n src)"
          using len by (simp only: poke_all_append)
        then show ?thesis
          using "1.IH" [OF \<open>src \<noteq> []\<close> refl ok bound' _ unc'] unfolding next_page by simp
      qed
      then show ?thesis using ok True \<open>src \<noteq> []\<close> all_shown_split [OF n(2), of m table ?v]
        by (subst WriteBlock_loop.simps) (simp add: Let_def)
    qed
  qed
qed

text \<open>
  C7: a block write to a range that does not wrap round the address space and none of whose pages is
  held by the rasterizer's cache: it changes nothing but the bytes of the host buffers, which are
  then what writing the bytes one by one, in order, makes of them, so that every address that shows
  the same place shows the new byte and the last byte put at a place stays; parts that fall in a hole
  of the mapping are dropped. It stops the emulator exactly when one of the bytes has no place, on
  a page without a pointer or beyond the end of its host buffer. Pages held by the cache, which are
  flushed first, are not covered.
\<close>

theorem WriteBlock_bytewise:
  assumes "unat a + length bs \<le> 4294967296" "\<forall>i < length bs. uncached m table (a + of_nat i)"
  shows "WriteBlockImpl D unsafe table m a bs =
    (if all_shown m table a (length bs)
     then Some (m\<lparr>bytes := poke_all (page_tables m table) (bytes m) a bs\<rparr>) else None)"
proof -
  have "vaddr_at (page_of a) (page_offset_of a) = a" using vaddr_at_address [of a 0] by simp
  with WriteBlock_loop_bytes [of "page_of a" "page_offset_of a" bs m table D unsafe] assms show ?thesis
    by (simp add: WriteBlockImpl_def vaddr_at_address page_split [of a])
qed

text \<open>The witness writes over the end of the one mapped page, twice the same page and a hole behind it.\<close>

lemma WriteBlock_bytewise_witness:
  "\<exists>m'. WriteBlockImpl idle_devices False 0 one_page 0x1F000FFE [1, 2, 3, 4] = Some m'
     \<and> byte_at m' 0 0x1F000FFF = Some 2 \<and> byte_at m' 0 0x1F001000 = Some 0"
proof -
  have "all_shown one_page 0 0x1F000FFE (length [1, 2, 3, 4 :: u8])" by (simp add: all_shown_def)
  with WriteBlock_bytewise [of "0x1F000FFE" "[1, 2, 3, 4]" one_page 0 idle_devices False]
  have "WriteBlockImpl idle_devices False 0 one_page 0x1F000FFE [1, 2, 3, 4]
      = Some (one_page\<lparr>bytes := poke_all (page_tables one_page 0) (bytes one_page) 0x1F000FFE [1, 2, 3, 4]\<rparr>)" by simp
  then show ?thesis
    by (simp add: byte_at_def one_page_def empty_memory_def set_page_def PageTable_Clear_def poke_def host_at_def
        page_of_def page_offset_of_def VRAM_SIZE_def)
qed

text \<open>In a table in which no place has two addresses, the bytes written are the only ones that change.\<close>

lemma overwritten_overwritten:
  assumes "\<forall>v. byte_at (m\<lparr>bytes := st\<rparr>) table v = overwritten m table start bs v"
  shows "overwritten (m\<lparr>bytes := st\<rparr>) table (start + length bs) cs v
    = overwritten m table start (bs @ cs) v"
  using assms by (auto simp: overwritten_def nth_append)

lemma poke_shows:
  assumes "separate (page_tables m table)" "byte_at m table a \<noteq> None"
  shows "byte_at (m\<lparr>bytes := poke (page_tables m table) (bytes m) a x\<rparr>) table v = overwritten m table (unat a) [x] v"
proof (cases "attributes (page_tables m table) (page_of a) = PageMemory")
  case False
  then have "poke (page_tables m table) (bytes m) a x = bytes m" by (simp add: poke_def host_at_def)
  moreover have "overwritten m table (unat a) [x] v = byte_at m table v"
    using False by (auto simp: overwritten_def le_less_Suc_eq dest!: word_unat_eq_iff [THEN iffD2])
  ultimately show ?thesis by simp
next
  case True
  with assms(2) obtain b i where p: "pointers (page_tables m table) (page_of a) = Some (b, i)"
    "i + page_offset_of a < backing_size b" by (auto simp: byte_at_def split: option.splits if_splits)
  have st: "poke (page_tables m table) (bytes m) a x = (bytes m)(b := (bytes m b)(i + page_offset_of a := x))"
    using True p by (simp add: poke_def host_at_def)
  have same: "unat a \<le> unat v \<and> unat v < unat a + length [x] \<longleftrightarrow> v = a"
    by (auto simp: le_less_Suc_eq word_unat_eq_iff)
  show ?thesis
  proof (cases "v = a")
    case True
    then show ?thesis using st p \<open>attributes _ _ = _\<close> by (simp add: overwritten_def byte_at_def)
  next
    case False
    have "(c, j + page_offset_of v) \<noteq> (b, i + page_offset_of a)"
      if q: "pointers (page_tables m table) (page_of v) = Some (c, j)" for c j
    proof (cases "page_of v = page_of a")
      case True
      with q p have "c = b" "j = i" by simp_all
      moreover have "page_offset_of v \<noteq> page_offset_of a"
        using False True page_split [of v] page_split [of a] by (auto simp: word_unat_eq_iff)
      ultimately show ?thesis by simp
    next
      case other: False
      have "c = b \<Longrightarrow> i + PAGE_SIZE \<le> j \<or> j + PAGE_SIZE \<le> i"
        using assms(1) p(1) q other unfolding separate_def by (metis (full_types))
      then show ?thesis using page_offset_less [of v] page_offset_less [of a] by (auto simp del: page_offset_less)
    qed
    then have "byte_at (m\<lparr>bytes := poke (page_tables m table) (bytes m) a x\<rparr>) table v = byte_at m table v"
      unfolding st by (auto simp: byte_at_def split: PageType.split option.split)
    with False same show ?thesis by (auto simp: overwritten_def)
  qed
qed

lemma poke_all_shows:
  assumes "separate (page_tables m table)" "all_shown m table a (length bs)" "unat a + length bs \<le> 4294967296"
  shows "byte_at (m\<lparr>bytes := poke_all (page_tables m table) (bytes m) a bs\<rparr>) table v = overwritten m table (unat a) bs v"
  using assms
proof (induction bs arbitrary: m a)
  case Nil
  then show ?case by (auto simp: overwritten_def)
next
  case (Cons x bs)
  let ?m = "m\<lparr>bytes := poke (page_tables m table) (bytes m) a x\<rparr>"
  have a: "byte_at m table a \<noteq> None" "all_shown m table (a + 1) (length bs)"
    using Cons.prems(2) all_shown_split [of 1 "Suc (length bs)" m table a] by (auto simp: all_shown_def)
  note one = poke_shows [OF Cons.prems(1) a(1), of x]
  show ?case
  proof (cases "bs = []")
    case True
    with one show ?thesis by simp
  next
    case False
    then have "Suc (unat a) < 4294967296" using Cons.prems(3) by (cases bs) auto
    then have s: "unat (a + 1) = unat a + 1" by (simp add: unat_plus_no_wrap_u32)
    have "byte_at (?m\<lparr>bytes := poke_all (page_tables ?m table) (bytes ?m) (a + 1) bs\<rparr>) table v
        = overwritten ?m table (unat (a + 1)) bs v"
      by (rule Cons.IH) (use Cons.prems a s in simp_all)
    then show ?thesis using overwritten_overwritten [of "poke (page_tables m table) (bytes m) a x" m table "unat a" "[x]" bs] one s
      by (simp add: Cons.prems(1))
  qed
qed

lemma WriteBlock_shows:
  assumes "unat a + length bs \<le> 4294967296" "all_shown m table a (length bs)" "separate (page_tables m table)"
  obtains st where "WriteBlockImpl D unsafe table m a bs = Some (m\<lparr>bytes := st\<rparr>)"
    "\<forall>v. byte_at (m\<lparr>bytes := st\<rparr>) table v = overwritten m table (unat a) bs v"
    "st = poke_all (page_tables m table) (bytes m) a bs"
proof -
  have v: "vaddr_at (page_of a) (page_offset_of a) = a" using vaddr_at_address [of a 0] by simp
  have "\<forall>i < length bs. uncached m table (a + of_nat i)"
    using assms(2) by (auto simp: all_shown_def byte_at_def)
  with WriteBlock_loop_bytes [of "page_of a" "page_offset_of a" bs m table D unsafe] assms(1,2) v
  have "WriteBlockImpl D unsafe table m a bs = Some (m\<lparr>bytes := poke_all (page_tables m table) (bytes m) a bs\<rparr>)"
    by (simp add: WriteBlockImpl_def vaddr_at_address page_split [of a])
  with poke_all_shows [OF assms(3,2,1)] that show thesis by blast
qed

section \<open>Physical addresses\<close>

text \<open>The one entry the lookup remembers is what the lookup would answer.\<close>

definition cache_ok :: "MemorySystem \<Rightarrow> bool" where
  "cache_ok m \<longleftrightarrow> lookup_physical (fst (physical_ptr_cache m)) = Some (snd (physical_ptr_cache m))"

lemma lookup_physical_returns: "\<exists>ref. lookup_physical a = Some ref"
  by (auto simp: lookup_physical_def make_ref_def Let_def word_le_nat_alt not_less
      split: option.split)

fun lookups :: "MemorySystem \<Rightarrow> u32 list \<Rightarrow> (MemoryRef list \<times> MemorySystem) option" where
  "lookups m [] = Some ([], m)"
| "lookups m (a # as) =
     do { (r, m1) \<leftarrow> GetPhysicalRef m a; (rs, m2) \<leftarrow> lookups m1 as; Some (r # rs, m2) }"

lemma GetPhysicalRef_transparent:
  assumes "cache_ok m"
  shows "\<exists>m'. GetPhysicalRef m a = Some (the (lookup_physical a), m') \<and> cache_ok m'"
  using assms lookup_physical_returns [of a]
  by (auto simp: GetPhysicalRef_def cache_ok_def)

lemma lookups_transparent:
  "cache_ok m \<Longrightarrow> \<exists>m'. lookups m as = Some (map (\<lambda>a. the (lookup_physical a)) as, m')"
proof (induction as arbitrary: m)
  case (Cons a as)
  from GetPhysicalRef_transparent [OF Cons.prems, of a] obtain m1
    where "GetPhysicalRef m a = Some (the (lookup_physical a), m1)" "cache_ok m1" by blast
  with Cons.IH [of m1] show ?case by auto
qed simp

text \<open>
  C8: from a fresh memory system (cache entry \<open>{0, nullptr}\<close>) any sequence of physical lookups
  answers each address exactly as the uncached table of memory areas does, and none aborts.
\<close>

theorem GetPhysicalRef_cache_invisible:
  "\<exists>m'. lookups (m\<lparr>physical_ptr_cache := (0, None)\<rparr>) as
     = Some (map (\<lambda>a. the (lookup_physical a)) as, m')"
proof (rule lookups_transparent)
  show "cache_ok (m\<lparr>physical_ptr_cache := (0, None)\<rparr>)"
    by (simp add: cache_ok_def lookup_physical_def memory_areas_def memory_map_defs)
qed

end
