(* ===== verification/GatewayCheat.thy ===== *)
theory GatewayCheat imports MemoryBlocks begin

text \<open>
  The cheat interpreter of src/core/cheats/gateway_cheat.cpp: one function per opcode, one step of
  \<open>Execute\<close> per line (the skipping and the executing part), and the run over a cheat's lines.

  The line counter is a 64-bit \<open>size_t\<close>: jumping back to line 0 sets it to the wrapped predecessor,
  which the loop's increment undoes. \<^const>\<open>None\<close> is an abort of the memory system or an access
  past the last cheat line; a run that is not over when its fuel is used up is \<open>Running\<close>.
\<close>

section \<open>Lines and state\<close>

datatype CheatType =
  Null | Write32Type | Write16Type | Write8Type
| GreaterThan32 | LessThan32 | EqualTo32 | NotEqualTo32
| GreaterThan16WithMask | LessThan16WithMask | EqualTo16WithMask | NotEqualTo16WithMask
| LoadOffset | LoopType | Terminator | LoopExecuteVariant | FullTerminator
| SetOffset | AddValue | SetValue
| IncrementiveWrite32 | IncrementiveWrite16 | IncrementiveWrite8
| Load32 | Load16 | Load8 | AddOffset | Joker | Patch
| OtherType int

record CheatLine =
  cl_type :: CheatType
  cl_address :: u32
  cl_value :: u32
  cl_first :: u32
  cl_text :: string
  cl_valid :: bool

record State =
  st_reg :: u32
  st_offset :: u32
  st_if_flag :: u32
  st_loop_count :: u32
  st_loop_back_line :: u64
  st_current_line_nr :: u64
  st_loop_flag :: bool

definition State_init :: State where
  "State_init = \<lparr>st_reg = 0, st_offset = 0, st_if_flag = 0, st_loop_count = 0,
     st_loop_back_line = 0, st_current_line_nr = 0, st_loop_flag = False\<rparr>"

text \<open>
  What a cheat acts on: the memory system, the calls to the CPU's \<open>InvalidateCacheRange\<close> in their
  order, and the pad state the HID service shows.
\<close>

record System =
  sys_memory :: MemorySystem
  sys_invalidated :: "(u32 \<times> u32) list"
  sys_pad :: u32

type_synonym 'v read_func = "System \<Rightarrow> u32 \<Rightarrow> ('v \<times> System) option"
type_synonym 'v write_func = "System \<Rightarrow> u32 \<Rightarrow> 'v \<Rightarrow> System option"

definition InvalidateCacheRange :: "System \<Rightarrow> u32 \<Rightarrow> u32 \<Rightarrow> System" where
  "InvalidateCacheRange sys addr len = sys\<lparr>sys_invalidated := sys_invalidated sys @ [(addr, len)]\<rparr>"

definition on_read :: "(MemorySystem \<Rightarrow> u32 \<Rightarrow> ('v \<times> MemorySystem) option) \<Rightarrow> 'v read_func" where
  "on_read rd sys addr = do { (v, m) \<leftarrow> rd (sys_memory sys) addr; Some (v, sys\<lparr>sys_memory := m\<rparr>) }"

definition on_write :: "(MemorySystem \<Rightarrow> u32 \<Rightarrow> 'v \<Rightarrow> MemorySystem option) \<Rightarrow> 'v write_func" where
  "on_write wr sys addr v = do { m \<leftarrow> wr (sys_memory sys) addr v; Some (sys\<lparr>sys_memory := m\<rparr>) }"

section \<open>Opcodes\<close>

definition WriteOp ::
  "('a::len word) read_func \<Rightarrow> 'a word write_func \<Rightarrow> CheatLine \<Rightarrow> State \<Rightarrow> System \<Rightarrow> System option" where
  "WriteOp read_func write_func line st sys =
     (let addr = cl_address line + st_offset st in do {
        (val, sys1) \<leftarrow> read_func sys addr;
        if val \<noteq> ucast (cl_value line)
        then do { sys2 \<leftarrow> write_func sys1 addr (ucast (cl_value line));
                  Some (InvalidateCacheRange sys2 addr (of_nat (LENGTH('a) div 8))) }
        else Some sys1 })"

definition CompOp ::
  "('a::len word) read_func \<Rightarrow> ('a word \<Rightarrow> bool) \<Rightarrow> CheatLine \<Rightarrow> State \<Rightarrow> System
     \<Rightarrow> (State \<times> System) option" where
  "CompOp read_func compare line st sys =
     (let addr = cl_address line + st_offset st in do {
        (val, sys1) \<leftarrow> read_func sys addr;
        Some (if \<not> compare val then st\<lparr>st_if_flag := st_if_flag st + 1\<rparr> else st, sys1) })"

definition LoadOffsetOp :: "u32 read_func \<Rightarrow> CheatLine \<Rightarrow> State \<Rightarrow> System \<Rightarrow> (State \<times> System) option" where
  "LoadOffsetOp read32 line st sys =
     do { (v, sys1) \<leftarrow> read32 sys (cl_address line + st_offset st); Some (st\<lparr>st_offset := v\<rparr>, sys1) }"

definition LoopOp :: "CheatLine \<Rightarrow> State \<Rightarrow> State" where
  "LoopOp line st =
     st\<lparr>st_loop_flag := st_loop_count st < cl_value line,
        st_loop_count := st_loop_count st + 1,
        st_loop_back_line := st_current_line_nr st\<rparr>"

definition TerminateOp :: "State \<Rightarrow> State" where
  "TerminateOp st = (if 0 < st_if_flag st then st\<lparr>st_if_flag := st_if_flag st - 1\<rparr> else st)"

definition LoopExecuteVariantOp :: "State \<Rightarrow> State" where
  "LoopExecuteVariantOp st =
     (if st_loop_flag st then st\<lparr>st_current_line_nr := st_loop_back_line st - 1\<rparr>
      else st\<lparr>st_loop_count := 0\<rparr>)"

definition FullTerminateOp :: "State \<Rightarrow> State" where
  "FullTerminateOp st =
     (if st_loop_flag st then st\<lparr>st_current_line_nr := st_loop_back_line st - 1\<rparr>
      else st\<lparr>st_offset := 0, st_reg := 0, st_loop_count := 0, st_if_flag := 0,
              st_loop_flag := False\<rparr>)"

definition SetOffsetOp :: "CheatLine \<Rightarrow> State \<Rightarrow> State" where
  "SetOffsetOp line st = st\<lparr>st_offset := cl_value line\<rparr>"

definition AddValueOp :: "CheatLine \<Rightarrow> State \<Rightarrow> State" where
  "AddValueOp line st = st\<lparr>st_reg := st_reg st + cl_value line\<rparr>"

definition SetValueOp :: "CheatLine \<Rightarrow> State \<Rightarrow> State" where
  "SetValueOp line st = st\<lparr>st_reg := cl_value line\<rparr>"

definition IncrementiveWriteOp ::
  "('a::len word) read_func \<Rightarrow> 'a word write_func \<Rightarrow> CheatLine \<Rightarrow> State \<Rightarrow> System
     \<Rightarrow> (State \<times> System) option" where
  "IncrementiveWriteOp read_func write_func line st sys =
     (let addr = cl_value line + st_offset st; width = of_nat (LENGTH('a) div 8) in do {
        (val, sys1) \<leftarrow> read_func sys addr;
        sys2 \<leftarrow> (if val \<noteq> ucast (st_reg st)
                 then do { s \<leftarrow> write_func sys1 addr (ucast (st_reg st));
                           Some (InvalidateCacheRange s addr width) }
                 else Some sys1);
        Some (st\<lparr>st_offset := st_offset st + width\<rparr>, sys2) })"

definition LoadOp ::
  "('a::len word) read_func \<Rightarrow> CheatLine \<Rightarrow> State \<Rightarrow> System \<Rightarrow> (State \<times> System) option" where
  "LoadOp read_func line st sys =
     do { (v, sys1) \<leftarrow> read_func sys (cl_value line + st_offset st);
          Some (st\<lparr>st_reg := ucast v\<rparr>, sys1) }"

definition AddOffsetOp :: "CheatLine \<Rightarrow> State \<Rightarrow> State" where
  "AddOffsetOp line st = st\<lparr>st_offset := st_offset st + cl_value line\<rparr>"

definition JokerOp :: "CheatLine \<Rightarrow> State \<Rightarrow> System \<Rightarrow> State" where
  "JokerOp line st sys =
     (if sys_pad sys AND cl_value line = cl_value line then st
      else st\<lparr>st_if_flag := st_if_flag st + 1\<rparr>)"

definition line_at :: "CheatLine list \<Rightarrow> u64 \<Rightarrow> CheatLine option" where
  "line_at ls i = (if unat i < length ls then Some (ls ! unat i) else None)"

text \<open>The two copy loops of \<open>PatchOp\<close>: whole words, then the bytes of the last one.\<close>

fun patch_words ::
  "u32 write_func \<Rightarrow> CheatLine list \<Rightarrow> bool \<Rightarrow> u32 \<Rightarrow> nat \<Rightarrow> State \<Rightarrow> System
     \<Rightarrow> (bool \<times> u32 \<times> nat \<times> State \<times> System) option" where
  "patch_words write32 ls first addr num_bytes st sys =
     (if num_bytes < 4 then Some (first, addr, num_bytes, st, sys)
      else do {
        l \<leftarrow> line_at ls (st_current_line_nr st);
        sys1 \<leftarrow> write32 sys addr (if first then cl_first l else cl_value l);
        patch_words write32 ls (\<not> first) (addr + 4) (num_bytes - 4)
          (if \<not> first \<and> 4 < num_bytes then st\<lparr>st_current_line_nr := st_current_line_nr st + 1\<rparr> else st)
          sys1 })"

declare patch_words.simps [simp del]

fun patch_tail ::
  "u8 write_func \<Rightarrow> CheatLine list \<Rightarrow> bool \<Rightarrow> u32 \<Rightarrow> nat \<Rightarrow> nat \<Rightarrow> State \<Rightarrow> System \<Rightarrow> System option" where
  "patch_tail write8 ls first addr 0 bit_offset st sys = Some sys"
| "patch_tail write8 ls first addr (Suc n) bit_offset st sys = do {
     l \<leftarrow> line_at ls (st_current_line_nr st);
     sys1 \<leftarrow> write8 sys addr (ucast (drop_bit bit_offset (if first then cl_first l else cl_value l)));
     patch_tail write8 ls first (addr + 1) n (bit_offset + 8) st sys1 }"

text \<open>\<open>ceil(value / 8.0)\<close>, exact on 32-bit values.\<close>

definition patch_lines :: "u32 \<Rightarrow> nat" where
  "patch_lines v = (unat v + 7) div 8"

definition PatchOp ::
  "u32 write_func \<Rightarrow> u8 write_func \<Rightarrow> CheatLine \<Rightarrow> CheatLine list \<Rightarrow> State \<Rightarrow> System
     \<Rightarrow> (State \<times> System) option" where
  "PatchOp write32 write8 line ls st sys =
     (if 0 < st_if_flag st
      then Some (st\<lparr>st_current_line_nr := st_current_line_nr st + of_nat (patch_lines (cl_value line))\<rparr>, sys)
      else
        let num_bytes = unat (cl_value line);
            addr = cl_address line + st_offset st;
            sys0 = InvalidateCacheRange sys addr (cl_value line);
            st0 = (if 0 < num_bytes then st\<lparr>st_current_line_nr := st_current_line_nr st + 1\<rparr> else st)
        in do {
          (first, addr1, rest, st1, sys1) \<leftarrow> patch_words write32 ls True addr num_bytes st0 sys0;
          sys2 \<leftarrow> patch_tail write8 ls first addr1 rest 0 st1 sys1;
          Some (st1, sys2) })"

section \<open>One line\<close>

definition conditional :: "CheatType \<Rightarrow> bool" where
  "conditional t \<longleftrightarrow> t \<in> {GreaterThan32, LessThan32, EqualTo32, NotEqualTo32, GreaterThan16WithMask,
     LessThan16WithMask, EqualTo16WithMask, NotEqualTo16WithMask, Joker}"

text \<open>The part of the loop body for a line that is being skipped.\<close>

definition skip_line ::
  "Devices \<Rightarrow> CheatLine list \<Rightarrow> CheatLine \<Rightarrow> State \<Rightarrow> System \<Rightarrow> (State \<times> System) option" where
  "skip_line D ls line st sys =
     (if conditional (cl_type line) then Some (st\<lparr>st_if_flag := st_if_flag st + 1\<rparr>, sys)
      else if cl_type line = Patch
      then PatchOp (on_write (Write32 D)) (on_write (Write8 D)) line ls st sys
      else if cl_type line = Terminator then Some (TerminateOp st, sys)
      else if cl_type line = FullTerminator then Some (FullTerminateOp st, sys)
      else Some (st, sys))"

definition masked :: "CheatLine \<Rightarrow> u16 \<Rightarrow> u16" where
  "masked line val = ucast (drop_bit 16 (NOT (cl_value line))) AND val"

definition keep_state :: "State \<Rightarrow> System option \<Rightarrow> (State \<times> System) option" where
  "keep_state st r = map_option (Pair st) r"

fun execute_line ::
  "Devices \<Rightarrow> CheatLine list \<Rightarrow> CheatLine \<Rightarrow> State \<Rightarrow> System \<Rightarrow> (State \<times> System) option" where
  "execute_line D ls line st sys =
     (let r8 = on_read (Read8 D); r16 = on_read (Read16 D); r32 = on_read (Read32 D);
          w8 = on_write (Write8 D); w16 = on_write (Write16 D); w32 = on_write (Write32 D);
          value = cl_value line; half = (ucast value :: u16)
      in case cl_type line of
        Null \<Rightarrow> Some (st, sys)
      | Write32Type \<Rightarrow> keep_state st (WriteOp r32 w32 line st sys)
      | Write16Type \<Rightarrow> keep_state st (WriteOp r16 w16 line st sys)
      | Write8Type \<Rightarrow> keep_state st (WriteOp r8 w8 line st sys)
      | GreaterThan32 \<Rightarrow> CompOp r32 (\<lambda>val. value > val) line st sys
      | LessThan32 \<Rightarrow> CompOp r32 (\<lambda>val. value < val) line st sys
      | EqualTo32 \<Rightarrow> CompOp r32 (\<lambda>val. value = val) line st sys
      | NotEqualTo32 \<Rightarrow> CompOp r32 (\<lambda>val. value \<noteq> val) line st sys
      | GreaterThan16WithMask \<Rightarrow> CompOp r16 (\<lambda>val. half > masked line val) line st sys
      | LessThan16WithMask \<Rightarrow> CompOp r16 (\<lambda>val. half < masked line val) line st sys
      | EqualTo16WithMask \<Rightarrow> CompOp r16 (\<lambda>val. half = masked line val) line st sys
      | NotEqualTo16WithMask \<Rightarrow> CompOp r16 (\<lambda>val. half \<noteq> masked line val) line st sys
      | LoadOffset \<Rightarrow> LoadOffsetOp r32 line st sys
      | LoopType \<Rightarrow> Some (LoopOp line st, sys)
      | Terminator \<Rightarrow> Some (TerminateOp st, sys)
      | LoopExecuteVariant \<Rightarrow> Some (LoopExecuteVariantOp st, sys)
      | FullTerminator \<Rightarrow> Some (FullTerminateOp st, sys)
      | SetOffset \<Rightarrow> Some (SetOffsetOp line st, sys)
      | AddValue \<Rightarrow> Some (AddValueOp line st, sys)
      | SetValue \<Rightarrow> Some (SetValueOp line st, sys)
      | IncrementiveWrite32 \<Rightarrow> IncrementiveWriteOp r32 w32 line st sys
      | IncrementiveWrite16 \<Rightarrow> IncrementiveWriteOp r16 w16 line st sys
      | IncrementiveWrite8 \<Rightarrow> IncrementiveWriteOp r8 w8 line st sys
      | Load32 \<Rightarrow> LoadOp r32 line st sys
      | Load16 \<Rightarrow> LoadOp r16 line st sys
      | Load8 \<Rightarrow> LoadOp r8 line st sys
      | AddOffset \<Rightarrow> Some (AddOffsetOp line st, sys)
      | Joker \<Rightarrow> Some (JokerOp line st sys, sys)
      | Patch \<Rightarrow> PatchOp w32 w8 line ls st sys
      | OtherType _ \<Rightarrow> Some (st, sys))"

declare execute_line.simps [simp del]

text \<open>The body of the loop and its increment.\<close>

definition line_step ::
  "Devices \<Rightarrow> CheatLine list \<Rightarrow> State \<Rightarrow> System \<Rightarrow> (State \<times> System) option" where
  "line_step D ls st sys =
     (let line = ls ! unat (st_current_line_nr st) in do {
        (st1, sys1) \<leftarrow> (if 0 < st_if_flag st then skip_line D ls line st sys
                       else execute_line D ls line st sys);
        Some (st1\<lparr>st_current_line_nr := st_current_line_nr st1 + 1\<rparr>, sys1) })"

section \<open>The run\<close>

datatype outcome = Done State System | Crash | Running State System

fun Execute_from :: "nat \<Rightarrow> Devices \<Rightarrow> CheatLine list \<Rightarrow> State \<Rightarrow> System \<Rightarrow> outcome" where
  "Execute_from fuel D ls st sys =
     (if \<not> unat (st_current_line_nr st) < length ls then Done st sys
      else case fuel of
        0 \<Rightarrow> Running st sys
      | Suc n \<Rightarrow> (case line_step D ls st sys of
                    None \<Rightarrow> Crash
                  | Some (st1, sys1) \<Rightarrow> Execute_from n D ls st1 sys1))"

declare Execute_from.simps [simp del]

definition Execute :: "nat \<Rightarrow> Devices \<Rightarrow> CheatLine list \<Rightarrow> System \<Rightarrow> outcome" where
  "Execute fuel D ls sys = Execute_from fuel D ls State_init sys"

end
