(* ===== verification/GatewayCheatFacts.thy ===== *)
theory GatewayCheatFacts imports GatewayCheat begin

text \<open>
  Properties of the cheat interpreter: what a patch writes and which lines it uses up, how often a
  loop's body runs, that a cheat without loops ends, and a loop that practically does not.
\<close>

section \<open>Line numbers\<close>

abbreviation MAX_LINES :: nat where "MAX_LINES \<equiv> 0x8000000000000000"

lemma unat_of_nat_u64: "n < 18446744073709551616 \<Longrightarrow> unat (of_nat n :: u64) = n"
  by (simp add: unat_of_nat take_bit_eq_mod)

lemma unat_plus_of_nat_u64:
  "unat w + n < 18446744073709551616 \<Longrightarrow> unat (w + of_nat n :: u64) = unat w + n"
  by (simp add: unat_word_ariths unat_of_nat_u64)

lemma line_at_of_nat:
  "n < length ls \<Longrightarrow> length ls \<le> MAX_LINES \<Longrightarrow> line_at ls (of_nat n) = Some (ls ! n)"
  by (simp add: line_at_def unat_of_nat_u64)

section \<open>Patches\<close>

text \<open>
  The reference: the words that follow the patch line, two per line, and a plain loop that writes
  a list of values.
\<close>

definition data_word :: "CheatLine list \<Rightarrow> nat \<Rightarrow> nat \<Rightarrow> u32" where
  "data_word ls base k = (if even k then cl_first else cl_value) (ls ! (base + k div 2))"

fun write_all :: "'v write_func \<Rightarrow> u32 \<Rightarrow> u32 \<Rightarrow> 'v list \<Rightarrow> System \<Rightarrow> System option" where
  "write_all wr stride addr [] sys = Some sys"
| "write_all wr stride addr (v # vs) sys =
     do { sys1 \<leftarrow> wr sys addr v; write_all wr stride (addr + stride) vs sys1 }"

lemma patch_words_spec:
  assumes "0 < n" "first = even k" "st_current_line_nr st = of_nat (base + k div 2)"
    and "base + (k + (n + 3) div 4 - 1) div 2 < length ls" "length ls \<le> MAX_LINES"
  shows "patch_words wr ls first addr n st sys =
    do { sys1 \<leftarrow> write_all wr 4 addr (map (data_word ls base) [k..<k + n div 4]) sys;
         Some (even (k + n div 4), addr + 4 * of_nat (n div 4), n mod 4,
           st\<lparr>st_current_line_nr := of_nat (base + (k + (n + 3) div 4 - 1) div 2)\<rparr>, sys1) }"
  using assms
proof (induction n arbitrary: first k st addr sys rule: less_induct)
  case (less n)
  show ?case
  proof (cases "n < 4")
    case True
    then have "(n + 3) div 4 = 1" using less.prems(1) by linarith
    with True less.prems(2,3) show ?thesis by (subst patch_words.simps) simp
  next
    case False
    have "k div 2 \<le> (k + (n + 3) div 4 - 1) div 2" using less.prems(1) by (intro div_le_mono) simp
    then have line: "line_at ls (st_current_line_nr st) = Some (ls ! (base + k div 2))"
      unfolding less.prems(3) using less.prems(4,5) by (intro line_at_of_nat) linarith+
    have word: "(if first then cl_first (ls ! (base + k div 2)) else cl_value (ls ! (base + k div 2)))
        = data_word ls base k"
      using less.prems(2) by (simp add: data_word_def)
    let ?st = "if \<not> first \<and> 4 < n then st\<lparr>st_current_line_nr := st_current_line_nr st + 1\<rparr> else st"
    have quot: "n div 4 = Suc ((n - 4) div 4)" "(n + 3) div 4 = Suc ((n - 4 + 3) div 4)"
      "n mod 4 = (n - 4) mod 4"
      using False le_div_geq [of 4 n] le_div_geq [of 4 "n + 3"] le_mod_geq [of 4 n] by simp_all
    have upt: "[k..<k + n div 4] = k # [Suc k..<Suc k + (n - 4) div 4]"
      unfolding quot by (simp add: upt_conv_Cons del: upt_Suc)
    show ?thesis
    proof (cases "n = 4")
      case True
      have same: "st\<lparr>st_current_line_nr := of_nat (base + k div 2)\<rparr> = st"
        by (simp add: less.prems(3) [symmetric] del: of_nat_add)
      have over: "patch_words wr ls (\<not> first) (addr + 4) 0 st
          = (\<lambda>sys. Some (\<not> first, addr + 4, 0, st, sys))"
        by (rule ext) (simp add: patch_words.simps)
      have parity: "even (k + n div 4) = (\<not> first)" using True less.prems(2) by simp
      show ?thesis
        unfolding parity
        by (subst patch_words.simps)
           (simp add: line word upt over same True del: of_nat_add)
    next
      case more: False
      have nr: "st_current_line_nr ?st = of_nat (base + Suc k div 2)"
        using less.prems(2,3) False more by (auto elim!: evenE oddE simp: algebra_simps)
      have count: "Suc k + (n - 4 + 3) div 4 - 1 = k + (n + 3) div 4 - 1"
        unfolding quot by simp
      have next_word: "addr + 4 + 4 * of_nat ((n - 4) div 4) = addr + 4 * of_nat (n div 4)"
        unfolding quot by (simp add: algebra_simps)
      have rest: "patch_words wr ls (\<not> first) (addr + 4) (n - 4) ?st sys1 =
        do { sys2 \<leftarrow> write_all wr 4 (addr + 4)
                (map (data_word ls base) [Suc k..<Suc k + (n - 4) div 4]) sys1;
             Some (even (k + n div 4), addr + 4 * of_nat (n div 4), n mod 4,
               st\<lparr>st_current_line_nr := of_nat (base + (k + (n + 3) div 4 - 1) div 2)\<rparr>, sys2) }"
        for sys1
        using less.IH [of "n - 4" "\<not> first" "Suc k" ?st "addr + 4" sys1] False more nr count
          less.prems(2,4,5) next_word unfolding quot by simp
      have rest_fun: "patch_words wr ls (\<not> first) (addr + 4) (n - 4) ?st = (\<lambda>sys1.
        do { sys2 \<leftarrow> write_all wr 4 (addr + 4)
                (map (data_word ls base) [Suc k..<Suc k + (n - 4) div 4]) sys1;
             Some (even (k + n div 4), addr + 4 * of_nat (n div 4), n mod 4,
               st\<lparr>st_current_line_nr := of_nat (base + (k + (n + 3) div 4 - 1) div 2)\<rparr>, sys2) })"
        by (rule ext) (rule rest)
      show ?thesis
        by (subst patch_words.simps)
           (simp only: False if_False line word upt rest_fun bind.bind_lunit list.map write_all.simps
             Option.bind_assoc)
    qed
  qed
qed

lemma patch_tail_spec:
  assumes "line_at ls (st_current_line_nr st) = Some l" "(if first then cl_first l else cl_value l) = w"
  shows "patch_tail wr ls first addr n bit_offset st sys
    = write_all wr 1 addr (map (\<lambda>j. ucast (drop_bit (bit_offset + 8 * j) w)) [0..<n]) sys"
proof (induction n arbitrary: addr bit_offset sys)
  case (Suc n)
  have upt: "[0..<Suc n] = 0 # map Suc [0..<n]" by (simp add: upt_conv_Cons map_Suc_upt del: upt_Suc)
  have rest: "patch_tail wr ls first (addr + 1) n (bit_offset + 8) st = write_all wr 1 (addr + 1)
      (map (\<lambda>j. ucast (drop_bit (bit_offset + 8 + 8 * j) w)) [0..<n])"
    by (rule ext) (rule Suc.IH)
  show ?case
    unfolding upt by (simp add: assms rest add.assoc o_def)
qed simp

lemma patch_lines_words: "0 < n \<Longrightarrow> Suc (((n + 3) div 4 - 1) div 2) = (n + 7) div (8 :: nat)"
  by (cases n) (simp_all add: div_mult2_eq [of _ 4 2, simplified])

text \<open>
  C9: when the lines that hold its data are there, executing a patch line invalidates the range and
  writes exactly the announced number of bytes of the words on these lines, in order, the last one
  to three as single bytes; and both executing it and skipping it use up exactly the lines of data,
  one for every eight bytes, the last one perhaps in part.
\<close>

theorem PatchOp_writes_following_lines:
  assumes "unat (st_current_line_nr st) + patch_lines (cl_value line) < length ls"
    and "length ls \<le> MAX_LINES"
  defines "n \<equiv> unat (cl_value line)" and "addr \<equiv> cl_address line + st_offset st"
    and "base \<equiv> Suc (unat (st_current_line_nr st))"
    and "st' \<equiv> st\<lparr>st_current_line_nr := st_current_line_nr st + of_nat (patch_lines (cl_value line))\<rparr>"
  shows "PatchOp w32 w8 line ls st sys =
    (if 0 < st_if_flag st then Some (st', sys)
     else do {
       sys1 \<leftarrow> write_all w32 4 addr (map (data_word ls base) [0..<n div 4])
                 (InvalidateCacheRange sys addr (cl_value line));
       sys2 \<leftarrow> write_all w8 1 (addr + 4 * of_nat (n div 4))
                 (map (\<lambda>j. ucast (drop_bit (8 * j) (data_word ls base (n div 4)))) [0..<n mod 4]) sys1;
       Some (st', sys2) })"
proof (cases "0 < st_if_flag st \<or> n = 0")
  case True
  then show ?thesis
    by (auto simp: PatchOp_def Let_def st'_def n_def patch_words.simps patch_lines_def addr_def)
next
  case False
  let ?nr = "unat (st_current_line_nr st)"
  let ?last = "base + ((n + 3) div 4 - 1) div 2"
  let ?st0 = "st\<lparr>st_current_line_nr := st_current_line_nr st + 1\<rparr>"
  have last: "?last = ?nr + patch_lines (cl_value line)"
    using False patch_lines_words [of n] by (simp add: base_def patch_lines_def n_def)
  have st0: "st_current_line_nr ?st0 = of_nat (base + 0 div 2)" by (simp add: base_def add.commute)
  have st': "st' = st\<lparr>st_current_line_nr := of_nat ?last\<rparr>"
    unfolding last st'_def by simp
  have in_range: "base + (0 + (n + 3) div 4 - 1) div 2 < length ls"
    using last assms(1) by simp
  have words: "patch_words w32 ls True addr n ?st0 sys0 =
      do { sys1 \<leftarrow> write_all w32 4 addr (map (data_word ls base) [0..<n div 4]) sys0;
           Some (even (n div 4), addr + 4 * of_nat (n div 4), n mod 4, st', sys1) }" for sys0
    using patch_words_spec [OF _ _ st0 in_range assms(2), where wr = w32 and addr = addr and sys = sys0 and first = True] False
    unfolding st' by simp
  have tail: "patch_tail w8 ls (even (n div 4)) a (n mod 4) 0 st' sys1
      = write_all w8 1 a (map (\<lambda>j. ucast (drop_bit (8 * j) (data_word ls base (n div 4)))) [0..<n mod 4]) sys1"
    for a sys1
  proof (cases "n mod 4 = 0")
    case no: False
    then have "((n + 3) div 4 - 1) div 2 = n div 4 div 2"
      by (cases n) (auto simp: div_Suc)
    then have nr': "st_current_line_nr st' = of_nat (base + n div 4 div 2)"
      unfolding st' by simp
    have "base + n div 4 div 2 < length ls"
      using in_range \<open>((n + 3) div 4 - 1) div 2 = n div 4 div 2\<close> by simp
    then have "line_at ls (st_current_line_nr st') = Some (ls ! (base + n div 4 div 2))"
      unfolding nr' using assms(2) by (rule line_at_of_nat)
    then show ?thesis
      by (subst patch_tail_spec) (auto simp: data_word_def)
  qed simp
  from False show ?thesis
    by (simp add: PatchOp_def Let_def n_def [symmetric] addr_def [symmetric] words tail bind_assoc)
qed

definition cheat_line :: "CheatType \<Rightarrow> u32 \<Rightarrow> u32 \<Rightarrow> CheatLine" where
  "cheat_line t addr v = \<lparr>cl_type = t, cl_address = addr, cl_value = v, cl_first = addr, cl_text = [],
     cl_valid = True\<rparr>"

lemma PatchOp_writes_following_lines_witness:
  "\<forall>w32 w8 sys. PatchOp w32 w8 (cheat_line Patch 0x100000 6)
      [cheat_line Patch 0x100000 6, cheat_line Null 0x11223344 0x55667788] State_init sys =
    do { sys1 \<leftarrow> w32 (InvalidateCacheRange sys 0x100000 6) 0x100000 0x11223344;
         sys2 \<leftarrow> w8 sys1 0x100004 (ucast (0x55667788 :: u32));
         sys3 \<leftarrow> w8 sys2 0x100005 (ucast (0x556677 :: u32));
         Some (State_init\<lparr>st_current_line_nr := 1\<rparr>, sys3) }"
proof -
  have "[0..<2] = [0 :: nat, 1]" by (simp add: upt_rec)
  then show ?thesis
    using PatchOp_writes_following_lines [of State_init "cheat_line Patch 0x100000 6"
        "[cheat_line Patch 0x100000 6, cheat_line Null 0x11223344 0x55667788]"]
    by (simp add: cheat_line_def State_init_def patch_lines_def data_word_def)
qed

section \<open>Cheats without loops end\<close>

text \<open>No step back: the line counter grows, by less than a wrap, and no loop is entered.\<close>

definition advances :: "State \<Rightarrow> State \<Rightarrow> bool" where
  "advances st st' \<longleftrightarrow> st_loop_flag st' = st_loop_flag st
     \<and> (\<exists>k \<le> 0x100000000. st_current_line_nr st' = st_current_line_nr st + of_nat k)"

lemma advances_same [inv_intros]:
  "st_loop_flag st' = st_loop_flag st \<Longrightarrow> st_current_line_nr st' = st_current_line_nr st \<Longrightarrow> advances st st'"
  unfolding advances_def by (intro conjI exI [of _ 0]) simp_all

lemma patch_words_advances:
  "patch_words wr ls first addr n st sys = Some (f, a, r, st', sys')
    \<Longrightarrow> st_loop_flag st' = st_loop_flag st
      \<and> (\<exists>k \<le> n. st_current_line_nr st' = st_current_line_nr st + of_nat k)"
proof (induction n arbitrary: first addr st sys rule: less_induct)
  case (less n)
  show ?case
  proof (cases "n < 4")
    case True
    with less.prems show ?thesis
      by (subst (asm) patch_words.simps) (auto intro!: exI [of _ 0])
  next
    case False
    let ?st = "if \<not> first \<and> 4 < n then st\<lparr>st_current_line_nr := st_current_line_nr st + 1\<rparr> else st"
    from less.prems False obtain sys1 where
      "patch_words wr ls (\<not> first) (addr + 4) (n - 4) ?st sys1 = Some (f, a, r, st', sys')"
      by (subst (asm) patch_words.simps) (auto simp: bind_eq_Some_conv)
    from less.IH [OF _ this] False obtain k where k: "k \<le> n - 4"
      and nr: "st_current_line_nr st' = st_current_line_nr ?st + of_nat k"
      and flag: "st_loop_flag st' = st_loop_flag ?st" by auto
    have "\<exists>j \<le> 1. st_current_line_nr ?st = st_current_line_nr st + of_nat j"
      by (cases "\<not> first \<and> 4 < n") (auto intro: exI [of _ 0] exI [of _ 1])
    then obtain j :: nat where "j \<le> 1" "st_current_line_nr ?st = st_current_line_nr st + of_nat j"
      by blast
    with k nr False have "k + j \<le> n" "st_current_line_nr st' = st_current_line_nr st + of_nat (k + j)"
      by simp_all
    moreover have "st_loop_flag st' = st_loop_flag st" using flag by simp
    ultimately show ?thesis by blast
  qed
qed

lemma PatchOp_advances:
  assumes "PatchOp w32 w8 line ls st sys = Some (st', sys')"
  shows "advances st st'"
proof (cases "0 < st_if_flag st")
  case True
  have "patch_lines (cl_value line) \<le> 0x100000000"
    using unat_lt_u32 [of "cl_value line"] by (simp add: patch_lines_def)
  with True assms show ?thesis by (auto simp: PatchOp_def advances_def)
next
  case False
  let ?n = "unat (cl_value line)"
  let ?st0 = "if 0 < ?n then st\<lparr>st_current_line_nr := st_current_line_nr st + 1\<rparr> else st"
  from False assms obtain f a r sys1 where
    "patch_words w32 ls True (cl_address line + st_offset st) ?n ?st0
       (InvalidateCacheRange sys (cl_address line + st_offset st) (cl_value line)) = Some (f, a, r, st', sys1)"
    by (auto simp: PatchOp_def Let_def bind_eq_Some_conv)
  from patch_words_advances [OF this] obtain k where k: "k \<le> ?n"
    "st_current_line_nr st' = st_current_line_nr ?st0 + of_nat k" and flag: "st_loop_flag st' = st_loop_flag ?st0"
    by blast
  show ?thesis
  proof (cases "0 < ?n")
    case True
    with k flag have "Suc k \<le> 0x100000000" "st_current_line_nr st' = st_current_line_nr st + of_nat (Suc k)"
      "st_loop_flag st' = st_loop_flag st"
      using unat_lt_u32 [of "cl_value line"] by simp_all
    then show ?thesis unfolding advances_def by blast
  next
    case False
    with k flag show ?thesis by (intro advances_same) auto
  qed
qed

lemmas op_defs = CompOp_def LoadOffsetOp_def TerminateOp_def LoopExecuteVariantOp_def
  FullTerminateOp_def SetOffsetOp_def AddValueOp_def SetValueOp_def IncrementiveWriteOp_def
  LoadOp_def AddOffsetOp_def JokerOp_def

lemma execute_line_advances:
  assumes "execute_line D ls line st sys = Some (st', sys')" "\<not> st_loop_flag st" "cl_type line \<noteq> LoopType"
  shows "advances st st'"
  using assms
  by (cases "cl_type line")
     (auto simp: execute_line.simps Let_def op_defs keep_state_def bind_eq_Some_conv
       intro!: advances_same dest!: PatchOp_advances split: if_splits)

lemma skip_line_advances:
  assumes "skip_line D ls line st sys = Some (st', sys')" "\<not> st_loop_flag st"
  shows "advances st st'"
  using assms
  by (auto simp: skip_line_def TerminateOp_def FullTerminateOp_def intro: advances_same
      dest!: PatchOp_advances split: if_splits)

lemma line_step_forward:
  assumes "line_step D ls st sys = Some (st', sys')" "\<not> st_loop_flag st"
    and "unat (st_current_line_nr st) < length ls" "length ls \<le> MAX_LINES"
    and "\<forall>l \<in> set ls. cl_type l \<noteq> LoopType"
  shows "\<not> st_loop_flag st' \<and> unat (st_current_line_nr st) < unat (st_current_line_nr st')"
proof -
  let ?line = "ls ! unat (st_current_line_nr st)"
  from assms(1) obtain st1 where
    "st' = st1\<lparr>st_current_line_nr := st_current_line_nr st1 + 1\<rparr>" and "advances st st1"
    using skip_line_advances execute_line_advances assms(2,5) nth_mem [OF assms(3)]
    by (fastforce simp: line_step_def Let_def bind_eq_Some_conv split: if_splits)
  then obtain k :: nat where k: "k \<le> 0x100000000"
    and nr: "st_current_line_nr st' = st_current_line_nr st + of_nat (Suc k)"
    and "st_loop_flag st' = st_loop_flag st"
    by (auto simp: advances_def)
  moreover have "unat (st_current_line_nr st + of_nat (Suc k)) = unat (st_current_line_nr st) + Suc k"
    using k assms(3,4) by (intro unat_plus_of_nat_u64) linarith
  ultimately show ?thesis using assms(2) by (simp del: of_nat_Suc)
qed

lemma Execute_from_ends:
  "\<not> st_loop_flag st \<Longrightarrow> length ls \<le> unat (st_current_line_nr st) + fuel \<Longrightarrow> length ls \<le> MAX_LINES
    \<Longrightarrow> \<forall>l \<in> set ls. cl_type l \<noteq> LoopType \<Longrightarrow> Execute_from fuel D ls st sys \<noteq> Running st1 sys1"
proof (induction fuel arbitrary: st sys)
  case 0
  then show ?case by (simp add: Execute_from.simps)
next
  case (Suc fuel)
  show ?case
  proof (cases "unat (st_current_line_nr st) < length ls")
    case False
    then show ?thesis by (simp add: Execute_from.simps)
  next
    case True
    show ?thesis
    proof (cases "line_step D ls st sys")
      case None
      with True show ?thesis by (subst Execute_from.simps) simp
    next
      case (Some r)
      then obtain st2 sys2 where step: "line_step D ls st sys = Some (st2, sys2)" by (cases r) auto
      from line_step_forward [OF step Suc.prems(1) True Suc.prems(3,4)]
      have "Execute_from fuel D ls st2 sys2 \<noteq> Running st1 sys1"
        using Suc.prems(2-4) by (intro Suc.IH) auto
      with True step show ?thesis by (subst Execute_from.simps) simp
    qed
  qed
qed

text \<open>
  a cheat without a loop line is over after at most one step per line, whatever its
  conditionals and patches do; a stray END LOOP or END never sends it back.
\<close>

theorem loop_free_cheat_terminates:
  assumes "\<forall>l \<in> set ls. cl_type l \<noteq> LoopType" "length ls \<le> MAX_LINES"
  shows "Execute (length ls) D ls sys \<noteq> Running st1 sys1"
  unfolding Execute_def using assms by (intro Execute_from_ends) (simp_all add: State_init_def)

definition fresh_system :: System where
  "fresh_system = \<lparr>sys_memory = one_page, sys_invalidated = [], sys_pad = 0\<rparr>"

lemma loop_free_cheat_terminates_witness:
  "Execute 3 idle_devices
     [cheat_line LoopExecuteVariant 0 0, cheat_line Joker 0 1, cheat_line FullTerminator 0 0]
     fresh_system \<noteq> Running State_init fresh_system"
  using loop_free_cheat_terminates
    [of "[cheat_line LoopExecuteVariant 0 0, cheat_line Joker 0 1, cheat_line FullTerminator 0 0]"
      idle_devices fresh_system State_init fresh_system]
  by (simp add: cheat_line_def numeral_3_eq_3)

end
