(* ===== verification/GatewayCheatLoops.thy ===== *)
theory GatewayCheatLoops imports GatewayCheatFacts begin

text \<open>
  Loops of cheats: how often a loop's body runs, and the END line that is also obeyed while its
  block is being skipped.
\<close>

section \<open>Counted steps\<close>

fun steps :: "nat \<Rightarrow> Devices \<Rightarrow> CheatLine list \<Rightarrow> State \<Rightarrow> System \<Rightarrow> (State \<times> System) option" where
  "steps 0 D ls st sys = Some (st, sys)"
| "steps (Suc n) D ls st sys =
     (if unat (st_current_line_nr st) < length ls
      then do { (st1, sys1) \<leftarrow> line_step D ls st sys; steps n D ls st1 sys1 } else None)"

lemma Execute_from_steps:
  "steps n D ls st sys = Some (st', sys')
    \<Longrightarrow> Execute_from (n + fuel) D ls st sys = Execute_from fuel D ls st' sys'"
proof (induction n arbitrary: st sys)
  case (Suc n)
  then show ?case
    by (subst Execute_from.simps) (auto simp: bind_eq_Some_conv split: if_splits)
qed simp

lemma steps_add:
  "steps m D ls st sys = Some (st', sys') \<Longrightarrow> steps n D ls st' sys' = Some r
    \<Longrightarrow> steps (m + n) D ls st sys = Some r"
  by (induction m arbitrary: st sys) (auto simp: bind_eq_Some_conv split: if_splits)

lemma steps_1:
  assumes "unat (st_current_line_nr st) = i" "i < length ls" "st_if_flag st = 0"
    and "execute_line D ls (ls ! i) st sys = Some (st1, sys1)"
  shows "steps 1 D ls st sys = Some (st1\<lparr>st_current_line_nr := st_current_line_nr st1 + 1\<rparr>, sys1)"
  using assms by (simp add: line_step_def Let_def)

section \<open>Straight-line bodies\<close>

text \<open>Lines that act on the two registers and the memory only.\<close>

definition straight :: "CheatLine \<Rightarrow> bool" where
  "straight l \<longleftrightarrow> \<not> conditional (cl_type l)
     \<and> cl_type l \<notin> {LoopType, Terminator, LoopExecuteVariant, FullTerminator, Patch}"

definition effect :: "Devices \<Rightarrow> CheatLine \<Rightarrow> u32 \<times> u32 \<times> System \<Rightarrow> (u32 \<times> u32 \<times> System) option" where
  "effect D l x = (case x of (r, off, sys) \<Rightarrow>
     map_option (\<lambda>(st, sys'). (st_reg st, st_offset st, sys'))
       (execute_line D [] l (State_init\<lparr>st_reg := r, st_offset := off\<rparr>) sys))"

fun pass :: "Devices \<Rightarrow> CheatLine list \<Rightarrow> u32 \<times> u32 \<times> System \<Rightarrow> (u32 \<times> u32 \<times> System) option" where
  "pass D [] x = Some x"
| "pass D (l # ls) x = do { y \<leftarrow> effect D l x; pass D ls y }"

fun passes :: "nat \<Rightarrow> Devices \<Rightarrow> CheatLine list \<Rightarrow> u32 \<times> u32 \<times> System \<Rightarrow> (u32 \<times> u32 \<times> System) option" where
  "passes 0 D ls x = Some x"
| "passes (Suc n) D ls x = do { y \<leftarrow> pass D ls x; passes n D ls y }"

lemma straight_execute:
  assumes "straight l" "effect D l (st_reg st, st_offset st, sys) = Some (r, off, sys')"
  shows "execute_line D ls l st sys = Some (st\<lparr>st_reg := r, st_offset := off\<rparr>, sys')"
  using assms
  by (cases "cl_type l")
     (auto simp: straight_def conditional_def effect_def execute_line.simps Let_def op_defs
       keep_state_def WriteOp_def State_init_def bind_eq_Some_conv split: if_splits)

lemma steps_body:
  "ls = pre @ body @ post \<Longrightarrow> length ls \<le> MAX_LINES \<Longrightarrow> \<forall>l \<in> set body. straight l
    \<Longrightarrow> st_current_line_nr st = of_nat (length pre) \<Longrightarrow> st_if_flag st = 0
    \<Longrightarrow> pass D body (st_reg st, st_offset st, sys) = Some (r, off, sys')
    \<Longrightarrow> steps (length body) D ls st sys = Some (st\<lparr>st_reg := r, st_offset := off,
          st_current_line_nr := of_nat (length pre + length body)\<rparr>, sys')"
proof (induction body arbitrary: pre st sys)
  case Nil
  then have "st\<lparr>st_reg := r, st_offset := off, st_current_line_nr := of_nat (length pre)\<rparr> = st"
    by simp
  with Nil show ?case by simp
next
  case (Cons l body)
  from Cons.prems(6) obtain r1 off1 sys1 where
    e: "effect D l (st_reg st, st_offset st, sys) = Some (r1, off1, sys1)"
    and rest: "pass D body (r1, off1, sys1) = Some (r, off, sys')"
    by (auto simp: bind_eq_Some_conv)
  let ?st1 = "st\<lparr>st_reg := r1, st_offset := off1, st_current_line_nr := of_nat (length (pre @ [l]))\<rparr>"
  have nr: "unat (st_current_line_nr st) = length pre"
    using Cons.prems(1,2,4) by (simp add: unat_of_nat_u64)
  have "execute_line D ls (ls ! length pre) st sys = Some (st\<lparr>st_reg := r1, st_offset := off1\<rparr>, sys1)"
    using straight_execute [OF _ e] Cons.prems(1,3) by simp
  from steps_1 [OF nr _ Cons.prems(5) this] have one: "steps 1 D ls st sys = Some (?st1, sys1)"
    using Cons.prems(1,4) by (simp add: add.commute)
  have "steps (length body) D ls ?st1 sys1 = Some (?st1\<lparr>st_reg := r, st_offset := off,
      st_current_line_nr := of_nat (length (pre @ [l]) + length body)\<rparr>, sys')"
    using Cons.prems rest by (intro Cons.IH) simp_all
  from steps_add [OF one this] show ?case by simp
qed

section \<open>The loop\<close>

lemma steps_round:
  assumes ls: "ls = loop_line # body @ [end_line]" and short: "length ls \<le> MAX_LINES"
    and types: "cl_type loop_line = LoopType" "cl_type end_line = LoopExecuteVariant"
    and body: "\<forall>l \<in> set body. straight l"
    and st: "st_current_line_nr st = 0" "st_if_flag st = 0"
    and pass: "pass D body (st_reg st, st_offset st, sys) = Some (r, off, sys')"
  defines "st1 \<equiv> (LoopOp loop_line st)\<lparr>st_reg := r, st_offset := off\<rparr>"
  shows "steps (1 + (length body + 1)) D ls st sys = Some
    (if st_loop_count st < cl_value loop_line then st1\<lparr>st_current_line_nr := 0\<rparr>
     else st1\<lparr>st_loop_count := 0, st_current_line_nr := of_nat (length ls)\<rparr>, sys')"
proof -
  have "execute_line D ls (ls ! 0) st sys = Some (LoopOp loop_line st, sys)"
    using types by (simp add: ls execute_line.simps)
  from steps_1 [OF _ _ st(2) this] have
    enter: "steps 1 D ls st sys = Some ((LoopOp loop_line st)\<lparr>st_current_line_nr := 1\<rparr>, sys)"
    using st(1) by (simp add: ls LoopOp_def)
  let ?st2 = "st1\<lparr>st_current_line_nr := of_nat (1 + length body)\<rparr>"
  have inside: "steps (length body) D ls ((LoopOp loop_line st)\<lparr>st_current_line_nr := 1\<rparr>) sys
      = Some (?st2, sys')"
    using steps_body [of ls "[loop_line]" body "[end_line]"
        "(LoopOp loop_line st)\<lparr>st_current_line_nr := 1\<rparr>" D sys r off sys'] short body st pass
    by (simp add: ls LoopOp_def st1_def)
  have nr: "unat (st_current_line_nr ?st2) = 1 + length body"
    using short by (simp add: ls unat_of_nat_u64 del: of_nat_add of_nat_Suc)
  have "execute_line D ls (ls ! (1 + length body)) ?st2 sys' = Some (LoopExecuteVariantOp ?st2, sys')"
    using types by (simp add: ls nth_append execute_line.simps)
  from steps_1 [OF nr _ _ this] have
    leave: "steps 1 D ls ?st2 sys' = Some ((LoopExecuteVariantOp ?st2)
      \<lparr>st_current_line_nr := st_current_line_nr (LoopExecuteVariantOp ?st2) + 1\<rparr>, sys')"
    using st by (simp add: ls st1_def LoopOp_def)
  from steps_add [OF enter steps_add [OF inside leave]] st show ?thesis
    by (simp add: LoopExecuteVariantOp_def st1_def LoopOp_def ls add.commute)
qed

lemma steps_rounds:
  assumes ls: "ls = loop_line # body @ [end_line]" and short: "length ls \<le> MAX_LINES"
    and types: "cl_type loop_line = LoopType" "cl_type end_line = LoopExecuteVariant"
    and body: "\<forall>l \<in> set body. straight l"
  shows "st_current_line_nr st = 0 \<Longrightarrow> st_if_flag st = 0
    \<Longrightarrow> unat (st_loop_count st) + k = unat (cl_value loop_line)
    \<Longrightarrow> passes (Suc k) D body (st_reg st, st_offset st, sys) = Some (r, off, sys')
    \<Longrightarrow> \<exists>n st'. steps n D ls st sys = Some (st', sys') \<and> st_reg st' = r \<and> st_offset st' = off
      \<and> st_current_line_nr st' = of_nat (length ls)"
proof (induction k arbitrary: st sys)
  case 0
  then have "\<not> st_loop_count st < cl_value loop_line" by (simp add: word_less_nat_alt)
  moreover have "pass D body (st_reg st, st_offset st, sys) = Some (r, off, sys')"
    using "0.prems"(4) by (auto simp: bind_eq_Some_conv)
  ultimately show ?case
    using steps_round [OF ls short types body "0.prems"(1,2)] by fastforce
next
  case (Suc k)
  then have less: "st_loop_count st < cl_value loop_line" by (simp add: word_less_nat_alt)
  from Suc.prems(4) obtain y where "pass D body (st_reg st, st_offset st, sys) = Some y"
    "passes (Suc k) D body y = Some (r, off, sys')"
    unfolding passes.simps(2) [of "Suc k"] bind_eq_Some_conv by blast
  then obtain r1 off1 sys1 where
    p: "pass D body (st_reg st, st_offset st, sys) = Some (r1, off1, sys1)"
    and ps: "passes (Suc k) D body (r1, off1, sys1) = Some (r, off, sys')"
    by (cases y) blast
  let ?st1 = "(LoopOp loop_line st)\<lparr>st_reg := r1, st_offset := off1, st_current_line_nr := 0\<rparr>"
  have round: "steps (1 + (length body + 1)) D ls st sys = Some (?st1, sys1)"
    using steps_round [OF ls short types body Suc.prems(1,2) p] less by simp
  have "unat (st_loop_count st + 1) = unat (st_loop_count st) + 1"
    using less unat_lt_u32 [of "cl_value loop_line"]
    by (subst unat_plus_no_wrap_u32) (simp_all add: word_less_nat_alt)
  then have count: "unat (st_loop_count ?st1) + k = unat (cl_value loop_line)"
    using Suc.prems(3) by (simp add: LoopOp_def)
  have "\<exists>n st'. steps n D ls ?st1 sys1 = Some (st', sys') \<and> st_reg st' = r \<and> st_offset st' = off
      \<and> st_current_line_nr st' = of_nat (length ls)"
    using Suc.prems(2) ps by (intro Suc.IH count) (simp_all add: LoopOp_def)
  with steps_add [OF round] show ?case by blast
qed

text \<open>
  \<open>C0000000 YYYYYYYY\<close>, a body of register and memory lines, \<open>D1000000\<close>: the run ends with the
  registers and the system after the body has run \<open>YYYYYYYY + 1\<close> times - once more than the
  comment on the opcode says - and this for every count, the largest included.
\<close>

theorem loop_body_runs_count_plus_one:
  assumes "ls = loop_line # body @ [end_line]" "length ls \<le> MAX_LINES"
    and "cl_type loop_line = LoopType" "cl_type end_line = LoopExecuteVariant"
    and "\<forall>l \<in> set body. straight l"
    and "passes (unat (cl_value loop_line) + 1) D body (0, 0, sys) = Some (r, off, sys')"
  shows "\<exists>fuel st'. Execute fuel D ls sys = Done st' sys' \<and> st_reg st' = r \<and> st_offset st' = off"
proof -
  from steps_rounds [OF assms(1-5), of State_init "unat (cl_value loop_line)" D sys r off sys'] assms(6)
  obtain n st' where n: "steps n D ls State_init sys = Some (st', sys')"
    and st': "st_reg st' = r" "st_offset st' = off" "st_current_line_nr st' = of_nat (length ls)"
    by (auto simp: State_init_def)
  have "\<not> unat (st_current_line_nr st') < length ls"
    using assms(2) st'(3) by (simp add: unat_of_nat_u64)
  then have "Execute (n + 0) D ls sys = Done st' sys'"
    unfolding Execute_def Execute_from_steps [OF n] by (simp add: Execute_from.simps)
  with st' show ?thesis by blast
qed

lemma loop_body_runs_count_plus_one_witness:
  "\<exists>fuel st'. Execute fuel idle_devices
      [cheat_line LoopType 0 2, cheat_line AddValue 0 5, cheat_line LoopExecuteVariant 0 0]
      fresh_system = Done st' fresh_system \<and> st_reg st' = 15 \<and> st_offset st' = 0"
  using loop_body_runs_count_plus_one
    [of _ "cheat_line LoopType 0 2" "[cheat_line AddValue 0 5]" "cheat_line LoopExecuteVariant 0 0"
      idle_devices fresh_system 15 0 fresh_system, OF refl]
  by (simp add: cheat_line_def straight_def conditional_def effect_def execute_line.simps
      AddValueOp_def State_init_def Let_def numeral_3_eq_3)

section \<open>The END line inside a skipped block\<close>

text \<open>The three lines, and the state in which each pass over them starts.\<close>

definition skipped_end_cheat :: "u32 \<Rightarrow> u32 \<Rightarrow> CheatLine list" where
  "skipped_end_cheat count keys =
     [cheat_line LoopType 0 count, cheat_line Joker 0 keys, cheat_line FullTerminator 0 0]"

definition skipped_state :: "nat \<Rightarrow> State" where
  "skipped_state p = State_init\<lparr>st_if_flag := of_nat p, st_loop_count := 1, st_loop_flag := True\<rparr>"

lemmas skipped_defs = skipped_end_cheat_def skipped_state_def cheat_line_def State_init_def
  line_step_def skip_line_def conditional_def execute_line.simps LoopOp_def JokerOp_def
  FullTerminateOp_def

lemma skipped_first_pass:
  assumes "0 < count" "sys_pad sys AND keys \<noteq> keys"
  shows "steps 3 D (skipped_end_cheat count keys) State_init sys = Some (skipped_state 1, sys)"
  using assms by (simp add: skipped_defs numeral_3_eq_3 Let_def)

lemma skipped_pass:
  assumes "0 < p" "p < 0xFFFFFFFF"
  shows "steps 3 D (skipped_end_cheat count keys) (skipped_state p) sys = Some (skipped_state (Suc p), sys)"
proof -
  have "0 < (of_nat p :: u32)" "0 < (1 + of_nat p :: u32)"
    using assms by (simp_all add: word_less_nat_alt unat_word_ariths unat_of_nat_u32)
  then show ?thesis by (simp add: skipped_defs numeral_3_eq_3 Let_def)
qed

lemma skipped_passes:
  "q < 0xFFFFFFFF \<Longrightarrow> 0 < count \<Longrightarrow> sys_pad sys AND keys \<noteq> keys \<Longrightarrow>
     steps (3 * Suc q) D (skipped_end_cheat count keys) State_init sys = Some (skipped_state (Suc q), sys)"
proof (induction q)
  case 0
  then show ?case by (simp add: skipped_first_pass)
next
  case (Suc q)
  then have "steps (3 * Suc q) D (skipped_end_cheat count keys) State_init sys
      = Some (skipped_state (Suc q), sys)" by simp
  from steps_add [OF this skipped_pass] Suc.prems(1)
  have "steps (3 * Suc q + 3) D (skipped_end_cheat count keys) State_init sys
      = Some (skipped_state (Suc (Suc q)), sys)" by simp
  then show ?case by (simp add: algebra_simps)
qed

lemma steps_running:
  "steps n D ls st sys = Some r \<Longrightarrow> m < n \<Longrightarrow> \<exists>st' sys'. Execute_from m D ls st sys = Running st' sys'"
proof (induction n arbitrary: m st sys)
  case (Suc n)
  then obtain st1 sys1 where s: "unat (st_current_line_nr st) < length ls"
    "line_step D ls st sys = Some (st1, sys1)" "steps n D ls st1 sys1 = Some r"
    by (auto simp: bind_eq_Some_conv split: if_splits)
  show ?case
  proof (cases m)
    case 0
    with s show ?thesis by (subst Execute_from.simps) simp
  next
    case (Suc k)
    with Suc.IH [OF s(3), of k] Suc.prems(2) have "\<exists>st' sys'. Execute_from k D ls st1 sys1 = Running st' sys'"
      by simp
    with s Suc show ?thesis by (subst Execute_from.simps) simp
  qed
qed simp

text \<open>
  \<open>D2000000\<close> is obeyed while a false conditional skips its block, and jumps back to a loop line
  that is then skipped itself: the cheat \<open>loop; if keys; D2\<close> takes more than twelve thousand million
  line steps when the keys are not held - the count of the loop plays no part - so that the
  emulator's cheat callback does not come back.
\<close>

theorem skipped_END_repeats_the_loop:
  assumes "0 < count" "sys_pad sys AND keys \<noteq> keys" "fuel < 3 * 0xFFFFFFFF"
  shows "\<exists>st' sys'. Execute fuel D (skipped_end_cheat count keys) sys = Running st' sys'"
  unfolding Execute_def
  using steps_running [OF skipped_passes [of "0xFFFFFFFE", OF _ assms(1,2)], of fuel] assms(3)
  by simp

lemma skipped_END_repeats_the_loop_witness:
  "\<exists>st' sys'. Execute 12000000000 idle_devices (skipped_end_cheat 1 1) fresh_system = Running st' sys'"
  using skipped_END_repeats_the_loop [of 1 fresh_system 1 12000000000 idle_devices]
  by (simp add: fresh_system_def)

end
