(* ===== verification/CheatText.thy ===== *)
theory CheatText imports GatewayCheat begin

text \<open>
  The text form of cheats: parsing a code line, writing a cheat, loading a cheat file
  (\<open>CheatLine\<close>, \<open>GetCode\<close>, \<open>ToString\<close> and \<open>LoadFile\<close> of src/core/cheats/gateway_cheat.cpp, with
  \<open>StripSpaces\<close> and \<open>SplitString\<close> of src/common/string_util.cpp).

  A file is its contents. The members of a line that its constructor leaves alone when a number
  does not parse keep what the memory held: the argument \<open>raw\<close>.
\<close>

section \<open>Strings\<close>

definition newline :: char where "newline = CHR 0x0A"

definition strip_char :: "char \<Rightarrow> bool" where
  "strip_char c \<longleftrightarrow> c \<in> {CHR '' '', CHR 0x09, CHR 0x0D, CHR 0x0A}"

definition StripSpaces :: "string \<Rightarrow> string" where
  "StripSpaces s = rev (dropWhile strip_char (rev (dropWhile strip_char s)))"

text \<open>The pieces between delimiters; \<open>getline\<close> yields no piece after a final delimiter.\<close>

fun split_on :: "char \<Rightarrow> string \<Rightarrow> string list" where
  "split_on d [] = [[]]"
| "split_on d (c # cs) =
     (if c = d then [] # split_on d cs
      else case split_on d cs of [] \<Rightarrow> [[c]] | x # xs \<Rightarrow> (c # x) # xs)"

definition SplitString :: "string \<Rightarrow> char \<Rightarrow> string list" where
  "SplitString s d = (let xs = split_on d s in if last xs = [] then butlast xs else xs)"

section \<open>Numbers\<close>

definition isspace :: "char \<Rightarrow> bool" where
  "isspace c \<longleftrightarrow> c \<in> {CHR '' '', CHR 0x09, CHR 0x0A, CHR 0x0B, CHR 0x0C, CHR 0x0D}"

definition hex_value :: "char \<Rightarrow> nat option" where
  "hex_value c =
     (let n = of_char c in
      if 48 \<le> n \<and> n \<le> 57 then Some (n - 48)
      else if 65 \<le> n \<and> n \<le> 70 then Some (n - 55)
      else if 97 \<le> n \<and> n \<le> 102 then Some (n - 87) else None)"

definition is_hex :: "char \<Rightarrow> bool" where
  "is_hex c \<longleftrightarrow> hex_value c \<noteq> None"

text \<open>
  \<open>std::stoi\<close> and \<open>std::stoul\<close> in base 16: white space, a sign, a prefix, then the longest run of
  digits; no digit is the exception. The eight characters they are given cannot overflow.
\<close>

definition skip_prefix :: "string \<Rightarrow> string" where
  "skip_prefix s =
     (case s of a # b # c # rest \<Rightarrow>
        if a = CHR ''0'' \<and> (b = CHR ''x'' \<or> b = CHR ''X'') \<and> is_hex c then c # rest else s
      | _ \<Rightarrow> s)"

definition digits_value :: "string \<Rightarrow> nat" where
  "digits_value ds = foldl (\<lambda>n c. 16 * n + the (hex_value c)) 0 ds"

definition parse_hex :: "string \<Rightarrow> int option" where
  "parse_hex s =
     (let s1 = dropWhile isspace s;
          neg = (s1 \<noteq> [] \<and> hd s1 = CHR ''-'');
          s2 = (if s1 \<noteq> [] \<and> (hd s1 = CHR ''-'' \<or> hd s1 = CHR ''+'') then tl s1 else s1);
          ds = takeWhile is_hex (skip_prefix s2)
      in if ds = [] then None
         else Some (if neg then - int (digits_value ds) else int (digits_value ds)))"

section \<open>Code lines\<close>

fun CheatType_of :: "int \<Rightarrow> CheatType" where
  "CheatType_of n =
     (if n = -1 then Null else if n = 0x0 then Write32Type else if n = 0x1 then Write16Type
      else if n = 0x2 then Write8Type else if n = 0x3 then GreaterThan32
      else if n = 0x4 then LessThan32 else if n = 0x5 then EqualTo32 else if n = 0x6 then NotEqualTo32
      else if n = 0x7 then GreaterThan16WithMask else if n = 0x8 then LessThan16WithMask
      else if n = 0x9 then EqualTo16WithMask else if n = 0xA then NotEqualTo16WithMask
      else if n = 0xB then LoadOffset else if n = 0xC then LoopType
      else if n = 0xD0 then Terminator else if n = 0xD1 then LoopExecuteVariant
      else if n = 0xD2 then FullTerminator else if n = 0xD3 then SetOffset
      else if n = 0xD4 then AddValue else if n = 0xD5 then SetValue
      else if n = 0xD6 then IncrementiveWrite32 else if n = 0xD7 then IncrementiveWrite16
      else if n = 0xD8 then IncrementiveWrite8 else if n = 0xD9 then Load32
      else if n = 0xDA then Load16 else if n = 0xDB then Load8 else if n = 0xDC then AddOffset
      else if n = 0xDD then Joker else if n = 0xE then Patch else OtherType n)"

declare CheatType_of.simps [simp del]

definition CheatLine_ctor :: "CheatLine \<Rightarrow> string \<Rightarrow> CheatLine" where
  "CheatLine_ctor raw line =
     (let invalid = (\<lambda>l. l\<lparr>cl_type := Null, cl_text := line, cl_valid := False\<rparr>) in
      if length line \<noteq> 17 then invalid raw
      else
        let type_temp = take 1 line;
            sub_type_temp = (if type_temp = ''D'' \<or> type_temp = ''d'' then take 1 (drop 1 line) else [])
        in (case parse_hex (type_temp @ sub_type_temp) of
             None \<Rightarrow> invalid raw
           | Some t \<Rightarrow>
               (case parse_hex (take 8 line) of
                  None \<Rightarrow> invalid raw
                | Some f \<Rightarrow>
                    let l = raw\<lparr>cl_type := CheatType_of t, cl_first := word_of_int f,
                              cl_address := (word_of_int f AND 0x0FFFFFFF)\<rparr>
                    in (case parse_hex (take 8 (drop 9 line)) of
                         None \<Rightarrow> invalid l
                       | Some v \<Rightarrow> l\<lparr>cl_value := word_of_int v, cl_text := line, cl_valid := True\<rparr>))))"

section \<open>Cheats and cheat files\<close>

record Cheat =
  gc_enabled :: bool
  gc_name :: string
  gc_lines :: "CheatLine list"
  gc_comments :: string

definition GatewayCheat_of_code :: "CheatLine \<Rightarrow> string \<Rightarrow> string \<Rightarrow> string \<Rightarrow> Cheat" where
  "GatewayCheat_of_code raw name code comments =
     \<lparr>gc_enabled = False, gc_name = name,
      gc_lines = map (CheatLine_ctor raw) (filter (\<lambda>l. l \<noteq> []) (SplitString code newline)),
      gc_comments = comments\<rparr>"

definition SetEnabled :: "bool \<Rightarrow> Cheat \<Rightarrow> Cheat" where
  "SetEnabled b c = c\<lparr>gc_enabled := b\<rparr>"

definition GetCode :: "Cheat \<Rightarrow> string" where
  "GetCode c = concat (map (\<lambda>l. cl_text l @ [newline]) (gc_lines c))"

definition EnabledText :: string where
  "EnabledText = ''*borked3ds_enabled''"

definition ToString :: "Cheat \<Rightarrow> string" where
  "ToString c =
     ''['' @ gc_name c @ '']'' @ [newline]
     @ (if gc_enabled c then EnabledText @ [newline] else [])
     @ concat (map (\<lambda>l. ''*'' @ l @ [newline]) (SplitString (gc_comments c) newline))
     @ GetCode c @ [newline]"

text \<open>The variables of the loading loop.\<close>

record Loader =
  ld_cheats :: "Cheat list"
  ld_comments :: string
  ld_lines :: "CheatLine list"
  ld_name :: string
  ld_enabled :: bool

definition loaded_cheat :: "Loader \<Rightarrow> Cheat" where
  "loaded_cheat ld = \<lparr>gc_enabled = ld_enabled ld, gc_name = ld_name ld, gc_lines = ld_lines ld,
     gc_comments = ld_comments ld\<rparr>"

definition load_line :: "CheatLine \<Rightarrow> Loader \<Rightarrow> string \<Rightarrow> Loader" where
  "load_line raw ld text =
     (let line = StripSpaces (filter (\<lambda>c. c \<noteq> CHR 0x00) text) in
      if 2 \<le> length line \<and> hd line = CHR ''[''
      then
        let ld1 = (if ld_lines ld \<noteq> []
                   then ld\<lparr>ld_cheats := ld_cheats ld @ [loaded_cheat ld], ld_enabled := False\<rparr> else ld)
        in ld1\<lparr>ld_name := take (length line - 2) (drop 1 line), ld_lines := [], ld_comments := []\<rparr>
      else if line \<noteq> [] \<and> hd line = CHR ''*''
      then (if line = EnabledText then ld\<lparr>ld_enabled := True\<rparr>
            else ld\<lparr>ld_comments := ld_comments ld @ tl line @ [newline]\<rparr>)
      else if line \<noteq> [] then ld\<lparr>ld_lines := ld_lines ld @ [CheatLine_ctor raw line]\<rparr>
      else ld)"

definition load_finish :: "Loader \<Rightarrow> Cheat list" where
  "load_finish ld = (if ld_lines ld \<noteq> [] then ld_cheats ld @ [loaded_cheat ld] else ld_cheats ld)"

definition Loader_init :: Loader where
  "Loader_init = \<lparr>ld_cheats = [], ld_comments = [], ld_lines = [], ld_name = [], ld_enabled = False\<rparr>"

definition LoadFile :: "CheatLine \<Rightarrow> string \<Rightarrow> Cheat list" where
  "LoadFile raw contents =
     load_finish (foldl (load_line raw) Loader_init (split_on newline contents))"

section \<open>The cheat engine's list\<close>

definition AddCheat :: "Cheat list \<Rightarrow> Cheat \<Rightarrow> Cheat list" where
  "AddCheat cheats c = cheats @ [c]"

definition RemoveCheat :: "Cheat list \<Rightarrow> nat \<Rightarrow> Cheat list" where
  "RemoveCheat cheats i = (if length cheats \<le> i then cheats else take i cheats @ drop (Suc i) cheats)"

definition UpdateCheat :: "Cheat list \<Rightarrow> nat \<Rightarrow> Cheat \<Rightarrow> Cheat list" where
  "UpdateCheat cheats i c = (if length cheats \<le> i then cheats else cheats[i := c])"

definition SaveCheatFile :: "Cheat list \<Rightarrow> string" where
  "SaveCheatFile cheats = concat (map ToString cheats)"

text \<open>
  One run of the callback: the enabled cheats in order. A cheat that crashes or does not end keeps
  the callback from coming back.
\<close>

fun RunCallback :: "nat \<Rightarrow> Devices \<Rightarrow> Cheat list \<Rightarrow> System \<Rightarrow> System option" where
  "RunCallback fuel D [] sys = Some sys"
| "RunCallback fuel D (c # cs) sys =
     (if gc_enabled c
      then (case Execute fuel D (gc_lines c) sys of
              Done st sys1 \<Rightarrow> RunCallback fuel D cs sys1
            | Crash \<Rightarrow> None
            | Running st sys1 \<Rightarrow> None)
      else RunCallback fuel D cs sys)"

section \<open>Writing and loading\<close>

lemma split_on_piece:
  "d \<notin> set l \<Longrightarrow> split_on d (l @ d # rest) = l # split_on d rest"
  by (induction l) auto

lemma split_on_lines:
  "\<forall>l \<in> set ls. d \<notin> set l \<Longrightarrow> split_on d (concat (map (\<lambda>l. l @ [d]) ls) @ rest) = ls @ split_on d rest"
  by (induction ls) (auto simp: split_on_piece)

lemma SplitString_lines:
  "\<forall>l \<in> set ls. d \<notin> set l \<Longrightarrow> SplitString (concat (map (\<lambda>l. l @ [d]) ls)) d = ls"
  using split_on_lines [of ls d "[]"] by (simp add: SplitString_def)

text \<open>A line that the loader's cleaning leaves alone.\<close>

definition clean :: "string \<Rightarrow> bool" where
  "clean l \<longleftrightarrow> newline \<notin> set l \<and> CHR 0x00 \<notin> set l
     \<and> (l \<noteq> [] \<longrightarrow> \<not> strip_char (hd l) \<and> \<not> strip_char (last l))"

lemma clean_cleaned: "clean l \<Longrightarrow> StripSpaces (filter (\<lambda>c. c \<noteq> CHR 0x00) l) = l"
proof -
  assume c: "clean l"
  then have "filter (\<lambda>c. c \<noteq> CHR 0x00) l = l" by (auto simp: clean_def filter_id_conv)
  moreover have "dropWhile strip_char l = l" "dropWhile strip_char (rev l) = rev l"
    using c by (auto simp: clean_def dropWhile_eq_self_iff hd_rev)
  ultimately show ?thesis by (simp add: StripSpaces_def)
qed

text \<open>Comment lines, and code lines that are neither a heading nor a comment.\<close>

definition comment_ok :: "string \<Rightarrow> bool" where
  "comment_ok l \<longleftrightarrow> clean (CHR ''*'' # l) \<and> CHR ''*'' # l \<noteq> EnabledText"

definition code_ok :: "CheatLine \<Rightarrow> CheatLine \<Rightarrow> bool" where
  "code_ok raw l \<longleftrightarrow> clean (cl_text l) \<and> cl_text l \<noteq> [] \<and> hd (cl_text l) \<noteq> CHR ''*''
     \<and> \<not> (2 \<le> length (cl_text l) \<and> hd (cl_text l) = CHR ''['') \<and> l = CheatLine_ctor raw (cl_text l)"

definition writable :: "CheatLine \<Rightarrow> Cheat \<Rightarrow> bool" where
  "writable raw c \<longleftrightarrow> newline \<notin> set (gc_name c) \<and> CHR 0x00 \<notin> set (gc_name c)
     \<and> (\<forall>l \<in> set (gc_lines c). code_ok raw l)
     \<and> (\<exists>ls. (\<forall>l \<in> set ls. comment_ok l) \<and> gc_comments c = concat (map (\<lambda>l. l @ [newline]) ls))"

definition file_lines :: "Cheat \<Rightarrow> string list \<Rightarrow> string list" where
  "file_lines c ls = (''['' @ gc_name c @ '']'') # (if gc_enabled c then [EnabledText] else [])
     @ map (\<lambda>l. CHR ''*'' # l) ls @ map cl_text (gc_lines c) @ [[]]"

lemma newline_not_bracket [simp]:
  "newline \<noteq> CHR ''[''" "newline \<noteq> CHR '']''" "newline \<noteq> CHR ''*''" "newline \<notin> set EnabledText"
  by (simp_all add: newline_def EnabledText_def)

lemma ToString_lines:
  assumes "\<forall>l \<in> set ls. comment_ok l" "gc_comments c = concat (map (\<lambda>l. l @ [newline]) ls)"
  shows "ToString c = concat (map (\<lambda>l. l @ [newline]) (file_lines c ls))"
proof -
  have "SplitString (gc_comments c) newline = ls"
    using assms by (simp add: SplitString_lines comment_ok_def clean_def)
  then show ?thesis by (simp add: ToString_def file_lines_def GetCode_def o_def)
qed

lemma file_lines_newline:
  "writable raw c \<Longrightarrow> \<forall>l \<in> set ls. comment_ok l \<Longrightarrow> \<forall>l \<in> set (file_lines c ls). newline \<notin> set l"
  by (auto simp: file_lines_def writable_def comment_ok_def code_ok_def clean_def)

lemma load_comment:
  "comment_ok l \<Longrightarrow> load_line raw ld (CHR ''*'' # l) = ld\<lparr>ld_comments := ld_comments ld @ l @ [newline]\<rparr>"
  using clean_cleaned [of "CHR ''*'' # l"] by (simp add: load_line_def comment_ok_def Let_def)

lemma load_code:
  "code_ok raw l \<Longrightarrow> load_line raw ld (cl_text l) = ld\<lparr>ld_lines := ld_lines ld @ [l]\<rparr>"
  using clean_cleaned [of "cl_text l"] by (auto simp: load_line_def code_ok_def Let_def)

lemma load_comments:
  "\<forall>l \<in> set ls. comment_ok l \<Longrightarrow> foldl (load_line raw) ld (map (\<lambda>l. CHR ''*'' # l) ls)
    = ld\<lparr>ld_comments := ld_comments ld @ concat (map (\<lambda>l. l @ [newline]) ls)\<rparr>"
  by (induction ls arbitrary: ld) (simp_all add: load_comment)

lemma load_codes:
  "\<forall>l \<in> set ls. code_ok raw l \<Longrightarrow>
    foldl (load_line raw) ld (map cl_text ls) = ld\<lparr>ld_lines := ld_lines ld @ ls\<rparr>"
  by (induction ls arbitrary: ld) (simp_all add: load_code)

lemma load_heading:
  assumes "newline \<notin> set n" "CHR 0x00 \<notin> set n"
  shows "load_line raw ld (''['' @ n @ '']'') =
    \<lparr>ld_cheats = load_finish ld, ld_comments = [], ld_lines = [], ld_name = n,
     ld_enabled = (ld_lines ld = [] \<and> ld_enabled ld)\<rparr>"
proof -
  have "StripSpaces (filter (\<lambda>c. c \<noteq> CHR 0x00) (''['' @ n @ '']'')) = ''['' @ n @ '']''"
    using assms by (intro clean_cleaned) (simp add: clean_def strip_char_def)
  then show ?thesis by (simp add: load_line_def Let_def load_finish_def)
qed

lemma load_enabled: "load_line raw ld EnabledText = ld\<lparr>ld_enabled := True\<rparr>"
  by (simp add: load_line_def Let_def EnabledText_def StripSpaces_def strip_char_def)

lemma load_blank: "load_line raw ld [] = ld"
  by (simp add: load_line_def StripSpaces_def)

lemma load_section:
  assumes "writable raw c" "\<forall>l \<in> set ls. comment_ok l" "gc_comments c = concat (map (\<lambda>l. l @ [newline]) ls)"
  shows "foldl (load_line raw) ld (file_lines c ls) =
    \<lparr>ld_cheats = load_finish ld, ld_comments = gc_comments c, ld_lines = gc_lines c,
     ld_name = gc_name c, ld_enabled = (gc_enabled c \<or> ld_lines ld = [] \<and> ld_enabled ld)\<rparr>"
  using assms
  by (simp add: file_lines_def load_heading load_enabled load_comments load_codes load_blank writable_def
      del: append_Cons)

text \<open>
  What a saved list loads as. A cheat without code is gone, and its enabled mark, which the loader
  forgets only with code, is pending for the next one that has code.
\<close>

fun reloaded :: "bool \<Rightarrow> Cheat list \<Rightarrow> Cheat list" where
  "reloaded pending [] = []"
| "reloaded pending (c # cs) =
     (if gc_lines c = [] then reloaded (pending \<or> gc_enabled c) cs
      else SetEnabled (pending \<or> gc_enabled c) c # reloaded False cs)"

lemma reloaded_code: "\<forall>c \<in> set cs. gc_lines c \<noteq> [] \<Longrightarrow> reloaded False cs = cs"
  by (induction cs) (simp_all add: SetEnabled_def)

lemma load_sections:
  "\<forall>c \<in> set cs. writable raw c
    \<Longrightarrow> \<exists>rows. SaveCheatFile cs = concat (map (\<lambda>l. l @ [newline]) rows)
      \<and> (\<forall>l \<in> set rows. newline \<notin> set l)
      \<and> (\<forall>ld. load_finish (foldl (load_line raw) ld rows)
           = load_finish ld @ reloaded (ld_lines ld = [] \<and> ld_enabled ld) cs)"
proof (induction cs)
  case Nil
  then show ?case by (intro exI [of _ "[]"]) (simp add: SaveCheatFile_def)
next
  case (Cons c cs)
  then obtain rows where rows: "SaveCheatFile cs = concat (map (\<lambda>l. l @ [newline]) rows)"
    "\<forall>l \<in> set rows. newline \<notin> set l"
    "\<And>ld. load_finish (foldl (load_line raw) ld rows)
       = load_finish ld @ reloaded (ld_lines ld = [] \<and> ld_enabled ld) cs" by auto
  from Cons.prems have c: "writable raw c" by simp
  then obtain ls where ls: "\<forall>l \<in> set ls. comment_ok l" "gc_comments c = concat (map (\<lambda>l. l @ [newline]) ls)"
    by (auto simp: writable_def)
  have "load_finish (foldl (load_line raw) ld (file_lines c ls @ rows))
      = load_finish ld @ reloaded (ld_lines ld = [] \<and> ld_enabled ld) (c # cs)" for ld
    using rows(3) [of "foldl (load_line raw) ld (file_lines c ls)"]
    by (auto simp: load_section [OF c ls] load_finish_def [of "Loader.make _ _ _ _ _"] load_finish_def
        loaded_cheat_def SetEnabled_def disj_commute)
  with rows(1,2) ToString_lines [OF ls] file_lines_newline [OF c ls(1)] show ?case
    by (intro exI [of _ "file_lines c ls @ rows"]) (auto simp: SaveCheatFile_def)
qed

lemma LoadFile_lines:
  "\<forall>l \<in> set rows. newline \<notin> set l \<Longrightarrow> LoadFile raw (concat (map (\<lambda>l. l @ [newline]) rows))
    = load_finish (foldl (load_line raw) Loader_init rows)"
  using split_on_lines [of rows newline "[]"] by (simp add: LoadFile_def load_blank)

text \<open>
  C10: saving a list of cheats and loading the file gives back exactly the cheats that have code,
  with their names, code lines and comments; when every cheat has code, the enabled marks too, so
  that the list is the same. The mark of an enabled cheat without code goes to the next cheat that
  has code (\<open>reloaded\<close>). The cheats are \<open>writable\<close>: their names have no newline and no NUL; their
  code lines are not empty, are trimmed, start with no star and look like no heading, and are what
  their text parses to; their comments are trimmed lines other than the enabled mark.
\<close>

theorem SaveCheatFile_LoadFile_roundtrip:
  assumes "\<forall>c \<in> set cs. writable raw c"
  shows "LoadFile raw (SaveCheatFile cs) = reloaded False cs
    \<and> ((\<forall>c \<in> set cs. gc_lines c \<noteq> []) \<longrightarrow> LoadFile raw (SaveCheatFile cs) = cs)"
proof -
  from load_sections [OF assms] obtain rows where
    "SaveCheatFile cs = concat (map (\<lambda>l. l @ [newline]) rows)" "\<forall>l \<in> set rows. newline \<notin> set l"
    "load_finish (foldl (load_line raw) Loader_init rows) = load_finish Loader_init @ reloaded False cs"
    by (auto simp: Loader_init_def)
  then show ?thesis by (simp add: LoadFile_lines load_finish_def Loader_init_def reloaded_code)
qed

definition raw_line :: CheatLine where
  "raw_line = \<lparr>cl_type = Null, cl_address = 0, cl_value = 0, cl_first = 0, cl_text = [], cl_valid = True\<rparr>"

definition sample_cheat :: "bool \<Rightarrow> string \<Rightarrow> Cheat" where
  "sample_cheat b name = \<lparr>gc_enabled = b, gc_name = name,
     gc_lines = [CheatLine_ctor raw_line ''D3000000 0010A0ff''], gc_comments = ''max'' @ [newline]\<rparr>"

lemma CheatLine_ctor_text [simp]: "cl_text (CheatLine_ctor raw line) = line"
  by (simp add: CheatLine_ctor_def Let_def split: option.split)

lemma sample_writable: "name \<in> {''A'', ''B''} \<Longrightarrow> writable raw_line (sample_cheat b name)"
proof -
  assume n: "name \<in> {''A'', ''B''}"
  have "\<forall>l \<in> set [''max'']. comment_ok l" "''max'' @ [newline] = concat (map (\<lambda>l. l @ [newline]) [''max''])"
    by (simp_all add: comment_ok_def clean_def newline_def strip_char_def EnabledText_def)
  then have "\<exists>ls. (\<forall>l \<in> set ls. comment_ok l)
      \<and> gc_comments (sample_cheat b name) = concat (map (\<lambda>l. l @ [newline]) ls)"
    by (intro exI [of _ "[''max'']"]) (simp add: sample_cheat_def)
  moreover have "newline \<notin> set name" "CHR 0x00 \<notin> set name"
    "\<forall>l \<in> set (gc_lines (sample_cheat b name)). code_ok raw_line l" "gc_name (sample_cheat b name) = name"
    using n
    by (auto simp: sample_cheat_def code_ok_def clean_def newline_def strip_char_def)
  ultimately show ?thesis unfolding writable_def by simp
qed

lemma SaveCheatFile_LoadFile_roundtrip_witness:
  "LoadFile raw_line (SaveCheatFile [sample_cheat True ''A'', sample_cheat False ''B''])
     = [sample_cheat True ''A'', sample_cheat False ''B'']
   \<and> LoadFile raw_line (SaveCheatFile
       [sample_cheat True ''A'', sample_cheat True ''A''\<lparr>gc_lines := []\<rparr>, sample_cheat False ''B''])
     = [sample_cheat True ''A'', sample_cheat True ''B'']"
  using sample_writable [of "''A''" True] sample_writable [of "''B''" False]
    SaveCheatFile_LoadFile_roundtrip [of "[sample_cheat True ''A'', sample_cheat False ''B'']" raw_line]
    SaveCheatFile_LoadFile_roundtrip
      [of "[sample_cheat True ''A'', sample_cheat True ''A''\<lparr>gc_lines := []\<rparr>, sample_cheat False ''B'']" raw_line]
  by (simp add: sample_cheat_def SetEnabled_def writable_def)

text \<open>
  an enabled cheat without code leaves its mark to the next one: after saving and loading, the
  first cheat is gone and the second, which was off, is on.
\<close>

theorem LoadFile_enabled_mark_leaks:
  assumes "writable raw a" "gc_lines a = []" "gc_enabled a"
    and "writable raw b" "gc_lines b \<noteq> []" "\<not> gc_enabled b"
  shows "LoadFile raw (SaveCheatFile [a, b]) = [SetEnabled True b]"
proof -
  have "\<forall>c \<in> set [a, b]. writable raw c" using assms by simp
  from load_sections [OF this] obtain rows where
    "SaveCheatFile [a, b] = concat (map (\<lambda>l. l @ [newline]) rows)" "\<forall>l \<in> set rows. newline \<notin> set l"
    "load_finish (foldl (load_line raw) Loader_init rows) = load_finish Loader_init @ reloaded False [a, b]"
    by (auto simp: Loader_init_def)
  with assms show ?thesis by (simp add: LoadFile_lines load_finish_def Loader_init_def)
qed

lemma LoadFile_enabled_mark_leaks_witness:
  "LoadFile raw_line (SaveCheatFile [sample_cheat True ''A''\<lparr>gc_lines := []\<rparr>, sample_cheat False ''B''])
     = [SetEnabled True (sample_cheat False ''B'')]"
proof (rule LoadFile_enabled_mark_leaks)
  show "writable raw_line (sample_cheat True ''A''\<lparr>gc_lines := []\<rparr>)"
    using sample_writable [of "''A''" True] by (simp add: writable_def sample_cheat_def)
  show "writable raw_line (sample_cheat False ''B'')" using sample_writable by simp
qed (simp_all add: sample_cheat_def)

end
