(* ===== verification/VMManager.thy ===== *)
theory VMManager imports MemoryBlocks begin

text \<open>
  The address-space manager of src/core/hle/kernel/vm_manager.cpp: the map of virtual memory areas
  and its operations, each updating the process's page table in the memory system as it goes.

  The \<open>std::map\<close> keyed by base address is the list of its values in key order; an iterator is an
  index into it, \<open>end()\<close> the length. A failed \<open>ASSERT\<close> (or the use of \<open>end()\<close> as a value) is
  \<^const>\<open>None\<close>.
\<close>

section \<open>Areas\<close>

datatype VMAType = FreeVMA | BackingMemoryVMA

datatype MemoryState =
  MSFree | MSReserved | MSIO | MSStatic | MSCode | MSPrivate | MSShared | MSContinuous | MSAliased
| MSAlias | MSAliasCode | MSLocked

definition PermNone :: u8 where "PermNone = 0"
definition PermReadWrite :: u8 where "PermReadWrite = 3"

record VMA =
  vma_base :: u32
  vma_size :: u32
  vma_type :: VMAType
  vma_perms :: u8
  vma_state :: MemoryState
  vma_backing :: MemoryRef

definition VMA_init :: VMA where
  "VMA_init = \<lparr>vma_base = 0, vma_size = 0, vma_type = FreeVMA, vma_perms = PermNone,
     vma_state = MSFree, vma_backing = None\<rparr>"

definition MAX_ADDRESS :: u32 where
  "MAX_ADDRESS = 0x40000000"

text \<open>Whether one area's backing pointer, advanced by its size, is the next one's.\<close>

fun follows :: "MemoryRef \<Rightarrow> u32 \<Rightarrow> MemoryRef \<Rightarrow> bool" where
  "follows (Some (b, i)) sz (Some (c, j)) \<longleftrightarrow> b = c \<and> i + unat sz = j"
| "follows _ _ _ \<longleftrightarrow> False"

definition CanBeMergedWith :: "VMA \<Rightarrow> VMA \<Rightarrow> bool option" where
  "CanBeMergedWith v w =
     (if vma_base v + vma_size v \<noteq> vma_base w then None
      else Some (\<not> (vma_perms v \<noteq> vma_perms w \<or> vma_state v \<noteq> vma_state w \<or> vma_type v \<noteq> vma_type w)
        \<and> \<not> (vma_type v = BackingMemoryVMA
             \<and> \<not> follows (vma_backing v) (vma_size v) (vma_backing w))))"

section \<open>The map\<close>

definition upper_bound :: "VMA list \<Rightarrow> u32 \<Rightarrow> nat" where
  "upper_bound vs a = length (takeWhile (\<lambda>v. vma_base v \<le> a) vs)"

definition lower_bound :: "VMA list \<Rightarrow> u32 \<Rightarrow> nat" where
  "lower_bound vs a = length (takeWhile (\<lambda>v. vma_base v < a) vs)"

definition FindVMA :: "VMA list \<Rightarrow> u32 \<Rightarrow> nat" where
  "FindVMA vs target = (if MAX_ADDRESS \<le> target then length vs else upper_bound vs target - 1)"

definition SplitVMA :: "VMA list \<Rightarrow> nat \<Rightarrow> u32 \<Rightarrow> (VMA list \<times> nat) option" where
  "SplitVMA vs i off =
     (let old = vs ! i in
      if \<not> i < length vs \<or> \<not> off < vma_size old \<or> off = 0 then None
      else do {
        backing \<leftarrow> (case vma_type old of
                      FreeVMA \<Rightarrow> Some (vma_backing old)
                    | BackingMemoryVMA \<Rightarrow> ref_plus (vma_backing old) (unat off));
        let old' = old\<lparr>vma_size := off\<rparr>;
        let new = old\<lparr>vma_base := vma_base old + off, vma_size := vma_size old - off,
                      vma_backing := backing\<rparr>;
        ok \<leftarrow> CanBeMergedWith old' new;
        if ok then Some (take i vs @ old' # new # drop (Suc i) vs, Suc i) else None })"

definition MergeAdjacent :: "VMA list \<Rightarrow> nat \<Rightarrow> (VMA list \<times> nat) option" where
  "MergeAdjacent vs i = do {
     vs1 \<leftarrow> (if Suc i < length vs
             then do {
               m \<leftarrow> CanBeMergedWith (vs ! i) (vs ! Suc i);
               Some (if m
                 then take i vs
                   @ (vs ! i)\<lparr>vma_size := vma_size (vs ! i) + vma_size (vs ! Suc i)\<rparr>
                   # drop (Suc (Suc i)) vs
                 else vs) }
             else Some vs);
     if i \<noteq> 0
     then do {
       m \<leftarrow> CanBeMergedWith (vs1 ! (i - 1)) (vs1 ! i);
       Some (if m
         then (take (i - 1) vs1
           @ (vs1 ! (i - 1))\<lparr>vma_size := vma_size (vs1 ! (i - 1)) + vma_size (vs1 ! i)\<rparr>
           # drop (Suc i) vs1, i - 1)
         else (vs1, i)) }
     else Some (vs1, i) }"

definition CarveVMA :: "VMA list \<Rightarrow> u32 \<Rightarrow> u32 \<Rightarrow> ((result_code + nat) \<times> VMA list) option" where
  "CarveVMA vs base sz =
     (if \<not> page_aligned sz \<or> \<not> page_aligned base then None
      else
        let i = FindVMA vs base; v = vs ! i; start_in_vma = base - vma_base v;
            end_in_vma = start_in_vma + sz
        in if i = length vs then Some (Inl ResultInvalidAddress, vs)
        else if vma_type v \<noteq> FreeVMA then Some (Inl ResultInvalidAddressState, vs)
        else if vma_size v < end_in_vma then Some (Inl ResultInvalidAddressState, vs)
        else do {
          vs1 \<leftarrow> (if end_in_vma \<noteq> vma_size v then map_option fst (SplitVMA vs i end_in_vma)
                  else Some vs);
          (vs2, j) \<leftarrow> (if start_in_vma \<noteq> 0 then SplitVMA vs1 i start_in_vma else Some (vs1, i));
          Some (Inr j, vs2) })"

definition CarveVMARange :: "VMA list \<Rightarrow> u32 \<Rightarrow> u32 \<Rightarrow> ((result_code + nat) \<times> VMA list) option" where
  "CarveVMARange vs target sz =
     (let target_end = target + sz in
      if \<not> page_aligned sz \<or> \<not> page_aligned target \<or> target_end < target
         \<or> MAX_ADDRESS < target_end \<or> sz = 0 then None
      else
        let i = FindVMA vs target; i_end = lower_bound vs target_end in
        if \<exists>v \<in> set (drop i (take i_end vs)). vma_type v = FreeVMA
        then Some (Inl ResultInvalidAddressState, vs)
        else do {
          (vs1, begin_vma) \<leftarrow> (if target \<noteq> vma_base (vs ! i)
            then SplitVMA vs i (target - vma_base (vs ! i)) else Some (vs, i));
          let e = FindVMA vs1 target_end;
          vs2 \<leftarrow> (if e \<noteq> length vs1 \<and> target_end \<noteq> vma_base (vs1 ! e)
            then map_option fst (SplitVMA vs1 e (target_end - vma_base (vs1 ! e))) else Some vs1);
          Some (Inr begin_vma, vs2) })"

section \<open>The manager\<close>

text \<open>
  The manager's own fields, the memory system it works on, and the number of times it has told the
  plugin loader that the memory changed.
\<close>

record VM =
  vma_map :: "VMA list"
  vm_table :: nat
  is_locked :: bool
  vm_memory :: MemorySystem
  vm_notified :: nat

definition UpdatePageTableForVMA :: "Devices \<Rightarrow> VM \<Rightarrow> VMA \<Rightarrow> VM option" where
  "UpdatePageTableForVMA D vm v = do {
     m \<leftarrow> (case vma_type v of
             FreeVMA \<Rightarrow> UnmapRegion D (vm_memory vm) (vm_table vm) (vma_base v) (vma_size v)
           | BackingMemoryVMA \<Rightarrow> MapMemoryRegion D (vm_memory vm) (vm_table vm) (vma_base v)
                                   (vma_size v) (vma_backing v));
     Some (vm\<lparr>vm_memory := m,
              vm_notified := (if plugin_fb m \<noteq> None then Suc (vm_notified vm) else vm_notified vm)\<rparr>) }"

text \<open>What the operations on one area share: store it, update the table, merge.\<close>

definition update_vma :: "Devices \<Rightarrow> (VMA \<Rightarrow> VMA) \<Rightarrow> VM \<Rightarrow> nat \<Rightarrow> (VM \<times> nat) option" where
  "update_vma D f vm i =
     (let v = f (vma_map vm ! i) in do {
        vm1 \<leftarrow> UpdatePageTableForVMA D (vm\<lparr>vma_map := (vma_map vm)[i := v]\<rparr>) v;
        (vs, j) \<leftarrow> MergeAdjacent (vma_map vm1) i;
        Some (vm1\<lparr>vma_map := vs\<rparr>, j) })"

definition free_area :: "VMA \<Rightarrow> VMA" where
  "free_area v = v\<lparr>vma_type := FreeVMA, vma_perms := PermNone, vma_state := MSFree, vma_backing := None\<rparr>"

definition map_area :: "MemoryRef \<Rightarrow> MemoryState \<Rightarrow> VMA \<Rightarrow> VMA" where
  "map_area memory state v = v\<lparr>vma_type := BackingMemoryVMA, vma_perms := PermReadWrite,
     vma_state := state, vma_backing := memory\<rparr>"

definition Unmap :: "Devices \<Rightarrow> VM \<Rightarrow> nat \<Rightarrow> (VM \<times> nat) option" where
  "Unmap D vm i = (if is_locked vm then None else update_vma D free_area vm i)"

definition Reprotect :: "Devices \<Rightarrow> u8 \<Rightarrow> VM \<Rightarrow> nat \<Rightarrow> (VM \<times> nat) option" where
  "Reprotect D perms vm i =
     (if is_locked vm then None else update_vma D (\<lambda>v. v\<lparr>vma_perms := perms\<rparr>) vm i)"

definition VM_Reset :: "Devices \<Rightarrow> VM \<Rightarrow> VM option" where
  "VM_Reset D vm =
     (if is_locked vm then None
      else
        let initial = VMA_init\<lparr>vma_size := MAX_ADDRESS\<rparr>; m = vm_memory vm in
        UpdatePageTableForVMA D
          (vm\<lparr>vma_map := [initial],
              vm_memory := m\<lparr>page_tables := (page_tables m)(vm_table vm := PageTable_Clear)\<rparr>\<rparr>) initial)"

definition MapBackingMemory ::
  "Devices \<Rightarrow> VM \<Rightarrow> u32 \<Rightarrow> MemoryRef \<Rightarrow> u32 \<Rightarrow> MemoryState \<Rightarrow> ((result_code + nat) \<times> VM) option" where
  "MapBackingMemory D vm target memory sz state =
     (if is_locked vm \<or> memory = None then None
      else do {
        (r, vs) \<leftarrow> CarveVMA (vma_map vm) target sz;
        case r of
          Inl e \<Rightarrow> Some (Inl e, vm\<lparr>vma_map := vs\<rparr>)
        | Inr i \<Rightarrow>
            if vma_size (vs ! i) \<noteq> sz then None
            else do {
              (vm1, j) \<leftarrow> update_vma D (map_area memory state) (vm\<lparr>vma_map := vs\<rparr>) i;
              Some (Inr j, vm1) } })"

text \<open>
  The search for a free area, and the mapping at the address it gives. The code reads the base of the
  area it found before it tests whether there is one: with none the read is outside the map, \<open>None\<close>.
\<close>

definition first_fit :: "VMA list \<Rightarrow> u32 \<Rightarrow> u32 \<Rightarrow> VMA option" where
  "first_fit vs base sz =
     find (\<lambda>v. vma_type v = FreeVMA
             \<and> (let vma_end = vma_base v + vma_size v in base < vma_end \<and> base + sz \<le> vma_end)) vs"

definition MapBackingMemoryToBase ::
  "Devices \<Rightarrow> VM \<Rightarrow> u32 \<Rightarrow> u32 \<Rightarrow> MemoryRef \<Rightarrow> u32 \<Rightarrow> MemoryState
     \<Rightarrow> ((result_code + u32) \<times> VM) option" where
  "MapBackingMemoryToBase D vm base region_size memory sz state =
     (if is_locked vm then None
      else case first_fit (vma_map vm) base sz of
        None \<Rightarrow> None
      | Some v \<Rightarrow>
          let target = max base (vma_base v) in
          if base + region_size < target + sz then Some (Inl ResultOutOfMemory, vm)
          else do {
            (r, vm1) \<leftarrow> MapBackingMemory D vm target memory sz state;
            Some (case r of Inl e \<Rightarrow> Inl e | Inr _ \<Rightarrow> Inr target, vm1) })"

section \<open>Ranges\<close>

lemma MergeAdjacent_shrinks:
  assumes "MergeAdjacent vs i = Some (vs', j)" "i < length vs"
  shows "length vs' - Suc j < length vs - i"
  using assms by (auto simp: MergeAdjacent_def bind_eq_Some_conv split: if_splits)

lemma UpdatePageTableForVMA_map:
  "UpdatePageTableForVMA D vm v = Some vm' \<Longrightarrow> vma_map vm' = vma_map vm \<and> is_locked vm' = is_locked vm
    \<and> vm_table vm' = vm_table vm"
  by (auto simp: UpdatePageTableForVMA_def bind_eq_Some_conv)

lemma update_vma_shrinks:
  assumes "update_vma D f vm i = Some (vm', j)" "i < length (vma_map vm)"
  shows "length (vma_map vm') - Suc j < length (vma_map vm) - i"
  using assms
  by (auto simp: update_vma_def Let_def bind_eq_Some_conv dest!: UpdatePageTableForVMA_map
      MergeAdjacent_shrinks)

text \<open>
  The loop of the range operations: \<open>f\<close> on each area up to the end address, each merged with its
  neighbours before the next one is visited.
\<close>

function range_loop :: "Devices \<Rightarrow> (VMA \<Rightarrow> VMA) \<Rightarrow> u32 \<Rightarrow> VM \<Rightarrow> nat \<Rightarrow> VM option" where
  "range_loop D f target_end vm i =
     (if i < length (vma_map vm) \<and> vma_base (vma_map vm ! i) < target_end
      then (case update_vma D f vm i of
              None \<Rightarrow> None
            | Some (vm', j) \<Rightarrow> range_loop D f target_end vm' (Suc j))
      else Some vm)"
  by pat_completeness auto
termination
  by (relation "measure (\<lambda>(_, _, _, vm, i). length (vma_map vm) - i)")
     (auto dest: update_vma_shrinks)

declare range_loop.simps [simp del]

definition set_state :: "MemoryState \<Rightarrow> u8 \<Rightarrow> VMA \<Rightarrow> VMA" where
  "set_state state perms v = v\<lparr>vma_perms := perms, vma_state := state\<rparr>"

definition ChangeMemoryState ::
  "Devices \<Rightarrow> VM \<Rightarrow> u32 \<Rightarrow> u32 \<Rightarrow> MemoryState \<Rightarrow> u8 \<Rightarrow> MemoryState \<Rightarrow> u8
     \<Rightarrow> (result_code option \<times> VM) option" where
  "ChangeMemoryState D vm target sz expected_state expected_perms new_state new_perms =
     (if is_locked vm then Some (None, vm)
      else
        let target_end = target + sz; vs = vma_map vm;
            i = FindVMA vs target; i_end = lower_bound vs target_end
        in if i = length vs then Some (Some ResultInvalidAddress, vm)
        else if \<exists>v \<in> set (drop i (take i_end vs)). vma_state v \<noteq> expected_state
                  \<or> vma_perms v AND expected_perms \<noteq> expected_perms
        then Some (Some ResultInvalidAddressState, vm)
        else do {
          (r, vs1) \<leftarrow> CarveVMARange vs target sz;
          case r of
            Inl e \<Rightarrow> Some (Some e, vm\<lparr>vma_map := vs1\<rparr>)
          | Inr j \<Rightarrow> do {
              vm1 \<leftarrow> range_loop D (set_state new_state new_perms) target_end (vm\<lparr>vma_map := vs1\<rparr>) j;
              Some (None, vm1) } })"

definition UnmapRange :: "Devices \<Rightarrow> VM \<Rightarrow> u32 \<Rightarrow> u32 \<Rightarrow> (result_code option \<times> VM) option" where
  "UnmapRange D vm target sz =
     (if is_locked vm then None
      else do {
        (r, vs1) \<leftarrow> CarveVMARange (vma_map vm) target sz;
        case r of
          Inl e \<Rightarrow> Some (Some e, vm\<lparr>vma_map := vs1\<rparr>)
        | Inr j \<Rightarrow> do {
            vm1 \<leftarrow> range_loop D free_area (target + sz) (vm\<lparr>vma_map := vs1\<rparr>) j;
            if vma_size (vma_map vm1 ! FindVMA (vma_map vm1) target) < sz then None
            else Some (None, vm1) } })"

definition ReprotectRange :: "Devices \<Rightarrow> VM \<Rightarrow> u32 \<Rightarrow> u32 \<Rightarrow> u8 \<Rightarrow> (result_code option \<times> VM) option" where
  "ReprotectRange D vm target sz perms =
     (if is_locked vm then None
      else do {
        (r, vs1) \<leftarrow> CarveVMARange (vma_map vm) target sz;
        case r of
          Inl e \<Rightarrow> Some (Some e, vm\<lparr>vma_map := vs1\<rparr>)
        | Inr j \<Rightarrow> do {
            vm1 \<leftarrow> range_loop D (\<lambda>v. v\<lparr>vma_perms := perms\<rparr>) (target + sz) (vm\<lparr>vma_map := vs1\<rparr>) j;
            Some (None, vm1) } })"

definition VM_Unlock :: "VM \<Rightarrow> VM" where
  "VM_Unlock vm = vm\<lparr>is_locked := False\<rparr>"

text \<open>
  The walk over the areas of a range; \<open>fuel\<close> bounds the areas visited. The outer option is the
  abort, or a walk that is not over.
\<close>

fun backing_blocks ::
  "nat \<Rightarrow> VMA list \<Rightarrow> u32 \<Rightarrow> u32 \<Rightarrow> (result_code + (MemoryRef \<times> u32) list) option" where
  "backing_blocks fuel vs target finish =
     (if target = finish then Some (Inr [])
      else case fuel of
        0 \<Rightarrow> None
      | Suc n \<Rightarrow>
          let i = FindVMA vs target; v = vs ! i in
          if i = length vs then None
          else if vma_type v \<noteq> BackingMemoryVMA then Some (Inl ResultInvalidAddressState)
          else
            let interval_end = min finish (vma_base v + vma_size v);
                interval_size = interval_end - target
            in do {
              ref \<leftarrow> ref_plus (vma_backing v) (unat (target - vma_base v));
              r \<leftarrow> backing_blocks n vs (target + interval_size) finish;
              Some (case r of Inl e \<Rightarrow> Inl e | Inr bs \<Rightarrow> Inr ((ref, interval_size) # bs)) })"

declare backing_blocks.simps [simp del]

definition GetBackingBlocksForRange ::
  "VM \<Rightarrow> u32 \<Rightarrow> u32 \<Rightarrow> (result_code + (MemoryRef \<times> u32) list) option" where
  "GetBackingBlocksForRange vm address sz =
     backing_blocks (length (vma_map vm)) (vma_map vm) address (address + sz)"

end
