(* ===== verification/VMFacts.thy ===== *)
theory VMFacts imports VMManager begin

text \<open>
  The map of areas as a function on addresses, the invariant that the map is a gapless cover of the
  managed space, and what splitting, merging and the range loop do to both.
\<close>

section \<open>The cover\<close>

abbreviation vbase :: "VMA \<Rightarrow> nat" where "vbase v \<equiv> unat (vma_base v)"
abbreviation vsize :: "VMA \<Rightarrow> nat" where "vsize v \<equiv> unat (vma_size v)"
abbreviation vend :: "VMA \<Rightarrow> nat" where "vend v \<equiv> vbase v + vsize v"
abbreviation MAXA :: nat where "MAXA \<equiv> 0x40000000"

text \<open>Consecutive areas from one address to another.\<close>

fun chain :: "nat \<Rightarrow> VMA list \<Rightarrow> nat \<Rightarrow> bool" where
  "chain lo [] hi \<longleftrightarrow> lo = hi"
| "chain lo (v # vs) hi \<longleftrightarrow> lo = vbase v \<and> 0 < vsize v \<and> chain (vend v) vs hi"

lemma chain_append: "chain lo (xs @ ys) hi \<longleftrightarrow> (\<exists>mid. chain lo xs mid \<and> chain mid ys hi)"
  by (induction xs arbitrary: lo) auto

lemma chain_le: "chain lo vs hi \<Longrightarrow> lo \<le> hi"
  by (induction vs arbitrary: lo) force+

lemma chain_bounds: "chain lo vs hi \<Longrightarrow> v \<in> set vs \<Longrightarrow> lo \<le> vbase v \<and> vend v \<le> hi \<and> 0 < vsize v"
proof (induction vs arbitrary: lo)
  case (Cons w vs)
  then have c: "chain (vend w) vs hi" by simp
  have rest: "v \<in> set vs \<Longrightarrow> vend w \<le> vbase v \<and> vend v \<le> hi \<and> 0 < vsize v"
    by (rule Cons.IH [OF c])
  show ?case
    using Cons.prems chain_le [OF c] rest by (cases "v = w") auto
qed simp

text \<open>
  What an area says of its addresses: the attributes, and the backing object with the distance of
  its bytes from the addresses they back.
\<close>

type_synonym attr = "VMAType \<times> u8 \<times> MemoryState \<times> (BackingMem \<times> int) option"

definition origin :: "nat \<Rightarrow> BackingMem \<times> nat \<Rightarrow> BackingMem \<times> int" where
  "origin a = (\<lambda>(b, i). (b, int i - int a))"

definition vattr :: "VMA \<Rightarrow> attr" where
  "vattr v = (vma_type v, vma_perms v, vma_state v,
     if vma_type v = FreeVMA then None else map_option (origin (vbase v)) (vma_backing v))"

lemma origin_eq: "x + s = y \<Longrightarrow> origin x (b, i) = origin y (c, j) \<longleftrightarrow> b = c \<and> i + s = j"
  by (auto simp: origin_def)

fun attr_at :: "VMA list \<Rightarrow> nat \<Rightarrow> attr option" where
  "attr_at [] a = None"
| "attr_at (v # vs) a = (if vbase v \<le> a \<and> a < vend v then Some (vattr v) else attr_at vs a)"

lemma attr_at_append: "attr_at (xs @ ys) a = (case attr_at xs a of None \<Rightarrow> attr_at ys a | Some r \<Rightarrow> Some r)"
  by (induction xs) auto

lemma attr_at_outside: "chain lo vs hi \<Longrightarrow> a < lo \<or> hi \<le> a \<Longrightarrow> attr_at vs a = None"
proof (induction vs arbitrary: lo)
  case (Cons v vs)
  then have c: "chain (vend v) vs hi" by simp
  from Cons.prems chain_le [OF c] Cons.IH [OF c] show ?case by auto
qed simp

lemma attr_at_inside: "chain lo vs hi \<Longrightarrow> lo \<le> a \<Longrightarrow> a < hi \<Longrightarrow> attr_at vs a \<noteq> None"
proof (induction vs arbitrary: lo)
  case (Cons v vs)
  then show ?case by (cases "a < vend v") auto
qed simp

text \<open>A mapped area has a pointer, with room for its size; a free one has the free attributes.\<close>

definition area_ok :: "VMA \<Rightarrow> bool" where
  "area_ok v \<longleftrightarrow> page_aligned (vma_base v) \<and> page_aligned (vma_size v)
     \<and> (case vma_type v of
          FreeVMA \<Rightarrow> vma_perms v = PermNone \<and> vma_state v = MSFree
        | BackingMemoryVMA \<Rightarrow> vma_backing v \<noteq> None \<and> vsize v \<le> ref_size (vma_backing v))"

definition free :: "VMA \<Rightarrow> bool" where
  "free v \<longleftrightarrow> vma_type v = FreeVMA"

definition free_apart :: "VMA list \<Rightarrow> bool" where
  "free_apart vs \<longleftrightarrow> successively (\<lambda>v w. \<not> (free v \<and> free w)) vs"

text \<open>The invariant of the map.\<close>

definition map_ok :: "VMA list \<Rightarrow> bool" where
  "map_ok vs \<longleftrightarrow> chain 0 vs MAXA \<and> (\<forall>v \<in> set vs. area_ok v) \<and> free_apart vs"

lemma map_ok_chain: "map_ok vs \<Longrightarrow> chain 0 vs MAXA"
  and map_ok_area: "map_ok vs \<Longrightarrow> v \<in> set vs \<Longrightarrow> area_ok v"
  and map_ok_apart: "map_ok vs \<Longrightarrow> free_apart vs"
  by (simp_all add: map_ok_def)

section \<open>Neighbours\<close>

lemma word_add_eq_iff:
  assumes "unat a + unat b < 4294967296"
  shows "a + b = (c :: u32) \<longleftrightarrow> unat a + unat b = unat c"
  using assms by (auto simp: word_unat_eq_iff unat_plus_no_wrap_u32)

lemma CanBeMergedWith_eq:
  assumes "vend v = vbase w" "vend v \<le> MAXA" "area_ok v" "area_ok w"
  shows "CanBeMergedWith v w = Some (vattr v = vattr w)"
proof -
  have sum: "vma_base v + vma_size v = vma_base w"
    using assms(1,2) by (subst word_add_eq_iff) simp_all
  have "follows (vma_backing v) (vma_size v) (vma_backing w)
      = (map_option (origin (vbase v)) (vma_backing v) = map_option (origin (vbase w)) (vma_backing w))"
    if "vma_type v = BackingMemoryVMA" "vma_type w = BackingMemoryVMA"
    using assms(3,4) that origin_eq [OF assms(1)] by (auto simp: area_ok_def)
  then show ?thesis
    by (cases "vma_type v"; cases "vma_type w") (auto simp: CanBeMergedWith_def sum vattr_def)
qed

text \<open>Two areas with the same attributes become one, which covers both.\<close>

definition joined :: "VMA \<Rightarrow> VMA \<Rightarrow> VMA" where
  "joined v w = v\<lparr>vma_size := vma_size v + vma_size w\<rparr>"

lemma joined:
  assumes "vend v = vbase w" "vend w \<le> MAXA"
  shows "vbase (joined v w) = vbase v" "vsize (joined v w) = vsize v + vsize w"
    "vattr (joined v w) = vattr v" "free (joined v w) = free v"
  using assms by (simp_all add: joined_def unat_plus_no_wrap_u32 vattr_def free_def)

lemma page_aligned_dvd: "page_aligned w \<longleftrightarrow> 4096 dvd unat w"
proof -
  have "w AND 0xFFF = take_bit 12 w" by (simp add: take_bit_eq_mask mask_eq_exp_minus_1)
  moreover have "take_bit 12 w = 0 \<longleftrightarrow> take_bit 12 (unat w) = 0"
    by (simp add: word_unat_eq_iff unsigned_take_bit_eq)
  ultimately show ?thesis by (simp add: page_aligned_def take_bit_eq_mod dvd_eq_mod_eq_0)
qed

lemma joined_area_ok:
  assumes "vend v = vbase w" "vend w \<le> MAXA" "area_ok v" "area_ok w" "vattr v = vattr w"
  shows "area_ok (joined v w)"
proof -
  have "page_aligned (vma_size (joined v w))"
    using assms joined(2) [OF assms(1,2)] by (simp add: area_ok_def page_aligned_dvd)
  moreover have "vsize (joined v w) \<le> ref_size (vma_backing v)" if "vma_type v = BackingMemoryVMA"
  proof -
    from that assms(5) have "vma_type w = BackingMemoryVMA" by (simp add: vattr_def)
    with that assms(3-5) obtain b i c j where
      p: "vma_backing v = Some (b, i)" "vma_backing w = Some (c, j)"
      and o: "origin (vbase v) (b, i) = origin (vbase w) (c, j)"
      and room: "vsize v \<le> backing_size b - i" "vsize w \<le> backing_size c - j"
      by (cases "vma_backing v"; cases "vma_backing w") (auto simp: area_ok_def vattr_def)
    from o origin_eq [OF assms(1)] have "c = b" "j = i + vsize v" by simp_all
    with p room joined(2) [OF assms(1,2)] show ?thesis by (simp add: joined_def)
  qed
  ultimately show ?thesis
    using assms(3) by (auto simp: area_ok_def joined_def split: VMAType.splits)
qed

section \<open>Merging\<close>

definition absorb_next :: "VMA \<Rightarrow> VMA list \<Rightarrow> VMA \<times> VMA list" where
  "absorb_next v R = (case R of [] \<Rightarrow> (v, []) | w # R' \<Rightarrow> if vattr v = vattr w then (joined v w, R') else (v, R))"

definition absorb_prev :: "VMA list \<Rightarrow> VMA \<Rightarrow> VMA list \<times> VMA" where
  "absorb_prev L v = (if L = [] then ([], v)
     else if vattr (last L) = vattr v then (butlast L, joined (last L) v) else (L, v))"

lemma join_absorbed:
  assumes "chain lo (v # w # R) hi" "hi \<le> MAXA" "\<forall>x \<in> set (v # w # R). area_ok x" "vattr v = vattr w"
  shows "chain lo (joined v w # R) hi" "\<forall>x \<in> set (joined v w # R). area_ok x"
    "attr_at (joined v w # R) = attr_at (v # w # R)"
proof -
  have e: "vend v = vbase w" "vend w \<le> MAXA"
    using assms(1,2) chain_le [of "vend w" R hi] by auto
  note j = joined [OF e]
  show "chain lo (joined v w # R) hi" using assms(1) j by (simp add: add.assoc [symmetric])
  show "\<forall>x \<in> set (joined v w # R). area_ok x" using joined_area_ok [OF e] assms(3,4) by simp
  show "attr_at (joined v w # R) = attr_at (v # w # R)"
    using j e(1) assms(4) by (auto simp: fun_eq_iff)
qed

lemma MergeAdjacent_eq:
  assumes "chain 0 (L @ v # R) MAXA" "\<forall>x \<in> set (L @ v # R). area_ok x"
  shows "MergeAdjacent (L @ v # R) (length L) =
    (case absorb_next v R of (v', R') \<Rightarrow> case absorb_prev L v' of (L', v'') \<Rightarrow> Some (L' @ v'' # R', length L'))"
proof -
  let ?vs1 = "case absorb_next v R of (v', R') \<Rightarrow> L @ v' # R'"
  have c: "chain (vbase v) (v # R) MAXA" and cl: "chain 0 L (vbase v)"
    using assms(1) by (auto simp: chain_append)
  have first: "(if Suc (length L) < length (L @ v # R)
             then do {
               m \<leftarrow> CanBeMergedWith ((L @ v # R) ! length L) ((L @ v # R) ! Suc (length L));
               Some (if m
                 then take (length L) (L @ v # R)
                   @ ((L @ v # R) ! length L)\<lparr>vma_size := vma_size ((L @ v # R) ! length L)
                        + vma_size ((L @ v # R) ! Suc (length L))\<rparr>
                   # drop (Suc (Suc (length L))) (L @ v # R)
                 else L @ v # R) }
             else Some (L @ v # R)) = Some ?vs1"
  proof (cases R)
    case (Cons w R1)
    have "CanBeMergedWith v w = Some (vattr v = vattr w)"
      using c assms(2) chain_le [of "vend w" R1 MAXA]
      by (intro CanBeMergedWith_eq) (auto simp: Cons)
    then show ?thesis by (simp add: Cons absorb_next_def nth_append joined_def)
  qed (simp add: absorb_next_def)
  obtain v' R' where n: "absorb_next v R = (v', R')" by (cases "absorb_next v R")
  have v': "vbase v' = vbase v" "area_ok v'" "vend v' \<le> MAXA"
  proof (atomize (full), cases "R \<noteq> [] \<and> vattr v = vattr (hd R)")
    case True
    then obtain w R1 where R: "R = w # R1" by (cases R) auto
    with True n have "v' = joined v w" by (simp add: absorb_next_def)
    moreover have "chain (vbase v) (v # w # R1) MAXA" using c by (simp only: R)
    moreover have "\<forall>x \<in> set (v # w # R1). area_ok x" using assms(2) by (simp add: R)
    moreover have "vattr v = vattr w" using True by (simp add: R)
    ultimately have "chain (vbase v) (v' # R1) MAXA" "\<forall>x \<in> set (v' # R1). area_ok x"
      using join_absorbed [of "vbase v" v w R1 MAXA] by blast+
    then show "vbase v' = vbase v \<and> area_ok v' \<and> vend v' \<le> MAXA"
      using chain_bounds [of "vbase v" "v' # R1" MAXA v'] by simp
  next
    case False
    with n have "v' = v" by (auto simp: absorb_next_def split: list.splits if_splits)
    then show "vbase v' = vbase v \<and> area_ok v' \<and> vend v' \<le> MAXA"
      using assms(2) chain_bounds [OF c, of v] by simp
  qed
  show ?thesis
  proof (cases L rule: rev_cases)
    case Nil
    then show ?thesis unfolding MergeAdjacent_def first by (simp add: n absorb_prev_def)
  next
    case (snoc L1 u)
    have "vend u = vbase v'" "vend u \<le> MAXA" using cl v' by (auto simp: snoc chain_append)
    moreover have "area_ok u" using assms(2) by (simp add: snoc)
    ultimately have "CanBeMergedWith u v' = Some (vattr u = vattr v')"
      using v'(2) by (intro CanBeMergedWith_eq)
    then show ?thesis
      unfolding MergeAdjacent_def first
      by (simp add: n absorb_prev_def snoc nth_append joined_def)
  qed
qed

lemma join_next:
  assumes "chain 0 (L @ v # R) MAXA" "\<forall>x \<in> set (L @ v # R). area_ok x" "absorb_next v R = (v', R')"
  shows "chain 0 (L @ v' # R') MAXA \<and> (\<forall>x \<in> set (L @ v' # R'). area_ok x)
    \<and> attr_at (L @ v' # R') = attr_at (L @ v # R) \<and> vbase v' = vbase v \<and> vend v \<le> vend v'
    \<and> vattr v' = vattr v \<and> set R' \<subseteq> set R"
proof (cases "R \<noteq> [] \<and> vattr v = vattr (hd R)")
  case True
  then obtain w R1 where R: "R = w # R1" by (cases R) auto
  with True assms(3) have e: "v' = joined v w" "R' = R1" by (simp_all add: absorb_next_def)
  obtain mid where l: "chain 0 L mid" and c: "chain mid (v # w # R1) MAXA"
    using assms(1) by (auto simp: chain_append R)
  have a: "\<forall>x \<in> set (v # w # R1). area_ok x" using assms(2) by (simp add: R)
  have same: "vattr v = vattr w" using True by (simp add: R)
  note j = join_absorbed [OF c order_refl a same]
  have "vend v = vbase w" "vend w \<le> MAXA"
    using chain_bounds [OF c, of w] c by simp_all
  note jj = joined [OF this]
  have "chain 0 (L @ v' # R') MAXA" using l j(1) by (auto simp: chain_append e)
  moreover have "attr_at (L @ v' # R') = attr_at (L @ v # R)"
    by (rule ext) (simp only: e R attr_at_append j(3))
  ultimately show ?thesis using assms(2) j(2) jj by (simp add: e R subset_insertI)
next
  case False
  then have "v' = v" "R' = R" using assms(3) by (auto simp: absorb_next_def split: list.splits if_splits)
  then show ?thesis using assms(1,2) by simp
qed

lemma join_prev:
  assumes "chain 0 (L @ v # R) MAXA" "\<forall>x \<in> set (L @ v # R). area_ok x" "absorb_prev L v = (L', v')"
  shows "chain 0 (L' @ v' # R) MAXA \<and> (\<forall>x \<in> set (L' @ v' # R). area_ok x)
    \<and> attr_at (L' @ v' # R) = attr_at (L @ v # R) \<and> vbase v' \<le> vbase v \<and> vend v \<le> vend v'
    \<and> vattr v' = vattr v"
proof (cases "L \<noteq> [] \<and> vattr (last L) = vattr v")
  case True
  then obtain L1 u where L: "L = L1 @ [u]" by (cases L rule: rev_cases) auto
  with True assms(3) have e: "v' = joined u v" "L' = L1" by (simp_all add: absorb_prev_def)
  have "absorb_next u (v # R) = (joined u v, R)" using True L by (simp add: absorb_next_def)
  from join_next [OF _ _ this, of L1] assms(1,2)
  have "chain 0 (L1 @ joined u v # R) MAXA \<and> (\<forall>x \<in> set (L1 @ joined u v # R). area_ok x)
    \<and> attr_at (L1 @ joined u v # R) = attr_at (L1 @ u # v # R) \<and> vattr (joined u v) = vattr u"
    by (simp add: L)
  moreover have "vbase (joined u v) \<le> vbase v \<and> vend v \<le> vend (joined u v)"
  proof -
    obtain mid where c: "chain mid (u # v # R) MAXA" using assms(1) by (auto simp: chain_append L)
    have "vend u = vbase v" "vend v \<le> MAXA" using chain_bounds [OF c, of v] c by simp_all
    from joined [OF this] this show ?thesis by simp
  qed
  ultimately show ?thesis using True by (simp add: e L)
next
  case False
  then have "v' = v" "L' = L" using assms(3) by (auto simp: absorb_prev_def split: if_splits)
  then show ?thesis using assms(1,2) by simp
qed

text \<open>Free areas stay apart, and become so around an area that has been freed.\<close>

lemma free_attr: "area_ok v \<Longrightarrow> free v \<Longrightarrow> vattr v = (FreeVMA, PermNone, MSFree, None)"
  by (simp add: area_ok_def free_def vattr_def)

lemma vattr_free: "vattr v = vattr w \<Longrightarrow> free v = free w"
  by (simp add: vattr_def free_def)

lemma free_joined [simp]: "free (joined v w) = free v"
  by (simp add: joined_def free_def)

lemma free_apart_split:
  "free_apart (L @ v # R) \<longleftrightarrow> free_apart L \<and> free_apart R
     \<and> (free v \<longrightarrow> (L = [] \<or> \<not> free (last L)) \<and> (R = [] \<or> \<not> free (hd R)))"
  by (auto simp: free_apart_def successively_append_iff successively_Cons)

lemma join_apart:
  assumes "\<forall>x \<in> set (L @ v # R). area_ok x" "free_apart L" "free_apart R"
    and "free v \<or> free_apart (L @ v # R)"
    and n: "absorb_next v R = (v', R')" and p: "absorb_prev L v' = (L', v'')"
  shows "free_apart (L' @ v'' # R')"
proof -
  have right: "free_apart R'" "free v' = free v" "free v' \<Longrightarrow> R' \<noteq> [] \<Longrightarrow> \<not> free (hd R')"
  proof -
    show "free_apart R'" using n assms(3)
      by (auto simp: absorb_next_def free_apart_def successively_Cons split: list.splits if_splits)
    show f: "free v' = free v" using n by (auto simp: absorb_next_def split: list.splits if_splits)
    show "\<not> free (hd R')" if "free v'" "R' \<noteq> []"
    proof (cases R)
      case Nil
      with n that show ?thesis by (simp add: absorb_next_def)
    next
      case (Cons w R1)
      show ?thesis
      proof (cases "vattr v = vattr w")
        case True
        then have "R' = R1" "free w" using n that f vattr_free [OF True] by (simp_all add: absorb_next_def Cons)
        with assms(3) that show ?thesis by (cases R1) (simp_all add: Cons free_apart_def)
      next
        case False
        then have "R' = R" using n by (simp add: absorb_next_def Cons)
        moreover have "\<not> free w"
          using False free_attr [of v] free_attr [of w] assms(1) that f by (auto simp: Cons)
        ultimately show ?thesis by (simp add: Cons)
      qed
    qed
  qed
  have area': "vattr v' = vattr v"
    using n by (auto simp: absorb_next_def joined_def vattr_def split: list.splits if_splits)
  have left: "free_apart L'" "free v'' = free v'" "free v'' \<Longrightarrow> L' \<noteq> [] \<Longrightarrow> \<not> free (last L')"
  proof -
    show "free_apart L'" using p assms(2)
      by (cases L rule: rev_cases)
         (auto simp: absorb_prev_def free_apart_def successively_append_iff split: if_splits)
    show f: "free v'' = free v'"
      using p vattr_free [of "last L" v'] by (auto simp: absorb_prev_def split: if_splits)
    show "\<not> free (last L')" if "free v''" "L' \<noteq> []"
    proof (cases L rule: rev_cases)
      case Nil
      with p that show ?thesis by (simp add: absorb_prev_def)
    next
      case (snoc L1 u)
      show ?thesis
      proof (cases "vattr u = vattr v'")
        case True
        then have "L' = L1" "free u"
          using p that f vattr_free [OF True] by (simp_all add: absorb_prev_def snoc)
        with assms(2) that show ?thesis
          by (simp add: snoc free_apart_def successively_append_iff)
      next
        case False
        then have "L' = L" using p by (simp add: absorb_prev_def snoc)
        moreover have "\<not> free u"
          using False free_attr [of v] free_attr [of u] assms(1) that f area' right(2) by (auto simp: snoc)
        ultimately show ?thesis by (simp add: snoc)
      qed
    qed
  qed
  show ?thesis using left right by (auto simp: free_apart_split)
qed

section \<open>One area changed\<close>

text \<open>
  What a change of attributes must do: leave the interval, give a good area, act on the attributes
  as an idempotent function, and free every area or none.
\<close>

definition change_ok :: "(VMA \<Rightarrow> bool) \<Rightarrow> (VMA \<Rightarrow> VMA) \<Rightarrow> (attr \<Rightarrow> attr) \<Rightarrow> bool" where
  "change_ok P f fa \<longleftrightarrow>
     (\<forall>v. vma_base (f v) = vma_base v \<and> vma_size (f v) = vma_size v)
     \<and> (\<forall>v. area_ok v \<longrightarrow> P v \<longrightarrow> area_ok (f v) \<and> vattr (f v) = fa (vattr v))
     \<and> (\<forall>x. fa (fa x) = fa x)
     \<and> ((\<forall>v. P v \<longrightarrow> free (f v)) \<or> (\<forall>v. P v \<longrightarrow> \<not> free (f v)))"

lemma attr_at_mid:
  assumes "chain lo (L @ v # R) hi" "vbase v' = vbase v" "vsize v' = vsize v"
  shows "attr_at (L @ v' # R) a = (if vbase v \<le> a \<and> a < vend v then Some (vattr v') else attr_at (L @ v # R) a)"
proof (cases "vbase v \<le> a \<and> a < vend v")
  case True
  have "chain lo L (vbase v)" using assms(1) by (auto simp: chain_append)
  then have "attr_at L a = None" using True by (intro attr_at_outside) auto
  with True assms(2,3) show ?thesis by (simp add: attr_at_append)
next
  case False
  with assms(2,3) show ?thesis by (auto simp: attr_at_append split: option.split)
qed

lemma attr_at_here:
  "chain lo (L @ v # R) hi \<Longrightarrow> vbase v \<le> a \<Longrightarrow> a < vend v \<Longrightarrow> attr_at (L @ v # R) a = Some (vattr v)"
  using attr_at_mid [of lo L v R hi v a] by simp

lemma chain_mid:
  "chain lo (L @ v # R) hi \<Longrightarrow> vbase v' = vbase v \<Longrightarrow> vsize v' = vsize v \<Longrightarrow> chain lo (L @ v' # R) hi"
  by (auto simp: chain_append)

text \<open>Changing one area and merging: the map, and where the changed area went.\<close>

lemma change_and_merge:
  assumes "chain 0 (L @ v # R) MAXA" "\<forall>x \<in> set (L @ v # R). area_ok x"
    and f: "change_ok P f fa" and "P v" and ap: "free_apart L" "free_apart R"
    and apart: "free (f v) \<or> free_apart (L @ f v # R)"
  obtains L' w R' where "MergeAdjacent ((L @ v # R)[length L := f v]) (length L) = Some (L' @ w # R', length L')"
    and "map_ok (L' @ w # R')" and "vattr w = fa (vattr v)" and "vbase w \<le> vbase v" and "vend v \<le> vend w"
    and "set R' \<subseteq> set R"
    and "L \<noteq> [] \<Longrightarrow> vattr (last L) = fa (vattr v) \<Longrightarrow> vbase w \<le> vbase (last L)"
    and "\<And>a. attr_at (L' @ w # R') a
      = (if vbase v \<le> a \<and> a < vend v then Some (fa (vattr v)) else attr_at (L @ v # R) a)"
proof -
  have fv: "vbase (f v) = vbase v" "vsize (f v) = vsize v" "area_ok (f v)" "vattr (f v) = fa (vattr v)"
    using f assms(2) \<open>P v\<close> by (auto simp: change_ok_def)
  have c: "chain 0 (L @ f v # R) MAXA" using assms(1) fv(1,2) by (rule chain_mid)
  have ok: "\<forall>x \<in> set (L @ f v # R). area_ok x" using assms(2) fv(3) by auto
  obtain v1 R' where n: "absorb_next (f v) R = (v1, R')" by (cases "absorb_next (f v) R")
  obtain L' w where p: "absorb_prev L v1 = (L', w)" by (cases "absorb_prev L v1")
  note jn = join_next [OF c ok n]
  have c1: "chain 0 (L @ v1 # R') MAXA" and ok1: "\<forall>x \<in> set (L @ v1 # R'). area_ok x" using jn by blast+
  note jp = join_prev [OF c1 ok1 p]
  have merge: "MergeAdjacent ((L @ v # R)[length L := f v]) (length L) = Some (L' @ w # R', length L')"
    using MergeAdjacent_eq [OF c ok] by (simp add: n p)
  have "free_apart (L' @ w # R')"
    by (rule join_apart [OF ok ap apart n p])
  then have "map_ok (L' @ w # R')" using jp by (simp add: map_ok_def)
  moreover have "attr_at (L' @ w # R') a
      = (if vbase v \<le> a \<and> a < vend v then Some (fa (vattr v)) else attr_at (L @ v # R) a)" for a
    using jn jp attr_at_mid [OF assms(1) fv(1,2), of a] fv(4) by simp
  moreover have "vattr w = fa (vattr v)" "vbase w \<le> vbase v" "vend v \<le> vend w" "set R' \<subseteq> set R"
    using jn jp fv by simp_all
  moreover have "vbase w \<le> vbase (last L)" if "L \<noteq> []" "vattr (last L) = fa (vattr v)"
  proof -
    have "vattr v1 = fa (vattr v)"
      using n fv(4) by (auto simp: absorb_next_def joined_def vattr_def split: list.splits if_splits)
    then have "w = joined (last L) v1" using p that by (simp add: absorb_prev_def)
    then show ?thesis by (simp add: joined_def)
  qed
  ultimately show thesis using merge that by blast
qed

section \<open>The page table never refuses an area\<close>

lemma ref_plus_page: "PAGE_SIZE < ref_size r \<Longrightarrow> \<exists>r'. ref_plus r PAGE_SIZE = Some r'"
  by (simp add: ref_plus_def)

lemma MapPages_loop_total:
  "base \<le> finish \<Longrightarrow> finish \<le> PAGE_TABLE_NUM_ENTRIES \<Longrightarrow> \<exists>pt'. MapPages_loop c pt base finish memory type = Some pt'"
proof (induction c pt base finish memory type rule: MapPages_loop.induct)
  case (1 c pt base finish memory type)
  show ?case
  proof (cases "base = finish")
    case True
    then show ?thesis by (simp add: MapPages_loop.simps [of c pt finish finish])
  next
    case False
    with "1.prems" have b: "base < PAGE_TABLE_NUM_ENTRIES" "Suc base \<le> finish" by simp_all
    obtain memory' where m: "(if memory \<noteq> None \<and> PAGE_SIZE < ref_size memory
        then ref_plus memory PAGE_SIZE else Some memory) = Some memory'"
      using ref_plus_page [of memory] by (cases "memory \<noteq> None \<and> PAGE_SIZE < ref_size memory") auto
    from "1.IH" [OF False _ refl refl m b(2) "1.prems"(2)] b(1)
    show ?thesis
      by (subst MapPages_loop.simps)
         (simp only: False b(1) if_False if_True not_True_eq_False not_False_eq_True Let_def m bind.bind_lunit)
  qed
qed

lemma MapPages_total:
  assumes "unat base + unat sz \<le> PAGE_TABLE_NUM_ENTRIES"
  shows "\<exists>m'. MapPages D m table base sz memory type = Some m'"
proof -
  have "unat base \<le> unat (base + sz)" "unat (base + sz) \<le> PAGE_TABLE_NUM_ENTRIES"
    using assms by (simp_all add: unat_plus_no_wrap_u32)
  from MapPages_loop_total [OF this] show ?thesis by (simp add: MapPages_def Let_def bind_eq_Some_conv)
qed

lemma page_count: "page_aligned w \<Longrightarrow> unat (w div 0x1000) = unat w div 4096"
  by (simp add: unat_div)

lemma area_maps:
  assumes "area_ok v" "vend v \<le> MAXA"
  shows "\<exists>m'. UnmapRegion D m t (vma_base v) (vma_size v) = Some m'"
    and "\<exists>m'. MapMemoryRegion D m t (vma_base v) (vma_size v) ref = Some m'"
proof -
  have al: "page_aligned (vma_base v)" "page_aligned (vma_size v)" using assms(1) by (simp_all add: area_ok_def)
  have "unat (vma_base v div 0x1000) + unat (vma_size v div 0x1000) \<le> PAGE_TABLE_NUM_ENTRIES"
    using assms(2) by (simp add: page_count al)
  then show "\<exists>m'. UnmapRegion D m t (vma_base v) (vma_size v) = Some m'"
    and "\<exists>m'. MapMemoryRegion D m t (vma_base v) (vma_size v) ref = Some m'"
    using al by (simp_all add: UnmapRegion_def MapMemoryRegion_def MapPages_total)
qed

lemma UpdatePageTableForVMA_total:
  assumes "area_ok v" "vend v \<le> MAXA"
  shows "\<exists>vm'. UpdatePageTableForVMA D vm v = Some vm'"
  using area_maps(1) [OF assms, of D "vm_memory vm" "vm_table vm"]
    area_maps(2) [OF assms, of D "vm_memory vm" "vm_table vm" "vma_backing v"]
  by (cases "vma_type v") (auto simp: UpdatePageTableForVMA_def)

end
