(* ===== verification/VMProps.thy ===== *)
theory VMProps imports VMFacts begin

text \<open>
  What the operations of the address-space manager do to the map as a function on addresses, and
  that they keep its invariant without ever failing an assertion.
\<close>

section \<open>One step of a range operation\<close>

lemma update_vma_step:
  assumes vm: "vma_map vm = L @ v # R"
    and c: "chain 0 (L @ v # R) MAXA" and areas: "\<forall>x \<in> set (L @ v # R). area_ok x"
    and f: "change_ok P f fa" and P: "P v" and aparts: "free_apart L" "free_apart R"
    and fapart: "free (f v) \<or> free_apart (L @ f v # R)"
  obtains vm' L' w R' where "update_vma D f vm (length L) = Some (vm', length L')"
    and "vma_map vm' = L' @ w # R'" and "map_ok (vma_map vm')" and "is_locked vm' = is_locked vm"
    and "vm_table vm' = vm_table vm"
    and "vattr w = fa (vattr v)" and "vbase w \<le> vbase v" and "vend v \<le> vend w" and "set R' \<subseteq> set R"
    and "L \<noteq> [] \<Longrightarrow> vattr (last L) = fa (vattr v) \<Longrightarrow> vbase w \<le> vbase (last L)"
    and "\<And>a. attr_at (vma_map vm') a
      = (if vbase v \<le> a \<and> a < vend v then Some (fa (vattr v)) else attr_at (vma_map vm) a)"
proof -
  obtain L' w R' where m: "MergeAdjacent ((L @ v # R)[length L := f v]) (length L) = Some (L' @ w # R', length L')"
    and rest: "map_ok (L' @ w # R')" "vattr w = fa (vattr v)" "vbase w \<le> vbase v" "vend v \<le> vend w"
      "set R' \<subseteq> set R"
      "L \<noteq> [] \<Longrightarrow> vattr (last L) = fa (vattr v) \<Longrightarrow> vbase w \<le> vbase (last L)"
      "\<And>a. attr_at (L' @ w # R') a
        = (if vbase v \<le> a \<and> a < vend v then Some (fa (vattr v)) else attr_at (L @ v # R) a)"
    using change_and_merge [OF c areas f P aparts fapart] by blast
  have fv: "area_ok (f v)" "vend (f v) \<le> MAXA"
    using f P areas chain_bounds [OF c, of v] by (auto simp: change_ok_def)
  from UpdatePageTableForVMA_total [OF fv, of D "vm\<lparr>vma_map := (vma_map vm)[length L := f v]\<rparr>"]
  obtain vm1 where u: "UpdatePageTableForVMA D (vm\<lparr>vma_map := (vma_map vm)[length L := f v]\<rparr>) (f v) = Some vm1" ..
  from UpdatePageTableForVMA_map [OF u] have "vma_map vm1 = (L @ v # R)[length L := f v]"
    "is_locked vm1 = is_locked vm" "vm_table vm1 = vm_table vm" by (simp_all add: vm)
  then have "update_vma D f vm (length L) = Some (vm1\<lparr>vma_map := L' @ w # R'\<rparr>, length L')"
    using u m by (simp add: update_vma_def vm Let_def)
  with rest \<open>is_locked vm1 = is_locked vm\<close> \<open>vm_table vm1 = vm_table vm\<close> show thesis
    by (intro that [of "vm1\<lparr>vma_map := L' @ w # R'\<rparr>" L' w R']) (simp_all add: vm)
qed

section \<open>The range loop\<close>

text \<open>The address at which the loop stands.\<close>

definition position :: "VMA list \<Rightarrow> nat \<Rightarrow> nat" where
  "position vs i = (if i < length vs then vbase (vs ! i) else MAXA)"

lemma position_next:
  assumes "chain 0 (L @ w # R) MAXA"
  shows "position (L @ w # R) (Suc (length L)) = vend w"
  using assms by (cases R) (auto simp: position_def chain_append nth_append)

lemma range_loop_spec:
  "change_ok (\<lambda>v. \<not> free v) f fa \<Longrightarrow> unat te \<le> MAXA \<Longrightarrow> map_ok (vma_map vm) \<Longrightarrow>
    \<forall>v \<in> set (drop i (vma_map vm)). vbase v < unat te \<longrightarrow> \<not> free v \<and> vend v \<le> unat te \<Longrightarrow>
    \<exists>vm'. range_loop D f te vm i = Some vm' \<and> map_ok (vma_map vm') \<and> is_locked vm' = is_locked vm
      \<and> (\<forall>a. attr_at (vma_map vm') a =
            (if position (vma_map vm) i \<le> a \<and> a < unat te then map_option fa (attr_at (vma_map vm) a)
             else attr_at (vma_map vm) a))"
proof (induction D f te vm i rule: range_loop.induct)
  case (1 D f te vm i)
  let ?vs = "vma_map vm"
  note f = "1.prems"(1) and te = "1.prems"(2) and ok = "1.prems"(3) and range = "1.prems"(4)
  show ?case
  proof (cases "i < length ?vs \<and> vma_base (?vs ! i) < te")
    case False
    then have "range_loop D f te vm i = Some vm" by (simp only: range_loop.simps [of D f te vm i] if_False)
    moreover have "unat te \<le> position ?vs i"
      using False te by (auto simp: position_def word_less_nat_alt not_less)
    ultimately show ?thesis using ok by auto
  next
    case True
    define L v R where "L = take i ?vs" and "v = ?vs ! i" and "R = drop (Suc i) ?vs"
    have vs: "?vs = L @ v # R" using True by (simp add: L_def v_def R_def id_take_nth_drop [symmetric])
    have i: "i = length L" using True by (simp add: L_def)
    have R: "drop i ?vs = v # R" by (simp add: vs i)
    have v: "\<not> free v" "vend v \<le> unat te" "vbase v < unat te"
      using range True by (auto simp: R word_less_nat_alt v_def [symmetric])
    have c: "chain 0 (L @ v # R) MAXA" and areas: "\<forall>x \<in> set (L @ v # R). area_ok x"
      and apart: "free_apart (L @ v # R)"
      using ok unfolding vs map_ok_def by blast+
    have aparts: "free_apart L" "free_apart R" using apart by (simp_all add: free_apart_split)
    have fapart: "free (f v) \<or> free_apart (L @ f v # R)"
      using v(1) apart by (auto simp: free_apart_split)
    obtain vm' L' w R' where u: "update_vma D f vm i = Some (vm', length L')"
      and vs': "vma_map vm' = L' @ w # R'" and ok': "map_ok (vma_map vm')" "is_locked vm' = is_locked vm"
      and w: "vattr w = fa (vattr v)" "vbase w \<le> vbase v" "vend v \<le> vend w" and sub: "set R' \<subseteq> set R"
      and attr: "\<And>a. attr_at (vma_map vm') a
        = (if vbase v \<le> a \<and> a < vend v then Some (fa (vattr v)) else attr_at ?vs a)"
      using update_vma_step [OF vs c areas f v(1) aparts fapart, of D] unfolding i by metis
    have c': "chain 0 (L' @ w # R') MAXA" using ok'(1) by (simp only: vs' map_ok_def)
    have pos: "position ?vs i = vbase v" using True by (simp add: position_def v_def)
    have pos': "position (vma_map vm') (Suc (length L')) = vend w"
      unfolding vs' by (rule position_next [OF c'])
    have range': "\<forall>x \<in> set (drop (Suc (length L')) (vma_map vm')).
        vbase x < unat te \<longrightarrow> \<not> free x \<and> vend x \<le> unat te"
      using range sub by (auto simp: vs' R)
    obtain vm2 where loop: "range_loop D f te vm' (Suc (length L')) = Some vm2" and ok2: "map_ok (vma_map vm2)"
      "is_locked vm2 = is_locked vm'"
      and attr2: "\<And>a. attr_at (vma_map vm2) a = (if vend w \<le> a \<and> a < unat te
        then map_option fa (attr_at (vma_map vm') a) else attr_at (vma_map vm') a)"
      using "1.IH" [OF True u refl f te ok'(1) range'] unfolding pos' by blast
    have fa: "fa (fa x) = fa x" for x using f unfolding change_ok_def by blast
    have "attr_at (vma_map vm2) a = (if vbase v \<le> a \<and> a < unat te then map_option fa (attr_at ?vs a)
        else attr_at ?vs a)" for a
    proof (cases "vend v \<le> a \<and> a < vend w")
      case True
      then have "attr_at (vma_map vm') a = Some (fa (vattr v))"
        using w attr_at_here [OF c', of a] by (simp add: vs')
      moreover have "attr_at ?vs a = attr_at (vma_map vm') a" using True attr [of a] by simp
      ultimately show ?thesis using True attr2 [of a] fa by auto
    next
      case False
      have here: "vbase v \<le> a \<Longrightarrow> a < vend v \<Longrightarrow> attr_at ?vs a = Some (vattr v)"
        using attr_at_here [OF c, of a] by (simp add: vs)
      have later: "vend w \<le> a \<Longrightarrow> \<not> a < vend v \<and> vbase v \<le> a" using w(3) by simp
      show ?thesis
      proof (cases "vbase v \<le> a \<and> a < vend v")
        case True
        then have "\<not> vend w \<le> a" using later by blast
        with True v(2) here attr [of a] attr2 [of a] show ?thesis by simp
      next
        case out: False
        then have "attr_at (vma_map vm') a = attr_at ?vs a" by (simp only: attr [of a] if_False)
        moreover have "vbase v \<le> a \<longleftrightarrow> vend w \<le> a" using False out later by linarith
        ultimately show ?thesis using attr2 [of a] by simp
      qed
    qed
    then have "\<forall>a. attr_at (vma_map vm2) a = (if position ?vs i \<le> a \<and> a < unat te
        then map_option fa (attr_at ?vs a) else attr_at ?vs a)" by (simp add: pos)
    moreover have "range_loop D f te vm i = Some vm2"
      using u loop True by (simp only: range_loop.simps [of D f te vm i] if_True option.case prod.case simp_thms)
    ultimately show ?thesis using ok2 ok'(2) by auto
  qed
qed

section \<open>Finding and splitting\<close>

lemma chain_FindVMA:
  "chain lo vs hi \<Longrightarrow> lo \<le> unat t \<Longrightarrow> unat t < hi \<Longrightarrow>
    \<exists>L v R. vs = L @ v # R \<and> upper_bound vs t = Suc (length L) \<and> vbase v \<le> unat t \<and> unat t < vend v"
proof (induction vs arbitrary: lo)
  case (Cons w vs)
  show ?case
  proof (cases "unat t < vend w")
    case True
    have "upper_bound (w # vs) t = Suc 0"
    proof (cases vs)
      case (Cons x xs)
      with Cons.prems True show ?thesis
        by (auto simp: upper_bound_def word_le_nat_alt)
    qed (use Cons.prems in \<open>simp add: upper_bound_def word_le_nat_alt\<close>)
    with Cons.prems True show ?thesis by (intro exI [of _ "[]"] exI [of _ w] exI [of _ vs]) auto
  next
    case False
    with Cons.prems have c: "chain (vend w) vs hi" "vend w \<le> unat t" by simp_all
    from Cons.IH [OF c Cons.prems(3)] obtain L v R where
      r: "vs = L @ v # R" "upper_bound vs t = Suc (length L)" "vbase v \<le> unat t" "unat t < vend v" by blast
    have "vma_base w \<le> t" using Cons.prems(1,2) by (simp add: word_le_nat_alt)
    then have "upper_bound (w # vs) t = Suc (upper_bound vs t)" by (simp add: upper_bound_def)
    with r show ?thesis by (intro exI [of _ "w # L"] exI [of _ v] exI [of _ R]) simp
  qed
qed simp

lemma MAX_ADDRESS_nat: "unat MAX_ADDRESS = MAXA"
  by (simp add: MAX_ADDRESS_def)

lemma FindVMA_split:
  assumes "chain 0 vs MAXA" "unat t < MAXA"
  obtains L v R where "vs = L @ v # R" "FindVMA vs t = length L" "vbase v \<le> unat t" "unat t < vend v"
  using chain_FindVMA [OF assms(1) _ assms(2)] assms(2)
  by (auto simp: FindVMA_def word_le_nat_alt MAX_ADDRESS_nat)

lemma FindVMA_end: "MAXA \<le> unat t \<Longrightarrow> FindVMA vs t = length vs"
  by (simp add: FindVMA_def word_le_nat_alt MAX_ADDRESS_nat)

lemma SplitVMA_spec:
  assumes c: "chain lo (L @ v # R) hi" and hi: "hi \<le> MAXA" and ok: "area_ok v"
    and off: "0 < unat off" "unat off < vsize v" "page_aligned off"
  obtains v1 v2 where "SplitVMA (L @ v # R) (length L) off = Some (L @ v1 # v2 # R, Suc (length L))"
    and "chain lo (L @ v1 # v2 # R) hi" and "area_ok v1" and "area_ok v2"
    and "vbase v1 = vbase v" and "vsize v1 = unat off" and "vend v1 = vbase v2" and "vend v2 = vend v"
    and "vattr v1 = vattr v" and "vattr v2 = vattr v" and "free v1 = free v" and "free v2 = free v"
    and "attr_at (L @ v1 # v2 # R) = attr_at (L @ v # R)"
proof -
  have ve: "vend v \<le> MAXA" "0 < vsize v" using chain_bounds [OF c, of v] hi by simp_all
  obtain backing where bk: "(case vma_type v of FreeVMA \<Rightarrow> Some (vma_backing v)
      | BackingMemoryVMA \<Rightarrow> ref_plus (vma_backing v) (unat off)) = Some backing"
    and room: "vma_type v = BackingMemoryVMA \<Longrightarrow> (\<exists>b i. vma_backing v = Some (b, i)
      \<and> backing = Some (b, i + unat off) \<and> vsize v \<le> backing_size b - i)"
    using ok off by (cases "vma_type v") (auto simp: area_ok_def ref_plus_def)
  define v1 where "v1 = v\<lparr>vma_size := off\<rparr>"
  define v2 where "v2 = v\<lparr>vma_base := vma_base v + off, vma_size := vma_size v - off, vma_backing := backing\<rparr>"
  have size2: "vsize v2 = vsize v - unat off" using off(2) by (simp add: v2_def unat_sub word_le_nat_alt)
  have base2: "vbase v2 = vbase v + unat off" using off(2) ve(1) by (simp add: v2_def unat_plus_no_wrap_u32)
  have e: "vend v1 = vbase v2" "vend v2 = vend v" using size2 base2 off(2) by (simp_all add: v1_def)
  have same1: "vattr v1 = vattr v" by (simp add: vattr_def v1_def)
  have fields2: "vma_type v2 = vma_type v" "vma_perms v2 = vma_perms v" "vma_state v2 = vma_state v"
    "vma_backing v2 = backing" by (simp_all add: v2_def)
  have same2: "vattr v2 = vattr v"
  proof (cases "vma_type v")
    case FreeVMA
    then show ?thesis by (simp add: vattr_def fields2)
  next
    case BackingMemoryVMA
    then obtain b i where "vma_backing v = Some (b, i)" "backing = Some (b, i + unat off)"
      using room by blast
    with BackingMemoryVMA origin_eq [OF base2 [symmetric], of b i b "i + unat off"]
    show ?thesis by (simp add: vattr_def fields2)
  qed
  note same = same1 same2
  have al: "page_aligned (vma_base v2)" "page_aligned (vma_size v2)"
    using ok off base2 size2 by (simp_all add: area_ok_def page_aligned_dvd)
  have a1: "area_ok v1" using ok off by (auto simp: area_ok_def v1_def split: VMAType.split)
  have a2: "area_ok v2"
  proof (cases "vma_type v")
    case FreeVMA
    then show ?thesis using ok al by (simp add: area_ok_def v2_def)
  next
    case BackingMemoryVMA
    then show ?thesis using ok al room size2 by (auto simp: area_ok_def v2_def)
  qed
  have "CanBeMergedWith v1 v2 = Some True"
    using CanBeMergedWith_eq [OF e(1) _ a1 a2] same ve off(2) by (simp add: v1_def)
  then have "SplitVMA (L @ v # R) (length L) off = Some (L @ v1 # v2 # R, Suc (length L))"
    using off(1,2) bk
    by (simp add: SplitVMA_def Let_def v1_def v2_def word_less_nat_alt unat_gt_0)
  moreover have "chain lo (L @ v1 # v2 # R) hi"
    using c e off size2 by (auto simp: chain_append v1_def)
  moreover have "attr_at (L @ v1 # v2 # R) a = attr_at (L @ v # R) a" for a
  proof -
    have "attr_at (v1 # v2 # R) a = attr_at (v # R) a"
      using e same base2 size2 off by (auto simp: v1_def)
    then show ?thesis by (simp only: attr_at_append)
  qed
  moreover have "free v1 = free v" "free v2 = free v" by (simp_all add: free_def v1_def v2_def)
  moreover have "vbase v1 = vbase v" "vsize v1 = unat off" by (simp_all add: v1_def)
  ultimately show thesis using a1 a2 e same that by blast
qed

section \<open>Carving\<close>

lemma attr_at_member:
  assumes "chain lo vs hi" "x \<in> set vs" "vbase x \<le> a" "a < vend x"
  shows "attr_at vs a = Some (vattr x)"
proof -
  from assms(2) obtain L R where "vs = L @ x # R" by (meson split_list)
  with attr_at_here assms(1,3,4) show ?thesis by blast
qed

lemma attr_at_ex: "attr_at vs a = Some r \<Longrightarrow> \<exists>x \<in> set vs. vbase x \<le> a \<and> a < vend x \<and> vattr x = r"
  by (induction vs) (auto split: if_splits)

lemma chain_left: "chain lo (L @ v # R) hi \<Longrightarrow> x \<in> set L \<Longrightarrow> vend x \<le> vbase v"
  using chain_bounds [of lo L _ x] by (auto simp: chain_append)

lemma chain_right: "chain lo (L @ v # R) hi \<Longrightarrow> x \<in> set R \<Longrightarrow> vend v \<le> vbase x"
  using chain_bounds [of "vend v" R hi x] by (auto simp: chain_append)

lemma chain_takeWhile:
  "chain lo vs hi \<Longrightarrow> takeWhile (\<lambda>v. vma_base v < e) vs = filter (\<lambda>v. vma_base v < e) vs"
proof (induction vs arbitrary: lo)
  case (Cons w vs)
  then have c: "chain (vend w) vs hi" by simp
  show ?case
  proof (cases "vma_base w < e")
    case True
    with Cons.IH [OF c] show ?thesis by simp
  next
    case False
    then have "\<not> vma_base x < e" if "x \<in> set vs" for x
      using chain_bounds [OF c that] by (simp add: word_less_nat_alt)
    with False show ?thesis by (simp add: filter_empty_conv)
  qed
qed simp

text \<open>The addresses a map calls free.\<close>

definition free_at :: "VMA list \<Rightarrow> nat \<Rightarrow> bool" where
  "free_at vs a \<longleftrightarrow> (\<exists>r. attr_at vs a = Some r \<and> fst r = FreeVMA)"

lemma fst_vattr: "fst (vattr v) = FreeVMA \<longleftrightarrow> free v"
  by (simp add: vattr_def free_def)

lemma free_at_area: "attr_at vs a = Some (vattr v) \<Longrightarrow> free_at vs a = free v"
  unfolding free_at_def using fst_vattr [of v] by auto

lemma range_visits:
  assumes c: "chain 0 (L @ v # R) MAXA" and t: "vbase v \<le> t" "t < vend v" and te: "t < unat te"
  shows "set (drop (length L) (take (lower_bound (L @ v # R) te) (L @ v # R)))
    = {x \<in> set (v # R). vbase x < unat te}"
proof -
  have "\<forall>x \<in> set L. vma_base x < te"
    using chain_left [OF c] t te by (fastforce simp: word_less_nat_alt)
  then have "take (lower_bound (L @ v # R) te) (L @ v # R) = L @ takeWhile (\<lambda>v. vma_base v < te) (v # R)"
    unfolding lower_bound_def takeWhile_eq_take [symmetric] by (simp add: takeWhile_append)
  moreover have "chain (vbase v) (v # R) MAXA" using c by (auto simp: chain_append)
  ultimately show ?thesis by (simp only: chain_takeWhile) (auto simp: word_less_nat_alt)
qed

lemma range_free_iff:
  assumes c: "chain 0 (L @ v # R) MAXA" and t: "vbase v \<le> t" "t < vend v" and te: "t < e"
  shows "(\<exists>x \<in> set (v # R). vbase x < e \<and> free x) \<longleftrightarrow> (\<exists>a. t \<le> a \<and> a < e \<and> free_at (L @ v # R) a)"
proof
  assume "\<exists>x \<in> set (v # R). vbase x < e \<and> free x"
  then obtain x where x: "x \<in> set (v # R)" "vbase x < e" "free x" by blast
  have "t < vend x"
  proof (cases "x = v")
    case False
    then have "vend v \<le> vbase x" using x(1) chain_right [OF c] by simp
    with t show ?thesis by simp
  qed (use t in simp)
  moreover have "0 < vsize x" using chain_bounds [OF c, of x] x(1) by auto
  ultimately have "attr_at (L @ v # R) (max t (vbase x)) = Some (vattr x)"
    using x(1) by (intro attr_at_member [OF c]) auto
  then have "free_at (L @ v # R) (max t (vbase x))"
    using x(3) fst_vattr [of x] unfolding free_at_def by blast
  moreover have "t \<le> max t (vbase x)" "max t (vbase x) < e" using te x(2) by simp_all
  ultimately show "\<exists>a. t \<le> a \<and> a < e \<and> free_at (L @ v # R) a" by blast
next
  assume "\<exists>a. t \<le> a \<and> a < e \<and> free_at (L @ v # R) a"
  then obtain a x where a: "t \<le> a" "a < e" "x \<in> set (L @ v # R)" "vbase x \<le> a" "a < vend x" "free x"
    by (auto simp: free_at_def dest!: attr_at_ex simp flip: fst_vattr)
  have "x \<notin> set L" using chain_left [OF c, of x] a t by auto
  with a show "\<exists>x \<in> set (v # R). vbase x < e \<and> free x" by auto
qed

lemma free_apart_Cons:
  "free_apart (v # R) \<longleftrightarrow> free_apart R \<and> (free v \<longrightarrow> R = [] \<or> \<not> free (hd R))"
  by (auto simp: free_apart_def successively_Cons)

lemma split_mapped:
  assumes ok: "map_ok (L @ v # R)" and "\<not> free v" "0 < unat off" "unat off < vsize v" "page_aligned off"
  obtains v1 v2 where "SplitVMA (L @ v # R) (length L) off = Some (L @ v1 # v2 # R, Suc (length L))"
    and "map_ok (L @ v1 # v2 # R)" "\<not> free v1" "\<not> free v2"
    and "vbase v1 = vbase v" "vend v1 = vbase v + unat off" "vbase v2 = vbase v + unat off" "vend v2 = vend v"
    and "attr_at (L @ v1 # v2 # R) = attr_at (L @ v # R)"
proof -
  have c: "chain 0 (L @ v # R) MAXA" and a: "area_ok v" using ok by (simp_all add: map_ok_def)
  obtain v1 v2 where s: "SplitVMA (L @ v # R) (length L) off = Some (L @ v1 # v2 # R, Suc (length L))"
    "chain 0 (L @ v1 # v2 # R) MAXA" "area_ok v1" "area_ok v2" "vbase v1 = vbase v" "vsize v1 = unat off"
    "vend v1 = vbase v2" "vend v2 = vend v" "free v1 = free v" "free v2 = free v"
    "attr_at (L @ v1 # v2 # R) = attr_at (L @ v # R)"
    by (rule SplitVMA_spec [OF c order_refl a assms(3-5)])
  moreover have "map_ok (L @ v1 # v2 # R)"
  proof -
    have "free_apart (L @ v1 # v2 # R)"
      using ok assms(2) s(9,10)
      by (simp add: map_ok_def free_apart_split [of L] free_apart_Cons)
    with ok s(2-4) show ?thesis by (auto simp: map_ok_def)
  qed
  ultimately show thesis using assms(2) by (intro that) simp_all
qed

text \<open>
  Carving a mapped range: refused exactly when an address of it is free, and otherwise a map that
  says the same of every address, cut at both ends of the range.
\<close>

definition cut_at :: "VMA list \<Rightarrow> nat \<Rightarrow> nat \<Rightarrow> nat \<Rightarrow> bool" where
  "cut_at vs j t e \<longleftrightarrow> j < length vs \<and> position vs j = t
     \<and> (\<forall>v \<in> set (drop j vs). vbase v < e \<longrightarrow> \<not> free v \<and> vend v \<le> e)"

lemma carve_end:
  assumes ok: "map_ok (L @ u # R)" and mapped: "\<forall>x \<in> set (u # R). vbase x < unat te \<longrightarrow> \<not> free x"
    and u: "vbase u < unat te" and te: "unat te \<le> MAXA" "page_aligned te"
  shows "\<exists>vs2. (let vs1 = L @ u # R; e = FindVMA vs1 te in
      (if e \<noteq> length vs1 \<and> te \<noteq> vma_base (vs1 ! e)
       then map_option fst (SplitVMA vs1 e (te - vma_base (vs1 ! e))) else Some vs1)) = Some vs2
    \<and> map_ok vs2 \<and> attr_at vs2 = attr_at (L @ u # R) \<and> cut_at vs2 (length L) (vbase u) (unat te)"
proof -
  let ?vs1 = "L @ u # R"
  have c: "chain 0 ?vs1 MAXA" using ok by (simp add: map_ok_def)
  show ?thesis
  proof (cases "unat te < MAXA")
    case False
    then have "FindVMA ?vs1 te = length ?vs1" by (intro FindVMA_end) simp
    moreover have "cut_at ?vs1 (length L) (vbase u) (unat te)"
      using mapped False te(1) chain_bounds [OF c] by (auto simp: cut_at_def position_def)
    ultimately show ?thesis using ok by simp
  next
    case True
    obtain L2 x R2 where x: "?vs1 = L2 @ x # R2" "FindVMA ?vs1 te = length L2" "vbase x \<le> unat te" "unat te < vend x"
      by (rule FindVMA_split [OF c True])
    have c2: "chain 0 (L2 @ x # R2) MAXA" using c by (simp only: x(1))
    have later: "x \<notin> set L"
      using chain_left [OF c, of x] u x(4) by auto
    have le: "length L \<le> length L2"
    proof (rule ccontr)
      assume "\<not> length L \<le> length L2"
      then have "length L2 < length L" by simp
      then have "x = L ! length L2" using x(1) by (metis nth_append nth_append_length)
      with \<open>length L2 < length L\<close> later show False by simp
    qed
    have dropL2: "set (drop (length L) L2) \<subseteq> set (u # R)"
    proof -
      have "drop (length L) (L2 @ x # R2) = u # R" unfolding x(1) [symmetric] by simp
      then show ?thesis using le by (metis drop_append set_append Un_upper1)
    qed
    show ?thesis
    proof (cases "te = vma_base x")
      case same: True
      have "vend y \<le> unat te" if "y \<in> set (u # R)" "vbase y < unat te" for y
      proof -
        have "y \<in> set (L2 @ x # R2)" using that(1) x(1) by (metis Un_iff set_append)
        moreover have "y \<notin> set R2" "y \<noteq> x"
          using chain_right [OF c2, of y] x(4) that(2) same by auto
        ultimately show ?thesis using chain_left [OF c2, of y] same by auto
      qed
      then have "cut_at ?vs1 (length L) (vbase u) (unat te)"
        using mapped by (auto simp: cut_at_def position_def)
      moreover have "?vs1 ! FindVMA ?vs1 te = x" unfolding x(2) unfolding x(1) by simp
      ultimately show ?thesis using ok same by (simp add: Let_def)
    next
      case False
      then have below: "vbase x < unat te" using x(3) by (simp add: word_unat_eq_iff)
      have "x \<in> set (u # R)" using later x(1) by (metis Un_iff in_set_conv_decomp set_append)
      then have mx: "\<not> free x" using mapped below by blast
      have off: "unat (te - vma_base x) = unat te - vbase x"
        using x(3) by (simp add: unat_sub word_le_nat_alt)
      have area: "area_ok x" using ok by (simp add: map_ok_def x(1))
      have al: "page_aligned (te - vma_base x)"
        using te(2) area off by (simp add: area_ok_def page_aligned_dvd)
      have bounds: "0 < unat (te - vma_base x)" "unat (te - vma_base x) < vsize x"
        using off below x(4) by simp_all
      have ok2: "map_ok (L2 @ x # R2)" using ok by (simp only: x(1))
      obtain x1 x2 where s: "SplitVMA (L2 @ x # R2) (length L2) (te - vma_base x)
          = Some (L2 @ x1 # x2 # R2, Suc (length L2))"
        "map_ok (L2 @ x1 # x2 # R2)" "\<not> free x1" "\<not> free x2" "vbase x1 = vbase x"
        "vend x1 = vbase x + unat (te - vma_base x)" "vbase x2 = vbase x + unat (te - vma_base x)"
        "vend x2 = vend x" "attr_at (L2 @ x1 # x2 # R2) = attr_at (L2 @ x # R2)"
        by (rule split_mapped [OF ok2 mx bounds al])
      have here: "?vs1 ! FindVMA ?vs1 te = x" "FindVMA ?vs1 te \<noteq> length ?vs1"
        unfolding x(2) unfolding x(1) by simp_all
      have "cut_at (L2 @ x1 # x2 # R2) (length L) (vbase u) (unat te)"
      proof -
        have "position (L2 @ x1 # x2 # R2) (length L) = vbase u"
        proof (cases "length L = length L2")
          case True
          then have "x = u" using x(1) by simp
          with True s(5) show ?thesis by (simp add: position_def)
        next
          case False
          with le have lt: "length L < length L2" by simp
          then have "L2 ! length L = ?vs1 ! length L" unfolding x(1) by (simp add: nth_append)
          with lt show ?thesis by (simp add: position_def nth_append)
        qed
        moreover have "\<not> free y \<and> vend y \<le> unat te"
          if "y \<in> set (drop (length L) (L2 @ x1 # x2 # R2))" "vbase y < unat te" for y
        proof -
          from that(1) le consider "y \<in> set (drop (length L) L2)" | "y = x1" | "y = x2" | "y \<in> set R2"
            by auto
          then show ?thesis
          proof cases
            case 1
            then have "y \<in> set L2" by (rule in_set_dropD)
            with 1 dropL2 mapped that(2) chain_left [OF c2, of y] below show ?thesis by auto
          next
            case 4
            with chain_right [OF c2, of y] x(4) that(2) show ?thesis by auto
          qed (use s(3-8) off below x(3) that(2) in auto)
        qed
        moreover have "length L < length (L2 @ x1 # x2 # R2)" using le by simp
        ultimately show ?thesis unfolding cut_at_def by blast
      qed
      moreover have "FindVMA (L2 @ x # R2) te = length L2" using x(1,2) by simp
      ultimately show ?thesis
        unfolding x(1) using s(1,2,9) False by (simp add: Let_def)
    qed
  qed
qed

lemma CarveVMARange_spec:
  assumes ok: "map_ok vs" and al: "page_aligned target" "page_aligned sz"
    and sz: "0 < unat sz" "unat target + unat sz \<le> MAXA"
  defines "t \<equiv> unat target" and "e \<equiv> unat target + unat sz"
  shows "if \<exists>a. t \<le> a \<and> a < e \<and> free_at vs a
    then CarveVMARange vs target sz = Some (Inl ResultInvalidAddressState, vs)
    else \<exists>j vs2. CarveVMARange vs target sz = Some (Inr j, vs2) \<and> map_ok vs2
      \<and> attr_at vs2 = attr_at vs \<and> cut_at vs2 j t e"
proof -
  have c: "chain 0 vs MAXA" using ok by (simp add: map_ok_def)
  have te: "unat (target + sz) = e" using sz(2) by (simp add: e_def unat_plus_no_wrap_u32)
  have bounds: "t < e" "e \<le> MAXA" "t < MAXA" using sz by (simp_all add: t_def e_def)
  have al_te: "page_aligned (target + sz)"
    using al by (simp add: page_aligned_dvd te e_def)
  have no_abort: "\<not> (\<not> page_aligned sz \<or> \<not> page_aligned target \<or> target + sz < target
      \<or> MAX_ADDRESS < target + sz \<or> sz = 0)"
    using al sz bounds te by (auto simp: word_less_nat_alt MAX_ADDRESS_nat t_def)
  obtain L v R where vs: "vs = L @ v # R" "FindVMA vs target = length L" and v: "vbase v \<le> t" "t < vend v"
    using FindVMA_split [OF c, of target] bounds by (auto simp: t_def)
  have c': "chain 0 (L @ v # R) MAXA" using c by (simp only: vs(1))
  have found: "FindVMA (L @ v # R) target = length L" using vs by simp
  have visits: "(\<exists>x \<in> set (drop (length L) (take (lower_bound (L @ v # R) (target + sz)) (L @ v # R))).
      vma_type x = FreeVMA) \<longleftrightarrow> (\<exists>a. t \<le> a \<and> a < e \<and> free_at vs a)"
    unfolding range_visits [OF c' v, of "target + sz", unfolded te, OF bounds(1)]
    using range_free_iff [OF c' v bounds(1)] by (auto simp: free_def vs(1))
  show ?thesis
  proof (cases "\<exists>a. t \<le> a \<and> a < e \<and> free_at vs a")
    case True
    then show ?thesis
      using no_abort visits unfolding vs(1) by (simp add: CarveVMARange_def Let_def found)
  next
    case False
    have mapped: "\<forall>x \<in> set (v # R). vbase x < e \<longrightarrow> \<not> free x"
      using False range_free_iff [OF c' v bounds(1)] unfolding vs(1) by blast
    have nf: "\<not> free v" using mapped v bounds by auto
    obtain L1 u where first: "(if target \<noteq> vma_base v then SplitVMA vs (length L) (target - vma_base v)
        else Some (vs, length L)) = Some (L1 @ u # R, length L1)"
      and u: "map_ok (L1 @ u # R)" "attr_at (L1 @ u # R) = attr_at vs" "vbase u = t" "\<not> free u"
    proof (cases "target = vma_base v")
      case True
      then show thesis using that [of L v] ok vs(1) nf by (simp add: t_def)
    next
      case False
      have off: "unat (target - vma_base v) = t - vbase v"
        using v(1) by (simp add: t_def unat_sub word_le_nat_alt)
      have "vbase v \<noteq> t" using False by (simp add: t_def word_unat_eq_iff)
      then have b: "0 < unat (target - vma_base v)" "unat (target - vma_base v) < vsize v"
        using off v by simp_all
      have "area_ok v" using ok by (simp add: map_ok_def vs(1))
      then have a: "page_aligned (target - vma_base v)"
        using al(1) off by (simp add: area_ok_def page_aligned_dvd t_def)
      have ok': "map_ok (L @ v # R)" using ok by (simp only: vs(1))
      obtain v1 v2 where "SplitVMA (L @ v # R) (length L) (target - vma_base v)
          = Some (L @ v1 # v2 # R, Suc (length L))"
        "map_ok (L @ v1 # v2 # R)" "\<not> free v2" "vbase v2 = vbase v + unat (target - vma_base v)"
        "attr_at (L @ v1 # v2 # R) = attr_at (L @ v # R)"
        by (rule split_mapped [OF ok' nf b a])
      then show thesis using that [of "L @ [v1]" v2] False off v(1) by (simp add: vs(1))
    qed
    have "\<forall>x \<in> set (u # R). vbase x < unat (target + sz) \<longrightarrow> \<not> free x"
      using mapped u(4) by (simp add: te)
    from carve_end [OF u(1) this] bounds te al_te u(3) obtain vs2 where
      second: "(let vs1 = L1 @ u # R; e = FindVMA vs1 (target + sz) in
        (if e \<noteq> length vs1 \<and> target + sz \<noteq> vma_base (vs1 ! e)
         then map_option fst (SplitVMA vs1 e (target + sz - vma_base (vs1 ! e))) else Some vs1)) = Some vs2"
      and vs2: "map_ok vs2" "attr_at vs2 = attr_at (L1 @ u # R)" "cut_at vs2 (length L1) t e"
      by auto
    have vnth: "vs ! length L = v" by (simp add: vs(1))
    have "CarveVMARange vs target sz = Some (Inr (length L1), vs2)"
      unfolding CarveVMARange_def Let_def if_not_P [OF no_abort] vs(2) vnth first
      using False visits second by (simp add: Let_def vs(1) [symmetric])
    with vs2 u(2) False show ?thesis by auto
  qed
qed

section \<open>The range operations\<close>

definition free_attributes :: attr where
  "free_attributes = (FreeVMA, PermNone, MSFree, None)"

definition with_state :: "MemoryState \<Rightarrow> u8 \<Rightarrow> attr \<Rightarrow> attr" where
  "with_state state perms = (\<lambda>(type, _, _, o'). (type, perms, state, o'))"

definition with_perms :: "u8 \<Rightarrow> attr \<Rightarrow> attr" where
  "with_perms perms = (\<lambda>(type, _, state, o'). (type, perms, state, o'))"

lemma change_free: "change_ok (\<lambda>v. \<not> free v) free_area (\<lambda>_. free_attributes)"
  by (auto simp: change_ok_def free_area_def area_ok_def vattr_def free_def free_attributes_def)

lemma change_state: "change_ok (\<lambda>v. \<not> free v) (set_state state perms) (with_state state perms)"
  by (auto simp: change_ok_def set_state_def with_state_def area_ok_def vattr_def free_def
      split: VMAType.splits prod.split)

lemma change_perms: "change_ok (\<lambda>v. \<not> free v) (\<lambda>v. v\<lparr>vma_perms := perms\<rparr>) (with_perms perms)"
  by (auto simp: change_ok_def with_perms_def area_ok_def vattr_def free_def
      split: VMAType.splits prod.split)

lemma range_op:
  assumes f: "change_ok (\<lambda>v. \<not> free v) f fa" and ok: "map_ok vs2" and cut: "cut_at vs2 j t (unat te)"
    and te: "unat te \<le> MAXA"
  shows "\<exists>vm'. range_loop D f te (vm\<lparr>vma_map := vs2\<rparr>) j = Some vm' \<and> map_ok (vma_map vm')
    \<and> is_locked vm' = is_locked vm
    \<and> (\<forall>a. attr_at (vma_map vm') a
          = (if t \<le> a \<and> a < unat te then map_option fa (attr_at vs2 a) else attr_at vs2 a))"
  using range_loop_spec [OF f te, of "vm\<lparr>vma_map := vs2\<rparr>" j D] ok cut
  unfolding cut_at_def by (simp cong: if_cong)

text \<open>The space after an operation on a range: \<open>fa\<close> inside, the old map outside.\<close>

definition range_updated :: "(attr \<Rightarrow> attr) \<Rightarrow> u32 \<Rightarrow> u32 \<Rightarrow> VMA list \<Rightarrow> VMA list \<Rightarrow> bool" where
  "range_updated fa target sz vs vs' \<longleftrightarrow> (\<forall>a. attr_at vs' a =
     (if unat target \<le> a \<and> a < unat target + unat sz then map_option fa (attr_at vs a) else attr_at vs a))"

definition range_has_free :: "u32 \<Rightarrow> u32 \<Rightarrow> VMA list \<Rightarrow> bool" where
  "range_has_free target sz vs \<longleftrightarrow>
     (\<exists>a. unat target \<le> a \<and> a < unat target + unat sz \<and> free_at vs a)"

lemma free_run_one_area:
  assumes ok: "map_ok (L @ v # R)" and t: "vbase v \<le> t" "t < vend v"
    and run: "\<forall>a. t \<le> a \<and> a < e \<longrightarrow> free_at (L @ v # R) a" and e: "t < e" "e \<le> MAXA"
  shows "e \<le> vend v"
proof (rule ccontr)
  assume "\<not> e \<le> vend v"
  then have ve: "vend v < e" by simp
  have c: "chain 0 (L @ v # R) MAXA" using ok by (simp add: map_ok_def)
  have fv: "free v"
    using run e(1) free_at_area [OF attr_at_here [OF c t]] by blast
  have "chain (vend v) R MAXA" using c by (auto simp: chain_append)
  then obtain w R1 where R: "R = w # R1" "vbase w = vend v" "0 < vsize w"
    using ve e(2) by (cases R) auto
  have "attr_at (L @ v # R) (vbase w) = Some (vattr w)"
    using R by (intro attr_at_member [OF c]) auto
  moreover have "free_at (L @ v # R) (vbase w)" using run R ve t by auto
  ultimately have "free w" using free_at_area by blast
  with ok fv show False by (simp add: map_ok_def free_apart_split R)
qed

lemma UnmapRange_spec:
  assumes "map_ok (vma_map vm)" "\<not> is_locked vm" "page_aligned target" "page_aligned sz"
    and "0 < unat sz" "unat target + unat sz \<le> MAXA"
  shows "if range_has_free target sz (vma_map vm)
    then UnmapRange D vm target sz = Some (Some ResultInvalidAddressState, vm)
    else \<exists>vm'. UnmapRange D vm target sz = Some (None, vm') \<and> map_ok (vma_map vm') \<and> is_locked vm' = is_locked vm
      \<and> range_updated (\<lambda>_. free_attributes) target sz (vma_map vm) (vma_map vm')"
proof -
  have te: "unat (target + sz) = unat target + unat sz" using assms(6) by (simp add: unat_plus_no_wrap_u32)
  note carve = CarveVMARange_spec [OF assms(1,3-6)]
  show ?thesis
  proof (cases "range_has_free target sz (vma_map vm)")
    case True
    with carve assms(2) show ?thesis by (simp add: UnmapRange_def range_has_free_def)
  next
    case False
    with carve obtain j vs2 where s: "CarveVMARange (vma_map vm) target sz = Some (Inr j, vs2)" "map_ok vs2"
      "attr_at vs2 = attr_at (vma_map vm)" "cut_at vs2 j (unat target) (unat (target + sz))"
      by (auto simp: range_has_free_def te split: if_splits)
    from range_op [OF change_free s(2,4), of D vm] te assms(6) obtain vm' where
      l: "range_loop D free_area (target + sz) (vm\<lparr>vma_map := vs2\<rparr>) j = Some vm'" "map_ok (vma_map vm')" "is_locked vm' = is_locked vm"
      and attr: "\<forall>a. attr_at (vma_map vm') a = (if unat target \<le> a \<and> a < unat target + unat sz
        then map_option (\<lambda>_. free_attributes) (attr_at vs2 a) else attr_at vs2 a)" by auto
    have c: "chain 0 (vma_map vm') MAXA" "chain 0 (vma_map vm) MAXA" using l(2) assms(1) by (simp_all add: map_ok_def)
    obtain L v R where v: "vma_map vm' = L @ v # R" "FindVMA (vma_map vm') target = length L"
      "vbase v \<le> unat target" "unat target < vend v"
      using FindVMA_split [OF c(1), of target] assms(5,6) by auto
    have "free_at (L @ v # R) a" if "unat target \<le> a \<and> a < unat target + unat sz" for a
      using attr that attr_at_inside [OF c(2), of a] assms(6)
      by (auto simp: free_at_def s(3) free_attributes_def simp flip: v(1))
    then have "unat target + unat sz \<le> vend v"
      using free_run_one_area [of L v R "unat target" "unat target + unat sz"] l(2) v assms(5,6) by auto
    then have "\<not> vma_size v < sz" using v(3) by (simp add: word_less_nat_alt)
    moreover have "vma_map vm' ! FindVMA (vma_map vm') target = v" unfolding v(2) unfolding v(1) by simp
    ultimately have "UnmapRange D vm target sz = Some (None, vm')"
      using assms(2) s(1) l(1) by (simp add: UnmapRange_def)
    with False l(2,3) attr s(3) show ?thesis by (simp add: range_updated_def)
  qed
qed

text \<open>
  C11: unmapping a page-aligned range inside the managed space either is refused, with the map as it
  was, because some address of the range is not mapped, or makes exactly the addresses of the range
  free. It keeps the invariant of the map (areas cover the space without gap or overlap, free areas
  are merged), and none of its assertions fails, the last one on the merged area included.
\<close>

theorem UnmapRange_refines:
  assumes "map_ok (vma_map vm)" "\<not> is_locked vm" "page_aligned target" "page_aligned sz"
    and "0 < unat sz" "unat target + unat sz \<le> MAXA"
  shows "if range_has_free target sz (vma_map vm)
    then UnmapRange D vm target sz = Some (Some ResultInvalidAddressState, vm)
    else \<exists>vm'. UnmapRange D vm target sz = Some (None, vm') \<and> map_ok (vma_map vm')
      \<and> range_updated (\<lambda>_. free_attributes) target sz (vma_map vm) (vma_map vm')"
  using UnmapRange_spec [OF assms, of D] by (auto split: if_splits)

lemma ReprotectRange_refines:
  assumes "map_ok (vma_map vm)" "\<not> is_locked vm" "page_aligned target" "page_aligned sz"
    and "0 < unat sz" "unat target + unat sz \<le> MAXA"
  shows "if range_has_free target sz (vma_map vm)
    then ReprotectRange D vm target sz perms = Some (Some ResultInvalidAddressState, vm)
    else \<exists>vm'. ReprotectRange D vm target sz perms = Some (None, vm') \<and> map_ok (vma_map vm')
      \<and> range_updated (with_perms perms) target sz (vma_map vm) (vma_map vm')"
proof -
  have te: "unat (target + sz) = unat target + unat sz" using assms(6) by (simp add: unat_plus_no_wrap_u32)
  note carve = CarveVMARange_spec [OF assms(1,3-6)]
  show ?thesis
  proof (cases "range_has_free target sz (vma_map vm)")
    case True
    with carve assms(2) show ?thesis by (simp add: ReprotectRange_def range_has_free_def)
  next
    case False
    with carve obtain j vs2 where s: "CarveVMARange (vma_map vm) target sz = Some (Inr j, vs2)" "map_ok vs2"
      "attr_at vs2 = attr_at (vma_map vm)" "cut_at vs2 j (unat target) (unat (target + sz))"
      by (auto simp: range_has_free_def te split: if_splits)
    from range_op [OF change_perms s(2,4), of D perms vm] te assms(6) s(1,3) False assms(2)
    show ?thesis by (auto simp: ReprotectRange_def range_updated_def)
  qed
qed

text \<open>The check of the expected state and permissions, address by address.\<close>

definition range_expected :: "u32 \<Rightarrow> u32 \<Rightarrow> MemoryState \<Rightarrow> u8 \<Rightarrow> VMA list \<Rightarrow> bool" where
  "range_expected target sz state perms vs \<longleftrightarrow>
     (\<forall>a ty p st o'. unat target \<le> a \<and> a < unat target + unat sz \<and> attr_at vs a = Some (ty, p, st, o')
        \<longrightarrow> st = state \<and> p AND perms = perms)"

lemma range_areas_iff:
  assumes c: "chain 0 (L @ v # R) MAXA" and t: "vbase v \<le> t" "t < vend v" and te: "t < e"
  shows "(\<exists>x \<in> set (v # R). vbase x < e \<and> Q (vattr x))
    \<longleftrightarrow> (\<exists>a r. t \<le> a \<and> a < e \<and> attr_at (L @ v # R) a = Some r \<and> Q r)"
proof
  assume "\<exists>x \<in> set (v # R). vbase x < e \<and> Q (vattr x)"
  then obtain x where x: "x \<in> set (v # R)" "vbase x < e" "Q (vattr x)" by blast
  have "t < vend x"
    using x(1) t chain_right [OF c, of x] by auto
  moreover have "0 < vsize x" using chain_bounds [OF c, of x] x(1) by auto
  ultimately have "attr_at (L @ v # R) (max t (vbase x)) = Some (vattr x)"
    using x(1) by (intro attr_at_member [OF c]) auto
  moreover have "t \<le> max t (vbase x)" "max t (vbase x) < e" using te x(2) by simp_all
  ultimately show "\<exists>a r. t \<le> a \<and> a < e \<and> attr_at (L @ v # R) a = Some r \<and> Q r" using x(3) by blast
next
  assume "\<exists>a r. t \<le> a \<and> a < e \<and> attr_at (L @ v # R) a = Some r \<and> Q r"
  then obtain a x where a: "t \<le> a" "a < e" "x \<in> set (L @ v # R)" "vbase x \<le> a" "a < vend x" "Q (vattr x)"
    using attr_at_ex by metis
  have "x \<notin> set L" using chain_left [OF c, of x] a t by auto
  with a show "\<exists>x \<in> set (v # R). vbase x < e \<and> Q (vattr x)" by auto
qed

lemma ChangeMemoryState_unlocked:
  assumes "map_ok (vma_map vm)" "0 < unat sz" "unat target + unat sz \<le> MAXA" and unlocked: "\<not> is_locked vm"
  shows "ChangeMemoryState D vm target sz st p st' p' =
      (if \<not> range_expected target sz st p (vma_map vm) then Some (Some ResultInvalidAddressState, vm)
       else do {
         (r, vs1) \<leftarrow> CarveVMARange (vma_map vm) target sz;
         case r of
           Inl e \<Rightarrow> Some (Some e, vm\<lparr>vma_map := vs1\<rparr>)
         | Inr j \<Rightarrow> do {
             vm1 \<leftarrow> range_loop D (set_state st' p') (target + sz) (vm\<lparr>vma_map := vs1\<rparr>) j;
             Some (None, vm1) } })"
proof -
  let ?vs = "vma_map vm"
  have te: "unat (target + sz) = unat target + unat sz" using assms(3) by (simp add: unat_plus_no_wrap_u32)
  have c: "chain 0 ?vs MAXA" using assms(1) by (simp add: map_ok_def)
  obtain L v R where v: "?vs = L @ v # R" "FindVMA ?vs target = length L"
    "vbase v \<le> unat target" "unat target < vend v"
    using FindVMA_split [OF c, of target] assms(2,3) by auto
  have c': "chain 0 (L @ v # R) MAXA" using c by (simp only: v(1))
  have lt: "unat target < unat (target + sz)" using assms(2) by (simp add: te)
  define bad where "bad = (\<lambda>x :: attr. fst (snd (snd x)) \<noteq> st \<or> fst (snd x) AND p \<noteq> p)"
  have bad: "bad (vattr x) \<longleftrightarrow> vma_state x \<noteq> st \<or> vma_perms x AND p \<noteq> p" for x
    by (simp add: bad_def vattr_def)
  have "(\<exists>x \<in> set (drop (length L) (take (lower_bound (L @ v # R) (target + sz)) (L @ v # R))).
      vma_state x \<noteq> st \<or> vma_perms x AND p \<noteq> p)
    \<longleftrightarrow> (\<exists>x \<in> set (v # R). vbase x < unat (target + sz) \<and> bad (vattr x))"
    unfolding range_visits [OF c' v(3,4) lt] bad by blast
  also have "\<dots> \<longleftrightarrow> (\<exists>a r. unat target \<le> a \<and> a < unat (target + sz) \<and> attr_at (L @ v # R) a = Some r \<and> bad r)"
    by (rule range_areas_iff [OF c' v(3,4) lt])
  also have "\<dots> \<longleftrightarrow> \<not> range_expected target sz st p ?vs"
    unfolding te range_expected_def v(1) bad_def by auto
  finally have check: "(\<exists>x \<in> set (drop (FindVMA ?vs target) (take (lower_bound ?vs (target + sz)) ?vs)).
      vma_state x \<noteq> st \<or> vma_perms x AND p \<noteq> p) \<longleftrightarrow> \<not> range_expected target sz st p ?vs"
    unfolding v(2) unfolding v(1) .
  have found: "FindVMA ?vs target \<noteq> length ?vs" unfolding v(2) unfolding v(1) by simp
  show ?thesis
    unfolding ChangeMemoryState_def Let_def check using unlocked found by (simp only: if_False)
qed

lemma ChangeMemoryState_spec:
  assumes "map_ok (vma_map vm)" "page_aligned target" "page_aligned sz"
    and "0 < unat sz" "unat target + unat sz \<le> MAXA"
  shows "if is_locked vm then ChangeMemoryState D vm target sz st p st' p' = Some (None, vm)
    else if range_has_free target sz (vma_map vm) \<or> \<not> range_expected target sz st p (vma_map vm)
    then ChangeMemoryState D vm target sz st p st' p' = Some (Some ResultInvalidAddressState, vm)
    else \<exists>vm'. ChangeMemoryState D vm target sz st p st' p' = Some (None, vm') \<and> map_ok (vma_map vm') \<and> is_locked vm' = is_locked vm
      \<and> range_updated (with_state st' p') target sz (vma_map vm) (vma_map vm')"
proof (cases "is_locked vm")
  case True
  then show ?thesis by (simp add: ChangeMemoryState_def)
next
  case unlocked: False
  let ?vs = "vma_map vm"
  have te: "unat (target + sz) = unat target + unat sz" using assms(5) by (simp add: unat_plus_no_wrap_u32)
  note body = ChangeMemoryState_unlocked [OF assms(1,4,5) unlocked]
  note carve = CarveVMARange_spec [OF assms]
  show ?thesis
  proof (cases "range_has_free target sz ?vs \<or> \<not> range_expected target sz st p ?vs")
    case True
    then have "ChangeMemoryState D vm target sz st p st' p' = Some (Some ResultInvalidAddressState, vm)"
      using carve by (cases "range_expected target sz st p ?vs") (simp_all add: body range_has_free_def)
    with True unlocked show ?thesis by simp
  next
    case False
    with carve obtain j vs2 where s: "CarveVMARange ?vs target sz = Some (Inr j, vs2)" "map_ok vs2"
      "attr_at vs2 = attr_at ?vs" "cut_at vs2 j (unat target) (unat (target + sz))"
      by (auto simp: range_has_free_def te split: if_splits)
    from range_op [OF change_state s(2,4), of D st' p' vm] te assms(5) obtain vm' where
      l: "range_loop D (set_state st' p') (target + sz) (vm\<lparr>vma_map := vs2\<rparr>) j = Some vm'" "map_ok (vma_map vm')" "is_locked vm' = is_locked vm"
      and attr: "range_updated (with_state st' p') target sz ?vs (vma_map vm')"
      by (auto simp: range_updated_def s(3))
    have "ChangeMemoryState D vm target sz st p st' p' = Some (None, vm')"
      using False by (simp add: body s(1) l(1))
    with unlocked False l(2,3) attr show ?thesis by simp
  qed
qed

text \<open>
  C12: changing the state and permissions of a page-aligned range: the call is ignored while the
  manager is locked; it is refused, with the map as it was, exactly when some address of the range
  is free or does not have the expected state and permissions; otherwise exactly the addresses of
  the range get the new ones and keep what backs them. The invariant is kept, and nothing asserts.
\<close>

theorem ChangeMemoryState_refines:
  assumes "map_ok (vma_map vm)" "page_aligned target" "page_aligned sz"
    and "0 < unat sz" "unat target + unat sz \<le> MAXA"
  shows "if is_locked vm then ChangeMemoryState D vm target sz st p st' p' = Some (None, vm)
    else if range_has_free target sz (vma_map vm) \<or> \<not> range_expected target sz st p (vma_map vm)
    then ChangeMemoryState D vm target sz st p st' p' = Some (Some ResultInvalidAddressState, vm)
    else \<exists>vm'. ChangeMemoryState D vm target sz st p st' p' = Some (None, vm') \<and> map_ok (vma_map vm')
      \<and> range_updated (with_state st' p') target sz (vma_map vm) (vma_map vm')"
  using ChangeMemoryState_spec [OF assms, of D st p st' p'] by (auto split: if_splits)

section \<open>Mapping\<close>

definition mapped_attributes :: "nat \<Rightarrow> MemoryRef \<Rightarrow> MemoryState \<Rightarrow> attr" where
  "mapped_attributes t memory state =
     (BackingMemoryVMA, PermReadWrite, state, map_option (origin t) memory)"

lemma change_map:
  assumes "memory \<noteq> None" "n \<le> ref_size memory"
  shows "change_ok (\<lambda>v. vbase v = t \<and> vsize v = n) (map_area memory state) (\<lambda>_. mapped_attributes t memory state)"
  using assms
  by (auto simp: change_ok_def map_area_def area_ok_def vattr_def mapped_attributes_def free_def)

lemma CarveVMA_free:
  assumes ok: "map_ok vs" and al: "page_aligned target" "page_aligned sz"
    and sz: "0 < unat sz" "unat target + unat sz \<le> MAXA"
    and run: "\<forall>a. unat target \<le> a \<and> a < unat target + unat sz \<longrightarrow> free_at vs a"
  obtains L y R where "CarveVMA vs target sz = Some (Inr (length L), L @ y # R)"
    and "chain 0 (L @ y # R) MAXA" "\<forall>x \<in> set (L @ y # R). area_ok x" "free_apart L" "free_apart R"
    and "vbase y = unat target" "vsize y = unat sz" "attr_at (L @ y # R) = attr_at vs"
proof -
  have c: "chain 0 vs MAXA" using ok by (simp add: map_ok_def)
  obtain L v R where v: "vs = L @ v # R" "FindVMA vs target = length L" "vbase v \<le> unat target" "unat target < vend v"
    using FindVMA_split [OF c, of target] sz by auto
  have c': "chain 0 (L @ v # R) MAXA" and ok': "map_ok (L @ v # R)" using c ok by (simp_all only: v(1))
  have fv: "free v"
    using run sz(1) free_at_area [OF attr_at_here [OF c' v(3,4)]] by (simp add: v(1))
  have cover: "unat target + unat sz \<le> vend v"
    using free_run_one_area [OF ok' v(3,4) _ _ sz(2)] run sz(1) by (simp add: v(1))
  have area: "area_ok v" and areas: "\<forall>x \<in> set L \<union> set R. area_ok x" and aparts: "free_apart L" "free_apart R"
    "L = [] \<or> \<not> free (last L)" "R = [] \<or> \<not> free (hd R)"
    using ok' fv by (auto simp: map_ok_def free_apart_split)
  let ?start = "target - vma_base v" and ?fin = "target - vma_base v + sz"
  have start: "unat ?start = unat target - vbase v" using v(3) by (simp add: unat_sub word_le_nat_alt)
  have stop: "unat ?fin = unat target - vbase v + unat sz"
    using sz(2) start by (simp add: unat_plus_no_wrap_u32)
  have al': "page_aligned ?start" "page_aligned ?fin"
    using al area start stop by (simp_all add: area_ok_def page_aligned_dvd)
  have fits: "\<not> vma_size v < ?fin" using cover stop v(3) by (simp add: word_less_nat_alt)
  obtain v1 R1 where first: "(if ?fin \<noteq> vma_size v then map_option fst (SplitVMA (L @ v # R) (length L) ?fin)
      else Some (L @ v # R)) = Some (L @ v1 # R1)"
    and v1: "chain 0 (L @ v1 # R1) MAXA" "\<forall>x \<in> set (L @ v1 # R1). area_ok x" "vbase v1 = vbase v"
      "vsize v1 = unat ?fin" "free v1" "free_apart R1" "attr_at (L @ v1 # R1) = attr_at vs"
  proof (cases "?fin = vma_size v")
    case True
    then show thesis
      using that [of v R] c' area areas fv aparts v(1) by simp
  next
    case False
    then have "unat ?fin < vsize v" using fits by (simp add: word_less_nat_alt word_unat_eq_iff)
    then obtain v1 v2 where s: "SplitVMA (L @ v # R) (length L) ?fin = Some (L @ v1 # v2 # R, Suc (length L))"
      "chain 0 (L @ v1 # v2 # R) MAXA" "area_ok v1" "area_ok v2" "vbase v1 = vbase v" "vsize v1 = unat ?fin"
      "free v1 = free v" "free v2 = free v" "attr_at (L @ v1 # v2 # R) = attr_at (L @ v # R)"
      using SplitVMA_spec [OF c' order_refl area _ _ al'(2)] stop sz(1) by (metis add_gr_0)
    then show thesis
      using that [of v1 "v2 # R"] False areas fv aparts by (simp add: v(1) free_apart_Cons)
  qed
  obtain L2 y where second: "(if ?start \<noteq> 0 then SplitVMA (L @ v1 # R1) (length L) ?start
      else Some (L @ v1 # R1, length L)) = Some (L2 @ y # R1, length L2)"
    and y: "chain 0 (L2 @ y # R1) MAXA" "\<forall>x \<in> set (L2 @ y # R1). area_ok x" "vbase y = unat target"
      "vsize y = unat sz" "free_apart L2" "attr_at (L2 @ y # R1) = attr_at vs"
  proof (cases "?start = 0")
    case True
    then have "unat target = vbase v" using start v(3) by simp
    then show thesis using that [of L v1] True v1 aparts(1) stop by simp
  next
    case False
    then have pos: "0 < unat ?start" by (simp add: unat_gt_0)
    have "unat ?start < vsize v1" using v1(4) start stop sz(1) by simp
    moreover have "area_ok v1" using v1(2) by simp
    ultimately obtain w1 w2 where s: "SplitVMA (L @ v1 # R1) (length L) ?start = Some (L @ w1 # w2 # R1, Suc (length L))"
      "chain 0 (L @ w1 # w2 # R1) MAXA" "area_ok w1" "area_ok w2" "vbase w1 = vbase v1" "vsize w1 = unat ?start"
      "vend w1 = vbase w2" "vend w2 = vend v1" "free w1 = free v1"
      "attr_at (L @ w1 # w2 # R1) = attr_at (L @ v1 # R1)"
      using SplitVMA_spec [OF v1(1) order_refl _ pos _ al'(1)] by metis
    have "vbase w2 = unat target" using s(5-7) v1(3) start v(3) by simp
    moreover from this have "vsize w2 = unat sz" using s(8) v1(3,4) stop v(3) by simp
    moreover have "free_apart (L @ [w1])" using aparts
      by (auto simp: free_apart_def successively_append_iff)
    ultimately show thesis using that [of "L @ [w1]" w2] False s v1 by simp
  qed
  have found: "FindVMA (L @ v # R) target = length L" using v(1,2) by simp
  have no: "(\<not> page_aligned sz \<or> \<not> page_aligned target) = False" "(length L = length (L @ v # R)) = False"
    "(vma_type v \<noteq> FreeVMA) = False" "(vma_size v < ?fin) = False"
    using al fv fits by (simp_all add: free_def)
  have "CarveVMA vs target sz = Some (Inr (length L2), L2 @ y # R1)"
    unfolding CarveVMA_def Let_def v(1) found nth_append_length no if_False first bind.bind_lunit second prod.case
    by (rule refl)
  with y v1(6) that show thesis by blast
qed

text \<open>
  Mapping a free range, with the area it ends up in: the range itself, or more when a neighbour has
  the same attributes.
\<close>

lemma MapBackingMemory_area:
  assumes "map_ok (vma_map vm)" "\<not> is_locked vm" "page_aligned target" "page_aligned sz"
    and "0 < unat sz" "unat target + unat sz \<le> MAXA"
    and "memory \<noteq> None" "unat sz \<le> ref_size memory"
    and run: "\<forall>a. unat target \<le> a \<and> a < unat target + unat sz \<longrightarrow> free_at (vma_map vm) a"
  obtains vm' L' w R' where "MapBackingMemory D vm target memory sz state = Some (Inr (length L'), vm')"
    and "vma_map vm' = L' @ w # R'" and "map_ok (vma_map vm')" and "is_locked vm' = is_locked vm"
    and "range_updated (\<lambda>_. mapped_attributes (unat target) memory state) target sz (vma_map vm) (vma_map vm')"
    and "vattr w = mapped_attributes (unat target) memory state" and "vbase w \<le> unat target"
    and "unat target + unat sz \<le> vend w"
    and "0 < unat target \<Longrightarrow> attr_at (vma_map vm) (unat target - 1) = Some (mapped_attributes (unat target) memory state)
      \<Longrightarrow> vbase w < unat target"
proof -
  obtain L y R where cv: "CarveVMA (vma_map vm) target sz = Some (Inr (length L), L @ y # R)"
    and c: "chain 0 (L @ y # R) MAXA" and areas: "\<forall>x \<in> set (L @ y # R). area_ok x"
    and aparts: "free_apart L" "free_apart R"
    and y: "vbase y = unat target" "vsize y = unat sz" "attr_at (L @ y # R) = attr_at (vma_map vm)"
    by (rule CarveVMA_free [OF assms(1,3-6) run])
  let ?vm = "vm\<lparr>vma_map := L @ y # R\<rparr>"
  note f = change_map [OF assms(7,8), of "unat target" state]
  have "\<not> free (map_area memory state y)" by (simp add: map_area_def free_def)
  then have fapart: "free (map_area memory state y) \<or> free_apart (L @ map_area memory state y # R)"
    using aparts by (simp add: free_apart_split)
  have py: "vbase y = unat target \<and> vsize y = unat sz" using y by simp
  have vmap: "vma_map ?vm = L @ y # R" by simp
  obtain vm' L' w R' where u: "update_vma D (map_area memory state) ?vm (length L) = Some (vm', length L')"
    and vs': "vma_map vm' = L' @ w # R'" and ok: "map_ok (vma_map vm')" "is_locked vm' = is_locked ?vm"
    and w: "vattr w = mapped_attributes (unat target) memory state" "vbase w \<le> vbase y" "vend y \<le> vend w"
    and below: "L \<noteq> [] \<Longrightarrow> vattr (last L) = mapped_attributes (unat target) memory state \<Longrightarrow> vbase w \<le> vbase (last L)"
    and attr: "\<And>a. attr_at (vma_map vm') a
      = (if vbase y \<le> a \<and> a < vend y then Some (mapped_attributes (unat target) memory state)
         else attr_at (L @ y # R) a)"
    by (rule update_vma_step [OF vmap c areas f py aparts fapart, of D]) (unfold vmap, blast)
  have c0: "chain 0 (vma_map vm) MAXA" using assms(1) by (simp add: map_ok_def)
  have updated: "range_updated (\<lambda>_. mapped_attributes (unat target) memory state) target sz (vma_map vm) (vma_map vm')"
  proof -
    have const: "map_option (\<lambda>_. mapped_attributes (unat target) memory state) (attr_at (vma_map vm) a)
        = Some (mapped_attributes (unat target) memory state)"
      if "a < unat target + unat sz" for a
      using attr_at_inside [OF c0, of a] assms(6) that by (cases "attr_at (vma_map vm) a") simp_all
    show ?thesis
      unfolding range_updated_def attr y by (simp add: const)
  qed
  have "vma_size y = sz" using y(2) by (simp add: word_unat_eq_iff)
  then have "MapBackingMemory D vm target memory sz state = Some (Inr (length L'), vm')"
    using assms(2,7) cv u by (simp add: MapBackingMemory_def)
  moreover have "vbase w < unat target" if "0 < unat target"
    and at: "attr_at (vma_map vm) (unat target - 1) = Some (mapped_attributes (unat target) memory state)"
  proof -
    have "L \<noteq> []" using c that(1) y(1) by (cases L) auto
    then have L: "L = butlast L @ [last L]" by simp
    have cl: "chain 0 (butlast L @ last L # (y # R)) MAXA" using c by (subst (asm) L) simp
    then have e: "vend (last L) = vbase y" "0 < vsize (last L)" by (auto simp: chain_append)
    have "attr_at (butlast L @ last L # (y # R)) (unat target - 1) = Some (vattr (last L))"
      using e y(1) by (intro attr_at_here [OF cl]) auto
    then have "vattr (last L) = mapped_attributes (unat target) memory state"
      using at y(3) L by (metis append.assoc append_Cons append_Nil option.inject)
    from below [OF \<open>L \<noteq> []\<close> this] e y(1) show ?thesis by simp
  qed
  ultimately show thesis using that [of L' vm' w R'] vs' ok updated w y by simp
qed

lemma MapBackingMemory_spec:
  assumes "map_ok (vma_map vm)" "\<not> is_locked vm" "page_aligned target" "page_aligned sz"
    and "0 < unat sz" "unat target + unat sz \<le> MAXA"
    and "memory \<noteq> None" "unat sz \<le> ref_size memory"
  shows "if \<forall>a. unat target \<le> a \<and> a < unat target + unat sz \<longrightarrow> free_at (vma_map vm) a
    then \<exists>i vm'. MapBackingMemory D vm target memory sz state = Some (Inr i, vm') \<and> map_ok (vma_map vm')
      \<and> range_updated (\<lambda>_. mapped_attributes (unat target) memory state) target sz (vma_map vm) (vma_map vm')
    else MapBackingMemory D vm target memory sz state = Some (Inl ResultInvalidAddressState, vm)"
proof (cases "\<forall>a. unat target \<le> a \<and> a < unat target + unat sz \<longrightarrow> free_at (vma_map vm) a")
  case True
  obtain vm' L' w R' where "MapBackingMemory D vm target memory sz state = Some (Inr (length L'), vm')"
    "vma_map vm' = L' @ w # R'" "map_ok (vma_map vm')" "is_locked vm' = is_locked vm"
    "range_updated (\<lambda>_. mapped_attributes (unat target) memory state) target sz (vma_map vm) (vma_map vm')"
    by (rule MapBackingMemory_area [OF assms True, of D state])
  with True show ?thesis by auto
next
  case False
  let ?vs = "vma_map vm"
  have c: "chain 0 ?vs MAXA" using assms(1) by (simp add: map_ok_def)
  obtain L v R where v: "?vs = L @ v # R" "FindVMA ?vs target = length L"
    "vbase v \<le> unat target" "unat target < vend v"
    using FindVMA_split [OF c, of target] assms(5,6) by auto
  have c': "chain 0 (L @ v # R) MAXA" using c by (simp only: v(1))
  have "vma_size v < target - vma_base v + sz" if "free v"
  proof -
    have "\<not> unat target + unat sz \<le> vend v"
    proof
      assume inside: "unat target + unat sz \<le> vend v"
      have "free_at ?vs a" if "unat target \<le> a \<and> a < unat target + unat sz" for a
        using free_at_area [OF attr_at_here [OF c', of a]] inside that \<open>free v\<close> v(3) by (simp add: v(1))
      with False show False by blast
    qed
    moreover have "unat (target - vma_base v) = unat target - vbase v"
      using v(3) by (simp add: unat_sub word_le_nat_alt)
    ultimately show ?thesis
      using assms(6) v(3) by (simp add: word_less_nat_alt unat_plus_no_wrap_u32)
  qed
  then have "CarveVMA ?vs target sz = Some (Inl ResultInvalidAddressState, ?vs)"
    using assms(3,4) unfolding CarveVMA_def Let_def v(2)
    by (simp add: v(1) free_def)
  moreover have "vm\<lparr>vma_map := ?vs\<rparr> = vm" by simp
  ultimately have "MapBackingMemory D vm target memory sz state = Some (Inl ResultInvalidAddressState, vm)"
    using assms(2,7) by (simp add: MapBackingMemory_def)
  with False show ?thesis by (simp only: if_False)
qed

text \<open>
  C13: mapping memory at an address succeeds exactly when every address of the range is free - the
  manager never refuses a free range because it is spread over several areas - and then the range,
  and nothing else, shows the given memory. The invariant is kept and nothing asserts.
\<close>

theorem MapBackingMemory_refines:
  assumes "map_ok (vma_map vm)" "\<not> is_locked vm" "page_aligned target" "page_aligned sz"
    and "0 < unat sz" "unat target + unat sz \<le> MAXA"
    and "memory \<noteq> None" "unat sz \<le> ref_size memory"
  shows "if \<forall>a. unat target \<le> a \<and> a < unat target + unat sz \<longrightarrow> free_at (vma_map vm) a
    then \<exists>i vm'. MapBackingMemory D vm target memory sz state = Some (Inr i, vm') \<and> map_ok (vma_map vm')
      \<and> range_updated (\<lambda>_. mapped_attributes (unat target) memory state) target sz (vma_map vm) (vma_map vm')
    else MapBackingMemory D vm target memory sz state = Some (Inl ResultInvalidAddressState, vm)"
  by (rule MapBackingMemory_spec [OF assms])

section \<open>Examples and two faults\<close>

text \<open>
  A space with two mapped pages at 0x1000, the second one writable, and a hole of one page between
  two mapped ones.
\<close>

definition sample_area :: "u32 \<Rightarrow> u32 \<Rightarrow> u8 \<Rightarrow> VMA" where
  "sample_area base sz perms = \<lparr>vma_base = base, vma_size = sz, vma_type = BackingMemoryVMA,
     vma_perms = perms, vma_state = MSPrivate, vma_backing = Some (RegionMem FCRAM, unat base)\<rparr>"

definition free_space :: "u32 \<Rightarrow> u32 \<Rightarrow> VMA" where
  "free_space base sz = VMA_init\<lparr>vma_base := base, vma_size := sz\<rparr>"

definition sample_vm :: "VMA list \<Rightarrow> VM" where
  "sample_vm vs = \<lparr>vma_map = vs, vm_table = 0, is_locked = False, vm_memory = empty_memory, vm_notified = 0\<rparr>"

definition two_areas :: "VMA list" where
  "two_areas = [free_space 0 0x1000, sample_area 0x1000 0x1000 1, sample_area 0x2000 0x2000 3,
     free_space 0x4000 0x3FFFC000]"

definition holed :: "VMA list" where
  "holed = [sample_area 0 0x1000 3, free_space 0x1000 0x1000, sample_area 0x2000 0x1000 3,
     free_space 0x3000 0x3FFFD000]"

lemmas sample_defs = sample_area_def free_space_def VMA_init_def PermNone_def PermReadWrite_def

lemma sample_ok: "map_ok two_areas" "map_ok holed"
  by (simp_all add: map_ok_def two_areas_def holed_def sample_defs area_ok_def page_aligned_def
      free_apart_def free_def FCRAM_N3DS_SIZE_def)

lemma UnmapRange_refines_witness:
  "\<exists>vm'. UnmapRange idle_devices (sample_vm two_areas) 0x2000 0x1000 = Some (None, vm') \<and> map_ok (vma_map vm')
     \<and> range_updated (\<lambda>_. free_attributes) 0x2000 0x1000 two_areas (vma_map vm')"
proof -
  have "\<not> range_has_free 0x2000 0x1000 two_areas"
    by (auto simp: range_has_free_def free_at_def two_areas_def sample_defs vattr_def)
  then show ?thesis
    using UnmapRange_refines [of "sample_vm two_areas" "0x2000" "0x1000" idle_devices] sample_ok
    by (simp add: sample_vm_def page_aligned_def)
qed

lemma ChangeMemoryState_refines_witness:
  "\<exists>vm'. ChangeMemoryState idle_devices (sample_vm two_areas) 0x2000 0x1000 MSPrivate 3 MSCode 5
        = Some (None, vm') \<and> map_ok (vma_map vm')
     \<and> range_updated (with_state MSCode 5) 0x2000 0x1000 two_areas (vma_map vm')"
proof -
  have "\<not> range_has_free 0x2000 0x1000 two_areas" "range_expected 0x2000 0x1000 MSPrivate 3 two_areas"
    by (auto simp: range_has_free_def range_expected_def free_at_def two_areas_def sample_defs vattr_def)
  then show ?thesis
    using ChangeMemoryState_refines [of "sample_vm two_areas" "0x2000" "0x1000" idle_devices MSPrivate 3 MSCode 5]
      sample_ok
    by (simp add: sample_vm_def page_aligned_def)
qed

lemma MapBackingMemory_refines_witness:
  "\<exists>i vm'. MapBackingMemory idle_devices (sample_vm holed) 0x5000 (Some (RegionMem FCRAM, 0)) 0x2000 MSPrivate
        = Some (Inr i, vm') \<and> map_ok (vma_map vm')
     \<and> range_updated (\<lambda>_. mapped_attributes 0x5000 (Some (RegionMem FCRAM, 0)) MSPrivate) 0x5000 0x2000
         holed (vma_map vm')"
proof -
  have "\<forall>a. 0x5000 \<le> a \<and> a < 0x7000 \<longrightarrow> free_at holed a"
    by (auto simp: free_at_def holed_def sample_defs vattr_def)
  then show ?thesis
    using MapBackingMemory_refines [of "sample_vm holed" "0x5000" "0x2000" "Some (RegionMem FCRAM, 0)"
        idle_devices MSPrivate] sample_ok
    by (simp add: sample_vm_def page_aligned_def FCRAM_N3DS_SIZE_def)
qed

text \<open>
  the search for a place tests a free area against the requested base, not against the address
  it would use: when the first area that passes lies above the base and is shorter than the mapping,
  the request fails as an address-state error, however much room there is further up.
\<close>

theorem MapBackingMemoryToBase_takes_short_area:
  assumes "map_ok (vma_map vm)" "\<not> is_locked vm" "page_aligned base" "page_aligned sz" "0 < unat sz"
    and "memory \<noteq> None" "unat sz \<le> ref_size memory"
    and first: "first_fit (vma_map vm) base sz = Some v"
    and short: "vbase v \<ge> unat base" "vsize v < unat sz" "vbase v + unat sz \<le> MAXA"
    and region: "vma_base v + sz \<le> base + region_size"
  shows "MapBackingMemoryToBase D vm base region_size memory sz state
    = Some (Inl ResultInvalidAddressState, vm)"
proof -
  have v: "v \<in> set (vma_map vm)" "free v"
    using first by (auto simp: first_fit_def find_Some_iff free_def)
  have c: "chain 0 (vma_map vm) MAXA" using assms(1) by (simp add: map_ok_def)
  have al: "page_aligned (vma_base v)" using assms(1) v(1) by (simp add: map_ok_def area_ok_def)
  have sz0: "0 < vsize v" using chain_bounds [OF c v(1)] by simp
  have "\<not> (\<forall>a. vbase v \<le> a \<and> a < vbase v + unat sz \<longrightarrow> free_at (vma_map vm) a)"
  proof
    assume run: "\<forall>a. vbase v \<le> a \<and> a < vbase v + unat sz \<longrightarrow> free_at (vma_map vm) a"
    obtain L R where "vma_map vm = L @ v # R" using v(1) by (meson split_list)
    then have "vbase v + unat sz \<le> vend v"
      using free_run_one_area [of L v R "vbase v" "vbase v + unat sz"] assms(1,5) run sz0 short(3) by simp
    with short(2) show False by simp
  qed
  then have "MapBackingMemory D vm (vma_base v) memory sz state = Some (Inl ResultInvalidAddressState, vm)"
    using MapBackingMemory_spec [OF assms(1,2) al assms(4,5) short(3) assms(6,7), of D state] by (simp only: if_False)
  moreover have "max base (vma_base v) = vma_base v" using short(1) by (simp add: word_le_nat_alt max_def)
  ultimately show ?thesis
    using assms(2) first region by (simp add: MapBackingMemoryToBase_def Let_def not_less)
qed

lemma MapBackingMemoryToBase_takes_short_area_witness:
  "MapBackingMemoryToBase idle_devices (sample_vm holed) 0 0x10000 (Some (RegionMem FCRAM, 0)) 0x2000 MSPrivate
     = Some (Inl ResultInvalidAddressState, sample_vm holed)
   \<and> {0x3000..<0x10000} \<subseteq> {a. free_at holed a}"
proof
  show "MapBackingMemoryToBase idle_devices (sample_vm holed) 0 0x10000 (Some (RegionMem FCRAM, 0)) 0x2000 MSPrivate
     = Some (Inl ResultInvalidAddressState, sample_vm holed)"
    by (rule MapBackingMemoryToBase_takes_short_area [where v = "free_space 0x1000 0x1000"])
       (use sample_ok in \<open>simp_all add: sample_vm_def holed_def first_fit_def sample_defs page_aligned_def
          FCRAM_N3DS_SIZE_def\<close>)
  show "{0x3000..<0x10000} \<subseteq> {a. free_at holed a}"
    by (auto simp: free_at_def holed_def sample_defs vattr_def)
qed

definition fully_merged :: "VMA list \<Rightarrow> bool" where
  "fully_merged vs \<longleftrightarrow> successively (\<lambda>v w. CanBeMergedWith v w \<noteq> Some True) vs"

lemma update_vma_map:
  assumes "MergeAdjacent ((vma_map vm)[i := f (vma_map vm ! i)]) i = Some (vs, j)"
    and "area_ok (f (vma_map vm ! i))" "vend (f (vma_map vm ! i)) \<le> MAXA"
  shows "\<exists>vm'. update_vma D f vm i = Some (vm', j) \<and> vma_map vm' = vs"
proof -
  let ?vm = "vm\<lparr>vma_map := (vma_map vm)[i := f (vma_map vm ! i)]\<rparr>"
  obtain vm1 where u: "UpdatePageTableForVMA D ?vm (f (vma_map vm ! i)) = Some vm1"
    using UpdatePageTableForVMA_total [OF assms(2,3), of D ?vm] ..
  have "vma_map vm1 = (vma_map vm)[i := f (vma_map vm ! i)]"
    using UpdatePageTableForVMA_map [OF u] by simp
  with assms(1) have "MergeAdjacent (vma_map vm1) i = Some (vs, j)" by (simp only:)
  with u have "update_vma D f vm i = Some (vm1\<lparr>vma_map := vs\<rparr>, j)" by (simp add: update_vma_def Let_def)
  then show ?thesis by auto
qed

text \<open>
  the class promises that no two adjacent areas that can be merged are left unmerged; a
  permission change breaks it. The last area of the range can swallow the piece cut off for it,
  and the piece behind the range, which now has the same attributes, is not looked at again.
\<close>

theorem ReprotectRange_leaves_mergeable_areas:
  "map_ok two_areas \<and> fully_merged two_areas
   \<and> (\<exists>vm'. ReprotectRange idle_devices (sample_vm two_areas) 0x1000 0x2000 PermReadWrite = Some (None, vm')
        \<and> vma_map vm' = [free_space 0 0x1000, sample_area 0x1000 0x2000 3, sample_area 0x3000 0x1000 3,
             free_space 0x4000 0x3FFFC000]
        \<and> \<not> fully_merged (vma_map vm'))"
proof -
  have merged: "fully_merged two_areas"
    by (simp add: fully_merged_def two_areas_def sample_defs CanBeMergedWith_def)
  have carve: "CarveVMARange two_areas 0x1000 0x2000 = Some (Inr 1,
      [free_space 0 0x1000, sample_area 0x1000 0x1000 1, sample_area 0x2000 0x1000 3,
       sample_area 0x3000 0x1000 3, free_space 0x4000 0x3FFFC000])"
    by (simp add: CarveVMARange_def two_areas_def sample_defs page_aligned_def MAX_ADDRESS_def Let_def
        FindVMA_def upper_bound_def lower_bound_def SplitVMA_def ref_plus_def CanBeMergedWith_def
        FCRAM_N3DS_SIZE_def)
  define vs where "vs = [free_space 0 0x1000, sample_area 0x1000 0x2000 3, sample_area 0x3000 0x1000 3,
      free_space 0x4000 0x3FFFC000]"
  let ?vm = "sample_vm [free_space 0 0x1000, sample_area 0x1000 0x1000 1, sample_area 0x2000 0x1000 3,
       sample_area 0x3000 0x1000 3, free_space 0x4000 0x3FFFC000]"
  let ?f = "\<lambda>v. v\<lparr>vma_perms := PermReadWrite\<rparr>"
  have "MergeAdjacent ((vma_map ?vm)[1 := ?f (vma_map ?vm ! 1)]) 1 = Some (vs, 1)"
    by (simp add: sample_vm_def MergeAdjacent_def CanBeMergedWith_def sample_defs vs_def)
  moreover have "area_ok (?f (vma_map ?vm ! 1))" "vend (?f (vma_map ?vm ! 1)) \<le> MAXA"
    by (simp_all add: sample_vm_def sample_defs area_ok_def page_aligned_def FCRAM_N3DS_SIZE_def)
  ultimately obtain vm' where u: "update_vma idle_devices ?f ?vm 1 = Some (vm', 1)" "vma_map vm' = vs"
    using update_vma_map by blast
  have "range_loop idle_devices ?f 0x3000 vm' 2 = Some vm'"
    by (subst range_loop.simps) (simp add: u(2) vs_def sample_defs)
  moreover have "(1 < length (vma_map ?vm) \<and> vma_base (vma_map ?vm ! 1) < 0x3000) = True"
    by (simp add: sample_vm_def sample_defs)
  ultimately have "range_loop idle_devices ?f 0x3000 ?vm 1 = Some vm'"
    by (simp only: range_loop.simps [of _ _ _ ?vm] if_True u(1) option.case prod.case Suc_1)
  moreover have "(sample_vm two_areas)\<lparr>vma_map := vma_map ?vm\<rparr> = ?vm" by (simp add: sample_vm_def)
  ultimately have "ReprotectRange idle_devices (sample_vm two_areas) 0x1000 0x2000 PermReadWrite = Some (None, vm')"
    using carve by (simp add: ReprotectRange_def) (simp add: sample_vm_def)
  moreover have "\<not> fully_merged vs"
    by (simp add: fully_merged_def vs_def sample_defs CanBeMergedWith_def)
  ultimately show ?thesis using sample_ok merged u(2) vs_def by blast
qed

end
