(* ===== verification/CoreTiming.thy ===== *)
theory CoreTiming imports Prelude "HOL-Library.Monad_Syntax" "HOL-Library.Signed_Division" begin

text \<open>
  The event scheduler of src/core/core_timing.h and src/core/core_timing.cpp: one timer per core,
  each with a heap of pending events ordered by time and then by the order of scheduling.

  The heap is kept as the sorted list of its events, so that its front is the head; \<open>std::push_heap\<close>
  inserts into that list. Ticks are 64-bit words, compared as \<open>s64\<close>. The state is an extensible
  record: the kernel's state extends it, and an event's callback acts on the extension. The
  floating point clock scale and the custom tick setting are one function, \<open>scaled_ticks\<close>.
\<close>

section \<open>Durations\<close>

definition BASE_CLOCK_RATE_ARM11 :: u64 where "BASE_CLOCK_RATE_ARM11 = 268111856"

definition MAX_VALUE_TO_MULTIPLY :: u64 where
  "MAX_VALUE_TO_MULTIPLY = 0x7FFFFFFFFFFFFFFF div BASE_CLOCK_RATE_ARM11"

text \<open>The products have an unsigned factor, so that the divisions after them are unsigned.\<close>

definition nsToCycles :: "u64 \<Rightarrow> u64" where
  "nsToCycles ns =
     (if sint ns sdiv 1000000000 > uint MAX_VALUE_TO_MULTIPLY then 0x7FFFFFFFFFFFFFFF
      else if sint ns > uint MAX_VALUE_TO_MULTIPLY
      then BASE_CLOCK_RATE_ARM11 * word_of_int (sint ns sdiv 1000000000)
      else (BASE_CLOCK_RATE_ARM11 * ns) div 1000000000)"

definition usToCycles :: "u64 \<Rightarrow> u64" where
  "usToCycles us =
     (if sint us sdiv 1000000 > uint MAX_VALUE_TO_MULTIPLY then 0x7FFFFFFFFFFFFFFF
      else if sint us > uint MAX_VALUE_TO_MULTIPLY
      then BASE_CLOCK_RATE_ARM11 * word_of_int (sint us sdiv 1000000)
      else (BASE_CLOCK_RATE_ARM11 * us) div 1000000)"

definition MAX_SLICE_LENGTH :: u64 where "MAX_SLICE_LENGTH = BASE_CLOCK_RATE_ARM11 div 234"

section \<open>Timers\<close>

record 'e Event =
  ev_time :: u64
  ev_fifo_order :: u64
  ev_user_data :: nat
  ev_type :: 'e

definition before :: "'e Event \<Rightarrow> 'e Event \<Rightarrow> bool" where
  "before a b \<longleftrightarrow> sint (ev_time a) < sint (ev_time b)
     \<or> ev_time a = ev_time b \<and> ev_fifo_order a < ev_fifo_order b"

record 'e Timer =
  event_queue :: "'e Event list"
  event_fifo_id :: u64
  ts_queue :: "'e Event list"
  is_timer_sane :: bool
  slice_length :: u64
  downcount :: u64
  executed_ticks :: u64
  idled_cycles :: u64
  downcount_hack :: u32

definition Timer_init :: "u64 \<Rightarrow> 'e Timer" where
  "Timer_init base_ticks = \<lparr>event_queue = [], event_fifo_id = 0, ts_queue = [], is_timer_sane = True,
     slice_length = MAX_SLICE_LENGTH, downcount = MAX_SLICE_LENGTH, executed_ticks = base_ticks,
     idled_cycles = 0, downcount_hack = 0\<rparr>"

definition push_heap :: "'e Event \<Rightarrow> 'e Event list \<Rightarrow> 'e Event list" where
  "push_heap e q = takeWhile (\<lambda>x. before x e) q @ e # dropWhile (\<lambda>x. before x e) q"

definition GetTicks :: "'e Timer \<Rightarrow> u64" where
  "GetTicks t = (if is_timer_sane t then executed_ticks t
     else executed_ticks t + (slice_length t - downcount t))"

definition AddTicks :: "(u64 \<Rightarrow> u64) \<Rightarrow> u64 \<Rightarrow> 'e Timer \<Rightarrow> 'e Timer" where
  "AddTicks scaled_ticks n t = t\<lparr>downcount := downcount t - scaled_ticks n\<rparr>"

definition ForceExceptionCheck :: "u64 \<Rightarrow> 'e Timer \<Rightarrow> 'e Timer" where
  "ForceExceptionCheck cycles t =
     (let c = (if sint cycles < 0 then 0 else cycles) in
      if sint c < sint (downcount t)
      then t\<lparr>slice_length := slice_length t - (downcount t - c), downcount := c\<rparr> else t)"

definition enqueue :: "u64 \<Rightarrow> nat \<Rightarrow> 'e \<Rightarrow> 'e Timer \<Rightarrow> 'e Timer" where
  "enqueue time data ty t = t\<lparr>
     event_queue := push_heap \<lparr>ev_time = time, ev_fifo_order = event_fifo_id t, ev_user_data = data,
       ev_type = ty\<rparr> (event_queue t),
     event_fifo_id := event_fifo_id t + 1\<rparr>"

definition MoveEvents :: "'e Timer \<Rightarrow> 'e Timer" where
  "MoveEvents t =
     foldl (\<lambda>t ev. enqueue (ev_time ev) (ev_user_data ev) (ev_type ev) t) (t\<lparr>ts_queue := []\<rparr>) (ts_queue t)"

definition GetMaxSliceLength :: "'e Timer \<Rightarrow> u64 option" where
  "GetMaxSliceLength t =
     (case event_queue t of
        [] \<Rightarrow> Some MAX_SLICE_LENGTH
      | e # _ \<Rightarrow> if 0 < sint (ev_time e - executed_ticks t) then Some (ev_time e - executed_ticks t) else None)"

text \<open>The slice to the next event is narrowed to \<open>int\<close>.\<close>

definition SetNextSlice :: "u64 \<Rightarrow> 'e Timer \<Rightarrow> 'e Timer" where
  "SetNextSlice max_slice_length t =
     (let slice = (case event_queue t of
            [] \<Rightarrow> max_slice_length
          | e # _ \<Rightarrow> scast (ucast (if sint (max_slice_length) < sint (ev_time e - executed_ticks t)
                                then max_slice_length else ev_time e - executed_ticks t) :: u32))
      in t\<lparr>slice_length := slice, downcount := signed_drop_bit (unat (downcount_hack t)) slice\<rparr>)"

definition Idle :: "'e Timer \<Rightarrow> 'e Timer" where
  "Idle t = t\<lparr>idled_cycles := idled_cycles t + downcount t, downcount := 0\<rparr>"

section \<open>The scheduler\<close>

record 'e Timing =
  timers :: "'e Timer list"
  current_timer :: nat
  event_queue_locked :: bool

definition Timing_init :: "nat \<Rightarrow> u64 \<Rightarrow> 'e Timing" where
  "Timing_init num_cores base_ticks = \<lparr>timers = replicate num_cores (Timer_init base_ticks),
     current_timer = 0, event_queue_locked = False\<rparr>"

definition upd_timer :: "nat \<Rightarrow> ('e Timer \<Rightarrow> 'e Timer) \<Rightarrow> ('e, 'z) Timing_scheme \<Rightarrow> ('e, 'z) Timing_scheme" where
  "upd_timer i f s = s\<lparr>timers := (timers s)[i := f (timers s ! i)]\<rparr>"

text \<open>\<open>core_id\<close> is absent for the default, the largest \<open>size_t\<close>: the running core's timer.\<close>

definition ScheduleEvent ::
  "u64 \<Rightarrow> 'e \<Rightarrow> nat \<Rightarrow> nat option \<Rightarrow> bool \<Rightarrow> ('e, 'z) Timing_scheme \<Rightarrow> ('e, 'z) Timing_scheme option" where
  "ScheduleEvent cycles ty data core_id thread_safe_mode s =
     (if event_queue_locked s then Some s
      else
        let i = (case core_id of None \<Rightarrow> current_timer s | Some c \<Rightarrow> c) in
        if \<not> i < length (timers s) then None
        else if thread_safe_mode
        then
          let c = (if sint cycles < sint (MAX_SLICE_LENGTH * 2) then MAX_SLICE_LENGTH * 2 else cycles)
          in Some (upd_timer i (\<lambda>t. t\<lparr>ts_queue := ts_queue t
            @ [\<lparr>ev_time = GetTicks t + c, ev_fifo_order = 0, ev_user_data = data, ev_type = ty\<rparr>]\<rparr>) s)
        else if i = current_timer s
        then Some (upd_timer i (\<lambda>t.
          let timeout = GetTicks t + cycles;
              t1 = (if is_timer_sane t then t else ForceExceptionCheck cycles t)
          in enqueue timeout data ty t1) s)
        else Some (upd_timer i (\<lambda>t. t\<lparr>ts_queue := ts_queue t
            @ [\<lparr>ev_time = GetTicks t + cycles, ev_fifo_order = 0, ev_user_data = data, ev_type = ty\<rparr>]\<rparr>) s))"

definition UnscheduleEvent :: "'e \<Rightarrow> nat \<Rightarrow> ('e, 'z) Timing_scheme \<Rightarrow> ('e, 'z) Timing_scheme" where
  "UnscheduleEvent ty data s =
     (if event_queue_locked s then s
      else s\<lparr>timers := map (\<lambda>t. t\<lparr>event_queue :=
        filter (\<lambda>e. \<not> (ev_type e = ty \<and> ev_user_data e = data)) (event_queue t)\<rparr>) (timers s)\<rparr>)"

definition RemoveEvent :: "'e \<Rightarrow> ('e, 'z) Timing_scheme \<Rightarrow> ('e, 'z) Timing_scheme" where
  "RemoveEvent ty s =
     (if event_queue_locked s then s
      else s\<lparr>timers := map (\<lambda>t. t\<lparr>event_queue := filter (\<lambda>e. ev_type e \<noteq> ty) (event_queue t)\<rparr>) (timers s)\<rparr>)"

definition SetCurrentTimer :: "nat \<Rightarrow> ('e, 'z) Timing_scheme \<Rightarrow> ('e, 'z) Timing_scheme" where
  "SetCurrentTimer core_id s = s\<lparr>current_timer := core_id\<rparr>"

definition Timing_GetTicks :: "('e, 'z) Timing_scheme \<Rightarrow> u64" where
  "Timing_GetTicks s = GetTicks (timers s ! current_timer s)"

definition GetGlobalTicks :: "('e, 'z) Timing_scheme \<Rightarrow> u64" where
  "GetGlobalTicks s = Max (GetTicks ` set (timers s))"

section \<open>Running the events that are due\<close>

text \<open>How late a callback is, passed to it as an \<open>int\<close>.\<close>

definition cycles_late :: "'e Timer \<Rightarrow> 'e Event \<Rightarrow> u64" where
  "cycles_late t e = scast (ucast (executed_ticks t - ev_time e) :: u32)"

type_synonym ('e, 'z) callback = "'e \<Rightarrow> nat \<Rightarrow> u64 \<Rightarrow> ('e, 'z) Timing_scheme \<Rightarrow> ('e, 'z) Timing_scheme option"

text \<open>The loop of \<open>Advance\<close>; \<open>n\<close> bounds the number of events it runs.\<close>

fun Advance_loop :: "nat \<Rightarrow> ('e, 'z) callback \<Rightarrow> nat \<Rightarrow> ('e, 'z) Timing_scheme \<Rightarrow> ('e, 'z) Timing_scheme option" where
  "Advance_loop n cb i s =
     (case event_queue (timers s ! i) of
        [] \<Rightarrow> Some s
      | e # q \<Rightarrow>
          if sint (ev_time e) \<le> sint (executed_ticks (timers s ! i))
          then (case n of
            0 \<Rightarrow> None
          | Suc m \<Rightarrow> do {
              s1 \<leftarrow> cb (ev_type e) (ev_user_data e) (cycles_late (timers s ! i) e)
                      (upd_timer i (\<lambda>t. t\<lparr>event_queue := q\<rparr>) s);
              Advance_loop m cb i s1 })
          else Some s)"

declare Advance_loop.simps [simp del]

definition start_slice :: "'e Timer \<Rightarrow> 'e Timer" where
  "start_slice t =
     (let t1 = MoveEvents t in
      t1\<lparr>idled_cycles := 0, executed_ticks := executed_ticks t1 + (slice_length t1 - downcount t1),
        slice_length := 0, downcount := 0, downcount_hack := 0, is_timer_sane := True\<rparr>)"

definition Advance :: "nat \<Rightarrow> ('e, 'z) callback \<Rightarrow> nat \<Rightarrow> ('e, 'z) Timing_scheme \<Rightarrow> ('e, 'z) Timing_scheme option" where
  "Advance n cb i s = do {
     s1 \<leftarrow> Advance_loop n cb i (upd_timer i start_slice s);
     Some (upd_timer i (\<lambda>t. t\<lparr>is_timer_sane := False\<rparr>) s1) }"

end
