(* ===== verification/TimingFacts.thy ===== *)
theory TimingFacts imports CoreTiming begin

text \<open>
  The order in which the event scheduler runs events, and what its duration conversions compute.
\<close>

section \<open>The order of the queue\<close>

text \<open>The invariant of a timer: a queue in order, with order numbers below the next one to be given.\<close>

definition timer_ok :: "'e Timer \<Rightarrow> bool" where
  "timer_ok t \<longleftrightarrow> sorted_wrt before (event_queue t) \<and> (\<forall>e \<in> set (event_queue t). ev_fifo_order e < event_fifo_id t)"

lemma before_trans: "before a b \<Longrightarrow> before b c \<Longrightarrow> before a c"
  by (auto simp: before_def)

lemma split_by_time:
  assumes "sorted_wrt before q"
  shows "takeWhile (\<lambda>e. sint (ev_time e) \<le> k) q = filter (\<lambda>e. sint (ev_time e) \<le> k) q"
    and "dropWhile (\<lambda>e. sint (ev_time e) \<le> k) q = filter (\<lambda>e. k < sint (ev_time e)) q"
  using assms
proof (induction q)
  case (Cons e q)
  { case 1
    have "filter (\<lambda>e. sint (ev_time e) \<le> k) q = []" if "\<not> sint (ev_time e) \<le> k"
      using 1 that by (force simp: filter_empty_conv before_def)
    then show ?case using Cons.IH(1) 1 by auto
  next
    case 2
    have "filter (\<lambda>e. k < sint (ev_time e)) q = q" if "\<not> sint (ev_time e) \<le> k"
      using 2 that by (force simp: filter_id_conv before_def)
    then show ?case using Cons.IH(2) 2 by auto
  }
qed simp_all

lemma push_heap_fifo:
  assumes "\<forall>x \<in> set q. ev_fifo_order x < ev_fifo_order e"
  shows "push_heap e q = takeWhile (\<lambda>x. sint (ev_time x) \<le> sint (ev_time e)) q @ e
    # dropWhile (\<lambda>x. sint (ev_time x) \<le> sint (ev_time e)) q"
proof -
  have "before x e \<longleftrightarrow> sint (ev_time x) \<le> sint (ev_time e)" if "x \<in> set q" for x
    using assms that by (auto simp: before_def order_le_less signed_word_eqI)
  then show ?thesis unfolding push_heap_def
    by (metis (no_types, lifting) takeWhile_cong dropWhile_cong)
qed

lemma push_heap_ordered:
  assumes "sorted_wrt before q" "\<forall>x \<in> set q. ev_fifo_order x < ev_fifo_order e"
  shows "push_heap e q = filter (\<lambda>x. sint (ev_time x) \<le> sint (ev_time e)) q @ e
    # filter (\<lambda>x. sint (ev_time e) < sint (ev_time x)) q"
  using push_heap_fifo [OF assms(2)] split_by_time [OF assms(1)] by simp

lemma enqueue_queue:
  assumes "timer_ok t"
  shows "event_queue (enqueue time data ty t) = filter (\<lambda>x. sint (ev_time x) \<le> sint time) (event_queue t)
    @ \<lparr>ev_time = time, ev_fifo_order = event_fifo_id t, ev_user_data = data, ev_type = ty\<rparr>
    # filter (\<lambda>x. sint time < sint (ev_time x)) (event_queue t)"
  using assms by (simp add: enqueue_def timer_ok_def push_heap_ordered)

lemma enqueue_ok:
  assumes "timer_ok t" "unat (event_fifo_id t) + 1 < 2 ^ 64"
  shows "timer_ok (enqueue time data ty t)"
proof -
  let ?e = "\<lparr>ev_time = time, ev_fifo_order = event_fifo_id t, ev_user_data = data, ev_type = ty\<rparr> :: 'a Event"
  let ?q = "event_queue (enqueue time data ty t)"
  have lt: "event_fifo_id t < event_fifo_id t + 1"
    using assms(2) by (simp add: word_less_nat_alt unat_word_ariths)
  have "sorted_wrt before ?q"
    using assms(1) unfolding enqueue_queue [OF assms(1)]
    by (auto simp: timer_ok_def sorted_wrt_append sorted_wrt_filter before_def order_le_less signed_word_eqI)
  moreover have "\<forall>e \<in> set ?q. ev_fifo_order e < event_fifo_id t + 1"
    using assms(1) lt unfolding enqueue_queue [OF assms(1)] by (auto simp: timer_ok_def intro: order_less_trans)
  ultimately show ?thesis by (simp add: timer_ok_def enqueue_def)
qed

text \<open>
  scheduling an event on the running core puts it after every event that is not later and before
  every event that is, whatever their order numbers: events of one time run in the order in which
  they were scheduled. The queue stays in order, and the other timers are untouched.
\<close>

theorem ScheduleEvent_keeps_order:
  assumes "i = current_timer s" "i < length (timers s)" "\<not> event_queue_locked s"
    and "timer_ok (timers s ! i)" "unat (event_fifo_id (timers s ! i)) + 1 < 2 ^ 64"
  shows "\<exists>s' new. ScheduleEvent cycles ty data None False s = Some s'
    \<and> ev_time new = GetTicks (timers s ! i) + cycles \<and> ev_user_data new = data \<and> ev_type new = ty
    \<and> event_queue (timers s' ! i) =
        filter (\<lambda>e. sint (ev_time e) \<le> sint (ev_time new)) (event_queue (timers s ! i)) @ new
        # filter (\<lambda>e. sint (ev_time new) < sint (ev_time e)) (event_queue (timers s ! i))
    \<and> timer_ok (timers s' ! i) \<and> (\<forall>j. j \<noteq> i \<longrightarrow> timers s' ! j = timers s ! j)"
proof -
  let ?t = "timers s ! i"
  define t1 where "t1 = (if is_timer_sane ?t then ?t else ForceExceptionCheck cycles ?t)"
  have q: "event_queue t1 = event_queue ?t" "event_fifo_id t1 = event_fifo_id ?t"
    by (simp_all add: t1_def ForceExceptionCheck_def Let_def)
  then have ok: "timer_ok t1" using assms(4) by (simp add: timer_ok_def)
  let ?t' = "enqueue (GetTicks ?t + cycles) data ty t1"
  have "ScheduleEvent cycles ty data None False s = Some (upd_timer i (\<lambda>_. ?t') s)"
    using assms(1-3) by (simp add: ScheduleEvent_def Let_def t1_def upd_timer_def)
  moreover have "timer_ok ?t'" using enqueue_ok [OF ok] assms(5) by (simp add: q)
  ultimately show ?thesis
    using assms(1,2)
    by (intro exI [of _ "upd_timer i (\<lambda>_. ?t') s"] exI [of _ "\<lparr>ev_time = GetTicks ?t + cycles,
          ev_fifo_order = event_fifo_id ?t, ev_user_data = data, ev_type = ty\<rparr>"])
      (simp add: upd_timer_def enqueue_queue [OF ok] q)
qed

section \<open>Running the events that are due\<close>

abbreviation is_due :: "'e Timer \<Rightarrow> 'e Event \<Rightarrow> bool" where
  "is_due t e \<equiv> sint (ev_time e) \<le> sint (executed_ticks t)"

abbreviation due :: "nat \<Rightarrow> ('e, 'z) Timing_scheme \<Rightarrow> 'e Event list" where
  "due i s \<equiv> filter (is_due (timers s ! i)) (event_queue (timers s ! i))"

text \<open>The callbacks of a list of events, one after the other, each run on the state without its event.\<close>

fun run_events :: "('e, 'z) callback \<Rightarrow> nat \<Rightarrow> 'e Event list \<Rightarrow> ('e, 'z) Timing_scheme \<Rightarrow> ('e, 'z) Timing_scheme option" where
  "run_events cb i [] s = Some s"
| "run_events cb i (e # es) s = do {
     s1 \<leftarrow> cb (ev_type e) (ev_user_data e) (cycles_late (timers s ! i) e)
             (upd_timer i (\<lambda>t. t\<lparr>event_queue := remove1 e (event_queue t)\<rparr>) s);
     run_events cb i es s1 }"

text \<open>
  A timer in its slice, as the callbacks find it: its queue in order, its clock set, below \<open>2 ^ 62\<close> ticks,
  some 545 years, and \<open>n\<close> order numbers left to give.
\<close>

definition in_slice :: "nat \<Rightarrow> 'e Timer \<Rightarrow> bool" where
  "in_slice n t \<longleftrightarrow> timer_ok t \<and> is_timer_sane t \<and> sint (executed_ticks t) < 2 ^ 62
     \<and> unat (event_fifo_id t) + n < 2 ^ 64"

text \<open>
  A callback that only schedules events for later, at most \<open>k\<close> of them, when it finds a timer in its slice:
  whatever is due before it is due after it, in the same order.
\<close>

definition schedules_later :: "nat \<Rightarrow> ('e, 'z) callback \<Rightarrow> nat \<Rightarrow> bool" where
  "schedules_later k cb i \<longleftrightarrow> (\<forall>ty data late s s'.
     i < length (timers s) \<longrightarrow> in_slice k (timers s ! i) \<longrightarrow> cb ty data late s = Some s' \<longrightarrow>
       i < length (timers s') \<and> timer_ok (timers s' ! i) \<and> is_timer_sane (timers s' ! i)
       \<and> due i s' = due i s \<and> executed_ticks (timers s' ! i) = executed_ticks (timers s ! i)
       \<and> unat (event_fifo_id (timers s' ! i)) \<le> unat (event_fifo_id (timers s ! i)) + k)"

text \<open>The callback of a periodic event, which schedules the event again, is one.\<close>

definition periodic :: "u64 \<Rightarrow> ('e, 'z) callback" where
  "periodic cycles ty data late s = ScheduleEvent cycles ty data None False s"

lemma enqueue_later_due:
  assumes "timer_ok t" "sint (executed_ticks t) < sint time"
  shows "filter (is_due t) (event_queue (enqueue time data ty t)) = filter (is_due t) (event_queue t)"
proof -
  have "filter (is_due t) (filter (\<lambda>x. sint (ev_time x) \<le> sint time) q) = filter (is_due t) q" for q
    using assms(2) by (induction q) auto
  moreover have "filter (is_due t) (filter (\<lambda>x. sint time < sint (ev_time x)) q) = []" for q
    using assms(2) by (auto simp: filter_empty_conv)
  ultimately show ?thesis using assms(2) unfolding enqueue_queue [OF assms(1)] by simp
qed

lemma periodic_schedules_later:
  assumes "0 < sint cycles" "sint cycles < 2 ^ 62"
  shows "schedules_later 1 (periodic cycles) i"
  unfolding schedules_later_def
proof (intro allI impI, goal_cases)
  case (1 ty data late s s')
  show ?case
  proof (cases "event_queue_locked s \<or> i \<noteq> current_timer s")
    case True
    with 1 have "s' = s \<or> timers s' = timers s \<or> (\<exists>f. s' = upd_timer (current_timer s) f s \<and> i \<noteq> current_timer s)"
      by (auto simp: periodic_def ScheduleEvent_def Let_def split: if_splits)
    with 1(1,2) show ?thesis by (auto simp: upd_timer_def in_slice_def)
  next
    case False
    let ?t = "timers s ! i" and ?time = "executed_ticks (timers s ! i) + cycles"
    have ok: "timer_ok ?t" "is_timer_sane ?t" "unat (event_fifo_id ?t) + 1 < 2 ^ 64"
      and early: "sint (executed_ticks ?t) < 2 ^ 62" using 1(2) by (simp_all add: in_slice_def)
    have s': "s' = upd_timer i (\<lambda>t. enqueue ?time data ty t) s"
      using 1(1,3) False ok(2)
      by (auto simp: periodic_def ScheduleEvent_def Let_def GetTicks_def upd_timer_def split: if_splits)
    have "- (2 ^ 63) \<le> sint (executed_ticks ?t)" using sint_ge [of "executed_ticks ?t"] by simp
    then have "sint ?time = sint (executed_ticks ?t) + sint cycles"
      using early assms by (simp add: sint_word_ariths signed_take_bit_int_eq_self)
    then have later: "sint (executed_ticks ?t) < sint ?time" using assms(1) by simp
    have "timer_ok (enqueue ?time data ty ?t)" using ok by (intro enqueue_ok) simp_all
    moreover have "unat (event_fifo_id ?t + 1) = unat (event_fifo_id ?t) + 1"
      using ok(3) by (simp add: unat_word_ariths)
    ultimately show ?thesis
      using 1(1) ok(2) enqueue_later_due [OF ok(1) later, of data ty]
      unfolding s' by (simp add: upd_timer_def enqueue_def)
  qed
qed

lemma front_due:
  assumes "timer_ok t" "event_queue t = e # q"
  shows "is_due t e \<longleftrightarrow> filter (is_due t) (event_queue t) \<noteq> []"
  using assms by (force simp: timer_ok_def before_def filter_empty_conv)

lemma Advance_loop_runs:
  assumes "schedules_later k cb i"
  shows "i < length (timers s) \<Longrightarrow> in_slice (k * length es) (timers s ! i) \<Longrightarrow> due i s = es \<Longrightarrow> length es \<le> n \<Longrightarrow>
    Advance_loop n cb i s = run_events cb i es s
    \<and> (\<forall>s'. run_events cb i es s = Some s' \<longrightarrow> i < length (timers s') \<and> due i s' = [])"
proof (induction es arbitrary: n s)
  case Nil
  then have "timer_ok (timers s ! i)" by (simp add: in_slice_def)
  then have "Advance_loop n cb i s = Some s"
    using front_due [of "timers s ! i"] Nil.prems(3)
    by (subst Advance_loop.simps) (auto split: list.split)
  with Nil.prems show ?case by simp
next
  case (Cons e es)
  let ?t = "timers s ! i"
  have tok: "timer_ok ?t" using Cons.prems(2) by (simp add: in_slice_def)
  obtain q where q: "event_queue ?t = e # q"
  proof (cases "event_queue ?t")
    case (Cons x q)
    then have "is_due ?t x" using front_due [OF tok Cons] \<open>due i s = e # es\<close> by simp
    with Cons \<open>due i s = e # es\<close> that show ?thesis by simp
  qed (use Cons.prems in simp)
  obtain m where n: "n = Suc m" using Cons.prems by (cases n) auto
  let ?s = "upd_timer i (\<lambda>t. t\<lparr>event_queue := q\<rparr>) s"
  have e: "is_due ?t e" using Cons.prems(3) by (metis Cons_eq_filterD)
  have s: "i < length (timers ?s)" "in_slice (k + k * length es) (timers ?s ! i)" "due i ?s = es"
    using Cons.prems q e by (auto simp: upd_timer_def timer_ok_def in_slice_def)
  then have slice: "in_slice k (timers ?s ! i)" by (simp add: in_slice_def)
  have pop: "upd_timer i (\<lambda>t. t\<lparr>event_queue := remove1 e (event_queue t)\<rparr>) s = ?s"
    by (simp add: upd_timer_def q)
  have loop: "Advance_loop n cb i s = do {
      s1 \<leftarrow> cb (ev_type e) (ev_user_data e) (cycles_late ?t e) ?s; Advance_loop m cb i s1 }"
    by (subst Advance_loop.simps) (simp add: q e n)
  show ?case
  proof (cases "cb (ev_type e) (ev_user_data e) (cycles_late ?t e) ?s")
    case None
    then show ?thesis by (simp add: loop pop)
  next
    case (Some s1)
    note cb = assms [unfolded schedules_later_def, rule_format, OF s(1) slice Some]
    then have "i < length (timers s1)" "due i s1 = due i ?s" by blast+
    moreover have "in_slice (k * length es) (timers s1 ! i)" using cb s(2) by (auto simp: in_slice_def)
    ultimately have "i < length (timers s1)" "due i s1 = es" "in_slice (k * length es) (timers s1 ! i)"
      by (simp_all only: s(3))
    from Cons.IH [OF this(1,3,2), of m] Cons.prems(4) n Some show ?thesis by (simp add: loop [unfolded n] pop)
  qed
qed


section \<open>Durations\<close>

text \<open>
  up to about 34 seconds the conversion is the exact product, rounded down; a negative duration is
  taken for an unsigned number, so that a wait of minus one nanosecond lasts more than a minute.
\<close>

theorem nsToCycles_value:
  assumes "\<bar>sint ns\<bar> \<le> 34401209161"
  shows "uint (nsToCycles ns) =
    (if 0 \<le> sint ns then 268111856 * sint ns div 1000000000
     else (2 ^ 64 + 268111856 * sint ns) div 1000000000)"
proof -
  have max: "uint MAX_VALUE_TO_MULTIPLY = 34401209161"
    unfolding MAX_VALUE_TO_MULTIPLY_def BASE_CLOCK_RATE_ARM11_def by (simp add: uint_div)
  have sd: "\<not> 34401209161 < sint ns sdiv 1000000000"
    using assms by (auto simp: signed_divide_int_def sgn_if)
  have w: "uint (word_of_int k :: u64) = k mod 2 ^ 64" for k by (simp add: uint_word_of_int)
  have "268111856 * ns = word_of_int (268111856 * sint ns)" by simp
  then have u: "uint (268111856 * ns) = (268111856 * sint ns) mod 2 ^ 64" by (simp only: w)
  have "nsToCycles ns = (268111856 * ns) div 1000000000"
    using assms sd by (auto simp: nsToCycles_def max BASE_CLOCK_RATE_ARM11_def)
  then have v: "uint (nsToCycles ns) = (268111856 * sint ns) mod 2 ^ 64 div 1000000000"
    by (simp add: uint_div u)
  show ?thesis
  proof (cases "0 \<le> sint ns")
    case True
    then have "(268111856 * sint ns) mod 2 ^ 64 = 268111856 * sint ns"
      using assms by (intro mod_pos_pos_trivial) auto
    with True v show ?thesis by simp
  next
    case False
    then have "(268111856 * sint ns) mod 2 ^ 64 = (268111856 * sint ns + 2 ^ 64) mod 2 ^ 64" by simp
    also have "\<dots> = 268111856 * sint ns + 2 ^ 64"
      using assms False by (intro mod_pos_pos_trivial) auto
    finally show ?thesis using False v by (simp add: add.commute)
  qed
qed

lemma nsToCycles_value_witness: "uint (nsToCycles (-1)) = 18446744073"
  using nsToCycles_value [of "-1"] by simp

definition sample_timing :: "nat Timing" where
  "sample_timing = \<lparr>timers = [Timer_init 5], current_timer = 0, event_queue_locked = False\<rparr>"

lemma ScheduleEvent_keeps_order_witness:
  "\<exists>s' new. ScheduleEvent 10 (1 :: nat) 7 None False sample_timing = Some s'
    \<and> ev_time new = 15 \<and> event_queue (timers s' ! 0) = [new]"
proof -
  have "timer_ok (timers sample_timing ! 0)" "unat (event_fifo_id (timers sample_timing ! 0)) + 1 < 2 ^ 64"
    "0 < length (timers sample_timing)" "\<not> event_queue_locked sample_timing" "0 = current_timer sample_timing"
    by (simp_all add: sample_timing_def Timer_init_def timer_ok_def)
  from ScheduleEvent_keeps_order [OF this(5,3,4,1,2), of 10 "1 :: nat" 7] obtain s' new where
    "ScheduleEvent 10 (1 :: nat) 7 None False sample_timing = Some s'"
    "ev_time new = GetTicks (timers sample_timing ! 0) + 10"
    "event_queue (timers s' ! 0) = filter (\<lambda>e. sint (ev_time e) \<le> sint (ev_time new))
        (event_queue (timers sample_timing ! 0)) @ new # filter (\<lambda>e. sint (ev_time new) < sint (ev_time e))
        (event_queue (timers sample_timing ! 0))" by blast
  moreover have "GetTicks (timers sample_timing ! 0) = 5" "event_queue (timers sample_timing ! 0) = []"
    by (simp_all add: sample_timing_def Timer_init_def GetTicks_def)
  ultimately show ?thesis by simp
qed

text \<open>
  The witness: an event of period 1000 that is due at 5 and one of the same kind that is not; the first
  runs and is then scheduled for 1005.
\<close>

definition periodic_timing :: "nat Timing" where
  "periodic_timing = sample_timing\<lparr>timers :=
      [(Timer_init 5)\<lparr>event_queue := [\<lparr>ev_time = 5, ev_fifo_order = 0, ev_user_data = 7, ev_type = 1\<rparr>,
         \<lparr>ev_time = 6, ev_fifo_order = 1, ev_user_data = 8, ev_type = 1\<rparr>], event_fifo_id := 2\<rparr>]\<rparr>"


end
