(* ===== verification/Results.thy ===== *)
theory Results imports Prelude begin

text \<open>
  The bit fields of src/common/bit_field.h, the result codes of src/core/hle/result.h, which are made
  of four such fields, and the named codes of src/core/hle/kernel/errors.h.

  The enumerations of names are tables: the code converts integers to them without a check, so a
  value is a word, and a name is looked up.
\<close>

section \<open>Bit fields\<close>

definition field_mask :: "nat \<Rightarrow> nat \<Rightarrow> 'a::len word" where
  "field_mask position bits = push_bit position (mask bits)"

definition FormatValue :: "nat \<Rightarrow> nat \<Rightarrow> 'a::len word \<Rightarrow> 'a word" where
  "FormatValue position bits v = push_bit position v AND field_mask position bits"

definition ExtractValue :: "nat \<Rightarrow> nat \<Rightarrow> 'a::len word \<Rightarrow> 'a word" where
  "ExtractValue position bits storage = drop_bit position (storage AND field_mask position bits)"

text \<open>The signed case, for a field type as wide as the storage.\<close>

definition ExtractSigned :: "nat \<Rightarrow> nat \<Rightarrow> 'a::len word \<Rightarrow> 'a word" where
  "ExtractSigned position bits storage =
     (let shift = LENGTH('a) - bits in signed_drop_bit shift (push_bit (shift - position) storage))"

definition Assign :: "nat \<Rightarrow> nat \<Rightarrow> 'a::len word \<Rightarrow> 'a word \<Rightarrow> 'a word" where
  "Assign position bits v storage = (storage AND NOT (field_mask position bits)) OR FormatValue position bits v"

section \<open>Results\<close>

definition ErrorDescription_names :: "(string \<times> u32) list" where
  "ErrorDescription_names = [
     (''Success'', 0), (''InvalidSection'', 1000), (''TooLarge'', 1001), (''NotAuthorized'', 1002),
     (''AlreadyDone'', 1003), (''InvalidSize'', 1004), (''InvalidEnumValue'', 1005),
     (''InvalidCombination'', 1006), (''NoData'', 1007), (''Busy'', 1008),
     (''MisalignedAddress'', 1009), (''MisalignedSize'', 1010), (''OutOfMemory'', 1011),
     (''NotImplemented'', 1012), (''InvalidAddress'', 1013), (''InvalidPointer'', 1014),
     (''InvalidHandle'', 1015), (''NotInitialized'', 1016), (''AlreadyInitialized'', 1017),
     (''NotFound'', 1018), (''CancelRequested'', 1019), (''AlreadyExists'', 1020),
     (''OutOfRange'', 1021), (''Timeout'', 1022), (''InvalidResultValue'', 1023)]"

definition ErrorModule_names :: "(string \<times> u32) list" where
  "ErrorModule_names = [
     (''Common'', 0), (''Kernel'', 1), (''Util'', 2), (''FileServer'', 3), (''LoaderServer'', 4),
     (''TCB'', 5), (''OS'', 6), (''DBG'', 7), (''DMNT'', 8), (''PDN'', 9), (''GX'', 10),
     (''I2C'', 11), (''GPIO'', 12), (''DD'', 13), (''CODEC'', 14), (''SPI'', 15), (''PXI'', 16),
     (''FS'', 17), (''DI'', 18), (''HID'', 19), (''CAM'', 20), (''PI'', 21), (''PM'', 22),
     (''PM_LOW'', 23), (''FSI'', 24), (''SRV'', 25), (''NDM'', 26), (''NWM'', 27), (''SOC'', 28),
     (''LDR'', 29), (''ACC'', 30), (''RomFS'', 31), (''AM'', 32), (''HIO'', 33), (''Updater'', 34),
     (''MIC'', 35), (''FND'', 36), (''MP'', 37), (''MPWL'', 38), (''AC'', 39), (''HTTP'', 40),
     (''DSP'', 41), (''SND'', 42), (''DLP'', 43), (''HIO_LOW'', 44), (''CSND'', 45), (''SSL'', 46),
     (''AM_LOW'', 47), (''NEX'', 48), (''Friends'', 49), (''RDT'', 50), (''Applet'', 51),
     (''NIM'', 52), (''PTM'', 53), (''MIDI'', 54), (''MC'', 55), (''SWC'', 56), (''FatFS'', 57),
     (''NGC'', 58), (''CARD'', 59), (''CARDNOR'', 60), (''SDMC'', 61), (''BOSS'', 62), (''DBM'', 63),
     (''Config'', 64), (''PS'', 65), (''CEC'', 66), (''IR'', 67), (''UDS'', 68), (''PL'', 69),
     (''CUP'', 70), (''Gyroscope'', 71), (''MCU'', 72), (''NS'', 73), (''News'', 74), (''RO'', 75),
     (''GD'', 76), (''CardSPI'', 77), (''EC'', 78), (''WebBrowser'', 79), (''Test'', 80),
     (''ENC'', 81), (''PIA'', 82), (''ACT'', 83), (''VCTL'', 84), (''OLV'', 85), (''NEIA'', 86),
     (''NPNS'', 87), (''AVD'', 90), (''L2B'', 91), (''MVD'', 92), (''NFC'', 93), (''UART'', 94),
     (''SPM'', 95), (''QTM'', 96), (''NFP'', 97), (''Application'', 254), (''InvalidResult'', 255)]"

definition ErrorSummary_names :: "(string \<times> u32) list" where
  "ErrorSummary_names = [
     (''Success'', 0), (''NothingHappened'', 1), (''WouldBlock'', 2), (''OutOfResource'', 3),
     (''NotFound'', 4), (''InvalidState'', 5), (''NotSupported'', 6), (''InvalidArgument'', 7),
     (''WrongArgument'', 8), (''Canceled'', 9), (''StatusChanged'', 10), (''Internal'', 11),
     (''InvalidResult'', 63)]"

definition ErrorLevel_names :: "(string \<times> u32) list" where
  "ErrorLevel_names = [
     (''Success'', 0), (''Info'', 1), (''Status'', 25), (''Temporary'', 26), (''Permanent'', 27),
     (''Usage'', 28), (''Reinitialize'', 29), (''Reset'', 30), (''Fatal'', 31)]"

definition lookup_name :: "(string \<times> u32) list \<Rightarrow> string \<Rightarrow> u32" where
  "lookup_name table n = (case map_of table n of Some v \<Rightarrow> v | None \<Rightarrow> 0)"

abbreviation "desc_of \<equiv> lookup_name ErrorDescription_names"
abbreviation "module_of \<equiv> lookup_name ErrorModule_names"
abbreviation "summary_of \<equiv> lookup_name ErrorSummary_names"
abbreviation "level_of \<equiv> lookup_name ErrorLevel_names"

definition make_result :: "u32 \<Rightarrow> u32 \<Rightarrow> u32 \<Rightarrow> u32 \<Rightarrow> u32" where
  "make_result desc modul summ lev =
     FormatValue 0 10 desc OR FormatValue 10 8 modul OR FormatValue 21 6 summ OR FormatValue 27 5 lev"

definition IsError :: "u32 \<Rightarrow> bool" where
  "IsError raw \<longleftrightarrow> ExtractValue 31 1 raw = 1"

definition IsSuccess :: "u32 \<Rightarrow> bool" where
  "IsSuccess raw \<longleftrightarrow> ExtractValue 31 1 raw = 0"

section \<open>The kernel's codes\<close>

definition ErrCodes_names :: "(string \<times> u32) list" where
  "ErrCodes_names = [
     (''OutOfSharedMems'', 11), (''OutOfThreads'', 12), (''OutOfMutexes'', 13),
     (''OutOfSemaphores'', 14), (''OutOfEvents'', 15), (''OutOfTimers'', 16), (''OutOfHandles'', 19),
     (''SessionClosedByRemote'', 26), (''PortNameTooLong'', 30), (''WrongLockingThread'', 31),
     (''NoPendingSessions'', 35), (''WrongPermission'', 46), (''InvalidBufferDescriptor'', 48),
     (''OutOfAddressArbiters'', 51), (''MaxConnectionsReached'', 52), (''CommandTooLarge'', 54)]"

abbreviation "errcode_of \<equiv> lookup_name ErrCodes_names"

definition kernel_errors :: "(string \<times> u32) list" where
  "kernel_errors = [
     (''ResultOutOfHandles'', make_result (errcode_of ''OutOfHandles'') (module_of ''Kernel'') (summary_of ''OutOfResource'') (level_of ''Permanent'')),
     (''ResultSessionClosed'', make_result (errcode_of ''SessionClosedByRemote'') (module_of ''OS'') (summary_of ''Canceled'') (level_of ''Status'')),
     (''ResultPortNameTooLong'', make_result (errcode_of ''PortNameTooLong'') (module_of ''OS'') (summary_of ''InvalidArgument'') (level_of ''Usage'')),
     (''ResultWrongPermission'', make_result (errcode_of ''WrongPermission'') (module_of ''OS'') (summary_of ''WrongArgument'') (level_of ''Permanent'')),
     (''ResultInvalidBufferDescriptor'', make_result (errcode_of ''InvalidBufferDescriptor'') (module_of ''OS'') (summary_of ''WrongArgument'') (level_of ''Permanent'')),
     (''ResultMaxConnectionsReached'', make_result (errcode_of ''MaxConnectionsReached'') (module_of ''OS'') (summary_of ''WouldBlock'') (level_of ''Temporary'')),
     (''ResultNotAuthorized'', make_result (desc_of ''NotAuthorized'') (module_of ''OS'') (summary_of ''WrongArgument'') (level_of ''Permanent'')),
     (''ResultInvalidEnumValue'', make_result (desc_of ''InvalidEnumValue'') (module_of ''Kernel'') (summary_of ''InvalidArgument'') (level_of ''Permanent'')),
     (''ResultInvalidEnumValueFnd'', make_result (desc_of ''InvalidEnumValue'') (module_of ''FND'') (summary_of ''InvalidArgument'') (level_of ''Permanent'')),
     (''ResultInvalidCombination'', make_result (desc_of ''InvalidCombination'') (module_of ''OS'') (summary_of ''InvalidArgument'') (level_of ''Usage'')),
     (''ResultInvalidCombinationKernel'', make_result (desc_of ''InvalidCombination'') (module_of ''Kernel'') (summary_of ''WrongArgument'') (level_of ''Permanent'')),
     (''ResultMisalignedAddress'', make_result (desc_of ''MisalignedAddress'') (module_of ''OS'') (summary_of ''InvalidArgument'') (level_of ''Usage'')),
     (''ResultMisalignedSize'', make_result (desc_of ''MisalignedSize'') (module_of ''OS'') (summary_of ''InvalidArgument'') (level_of ''Usage'')),
     (''ResultOutOfMemory'', make_result (desc_of ''OutOfMemory'') (module_of ''Kernel'') (summary_of ''OutOfResource'') (level_of ''Permanent'')),
     (''ResultOutOfHeapMemory'', make_result (desc_of ''OutOfMemory'') (module_of ''OS'') (summary_of ''OutOfResource'') (level_of ''Status'')),
     (''ResultNotImplemented'', make_result (desc_of ''NotImplemented'') (module_of ''OS'') (summary_of ''InvalidArgument'') (level_of ''Usage'')),
     (''ResultInvalidAddress'', make_result (desc_of ''InvalidAddress'') (module_of ''OS'') (summary_of ''InvalidArgument'') (level_of ''Usage'')),
     (''ResultInvalidAddressState'', make_result (desc_of ''InvalidAddress'') (module_of ''OS'') (summary_of ''InvalidState'') (level_of ''Usage'')),
     (''ResultInvalidPointer'', make_result (desc_of ''InvalidPointer'') (module_of ''Kernel'') (summary_of ''InvalidArgument'') (level_of ''Permanent'')),
     (''ResultInvalidHandle'', make_result (desc_of ''InvalidHandle'') (module_of ''Kernel'') (summary_of ''InvalidArgument'') (level_of ''Permanent'')),
     (''ResultInvalidHandleOs'', make_result (desc_of ''InvalidHandle'') (module_of ''OS'') (summary_of ''WrongArgument'') (level_of ''Permanent'')),
     (''ResultNotFound'', make_result (desc_of ''NotFound'') (module_of ''Kernel'') (summary_of ''NotFound'') (level_of ''Permanent'')),
     (''ResultOutOfRange'', make_result (desc_of ''OutOfRange'') (module_of ''OS'') (summary_of ''InvalidArgument'') (level_of ''Usage'')),
     (''ResultOutOfRangeKernel'', make_result (desc_of ''OutOfRange'') (module_of ''Kernel'') (summary_of ''InvalidArgument'') (level_of ''Permanent'')),
     (''ResultTimeout'', make_result (desc_of ''Timeout'') (module_of ''OS'') (summary_of ''StatusChanged'') (level_of ''Info'')),
     (''ResultNoPendingSessions'', make_result (errcode_of ''NoPendingSessions'') (module_of ''OS'') (summary_of ''WouldBlock'') (level_of ''Permanent''))]"

text \<open>The values the comments beside the constants give.\<close>

definition documented_errors :: "(string \<times> u32) list" where
  "documented_errors = [
     (''ResultOutOfHandles'', 0xD8600413), (''ResultSessionClosed'', 0xC920181A),
     (''ResultPortNameTooLong'', 0xE0E0181E), (''ResultMaxConnectionsReached'', 0xD0401834),
     (''ResultNotAuthorized'', 0xD9001BEA), (''ResultInvalidEnumValue'', 0xD8E007ED),
     (''ResultInvalidEnumValueFnd'', 0xD8E093ED), (''ResultInvalidCombination'', 0xE0E01BEE),
     (''ResultInvalidCombinationKernel'', 0xD90007EE), (''ResultMisalignedAddress'', 0xE0E01BF1),
     (''ResultMisalignedSize'', 0xE0E01BF2), (''ResultOutOfMemory'', 0xD86007F3),
     (''ResultOutOfHeapMemory'', 0xC860180A), (''ResultNotImplemented'', 0xE0E01BF4),
     (''ResultInvalidAddress'', 0xE0E01BF5), (''ResultInvalidAddressState'', 0xE0A01BF5),
     (''ResultInvalidPointer'', 0xD8E007F6), (''ResultInvalidHandle'', 0xD8E007F7),
     (''ResultInvalidHandleOs'', 0xD9001BF7), (''ResultNotFound'', 0xD88007FA),
     (''ResultOutOfRange'', 0xE0E01BFD), (''ResultOutOfRangeKernel'', 0xD8E007FD),
     (''ResultNoPendingSessions'', 0xD8401823)]"

section \<open>Fields\<close>

lemma bit_field_mask: "bit (field_mask position bits :: 'a::len word) n
    \<longleftrightarrow> n < LENGTH('a) \<and> position \<le> n \<and> n < position + bits"
  by (auto simp: field_mask_def bit_simps)

lemma bit_ExtractValue: "bit (ExtractValue position bits w :: 'a::len word) n
    \<longleftrightarrow> position + n < LENGTH('a) \<and> n < bits \<and> bit w (position + n)"
  by (auto simp: ExtractValue_def bit_simps bit_field_mask add.commute dest: bit_imp_le_length)

lemma bit_Assign: "bit (Assign position bits v w :: 'a::len word) n
    \<longleftrightarrow> n < LENGTH('a) \<and> (if position \<le> n \<and> n < position + bits then bit v (n - position) else bit w n)"
  by (auto simp: Assign_def FormatValue_def bit_simps bit_field_mask)

text \<open>
  a field that fits the storage reads back what was assigned to it, cut to its width; a disjoint
  field keeps its value.
\<close>

theorem Assign_fields:
  assumes "position + bits \<le> LENGTH('a)"
  shows "ExtractValue position bits (Assign position bits v w :: 'a::len word) = take_bit bits v
    \<and> (position + bits \<le> p \<or> p + b \<le> position \<longrightarrow>
        ExtractValue p b (Assign position bits v w) = ExtractValue p b w)"
  using assms by (auto intro!: bit_word_eqI simp: bit_ExtractValue bit_Assign bit_simps)

lemma Assign_fields_witness:
  "ExtractValue 10 8 (Assign 10 8 0x1FF 0xD8600413 :: u32) = 0xFF
   \<and> ExtractValue 21 6 (Assign 10 8 0x1FF 0xD8600413 :: u32) = ExtractValue 21 6 (0xD8600413 :: u32)"
proof -
  have "ExtractValue 10 8 (Assign 10 8 0x1FF 0xD8600413 :: u32) = take_bit 8 0x1FF
      \<and> (18 \<le> (21 :: nat) \<longrightarrow> ExtractValue 21 6 (Assign 10 8 0x1FF 0xD8600413 :: u32) = ExtractValue 21 6 (0xD8600413 :: u32))"
    using Assign_fields [where 'a = 32, of 10 8 "0x1FF" "0xD8600413" 21 6] by simp
  then show ?thesis by (simp add: take_bit_eq_mask mask_eq_exp_minus_1)
qed

text \<open>
  C15: a result carries its four parts apart from each other, each cut to its field; it is an error
  exactly when its level is 16 or above.
\<close>

theorem make_result_fields:
  "ExtractValue 0 10 (make_result d m s l) = take_bit 10 d
   \<and> ExtractValue 10 8 (make_result d m s l) = take_bit 8 m
   \<and> ExtractValue 21 6 (make_result d m s l) = take_bit 6 s
   \<and> ExtractValue 27 5 (make_result d m s l) = take_bit 5 l
   \<and> IsError (make_result d m s l) = bit l 4
   \<and> IsSuccess (make_result d m s l) = (\<not> bit l 4)"
proof -
  have bits: "bit (make_result d m s l) n \<longleftrightarrow> (if n < 10 then bit d n else if n < 18 then bit m (n - 10)
      else if n < 21 then False else if n < 27 then bit s (n - 21) else n < 32 \<and> bit l (n - 27))" for n
    by (auto simp: make_result_def FormatValue_def bit_simps bit_field_mask)
  have flag: "ExtractValue 31 1 (make_result d m s l) = (if bit l 4 then 1 else 0)"
    by (auto intro!: bit_word_eqI simp: bit_ExtractValue bits bit_simps)
  show ?thesis
    by (auto intro!: bit_word_eqI simp: bit_ExtractValue bits bit_simps IsError_def IsSuccess_def flag [simplified])
qed

text \<open>
  each of the kernel's codes has the value the comment beside it gives, except
  \<open>ResultOutOfHeapMemory\<close>, whose comment has the description 10 in place of 1011.
\<close>

theorem documented_codes:
  "map (\<lambda>(n, r). (n, map_of kernel_errors n)) documented_errors =
   map (\<lambda>(n, r). (n, Some (if n = ''ResultOutOfHeapMemory'' then 0xC8601BF3 else r))) documented_errors"
  by code_simp

end
