(* ===== verification/ThreadQueueList.thy ===== *)
theory ThreadQueueList imports Prelude "HOL-Library.Monad_Syntax" "HOL-Library.Multiset" begin

text \<open>
  The multi-level queue of src/common/thread_queue_list.h: one deque per priority, and a linked
  list, threaded through the levels in ascending order, of those that have ever been prepared. The
  contract \<open>ready_queue\<close> is what the scheduler relies on.

  A pointer to a level is its index; following the null pointer is the outcome \<^const>\<open>None\<close>.
\<close>

section \<open>The queue\<close>

datatype link = UnlinkedTag | NullLink | Level nat

record 'a tql =
  q_first :: link
  q_next :: "nat \<Rightarrow> link"
  q_data :: "nat \<Rightarrow> 'a list"

abbreviation NUM_QUEUES :: nat where "NUM_QUEUES \<equiv> 64"

definition tql_init :: "'a tql" where
  "tql_init = \<lparr>q_first = NullLink, q_next = (\<lambda>_. UnlinkedTag), q_data = (\<lambda>_. [])\<rparr>"

definition q_contains :: "'a tql \<Rightarrow> 'a \<Rightarrow> nat option" where
  "q_contains q x = find (\<lambda>i. x \<in> set (q_data q i)) [0..<NUM_QUEUES]"

text \<open>The walks along the links; a list of links visits each level once, so \<open>n\<close> is at most its number.\<close>

fun get_first_from :: "nat \<Rightarrow> 'a tql \<Rightarrow> link \<Rightarrow> 'a option" where
  "get_first_from 0 q cur = None"
| "get_first_from (Suc n) q cur =
     (case cur of
        Level p \<Rightarrow> if q_data q p \<noteq> [] then Some (hd (q_data q p)) else get_first_from n q (q_next q p)
      | _ \<Rightarrow> None)"

definition get_first :: "'a tql \<Rightarrow> 'a option" where
  "get_first q = get_first_from (Suc NUM_QUEUES) q (q_first q)"

definition pop_level :: "'a tql \<Rightarrow> nat \<Rightarrow> 'a option \<times> 'a tql" where
  "pop_level q p = (Some (hd (q_data q p)), q\<lparr>q_data := (q_data q)(p := tl (q_data q p))\<rparr>)"

fun pop_first_from :: "nat \<Rightarrow> 'a tql \<Rightarrow> link \<Rightarrow> 'a option \<times> 'a tql" where
  "pop_first_from 0 q cur = (None, q)"
| "pop_first_from (Suc n) q cur =
     (case cur of
        Level p \<Rightarrow> if q_data q p \<noteq> [] then pop_level q p else pop_first_from n q (q_next q p)
      | _ \<Rightarrow> (None, q))"

definition pop_first :: "'a tql \<Rightarrow> 'a option \<times> 'a tql" where
  "pop_first q = pop_first_from (Suc NUM_QUEUES) q (q_first q)"

text \<open>
  The loop of \<open>pop_first_better\<close> compares pointers with the stop level's: the null pointer is
  below it and would be followed.
\<close>

fun pop_better_from :: "nat \<Rightarrow> 'a tql \<Rightarrow> nat \<Rightarrow> link \<Rightarrow> ('a option \<times> 'a tql) option" where
  "pop_better_from 0 q stop cur = None"
| "pop_better_from (Suc n) q stop cur =
     (case cur of
        Level p \<Rightarrow>
          if p < stop
          then (if q_data q p \<noteq> [] then Some (pop_level q p) else pop_better_from n q stop (q_next q p))
          else Some (None, q)
      | _ \<Rightarrow> None)"

definition pop_first_better :: "'a tql \<Rightarrow> nat \<Rightarrow> ('a option \<times> 'a tql) option" where
  "pop_first_better q priority = pop_better_from (Suc NUM_QUEUES) q priority (q_first q)"

definition push_front :: "nat \<Rightarrow> 'a \<Rightarrow> 'a tql \<Rightarrow> 'a tql" where
  "push_front p x q = q\<lparr>q_data := (q_data q)(p := x # q_data q p)\<rparr>"

definition push_back :: "nat \<Rightarrow> 'a \<Rightarrow> 'a tql \<Rightarrow> 'a tql" where
  "push_back p x q = q\<lparr>q_data := (q_data q)(p := q_data q p @ [x])\<rparr>"

definition q_remove :: "nat \<Rightarrow> 'a \<Rightarrow> 'a tql \<Rightarrow> 'a tql" where
  "q_remove p x q = q\<lparr>q_data := (q_data q)(p := filter (\<lambda>y. y \<noteq> x) (q_data q p))\<rparr>"

definition q_rotate :: "nat \<Rightarrow> 'a tql \<Rightarrow> 'a tql" where
  "q_rotate p q =
     (if 1 < length (q_data q p)
      then q\<lparr>q_data := (q_data q)(p := tl (q_data q p) @ [hd (q_data q p)])\<rparr> else q)"

definition q_empty :: "'a tql \<Rightarrow> nat \<Rightarrow> bool" where
  "q_empty q p \<longleftrightarrow> q_data q p = []"

text \<open>The search for the nearest linked level below, from \<open>i - 1\<close> down.\<close>

fun linked_below :: "'a tql \<Rightarrow> nat \<Rightarrow> nat option" where
  "linked_below q 0 = None"
| "linked_below q (Suc i) = (if q_next q i \<noteq> UnlinkedTag then Some i else linked_below q i)"

definition q_link :: "nat \<Rightarrow> 'a tql \<Rightarrow> 'a tql" where
  "q_link p q =
     (case linked_below q p of
        Some i \<Rightarrow> q\<lparr>q_next := (q_next q)(p := q_next q i, i := Level p)\<rparr>
      | None \<Rightarrow> q\<lparr>q_next := (q_next q)(p := q_first q), q_first := Level p\<rparr>)"

definition q_prepare :: "nat \<Rightarrow> 'a tql \<Rightarrow> 'a tql" where
  "q_prepare p q = (if q_next q p = UnlinkedTag then q_link p q else q)"

definition q_move :: "'a \<Rightarrow> nat \<Rightarrow> nat \<Rightarrow> 'a tql \<Rightarrow> 'a tql" where
  "q_move x old_priority new_priority q =
     push_back new_priority x (q_prepare new_priority (q_remove old_priority x q))"

section \<open>The linked levels\<close>

text \<open>The links from one level on are the levels of a list, ascending.\<close>

fun links :: "'a tql \<Rightarrow> link \<Rightarrow> nat list \<Rightarrow> bool" where
  "links q l [] \<longleftrightarrow> l = NullLink"
| "links q l (p # ps) \<longleftrightarrow> l = Level p \<and> links q (q_next q p) ps"

definition prepared :: "'a tql \<Rightarrow> nat \<Rightarrow> bool" where
  "prepared q p \<longleftrightarrow> q_next q p \<noteq> UnlinkedTag"

definition linked :: "'a tql \<Rightarrow> nat list \<Rightarrow> bool" where
  "linked q ps \<longleftrightarrow> links q (q_first q) ps \<and> sorted_wrt (<) ps \<and> set ps = {p. prepared q p}
     \<and> (\<forall>p \<in> set ps. p < NUM_QUEUES)"

text \<open>The invariant: the links reach exactly the prepared levels, and only those hold threads.\<close>

definition tql_ok :: "'a tql \<Rightarrow> bool" where
  "tql_ok q \<longleftrightarrow> (\<exists>ps. linked q ps) \<and> (\<forall>p. q_data q p \<noteq> [] \<longrightarrow> prepared q p)"

lemma links_data [simp]: "links (q\<lparr>q_data := d\<rparr>) l ps = links q l ps"
  by (induction ps arbitrary: l) auto

lemma prepared_data [simp]: "prepared (q\<lparr>q_data := d\<rparr>) p = prepared q p"
  by (simp add: prepared_def)

lemma linked_data [simp]: "linked (q\<lparr>q_data := d\<rparr>) ps = linked q ps"
  by (simp add: linked_def)

lemma tql_ok_init [simp]: "tql_ok tql_init"
  by (auto simp: tql_ok_def linked_def tql_init_def prepared_def intro!: exI [of _ "[]"])

lemma linked_length: "linked q ps \<Longrightarrow> length ps \<le> NUM_QUEUES"
proof -
  assume l: "linked q ps"
  then have "distinct ps" by (auto simp: linked_def strict_sorted_iff)
  then have "length ps = card (set ps)" by (simp add: distinct_card)
  also have "\<dots> \<le> card {..<NUM_QUEUES}" using l by (intro card_mono) (auto simp: linked_def)
  finally show ?thesis by simp
qed

section \<open>Taking the first thread\<close>

definition best_level :: "'a tql \<Rightarrow> nat \<Rightarrow> bool" where
  "best_level q p \<longleftrightarrow> q_data q p \<noteq> [] \<and> (\<forall>i < p. q_data q i = [])"

lemma pop_first_from_links:
  "links q l ps \<Longrightarrow> length ps < n \<Longrightarrow>
    pop_first_from n q l = (case find (\<lambda>p. q_data q p \<noteq> []) ps of None \<Rightarrow> (None, q) | Some p \<Rightarrow> pop_level q p)"
proof (induction ps arbitrary: n l)
  case Nil
  then show ?case by (cases n) auto
next
  case (Cons p ps)
  then show ?case by (cases n) auto
qed

lemma get_first_from_links:
  "links q l ps \<Longrightarrow> length ps < n \<Longrightarrow>
    get_first_from n q l = map_option (\<lambda>p. hd (q_data q p)) (find (\<lambda>p. q_data q p \<noteq> []) ps)"
proof (induction ps arbitrary: n l)
  case Nil
  then show ?case by (cases n) auto
next
  case (Cons p ps)
  then show ?case by (cases n) auto
qed

lemma pop_better_from_links:
  "links q l ps \<Longrightarrow> length ps < n \<Longrightarrow> stop \<in> set ps \<Longrightarrow> sorted_wrt (<) ps \<Longrightarrow>
    pop_better_from n q stop l = Some (case find (\<lambda>p. q_data q p \<noteq> []) (takeWhile (\<lambda>p. p < stop) ps) of
      None \<Rightarrow> (None, q) | Some p \<Rightarrow> pop_level q p)"
proof (induction ps arbitrary: n l)
  case (Cons p ps)
  then obtain m where n: "n = Suc m" by (cases n) auto
  show ?case
  proof (cases "p < stop")
    case True
    with Cons n show ?thesis by auto
  next
    case False
    with Cons.prems n show ?thesis by auto
  qed
qed simp

lemma find_best:
  assumes "tql_ok q" "linked q ps"
  shows "find (\<lambda>p. q_data q p \<noteq> []) ps = Some p \<longleftrightarrow> best_level q p"
proof -
  have mem: "q_data q i \<noteq> [] \<Longrightarrow> i \<in> set ps" for i
    using assms by (auto simp: tql_ok_def linked_def)
  have sorted: "sorted_wrt (<) ps" using assms(2) by (simp add: linked_def)
  show ?thesis
  proof
    assume "find (\<lambda>p. q_data q p \<noteq> []) ps = Some p"
    then obtain k where k: "k < length ps" "q_data q (ps ! k) \<noteq> []" "p = ps ! k"
      "\<forall>j < k. \<not> q_data q (ps ! j) \<noteq> []" by (auto simp: find_Some_iff)
    have "q_data q i = []" if "i < p" for i
    proof (rule ccontr)
      assume ne: "q_data q i \<noteq> []"
      then obtain j where j: "j < length ps" "ps ! j = i" using mem by (metis in_set_conv_nth)
      have "j < k"
      proof (rule ccontr)
        assume "\<not> j < k"
        then have "ps ! k \<le> ps ! j"
          using sorted j(1) by (metis le_neq_implies_less linorder_not_less order_less_imp_le sorted_wrt_nth_less)
        with that j(2) k(3) show False by simp
      qed
      with k(4) j(2) ne show False by blast
    qed
    with k show "best_level q p" by (simp add: best_level_def)
  next
    assume b: "best_level q p"
    then have "p \<in> set ps" using mem by (simp add: best_level_def)
    then obtain k where k: "k < length ps" "ps ! k = p" by (metis in_set_conv_nth)
    have "\<forall>j < k. q_data q (ps ! j) = []"
      using b sorted k by (metis best_level_def sorted_wrt_nth_less)
    with k b show "find (\<lambda>p. q_data q p \<noteq> []) ps = Some p"
      by (auto simp: find_Some_iff best_level_def)
  qed
qed

lemma best_level_exists: "q_data q p \<noteq> [] \<Longrightarrow> \<exists>i. best_level q i"
  unfolding best_level_def using exists_least_iff [of "\<lambda>i. q_data q i \<noteq> []"] by blast

lemma best_level_unique: "best_level q p \<Longrightarrow> best_level q r \<Longrightarrow> p = r"
  unfolding best_level_def by (metis linorder_neqE_nat)

lemma find_none:
  assumes "tql_ok q" "linked q ps"
  shows "find (\<lambda>p. q_data q p \<noteq> []) ps = None \<longleftrightarrow> (\<forall>p. q_data q p = [])"
  using assms by (auto simp: find_None_iff tql_ok_def linked_def)

lemma pop_first_best:
  assumes "tql_ok q"
  shows "best_level q p \<Longrightarrow> pop_first q = pop_level q p"
    and "\<forall>p. q_data q p = [] \<Longrightarrow> pop_first q = (None, q)"
proof -
  obtain ps where l: "linked q ps" using assms by (auto simp: tql_ok_def)
  then have "pop_first q = (case find (\<lambda>p. q_data q p \<noteq> []) ps of None \<Rightarrow> (None, q) | Some p \<Rightarrow> pop_level q p)"
    unfolding pop_first_def using linked_length [OF l] by (intro pop_first_from_links) (simp_all add: linked_def)
  then show "best_level q p \<Longrightarrow> pop_first q = pop_level q p"
    and "\<forall>p. q_data q p = [] \<Longrightarrow> pop_first q = (None, q)"
    using find_best [OF assms l, of p] find_none [OF assms l] by simp_all
qed

lemma get_first_best:
  assumes "tql_ok q"
  shows "best_level q p \<Longrightarrow> get_first q = Some (hd (q_data q p))"
    and "\<forall>p. q_data q p = [] \<Longrightarrow> get_first q = None"
proof -
  obtain ps where l: "linked q ps" using assms by (auto simp: tql_ok_def)
  then have "get_first q = map_option (\<lambda>p. hd (q_data q p)) (find (\<lambda>p. q_data q p \<noteq> []) ps)"
    unfolding get_first_def using linked_length [OF l] by (intro get_first_from_links) (simp_all add: linked_def)
  then show "best_level q p \<Longrightarrow> get_first q = Some (hd (q_data q p))"
    and "\<forall>p. q_data q p = [] \<Longrightarrow> get_first q = None"
    using find_best [OF assms l, of p] find_none [OF assms l] by simp_all
qed

lemma pop_first_better_best:
  assumes "tql_ok q" "prepared q stop"
  shows "best_level q p \<Longrightarrow> p < stop \<Longrightarrow> pop_first_better q stop = Some (pop_level q p)"
    and "\<forall>p < stop. q_data q p = [] \<Longrightarrow> pop_first_better q stop = Some (None, q)"
proof -
  obtain ps where l: "linked q ps" using assms by (auto simp: tql_ok_def)
  have stop: "stop \<in> set ps" using assms(2) l by (simp add: linked_def)
  have sorted: "sorted_wrt (<) ps" using l by (simp add: linked_def)
  have better: "pop_first_better q stop = Some (case find (\<lambda>p. q_data q p \<noteq> []) (takeWhile (\<lambda>p. p < stop) ps) of
      None \<Rightarrow> (None, q) | Some p \<Rightarrow> pop_level q p)"
    unfolding pop_first_better_def using linked_length [OF l] stop sorted l
    by (intro pop_better_from_links) (simp_all add: linked_def)
  show "pop_first_better q stop = Some (pop_level q p)" if "best_level q p" "p < stop"
  proof -
    from find_best [OF assms(1) l, of p] that(1) obtain k where
      k: "k < length ps" "ps ! k = p" "\<forall>j < k. q_data q (ps ! j) = []" "q_data q p \<noteq> []"
      by (auto simp: find_Some_iff)
    have "\<forall>j \<le> k. ps ! j < stop"
      using k sorted that(2) by (metis le_neq_implies_less order_less_trans sorted_wrt_nth_less)
    then have len: "k < length (takeWhile (\<lambda>p. p < stop) ps)"
      using k(1) by (intro length_takeWhile_less_P_nth [THEN less_le_trans [OF lessI]]) auto
    then have "find (\<lambda>p. q_data q p \<noteq> []) (takeWhile (\<lambda>p. p < stop) ps) = Some p"
      unfolding find_Some_iff using k by (intro exI [of _ k]) (auto simp: takeWhile_nth)
    with better show ?thesis by simp
  qed
  show "pop_first_better q stop = Some (None, q)" if "\<forall>p < stop. q_data q p = []"
  proof -
    have "find (\<lambda>p. q_data q p \<noteq> []) (takeWhile (\<lambda>p. p < stop) ps) = None"
      using that by (auto simp: find_None_iff dest: set_takeWhileD)
    with better show ?thesis by simp
  qed
qed

section \<open>Preparing a level\<close>

fun seg :: "'a tql \<Rightarrow> link \<Rightarrow> nat list \<Rightarrow> link \<Rightarrow> bool" where
  "seg q l [] m \<longleftrightarrow> l = m"
| "seg q l (p # ps) m \<longleftrightarrow> l = Level p \<and> seg q (q_next q p) ps m"

lemma links_append: "links q l (A @ B) \<longleftrightarrow> (\<exists>m. seg q l A m \<and> links q m B)"
  by (induction A arbitrary: l) auto

lemma links_cong: "\<forall>x \<in> set ps. q_next q' x = q_next q x \<Longrightarrow> links q' l ps = links q l ps"
  by (induction ps arbitrary: l) auto

lemma seg_cong: "\<forall>x \<in> set ps. q_next q' x = q_next q x \<Longrightarrow> seg q' l ps m = seg q l ps m"
  by (induction ps arbitrary: l) auto

lemma linked_below_Some:
  "linked_below q p = Some i \<Longrightarrow> i < p \<and> prepared q i \<and> (\<forall>j. i < j \<and> j < p \<longrightarrow> \<not> prepared q j)"
  by (induction p) (auto simp: prepared_def less_Suc_eq split: if_splits)

lemma linked_below_None: "linked_below q p = None \<Longrightarrow> \<forall>j < p. \<not> prepared q j"
  by (induction p) (auto simp: prepared_def less_Suc_eq split: if_splits)

lemma linked_link:
  assumes l: "linked q ps" and p: "\<not> prepared q p" "p < NUM_QUEUES"
  shows "\<exists>ps'. linked (q_link p q) ps' \<and> set ps' = insert p (set ps)"
proof (cases "linked_below q p")
  case None
  have above: "\<forall>x \<in> set ps. p < x"
  proof
    fix x assume "x \<in> set ps"
    then have "prepared q x" using l by (simp add: linked_def)
    then have "\<not> x < p" "x \<noteq> p" using linked_below_None [OF None] p(1) by auto
    then show "p < x" by simp
  qed
  have n: "q_next (q_link p q) = (q_next q)(p := q_first q)" "q_first (q_link p q) = Level p"
    using None by (simp_all add: q_link_def)
  have "links (q_link p q) (q_first q) ps"
    using l above by (subst links_cong [of ps _ q]) (auto simp: n linked_def)
  moreover have "q_first q \<noteq> UnlinkedTag" using l by (cases ps) (auto simp: linked_def)
  ultimately have "linked (q_link p q) (p # ps)"
    using l above p by (auto simp: linked_def n prepared_def)
  then show ?thesis by (intro exI [of _ "p # ps"]) simp
next
  case (Some i)
  from linked_below_Some [OF Some] have i: "i < p" "prepared q i" "\<And>j. i < j \<Longrightarrow> j < p \<Longrightarrow> \<not> prepared q j"
    by auto
  then have "i \<in> set ps" using l by (simp add: linked_def)
  then obtain A B where ps: "ps = A @ i # B" by (meson split_list)
  have sorted: "sorted_wrt (<) (A @ i # B)" using l by (simp add: linked_def ps)
  have A: "\<forall>x \<in> set A. x < i" and B: "\<forall>x \<in> set B. i < x" using sorted by (auto simp: sorted_wrt_append)
  have "\<forall>x \<in> set B. prepared q x" using l by (auto simp: linked_def ps)
  with B i(3) p(1) have B': "\<forall>x \<in> set B. p < x" by (metis linorder_neqE_nat)
  have n: "q_next (q_link p q) = (q_next q)(p := q_next q i, i := Level p)" "q_first (q_link p q) = q_first q"
    using Some by (simp_all add: q_link_def)
  obtain m where m: "seg q (q_first q) A m" "m = Level i" "links q (q_next q i) B"
    using l by (auto simp: linked_def ps links_append)
  have "seg (q_link p q) (q_first q) A m"
    using m(1) A i(1) by (subst seg_cong [of A _ q]) (auto simp: n)
  moreover have "links (q_link p q) (q_next q i) B"
    using m(3) B B' by (subst links_cong [of B _ q]) (auto simp: n)
  ultimately have "links (q_link p q) (q_first (q_link p q)) (A @ i # p # B)"
    using m(2) i(1) by (auto simp: links_append n)
  moreover have "sorted_wrt (<) (A @ i # p # B)"
    using sorted A B' i(1) by (auto simp: sorted_wrt_append)
  moreover have "q_next q i \<noteq> UnlinkedTag" using i(2) by (simp add: prepared_def)
  then have "set (A @ i # p # B) = {x. prepared (q_link p q) x}"
    using l by (auto simp: linked_def ps n prepared_def)
  ultimately have "linked (q_link p q) (A @ i # p # B)"
    using l p(2) by (auto simp: linked_def ps)
  then show ?thesis by (intro exI [of _ "A @ i # p # B"]) (auto simp: ps)
qed

lemma q_link_data [simp]: "q_data (q_link p q) = q_data q"
  by (simp add: q_link_def split: option.split)

lemma q_prepare_data [simp]: "q_data (q_prepare p q) = q_data q"
  by (simp add: q_prepare_def)

lemma prepare_ok:
  assumes "tql_ok q" "p < NUM_QUEUES"
  shows "tql_ok (q_prepare p q)" "prepared (q_prepare p q) x \<longleftrightarrow> x = p \<or> prepared q x"
proof -
  obtain ps where l: "linked q ps" using assms(1) by (auto simp: tql_ok_def)
  have "tql_ok (q_prepare p q) \<and> (prepared (q_prepare p q) x \<longleftrightarrow> x = p \<or> prepared q x)"
  proof (cases "prepared q p")
    case True
    with assms(1) show ?thesis by (auto simp: q_prepare_def prepared_def)
  next
    case False
    from linked_link [OF l False assms(2)] obtain ps' where
      l': "linked (q_link p q) ps'" "set ps' = insert p (set ps)" by blast
    then have "prepared (q_link p q) y \<longleftrightarrow> y = p \<or> prepared q y" for y
      using l by (auto simp: linked_def)
    then show ?thesis
      using assms(1) False l' by (auto simp: tql_ok_def q_prepare_def prepared_def [of q p])
  qed
  then show "tql_ok (q_prepare p q)" "prepared (q_prepare p q) x \<longleftrightarrow> x = p \<or> prepared q x" by simp_all
qed

section \<open>The scheduler's contract\<close>

text \<open>
  What the scheduler relies on, over a view \<open>level\<close> of the queue as one list per priority: which
  operations change which list, and that the first thread of the best non-empty level is taken.
\<close>

locale ready_queue =
  fixes ok :: "'q \<Rightarrow> bool" and level :: "'q \<Rightarrow> nat \<Rightarrow> 'a list" and usable :: "'q \<Rightarrow> nat \<Rightarrow> bool"
    and prep :: "nat \<Rightarrow> 'q \<Rightarrow> 'q" and add :: "nat \<Rightarrow> 'a \<Rightarrow> 'q \<Rightarrow> 'q" and del :: "nat \<Rightarrow> 'a \<Rightarrow> 'q \<Rightarrow> 'q"
    and pop :: "'q \<Rightarrow> 'a option \<times> 'q" and pop_better :: "'q \<Rightarrow> nat \<Rightarrow> ('a option \<times> 'q) option"
  assumes prep_level: "level (prep p q) = level q"
    and ok_level: "ok q \<Longrightarrow> level q p \<noteq> [] \<Longrightarrow> p < NUM_QUEUES \<and> usable q p"
    and prep_ok: "ok q \<Longrightarrow> p < NUM_QUEUES \<Longrightarrow> ok (prep p q) \<and> (usable (prep p q) r \<longleftrightarrow> r = p \<or> usable q r)"
    and add_level: "level (add p x q) = (level q)(p := level q p @ [x])"
    and add_ok: "ok q \<Longrightarrow> usable q p \<Longrightarrow> ok (add p x q) \<and> usable (add p x q) = usable q"
    and del_level: "level (del p x q) = (level q)(p := filter (\<lambda>y. y \<noteq> x) (level q p))"
    and del_ok: "ok q \<Longrightarrow> ok (del p x q) \<and> usable (del p x q) = usable q"
    and pop_empty: "ok q \<Longrightarrow> \<forall>p. level q p = [] \<Longrightarrow> pop q = (None, q)"
    and pop_best: "ok q \<Longrightarrow> level q p \<noteq> [] \<Longrightarrow> \<forall>i < p. level q i = [] \<Longrightarrow>
      \<exists>q'. pop q = (Some (hd (level q p)), q') \<and> ok q' \<and> usable q' = usable q
        \<and> level q' = (level q)(p := tl (level q p))"
    and better_none: "ok q \<Longrightarrow> usable q s \<Longrightarrow> \<forall>i < s. level q i = [] \<Longrightarrow> pop_better q s = Some (None, q)"
    and better_best: "ok q \<Longrightarrow> usable q s \<Longrightarrow> p < s \<Longrightarrow> level q p \<noteq> [] \<Longrightarrow> \<forall>i < p. level q i = [] \<Longrightarrow>
      \<exists>q'. pop_better q s = Some (Some (hd (level q p)), q') \<and> ok q' \<and> usable q' = usable q
        \<and> level q' = (level q)(p := tl (level q p))"
begin

lemma least_level: "level q p \<noteq> [] \<Longrightarrow> \<exists>i \<le> p. level q i \<noteq> [] \<and> (\<forall>j < i. level q j = [])"
  using exists_least_iff [of "\<lambda>i. level q i \<noteq> []"] by (metis linorder_not_less)

text \<open>Whatever is popped, it was the head of a level with nothing in the levels above.\<close>

lemma pop_cases:
  assumes "ok q"
  obtains "pop q = (None, q)" "\<forall>p. level q p = []"
  | p q' where "pop q = (Some (hd (level q p)), q')" "ok q'" "usable q' = usable q"
      "level q p \<noteq> []" "\<forall>i < p. level q i = []" "level q' = (level q)(p := tl (level q p))"
proof (cases "\<forall>p. level q p = []")
  case True
  with pop_empty [OF assms] that(1) show ?thesis by blast
next
  case False
  then obtain p where "level q p \<noteq> []" "\<forall>i < p. level q i = []" using least_level by blast
  with pop_best [OF assms this] that(2) show ?thesis by blast
qed

lemma better_cases:
  assumes "ok q" "usable q s"
  obtains "pop_better q s = Some (None, q)" "\<forall>p < s. level q p = []"
  | p q' where "pop_better q s = Some (Some (hd (level q p)), q')" "ok q'" "usable q' = usable q" "p < s"
      "level q p \<noteq> []" "\<forall>i < p. level q i = []" "level q' = (level q)(p := tl (level q p))"
proof (cases "\<forall>p < s. level q p = []")
  case True
  with better_none [OF assms] that(1) show ?thesis by blast
next
  case False
  then obtain r where "r < s" "level q r \<noteq> []" by blast
  with least_level obtain p where p: "p < s" "level q p \<noteq> []" "\<forall>i < p. level q i = []"
    by (metis order_le_less_trans)
  with better_best [OF assms p] that(2) show ?thesis by blast
qed

end

interpretation tq: ready_queue tql_ok q_data prepared q_prepare push_back q_remove pop_first pop_first_better
proof unfold_locales
  fix q :: "'a tql" and p s r :: nat and x :: 'a
  show "q_data (q_prepare p q) = q_data q"
    and "q_data (push_back p x q) = (q_data q)(p := q_data q p @ [x])"
    and "q_data (q_remove p x q) = (q_data q)(p := filter (\<lambda>y. y \<noteq> x) (q_data q p))"
    by (simp_all add: push_back_def q_remove_def)
  assume ok: "tql_ok q"
  show "p < NUM_QUEUES \<and> prepared q p" if "q_data q p \<noteq> []"
    using ok that by (auto simp: tql_ok_def linked_def)
  have keep: "tql_ok (q\<lparr>q_data := (q_data q)(p := tl (q_data q p))\<rparr>)"
    using ok by (auto simp: tql_ok_def) (metis list.sel(2))
  show "tql_ok (q_prepare p q) \<and> (prepared (q_prepare p q) r \<longleftrightarrow> r = p \<or> prepared q r)" if "p < NUM_QUEUES"
    using prepare_ok [OF ok that] by simp
  show "tql_ok (push_back p x q) \<and> prepared (push_back p x q) = prepared q" if "prepared q p"
    using ok that by (auto simp: tql_ok_def push_back_def fun_eq_iff)
  show "tql_ok (q_remove p x q) \<and> prepared (q_remove p x q) = prepared q"
    using ok by (auto simp: tql_ok_def q_remove_def fun_eq_iff) (metis filter.simps(1))
  show "pop_first q = (None, q)" if "\<forall>p. q_data q p = []"
    using pop_first_best(2) [OF ok that] .
  show "pop_first_better q s = Some (None, q)" if "prepared q s" "\<forall>i < s. q_data q i = []"
    using pop_first_better_best(2) [OF ok that] .
  show "\<exists>q'. pop_first q = (Some (hd (q_data q p)), q') \<and> tql_ok q' \<and> prepared q' = prepared q
      \<and> q_data q' = (q_data q)(p := tl (q_data q p))"
    if "q_data q p \<noteq> []" "\<forall>i < p. q_data q i = []"
    using pop_first_best(1) [OF ok, of p] that keep
    by (auto simp: best_level_def pop_level_def fun_eq_iff)
  show "\<exists>q'. pop_first_better q s = Some (Some (hd (q_data q p)), q') \<and> tql_ok q' \<and> prepared q' = prepared q
      \<and> q_data q' = (q_data q)(p := tl (q_data q p))"
    if "prepared q s" "p < s" "q_data q p \<noteq> []" "\<forall>i < p. q_data q i = []"
    using pop_first_better_best(1) [OF ok that(1), of p] that keep
    by (auto simp: best_level_def pop_level_def fun_eq_iff)
qed

end
