(* ===== verification/ResourceLimits.thy ===== *)
theory ResourceLimits imports Prelude begin

text \<open>
  The resource limits of src/core/hle/kernel/resource_limit.cpp: counters per kind of resource, and
  the four categories with their limits.
\<close>

datatype ResourceLimitCategory = ApplicationCategory | SysAppletCategory | LibAppletCategory | OtherCategory

datatype ResourceLimitType =
    RLPriority | RLCommit | RLThread | RLEvent | RLMutex | RLSemaphore | RLTimer | RLSharedMemory
  | RLAddressArbiter | RLCpuTime

text \<open>Values are \<open>s32\<close>.\<close>

record ResourceLimit =
  m_limit_values :: "ResourceLimitType \<Rightarrow> u32"
  m_current_values :: "ResourceLimitType \<Rightarrow> u32"

definition ResourceLimit_Create :: ResourceLimit where
  "ResourceLimit_Create = \<lparr>m_limit_values = (\<lambda>_. 0), m_current_values = (\<lambda>_. 0)\<rparr>"

definition GetCurrentValue :: "ResourceLimit \<Rightarrow> ResourceLimitType \<Rightarrow> u32" where
  "GetCurrentValue r ty = m_current_values r ty"

definition GetLimitValue :: "ResourceLimit \<Rightarrow> ResourceLimitType \<Rightarrow> u32" where
  "GetLimitValue r ty = m_limit_values r ty"

definition SetLimitValue :: "ResourceLimitType \<Rightarrow> u32 \<Rightarrow> ResourceLimit \<Rightarrow> ResourceLimit" where
  "SetLimitValue ty v r = r\<lparr>m_limit_values := (m_limit_values r)(ty := v)\<rparr>"

text \<open>Neither refuses: what does not fit is logged, and the counter is changed all the same.\<close>

definition Reserve :: "ResourceLimitType \<Rightarrow> u32 \<Rightarrow> ResourceLimit \<Rightarrow> bool \<times> ResourceLimit" where
  "Reserve ty amount r =
     (True, r\<lparr>m_current_values := (m_current_values r)(ty := m_current_values r ty + amount)\<rparr>)"

definition Release :: "ResourceLimitType \<Rightarrow> u32 \<Rightarrow> ResourceLimit \<Rightarrow> bool \<times> ResourceLimit" where
  "Release ty amount r =
     (True, r\<lparr>m_current_values := (m_current_values r)(ty := m_current_values r ty - amount)\<rparr>)"

definition limits_of :: "(ResourceLimitType \<times> u32) list \<Rightarrow> ResourceLimit" where
  "limits_of vs = foldl (\<lambda>r (ty, v). SetLimitValue ty v r) ResourceLimit_Create vs"

text \<open>The limits of each category, from the console model and the size of the application region.\<close>

definition ResourceLimitList :: "bool \<Rightarrow> u32 \<Rightarrow> ResourceLimitCategory \<Rightarrow> ResourceLimit" where
  "ResourceLimitList is_new_3ds appmemalloc_size category =
     (case category of
        ApplicationCategory \<Rightarrow> limits_of
          [(RLPriority, 0x18), (RLCommit, appmemalloc_size), (RLThread, 0x20), (RLEvent, 0x20),
           (RLMutex, 0x20), (RLSemaphore, 0x8), (RLTimer, 0x8), (RLSharedMemory, 0x10),
           (RLAddressArbiter, 0x2), (RLCpuTime, 0x0)]
      | SysAppletCategory \<Rightarrow> limits_of
          [(RLPriority, 0x4), (RLCommit, if is_new_3ds then 0x5E06000 else 0x2606000),
           (RLThread, if is_new_3ds then 0x1D else 0xE), (RLEvent, if is_new_3ds then 0xB else 0x8),
           (RLMutex, 0x8), (RLSemaphore, 0x4), (RLTimer, 0x4), (RLSharedMemory, 0x8),
           (RLAddressArbiter, 0x3), (RLCpuTime, 0x2710)]
      | LibAppletCategory \<Rightarrow> limits_of
          [(RLPriority, 0x4), (RLCommit, 0x602000), (RLThread, 0xE), (RLEvent, 0x8), (RLMutex, 0x8),
           (RLSemaphore, 0x4), (RLTimer, 0x4), (RLSharedMemory, 0x8), (RLAddressArbiter, 0x1),
           (RLCpuTime, 0x2710)]
      | OtherCategory \<Rightarrow> limits_of
          [(RLPriority, 0x4), (RLCommit, if is_new_3ds then 0x2182000 else 0x1682000),
           (RLThread, if is_new_3ds then 0xE1 else 0xCA), (RLEvent, if is_new_3ds then 0x108 else 0xF8),
           (RLMutex, if is_new_3ds then 0x25 else 0x23), (RLSemaphore, if is_new_3ds then 0x43 else 0x40),
           (RLTimer, if is_new_3ds then 0x2C else 0x2B), (RLSharedMemory, if is_new_3ds then 0x1F else 0x1E),
           (RLAddressArbiter, if is_new_3ds then 0x2D else 0x2B), (RLCpuTime, 0x3E8)])"

end
