(* ===== verification/Kernel.thy ===== *)
theory Kernel imports CoreTiming Results ThreadQueueList ResourceLimits begin

text \<open>
  The kernel's threads and the objects they wait for: the state of src/core/hle/kernel/kernel.h,
  thread.h and the object classes, and the operations of wait_object.cpp, mutex.cpp, semaphore.cpp,
  event.cpp, timer.cpp and the parts of thread.cpp these rest on.

  Threads and objects are named by numbers in place of pointers. A failed assertion is the outcome
  \<^const>\<open>None\<close>. Callbacks into high-level services are not run, only recorded in \<open>hle_calls\<close>.
  Priorities, on which the code does no arithmetic, are natural numbers. The kernel's state extends
  that of the event scheduler.
\<close>

section \<open>The state\<close>

datatype ThreadStatus =
    Running | Ready | WaitArb | WaitSleep | WaitIPC | WaitSynchAny | WaitSynchAll | WaitHleEvent
  | Dormant | Dead

datatype ThreadWakeupReason = WakeupSignal | WakeupTimeout

datatype ResetType = OneShot | Sticky | Pulse

datatype WaitObject =
    ThreadObject nat | MutexObject nat | SemaphoreObject nat | EventObject nat | TimerObject nat

datatype WakeupCallback = SyncCallback bool | ArbiterCallback nat | HleCallback nat

datatype KernelEvent = ThreadWakeupEvent nat | TimerCallbackEvent | OtherEvent nat

datatype HleCall =
    HleNotifier WaitObject
  | HleWakeUp nat ThreadWakeupReason nat "WaitObject option"

abbreviation ThreadPrioLowest :: nat where "ThreadPrioLowest \<equiv> 63"

record Context =
  cpu_registers :: "nat \<Rightarrow> u32"
  cpsr :: u32
  fpscr :: u32

record KThread =
  th_context :: Context
  th_can_schedule :: bool
  th_status :: ThreadStatus
  th_entry_point :: u32
  th_stack_top :: u32
  th_nominal_priority :: nat
  th_current_priority :: nat
  th_last_running_ticks :: u64
  th_core :: nat
  th_tls_address :: u32
  th_held_mutexes :: "nat list"
  th_pending_mutexes :: "nat list"
  th_owner_process :: nat
  th_wait_objects :: "WaitObject list"
  th_wait_address :: u32
  th_wakeup_callback :: "WakeupCallback option"

record KMutex =
  mx_lock_count :: int
  mx_priority :: nat
  mx_holding_thread :: "nat option"

record KSemaphore =
  sm_max_count :: u32
  sm_available_count :: u32

record KEvent =
  kv_reset_type :: ResetType
  kv_signaled :: bool

record KTimer =
  tm_reset_type :: ResetType
  tm_initial_delay :: u64
  tm_interval_delay :: u64
  tm_signaled :: bool
  tm_callback_id :: nat

text \<open>Each page of thread-local storage has a bit per slot.\<close>

record KProcess =
  pr_tls_slots :: "bool list list"
  pr_resource_limit :: nat

record ThreadManager =
  current_thread :: "nat option"
  ready_queue :: "nat tql"
  wakeup_callback_table :: "nat set"
  thread_list :: "nat list"

record Kernel = "KernelEvent Timing" +
  threads :: "nat \<Rightarrow> KThread"
  waiting_threads :: "WaitObject \<Rightarrow> nat list"
  kmutexes :: "nat \<Rightarrow> KMutex"
  ksemaphores :: "nat \<Rightarrow> KSemaphore"
  kevents :: "nat \<Rightarrow> KEvent"
  ktimers :: "nat \<Rightarrow> KTimer"
  arbiters :: "nat \<Rightarrow> nat list"
  processes :: "nat \<Rightarrow> KProcess option"
  resource_limits :: "nat \<Rightarrow> ResourceLimit"
  managers :: "nat \<Rightarrow> ThreadManager"
  cpu_contexts :: "nat \<Rightarrow> Context"
  cpu_thread_uro :: "nat \<Rightarrow> u32"
  cpu_page_table :: "nat \<Rightarrow> nat option"
  memory_page_table :: "nat option"
  current_cpu :: nat
  current_process :: "nat option"
  stored_processes :: "nat \<Rightarrow> nat option"
  next_thread_id :: nat
  next_timer_callback_id :: nat
  timer_callback_table :: "nat \<Rightarrow> nat option"
  hle_notifiers :: "WaitObject set"
  hle_calls :: "HleCall list"
  reschedule_pending :: bool
  priority_boost :: bool
  scaled_ticks :: "u64 \<Rightarrow> u64"

definition upd_thread :: "nat \<Rightarrow> (KThread \<Rightarrow> KThread) \<Rightarrow> Kernel \<Rightarrow> Kernel" where
  "upd_thread t f s = s\<lparr>threads := (threads s)(t := f (threads s t))\<rparr>"

definition upd_mutex :: "nat \<Rightarrow> (KMutex \<Rightarrow> KMutex) \<Rightarrow> Kernel \<Rightarrow> Kernel" where
  "upd_mutex m f s = s\<lparr>kmutexes := (kmutexes s)(m := f (kmutexes s m))\<rparr>"

definition upd_queue :: "nat \<Rightarrow> (nat tql \<Rightarrow> nat tql) \<Rightarrow> Kernel \<Rightarrow> Kernel" where
  "upd_queue c f s = s\<lparr>managers := (managers s)(c := (managers s c)\<lparr>ready_queue := f (ready_queue (managers s c))\<rparr>)\<rparr>"

abbreviation status_of :: "Kernel \<Rightarrow> nat \<Rightarrow> ThreadStatus" where
  "status_of s t \<equiv> th_status (threads s t)"

abbreviation priority_of :: "Kernel \<Rightarrow> nat \<Rightarrow> nat" where
  "priority_of s t \<equiv> th_current_priority (threads s t)"

abbreviation core_of :: "Kernel \<Rightarrow> nat \<Rightarrow> nat" where
  "core_of s t \<equiv> th_core (threads s t)"

abbreviation queue_of :: "Kernel \<Rightarrow> nat \<Rightarrow> nat tql" where
  "queue_of s c \<equiv> ready_queue (managers s c)"

definition PrepareReschedule :: "Kernel \<Rightarrow> Kernel" where
  "PrepareReschedule s = s\<lparr>reschedule_pending := True\<rparr>"

text \<open>A loop whose body may fail.\<close>

fun for_each :: "('b \<Rightarrow> 's \<Rightarrow> 's option) \<Rightarrow> 'b list \<Rightarrow> 's \<Rightarrow> 's option" where
  "for_each f [] s = Some s"
| "for_each f (x # xs) s = do { s1 \<leftarrow> f x s; for_each f xs s1 }"

section \<open>Priorities\<close>

definition set_ready_level :: "nat \<Rightarrow> nat \<Rightarrow> Kernel \<Rightarrow> Kernel" where
  "set_ready_level t priority s =
     (if status_of s t = Ready
      then upd_queue (core_of s t) (q_move t (priority_of s t) priority) s
      else upd_queue (core_of s t) (q_prepare priority) s)"

definition BoostPriority :: "nat \<Rightarrow> nat \<Rightarrow> Kernel \<Rightarrow> Kernel" where
  "BoostPriority t priority s =
     upd_thread t (\<lambda>th. th\<lparr>th_current_priority := priority\<rparr>) (set_ready_level t priority s)"

definition SetPriority :: "nat \<Rightarrow> nat \<Rightarrow> Kernel \<Rightarrow> Kernel option" where
  "SetPriority t priority s =
     (if \<not> priority \<le> ThreadPrioLowest then None
      else Some (upd_thread t (\<lambda>th. th\<lparr>th_nominal_priority := priority, th_current_priority := priority\<rparr>)
        (set_ready_level t priority s)))"

definition best_priority :: "nat \<Rightarrow> nat list \<Rightarrow> nat" where
  "best_priority start ps = foldl (\<lambda>best p. if p < best then p else best) start ps"

definition UpdatePriority :: "nat \<Rightarrow> Kernel \<Rightarrow> Kernel" where
  "UpdatePriority t s =
     BoostPriority t (best_priority (th_nominal_priority (threads s t))
       (map (\<lambda>m. mx_priority (kmutexes s m)) (th_held_mutexes (threads s t)))) s"

definition Mutex_UpdatePriority :: "nat \<Rightarrow> Kernel \<Rightarrow> Kernel" where
  "Mutex_UpdatePriority m s =
     (case mx_holding_thread (kmutexes s m) of
        None \<Rightarrow> s
      | Some h \<Rightarrow>
          let best = best_priority ThreadPrioLowest (map (priority_of s) (waiting_threads s (MutexObject m))) in
          if best \<noteq> mx_priority (kmutexes s m)
          then UpdatePriority h (upd_mutex m (\<lambda>x. x\<lparr>mx_priority := best\<rparr>) s)
          else s)"

section \<open>Objects to wait for\<close>

fun ShouldWait :: "Kernel \<Rightarrow> WaitObject \<Rightarrow> nat \<Rightarrow> bool" where
  "ShouldWait s (ThreadObject u) t \<longleftrightarrow> status_of s u \<noteq> Dead"
| "ShouldWait s (MutexObject m) t \<longleftrightarrow>
     0 < mx_lock_count (kmutexes s m) \<and> mx_holding_thread (kmutexes s m) \<noteq> Some t"
| "ShouldWait s (SemaphoreObject m) t \<longleftrightarrow> sint (sm_available_count (ksemaphores s m)) \<le> 0"
| "ShouldWait s (EventObject e) t \<longleftrightarrow> \<not> kv_signaled (kevents s e)"
| "ShouldWait s (TimerObject e) t \<longleftrightarrow> \<not> tm_signaled (ktimers s e)"

definition Mutex_Acquire :: "nat \<Rightarrow> nat \<Rightarrow> Kernel \<Rightarrow> Kernel option" where
  "Mutex_Acquire m t s =
     (if ShouldWait s (MutexObject m) t then None
      else
        let s1 = (if mx_lock_count (kmutexes s m) = 0
          then PrepareReschedule (UpdatePriority t
            (upd_mutex m (\<lambda>x. x\<lparr>mx_holding_thread := Some t\<rparr>)
            (upd_thread t (\<lambda>th. th\<lparr>th_held_mutexes := insort_insert m (th_held_mutexes th)\<rparr>)
            (upd_mutex m (\<lambda>x. x\<lparr>mx_priority := priority_of s t\<rparr>) s))))
          else s)
        in Some (upd_mutex m (\<lambda>x. x\<lparr>mx_lock_count := mx_lock_count x + 1\<rparr>) s1))"

definition Semaphore_Acquire :: "nat \<Rightarrow> Kernel \<Rightarrow> Kernel" where
  "Semaphore_Acquire m s =
     (if sint (sm_available_count (ksemaphores s m)) \<le> 0 then s
      else s\<lparr>ksemaphores := (ksemaphores s)(m := (ksemaphores s m)\<lparr>sm_available_count :=
        sm_available_count (ksemaphores s m) - 1\<rparr>)\<rparr>)"

definition set_event_signaled :: "nat \<Rightarrow> bool \<Rightarrow> Kernel \<Rightarrow> Kernel" where
  "set_event_signaled e b s = s\<lparr>kevents := (kevents s)(e := (kevents s e)\<lparr>kv_signaled := b\<rparr>)\<rparr>"

definition set_timer_signaled :: "nat \<Rightarrow> bool \<Rightarrow> Kernel \<Rightarrow> Kernel" where
  "set_timer_signaled e b s = s\<lparr>ktimers := (ktimers s)(e := (ktimers s e)\<lparr>tm_signaled := b\<rparr>)\<rparr>"

definition Event_Acquire :: "nat \<Rightarrow> nat \<Rightarrow> Kernel \<Rightarrow> Kernel option" where
  "Event_Acquire e t s =
     (if ShouldWait s (EventObject e) t then None
      else Some (if kv_reset_type (kevents s e) = OneShot then set_event_signaled e False s else s))"

definition Timer_Acquire :: "nat \<Rightarrow> nat \<Rightarrow> Kernel \<Rightarrow> Kernel option" where
  "Timer_Acquire e t s =
     (if ShouldWait s (TimerObject e) t then None
      else Some (if tm_reset_type (ktimers s e) = OneShot then set_timer_signaled e False s else s))"

definition Thread_Acquire :: "nat \<Rightarrow> nat \<Rightarrow> Kernel \<Rightarrow> Kernel option" where
  "Thread_Acquire u t s = (if ShouldWait s (ThreadObject u) t then None else Some s)"

fun Acquire :: "WaitObject \<Rightarrow> nat \<Rightarrow> Kernel \<Rightarrow> Kernel option" where
  "Acquire (ThreadObject u) t s = Thread_Acquire u t s"
| "Acquire (MutexObject m) t s = Mutex_Acquire m t s"
| "Acquire (SemaphoreObject m) t s = Some (Semaphore_Acquire m s)"
| "Acquire (EventObject e) t s = Event_Acquire e t s"
| "Acquire (TimerObject e) t s = Timer_Acquire e t s"

definition set_waiting :: "WaitObject \<Rightarrow> nat list \<Rightarrow> Kernel \<Rightarrow> Kernel" where
  "set_waiting obj ts s = s\<lparr>waiting_threads := (waiting_threads s)(obj := ts)\<rparr>"

definition WaitObject_AddWaitingThread :: "WaitObject \<Rightarrow> nat \<Rightarrow> Kernel \<Rightarrow> Kernel" where
  "WaitObject_AddWaitingThread obj t s =
     (if t \<in> set (waiting_threads s obj) then s else set_waiting obj (waiting_threads s obj @ [t]) s)"

definition WaitObject_RemoveWaitingThread :: "WaitObject \<Rightarrow> nat \<Rightarrow> Kernel \<Rightarrow> Kernel" where
  "WaitObject_RemoveWaitingThread obj t s = set_waiting obj (remove1 t (waiting_threads s obj)) s"

text \<open>Mutexes override both.\<close>

definition AddWaitingThread :: "WaitObject \<Rightarrow> nat \<Rightarrow> Kernel \<Rightarrow> Kernel" where
  "AddWaitingThread obj t s =
     (let s1 = WaitObject_AddWaitingThread obj t s
      in case obj of
        MutexObject m \<Rightarrow> Mutex_UpdatePriority m
          (upd_thread t (\<lambda>th. th\<lparr>th_pending_mutexes := insort_insert m (th_pending_mutexes th)\<rparr>) s1)
      | _ \<Rightarrow> s1)"

definition RemoveWaitingThread :: "WaitObject \<Rightarrow> nat \<Rightarrow> Kernel \<Rightarrow> Kernel" where
  "RemoveWaitingThread obj t s =
     (let s1 = WaitObject_RemoveWaitingThread obj t s
      in case obj of
        MutexObject m \<Rightarrow> Mutex_UpdatePriority m
          (upd_thread t (\<lambda>th. th\<lparr>th_pending_mutexes := remove1 m (th_pending_mutexes th)\<rparr>) s1)
      | _ \<Rightarrow> s1)"

text \<open>The search for the thread to wake; the outer \<^const>\<open>None\<close> is its failed assertion.\<close>

definition ready_to_run :: "Kernel \<Rightarrow> nat \<Rightarrow> bool" where
  "ready_to_run s t \<longleftrightarrow>
     (status_of s t = WaitSynchAll \<longrightarrow> \<not> (\<exists>obj \<in> set (th_wait_objects (threads s t)). ShouldWait s obj t))"

fun best_waiting :: "Kernel \<Rightarrow> WaitObject \<Rightarrow> nat option \<Rightarrow> nat \<Rightarrow> nat list \<Rightarrow> nat option option" where
  "best_waiting s obj candidate cp [] = Some candidate"
| "best_waiting s obj candidate cp (t # ts) =
     (if status_of s t \<notin> {WaitSynchAny, WaitSynchAll, WaitHleEvent} then None
      else if cp \<le> priority_of s t \<or> ShouldWait s obj t \<or> \<not> ready_to_run s t
      then best_waiting s obj candidate cp ts
      else best_waiting s obj (Some t) (priority_of s t) ts)"

definition GetHighestPriorityReadyThread :: "WaitObject \<Rightarrow> Kernel \<Rightarrow> nat option option" where
  "GetHighestPriorityReadyThread obj s =
     best_waiting s obj None (ThreadPrioLowest + 1) (waiting_threads s obj)"

section \<open>Waking a thread\<close>

definition ResumeFromWait :: "nat \<Rightarrow> Kernel \<Rightarrow> Kernel option" where
  "ResumeFromWait t s =
     (if th_wait_objects (threads s t) \<noteq> [] then None
      else case status_of s t of
        Ready \<Rightarrow> if th_wakeup_callback (threads s t) \<noteq> None then None else Some s
      | Running \<Rightarrow> Some s
      | Dead \<Rightarrow> Some s
      | _ \<Rightarrow> Some (PrepareReschedule
          (upd_thread t (\<lambda>th. th\<lparr>th_status := Ready\<rparr>)
          (upd_queue (core_of s t) (push_back (priority_of s t) t)
          (upd_thread t (\<lambda>th. th\<lparr>th_wakeup_callback := None\<rparr>) s)))))"

definition set_register :: "nat \<Rightarrow> u32 \<Rightarrow> nat \<Rightarrow> Kernel \<Rightarrow> Kernel" where
  "set_register r v t s = upd_thread t (\<lambda>th. th\<lparr>th_context := (th_context th)\<lparr>cpu_registers :=
     (cpu_registers (th_context th))(r := v)\<rparr>\<rparr>) s"

definition SetWaitSynchronizationResult :: "u32 \<Rightarrow> nat \<Rightarrow> Kernel \<Rightarrow> Kernel" where
  "SetWaitSynchronizationResult raw t s = set_register 0 raw t s"

definition SetWaitSynchronizationOutput :: "u32 \<Rightarrow> nat \<Rightarrow> Kernel \<Rightarrow> Kernel" where
  "SetWaitSynchronizationOutput v t s = set_register 1 v t s"

text \<open>The index of the last occurrence, or -1.\<close>

fun last_index :: "'a \<Rightarrow> 'a list \<Rightarrow> int" where
  "last_index x [] = -1"
| "last_index x (y # ys) = (if x \<in> set ys then last_index x ys + 1 else if x = y then 0 else -1)"

definition GetWaitObjectIndex :: "nat \<Rightarrow> WaitObject \<Rightarrow> Kernel \<Rightarrow> u32 option" where
  "GetWaitObjectIndex t obj s =
     (let objs = th_wait_objects (threads s t) in
      if objs = [] then None else Some (word_of_int (last_index obj objs)))"

definition timeout_raw :: u32 where 
  "timeout_raw = make_result (desc_of ''Timeout'') (module_of ''OS'') (summary_of ''StatusChanged'') (level_of ''Info'')"

definition WakeUp ::
  "WakeupCallback \<Rightarrow> ThreadWakeupReason \<Rightarrow> nat \<Rightarrow> WaitObject option \<Rightarrow> Kernel \<Rightarrow> Kernel option" where
  "WakeUp cb reason t obj s =
     (case cb of
        SyncCallback do_output \<Rightarrow>
          (case reason of
             WakeupTimeout \<Rightarrow> Some (SetWaitSynchronizationResult timeout_raw t s)
           | WakeupSignal \<Rightarrow>
               let s1 = SetWaitSynchronizationResult 0 t s in
               if do_output
               then (case obj of
                 None \<Rightarrow> None
               | Some b \<Rightarrow> map_option (\<lambda>v. SetWaitSynchronizationOutput v t s1) (GetWaitObjectIndex t b s1))
               else Some s1)
      | ArbiterCallback a \<Rightarrow>
          (if reason \<noteq> WakeupTimeout then None
           else Some (s\<lparr>arbiters := (arbiters s)(a := filter (\<lambda>x. x \<noteq> t) (arbiters s a))\<rparr>))
      | HleCallback n \<Rightarrow> Some (s\<lparr>hle_calls := hle_calls s @ [HleWakeUp n reason t obj]\<rparr>))"

definition call_back :: "ThreadWakeupReason \<Rightarrow> nat \<Rightarrow> WaitObject option \<Rightarrow> Kernel \<Rightarrow> Kernel option" where
  "call_back reason t obj s =
     (case th_wakeup_callback (threads s t) of None \<Rightarrow> Some s | Some cb \<Rightarrow> WakeUp cb reason t obj s)"

definition leave_wait_lists :: "nat \<Rightarrow> Kernel \<Rightarrow> Kernel" where
  "leave_wait_lists t s =
     upd_thread t (\<lambda>th. th\<lparr>th_wait_objects := []\<rparr>)
       (fold (\<lambda>obj. RemoveWaitingThread obj t) (th_wait_objects (threads s t)) s)"

definition wake_thread :: "WaitObject \<Rightarrow> nat \<Rightarrow> Kernel \<Rightarrow> Kernel option" where
  "wake_thread obj t s = do {
     s1 \<leftarrow> (if status_of s t \<noteq> WaitSynchAll then Acquire obj t s
            else for_each (\<lambda>b. Acquire b t) (th_wait_objects (threads s t)) s);
     s2 \<leftarrow> call_back WakeupSignal t (Some obj) s1;
     ResumeFromWait t (leave_wait_lists t s2) }"

fun wakeup_loop :: "nat \<Rightarrow> WaitObject \<Rightarrow> Kernel \<Rightarrow> Kernel option" where
  "wakeup_loop n obj s = do {
     candidate \<leftarrow> GetHighestPriorityReadyThread obj s;
     case candidate of
       None \<Rightarrow> Some s
     | Some t \<Rightarrow> (case n of
         0 \<Rightarrow> None
       | Suc m \<Rightarrow> do { s1 \<leftarrow> wake_thread obj t s; wakeup_loop m obj s1 }) }"

declare wakeup_loop.simps [simp del]

definition notify_hle :: "WaitObject \<Rightarrow> Kernel \<Rightarrow> Kernel" where
  "notify_hle obj s =
     (if obj \<in> hle_notifiers s then s\<lparr>hle_calls := hle_calls s @ [HleNotifier obj]\<rparr> else s)"

text \<open>Every round takes a thread out of the list, so that its length bounds the rounds.\<close>

definition WaitObject_WakeupAllWaitingThreads :: "WaitObject \<Rightarrow> Kernel \<Rightarrow> Kernel option" where
  "WaitObject_WakeupAllWaitingThreads obj s =
     map_option (notify_hle obj) (wakeup_loop (length (waiting_threads s obj)) obj s)"

definition WakeupAllWaitingThreads :: "WaitObject \<Rightarrow> Kernel \<Rightarrow> Kernel option" where
  "WakeupAllWaitingThreads obj s = do {
     s1 \<leftarrow> WaitObject_WakeupAllWaitingThreads obj s;
     Some (case obj of
       EventObject e \<Rightarrow> if kv_reset_type (kevents s1 e) = Pulse then set_event_signaled e False s1 else s1
     | TimerObject e \<Rightarrow> if tm_reset_type (ktimers s1 e) = Pulse then set_timer_signaled e False s1 else s1
     | _ \<Rightarrow> s1) }"

section \<open>Semaphores, events and mutexes\<close>

definition CreateSemaphore :: "nat \<Rightarrow> u32 \<Rightarrow> u32 \<Rightarrow> Kernel \<Rightarrow> (result_code + nat) \<times> Kernel" where
  "CreateSemaphore m initial_count max_count s =
     (if \<not> sint initial_count \<le> sint max_count then (Inl ResultInvalidCombinationKernel, s)
      else (Inr m, set_waiting (SemaphoreObject m) [] (s\<lparr>ksemaphores := (ksemaphores s)(m :=
        \<lparr>sm_max_count = max_count, sm_available_count = initial_count\<rparr>)\<rparr>)))"

text \<open>The sum is one of \<open>s32\<close> values and wraps as the compiled code does.\<close>

definition Semaphore_Release :: "nat \<Rightarrow> u32 \<Rightarrow> Kernel \<Rightarrow> ((result_code + u32) \<times> Kernel) option" where
  "Semaphore_Release m release_count s =
     (let sem = ksemaphores s m in
      if \<not> sint (release_count + sm_available_count sem) \<le> sint (sm_max_count sem)
      then Some (Inl ResultOutOfRangeKernel, s)
      else do {
        s1 \<leftarrow> WakeupAllWaitingThreads (SemaphoreObject m) (s\<lparr>ksemaphores := (ksemaphores s)(m :=
          sem\<lparr>sm_available_count := sm_available_count sem + release_count\<rparr>)\<rparr>);
        Some (Inr (sm_available_count sem), s1) })"

definition CreateEvent :: "nat \<Rightarrow> ResetType \<Rightarrow> Kernel \<Rightarrow> Kernel" where
  "CreateEvent e rt s = set_waiting (EventObject e) []
     (s\<lparr>kevents := (kevents s)(e := \<lparr>kv_reset_type = rt, kv_signaled = False\<rparr>)\<rparr>)"

definition Event_Signal :: "nat \<Rightarrow> Kernel \<Rightarrow> Kernel option" where
  "Event_Signal e s = WakeupAllWaitingThreads (EventObject e) (set_event_signaled e True s)"

definition Event_Clear :: "nat \<Rightarrow> Kernel \<Rightarrow> Kernel" where
  "Event_Clear e s = set_event_signaled e False s"

definition CreateMutex :: "nat \<Rightarrow> bool \<Rightarrow> Kernel \<Rightarrow> Kernel option" where
  "CreateMutex m initial_locked s =
     (let s1 = set_waiting (MutexObject m) [] (s\<lparr>kmutexes := (kmutexes s)(m :=
        \<lparr>mx_lock_count = 0, mx_priority = mx_priority (kmutexes s m), mx_holding_thread = None\<rparr>)\<rparr>)
      in if initial_locked
         then (case current_thread (managers s (current_cpu s)) of
           None \<Rightarrow> None
         | Some t \<Rightarrow> Mutex_Acquire m t s1)
         else Some s1)"

definition Mutex_Release :: "nat \<Rightarrow> nat \<Rightarrow> Kernel \<Rightarrow> (result_code option \<times> Kernel) option" where
  "Mutex_Release m t s =
     (if mx_holding_thread (kmutexes s m) \<noteq> Some t then Some (Some ResultWrongLockingThread, s)
      else if mx_lock_count (kmutexes s m) \<le> 0 then Some (Some ResultInvalidResultValue, s)
      else
        let s1 = upd_mutex m (\<lambda>x. x\<lparr>mx_lock_count := mx_lock_count x - 1\<rparr>) s in
        if mx_lock_count (kmutexes s1 m) = 0
        then do {
          s2 \<leftarrow> WakeupAllWaitingThreads (MutexObject m)
            (upd_mutex m (\<lambda>x. x\<lparr>mx_holding_thread := None\<rparr>)
            (UpdatePriority t
            (upd_thread t (\<lambda>th. th\<lparr>th_held_mutexes := remove1 m (th_held_mutexes th)\<rparr>) s1)));
          Some (None, PrepareReschedule s2) }
        else Some (None, s1))"

definition release_held :: "nat \<Rightarrow> Kernel \<Rightarrow> Kernel option" where
  "release_held m s = WakeupAllWaitingThreads (MutexObject m)
     (upd_mutex m (\<lambda>x. x\<lparr>mx_lock_count := 0, mx_holding_thread := None\<rparr>) s)"

definition ReleaseThreadMutexes :: "nat \<Rightarrow> Kernel \<Rightarrow> Kernel option" where
  "ReleaseThreadMutexes t s = do {
     s1 \<leftarrow> for_each release_held (th_held_mutexes (threads s t)) s;
     Some (upd_thread t (\<lambda>th. th\<lparr>th_held_mutexes := []\<rparr>) s1) }"

section \<open>Timers\<close>

definition CreateTimer :: "nat \<Rightarrow> ResetType \<Rightarrow> Kernel \<Rightarrow> Kernel" where
  "CreateTimer e rt s =
     (let i = next_timer_callback_id s + 1 in
      set_waiting (TimerObject e) [] (s\<lparr>
        ktimers := (ktimers s)(e := \<lparr>tm_reset_type = rt, tm_initial_delay = 0, tm_interval_delay = 0,
          tm_signaled = False, tm_callback_id = i\<rparr>),
        next_timer_callback_id := i,
        timer_callback_table := (timer_callback_table s)(i := Some e)\<rparr>))"

definition Timer_Cancel :: "nat \<Rightarrow> Kernel \<Rightarrow> Kernel" where
  "Timer_Cancel e s = UnscheduleEvent TimerCallbackEvent (tm_callback_id (ktimers s e)) s"

definition Timer_Clear :: "nat \<Rightarrow> Kernel \<Rightarrow> Kernel" where
  "Timer_Clear e s = set_timer_signaled e False s"

definition Timer_Signal :: "nat \<Rightarrow> u64 \<Rightarrow> Kernel \<Rightarrow> Kernel option" where
  "Timer_Signal e late s = do {
     s1 \<leftarrow> WakeupAllWaitingThreads (TimerObject e) (set_timer_signaled e True s);
     if tm_interval_delay (ktimers s1 e) \<noteq> 0
     then ScheduleEvent (nsToCycles (tm_interval_delay (ktimers s1 e)) - late) TimerCallbackEvent
       (tm_callback_id (ktimers s1 e)) None False s1
     else Some s1 }"

definition Timer_Set :: "nat \<Rightarrow> u64 \<Rightarrow> u64 \<Rightarrow> Kernel \<Rightarrow> Kernel option" where
  "Timer_Set e initial interval s =
     (let s1 = Timer_Cancel e s;
          s2 = s1\<lparr>ktimers := (ktimers s1)(e := (ktimers s1 e)\<lparr>tm_initial_delay := initial,
            tm_interval_delay := interval\<rparr>)\<rparr>
      in if initial = 0 then Timer_Signal e 0 s2
         else ScheduleEvent (nsToCycles initial) TimerCallbackEvent (tm_callback_id (ktimers s2 e)) None False s2)"

text \<open>\<open>at\<close> throws when the callback identifier is not in the table.\<close>

definition TimerCallback :: "nat \<Rightarrow> u64 \<Rightarrow> Kernel \<Rightarrow> Kernel option" where
  "TimerCallback callback_id late s =
     (case timer_callback_table s callback_id of None \<Rightarrow> None | Some e \<Rightarrow> Timer_Signal e late s)"

definition Timer_destroy :: "nat \<Rightarrow> Kernel \<Rightarrow> Kernel" where
  "Timer_destroy e s =
     (let s1 = Timer_Cancel e s in
      s1\<lparr>timer_callback_table := (timer_callback_table s1)(tm_callback_id (ktimers s1 e) := None)\<rparr>)"

end
