(* ===== verification/Scheduler.thy ===== *)
theory Scheduler imports Kernel Memory begin

text \<open>
  The scheduler: the thread managers of src/core/hle/kernel/thread.cpp, the process switches of
  kernel.cpp, the thread-local storage slots of process.cpp, the wait calls of svc.cpp and the
  address arbiter of address_arbiter.cpp. A manager is named by the number of its core.
\<close>

section \<open>Processes and cores\<close>

definition upd_manager :: "nat \<Rightarrow> (ThreadManager \<Rightarrow> ThreadManager) \<Rightarrow> Kernel \<Rightarrow> Kernel" where
  "upd_manager c f s = s\<lparr>managers := (managers s)(c := f (managers s c))\<rparr>"

definition SetCurrentMemoryPageTable :: "nat \<Rightarrow> Kernel \<Rightarrow> Kernel" where
  "SetCurrentMemoryPageTable p s =
     s\<lparr>memory_page_table := Some p, cpu_page_table := (cpu_page_table s)(current_cpu s := Some p)\<rparr>"

definition SetCurrentProcess :: "nat \<Rightarrow> Kernel \<Rightarrow> Kernel" where
  "SetCurrentProcess p s = SetCurrentMemoryPageTable p (s\<lparr>current_process := Some p\<rparr>)"

definition SetCurrentProcessForCPU :: "nat \<Rightarrow> nat \<Rightarrow> Kernel \<Rightarrow> Kernel" where
  "SetCurrentProcessForCPU p c s =
     (if current_cpu s = c then SetCurrentMemoryPageTable p (s\<lparr>current_process := Some p\<rparr>)
      else s\<lparr>stored_processes := (stored_processes s)(c := Some p),
             cpu_page_table := (cpu_page_table s)(c := Some p)\<rparr>)"

definition SetRunningCPU :: "nat \<Rightarrow> Kernel \<Rightarrow> Kernel" where
  "SetRunningCPU c s =
     (let s1 = (case current_process s of
            None \<Rightarrow> s
          | Some p \<Rightarrow> s\<lparr>stored_processes := (stored_processes s)(current_cpu s := Some p)\<rparr>);
          s2 = SetCurrentTimer c (s1\<lparr>current_cpu := c\<rparr>)
      in case stored_processes s2 c of None \<Rightarrow> s2 | Some p \<Rightarrow> SetCurrentProcess p s2)"

section \<open>Choosing the next thread\<close>

definition queued :: "nat tql \<Rightarrow> nat" where
  "queued q = sum_list (map (\<lambda>p. length (q_data q p)) [0..<NUM_QUEUES])"

text \<open>The pops until a thread may be scheduled; those that may not are set aside.\<close>

fun pop_schedulable ::
  "nat \<Rightarrow> ('q \<Rightarrow> ('a option \<times> 'q) option) \<Rightarrow> ('a \<Rightarrow> bool) \<Rightarrow> 'q \<Rightarrow> 'a list
     \<Rightarrow> ('a option \<times> 'q \<times> 'a list) option" where
  "pop_schedulable n pop can q aside = do {
     (next, q1) \<leftarrow> pop q;
     case next of
       None \<Rightarrow> Some (None, q1, aside)
     | Some t \<Rightarrow>
         if can t then Some (Some t, q1, aside)
         else (case n of 0 \<Rightarrow> None | Suc m \<Rightarrow> pop_schedulable m pop can q1 (aside @ [t])) }"

declare pop_schedulable.simps [simp del]

text \<open>The threads set aside go back in, the last one first, each to the end of its level.\<close>

definition put_back :: "(nat \<Rightarrow> nat) \<Rightarrow> nat list \<Rightarrow> nat tql \<Rightarrow> nat tql" where
  "put_back prio aside q = fold (\<lambda>t. push_back (prio t) t) (rev aside) q"

definition PopNextReadyThread :: "nat \<Rightarrow> Kernel \<Rightarrow> (nat option \<times> Kernel) option" where
  "PopNextReadyThread c s =
     (let q = queue_of s c; can = (\<lambda>t. th_can_schedule (threads s t));
          running = (case current_thread (managers s c) of
            None \<Rightarrow> None | Some t \<Rightarrow> if status_of s t = Running then Some t else None)
      in do {
        (next, q1, aside) \<leftarrow> (case running of
            Some t \<Rightarrow> do {
              (n, q1, aside) \<leftarrow> pop_schedulable (queued q) (\<lambda>q. pop_first_better q (priority_of s t)) can q [];
              Some (Some (case n of None \<Rightarrow> t | Some u \<Rightarrow> u), q1, aside) }
          | None \<Rightarrow> pop_schedulable (queued q) (\<lambda>q. Some (pop_first q)) can q []);
        Some (next, upd_queue c (\<lambda>_. put_back (priority_of s) aside q1) s) })"

section \<open>Switching\<close>

definition live_owner :: "Kernel \<Rightarrow> nat \<Rightarrow> nat option" where
  "live_owner s t =
     (let p = th_owner_process (threads s t) in if processes s p = None then None else Some p)"

definition save_context :: "nat \<Rightarrow> nat \<Rightarrow> Kernel \<Rightarrow> Kernel" where
  "save_context c t s =
     (let s1 = upd_thread t (\<lambda>th. th\<lparr>th_last_running_ticks := GetTicks (timers s ! c),
            th_context := cpu_contexts s c\<rparr>) s
      in if status_of s1 t = Running
         then upd_thread t (\<lambda>th. th\<lparr>th_status := Ready\<rparr>) (upd_queue c (push_front (priority_of s1 t) t) s1)
         else s1)"

definition SwitchContext :: "nat \<Rightarrow> nat option \<Rightarrow> Kernel \<Rightarrow> Kernel option" where
  "SwitchContext c new_thread s =
     (let previous = current_thread (managers s c);
          previous_process = (case previous of None \<Rightarrow> None | Some t \<Rightarrow> live_owner s t);
          s1 = (case previous of None \<Rightarrow> s | Some t \<Rightarrow> save_context c t s)
      in case new_thread of
        None \<Rightarrow> Some (upd_manager c (\<lambda>m. m\<lparr>current_thread := None\<rparr>) s1)
      | Some t \<Rightarrow>
          if status_of s1 t \<noteq> Ready then None
          else
            let s2 = upd_manager c (\<lambda>m. m\<lparr>current_thread := Some t\<rparr>) (UnscheduleEvent (ThreadWakeupEvent c) t s1);
                s3 = upd_thread t (\<lambda>th. th\<lparr>th_status := Running\<rparr>) (upd_queue c (q_remove (priority_of s2 t) t) s2)
            in (case live_owner s3 t of
              None \<Rightarrow> None
            | Some p \<Rightarrow>
                let s4 = (if previous_process \<noteq> Some p then SetCurrentProcessForCPU p c s3 else s3);
                    s5 = upd_thread t (\<lambda>th. th\<lparr>th_current_priority := th_nominal_priority th\<rparr>) s4
                in Some (s5\<lparr>cpu_contexts := (cpu_contexts s5)(c := th_context (threads s5 t)),
                     cpu_thread_uro := (cpu_thread_uro s5)(c := th_tls_address (threads s5 t))\<rparr>)))"

definition starved :: "u64 \<Rightarrow> Kernel \<Rightarrow> nat \<Rightarrow> bool" where
  "starved ticks s t \<longleftrightarrow> status_of s t = Ready \<and> 1400000 < ticks - th_last_running_ticks (threads s t)"

definition boost_starved :: "u64 \<Rightarrow> nat \<Rightarrow> nat \<Rightarrow> Kernel \<Rightarrow> Kernel option" where
  "boost_starved ticks c t s =
     (if starved ticks s t
      then (case get_first (queue_of s c) of
        None \<Rightarrow> None
      | Some first \<Rightarrow> Some (BoostPriority t (max (priority_of s first) 40) s))
      else Some s)"

definition PriorityBoostStarvedThreads :: "nat \<Rightarrow> Kernel \<Rightarrow> Kernel option" where
  "PriorityBoostStarvedThreads c s =
     for_each (boost_starved (Timing_GetTicks s) c) (thread_list (managers s c)) s"

definition HaveReadyThreads :: "nat \<Rightarrow> Kernel \<Rightarrow> bool" where
  "HaveReadyThreads c s \<longleftrightarrow> get_first (queue_of s c) \<noteq> None"

definition Reschedule :: "nat \<Rightarrow> Kernel \<Rightarrow> Kernel option" where
  "Reschedule c s = do {
     s1 \<leftarrow> (if priority_boost s then PriorityBoostStarvedThreads c s else Some s);
     (next, s2) \<leftarrow> PopNextReadyThread c s1;
     if current_thread (managers s1 c) = None \<and> next = None then Some s2 else SwitchContext c next s2 }"

section \<open>Sleeping and waking up\<close>

definition WaitCurrentThread_Sleep :: "nat \<Rightarrow> Kernel \<Rightarrow> Kernel option" where
  "WaitCurrentThread_Sleep c s =
     map_option (\<lambda>t. upd_thread t (\<lambda>th. th\<lparr>th_status := WaitSleep\<rparr>) s) (current_thread (managers s c))"

definition WakeAfterDelay :: "nat \<Rightarrow> u64 \<Rightarrow> bool \<Rightarrow> Kernel \<Rightarrow> Kernel option" where
  "WakeAfterDelay t nanoseconds thread_safe_mode s =
     (if nanoseconds = -1 then Some s
      else
        let core = (if thread_safe_mode then Some (core_of s t) else None);
            ns = (if nanoseconds AND 0x7000000000000000 = 0x7000000000000000
                  then nanoseconds AND 0xFFFFFFFF else nanoseconds)
        in ScheduleEvent (nsToCycles ns) (ThreadWakeupEvent (core_of s t)) t core thread_safe_mode s)"

definition ThreadWakeupCallback :: "nat \<Rightarrow> nat \<Rightarrow> u64 \<Rightarrow> Kernel \<Rightarrow> Kernel option" where
  "ThreadWakeupCallback c t late s =
     (if t \<notin> wakeup_callback_table (managers s c) then None
      else do {
        s1 \<leftarrow> (if status_of s t \<in> {WaitSynchAny, WaitSynchAll, WaitArb, WaitHleEvent}
               then map_option (leave_wait_lists t) (call_back WakeupTimeout t None s)
               else Some s);
        ResumeFromWait t s1 })"

section \<open>Creating and stopping threads\<close>

definition TLS_AREA_VADDR :: u32 where "TLS_AREA_VADDR = 0x1FF82000"
definition TLS_ENTRY_SIZE :: u32 where "TLS_ENTRY_SIZE = 0x200"

definition upd_process :: "nat \<Rightarrow> (KProcess \<Rightarrow> KProcess) \<Rightarrow> Kernel \<Rightarrow> Kernel" where
  "upd_process p f s = s\<lparr>processes := (processes s)(p := map_option f (processes s p))\<rparr>"

definition release_tls :: "nat \<Rightarrow> Kernel \<Rightarrow> Kernel option" where
  "release_tls t s =
     (let off = th_tls_address (threads s t) - TLS_AREA_VADDR;
          page = unat (off div 0x1000); slot = unat ((off mod 0x1000) div TLS_ENTRY_SIZE)
      in case processes s (th_owner_process (threads s t)) of
        None \<Rightarrow> Some s
      | Some pr \<Rightarrow>
          if \<not> page < length (pr_tls_slots pr) then None
          else
            let s1 = upd_process (th_owner_process (threads s t)) (\<lambda>pr. pr\<lparr>pr_tls_slots :=
                  (pr_tls_slots pr)[page := (pr_tls_slots pr ! page)[slot := False]]\<rparr>) s;
                l = pr_resource_limit pr
            in Some (s1\<lparr>resource_limits := (resource_limits s1)(l := snd (Release RLThread 1 (resource_limits s1 l)))\<rparr>))"

definition Thread_Stop :: "nat \<Rightarrow> Kernel \<Rightarrow> Kernel option" where
  "Thread_Stop t s =
     (let c = core_of s t;
          s1 = upd_manager c (\<lambda>m. m\<lparr>wakeup_callback_table := wakeup_callback_table m - {t}\<rparr>)
            (UnscheduleEvent (ThreadWakeupEvent c) t s);
          s2 = (if status_of s1 t = Ready then upd_queue c (q_remove (priority_of s1 t) t) s1 else s1)
      in do {
        s3 \<leftarrow> WakeupAllWaitingThreads (ThreadObject t) (upd_thread t (\<lambda>th. th\<lparr>th_status := Dead\<rparr>) s2);
        s4 \<leftarrow> ReleaseThreadMutexes t (leave_wait_lists t s3);
        release_tls t s4 })"

definition ExitCurrentThread :: "nat \<Rightarrow> Kernel \<Rightarrow> Kernel option" where
  "ExitCurrentThread c s =
     (case current_thread (managers s c) of
        None \<Rightarrow> None
      | Some t \<Rightarrow> do {
          s1 \<leftarrow> Thread_Stop t s;
          Some (PrepareReschedule (upd_manager c (\<lambda>m. m\<lparr>thread_list := filter (\<lambda>x. x \<noteq> t) (thread_list m)\<rparr>) s1)) })"

definition terminate_thread :: "nat \<Rightarrow> nat \<Rightarrow> nat \<Rightarrow> Kernel \<Rightarrow> Kernel option" where
  "terminate_thread c p t s =
     (if current_thread (managers s c) = Some t \<or> live_owner s t \<noteq> Some p then Some s
      else do {
        s1 \<leftarrow> Thread_Stop t s;
        Some (upd_manager c (\<lambda>m. m\<lparr>thread_list := remove1 t (thread_list m)\<rparr>) s1) })"

definition TerminateProcessThreads :: "nat \<Rightarrow> nat \<Rightarrow> Kernel \<Rightarrow> Kernel option" where
  "TerminateProcessThreads c p s = do {
     s1 \<leftarrow> for_each (terminate_thread c p) (thread_list (managers s c)) s;
     case current_thread (managers s1 c) of
       None \<Rightarrow> Some s1
     | Some t \<Rightarrow> if live_owner s1 t = Some p then ExitCurrentThread c s1 else Some s1 }"

text \<open>
  The first free slot of the first page that has one. When there is none a page is taken from the
  BASE region; \<open>page_available\<close> tells whether the region has one. Mapping and clearing it is not
  part of the model.
\<close>

fun free_slot :: "bool list list \<Rightarrow> (nat \<times> nat) option" where
  "free_slot [] = None"
| "free_slot (page # pages) =
     (case find (\<lambda>i. \<not> page ! i) [0..<length page] of
        Some i \<Rightarrow> Some (0, i)
      | None \<Rightarrow> map_option (\<lambda>(p, i). (Suc p, i)) (free_slot pages))"

definition tls_address_of :: "nat \<Rightarrow> nat \<Rightarrow> u32" where
  "tls_address_of page slot = TLS_AREA_VADDR + of_nat page * 0x1000 + of_nat slot * TLS_ENTRY_SIZE"

definition AllocateThreadLocalStorage :: "bool \<Rightarrow> KProcess \<Rightarrow> (result_code + u32) \<times> KProcess" where
  "AllocateThreadLocalStorage page_available pr =
     (let pages = pr_tls_slots pr in
      case free_slot pages of
        Some (page, slot) \<Rightarrow>
          (Inr (tls_address_of page slot), pr\<lparr>pr_tls_slots := pages[page := (pages ! page)[slot := True]]\<rparr>)
      | None \<Rightarrow>
          if \<not> page_available then (Inl ResultOutOfMemory, pr)
          else (Inr (tls_address_of (length pages) 0), pr\<lparr>pr_tls_slots := pages @ [True # replicate 7 False]\<rparr>))"

definition ResetThreadContext :: "u32 \<Rightarrow> u32 \<Rightarrow> u32 \<Rightarrow> Context \<Rightarrow> Context" where
  "ResetThreadContext stack_top entry_point arg cx = cx\<lparr>
     cpu_registers := (cpu_registers cx)(0 := arg, 15 := entry_point, 13 := stack_top),
     cpsr := 0x10 OR push_bit 5 (entry_point AND 1)\<rparr>"

definition new_thread :: "nat \<Rightarrow> u32 \<Rightarrow> u32 \<Rightarrow> nat \<Rightarrow> nat \<Rightarrow> u64 \<Rightarrow> KThread" where
  "new_thread p entry_point stack_top priority c ticks = \<lparr>
     th_context = \<lparr>cpu_registers = (\<lambda>_. 0), cpsr = 0, fpscr = 0\<rparr>, th_can_schedule = True,
     th_status = Dormant, th_entry_point = entry_point, th_stack_top = stack_top,
     th_nominal_priority = priority, th_current_priority = priority, th_last_running_ticks = ticks,
     th_core = c, th_tls_address = 0, th_held_mutexes = [], th_pending_mutexes = [],
     th_owner_process = p, th_wait_objects = [], th_wait_address = 0, th_wakeup_callback = None\<rparr>"

text \<open>
  \<open>entry_valid\<close> is the answer of \<open>IsValidVirtualAddress\<close>. The processor number indexes the managers,
  of which there is one per timer.
\<close>

definition CreateThread ::
  "bool \<Rightarrow> bool \<Rightarrow> u32 \<Rightarrow> nat \<Rightarrow> u32 \<Rightarrow> int \<Rightarrow> u32 \<Rightarrow> nat \<Rightarrow> bool \<Rightarrow> Kernel
     \<Rightarrow> ((result_code + nat) \<times> Kernel) option" where
  "CreateThread entry_valid page_available entry_point priority arg processor_id stack_top p make_ready s =
     (if ThreadPrioLowest < priority then Some (Inl ResultOutOfRange, s)
      else if 4 < processor_id then Some (Inl ResultOutOfRangeKernel, s)
      else if \<not> entry_valid then Some (Inl ResultInvalidAddressKernel, s)
      else if processor_id < 0 \<or> int (length (timers s)) \<le> processor_id then None
      else
        let c = nat processor_id; t = next_thread_id s;
            s1 = upd_queue c (q_prepare priority) (upd_manager c (\<lambda>m. m\<lparr>thread_list := thread_list m @ [t],
              wakeup_callback_table := insert t (wakeup_callback_table m)\<rparr>) (s\<lparr>next_thread_id := t + 1\<rparr>));
            s2 = set_waiting (ThreadObject t) []
              (upd_thread t (\<lambda>_. new_thread p entry_point stack_top priority c (GetTicks (timers s ! c))) s1)
        in (case processes s2 p of
          None \<Rightarrow> None
        | Some pr \<Rightarrow> (case AllocateThreadLocalStorage page_available pr of
            (Inl e, pr') \<Rightarrow> Some (Inl e, upd_process p (\<lambda>_. pr') s2)
          | (Inr tls, pr') \<Rightarrow>
              let s3 = upd_thread t (\<lambda>th. th\<lparr>th_tls_address := tls,
                    th_context := ResetThreadContext stack_top entry_point arg (th_context th)\<rparr>)
                    (upd_process p (\<lambda>_. pr') s2)
              in Some (Inr t, if make_ready
                then upd_thread t (\<lambda>th. th\<lparr>th_status := Ready\<rparr>) (upd_queue c (push_back priority t) s3)
                else s3))))"

section \<open>The wait calls\<close>

text \<open>The handles are given as the objects they stand for, where they stand for one.\<close>

definition go_to_sleep :: "nat \<Rightarrow> bool \<Rightarrow> u64 \<Rightarrow> Kernel \<Rightarrow> Kernel option" where
  "go_to_sleep t do_output ns s = do {
     s1 \<leftarrow> WakeAfterDelay t ns False s;
     Some (PrepareReschedule (upd_thread t (\<lambda>th. th\<lparr>th_wakeup_callback := Some (SyncCallback do_output)\<rparr>) s1)) }"

definition WaitSynchronization1 ::
  "WaitObject option \<Rightarrow> u64 \<Rightarrow> Kernel \<Rightarrow> (result_code option \<times> Kernel) option" where
  "WaitSynchronization1 handle ns s =
     (case handle of
        None \<Rightarrow> Some (Some ResultInvalidHandle, s)
      | Some obj \<Rightarrow> (case current_thread (managers s (current_cpu s)) of
          None \<Rightarrow> None
        | Some t \<Rightarrow>
            if ShouldWait s obj t
            then if ns = 0 then Some (Some ResultTimeout, s)
            else map_option (\<lambda>s'. (Some ResultTimeout, s'))
              (go_to_sleep t False ns
              (upd_thread t (\<lambda>th. th\<lparr>th_status := WaitSynchAny\<rparr>)
              (AddWaitingThread obj t
              (upd_thread t (\<lambda>th. th\<lparr>th_wait_objects := [obj]\<rparr>) s))))
            else map_option (\<lambda>s'. (None, s')) (Acquire obj t s)))"

definition wait_for_objects :: "nat \<Rightarrow> WaitObject list \<Rightarrow> ThreadStatus \<Rightarrow> bool \<Rightarrow> u64 \<Rightarrow> Kernel \<Rightarrow> Kernel option" where
  "wait_for_objects t objs status do_output ns s =
     go_to_sleep t do_output ns
     (upd_thread t (\<lambda>th. th\<lparr>th_wait_objects := objs\<rparr>)
     (fold (\<lambda>obj. AddWaitingThread obj t) objs
     (upd_thread t (\<lambda>th. th\<lparr>th_status := status\<rparr>) s)))"

text \<open>
  \<open>address_valid\<close> is the answer of \<open>IsValidVirtualAddress\<close> for the array of handles, of which there
  are \<open>handle_count\<close>. The value of the output parameter, when it is set, is the second component.
\<close>

definition WaitSynchronizationN ::
  "bool \<Rightarrow> int \<Rightarrow> WaitObject option list \<Rightarrow> bool \<Rightarrow> u64 \<Rightarrow> Kernel \<Rightarrow> (result_code option \<times> int option \<times> Kernel) option" where
  "WaitSynchronizationN address_valid handle_count handles wait_all ns s =
     (if \<not> address_valid then Some (Some ResultInvalidPointer, None, s)
      else if handle_count < 0 then Some (Some ResultOutOfRange, None, s)
      else if None \<in> set handles then Some (Some ResultInvalidHandle, None, s)
      else (case current_thread (managers s (current_cpu s)) of
        None \<Rightarrow> None
      | Some t \<Rightarrow>
          let objs = map the handles in
          if wait_all
          then if \<forall>obj \<in> set objs. \<not> ShouldWait s obj t
            then map_option (\<lambda>s'. (None, None, s')) (for_each (\<lambda>obj. Acquire obj t) objs s)
            else if ns = 0 then Some (Some ResultTimeout, None, s)
            else map_option (\<lambda>s'. (Some ResultTimeout, Some (- 1), s')) (wait_for_objects t objs WaitSynchAll False ns s)
          else (case find (\<lambda>i. \<not> ShouldWait s (objs ! i) t) [0..<length objs] of
            Some i \<Rightarrow> map_option (\<lambda>s'. (None, Some (int i), s')) (Acquire (objs ! i) t s)
          | None \<Rightarrow>
              if ns = 0 then Some (Some ResultTimeout, None, s)
              else map_option (\<lambda>s'. (Some ResultTimeout, Some (- 1), s')) (wait_for_objects t objs WaitSynchAny True ns s))))"

definition SleepThread :: "u64 \<Rightarrow> Kernel \<Rightarrow> Kernel option" where
  "SleepThread ns s =
     (let c = current_cpu s in
      if ns = 0 \<and> \<not> HaveReadyThreads c s then Some s
      else do {
        s1 \<leftarrow> WaitCurrentThread_Sleep c s;
        t \<leftarrow> current_thread (managers s1 c);
        s2 \<leftarrow> WakeAfterDelay t ns False s1;
        Some (PrepareReschedule s2) })"

end
