(* ===== verification/KernelInvariants.thy ===== *)
theory KernelInvariants imports Kernel begin

text \<open>
  The invariants of the kernel's threads: of the ready queues, and of the lists in which threads wait.
\<close>

section \<open>The ready queues\<close>

text \<open>
  The invariant of the ready queues: a core's queue holds exactly its ready threads, once, each at
  its current priority; and the levels of every thread's two priorities are prepared.
\<close>

definition levels_ok :: "Kernel \<Rightarrow> nat \<Rightarrow> bool" where
  "levels_ok s t \<longleftrightarrow> th_nominal_priority (threads s t) < NUM_QUEUES \<and> priority_of s t < NUM_QUEUES
     \<and> prepared (queue_of s (core_of s t)) (th_nominal_priority (threads s t))
     \<and> prepared (queue_of s (core_of s t)) (priority_of s t)"

definition queues_ok :: "nat set \<Rightarrow> Kernel \<Rightarrow> bool" where
  "queues_ok X s \<longleftrightarrow> (\<forall>c. tql_ok (queue_of s c))
     \<and> (\<forall>c p. distinct (q_data (queue_of s c) p))
     \<and> (\<forall>c p t. t \<in> set (q_data (queue_of s c) p) \<longleftrightarrow>
          status_of s t = Ready \<and> core_of s t = c \<and> priority_of s t = p \<and> t < next_thread_id s \<and> t \<notin> X)
     \<and> (\<forall>t < next_thread_id s. levels_ok s t)"

abbreviation queue_inv :: "Kernel \<Rightarrow> bool" where "queue_inv \<equiv> queues_ok {}"

lemma queues_okD:
  assumes "queues_ok X s"
  shows "tql_ok (queue_of s c)" "distinct (q_data (queue_of s c) p)"
    and "t \<in> set (q_data (queue_of s c) p) \<longleftrightarrow>
      status_of s t = Ready \<and> core_of s t = c \<and> priority_of s t = p \<and> t < next_thread_id s \<and> t \<notin> X"
    and "t < next_thread_id s \<Longrightarrow> levels_ok s t"
  using assms by (simp_all add: queues_ok_def)

lemmas queue_invD = queues_okD [where X = "{}", simplified]

lemma queues_ok_cong:
  assumes "threads s' = threads s" "\<And>c. queue_of s' c = queue_of s c" "next_thread_id s' = next_thread_id s"
  shows "queues_ok X s' = queues_ok X s"
  using assms by (simp add: queues_ok_def levels_ok_def)

text \<open>
  One thread and its core's queue change; \<open>X\<close> are the threads that are ready and yet out of the queue.
\<close>

lemma queues_ok_update:
  assumes inv: "queues_ok X s" and t: "t < next_thread_id s"
    and th: "threads s' = (threads s)(t := th')" "next_thread_id s' = next_thread_id s" "th_core th' = core_of s t"
    and q: "\<And>c. queue_of s' c = (if c = core_of s t then q' else queue_of s c)"
    and ok: "tql_ok q'" "\<And>p. prepared (queue_of s (core_of s t)) p \<Longrightarrow> prepared q' p" "\<And>p. distinct (q_data q' p)"
    and others: "\<And>p u. u \<noteq> t \<Longrightarrow> u \<in> set (q_data q' p) \<longleftrightarrow> u \<in> set (q_data (queue_of s (core_of s t)) p)"
    and self: "\<And>p. t \<in> set (q_data q' p) \<longleftrightarrow> th_status th' = Ready \<and> th_current_priority th' = p \<and> t \<notin> X'"
    and levels: "th_nominal_priority th' < NUM_QUEUES" "th_current_priority th' < NUM_QUEUES"
      "prepared q' (th_nominal_priority th')" "prepared q' (th_current_priority th')"
    and X: "X' - {t} = X - {t}"
  shows "queues_ok X' s'"
proof -
  note D = queues_okD [OF inv]
  have mem: "u \<in> set (q_data (queue_of s' c) p) \<longleftrightarrow>
      status_of s' u = Ready \<and> core_of s' u = c \<and> priority_of s' u = p \<and> u < next_thread_id s' \<and> u \<notin> X'" for u c p
  proof (cases "u = t")
    case True
    show ?thesis
    proof (cases "c = core_of s t")
      case c: True
      with True self t th show ?thesis by (auto simp: q)
    next
      case c: False
      have n: "t \<notin> set (q_data (queue_of s c) p)" using c D(3) [of t c p] by simp
      have e: "queue_of s' c = queue_of s c" unfolding q using c by (simp only: if_False)
      have core: "core_of s' u = core_of s t" by (simp only: True th fun_upd_same)
      show ?thesis unfolding e core using c n True by blast
    qed
  next
    case False
    then have "u \<in> set (q_data (queue_of s' c) p) \<longleftrightarrow> u \<in> set (q_data (queue_of s c) p)" using others by (simp add: q)
    moreover have "u \<in> X' \<longleftrightarrow> u \<in> X" using X False by blast
    ultimately show ?thesis using False by (simp add: D(3) th)
  qed
  have lev: "levels_ok s' u" if "u < next_thread_id s'" for u
  proof (cases "u = t")
    case True
    with levels th show ?thesis by (simp add: levels_ok_def q)
  next
    case False
    with D(4) [of u] that ok(2) show ?thesis by (auto simp: levels_ok_def th q)
  qed
  have "tql_ok (queue_of s' c)" "distinct (q_data (queue_of s' c) p)" for c p
    by (simp_all add: q ok(1,3) D(1,2))
  with mem lev show ?thesis unfolding queues_ok_def by (intro conjI allI impI)
qed

end
