(* ===== verification/SchedulerFacts.thy ===== *)
theory SchedulerFacts imports Scheduler KernelInvariants begin

text \<open>
  The scheduler chooses well: what is popped from the ready queue, what is put back, and what
  \<open>PopNextReadyThread\<close> and \<open>Reschedule\<close> do with it.
\<close>

section \<open>Popping until a thread may run\<close>

text \<open>
  The client of the queue's contract. A pop takes the best of the levels that \<open>P\<close> allows; the loop
  sets aside what may not be scheduled and stops at the first thread that may.
\<close>

context ready_queue begin

definition pops :: "('q \<Rightarrow> ('a option \<times> 'q) option) \<Rightarrow> (nat \<Rightarrow> bool) \<Rightarrow> 'q \<Rightarrow> bool" where
  "pops f P q \<longleftrightarrow>
     f q = Some (None, q) \<and> (\<forall>p. P p \<longrightarrow> level q p = [])
     \<or> (\<exists>p q'. P p \<and> f q = Some (Some (hd (level q p)), q') \<and> ok q' \<and> usable q' = usable q
          \<and> level q p \<noteq> [] \<and> (\<forall>i < p. level q i = []) \<and> level q' = (level q)(p := tl (level q p)))"

lemma pops_pop: "ok q \<Longrightarrow> pops (\<lambda>q. Some (pop q)) (\<lambda>_. True) q"
  unfolding pops_def by (rule pop_cases) auto

lemma pops_better: "ok q \<Longrightarrow> usable q s \<Longrightarrow> pops (\<lambda>q. pop_better q s) (\<lambda>p. p < s) q"
  unfolding pops_def by (rule better_cases) auto

definition total :: "'q \<Rightarrow> nat" where
  "total q = sum_list (map (\<lambda>p. length (level q p)) [0..<NUM_QUEUES])"

lemma total_tl:
  assumes "ok q" "level q p \<noteq> []" "level q' = (level q)(p := tl (level q p))"
  shows "total q = Suc (total q')"
proof -
  have "p < NUM_QUEUES" using ok_level assms(1,2) by blast
  then obtain A B where ab: "[0..<NUM_QUEUES] = A @ p # B" by (metis atLeastLessThan_upt atLeast0LessThan lessThan_iff split_list)
  then have "p \<notin> set A \<union> set B" using distinct_upt [of 0 NUM_QUEUES] by (simp del: upt_Suc)
  then have other: "map (\<lambda>i. length (level q' i)) A = map (\<lambda>i. length (level q i)) A"
    "map (\<lambda>i. length (level q' i)) B = map (\<lambda>i. length (level q i)) B" by (auto simp: assms(3))
  have "length (level q p) = Suc (length (level q' p))" using assms(2) by (simp add: assms(3))
  then show ?thesis by (simp only: total_def ab map_append list.map sum_list_append sum_list.Cons other)
qed

text \<open>The threads of a list that belong to one level.\<close>

abbreviation at_level :: "('a \<Rightarrow> nat) \<Rightarrow> nat \<Rightarrow> 'a list \<Rightarrow> 'a multiset" where
  "at_level prio p xs \<equiv> mset (filter (\<lambda>x. prio x = p) xs)"

lemma pop_schedulable_spec:
  assumes pops: "\<And>q'. ok q' \<Longrightarrow> usable q' = U \<Longrightarrow> pops f P q'"
  shows "ok q \<Longrightarrow> usable q = U \<Longrightarrow> total q \<le> n \<Longrightarrow> \<forall>p. \<forall>x \<in> set (level q p). prio x = p \<Longrightarrow>
    \<exists>next q' more. pop_schedulable n f can q aside = Some (next, q', aside @ more)
    \<and> ok q' \<and> usable q' = U \<and> (\<forall>x \<in> set more. \<not> can x \<and> prio x < NUM_QUEUES \<and> U (prio x))
    \<and> (\<forall>p. mset (level q p) = mset (level q' p) + at_level prio p more
          + (case next of None \<Rightarrow> {#} | Some t \<Rightarrow> at_level prio p [t]))
    \<and> (case next of
        None \<Rightarrow> \<forall>p. P p \<longrightarrow> level q' p = []
      | Some t \<Rightarrow> can t \<and> P (prio t) \<and> (\<forall>p. level q' p \<noteq> [] \<longrightarrow> prio t \<le> p))"
proof (induction n arbitrary: q aside)
  case 0
  have "level q p = []" for p
    using total_tl [of q p "q"] ok_level [OF 0(1), of p] 0(3)
    by (fastforce simp: total_def)
  with pops [OF 0(1,2)] have "f q = Some (None, q)" by (auto simp: pops_def)
  then have "pop_schedulable 0 f can q aside = Some (None, q, aside @ [])"
    by (subst pop_schedulable.simps) simp
  with 0 \<open>\<And>p. level q p = []\<close> show ?case by (intro exI conjI) auto
next
  case (Suc n)
  from pops [OF Suc.prems(1,2)] consider
    (none) "f q = Some (None, q)" "\<forall>p. P p \<longrightarrow> level q p = []"
  | (some) p q1 where "P p" "f q = Some (Some (hd (level q p)), q1)" "ok q1" "usable q1 = U"
      "level q p \<noteq> []" "\<forall>i < p. level q i = []" "level q1 = (level q)(p := tl (level q p))"
    using Suc.prems(2) unfolding pops_def by blast
  then show ?case
  proof cases
    case none
    then have "pop_schedulable (Suc n) f can q aside = Some (None, q, aside @ [])"
      by (subst pop_schedulable.simps) simp
    with Suc.prems none(2) show ?thesis by (intro exI conjI) auto
  next
    case some
    let ?x = "hd (level q p)"
    have x: "prio ?x = p" using Suc.prems(4) some(5) by simp
    have split: "mset (level q i) = mset (level q1 i) + at_level prio i [?x]" for i
      using some(5) x by (cases "level q p") (auto simp: some(7))
    show ?thesis
    proof (cases "can ?x")
      case True
      then have "pop_schedulable (Suc n) f can q aside = Some (Some ?x, q1, aside @ [])"
        by (subst pop_schedulable.simps) (simp add: some(2))
      moreover have "p \<le> i" if "level q1 i \<noteq> []" for i
        using that some(6) by (cases "i < p") (auto simp: some(7))
      ultimately show ?thesis
        using some True x split by (intro exI [of _ "Some ?x"] exI [of _ q1] exI [of _ "[]"]) auto
    next
      case False
      have t: "total q1 \<le> n" using total_tl [OF Suc.prems(1) some(5,7)] Suc.prems(3) by simp
      have p1: "\<forall>i. \<forall>y \<in> set (level q1 i). prio y = i"
        using Suc.prems(4) by (auto simp: some(7) dest: list.set_sel(2) [OF some(5)])
      from Suc.IH [OF some(3,4) t p1, of "aside @ [?x]"] obtain "next" q2 more where
        IH: "pop_schedulable n f can q1 (aside @ [?x]) = Some (next, q2, (aside @ [?x]) @ more)"
          "ok q2" "usable q2 = U" "\<forall>x \<in> set more. \<not> can x \<and> prio x < NUM_QUEUES \<and> U (prio x)"
          "\<forall>p. mset (level q1 p) = mset (level q2 p) + at_level prio p more
            + (case next of None \<Rightarrow> {#} | Some t \<Rightarrow> at_level prio p [t])"
          "case next of None \<Rightarrow> \<forall>p. P p \<longrightarrow> level q2 p = []
            | Some t \<Rightarrow> can t \<and> P (prio t) \<and> (\<forall>p. level q2 p \<noteq> [] \<longrightarrow> prio t \<le> p)" by blast
      have "pop_schedulable (Suc n) f can q aside = Some (next, q2, aside @ (?x # more))"
        using False IH(1) by (subst pop_schedulable.simps) (simp add: some(2))
      moreover have "\<forall>i. mset (level q i) = mset (level q2 i) + at_level prio i (?x # more)
          + (case next of None \<Rightarrow> {#} | Some t \<Rightarrow> at_level prio i [t])"
        using split IH(5) by (auto split: option.split)
      moreover have "\<not> can ?x \<and> prio ?x < NUM_QUEUES \<and> U (prio ?x)"
        using False ok_level [OF Suc.prems(1) some(5)] Suc.prems(2) x by simp
      ultimately show ?thesis using IH(2-4,6)
        by (intro exI [of _ "next"] exI [of _ q2] exI [of _ "?x # more"]) auto
    qed
  qed
qed

end

text \<open>The threads of a core the scheduler may choose.\<close>

definition schedulable :: "Kernel \<Rightarrow> nat \<Rightarrow> nat \<Rightarrow> bool" where
  "schedulable s c t \<longleftrightarrow> t < next_thread_id s \<and> status_of s t = Ready \<and> core_of s t = c
     \<and> th_can_schedule (threads s t)"

lemma fold_push_back:
  "(\<forall>x \<in> set xs. prio x < NUM_QUEUES \<and> prepared q (prio x)) \<Longrightarrow> tql_ok q \<Longrightarrow>
    tql_ok (fold (\<lambda>t. push_back (prio t) t) xs q)
    \<and> prepared (fold (\<lambda>t. push_back (prio t) t) xs q) = prepared q
    \<and> (\<forall>p. q_data (fold (\<lambda>t. push_back (prio t) t) xs q) p = q_data q p @ filter (\<lambda>x. prio x = p) xs)"
proof (induction xs arbitrary: q)
  case (Cons x xs)
  have x: "tql_ok (push_back (prio x) x q)" "prepared (push_back (prio x) x q) = prepared q"
    using tq.add_ok [of q "prio x" x] Cons.prems by auto
  from Cons.IH [of "push_back (prio x) x q"] Cons.prems x show ?case
    by (simp add: tq.add_level)
qed simp

lemma put_back_spec:
  assumes "\<forall>x \<in> set xs. prio x < NUM_QUEUES \<and> prepared q (prio x)" "tql_ok q"
  shows "tql_ok (put_back prio xs q)" "prepared (put_back prio xs q) = prepared q"
    and "q_data (put_back prio xs q) p = q_data q p @ filter (\<lambda>x. prio x = p) (rev xs)"
  using fold_push_back [of "rev xs" prio q] assms by (simp_all add: put_back_def)

lemma queued_total: "queued q = tq.total q"
  by (simp add: queued_def tq.total_def)

text \<open>What the search leaves: the same threads, less the one it chose.\<close>

definition queue_without :: "Kernel \<Rightarrow> nat \<Rightarrow> nat option \<Rightarrow> nat tql \<Rightarrow> bool" where
  "queue_without s c chosen q \<longleftrightarrow> tql_ok q \<and> prepared q = prepared (queue_of s c)
     \<and> (\<forall>p. mset (q_data (queue_of s c) p) =
          mset (q_data q p) + (case chosen of Some t \<Rightarrow> if priority_of s t = p then {#t#} else {#} | None \<Rightarrow> {#}))"

lemma pop_from_core:
  assumes inv: "queue_inv s"
    and pops: "\<And>q. tql_ok q \<Longrightarrow> prepared q = prepared (queue_of s c) \<Longrightarrow> tq.pops f P q"
  shows "\<exists>next q1 aside. pop_schedulable (queued (queue_of s c)) f (\<lambda>t. th_can_schedule (threads s t)) (queue_of s c) []
      = Some (next, q1, aside)
    \<and> queue_without s c next (put_back (priority_of s) aside q1)
    \<and> (case next of
        None \<Rightarrow> \<forall>u. schedulable s c u \<longrightarrow> \<not> P (priority_of s u)
      | Some t \<Rightarrow> schedulable s c t \<and> P (priority_of s t)
          \<and> (\<forall>u. schedulable s c u \<longrightarrow> priority_of s t \<le> priority_of s u))"
proof -
  let ?q = "queue_of s c"
  have prio: "\<forall>p. \<forall>x \<in> set (q_data ?q p). priority_of s x = p" using queue_invD(3) [OF inv] by simp
  from tq.pop_schedulable_spec [OF pops queue_invD(1) [OF inv, of c] refl, of "queued ?q" "priority_of s"
      "\<lambda>t. th_can_schedule (threads s t)" "[]"] prio
  obtain "next" q1 aside where r:
    "pop_schedulable (queued ?q) f (\<lambda>t. th_can_schedule (threads s t)) ?q [] = Some (next, q1, aside)"
    "tql_ok q1" "prepared q1 = prepared ?q"
    "\<forall>x \<in> set aside. \<not> th_can_schedule (threads s x) \<and> priority_of s x < NUM_QUEUES \<and> prepared ?q (priority_of s x)"
    "\<And>p. mset (q_data ?q p) = mset (q_data q1 p) + tq.at_level (priority_of s) p aside
      + (case next of None \<Rightarrow> {#} | Some t \<Rightarrow> tq.at_level (priority_of s) p [t])"
    "case next of None \<Rightarrow> \<forall>p. P p \<longrightarrow> q_data q1 p = []
      | Some t \<Rightarrow> th_can_schedule (threads s t) \<and> P (priority_of s t)
          \<and> (\<forall>p. q_data q1 p \<noteq> [] \<longrightarrow> priority_of s t \<le> p)"
    by (auto simp: queued_total)
  have ret: "\<forall>x \<in> set aside. priority_of s x < NUM_QUEUES \<and> prepared q1 (priority_of s x)" using r(3,4) by simp
  have "queue_without s c next (put_back (priority_of s) aside q1)"
    using r(5) by (auto simp: queue_without_def put_back_spec [OF ret r(2)] r(3) rev_filter [symmetric]
        simp del: filter.simps split: option.split)
  moreover have member: "x \<in> set (q_data ?q p) \<longleftrightarrow> x \<in> set (q_data q1 p) \<or> (x \<in> set aside \<and> priority_of s x = p)
      \<or> (next = Some x \<and> priority_of s x = p)" for x p
    using arg_cong [OF r(5) [of p], of set_mset] by (auto split: option.splits if_splits)
  have found: "u \<in> set (q_data ?q (priority_of s u))" if "schedulable s c u" for u
    using that queue_invD(3) [OF inv] by (simp add: schedulable_def)
  have rest: "u \<in> set (q_data q1 (priority_of s u)) \<or> next = Some u" if "schedulable s c u" for u
    using found [OF that] that r(4) by (auto simp: member schedulable_def)
  have "case next of None \<Rightarrow> \<forall>u. schedulable s c u \<longrightarrow> \<not> P (priority_of s u)
      | Some t \<Rightarrow> schedulable s c t \<and> P (priority_of s t)
          \<and> (\<forall>u. schedulable s c u \<longrightarrow> priority_of s t \<le> priority_of s u)"
  proof (cases "next")
    case None
    with r(6) rest show ?thesis by fastforce
  next
    case (Some t)
    then have "t \<in> set (q_data ?q (priority_of s t))" by (simp add: member)
    then have "schedulable s c t" using r(6) queue_invD(3) [OF inv] by (simp add: schedulable_def Some)
    moreover have "priority_of s t \<le> priority_of s u" if "schedulable s c u" for u
      using rest [OF that] r(6) Some by force
    ultimately show ?thesis using r(6) by (simp add: Some)
  qed
  ultimately show ?thesis using r(1) by blast
qed

text \<open>What the choice is: the running thread, or a better one that is then out of the queue, or none.\<close>

definition picks :: "Kernel \<Rightarrow> nat \<Rightarrow> nat option \<Rightarrow> nat tql \<Rightarrow> bool" where
  "picks s c chosen q \<longleftrightarrow>
     (case chosen of
        None \<Rightarrow> (\<forall>u. \<not> schedulable s c u) \<and> queue_without s c None q
      | Some t \<Rightarrow>
          if current_thread (managers s c) = Some t \<and> status_of s t = Running
          then (\<forall>u. schedulable s c u \<longrightarrow> priority_of s t \<le> priority_of s u) \<and> queue_without s c None q
          else schedulable s c t \<and> queue_without s c (Some t) q
            \<and> (\<forall>u. schedulable s c u \<longrightarrow> priority_of s t \<le> priority_of s u)
            \<and> (\<forall>r. current_thread (managers s c) = Some r \<and> status_of s r = Running \<longrightarrow> priority_of s t < priority_of s r))"

lemma PopNext_picks:
  assumes "queue_inv s"
    and "\<And>t. current_thread (managers s c) = Some t \<Longrightarrow> status_of s t = Running \<Longrightarrow> t < next_thread_id s \<and> core_of s t = c"
  shows "\<exists>next q. PopNextReadyThread c s = Some (next, upd_queue c (\<lambda>_. q) s)
    \<and> picks s c next q"
proof (cases "\<exists>t. current_thread (managers s c) = Some t \<and> status_of s t = Running")
  case True
  then obtain t where t: "current_thread (managers s c) = Some t" "status_of s t = Running" by blast
  have "prepared (queue_of s c) (priority_of s t)"
    using assms(2) [OF t] queue_invD(4) [OF assms(1), of t] by (auto simp: levels_ok_def)
  then have "tql_ok q \<Longrightarrow> prepared q = prepared (queue_of s c) \<Longrightarrow>
      tq.pops (\<lambda>q. pop_first_better q (priority_of s t)) (\<lambda>p. p < priority_of s t) q" for q :: "nat tql"
    by (intro tq.pops_better) simp_all
  from pop_from_core [OF assms(1) this] obtain "next" q1 aside where r:
    "pop_schedulable (queued (queue_of s c)) (\<lambda>q. pop_first_better q (priority_of s t))
       (\<lambda>t. th_can_schedule (threads s t)) (queue_of s c) [] = Some (next, q1, aside)"
    "queue_without s c next (put_back (priority_of s) aside q1)"
    "case next of None \<Rightarrow> \<forall>u. schedulable s c u \<longrightarrow> \<not> priority_of s u < priority_of s t
      | Some v \<Rightarrow> schedulable s c v \<and> priority_of s v < priority_of s t
          \<and> (\<forall>u. schedulable s c u \<longrightarrow> priority_of s v \<le> priority_of s u)" by blast
  have "PopNextReadyThread c s = Some (Some (case next of None \<Rightarrow> t | Some u \<Rightarrow> u),
      upd_queue c (\<lambda>_. put_back (priority_of s) aside q1) s)"
    using t r(1) by (simp add: PopNextReadyThread_def)
  moreover have "picks s c (Some (case next of None \<Rightarrow> t | Some u \<Rightarrow> u)) (put_back (priority_of s) aside q1)"
    using r(2,3) t by (cases "next") (auto simp: picks_def not_less schedulable_def)
  ultimately show ?thesis by blast
next
  case False
  have "tql_ok q \<Longrightarrow> tq.pops (\<lambda>q. Some (pop_first q)) (\<lambda>_. True) q" for q :: "nat tql"
    by (rule tq.pops_pop)
  from pop_from_core [OF assms(1) this] obtain "next" q1 aside where r:
    "pop_schedulable (queued (queue_of s c)) (\<lambda>q. Some (pop_first q))
       (\<lambda>t. th_can_schedule (threads s t)) (queue_of s c) [] = Some (next, q1, aside)"
    "queue_without s c next (put_back (priority_of s) aside q1)"
    "case next of None \<Rightarrow> \<forall>u. schedulable s c u \<longrightarrow> \<not> True
      | Some v \<Rightarrow> schedulable s c v \<and> True
          \<and> (\<forall>u. schedulable s c u \<longrightarrow> priority_of s v \<le> priority_of s u)" by blast
  have "PopNextReadyThread c s = Some (next, upd_queue c (\<lambda>_. put_back (priority_of s) aside q1) s)"
    using False r(1) by (auto simp: PopNextReadyThread_def split: option.split)
  moreover have "picks s c next (put_back (priority_of s) aside q1)"
    using r(2,3) False by (cases "next") (auto simp: picks_def)
  ultimately show ?thesis by blast
qed

end
