(* ===== verification/WaitFacts.thy ===== *)
theory WaitFacts imports KernelInvariants begin

text \<open>
  What the priority changes, the acquisitions and the wake-ups keep: the invariant of the ready
  queues, of the wait lists and of the mutexes.
\<close>

section \<open>The invariant\<close>

abbreviation wait_states :: "ThreadStatus set" where
  "wait_states \<equiv> {WaitSynchAny, WaitSynchAll, WaitHleEvent}"

text \<open>A thread is in the lists of exactly the objects it waits for, and then it is asleep.\<close>

definition thread_waits :: "Kernel \<Rightarrow> nat \<Rightarrow> bool" where
  "thread_waits s t \<longleftrightarrow>
     (th_wait_objects (threads s t) \<noteq> [] \<longrightarrow> status_of s t \<in> wait_states \<and> t < next_thread_id s
        \<and> (\<forall>a. th_wakeup_callback (threads s t) \<noteq> Some (ArbiterCallback a)))
     \<and> (status_of s t = Ready \<longrightarrow> th_wakeup_callback (threads s t) = None)
     \<and> (status_of s t = WaitSynchAll \<longrightarrow> distinct (th_wait_objects (threads s t)))"

definition wait_inv :: "Kernel \<Rightarrow> bool" where
  "wait_inv s \<longleftrightarrow> (\<forall>obj. distinct (waiting_threads s obj))
     \<and> (\<forall>obj t. t \<in> set (waiting_threads s obj) \<longleftrightarrow> obj \<in> set (th_wait_objects (threads s t)))
     \<and> (\<forall>t. thread_waits s t)"

definition mutex_inv :: "Kernel \<Rightarrow> bool" where
  "mutex_inv s \<longleftrightarrow>
     (\<forall>m t. m \<in> set (th_held_mutexes (threads s t)) \<longleftrightarrow> mx_holding_thread (kmutexes s m) = Some t)
     \<and> (\<forall>m. 0 < mx_lock_count (kmutexes s m) \<longleftrightarrow> mx_holding_thread (kmutexes s m) \<noteq> None)
     \<and> (\<forall>m. 0 \<le> mx_lock_count (kmutexes s m))
     \<and> (\<forall>m t. mx_holding_thread (kmutexes s m) = Some t \<longrightarrow> t < next_thread_id s)
     \<and> (\<forall>t. distinct (th_held_mutexes (threads s t)) \<and> sorted (th_held_mutexes (threads s t)))"

definition kernel_inv :: "Kernel \<Rightarrow> bool" where
  "kernel_inv s \<longleftrightarrow> queue_inv s \<and> wait_inv s \<and> mutex_inv s"

section \<open>Changes of priority\<close>

text \<open>
  The states that differ in priorities, pending sets and ready queues alone: those that are equal once
  these are erased.
\<close>

definition erase :: "Kernel \<Rightarrow> Kernel" where
  "erase s = s\<lparr>
     threads := (\<lambda>u. (threads s u)\<lparr>th_current_priority := 0, th_pending_mutexes := []\<rparr>),
     kmutexes := (\<lambda>m. (kmutexes s m)\<lparr>mx_priority := 0\<rparr>),
     managers := (\<lambda>c. (managers s c)\<lparr>ready_queue := tql_init\<rparr>)\<rparr>"

definition boosts :: "Kernel \<Rightarrow> Kernel \<Rightarrow> bool" where
  "boosts s s' \<longleftrightarrow> erase s' = erase s"

lemma boosts_refl [simp]: "boosts s s"
  by (simp add: boosts_def)

lemma boosts_trans [trans]: "boosts s s1 \<Longrightarrow> boosts s1 s2 \<Longrightarrow> boosts s s2"
  by (simp add: boosts_def)

lemma erase_fields:
  shows "th_status (threads (erase s) u) = th_status (threads s u)"
    "th_core (threads (erase s) u) = th_core (threads s u)"
    "th_wait_objects (threads (erase s) u) = th_wait_objects (threads s u)"
    "th_wakeup_callback (threads (erase s) u) = th_wakeup_callback (threads s u)"
    "th_held_mutexes (threads (erase s) u) = th_held_mutexes (threads s u)"
    "th_nominal_priority (threads (erase s) u) = th_nominal_priority (threads s u)"
    "th_can_schedule (threads (erase s) u) = th_can_schedule (threads s u)"
    "th_owner_process (threads (erase s) u) = th_owner_process (threads s u)"
    "th_wait_address (threads (erase s) u) = th_wait_address (threads s u)"
    "th_context (threads (erase s) u) = th_context (threads s u)"
    "th_last_running_ticks (threads (erase s) u) = th_last_running_ticks (threads s u)"
    "th_tls_address (threads (erase s) u) = th_tls_address (threads s u)"
    "mx_lock_count (kmutexes (erase s) m) = mx_lock_count (kmutexes s m)"
    "mx_holding_thread (kmutexes (erase s) m) = mx_holding_thread (kmutexes s m)"
    "waiting_threads (erase s) = waiting_threads s"
    "next_thread_id (erase s) = next_thread_id s"
    "ksemaphores (erase s) = ksemaphores s"
    "kevents (erase s) = kevents s"
    "ktimers (erase s) = ktimers s"
    "arbiters (erase s) = arbiters s"
    "timers (erase s) = timers s"
    "processes (erase s) = processes s"
    "current_cpu (erase s) = current_cpu s"
    "hle_notifiers (erase s) = hle_notifiers s"
    "hle_calls (erase s) = hle_calls s"
    "resource_limits (erase s) = resource_limits s"
    "current_thread (managers (erase s) c) = current_thread (managers s c)"
    "thread_list (managers (erase s) c) = thread_list (managers s c)"
    "wakeup_callback_table (managers (erase s) c) = wakeup_callback_table (managers s c)"
  by (simp_all add: erase_def)

lemma boosts_fields:
  assumes "boosts s s'"
  shows "th_status (threads s' u) = th_status (threads s u)"
    "th_core (threads s' u) = th_core (threads s u)"
    "th_wait_objects (threads s' u) = th_wait_objects (threads s u)"
    "th_wakeup_callback (threads s' u) = th_wakeup_callback (threads s u)"
    "th_held_mutexes (threads s' u) = th_held_mutexes (threads s u)"
    "th_nominal_priority (threads s' u) = th_nominal_priority (threads s u)"
    "th_can_schedule (threads s' u) = th_can_schedule (threads s u)"
    "th_owner_process (threads s' u) = th_owner_process (threads s u)"
    "th_wait_address (threads s' u) = th_wait_address (threads s u)"
    "th_context (threads s' u) = th_context (threads s u)"
    "th_last_running_ticks (threads s' u) = th_last_running_ticks (threads s u)"
    "th_tls_address (threads s' u) = th_tls_address (threads s u)"
    "mx_lock_count (kmutexes s' m) = mx_lock_count (kmutexes s m)"
    "mx_holding_thread (kmutexes s' m) = mx_holding_thread (kmutexes s m)"
    "waiting_threads s' = waiting_threads s"
    "next_thread_id s' = next_thread_id s"
    "ksemaphores s' = ksemaphores s"
    "kevents s' = kevents s"
    "ktimers s' = ktimers s"
    "arbiters s' = arbiters s"
    "timers s' = timers s"
    "processes s' = processes s"
    "current_cpu s' = current_cpu s"
    "hle_notifiers s' = hle_notifiers s"
    "hle_calls s' = hle_calls s"
    "resource_limits s' = resource_limits s"
    "current_thread (managers s' c) = current_thread (managers s c)"
    "thread_list (managers s' c) = thread_list (managers s c)"
    "wakeup_callback_table (managers s' c) = wakeup_callback_table (managers s c)"
proof -
  have "th_status (threads (erase s') u) = th_status (threads (erase s) u)
    \<and> th_core (threads (erase s') u) = th_core (threads (erase s) u)
    \<and> th_wait_objects (threads (erase s') u) = th_wait_objects (threads (erase s) u)
    \<and> th_wakeup_callback (threads (erase s') u) = th_wakeup_callback (threads (erase s) u)
    \<and> th_held_mutexes (threads (erase s') u) = th_held_mutexes (threads (erase s) u)
    \<and> th_nominal_priority (threads (erase s') u) = th_nominal_priority (threads (erase s) u)
    \<and> th_can_schedule (threads (erase s') u) = th_can_schedule (threads (erase s) u)
    \<and> th_owner_process (threads (erase s') u) = th_owner_process (threads (erase s) u)
    \<and> th_wait_address (threads (erase s') u) = th_wait_address (threads (erase s) u)
    \<and> th_context (threads (erase s') u) = th_context (threads (erase s) u)
    \<and> th_last_running_ticks (threads (erase s') u) = th_last_running_ticks (threads (erase s) u)
    \<and> th_tls_address (threads (erase s') u) = th_tls_address (threads (erase s) u)
    \<and> mx_lock_count (kmutexes (erase s') m) = mx_lock_count (kmutexes (erase s) m)
    \<and> mx_holding_thread (kmutexes (erase s') m) = mx_holding_thread (kmutexes (erase s) m)
    \<and> waiting_threads (erase s') = waiting_threads (erase s)
    \<and> next_thread_id (erase s') = next_thread_id (erase s)
    \<and> ksemaphores (erase s') = ksemaphores (erase s)
    \<and> kevents (erase s') = kevents (erase s)
    \<and> ktimers (erase s') = ktimers (erase s)
    \<and> arbiters (erase s') = arbiters (erase s)
    \<and> timers (erase s') = timers (erase s)
    \<and> processes (erase s') = processes (erase s)
    \<and> current_cpu (erase s') = current_cpu (erase s)
    \<and> hle_notifiers (erase s') = hle_notifiers (erase s)
    \<and> hle_calls (erase s') = hle_calls (erase s)
    \<and> resource_limits (erase s') = resource_limits (erase s)
    \<and> current_thread (managers (erase s') c) = current_thread (managers (erase s) c)
    \<and> thread_list (managers (erase s') c) = thread_list (managers (erase s) c)
    \<and> wakeup_callback_table (managers (erase s') c) = wakeup_callback_table (managers (erase s) c)"
    using assms by (simp only: boosts_def simp_thms)
  then show "th_status (threads s' u) = th_status (threads s u)"
    "th_core (threads s' u) = th_core (threads s u)"
    "th_wait_objects (threads s' u) = th_wait_objects (threads s u)"
    "th_wakeup_callback (threads s' u) = th_wakeup_callback (threads s u)"
    "th_held_mutexes (threads s' u) = th_held_mutexes (threads s u)"
    "th_nominal_priority (threads s' u) = th_nominal_priority (threads s u)"
    "th_can_schedule (threads s' u) = th_can_schedule (threads s u)"
    "th_owner_process (threads s' u) = th_owner_process (threads s u)"
    "th_wait_address (threads s' u) = th_wait_address (threads s u)"
    "th_context (threads s' u) = th_context (threads s u)"
    "th_last_running_ticks (threads s' u) = th_last_running_ticks (threads s u)"
    "th_tls_address (threads s' u) = th_tls_address (threads s u)"
    "mx_lock_count (kmutexes s' m) = mx_lock_count (kmutexes s m)"
    "mx_holding_thread (kmutexes s' m) = mx_holding_thread (kmutexes s m)"
    "waiting_threads s' = waiting_threads s"
    "next_thread_id s' = next_thread_id s"
    "ksemaphores s' = ksemaphores s"
    "kevents s' = kevents s"
    "ktimers s' = ktimers s"
    "arbiters s' = arbiters s"
    "timers s' = timers s"
    "processes s' = processes s"
    "current_cpu s' = current_cpu s"
    "hle_notifiers s' = hle_notifiers s"
    "hle_calls s' = hle_calls s"
    "resource_limits s' = resource_limits s"
    "current_thread (managers s' c) = current_thread (managers s c)"
    "thread_list (managers s' c) = thread_list (managers s c)"
    "wakeup_callback_table (managers s' c) = wakeup_callback_table (managers s c)"
    unfolding erase_fields by blast+
qed

lemma boosts_ShouldWait: "boosts s s' \<Longrightarrow> ShouldWait s' obj t = ShouldWait s obj t"
  by (cases obj) (simp_all add: boosts_fields)

lemma boosts_thread:
  assumes "th\<lparr>th_current_priority := 0, th_pending_mutexes := []\<rparr>
    = (threads s t)\<lparr>th_current_priority := 0, th_pending_mutexes := []\<rparr>"
  shows "boosts s (s\<lparr>threads := (threads s)(t := th)\<rparr>)"
  using assms by (auto simp: boosts_def erase_def fun_eq_iff)

lemma boosts_queue: "boosts s (upd_queue c f s)"
  by (auto simp: boosts_def erase_def upd_queue_def fun_eq_iff)

lemma boosts_mutex: "boosts s (upd_mutex m (\<lambda>x. x\<lparr>mx_priority := p\<rparr>) s)"
  by (auto simp: boosts_def erase_def upd_mutex_def fun_eq_iff)

lemma wait_inv_boosts: "boosts s s' \<Longrightarrow> wait_inv s' = wait_inv s"
  by (simp add: wait_inv_def thread_waits_def boosts_fields)

lemma mutex_inv_boosts: "boosts s s' \<Longrightarrow> mutex_inv s' = mutex_inv s"
  by (simp add: mutex_inv_def boosts_fields)

lemma boosts_set_ready_level: "boosts s (set_ready_level t p s)"
  by (simp add: set_ready_level_def boosts_queue)

lemma boosts_BoostPriority: "boosts s (BoostPriority t p s)"
proof -
  have "boosts (set_ready_level t p s) (BoostPriority t p s)"
    unfolding BoostPriority_def upd_thread_def by (rule boosts_thread) simp
  with boosts_set_ready_level show ?thesis by (rule boosts_trans)
qed

lemma boosts_UpdatePriority: "boosts s (UpdatePriority t s)"
  by (simp add: UpdatePriority_def boosts_BoostPriority)

lemma boosts_Mutex_UpdatePriority: "boosts s (Mutex_UpdatePriority m s)"
  unfolding Mutex_UpdatePriority_def Let_def
  by (auto intro: boosts_trans [OF boosts_mutex boosts_UpdatePriority] split: option.split)

section \<open>Changes of priority keep the queues\<close>

lemma queue_inv_BoostPriority:
  assumes inv: "queue_inv s" and t: "t < next_thread_id s" and p: "p < NUM_QUEUES"
  shows "queue_inv (BoostPriority t p s)"
proof -
  let ?q = "queue_of s (core_of s t)" and ?cur = "priority_of s t"
  note D = queue_invD [OF inv]
  have lev: "th_nominal_priority (threads s t) < NUM_QUEUES" "prepared ?q (th_nominal_priority (threads s t))"
    using D(4) [OF t] by (simp_all add: levels_ok_def)
  have nt: "t \<notin> set (q_data ?q i)" if "status_of s t \<noteq> Ready \<or> i \<noteq> ?cur" for i
    using that D(3) [of t "core_of s t" i] by auto
  define q' where "q' = (if status_of s t = Ready then q_move t ?cur p ?q else q_prepare p ?q)"
  let ?r = "q_remove ?cur t ?q"
  have r: "tql_ok ?r" "prepared ?r = prepared ?q" using tq.del_ok [OF D(1)] by auto
  have P: "tql_ok (q_prepare p ?q)" "\<And>i. prepared (q_prepare p ?q) i \<longleftrightarrow> i = p \<or> prepared ?q i"
    "tql_ok (q_prepare p ?r)" "\<And>i. prepared (q_prepare p ?r) i \<longleftrightarrow> i = p \<or> prepared ?q i"
    using tq.prep_ok [OF D(1) p] tq.prep_ok [OF r(1) p] r(2) by auto
  have A: "tql_ok (push_back p t (q_prepare p ?r))" "prepared (push_back p t (q_prepare p ?r)) = prepared (q_prepare p ?r)"
    using tq.add_ok [OF P(3), of p t] P(4) by auto
  have ok: "tql_ok q'" "prepared q' i \<longleftrightarrow> i = p \<or> prepared ?q i" for i
    using P A by (simp_all add: q'_def q_move_def)
  have data: "q_data q' i = (if status_of s t = Ready
      then (if i = p then filter (\<lambda>y. y \<noteq> t) (q_data ?q i) @ [t] else filter (\<lambda>y. y \<noteq> t) (q_data ?q i))
      else q_data ?q i)" for i
  proof -
    have "filter (\<lambda>y. y \<noteq> t) (q_data ?q i) = q_data ?q i" if "i \<noteq> ?cur"
      using nt [of i] that by (auto simp: filter_id_conv)
    then show ?thesis
      by (auto simp: q'_def q_move_def push_back_def q_remove_def)
  qed
  show ?thesis
  proof (rule queues_ok_update [OF inv t, where q' = q'])
    show "threads (BoostPriority t p s) = (threads s)(t := (threads s t)\<lparr>th_current_priority := p\<rparr>)"
      by (auto simp: BoostPriority_def set_ready_level_def upd_thread_def upd_queue_def)
    show "next_thread_id (BoostPriority t p s) = next_thread_id s"
      by (rule boosts_fields [OF boosts_BoostPriority])
    show "queue_of (BoostPriority t p s) c = (if c = core_of s t then q' else queue_of s c)" for c
      by (auto simp: BoostPriority_def set_ready_level_def upd_thread_def upd_queue_def q'_def)
    show "distinct (q_data q' i)" for i using D(2) [of "core_of s t" i] by (auto simp: data)
    show "u \<in> set (q_data q' i) \<longleftrightarrow> u \<in> set (q_data ?q i)" if "u \<noteq> t" for i u
      using that by (simp add: data)
    show "t \<in> set (q_data q' i) \<longleftrightarrow> th_status ((threads s t)\<lparr>th_current_priority := p\<rparr>) = Ready
        \<and> th_current_priority ((threads s t)\<lparr>th_current_priority := p\<rparr>) = i \<and> t \<notin> {}" for i
      using nt [of i] by (auto simp: data)
  qed (use ok lev p in simp_all)
qed

lemma kernel_inv_boosts:
  assumes "boosts s s'" "kernel_inv s" "queue_inv s'"
  shows "kernel_inv s'"
  using assms by (simp add: kernel_inv_def wait_inv_boosts mutex_inv_boosts)

lemma best_priority_min: "best_priority start ps = Min (insert start (set ps))"
proof -
  have "(\<lambda>best p. if p < best then p else best) = (\<lambda>best p :: nat. min p best)" by (auto simp: fun_eq_iff)
  then have "best_priority start ps = fold min ps start" by (simp add: best_priority_def foldl_conv_fold)
  then show ?thesis using Min.set_eq_fold [of start ps] by simp
qed

lemma best_priority_le: "best_priority start ps \<le> start"
  by (simp add: best_priority_min)

lemma queue_inv_UpdatePriority:
  assumes "queue_inv s" "t < next_thread_id s"
  shows "queue_inv (UpdatePriority t s)"
proof -
  have "th_nominal_priority (threads s t) < NUM_QUEUES"
    using queue_invD(4) [OF assms] by (simp add: levels_ok_def)
  then show ?thesis unfolding UpdatePriority_def
    by (intro queue_inv_BoostPriority assms order_le_less_trans [OF best_priority_le])
qed

lemma queue_inv_upd_mutex [simp]: "queues_ok X (upd_mutex m f s) = queues_ok X s"
  by (rule queues_ok_cong) (simp_all add: upd_mutex_def)

lemma queue_inv_Mutex_UpdatePriority:
  assumes "queue_inv s" "mutex_inv s"
  shows "queue_inv (Mutex_UpdatePriority m s)"
proof (cases "mx_holding_thread (kmutexes s m)")
  case None
  with assms show ?thesis by (simp add: Mutex_UpdatePriority_def)
next
  case (Some h)
  then have "h < next_thread_id s" using assms(2) by (simp add: mutex_inv_def)
  then show ?thesis using assms(1)
    by (auto simp: Mutex_UpdatePriority_def Some Let_def upd_mutex_def [of m _ s]
        intro!: queue_inv_UpdatePriority queue_inv_upd_mutex [of "{}" m _ s, THEN iffD2, unfolded upd_mutex_def])
qed

section \<open>Fields that do not matter\<close>

text \<open>The invariant reads the threads, the wait lists, the mutexes, the ready queues and the next identifier.\<close>

lemma kernel_inv_cong:
  assumes "threads s' = threads s" "waiting_threads s' = waiting_threads s" "kmutexes s' = kmutexes s"
    "\<And>c. queue_of s' c = queue_of s c" "next_thread_id s' = next_thread_id s"
  shows "kernel_inv s' = kernel_inv s"
  using queues_ok_cong [OF assms(1,4,5)] assms
  by (simp add: kernel_inv_def wait_inv_def mutex_inv_def thread_waits_def)

text \<open>A thread may change in what neither its queue, its wait lists nor its mutexes depend on.\<close>

lemma kernel_inv_upd_thread:
  assumes "kernel_inv s"
    and "th_status (f (threads s t)) = status_of s t" "th_core (f (threads s t)) = core_of s t"
    and "th_current_priority (f (threads s t)) = priority_of s t"
    and "th_nominal_priority (f (threads s t)) = th_nominal_priority (threads s t)"
    and "th_wait_objects (f (threads s t)) = th_wait_objects (threads s t)"
    and "th_held_mutexes (f (threads s t)) = th_held_mutexes (threads s t)"
    and "th_wakeup_callback (f (threads s t)) = th_wakeup_callback (threads s t)"
  shows "kernel_inv (upd_thread t f s)"
  using assms
  by (auto simp: kernel_inv_def queues_ok_def levels_ok_def wait_inv_def thread_waits_def mutex_inv_def upd_thread_def)

section \<open>Acquisition\<close>

lemma insort_insert_held:
  assumes "sorted xs" "distinct xs"
  shows "sorted (insort_insert m xs)" "distinct (insort_insert m xs)" "set (insort_insert m xs) = insert m (set xs)"
  using assms by (simp_all add: sorted_insort_insert distinct_insort_insert set_insort_insert)

lemma Mutex_Acquire_inv:
  assumes inv: "kernel_inv s" and t: "t < next_thread_id s" and free: "\<not> ShouldWait s (MutexObject m) t"
  shows "\<exists>s'. Mutex_Acquire m t s = Some s' \<and> kernel_inv s'"
proof (cases "mx_lock_count (kmutexes s m) = 0")
  case False
  let ?s = "upd_mutex m (\<lambda>x. x\<lparr>mx_lock_count := mx_lock_count x + 1\<rparr>) s"
  have "0 < mx_lock_count (kmutexes s m)" using False inv by (auto simp: kernel_inv_def mutex_inv_def order_le_less)
  then have "mutex_inv ?s"
    using inv unfolding kernel_inv_def mutex_inv_def upd_mutex_def by (auto simp: order_less_imp_le)
  moreover have "wait_inv ?s" using inv by (simp add: kernel_inv_def wait_inv_def thread_waits_def upd_mutex_def)
  ultimately show ?thesis using inv free False
    by (simp add: Mutex_Acquire_def kernel_inv_def del: ShouldWait.simps)
next
  case True
  have none: "mx_holding_thread (kmutexes s m) = None"
    using inv True unfolding kernel_inv_def mutex_inv_def by (metis less_irrefl)
  have nheld: "m \<notin> set (th_held_mutexes (threads s u))" for u
    using inv none unfolding kernel_inv_def mutex_inv_def by simp
  have held: "sorted (th_held_mutexes (threads s t))" "distinct (th_held_mutexes (threads s t))"
    using inv unfolding kernel_inv_def mutex_inv_def by simp_all
  let ?s2 = "upd_thread t (\<lambda>th. th\<lparr>th_held_mutexes := insort_insert m (th_held_mutexes th)\<rparr>)
      (upd_mutex m (\<lambda>x. x\<lparr>mx_priority := priority_of s t\<rparr>) s)"
  let ?s3 = "upd_mutex m (\<lambda>x. x\<lparr>mx_holding_thread := Some t\<rparr>) ?s2"
  obtain s4 where s4: "UpdatePriority t ?s3 = s4" by blast
  let ?s5 = "upd_mutex m (\<lambda>x. x\<lparr>mx_lock_count := mx_lock_count x + 1\<rparr>) (PrepareReschedule s4)"
  have b: "boosts ?s3 s4" unfolding s4 [symmetric] by (rule boosts_UpdatePriority)
  have q2: "queue_inv ?s2" using inv
    by (auto simp: kernel_inv_def queues_ok_def levels_ok_def upd_thread_def upd_mutex_def)
  have q3: "queue_inv ?s3" using q2 by (simp only: queue_inv_upd_mutex)
  have "queue_inv s4" unfolding s4 [symmetric] using t by (intro queue_inv_UpdatePriority q3) (simp add: upd_thread_def upd_mutex_def)
  then have q5: "queue_inv ?s5"
    by (simp add: PrepareReschedule_def queues_ok_cong [of "s4\<lparr>reschedule_pending := True\<rparr>" s4])
  have "wait_inv ?s3" using inv by (auto simp: kernel_inv_def wait_inv_def thread_waits_def upd_thread_def upd_mutex_def)
  then have w5: "wait_inv ?s5" using wait_inv_boosts [OF b]
    by (simp add: wait_inv_def thread_waits_def PrepareReschedule_def upd_mutex_def)
  have "mutex_inv ?s5"
    using inv none nheld held t True insort_insert_held [OF held]
    unfolding kernel_inv_def mutex_inv_def upd_mutex_def PrepareReschedule_def
    by (auto simp: boosts_fields [OF b] upd_thread_def upd_mutex_def)
  with q5 w5 True free show ?thesis
    by (simp add: Mutex_Acquire_def kernel_inv_def Let_def s4 del: ShouldWait.simps)
qed

text \<open>What acquiring, calling back and the priority changes have in common: nobody goes to sleep or wakes up.\<close>

definition same_sleepers :: "Kernel \<Rightarrow> Kernel \<Rightarrow> bool" where
  "same_sleepers s s' \<longleftrightarrow> waiting_threads s' = waiting_threads s \<and> next_thread_id s' = next_thread_id s
     \<and> hle_notifiers s' = hle_notifiers s
     \<and> (\<forall>u. status_of s' u = status_of s u \<and> th_wait_objects (threads s' u) = th_wait_objects (threads s u)
          \<and> th_wakeup_callback (threads s' u) = th_wakeup_callback (threads s u)
          \<and> core_of s' u = core_of s u)"

lemma same_sleepers_refl [simp]: "same_sleepers s s"
  by (simp add: same_sleepers_def)

lemma same_sleepers_trans [trans]: "same_sleepers s s1 \<Longrightarrow> same_sleepers s1 s2 \<Longrightarrow> same_sleepers s s2"
  by (simp add: same_sleepers_def)

lemma same_sleepers_boosts: "boosts s s' \<Longrightarrow> same_sleepers s s'"
  by (simp add: same_sleepers_def boosts_fields)

lemma Mutex_Acquire_sleepers:
  assumes "Mutex_Acquire m t s = Some s'"
  shows "same_sleepers s s'"
    and "obj \<noteq> MutexObject m \<Longrightarrow> ShouldWait s' obj u = ShouldWait s obj u"
proof -
  let ?s3 = "upd_mutex m (\<lambda>x. x\<lparr>mx_holding_thread := Some t\<rparr>)
    (upd_thread t (\<lambda>th. th\<lparr>th_held_mutexes := insort_insert m (th_held_mutexes th)\<rparr>)
    (upd_mutex m (\<lambda>x. x\<lparr>mx_priority := priority_of s t\<rparr>) s))"
  obtain s4 where s4: "UpdatePriority t ?s3 = s4" by blast
  have b: "boosts ?s3 s4" unfolding s4 [symmetric] by (rule boosts_UpdatePriority)
  have s': "s' = upd_mutex m (\<lambda>x. x\<lparr>mx_lock_count := mx_lock_count x + 1\<rparr>)
      (if mx_lock_count (kmutexes s m) = 0 then PrepareReschedule s4 else s)"
    using assms s4 by (simp add: Mutex_Acquire_def Let_def split: if_splits del: ShouldWait.simps)
  show "same_sleepers s s'"
    by (auto simp: s' same_sleepers_def boosts_fields [OF b] PrepareReschedule_def upd_mutex_def upd_thread_def)
  show "ShouldWait s' obj u = ShouldWait s obj u" if "obj \<noteq> MutexObject m"
    using that by (cases obj) (auto simp: s' boosts_fields [OF b] PrepareReschedule_def upd_mutex_def upd_thread_def)
qed

lemma Acquire_ok:
  assumes inv: "kernel_inv s" and t: "t < next_thread_id s" and free: "\<not> ShouldWait s obj t"
  shows "\<exists>s'. Acquire obj t s = Some s' \<and> kernel_inv s' \<and> same_sleepers s s'
    \<and> (\<forall>b u. b \<noteq> obj \<longrightarrow> ShouldWait s' b u = ShouldWait s b u)"
proof (cases obj)
  case (MutexObject m)
  with Mutex_Acquire_inv [OF inv t] free obtain s' where "Mutex_Acquire m t s = Some s'" "kernel_inv s'" by blast
  with Mutex_Acquire_sleepers [OF this(1)] MutexObject show ?thesis by simp
next
  case (SemaphoreObject m)
  then have "kernel_inv (Semaphore_Acquire m s)" "same_sleepers s (Semaphore_Acquire m s)"
    using inv kernel_inv_cong [of "Semaphore_Acquire m s" s] by (simp_all add: Semaphore_Acquire_def same_sleepers_def)
  moreover have "ShouldWait (Semaphore_Acquire m s) b u = ShouldWait s b u" if "b \<noteq> obj" for b u
    using that SemaphoreObject by (cases b) (auto simp: Semaphore_Acquire_def)
  ultimately show ?thesis using SemaphoreObject by simp
next
  case (EventObject e)
  then have free': "\<not> ShouldWait s (EventObject e) t" using free by simp
  let ?s = "if kv_reset_type (kevents s e) = OneShot then set_event_signaled e False s else s"
  have "kernel_inv ?s" "same_sleepers s ?s"
    using inv kernel_inv_cong [of "set_event_signaled e False s" s]
    by (simp_all add: set_event_signaled_def same_sleepers_def)
  moreover have "ShouldWait ?s b u = ShouldWait s b u" if "b \<noteq> obj" for b u
    using that EventObject by (cases b) (auto simp: set_event_signaled_def)
  ultimately show ?thesis using EventObject free' by (simp add: Event_Acquire_def)
next
  case (TimerObject e)
  then have free': "\<not> ShouldWait s (TimerObject e) t" using free by simp
  let ?s = "if tm_reset_type (ktimers s e) = OneShot then set_timer_signaled e False s else s"
  have "kernel_inv ?s" "same_sleepers s ?s"
    using inv kernel_inv_cong [of "set_timer_signaled e False s" s]
    by (simp_all add: set_timer_signaled_def same_sleepers_def)
  moreover have "ShouldWait ?s b u = ShouldWait s b u" if "b \<noteq> obj" for b u
    using that TimerObject by (cases b) (auto simp: set_timer_signaled_def)
  ultimately show ?thesis using TimerObject free' by (simp add: Timer_Acquire_def)
qed (use inv free in \<open>auto simp: Thread_Acquire_def\<close>)

lemma Acquire_all_ok:
  "kernel_inv s \<Longrightarrow> t < next_thread_id s \<Longrightarrow> distinct objs \<Longrightarrow> \<forall>b \<in> set objs. \<not> ShouldWait s b t \<Longrightarrow>
    \<exists>s'. for_each (\<lambda>b. Acquire b t) objs s = Some s' \<and> kernel_inv s' \<and> same_sleepers s s'"
proof (induction objs arbitrary: s)
  case (Cons b objs)
  from Acquire_ok [OF Cons.prems(1,2), of b] Cons.prems(4) obtain s1 where
    s1: "Acquire b t s = Some s1" "kernel_inv s1" "same_sleepers s s1"
    "\<forall>c u. c \<noteq> b \<longrightarrow> ShouldWait s1 c u = ShouldWait s c u" by auto
  have "t < next_thread_id s1" using s1(3) Cons.prems(2) by (simp add: same_sleepers_def)
  moreover have "\<forall>c \<in> set objs. \<not> ShouldWait s1 c t" using s1(4) Cons.prems(3,4) by auto
  ultimately obtain s2 where "for_each (\<lambda>b. Acquire b t) objs s1 = Some s2" "kernel_inv s2" "same_sleepers s1 s2"
    using Cons.IH [OF s1(2)] Cons.prems(3) by auto
  with s1 show ?case by (auto intro: same_sleepers_trans)
qed simp

section \<open>Leaving the wait lists\<close>

lemma RemoveWaitingThread_boosts:
  "boosts (set_waiting obj (remove1 t (waiting_threads s obj)) s) (RemoveWaitingThread obj t s)"
proof (cases obj)
  case (MutexObject m)
  let ?s1 = "set_waiting obj (remove1 t (waiting_threads s obj)) s"
  let ?s2 = "upd_thread t (\<lambda>th. th\<lparr>th_pending_mutexes := remove1 m (th_pending_mutexes th)\<rparr>) ?s1"
  have "boosts ?s1 ?s2" unfolding upd_thread_def by (rule boosts_thread) simp
  with boosts_Mutex_UpdatePriority [of ?s2 m] MutexObject show ?thesis
    by (auto simp: RemoveWaitingThread_def WaitObject_RemoveWaitingThread_def Let_def intro: boosts_trans)
qed (simp_all add: RemoveWaitingThread_def WaitObject_RemoveWaitingThread_def Let_def)

lemma mutex_inv_cong:
  assumes "\<And>u. th_held_mutexes (threads s' u) = th_held_mutexes (threads s u)" "kmutexes s' = kmutexes s"
    "next_thread_id s' = next_thread_id s"
  shows "mutex_inv s' = mutex_inv s"
  using assms by (simp add: mutex_inv_def)

lemma RemoveWaitingThread_inv:
  assumes "queue_inv s" "mutex_inv s"
  shows "queue_inv (RemoveWaitingThread obj t s)" "mutex_inv (RemoveWaitingThread obj t s)"
proof -
  let ?s1 = "set_waiting obj (remove1 t (waiting_threads s obj)) s"
  have m1: "mutex_inv ?s1" using assms(2) by (simp add: mutex_inv_def set_waiting_def)
  then show "mutex_inv (RemoveWaitingThread obj t s)" using mutex_inv_boosts [OF RemoveWaitingThread_boosts] by blast
  have q1: "queue_inv ?s1" using assms(1) queues_ok_cong [of ?s1 s] by (simp add: set_waiting_def)
  show "queue_inv (RemoveWaitingThread obj t s)"
  proof (cases obj)
    case (MutexObject m)
    let ?s2 = "upd_thread t (\<lambda>th. th\<lparr>th_pending_mutexes := remove1 m (th_pending_mutexes th)\<rparr>) ?s1"
    have "queue_inv ?s2" using q1 by (auto simp: queues_ok_def levels_ok_def upd_thread_def)
    moreover have "mutex_inv ?s2" using m1 mutex_inv_cong [of ?s2 ?s1] by (simp add: upd_thread_def)
    ultimately have "queue_inv (Mutex_UpdatePriority m ?s2)" by (rule queue_inv_Mutex_UpdatePriority)
    with MutexObject show ?thesis by (simp add: RemoveWaitingThread_def WaitObject_RemoveWaitingThread_def Let_def)
  qed (use q1 in \<open>simp_all add: RemoveWaitingThread_def WaitObject_RemoveWaitingThread_def Let_def\<close>)
qed

lemma boosts_waiting:
  assumes "boosts s s'"
  shows "boosts (s\<lparr>waiting_threads := W\<rparr>) (s'\<lparr>waiting_threads := W\<rparr>)"
proof -
  have "erase (x\<lparr>waiting_threads := W\<rparr>) = (erase x)\<lparr>waiting_threads := W\<rparr>" for x
    by (simp add: erase_def)
  with assms show ?thesis by (simp add: boosts_def)
qed

lemma remove_all:
  fixes t :: nat and objs :: "WaitObject list"
  assumes "queue_inv s" "mutex_inv s" "\<forall>obj. distinct (waiting_threads s obj)"
  defines "s' \<equiv> fold (\<lambda>obj. RemoveWaitingThread obj t) objs s"
  shows "queue_inv s' \<and> mutex_inv s' \<and> boosts (s\<lparr>waiting_threads := \<lambda>obj.
    if obj \<in> set objs then filter (\<lambda>x. x \<noteq> t) (waiting_threads s obj) else waiting_threads s obj\<rparr>) s'"
  unfolding s'_def using assms(1-3)
proof (induction objs arbitrary: s)
  case (Cons b objs)
  let ?s1 = "RemoveWaitingThread b t s"
  have b: "boosts (set_waiting b (remove1 t (waiting_threads s b)) s) ?s1" by (rule RemoveWaitingThread_boosts)
  have w: "waiting_threads ?s1 = (waiting_threads s)(b := filter (\<lambda>x. x \<noteq> t) (waiting_threads s b))"
    using boosts_fields [OF b] Cons.prems(3) by (simp add: set_waiting_def distinct_remove1_removeAll removeAll_filter_not_eq)
      (auto simp: fun_eq_iff intro: filter_cong)
  have "\<forall>obj. distinct (waiting_threads ?s1 obj)" using Cons.prems(3) by (simp add: w)
  note IH = Cons.IH [OF RemoveWaitingThread_inv [OF Cons.prems(1,2)] this]
  have "boosts (s\<lparr>waiting_threads := W\<rparr>) (?s1\<lparr>waiting_threads := W\<rparr>)" for W
    using boosts_waiting [OF b, of W] by (simp add: set_waiting_def)
  moreover have "(\<lambda>obj. if obj \<in> set objs then filter (\<lambda>x. x \<noteq> t) (waiting_threads ?s1 obj) else waiting_threads ?s1 obj)
      = (\<lambda>obj. if obj \<in> set (b # objs) then filter (\<lambda>x. x \<noteq> t) (waiting_threads s obj) else waiting_threads s obj)"
    by (auto simp: w fun_eq_iff)
  ultimately show ?case using IH by (auto intro: boosts_trans)
qed (simp add: boosts_def)

lemma leave_wait_lists_inv:
  fixes t :: nat
  assumes inv: "kernel_inv s"
  defines "s' \<equiv> leave_wait_lists t s"
  shows "kernel_inv s'" "th_wait_objects (threads s' t) = []" "status_of s' u = status_of s u"
    and "waiting_threads s' obj = filter (\<lambda>x. x \<noteq> t) (waiting_threads s obj)"
    and "th_wakeup_callback (threads s' u) = th_wakeup_callback (threads s u)"
    and "next_thread_id s' = next_thread_id s" "core_of s' u = core_of s u" "hle_notifiers s' = hle_notifiers s"
    and "u \<noteq> t \<Longrightarrow> th_wait_objects (threads s' u) = th_wait_objects (threads s u)"
    and "ShouldWait s' b v = ShouldWait s b v"
proof -
  let ?objs = "th_wait_objects (threads s t)"
  obtain s1 where s1: "fold (\<lambda>obj. RemoveWaitingThread obj t) ?objs s = s1" by blast
  let ?W = "\<lambda>obj. if obj \<in> set ?objs then filter (\<lambda>x. x \<noteq> t) (waiting_threads s obj) else waiting_threads s obj"
  have r: "queue_inv s1" "mutex_inv s1" "boosts (s\<lparr>waiting_threads := ?W\<rparr>) s1"
    using remove_all [of s t ?objs] inv by (auto simp: s1 kernel_inv_def wait_inv_def)
  note B = boosts_fields [OF r(3), simplified]
  have W: "?W obj = filter (\<lambda>x. x \<noteq> t) (waiting_threads s obj)" for obj
    using inv by (auto simp: kernel_inv_def wait_inv_def intro!: filter_True [symmetric])
  have s': "s' = upd_thread t (\<lambda>th. th\<lparr>th_wait_objects := []\<rparr>) s1" by (simp add: s'_def leave_wait_lists_def s1)
  show w: "waiting_threads s' obj = filter (\<lambda>x. x \<noteq> t) (waiting_threads s obj)" for obj
    using fun_cong [OF B(15), of obj] W [of obj] by (simp add: s' upd_thread_def)
  show fields: "th_wait_objects (threads s' t) = []" "\<And>u. status_of s' u = status_of s u"
    "\<And>u. th_wakeup_callback (threads s' u) = th_wakeup_callback (threads s u)"
    "next_thread_id s' = next_thread_id s" "\<And>u. core_of s' u = core_of s u" "hle_notifiers s' = hle_notifiers s"
    "\<And>u. u \<noteq> t \<Longrightarrow> th_wait_objects (threads s' u) = th_wait_objects (threads s u)"
    by (simp_all add: s' upd_thread_def B)
  show "ShouldWait s' b v = ShouldWait s b v"
    using boosts_ShouldWait [OF r(3), of b v] by (cases b) (auto simp: s' upd_thread_def)
  have "queue_inv s'" using r(1) by (auto simp: s' queues_ok_def levels_ok_def upd_thread_def)
  moreover have "mutex_inv s'" using r(2) mutex_inv_cong [of s' s1] by (simp add: s' upd_thread_def)
  moreover have "wait_inv s'"
    unfolding wait_inv_def
  proof (intro conjI allI)
    fix obj u
    show "distinct (waiting_threads s' obj)" using inv by (simp add: w kernel_inv_def wait_inv_def)
    have mem: "u \<in> set (waiting_threads s obj) \<longleftrightarrow> obj \<in> set (th_wait_objects (threads s u))"
      using inv by (simp add: kernel_inv_def wait_inv_def)
    then show "u \<in> set (waiting_threads s' obj) \<longleftrightarrow> obj \<in> set (th_wait_objects (threads s' u))"
      by (cases "u = t") (simp_all add: w fields)
    have "thread_waits s u" using inv by (simp add: kernel_inv_def wait_inv_def)
    then show "thread_waits s' u"
      by (cases "u = t") (auto simp: thread_waits_def fields)
  qed
  ultimately show "kernel_inv s'" by (simp add: kernel_inv_def)
qed

section \<open>Resuming\<close>

lemma ResumeFromWait_inv:
  fixes t :: nat
  assumes inv: "kernel_inv s" and t: "t < next_thread_id s" and w: "th_wait_objects (threads s t) = []"
  shows "\<exists>s'. ResumeFromWait t s = Some s' \<and> kernel_inv s' \<and> waiting_threads s' = waiting_threads s
    \<and> next_thread_id s' = next_thread_id s \<and> hle_notifiers s' = hle_notifiers s
    \<and> (\<forall>u. th_wait_objects (threads s' u) = th_wait_objects (threads s u))
    \<and> (\<forall>u. u \<noteq> t \<longrightarrow> threads s' u = threads s u)
    \<and> status_of s' t = (if status_of s t \<in> {Running, Dead} then status_of s t else Ready)"
proof (cases "status_of s t \<in> {Ready, Running, Dead}")
  case True
  have "status_of s t = Ready \<Longrightarrow> th_wakeup_callback (threads s t) = None"
    using inv by (simp add: kernel_inv_def wait_inv_def thread_waits_def)
  with True have "ResumeFromWait t s = Some s" using w by (auto simp: ResumeFromWait_def)
  with True inv show ?thesis by auto
next
  case False
  let ?th = "(threads s t)\<lparr>th_wakeup_callback := None, th_status := Ready\<rparr>"
  let ?q = "push_back (priority_of s t) t (queue_of s (core_of s t))"
  obtain s' where s': "s' = PrepareReschedule (upd_thread t (\<lambda>th. th\<lparr>th_status := Ready\<rparr>)
          (upd_queue (core_of s t) (push_back (priority_of s t) t)
          (upd_thread t (\<lambda>th. th\<lparr>th_wakeup_callback := None\<rparr>) s)))" by blast
  have r: "ResumeFromWait t s = Some s'" using False w
    by (cases "status_of s t") (auto simp: ResumeFromWait_def s' upd_thread_def)
  have th: "threads s' = (threads s)(t := ?th)" and q: "queue_of s' c = (if c = core_of s t then ?q else queue_of s c)"
    and rest: "next_thread_id s' = next_thread_id s" "waiting_threads s' = waiting_threads s"
      "kmutexes s' = kmutexes s" "hle_notifiers s' = hle_notifiers s" for c
    by (simp_all add: s' PrepareReschedule_def upd_thread_def upd_queue_def)
  have qi: "queue_inv s" using inv by (simp add: kernel_inv_def)
  note D = queue_invD [OF qi]
  have lev: "levels_ok s t" by (rule D(4) [OF t])
  have ok: "tql_ok ?q" "prepared ?q = prepared (queue_of s (core_of s t))"
    using tq.add_ok [OF D(1), of "core_of s t" "priority_of s t" t] lev by (auto simp: levels_ok_def)
  have nt: "t \<notin> set (q_data (queue_of s c) i)" for c i using False D(3) [of t c i] by auto
  have "queue_inv s'"
  proof (rule queues_ok_update [OF qi t th rest(1) _ q])
    show "distinct (q_data ?q p)" for p using D(2) nt by (simp add: tq.add_level)
    show "u \<in> set (q_data ?q p) \<longleftrightarrow> u \<in> set (q_data (queue_of s (core_of s t)) p)" if "u \<noteq> t" for p u
      using that by (auto simp: tq.add_level)
    show "t \<in> set (q_data ?q p) \<longleftrightarrow> th_status ?th = Ready \<and> th_current_priority ?th = p \<and> t \<notin> {}" for p
      using nt by (auto simp: tq.add_level)
  qed (use ok lev in \<open>auto simp: levels_ok_def\<close>)
  moreover have "wait_inv s'"
    using inv w by (auto simp: kernel_inv_def wait_inv_def thread_waits_def th rest)
  moreover have "mutex_inv s'"
    using inv mutex_inv_cong [of s' s] by (simp add: kernel_inv_def th rest)
  ultimately have "kernel_inv s'" by (simp add: kernel_inv_def)
  with r False show ?thesis by (auto simp: th rest)
qed

text \<open>The callbacks write registers of the thread they are called for, or record a call, and cannot fail.\<close>

lemma call_back_inv:
  assumes inv: "kernel_inv s" and w: "th_wait_objects (threads s t) \<noteq> []"
  shows "\<exists>s'. call_back WakeupSignal t (Some obj) s = Some s' \<and> kernel_inv s' \<and> same_sleepers s s'
    \<and> (\<forall>b u. ShouldWait s' b u = ShouldWait s b u)"
proof -
  have reg: "kernel_inv (set_register r v t s) \<and> same_sleepers s (set_register r v t s)
      \<and> (\<forall>b u. ShouldWait (set_register r v t s) b u = ShouldWait s b u)" if "kernel_inv s" for r v s
  proof (intro conjI allI)
    show "kernel_inv (set_register r v t s)"
      unfolding set_register_def using that by (rule kernel_inv_upd_thread) simp_all
    show "same_sleepers s (set_register r v t s)"
      by (simp add: set_register_def same_sleepers_def upd_thread_def)
    show "ShouldWait (set_register r v t s) b u = ShouldWait s b u" for b u
      by (cases b) (simp_all add: set_register_def upd_thread_def)
  qed
  show ?thesis
  proof (cases "th_wakeup_callback (threads s t)")
    case None
    with inv show ?thesis by (simp add: call_back_def)
  next
    case (Some cb)
    show ?thesis
    proof (cases cb)
      case (SyncCallback do_output)
      let ?s = "set_register 0 0 t s"
      have w': "th_wait_objects (threads ?s t) \<noteq> []" using w by (simp add: set_register_def upd_thread_def)
      from reg [OF inv, of 0 0] reg [of ?s 1] show ?thesis
        using w' Some SyncCallback
        by (cases do_output) (auto simp: call_back_def WakeUp_def SetWaitSynchronizationResult_def Let_def
            SetWaitSynchronizationOutput_def GetWaitObjectIndex_def intro: same_sleepers_trans)
    next
      case (ArbiterCallback a)
      with inv w Some show ?thesis by (simp add: kernel_inv_def wait_inv_def thread_waits_def)
    next
      case (HleCallback n)
      let ?s = "s\<lparr>hle_calls := hle_calls s @ [HleWakeUp n WakeupSignal t (Some obj)]\<rparr>"
      have "kernel_inv ?s" using inv kernel_inv_cong [of ?s s] by simp
      moreover have "ShouldWait ?s b u = ShouldWait s b u" for b u by (cases b) simp_all
      ultimately show ?thesis using Some HleCallback
        by (simp add: call_back_def WakeUp_def same_sleepers_def)
    qed
  qed
qed

section \<open>Choosing the thread to wake\<close>

definition eligible :: "Kernel \<Rightarrow> WaitObject \<Rightarrow> nat \<Rightarrow> bool" where
  "eligible s obj t \<longleftrightarrow> \<not> ShouldWait s obj t \<and> ready_to_run s t"

lemma best_waiting_spec:
  "\<forall>t \<in> set ts. status_of s t \<in> wait_states \<Longrightarrow>
    \<exists>c. best_waiting s obj cand cp ts = Some c \<and>
      (c = cand \<and> (\<forall>u \<in> set ts. eligible s obj u \<longrightarrow> cp \<le> priority_of s u)
       \<or> (\<exists>before t after. c = Some t \<and> ts = before @ t # after \<and> eligible s obj t \<and> priority_of s t < cp
            \<and> (\<forall>u \<in> set before. eligible s obj u \<longrightarrow> priority_of s t < priority_of s u)
            \<and> (\<forall>u \<in> set after. eligible s obj u \<longrightarrow> priority_of s t \<le> priority_of s u)))"
proof (induction ts arbitrary: cand cp)
  case (Cons x ts)
  let ?skip = "cp \<le> priority_of s x \<or> \<not> eligible s obj x"
  have step: "best_waiting s obj cand cp (x # ts) =
      (if ?skip then best_waiting s obj cand cp ts else best_waiting s obj (Some x) (priority_of s x) ts)"
    using Cons.prems by (auto simp: eligible_def)
  show ?case
  proof (cases ?skip)
    case True
    from Cons.IH [of cand cp] Cons.prems obtain c where c: "best_waiting s obj cand cp ts = Some c"
      "c = cand \<and> (\<forall>u \<in> set ts. eligible s obj u \<longrightarrow> cp \<le> priority_of s u)
       \<or> (\<exists>before t after. c = Some t \<and> ts = before @ t # after \<and> eligible s obj t \<and> priority_of s t < cp
            \<and> (\<forall>u \<in> set before. eligible s obj u \<longrightarrow> priority_of s t < priority_of s u)
            \<and> (\<forall>u \<in> set after. eligible s obj u \<longrightarrow> priority_of s t \<le> priority_of s u))" by auto
    from c(2) show ?thesis
    proof (elim disjE exE conjE)
      assume "c = cand" "\<forall>u \<in> set ts. eligible s obj u \<longrightarrow> cp \<le> priority_of s u"
      with c(1) True step show ?thesis by (intro exI [of _ c]) auto
    next
      fix before t after
      assume a: "c = Some t" "ts = before @ t # after" "eligible s obj t" "priority_of s t < cp"
        "\<forall>u \<in> set before. eligible s obj u \<longrightarrow> priority_of s t < priority_of s u"
        "\<forall>u \<in> set after. eligible s obj u \<longrightarrow> priority_of s t \<le> priority_of s u"
      then have "x # ts = (x # before) @ t # after"
        "\<forall>u \<in> set (x # before). eligible s obj u \<longrightarrow> priority_of s t < priority_of s u"
        using True by auto
      with a c(1) True step show ?thesis by (intro exI [of _ c]) (simp only: if_True, blast)
    qed
  next
    case False
    from Cons.IH [of "Some x" "priority_of s x"] Cons.prems obtain c where
      c: "best_waiting s obj (Some x) (priority_of s x) ts = Some c"
      "c = Some x \<and> (\<forall>u \<in> set ts. eligible s obj u \<longrightarrow> priority_of s x \<le> priority_of s u)
       \<or> (\<exists>before t after. c = Some t \<and> ts = before @ t # after \<and> eligible s obj t \<and> priority_of s t < priority_of s x
            \<and> (\<forall>u \<in> set before. eligible s obj u \<longrightarrow> priority_of s t < priority_of s u)
            \<and> (\<forall>u \<in> set after. eligible s obj u \<longrightarrow> priority_of s t \<le> priority_of s u))" by auto
    have x: "eligible s obj x" "priority_of s x < cp" using False by auto
    from c(2) show ?thesis
    proof (elim disjE exE conjE)
      assume "c = Some x" "\<forall>u \<in> set ts. eligible s obj u \<longrightarrow> priority_of s x \<le> priority_of s u"
      with c(1) False x step show ?thesis
        by (intro exI [of _ c] conjI disjI2 exI [of _ "[]"] exI [of _ x] exI [of _ ts]) auto
    next
      fix before t after
      assume a: "c = Some t" "ts = before @ t # after" "eligible s obj t" "priority_of s t < priority_of s x"
        "\<forall>u \<in> set before. eligible s obj u \<longrightarrow> priority_of s t < priority_of s u"
        "\<forall>u \<in> set after. eligible s obj u \<longrightarrow> priority_of s t \<le> priority_of s u"
      then have "x # ts = (x # before) @ t # after" "priority_of s t < cp"
        "\<forall>u \<in> set (x # before). eligible s obj u \<longrightarrow> priority_of s t < priority_of s u"
        using x by auto
      with a c(1) False step show ?thesis by (intro exI [of _ c]) (simp only: if_False, blast)
    qed
  qed
qed simp

lemma waiting_thread:
  assumes "kernel_inv s" "t \<in> set (waiting_threads s obj)"
  shows "status_of s t \<in> wait_states" "t < next_thread_id s" "th_wait_objects (threads s t) \<noteq> []"
    and "obj \<in> set (th_wait_objects (threads s t))" "priority_of s t < NUM_QUEUES"
    and "status_of s t = WaitSynchAll \<Longrightarrow> distinct (th_wait_objects (threads s t))"
proof -
  have w: "obj \<in> set (th_wait_objects (threads s t))" "thread_waits s t"
    using assms by (simp_all add: kernel_inv_def wait_inv_def)
  then show ne: "th_wait_objects (threads s t) \<noteq> []" "obj \<in> set (th_wait_objects (threads s t))" by auto
  show st: "status_of s t \<in> wait_states" and t: "t < next_thread_id s"
    and "status_of s t = WaitSynchAll \<Longrightarrow> distinct (th_wait_objects (threads s t))"
    using w(2) ne(1) unfolding thread_waits_def by blast+
  show "priority_of s t < NUM_QUEUES"
    using assms(1) queue_invD(4) [of s t] t by (simp add: kernel_inv_def levels_ok_def)
qed

end
