(* ===== verification/KernelSample.thy ===== *)
theory KernelSample imports WaitFacts SchedulerFacts begin

text \<open>
  A kernel in which the properties of threads and objects are applied: thread 0 runs on core 0 and
  holds mutex 0; thread 1 waits for semaphore 0 or mutex 0; thread 2 waits for semaphore 0 and event
  0 together; thread 3 is ready.
\<close>

definition sample_thread :: "ThreadStatus \<Rightarrow> nat \<Rightarrow> WaitObject list \<Rightarrow> nat list \<Rightarrow> nat list \<Rightarrow> WakeupCallback option \<Rightarrow> KThread" where
  "sample_thread st p objs held pending cb =
     (new_thread 0 0x100000 0x10000000 p 0 0)\<lparr>th_status := st, th_wait_objects := objs, th_held_mutexes := held,
       th_pending_mutexes := pending, th_wakeup_callback := cb\<rparr>"

definition sample_threads :: "nat \<Rightarrow> KThread" where
  "sample_threads t =
     (if t = 0 then sample_thread Running 30 [] [0] [] None
      else if t = 1 then sample_thread WaitSynchAny 20 [SemaphoreObject 0, MutexObject 0] [] [0] (Some (SyncCallback True))
      else if t = 2 then sample_thread WaitSynchAll 10 [SemaphoreObject 0, EventObject 0] [] [] (Some (SyncCallback False))
      else if t = 3 then sample_thread Ready 25 [] [] [] None
      else sample_thread Dormant 48 [] [] [] None)"

definition sample_waiting :: "WaitObject \<Rightarrow> nat list" where
  "sample_waiting obj =
     (if obj = SemaphoreObject 0 then [1, 2] else if obj = MutexObject 0 then [1]
      else if obj = EventObject 0 then [2] else [])"

definition sample_queue :: "nat tql" where
  "sample_queue = push_back 25 3 (q_prepare 25 (q_prepare 10 (q_prepare 20 (q_prepare 30 tql_init))))"

definition sample_context :: Context where
  "sample_context = \<lparr>cpu_registers = (\<lambda>_. 0), cpsr = 0, fpscr = 0\<rparr>"

definition sample_kernel :: Kernel where
  "sample_kernel = \<lparr>timers = replicate 4 (Timer_init 0), current_timer = 0, event_queue_locked = False,
     threads = sample_threads, waiting_threads = sample_waiting,
     kmutexes = (\<lambda>m. if m = 0 then \<lparr>mx_lock_count = 1, mx_priority = 20, mx_holding_thread = Some 0\<rparr>
       else \<lparr>mx_lock_count = 0, mx_priority = 0, mx_holding_thread = None\<rparr>),
     ksemaphores = (\<lambda>_. \<lparr>sm_max_count = 5, sm_available_count = 0\<rparr>),
     kevents = (\<lambda>_. \<lparr>kv_reset_type = OneShot, kv_signaled = False\<rparr>),
     ktimers = (\<lambda>_. \<lparr>tm_reset_type = OneShot, tm_initial_delay = 0, tm_interval_delay = 0, tm_signaled = False,
       tm_callback_id = 0\<rparr>),
     arbiters = (\<lambda>_. []), processes = (\<lambda>p. if p = 0 then Some \<lparr>pr_tls_slots = [], pr_resource_limit = 0\<rparr> else None),
     resource_limits = (\<lambda>_. ResourceLimit_Create),
     managers = (\<lambda>c. \<lparr>current_thread = if c = 0 then Some 0 else None,
       ready_queue = if c = 0 then sample_queue else tql_init, wakeup_callback_table = {0, 1, 2, 3},
       thread_list = if c = 0 then [0, 1, 2, 3] else []\<rparr>),
     cpu_contexts = (\<lambda>_. sample_context), cpu_thread_uro = (\<lambda>_. 0), cpu_page_table = (\<lambda>_. None),
     memory_page_table = None, current_cpu = 0, current_process = Some 0, stored_processes = (\<lambda>_. None),
     next_thread_id = 4, next_timer_callback_id = 0, timer_callback_table = (\<lambda>_. None), hle_notifiers = {},
     hle_calls = [], reschedule_pending = False, priority_boost = False, scaled_ticks = (\<lambda>n. n)\<rparr>"

lemma sample_queue_ok:
  shows "tql_ok sample_queue" "prepared sample_queue p \<longleftrightarrow> p \<in> {10, 20, 25, 30}"
    "q_data sample_queue p = (if p = 25 then [3] else [])"
proof -
  let ?q1 = "q_prepare 30 tql_init :: nat tql" and ?q2 = "q_prepare 20 (q_prepare 30 tql_init) :: nat tql"
    and ?q3 = "q_prepare 10 (q_prepare 20 (q_prepare 30 tql_init)) :: nat tql"
    and ?q4 = "q_prepare 25 (q_prepare 10 (q_prepare 20 (q_prepare 30 tql_init))) :: nat tql"
  have init: "prepared (tql_init :: nat tql) i = False" for i by (simp add: prepared_def tql_init_def)
  have 1: "tql_ok ?q1" "\<And>i. prepared ?q1 i \<longleftrightarrow> i = 30" using tq.prep_ok [of "tql_init :: nat tql" 30] by (simp_all add: init)
  have 2: "tql_ok ?q2" "\<And>i. prepared ?q2 i \<longleftrightarrow> i = 20 \<or> i = 30" using tq.prep_ok [OF 1(1), of 20] by (simp_all add: 1)
  have 3: "tql_ok ?q3" "\<And>i. prepared ?q3 i \<longleftrightarrow> i = 10 \<or> i = 20 \<or> i = 30" using tq.prep_ok [OF 2(1), of 10] by (simp_all add: 2)
  have 4: "tql_ok ?q4" "\<And>i. prepared ?q4 i \<longleftrightarrow> i = 25 \<or> i = 10 \<or> i = 20 \<or> i = 30"
    using tq.prep_ok [OF 3(1), of 25] by (simp_all add: 3)
  have "prepared ?q4 25" using 4(2) by simp
  from tq.add_ok [OF 4(1) this, of 3] 4(2)
  show "tql_ok sample_queue" "prepared sample_queue p \<longleftrightarrow> p \<in> {10, 20, 25, 30}"
    by (auto simp: sample_queue_def)
  show "q_data sample_queue p = (if p = 25 then [3] else [])"
    by (simp add: sample_queue_def push_back_def tql_init_def)
qed

lemmas sample_defs = sample_kernel_def sample_threads_def sample_thread_def new_thread_def sample_waiting_def

lemma sample_threads_cases: "P 0 \<Longrightarrow> P 1 \<Longrightarrow> P 2 \<Longrightarrow> P 3 \<Longrightarrow> (\<And>t :: nat. 4 \<le> t \<Longrightarrow> P t) \<Longrightarrow> P t"
proof (cases "4 \<le> t")
  case False
  assume "P 0" "P 1" "P 2" "P 3"
  moreover have "t = 0 \<or> t = 1 \<or> t = 2 \<or> t = 3" using False by arith
  ultimately show "P t" by blast
qed blast

lemma sample_queue_inv: "queue_inv sample_kernel"
  unfolding queues_ok_def
proof (intro conjI allI impI)
  fix c p t :: nat
  show "tql_ok (queue_of sample_kernel c)" by (simp add: sample_kernel_def sample_queue_ok)
  show "distinct (q_data (queue_of sample_kernel c) p)"
    by (simp add: sample_kernel_def sample_queue_ok) (simp add: tql_init_def)
  show "t \<in> set (q_data (queue_of sample_kernel c) p) \<longleftrightarrow>
      status_of sample_kernel t = Ready \<and> core_of sample_kernel t = c \<and> priority_of sample_kernel t = p
      \<and> t < next_thread_id sample_kernel \<and> t \<notin> {}"
    by (auto simp: sample_defs sample_queue_ok tql_init_def)
  show "levels_ok sample_kernel t" if "t < next_thread_id sample_kernel"
    using that by (induction t rule: sample_threads_cases) (simp_all add: levels_ok_def sample_defs sample_queue_ok)
qed

lemma sample_wait_inv: "wait_inv sample_kernel"
  unfolding wait_inv_def
proof (intro conjI allI)
  fix obj t
  show "distinct (waiting_threads sample_kernel obj)" by (simp add: sample_defs)
  show "t \<in> set (waiting_threads sample_kernel obj) \<longleftrightarrow> obj \<in> set (th_wait_objects (threads sample_kernel t))"
    by (induction t rule: sample_threads_cases) (simp_all add: sample_defs)
  show "thread_waits sample_kernel t"
    by (induction t rule: sample_threads_cases) (simp_all add: sample_defs thread_waits_def)
qed

lemma sample_mutex_inv: "mutex_inv sample_kernel"
  unfolding mutex_inv_def
proof (intro conjI allI)
  fix m t
  show "m \<in> set (th_held_mutexes (threads sample_kernel t)) \<longleftrightarrow> mx_holding_thread (kmutexes sample_kernel m) = Some t"
    by (induction t rule: sample_threads_cases) (simp_all add: sample_defs)
qed (auto simp: sample_defs)

lemma sample_kernel_inv: "kernel_inv sample_kernel"
  by (simp add: kernel_inv_def sample_queue_inv sample_wait_inv sample_mutex_inv)

end
