(* ===== verification/SchedProps.thy ===== *)
theory SchedProps imports SchedulerFacts KernelSample begin

text \<open>
  The scheduler's properties: the choice of the next thread, and a whole round of rescheduling with
  the boost of starved threads and the context switch.
\<close>

section \<open>The choice\<close>

text \<open>
  the next thread of a core is the running one exactly when no thread that may be scheduled has a
  better priority; otherwise, and when the core is idle, it is a ready thread none is better than;
  and there is none only when no thread may be scheduled. Whatever is set aside on the way is back
  in the queue at the end, which has lost the chosen thread and nothing else.
\<close>

theorem PopNextReadyThread_best:
  assumes "queue_inv s"
    and "\<And>t. current_thread (managers s c) = Some t \<Longrightarrow> status_of s t = Running \<Longrightarrow> t < next_thread_id s \<and> core_of s t = c"
  shows "\<exists>next q. PopNextReadyThread c s = Some (next, upd_queue c (\<lambda>_. q) s)
    \<and> (case next of
        None \<Rightarrow> (\<forall>u. \<not> schedulable s c u) \<and> queue_without s c None q
      | Some t \<Rightarrow>
          if current_thread (managers s c) = Some t \<and> status_of s t = Running
          then (\<forall>u. schedulable s c u \<longrightarrow> priority_of s t \<le> priority_of s u) \<and> queue_without s c None q
          else schedulable s c t \<and> queue_without s c (Some t) q
            \<and> (\<forall>u. schedulable s c u \<longrightarrow> priority_of s t \<le> priority_of s u)
            \<and> (\<forall>r. current_thread (managers s c) = Some r \<and> status_of s r = Running \<longrightarrow> priority_of s t < priority_of s r))"
  using PopNext_picks [OF assms] by (simp only: picks_def)

lemma PopNextReadyThread_best_witness:
  "\<exists>q. PopNextReadyThread 0 sample_kernel = Some (Some 3, upd_queue 0 (\<lambda>_. q) sample_kernel)"
proof -
  have run: "current_thread (managers sample_kernel 0) = Some 0" "status_of sample_kernel 0 = Running"
    by (simp_all add: sample_defs)
  have "schedulable sample_kernel 0 u \<longleftrightarrow> u = 3" for u
    by (induction u rule: sample_threads_cases) (simp_all add: schedulable_def sample_defs)
  moreover have "priority_of sample_kernel 3 = 25" "priority_of sample_kernel 0 = 30" by (simp_all add: sample_defs)
  moreover have "current_thread (managers sample_kernel 0) = Some t \<Longrightarrow> status_of sample_kernel t = Running
      \<Longrightarrow> t < next_thread_id sample_kernel \<and> core_of sample_kernel t = 0" for t
    by (simp add: sample_defs)
  note PopNextReadyThread_best [OF sample_queue_inv this]
  ultimately show ?thesis using run by (auto split: option.splits if_splits)
qed

section \<open>The switch\<close>

text \<open>
  What the scheduler maintains beside the queues: a core's threads are listed with it, and a thread
  that runs is the current one of its core.
\<close>

definition sched_inv :: "Kernel \<Rightarrow> bool" where
  "sched_inv s \<longleftrightarrow> queue_inv s
     \<and> (\<forall>c. \<forall>t \<in> set (thread_list (managers s c)). core_of s t = c \<and> t < next_thread_id s)
     \<and> (\<forall>c t. current_thread (managers s c) = Some t \<longrightarrow> core_of s t = c \<and> t < next_thread_id s)
     \<and> (\<forall>t. status_of s t = Running \<longrightarrow> current_thread (managers s (core_of s t)) = Some t)
     \<and> (\<forall>t < next_thread_id s. live_owner s t \<noteq> None)"

lemma push_front_ok: "tql_ok q \<Longrightarrow> prepared q p \<Longrightarrow> tql_ok (push_front p x q)"
  by (auto simp: tql_ok_def push_front_def)

lemma push_front_prepared [simp]: "prepared (push_front p x q) = prepared q"
  by (auto simp: push_front_def prepared_def fun_eq_iff)

lemma push_front_data [simp]: "q_data (push_front p x q) = (q_data q)(p := x # q_data q p)"
  by (simp add: push_front_def)

text \<open>The queue after the choice.\<close>

lemma queues_ok_chosen:
  assumes inv: "queue_inv s" and w: "queue_without s c chosen q"
    and ch: "\<And>t. chosen = Some t \<Longrightarrow> schedulable s c t"
  shows "queues_ok (set_option chosen) (upd_queue c (\<lambda>_. q) s)"
proof -
  note D = queue_invD [OF inv]
  have w': "tql_ok q" "prepared q = prepared (queue_of s c)"
    "\<And>p. mset (q_data (queue_of s c) p) = mset (q_data q p)
        + (case chosen of Some t \<Rightarrow> if priority_of s t = p then {#t#} else {#} | None \<Rightarrow> {#})"
    using w by (simp_all add: queue_without_def)
  have mem: "distinct (q_data q p) \<and> set (q_data q p) = set (q_data (queue_of s c) p) - set_option chosen" for p
  proof (cases "\<exists>t. chosen = Some t \<and> priority_of s t = p")
    case True
    then obtain t where t: "chosen = Some t" "priority_of s t = p" by blast
    then have e: "mset (q_data (queue_of s c) p) = mset (t # q_data q p)" using w'(3) [of p] by simp
    then have "distinct (t # q_data q p)" using D(2) [of c p] mset_eq_imp_distinct_iff by blast
    moreover have "set (q_data (queue_of s c) p) = insert t (set (q_data q p))" using mset_eq_setD [OF e] by simp
    ultimately show ?thesis using t(1) by auto
  next
    case False
    then have e: "mset (q_data (queue_of s c) p) = mset (q_data q p)" using w'(3) [of p] by (auto split: option.splits)
    have "set_option chosen \<inter> set (q_data (queue_of s c) p) = {}"
      using False D(3) by (cases chosen) auto
    then show ?thesis using D(2) [of c p] mset_eq_imp_distinct_iff [OF e] mset_eq_setD [OF e] by auto
  qed
  let ?s = "upd_queue c (\<lambda>_. q) s"
  have f: "threads ?s = threads s" "next_thread_id ?s = next_thread_id s"
    "queue_of ?s d = (if d = c then q else queue_of s d)" for d by (simp_all add: upd_queue_def)
  have X: "t \<in> set_option chosen \<Longrightarrow> core_of s t = c" for t using ch by (auto simp: schedulable_def)
  have "levels_ok ?s t" if "t < next_thread_id s" for t
    using D(4) [OF that] by (auto simp: levels_ok_def f w'(2))
  moreover have "t \<in> set (q_data (queue_of ?s d) p) \<longleftrightarrow> status_of ?s t = Ready \<and> core_of ?s t = d
      \<and> priority_of ?s t = p \<and> t < next_thread_id ?s \<and> t \<notin> set_option chosen" for d p t
    using X mem [of p] D(3) [of t d p] by (cases "d = c") (auto simp: f)
  moreover have "tql_ok (queue_of ?s d)" "distinct (q_data (queue_of ?s d) p)" for d p
    using w'(1) mem D(1,2) by (simp_all add: f)
  ultimately show ?thesis unfolding queues_ok_def by (simp only: f(2)) blast
qed

text \<open>A thread leaves the processor: it goes to the front of its level when it was running.\<close>

lemma save_context_inv:
  assumes inv: "queues_ok X s" and r: "r < next_thread_id s" "core_of s r = c" and X: "status_of s r = Running \<Longrightarrow> r \<notin> X"
  defines "s' \<equiv> save_context c r s"
  shows "queues_ok X s'" "next_thread_id s' = next_thread_id s"
    and "status_of s' u = (if u = r \<and> status_of s r = Running then Ready else status_of s u)"
    and "core_of s' u = core_of s u" "priority_of s' u = priority_of s u"
    and "th_can_schedule (threads s' u) = th_can_schedule (threads s u)"
    and "current_thread (managers s' d) = current_thread (managers s d)"
    and "thread_list (managers s' d) = thread_list (managers s d)"
    and "th_owner_process (threads s' u) = th_owner_process (threads s u)" "processes s' = processes s"
proof -
  note D = queues_okD [OF inv]
  let ?q = "queue_of s c"
  show "next_thread_id s' = next_thread_id s"
    "status_of s' u = (if u = r \<and> status_of s r = Running then Ready else status_of s u)"
    "core_of s' u = core_of s u" "priority_of s' u = priority_of s u"
    "th_can_schedule (threads s' u) = th_can_schedule (threads s u)"
    "current_thread (managers s' d) = current_thread (managers s d)"
    "thread_list (managers s' d) = thread_list (managers s d)"
    "th_owner_process (threads s' u) = th_owner_process (threads s u)" "processes s' = processes s"
    by (simp_all add: s'_def save_context_def Let_def upd_thread_def upd_queue_def)
  have lev: "levels_ok s r" by (rule D(4) [OF r(1)])
  let ?th = "(threads s r)\<lparr>th_last_running_ticks := GetTicks (timers s ! c), th_context := cpu_contexts s c\<rparr>"
  show "queues_ok X s'"
  proof (cases "status_of s r = Running")
    case False
    show ?thesis
      by (rule queues_ok_update [OF inv r(1), where th' = ?th and q' = ?q])
        (use False lev D r in \<open>auto simp: s'_def save_context_def upd_thread_def levels_ok_def\<close>)
  next
    case True
    have nr: "r \<notin> set (q_data ?q p)" for p using True D(3) [of r c p] by simp
    show ?thesis
    proof (rule queues_ok_update [OF inv r(1), where th' = "?th\<lparr>th_status := Ready\<rparr>" and q' = "push_front (priority_of s r) r ?q"])
      show "queue_of s' d = (if d = core_of s r then push_front (priority_of s r) r ?q else queue_of s d)" for d
        using True r by (simp add: s'_def save_context_def Let_def upd_thread_def upd_queue_def)
    qed (use True lev D(1,2) nr r X [OF True] in \<open>auto simp: s'_def save_context_def Let_def upd_thread_def upd_queue_def
        levels_ok_def push_front_ok\<close>)
  qed
qed

text \<open>A thread gets the processor.\<close>

definition start_thread :: "nat \<Rightarrow> nat \<Rightarrow> Kernel \<Rightarrow> Kernel" where
  "start_thread c t s =
     (let s2 = upd_manager c (\<lambda>m. m\<lparr>current_thread := Some t\<rparr>) (UnscheduleEvent (ThreadWakeupEvent c) t s)
      in upd_thread t (\<lambda>th. th\<lparr>th_status := Running\<rparr>) (upd_queue c (q_remove (priority_of s2 t) t) s2))"

lemma Unschedule_fields [simp]:
  "threads (UnscheduleEvent ty d s) = threads s" "managers (UnscheduleEvent ty d s) = managers s"
  "next_thread_id (UnscheduleEvent ty d s) = next_thread_id s" "processes (UnscheduleEvent ty d s) = processes s"
  by (simp_all add: UnscheduleEvent_def)

lemma start_thread_fields:
  "next_thread_id (start_thread c t s) = next_thread_id s" "processes (start_thread c t s) = processes s"
  "threads (start_thread c t s) = (threads s)(t := (threads s t)\<lparr>th_status := Running\<rparr>)"
  "current_thread (managers (start_thread c t s) d) = (if d = c then Some t else current_thread (managers s d))"
  "thread_list (managers (start_thread c t s) d) = thread_list (managers s d)"
  "queue_of (start_thread c t s) d = (if d = c then q_remove (priority_of s t) t (queue_of s c) else queue_of s d)"
  by (simp_all add: start_thread_def Let_def upd_thread_def upd_queue_def upd_manager_def)

lemma start_thread_queues:
  assumes inv: "queues_ok X s" and t: "t < next_thread_id s" "core_of s t = c" and X: "X \<subseteq> {t}"
  shows "queue_inv (start_thread c t s)"
proof -
  note D = queues_okD [OF inv]
  let ?q = "queue_of s c"
  have nt: "t \<notin> set (q_data ?q p)" if "p \<noteq> priority_of s t" for p using that D(3) [of t c p] by simp
  have lev: "levels_ok s t" by (rule D(4) [OF t(1)])
  have "t \<notin> set (q_data (q_remove (priority_of s t) t ?q) p)" for p using nt [of p] by (auto simp: q_remove_def)
  with tq.del_ok [OF D(1) [of c], of "priority_of s t" t] lev D(2) X t
  show ?thesis
    by (intro queues_ok_update [OF inv t(1), where th' = "(threads s t)\<lparr>th_status := Running\<rparr>"
        and q' = "q_remove (priority_of s t) t ?q"]) (auto simp: start_thread_fields levels_ok_def q_remove_def)
qed

lemma process_switch_fields [simp]:
  "threads (SetCurrentProcessForCPU p c s) = threads s" "managers (SetCurrentProcessForCPU p c s) = managers s"
  "next_thread_id (SetCurrentProcessForCPU p c s) = next_thread_id s"
  "processes (SetCurrentProcessForCPU p c s) = processes s"
  by (simp_all add: SetCurrentProcessForCPU_def SetCurrentMemoryPageTable_def)

text \<open>The whole switch to a thread, in the terms of what the scheduler maintains.\<close>

definition gets_core :: "Kernel \<Rightarrow> nat \<Rightarrow> nat \<Rightarrow> Kernel \<Rightarrow> bool" where
  "gets_core s c t s' \<longleftrightarrow> queue_inv s' \<and> next_thread_id s' = next_thread_id s
     \<and> (\<forall>u. core_of s' u = core_of s u \<and> (live_owner s' u = None \<longleftrightarrow> live_owner s u = None))
     \<and> (\<forall>u. status_of s' u = (if u = t then Running
          else if current_thread (managers s c) = Some u \<and> status_of s u = Running then Ready else status_of s u))
     \<and> (\<forall>d. current_thread (managers s' d) = (if d = c then Some t else current_thread (managers s d))
          \<and> thread_list (managers s' d) = thread_list (managers s d))
     \<and> (\<forall>u. priority_of s' u = (if u = t then th_nominal_priority (threads s' t) else priority_of s u))
     \<and> cpu_contexts s' c = th_context (threads s' t) \<and> cpu_thread_uro s' c = th_tls_address (threads s' t)"

lemma SwitchContext_thread:
  assumes inv: "queues_ok X s" and t: "t < next_thread_id s" "core_of s t = c" and X: "X \<subseteq> {t}"
    and st: "status_of s t = Ready \<or> current_thread (managers s c) = Some t \<and> status_of s t = Running \<and> X = {}"
    and cur: "\<And>r. current_thread (managers s c) = Some r \<Longrightarrow> r < next_thread_id s \<and> core_of s r = c"
    and owner: "live_owner s t \<noteq> None"
  shows "\<exists>s'. SwitchContext c (Some t) s = Some s' \<and> gets_core s c t s'"
proof -
  define s1 where "s1 = (case current_thread (managers s c) of None \<Rightarrow> s | Some r \<Rightarrow> save_context c r s)"
  have S: "queues_ok X s1 \<and> next_thread_id s1 = next_thread_id s
      \<and> (\<forall>u. status_of s1 u = (if current_thread (managers s c) = Some u \<and> status_of s u = Running then Ready else status_of s u))
      \<and> (\<forall>u. core_of s1 u = core_of s u) \<and> (\<forall>u. priority_of s1 u = priority_of s u)
      \<and> (\<forall>d. current_thread (managers s1 d) = current_thread (managers s d))
      \<and> (\<forall>d. thread_list (managers s1 d) = thread_list (managers s d))
      \<and> (\<forall>u. th_owner_process (threads s1 u) = th_owner_process (threads s u)) \<and> processes s1 = processes s"
  proof (cases "current_thread (managers s c)")
    case (Some r)
    have "status_of s r = Running \<Longrightarrow> r \<notin> X" using st X Some by auto
    from save_context_inv [OF inv _ _ this] cur [OF Some] Some show ?thesis by (auto simp: s1_def)
  qed (use inv in \<open>simp add: s1_def\<close>)
  have f1: "queues_ok X s1" "next_thread_id s1 = next_thread_id s"
    "\<And>u. status_of s1 u = (if current_thread (managers s c) = Some u \<and> status_of s u = Running then Ready else status_of s u)"
    "\<And>u. core_of s1 u = core_of s u" "\<And>u. priority_of s1 u = priority_of s u"
    "\<And>d. current_thread (managers s1 d) = current_thread (managers s d)"
    "\<And>d. thread_list (managers s1 d) = thread_list (managers s d)"
    "\<And>u. th_owner_process (threads s1 u) = th_owner_process (threads s u)" "processes s1 = processes s"
    using S by blast+
  have ready: "status_of s1 t = Ready" using st f1(3) by auto
  let ?s3 = "start_thread c t s1"
  obtain p where p: "live_owner s t = Some p" using owner by blast
  have own: "live_owner ?s3 u = live_owner s u" for u
    using f1(8,9) by (simp add: live_owner_def Let_def start_thread_fields)
  define s4 where "s4 = (if (case current_thread (managers s c) of None \<Rightarrow> None | Some r \<Rightarrow> live_owner s r) \<noteq> Some p
    then SetCurrentProcessForCPU p c ?s3 else ?s3)"
  have f4: "threads s4 = threads ?s3" "managers s4 = managers ?s3" "next_thread_id s4 = next_thread_id ?s3"
    "processes s4 = processes ?s3" by (simp_all add: s4_def)
  let ?s5 = "upd_thread t (\<lambda>th. th\<lparr>th_current_priority := th_nominal_priority th\<rparr>) s4"
  obtain s' where s': "s' = ?s5\<lparr>cpu_contexts := (cpu_contexts ?s5)(c := th_context (threads ?s5 t)),
    cpu_thread_uro := (cpu_thread_uro ?s5)(c := th_tls_address (threads ?s5 t))\<rparr>" by blast
  have "SwitchContext c (Some t) s = Some s'"
    using ready own [of t] p by (simp add: SwitchContext_def Let_def s1_def [symmetric] start_thread_def [unfolded Let_def, symmetric] s4_def s')
  have q3: "queue_inv ?s3" using start_thread_queues [OF f1(1) _ _ X] t f1(2,4) by simp
  have q4: "queue_inv s4" using q3 queues_ok_cong [of s4 ?s3 "{}"] f4 by simp
  have lev: "levels_ok s4 t" using queue_invD(4) [OF q4] t f1(2) by (simp add: f4 start_thread_fields)
  have "queue_inv ?s5"
    by (rule queues_ok_update [OF q4, where th' = "(threads s4 t)\<lparr>th_current_priority := th_nominal_priority (threads s4 t)\<rparr>"
          and q' = "queue_of s4 (core_of s4 t)"])
      (use t f1(2) lev queue_invD [OF q4] in \<open>auto simp: upd_thread_def f4 start_thread_fields levels_ok_def\<close>)
  then have "queue_inv s'" using queues_ok_cong [of s' ?s5 "{}"] by (simp add: s')
  moreover have "live_owner s' u = live_owner s u" for u
    by (simp add: s' upd_thread_def live_owner_def Let_def f4 start_thread_fields f1(8,9))
  moreover have "\<And>u. core_of s' u = core_of s u"
    "\<And>u. status_of s' u = (if u = t then Running
          else if current_thread (managers s c) = Some u \<and> status_of s u = Running then Ready else status_of s u)"
    "\<And>d. current_thread (managers s' d) = (if d = c then Some t else current_thread (managers s d))"
    "\<And>d. thread_list (managers s' d) = thread_list (managers s d)"
    "\<And>u. priority_of s' u = (if u = t then th_nominal_priority (threads s' t) else priority_of s u)"
    "cpu_contexts s' c = th_context (threads s' t)" "cpu_thread_uro s' c = th_tls_address (threads s' t)"
    "next_thread_id s' = next_thread_id s"
    by (simp_all add: s' upd_thread_def f4 start_thread_fields f1)
  ultimately have "gets_core s c t s'" unfolding gets_core_def by (intro conjI allI) simp_all
  with \<open>SwitchContext c (Some t) s = Some s'\<close> show ?thesis by blast
qed

section \<open>Boosting\<close>

lemma sched_inv_boosts:
  assumes "sched_inv s" "boosts s s'" "queue_inv s'"
  shows "sched_inv s'"
  using assms by (simp add: sched_inv_def boosts_fields live_owner_def)

lemma boost_starved_ok:
  assumes inv: "sched_inv s" and t: "core_of s t = c" "t < next_thread_id s"
  shows "\<exists>s'. boost_starved ticks c t s = Some s' \<and> boosts s s' \<and> sched_inv s'"
proof (cases "starved ticks s t")
  case True
  let ?q = "queue_of s c"
  have q: "queue_inv s" using inv by (simp add: sched_inv_def)
  note D = queue_invD [OF q]
  have "t \<in> set (q_data ?q (priority_of s t))" using True t D(3) by (simp add: starved_def)
  then have "q_data ?q (priority_of s t) \<noteq> []" by auto
  from best_level_exists [OF this] obtain p where p: "best_level ?q p" ..
  then have first: "get_first ?q = Some (hd (q_data ?q p))" by (rule get_first_best [OF D(1)])
  have "hd (q_data ?q p) \<in> set (q_data ?q p)" using p by (simp add: best_level_def)
  then have "hd (q_data ?q p) < next_thread_id s" using D(3) by blast
  then have "priority_of s (hd (q_data ?q p)) < NUM_QUEUES" using D(4) by (simp add: levels_ok_def)
  then have "queue_inv (BoostPriority t (max (priority_of s (hd (q_data ?q p))) 40) s)"
    by (intro queue_inv_BoostPriority [OF q t(2)]) simp
  with True first inv show ?thesis
    by (simp add: boost_starved_def boosts_BoostPriority sched_inv_boosts [OF inv boosts_BoostPriority])
qed (use inv in \<open>simp add: boost_starved_def\<close>)

lemma boost_all_ok:
  "sched_inv s \<Longrightarrow> \<forall>t \<in> set ts. core_of s t = c \<and> t < next_thread_id s \<Longrightarrow>
    \<exists>s'. for_each (boost_starved ticks c) ts s = Some s' \<and> boosts s s' \<and> sched_inv s'"
proof (induction ts arbitrary: s)
  case (Cons t ts)
  from boost_starved_ok [OF Cons.prems(1), of t c ticks] Cons.prems(2) obtain s1 where
    s1: "boost_starved ticks c t s = Some s1" "boosts s s1" "sched_inv s1" by auto
  have "\<forall>u \<in> set ts. core_of s1 u = c \<and> u < next_thread_id s1" using Cons.prems(2) by (simp add: boosts_fields [OF s1(2)])
  from Cons.IH [OF s1(3) this] s1 show ?case by (auto intro: boosts_trans)
qed simp

lemma boost_ok:
  assumes "sched_inv s"
  shows "\<exists>s1. (if priority_boost s then PriorityBoostStarvedThreads c s else Some s) = Some s1 \<and> boosts s s1 \<and> sched_inv s1"
  using boost_all_ok [OF assms, of "thread_list (managers s c)" c "Timing_GetTicks s"] assms
  by (auto simp: PriorityBoostStarvedThreads_def sched_inv_def)

section \<open>Rescheduling\<close>

lemma Reschedule_idle:
  assumes inv: "sched_inv s" and q: "queue_inv (upd_queue c (\<lambda>_. q) s)"
    and run: "\<And>r. current_thread (managers s c) = Some r \<Longrightarrow> status_of s r \<noteq> Running"
  shows "\<exists>s'. (if current_thread (managers s c) = None then Some (upd_queue c (\<lambda>_. q) s)
      else SwitchContext c None (upd_queue c (\<lambda>_. q) s)) = Some s'
    \<and> sched_inv s' \<and> current_thread (managers s' c) = None"
proof (cases "current_thread (managers s c)")
  case None
  with inv q show ?thesis by (auto simp: sched_inv_def upd_queue_def live_owner_def)
next
  case (Some r)
  let ?s = "upd_queue c (\<lambda>_. q) s"
  have r: "r < next_thread_id ?s" "core_of ?s r = c" using inv Some by (simp_all add: sched_inv_def upd_queue_def)
  have nrun: "status_of ?s r \<noteq> Running" using run [OF Some] by (simp add: upd_queue_def)
  obtain s1 where s1: "save_context c r ?s = s1" by blast
  note S = save_context_inv [OF q r, unfolded s1]
  let ?s2 = "upd_manager c (\<lambda>m. m\<lparr>current_thread := None\<rparr>) s1"
  have "SwitchContext c None ?s = Some ?s2"
    using Some s1 by (simp add: SwitchContext_def Let_def upd_queue_def)
  moreover have "queue_inv ?s2" using S(1) queues_ok_cong [of ?s2 s1 "{}"] by (simp add: upd_manager_def)
  moreover have "status_of s u = Running \<Longrightarrow> core_of s u \<noteq> c" for u
    using inv run [of u] by (auto simp: sched_inv_def)
  moreover have "live_owner ?s2 u = live_owner s u" for u
    using S(9,10) by (simp add: live_owner_def Let_def upd_manager_def upd_queue_def)
  ultimately show ?thesis using Some inv S nrun
    by (auto simp: sched_inv_def upd_manager_def upd_queue_def)
qed

lemma gets_core_inv:
  assumes inv: "sched_inv s" and g: "gets_core (upd_queue c (\<lambda>_. q) s) c t s'" and t: "core_of s t = c" "t < next_thread_id s"
  shows "sched_inv s'"
proof -
  have f: "threads (upd_queue c (\<lambda>_. q) s) = threads s" "next_thread_id (upd_queue c (\<lambda>_. q) s) = next_thread_id s"
    "current_thread (managers (upd_queue c (\<lambda>_. q) s) d) = current_thread (managers s d)"
    "thread_list (managers (upd_queue c (\<lambda>_. q) s) d) = thread_list (managers s d)"
    "live_owner (upd_queue c (\<lambda>_. q) s) u = live_owner s u" for d u
    by (simp_all add: upd_queue_def live_owner_def)
  have i: "\<And>d u. u \<in> set (thread_list (managers s d)) \<Longrightarrow> core_of s u = d \<and> u < next_thread_id s"
    "\<And>d u. current_thread (managers s d) = Some u \<Longrightarrow> core_of s u = d \<and> u < next_thread_id s"
    "\<And>u. status_of s u = Running \<Longrightarrow> current_thread (managers s (core_of s u)) = Some u"
    "\<And>u. u < next_thread_id s \<Longrightarrow> live_owner s u \<noteq> None"
    using inv by (simp_all add: sched_inv_def)
  have h: "queue_inv s'" "next_thread_id s' = next_thread_id s" "\<And>u. core_of s' u = core_of s u"
    "\<And>u. live_owner s' u = None \<longleftrightarrow> live_owner s u = None"
    "\<And>u. status_of s' u = (if u = t then Running
          else if current_thread (managers s c) = Some u \<and> status_of s u = Running then Ready else status_of s u)"
    "\<And>d. current_thread (managers s' d) = (if d = c then Some t else current_thread (managers s d))"
    "\<And>d. thread_list (managers s' d) = thread_list (managers s d)"
    using g unfolding gets_core_def f by blast+
  have "current_thread (managers s' (core_of s' u)) = Some u" if "status_of s' u = Running" for u
    using that i(3) [of u] t by (auto simp: h split: if_splits)
  moreover have "core_of s' u = d \<and> u < next_thread_id s'" if "current_thread (managers s' d) = Some u" for d u
    using that i(2) [of d u] t by (auto simp: h split: if_splits)
  ultimately show ?thesis using h(1) i(1,4) unfolding sched_inv_def h(2,3,4,7) by simp
qed

text \<open>What the choice of a thread says of it, and the switch to it.\<close>

lemma picks_thread:
  assumes "sched_inv s1" "picks s1 c (Some t) q"
  defines "stays \<equiv> current_thread (managers s1 c) = Some t \<and> status_of s1 t = Running"
  shows "schedulable s1 c t \<or> stays" "t < next_thread_id s1" "core_of s1 t = c"
    "\<forall>u. schedulable s1 c u \<longrightarrow> priority_of s1 t \<le> priority_of s1 u"
    "\<forall>r. current_thread (managers s1 c) = Some r \<and> status_of s1 r = Running \<and> r \<noteq> t
      \<longrightarrow> priority_of s1 t < priority_of s1 r"
    "queues_ok (if stays then {} else {t}) (upd_queue c (\<lambda>_. q) s1)"
proof -
  have q1: "queue_inv s1" and cur: "\<And>t. current_thread (managers s1 c) = Some t \<Longrightarrow> t < next_thread_id s1 \<and> core_of s1 t = c"
    using assms(1) by (simp_all add: sched_inv_def)
  show "schedulable s1 c t \<or> stays" "t < next_thread_id s1" "core_of s1 t = c"
    "\<forall>u. schedulable s1 c u \<longrightarrow> priority_of s1 t \<le> priority_of s1 u"
    "\<forall>r. current_thread (managers s1 c) = Some r \<and> status_of s1 r = Running \<and> r \<noteq> t
      \<longrightarrow> priority_of s1 t < priority_of s1 r"
    using assms(2) cur [of t] by (auto simp: picks_def schedulable_def stays_def split: if_splits)
  show "queues_ok (if stays then {} else {t}) (upd_queue c (\<lambda>_. q) s1)"
  proof (cases stays)
    case True
    with assms(2) have "queue_without s1 c None q" by (simp add: picks_def stays_def)
    from queues_ok_chosen [OF q1 this] True show ?thesis by simp
  next
    case False
    with assms(2) have "queue_without s1 c (Some t) q" "schedulable s1 c t" by (simp_all add: picks_def stays_def)
    from queues_ok_chosen [OF q1 this(1)] this(2) False show ?thesis by simp
  qed
qed

lemma switch_to_picked:
  assumes "sched_inv s1" "picks s1 c (Some t) q"
  obtains s' where "SwitchContext c (Some t) (upd_queue c (\<lambda>_. q) s1) = Some s'"
    "gets_core (upd_queue c (\<lambda>_. q) s1) c t s'" "sched_inv s'"
proof -
  let ?s2 = "upd_queue c (\<lambda>_. q) s1"
  let ?stays = "current_thread (managers s1 c) = Some t \<and> status_of s1 t = Running"
  note t = picks_thread [OF assms]
  have f2: "threads ?s2 = threads s1" "next_thread_id ?s2 = next_thread_id s1"
    "current_thread (managers ?s2 d) = current_thread (managers s1 d)" "live_owner ?s2 u = live_owner s1 u" for d u
    by (simp_all add: upd_queue_def live_owner_def)
  have "status_of ?s2 t = Ready \<or> current_thread (managers ?s2 c) = Some t \<and> status_of ?s2 t = Running
      \<and> (if ?stays then {} else {t}) = {}"
    using t(1) by (auto simp: f2 schedulable_def)
  moreover have "(if ?stays then {} else {t}) \<subseteq> {t}" by simp
  ultimately obtain s' where s': "SwitchContext c (Some t) ?s2 = Some s'" "gets_core ?s2 c t s'"
    using SwitchContext_thread [OF t(6), of t c] t(2,3) assms(1) by (auto simp: f2 sched_inv_def)
  then show thesis using that gets_core_inv [OF assms(1) s'(2) t(3,2)] by blast
qed

text \<open>
  C18: a round of rescheduling always succeeds and keeps what the scheduler maintains. When starved
  threads are to be boosted this happens first and changes priorities only. The choice is then between
  the thread that runs, if it still does, and the threads ready on the core that may be scheduled,
  those that may not being passed over. The core is left running one of these, none of them of a
  better priority at that moment, with its registers and its thread-local storage on the processor;
  from then on its priority is its nominal one, and no other thread's has changed. The thread that
  ran before is ready again unless it goes on, and was then strictly worse. The core is left idle
  only when there is nothing to choose from.
\<close>

theorem Reschedule_runs_best:
  assumes "sched_inv s"
  shows "\<exists>s1 s'. (if priority_boost s then PriorityBoostStarvedThreads c s else Some s) = Some s1 \<and> boosts s s1
    \<and> Reschedule c s = Some s' \<and> sched_inv s'
    \<and> (case current_thread (managers s' c) of
        None \<Rightarrow> (\<forall>u. \<not> schedulable s1 c u)
          \<and> (\<forall>r. current_thread (managers s c) = Some r \<longrightarrow> status_of s r \<noteq> Running)
      | Some t \<Rightarrow> status_of s' t = Running \<and> core_of s t = c
          \<and> (schedulable s1 c t \<or> current_thread (managers s c) = Some t \<and> status_of s t = Running)
          \<and> (\<forall>u. priority_of s' u = (if u = t then th_nominal_priority (threads s' t) else priority_of s1 u))
          \<and> (\<forall>u. schedulable s1 c u \<longrightarrow> priority_of s1 t \<le> priority_of s1 u)
          \<and> (\<forall>r. current_thread (managers s c) = Some r \<and> status_of s r = Running \<and> r \<noteq> t \<longrightarrow>
               status_of s' r = Ready \<and> priority_of s1 t < priority_of s1 r)
          \<and> cpu_contexts s' c = th_context (threads s' t) \<and> cpu_thread_uro s' c = th_tls_address (threads s' t))"
proof -
  obtain s1 where s1: "(if priority_boost s then PriorityBoostStarvedThreads c s else Some s) = Some s1"
    "boosts s s1" "sched_inv s1" using boost_ok [OF assms] by blast
  note B = boosts_fields [OF s1(2)]
  have q1: "queue_inv s1" and cur: "\<And>t. current_thread (managers s1 c) = Some t \<Longrightarrow> t < next_thread_id s1 \<and> core_of s1 t = c"
    using s1(3) by (simp_all add: sched_inv_def)
  from PopNext_picks [OF q1, of c] cur obtain ch q where
    pop: "PopNextReadyThread c s1 = Some (ch, upd_queue c (\<lambda>_. q) s1)" and p: "picks s1 c ch q" by blast
  let ?s2 = "upd_queue c (\<lambda>_. q) s1"
  have res: "Reschedule c s = (if current_thread (managers s1 c) = None \<and> ch = None then Some ?s2 else SwitchContext c ch ?s2)"
    using s1(1) pop by (simp add: Reschedule_def)
  show ?thesis
  proof (cases ch)
    case None
    with p have none: "\<forall>u. \<not> schedulable s1 c u" "queue_without s1 c None q" by (simp_all add: picks_def)
    have "status_of s1 r \<noteq> Running" if "current_thread (managers s1 c) = Some r" for r
      using pop None that by (auto simp: PopNextReadyThread_def Let_def bind_eq_Some_conv)
    from Reschedule_idle [OF s1(3) _ this] queues_ok_chosen [OF q1 none(2)] obtain s' where
      "Reschedule c s = Some s'" "sched_inv s'" "current_thread (managers s' c) = None"
      using None res by auto
    moreover have "status_of s r \<noteq> Running" if "current_thread (managers s c) = Some r" for r
      using \<open>\<And>r. current_thread (managers s1 c) = Some r \<Longrightarrow> status_of s1 r \<noteq> Running\<close> [of r] that by (simp add: B)
    ultimately show ?thesis using s1 none(1) by (intro exI [of _ s1] exI [of _ s']) simp
  next
    case (Some t)
    note t = picks_thread [OF s1(3) p [unfolded Some]]
    obtain s' where s': "SwitchContext c (Some t) ?s2 = Some s'" "gets_core ?s2 c t s'" "sched_inv s'"
      using switch_to_picked [OF s1(3) p [unfolded Some]] .
    have f2: "threads ?s2 = threads s1" "current_thread (managers ?s2 d) = current_thread (managers s1 d)" for d
      by (simp_all add: upd_queue_def)
    have "current_thread (managers s' c) = Some t" "status_of s' t = Running"
      "\<And>r. current_thread (managers s c) = Some r \<Longrightarrow> status_of s r = Running \<Longrightarrow> r \<noteq> t \<Longrightarrow> status_of s' r = Ready"
      "cpu_contexts s' c = th_context (threads s' t)" "cpu_thread_uro s' c = th_tls_address (threads s' t)"
      "\<And>u. priority_of s' u = (if u = t then th_nominal_priority (threads s' t) else priority_of s1 u)"
      using s'(2) unfolding gets_core_def f2 B by (simp_all only: simp_thms if_True if_False)
    moreover have "schedulable s1 c t \<or> current_thread (managers s c) = Some t \<and> status_of s t = Running"
      using t(1) by (simp add: B)
    ultimately show ?thesis using s1 s'(1,3) res Some t(3-5)
      by (intro exI [of _ s1] exI [of _ s']) (simp add: B)
  qed
qed

lemma sample_sched_inv: "sched_inv sample_kernel"
  unfolding sched_inv_def
proof (intro conjI sample_queue_inv)
  show "\<forall>t. status_of sample_kernel t = Running \<longrightarrow> current_thread (managers sample_kernel (core_of sample_kernel t)) = Some t"
    by (auto simp: sample_defs)
qed (auto simp: sample_defs live_owner_def)

lemma Reschedule_runs_best_witness:
  "\<exists>s'. Reschedule 0 sample_kernel = Some s' \<and> sched_inv s' \<and> current_thread (managers s' 0) \<noteq> None"
proof -
  from Reschedule_runs_best [OF sample_sched_inv, of 0] obtain s1 s' where
    r: "(if priority_boost sample_kernel then PriorityBoostStarvedThreads 0 sample_kernel else Some sample_kernel) = Some s1"
      "Reschedule 0 sample_kernel = Some s'" "sched_inv s'"
      "case current_thread (managers s' 0) of None \<Rightarrow> (\<forall>u. \<not> schedulable s1 0 u) | Some t \<Rightarrow> True"
    by (auto split: option.splits)
  have "s1 = sample_kernel" using r(1) by (simp add: sample_kernel_def)
  moreover have "schedulable sample_kernel 0 3" by (simp add: schedulable_def sample_defs)
  ultimately show ?thesis using r by (auto split: option.splits)
qed

end
