(* ===== verification/WakeProps.thy ===== *)
theory WakeProps imports WaitFacts SchedulerFacts begin

text \<open>
  Waking up: the choice among the threads that wait for an object, and what the loop of
  \<open>WakeupAllWaitingThreads\<close> has done when it returns.
\<close>

text \<open>The first in the list with the best priority among those that can be let through.\<close>

definition first_best :: "Kernel \<Rightarrow> WaitObject \<Rightarrow> nat \<Rightarrow> bool" where
  "first_best s obj t \<longleftrightarrow> eligible s obj t \<and> (\<exists>before after. waiting_threads s obj = before @ t # after
     \<and> (\<forall>u \<in> set before. eligible s obj u \<longrightarrow> priority_of s t < priority_of s u)
     \<and> (\<forall>u \<in> set after. eligible s obj u \<longrightarrow> priority_of s t \<le> priority_of s u))"

lemma GetHighest_spec:
  assumes "kernel_inv s"
  shows "\<exists>candidate. GetHighestPriorityReadyThread obj s = Some candidate
    \<and> (case candidate of
        None \<Rightarrow> \<forall>u \<in> set (waiting_threads s obj). \<not> eligible s obj u
      | Some t \<Rightarrow> first_best s obj t)"
proof -
  have st: "\<forall>t \<in> set (waiting_threads s obj). status_of s t \<in> wait_states"
    using waiting_thread(1) [OF assms] by blast
  have prio: "priority_of s t < ThreadPrioLowest + 1" if "t \<in> set (waiting_threads s obj)" for t
    using waiting_thread(5) [OF assms that] by simp
  obtain c where c: "best_waiting s obj None (ThreadPrioLowest + 1) (waiting_threads s obj) = Some c"
    "c = None \<and> (\<forall>u \<in> set (waiting_threads s obj). eligible s obj u \<longrightarrow> ThreadPrioLowest + 1 \<le> priority_of s u)
      \<or> (\<exists>t. c = Some t \<and> first_best s obj t)"
    using best_waiting_spec [OF st, of obj None "ThreadPrioLowest + 1"] unfolding first_best_def by blast
  from c(2) have "case c of None \<Rightarrow> \<forall>u \<in> set (waiting_threads s obj). \<not> eligible s obj u
      | Some t \<Rightarrow> first_best s obj t"
    using prio by (auto simp: not_le [symmetric])
  with c(1) show ?thesis by (simp add: GetHighestPriorityReadyThread_def)
qed

text \<open>
  of the threads that wait for an object, the one to wake is the first with the best priority
  among those the object lets through and, when they wait for several objects at once, all the
  others let through too; there is none only when no thread can be let through. The assertion on
  the status of the threads in the list does not fail.
\<close>

theorem GetHighestPriorityReadyThread_best:
  assumes "kernel_inv s"
  shows "\<exists>candidate. GetHighestPriorityReadyThread obj s = Some candidate
    \<and> (case candidate of
        None \<Rightarrow> \<forall>u \<in> set (waiting_threads s obj). \<not> eligible s obj u
      | Some t \<Rightarrow> eligible s obj t \<and> (\<exists>before after. waiting_threads s obj = before @ t # after
          \<and> (\<forall>u \<in> set before. eligible s obj u \<longrightarrow> priority_of s t < priority_of s u)
          \<and> (\<forall>u \<in> set after. eligible s obj u \<longrightarrow> priority_of s t \<le> priority_of s u)))"
  using GetHighest_spec [OF assms, of obj] by (simp only: first_best_def)

text \<open>One round of the loop: the thread has left all wait lists and is ready; nobody else moves.\<close>

lemma wake_thread_ok:
  assumes inv: "kernel_inv s" and t: "t \<in> set (waiting_threads s obj)" and el: "eligible s obj t"
  shows "\<exists>s'. wake_thread obj t s = Some s' \<and> kernel_inv s'
    \<and> (\<forall>b. waiting_threads s' b = filter (\<lambda>x. x \<noteq> t) (waiting_threads s b))
    \<and> status_of s' t = Ready \<and> (\<forall>u. u \<noteq> t \<longrightarrow> status_of s' u = status_of s u)
    \<and> hle_notifiers s' = hle_notifiers s"
proof -
  note W = waiting_thread [OF inv t]
  have "\<exists>s1. (if status_of s t \<noteq> WaitSynchAll then Acquire obj t s
      else for_each (\<lambda>b. Acquire b t) (th_wait_objects (threads s t)) s) = Some s1
      \<and> kernel_inv s1 \<and> same_sleepers s s1"
  proof (cases "status_of s t = WaitSynchAll")
    case True
    with Acquire_all_ok [OF inv W(2) W(6)] el show ?thesis by (auto simp: eligible_def ready_to_run_def)
  next
    case False
    with Acquire_ok [OF inv W(2), of obj] el show ?thesis by (auto simp: eligible_def)
  qed
  then obtain s1 where s1: "(if status_of s t \<noteq> WaitSynchAll then Acquire obj t s
      else for_each (\<lambda>b. Acquire b t) (th_wait_objects (threads s t)) s) = Some s1"
    "kernel_inv s1" "same_sleepers s s1" by blast
  have "th_wait_objects (threads s1 t) \<noteq> []" using s1(3) W(3) by (simp add: same_sleepers_def)
  from call_back_inv [OF s1(2) this, of obj] obtain s2 where
    s2: "call_back WakeupSignal t (Some obj) s1 = Some s2" "kernel_inv s2" "same_sleepers s1 s2" by blast
  have same: "same_sleepers s s2" using s1(3) s2(3) by (rule same_sleepers_trans)
  note L = leave_wait_lists_inv [OF s2(2), of t]
  obtain s3 where s3: "leave_wait_lists t s2 = s3" by blast
  have "t < next_thread_id s3" "th_wait_objects (threads s3 t) = []" "kernel_inv s3"
    using L(1,2,6) same W(2) by (simp_all add: s3 same_sleepers_def)
  from ResumeFromWait_inv [OF this(3,1,2)] obtain s4 where
    s4: "ResumeFromWait t s3 = Some s4" "kernel_inv s4" "waiting_threads s4 = waiting_threads s3"
      "hle_notifiers s4 = hle_notifiers s3" "\<forall>u. u \<noteq> t \<longrightarrow> threads s4 u = threads s3 u"
      "status_of s4 t = (if status_of s3 t \<in> {Running, Dead} then status_of s3 t else Ready)" by blast
  have "wake_thread obj t s = Some s4" using s1(1) s2(1) s3 s4(1) by (simp add: wake_thread_def)
  moreover have "status_of s3 u = status_of s u" for u
    using L(3) [of u] same by (simp add: s3 same_sleepers_def)
  then have "status_of s4 t = Ready" "\<forall>u. u \<noteq> t \<longrightarrow> status_of s4 u = status_of s u"
    using s4(5,6) W(1) by auto
  moreover have "\<forall>b. waiting_threads s4 b = filter (\<lambda>x. x \<noteq> t) (waiting_threads s b)"
    using L(4) same by (simp add: s4 s3 same_sleepers_def)
  moreover have "hle_notifiers s4 = hle_notifiers s" using L(8) same by (simp add: s4 s3 same_sleepers_def)
  ultimately show ?thesis using s4(2) by blast
qed

text \<open>The end of the loop: the threads that have been woken, and those nobody can be let through among.\<close>

definition drained :: "WaitObject \<Rightarrow> Kernel \<Rightarrow> Kernel \<Rightarrow> bool" where
  "drained obj s s' \<longleftrightarrow>
     (\<exists>woken. woken \<subseteq> set (waiting_threads s obj)
       \<and> (\<forall>b. waiting_threads s' b = filter (\<lambda>t. t \<notin> woken) (waiting_threads s b))
       \<and> (\<forall>t. status_of s' t = (if t \<in> woken then Ready else status_of s t)))"

lemma wakeup_loop_ok:
  "kernel_inv s \<Longrightarrow> length (waiting_threads s obj) \<le> n \<Longrightarrow>
    \<exists>s'. wakeup_loop n obj s = Some s' \<and> kernel_inv s' \<and> hle_notifiers s' = hle_notifiers s
      \<and> (\<forall>u \<in> set (waiting_threads s' obj). \<not> eligible s' obj u)
      \<and> drained obj s s'"
proof (induction n arbitrary: s)
  case 0
  then show ?case
    by (subst wakeup_loop.simps)
      (auto simp: GetHighestPriorityReadyThread_def drained_def intro!: exI [of _ "{}"])
next
  case (Suc n)
  from GetHighest_spec [OF Suc.prems(1), of obj] obtain c where
    c: "GetHighestPriorityReadyThread obj s = Some c"
    "case c of None \<Rightarrow> \<forall>u \<in> set (waiting_threads s obj). \<not> eligible s obj u
      | Some t \<Rightarrow> eligible s obj t \<and> t \<in> set (waiting_threads s obj)"
    by (force simp: first_best_def split: option.splits)
  show ?case
  proof (cases c)
    case None
    with c have "wakeup_loop (Suc n) obj s = Some s" by (subst wakeup_loop.simps) simp
    moreover have "drained obj s s" unfolding drained_def by (intro exI [of _ "{}"]) simp
    ultimately show ?thesis using c(2) None Suc.prems(1) by auto
  next
    case (Some t)
    with c(2) have t: "eligible s obj t" "t \<in> set (waiting_threads s obj)" by simp_all
    from wake_thread_ok [OF Suc.prems(1) t(2,1)] obtain s1 where
      s1: "wake_thread obj t s = Some s1" "kernel_inv s1"
        "\<forall>b. waiting_threads s1 b = filter (\<lambda>x. x \<noteq> t) (waiting_threads s b)"
        "status_of s1 t = Ready" "\<forall>u. u \<noteq> t \<longrightarrow> status_of s1 u = status_of s u"
        "hle_notifiers s1 = hle_notifiers s" by blast
    have "length (waiting_threads s1 obj) < length (waiting_threads s obj)"
      using t(2) by (simp add: s1(3) length_filter_less)
    then have "length (waiting_threads s1 obj) \<le> n" using Suc.prems(2) by simp
    from Suc.IH [OF s1(2) this] obtain s' woken where
      s': "wakeup_loop n obj s1 = Some s'" "kernel_inv s'" "hle_notifiers s' = hle_notifiers s1"
        "\<forall>u \<in> set (waiting_threads s' obj). \<not> eligible s' obj u"
        "woken \<subseteq> set (waiting_threads s1 obj)"
        "\<forall>b. waiting_threads s' b = filter (\<lambda>t. t \<notin> woken) (waiting_threads s1 b)"
        "\<forall>t. status_of s' t = (if t \<in> woken then Ready else status_of s1 t)"
      unfolding drained_def by blast
    have "wakeup_loop (Suc n) obj s = Some s'"
      using c(1) Some s1(1) s'(1) by (subst wakeup_loop.simps) simp
    moreover have "drained obj s s'" unfolding drained_def
    proof (intro exI [of _ "insert t woken"] conjI allI)
      show "insert t woken \<subseteq> set (waiting_threads s obj)" using s'(5) t(2) s1(3) by auto
      show "waiting_threads s' b = filter (\<lambda>x. x \<notin> insert t woken) (waiting_threads s b)" for b
        using s'(6) s1(3) by (simp add: conj_commute)
      show "status_of s' u = (if u \<in> insert t woken then Ready else status_of s u)" for u
        using s'(7) s1(4,5) by auto
    qed
    ultimately show ?thesis using s' s1(6) by auto
  qed
qed

text \<open>
  C16: \<open>WakeupAllWaitingThreads\<close> always returns, within as many rounds as threads wait; it keeps the
  invariant of queues, wait lists and mutexes; the threads it woke are ready and in no wait list any
  more, everybody else stays as they were; and when it is done no thread that still waits for the
  object could have been let through.
\<close>

theorem WakeupAllWaitingThreads_drains:
  assumes "kernel_inv s"
  shows "\<exists>s'. WakeupAllWaitingThreads obj s = Some s' \<and> kernel_inv s' \<and> drained obj s s'
    \<and> (\<forall>u \<in> set (waiting_threads s' obj). \<not> eligible s' obj u)"
proof -
  from wakeup_loop_ok [OF assms order_refl, of obj] obtain s1 where
    s1: "wakeup_loop (length (waiting_threads s obj)) obj s = Some s1" "kernel_inv s1" "drained obj s s1"
      "\<forall>u \<in> set (waiting_threads s1 obj). \<not> eligible s1 obj u" by blast
  let ?s2 = "notify_hle obj s1"
  have k2: "kernel_inv ?s2" using s1(2) kernel_inv_cong [of ?s2 s1] by (simp add: notify_hle_def)
  have d2: "drained obj s ?s2" using s1(3) by (simp add: drained_def notify_hle_def)
  have e: "ShouldWait ?s2 b u = ShouldWait s1 b u" for b u
    by (cases b) (simp_all add: notify_hle_def)
  have e2: "\<forall>u \<in> set (waiting_threads ?s2 obj). \<not> eligible ?s2 obj u"
    using s1(4) by (simp add: eligible_def ready_to_run_def e) (simp add: notify_hle_def)
  have clear: "kernel_inv (set_event_signaled i False ?s2)" "drained obj s (set_event_signaled i False ?s2)"
    "kernel_inv (set_timer_signaled i False ?s2)" "drained obj s (set_timer_signaled i False ?s2)" for i
    using k2 d2 kernel_inv_cong [of "set_event_signaled i False ?s2" ?s2]
      kernel_inv_cong [of "set_timer_signaled i False ?s2" ?s2]
    by (simp_all add: drained_def set_event_signaled_def set_timer_signaled_def)
  have closed: "\<not> eligible (set_event_signaled i False ?s2) (EventObject i) u"
    "\<not> eligible (set_timer_signaled i False ?s2) (TimerObject i) u" for i u
    by (simp_all add: eligible_def set_event_signaled_def set_timer_signaled_def)
  have "WakeupAllWaitingThreads obj s = Some (case obj of
       EventObject e \<Rightarrow> if kv_reset_type (kevents ?s2 e) = Pulse then set_event_signaled e False ?s2 else ?s2
     | TimerObject e \<Rightarrow> if tm_reset_type (ktimers ?s2 e) = Pulse then set_timer_signaled e False ?s2 else ?s2
     | _ \<Rightarrow> ?s2)"
    using s1(1) by (simp add: WakeupAllWaitingThreads_def WaitObject_WakeupAllWaitingThreads_def)
  then show ?thesis using k2 d2 e2 clear closed by (cases obj) auto
qed

end
