(* ===== verification/Tokens.thy ===== *)
theory Tokens imports WakeProps begin

text \<open>
  What an object has to give, and what a thread that is let through takes of it. The wake-ups take
  from the objects a thread acquires and from no other, which is what makes a semaphore's count, a
  mutex's holder and a one-shot event's signal come out right in the end.
\<close>

section \<open>Tokens\<close>

text \<open>The reset type, the count (1 for a signal), and the holder.\<close>

fun token :: "Kernel \<Rightarrow> WaitObject \<Rightarrow> ResetType \<times> int \<times> nat option" where
  "token s (ThreadObject u) = (Sticky, if status_of s u = Dead then 1 else 0, None)"
| "token s (MutexObject m) = (Sticky, mx_lock_count (kmutexes s m), mx_holding_thread (kmutexes s m))"
| "token s (SemaphoreObject m) = (Sticky, sint (sm_available_count (ksemaphores s m)), None)"
| "token s (EventObject e) = (kv_reset_type (kevents s e), if kv_signaled (kevents s e) then 1 else 0, None)"
| "token s (TimerObject e) = (tm_reset_type (ktimers s e), if tm_signaled (ktimers s e) then 1 else 0, None)"

fun take_token :: "nat \<Rightarrow> WaitObject \<Rightarrow> ResetType \<times> int \<times> nat option \<Rightarrow> ResetType \<times> int \<times> nat option" where
  "take_token t (MutexObject m) (r, n, h) = (r, n + 1, Some t)"
| "take_token t (SemaphoreObject m) (r, n, h) = (r, n - 1, h)"
| "take_token t obj (r, n, h) = (r, if r = OneShot then 0 else n, h)"

fun blocked :: "WaitObject \<Rightarrow> nat \<Rightarrow> ResetType \<times> int \<times> nat option \<Rightarrow> bool" where
  "blocked (MutexObject m) t (r, n, h) \<longleftrightarrow> 0 < n \<and> h \<noteq> Some t"
| "blocked obj t (r, n, h) \<longleftrightarrow> n \<le> 0"

lemma ShouldWait_token: "ShouldWait s obj t = blocked obj t (token s obj)"
  by (cases obj) auto

lemma token_cong:
  assumes "\<And>u. status_of s' u = Dead \<longleftrightarrow> status_of s u = Dead"
    and "\<And>m. mx_lock_count (kmutexes s' m) = mx_lock_count (kmutexes s m)"
    and "\<And>m. mx_holding_thread (kmutexes s' m) = mx_holding_thread (kmutexes s m)"
    and "ksemaphores s' = ksemaphores s" "kevents s' = kevents s" "ktimers s' = ktimers s"
  shows "token s' b = token s b"
  using assms by (cases b) simp_all

lemma token_boosts: "boosts s s' \<Longrightarrow> token s' b = token s b"
  by (rule token_cong) (simp_all add: boosts_fields)

lemma sint_minus_one:
  fixes n :: u32
  assumes "0 < sint n"
  shows "sint (n - 1) = sint n - 1"
proof -
  have "sint n - sint (1 :: u32) = sint n - 1" by simp
  moreover have "- (2 ^ 31) \<le> sint n - 1" "sint n - 1 < 2 ^ 31"
    using assms sint_less [of n] by simp_all
  ultimately show ?thesis by (simp add: sint_word_ariths signed_take_bit_int_eq_self_iff)
qed

lemma Acquire_token:
  assumes inv: "kernel_inv s" and free: "\<not> ShouldWait s obj t" and s': "Acquire obj t s = Some s'"
  shows "token s' b = (if b = obj then take_token t obj (token s obj) else token s b)"
proof (cases obj)
  case (MutexObject m)
  let ?s3 = "upd_mutex m (\<lambda>x. x\<lparr>mx_holding_thread := Some t\<rparr>)
    (upd_thread t (\<lambda>th. th\<lparr>th_held_mutexes := insort_insert m (th_held_mutexes th)\<rparr>)
    (upd_mutex m (\<lambda>x. x\<lparr>mx_priority := priority_of s t\<rparr>) s))"
  obtain s4 where s4: "UpdatePriority t ?s3 = s4" by blast
  have bo: "boosts ?s3 s4" unfolding s4 [symmetric] by (rule boosts_UpdatePriority)
  have "s' = upd_mutex m (\<lambda>x. x\<lparr>mx_lock_count := mx_lock_count x + 1\<rparr>)
      (if mx_lock_count (kmutexes s m) = 0 then PrepareReschedule s4 else s)"
    using s' MutexObject s4 by (simp add: Mutex_Acquire_def Let_def split: if_splits del: ShouldWait.simps)
  moreover have "mx_lock_count (kmutexes s m) \<noteq> 0 \<Longrightarrow> mx_holding_thread (kmutexes s m) = Some t"
    using free inv MutexObject by (auto simp: kernel_inv_def mutex_inv_def order_le_less)
  ultimately show ?thesis using MutexObject
    by (cases b) (auto simp: boosts_fields [OF bo] PrepareReschedule_def upd_mutex_def upd_thread_def)
next
  case (SemaphoreObject m)
  with s' free show ?thesis
    by (cases b) (auto simp: Semaphore_Acquire_def sint_minus_one)
next
  case (EventObject e)
  with s' free show ?thesis
    by (cases b) (auto simp: Event_Acquire_def set_event_signaled_def split: if_splits)
next
  case (TimerObject e)
  with s' free show ?thesis
    by (cases b) (auto simp: Timer_Acquire_def set_timer_signaled_def split: if_splits)
next
  case (ThreadObject u)
  with s' show ?thesis by (cases b) (auto simp: Thread_Acquire_def split: if_splits)
qed

lemma Acquire_all_token:
  "kernel_inv s \<Longrightarrow> t < next_thread_id s \<Longrightarrow> distinct objs \<Longrightarrow> \<forall>b \<in> set objs. \<not> ShouldWait s b t \<Longrightarrow>
    for_each (\<lambda>b. Acquire b t) objs s = Some s' \<Longrightarrow>
    token s' b = (if b \<in> set objs then take_token t b (token s b) else token s b)"
proof (induction objs arbitrary: s)
  case (Cons c objs)
  from Acquire_ok [OF Cons.prems(1,2), of c] Cons.prems(4) obtain s1 where
    s1: "Acquire c t s = Some s1" "kernel_inv s1" "same_sleepers s s1" by auto
  have tok: "token s1 d = (if d = c then take_token t c (token s c) else token s d)" for d
    using Acquire_token [OF Cons.prems(1) _ s1(1)] Cons.prems(4) by simp
  have "t < next_thread_id s1" using s1(3) Cons.prems(2) by (simp add: same_sleepers_def)
  moreover have "\<forall>d \<in> set objs. \<not> ShouldWait s1 d t"
    using Cons.prems(3,4) by (auto simp: ShouldWait_token tok)
  moreover have "for_each (\<lambda>b. Acquire b t) objs s1 = Some s'" using Cons.prems(5) s1(1) by simp
  ultimately have "token s' b = (if b \<in> set objs then take_token t b (token s1 b) else token s1 b)"
    using Cons.IH [OF s1(2)] Cons.prems(3) by simp
  then show ?case using Cons.prems(3) by (auto simp: tok)
qed simp

section \<open>Waking takes tokens, and nothing else does\<close>

lemma call_back_token:
  assumes "call_back reason t obj s = Some s'"
  shows "token s' b = token s b"
proof -
  have "status_of s' u = status_of s u \<and> kmutexes s' = kmutexes s \<and> ksemaphores s' = ksemaphores s
      \<and> kevents s' = kevents s \<and> ktimers s' = ktimers s" for u
    using assms by (auto simp: call_back_def WakeUp_def SetWaitSynchronizationResult_def GetWaitObjectIndex_def Let_def
        SetWaitSynchronizationOutput_def set_register_def upd_thread_def
        split: option.splits WakeupCallback.splits ThreadWakeupReason.splits if_splits)
  then show ?thesis by (intro token_cong) simp_all
qed

lemma remove_token: "token (RemoveWaitingThread obj t s) b = token s b"
  using token_boosts [OF RemoveWaitingThread_boosts, of obj t s b]
  by (cases b) (simp_all add: set_waiting_def)

lemma leave_token: "token (leave_wait_lists t s) b = token s b"
proof -
  have "token (fold (\<lambda>obj. RemoveWaitingThread obj t) objs s) b = token s b" for objs
    by (induction objs arbitrary: s) (simp_all add: remove_token)
  moreover have "token (upd_thread t (\<lambda>th. th\<lparr>th_wait_objects := []\<rparr>) s1) b = token s1 b" for s1
    by (rule token_cong) (simp_all add: upd_thread_def)
  ultimately show ?thesis by (simp add: leave_wait_lists_def)
qed

lemma resume_token:
  assumes "ResumeFromWait t s = Some s'"
  shows "token s' b = token s b"
  using assms by (intro token_cong)
    (auto simp: ResumeFromWait_def PrepareReschedule_def upd_thread_def upd_queue_def
      split: if_splits ThreadStatus.splits)

definition acquired :: "Kernel \<Rightarrow> WaitObject \<Rightarrow> nat \<Rightarrow> WaitObject set" where
  "acquired s obj t = (if status_of s t = WaitSynchAll then set (th_wait_objects (threads s t)) else {obj})"

lemma wake_thread_token:
  assumes inv: "kernel_inv s" and t: "t \<in> set (waiting_threads s obj)" and el: "eligible s obj t"
    and w: "wake_thread obj t s = Some s'"
  shows "token s' b = (if b \<in> acquired s obj t then take_token t b (token s b) else token s b)"
proof -
  note W = waiting_thread [OF inv t]
  obtain s1 s2 where s: "(if status_of s t \<noteq> WaitSynchAll then Acquire obj t s
      else for_each (\<lambda>b. Acquire b t) (th_wait_objects (threads s t)) s) = Some s1"
    "call_back WakeupSignal t (Some obj) s1 = Some s2" "ResumeFromWait t (leave_wait_lists t s2) = Some s'"
    using w by (auto simp: wake_thread_def bind_eq_Some_conv)
  have "token s' b = token s1 b"
    by (simp add: resume_token [OF s(3)] leave_token call_back_token [OF s(2)])
  also have "token s1 b = (if b \<in> acquired s obj t then take_token t b (token s b) else token s b)"
  proof (cases "status_of s t = WaitSynchAll")
    case True
    with s(1) Acquire_all_token [OF inv W(2) W(6), of s1 b] el show ?thesis
      by (simp add: acquired_def eligible_def ready_to_run_def)
  next
    case False
    with s(1) Acquire_token [OF inv _, of obj t s1 b] el show ?thesis
      by (simp add: acquired_def eligible_def)
  qed
  finally show ?thesis .
qed

lemma acquired_self: "kernel_inv s \<Longrightarrow> t \<in> set (waiting_threads s obj) \<Longrightarrow> obj \<in> acquired s obj t"
  using waiting_thread(4) by (simp add: acquired_def)

section \<open>The loop\<close>

text \<open>What every wake-up keeps, the loop keeps.\<close>

lemma wakeup_loop_rule:
  assumes step: "\<And>s t s1. kernel_inv s \<Longrightarrow> Q s \<Longrightarrow> t \<in> set (waiting_threads s obj) \<Longrightarrow> eligible s obj t
      \<Longrightarrow> wake_thread obj t s = Some s1 \<Longrightarrow> Q s1"
  shows "kernel_inv s \<Longrightarrow> Q s \<Longrightarrow> wakeup_loop n obj s = Some s' \<Longrightarrow> Q s'"
proof (induction n arbitrary: s)
  case 0
  then show ?case by (subst (asm) wakeup_loop.simps) (auto simp: bind_eq_Some_conv split: option.splits)
next
  case (Suc n)
  from GetHighest_spec [OF Suc.prems(1), of obj] obtain c where
    c: "GetHighestPriorityReadyThread obj s = Some c"
    "case c of None \<Rightarrow> True | Some t \<Rightarrow> eligible s obj t \<and> t \<in> set (waiting_threads s obj)"
    by (force simp: first_best_def split: option.splits)
  show ?case
  proof (cases c)
    case None
    with Suc.prems c(1) show ?thesis by (subst (asm) wakeup_loop.simps) simp
  next
    case (Some t)
    with c(2) have t: "eligible s obj t" "t \<in> set (waiting_threads s obj)" by simp_all
    from wake_thread_ok [OF Suc.prems(1) t(2,1)] obtain s1 where
      s1: "wake_thread obj t s = Some s1" "kernel_inv s1" by blast
    have "wakeup_loop n obj s1 = Some s'"
      using Suc.prems(3) c(1) Some s1(1) by (subst (asm) wakeup_loop.simps) simp
    with Suc.IH [OF s1(2) step [OF Suc.prems(1,2) t(2,1) s1(1)]] show ?thesis by blast
  qed
qed

text \<open>An object that lets one thread through and then blocks the others: the loop wakes one thread.\<close>

definition single :: "Kernel \<Rightarrow> WaitObject \<Rightarrow> bool" where
  "single s obj \<longleftrightarrow> (\<forall>t u. u \<noteq> t \<longrightarrow> blocked obj u (take_token t obj (token s obj)))"

lemma wakeup_loop_single:
  assumes inv: "kernel_inv s" and single: "single s obj"
  shows "(GetHighestPriorityReadyThread obj s = Some None \<longrightarrow>
      wakeup_loop (length (waiting_threads s obj)) obj s = Some s)
    \<and> (\<forall>t. GetHighestPriorityReadyThread obj s = Some (Some t) \<longrightarrow>
      (\<exists>s1. wake_thread obj t s = Some s1 \<and> wakeup_loop (length (waiting_threads s obj)) obj s = Some s1))"
proof (intro conjI allI impI)
  assume "GetHighestPriorityReadyThread obj s = Some None"
  then show "wakeup_loop (length (waiting_threads s obj)) obj s = Some s"
    by (subst wakeup_loop.simps) simp
next
  fix t
  assume t: "GetHighestPriorityReadyThread obj s = Some (Some t)"
  with GetHighest_spec [OF inv, of obj] have tw: "t \<in> set (waiting_threads s obj)" and el: "eligible s obj t"
    by (auto simp: first_best_def)
  from wake_thread_ok [OF inv tw el] obtain s1 where s1: "wake_thread obj t s = Some s1" "kernel_inv s1"
    "\<forall>b. waiting_threads s1 b = filter (\<lambda>x. x \<noteq> t) (waiting_threads s b)" by blast
  have "token s1 obj = take_token t obj (token s obj)"
    using wake_thread_token [OF inv tw el s1(1)] acquired_self [OF inv tw] by simp
  then have none: "\<not> eligible s1 obj u" if "u \<in> set (waiting_threads s1 obj)" for u
    using that s1(3) single by (auto simp: eligible_def ShouldWait_token single_def)
  have "GetHighestPriorityReadyThread obj s1 = Some None"
    using GetHighest_spec [OF s1(2), of obj] none by (force simp: first_best_def split: option.splits)
  then have "wakeup_loop n obj s1 = Some s1" for n
    by (subst wakeup_loop.simps) simp
  moreover obtain n where "length (waiting_threads s obj) = Suc n" using tw by (cases "waiting_threads s obj") auto
  ultimately have "wakeup_loop (length (waiting_threads s obj)) obj s = Some s1"
    using t s1(1) by (subst wakeup_loop.simps) simp
  with s1(1) show "\<exists>s1. wake_thread obj t s = Some s1 \<and> wakeup_loop (length (waiting_threads s obj)) obj s = Some s1"
    by blast
qed

section \<open>Semaphores\<close>

text \<open>The slots a semaphore has and the threads that wait for it go down together.\<close>

lemma length_filter_single: "distinct xs \<Longrightarrow> x \<in> set xs \<Longrightarrow> Suc (length (filter (\<lambda>y. y \<noteq> x) xs)) = length xs"
  by (induction xs) (auto intro!: arg_cong [where f = length] simp: filter_id_conv)

lemma semaphore_loop:
  assumes inv: "kernel_inv s" and loop: "wakeup_loop n (SemaphoreObject m) s = Some s'"
    and pos: "0 \<le> sint (sm_available_count (ksemaphores s m))"
  shows "sint (sm_available_count (ksemaphores s' m)) - int (length (waiting_threads s' (SemaphoreObject m)))
      = sint (sm_available_count (ksemaphores s m)) - int (length (waiting_threads s (SemaphoreObject m)))
    \<and> 0 \<le> sint (sm_available_count (ksemaphores s' m))"
proof (rule wakeup_loop_rule [OF _ inv _ loop])
  fix s2 t s1
  let ?obj = "SemaphoreObject m"
  assume a: "kernel_inv s2" "t \<in> set (waiting_threads s2 ?obj)" "eligible s2 ?obj t" "wake_thread ?obj t s2 = Some s1"
    and Q: "sint (sm_available_count (ksemaphores s2 m)) - int (length (waiting_threads s2 ?obj))
      = sint (sm_available_count (ksemaphores s m)) - int (length (waiting_threads s ?obj))
      \<and> 0 \<le> sint (sm_available_count (ksemaphores s2 m))"
  have tok: "sint (sm_available_count (ksemaphores s1 m)) = sint (sm_available_count (ksemaphores s2 m)) - 1"
    using wake_thread_token [OF a, of ?obj] acquired_self [OF a(1,2)] by simp
  have "0 < sint (sm_available_count (ksemaphores s2 m))" using a(3) by (simp add: eligible_def)
  moreover have "Suc (length (waiting_threads s1 ?obj)) = length (waiting_threads s2 ?obj)"
  proof -
    have "distinct (waiting_threads s2 ?obj)" using a(1) by (simp add: kernel_inv_def wait_inv_def)
    moreover have "waiting_threads s1 ?obj = filter (\<lambda>x. x \<noteq> t) (waiting_threads s2 ?obj)"
      using wake_thread_ok [OF a(1-3)] a(4) by auto
    ultimately show ?thesis using length_filter_single a(2) by simp
  qed
  ultimately show "sint (sm_available_count (ksemaphores s1 m)) - int (length (waiting_threads s1 ?obj))
      = sint (sm_available_count (ksemaphores s m)) - int (length (waiting_threads s ?obj))
      \<and> 0 \<le> sint (sm_available_count (ksemaphores s1 m))"
    using Q tok by linarith
qed (use pos in simp)

end
