(* ===== verification/KernelProps.thy ===== *)
theory KernelProps imports Tokens KernelSample begin

text \<open>
  Semaphores, mutexes and events as their users see them: what a release or a signal leaves behind,
  and the instances of these properties and of those of the wake-ups.
\<close>

section \<open>Semaphores\<close>

lemma finish_semaphore:
  assumes "wakeup_loop (length (waiting_threads s (SemaphoreObject m))) (SemaphoreObject m) s = Some s1"
  shows "WakeupAllWaitingThreads (SemaphoreObject m) s = Some (notify_hle (SemaphoreObject m) s1)"
  using assms by (simp add: WakeupAllWaitingThreads_def WaitObject_WakeupAllWaitingThreads_def)

lemma kernel_inv_notify [simp]: "kernel_inv (notify_hle obj s) = kernel_inv s"
  by (rule kernel_inv_cong) (simp_all add: notify_hle_def)

lemma token_notify [simp]: "token (notify_hle obj s) b = token s b"
  by (rule token_cong) (simp_all add: notify_hle_def)

lemma notify_hle_fields [simp]:
  "threads (notify_hle obj s) = threads s" "waiting_threads (notify_hle obj s) = waiting_threads s"
  "kmutexes (notify_hle obj s) = kmutexes s" "ksemaphores (notify_hle obj s) = ksemaphores s"
  "kevents (notify_hle obj s) = kevents s"
  by (simp_all add: notify_hle_def)

lemma eligible_cong:
  assumes "\<And>b. token s' b = token s b" "status_of s' u = status_of s u"
    "th_wait_objects (threads s' u) = th_wait_objects (threads s u)"
  shows "eligible s' obj u = eligible s obj u"
  using assms by (simp add: eligible_def ready_to_run_def ShouldWait_token)

lemma eligible_notify [simp]: "eligible (notify_hle b s) obj u = eligible s obj u"
  by (rule eligible_cong) simp_all

lemma drained_cong:
  assumes "threads s' = threads s" "waiting_threads s' = waiting_threads s"
  shows "drained obj s' t = drained obj s t"
  using assms by (simp only: drained_def)

lemma Semaphore_Release_accepted:
  assumes inv: "kernel_inv s" and sem: "ksemaphores s m = sem"
    and ok: "sint (r + sm_available_count sem) \<le> sint (sm_max_count sem)"
  shows "\<exists>s1. Semaphore_Release m r s = Some (Inr (sm_available_count sem), notify_hle (SemaphoreObject m) s1)
    \<and> wakeup_loop (length (waiting_threads s (SemaphoreObject m))) (SemaphoreObject m)
        (s\<lparr>ksemaphores := (ksemaphores s)(m := sem\<lparr>sm_available_count := sm_available_count sem + r\<rparr>)\<rparr>) = Some s1
    \<and> kernel_inv s1 \<and> drained (SemaphoreObject m) s s1
    \<and> (\<forall>u \<in> set (waiting_threads s1 (SemaphoreObject m)). \<not> eligible s1 (SemaphoreObject m) u)"
proof -
  let ?s0 = "s\<lparr>ksemaphores := (ksemaphores s)(m := sem\<lparr>sm_available_count := sm_available_count sem + r\<rparr>)\<rparr>"
  have "kernel_inv ?s0" using inv kernel_inv_cong [of ?s0 s] by simp
  from wakeup_loop_ok [OF this order_refl, of "SemaphoreObject m"] obtain s1 where
    s1: "wakeup_loop (length (waiting_threads s (SemaphoreObject m))) (SemaphoreObject m) ?s0 = Some s1"
      "kernel_inv s1" "drained (SemaphoreObject m) ?s0 s1"
      "\<forall>u \<in> set (waiting_threads s1 (SemaphoreObject m)). \<not> eligible s1 (SemaphoreObject m) u" by auto
  have "drained (SemaphoreObject m) s s1" using s1(3) drained_cong [of ?s0 s] by simp
  moreover have "Semaphore_Release m r s = Some (Inr (sm_available_count sem), notify_hle (SemaphoreObject m) s1)"
    using finish_semaphore [of ?s0 m s1] s1(1) ok sem by (simp add: Semaphore_Release_def Let_def)
  ultimately show ?thesis using s1 by blast
qed

lemma sint_plus_small:
  fixes a b :: u32
  assumes "0 \<le> sint a" "0 \<le> sint b" "sint a + sint b < 2 ^ 31"
  shows "sint (a + b) = sint a + sint b"
  using assms by (simp add: sint_word_ariths signed_take_bit_int_eq_self_iff)

lemma sint_plus_big:
  fixes a b :: u32
  assumes "2 ^ 31 \<le> sint a + sint b"
  shows "sint (a + b) = sint a + sint b - 2 ^ 32"
proof -
  have mod: "(k + 2147483648) mod 4294967296 = k - 2147483648" if "2147483648 \<le> k" "k < 4294967296" for k :: int
  proof -
    have "(k + 2147483648) mod 4294967296 = (k - 2147483648 + 4294967296) mod 4294967296"
      by (rule arg_cong [where f = "\<lambda>x. x mod 4294967296"]) simp
    also have "\<dots> = k - 2147483648" unfolding mod_add_self2 using that by (intro mod_pos_pos_trivial) simp_all
    finally show ?thesis .
  qed
  have "sint a + sint b < 4294967296" using sint_less [of a] sint_less [of b] by simp
  with assms mod [of "sint a + sint b"] show ?thesis
    by (simp add: sint_word_ariths signed_take_bit_eq_take_bit_shift take_bit_eq_mod)
qed

text \<open>
  releasing a semaphore is refused when the count would exceed its maximum, and then nothing
  changes. Otherwise it returns the count from before, wakes threads, and gives each of them exactly
  one of the slots: the new count is the old one with the released slots, less the number of threads
  that have left the list. It is never negative, and no thread is left waiting that could have been
  let through.
\<close>

theorem Semaphore_Release_conserves:
  assumes "kernel_inv s" "ksemaphores s m = sem"
    and "0 \<le> sint (sm_available_count sem)" "0 \<le> sint r" "sint r + sint (sm_available_count sem) < 2 ^ 31"
  shows "if sint (sm_max_count sem) < sint (sm_available_count sem) + sint r
    then Semaphore_Release m r s = Some (Inl ResultOutOfRangeKernel, s)
    else \<exists>s'. Semaphore_Release m r s = Some (Inr (sm_available_count sem), s') \<and> kernel_inv s'
      \<and> drained (SemaphoreObject m) s s'
      \<and> sint (sm_available_count (ksemaphores s' m)) = sint (sm_available_count sem) + sint r
          - (int (length (waiting_threads s (SemaphoreObject m))) - int (length (waiting_threads s' (SemaphoreObject m))))
      \<and> 0 \<le> sint (sm_available_count (ksemaphores s' m))
      \<and> (\<forall>u \<in> set (waiting_threads s' (SemaphoreObject m)). \<not> eligible s' (SemaphoreObject m) u)"
proof -
  have sum: "sint (r + sm_available_count sem) = sint r + sint (sm_available_count sem)"
    using assms(3-5) by (intro sint_plus_small) simp_all
  show ?thesis
  proof (cases "sint (sm_max_count sem) < sint (sm_available_count sem) + sint r")
    case True
    then show ?thesis using sum assms(2) by (simp add: Semaphore_Release_def Let_def not_le)
  next
    case False
    let ?s0 = "s\<lparr>ksemaphores := (ksemaphores s)(m := sem\<lparr>sm_available_count := sm_available_count sem + r\<rparr>)\<rparr>"
    have "sint (r + sm_available_count sem) \<le> sint (sm_max_count sem)" using False sum by simp
    from Semaphore_Release_accepted [OF assms(1,2) this] obtain s1 where
      s1: "Semaphore_Release m r s = Some (Inr (sm_available_count sem), notify_hle (SemaphoreObject m) s1)"
        "wakeup_loop (length (waiting_threads s (SemaphoreObject m))) (SemaphoreObject m) ?s0 = Some s1"
        "kernel_inv s1" "drained (SemaphoreObject m) s s1"
        "\<forall>u \<in> set (waiting_threads s1 (SemaphoreObject m)). \<not> eligible s1 (SemaphoreObject m) u" by blast
    have "kernel_inv ?s0" using assms(1) kernel_inv_cong [of ?s0 s] by simp
    moreover have "sint (sm_available_count (ksemaphores ?s0 m)) = sint (sm_available_count sem) + sint r"
      using sum by (simp add: add.commute)
    ultimately have "sint (sm_available_count (ksemaphores s1 m)) = sint (sm_available_count sem) + sint r
          - (int (length (waiting_threads s (SemaphoreObject m))) - int (length (waiting_threads s1 (SemaphoreObject m))))
      \<and> 0 \<le> sint (sm_available_count (ksemaphores s1 m))"
      using semaphore_loop [of ?s0 _ m s1] s1(2) assms(3,4) by fastforce
    with False s1 show ?thesis
      by (simp only: if_False) (intro exI [of _ "notify_hle (SemaphoreObject m) s1"], simp add: drained_def)
  qed
qed

text \<open>
  the sum in the release check is one of 32-bit integers. A release that takes it past the
  largest of them wraps to a negative number, which is below the maximum: it is accepted, and the
  count of the semaphore is negative afterwards. Nobody is woken.
\<close>

theorem Semaphore_Release_wraps:
  assumes "kernel_inv s" "ksemaphores s m = sem"
    and "0 < sint (sm_available_count sem)" "0 < sint r" "2 ^ 31 \<le> sint r + sint (sm_available_count sem)"
    and "0 \<le> sint (sm_max_count sem)"
  shows "\<exists>s'. Semaphore_Release m r s = Some (Inr (sm_available_count sem), s')
    \<and> sint (sm_available_count (ksemaphores s' m)) = sint r + sint (sm_available_count sem) - 2 ^ 32
    \<and> sint (sm_available_count (ksemaphores s' m)) < 0
    \<and> waiting_threads s' = waiting_threads s"
proof -
  let ?s0 = "s\<lparr>ksemaphores := (ksemaphores s)(m := sem\<lparr>sm_available_count := sm_available_count sem + r\<rparr>)\<rparr>"
  have less: "sint r < 2 ^ 31" "sint (sm_available_count sem) < 2 ^ 31" using sint_less [of r] sint_less [of "sm_available_count sem"] by simp_all
  then have sum: "sint (r + sm_available_count sem) = sint r + sint (sm_available_count sem) - 2 ^ 32"
    using assms(5) by (intro sint_plus_big)
  have neg: "sint (r + sm_available_count sem) < 0" using sum less by simp
  then have "sint (r + sm_available_count sem) \<le> sint (sm_max_count sem)" using assms(6) by simp
  from Semaphore_Release_accepted [OF assms(1,2) this] obtain s1 where
    s1: "Semaphore_Release m r s = Some (Inr (sm_available_count sem), notify_hle (SemaphoreObject m) s1)"
      "wakeup_loop (length (waiting_threads s (SemaphoreObject m))) (SemaphoreObject m) ?s0 = Some s1" by blast
  have "kernel_inv ?s0" using assms(1) kernel_inv_cong [of ?s0 s] by simp
  moreover have "\<not> eligible ?s0 (SemaphoreObject m) u" for u
    using neg by (simp add: eligible_def add.commute)
  ultimately have "GetHighestPriorityReadyThread (SemaphoreObject m) ?s0 = Some None"
    using GetHighest_spec [of ?s0 "SemaphoreObject m"] by (force simp: first_best_def split: option.splits)
  then have "wakeup_loop n (SemaphoreObject m) ?s0 = Some ?s0" for n by (subst wakeup_loop.simps) simp
  with s1(2) have "s1 = ?s0" by simp
  with s1(1) sum neg show ?thesis
    by (intro exI [of _ "notify_hle (SemaphoreObject m) ?s0"]) (simp add: add.commute)
qed

section \<open>Mutexes\<close>

lemma best_waiting_cong:
  assumes "\<And>u. u \<in> set ts \<Longrightarrow> status_of s' u = status_of s u \<and> priority_of s' u = priority_of s u
      \<and> (eligible s' obj u \<longleftrightarrow> eligible s obj u)"
  shows "best_waiting s' obj c cp ts = best_waiting s obj c cp ts"
  using assms
proof (induction ts arbitrary: c cp)
  case (Cons x ts)
  have "ShouldWait s' obj x \<or> \<not> ready_to_run s' x \<longleftrightarrow> ShouldWait s obj x \<or> \<not> ready_to_run s x"
    using Cons.prems [of x] by (auto simp: eligible_def)
  with Cons.prems [of x] Cons.IH [OF Cons.prems] show ?case by simp
qed simp

lemma UpdatePriority_others: "u \<noteq> t \<Longrightarrow> priority_of (UpdatePriority t s) u = priority_of s u"
  by (simp add: UpdatePriority_def BoostPriority_def set_ready_level_def upd_thread_def upd_queue_def)

text \<open>The kernel when a mutex has been given up and nobody has been woken yet.\<close>

definition free_mutex :: "nat \<Rightarrow> Kernel \<Rightarrow> Kernel" where
  "free_mutex m s = upd_mutex m (\<lambda>x. x\<lparr>mx_lock_count := 0, mx_holding_thread := None\<rparr>) s"

lemma give_up_mutex:
  fixes t :: nat
  assumes inv: "kernel_inv s" and hold: "mx_holding_thread (kmutexes s m) = Some t"
    and run: "status_of s t = Running"
  defines "s1 \<equiv> upd_mutex m (\<lambda>x. x\<lparr>mx_holding_thread := None\<rparr>) (UpdatePriority t
      (upd_thread t (\<lambda>th. th\<lparr>th_held_mutexes := remove1 m (th_held_mutexes th)\<rparr>)
      (upd_mutex m (\<lambda>x. x\<lparr>mx_lock_count := 0\<rparr>) s)))"
  shows "kernel_inv s1" "waiting_threads s1 = waiting_threads s" "status_of s1 u = status_of s u"
    and "GetHighestPriorityReadyThread obj s1 = GetHighestPriorityReadyThread obj (free_mutex m s)"
    and "mx_lock_count (kmutexes s1 m) = 0" "mx_holding_thread (kmutexes s1 m) = None"
proof -
  let ?a = "upd_thread t (\<lambda>th. th\<lparr>th_held_mutexes := remove1 m (th_held_mutexes th)\<rparr>)
      (upd_mutex m (\<lambda>x. x\<lparr>mx_lock_count := 0\<rparr>) s)"
  obtain b where b: "UpdatePriority t ?a = b" by blast
  have bo: "boosts ?a b" unfolding b [symmetric] by (rule boosts_UpdatePriority)
  have s1: "s1 = upd_mutex m (\<lambda>x. x\<lparr>mx_holding_thread := None\<rparr>) b" by (simp add: s1_def b)
  note B = boosts_fields [OF bo]
  have t: "t < next_thread_id s" using inv hold by (simp add: kernel_inv_def mutex_inv_def)
  have "queue_inv ?a" using inv
    by (auto simp: kernel_inv_def queues_ok_def levels_ok_def upd_thread_def upd_mutex_def)
  then have "queue_inv b" unfolding b [symmetric] using t
    by (intro queue_inv_UpdatePriority) (simp_all add: upd_thread_def upd_mutex_def)
  then have q: "queue_inv s1" by (simp add: s1)
  have "wait_inv ?a" using inv by (auto simp: kernel_inv_def wait_inv_def thread_waits_def upd_thread_def upd_mutex_def)
  then have w: "wait_inv s1" using wait_inv_boosts [OF bo]
    by (simp add: s1 wait_inv_def thread_waits_def upd_mutex_def)
  have held: "distinct (th_held_mutexes (threads s t))" "sorted (th_held_mutexes (threads s t))"
    using inv by (simp_all add: kernel_inv_def mutex_inv_def)
  then have "mutex_inv s1"
    using inv hold unfolding kernel_inv_def mutex_inv_def s1 upd_mutex_def
    by (auto simp: B upd_thread_def upd_mutex_def sorted_remove1 distinct_remove1)
  with q w show "kernel_inv s1" by (simp add: kernel_inv_def)
  show ws: "waiting_threads s1 = waiting_threads s" and st: "status_of s1 u = status_of s u" for u
    by (simp_all add: s1 upd_mutex_def B) (simp_all add: upd_thread_def)
  show "mx_lock_count (kmutexes s1 m) = 0" "mx_holding_thread (kmutexes s1 m) = None"
    by (simp_all add: s1 upd_mutex_def B) (simp add: upd_thread_def)
  have nt: "u \<noteq> t" if "u \<in> set (waiting_threads s obj)" for u
    using waiting_thread(1) [OF inv that] run by auto
  have tok: "token s1 c = token (free_mutex m s) c" for c
    by (rule token_cong)
      (simp_all add: s1 free_mutex_def upd_mutex_def B, simp_all add: upd_thread_def)
  have "best_waiting s1 obj c cp (waiting_threads s obj) = best_waiting (free_mutex m s) obj c cp (waiting_threads s obj)" for c cp
  proof (rule best_waiting_cong, intro conjI)
    fix u assume u: "u \<in> set (waiting_threads s obj)"
    show "status_of s1 u = status_of (free_mutex m s) u" by (simp add: st free_mutex_def upd_mutex_def)
    show "priority_of s1 u = priority_of (free_mutex m s) u"
      using UpdatePriority_others [OF nt [OF u], of ?a] nt [OF u]
      by (simp add: b s1 upd_mutex_def [of m _ b]) (simp add: free_mutex_def upd_mutex_def upd_thread_def)
    show "eligible s1 obj u = eligible (free_mutex m s) obj u"
      using nt [OF u]
      by (intro eligible_cong tok) (simp_all add: s1 free_mutex_def upd_mutex_def B, simp_all add: upd_thread_def)
  qed
  then show "GetHighestPriorityReadyThread obj s1 = GetHighestPriorityReadyThread obj (free_mutex m s)"
    by (simp add: GetHighestPriorityReadyThread_def ws) (simp add: free_mutex_def upd_mutex_def)
qed

text \<open>
  C17: when the running holder of a mutex gives up its last lock, the mutex goes to the thread that is
  to be woken among those that wait, which is ready, waits for nothing any more and holds the mutex
  once; the others keep waiting. When there is no such thread the mutex is free. The invariant of
  queues, wait lists and mutexes is kept.
\<close>

theorem Mutex_Release_hands_over:
  assumes "kernel_inv s" "mx_holding_thread (kmutexes s m) = Some t" "mx_lock_count (kmutexes s m) = 1"
    and "status_of s t = Running"
  shows "\<exists>next s'. GetHighestPriorityReadyThread (MutexObject m) (free_mutex m s) = Some next
    \<and> Mutex_Release m t s = Some (None, s') \<and> kernel_inv s'
    \<and> (case next of
        None \<Rightarrow> mx_lock_count (kmutexes s' m) = 0 \<and> mx_holding_thread (kmutexes s' m) = None
          \<and> waiting_threads s' = waiting_threads s
      | Some u \<Rightarrow> mx_lock_count (kmutexes s' m) = 1 \<and> mx_holding_thread (kmutexes s' m) = Some u
          \<and> status_of s' u = Ready
          \<and> (\<forall>b. waiting_threads s' b = filter (\<lambda>x. x \<noteq> u) (waiting_threads s b)))"
proof -
  let ?obj = "MutexObject m"
  obtain s1 where s1: "s1 = upd_mutex m (\<lambda>x. x\<lparr>mx_holding_thread := None\<rparr>) (UpdatePriority t
      (upd_thread t (\<lambda>th. th\<lparr>th_held_mutexes := remove1 m (th_held_mutexes th)\<rparr>)
      (upd_mutex m (\<lambda>x. x\<lparr>mx_lock_count := 0\<rparr>) s)))" by blast
  note G = give_up_mutex [OF assms(1,2,4), folded s1]
  have "upd_mutex m (\<lambda>x. x\<lparr>mx_lock_count := mx_lock_count x - 1\<rparr>) s = upd_mutex m (\<lambda>x. x\<lparr>mx_lock_count := 0\<rparr>) s"
    using assms(3) by (simp add: upd_mutex_def)
  then have "Mutex_Release m t s = do { s2 \<leftarrow> WakeupAllWaitingThreads ?obj s1; Some (None, PrepareReschedule s2) }"
    using assms(2,3) by (simp add: Mutex_Release_def Let_def s1) (simp add: upd_mutex_def)
  then have rel: "Mutex_Release m t s = map_option (\<lambda>s2. (None, PrepareReschedule (notify_hle ?obj s2)))
      (wakeup_loop (length (waiting_threads s1 ?obj)) ?obj s1)"
    by (cases "wakeup_loop (length (waiting_threads s1 ?obj)) ?obj s1")
      (simp_all add: WakeupAllWaitingThreads_def WaitObject_WakeupAllWaitingThreads_def)
  have single: "single s1 ?obj" by (simp add: single_def G(5,6))
  note L = wakeup_loop_single [OF G(1) single]
  obtain c where c: "GetHighestPriorityReadyThread ?obj s1 = Some c"
    "case c of None \<Rightarrow> True | Some u \<Rightarrow> first_best s1 ?obj u"
    using GetHighest_spec [OF G(1), of ?obj] by (auto split: option.splits)
  have fin: "kernel_inv (PrepareReschedule (notify_hle ?obj s2)) = kernel_inv s2" for s2
    using kernel_inv_cong [of "PrepareReschedule (notify_hle ?obj s2)" "notify_hle ?obj s2"]
    by (simp add: PrepareReschedule_def)
  show ?thesis
  proof (cases c)
    case None
    with L c have "wakeup_loop (length (waiting_threads s1 ?obj)) ?obj s1 = Some s1" by simp
    with None c(1) G rel fin show ?thesis
      by (intro exI [of _ None] exI [of _ "PrepareReschedule (notify_hle ?obj s1)"])
        (simp add: PrepareReschedule_def)
  next
    case (Some u)
    with L c(1) obtain s2 where s2: "wake_thread ?obj u s1 = Some s2"
      "wakeup_loop (length (waiting_threads s1 ?obj)) ?obj s1 = Some s2" by blast
    have u: "u \<in> set (waiting_threads s1 ?obj)" "eligible s1 ?obj u" using c(2) Some by (auto simp: first_best_def)
    have tok: "token s2 ?obj = take_token u ?obj (token s1 ?obj)"
      using wake_thread_token [OF G(1) u s2(1), of ?obj] by (simp only: acquired_self [OF G(1) u(1)] if_True)
    have "kernel_inv s2" "status_of s2 u = Ready"
      "\<forall>b. waiting_threads s2 b = filter (\<lambda>x. x \<noteq> u) (waiting_threads s1 b)"
      using wake_thread_ok [OF G(1) u] s2(1) by auto
    with Some c(1) G rel s2(2) tok fin show ?thesis
      by (intro exI [of _ "Some u"] exI [of _ "PrepareReschedule (notify_hle ?obj s2)"])
        (simp add: PrepareReschedule_def)
  qed
qed

section \<open>Events\<close>

text \<open>
  signalling a one-shot event lets exactly one thread through, the one to be woken among those
  that wait, and consumes the signal; when no thread can be let through the event stays signalled.
\<close>

theorem Event_Signal_one_shot:
  assumes "kernel_inv s" "kv_reset_type (kevents s e) = OneShot"
  shows "\<exists>next s'. GetHighestPriorityReadyThread (EventObject e) (set_event_signaled e True s) = Some next
    \<and> Event_Signal e s = Some s' \<and> kernel_inv s'
    \<and> (case next of
        None \<Rightarrow> kv_signaled (kevents s' e) \<and> waiting_threads s' = waiting_threads s
      | Some u \<Rightarrow> \<not> kv_signaled (kevents s' e) \<and> status_of s' u = Ready
          \<and> (\<forall>b. waiting_threads s' b = filter (\<lambda>x. x \<noteq> u) (waiting_threads s b)))"
proof -
  let ?obj = "EventObject e"
  obtain s1 where s1: "set_event_signaled e True s = s1" by blast
  have inv: "kernel_inv s1" using assms(1) kernel_inv_cong [of s1 s] by (simp add: s1 [symmetric] set_event_signaled_def)
  have f: "kv_reset_type (kevents s1 e) = OneShot" "kv_signaled (kevents s1 e)" "waiting_threads s1 = waiting_threads s"
    using assms(2) by (simp_all add: s1 [symmetric] set_event_signaled_def)
  note L = wakeup_loop_single [OF inv, of ?obj]
  have single: "single s1 ?obj" by (simp add: single_def f)
  obtain c where c: "GetHighestPriorityReadyThread ?obj s1 = Some c"
    "case c of None \<Rightarrow> True | Some u \<Rightarrow> first_best s1 ?obj u"
    using GetHighest_spec [OF inv, of ?obj] by (auto split: option.splits)
  have rel: "Event_Signal e s = Some (notify_hle ?obj s2)"
    if "wakeup_loop (length (waiting_threads s1 ?obj)) ?obj s1 = Some s2" "kv_reset_type (kevents s2 e) = OneShot" for s2
    using that by (simp add: Event_Signal_def s1 WakeupAllWaitingThreads_def WaitObject_WakeupAllWaitingThreads_def)
  show ?thesis
  proof (cases c)
    case None
    with L single c have "wakeup_loop (length (waiting_threads s1 ?obj)) ?obj s1 = Some s1" by simp
    from rel [OF this f(1)] None c(1) f inv show ?thesis
      by (intro exI [of _ None] exI [of _ "notify_hle ?obj s1"]) (simp add: s1)
  next
    case (Some u)
    with L single c(1) obtain s2 where s2: "wake_thread ?obj u s1 = Some s2"
      "wakeup_loop (length (waiting_threads s1 ?obj)) ?obj s1 = Some s2" by blast
    have u: "u \<in> set (waiting_threads s1 ?obj)" "eligible s1 ?obj u" using c(2) Some by (auto simp: first_best_def)
    have "token s2 ?obj = take_token u ?obj (token s1 ?obj)"
      using wake_thread_token [OF inv u s2(1), of ?obj] by (simp only: acquired_self [OF inv u(1)] if_True)
    then have k: "kv_reset_type (kevents s2 e) = OneShot" "\<not> kv_signaled (kevents s2 e)"
      using f by (auto split: if_splits)
    have "kernel_inv s2" "status_of s2 u = Ready"
      "\<forall>b. waiting_threads s2 b = filter (\<lambda>x. x \<noteq> u) (waiting_threads s1 b)"
      using wake_thread_ok [OF inv u] s2(1) by auto
    with rel [OF s2(2) k(1)] Some c(1) k f show ?thesis
      by (intro exI [of _ "Some u"] exI [of _ "notify_hle ?obj s2"]) (simp add: s1)
  qed
qed

section \<open>Instances\<close>

text \<open>The sample with \<open>n\<close> slots in its semaphores, of which there are at most \<open>limit\<close>.\<close>

definition sample_slots :: "u32 \<Rightarrow> u32 \<Rightarrow> Kernel" where
  "sample_slots limit n = sample_kernel\<lparr>ksemaphores := (\<lambda>_. \<lparr>sm_max_count = limit, sm_available_count = n\<rparr>)\<rparr>"

lemma sample_slots_inv: "kernel_inv (sample_slots limit n)"
  using sample_kernel_inv kernel_inv_cong [of "sample_slots limit n" sample_kernel] by (simp add: sample_slots_def)

lemma sample_waiting_semaphore: "waiting_threads (sample_slots limit n) (SemaphoreObject 0) = [1, 2]"
  by (simp add: sample_slots_def sample_defs)

lemma GetHighestPriorityReadyThread_best_witness:
  "GetHighestPriorityReadyThread (SemaphoreObject 0) (sample_slots 5 1) = Some (Some 1)
    \<and> eligible (sample_slots 5 1) (SemaphoreObject 0) 1"
proof -
  have g: "GetHighestPriorityReadyThread (SemaphoreObject 0) (sample_slots 5 1) = Some (Some 1)"
    by (simp add: GetHighestPriorityReadyThread_def sample_slots_def sample_defs ready_to_run_def)
  with GetHighestPriorityReadyThread_best [OF sample_slots_inv [of 5 1], of "SemaphoreObject 0"]
  show ?thesis by simp
qed

lemma WakeupAllWaitingThreads_drains_witness:
  "\<exists>s'. WakeupAllWaitingThreads (SemaphoreObject 0) (sample_slots 5 1) = Some s' \<and> kernel_inv s'
    \<and> drained (SemaphoreObject 0) (sample_slots 5 1) s'"
  using WakeupAllWaitingThreads_drains [OF sample_slots_inv [of 5 1], of "SemaphoreObject 0"] by blast

lemma Semaphore_Release_conserves_witness:
  "\<exists>s'. Semaphore_Release 0 2 (sample_slots 5 1) = Some (Inr 1, s') \<and> kernel_inv s'
    \<and> sint (sm_available_count (ksemaphores s' 0)) = 3 - (2 - int (length (waiting_threads s' (SemaphoreObject 0))))"
  using Semaphore_Release_conserves [OF sample_slots_inv [of 5 1], of 0 "\<lparr>sm_max_count = 5, sm_available_count = 1\<rparr>" 2]
  by (simp add: sample_waiting_semaphore) (auto simp: sample_slots_def)

lemma Semaphore_Release_wraps_witness:
  "\<exists>s'. Semaphore_Release 0 0x7FFFFFFF (sample_slots 5 1) = Some (Inr 1, s')
    \<and> sint (sm_available_count (ksemaphores s' 0)) = - (2 ^ 31)"
  using Semaphore_Release_wraps [OF sample_slots_inv [of 5 1], of 0 "\<lparr>sm_max_count = 5, sm_available_count = 1\<rparr>" "0x7FFFFFFF"]
  by (auto simp: sample_slots_def)

lemma Mutex_Release_hands_over_witness:
  "\<exists>s'. Mutex_Release 0 0 sample_kernel = Some (None, s') \<and> kernel_inv s'
    \<and> mx_holding_thread (kmutexes s' 0) = Some 1 \<and> status_of s' 1 = Ready"
proof -
  have "mx_holding_thread (kmutexes sample_kernel 0) = Some 0" "mx_lock_count (kmutexes sample_kernel 0) = 1"
    "status_of sample_kernel 0 = Running" by (simp_all add: sample_defs)
  from Mutex_Release_hands_over [OF sample_kernel_inv this] obtain "next" s' where
    r: "GetHighestPriorityReadyThread (MutexObject 0) (free_mutex 0 sample_kernel) = Some next"
      "Mutex_Release 0 0 sample_kernel = Some (None, s')" "kernel_inv s'"
      "case next of None \<Rightarrow> True
        | Some u \<Rightarrow> mx_holding_thread (kmutexes s' 0) = Some u \<and> status_of s' u = Ready"
    by (auto split: option.splits)
  moreover have "GetHighestPriorityReadyThread (MutexObject 0) (free_mutex 0 sample_kernel) = Some (Some 1)"
    by (simp add: GetHighestPriorityReadyThread_def free_mutex_def upd_mutex_def sample_defs ready_to_run_def)
  ultimately show ?thesis by auto
qed

lemma Event_Signal_one_shot_witness:
  "\<exists>s'. Event_Signal 0 (sample_slots 5 1) = Some s' \<and> \<not> kv_signaled (kevents s' 0) \<and> status_of s' 2 = Ready"
proof -
  have "kv_reset_type (kevents (sample_slots 5 1) 0) = OneShot" by (simp add: sample_slots_def sample_defs)
  from Event_Signal_one_shot [OF sample_slots_inv this] obtain "next" s' where
    r: "GetHighestPriorityReadyThread (EventObject 0) (set_event_signaled 0 True (sample_slots 5 1)) = Some next"
      "Event_Signal 0 (sample_slots 5 1) = Some s'"
      "case next of None \<Rightarrow> True | Some u \<Rightarrow> \<not> kv_signaled (kevents s' 0) \<and> status_of s' u = Ready"
    by (auto split: option.splits)
  moreover have "GetHighestPriorityReadyThread (EventObject 0) (set_event_signaled 0 True (sample_slots 5 1)) = Some (Some 2)"
    by (simp add: GetHighestPriorityReadyThread_def set_event_signaled_def sample_slots_def sample_defs ready_to_run_def)
  ultimately show ?thesis by auto
qed

end
