(* ===== verification/WaitProps.thy ===== *)
theory WaitProps imports Tokens KernelSample begin

text \<open>
  Going to sleep: what \<open>WaitSynchronizationN\<close> does with all its objects at once, and that it puts the
  thread where the wake-ups look for it.
\<close>

section \<open>Joining the wait lists\<close>

definition with_waiter :: "nat \<Rightarrow> nat list \<Rightarrow> nat list" where
  "with_waiter t ts = (if t \<in> set ts then ts else ts @ [t])"

lemma AddWaitingThread_boosts:
  "boosts (set_waiting obj (with_waiter t (waiting_threads s obj)) s) (AddWaitingThread obj t s)"
proof (cases obj)
  case (MutexObject m)
  let ?s1 = "set_waiting obj (with_waiter t (waiting_threads s obj)) s"
  let ?s2 = "upd_thread t (\<lambda>th. th\<lparr>th_pending_mutexes := insort_insert m (th_pending_mutexes th)\<rparr>) ?s1"
  have "boosts ?s1 ?s2" unfolding upd_thread_def by (rule boosts_thread) simp
  moreover have "AddWaitingThread obj t s = Mutex_UpdatePriority m ?s2"
    using MutexObject by (simp add: AddWaitingThread_def WaitObject_AddWaitingThread_def with_waiter_def set_waiting_def)
  ultimately show ?thesis using boosts_Mutex_UpdatePriority [of ?s2 m] by (simp add: boosts_trans)
qed (simp_all add: AddWaitingThread_def WaitObject_AddWaitingThread_def with_waiter_def set_waiting_def)

lemma set_waiting_inv:
  assumes "queue_inv s" "mutex_inv s"
  shows "queue_inv (set_waiting obj ts s)" "mutex_inv (set_waiting obj ts s)"
  using assms queues_ok_cong [of "set_waiting obj ts s" s] mutex_inv_cong [of "set_waiting obj ts s" s]
  by (simp_all add: set_waiting_def)

lemma AddWaitingThread_inv:
  assumes "queue_inv s" "mutex_inv s"
  shows "queue_inv (AddWaitingThread obj t s)" "mutex_inv (AddWaitingThread obj t s)"
proof -
  let ?s1 = "set_waiting obj (with_waiter t (waiting_threads s obj)) s"
  note I = set_waiting_inv [OF assms, of obj "with_waiter t (waiting_threads s obj)"]
  show "mutex_inv (AddWaitingThread obj t s)" using I(2) mutex_inv_boosts [OF AddWaitingThread_boosts] by blast
  show "queue_inv (AddWaitingThread obj t s)"
  proof (cases obj)
    case (MutexObject m)
    let ?s2 = "upd_thread t (\<lambda>th. th\<lparr>th_pending_mutexes := insort_insert m (th_pending_mutexes th)\<rparr>) ?s1"
    have "queue_inv ?s2" using I(1) by (auto simp: queues_ok_def levels_ok_def upd_thread_def)
    moreover have "mutex_inv ?s2" using I(2) mutex_inv_cong [of ?s2 ?s1] by (simp add: upd_thread_def)
    ultimately have "queue_inv (Mutex_UpdatePriority m ?s2)" by (rule queue_inv_Mutex_UpdatePriority)
    moreover have "AddWaitingThread obj t s = Mutex_UpdatePriority m ?s2"
      using MutexObject by (simp add: AddWaitingThread_def WaitObject_AddWaitingThread_def with_waiter_def set_waiting_def)
    ultimately show ?thesis by simp
  qed (use I(1) assms in \<open>simp_all add: AddWaitingThread_def WaitObject_AddWaitingThread_def with_waiter_def split: if_splits\<close>)
qed

lemma add_all:
  fixes t :: nat and objs :: "WaitObject list"
  shows "queue_inv s \<Longrightarrow> mutex_inv s \<Longrightarrow>
    queue_inv (fold (\<lambda>obj. AddWaitingThread obj t) objs s) \<and> mutex_inv (fold (\<lambda>obj. AddWaitingThread obj t) objs s)
    \<and> boosts (s\<lparr>waiting_threads := \<lambda>obj. if obj \<in> set objs then with_waiter t (waiting_threads s obj)
        else waiting_threads s obj\<rparr>) (fold (\<lambda>obj. AddWaitingThread obj t) objs s)"
proof (induction objs arbitrary: s)
  case (Cons b objs)
  let ?s1 = "AddWaitingThread b t s"
  have b: "boosts (set_waiting b (with_waiter t (waiting_threads s b)) s) ?s1" by (rule AddWaitingThread_boosts)
  have w: "waiting_threads ?s1 = (waiting_threads s)(b := with_waiter t (waiting_threads s b))"
    using boosts_fields [OF b] by (simp add: set_waiting_def)
  note IH = Cons.IH [OF AddWaitingThread_inv [OF Cons.prems, of b t]]
  have "boosts (s\<lparr>waiting_threads := W\<rparr>) (?s1\<lparr>waiting_threads := W\<rparr>)" for W
    using boosts_waiting [OF b, of W] by (simp add: set_waiting_def)
  moreover have "(\<lambda>obj. if obj \<in> set objs then with_waiter t (waiting_threads ?s1 obj) else waiting_threads ?s1 obj)
      = (\<lambda>obj. if obj \<in> set (b # objs) then with_waiter t (waiting_threads s obj) else waiting_threads s obj)"
    by (auto simp: w fun_eq_iff with_waiter_def)
  ultimately show ?case using IH by (auto intro: boosts_trans)
qed (simp add: boosts_def)

section \<open>Falling asleep\<close>

lemma ScheduleEvent_Some:
  assumes "current_timer s < length (timers s)"
  shows "\<exists>ts. ScheduleEvent cycles ty data None False s = Some (s\<lparr>timers := ts\<rparr>)"
  using assms by (auto simp: ScheduleEvent_def Let_def upd_timer_def intro: exI [of _ "timers s"])

lemma WakeAfterDelay_Some:
  assumes "current_timer s < length (timers s)"
  shows "\<exists>ts. WakeAfterDelay t ns False s = Some (s\<lparr>timers := ts\<rparr>)"
  using ScheduleEvent_Some [OF assms] by (auto simp: WakeAfterDelay_def Let_def intro: exI [of _ "timers s"])

lemma wait_for_objects_ok:
  assumes inv: "kernel_inv s" and t: "t < next_thread_id s" and run: "status_of s t = Running"
    and timer: "current_timer s < length (timers s)"
    and st: "status \<in> {WaitSynchAny, WaitSynchAll}" and dist: "status = WaitSynchAll \<Longrightarrow> distinct objs"
  shows "\<exists>s'. wait_for_objects t objs status do_output ns s = Some s' \<and> kernel_inv s'
    \<and> status_of s' t = status \<and> th_wait_objects (threads s' t) = objs
    \<and> th_wakeup_callback (threads s' t) = Some (SyncCallback do_output)
    \<and> (\<forall>obj. waiting_threads s' obj = waiting_threads s obj @ (if obj \<in> set objs then [t] else []))
    \<and> (\<forall>b. token s' b = token s b) \<and> reschedule_pending s'"
proof -
  let ?s0 = "upd_thread t (\<lambda>th. th\<lparr>th_status := status\<rparr>) s"
  obtain s1 where s1: "fold (\<lambda>obj. AddWaitingThread obj t) objs ?s0 = s1" by blast
  have sub: "queue_inv s" "wait_inv s" "mutex_inv s" using inv by (simp_all add: kernel_inv_def)
  have q0: "queue_inv ?s0" using sub(1) run st by (auto simp: queues_ok_def levels_ok_def upd_thread_def)
  have m0: "mutex_inv ?s0" using sub(3) mutex_inv_cong [of ?s0 s] by (simp add: upd_thread_def)
  have nobj: "th_wait_objects (threads s t) = []"
    using sub(2) run by (auto simp: wait_inv_def thread_waits_def)
  have nw: "t \<notin> set (waiting_threads s obj)" for obj
    using sub(2) nobj by (simp add: wait_inv_def)
  let ?W = "\<lambda>obj. waiting_threads s obj @ (if obj \<in> set objs then [t] else [])"
  have "(\<lambda>obj. if obj \<in> set objs then with_waiter t (waiting_threads ?s0 obj) else waiting_threads ?s0 obj) = ?W"
    using nw by (auto simp: with_waiter_def upd_thread_def fun_eq_iff)
  with add_all [OF q0 m0, of t objs] have a: "queue_inv s1" "mutex_inv s1" "boosts (?s0\<lparr>waiting_threads := ?W\<rparr>) s1"
    by (simp_all add: s1)
  note B = boosts_fields [OF a(3), simplified]
  let ?s2 = "upd_thread t (\<lambda>th. th\<lparr>th_wait_objects := objs\<rparr>) s1"
  have "timers s1 = timers s \<and> current_timer s1 = current_timer s"
  proof -
    have "timers (erase s1) = timers (erase (?s0\<lparr>waiting_threads := ?W\<rparr>))
        \<and> current_timer (erase s1) = current_timer (erase (?s0\<lparr>waiting_threads := ?W\<rparr>))"
      using a(3) by (simp only: boosts_def simp_thms)
    then show ?thesis by (simp add: erase_def upd_thread_def)
  qed
  then have "current_timer ?s2 < length (timers ?s2)" using timer by (simp add: upd_thread_def)
  from WakeAfterDelay_Some [OF this] obtain ts where ts: "WakeAfterDelay t ns False ?s2 = Some (?s2\<lparr>timers := ts\<rparr>)" ..
  let ?th = "(threads s1 t)\<lparr>th_wait_objects := objs, th_wakeup_callback := Some (SyncCallback do_output)\<rparr>"
  obtain s' where s': "s' = PrepareReschedule (upd_thread t (\<lambda>th. th\<lparr>th_wakeup_callback := Some (SyncCallback do_output)\<rparr>)
      (?s2\<lparr>timers := ts\<rparr>))" by blast
  have res: "wait_for_objects t objs status do_output ns s = Some s'"
    using ts by (simp add: wait_for_objects_def go_to_sleep_def s1 s')
  have th: "threads s' = (threads s1)(t := ?th)" and f: "waiting_threads s' = waiting_threads s1" "kmutexes s' = kmutexes s1"
    "managers s' = managers s1" "next_thread_id s' = next_thread_id s1" "ksemaphores s' = ksemaphores s1"
    "kevents s' = kevents s1" "ktimers s' = ktimers s1"
    by (simp_all add: s' PrepareReschedule_def upd_thread_def)
  have tf: "status_of s1 u = (if u = t then status else status_of s u)"
    "th_wait_objects (threads s1 u) = th_wait_objects (threads s u)"
    "th_wakeup_callback (threads s1 u) = th_wakeup_callback (threads s u)"
    "waiting_threads s1 = ?W" "next_thread_id s1 = next_thread_id s" for u
    by (simp_all add: B upd_thread_def)
  have "queue_inv s'" using a(1) by (auto simp: queues_ok_def levels_ok_def th f)
  moreover have "mutex_inv s'" using a(2) mutex_inv_cong [of s' s1] by (simp add: th f)
  moreover have "wait_inv s'"
    unfolding wait_inv_def
  proof (intro conjI allI)
    fix obj u
    show "distinct (waiting_threads s' obj)" using sub(2) nw by (simp add: f tf wait_inv_def)
    show "u \<in> set (waiting_threads s' obj) \<longleftrightarrow> obj \<in> set (th_wait_objects (threads s' u))"
      using sub(2) nw by (cases "u = t") (auto simp: f tf th wait_inv_def)
    show "thread_waits s' u"
      using sub(2) st dist t by (cases "u = t") (auto simp: thread_waits_def th f tf wait_inv_def)
  qed
  moreover have "token s' b = token s b" for b
    using st run by (intro token_cong) (auto simp: th f tf B upd_thread_def)
  moreover have "status_of s' t = status" "th_wait_objects (threads s' t) = objs"
    "th_wakeup_callback (threads s' t) = Some (SyncCallback do_output)" "waiting_threads s' = ?W"
    by (simp_all add: th f tf)
  moreover have "reschedule_pending s'" by (simp add: s' PrepareReschedule_def)
  ultimately show ?thesis using res unfolding kernel_inv_def by (intro exI [of _ s'] conjI allI) simp_all
qed

section \<open>Waiting for all\<close>

lemma Acquire_all_waiting:
  assumes "kernel_inv s" "t < next_thread_id s" "distinct objs" "\<forall>b \<in> set objs. \<not> ShouldWait s b t"
  shows "\<exists>s'. for_each (\<lambda>b. Acquire b t) objs s = Some s' \<and> kernel_inv s' \<and> same_sleepers s s'
    \<and> (\<forall>b. token s' b = (if b \<in> set objs then take_token t b (token s b) else token s b))"
  using Acquire_all_ok [OF assms] Acquire_all_token [OF assms] by blast

text \<open>
  C19: waiting for all of several different objects is all or nothing. When every one of them lets the
  thread through, each gives what it has to give, nothing else changes hands and the thread goes on.
  Otherwise nothing is taken from any object: without a timeout to wait for the kernel is unchanged,
  and else the thread is asleep and the last in the wait list of exactly these objects. The
  invariant of queues, wait lists and mutexes is kept.
\<close>

theorem WaitSynchronizationN_all_or_nothing:
  assumes "kernel_inv s" "current_thread (managers s (current_cpu s)) = Some t" "t < next_thread_id s"
    and "status_of s t = Running" "current_timer s < length (timers s)" "distinct objs" "0 \<le> n"
  shows "if \<forall>obj \<in> set objs. \<not> ShouldWait s obj t
    then \<exists>s'. WaitSynchronizationN True n (map Some objs) True ns s = Some (None, None, s') \<and> kernel_inv s'
      \<and> same_sleepers s s'
      \<and> (\<forall>b. token s' b = (if b \<in> set objs then take_token t b (token s b) else token s b))
    else if ns = 0 then WaitSynchronizationN True n (map Some objs) True ns s = Some (Some ResultTimeout, None, s)
    else \<exists>s'. WaitSynchronizationN True n (map Some objs) True ns s = Some (Some ResultTimeout, Some (- 1), s')
      \<and> kernel_inv s' \<and> status_of s' t = WaitSynchAll \<and> th_wait_objects (threads s' t) = objs
      \<and> (\<forall>obj. waiting_threads s' obj = waiting_threads s obj @ (if obj \<in> set objs then [t] else []))
      \<and> (\<forall>b. token s' b = token s b)"
proof -
  have step: "WaitSynchronizationN True n (map Some objs) True ns s =
     (if \<forall>obj \<in> set objs. \<not> ShouldWait s obj t
      then map_option (\<lambda>s'. (None, None, s')) (for_each (\<lambda>obj. Acquire obj t) objs s)
      else if ns = 0 then Some (Some ResultTimeout, None, s)
      else map_option (\<lambda>s'. (Some ResultTimeout, Some (- 1), s')) (wait_for_objects t objs WaitSynchAll False ns s))"
    using assms(2,7) by (simp add: WaitSynchronizationN_def Let_def o_def)
  show ?thesis
  proof (cases "\<forall>obj \<in> set objs. \<not> ShouldWait s obj t")
    case True
    from Acquire_all_waiting [OF assms(1,3,6) True] obtain s' where
      "for_each (\<lambda>b. Acquire b t) objs s = Some s'" "kernel_inv s'" "same_sleepers s s'"
      "\<forall>b. token s' b = (if b \<in> set objs then take_token t b (token s b) else token s b)" by blast
    then show ?thesis unfolding step by (simp only: if_P [OF True] option.map) blast
  next
    case False
    from wait_for_objects_ok [OF assms(1,3,4,5), of WaitSynchAll objs False ns] assms(6) obtain s' where
      "wait_for_objects t objs WaitSynchAll False ns s = Some s'" "kernel_inv s'" "status_of s' t = WaitSynchAll"
      "th_wait_objects (threads s' t) = objs" "\<forall>b. token s' b = token s b"
      "\<forall>obj. waiting_threads s' obj = waiting_threads s obj @ (if obj \<in> set objs then [t] else [])" by auto
    then show ?thesis unfolding step by (simp only: if_not_P [OF False] option.map) (cases "ns = 0"; simp)
  qed
qed

lemma for_each_append: "for_each f (xs @ ys) s = do { s1 \<leftarrow> for_each f xs s; for_each f ys s1 }"
  by (induction xs arbitrary: s) (simp_all split: bind_split)

text \<open>Acquiring never signals an event and does not change its kind.\<close>

lemma Acquire_event:
  assumes "Acquire obj t s = Some s1"
  shows "kv_reset_type (kevents s1 e) = kv_reset_type (kevents s e)"
    and "\<not> kv_signaled (kevents s e) \<Longrightarrow> \<not> kv_signaled (kevents s1 e)"
proof -
  have "kv_reset_type (kevents s1 e) = kv_reset_type (kevents s e)
      \<and> (\<not> kv_signaled (kevents s e) \<longrightarrow> \<not> kv_signaled (kevents s1 e))"
  proof (cases obj)
    case (MutexObject m)
    with assms show ?thesis
      by (auto simp: Mutex_Acquire_def Let_def PrepareReschedule_def upd_mutex_def upd_thread_def
          boosts_fields(18) [OF boosts_UpdatePriority] split: if_splits)
  qed (use assms in \<open>auto simp: Thread_Acquire_def Semaphore_Acquire_def Event_Acquire_def Timer_Acquire_def
      set_event_signaled_def set_timer_signaled_def split: if_splits\<close>)
  then show "kv_reset_type (kevents s1 e) = kv_reset_type (kevents s e)"
    "\<not> kv_signaled (kevents s e) \<Longrightarrow> \<not> kv_signaled (kevents s1 e)" by blast+
qed

lemma Acquire_all_reset_type:
  "for_each (\<lambda>b. Acquire b t) objs s = Some s1 \<Longrightarrow> kv_reset_type (kevents s1 e) = kv_reset_type (kevents s e)"
proof (induction objs arbitrary: s)
  case (Cons b objs)
  then obtain s2 where "Acquire b t s = Some s2" "for_each (\<lambda>b. Acquire b t) objs s2 = Some s1"
    by (auto simp: bind_eq_Some_conv)
  with Cons.IH show ?case by (metis Acquire_event(1))
qed simp

lemma for_each_unsignaled:
  "\<not> kv_signaled (kevents s e) \<Longrightarrow> EventObject e \<in> set objs \<Longrightarrow> for_each (\<lambda>b. Acquire b t) objs s = None"
proof (induction objs arbitrary: s)
  case (Cons b objs)
  show ?case
  proof (cases "b = EventObject e")
    case True
    with Cons.prems(1) show ?thesis by (simp add: Event_Acquire_def)
  next
    case False
    with Cons.prems have "EventObject e \<in> set objs" by simp
    then have "for_each (\<lambda>b. Acquire b t) objs s1 = None" if "Acquire b t s = Some s1" for s1
      using Cons.IH Acquire_event(2) [OF that Cons.prems(1)] by blast
    then show ?thesis by (cases "Acquire b t s") simp_all
  qed
qed simp

text \<open>
  when a one-shot event stands twice in the list of a wait for all, whatever else is in the list,
  and every object of the list is available, then the check passes for both places and the second
  acquisition of the event fails its assertion.
\<close>

theorem WaitSynchronizationN_same_event_twice:
  assumes "current_thread (managers s (current_cpu s)) = Some t" "0 \<le> n"
    and "kv_reset_type (kevents s e) = OneShot" "objs = xs @ EventObject e # ys @ EventObject e # zs"
    and "\<forall>obj \<in> set objs. \<not> ShouldWait s obj t"
  shows "WaitSynchronizationN True n (map Some objs) True ns s = None"
proof -
  have "for_each (\<lambda>b. Acquire b t) (EventObject e # ys @ EventObject e # zs) s1 = None"
    if "kv_reset_type (kevents s1 e) = OneShot" for s1
  proof (cases "kv_signaled (kevents s1 e)")
    case True
    have "for_each (\<lambda>b. Acquire b t) (ys @ EventObject e # zs) (set_event_signaled e False s1) = None"
      by (rule for_each_unsignaled [of _ e]) (simp_all add: set_event_signaled_def)
    then show ?thesis using True that by (simp add: Event_Acquire_def)
  qed (rule for_each_unsignaled [of _ e]; simp)
  then have "for_each (\<lambda>b. Acquire b t) objs s = None"
    using assms(3) Acquire_all_reset_type [of t xs s _ e]
    by (cases "for_each (\<lambda>b. Acquire b t) xs s") (simp_all only: assms(4) for_each_append bind.bind_lzero bind.bind_lunit)
  then show ?thesis using assms(1,2,5) by (simp add: WaitSynchronizationN_def Let_def o_def)
qed

lemma WaitSynchronizationN_same_event_twice_witness:
  "WaitSynchronizationN True 2 [Some (EventObject 0), Some (EventObject 0)] True 5 (set_event_signaled 0 True sample_kernel) = None"
proof -
  let ?s = "set_event_signaled 0 True sample_kernel"
  have h: "current_thread (managers ?s (current_cpu ?s)) = Some 0" "(0 :: int) \<le> 2" "kv_reset_type (kevents ?s 0) = OneShot"
    "[EventObject 0, EventObject 0] = [] @ EventObject 0 # [] @ EventObject 0 # []"
    "\<forall>obj \<in> set [EventObject 0, EventObject 0]. \<not> ShouldWait ?s obj 0"
    by (simp_all add: set_event_signaled_def sample_defs)
  from WaitSynchronizationN_same_event_twice [OF h, of 5] show ?thesis by simp
qed

lemma WaitSynchronizationN_all_or_nothing_witness:
  "\<exists>s'. WaitSynchronizationN True 2 [Some (SemaphoreObject 0), Some (EventObject 1)] True 5 sample_kernel
      = Some (Some ResultTimeout, Some (- 1), s')
    \<and> kernel_inv s' \<and> waiting_threads s' (SemaphoreObject 0) = [1, 2, 0]"
proof -
  have h: "current_thread (managers sample_kernel (current_cpu sample_kernel)) = Some 0" "0 < next_thread_id sample_kernel"
    "status_of sample_kernel 0 = Running" "current_timer sample_kernel < length (timers sample_kernel)"
    "distinct [SemaphoreObject 0, EventObject 1]" "(0 :: int) \<le> 2" "(5 :: u64) \<noteq> 0"
    "\<not> (\<forall>obj \<in> set [SemaphoreObject 0, EventObject 1]. \<not> ShouldWait sample_kernel obj 0)"
    "waiting_threads sample_kernel (SemaphoreObject 0) = [1, 2]"
    by (simp_all add: sample_defs)
  from WaitSynchronizationN_all_or_nothing [OF sample_kernel_inv h(1-6), of 5, unfolded if_not_P [OF h(8)] if_not_P [OF h(7)]]
  show ?thesis by (auto simp: h(9))
qed

end
