(* ===== verification/AddressArbiter.thy ===== *)
theory AddressArbiter imports Scheduler begin

text \<open>
  The address arbiter of src/core/hle/kernel/address_arbiter.cpp, on the kernel's threads and the
  emulated memory. An arbiter's list holds the threads that wait, in the order of their arrival.
\<close>

datatype ArbitrationType =
    ArbSignal | WaitIfLessThan | DecrementAndWaitIfLessThan | WaitIfLessThanWithTimeout
  | DecrementAndWaitIfLessThanWithTimeout | UnknownArbitration

definition set_arbiter :: "nat \<Rightarrow> nat list \<Rightarrow> Kernel \<Rightarrow> Kernel" where
  "set_arbiter a ts s = s\<lparr>arbiters := (arbiters s)(a := ts)\<rparr>"

definition WaitThread :: "nat \<Rightarrow> nat \<Rightarrow> u32 \<Rightarrow> Kernel \<Rightarrow> Kernel" where
  "WaitThread a t wait_address s =
     set_arbiter a (arbiters s a @ [t])
       (upd_thread t (\<lambda>th. th\<lparr>th_wait_address := wait_address, th_status := WaitArb\<rparr>) s)"

text \<open>The stable partition by address: the threads that wait elsewhere, then those that wait here.\<close>

definition partition_waiting :: "nat \<Rightarrow> u32 \<Rightarrow> Kernel \<Rightarrow> (nat list \<times> nat list) option" where
  "partition_waiting a address s =
     (if \<exists>t \<in> set (arbiters s a). status_of s t \<noteq> WaitArb then None
      else Some (filter (\<lambda>t. th_wait_address (threads s t) \<noteq> address) (arbiters s a),
                 filter (\<lambda>t. th_wait_address (threads s t) = address) (arbiters s a)))"

definition ResumeAllThreads :: "nat \<Rightarrow> u32 \<Rightarrow> Kernel \<Rightarrow> (nat \<times> Kernel) option" where
  "ResumeAllThreads a address s = do {
     (others, here) \<leftarrow> partition_waiting a address s;
     s1 \<leftarrow> for_each ResumeFromWait here s;
     Some (length here, set_arbiter a others s1) }"

text \<open>The first of the elements with the least key.\<close>

fun min_element :: "('b \<Rightarrow> nat) \<Rightarrow> 'b list \<Rightarrow> 'b option" where
  "min_element f [] = None"
| "min_element f (x # xs) =
     (case min_element f xs of None \<Rightarrow> Some x | Some y \<Rightarrow> if f y < f x then Some y else Some x)"

definition ResumeHighestPriorityThread :: "nat \<Rightarrow> u32 \<Rightarrow> Kernel \<Rightarrow> (bool \<times> Kernel) option" where
  "ResumeHighestPriorityThread a address s = do {
     (others, here) \<leftarrow> partition_waiting a address s;
     case min_element (priority_of s) here of
       None \<Rightarrow> Some (False, set_arbiter a (others @ here) s)
     | Some t \<Rightarrow> do {
         s1 \<leftarrow> ResumeFromWait t s;
         Some (True, set_arbiter a (others @ remove1 t here) s1) } }"

fun resume_threads :: "nat \<Rightarrow> nat \<Rightarrow> u32 \<Rightarrow> nat \<Rightarrow> Kernel \<Rightarrow> (nat \<times> Kernel) option" where
  "resume_threads a 0 address num s = Some (num, s)"
| "resume_threads a (Suc n) address num s = do {
     (woken, s1) \<leftarrow> ResumeHighestPriorityThread a address s;
     resume_threads a n address (if woken then num + 1 else num) s1 }"

definition signal_address :: "nat \<Rightarrow> nat \<Rightarrow> u32 \<Rightarrow> u32 \<Rightarrow> Kernel \<Rightarrow> Kernel option" where
  "signal_address a t address value s = do {
     (num_threads, s1) \<leftarrow> (if sint value < 0 then ResumeAllThreads a address s
                           else resume_threads a (nat (sint value)) address 0 s);
     Some (if num_threads = 0 \<and> 49 \<le> priority_of s1 t
           then upd_timer (current_cpu s1) (AddTicks (scaled_ticks s1) 1614) s1 else s1) }"

definition sleep_timeout :: "nat \<Rightarrow> nat \<Rightarrow> u64 \<Rightarrow> Kernel \<Rightarrow> Kernel option" where
  "sleep_timeout a t ns s =
     WakeAfterDelay t ns False (upd_thread t (\<lambda>th. th\<lparr>th_wakeup_callback := Some (ArbiterCallback a)\<rparr>) s)"

text \<open>The arbitration reads and writes the current process's memory.\<close>

definition ArbitrateAddress ::
  "Devices \<Rightarrow> nat \<Rightarrow> nat \<Rightarrow> ArbitrationType \<Rightarrow> u32 \<Rightarrow> u32 \<Rightarrow> u64 \<Rightarrow> MemorySystem \<Rightarrow> Kernel
     \<Rightarrow> (result_code option \<times> MemorySystem \<times> Kernel) option" where
  "ArbitrateAddress D a t type address value ns m s =
     (case type of
        ArbSignal \<Rightarrow> map_option (\<lambda>s'. (None, m, s')) (signal_address a t address value s)
      | WaitIfLessThan \<Rightarrow> do {
          (v, m1) \<leftarrow> Read32 D m address;
          Some (None, m1, if sint v < sint value then WaitThread a t address s else s) }
      | WaitIfLessThanWithTimeout \<Rightarrow> do {
          (v, m1) \<leftarrow> Read32 D m address;
          if sint v < sint value
          then map_option (\<lambda>s'. (Some ResultTimeout, m1, WaitThread a t address s')) (sleep_timeout a t ns s)
          else Some (Some ResultTimeout, m1, s) }
      | DecrementAndWaitIfLessThan \<Rightarrow> do {
          (v, m1) \<leftarrow> Read32 D m address;
          if sint v < sint value
          then map_option (\<lambda>m2. (None, m2, WaitThread a t address s)) (Write32 D m1 address (v - 1))
          else Some (None, m1, s) }
      | DecrementAndWaitIfLessThanWithTimeout \<Rightarrow> do {
          (v, m1) \<leftarrow> Read32 D m address;
          if sint v < sint value
          then do {
            m2 \<leftarrow> Write32 D m1 address (v - 1);
            s1 \<leftarrow> sleep_timeout a t ns s;
            Some (Some ResultTimeout, m2, WaitThread a t address s1) }
          else Some (Some ResultTimeout, m1, s) }
      | UnknownArbitration \<Rightarrow> Some (Some ResultInvalidEnumValueFnd, m, s))"

end
