(* ===== verification/ArbiterProps.thy ===== *)
theory ArbiterProps imports AddressArbiter KernelSample begin

text \<open>
  Signalling an address: how many of the threads that wait there are woken, and which.
\<close>

text \<open>The threads of an arbiter wait at an address, once, and for no object.\<close>

definition arb_inv :: "nat \<Rightarrow> Kernel \<Rightarrow> bool" where
  "arb_inv a s \<longleftrightarrow> distinct (arbiters s a)
     \<and> (\<forall>t \<in> set (arbiters s a). status_of s t = WaitArb \<and> th_wait_objects (threads s t) = [] \<and> t < next_thread_id s)"

definition at_address :: "nat \<Rightarrow> u32 \<Rightarrow> Kernel \<Rightarrow> nat set" where
  "at_address a address s = {t \<in> set (arbiters s a). th_wait_address (threads s t) = address}"

lemma min_element_spec:
  "xs \<noteq> [] \<Longrightarrow> \<exists>x. min_element f xs = Some x \<and> x \<in> set xs \<and> (\<forall>y \<in> set xs. f x \<le> f y)"
  by (induction f xs rule: min_element.induct) (fastforce split: option.split)+

lemma min_element_empty: "min_element f xs = None \<longleftrightarrow> xs = []"
  by (cases xs) (auto split: option.split)

lemma ResumeFromWait_arbiters: "ResumeFromWait t s = Some s' \<Longrightarrow> arbiters s' = arbiters s"
  by (auto simp: ResumeFromWait_def PrepareReschedule_def upd_thread_def upd_queue_def
      split: if_splits ThreadStatus.splits)

lemma kernel_inv_set_arbiter [simp]: "kernel_inv (set_arbiter a ts s) = kernel_inv s"
  by (rule kernel_inv_cong) (simp_all add: set_arbiter_def)

lemma set_arbiter_fields [simp]:
  "threads (set_arbiter a ts s) = threads s" "next_thread_id (set_arbiter a ts s) = next_thread_id s"
  "arbiters (set_arbiter a ts s) a = ts" "waiting_threads (set_arbiter a ts s) = waiting_threads s"
  by (simp_all add: set_arbiter_def)

lemma partition_waiting_ok:
  "arb_inv a s \<Longrightarrow> partition_waiting a address s =
    Some (filter (\<lambda>t. th_wait_address (threads s t) \<noteq> address) (arbiters s a),
          filter (\<lambda>t. th_wait_address (threads s t) = address) (arbiters s a))"
  by (auto simp: partition_waiting_def arb_inv_def)

text \<open>One step: nobody is there, or the best of those who are is ready and gone from the list.\<close>

definition woken_one :: "nat \<Rightarrow> u32 \<Rightarrow> nat \<Rightarrow> Kernel \<Rightarrow> Kernel \<Rightarrow> bool" where
  "woken_one a address t s s' \<longleftrightarrow> kernel_inv s' \<and> arb_inv a s' \<and> set (arbiters s' a) = set (arbiters s a) - {t}
     \<and> next_thread_id s' = next_thread_id s \<and> status_of s' t = Ready \<and> (\<forall>u. u \<noteq> t \<longrightarrow> threads s' u = threads s u)"

lemma resume_waiting:
  assumes inv: "kernel_inv s" "arb_inv a s" and t: "t \<in> set (arbiters s a)"
  shows "\<exists>s'. ResumeFromWait t s = Some s' \<and> kernel_inv s' \<and> arbiters s' = arbiters s
    \<and> next_thread_id s' = next_thread_id s \<and> status_of s' t = Ready \<and> (\<forall>u. u \<noteq> t \<longrightarrow> threads s' u = threads s u)"
proof -
  have "t < next_thread_id s" "th_wait_objects (threads s t) = []" "status_of s t = WaitArb"
    using inv(2) t by (auto simp: arb_inv_def)
  with ResumeFromWait_inv [OF inv(1) this(1,2)] ResumeFromWait_arbiters show ?thesis by fastforce
qed

lemma ResumeHighest_ok:
  assumes inv: "kernel_inv s" "arb_inv a s"
  shows "(at_address a address s = {} \<longrightarrow> (\<exists>ts. ResumeHighestPriorityThread a address s = Some (False, set_arbiter a ts s)
      \<and> kernel_inv (set_arbiter a ts s) \<and> arb_inv a (set_arbiter a ts s) \<and> set ts = set (arbiters s a)))
    \<and> (at_address a address s \<noteq> {} \<longrightarrow> (\<exists>t s'. ResumeHighestPriorityThread a address s = Some (True, s')
      \<and> t \<in> at_address a address s \<and> (\<forall>u \<in> at_address a address s. priority_of s t \<le> priority_of s u)
      \<and> woken_one a address t s s'))"
proof (intro conjI impI)
  let ?others = "filter (\<lambda>t. th_wait_address (threads s t) \<noteq> address) (arbiters s a)"
  let ?here = "filter (\<lambda>t. th_wait_address (threads s t) = address) (arbiters s a)"
  have here: "set ?here = at_address a address s" by (auto simp: at_address_def)
  note P = partition_waiting_ok [OF inv(2), of address]
  {
    assume "at_address a address s = {}"
    then have "?here = []" using here by auto
    then have "ResumeHighestPriorityThread a address s = Some (False, set_arbiter a (?others @ ?here) s)"
      by (simp add: ResumeHighestPriorityThread_def P)
    moreover have "set (?others @ ?here) = set (arbiters s a)" "distinct (?others @ ?here)"
      using inv(2) by (auto simp: arb_inv_def)
    moreover from this have "arb_inv a (set_arbiter a (?others @ ?here) s)"
      using inv(2) by (simp add: arb_inv_def)
    ultimately show "\<exists>ts. ResumeHighestPriorityThread a address s = Some (False, set_arbiter a ts s)
      \<and> kernel_inv (set_arbiter a ts s) \<and> arb_inv a (set_arbiter a ts s) \<and> set ts = set (arbiters s a)"
      using inv(1) by (intro exI [of _ "?others @ ?here"]) simp
  next
    assume "at_address a address s \<noteq> {}"
    then have "set ?here \<noteq> {}" unfolding here .
    then have "?here \<noteq> []" by (metis list.set(1))
    from min_element_spec [OF this, of "priority_of s"] obtain t where
      t: "min_element (priority_of s) ?here = Some t" "t \<in> set ?here" "\<forall>u \<in> set ?here. priority_of s t \<le> priority_of s u" by blast
    then have "t \<in> set (arbiters s a)" by simp
    from resume_waiting [OF inv this] obtain s1 where
      s1: "ResumeFromWait t s = Some s1" "kernel_inv s1" "next_thread_id s1 = next_thread_id s" "status_of s1 t = Ready"
        "\<forall>u. u \<noteq> t \<longrightarrow> threads s1 u = threads s u" by blast
    let ?s' = "set_arbiter a (?others @ remove1 t ?here) s1"
    have d: "distinct (arbiters s a)" using inv(2) by (simp add: arb_inv_def)
    then have set': "set (?others @ remove1 t ?here) = set (arbiters s a) - {t}" "distinct (?others @ remove1 t ?here)"
      using t(2) by (auto simp: distinct_remove1)
    then have "arb_inv a ?s'" using inv(2) s1(3,5) by (auto simp: arb_inv_def)
    then have "woken_one a address t s ?s'" using s1 set' by (simp add: woken_one_def)
    moreover have "ResumeHighestPriorityThread a address s = Some (True, ?s')"
      using t(1) s1(1) by (simp add: ResumeHighestPriorityThread_def P)
    ultimately show "\<exists>t s'. ResumeHighestPriorityThread a address s = Some (True, s')
      \<and> t \<in> at_address a address s \<and> (\<forall>u \<in> at_address a address s. priority_of s t \<le> priority_of s u)
      \<and> woken_one a address t s s'"
      using t(2,3) here by blast
  }
qed

text \<open>The threads in \<open>W\<close> are woken, the others wait on.\<close>

definition woken_set :: "nat \<Rightarrow> nat set \<Rightarrow> Kernel \<Rightarrow> Kernel \<Rightarrow> bool" where
  "woken_set a W s s' \<longleftrightarrow> kernel_inv s' \<and> arb_inv a s' \<and> set (arbiters s' a) = set (arbiters s a) - W
     \<and> (\<forall>t \<in> W. status_of s' t = Ready) \<and> (\<forall>t. t \<notin> W \<longrightarrow> threads s' t = threads s t)"

lemma resume_threads_ok:
  "kernel_inv s \<Longrightarrow> arb_inv a s \<Longrightarrow>
    \<exists>s' W. resume_threads a n address num s = Some (num + card W, s') \<and> W \<subseteq> at_address a address s
      \<and> card W = min n (card (at_address a address s)) \<and> woken_set a W s s'
      \<and> (\<forall>w \<in> W. \<forall>v \<in> at_address a address s - W. priority_of s w \<le> priority_of s v)"
proof (induction n arbitrary: num s)
  case 0
  then show ?case by (intro exI [of _ s] exI [of _ "{}"]) (simp add: woken_set_def)
next
  case (Suc n)
  have fin: "finite (at_address a address s)" by (simp add: at_address_def)
  show ?case
  proof (cases "at_address a address s = {}")
    case True
    from ResumeHighest_ok [OF Suc.prems, of address] True obtain ts where
      s1: "ResumeHighestPriorityThread a address s = Some (False, set_arbiter a ts s)"
        "kernel_inv (set_arbiter a ts s)" "arb_inv a (set_arbiter a ts s)" "set ts = set (arbiters s a)" by blast
    have "at_address a address (set_arbiter a ts s) = {}" using True s1(4) by (simp add: at_address_def)
    with Suc.IH [OF s1(2,3), of num] obtain s' where
      "resume_threads a n address num (set_arbiter a ts s) = Some (num, s')" "woken_set a {} (set_arbiter a ts s) s'" by auto
    then show ?thesis using s1(1,4) True
      by (intro exI [of _ s'] exI [of _ "{}"]) (simp add: woken_set_def)
  next
    case False
    from ResumeHighest_ok [OF Suc.prems, of address] False obtain t s1 where
      s1: "ResumeHighestPriorityThread a address s = Some (True, s1)" "t \<in> at_address a address s"
        "\<forall>u \<in> at_address a address s. priority_of s t \<le> priority_of s u" "woken_one a address t s s1" by blast
    have k: "kernel_inv s1" "arb_inv a s1" "set (arbiters s1 a) = set (arbiters s a) - {t}" "status_of s1 t = Ready"
      "\<forall>u. u \<noteq> t \<longrightarrow> threads s1 u = threads s u" using s1(4) by (simp_all add: woken_one_def)
    have at: "at_address a address s1 = at_address a address s - {t}" using k(3,5) by (auto simp: at_address_def)
    from Suc.IH [OF k(1,2), of "num + 1"] obtain s' W where
      W: "resume_threads a n address (num + 1) s1 = Some (num + 1 + card W, s')" "W \<subseteq> at_address a address s1"
        "card W = min n (card (at_address a address s1))" "woken_set a W s1 s'"
        "\<forall>w \<in> W. \<forall>v \<in> at_address a address s1 - W. priority_of s1 w \<le> priority_of s1 v" by blast
    have tW: "t \<notin> W" using W(2) at by auto
    have finW: "finite W" by (rule finite_subset [OF W(2)]) (simp add: at fin)
    have card: "card (insert t W) = Suc (card W)" using tW finW by simp
    have "card (at_address a address s) = Suc (card (at_address a address s1))"
      unfolding at using card_Suc_Diff1 [OF fin s1(2)] by simp
    then have "card (insert t W) = min (Suc n) (card (at_address a address s))" using card W(3) by simp
    moreover have "resume_threads a (Suc n) address num s = Some (num + card (insert t W), s')"
      using s1(1) W(1) card by simp
    moreover have "insert t W \<subseteq> at_address a address s" using W(2) at s1(2) by auto
    moreover have "woken_set a (insert t W) s s'"
      unfolding woken_set_def
    proof (intro conjI ballI allI impI)
      have w: "kernel_inv s'" "arb_inv a s'" "set (arbiters s' a) = set (arbiters s1 a) - W"
        "\<And>u. u \<in> W \<Longrightarrow> status_of s' u = Ready" "\<And>u. u \<notin> W \<Longrightarrow> threads s' u = threads s1 u"
        using W(4) by (simp_all add: woken_set_def)
      show "kernel_inv s'" "arb_inv a s'" by (fact w)+
      show "set (arbiters s' a) = set (arbiters s a) - insert t W" unfolding w(3) k(3) by blast
      show "status_of s' u = Ready" if "u \<in> insert t W" for u
        using that w(4) w(5) [OF tW] k(4) by (cases "u = t") simp_all
      show "threads s' u = threads s u" if "u \<notin> insert t W" for u
        using that w(5) [of u] k(5) by simp
    qed
    moreover have "priority_of s w \<le> priority_of s v"
      if "w \<in> insert t W" "v \<in> at_address a address s - insert t W" for w v
    proof (cases "w = t")
      case True
      with s1(3) that(2) show ?thesis by blast
    next
      case False
      then have "w \<in> W" "v \<in> at_address a address s1 - W" "v \<noteq> t" using that at by auto
      with W(5) have "priority_of s1 w \<le> priority_of s1 v" by blast
      with k(5) False \<open>v \<noteq> t\<close> show ?thesis by simp
    qed
    ultimately show ?thesis by blast
  qed
qed

lemma resume_all_ok:
  "kernel_inv s \<Longrightarrow> distinct ts \<Longrightarrow>
    \<forall>t \<in> set ts. status_of s t = WaitArb \<and> th_wait_objects (threads s t) = [] \<and> t < next_thread_id s \<Longrightarrow>
    \<exists>s'. for_each ResumeFromWait ts s = Some s' \<and> kernel_inv s' \<and> next_thread_id s' = next_thread_id s
      \<and> (\<forall>t \<in> set ts. status_of s' t = Ready) \<and> (\<forall>t. t \<notin> set ts \<longrightarrow> threads s' t = threads s t)"
proof (induction ts arbitrary: s)
  case (Cons t ts)
  then have t: "t < next_thread_id s" "th_wait_objects (threads s t) = []" "status_of s t = WaitArb" by simp_all
  from ResumeFromWait_inv [OF Cons.prems(1) t(1,2)] t(3) obtain s1 where
    s1: "ResumeFromWait t s = Some s1" "kernel_inv s1" "next_thread_id s1 = next_thread_id s" "status_of s1 t = Ready"
      "\<forall>u. u \<noteq> t \<longrightarrow> threads s1 u = threads s u" by auto
  have "\<forall>u \<in> set ts. status_of s1 u = WaitArb \<and> th_wait_objects (threads s1 u) = [] \<and> u < next_thread_id s1"
  proof
    fix u assume "u \<in> set ts"
    then have "u \<noteq> t" "status_of s u = WaitArb \<and> th_wait_objects (threads s u) = [] \<and> u < next_thread_id s"
      using Cons.prems(2,3) by auto
    then show "status_of s1 u = WaitArb \<and> th_wait_objects (threads s1 u) = [] \<and> u < next_thread_id s1"
      using s1(3,5) by simp
  qed
  from Cons.IH [OF s1(2) _ this] Cons.prems(2) obtain s' where
    "for_each ResumeFromWait ts s1 = Some s'" "kernel_inv s'" "next_thread_id s' = next_thread_id s1"
    "\<forall>u \<in> set ts. status_of s' u = Ready" "\<forall>u. u \<notin> set ts \<longrightarrow> threads s' u = threads s1 u" by auto
  with s1 Cons.prems(2) show ?case by (intro exI [of _ s']) auto
qed simp

lemma ResumeAllThreads_ok:
  assumes inv: "kernel_inv s" "arb_inv a s"
  shows "\<exists>s'. ResumeAllThreads a address s = Some (card (at_address a address s), s')
    \<and> woken_set a (at_address a address s) s s'"
proof -
  let ?here = "filter (\<lambda>t. th_wait_address (threads s t) = address) (arbiters s a)"
  let ?others = "filter (\<lambda>t. th_wait_address (threads s t) \<noteq> address) (arbiters s a)"
  have here: "set ?here = at_address a address s" by (auto simp: at_address_def)
  have d: "distinct ?here" using inv(2) by (simp add: arb_inv_def)
  have w: "\<forall>t \<in> set ?here. status_of s t = WaitArb \<and> th_wait_objects (threads s t) = [] \<and> t < next_thread_id s"
    using inv(2) by (simp add: arb_inv_def)
  from resume_all_ok [OF inv(1) d w] obtain s1 where
    s1: "for_each ResumeFromWait ?here s = Some s1" "kernel_inv s1" "next_thread_id s1 = next_thread_id s"
      "\<forall>t \<in> set ?here. status_of s1 t = Ready" "\<forall>t. t \<notin> set ?here \<longrightarrow> threads s1 t = threads s t" by blast
  let ?s' = "set_arbiter a ?others s1"
  have "card (at_address a address s) = length ?here" using here d by (metis distinct_card)
  then have "ResumeAllThreads a address s = Some (card (at_address a address s), ?s')"
    using s1(1) by (simp add: ResumeAllThreads_def partition_waiting_ok [OF inv(2)])
  moreover have "woken_set a (at_address a address s) s ?s'"
    using s1 inv(2) unfolding woken_set_def here [symmetric] by (auto simp: arb_inv_def)
  ultimately show ?thesis by blast
qed

text \<open>
  signalling an address wakes as many of the threads that wait at it as asked for, or all of them
  for a negative number, or as many as there are. Those that are woken are ready, and none of those
  left behind is better than one of them; every other thread, those that wait at other addresses
  included, is untouched, and so is the memory. The call costs ticks only when it wakes nobody and
  the caller's priority is 49 or worse.
\<close>

theorem ArbSignal_wakes_best:
  assumes "kernel_inv s" "arb_inv a s"
  shows "\<exists>s1 W. ArbitrateAddress D a t ArbSignal address value ns m s =
      Some (None, m, if W = {} \<and> 49 \<le> priority_of s t
        then upd_timer (current_cpu s1) (AddTicks (scaled_ticks s1) 1614) s1 else s1)
    \<and> W \<subseteq> at_address a address s
    \<and> card W = (if sint value < 0 then card (at_address a address s)
        else min (nat (sint value)) (card (at_address a address s)))
    \<and> woken_set a W s s1
    \<and> (\<forall>w \<in> W. \<forall>v \<in> at_address a address s - W. priority_of s w \<le> priority_of s v)"
proof -
  have fin: "finite (at_address a address s)" by (simp add: at_address_def)
  have "\<exists>s1 W. (if sint value < 0 then ResumeAllThreads a address s else resume_threads a (nat (sint value)) address 0 s)
      = Some (card W, s1) \<and> W \<subseteq> at_address a address s
    \<and> card W = (if sint value < 0 then card (at_address a address s)
        else min (nat (sint value)) (card (at_address a address s)))
    \<and> woken_set a W s s1
    \<and> (\<forall>w \<in> W. \<forall>v \<in> at_address a address s - W. priority_of s w \<le> priority_of s v)"
  proof (cases "sint value < 0")
    case True
    from ResumeAllThreads_ok [OF assms, of address] True show ?thesis by auto
  next
    case False
    from resume_threads_ok [OF assms, of "nat (sint value)" address 0] False show ?thesis by auto
  qed
  then obtain s1 W where r: "(if sint value < 0 then ResumeAllThreads a address s
      else resume_threads a (nat (sint value)) address 0 s) = Some (card W, s1)" "W \<subseteq> at_address a address s"
    "card W = (if sint value < 0 then card (at_address a address s)
        else min (nat (sint value)) (card (at_address a address s)))"
    "woken_set a W s s1" "\<forall>w \<in> W. \<forall>v \<in> at_address a address s - W. priority_of s w \<le> priority_of s v" by blast
  have "card W = 0 \<longleftrightarrow> W = {}" using finite_subset [OF r(2) fin] by simp
  moreover have "W = {} \<Longrightarrow> priority_of s1 t = priority_of s t" using r(4) by (simp add: woken_set_def)
  ultimately have "ArbitrateAddress D a t ArbSignal address value ns m s =
      Some (None, m, if W = {} \<and> 49 \<le> priority_of s t
        then upd_timer (current_cpu s1) (AddTicks (scaled_ticks s1) 1614) s1 else s1)"
    using r(1) by (auto simp: ArbitrateAddress_def signal_address_def)
  with r(2-5) show ?thesis by blast
qed

text \<open>An arbiter with two threads that wait at one address and one that waits elsewhere.\<close>

definition sample_arbiter :: Kernel where
  "sample_arbiter = sample_kernel\<lparr>
     threads := (\<lambda>t. if t \<in> {1, 2, 3} then (sample_thread WaitArb (10 * t) [] [] [] None)\<lparr>th_wait_address := if t = 3 then 8 else 4\<rparr>
       else if t = 0 then sample_thread Running 30 [] [0] [] None else sample_thread Dormant 48 [] [] [] None),
     waiting_threads := (\<lambda>_. []),
     managers := (\<lambda>c. \<lparr>current_thread = if c = 0 then Some 0 else None,
       ready_queue = if c = 0 then sample_queue\<lparr>q_data := (\<lambda>_. [])\<rparr> else tql_init, wakeup_callback_table = {},
       thread_list = []\<rparr>),
     arbiters := (\<lambda>_. [2, 3, 1])\<rparr>"

lemma sample_arbiter_inv: "kernel_inv sample_arbiter" "arb_inv 0 sample_arbiter"
proof -
  have ok: "tql_ok (sample_queue\<lparr>q_data := \<lambda>_. []\<rparr>)" using sample_queue_ok(1) by (simp add: tql_ok_def)
  have "queue_inv sample_arbiter"
    unfolding queues_ok_def
  proof (intro conjI allI impI)
    fix c p t :: nat
    show "tql_ok (queue_of sample_arbiter c)" by (simp add: sample_arbiter_def ok)
    show "distinct (q_data (queue_of sample_arbiter c) p)" by (simp add: sample_arbiter_def tql_init_def)
    show "t \<in> set (q_data (queue_of sample_arbiter c) p) \<longleftrightarrow>
      status_of sample_arbiter t = Ready \<and> core_of sample_arbiter t = c \<and> priority_of sample_arbiter t = p
      \<and> t < next_thread_id sample_arbiter \<and> t \<notin> {}"
      by (simp add: sample_arbiter_def sample_thread_def tql_init_def)
    show "levels_ok sample_arbiter t" if "t < next_thread_id sample_arbiter"
      using that by (induction t rule: sample_threads_cases)
        (simp_all add: levels_ok_def sample_arbiter_def sample_thread_def new_thread_def sample_queue_ok sample_kernel_def)
  qed
  moreover have "wait_inv sample_arbiter"
    by (simp add: wait_inv_def thread_waits_def sample_arbiter_def sample_thread_def new_thread_def)
  moreover have "mutex_inv sample_arbiter"
    by (auto simp: mutex_inv_def sample_arbiter_def sample_thread_def new_thread_def sample_kernel_def)
  ultimately show "kernel_inv sample_arbiter" by (simp add: kernel_inv_def)
  show "arb_inv 0 sample_arbiter"
    by (simp add: arb_inv_def sample_arbiter_def sample_thread_def new_thread_def sample_kernel_def)
qed

lemma ArbSignal_wakes_best_witness:
  "\<forall>D m. \<exists>s' W. ArbitrateAddress D 0 0 ArbSignal 4 1 0 m sample_arbiter = Some (None, m, s')
    \<and> card (W :: nat set) = 1 \<and> W \<subseteq> {1, 2}"
proof (intro allI)
  fix D m
  have at: "at_address 0 4 sample_arbiter = {1, 2}" by (auto simp: at_address_def sample_arbiter_def)
  obtain s1 and W :: "nat set" where "ArbitrateAddress D 0 0 ArbSignal 4 1 0 m sample_arbiter =
      Some (None, m, if W = {} \<and> 49 \<le> priority_of sample_arbiter 0
        then upd_timer (current_cpu s1) (AddTicks (scaled_ticks s1) 1614) s1 else s1)"
    "W \<subseteq> {1, 2}" "card W = 1"
    using ArbSignal_wakes_best [OF sample_arbiter_inv, of D 0 4 1 0 m, unfolded at] by auto
  then show "\<exists>s' W. ArbitrateAddress D 0 0 ArbSignal 4 1 0 m sample_arbiter = Some (None, m, s')
    \<and> card (W :: nat set) = 1 \<and> W \<subseteq> {1, 2}" by blast
qed

end
