(* ===== verification/Ipc.thy ===== *)
theory Ipc imports HandleTable VMManager Results begin

text \<open>
  Calls between processes: the words of a command buffer (src/core/hle/ipc.h) and the kernel's
  translation of a command from the address space of one process to that of another
  (src/core/hle/kernel/ipc.cpp).

  An outer \<^const>\<open>None\<close> is a failed assertion, or an access beyond the array that holds the command.
\<close>

section \<open>Words of a command\<close>

definition COMMAND_BUFFER_LENGTH :: nat where "COMMAND_BUFFER_LENGTH = 64"
definition MAX_STATIC_BUFFERS :: nat where "MAX_STATIC_BUFFERS = 16"

text \<open>The values of \<open>DescriptorType\<close>.\<close>

definition StaticBuffer :: u32 where "StaticBuffer = 0x02"
definition PXIBuffer :: u32 where "PXIBuffer = 0x04"
definition MappedBuffer :: u32 where "MappedBuffer = 0x08"
definition CopyHandle :: u32 where "CopyHandle = 0x00"
definition MoveHandle :: u32 where "MoveHandle = 0x10"
definition CallingPid :: u32 where "CallingPid = 0x20"

definition translate_params_size :: "u32 \<Rightarrow> u32" where "translate_params_size = ExtractValue 0 6"
definition normal_params_size :: "u32 \<Rightarrow> u32" where "normal_params_size = ExtractValue 6 6"
definition command_id :: "u32 \<Rightarrow> u32" where "command_id = ExtractValue 16 16"

definition MakeHeader :: "u16 \<Rightarrow> u32 \<Rightarrow> u32 \<Rightarrow> u32" where
  "MakeHeader cmd n t = Assign 0 6 t (Assign 6 6 n (Assign 16 16 (ucast cmd) 0))"

definition MoveHandleDesc :: "u32 \<Rightarrow> u32" where "MoveHandleDesc n = MoveHandle OR push_bit 26 (n - 1)"
definition CopyHandleDesc :: "u32 \<Rightarrow> u32" where "CopyHandleDesc n = CopyHandle OR push_bit 26 (n - 1)"
definition CallingPidDesc :: u32 where "CallingPidDesc = CallingPid"

definition IsHandleDescriptor :: "u32 \<Rightarrow> bool" where "IsHandleDescriptor d \<longleftrightarrow> d AND 0xF = 0"

definition HandleNumberFromDesc :: "u32 \<Rightarrow> u32" where "HandleNumberFromDesc d = drop_bit 26 d + 1"

definition static_buffer_id :: "u32 \<Rightarrow> u32" where "static_buffer_id = ExtractValue 10 4"
definition static_buffer_size :: "u32 \<Rightarrow> u32" where "static_buffer_size = ExtractValue 14 18"

definition StaticBufferDesc :: "u32 \<Rightarrow> u8 \<Rightarrow> u32" where
  "StaticBufferDesc sz bid = Assign 14 18 sz (Assign 10 4 (ucast bid) (Assign 0 4 StaticBuffer 0))"

definition PXIBufferDesc :: "u32 \<Rightarrow> u32 \<Rightarrow> bool \<Rightarrow> u32" where
  "PXIBufferDesc sz bid is_read_only =
     (if is_read_only then PXIBuffer OR 2 else PXIBuffer) OR push_bit 8 sz OR push_bit 4 (bid AND 0xF)"

text \<open>\<open>MappedBufferPermissions\<close> of a buffer the receiver may only read.\<close>

definition PermR :: u32 where "PermR = 1"

definition mapped_buffer_perms :: "u32 \<Rightarrow> u32" where "mapped_buffer_perms = ExtractValue 1 2"
definition mapped_buffer_size :: "u32 \<Rightarrow> u32" where "mapped_buffer_size = ExtractValue 4 28"

definition MappedBufferDesc :: "u32 \<Rightarrow> u32 \<Rightarrow> u32" where
  "MappedBufferDesc sz perms = Assign 4 28 sz (Assign 1 2 perms (Assign 0 4 MappedBuffer 0))"

definition GetDescriptorType :: "u32 \<Rightarrow> u32" where
  "GetDescriptorType d =
     (if IsHandleDescriptor d then d AND 0x30
      else if d AND MappedBuffer \<noteq> 0 then MappedBuffer
      else if d AND PXIBuffer \<noteq> 0 then PXIBuffer
      else StaticBuffer)"

section \<open>State\<close>

text \<open>
  Processes are numbers, so that a process may call itself. Its \<open>ip_space\<close> is brought up to date with
  the memory of the whole system, \<open>ik_memory\<close>, before each use. \<open>ik_next_buffer\<close> names the next new
  buffer of host memory.
\<close>

record 'o IpcProcess =
  ip_handles :: "'o handle_table"
  ip_space :: VM
  ip_id :: u32

record 'o IpcKernel =
  ik_memory :: MemorySystem
  ik_processes :: "nat \<Rightarrow> 'o IpcProcess"
  ik_next_buffer :: nat

record MappedBufferContext =
  mb_permissions :: u32
  mb_size :: u32
  mb_source_address :: u32
  mb_target_address :: u32
  mb_buffer :: BackingMem

text \<open>One translation: the two sides, and the objects the pseudo-handles stand for.\<close>

record 'o IpcCall =
  ic_src :: nat
  ic_dst :: nat
  ic_src_thread :: 'o
  ic_src_process :: 'o
  ic_dst_address :: u32
  ic_reply :: bool

record 'o Translation =
  tr_cmd_buf :: "u32 list"
  tr_pos :: nat
  tr_contexts :: "MappedBufferContext list"
  tr_kernel :: "'o IpcKernel"

definition upd_ipc_process :: "nat \<Rightarrow> ('o IpcProcess \<Rightarrow> 'o IpcProcess) \<Rightarrow> 'o IpcKernel \<Rightarrow> 'o IpcKernel" where
  "upd_ipc_process p f k = k\<lparr>ik_processes := (ik_processes k)(p := f (ik_processes k p))\<rparr>"

definition handles_of :: "'o IpcKernel \<Rightarrow> nat \<Rightarrow> 'o handle_table" where
  "handles_of k p = ip_handles (ik_processes k p)"

definition space_of :: "'o IpcKernel \<Rightarrow> nat \<Rightarrow> VM" where
  "space_of k p = (ip_space (ik_processes k p))\<lparr>vm_memory := ik_memory k\<rparr>"

definition table_of :: "'o IpcKernel \<Rightarrow> nat \<Rightarrow> nat" where
  "table_of k p = vm_table (ip_space (ik_processes k p))"

definition on_space :: "nat \<Rightarrow> (VM \<Rightarrow> ('a \<times> VM) option) \<Rightarrow> 'o IpcKernel \<Rightarrow> ('a \<times> 'o IpcKernel) option" where
  "on_space p f k = do {
     (x, vm) \<leftarrow> f (space_of k p);
     Some (x, (upd_ipc_process p (\<lambda>q. q\<lparr>ip_space := vm\<rparr>) k)\<lparr>ik_memory := vm_memory vm\<rparr>) }"

definition read_block :: "Devices \<Rightarrow> nat \<Rightarrow> u32 \<Rightarrow> nat \<Rightarrow> 'o IpcKernel \<Rightarrow> (u8 list \<times> 'o IpcKernel) option" where
  "read_block D p a n k = do {
     (bs, m) \<leftarrow> ReadBlockImpl D False (table_of k p) (ik_memory k) a n;
     Some (bs, k\<lparr>ik_memory := m\<rparr>) }"

definition write_block :: "Devices \<Rightarrow> nat \<Rightarrow> u32 \<Rightarrow> u8 list \<Rightarrow> 'o IpcKernel \<Rightarrow> 'o IpcKernel option" where
  "write_block D p a bs k = do {
     m \<leftarrow> WriteBlockImpl D False (table_of k p) (ik_memory k) a bs;
     Some (k\<lparr>ik_memory := m\<rparr>) }"

text \<open>Bytes and words.\<close>

fun words_of :: "u8 list \<Rightarrow> u32 list" where
  "words_of (a # b # c # d # bs) = le_word [a, b, c, d] # words_of bs"
| "words_of _ = []"

definition bytes_of :: "u32 list \<Rightarrow> u8 list" where
  "bytes_of ws = concat (map (le_bytes 4) ws)"

definition get_word :: "'o Translation \<Rightarrow> u32 option" where
  "get_word t = (if tr_pos t < length (tr_cmd_buf t) then Some (tr_cmd_buf t ! tr_pos t) else None)"

text \<open>\<open>cmd_buf[i++] = w\<close>.\<close>

definition put_word :: "u32 \<Rightarrow> 'o Translation \<Rightarrow> 'o Translation option" where
  "put_word w t =
     (if tr_pos t < length (tr_cmd_buf t)
      then Some (t\<lparr>tr_cmd_buf := (tr_cmd_buf t)[tr_pos t := w], tr_pos := Suc (tr_pos t)\<rparr>) else None)"

section \<open>Handles\<close>

text \<open>
  The object a handle of the source stands for. The comparison of the whole descriptor with
  \<open>MoveHandle\<close> decides whether the handle is closed.
\<close>

definition take_object :: "'o IpcCall \<Rightarrow> u32 \<Rightarrow> u32 \<Rightarrow> 'o IpcKernel \<Rightarrow> 'o option \<times> 'o IpcKernel" where
  "take_object c d h k =
     (if h = CurrentThread then (Some (ic_src_thread c), k)
      else if h = CurrentProcess then (Some (ic_src_process c), k)
      else if h \<noteq> 0
      then (GetGeneric None None (handles_of k (ic_src c)) h,
        if d = MoveHandle then upd_ipc_process (ic_src c) (\<lambda>p. p\<lparr>ip_handles := snd (Close (ip_handles p) h)\<rparr>) k else k)
      else (None, k))"

definition give_object :: "nat \<Rightarrow> 'o \<Rightarrow> 'o IpcKernel \<Rightarrow> (u32 \<times> 'o IpcKernel) option" where
  "give_object p x k =
     (case Create (handles_of k p) x of
        (Inl _, _) \<Rightarrow> None
      | (Inr h, t) \<Rightarrow> Some (h, upd_ipc_process p (\<lambda>q. q\<lparr>ip_handles := t\<rparr>) k))"

definition translate_handle :: "'o IpcCall \<Rightarrow> u32 \<Rightarrow> 'o Translation \<Rightarrow> 'o Translation option" where
  "translate_handle c d t = do {
     h \<leftarrow> get_word t;
     (case take_object c d h (tr_kernel t) of
        (None, k) \<Rightarrow> put_word 0 (t\<lparr>tr_kernel := k\<rparr>)
      | (Some x, k) \<Rightarrow> do {
          (h', k') \<leftarrow> give_object (ic_dst c) x k;
          put_word h' (t\<lparr>tr_kernel := k'\<rparr>) }) }"

fun translate_handles :: "'o IpcCall \<Rightarrow> u32 \<Rightarrow> nat \<Rightarrow> 'o Translation \<Rightarrow> 'o Translation option" where
  "translate_handles c d 0 t = Some t"
| "translate_handles c d (Suc n) t = do {
     t1 \<leftarrow> translate_handle c d t;
     translate_handles c d n t1 }"

section \<open>Buffers\<close>

definition IPC_MAPPING_VADDR :: u32 where "IPC_MAPPING_VADDR = 0x04000000"
definition IPC_MAPPING_SIZE :: u32 where "IPC_MAPPING_SIZE = 0x04000000"

definition AlignUp :: "u32 \<Rightarrow> u32 \<Rightarrow> u32" where
  "AlignUp v sz = (let m = v mod sz; low = v - m in if m = 0 then low else low + sz)"

definition AlignDown :: "u32 \<Rightarrow> u32 \<Rightarrow> u32" where
  "AlignDown v sz = v - v mod sz"

text \<open>A buffer the sender's bytes are copied to, at the address the receiver has set up for it.\<close>

definition translate_static :: "Devices \<Rightarrow> 'o IpcCall \<Rightarrow> u32 \<Rightarrow> 'o Translation \<Rightarrow> 'o Translation option" where
  "translate_static D c d t = do {
     src \<leftarrow> get_word t;
     (bs, k1) \<leftarrow> read_block D (ic_src c) src (unat (static_buffer_size d)) (tr_kernel t);
     let off = of_nat COMMAND_BUFFER_LENGTH * 4 + 8 * static_buffer_id d;
     (tb, k2) \<leftarrow> read_block D (ic_dst c) (ic_dst_address c + off) 8 k1;
     let desc = le_word (take 4 tb);
     let target = le_word (drop 4 tb);
     if unat (static_buffer_size desc) < length bs then None
     else do {
       k3 \<leftarrow> write_block D (ic_dst c) target bs k2;
       put_word target (t\<lparr>tr_kernel := k3\<rparr>) } }"

text \<open>A new buffer with guard pages, filled from the sender and mapped at the receiver.\<close>

definition new_buffer :: "nat \<Rightarrow> nat \<Rightarrow> u8 list \<Rightarrow> 'o IpcKernel \<Rightarrow> BackingMem \<times> 'o IpcKernel" where
  "new_buffer sz off bs k =
     (let b = BufferMem (ik_next_buffer k) sz; m = ik_memory k
      in (b, k\<lparr>ik_next_buffer := Suc (ik_next_buffer k),
             ik_memory := m\<lparr>bytes := write_bytes ((bytes m)(b := (\<lambda>_. 0))) b off bs\<rparr>\<rparr>))"

definition set_guard :: "Devices \<Rightarrow> nat \<Rightarrow> u32 \<Rightarrow> 'o IpcKernel \<Rightarrow> 'o IpcKernel option" where
  "set_guard D p a k = do {
     (res, k1) \<leftarrow> on_space p (\<lambda>vm. ChangeMemoryState D vm a 0x1000 MSShared PermReadWrite MSReserved PermNone) k;
     if res \<noteq> None then None else Some k1 }"

definition map_buffer ::
  "Devices \<Rightarrow> 'o IpcCall \<Rightarrow> u32 \<Rightarrow> u32 \<Rightarrow> u32 \<Rightarrow> u32 \<Rightarrow> u32 \<Rightarrow> 'o Translation \<Rightarrow> 'o Translation option" where
  "map_buffer D c perms sz src page_offset num_pages t =
     (let buffer_size = (num_pages + 2) * 0x1000 in do {
        (bs, k1) \<leftarrow> read_block D (ic_src c) src (unat sz) (tr_kernel t);
        let (b, k2) = new_buffer (unat buffer_size) (unat (0x1000 + page_offset)) bs k1;
        (r, k3) \<leftarrow> on_space (ic_dst c) (\<lambda>vm. MapBackingMemoryToBase D vm IPC_MAPPING_VADDR IPC_MAPPING_SIZE
                     (Some (b, 0)) buffer_size MSShared) k2;
        case r of
          Inl _ \<Rightarrow> None
        | Inr low_guard \<Rightarrow> do {
            k4 \<leftarrow> set_guard D (ic_dst c) low_guard k3;
            k5 \<leftarrow> set_guard D (ic_dst c) (low_guard + buffer_size - 0x1000) k4;
            let target = low_guard + 0x1000 + page_offset;
            put_word target (t\<lparr>tr_kernel := k5,
              tr_contexts := tr_contexts t @ [\<lparr>mb_permissions = perms, mb_size = sz, mb_source_address = src,
                mb_target_address = target, mb_buffer = b\<rparr>]\<rparr>) } })"

text \<open>The state of the area at an address, which is read without a check that there is one.\<close>

definition state_at :: "VM \<Rightarrow> u32 \<Rightarrow> MemoryState option" where
  "state_at vm a = (let i = FindVMA (vma_map vm) a in
     if i < length (vma_map vm) then Some (vma_state (vma_map vm ! i)) else None)"

fun find_context :: "u32 \<Rightarrow> u32 \<Rightarrow> u32 \<Rightarrow> MappedBufferContext list \<Rightarrow> nat option" where
  "find_context perms sz addr [] = None"
| "find_context perms sz addr (x # xs) =
     (if mb_permissions x = perms \<and> mb_size x = sz \<and> mb_target_address x = addr then Some 0
      else map_option Suc (find_context perms sz addr xs))"

definition return_buffer ::
  "Devices \<Rightarrow> 'o IpcCall \<Rightarrow> u32 \<Rightarrow> u32 \<Rightarrow> u32 \<Rightarrow> u32 \<Rightarrow> u32 \<Rightarrow> 'o Translation \<Rightarrow> 'o Translation option" where
  "return_buffer D c perms sz src page_start num_pages t = do {
     i \<leftarrow> find_context perms sz src (tr_contexts t);
     let x = tr_contexts t ! i;
     let k = tr_kernel t;
     k1 \<leftarrow> (if perms \<noteq> PermR
       then map_option (\<lambda>m. k\<lparr>ik_memory := m\<rparr>)
         (CopyBlock D (table_of k (ic_dst c)) (table_of k (ic_src c)) (ik_memory k)
            (mb_source_address x) (mb_target_address x) (unat sz))
       else Some k);
     before \<leftarrow> state_at (space_of k1 (ic_src c)) (page_start - 0x1000);
     after \<leftarrow> state_at (space_of k1 (ic_src c)) (page_start + num_pages * 0x1000);
     if before \<noteq> MSReserved \<or> after \<noteq> MSReserved then None
     else do {
       (res, k2) \<leftarrow> on_space (ic_src c)
         (\<lambda>vm. UnmapRange D vm (page_start - 0x1000) ((num_pages + 2) * 0x1000)) k1;
       if res \<noteq> None then None
       else Some (t\<lparr>tr_kernel := k2, tr_contexts := take i (tr_contexts t) @ drop (Suc i) (tr_contexts t),
              tr_pos := Suc (tr_pos t)\<rparr>) } }"

definition translate_mapped :: "Devices \<Rightarrow> 'o IpcCall \<Rightarrow> u32 \<Rightarrow> 'o Translation \<Rightarrow> 'o Translation option" where
  "translate_mapped D c d t = do {
     src \<leftarrow> get_word t;
     let sz = mapped_buffer_size d;
     let perms = mapped_buffer_perms d;
     let page_start = AlignDown src 0x1000;
     let page_offset = src - page_start;
     let num_pages = drop_bit 12 (AlignUp (page_offset + sz) 0x1000);
     if sz = 0 then put_word 0 t
     else if num_pages < 1 then None
     else if ic_reply c then return_buffer D c perms sz src page_start num_pages t
     else map_buffer D c perms sz src page_offset num_pages t }"

section \<open>The translation\<close>

text \<open>One descriptor with its parameters; the error the code returns in place of a named one.\<close>

definition translate_descriptor ::
  "Devices \<Rightarrow> 'o IpcCall \<Rightarrow> nat \<Rightarrow> 'o Translation \<Rightarrow> (result_code option \<times> 'o Translation) option" where
  "translate_descriptor D c command_size t0 = do {
     d \<leftarrow> get_word t0;
     let t = t0\<lparr>tr_pos := Suc (tr_pos t0)\<rparr>;
     let ty = GetDescriptorType d;
     if ty = CopyHandle \<or> ty = MoveHandle
     then let n = unat (HandleNumberFromDesc d) in
       if command_size < tr_pos t + n then Some (Some ResultCommandTooLarge, t)
       else map_option (Pair None) (translate_handles c d n t)
     else map_option (Pair None)
       (if ty = CallingPid then put_word (ip_id (ik_processes (tr_kernel t) (ic_src c))) t
        else if ty = StaticBuffer then translate_static D c d t
        else if ty = MappedBuffer then translate_mapped D c d t
        else Some t) }"

fun translate_loop ::
  "nat \<Rightarrow> Devices \<Rightarrow> 'o IpcCall \<Rightarrow> nat \<Rightarrow> 'o Translation \<Rightarrow> (result_code option \<times> 'o Translation) option" where
  "translate_loop 0 D c command_size t = (if tr_pos t < command_size then None else Some (None, t))"
| "translate_loop (Suc fuel) D c command_size t =
     (if tr_pos t < command_size
      then do {
        (r, t1) \<leftarrow> translate_descriptor D c command_size t;
        if r \<noteq> None then Some (r, t1) else translate_loop fuel D c command_size t1 }
      else Some (None, t))"

definition untranslated_size :: "u32 \<Rightarrow> nat" where
  "untranslated_size header = 1 + unat (normal_params_size header)"

definition command_size_of :: "u32 \<Rightarrow> nat" where
  "command_size_of header = untranslated_size header + unat (translate_params_size header)"

text \<open>
  The array for the command is not initialized: \<open>junk\<close> is what it holds. A loop of as many rounds as
  the array has words is enough, since each round moves the position on.
\<close>

definition TranslateCommandBuffer ::
  "Devices \<Rightarrow> 'o IpcCall \<Rightarrow> u32 \<Rightarrow> u32 list \<Rightarrow> MappedBufferContext list \<Rightarrow> 'o IpcKernel
     \<Rightarrow> (result_code option \<times> MappedBufferContext list \<times> 'o IpcKernel) option" where
  "TranslateCommandBuffer D c src_address junk contexts k = do {
     (hd_bytes, k1) \<leftarrow> read_block D (ic_src c) src_address 4 k;
     let header = le_word hd_bytes;
     let command_size = command_size_of header;
     if COMMAND_BUFFER_LENGTH < command_size then None
     else do {
       (bs, k2) \<leftarrow> read_block D (ic_src c) src_address (command_size * 4) k1;
       (r, t) \<leftarrow> translate_loop COMMAND_BUFFER_LENGTH D c command_size
         \<lparr>tr_cmd_buf = words_of bs @ drop command_size junk, tr_pos = untranslated_size header,
          tr_contexts = contexts, tr_kernel = k2\<rparr>;
       if r \<noteq> None then Some (r, tr_contexts t, tr_kernel t)
       else do {
         k3 \<leftarrow> write_block D (ic_dst c) (ic_dst_address c) (bytes_of (take command_size (tr_cmd_buf t))) (tr_kernel t);
         Some (None, tr_contexts t, k3) } } }"

end
