(* ===== verification/MemoryRegion.thy ===== *)
theory MemoryRegion imports Memory begin

text \<open>
  The allocator of the physical memory regions, src/core/hle/kernel/memory.cpp and memory.h, and the
  layout of the regions (\<open>KernelSystem::MemoryInit\<close>).

  The free list is a \<open>boost::icl::interval_set<u32>\<close>, a class of a library: its operations are the
  parameter \<open>IntervalOps\<close> of the model, over a type of sets that is left open. What the code relies on
  is the locale \<open>interval_set\<close>: the set holds the numbers it is documented to hold, and iterating over
  it gives its maximal right-open intervals in ascending order. A list of intervals kept in that
  order satisfies the locale, and serves as the concrete set of the examples.
\<close>

section \<open>The interface of the interval sets\<close>

record 'i IntervalOps =
  iset_empty :: 'i
  iset_blocks :: "'i \<Rightarrow> (u32 \<times> u32) list"
  iset_add :: "'i \<Rightarrow> u32 \<times> u32 \<Rightarrow> 'i"
  iset_sub :: "'i \<Rightarrow> u32 \<times> u32 \<Rightarrow> 'i"
  iset_add_all :: "'i \<Rightarrow> 'i \<Rightarrow> 'i"
  iset_sub_all :: "'i \<Rightarrow> 'i \<Rightarrow> 'i"
  iset_contains :: "'i \<Rightarrow> u32 \<times> u32 \<Rightarrow> bool"
  iset_intersects :: "'i \<Rightarrow> u32 \<times> u32 \<Rightarrow> bool"

fun span :: "u32 \<times> u32 \<Rightarrow> nat set" where
  "span (lo, hi) = {unat lo..<unat hi}"

definition covered :: "(u32 \<times> u32) list \<Rightarrow> nat set" where
  "covered bs = \<Union> (span ` set bs)"

lemma covered_simps [simp]:
  "covered [] = {}" "covered (b # bs) = span b \<union> covered bs" "covered (bs @ cs) = covered bs \<union> covered cs"
  "covered (rev bs) = covered bs"
  by (auto simp: covered_def)

text \<open>Non-empty intervals, ascending, with a gap between each and the next.\<close>

fun separated :: "nat \<Rightarrow> (u32 \<times> u32) list \<Rightarrow> bool" where
  "separated n [] \<longleftrightarrow> True"
| "separated n ((lo, hi) # bs) \<longleftrightarrow> n \<le> unat lo \<and> lo < hi \<and> separated (Suc (unat hi)) bs"

abbreviation members :: "'i IntervalOps \<Rightarrow> 'i \<Rightarrow> nat set" where
  "members I s \<equiv> covered (iset_blocks I s)"

section \<open>The regions\<close>

record 'i MemoryRegionInfo =
  mr_base :: u32
  mr_size :: u32
  mr_used :: u32
  free_blocks :: 'i
  mr_locked :: bool

definition Region_Reset :: "'i IntervalOps \<Rightarrow> u32 \<Rightarrow> u32 \<Rightarrow> 'i MemoryRegionInfo \<Rightarrow> 'i MemoryRegionInfo option" where
  "Region_Reset I base sz r =
     (if mr_locked r then None
      else Some (r\<lparr>mr_base := base, mr_size := sz, mr_used := 0,
                   free_blocks := iset_add I (iset_empty I) (base, base + sz)\<rparr>))"

text \<open>The loop over the free blocks from the highest: what is still wanted, and what is taken.\<close>

fun heap_take :: "'i IntervalOps \<Rightarrow> (u32 \<times> u32) list \<Rightarrow> u32 \<Rightarrow> 'i \<Rightarrow> u32 \<times> 'i" where
  "heap_take I [] rest res = (rest, res)"
| "heap_take I ((lo, hi) # bs) rest res =
     (if rest \<le> hi - lo then (0, iset_add I res (hi - rest, hi))
      else heap_take I bs (rest - (hi - lo)) (iset_add I res (lo, hi)))"

definition Region_HeapAllocate ::
  "'i IntervalOps \<Rightarrow> u32 \<Rightarrow> 'i MemoryRegionInfo \<Rightarrow> ('i \<times> 'i MemoryRegionInfo) option" where
  "Region_HeapAllocate I sz r =
     (if mr_locked r then None
      else case heap_take I (rev (iset_blocks I (free_blocks r))) sz (iset_empty I) of
        (rest, res) \<Rightarrow>
          if rest \<noteq> 0 then Some (iset_empty I, r)
          else Some (res, r\<lparr>free_blocks := iset_sub_all I (free_blocks r) res, mr_used := mr_used r + sz\<rparr>))"

definition Region_LinearAllocateAt ::
  "'i IntervalOps \<Rightarrow> u32 \<Rightarrow> u32 \<Rightarrow> 'i MemoryRegionInfo \<Rightarrow> (bool \<times> 'i MemoryRegionInfo) option" where
  "Region_LinearAllocateAt I offset sz r =
     (if mr_locked r then None
      else if \<not> iset_contains I (free_blocks r) (offset, offset + sz) then Some (False, r)
      else Some (True, r\<lparr>free_blocks := iset_sub I (free_blocks r) (offset, offset + sz),
                         mr_used := mr_used r + sz\<rparr>))"

definition Region_LinearAllocate ::
  "'i IntervalOps \<Rightarrow> u32 \<Rightarrow> 'i MemoryRegionInfo \<Rightarrow> (u32 option \<times> 'i MemoryRegionInfo) option" where
  "Region_LinearAllocate I sz r =
     (if mr_locked r then None
      else case find (\<lambda>(lo, hi). sz \<le> hi - lo) (iset_blocks I (free_blocks r)) of
        None \<Rightarrow> Some (None, r)
      | Some (lo, hi) \<Rightarrow>
          Some (Some lo, r\<lparr>free_blocks := iset_sub I (free_blocks r) (lo, lo + sz),
                           mr_used := mr_used r + sz\<rparr>))"

definition Region_RLinearAllocate ::
  "'i IntervalOps \<Rightarrow> u32 \<Rightarrow> 'i MemoryRegionInfo \<Rightarrow> (u32 option \<times> 'i MemoryRegionInfo) option" where
  "Region_RLinearAllocate I sz r =
     (if mr_locked r then None
      else case find (\<lambda>(lo, hi). sz \<le> hi - lo) (rev (iset_blocks I (free_blocks r))) of
        None \<Rightarrow> Some (None, r)
      | Some (lo, hi) \<Rightarrow>
          Some (Some (hi - sz), r\<lparr>free_blocks := iset_sub I (free_blocks r) (hi - sz, hi),
                                    mr_used := mr_used r + sz\<rparr>))"

definition Region_Free :: "'i IntervalOps \<Rightarrow> u32 \<Rightarrow> u32 \<Rightarrow> 'i MemoryRegionInfo \<Rightarrow> 'i MemoryRegionInfo option" where
  "Region_Free I offset sz r =
     (if mr_locked r then Some r
      else if iset_intersects I (free_blocks r) (offset, offset + sz) then None
      else Some (r\<lparr>free_blocks := iset_add I (free_blocks r) (offset, offset + sz),
                   mr_used := mr_used r - sz\<rparr>))"

definition Region_Unlock :: "'i MemoryRegionInfo \<Rightarrow> 'i MemoryRegionInfo" where
  "Region_Unlock r = r\<lparr>mr_locked := False\<rparr>"

section \<open>The layout of the regions\<close>

definition memory_region_sizes :: "u32 list list" where
  "memory_region_sizes =
     [[0x04000000, 0x02C00000, 0x01400000],
      [0, 0, 0],
      [0x06000000, 0x00C00000, 0x01400000],
      [0x05000000, 0x01C00000, 0x01400000],
      [0x04800000, 0x02400000, 0x01400000],
      [0x02000000, 0x04C00000, 0x01400000],
      [0x07C00000, 0x06400000, 0x02000000],
      [0x0B200000, 0x02E00000, 0x02000000]]"

datatype MemoryMode = ModeProd | ModeDev1 | ModeDev2 | ModeDev3 | ModeDev4

datatype New3dsMemoryMode = N3dsLegacy | N3dsProd | N3dsDev1 | N3dsDev2

fun mode_value :: "MemoryMode \<Rightarrow> nat" where
  "mode_value ModeProd = 0"
| "mode_value ModeDev1 = 2"
| "mode_value ModeDev2 = 3"
| "mode_value ModeDev3 = 4"
| "mode_value ModeDev4 = 5"

text \<open>The row of the table that is used, and the one that is reported to guests.\<close>

definition mem_type_of :: "bool \<Rightarrow> MemoryMode \<Rightarrow> New3dsMemoryMode \<Rightarrow> nat \<times> nat" where
  "mem_type_of is_new_3ds memory_mode n3ds_mode =
     (if is_new_3ds
      then if n3ds_mode = N3dsProd \<or> n3ds_mode = N3dsDev2 then (6, 6)
           else if n3ds_mode = N3dsDev1 then (7, 7)
           else (6, mode_value memory_mode)
      else (mode_value memory_mode, mode_value memory_mode))"

fun reset_regions ::
  "'i IntervalOps \<Rightarrow> u32 \<Rightarrow> u32 list \<Rightarrow> 'i MemoryRegionInfo list \<Rightarrow> (u32 \<times> 'i MemoryRegionInfo list) option" where
  "reset_regions I base (sz # sizes) (r # rs) = do {
     r' \<leftarrow> Region_Reset I base sz r;
     (base', rs') \<leftarrow> reset_regions I (base + mr_size r') sizes rs;
     Some (base', r' # rs') }"
| "reset_regions I base _ rs = Some (base, rs)"

definition MemoryInit ::
  "'i IntervalOps \<Rightarrow> bool \<Rightarrow> MemoryMode \<Rightarrow> New3dsMemoryMode \<Rightarrow> 'i MemoryRegionInfo list
     \<Rightarrow> 'i MemoryRegionInfo list option" where
  "MemoryInit I is_new_3ds memory_mode n3ds_mode rs = do {
     (base, rs') \<leftarrow> reset_regions I 0
       (memory_region_sizes ! fst (mem_type_of is_new_3ds memory_mode n3ds_mode)) rs;
     if base = (if is_new_3ds then FCRAM_N3DS_SIZE else FCRAM_SIZE) then Some rs' else None }"

section \<open>Pages and intervals\<close>

text \<open>A set of whole pages.\<close>

definition paged :: "nat set \<Rightarrow> bool" where
  "paged S \<longleftrightarrow> (\<forall>a b. a div 4096 = b div 4096 \<longrightarrow> a \<in> S \<longrightarrow> b \<in> S)"

lemma paged_empty [simp]: "paged {}"
  by (simp add: paged_def)

lemma paged_Un: "paged S \<Longrightarrow> paged T \<Longrightarrow> paged (S \<union> T)"
  unfolding paged_def by blast

lemma paged_Diff: "paged S \<Longrightarrow> paged T \<Longrightarrow> paged (S - T)"
  unfolding paged_def by (metis DiffD1 DiffD2 DiffI)

lemma paged_interval:
  assumes "4096 dvd m" "4096 dvd (n :: nat)"
  shows "paged {m..<n}"
proof -
  from assms obtain i j where "m = 4096 * i" "n = 4096 * j" by (auto simp: dvd_def)
  then have "a \<in> {m..<n} \<longleftrightarrow> i \<le> a div 4096 \<and> a div 4096 < j" for a
    by (simp add: less_eq_div_iff_mult_less_eq div_less_iff_less_mult mult.commute)
  then show ?thesis by (simp add: paged_def)
qed

lemma separated_mono: "separated n bs \<Longrightarrow> m \<le> n \<Longrightarrow> separated m bs"
  by (cases bs) auto

lemma separated_above: "separated n bs \<Longrightarrow> x \<in> covered bs \<Longrightarrow> n \<le> x"
proof (induction bs arbitrary: n)
  case (Cons b bs)
  obtain lo hi where b: "b = (lo, hi)" by (cases b)
  with Cons.prems have s: "n \<le> unat lo" "unat lo < unat hi" "separated (Suc (unat hi)) bs"
    by (auto simp: word_less_nat_alt)
  from Cons.prems(2) b Cons.IH [OF s(3)] s show ?case by force
qed simp

lemma separated_snoc:
  "separated n (bs @ [(lo, hi)]) \<longleftrightarrow>
     separated n bs \<and> lo < hi \<and> n \<le> unat lo \<and> (\<forall>(a, b) \<in> set bs. b < lo)"
proof (induction bs arbitrary: n)
  case (Cons p bs)
  obtain a b where "p = (a, b)" by (cases p)
  moreover have "separated (Suc (unat b)) (bs @ [(lo, hi)]) \<Longrightarrow> b < lo"
    using Cons.IH [of "Suc (unat b)"] by (simp add: word_less_nat_alt)
  ultimately show ?case using Cons.IH [of "Suc (unat b)"] by (auto simp: word_less_nat_alt)
qed auto

text \<open>The neighbours of an interval are not in the set.\<close>

lemma separated_gaps:
  "separated n bs \<Longrightarrow> (lo, hi) \<in> set bs \<Longrightarrow>
    lo < hi \<and> unat hi \<notin> covered bs \<and> (n < unat lo \<longrightarrow> unat lo - 1 \<notin> covered bs)"
proof (induction bs arbitrary: n)
  case (Cons b bs)
  obtain a c where b: "b = (a, c)" by (cases b)
  with Cons.prems have s: "n \<le> unat a" "unat a < unat c" "separated (Suc (unat c)) bs"
    by (auto simp: word_less_nat_alt)
  show ?case
  proof (cases "(lo, hi) = b")
    case True
    then have "lo = a" "hi = c" by (simp_all add: b)
    moreover have "unat c \<notin> covered bs" "unat a - 1 \<notin> covered bs"
      using separated_above [OF s(3)] s(2) by fastforce+
    ultimately show ?thesis using s by (auto simp: b word_less_nat_alt)
  next
    case False
    then have mem: "(lo, hi) \<in> set bs" using Cons.prems(2) by simp
    note IH = Cons.IH [OF s(3) mem]
    have "{unat lo..<unat hi} \<subseteq> covered bs" using mem by (force simp: covered_def)
    then have "Suc (unat c) \<le> unat lo"
      using separated_above [OF s(3), of "unat lo"] IH by (auto simp: word_less_nat_alt subset_iff)
    then show ?thesis
      using IH s separated_above [OF s(3), of "unat lo - 1"]
      by (cases "unat lo = Suc (unat c)") (auto simp: b word_less_nat_alt)
  qed
qed simp


text \<open>A run of members lies in one block.\<close>

lemma run_in_block:
  assumes "separated n bs" "a < b" "{a..<b} \<subseteq> covered bs"
  obtains lo hi where "(lo, hi) \<in> set bs" "unat lo \<le> a" "b \<le> unat hi"
proof -
  from assms(2,3) have "a \<in> covered bs" by auto
  then obtain lo hi where m: "(lo, hi) \<in> set bs" "unat lo \<le> a" "a < unat hi" by (auto simp: covered_def)
  moreover have "b \<le> unat hi"
  proof (rule ccontr)
    assume "\<not> b \<le> unat hi"
    then have "unat hi \<in> covered bs" using m(3) assms(3) by auto
    with separated_gaps [OF assms(1) m(1)] show False by simp
  qed
  ultimately show thesis using that by blast
qed

lemma block_subset: "(lo, hi) \<in> set bs \<Longrightarrow> {unat lo..<unat hi} \<subseteq> covered bs"
  by (force simp: covered_def)

lemma finite_covered [simp]: "finite (covered bs)"
  by (auto simp: covered_def)

text \<open>The blocks of a set of whole pages are aligned.\<close>

definition aligned_blocks :: "(u32 \<times> u32) list \<Rightarrow> bool" where
  "aligned_blocks bs \<longleftrightarrow> (\<forall>(lo, hi) \<in> set bs. 4096 dvd unat lo \<and> 4096 dvd unat hi)"

lemma same_page_below: "\<not> 4096 dvd n \<Longrightarrow> (n - 1) div 4096 = n div (4096 :: nat)"
  by (cases n) (simp_all add: div_Suc dvd_eq_mod_eq_0)

lemma paged_blocks_aligned:
  assumes "separated 0 bs" "paged (covered bs)"
  shows "aligned_blocks bs"
proof -
  have "4096 dvd unat lo \<and> 4096 dvd unat hi" if m: "(lo, hi) \<in> set bs" for lo hi
  proof -
    note gaps = separated_gaps [OF assms(1) m]
    then have lt: "unat lo < unat hi" by (simp add: word_less_nat_alt)
    have "unat lo \<in> covered bs" "unat hi - 1 \<in> covered bs" using block_subset [OF m] lt by auto
    moreover have "0 < unat lo \<Longrightarrow> unat lo - 1 \<notin> covered bs" "unat hi \<notin> covered bs" using gaps by simp_all
    ultimately show ?thesis
      using assms(2) same_page_below [of "unat lo"] same_page_below [of "unat hi"]
      unfolding paged_def by (metis dvd_0_right gr0I)
  qed
  then show ?thesis by (auto simp: aligned_blocks_def)
qed

text \<open>The first and the last block with room.\<close>

lemma find_first_block:
  "separated n bs \<Longrightarrow> find (\<lambda>(lo, hi). sz \<le> hi - lo) bs = Some (lo, hi) \<Longrightarrow>
    (lo, hi) \<in> set bs \<and> sz \<le> hi - lo \<and> (\<forall>(a, b) \<in> set bs. sz \<le> b - a \<longrightarrow> lo \<le> a)"
proof (induction bs arbitrary: n)
  case (Cons p bs)
  obtain a b where p: "p = (a, b)" by (cases p)
  with Cons.prems have s: "unat a < unat b" "separated (Suc (unat b)) bs" by (auto simp: word_less_nat_alt)
  have later: "unat b < unat c" if "(c, d) \<in> set bs" for c d
  proof -
    have "unat c \<in> covered bs"
      using block_subset [OF that] separated_gaps [OF s(2) that] by (auto simp: word_less_nat_alt)
    from separated_above [OF s(2) this] show ?thesis by simp
  qed
  show ?case
  proof (cases "sz \<le> b - a")
    case True
    with Cons.prems(2) have "lo = a" "hi = b" by (simp_all add: p)
    with True later s(1) show ?thesis by (fastforce simp: p word_le_nat_alt)
  next
    case False
    with Cons.prems(2) Cons.IH [OF s(2)] show ?thesis by (auto simp: p)
  qed
qed simp

lemma find_last_block:
  "separated n bs \<Longrightarrow> find (\<lambda>(lo, hi). sz \<le> hi - lo) (rev bs) = Some (lo, hi) \<Longrightarrow>
    (lo, hi) \<in> set bs \<and> sz \<le> hi - lo \<and> (\<forall>(a, b) \<in> set bs. sz \<le> b - a \<longrightarrow> b \<le> hi)"
proof (induction bs rule: rev_induct)
  case (snoc p bs)
  obtain a b where p: "p = (a, b)" by (cases p)
  with snoc.prems(1) have s: "separated n bs" "a < b" "\<forall>(c, d) \<in> set bs. d < a" by (auto simp: separated_snoc)
  show ?case
  proof (cases "sz \<le> b - a")
    case True
    with snoc.prems(2) have "lo = a" "hi = b" by (simp_all add: p)
    with True s(2,3) show ?thesis by (fastforce simp: p)
  next
    case False
    with snoc.prems(2) snoc.IH [OF s(1)] show ?thesis by (auto simp: p)
  qed
qed simp

section \<open>What the regions rely on\<close>

locale interval_set =
  fixes I :: "'i IntervalOps" and ok :: "'i \<Rightarrow> bool"
  assumes empty_ok: "ok (iset_empty I)" and empty_blocks: "iset_blocks I (iset_empty I) = []"
    and blocks_separated: "ok s \<Longrightarrow> separated 0 (iset_blocks I s)"
    and add_ok: "ok s \<Longrightarrow> ok (iset_add I s p)"
    and add_members: "ok s \<Longrightarrow> members I (iset_add I s p) = members I s \<union> span p"
    and sub_ok: "ok s \<Longrightarrow> ok (iset_sub I s p)"
    and sub_members: "ok s \<Longrightarrow> members I (iset_sub I s p) = members I s - span p"
    and add_all_ok: "ok s \<Longrightarrow> ok t \<Longrightarrow> ok (iset_add_all I s t)"
    and add_all_members: "ok s \<Longrightarrow> ok t \<Longrightarrow> members I (iset_add_all I s t) = members I s \<union> members I t"
    and sub_all_ok: "ok s \<Longrightarrow> ok t \<Longrightarrow> ok (iset_sub_all I s t)"
    and sub_all_members: "ok s \<Longrightarrow> ok t \<Longrightarrow> members I (iset_sub_all I s t) = members I s - members I t"
    and contains_iff: "ok s \<Longrightarrow> iset_contains I s p \<longleftrightarrow> span p \<subseteq> members I s"
    and intersects_iff: "ok s \<Longrightarrow> iset_intersects I s p \<longleftrightarrow> span p \<inter> members I s \<noteq> {}"

text \<open>
  The invariant of a region: whole pages of the free list inside the region, and the number of used
  bytes is that of the bytes which are not free.
\<close>

abbreviation free_bytes :: "'i IntervalOps \<Rightarrow> 'i MemoryRegionInfo \<Rightarrow> nat set" where
  "free_bytes I r \<equiv> members I (free_blocks r)"

definition extent :: "'i MemoryRegionInfo \<Rightarrow> nat set" where
  "extent r = {unat (mr_base r)..<unat (mr_base r) + unat (mr_size r)}"

definition region_ok :: "'i IntervalOps \<Rightarrow> ('i \<Rightarrow> bool) \<Rightarrow> 'i MemoryRegionInfo \<Rightarrow> bool" where
  "region_ok I ok r \<longleftrightarrow> ok (free_blocks r) \<and> free_bytes I r \<subseteq> extent r \<and> paged (free_bytes I r)
     \<and> unat (mr_base r) + unat (mr_size r) \<le> unat FCRAM_N3DS_SIZE
     \<and> unat (mr_used r) + card (free_bytes I r) = unat (mr_size r)"

lemma FCRAM_N3DS_SIZE_nat [simp]: "unat FCRAM_N3DS_SIZE = 0x10000000"
  by (simp add: FCRAM_N3DS_SIZE_def)

context interval_set begin

lemma empty_members [simp]: "members I (iset_empty I) = {}"
  by (simp add: empty_blocks)

text \<open>What the loop of the heap takes: the topmost bytes.\<close>

lemma heap_take_spec:
  "separated 0 bs \<Longrightarrow> ok res \<Longrightarrow> heap_take I (rev bs) rest res = (rest', res') \<Longrightarrow>
    \<exists>T. ok res' \<and> members I res' = members I res \<union> T \<and> T \<subseteq> covered bs
      \<and> card T + unat rest' = unat rest \<and> (\<forall>a \<in> T. \<forall>b \<in> covered bs - T. b < a)
      \<and> (rest' \<noteq> 0 \<longrightarrow> T = covered bs)
      \<and> (aligned_blocks bs \<longrightarrow> 4096 dvd unat rest \<longrightarrow> paged T)"
proof (induction bs arbitrary: rest res rule: rev_induct)
  case Nil
  then show ?case by (intro exI [of _ "{}"]) simp
next
  case (snoc p bs)
  obtain lo hi where p: "p = (lo, hi)" by (cases p)
  with snoc.prems(1) have s: "separated 0 bs" "lo < hi" and below: "\<forall>(a, b) \<in> set bs. b < lo"
    by (auto simp: separated_snoc)
  have size: "unat (hi - lo) = unat hi - unat lo" and lt: "unat lo < unat hi"
    using s(2) by (simp_all add: unat_minus_no_wrap word_less_nat_alt word_le_nat_alt)
  have bs: "x < unat lo" if "x \<in> covered bs" for x
    using that below by (auto simp: covered_def word_less_nat_alt)
  show ?case
  proof (cases "rest \<le> hi - lo")
    case True
    then have r: "rest' = 0" "res' = iset_add I res (hi - rest, hi)" using snoc.prems(3) by (simp_all add: p)
    have "rest \<le> hi" using True size by (simp add: word_le_nat_alt)
    then have start: "unat (hi - rest) = unat hi - unat rest" by (simp add: unat_sub)
    have "unat lo \<le> unat hi - unat rest" "unat rest \<le> unat hi"
      using True size lt by (simp_all add: word_le_nat_alt)
    note start' = this
    let ?T = "{unat hi - unat rest..<unat hi}"
    have "members I res' = members I res \<union> ?T"
      using add_members [OF snoc.prems(2)] start by (simp add: r)
    moreover have "?T \<subseteq> covered (bs @ [p])" using start' by (auto simp: p)
    moreover have "card ?T + unat rest' = unat rest" using start' by (simp add: r)
    moreover have "\<forall>a \<in> ?T. \<forall>b \<in> covered (bs @ [p]) - ?T. b < a" using bs start' by (fastforce simp: p)
    moreover have "paged ?T" if "aligned_blocks (bs @ [p])" "4096 dvd unat rest"
      using that by (intro paged_interval) (auto simp: aligned_blocks_def p intro: dvd_diff_nat)
    ultimately show ?thesis using add_ok [OF snoc.prems(2)] by (intro exI [of _ ?T]) (simp add: r)
  next
    case False
    then have rest: "unat (rest - (hi - lo)) = unat rest - (unat hi - unat lo)" "unat hi - unat lo \<le> unat rest"
      using size by (simp_all add: unat_sub word_le_nat_alt)
    have take: "heap_take I (rev bs) (rest - (hi - lo)) (iset_add I res (lo, hi)) = (rest', res')"
      using snoc.prems(3) False by (simp add: p)
    from snoc.IH [OF s(1) add_ok [OF snoc.prems(2)] take] obtain T where
      T: "ok res'" "members I res' = members I (iset_add I res (lo, hi)) \<union> T" "T \<subseteq> covered bs"
        "card T + unat rest' = unat (rest - (hi - lo))" "\<forall>a \<in> T. \<forall>b \<in> covered bs - T. b < a"
        "rest' \<noteq> 0 \<longrightarrow> T = covered bs"
        "aligned_blocks bs \<longrightarrow> 4096 dvd unat (rest - (hi - lo)) \<longrightarrow> paged T" by blast
    have disj: "T \<inter> {unat lo..<unat hi} = {}" using T(3) bs by fastforce
    have "finite T" using T(3) finite_covered finite_subset by blast
    then have "card (T \<union> {unat lo..<unat hi}) = card T + (unat hi - unat lo)"
      using disj by (simp add: card_Un_disjoint)
    moreover have "paged (T \<union> {unat lo..<unat hi})" if "aligned_blocks (bs @ [p])" "4096 dvd unat rest"
      using that T(7) rest by (intro paged_Un paged_interval) (auto simp: aligned_blocks_def p)
    moreover have "\<forall>a \<in> T \<union> {unat lo..<unat hi}. \<forall>b \<in> covered (bs @ [p]) - (T \<union> {unat lo..<unat hi}). b < a"
      using T(5) bs by (fastforce simp: p)
    moreover have "members I res' = members I res \<union> (T \<union> {unat lo..<unat hi})"
      using T(2) add_members [OF snoc.prems(2), of "(lo, hi)"] by auto
    moreover have "rest' \<noteq> 0 \<longrightarrow> T \<union> {unat lo..<unat hi} = covered (bs @ [p])" using T(6) by (auto simp: p)
    moreover have "T \<union> {unat lo..<unat hi} \<subseteq> covered (bs @ [p])" using T(3) by (auto simp: p)
    moreover have "card T + (unat hi - unat lo) + unat rest' = unat rest" using T(4) rest by simp
    ultimately show ?thesis using T(1) by (intro exI [of _ "T \<union> {unat lo..<unat hi}"]) simp
  qed
qed

lemma free_list:
  assumes "region_ok I ok r"
  shows "ok (free_blocks r)" "separated 0 (iset_blocks I (free_blocks r))"
    "aligned_blocks (iset_blocks I (free_blocks r))"
  using assms blocks_separated paged_blocks_aligned by (auto simp: region_ok_def)

text \<open>Taking free bytes out of the free list, and giving used ones back.\<close>

lemma region_take:
  assumes r: "region_ok I ok r" and s: "ok s" "members I s = free_bytes I r - T"
    and T: "T \<subseteq> free_bytes I r" "card T = unat sz" "paged T"
  shows "region_ok I ok (r\<lparr>free_blocks := s, mr_used := mr_used r + sz\<rparr>)"
proof -
  have fin: "finite T" using T(1) finite_covered by (rule finite_subset)
  have c: "card (free_bytes I r - T) + unat sz = card (free_bytes I r)"
    using card_Diff_subset [OF fin T(1)] card_mono [OF finite_covered T(1)] T(2) by simp
  have bound: "unat (mr_used r) + card (free_bytes I r) = unat (mr_size r)"
    using r by (simp add: region_ok_def)
  then have "unat (mr_used r + sz) = unat (mr_used r) + unat sz"
    using c unat_lt_u32 [of "mr_size r"] by (intro unat_plus_no_wrap_u32) linarith
  with bound c r s T(3) show ?thesis by (auto simp: region_ok_def extent_def intro: paged_Diff)
qed

lemma region_give:
  assumes r: "region_ok I ok r" and s: "ok s" "members I s = free_bytes I r \<union> T"
    and T: "T \<subseteq> extent r" "T \<inter> free_bytes I r = {}" "card T = unat sz" "paged T"
  shows "region_ok I ok (r\<lparr>free_blocks := s, mr_used := mr_used r - sz\<rparr>)"
proof -
  have fin: "finite T" using T(1) by (rule finite_subset) (simp add: extent_def)
  have c: "card (free_bytes I r \<union> T) = card (free_bytes I r) + unat sz"
    using card_Un_disjoint [of T "free_bytes I r"] fin T(2,3) by (simp add: Un_commute)
  have bound: "unat (mr_used r) + card (free_bytes I r) = unat (mr_size r)"
    using r by (simp add: region_ok_def)
  have "free_bytes I r \<union> T \<subseteq> extent r" using r T(1) by (simp add: region_ok_def)
  then have "card (free_bytes I r \<union> T) \<le> unat (mr_size r)"
    by (metis card_atLeastLessThan card_mono diff_add_inverse extent_def finite_atLeastLessThan)
  then have "unat (mr_used r - sz) = unat (mr_used r) - unat sz" "unat sz \<le> unat (mr_used r)"
    using c bound by (simp_all add: unat_minus_no_wrap word_le_nat_alt)
  with bound c r s T show ?thesis by (auto simp: region_ok_def extent_def intro: paged_Un)
qed

lemma Region_HeapAllocate_spec:
  assumes r: "region_ok I ok r" "\<not> mr_locked r"
  shows "if unat sz \<le> card (free_bytes I r)
    then \<exists>res r'. Region_HeapAllocate I sz r = Some (res, r') \<and> ok res \<and> members I res \<subseteq> free_bytes I r
      \<and> card (members I res) = unat sz \<and> (\<forall>a \<in> members I res. \<forall>b \<in> free_bytes I r - members I res. b < a)
      \<and> free_bytes I r' = free_bytes I r - members I res \<and> mr_used r' = mr_used r + sz
      \<and> mr_base r' = mr_base r \<and> mr_size r' = mr_size r \<and> \<not> mr_locked r'
      \<and> (4096 dvd unat sz \<longrightarrow> region_ok I ok r' \<and> paged (members I res))
    else Region_HeapAllocate I sz r = Some (iset_empty I, r)"
proof -
  note fl = free_list [OF r(1)]
  obtain rest res where take: "heap_take I (rev (iset_blocks I (free_blocks r))) sz (iset_empty I) = (rest, res)"
    by (cases "heap_take I (rev (iset_blocks I (free_blocks r))) sz (iset_empty I)")
  from heap_take_spec [OF fl(2) empty_ok take] fl(3) have
    res: "ok res" "members I res \<subseteq> free_bytes I r" "card (members I res) + unat rest = unat sz"
      "\<forall>a \<in> members I res. \<forall>b \<in> free_bytes I r - members I res. b < a"
      "rest \<noteq> 0 \<longrightarrow> members I res = free_bytes I r" "4096 dvd unat sz \<longrightarrow> paged (members I res)"
    by auto
  show ?thesis
  proof (cases "unat sz \<le> card (free_bytes I r)")
    case True
    then have rest: "rest = 0" using res(3,5) by (metis add_le_same_cancel1 le_zero_eq unat_eq_0)
    let ?r' = "r\<lparr>free_blocks := iset_sub_all I (free_blocks r) res, mr_used := mr_used r + sz\<rparr>"
    have m: "members I (iset_sub_all I (free_blocks r) res) = free_bytes I r - members I res"
      by (rule sub_all_members [OF fl(1) res(1)])
    have "Region_HeapAllocate I sz r = Some (res, ?r')"
      using r(2) take rest by (simp add: Region_HeapAllocate_def)
    moreover have "region_ok I ok ?r'" if "4096 dvd unat sz"
      using region_take [OF r(1) sub_all_ok [OF fl(1) res(1)] m res(2)] res(3,6) rest that by simp
    ultimately show ?thesis using True res rest m r(2) by auto
  next
    case False
    then have "rest \<noteq> 0" using res(2,3) card_mono [OF finite_covered res(2)] by auto
    with False r(2) take show ?thesis by (simp add: Region_HeapAllocate_def)
  qed
qed

text \<open>An interval taken out of the free list, or put back.\<close>

lemma take_span:
  assumes r: "region_ok I ok r" and T: "span p = T" "T \<subseteq> free_bytes I r" "card T = unat sz"
  defines "r' \<equiv> r\<lparr>free_blocks := iset_sub I (free_blocks r) p, mr_used := mr_used r + sz\<rparr>"
  shows "free_bytes I r' = free_bytes I r - T" "paged T \<Longrightarrow> region_ok I ok r'"
  using region_take [OF r sub_ok [OF free_list(1) [OF r]] _ T(2,3), of p]
    sub_members [OF free_list(1) [OF r], of p] T(1) by (simp_all add: r'_def)

lemma give_span:
  assumes r: "region_ok I ok r" and T: "span p = T" "T \<subseteq> extent r" "T \<inter> free_bytes I r = {}" "card T = unat sz"
  defines "r' \<equiv> r\<lparr>free_blocks := iset_add I (free_blocks r) p, mr_used := mr_used r - sz\<rparr>"
  shows "free_bytes I r' = free_bytes I r \<union> T" "paged T \<Longrightarrow> region_ok I ok r'"
  using region_give [OF r add_ok [OF free_list(1) [OF r]] _ T(2-4), of p]
    add_members [OF free_list(1) [OF r], of p] T(1) by (simp_all add: r'_def)

lemma Region_LinearAllocateAt_spec:
  assumes r: "region_ok I ok r" "\<not> mr_locked r" and nowrap: "unat offset + unat sz < 4294967296"
  defines "T \<equiv> {unat offset..<unat offset + unat sz}"
  shows "if T \<subseteq> free_bytes I r
    then \<exists>r'. Region_LinearAllocateAt I offset sz r = Some (True, r') \<and> free_bytes I r' = free_bytes I r - T
      \<and> mr_used r' = mr_used r + sz \<and> mr_base r' = mr_base r \<and> mr_size r' = mr_size r \<and> \<not> mr_locked r'
      \<and> (4096 dvd unat offset \<longrightarrow> 4096 dvd unat sz \<longrightarrow> region_ok I ok r')
    else Region_LinearAllocateAt I offset sz r = Some (False, r)"
proof -
  have span: "span (offset, offset + sz) = T" using nowrap by (simp add: T_def unat_plus_no_wrap_u32)
  have T: "card T = unat sz" "4096 dvd unat offset \<Longrightarrow> 4096 dvd unat sz \<Longrightarrow> paged T"
    by (simp_all add: T_def paged_interval)
  note c = contains_iff [OF free_list(1) [OF r(1)], of "(offset, offset + sz)", unfolded span]
  show ?thesis
  proof (cases "T \<subseteq> free_bytes I r")
    case True
    from take_span [OF r(1) span this T(1)] True r(2) T(2) show ?thesis
      by (simp add: Region_LinearAllocateAt_def c)
  next
    case False
    with r(2) show ?thesis by (simp add: Region_LinearAllocateAt_def c)
  qed
qed

text \<open>Only a block with room for a run can hold it.\<close>

lemma run_has_room:
  assumes r: "region_ok I ok r" and "0 < unat sz" "{o'..<o' + unat sz} \<subseteq> free_bytes I r"
  obtains lo hi where "(lo, hi) \<in> set (iset_blocks I (free_blocks r))" "sz \<le> hi - lo"
    "unat lo \<le> o'" "o' + unat sz \<le> unat hi"
proof -
  obtain lo hi where b: "(lo, hi) \<in> set (iset_blocks I (free_blocks r))" "unat lo \<le> o'" "o' + unat sz \<le> unat hi"
    using run_in_block [OF free_list(2) [OF r] _ assms(3)] assms(2) by auto
  moreover have "sz \<le> hi - lo" using b(2,3) by (simp add: word_le_nat_alt unat_minus_no_wrap)
  ultimately show thesis using that by blast
qed

lemma block_run:
  assumes r: "region_ok I ok r" and b: "(lo, hi) \<in> set (iset_blocks I (free_blocks r))" "sz \<le> hi - lo"
  shows "unat (lo + sz) = unat lo + unat sz" "unat (hi - sz) = unat hi - unat sz"
    "unat lo + unat sz \<le> unat hi" "{unat lo..<unat hi} \<subseteq> free_bytes I r" "4096 dvd unat lo" "4096 dvd unat hi"
proof -
  have lt: "lo < hi" using separated_gaps [OF free_list(2) [OF r] b(1)] by simp
  then have "unat sz \<le> unat hi - unat lo"
    using b(2) unat_minus_no_wrap [OF less_imp_le [OF lt]] by (simp add: word_le_nat_alt)
  moreover have "unat lo < unat hi" using lt by (simp add: word_less_nat_alt)
  ultimately show le: "unat lo + unat sz \<le> unat hi" by simp
  then show "unat (lo + sz) = unat lo + unat sz" "unat (hi - sz) = unat hi - unat sz"
    using unat_lt_u32 [of hi] by (simp_all add: unat_plus_no_wrap_u32 unat_minus_no_wrap word_le_nat_alt)
  show "{unat lo..<unat hi} \<subseteq> free_bytes I r" by (rule block_subset [OF b(1)])
  show "4096 dvd unat lo" "4096 dvd unat hi"
    using free_list(3) [OF r] b(1) by (auto simp: aligned_blocks_def)
qed

lemma find_None_no_room:
  assumes r: "region_ok I ok r" and "0 < unat sz"
    and none: "\<forall>(lo, hi) \<in> set (iset_blocks I (free_blocks r)). \<not> sz \<le> hi - lo"
  shows "\<not> {o'..<o' + unat sz} \<subseteq> free_bytes I r"
  using run_has_room [OF assms(1,2)] none by fast

text \<open>The lowest, and the highest, place.\<close>

lemma Region_LinearAllocate_spec:
  assumes r: "region_ok I ok r" "\<not> mr_locked r" and sz: "0 < unat sz"
  shows "if \<exists>k. {k..<k + unat sz} \<subseteq> free_bytes I r
    then \<exists>off r'. Region_LinearAllocate I sz r = Some (Some off, r')
      \<and> {unat off..<unat off + unat sz} \<subseteq> free_bytes I r
      \<and> (\<forall>k. {k..<k + unat sz} \<subseteq> free_bytes I r \<longrightarrow> unat off \<le> k)
      \<and> free_bytes I r' = free_bytes I r - {unat off..<unat off + unat sz} \<and> mr_used r' = mr_used r + sz
      \<and> mr_base r' = mr_base r \<and> mr_size r' = mr_size r \<and> \<not> mr_locked r' \<and> 4096 dvd unat off
      \<and> (4096 dvd unat sz \<longrightarrow> region_ok I ok r')
    else Region_LinearAllocate I sz r = Some (None, r)"
proof (cases "find (\<lambda>(lo, hi). sz \<le> hi - lo) (iset_blocks I (free_blocks r))")
  case None
  then have "\<forall>(lo, hi) \<in> set (iset_blocks I (free_blocks r)). \<not> sz \<le> hi - lo" by (auto simp: find_None_iff)
  from find_None_no_room [OF r(1) sz this] None r(2) show ?thesis by (simp add: Region_LinearAllocate_def)
next
  case (Some b)
  obtain lo hi where b: "b = (lo, hi)" by (cases b)
  from find_first_block [OF free_list(2) [OF r(1)] Some [unfolded b]] have
    f: "(lo, hi) \<in> set (iset_blocks I (free_blocks r))" "sz \<le> hi - lo"
      "\<forall>(x, y) \<in> set (iset_blocks I (free_blocks r)). sz \<le> y - x \<longrightarrow> lo \<le> x" by blast+
  note run = block_run [OF r(1) f(1,2)]
  let ?T = "{unat lo..<unat lo + unat sz}"
  have span: "span (lo, lo + sz) = ?T" by (simp add: run(1))
  have sub: "?T \<subseteq> free_bytes I r" using run(3,4) by fastforce
  have low: "unat lo \<le> k" if "{k..<k + unat sz} \<subseteq> free_bytes I r" for k
    using run_has_room [OF r(1) sz that] f(3) by (fastforce simp: word_le_nat_alt)
  have "paged ?T" if "4096 dvd unat sz" using run(5) that by (intro paged_interval) simp_all
  with take_span [OF r(1) span sub, of sz] sub low run(5) r(2) Some b show ?thesis
    by (auto simp: Region_LinearAllocate_def)
qed

lemma Region_RLinearAllocate_spec:
  assumes r: "region_ok I ok r" "\<not> mr_locked r" and sz: "0 < unat sz"
  shows "if \<exists>k. {k..<k + unat sz} \<subseteq> free_bytes I r
    then \<exists>off r'. Region_RLinearAllocate I sz r = Some (Some off, r')
      \<and> {unat off..<unat off + unat sz} \<subseteq> free_bytes I r
      \<and> (\<forall>k. {k..<k + unat sz} \<subseteq> free_bytes I r \<longrightarrow> k \<le> unat off)
      \<and> free_bytes I r' = free_bytes I r - {unat off..<unat off + unat sz} \<and> mr_used r' = mr_used r + sz
      \<and> mr_base r' = mr_base r \<and> mr_size r' = mr_size r \<and> \<not> mr_locked r'
      \<and> (4096 dvd unat sz \<longrightarrow> region_ok I ok r')
    else Region_RLinearAllocate I sz r = Some (None, r)"
proof (cases "find (\<lambda>(lo, hi). sz \<le> hi - lo) (rev (iset_blocks I (free_blocks r)))")
  case None
  then have "\<forall>(lo, hi) \<in> set (iset_blocks I (free_blocks r)). \<not> sz \<le> hi - lo" by (auto simp: find_None_iff)
  from find_None_no_room [OF r(1) sz this] None r(2) show ?thesis by (simp add: Region_RLinearAllocate_def)
next
  case (Some b)
  obtain lo hi where b: "b = (lo, hi)" by (cases b)
  from find_last_block [OF free_list(2) [OF r(1)] Some [unfolded b]] have
    f: "(lo, hi) \<in> set (iset_blocks I (free_blocks r))" "sz \<le> hi - lo"
      "\<forall>(x, y) \<in> set (iset_blocks I (free_blocks r)). sz \<le> y - x \<longrightarrow> y \<le> hi" by blast+
  note run = block_run [OF r(1) f(1,2)]
  let ?T = "{unat hi - unat sz..<unat hi - unat sz + unat sz}"
  have eq: "unat hi - unat sz + unat sz = unat hi" using run(3) by simp
  have span: "span (hi - sz, hi) = ?T" unfolding eq by (simp add: run(2))
  have sub: "?T \<subseteq> free_bytes I r" unfolding eq using run(3,4) by fastforce
  have high: "k \<le> unat hi - unat sz" if k: "{k..<k + unat sz} \<subseteq> free_bytes I r" for k
  proof -
    obtain x y where xy: "(x, y) \<in> set (iset_blocks I (free_blocks r))" "sz \<le> y - x" "k + unat sz \<le> unat y"
      using run_has_room [OF r(1) sz k] by blast
    then have "unat y \<le> unat hi" using f(3) by (auto simp: word_le_nat_alt)
    with xy(3) show ?thesis by linarith
  qed
  have "paged ?T" if "4096 dvd unat sz" unfolding eq using run(6) that
    by (intro paged_interval) (simp_all add: dvd_diff_nat)
  then have t: "4096 dvd unat sz \<longrightarrow> region_ok I ok (r\<lparr>free_blocks := iset_sub I (free_blocks r) (hi - sz, hi),
      mr_used := mr_used r + sz\<rparr>)"
    using take_span(2) [OF r(1) span sub] by simp
  have eqn: "Region_RLinearAllocate I sz r = Some (Some (hi - sz),
      r\<lparr>free_blocks := iset_sub I (free_blocks r) (hi - sz, hi), mr_used := mr_used r + sz\<rparr>)"
    using Some b r(2) by (simp add: Region_RLinearAllocate_def)
  have "\<exists>k. {k..<k + unat sz} \<subseteq> free_bytes I r" using sub by blast
  then show ?thesis
    unfolding eqn using take_span(1) [OF r(1) span sub, of sz] t sub high r(2)
    by (simp add: run(2))
qed

lemma Region_Free_spec:
  assumes r: "region_ok I ok r" "\<not> mr_locked r" and nowrap: "unat offset + unat sz < 4294967296"
  defines "T \<equiv> {unat offset..<unat offset + unat sz}"
  shows "if T \<inter> free_bytes I r \<noteq> {} then Region_Free I offset sz r = None
    else \<exists>r'. Region_Free I offset sz r = Some r' \<and> free_bytes I r' = free_bytes I r \<union> T
      \<and> mr_used r' = mr_used r - sz \<and> mr_base r' = mr_base r \<and> mr_size r' = mr_size r \<and> \<not> mr_locked r'
      \<and> (T \<subseteq> extent r \<longrightarrow> 4096 dvd unat offset \<longrightarrow> 4096 dvd unat sz \<longrightarrow> region_ok I ok r')"
proof -
  have span: "span (offset, offset + sz) = T" using nowrap by (simp add: T_def unat_plus_no_wrap_u32)
  have T: "card T = unat sz" "4096 dvd unat offset \<Longrightarrow> 4096 dvd unat sz \<Longrightarrow> paged T"
    by (simp_all add: T_def paged_interval)
  note i = intersects_iff [OF free_list(1) [OF r(1)], of "(offset, offset + sz)", unfolded span]
  note a = add_members [OF free_list(1) [OF r(1)], of "(offset, offset + sz)", unfolded span]
  show ?thesis
  proof (cases "T \<inter> free_bytes I r = {}")
    case True
    then show ?thesis
      using give_span(2) [OF r(1) span _ True T(1)] T(2) r(2) by (simp add: Region_Free_def i a)
  next
    case False
    with r(2) show ?thesis by (simp add: Region_Free_def i)
  qed
qed

lemma Region_Reset_spec:
  assumes "\<not> mr_locked r" "4096 dvd unat base" "4096 dvd unat sz" "unat base + unat sz \<le> unat FCRAM_N3DS_SIZE"
  shows "\<exists>r'. Region_Reset I base sz r = Some r' \<and> region_ok I ok r' \<and> free_bytes I r' = extent r'
    \<and> mr_base r' = base \<and> mr_size r' = sz \<and> \<not> mr_locked r'"
proof -
  have e: "unat (base + sz) = unat base + unat sz" using assms(4) by (simp add: unat_plus_no_wrap_u32)
  have "paged {unat base..<unat base + unat sz}" using assms(2,3) by (intro paged_interval) simp_all
  then show ?thesis
    using assms add_ok [OF empty_ok] add_members [OF empty_ok]
    by (simp add: Region_Reset_def region_ok_def extent_def e)
qed

end

section \<open>A set as a list\<close>

fun list_insert_block :: "u32 \<Rightarrow> u32 \<Rightarrow> (u32 \<times> u32) list \<Rightarrow> (u32 \<times> u32) list" where
  "list_insert_block lo hi [] = [(lo, hi)]"
| "list_insert_block lo hi ((a, b) # bs) =
     (if hi < a then (lo, hi) # (a, b) # bs
      else if b < lo then (a, b) # list_insert_block lo hi bs
      else list_insert_block (min lo a) (max hi b) bs)"

definition list_add :: "(u32 \<times> u32) list \<Rightarrow> u32 \<times> u32 \<Rightarrow> (u32 \<times> u32) list" where
  "list_add bs p = (if fst p < snd p then list_insert_block (fst p) (snd p) bs else bs)"

fun cut_block :: "u32 \<times> u32 \<Rightarrow> u32 \<times> u32 \<Rightarrow> (u32 \<times> u32) list" where
  "cut_block (lo, hi) (a, b) =
     (if a < min b lo then [(a, min b lo)] else []) @ (if max a hi < b then [(max a hi, b)] else [])"

definition list_sub :: "(u32 \<times> u32) list \<Rightarrow> u32 \<times> u32 \<Rightarrow> (u32 \<times> u32) list" where
  "list_sub bs p = (if fst p < snd p then concat (map (cut_block p) bs) else bs)"

definition list_set_ops :: "(u32 \<times> u32) list IntervalOps" where
  "list_set_ops = \<lparr>iset_empty = [], iset_blocks = (\<lambda>bs. bs), iset_add = list_add, iset_sub = list_sub,
     iset_add_all = foldl list_add, iset_sub_all = foldl list_sub,
     iset_contains = (\<lambda>bs (lo, hi). hi \<le> lo \<or> (\<exists>(a, b) \<in> set bs. a \<le> lo \<and> hi \<le> b)),
     iset_intersects = (\<lambda>bs (lo, hi). \<exists>(a, b) \<in> set bs. max a lo < min b hi)\<rparr>"

lemma list_insert_block_spec:
  "separated n bs \<Longrightarrow> lo < hi \<Longrightarrow> m \<le> n \<Longrightarrow> m \<le> unat lo \<Longrightarrow>
    separated m (list_insert_block lo hi bs) \<and> covered (list_insert_block lo hi bs) = covered bs \<union> {unat lo..<unat hi}"
proof (induction lo hi bs arbitrary: n m rule: list_insert_block.induct)
  case (2 lo hi a b bs)
  from "2.prems"(1) have s: "n \<le> unat a" "unat a < unat b" "separated (Suc (unat b)) bs"
    by (auto simp: word_less_nat_alt)
  consider "hi < a" | "\<not> hi < a" "b < lo" | "\<not> hi < a" "\<not> b < lo" by blast
  then show ?case
  proof cases
    case 1
    with s "2.prems" show ?thesis by (auto simp: word_less_nat_alt)
  next
    case 2
    with "2.IH"(1) [OF 2 s(3) "2.prems"(2) order_refl] s "2.prems" show ?thesis
      by (auto simp: word_less_nat_alt)
  next
    case 3
    have nat: "unat (min lo a) = min (unat lo) (unat a)" "unat (max hi b) = max (unat hi) (unat b)"
      by (simp_all add: min_def max_def word_le_nat_alt)
    have "min lo a < max hi b" using "2.prems"(2) by (simp add: min_less_iff_disj less_max_iff_disj)
    moreover have "m \<le> Suc (unat b)" "m \<le> unat (min lo a)" using s "2.prems"(3,4) by (simp_all add: nat)
    ultimately have IH: "separated m (list_insert_block (min lo a) (max hi b) bs)"
      "covered (list_insert_block (min lo a) (max hi b) bs) = covered bs \<union> {unat (min lo a)..<unat (max hi b)}"
      using "2.IH"(2) [OF 3 s(3)] by blast+
    have "{unat (min lo a)..<unat (max hi b)} = {unat a..<unat b} \<union> {unat lo..<unat hi}"
      using 3 s(2) "2.prems"(2) unfolding nat by (auto simp: word_less_nat_alt)
    with IH 3 show ?thesis by (simp add: Un_ac)
  qed
qed (simp add: word_less_nat_alt)

lemma list_add_spec:
  assumes "separated 0 bs"
  shows "separated 0 (list_add bs p)" "covered (list_add bs p) = covered bs \<union> span p"
  using list_insert_block_spec [OF assms, of "fst p" "snd p" 0] assms
  by (cases p; simp add: list_add_def word_less_nat_alt)+

lemma list_sub_spec:
  "separated n bs \<Longrightarrow> lo < hi \<Longrightarrow> separated n (list_sub bs (lo, hi))
    \<and> covered (list_sub bs (lo, hi)) = covered bs - {unat lo..<unat hi}"
proof (induction bs arbitrary: n)
  case (Cons p bs)
  obtain a b where p: "p = (a, b)" by (cases p)
  from Cons.prems(1) have s: "n \<le> unat a" "unat a < unat b" "separated (Suc (unat b)) bs"
    by (auto simp: p word_less_nat_alt)
  have tail: "list_sub (p # bs) (lo, hi) = cut_block (lo, hi) (a, b) @ list_sub bs (lo, hi)"
    using Cons.prems(2) by (simp add: list_sub_def p)
  note IH = Cons.IH [OF s(3) Cons.prems(2)]
  have nat: "unat (min b lo) = min (unat b) (unat lo)" "unat (max a hi) = max (unat a) (unat hi)"
    by (simp_all add: min_def max_def word_le_nat_alt)
  have "separated m (list_sub bs (lo, hi))" if "m \<le> Suc (unat b)" for m
    using IH that separated_mono by blast
  with IH s Cons.prems(2) show ?case
    unfolding tail by (auto simp: p nat word_less_nat_alt)
qed (simp add: list_sub_def)


lemma list_sub_span:
  assumes "separated 0 bs"
  shows "separated 0 (list_sub bs p)" "covered (list_sub bs p) = covered bs - span p"
  using list_sub_spec [OF assms, of "fst p" "snd p"] assms
  by (cases p; cases "fst p < snd p"; simp add: list_sub_def word_less_nat_alt)+

lemma foldl_list_add:
  "separated 0 s \<Longrightarrow> separated 0 (foldl list_add s t) \<and> covered (foldl list_add s t) = covered s \<union> covered t"
  by (induction t arbitrary: s) (auto simp: list_add_spec)

lemma foldl_list_sub:
  "separated 0 s \<Longrightarrow> separated 0 (foldl list_sub s t) \<and> covered (foldl list_sub s t) = covered s - covered t"
  by (induction t arbitrary: s) (auto simp: list_sub_span)

lemma list_contains:
  assumes "separated 0 bs"
  shows "span (lo, hi) \<subseteq> covered bs \<longleftrightarrow> hi \<le> lo \<or> (\<exists>(a, b) \<in> set bs. a \<le> lo \<and> hi \<le> b)"
proof (cases "hi \<le> lo")
  case False
  then have lt: "unat lo < unat hi" by (simp add: word_le_nat_alt)
  show ?thesis
  proof
    assume "span (lo, hi) \<subseteq> covered bs"
    then have "{unat lo..<unat hi} \<subseteq> covered bs" by simp
    from run_in_block [OF assms lt this] show "hi \<le> lo \<or> (\<exists>(a, b) \<in> set bs. a \<le> lo \<and> hi \<le> b)"
      by (metis (no_types, lifting) case_prodI word_le_nat_alt)
  next
    assume "hi \<le> lo \<or> (\<exists>(a, b) \<in> set bs. a \<le> lo \<and> hi \<le> b)"
    with False obtain a b where m: "(a, b) \<in> set bs" "unat a \<le> unat lo" "unat hi \<le> unat b"
      by (auto simp: word_le_nat_alt)
    then have "span (lo, hi) \<subseteq> {unat a..<unat b}" by simp
    then show "span (lo, hi) \<subseteq> covered bs" using block_subset [OF m(1)] by (rule subset_trans)
  qed
qed (simp add: word_le_nat_alt)

lemma list_intersects:
  "span (lo, hi) \<inter> covered bs \<noteq> {} \<longleftrightarrow> (\<exists>(a, b) \<in> set bs. max a lo < min b hi)"
proof -
  have "span (lo, hi) \<inter> {unat a..<unat b} \<noteq> {} \<longleftrightarrow> max a lo < min b hi" for a b
  proof
    assume "span (lo, hi) \<inter> {unat a..<unat b} \<noteq> {}"
    then obtain x where "x \<in> {unat lo..<unat hi}" "x \<in> {unat a..<unat b}" by (simp only: span.simps) blast
    then show "max a lo < min b hi" by (simp add: word_less_nat_alt max_def min_def)
  next
    assume "max a lo < min b hi"
    then have "unat (max a lo) \<in> span (lo, hi) \<inter> {unat a..<unat b}"
      by (auto simp: word_less_nat_alt max_def min_def word_le_nat_alt split: if_splits)
    then show "span (lo, hi) \<inter> {unat a..<unat b} \<noteq> {}" by blast
  qed
  then have one: "(case q of (a, b) \<Rightarrow> max a lo < min b hi) \<longleftrightarrow> span (lo, hi) \<inter> span q \<noteq> {}" for q
    by (cases q) simp
  have "span (lo, hi) \<inter> covered bs \<noteq> {} \<longleftrightarrow> (\<exists>q \<in> set bs. span (lo, hi) \<inter> span q \<noteq> {})"
    unfolding covered_def by blast
  then show ?thesis unfolding one .
qed

interpretation list_set: interval_set list_set_ops "separated 0"
proof unfold_locales
  fix s t :: "(u32 \<times> u32) list" and p :: "u32 \<times> u32"
  show "separated 0 (iset_empty list_set_ops)" "iset_blocks list_set_ops (iset_empty list_set_ops) = []"
    by (simp_all add: list_set_ops_def)
  assume s: "separated 0 s"
  show "separated 0 (iset_blocks list_set_ops s)" using s by (simp add: list_set_ops_def)
  show "separated 0 (iset_add list_set_ops s p)" "members list_set_ops (iset_add list_set_ops s p) = members list_set_ops s \<union> span p"
    using list_add_spec [OF s] by (simp_all add: list_set_ops_def)
  show "separated 0 (iset_sub list_set_ops s p)" "members list_set_ops (iset_sub list_set_ops s p) = members list_set_ops s - span p"
    using list_sub_span [OF s] by (simp_all add: list_set_ops_def)
  show "iset_contains list_set_ops s p \<longleftrightarrow> span p \<subseteq> members list_set_ops s"
    using list_contains [OF s, of "fst p" "snd p"] by (cases p) (simp add: list_set_ops_def)
  show "iset_intersects list_set_ops s p \<longleftrightarrow> span p \<inter> members list_set_ops s \<noteq> {}"
    using list_intersects [of "fst p" "snd p" s] by (cases p) (simp add: list_set_ops_def)
  assume "separated 0 t"
  show "separated 0 (iset_add_all list_set_ops s t)"
    "members list_set_ops (iset_add_all list_set_ops s t) = members list_set_ops s \<union> members list_set_ops t"
    using foldl_list_add [OF s] by (simp_all add: list_set_ops_def)
  show "separated 0 (iset_sub_all list_set_ops s t)"
    "members list_set_ops (iset_sub_all list_set_ops s t) = members list_set_ops s - members list_set_ops t"
    using foldl_list_sub [OF s] by (simp_all add: list_set_ops_def)
qed

section \<open>Start-up\<close>

text \<open>The three regions follow one another, entirely free, and make up the whole FCRAM.\<close>

context interval_set begin

lemma MemoryInit_spec:
  assumes rs: "rs = [r1, r2, r3]" "\<not> mr_locked r1" "\<not> mr_locked r2" "\<not> mr_locked r3"
  shows "\<exists>q1 q2 q3. MemoryInit I is_new_3ds memory_mode n3ds_mode rs = Some [q1, q2, q3]
    \<and> (\<forall>q \<in> {q1, q2, q3}. region_ok I ok q \<and> free_bytes I q = extent q \<and> \<not> mr_locked q)
    \<and> mr_base q1 = 0 \<and> mr_base q2 = mr_base q1 + mr_size q1 \<and> mr_base q3 = mr_base q2 + mr_size q2
    \<and> mr_base q3 + mr_size q3 = (if is_new_3ds then FCRAM_N3DS_SIZE else FCRAM_SIZE)"
proof -
  define row where "row = memory_region_sizes ! fst (mem_type_of is_new_3ds memory_mode n3ds_mode)"
  have "row \<in> (if is_new_3ds then {[0x07C00000, 0x06400000, 0x02000000], [0x0B200000, 0x02E00000, 0x02000000]}
      else {[0x04000000, 0x02C00000, 0x01400000], [0x06000000, 0x00C00000, 0x01400000],
        [0x05000000, 0x01C00000, 0x01400000], [0x04800000, 0x02400000, 0x01400000], [0x02000000, 0x04C00000, 0x01400000]})"
    by (cases memory_mode; simp add: row_def mem_type_of_def memory_region_sizes_def)
  then obtain s1 s2 s3 :: u32 where row: "row = [s1, s2, s3]" "4096 dvd unat s1" "4096 dvd unat s2" "4096 dvd unat s3"
    "unat s1 + unat s2 + unat s3 \<le> 0x10000000" "s1 + s2 + s3 = (if is_new_3ds then FCRAM_N3DS_SIZE else FCRAM_SIZE)"
    by (cases is_new_3ds) (auto simp: FCRAM_N3DS_SIZE_def FCRAM_SIZE_def)
  have sums: "unat (s1 + s2) = unat s1 + unat s2" using row(5) by (simp add: unat_plus_no_wrap_u32)
  obtain q1 where q1: "Region_Reset I 0 s1 r1 = Some q1" "region_ok I ok q1" "free_bytes I q1 = extent q1"
    "mr_base q1 = 0" "mr_size q1 = s1" "\<not> mr_locked q1"
    using Region_Reset_spec [OF rs(2), of 0 s1] row by auto
  obtain q2 where q2: "Region_Reset I s1 s2 r2 = Some q2" "region_ok I ok q2" "free_bytes I q2 = extent q2"
    "mr_base q2 = s1" "mr_size q2 = s2" "\<not> mr_locked q2"
    using Region_Reset_spec [OF rs(3), of s1 s2] row by auto
  obtain q3 where q3: "Region_Reset I (s1 + s2) s3 r3 = Some q3" "region_ok I ok q3" "free_bytes I q3 = extent q3"
    "mr_base q3 = s1 + s2" "mr_size q3 = s3" "\<not> mr_locked q3"
    using Region_Reset_spec [OF rs(4), of "s1 + s2" s3] row sums by auto
  have "reset_regions I 0 row rs = Some (s1 + s2 + s3, [q1, q2, q3])"
    by (simp add: rs(1) row(1) q1 q2 q3)
  then have "MemoryInit I is_new_3ds memory_mode n3ds_mode rs = Some [q1, q2, q3]"
    using row(6) by (simp add: MemoryInit_def flip: row_def)
  with q1 q2 q3 row(6) show ?thesis by (intro exI [of _ q1] exI [of _ q2] exI [of _ q3]) simp
qed

end

end
