(* ===== verification/ProcessMemory.thy ===== *)
theory ProcessMemory imports VMProps MemoryRegion ResourceLimits Scheduler begin

text \<open>
  The memory of a process, src/core/hle/kernel/process.cpp: its heap and linear heap, aliases of
  mapped memory, the pages of its thread-local storage and the release of everything, and the
  supervisor call over them (\<open>ControlMemory\<close> of svc.cpp).

  The regions are shared by all processes and by the pages of thread-local storage: they are one
  list, and a process has the index of its own. An outer \<^const>\<open>None\<close> is a failed assertion or
  the use of a null pointer.
\<close>

section \<open>State\<close>

definition HEAP_VADDR :: u32 where "HEAP_VADDR = 0x08000000"
definition HEAP_SIZE :: u32 where "HEAP_SIZE = 0x08000000"
definition HEAP_VADDR_END :: u32 where "HEAP_VADDR_END = HEAP_VADDR + HEAP_SIZE"

text \<open>The index of the region \<open>BASE\<close> (\<open>GetMemoryRegion\<close>).\<close>

definition BASE_REGION :: nat where "BASE_REGION = 2"

record 'i ProcessMemory =
  pm_vm :: VM
  memory_used :: u32
  holding_memory :: 'i
  holding_tls_memory :: 'i
  tls_slots :: "bool list list"
  kernel_version :: u16
  memory_region :: "nat option"
  memory_regions :: "'i MemoryRegionInfo list"
  resource_limit :: "ResourceLimit option"

section \<open>FCRAM\<close>

definition GetFCRAMOffset :: "MemoryRef \<Rightarrow> u32 option" where
  "GetFCRAMOffset p =
     (case p of Some (RegionMem FCRAM, i) \<Rightarrow> if i \<le> unat FCRAM_N3DS_SIZE then Some (of_nat i) else None
      | _ \<Rightarrow> None)"

definition GetFCRAMPointer :: "u32 \<Rightarrow> (BackingMem \<times> nat) option" where
  "GetFCRAMPointer offset = (if offset \<le> FCRAM_N3DS_SIZE then Some (RegionMem FCRAM, unat offset) else None)"

definition GetFCRAMRef :: "u32 \<Rightarrow> MemoryRef option" where
  "GetFCRAMRef offset = (if offset \<le> FCRAM_N3DS_SIZE then make_ref (RegionMem FCRAM) (unat offset) else None)"

definition zero_fill :: "BackingMem \<times> nat \<Rightarrow> nat \<Rightarrow> VM \<Rightarrow> VM" where
  "zero_fill p n vm =
     (let m = vm_memory vm in vm\<lparr>vm_memory := m\<lparr>bytes := write_bytes (bytes m) (fst p) (snd p) (replicate n 0)\<rparr>\<rparr>)"

section \<open>The region and the limit of the process\<close>

definition upd_region ::
  "nat \<Rightarrow> ('i MemoryRegionInfo \<Rightarrow> ('a \<times> 'i MemoryRegionInfo) option) \<Rightarrow> 'i ProcessMemory
     \<Rightarrow> ('a \<times> 'i ProcessMemory) option" where
  "upd_region k f p =
     (if k < length (memory_regions p)
      then do {
        (x, r) \<leftarrow> f (memory_regions p ! k);
        Some (x, p\<lparr>memory_regions := (memory_regions p)[k := r]\<rparr>) }
      else None)"

definition own_region :: "'i ProcessMemory \<Rightarrow> 'i MemoryRegionInfo option" where
  "own_region p =
     (case memory_region p of
        None \<Rightarrow> None
      | Some k \<Rightarrow> if k < length (memory_regions p) then Some (memory_regions p ! k) else None)"

definition upd_own_region ::
  "('i MemoryRegionInfo \<Rightarrow> ('a \<times> 'i MemoryRegionInfo) option) \<Rightarrow> 'i ProcessMemory
     \<Rightarrow> ('a \<times> 'i ProcessMemory) option" where
  "upd_own_region f p = (case memory_region p of None \<Rightarrow> None | Some k \<Rightarrow> upd_region k f p)"

definition account ::
  "(u32 \<Rightarrow> u32) \<Rightarrow> (ResourceLimit \<Rightarrow> bool \<times> ResourceLimit) \<Rightarrow> 'i ProcessMemory \<Rightarrow> 'i ProcessMemory option" where
  "account f g p = do {
     l \<leftarrow> resource_limit p;
     Some (p\<lparr>memory_used := f (memory_used p), resource_limit := Some (snd (g l))\<rparr>) }"

definition GetLinearHeapAreaAddress :: "'i ProcessMemory \<Rightarrow> u32" where
  "GetLinearHeapAreaAddress p = (if kernel_version p < 0x22C then LINEAR_HEAP_VADDR else NEW_LINEAR_HEAP_VADDR)"

definition GetLinearHeapBase :: "'i ProcessMemory \<Rightarrow> u32 option" where
  "GetLinearHeapBase p = map_option (\<lambda>r. GetLinearHeapAreaAddress p + mr_base r) (own_region p)"

definition GetLinearHeapLimit :: "'i ProcessMemory \<Rightarrow> u32 option" where
  "GetLinearHeapLimit p =
     map_option (\<lambda>r. GetLinearHeapAreaAddress p + mr_base r + mr_size r) (own_region p)"

section \<open>The heap\<close>

text \<open>One block of memory is shown at an address and gets its permissions.\<close>

definition map_block :: "Devices \<Rightarrow> u8 \<Rightarrow> MemoryState \<Rightarrow> u32 \<Rightarrow> MemoryRef \<Rightarrow> u32 \<Rightarrow> VM \<Rightarrow> VM option" where
  "map_block D perms state target ref sz vm = do {
     (r, vm1) \<leftarrow> MapBackingMemory D vm target ref sz state;
     case r of
       Inl _ \<Rightarrow> None
     | Inr i \<Rightarrow> map_option fst (Reprotect D perms vm1 i) }"

fun map_heap_blocks :: "Devices \<Rightarrow> u8 \<Rightarrow> MemoryState \<Rightarrow> u32 \<Rightarrow> (u32 \<times> u32) list \<Rightarrow> VM \<Rightarrow> VM option" where
  "map_heap_blocks D perms state target [] vm = Some vm"
| "map_heap_blocks D perms state target ((lo, hi) # bs) vm = do {
     from \<leftarrow> GetFCRAMPointer lo;
     to \<leftarrow> GetFCRAMPointer hi;
     ref \<leftarrow> GetFCRAMRef lo;
     vm1 \<leftarrow> map_block D perms state target ref (hi - lo) (zero_fill from (snd to - snd from) vm);
     map_heap_blocks D perms state (target + (hi - lo)) bs vm1 }"

definition outside_heap :: "u32 \<Rightarrow> u32 \<Rightarrow> bool" where
  "outside_heap target sz \<longleftrightarrow> target < HEAP_VADDR \<or> HEAP_VADDR_END < target + sz \<or> target + sz < target"

text \<open>The check that a range is free; \<^const>\<open>None\<close> when there is no area at the address.\<close>

definition area_free :: "VMA list \<Rightarrow> u32 \<Rightarrow> u32 \<Rightarrow> bool option" where
  "area_free vs target sz =
     (let i = FindVMA vs target; v = vs ! i in
      if i = length vs then None
      else Some (\<not> (vma_type v \<noteq> FreeVMA \<or> vma_base v + vma_size v < target + sz)))"

definition Process_HeapAllocate ::
  "'i IntervalOps \<Rightarrow> Devices \<Rightarrow> u32 \<Rightarrow> u32 \<Rightarrow> u8 \<Rightarrow> MemoryState \<Rightarrow> bool \<Rightarrow> 'i ProcessMemory
     \<Rightarrow> ((result_code + u32) \<times> 'i ProcessMemory) option" where
  "Process_HeapAllocate I D target sz perms state skip_range_check p =
     (if outside_heap target sz \<and> \<not> skip_range_check then Some (Inl ResultInvalidAddress, p)
      else do {
        ok \<leftarrow> area_free (vma_map (pm_vm p)) target sz;
        if \<not> ok then Some (Inl ResultInvalidAddressState, p)
        else do {
          (allocated, p1) \<leftarrow> upd_own_region (Region_HeapAllocate I sz) p;
          if iset_blocks I allocated = [] then Some (Inl ResultOutOfHeapMemory, p1)
          else do {
            vm \<leftarrow> map_heap_blocks D perms state target (iset_blocks I allocated) (pm_vm p1);
            p2 \<leftarrow> account (\<lambda>u. u + sz) (Reserve RLCommit sz)
                    (p1\<lparr>pm_vm := vm, holding_memory := iset_add_all I (holding_memory p1) allocated\<rparr>);
            Some (Inr target, p2) } } })"

text \<open>The blocks of a freed range go back to the region.\<close>

fun free_heap_blocks ::
  "'i IntervalOps \<Rightarrow> (MemoryRef \<times> u32) list \<Rightarrow> 'i ProcessMemory \<Rightarrow> 'i ProcessMemory option" where
  "free_heap_blocks I [] p = Some p"
| "free_heap_blocks I ((ref, n) # bs) p = do {
     off \<leftarrow> GetFCRAMOffset ref;
     (_, p1) \<leftarrow> upd_own_region (\<lambda>r. map_option (Pair ()) (Region_Free I off n r)) p;
     free_heap_blocks I bs (p1\<lparr>holding_memory := iset_sub I (holding_memory p1) (off, off + n)\<rparr>) }"

definition Process_HeapFree ::
  "'i IntervalOps \<Rightarrow> Devices \<Rightarrow> u32 \<Rightarrow> u32 \<Rightarrow> 'i ProcessMemory \<Rightarrow> (result_code option \<times> 'i ProcessMemory) option" where
  "Process_HeapFree I D target sz p =
     (if outside_heap target sz then Some (Some ResultInvalidAddress, p)
      else if sz = 0 then Some (None, p)
      else do {
        r \<leftarrow> GetBackingBlocksForRange (pm_vm p) target sz;
        case r of
          Inl e \<Rightarrow> Some (Some e, p)
        | Inr blocks \<Rightarrow> do {
            p1 \<leftarrow> free_heap_blocks I blocks p;
            (res, vm) \<leftarrow> UnmapRange D (pm_vm p1) target sz;
            if res \<noteq> None then None
            else do {
              p2 \<leftarrow> account (\<lambda>u. u - sz) (Release RLCommit sz) (p1\<lparr>pm_vm := vm\<rparr>);
              Some (None, p2) } } })"

section \<open>The linear heap\<close>

definition outside_linear_heap :: "u32 \<Rightarrow> u32 \<Rightarrow> 'i ProcessMemory \<Rightarrow> bool option" where
  "outside_linear_heap target sz p = do {
     base \<leftarrow> GetLinearHeapBase p;
     limit \<leftarrow> GetLinearHeapLimit p;
     Some (target < base \<or> limit < target + sz \<or> target + sz < target) }"

text \<open>Where the block goes: the address, and the offset in FCRAM.\<close>

definition place_linear ::
  "'i IntervalOps \<Rightarrow> u32 \<Rightarrow> u32 \<Rightarrow> 'i ProcessMemory \<Rightarrow> ((result_code + u32 \<times> u32) \<times> 'i ProcessMemory) option" where
  "place_linear I target sz p =
     (if target = 0
      then do {
        (off, p1) \<leftarrow> upd_own_region (Region_LinearAllocate I sz) p;
        Some (case off of None \<Rightarrow> Inl ResultOutOfHeapMemory
              | Some o' \<Rightarrow> Inr (o' + GetLinearHeapAreaAddress p, o'), p1) }
      else do {
        outside \<leftarrow> outside_linear_heap target sz p;
        if outside then Some (Inl ResultInvalidAddress, p)
        else do {
          let off = target - GetLinearHeapAreaAddress p;
          (ok, p1) \<leftarrow> upd_own_region (Region_LinearAllocateAt I off sz) p;
          Some (if ok then Inr (target, off) else Inl ResultInvalidAddressState, p1) } })"

definition Process_LinearAllocate ::
  "'i IntervalOps \<Rightarrow> Devices \<Rightarrow> u32 \<Rightarrow> u32 \<Rightarrow> u8 \<Rightarrow> 'i ProcessMemory
     \<Rightarrow> ((result_code + u32) \<times> 'i ProcessMemory) option" where
  "Process_LinearAllocate I D target sz perms p = do {
     (place, p1) \<leftarrow> place_linear I target sz p;
     case place of
       Inl e \<Rightarrow> Some (Inl e, p1)
     | Inr (addr, off) \<Rightarrow> do {
         ref \<leftarrow> GetFCRAMRef off;
         b \<leftarrow> ref;
         vm \<leftarrow> map_block D perms MSContinuous addr ref sz (zero_fill b (unat sz) (pm_vm p1));
         p2 \<leftarrow> account (\<lambda>u. u + sz) (Reserve RLCommit sz)
                 (p1\<lparr>pm_vm := vm, holding_memory := iset_add I (holding_memory p1) (off, off + sz)\<rparr>);
         Some (Inr addr, p2) } }"

definition Process_LinearFree ::
  "'i IntervalOps \<Rightarrow> Devices \<Rightarrow> u32 \<Rightarrow> u32 \<Rightarrow> 'i ProcessMemory \<Rightarrow> (result_code option \<times> 'i ProcessMemory) option" where
  "Process_LinearFree I D target sz p = do {
     outside \<leftarrow> outside_linear_heap target sz p;
     if outside then Some (Some ResultInvalidAddress, p)
     else if sz = 0 then Some (None, p)
     else do {
       (res, vm) \<leftarrow> UnmapRange D (pm_vm p) target sz;
       case res of
         Some e \<Rightarrow> Some (Some e, p\<lparr>pm_vm := vm\<rparr>)
       | None \<Rightarrow> do {
           let off = target - GetLinearHeapAreaAddress p;
           (_, p1) \<leftarrow> upd_own_region (\<lambda>r. map_option (Pair ()) (Region_Free I off sz r)) (p\<lparr>pm_vm := vm\<rparr>);
           p2 \<leftarrow> account (\<lambda>u. u - sz) (Release RLCommit sz)
                   (p1\<lparr>holding_memory := iset_sub I (holding_memory p1) (off, off + sz)\<rparr>);
           Some (None, p2) } } }"

section \<open>Aliases\<close>

definition ranges_overlap :: "u32 \<Rightarrow> u32 \<Rightarrow> u32 \<Rightarrow> bool" where
  "ranges_overlap target source sz \<longleftrightarrow> source - target < sz \<or> target - source < sz"

fun map_aliases :: "Devices \<Rightarrow> u8 \<Rightarrow> MemoryState \<Rightarrow> u32 \<Rightarrow> (MemoryRef \<times> u32) list \<Rightarrow> VM \<Rightarrow> VM option" where
  "map_aliases D perms state target [] vm = Some vm"
| "map_aliases D perms state target ((ref, n) # bs) vm = do {
     vm1 \<leftarrow> map_block D perms state target ref n vm;
     map_aliases D perms state (target + n) bs vm1 }"

definition on_vm ::
  "'i ProcessMemory \<Rightarrow> (VM \<Rightarrow> ('a \<times> VM) option) \<Rightarrow> ('a \<times> 'i ProcessMemory) option" where
  "on_vm p f = map_option (\<lambda>(x, vm). (x, p\<lparr>pm_vm := vm\<rparr>)) (f (pm_vm p))"

definition Process_Map ::
  "Devices \<Rightarrow> u32 \<Rightarrow> u32 \<Rightarrow> u32 \<Rightarrow> u8 \<Rightarrow> bool \<Rightarrow> 'i ProcessMemory \<Rightarrow> (result_code option \<times> 'i ProcessMemory) option" where
  "Process_Map D target source sz perms privileged p =
     (if \<not> privileged \<and> outside_heap source sz then Some (Some ResultInvalidAddress, p)
      else if ranges_overlap target source sz
      then if privileged
        then if source = target
          then on_vm p (\<lambda>vm. ChangeMemoryState D vm source sz MSPrivate PermReadWrite MSAliasCode perms)
          else Some (Some ResultInvalidAddress, p)
        else Some (Some ResultInvalidAddressState, p)
      else do {
        ok \<leftarrow> area_free (vma_map (pm_vm p)) target sz;
        if \<not> ok then Some (Some ResultInvalidAddressState, p)
        else do {
          (res, p1) \<leftarrow> on_vm p (\<lambda>vm. ChangeMemoryState D vm source sz MSPrivate PermReadWrite
            (if privileged then MSLocked else MSAliased) (if privileged then PermNone else PermReadWrite));
          if res \<noteq> None then Some (res, p1)
          else do {
            blocks \<leftarrow> GetBackingBlocksForRange (pm_vm p1) source sz;
            case blocks of
              Inl e \<Rightarrow> Some (Some e, p1)
            | Inr bs \<Rightarrow> do {
                vm \<leftarrow> map_aliases D perms (if privileged then MSAliasCode else MSAlias) target bs (pm_vm p1);
                Some (None, p1\<lparr>pm_vm := vm\<rparr>) } } } })"

definition Process_Unmap ::
  "Devices \<Rightarrow> u32 \<Rightarrow> u32 \<Rightarrow> u32 \<Rightarrow> u8 \<Rightarrow> bool \<Rightarrow> 'i ProcessMemory \<Rightarrow> (result_code option \<times> 'i ProcessMemory) option" where
  "Process_Unmap D target source sz perms privileged p =
     (if \<not> privileged \<and> outside_heap source sz then Some (Some ResultInvalidAddress, p)
      else if ranges_overlap target source sz
      then if privileged
        then if source = target
          then on_vm p (\<lambda>vm. ChangeMemoryState D vm source sz MSAliasCode PermNone MSPrivate perms)
          else Some (Some ResultInvalidAddress, p)
        else Some (Some ResultInvalidAddressState, p)
      else do {
        (res, p1) \<leftarrow> on_vm p (\<lambda>vm. UnmapRange D vm target sz);
        if res \<noteq> None then Some (res, p1)
        else on_vm p1 (\<lambda>vm. ChangeMemoryState D vm source sz
          (if privileged then MSLocked else MSAliased) PermNone MSPrivate perms) })"

section \<open>Releasing everything\<close>

fun free_holding :: "'i IntervalOps \<Rightarrow> (u32 \<times> u32) list \<Rightarrow> 'i ProcessMemory \<Rightarrow> 'i ProcessMemory option" where
  "free_holding I [] p = Some p"
| "free_holding I ((lo, hi) # bs) p = do {
     (_, p1) \<leftarrow> upd_own_region (\<lambda>r. map_option (Pair ()) (Region_Free I lo (hi - lo) r)) p;
     p2 \<leftarrow> account (\<lambda>u. u - (hi - lo)) (Release RLCommit (hi - lo)) p1;
     free_holding I bs p2 }"

fun free_tls :: "'i IntervalOps \<Rightarrow> (u32 \<times> u32) list \<Rightarrow> 'i ProcessMemory \<Rightarrow> 'i ProcessMemory option" where
  "free_tls I [] p = Some p"
| "free_tls I ((lo, hi) # bs) p = do {
     (_, p1) \<leftarrow> upd_region BASE_REGION (\<lambda>r. map_option (Pair ()) (Region_Free I lo (hi - lo) r)) p;
     free_tls I bs (p1\<lparr>memory_used := memory_used p1 - (hi - lo)\<rparr>) }"

definition FreeAllMemory :: "'i IntervalOps \<Rightarrow> 'i ProcessMemory \<Rightarrow> 'i ProcessMemory option" where
  "FreeAllMemory I p =
     (if memory_region p = None \<or> resource_limit p = None then Some p
      else do {
        p1 \<leftarrow> free_holding I (iset_blocks I (holding_memory p)) p;
        p2 \<leftarrow> free_tls I (iset_blocks I (holding_tls_memory p1)) (p1\<lparr>holding_memory := iset_empty I\<rparr>);
        Some (p2\<lparr>holding_tls_memory := iset_empty I, tls_slots := []\<rparr>) })"

section \<open>Thread-local storage\<close>

text \<open>A new page comes from the region \<open>BASE\<close>; whether it can be mapped is not checked.\<close>

definition new_tls_page :: "'i IntervalOps \<Rightarrow> Devices \<Rightarrow> 'i ProcessMemory \<Rightarrow> (bool \<times> 'i ProcessMemory) option" where
  "new_tls_page I D p = do {
     (off, p1) \<leftarrow> upd_region BASE_REGION (Region_LinearAllocate I 0x1000) p;
     case off of
       None \<Rightarrow> Some (False, p1)
     | Some off \<Rightarrow> do {
         ref \<leftarrow> GetFCRAMRef off;
         (_, vm) \<leftarrow> MapBackingMemory D (pm_vm p1) (tls_address_of (length (tls_slots p1)) 0) ref 0x1000 MSLocked;
         Some (True, p1\<lparr>pm_vm := vm, holding_tls_memory := iset_add I (holding_tls_memory p1) (off, off + 0x1000),
           memory_used := memory_used p1 + 0x1000, tls_slots := tls_slots p1 @ [replicate 8 False]\<rparr>) } }"

definition use_tls_slot :: "Devices \<Rightarrow> nat \<Rightarrow> nat \<Rightarrow> 'i ProcessMemory \<Rightarrow> (u32 \<times> 'i ProcessMemory) option" where
  "use_tls_slot D page slot p =
     (let addr = tls_address_of page slot; vm = pm_vm p in do {
        m \<leftarrow> ZeroBlock D (vm_table vm) (vm_memory vm) addr (unat TLS_ENTRY_SIZE);
        Some (addr, p\<lparr>pm_vm := vm\<lparr>vm_memory := m\<rparr>,
          tls_slots := (tls_slots p)[page := (tls_slots p ! page)[slot := True]]\<rparr>) })"

definition Process_AllocateThreadLocalStorage ::
  "'i IntervalOps \<Rightarrow> Devices \<Rightarrow> 'i ProcessMemory \<Rightarrow> ((result_code + u32) \<times> 'i ProcessMemory) option" where
  "Process_AllocateThreadLocalStorage I D p =
     (case free_slot (tls_slots p) of
        Some (page, slot) \<Rightarrow> map_option (\<lambda>(a, p'). (Inr a, p')) (use_tls_slot D page slot p)
      | None \<Rightarrow> do {
          (ok, p1) \<leftarrow> new_tls_page I D p;
          if \<not> ok then Some (Inl ResultOutOfMemory, p1)
          else map_option (\<lambda>(a, p'). (Inr a, p')) (use_tls_slot D (length (tls_slots p)) 0 p1) })"

section \<open>The supervisor call\<close>

definition MEMOP_FREE :: u32 where "MEMOP_FREE = 1"
definition MEMOP_COMMIT :: u32 where "MEMOP_COMMIT = 3"
definition MEMOP_MAP :: u32 where "MEMOP_MAP = 4"
definition MEMOP_UNMAP :: u32 where "MEMOP_UNMAP = 5"
definition MEMOP_PROTECT :: u32 where "MEMOP_PROTECT = 6"
definition MEMOP_OPERATION_MASK :: u32 where "MEMOP_OPERATION_MASK = 0xFF"
definition MEMOP_REGION_MASK :: u32 where "MEMOP_REGION_MASK = 0xF00"
definition MEMOP_LINEAR :: u32 where "MEMOP_LINEAR = 0x10000"

text \<open>The result, and the output address where it is set.\<close>

definition without_address ::
  "(result_code option \<times> 'i ProcessMemory) option \<Rightarrow> (result_code option \<times> u32 option \<times> 'i ProcessMemory) option" where
  "without_address r = map_option (\<lambda>(res, p). (res, None, p)) r"

definition with_address ::
  "((result_code + u32) \<times> 'i ProcessMemory) option \<Rightarrow> (result_code option \<times> u32 option \<times> 'i ProcessMemory) option" where
  "with_address r = map_option (\<lambda>(res, p). case res of Inl e \<Rightarrow> (Some e, None, p) | Inr a \<Rightarrow> (None, Some a, p)) r"

definition ControlMemory ::
  "'i IntervalOps \<Rightarrow> Devices \<Rightarrow> u32 \<Rightarrow> u32 \<Rightarrow> u32 \<Rightarrow> u32 \<Rightarrow> u32 \<Rightarrow> 'i ProcessMemory
     \<Rightarrow> (result_code option \<times> u32 option \<times> 'i ProcessMemory) option" where
  "ControlMemory I D addr0 addr1 sz operation permissions p =
     (if \<not> page_aligned addr0 \<or> \<not> page_aligned addr1 then Some (Some ResultMisalignedAddress, None, p)
      else if \<not> page_aligned sz then Some (Some ResultMisalignedSize, None, p)
      else if permissions AND 3 \<noteq> permissions then Some (Some ResultInvalidCombination, None, p)
      else
        let perms = ucast permissions :: u8; op = operation AND NOT MEMOP_REGION_MASK;
            kind = op AND MEMOP_OPERATION_MASK
        in if kind = MEMOP_FREE
        then do {
          free \<leftarrow> (if HEAP_VADDR \<le> addr0 \<and> addr0 < HEAP_VADDR_END then Process_HeapFree I D addr0 sz p
            else do {
              base \<leftarrow> GetLinearHeapBase p;
              limit \<leftarrow> GetLinearHeapLimit p;
              if base \<le> addr0 \<and> addr0 < limit then Process_LinearFree I D addr0 sz p
              else Some (Some ResultInvalidAddress, p) });
          Some (case free of (None, p') \<Rightarrow> (None, Some addr0, p') | (Some e, p') \<Rightarrow> (Some e, None, p')) }
        else if kind = MEMOP_COMMIT
        then if op AND MEMOP_LINEAR \<noteq> 0
          then with_address (Process_LinearAllocate I D addr0 sz perms p)
          else with_address (Process_HeapAllocate I D addr0 sz perms MSPrivate False p)
        else if kind = MEMOP_MAP then without_address (Process_Map D addr0 addr1 sz perms False p)
        else if kind = MEMOP_UNMAP then without_address (Process_Unmap D addr0 addr1 sz perms False p)
        else if kind = MEMOP_PROTECT
        then without_address (on_vm p (\<lambda>vm. ReprotectRange D vm addr0 sz perms))
        else Some (Some ResultInvalidCombination, None, p))"

end
