(* ===== verification/ProcessFacts.thy ===== *)
theory ProcessFacts imports ProcessMemory begin

text \<open>
  What mapping and unmapping blocks of memory does to the address space of a process, in terms of the
  attributes of addresses (\<open>VMFacts\<close>), and the invariant of a process's memory.
\<close>

section \<open>One block\<close>

abbreviation attrs :: "VM \<Rightarrow> nat \<Rightarrow> attr option" where
  "attrs vm \<equiv> attr_at (vma_map vm)"

definition space_ok :: "VM \<Rightarrow> bool" where
  "space_ok vm \<longleftrightarrow> map_ok (vma_map vm) \<and> \<not> is_locked vm"

text \<open>What an address shows that is backed by byte \<open>i\<close> of an object.\<close>

definition backed :: "u8 \<Rightarrow> MemoryState \<Rightarrow> BackingMem \<Rightarrow> nat \<Rightarrow> nat \<Rightarrow> attr" where
  "backed perms state b i a = (BackingMemoryVMA, perms, state, Some (origin a (b, i)))"

text \<open>
  Outside a range nothing changes, except that addresses which could be read and written may have got
  other permissions.
\<close>

definition spill :: "u8 \<Rightarrow> MemoryState \<Rightarrow> attr option \<Rightarrow> attr option \<Rightarrow> bool" where
  "spill perms state x y \<longleftrightarrow> y = x \<or> (\<exists>o'. x = Some (BackingMemoryVMA, PermReadWrite, state, o')
     \<and> y = Some (BackingMemoryVMA, perms, state, o'))"

definition spills_perms :: "nat set \<Rightarrow> u8 \<Rightarrow> MemoryState \<Rightarrow> VM \<Rightarrow> VM \<Rightarrow> bool" where
  "spills_perms R perms state vm vm' \<longleftrightarrow> (\<forall>a. a \<notin> R \<longrightarrow> spill perms state (attrs vm a) (attrs vm' a))"

lemma spill_refl [simp]: "spill perms state x x"
  by (simp add: spill_def)

lemma spill_trans: "spill perms state x y \<Longrightarrow> spill perms state y z \<Longrightarrow> spill perms state x z"
  by (auto simp: spill_def)

lemma spill_backed: "spill perms state (Some (backed perms st b i a)) y \<Longrightarrow> y = Some (backed perms st b i a)"
  by (auto simp: spill_def backed_def)

lemma spill_other: "spill perms state (Some (backed q st b i a)) y \<Longrightarrow> st \<noteq> state \<Longrightarrow> y = Some (backed q st b i a)"
  by (auto simp: spill_def backed_def)

lemma spill_ReadWrite [simp]: "spill PermReadWrite state x y \<longleftrightarrow> y = x"
  by (auto simp: spill_def)

lemma spills_perms_exactly:
  "spills_perms {} perms state vm vm' \<Longrightarrow> \<forall>a. attrs vm' a = attrs vm a \<or> perms \<noteq> PermReadWrite
    \<and> (\<exists>o'. attrs vm a = Some (BackingMemoryVMA, PermReadWrite, state, o')
         \<and> attrs vm' a = Some (BackingMemoryVMA, perms, state, o'))"
  by (auto simp: spills_perms_def spill_def)

lemma zero_fill_frame [simp]:
  "vma_map (zero_fill q n vm) = vma_map vm" "is_locked (zero_fill q n vm) = is_locked vm"
  "vm_table (zero_fill q n vm) = vm_table vm" "space_ok (zero_fill q n vm) = space_ok vm"
  by (simp_all add: zero_fill_def Let_def space_ok_def)

lemma Reprotect_area:
  assumes vm: "space_ok vm" "vma_map vm = L @ w # R" "\<not> free w"
  obtains vm' j where "Reprotect D perms vm (length L) = Some (vm', j)" "space_ok vm'"
    "\<And>a. attrs vm' a = (if vbase w \<le> a \<and> a < vend w then Some (with_perms perms (vattr w)) else attrs vm a)"
proof -
  have ok: "map_ok (L @ w # R)" using vm by (simp add: space_ok_def)
  have c: "chain 0 (L @ w # R) MAXA" and areas: "\<forall>x \<in> set (L @ w # R). area_ok x"
    and apart: "free_apart (L @ w # R)" using ok by (simp_all add: map_ok_def)
  have aparts: "free_apart L" "free_apart R" using apart by (simp_all add: free_apart_split)
  have fapart: "free (w\<lparr>vma_perms := perms\<rparr>) \<or> free_apart (L @ w\<lparr>vma_perms := perms\<rparr> # R)"
    using vm(3) apart by (auto simp: free_apart_split free_def)
  show thesis
    by (rule update_vma_step [OF vm(2) c areas change_perms vm(3) aparts fapart, of D])
      (use vm(1) in \<open>auto intro!: that simp: Reprotect_def space_ok_def\<close>)
qed

lemma map_block_spec:
  assumes vm: "space_ok vm" and al: "page_aligned target" "page_aligned sz"
    and sz: "0 < unat sz" "unat target + unat sz \<le> MAXA" and room: "unat sz \<le> backing_size b - i"
    and run: "\<forall>a. unat target \<le> a \<and> a < unat target + unat sz \<longrightarrow> free_at (vma_map vm) a"
  obtains vm' where "map_block D perms state target (Some (b, i)) sz vm = Some vm'" "space_ok vm'"
    "\<forall>k < unat sz. attrs vm' (unat target + k) = Some (backed perms state b (i + k) (unat target + k))"
    "spills_perms {unat target..<unat target + unat sz} perms state vm vm'"
    "0 < unat target \<and> attrs vm (unat target - 1) = Some (backed PermReadWrite state b i (unat target))
      \<longrightarrow> attrs vm' (unat target - 1) = Some (backed perms state b i (unat target))"
proof -
  let ?m = "mapped_attributes (unat target) (Some (b, i)) state"
  have m: "?m = backed PermReadWrite state b i (unat target)"
    by (simp add: mapped_attributes_def backed_def)
  obtain vm1 L w R where map: "MapBackingMemory D vm target (Some (b, i)) sz state = Some (Inr (length L), vm1)"
    and vm1: "vma_map vm1 = L @ w # R" "map_ok (vma_map vm1)" "is_locked vm1 = is_locked vm"
    and upd: "range_updated (\<lambda>_. ?m) target sz (vma_map vm) (vma_map vm1)"
    and w: "vattr w = ?m" "vbase w \<le> unat target" "unat target + unat sz \<le> vend w"
    and below: "0 < unat target \<Longrightarrow> attrs vm (unat target - 1) = Some ?m \<Longrightarrow> vbase w < unat target"
    by (rule MapBackingMemory_area [OF _ _ al sz _ _ run, of "Some (b, i)" D state])
      (use vm room in \<open>auto simp: space_ok_def\<close>)
  have "\<not> free w" using w(1) by (simp add: vattr_def mapped_attributes_def free_def)
  moreover have "space_ok vm1" using vm vm1 by (simp add: space_ok_def)
  ultimately obtain vm2 j where rp: "Reprotect D perms vm1 (length L) = Some (vm2, j)" "space_ok vm2"
    and attr2: "\<And>a. attrs vm2 a = (if vbase w \<le> a \<and> a < vend w then Some (with_perms perms ?m) else attrs vm1 a)"
    using Reprotect_area [OF _ vm1(1), of D perms] w(1) by metis
  have c1: "chain 0 (L @ w # R) MAXA" using vm1 by (simp add: map_ok_def)
  have wp: "with_perms perms ?m = backed perms state b i (unat target)"
    by (simp add: with_perms_def mapped_attributes_def backed_def)
  have shift: "backed perms state b i (unat target) = backed perms state b (i + k) (unat target + k)" for k
    by (simp add: backed_def origin_def)
  have at: "attrs vm1 a = (if unat target \<le> a \<and> a < unat target + unat sz then map_option (\<lambda>_. ?m) (attrs vm a)
      else attrs vm a)" for a using upd by (simp add: range_updated_def)
  have "map_block D perms state target (Some (b, i)) sz vm = Some vm2"
    using map rp(1) by (simp add: map_block_def)
  moreover have "attrs vm2 (unat target + k) = Some (backed perms state b (i + k) (unat target + k))"
    if "k < unat sz" for k
  proof -
    have "vbase w \<le> unat target + k \<and> unat target + k < vend w" using w(2,3) that by linarith
    then show ?thesis unfolding shift [symmetric] wp [symmetric] attr2 by simp
  qed
  moreover have "spills_perms {unat target..<unat target + unat sz} perms state vm vm2"
    unfolding spills_perms_def
  proof (intro allI impI)
    fix a assume out: "a \<notin> {unat target..<unat target + unat sz}"
    show "spill perms state (attrs vm a) (attrs vm2 a)"
    proof (cases "vbase w \<le> a \<and> a < vend w")
      case True
      then have "attrs vm1 a = Some ?m" using attr_at_here [OF c1, of a] w(1) vm1(1) by simp
      then have "attrs vm a = Some ?m" using at [of a] out by auto
      with True show ?thesis by (simp add: attr2 m spill_def backed_def with_perms_def)
    next
      case False
      have "attrs vm1 a = attrs vm a" using at [of a] out by auto
      with False show ?thesis by (auto simp: attr2)
    qed
  qed
  moreover have "attrs vm2 (unat target - 1) = Some (backed perms state b i (unat target))"
    if "0 < unat target" "attrs vm (unat target - 1) = Some (backed PermReadWrite state b i (unat target))"
  proof -
    have "vbase w \<le> unat target - 1 \<and> unat target - 1 < vend w"
      using below [OF that(1) that(2) [folded m]] w(3) sz(1) by linarith
    then show ?thesis by (simp only: attr2 wp if_True simp_thms)
  qed
  ultimately show thesis using rp(2) by (intro that [of vm2]) blast+
qed


section \<open>The blocks of a heap allocation\<close>

text \<open>The bytes of a list of blocks, in the order in which they are mapped.\<close>

definition offsets :: "(u32 \<times> u32) list \<Rightarrow> nat list" where
  "offsets bs = concat (map (\<lambda>(lo, hi). [unat lo..<unat hi]) bs)"

lemma offsets_simps [simp]:
  "offsets [] = []" "offsets ((lo, hi) # bs) = [unat lo..<unat hi] @ offsets bs"
  by (simp_all add: offsets_def)

lemma set_offsets [simp]: "set (offsets bs) = covered bs"
  by (auto simp: offsets_def covered_def)

lemma distinct_offsets: "separated n bs \<Longrightarrow> distinct (offsets bs)"
proof (induction bs arbitrary: n)
  case (Cons p bs)
  obtain lo hi where p: "p = (lo, hi)" by (cases p)
  from Cons.prems have s: "separated (Suc (unat hi)) bs" by (simp add: p)
  have "x \<notin> {unat lo..<unat hi}" if "x \<in> covered bs" for x using separated_above [OF s that] by auto
  with Cons.IH [OF s] show ?case by (auto simp: p)
qed simp

text \<open>The range of addresses from \<open>t\<close> on shows the bytes \<open>os\<close> of FCRAM.\<close>

definition shows_fcram :: "u8 \<Rightarrow> MemoryState \<Rightarrow> nat \<Rightarrow> nat list \<Rightarrow> VM \<Rightarrow> bool" where
  "shows_fcram perms state t os vm \<longleftrightarrow>
     (\<forall>k < length os. attrs vm (t + k) = Some (backed perms state (RegionMem FCRAM) (os ! k) (t + k)))"

lemma shows_fcram_append:
  "shows_fcram perms state t (xs @ ys) vm \<longleftrightarrow>
     shows_fcram perms state t xs vm \<and> shows_fcram perms state (t + length xs) ys vm"
proof
  assume a: "shows_fcram perms state t (xs @ ys) vm"
  have "attrs vm (t + length xs + k) = Some (backed perms state (RegionMem FCRAM) (ys ! k) (t + length xs + k))"
    if "k < length ys" for k
    using a that unfolding shows_fcram_def by (auto simp: add.assoc dest: spec [of _ "length xs + k"])
  moreover have "attrs vm (t + k) = Some (backed perms state (RegionMem FCRAM) (xs ! k) (t + k))"
    if "k < length xs" for k
    using a that unfolding shows_fcram_def by (auto simp: nth_append dest: spec [of _ k])
  ultimately show "shows_fcram perms state t xs vm \<and> shows_fcram perms state (t + length xs) ys vm"
    by (simp add: shows_fcram_def)
next
  assume a: "shows_fcram perms state t xs vm \<and> shows_fcram perms state (t + length xs) ys vm"
  show "shows_fcram perms state t (xs @ ys) vm"
    unfolding shows_fcram_def
  proof (intro allI impI)
    fix k assume k: "k < length (xs @ ys)"
    show "attrs vm (t + k) = Some (backed perms state (RegionMem FCRAM) ((xs @ ys) ! k) (t + k))"
    proof (cases "k < length xs")
      case True
      with a show ?thesis by (simp add: shows_fcram_def nth_append)
    next
      case False
      then obtain j where "k = length xs + j" using le_Suc_ex by (metis not_less)
      with a k show ?thesis by (simp add: shows_fcram_def add.assoc)
    qed
  qed
qed

lemma spills_perms_shows:
  assumes "shows_fcram perms st t os vm" "spills_perms R perms state vm vm'" "\<forall>x \<in> R. x < t \<or> t + length os \<le> x"
  shows "shows_fcram perms st t os vm'"
  unfolding shows_fcram_def
proof (intro allI impI)
  fix k assume k: "k < length os"
  then have "t + k \<notin> R" using assms(3) by auto
  with assms(1,2) k show "attrs vm' (t + k) = Some (backed perms st (RegionMem FCRAM) (os ! k) (t + k))"
    unfolding spills_perms_def shows_fcram_def by (intro spill_backed [of perms state]) metis
qed

lemma spills_perms_trans:
  assumes "spills_perms R perms state vm vm1" "spills_perms S perms state vm1 vm2" "R \<subseteq> T" "S \<subseteq> T"
  shows "spills_perms T perms state vm vm2"
  using assms spill_trans unfolding spills_perms_def by blast

lemma spills_perms_free:
  "spills_perms R perms state vm vm' \<Longrightarrow> a \<notin> R \<Longrightarrow> free_at (vma_map vm) a \<Longrightarrow> free_at (vma_map vm') a"
  by (force simp: spills_perms_def spill_def free_at_def)

lemma length_offsets_block: "lo < hi \<Longrightarrow> unat (hi - lo) = unat hi - unat lo"
  by (simp add: unat_minus_no_wrap)

text \<open>One block of FCRAM, with the rest of the range still to come.\<close>

lemma fcram_block_step:
  assumes vm: "space_ok vm" and al: "page_aligned target" "page_aligned n" "0 < unat n"
    and i: "i + unat n \<le> unat FCRAM_N3DS_SIZE" and bound: "unat target + (unat n + m) \<le> MAXA"
    and run: "\<forall>a. unat target \<le> a \<and> a < unat target + (unat n + m) \<longrightarrow> free_at (vma_map vm) a"
  obtains vm1 where "map_block D perms state target (Some (RegionMem FCRAM, i)) n vm = Some vm1" "space_ok vm1"
    "shows_fcram perms state (unat target) [i..<i + unat n] vm1"
    "spills_perms {unat target..<unat target + unat n} perms state vm vm1"
    "unat (target + n) = unat target + unat n" "page_aligned (target + n)"
    "\<forall>a. unat (target + n) \<le> a \<and> a < unat (target + n) + m \<longrightarrow> free_at (vma_map vm1) a"
proof -
  have room: "unat n \<le> backing_size (RegionMem FCRAM) - i" using i by simp
  have b: "unat target + unat n \<le> MAXA" using bound by simp
  have run0: "\<forall>a. unat target \<le> a \<and> a < unat target + unat n \<longrightarrow> free_at (vma_map vm) a" using run by simp
  obtain vm1 where one: "map_block D perms state target (Some (RegionMem FCRAM, i)) n vm = Some vm1" "space_ok vm1"
    "\<forall>k < unat n. attrs vm1 (unat target + k) = Some (backed perms state (RegionMem FCRAM) (i + k) (unat target + k))"
    "spills_perms {unat target..<unat target + unat n} perms state vm vm1"
    by (rule map_block_spec [OF vm al b room run0, of D perms state])
  have e: "unat (target + n) = unat target + unat n" using b by (simp add: unat_plus_no_wrap_u32)
  moreover have "page_aligned (target + n)" using al by (simp add: page_aligned_dvd e)
  moreover have "\<forall>a. unat (target + n) \<le> a \<and> a < unat (target + n) + m \<longrightarrow> free_at (vma_map vm1) a"
    using spills_perms_free [OF one(4)] run by (auto simp: e)
  moreover have "shows_fcram perms state (unat target) [i..<i + unat n] vm1"
    using one(3) by (simp add: shows_fcram_def)
  ultimately show thesis using one(1,2,4) that by blast
qed

lemma shows_fcram_step:
  assumes "shows_fcram perms state t xs vm1" "spills_perms {t..<t + length xs} perms state vm vm1"
    and "shows_fcram perms state (t + length xs) ys vm2"
      "spills_perms {t + length xs..<t + length xs + length ys} perms state vm1 vm2"
  shows "shows_fcram perms state t (xs @ ys) vm2" "spills_perms {t..<t + (length xs + length ys)} perms state vm vm2"
proof -
  have "shows_fcram perms state t xs vm2" by (rule spills_perms_shows [OF assms(1,4)]) auto
  with assms(3) show "shows_fcram perms state t (xs @ ys) vm2" by (simp add: shows_fcram_append)
  show "spills_perms {t..<t + (length xs + length ys)} perms state vm vm2"
    by (rule spills_perms_trans [OF assms(2,4)]) auto
qed

text \<open>The whole allocation is mapped, block by block.\<close>

lemma map_heap_blocks_spec:
  "space_ok vm \<Longrightarrow> separated n bs \<Longrightarrow> aligned_blocks bs \<Longrightarrow> covered bs \<subseteq> {..<unat FCRAM_N3DS_SIZE} \<Longrightarrow>
    page_aligned target \<Longrightarrow> unat target + length (offsets bs) \<le> MAXA \<Longrightarrow>
    \<forall>a. unat target \<le> a \<and> a < unat target + length (offsets bs) \<longrightarrow> free_at (vma_map vm) a \<Longrightarrow>
    \<exists>vm'. map_heap_blocks D perms state target bs vm = Some vm' \<and> space_ok vm'
      \<and> shows_fcram perms state (unat target) (offsets bs) vm'
      \<and> spills_perms {unat target..<unat target + length (offsets bs)} perms state vm vm'"
proof (induction bs arbitrary: n target vm)
  case Nil
  then show ?case by (simp add: shows_fcram_def spills_perms_def)
next
  case (Cons p bs)
  obtain lo hi where p: "p = (lo, hi)" by (cases p)
  from Cons.prems(2) have s: "lo < hi" "unat lo < unat hi" "separated (Suc (unat hi)) bs"
    by (auto simp: p word_less_nat_alt)
  note sz = length_offsets_block [OF s(1)]
  have dv: "4096 dvd unat lo" "4096 dvd unat hi" "aligned_blocks bs"
    using Cons.prems(3) by (auto simp: aligned_blocks_def p)
  have sum: "unat lo + unat (hi - lo) = unat hi" using s(2) by (simp add: sz)
  have inF: "unat lo + unat (hi - lo) \<le> unat FCRAM_N3DS_SIZE" "covered bs \<subseteq> {..<unat FCRAM_N3DS_SIZE}"
  proof -
    have "unat hi - 1 \<in> covered (p # bs)" using s(2) by (auto simp: p)
    with Cons.prems(4) have "unat hi - 1 < unat FCRAM_N3DS_SIZE" by blast
    then show "unat lo + unat (hi - lo) \<le> unat FCRAM_N3DS_SIZE" unfolding sum by simp
  qed (use Cons.prems(4) in simp)
  have ptr: "GetFCRAMPointer lo = Some (RegionMem FCRAM, unat lo)" "GetFCRAMPointer hi = Some (RegionMem FCRAM, unat hi)"
    "GetFCRAMRef lo = Some (Some (RegionMem FCRAM, unat lo))"
    using inF(1) s(2) by (auto simp: GetFCRAMPointer_def GetFCRAMRef_def make_ref_def word_le_nat_alt sum)
  have al: "page_aligned (hi - lo)" "0 < unat (hi - lo)" using dv s(2) by (simp_all add: page_aligned_dvd sz dvd_diff_nat)
  have len: "length (offsets (p # bs)) = unat (hi - lo) + length (offsets bs)" by (simp add: p sz)
  let ?vm0 = "zero_fill (RegionMem FCRAM, unat lo) (unat hi - unat lo) vm"
  have vm0: "space_ok ?vm0" and run0: "\<forall>a. unat target \<le> a \<and> a < unat target + (unat (hi - lo) + length (offsets bs))
      \<longrightarrow> free_at (vma_map ?vm0) a" using Cons.prems(1,7) by (simp_all only: len zero_fill_frame)
  obtain vm1 where one: "map_block D perms state target (Some (RegionMem FCRAM, unat lo)) (hi - lo) ?vm0 = Some vm1"
    "space_ok vm1" "shows_fcram perms state (unat target) [unat lo..<unat lo + unat (hi - lo)] vm1"
    "spills_perms {unat target..<unat target + unat (hi - lo)} perms state ?vm0 vm1"
    "unat (target + (hi - lo)) = unat target + unat (hi - lo)" "page_aligned (target + (hi - lo))"
    "\<forall>a. unat (target + (hi - lo)) \<le> a \<and> a < unat (target + (hi - lo)) + length (offsets bs) \<longrightarrow> free_at (vma_map vm1) a"
    by (rule fcram_block_step [OF vm0 Cons.prems(5) al inF(1) Cons.prems(6) [unfolded len] run0, of D perms state])
  have "unat (target + (hi - lo)) + length (offsets bs) \<le> MAXA" using Cons.prems(6) unfolding len one(5) by simp
  from Cons.IH [OF one(2) s(3) dv(3) inF(2) one(6) this one(7)] obtain vm2 where
    two: "map_heap_blocks D perms state (target + (hi - lo)) bs vm1 = Some vm2" "space_ok vm2"
      "shows_fcram perms state (unat target + unat (hi - lo)) (offsets bs) vm2"
      "spills_perms {unat target + unat (hi - lo)..<unat target + unat (hi - lo) + length (offsets bs)} perms state vm1 vm2"
    unfolding one(5) by blast
  have "spills_perms {unat target..<unat target + unat (hi - lo)} perms state vm vm1"
    using one(4) by (simp add: spills_perms_def)
  note st = shows_fcram_step [of perms state "unat target" "[unat lo..<unat lo + unat (hi - lo)]" vm1 vm "offsets bs" vm2,
    unfolded length_upt add_diff_cancel_left', OF one(3) this two(3,4)]
  have "offsets (p # bs) = [unat lo..<unat lo + unat (hi - lo)] @ offsets bs" unfolding sum by (simp add: p)
  with st have "shows_fcram perms state (unat target) (offsets (p # bs)) vm2"
      "spills_perms {unat target..<unat target + length (offsets (p # bs))} perms state vm vm2"
    unfolding len by simp_all
  moreover have "map_heap_blocks D perms state target (p # bs) vm = Some vm2" using one(1) two(1) by (simp add: p ptr)
  ultimately show ?case using two(2) by blast
qed

section \<open>The invariant\<close>

text \<open>
  The address space and the region of the process are well-formed, and what the process holds are
  whole pages of its region that are not free.
\<close>

definition memory_ok :: "'i IntervalOps \<Rightarrow> ('i \<Rightarrow> bool) \<Rightarrow> 'i ProcessMemory \<Rightarrow> bool" where
  "memory_ok I ok p \<longleftrightarrow> space_ok (pm_vm p) \<and> ok (holding_memory p) \<and> resource_limit p \<noteq> None
     \<and> paged (members I (holding_memory p))
     \<and> (\<exists>r. own_region p = Some r \<and> region_ok I ok r \<and> \<not> mr_locked r
          \<and> members I (holding_memory p) \<subseteq> extent r - free_bytes I r)"

definition set_region :: "'i MemoryRegionInfo \<Rightarrow> 'i ProcessMemory \<Rightarrow> 'i ProcessMemory" where
  "set_region r p = p\<lparr>memory_regions := (memory_regions p)[the (memory_region p) := r]\<rparr>"

lemma own_region_Some:
  "own_region p = Some r \<longleftrightarrow> (\<exists>k. memory_region p = Some k \<and> k < length (memory_regions p) \<and> r = memory_regions p ! k)"
  by (auto simp: own_region_def split: option.split)

lemma own_region_set: "own_region p = Some r \<Longrightarrow> own_region (set_region r' p) = Some r'"
  by (auto simp: own_region_Some set_region_def)

lemma set_region_id: "own_region p = Some r \<Longrightarrow> set_region r p = p"
  by (auto simp: own_region_Some set_region_def)

lemma upd_own_region_eq:
  assumes "own_region p = Some r"
  shows "upd_own_region f p = map_option (\<lambda>(x, r'). (x, set_region r' p)) (f r)"
proof -
  from assms obtain k where "memory_region p = Some k" "k < length (memory_regions p)" "r = memory_regions p ! k"
    by (auto simp: own_region_Some)
  then show ?thesis by (cases "f r") (auto simp: upd_own_region_def upd_region_def set_region_def)
qed

lemma own_region_cong:
  "memory_region p' = memory_region p \<Longrightarrow> memory_regions p' = memory_regions p \<Longrightarrow> own_region p' = own_region p"
  by (auto simp: own_region_def split: option.split)

lemma own_region_frame [simp]:
  "own_region (p\<lparr>pm_vm := vm\<rparr>) = own_region p" "own_region (p\<lparr>holding_memory := h\<rparr>) = own_region p"
  "own_region (p\<lparr>memory_used := u\<rparr>) = own_region p" "own_region (p\<lparr>resource_limit := l\<rparr>) = own_region p"
  by (rule own_region_cong; simp)+

lemma set_region_frame [simp]:
  "pm_vm (set_region r p) = pm_vm p" "holding_memory (set_region r p) = holding_memory p"
  "memory_used (set_region r p) = memory_used p" "resource_limit (set_region r p) = resource_limit p"
  "kernel_version (set_region r p) = kernel_version p" "memory_region (set_region r p) = memory_region p"
  "holding_tls_memory (set_region r p) = holding_tls_memory p" "tls_slots (set_region r p) = tls_slots p"
  by (simp_all add: set_region_def)

abbreviation range_free :: "u32 \<Rightarrow> u32 \<Rightarrow> VM \<Rightarrow> bool" where
  "range_free target sz vm \<equiv>
     (\<forall>a. unat target \<le> a \<and> a < unat target + unat sz \<longrightarrow> free_at (vma_map vm) a)"

lemma area_free_iff:
  assumes "space_ok vm" "0 < unat sz" "unat target + unat sz \<le> MAXA"
  shows "area_free (vma_map vm) target sz = Some (range_free target sz vm)"
proof -
  let ?vs = "vma_map vm"
  have ok: "map_ok ?vs" and c: "chain 0 ?vs MAXA" using assms(1) by (simp_all add: space_ok_def map_ok_def)
  obtain L v R where v: "?vs = L @ v # R" "FindVMA ?vs target = length L" "vbase v \<le> unat target" "unat target < vend v"
    using FindVMA_split [OF c, of target] assms(2,3) by auto
  have c': "chain 0 (L @ v # R) MAXA" and ok': "map_ok (L @ v # R)" using c ok by (simp_all only: v(1))
  have e: "unat (vma_base v + vma_size v) = vend v" "unat (target + sz) = unat target + unat sz"
    using chain_bounds [OF c', of v] assms(3) by (simp_all add: unat_plus_no_wrap_u32)
  have at: "free_at ?vs a = free v" if "unat target \<le> a" "a < vend v" for a
    using free_at_area [OF attr_at_here [OF c', of a]] that v(3) by (simp add: v(1))
  have "range_free target sz vm \<longleftrightarrow> free v \<and> unat target + unat sz \<le> vend v"
  proof
    assume run: "range_free target sz vm"
    then have "free v" using at [of "unat target"] v(4) assms(2) by simp
    moreover have "unat target + unat sz \<le> vend v"
      using free_run_one_area [OF ok' v(3,4), of "unat target + unat sz"] run assms(2,3) by (simp add: v(1))
    ultimately show "free v \<and> unat target + unat sz \<le> vend v" ..
  next
    assume "free v \<and> unat target + unat sz \<le> vend v"
    with at show "range_free target sz vm" by auto
  qed
  moreover have "?vs ! FindVMA ?vs target = v" "FindVMA ?vs target \<noteq> length ?vs"
    unfolding v(2) unfolding v(1) by simp_all
  ultimately show ?thesis
    by (simp add: area_free_def Let_def free_def word_less_nat_alt e not_less)
qed

lemma unat_plus_ge:
  assumes "\<not> a + b < (a :: u32)"
  shows "unat (a + b) = unat a + unat b"
proof (rule ccontr)
  assume "unat (a + b) \<noteq> unat a + unat b"
  then have big: "4294967296 \<le> unat a + unat b" using unat_plus_no_wrap_u32 not_le by blast
  have "unat (a + b) = (unat a + unat b) mod 4294967296" by (simp add: unat_word_ariths)
  also have "\<dots> = unat a + unat b - 4294967296"
    using big unat_lt_u32 [of a] unat_lt_u32 [of b] by (simp add: le_mod_geq)
  finally have "unat (a + b) < unat a" using unat_lt_u32 [of b] big by simp
  with assms show False by (simp add: word_less_nat_alt)
qed

lemma inside_heap:
  assumes "\<not> outside_heap target sz"
  shows "0x8000000 \<le> unat target" "unat target + unat sz \<le> 0x10000000" "unat (target + sz) = unat target + unat sz"
proof -
  have c: "unat HEAP_VADDR = 0x8000000" "unat HEAP_VADDR_END = 0x10000000"
    by (simp_all add: HEAP_VADDR_END_def HEAP_VADDR_def HEAP_SIZE_def)
  have "\<not> target + sz < target" using assms by (simp add: outside_heap_def)
  then show e: "unat (target + sz) = unat target + unat sz"
    by (rule unat_plus_ge)
  show "0x8000000 \<le> unat target" "unat target + unat sz \<le> 0x10000000"
    using assms c e by (simp_all add: outside_heap_def word_less_nat_alt)
qed

context interval_set begin

lemma length_offsets: "separated n bs \<Longrightarrow> length (offsets bs) = card (covered bs)"
  using distinct_card [OF distinct_offsets] by simp

lemma HeapAllocate_spec:
  assumes p: "memory_ok I ok p" "own_region p = Some r" and al: "page_aligned target" "page_aligned sz"
    and sz: "0 < unat sz" and heap: "\<not> outside_heap target sz \<or> skip \<and> unat target + unat sz \<le> MAXA"
  shows "if \<not> range_free target sz (pm_vm p)
    then Process_HeapAllocate I D target sz perms state skip p = Some (Inl ResultInvalidAddressState, p)
    else if card (free_bytes I r) < unat sz
    then Process_HeapAllocate I D target sz perms state skip p = Some (Inl ResultOutOfHeapMemory, p)
    else \<exists>p' r' bs. Process_HeapAllocate I D target sz perms state skip p = Some (Inr target, p')
      \<and> memory_ok I ok p' \<and> own_region p' = Some r' \<and> mr_base r' = mr_base r \<and> mr_size r' = mr_size r
      \<and> separated 0 bs \<and> aligned_blocks bs \<and> length (offsets bs) = unat sz \<and> covered bs \<subseteq> free_bytes I r
      \<and> free_bytes I r' = free_bytes I r - covered bs \<and> (\<forall>a \<in> covered bs. \<forall>b \<in> free_bytes I r'. b < a)
      \<and> shows_fcram perms state (unat target) (offsets bs) (pm_vm p')
      \<and> spills_perms {unat target..<unat target + unat sz} perms state (pm_vm p) (pm_vm p')
      \<and> members I (holding_memory p') = members I (holding_memory p) \<union> covered bs
      \<and> memory_used p' = memory_used p + sz
      \<and> resource_limit p' = map_option (\<lambda>l. snd (Reserve RLCommit sz l)) (resource_limit p)"
proof -
  have bound: "unat target + unat sz \<le> MAXA" using heap inside_heap(2) by fastforce
  have vm: "space_ok (pm_vm p)" and hold: "ok (holding_memory p)"
    and r: "region_ok I ok r" "\<not> mr_locked r" "members I (holding_memory p) \<subseteq> extent r - free_bytes I r"
    using p by (auto simp: memory_ok_def)
  have hp: "paged (members I (holding_memory p))" using p(1) by (simp add: memory_ok_def)
  obtain l where l: "resource_limit p = Some l" using p(1) by (auto simp: memory_ok_def)
  note fre = area_free_iff [OF vm sz bound]
  have start: "\<not> (outside_heap target sz \<and> \<not> skip)" using heap by blast
  show ?thesis
  proof (cases "range_free target sz (pm_vm p)")
    case False
    with start fre show ?thesis by (auto simp: Process_HeapAllocate_def)
  next
    case run: True
    note ha = Region_HeapAllocate_spec [OF r(1,2), of sz]
    note body = Process_HeapAllocate_def upd_own_region_eq [OF p(2)] fre
    show ?thesis
    proof (cases "unat sz \<le> card (free_bytes I r)")
      case False
      with ha have "Region_HeapAllocate I sz r = Some (iset_empty I, r)" by simp
      with run start False show ?thesis by (simp add: body set_region_id [OF p(2)] empty_blocks)
    next
      case True
      with ha al(2) obtain res r' where h: "Region_HeapAllocate I sz r = Some (res, r')" "ok res"
        "members I res \<subseteq> free_bytes I r" "card (members I res) = unat sz"
        "\<forall>a \<in> members I res. \<forall>b \<in> free_bytes I r - members I res. b < a"
        "free_bytes I r' = free_bytes I r - members I res" "mr_base r' = mr_base r" "mr_size r' = mr_size r"
        "\<not> mr_locked r'" "region_ok I ok r'" "paged (members I res)"
        by (auto simp: page_aligned_dvd)
      let ?bs = "iset_blocks I res"
      note sep = blocks_separated [OF h(2)]
      have len: "length (offsets ?bs) = unat sz" using length_offsets [OF sep] h(4) by simp
      have "?bs \<noteq> []" using len sz by auto
      have albs: "aligned_blocks ?bs" by (rule paged_blocks_aligned [OF sep h(11)])
      have "free_bytes I r \<subseteq> {..<unat FCRAM_N3DS_SIZE}" using r(1) by (fastforce simp: region_ok_def extent_def)
      then have "members I res \<subseteq> {..<unat FCRAM_N3DS_SIZE}" using h(3) by blast
      from map_heap_blocks_spec [OF vm sep albs this al(1), of D perms state] run bound len obtain vm' where
        m: "map_heap_blocks D perms state target ?bs (pm_vm p) = Some vm'" "space_ok vm'"
          "shows_fcram perms state (unat target) (offsets ?bs) vm'"
          "spills_perms {unat target..<unat target + unat sz} perms state (pm_vm p) vm'"
        by (metis (no_types, lifting))
      let ?p' = "(set_region r' p)\<lparr>pm_vm := vm', holding_memory := iset_add_all I (holding_memory p) res,
        memory_used := memory_used p + sz, resource_limit := Some (snd (Reserve RLCommit sz l))\<rparr>"
      have ev: "Process_HeapAllocate I D target sz perms state skip p = Some (Inr target, ?p')"
        using start run h(1) m(1) \<open>?bs \<noteq> []\<close> l by (simp add: body account_def)
      have own: "own_region ?p' = Some r'"
        using own_region_set [OF p(2), of r'] by simp
      have hold': "members I (holding_memory ?p') = members I (holding_memory p) \<union> members I res"
        using add_all_members [OF hold h(2)] by simp
      have "memory_ok I ok ?p'"
        unfolding memory_ok_def own hold'
        using m(2) h r add_all_ok [OF hold h(2)] hp by (auto simp: extent_def region_ok_def intro: paged_Un)
      with run True ev own h m len sep albs hold' l show ?thesis
        by (intro if_P [THEN iffD2, rotated] if_not_P [THEN iffD2, rotated]) auto
    qed
  qed
qed

end

section \<open>Freeing a range of the heap\<close>

text \<open>The range from \<open>t\<close> on is mapped to the bytes \<open>os\<close> of FCRAM, with any permissions.\<close>

definition mapped_fcram :: "nat \<Rightarrow> nat list \<Rightarrow> VM \<Rightarrow> bool" where
  "mapped_fcram t os vm \<longleftrightarrow>
     (\<forall>k < length os. \<exists>perms st. attrs vm (t + k) = Some (backed perms st (RegionMem FCRAM) (os ! k) (t + k)))"

lemma shows_mapped: "shows_fcram perms st t os vm \<Longrightarrow> mapped_fcram t os vm"
  by (auto simp: shows_fcram_def mapped_fcram_def)

text \<open>Pages of the range are mapped to pages.\<close>

definition page_starts :: "nat list \<Rightarrow> bool" where
  "page_starts os \<longleftrightarrow> (\<forall>k < length os. 4096 dvd k \<longrightarrow> 4096 dvd os ! k)"

lemma page_starts_append: "4096 dvd length xs \<Longrightarrow> page_starts (xs @ ys) \<longleftrightarrow> page_starts xs \<and> page_starts ys"
proof -
  assume d: "4096 dvd length xs"
  have "page_starts xs \<and> page_starts ys" if a: "page_starts (xs @ ys)"
  proof
    show "page_starts xs" unfolding page_starts_def
    proof (intro allI impI)
      fix k assume "k < length xs" "4096 dvd k"
      with a have "4096 dvd (xs @ ys) ! k" by (simp add: page_starts_def)
      with \<open>k < length xs\<close> show "4096 dvd xs ! k" by (simp add: nth_append)
    qed
    show "page_starts ys" unfolding page_starts_def
    proof (intro allI impI)
      fix k assume "k < length ys" "4096 dvd k"
      then have "4096 dvd (xs @ ys) ! (length xs + k)"
        using a d unfolding page_starts_def by (metis dvd_add length_append nat_add_left_cancel_less)
      then show "4096 dvd ys ! k" by simp
    qed
  qed
  moreover have "page_starts (xs @ ys)" if a: "page_starts xs \<and> page_starts ys"
    unfolding page_starts_def
  proof (intro allI impI)
    fix k assume k: "k < length (xs @ ys)" "4096 dvd k"
    show "4096 dvd (xs @ ys) ! k"
    proof (cases "k < length xs")
      case True
      with a k show ?thesis by (simp add: page_starts_def nth_append)
    next
      case False
      then have "4096 dvd k - length xs" using k(2) d by (simp add: dvd_diff_nat)
      with False a k show ?thesis by (simp add: page_starts_def nth_append)
    qed
  qed
  ultimately show ?thesis by blast
qed

lemma page_starts_interval: "4096 dvd m \<Longrightarrow> page_starts [m..<n]"
  by (simp add: page_starts_def)

lemma page_starts_offsets: "aligned_blocks bs \<Longrightarrow> page_starts (offsets bs)"
proof (induction bs)
  case (Cons p bs)
  obtain lo hi where p: "p = (lo, hi)" by (cases p)
  with Cons.prems have "4096 dvd unat lo" "4096 dvd unat hi" "aligned_blocks bs" by (auto simp: aligned_blocks_def)
  then show ?case
    using Cons.IH page_starts_interval page_starts_append [of "[unat lo..<unat hi]" "offsets bs"]
    by (simp add: p dvd_diff_nat)
qed (simp add: page_starts_def)

fun ref_bytes :: "MemoryRef \<times> u32 \<Rightarrow> nat list" where
  "ref_bytes (Some (b, i), n) = [i..<i + unat n]"
| "ref_bytes (None, n) = []"

definition fcram_block :: "MemoryRef \<times> u32 \<Rightarrow> bool" where
  "fcram_block p \<longleftrightarrow> (\<exists>i n. p = (Some (RegionMem FCRAM, i), n) \<and> 0 < unat n \<and> 4096 dvd i \<and> 4096 dvd unat n)"

lemma mapped_fcram_drop:
  "mapped_fcram t os vm \<Longrightarrow> m \<le> length os \<Longrightarrow> mapped_fcram (t + m) (drop m os) vm"
  by (auto simp: mapped_fcram_def add.assoc)

lemma page_starts_drop: "page_starts os \<Longrightarrow> 4096 dvd m \<Longrightarrow> m \<le> length os \<Longrightarrow> page_starts (drop m os)"
  by (auto simp: page_starts_def)

lemma FindVMA_here:
  assumes c: "chain 0 (L @ v # R) MAXA" and t: "vbase v \<le> unat t" "unat t < vend v"
  shows "FindVMA (L @ v # R) t = length L"
proof -
  have "vma_base x \<le> t" if "x \<in> set L" for x
    using chain_left [OF c that] t(1) by (simp add: word_le_nat_alt)
  moreover have "\<not> vma_base x \<le> t" if "x \<in> set R" for x
    using chain_right [OF c that] t(2) by (simp add: word_le_nat_alt)
  then have "takeWhile (\<lambda>v. vma_base v \<le> t) R = []" by (cases R) simp_all
  ultimately have "takeWhile (\<lambda>v. vma_base v \<le> t) (L @ v # R) = L @ [v]"
    using t(1) by (simp add: word_le_nat_alt)
  moreover have "unat t < MAXA" using t(2) chain_bounds [OF c, of v] by simp
  ultimately show ?thesis by (simp add: FindVMA_def upper_bound_def word_le_nat_alt MAX_ADDRESS_nat)
qed

text \<open>One area of the walk.\<close>

lemma area_block:
  assumes c: "chain 0 (L @ v # R) MAXA" and ok: "area_ok v" and vm: "vma_map vm = L @ v # R"
    and t: "vbase v \<le> t" "t < vend v" and os: "0 < length os" "mapped_fcram t os vm"
    and m: "m \<le> length os" "t + m \<le> vend v"
  shows "vma_type v = BackingMemoryVMA" "ref_plus (vma_backing v) (t - vbase v) = Some (Some (RegionMem FCRAM, os ! 0))"
    "take m os = [os ! 0..<os ! 0 + m]"
proof -
  have here: "attrs vm (t + k) = Some (vattr v)" if "t + k < vend v" for k
    unfolding vm using t that by (intro attr_at_here [OF c]) simp_all
  obtain perms st where first: "vattr v = backed perms st (RegionMem FCRAM) (os ! 0) t"
    using os here [of 0] t(2) by (fastforce simp: mapped_fcram_def)
  then show ty: "vma_type v = BackingMemoryVMA" by (simp add: vattr_def backed_def)
  with first obtain i where i: "vma_backing v = Some (RegionMem FCRAM, i)" "int i - int (vbase v) = int (os ! 0) - int t"
    by (auto simp: vattr_def backed_def origin_def)
  have "vsize v \<le> ref_size (vma_backing v)" using ok ty by (simp add: area_ok_def)
  then have "t - vbase v < ref_size (vma_backing v)" using t by linarith
  moreover have "i + (t - vbase v) = os ! 0" using i(2) t(1) by linarith
  ultimately show "ref_plus (vma_backing v) (t - vbase v) = Some (Some (RegionMem FCRAM, os ! 0))"
    by (simp add: ref_plus_def i(1))
  have run: "os ! k = os ! 0 + k" if "k < m" for k
  proof -
    have "k < length os" using that m(1) by simp
    then obtain pk sk where "attrs vm (t + k) = Some (backed pk sk (RegionMem FCRAM) (os ! k) (t + k))"
      using os(2) by (auto simp: mapped_fcram_def)
    then have "backed pk sk (RegionMem FCRAM) (os ! k) (t + k) = backed perms st (RegionMem FCRAM) (os ! 0) t"
      using here [of k] that m(2) first by simp
    then have "int (os ! k) - int (t + k) = int (os ! 0) - int t" by (simp only: backed_def origin_def prod.inject option.inject prod.case)
    then show ?thesis by linarith
  qed
  show "take m os = [os ! 0..<os ! 0 + m]"
  proof (rule nth_equalityI)
    show "length (take m os) = length [os ! 0..<os ! 0 + m]" using m(1) by simp
    fix k assume "k < length (take m os)"
    then have k: "k < m" "k < length os" by simp_all
    from run [OF k(1)] k show "take m os ! k = [os ! 0..<os ! 0 + m] ! k"
      by (simp only: nth_take nth_upt nat_add_left_cancel_less)
  qed
qed

lemma backing_blocks_spec:
  "chain 0 (L @ v # R) MAXA \<Longrightarrow> \<forall>x \<in> set (L @ v # R). area_ok x \<Longrightarrow> vma_map vm = L @ v # R \<Longrightarrow>
    vbase v \<le> unat t \<Longrightarrow> unat t < vend v \<Longrightarrow> unat t + length os = unat e \<Longrightarrow> 0 < length os \<Longrightarrow> unat e \<le> MAXA \<Longrightarrow>
    page_aligned t \<Longrightarrow> page_aligned e \<Longrightarrow> page_starts os \<Longrightarrow> mapped_fcram (unat t) os vm \<Longrightarrow> length R < fuel \<Longrightarrow>
    \<exists>bl. backing_blocks fuel (L @ v # R) t e = Some (Inr bl) \<and> concat (map ref_bytes bl) = os
      \<and> (\<forall>q \<in> set bl. fcram_block q)"
proof (induction fuel arbitrary: L v R t os)
  case (Suc n)
  note c = Suc.prems(1) and areas = Suc.prems(2) and vm = Suc.prems(3) and t = Suc.prems(4,5)
    and len = Suc.prems(6,7) and e = Suc.prems(8) and al = Suc.prems(9,10) and os = Suc.prems(11,12)
  have ok: "area_ok v" using areas by simp
  have vend: "unat (vma_base v + vma_size v) = vend v" "vend v \<le> MAXA"
    using chain_bounds [OF c, of v] by (simp_all add: unat_plus_no_wrap_u32)
  let ?stop = "min e (vma_base v + vma_size v)"
  have iend: "unat ?stop = min (unat e) (vend v)" by (simp add: min_def word_le_nat_alt vend)
  define m where "m = min (unat e) (vend v) - unat t"
  have m: "0 < m" "m \<le> length os" "unat t + m \<le> vend v" "unat t + m = min (unat e) (vend v)"
    proof -
    have "unat t < unat e" using len by linarith
    then show "0 < m" "m \<le> length os" "unat t + m \<le> vend v" "unat t + m = min (unat e) (vend v)"
      using t len(1) by (auto simp: m_def)
  qed
  have size: "unat (?stop - t) = m" using iend t len by (simp add: unat_minus_no_wrap word_le_nat_alt m_def)
  define t' where "t' = t + (?stop - t)"
  have next_t: "unat t' = unat t + m" by (simp add: t'_def iend m(4))
  have dv: "4096 dvd unat t" "4096 dvd unat e" "4096 dvd vend v" using al ok
    by (simp_all add: page_aligned_dvd area_ok_def)
  then have dm: "4096 dvd m" unfolding m_def by (intro dvd_diff_nat) (simp_all add: min_def)
  note ab = area_block [OF c ok vm t len(2) os(2) m(2,3)]
  have found: "FindVMA (L @ v # R) t = length L"
    by (rule FindVMA_here [OF c t])
  have off: "unat (t - vma_base v) = unat t - vbase v" using t(1) by (simp add: unat_minus_no_wrap word_le_nat_alt)
  have te: "t \<noteq> e" using len by auto
  have blk: "fcram_block (Some (RegionMem FCRAM, os ! 0), ?stop - t)"
    using os(1) len(2) m(1) dm by (auto simp: fcram_block_def size page_starts_def)
  have "\<exists>bl. backing_blocks n (L @ v # R) t' e = Some (Inr bl)
      \<and> concat (map ref_bytes bl) = drop m os \<and> (\<forall>q \<in> set bl. fcram_block q)"
  proof (cases "unat e \<le> vend v")
    case True
    then have "unat t' = unat e" using next_t m(4) by simp
    then have "t' = e" by (simp add: word_unat_eq_iff)
    moreover have "drop m os = []" using True m(4) len by simp
    ultimately show ?thesis by (intro exI [of _ "[]"]) (simp add: backing_blocks.simps)
  next
    case False
    have "chain (vend v) R MAXA" using c by (auto simp: chain_append)
    then obtain w R' where R: "R = w # R'" "vbase w = vend v" "0 < vsize w"
      using False e by (cases R) auto
    have tn: "unat t' = vend v" using next_t m(4) False by simp
    have len': "unat t' + length (drop m os) = unat e" "0 < length (drop m os)"
      using next_t m(2,4) len(1) False by simp_all
    have "page_aligned t'" using dv(3) by (simp add: page_aligned_dvd tn)
    moreover have "mapped_fcram (unat t') (drop m os) vm"
      unfolding next_t by (rule mapped_fcram_drop [OF os(2) m(2)])
    ultimately show ?thesis
      using Suc.IH [of "L @ [v]" w R' "t'" "drop m os"] c areas vm R tn len' e al(2)
        page_starts_drop [OF os(1) dm m(2)] Suc.prems(13) by simp
  qed
  then obtain bl where bl: "backing_blocks n (L @ v # R) t' e = Some (Inr bl)"
    "concat (map ref_bytes bl) = drop m os" "\<forall>q \<in> set bl. fcram_block q" by blast
  have "backing_blocks (Suc n) (L @ v # R) t e = Some (Inr ((Some (RegionMem FCRAM, os ! 0), ?stop - t) # bl))"
    using te ab(1,2) bl(1) [unfolded t'_def] unfolding backing_blocks.simps [of "Suc n"] Let_def found by (simp add: off)
  moreover have "concat (map ref_bytes ((Some (RegionMem FCRAM, os ! 0), ?stop - t) # bl)) = os"
    using ab(3) bl(2) by (simp add: size) (metis append_take_drop_id)
  ultimately show ?case using blk bl(3) by (intro exI) auto
qed simp


lemma GetBackingBlocksForRange_spec:
  assumes vm: "space_ok vm" and al: "page_aligned t" "page_aligned sz" and os: "length os = unat sz" "0 < unat sz"
    and bound: "unat t + unat sz \<le> MAXA" and m: "page_starts os" "mapped_fcram (unat t) os vm"
  obtains bl where "GetBackingBlocksForRange vm t sz = Some (Inr bl)" "concat (map ref_bytes bl) = os"
    "\<forall>q \<in> set bl. fcram_block q"
proof -
  have ok: "map_ok (vma_map vm)" using vm by (simp add: space_ok_def)
  then have c: "chain 0 (vma_map vm) MAXA" by (simp add: map_ok_def)
  have lt: "unat t < MAXA" using bound os(2) by simp
  obtain L v R where v: "vma_map vm = L @ v # R" "FindVMA (vma_map vm) t = length L" "vbase v \<le> unat t" "unat t < vend v"
    by (rule FindVMA_split [OF c lt])
  have e: "unat (t + sz) = unat t + unat sz" using bound by (simp add: unat_plus_no_wrap_u32)
  have "page_aligned (t + sz)" using al by (simp add: page_aligned_dvd e)
  then obtain bl where "backing_blocks (length (vma_map vm)) (L @ v # R) t (t + sz) = Some (Inr bl)"
    "concat (map ref_bytes bl) = os" "\<forall>q \<in> set bl. fcram_block q"
    using backing_blocks_spec [of L v R vm t os "t + sz" "length (vma_map vm)"] v c ok al(1) os bound m e
    by (auto simp: map_ok_def)
  with that show thesis by (simp add: GetBackingBlocksForRange_def v(1))
qed

context interval_set begin

text \<open>The blocks go back to the region and out of what the process holds.\<close>

lemma free_heap_blocks_spec:
  "own_region p = Some r \<Longrightarrow> region_ok I ok r \<Longrightarrow> \<not> mr_locked r \<Longrightarrow> ok (holding_memory p) \<Longrightarrow>
    \<forall>q \<in> set bl. fcram_block q \<Longrightarrow> distinct (concat (map ref_bytes bl)) \<Longrightarrow>
    set (concat (map ref_bytes bl)) \<subseteq> extent r - free_bytes I r \<Longrightarrow>
    \<exists>r' h. free_heap_blocks I bl p = Some ((set_region r' p)\<lparr>holding_memory := h\<rparr>) \<and> region_ok I ok r' \<and> \<not> mr_locked r'
      \<and> mr_base r' = mr_base r \<and> mr_size r' = mr_size r \<and> ok h
      \<and> free_bytes I r' = free_bytes I r \<union> set (concat (map ref_bytes bl))
      \<and> members I h = members I (holding_memory p) - set (concat (map ref_bytes bl))
      \<and> (paged (members I (holding_memory p)) \<longrightarrow> paged (members I h))"
proof (induction bl arbitrary: p r)
  case Nil
  then show ?case
    by (intro exI [of _ r] exI [of _ "holding_memory p"]) (simp add: set_region_id)
next
  case (Cons q bl)
  from Cons.prems(5) obtain i n where q: "q = (Some (RegionMem FCRAM, i), n)" "0 < unat n" "4096 dvd i" "4096 dvd unat n"
    by (auto simp: fcram_block_def)
  let ?T = "{i..<i + unat n}"
  have T: "?T \<subseteq> extent r" "?T \<inter> free_bytes I r = {}" using Cons.prems(7) by (auto simp: q(1))
  have size: "i + unat n \<le> unat FCRAM_N3DS_SIZE"
  proof -
    have "i + unat n - 1 \<in> extent r" using T(1) q(2) by auto
    then show ?thesis using Cons.prems(2) by (auto simp: region_ok_def extent_def)
  qed
  have off: "GetFCRAMOffset (Some (RegionMem FCRAM, i)) = Some (of_nat i)" "unat (of_nat i :: u32) = i"
    using size by (simp_all add: GetFCRAMOffset_def)
  have fr: "\<exists>r1. Region_Free I (of_nat i) n r = Some r1 \<and> free_bytes I r1 = free_bytes I r \<union> ?T
      \<and> mr_base r1 = mr_base r \<and> mr_size r1 = mr_size r \<and> \<not> mr_locked r1 \<and> region_ok I ok r1"
    using Region_Free_spec [OF Cons.prems(2,3), of "of_nat i" n] size T q(3,4) by (auto simp: off(2))
  then obtain r1 where r1: "Region_Free I (of_nat i) n r = Some r1" "free_bytes I r1 = free_bytes I r \<union> ?T"
    "mr_base r1 = mr_base r" "mr_size r1 = mr_size r" "\<not> mr_locked r1" "region_ok I ok r1" by blast
  let ?h = "iset_sub I (holding_memory p) (of_nat i, of_nat i + n)"
  let ?p1 = "(set_region r1 p)\<lparr>holding_memory := ?h\<rparr>"
  have span: "span (of_nat i, of_nat i + n) = ?T" using size by (simp add: off(2) unat_plus_no_wrap_u32)
  have h: "ok ?h" "members I ?h = members I (holding_memory p) - ?T"
    using sub_ok [OF Cons.prems(4)] sub_members [OF Cons.prems(4), of "(of_nat i, of_nat i + n)"] unfolding span by simp_all
  have own1: "own_region ?p1 = Some r1" using own_region_set [OF Cons.prems(1)] by simp
  have ext: "extent r1 = extent r" by (simp add: extent_def r1)
  have rest: "set (concat (map ref_bytes bl)) \<subseteq> extent r1 - free_bytes I r1" "distinct (concat (map ref_bytes bl))"
    using Cons.prems(6,7) unfolding ext r1(2) by (auto simp: q(1))
  have hh: "ok (holding_memory ?p1)" using h(1) by simp
  have "\<forall>q \<in> set bl. fcram_block q" using Cons.prems(5) by simp
  from Cons.IH [OF own1 r1(6,5) hh this rest(2,1)] obtain r2 h2 where
    two: "free_heap_blocks I bl ?p1 = Some ((set_region r2 ?p1)\<lparr>holding_memory := h2\<rparr>)" "region_ok I ok r2" "\<not> mr_locked r2"
      "mr_base r2 = mr_base r1" "mr_size r2 = mr_size r1" "ok h2"
      "free_bytes I r2 = free_bytes I r1 \<union> set (concat (map ref_bytes bl))"
      "members I h2 = members I ?h - set (concat (map ref_bytes bl))"
      "paged (members I ?h) \<longrightarrow> paged (members I h2)" by auto
  have ph: "paged (members I (holding_memory p)) \<longrightarrow> paged (members I ?h)"
    unfolding h(2) using q(3,4) by (auto intro!: paged_Diff paged_interval)
  have step: "free_heap_blocks I (q # bl) p = free_heap_blocks I bl ?p1"
    by (simp add: q(1) off(1) upd_own_region_eq [OF Cons.prems(1)] r1(1))
  have same: "(set_region r2 ?p1)\<lparr>holding_memory := h2\<rparr> = (set_region r2 p)\<lparr>holding_memory := h2\<rparr>"
    by (simp add: set_region_def)
  show ?case
    unfolding step two(1) same using two r1 h ph by (intro exI [of _ r2] exI [of _ h2]) (auto simp: q(1))
qed

lemma HeapFree_spec:
  assumes p: "memory_ok I ok p" "own_region p = Some r" and al: "page_aligned target" "page_aligned sz"
    and sz: "0 < unat sz" and heap: "\<not> outside_heap target sz"
    and os: "length os = unat sz" "page_starts os" "mapped_fcram (unat target) os (pm_vm p)" "distinct os"
      "set os \<subseteq> extent r - free_bytes I r"
  shows "\<exists>p' r'. Process_HeapFree I D target sz p = Some (None, p') \<and> memory_ok I ok p' \<and> own_region p' = Some r'
      \<and> mr_base r' = mr_base r \<and> mr_size r' = mr_size r \<and> free_bytes I r' = free_bytes I r \<union> set os
      \<and> (\<forall>a. attrs (pm_vm p') a
            = (if unat target \<le> a \<and> a < unat target + unat sz then Some free_attributes else attrs (pm_vm p) a))
      \<and> members I (holding_memory p') = members I (holding_memory p) - set os
      \<and> memory_used p' = memory_used p - sz
      \<and> resource_limit p' = map_option (\<lambda>l. snd (Release RLCommit sz l)) (resource_limit p)"
proof -
  have bound: "unat target + unat sz \<le> MAXA" using inside_heap(2) [OF heap] by simp
  have vm: "space_ok (pm_vm p)" and hold: "ok (holding_memory p)"
    and r: "region_ok I ok r" "\<not> mr_locked r" "members I (holding_memory p) \<subseteq> extent r - free_bytes I r"
    using p by (auto simp: memory_ok_def)
  have hp: "paged (members I (holding_memory p))" using p(1) by (simp add: memory_ok_def)
  obtain l where l: "resource_limit p = Some l" using p(1) by (auto simp: memory_ok_def)
  obtain bl where bl: "GetBackingBlocksForRange (pm_vm p) target sz = Some (Inr bl)" "concat (map ref_bytes bl) = os"
    "\<forall>q \<in> set bl. fcram_block q"
    by (rule GetBackingBlocksForRange_spec [OF vm al os(1) sz bound os(2,3)])
  from free_heap_blocks_spec [OF p(2) r(1,2) hold bl(3)] os(4,5) obtain r' h where
    f: "free_heap_blocks I bl p = Some ((set_region r' p)\<lparr>holding_memory := h\<rparr>)" "region_ok I ok r'" "\<not> mr_locked r'"
      "mr_base r' = mr_base r" "mr_size r' = mr_size r" "ok h" "free_bytes I r' = free_bytes I r \<union> set os"
      "members I h = members I (holding_memory p) - set os" "paged (members I h)" unfolding bl(2) using hp by blast
  have vm': "map_ok (vma_map (pm_vm p))" "\<not> is_locked (pm_vm p)" using vm by (simp_all add: space_ok_def)
  have "\<not> range_has_free target sz (vma_map (pm_vm p))"
  proof
    assume "range_has_free target sz (vma_map (pm_vm p))"
    then obtain a where a: "unat target \<le> a" "a < unat target + unat sz" "free_at (vma_map (pm_vm p)) a"
      by (auto simp: range_has_free_def)
    then have "a - unat target < length os" using os(1) by simp
    with os(3) obtain perms st where "attrs (pm_vm p) (unat target + (a - unat target))
        = Some (backed perms st (RegionMem FCRAM) (os ! (a - unat target)) (unat target + (a - unat target)))"
      unfolding mapped_fcram_def by blast
    with a show False by (simp add: free_at_def backed_def)
  qed
  with UnmapRange_spec [OF vm' al sz bound, of D] obtain vm2 where u: "UnmapRange D (pm_vm p) target sz = Some (None, vm2)"
    "map_ok (vma_map vm2)" "is_locked vm2 = is_locked (pm_vm p)"
    "range_updated (\<lambda>_. free_attributes) target sz (vma_map (pm_vm p)) (vma_map vm2)" by auto
  let ?p' = "(set_region r' p)\<lparr>pm_vm := vm2, holding_memory := h, memory_used := memory_used p - sz,
    resource_limit := Some (snd (Release RLCommit sz l))\<rparr>"
  have "sz \<noteq> 0" using sz by auto
  then have ev: "Process_HeapFree I D target sz p = Some (None, ?p')"
    using heap bl(1) f(1) u(1) l by (simp add: Process_HeapFree_def account_def)
  have own: "own_region ?p' = Some r'" using own_region_set [OF p(2)] by simp
  have "memory_ok I ok ?p'"
    unfolding memory_ok_def own using u(2,3) vm'(2) f r(3) by (auto simp: space_ok_def extent_def)
  moreover have "attrs vm2 a = (if unat target \<le> a \<and> a < unat target + unat sz then Some free_attributes
      else attrs (pm_vm p) a)" for a
    using u(4) attr_at_inside [of 0 "vma_map (pm_vm p)" MAXA a] vm'(1) bound
    by (auto simp: range_updated_def map_ok_def)
  ultimately show ?thesis using ev own f l by (intro exI [of _ ?p'] exI [of _ r']) simp
qed

end

section \<open>The linear heap\<close>

abbreviation linear_address :: "'i ProcessMemory \<Rightarrow> u32 \<Rightarrow> u32" where
  "linear_address p off \<equiv> off + GetLinearHeapAreaAddress p"

lemma linear_address_bounds:
  assumes "region_ok I ok r" "{unat off..<unat off + unat sz} \<subseteq> extent r" "0 < unat sz"
  shows "unat off + unat sz \<le> unat FCRAM_N3DS_SIZE"
    "unat (linear_address p off) = unat off + unat (GetLinearHeapAreaAddress p)"
    "unat (linear_address p off) + unat sz \<le> MAXA" "4096 dvd unat (GetLinearHeapAreaAddress p)"
    "0 < unat (linear_address p off)"
proof -
  have "unat off + unat sz - 1 \<in> extent r" using assms(2,3) by auto
  then show fc: "unat off + unat sz \<le> unat FCRAM_N3DS_SIZE" using assms(1) by (auto simp: region_ok_def extent_def)
  have area: "unat (GetLinearHeapAreaAddress p) = 0x14000000 \<or> unat (GetLinearHeapAreaAddress p) = 0x30000000"
    by (simp add: GetLinearHeapAreaAddress_def LINEAR_HEAP_VADDR_def NEW_LINEAR_HEAP_VADDR_def)
  then show e: "unat (linear_address p off) = unat off + unat (GetLinearHeapAreaAddress p)"
    using fc by (intro unat_plus_no_wrap_u32) auto
  show "unat (linear_address p off) + unat sz \<le> MAXA" "0 < unat (linear_address p off)"
    using area fc unfolding e by auto
  show "4096 dvd unat (GetLinearHeapAreaAddress p)" using area by auto
qed

lemma map_block_refused:
  assumes vm: "space_ok vm" and al: "page_aligned target" "page_aligned sz"
    and sz: "0 < unat sz" "unat target + unat sz \<le> MAXA" and room: "unat sz \<le> backing_size b - i"
    and run: "\<not> range_free target sz vm"
  shows "map_block D perms state target (Some (b, i)) sz vm = None"
proof -
  have "MapBackingMemory D vm target (Some (b, i)) sz state = Some (Inl ResultInvalidAddressState, vm)"
    using MapBackingMemory_spec [of vm target sz "Some (b, i)" D state] vm al sz room run
    by (simp only: space_ok_def) simp
  then show ?thesis by (simp add: map_block_def)
qed

context interval_set begin

text \<open>A block that has been taken from the region is shown in the linear heap.\<close>

lemma LinearAllocate_mapping:
  assumes p: "memory_ok I ok p" "own_region p = Some r" and al: "page_aligned sz" "0 < unat sz"
    and r': "region_ok I ok r'" "\<not> mr_locked r'" "mr_base r' = mr_base r" "mr_size r' = mr_size r"
      "free_bytes I r' = free_bytes I r - {unat off..<unat off + unat sz}"
    and T: "{unat off..<unat off + unat sz} \<subseteq> free_bytes I r" "4096 dvd unat off"
    and place: "place_linear I target sz p = Some (Inr (linear_address p off, off), set_region r' p)"
  shows "if \<not> range_free (linear_address p off) sz (pm_vm p) then Process_LinearAllocate I D target sz perms p = None
    else \<exists>p'. Process_LinearAllocate I D target sz perms p = Some (Inr (linear_address p off), p')
      \<and> memory_ok I ok p' \<and> own_region p' = Some r' \<and> kernel_version p' = kernel_version p
      \<and> shows_fcram perms MSContinuous (unat (linear_address p off)) [unat off..<unat off + unat sz] (pm_vm p')
      \<and> spills_perms {unat (linear_address p off)..<unat (linear_address p off) + unat sz} perms MSContinuous (pm_vm p) (pm_vm p')
      \<and> (attrs (pm_vm p) (unat (linear_address p off) - 1)
            = Some (backed PermReadWrite MSContinuous (RegionMem FCRAM) (unat off) (unat (linear_address p off)))
         \<longrightarrow> attrs (pm_vm p') (unat (linear_address p off) - 1)
            = Some (backed perms MSContinuous (RegionMem FCRAM) (unat off) (unat (linear_address p off))))
      \<and> members I (holding_memory p') = members I (holding_memory p) \<union> {unat off..<unat off + unat sz}
      \<and> memory_used p' = memory_used p + sz
      \<and> resource_limit p' = map_option (\<lambda>l. snd (Reserve RLCommit sz l)) (resource_limit p)"
proof -
  let ?addr = "linear_address p off" and ?T = "{unat off..<unat off + unat sz}"
  have vm: "space_ok (pm_vm p)" and hold: "ok (holding_memory p)"
    and r: "region_ok I ok r" "members I (holding_memory p) \<subseteq> extent r - free_bytes I r"
    using p by (auto simp: memory_ok_def)
  have hp: "paged (members I (holding_memory p))" using p(1) by (simp add: memory_ok_def)
  obtain l where l: "resource_limit p = Some l" using p(1) by (auto simp: memory_ok_def)
  have Te: "?T \<subseteq> extent r" using T(1) r(1) by (auto simp: region_ok_def)
  note b = linear_address_bounds(1) [OF r(1) Te al(2)] linear_address_bounds(2-) [OF r(1) Te al(2), of p]
  have ref: "GetFCRAMRef off = Some (Some (RegionMem FCRAM, unat off))"
    using b(1) by (simp add: GetFCRAMRef_def make_ref_def word_le_nat_alt)
  have aladdr: "page_aligned ?addr" using T(2) b(2,4) by (simp add: page_aligned_dvd)
  have room: "unat sz \<le> backing_size (RegionMem FCRAM) - unat off" using b(1) by simp
  have pT: "paged ?T" using T(2) al(1) by (intro paged_interval) (simp_all add: page_aligned_dvd)
  let ?vm0 = "zero_fill (RegionMem FCRAM, unat off) (unat sz) (pm_vm p)"
  note body = Process_LinearAllocate_def place
  show ?thesis
  proof (cases "range_free ?addr sz (pm_vm p)")
    case False
    then have "map_block D perms MSContinuous ?addr (Some (RegionMem FCRAM, unat off)) sz ?vm0 = None"
      using vm by (intro map_block_refused [OF _ aladdr al b(3) room]) simp_all
    with False show ?thesis by (simp add: body ref)
  next
    case True
    then have run0: "range_free ?addr sz ?vm0" by simp
    have vm0: "space_ok ?vm0" using vm by simp
    obtain vm' where m: "map_block D perms MSContinuous ?addr (Some (RegionMem FCRAM, unat off)) sz ?vm0 = Some vm'"
      "space_ok vm'"
      "\<forall>k < unat sz. attrs vm' (unat ?addr + k)
        = Some (backed perms MSContinuous (RegionMem FCRAM) (unat off + k) (unat ?addr + k))"
      "spills_perms {unat ?addr..<unat ?addr + unat sz} perms MSContinuous ?vm0 vm'"
      "0 < unat ?addr \<and> attrs ?vm0 (unat ?addr - 1) = Some (backed PermReadWrite MSContinuous (RegionMem FCRAM) (unat off) (unat ?addr))
        \<longrightarrow> attrs vm' (unat ?addr - 1) = Some (backed perms MSContinuous (RegionMem FCRAM) (unat off) (unat ?addr))"
      by (rule map_block_spec [OF vm0 aladdr al b(3) room run0, of D perms MSContinuous])
    let ?p' = "(set_region r' p)\<lparr>pm_vm := vm', holding_memory := iset_add I (holding_memory p) (off, off + sz),
      memory_used := memory_used p + sz, resource_limit := Some (snd (Reserve RLCommit sz l))\<rparr>"
    have ev: "Process_LinearAllocate I D target sz perms p = Some (Inr ?addr, ?p')"
      using m(1) l by (simp add: body ref account_def)
    have own: "own_region ?p' = Some r'" using own_region_set [OF p(2)] by simp
    have span: "span (off, off + sz) = ?T" using b(1) by (simp add: unat_plus_no_wrap_u32)
    have hold': "members I (holding_memory ?p') = members I (holding_memory p) \<union> ?T"
      using add_members [OF hold, of "(off, off + sz)"] unfolding span by simp
    have "memory_ok I ok ?p'"
      unfolding memory_ok_def own hold'
      using m(2) r r' T(1) add_ok [OF hold] hp pT by (auto simp: extent_def region_ok_def intro: paged_Un)
    moreover have "shows_fcram perms MSContinuous (unat ?addr) [unat off..<unat off + unat sz] vm'"
      using m(3) by (simp add: shows_fcram_def)
    moreover have "spills_perms {unat ?addr..<unat ?addr + unat sz} perms MSContinuous (pm_vm p) vm'"
      using m(4) by (simp add: spills_perms_def)
    ultimately show ?thesis
      using True ev own hold' l m(5) b(5) by (intro if_not_P [THEN iffD2, rotated]) auto
  qed
qed

lemma LinearAllocate_spec:
  assumes p: "memory_ok I ok p" "own_region p = Some r" and al: "page_aligned sz" "0 < unat sz"
  shows "if \<exists>k. {k..<k + unat sz} \<subseteq> free_bytes I r
    then \<exists>off r'. {unat off..<unat off + unat sz} \<subseteq> free_bytes I r
      \<and> (\<forall>k. {k..<k + unat sz} \<subseteq> free_bytes I r \<longrightarrow> unat off \<le> k)
      \<and> free_bytes I r' = free_bytes I r - {unat off..<unat off + unat sz} \<and> 4096 dvd unat off
      \<and> mr_base r' = mr_base r \<and> mr_size r' = mr_size r \<and> \<not> mr_locked r' \<and> region_ok I ok r'
      \<and> place_linear I 0 sz p = Some (Inr (linear_address p off, off), set_region r' p)
    else Process_LinearAllocate I D 0 sz perms p = Some (Inl ResultOutOfHeapMemory, p)"
proof -
  have r: "region_ok I ok r" "\<not> mr_locked r" using p by (auto simp: memory_ok_def)
  have sz: "4096 dvd unat sz" using al by (simp add: page_aligned_dvd)
  note ra = Region_LinearAllocate_spec [OF r al(2)]
  note eqs = upd_own_region_eq [OF p(2)] set_region_id [OF p(2)]
  show ?thesis
  proof (cases "\<exists>k. {k..<k + unat sz} \<subseteq> free_bytes I r")
    case True
    with ra sz obtain off r' where f: "Region_LinearAllocate I sz r = Some (Some off, r')"
      "{unat off..<unat off + unat sz} \<subseteq> free_bytes I r"
      "\<forall>k. {k..<k + unat sz} \<subseteq> free_bytes I r \<longrightarrow> unat off \<le> k"
      "free_bytes I r' = free_bytes I r - {unat off..<unat off + unat sz}" "4096 dvd unat off"
      "mr_base r' = mr_base r" "mr_size r' = mr_size r" "\<not> mr_locked r'" "region_ok I ok r'" by auto
    then have "place_linear I 0 sz p = Some (Inr (linear_address p off, off), set_region r' p)"
      by (simp add: place_linear_def eqs)
    with True f show ?thesis by (simp only: if_True) blast
  next
    case False
    with ra show ?thesis by (simp add: place_linear_def Process_LinearAllocate_def eqs)
  qed
qed

lemma LinearFree_spec:
  assumes p: "memory_ok I ok p" "own_region p = Some r" and al: "page_aligned sz" "0 < unat sz" "4096 dvd unat off"
    and T: "{unat off..<unat off + unat sz} \<subseteq> extent r - free_bytes I r"
    and mapped: "\<not> range_has_free (linear_address p off) sz (vma_map (pm_vm p))"
  shows "\<exists>p' r'. Process_LinearFree I D (linear_address p off) sz p = Some (None, p') \<and> memory_ok I ok p'
      \<and> own_region p' = Some r' \<and> mr_base r' = mr_base r \<and> mr_size r' = mr_size r
      \<and> free_bytes I r' = free_bytes I r \<union> {unat off..<unat off + unat sz}
      \<and> (\<forall>a. attrs (pm_vm p') a = (if unat (linear_address p off) \<le> a \<and> a < unat (linear_address p off) + unat sz
            then Some free_attributes else attrs (pm_vm p) a))
      \<and> members I (holding_memory p') = members I (holding_memory p) - {unat off..<unat off + unat sz}
      \<and> memory_used p' = memory_used p - sz
      \<and> resource_limit p' = map_option (\<lambda>l. snd (Release RLCommit sz l)) (resource_limit p)"
proof -
  let ?addr = "linear_address p off" and ?T = "{unat off..<unat off + unat sz}"
  have vm: "map_ok (vma_map (pm_vm p))" "\<not> is_locked (pm_vm p)" and hold: "ok (holding_memory p)"
    and r: "region_ok I ok r" "\<not> mr_locked r" "members I (holding_memory p) \<subseteq> extent r - free_bytes I r"
    using p by (auto simp: memory_ok_def space_ok_def)
  have hp: "paged (members I (holding_memory p))" using p(1) by (simp add: memory_ok_def)
  obtain l where l: "resource_limit p = Some l" using p(1) by (auto simp: memory_ok_def)
  have Te: "?T \<subseteq> extent r" using T by blast
  note b = linear_address_bounds(1) [OF r(1) Te al(2)] linear_address_bounds(2-) [OF r(1) Te al(2), of p]
  have aladdr: "page_aligned ?addr" using al(3) b(2,4) by (simp add: page_aligned_dvd)
  have sz: "4096 dvd unat sz" "sz \<noteq> 0" using al by (auto simp: page_aligned_dvd)
  have ends: "unat (GetLinearHeapAreaAddress p + mr_base r) = unat (GetLinearHeapAreaAddress p) + unat (mr_base r)"
    "unat (GetLinearHeapAreaAddress p + mr_base r + mr_size r) = unat (GetLinearHeapAreaAddress p) + unat (mr_base r) + unat (mr_size r)"
    "unat (?addr + sz) = unat ?addr + unat sz"
  proof -
    have "unat (mr_base r) + unat (mr_size r) \<le> 0x10000000" using r(1) by (simp add: region_ok_def)
    moreover have "unat (GetLinearHeapAreaAddress p) \<le> 0x30000000"
      by (simp add: GetLinearHeapAreaAddress_def LINEAR_HEAP_VADDR_def NEW_LINEAR_HEAP_VADDR_def)
    ultimately show "unat (GetLinearHeapAreaAddress p + mr_base r) = unat (GetLinearHeapAreaAddress p) + unat (mr_base r)"
      "unat (GetLinearHeapAreaAddress p + mr_base r + mr_size r) = unat (GetLinearHeapAreaAddress p) + unat (mr_base r) + unat (mr_size r)"
      by (simp_all add: unat_plus_no_wrap_u32)
    show "unat (?addr + sz) = unat ?addr + unat sz" using b(3) by (simp add: unat_plus_no_wrap_u32)
  qed
  have Tn: "unat (mr_base r) \<le> unat off" "unat off + unat sz \<le> unat (mr_base r) + unat (mr_size r)"
    using Te al(2) by (auto simp: extent_def)
  have inside: "outside_linear_heap ?addr sz p = Some False"
    using Tn by (simp add: outside_linear_heap_def GetLinearHeapBase_def GetLinearHeapLimit_def p(2) word_less_nat_alt
        ends b(2) not_less)
  from UnmapRange_spec [OF vm aladdr al(1,2) b(3), of D] mapped obtain vm2 where u:
    "UnmapRange D (pm_vm p) ?addr sz = Some (None, vm2)" "map_ok (vma_map vm2)" "is_locked vm2 = is_locked (pm_vm p)"
    "range_updated (\<lambda>_. free_attributes) ?addr sz (vma_map (pm_vm p)) (vma_map vm2)" by auto
  have nowrap: "unat off + unat sz < 4294967296" using b(1) by simp
  have free: "?T \<inter> free_bytes I r = {}" using T by blast
  from Region_Free_spec [OF r(1,2) nowrap] free Te al(3) sz(1) obtain r' where f: "Region_Free I off sz r = Some r'"
    "free_bytes I r' = free_bytes I r \<union> ?T" "mr_base r' = mr_base r" "mr_size r' = mr_size r" "\<not> mr_locked r'"
    "region_ok I ok r'" by auto
  have span: "span (off, off + sz) = ?T" using nowrap by (simp add: unat_plus_no_wrap_u32)
  have pT: "paged ?T" using al(3) sz(1) by (intro paged_interval) simp_all
  let ?h = "iset_sub I (holding_memory p) (off, off + sz)"
  have h: "ok ?h" "members I ?h = members I (holding_memory p) - ?T"
    using sub_ok [OF hold] sub_members [OF hold, of "(off, off + sz)"] unfolding span by simp_all
  let ?p' = "(set_region r' p)\<lparr>pm_vm := vm2, holding_memory := ?h, memory_used := memory_used p - sz,
    resource_limit := Some (snd (Release RLCommit sz l))\<rparr>"
  have own2: "own_region (p\<lparr>pm_vm := vm2\<rparr>) = Some r" using p(2) by simp
  have offs: "?addr - GetLinearHeapAreaAddress (p\<lparr>pm_vm := vm2\<rparr>) = off" "?addr - GetLinearHeapAreaAddress p = off"
    by (simp_all add: GetLinearHeapAreaAddress_def)
  have "(set_region r' (p\<lparr>pm_vm := vm2\<rparr>)) = (set_region r' p)\<lparr>pm_vm := vm2\<rparr>" by (simp add: set_region_def)
  then have ev: "Process_LinearFree I D ?addr sz p = Some (None, ?p')"
    using inside sz(2) u(1) f(1) l
    by (simp add: Process_LinearFree_def upd_own_region_eq [OF own2] offs account_def)
  have own: "own_region ?p' = Some r'" using own_region_set [OF p(2)] by simp
  have "memory_ok I ok ?p'"
    unfolding memory_ok_def own using u(2,3) vm(2) f h r(3) hp pT
    by (auto simp: space_ok_def extent_def intro: paged_Diff)
  moreover have "attrs vm2 a = (if unat ?addr \<le> a \<and> a < unat ?addr + unat sz then Some free_attributes
      else attrs (pm_vm p) a)" for a
    using u(4) attr_at_inside [of 0 "vma_map (pm_vm p)" MAXA a] vm(1) b(3)
    by (auto simp: range_updated_def map_ok_def)
  ultimately show ?thesis using ev own f h(2) l by (intro exI [of _ ?p'] exI [of _ r']) simp
qed

text \<open>Releasing everything: block by block back to the region.\<close>

lemma give_block:
  assumes k: "k < length (memory_regions p)" and r: "region_ok I ok (memory_regions p ! k)" "\<not> mr_locked (memory_regions p ! k)"
    and b: "lo < hi" "4096 dvd unat lo" "4096 dvd unat hi"
      "{unat lo..<unat hi} \<subseteq> extent (memory_regions p ! k) - free_bytes I (memory_regions p ! k)"
  shows "\<exists>r'. upd_region k (\<lambda>r. map_option (Pair ()) (Region_Free I lo (hi - lo) r)) p
      = Some ((), p\<lparr>memory_regions := (memory_regions p)[k := r']\<rparr>)
    \<and> region_ok I ok r' \<and> \<not> mr_locked r' \<and> extent r' = extent (memory_regions p ! k)
    \<and> free_bytes I r' = free_bytes I (memory_regions p ! k) \<union> {unat lo..<unat hi}"
proof -
  let ?r = "memory_regions p ! k"
  have lt: "unat lo < unat hi" using b(1) by (simp add: word_less_nat_alt)
  note size = length_offsets_block [OF b(1)]
  have sum: "unat lo + unat (hi - lo) = unat hi" using size lt by simp
  have nowrap: "unat lo + unat (hi - lo) < 4294967296" unfolding sum by (rule unat_lt_u32)
  have disj: "{unat lo..<unat hi} \<inter> free_bytes I ?r = {}" and sub: "{unat lo..<unat hi} \<subseteq> extent ?r" using b(4) by blast+
  have "4096 dvd unat (hi - lo)" using b(2,3) by (simp add: size dvd_diff_nat)
  with Region_Free_spec [OF r nowrap, unfolded sum] disj sub b(2) obtain r' where
    "Region_Free I lo (hi - lo) ?r = Some r'" "free_bytes I r' = free_bytes I ?r \<union> {unat lo..<unat hi}"
    "mr_base r' = mr_base ?r" "mr_size r' = mr_size ?r" "\<not> mr_locked r'" "region_ok I ok r'" by auto
  then show ?thesis using k by (intro exI [of _ r']) (simp add: upd_region_def extent_def)
qed

lemma covered_Cons_card:
  assumes "separated n ((lo, hi) # bs)"
  shows "card (covered ((lo, hi) # bs)) = unat (hi - lo) + card (covered bs)"
proof -
  from assms have s: "lo < hi" "separated (Suc (unat hi)) bs" by simp_all
  have "span (lo, hi) \<inter> covered bs = {}" using separated_above [OF s(2)] by fastforce
  then show ?thesis
    using length_offsets_block [OF s(1)] by (simp add: card_Un_disjoint)
qed

lemma free_tls_spec:
  "separated n bs \<Longrightarrow> aligned_blocks bs \<Longrightarrow> BASE_REGION < length (memory_regions p) \<Longrightarrow>
    region_ok I ok (memory_regions p ! BASE_REGION) \<Longrightarrow> \<not> mr_locked (memory_regions p ! BASE_REGION) \<Longrightarrow>
    covered bs \<subseteq> extent (memory_regions p ! BASE_REGION) - free_bytes I (memory_regions p ! BASE_REGION) \<Longrightarrow>
    \<exists>r'. free_tls I bs p = Some (p\<lparr>memory_regions := (memory_regions p)[BASE_REGION := r'],
          memory_used := memory_used p - of_nat (card (covered bs))\<rparr>)
      \<and> region_ok I ok r' \<and> \<not> mr_locked r'
      \<and> free_bytes I r' = free_bytes I (memory_regions p ! BASE_REGION) \<union> covered bs"
proof (induction bs arbitrary: n p)
  case Nil
  then show ?case by (intro exI [of _ "memory_regions p ! BASE_REGION"]) simp
next
  case (Cons b bs)
  obtain lo hi where b: "b = (lo, hi)" by (cases b)
  from Cons.prems(1,2) have s: "lo < hi" "separated (Suc (unat hi)) bs" "4096 dvd unat lo" "4096 dvd unat hi" "aligned_blocks bs"
    by (auto simp: b aligned_blocks_def)
  note k = Cons.prems(3)
  have sub: "{unat lo..<unat hi} \<subseteq> extent (memory_regions p ! BASE_REGION) - free_bytes I (memory_regions p ! BASE_REGION)"
    using Cons.prems(6) by (auto simp: b)
  obtain r1 where r1: "upd_region BASE_REGION (\<lambda>r. map_option (Pair ()) (Region_Free I lo (hi - lo) r)) p
      = Some ((), p\<lparr>memory_regions := (memory_regions p)[BASE_REGION := r1]\<rparr>)"
    "region_ok I ok r1" "\<not> mr_locked r1" "extent r1 = extent (memory_regions p ! BASE_REGION)"
    "free_bytes I r1 = free_bytes I (memory_regions p ! BASE_REGION) \<union> {unat lo..<unat hi}"
    using give_block [OF k Cons.prems(4,5) s(1,3,4) sub] by blast
  let ?p1 = "p\<lparr>memory_regions := (memory_regions p)[BASE_REGION := r1], memory_used := memory_used p - (hi - lo)\<rparr>"
  have "covered bs \<inter> {unat lo..<unat hi} = {}" using separated_above [OF s(2)] by fastforce
  then have "covered bs \<subseteq> extent r1 - free_bytes I r1" using Cons.prems(6) unfolding r1(4,5) by (auto simp: b)
  with Cons.IH [OF s(2,5), of ?p1] k r1(2,3) obtain r2 where
    "free_tls I bs ?p1 = Some (?p1\<lparr>memory_regions := (memory_regions ?p1)[BASE_REGION := r2],
          memory_used := memory_used ?p1 - of_nat (card (covered bs))\<rparr>)"
    "region_ok I ok r2" "\<not> mr_locked r2" "free_bytes I r2 = free_bytes I r1 \<union> covered bs" by auto
  moreover have "card (covered (b # bs)) = unat (hi - lo) + card (covered bs)"
    using covered_Cons_card Cons.prems(1) unfolding b by blast
  ultimately show ?case
    using r1(1,5) by (intro exI [of _ r2]) (simp add: b diff_diff_eq Un_assoc)
qed

lemma Release_twice: "snd (Release ty b (snd (Release ty a l))) = snd (Release ty (a + b) l)"
  by (simp add: Release_def diff_diff_eq)

lemma free_holding_spec:
  "separated n bs \<Longrightarrow> aligned_blocks bs \<Longrightarrow> memory_region p = Some k \<Longrightarrow> k < length (memory_regions p) \<Longrightarrow>
    resource_limit p = Some l \<Longrightarrow>
    region_ok I ok (memory_regions p ! k) \<Longrightarrow> \<not> mr_locked (memory_regions p ! k) \<Longrightarrow>
    covered bs \<subseteq> extent (memory_regions p ! k) - free_bytes I (memory_regions p ! k) \<Longrightarrow>
    \<exists>r'. free_holding I bs p = Some (p\<lparr>memory_regions := (memory_regions p)[k := r'],
          memory_used := memory_used p - of_nat (card (covered bs)),
          resource_limit := Some (snd (Release RLCommit (of_nat (card (covered bs))) l))\<rparr>)
      \<and> region_ok I ok r' \<and> \<not> mr_locked r' \<and> extent r' = extent (memory_regions p ! k)
      \<and> free_bytes I r' = free_bytes I (memory_regions p ! k) \<union> covered bs"
proof (induction bs arbitrary: n p l)
  case Nil
  then show ?case by (intro exI [of _ "memory_regions p ! k"]) (simp add: Release_def)
next
  case (Cons b bs)
  obtain lo hi where b: "b = (lo, hi)" by (cases b)
  from Cons.prems(1,2) have s: "lo < hi" "separated (Suc (unat hi)) bs" "4096 dvd unat lo" "4096 dvd unat hi" "aligned_blocks bs"
    by (auto simp: b aligned_blocks_def)
  note k = Cons.prems(3,4)
  have sub: "{unat lo..<unat hi} \<subseteq> extent (memory_regions p ! k) - free_bytes I (memory_regions p ! k)"
    using Cons.prems(8) by (auto simp: b)
  obtain r1 where r1: "upd_region k (\<lambda>r. map_option (Pair ()) (Region_Free I lo (hi - lo) r)) p
      = Some ((), p\<lparr>memory_regions := (memory_regions p)[k := r1]\<rparr>)"
    "region_ok I ok r1" "\<not> mr_locked r1" "extent r1 = extent (memory_regions p ! k)"
    "free_bytes I r1 = free_bytes I (memory_regions p ! k) \<union> {unat lo..<unat hi}"
    using give_block [OF k(2) Cons.prems(6,7) s(1,3,4) sub] by blast
  let ?l1 = "snd (Release RLCommit (hi - lo) l)"
  let ?p1 = "p\<lparr>memory_regions := (memory_regions p)[k := r1], memory_used := memory_used p - (hi - lo), resource_limit := Some ?l1\<rparr>"
  have "covered bs \<inter> {unat lo..<unat hi} = {}" using separated_above [OF s(2)] by fastforce
  then have "covered bs \<subseteq> extent r1 - free_bytes I r1" using Cons.prems(8) unfolding r1(4,5) by (auto simp: b)
  with Cons.IH [OF s(2,5), of ?p1 ?l1] k r1(2,3) obtain r2 where
    "free_holding I bs ?p1 = Some (?p1\<lparr>memory_regions := (memory_regions ?p1)[k := r2],
          memory_used := memory_used ?p1 - of_nat (card (covered bs)),
          resource_limit := Some (snd (Release RLCommit (of_nat (card (covered bs))) ?l1))\<rparr>)"
    "region_ok I ok r2" "\<not> mr_locked r2" "extent r2 = extent r1" "free_bytes I r2 = free_bytes I r1 \<union> covered bs" by auto
  moreover have "card (covered (b # bs)) = unat (hi - lo) + card (covered bs)"
    using covered_Cons_card Cons.prems(1) unfolding b by blast
  ultimately show ?case
    using r1(1,4,5) k(1) Cons.prems(5)
    by (intro exI [of _ r2]) (simp add: b diff_diff_eq Un_assoc upd_own_region_def account_def Release_twice)
qed

end

end
