(* ===== verification/IpcFacts.thy ===== *)
theory IpcFacts imports Ipc ProcessFacts MemoryBlocks begin

text \<open>What the words of a command mean, and the facts on the translation that its properties share.\<close>

section \<open>Descriptors\<close>

lemma bit_numeral_pow: "bit ((2 :: u32) ^ m) n \<longleftrightarrow> m < 32 \<and> n = m"
  by (auto simp: bit_exp_iff)
lemma bit_descriptor_types:
  "bit StaticBuffer n \<longleftrightarrow> n = 1" "bit PXIBuffer n \<longleftrightarrow> n = 2" "bit MappedBuffer n \<longleftrightarrow> n = 3"
  "bit MoveHandle n \<longleftrightarrow> n = 4" "bit CallingPid n \<longleftrightarrow> n = 5" "\<not> bit CopyHandle n"
  using bit_numeral_pow [of 1 n] bit_numeral_pow [of 2 n] bit_numeral_pow [of 3 n] bit_numeral_pow [of 4 n] bit_numeral_pow [of 5 n]
  by (simp_all add: StaticBuffer_def PXIBuffer_def MappedBuffer_def MoveHandle_def CallingPid_def CopyHandle_def)

lemma bit_position: "d AND (2 :: u32) ^ m = 0 \<longleftrightarrow> \<not> bit d m"
  by (rule and_exp_eq_0_iff_not_bit)

lemma bit_ten: "bit (0x30 :: u32) n \<longleftrightarrow> n = 4 \<or> n = 5"
proof -
  have "(0x30 :: u32) = push_bit 4 (mask 2)" by (simp add: mask_eq_exp_minus_1 push_bit_eq_mult)
  then have "bit (0x30 :: u32) n \<longleftrightarrow> n < 32 \<and> 4 \<le> n \<and> n - 4 < 2" by (simp only: bit_push_bit_iff bit_mask_iff) auto
  then show ?thesis by auto
qed

lemma GetDescriptorType_bits:
  "GetDescriptorType d =
     (if \<not> bit d 0 \<and> \<not> bit d 1 \<and> \<not> bit d 2 \<and> \<not> bit d 3 then d AND 0x30
      else if bit d 3 then MappedBuffer else if bit d 2 then PXIBuffer else StaticBuffer)"
proof -
  have "d AND 0xF = take_bit 4 d" by (simp add: take_bit_eq_mask mask_eq_exp_minus_1)
  moreover have "take_bit 4 d = 0 \<longleftrightarrow> (\<forall>n < 4. \<not> bit d n)" by (auto simp: bit_eq_iff bit_simps)
  moreover have "(\<forall>n < 4. \<not> bit d n) \<longleftrightarrow> \<not> bit d 0 \<and> \<not> bit d 1 \<and> \<not> bit d 2 \<and> \<not> bit d 3"
    by (auto simp: less_Suc_eq numeral_eq_Suc)
  moreover have "d AND MappedBuffer = 0 \<longleftrightarrow> \<not> bit d 3" "d AND PXIBuffer = 0 \<longleftrightarrow> \<not> bit d 2"
    using bit_position [of d 3] bit_position [of d 2] by (simp_all add: MappedBuffer_def PXIBuffer_def)
  ultimately show ?thesis by (simp add: GetDescriptorType_def IsHandleDescriptor_def)
qed

lemma handle_count_bits: "0 < n \<Longrightarrow> n \<le> 64 \<Longrightarrow> drop_bit 26 (push_bit 26 (n - 1)) = (n - 1 :: u32)"
proof -
  assume n: "0 < n" "n \<le> 64"
  then have "n - 1 < 64" by unat_arith
  then have "unat (n - 1) < 2 ^ 6" by (simp add: word_less_nat_alt)
  then have "\<not> bit (n - 1) m" if "6 \<le> m" for m using not_bit_ge that by blast
  then have "m < 6" if "bit (n - 1) m" for m using that not_less by blast
  then show ?thesis by (intro bit_word_eqI) (force simp: bit_simps)
qed
lemma count_apart: "(d OR push_bit 26 n) AND (0x30 :: u32) = d AND 0x30"
  by (rule bit_word_eqI) (auto simp only: bit_and_iff bit_or_iff bit_push_bit_iff bit_ten)

lemma descriptor_values:
  "translate_params_size (MakeHeader cmd n t) = take_bit 6 t" "normal_params_size (MakeHeader cmd n t) = take_bit 6 n"
  "command_id (MakeHeader cmd n t) = ucast cmd"
  "GetDescriptorType (StaticBufferDesc sz bid) = StaticBuffer" "static_buffer_id (StaticBufferDesc sz bid) = take_bit 4 (ucast bid)"
  "static_buffer_size (StaticBufferDesc sz bid) = take_bit 18 sz"
  "GetDescriptorType (MappedBufferDesc sz perms) = MappedBuffer" "mapped_buffer_perms (MappedBufferDesc sz perms) = take_bit 2 perms"
  "mapped_buffer_size (MappedBufferDesc sz perms) = take_bit 28 sz"
  "GetDescriptorType (PXIBufferDesc sz b ro) = PXIBuffer"
  "GetDescriptorType CallingPidDesc = CallingPid"
  "GetDescriptorType (CopyHandleDesc m) = CopyHandle" "GetDescriptorType (MoveHandleDesc m) = MoveHandle"
  "0 < m \<Longrightarrow> m \<le> 64 \<Longrightarrow> HandleNumberFromDesc (CopyHandleDesc m) = m
    \<and> HandleNumberFromDesc (MoveHandleDesc m) = m"
proof -
  note fields = translate_params_size_def normal_params_size_def command_id_def static_buffer_id_def static_buffer_size_def
    mapped_buffer_perms_def mapped_buffer_size_def
  note descs = MakeHeader_def StaticBufferDesc_def MappedBufferDesc_def PXIBufferDesc_def CopyHandleDesc_def MoveHandleDesc_def CallingPidDesc_def
  have low: "bit cmd i \<Longrightarrow> i < 16" for i using bit_imp_le_length [of cmd i] by simp
  show "translate_params_size (MakeHeader cmd n t) = take_bit 6 t" "normal_params_size (MakeHeader cmd n t) = take_bit 6 n"
  "command_id (MakeHeader cmd n t) = ucast cmd"
    by (auto intro!: bit_word_eqI simp: fields descs bit_ExtractValue bit_Assign bit_simps dest: low)
  show  "static_buffer_id (StaticBufferDesc sz bid) = take_bit 4 (ucast bid)"
  "static_buffer_size (StaticBufferDesc sz bid) = take_bit 18 sz"
    "mapped_buffer_perms (MappedBufferDesc sz perms) = take_bit 2 perms"
  "mapped_buffer_size (MappedBufferDesc sz perms) = take_bit 28 sz"
    by (auto intro!: bit_word_eqI simp: fields descs bit_ExtractValue bit_Assign bit_simps)
  have two: "bit (2 :: u32) n \<longleftrightarrow> n = 1" for n using bit_numeral_pow [of 1 n] by simp
  show "GetDescriptorType (StaticBufferDesc sz bid) = StaticBuffer"
    "GetDescriptorType (MappedBufferDesc sz perms) = MappedBuffer" "GetDescriptorType (PXIBufferDesc sz b ro) = PXIBuffer"
    by (auto simp: GetDescriptorType_bits descs bit_Assign bit_descriptor_types bit_simps two)
  show "GetDescriptorType CallingPidDesc = CallingPid"
    "GetDescriptorType (CopyHandleDesc m) = CopyHandle" "GetDescriptorType (MoveHandleDesc m) = MoveHandle"
    by (simp_all only: descs GetDescriptorType_bits bit_or_iff bit_push_bit_iff bit_descriptor_types count_apart)
      (simp_all add: CallingPid_def CopyHandle_def MoveHandle_def)
  show "HandleNumberFromDesc (CopyHandleDesc m) = m \<and> HandleNumberFromDesc (MoveHandleDesc m) = m"
    if "0 < m" "m \<le> 64"
  proof -
    have "drop_bit 26 (MoveHandle OR push_bit 26 (m - 1)) = drop_bit 26 (push_bit 26 (m - 1))"
     "drop_bit 26 (CopyHandle OR push_bit 26 (m - 1)) = drop_bit 26 (push_bit 26 (m - 1))"
      by (auto intro!: bit_word_eqI simp: bit_simps bit_descriptor_types)
    then show ?thesis using handle_count_bits [OF that] by (simp add: HandleNumberFromDesc_def descs)
  qed
qed

lemma descriptor_kinds:
  "CallingPid \<noteq> CopyHandle" "CallingPid \<noteq> MoveHandle" "StaticBuffer \<noteq> CopyHandle" "StaticBuffer \<noteq> MoveHandle"
  "StaticBuffer \<noteq> CallingPid" "MappedBuffer \<noteq> CopyHandle" "MappedBuffer \<noteq> MoveHandle" "MappedBuffer \<noteq> CallingPid"
  "MappedBuffer \<noteq> StaticBuffer"
  by (simp_all add: CallingPid_def CopyHandle_def MoveHandle_def StaticBuffer_def MappedBuffer_def)

text \<open>Only the descriptor of a single moved handle is equal to \<open>MoveHandle\<close>.\<close>

lemma CopyHandleDesc_not_Move: "CopyHandleDesc m \<noteq> MoveHandle"
proof
  assume "CopyHandleDesc m = MoveHandle"
  then have "GetDescriptorType MoveHandle = CopyHandle" using descriptor_values(12) by metis
  then show False by (simp add: GetDescriptorType_def IsHandleDescriptor_def MoveHandle_def CopyHandle_def)
qed

lemma MoveHandleDesc_several:
  assumes "2 \<le> n" "n < 64"
  shows "MoveHandleDesc (of_nat n) \<noteq> MoveHandle"
proof
  assume "MoveHandleDesc (of_nat n) = MoveHandle"
  moreover have "HandleNumberFromDesc (MoveHandleDesc (of_nat n)) = of_nat n"
    using assms by (simp add: descriptor_values word_less_nat_alt word_le_nat_alt)
  ultimately have "of_nat n = (1 :: u32)" by (simp add: HandleNumberFromDesc_def MoveHandle_def)
  then have "unat (of_nat n :: u32) = unat (1 :: u32)" by simp
  with assms show False by simp
qed

section \<open>Processes\<close>

lemma upd_ipc_process_frame [frame_simps, simp]:
  "ik_memory (upd_ipc_process p f k) = ik_memory k" "ik_next_buffer (upd_ipc_process p f k) = ik_next_buffer k"
  "ik_processes (upd_ipc_process p f k) q = (if q = p then f (ik_processes k p) else ik_processes k q)"
  by (simp_all add: upd_ipc_process_def)

text \<open>The object a handle of the source names, whatever is done with the handle.\<close>

definition named_object :: "'o IpcCall \<Rightarrow> 'o IpcKernel \<Rightarrow> u32 \<Rightarrow> 'o option" where
  "named_object c k h =
     (if h = CurrentThread then Some (ic_src_thread c)
      else if h = CurrentProcess then Some (ic_src_process c)
      else if h \<noteq> 0 then lookup_handle (handles_of k (ic_src c)) h else None)"

lemma take_object_copy: "d \<noteq> MoveHandle \<Longrightarrow> take_object c d h k = (named_object c k h, k)"
  by (simp add: take_object_def named_object_def)

lemma take_object_move:
  assumes "h \<noteq> CurrentThread" "h \<noteq> CurrentProcess" "h \<noteq> 0"
  shows "take_object c MoveHandle h k = (lookup_handle (handles_of k (ic_src c)) h,
    upd_ipc_process (ic_src c) (\<lambda>p. p\<lparr>ip_handles := snd (Close (ip_handles p) h)\<rparr>) k)"
  using assms by (simp add: take_object_def)

lemma Create_empty_slots:
  assumes "ht_inv t" "Create t x = (Inr h, t')"
  shows "empty_slots t' = empty_slots t - {unat (next_free_slot t)}" "unat (next_free_slot t) \<in> empty_slots t"
  using Create_ok [OF assms] free_head_empty [OF assms(1)] by (auto simp: empty_slots_def)

lemma finite_empty_slots: "finite (empty_slots t)"
  by (rule finite_subset [of _ "{..<MAX_COUNT}"]) (auto simp: empty_slots_def)

text \<open>A process with a free slot can be given an object.\<close>

lemma give_object_spec:
  assumes inv: "ht_inv (handles_of k p)" and room: "0 < card (empty_slots (handles_of k p))"
  obtains h t' where "give_object p x k = Some (h, upd_ipc_process p (\<lambda>q. q\<lparr>ip_handles := t'\<rparr>) k)" "ht_inv t'"
    "handle_map (handles_of k p) h = None" "handle_map t' = (handle_map (handles_of k p))(h \<mapsto> x)"
    "card (empty_slots t') = card (empty_slots (handles_of k p)) - 1"
proof -
  let ?t = "handles_of k p"
  have "empty_slots ?t \<noteq> {}" using room by auto
  then have "unat (next_free_slot ?t) < MAX_COUNT" using free_head_iff [OF inv] by simp
  then obtain h t' where cr: "Create ?t x = (Inr h, t')" by (auto simp: Create_def Let_def)
  have "handle_map ?t h = None" using handles.create_fresh [OF inv cr] by (simp add: handle_map_def)
  moreover have "card (empty_slots t') = card (empty_slots ?t) - 1"
    using Create_empty_slots [OF inv cr] finite_empty_slots [of ?t] by simp
  moreover have "give_object p x k = Some (h, upd_ipc_process p (\<lambda>q. q\<lparr>ip_handles := t'\<rparr>) k)"
    using cr by (simp add: give_object_def)
  ultimately show thesis using that Create_inv [OF inv cr] handle_map_Create [OF inv cr] by blast
qed

text \<open>
  What is left of a list of handles for the receiver: \<open>ws\<close> are the words it gets for the handles
  \<open>hs\<close>, and its table goes from \<open>m\<close> to \<open>m'\<close>.
\<close>

fun received :: "'o IpcCall \<Rightarrow> 'o IpcKernel \<Rightarrow> u32 list \<Rightarrow> u32 list \<Rightarrow> (u32 \<rightharpoonup> 'o) \<Rightarrow> (u32 \<rightharpoonup> 'o) \<Rightarrow> bool" where
  "received c k [] ws m m' \<longleftrightarrow> ws = [] \<and> m' = m"
| "received c k (h # hs) ws m m' \<longleftrightarrow>
     (case named_object c k h of
        None \<Rightarrow> \<exists>ws'. ws = 0 # ws' \<and> received c k hs ws' m m'
      | Some x \<Rightarrow> \<exists>w ws'. ws = w # ws' \<and> m w = None \<and> received c k hs ws' (m(w \<mapsto> x)) m')"

lemma received_cong: "named_object c k = named_object c k' \<Longrightarrow> received c k xs ys m m' = received c k' xs ys m m'"
  by (induction xs arbitrary: ys m) (simp_all split: option.splits)

text \<open>Every descriptor but that of a single moved handle leaves the sender's table alone.\<close>

lemma translate_handles_copy:
  assumes "ic_src c \<noteq> ic_dst c" "d \<noteq> MoveHandle"
  shows "ht_inv (handles_of (tr_kernel t) (ic_dst c)) \<Longrightarrow>
    n \<le> card (empty_slots (handles_of (tr_kernel t) (ic_dst c))) \<Longrightarrow>
    tr_pos t + n \<le> length (tr_cmd_buf t) \<Longrightarrow>
    \<exists>tab ws. translate_handles c d n t = Some (t\<lparr>tr_cmd_buf := take (tr_pos t) (tr_cmd_buf t) @ ws @ drop (tr_pos t + n) (tr_cmd_buf t),
        tr_pos := tr_pos t + n, tr_kernel := upd_ipc_process (ic_dst c) (\<lambda>p. p\<lparr>ip_handles := tab\<rparr>) (tr_kernel t)\<rparr>)
      \<and> length ws = n \<and> ht_inv tab
      \<and> received c (tr_kernel t) (take n (drop (tr_pos t) (tr_cmd_buf t))) ws
          (handle_map (handles_of (tr_kernel t) (ic_dst c))) (handle_map tab)"
proof (induction n arbitrary: t)
  case 0
  have "upd_ipc_process (ic_dst c) (\<lambda>p. p\<lparr>ip_handles := handles_of (tr_kernel t) (ic_dst c)\<rparr>) (tr_kernel t) = tr_kernel t"
    by (simp add: upd_ipc_process_def handles_of_def)
  with 0 show ?case by (intro exI [of _ "handles_of (tr_kernel t) (ic_dst c)"] exI [of _ "[]"]) simp
next
  case (Suc n)
  let ?k = "tr_kernel t" and ?buf = "tr_cmd_buf t" and ?i = "tr_pos t" and ?d = "ic_dst c"
  let ?h = "?buf ! ?i" and ?t0 = "handles_of (tr_kernel t) (ic_dst c)"
  have i: "?i < length ?buf" using Suc.prems(3) by simp
  have hs: "take (Suc n) (drop ?i ?buf) = ?h # take n (drop (Suc ?i) ?buf)"
    using i by (simp add: Cons_nth_drop_Suc [symmetric])
  obtain w tab' where one: "translate_handle c d t = Some (t\<lparr>tr_cmd_buf := ?buf[?i := w], tr_pos := Suc ?i,
      tr_kernel := upd_ipc_process ?d (\<lambda>p. p\<lparr>ip_handles := tab'\<rparr>) ?k\<rparr>)" "ht_inv tab'" "n \<le> card (empty_slots tab')"
    "case named_object c ?k ?h of None \<Rightarrow> w = 0 \<and> handle_map tab' = handle_map ?t0
     | Some x \<Rightarrow> handle_map ?t0 w = None \<and> handle_map tab' = (handle_map ?t0)(w \<mapsto> x)"
  proof (cases "named_object c ?k ?h")
    case None
    have "upd_ipc_process ?d (\<lambda>p. p\<lparr>ip_handles := ?t0\<rparr>) ?k = ?k" by (simp add: upd_ipc_process_def handles_of_def)
    with None i Suc.prems that [where w = 0 and tab' = ?t0] show thesis
      by (simp add: translate_handle_def get_word_def put_word_def take_object_copy [OF assms(2)])
  next
    case (Some x)
    have "0 < card (empty_slots ?t0)" using Suc.prems(2) by simp
    then obtain h tab where g: "give_object ?d x ?k = Some (h, upd_ipc_process ?d (\<lambda>q. q\<lparr>ip_handles := tab\<rparr>) ?k)" "ht_inv tab"
      "handle_map ?t0 h = None" "handle_map tab = (handle_map ?t0)(h \<mapsto> x)" "card (empty_slots tab) = card (empty_slots ?t0) - 1"
      using give_object_spec [OF Suc.prems(1)] by metis
    with Some i Suc.prems(2) that [where w = h and tab' = tab] show thesis
      by (simp add: translate_handle_def get_word_def put_word_def take_object_copy [OF assms(2)])
  qed
  let ?t1 = "t\<lparr>tr_cmd_buf := ?buf[?i := w], tr_pos := Suc ?i, tr_kernel := upd_ipc_process ?d (\<lambda>p. p\<lparr>ip_handles := tab'\<rparr>) ?k\<rparr>"
  have tab': "handles_of (tr_kernel ?t1) ?d = tab'" by (simp add: handles_of_def)
  have named: "named_object c (tr_kernel ?t1) = named_object c ?k"
    using assms(1) by (auto simp: named_object_def handles_of_def fun_eq_iff)
  have same: "received c (tr_kernel ?t1) xs ys m m' = received c ?k xs ys m m'" for xs ys m m'
    by (rule received_cong [OF named])
  obtain tab ws where two: "translate_handles c d n ?t1 = Some (?t1\<lparr>tr_cmd_buf := take (Suc ?i) (?buf[?i := w]) @ ws @ drop (Suc ?i + n) ?buf,
      tr_pos := Suc ?i + n, tr_kernel := upd_ipc_process ?d (\<lambda>p. p\<lparr>ip_handles := tab\<rparr>) (tr_kernel ?t1)\<rparr>)"
    "length ws = n" "ht_inv tab" "received c ?k (take n (drop (Suc ?i) ?buf)) ws (handle_map tab') (handle_map tab)"
    using Suc.IH [of ?t1] one(2,3) Suc.prems(3) unfolding tab' same by auto
  have "take (Suc ?i) (?buf[?i := w]) = take ?i ?buf @ [w]" using i by (simp add: take_Suc_conv_app_nth)
  moreover have "upd_ipc_process ?d (\<lambda>p. p\<lparr>ip_handles := tab\<rparr>) (tr_kernel ?t1) = upd_ipc_process ?d (\<lambda>p. p\<lparr>ip_handles := tab\<rparr>) ?k"
    by (simp add: upd_ipc_process_def)
  ultimately have "translate_handles c d (Suc n) t = Some (t\<lparr>tr_cmd_buf := take ?i ?buf @ (w # ws) @ drop (?i + Suc n) ?buf,
      tr_pos := ?i + Suc n, tr_kernel := upd_ipc_process ?d (\<lambda>p. p\<lparr>ip_handles := tab\<rparr>) ?k\<rparr>)"
    using one(1) two(1) by simp
  moreover have "received c ?k (take (Suc n) (drop ?i ?buf)) (w # ws) (handle_map ?t0) (handle_map tab)"
    using one(4) two(4) unfolding hs by (auto split: option.splits)
  ultimately show ?case using two(2,3) by (intro exI [of _ tab] exI [of _ "w # ws"]) simp
qed

section \<open>Words in memory\<close>

lemma words_of_append4: "length xs = 4 \<Longrightarrow> words_of (xs @ ys) = le_word xs # words_of ys"
  by (auto simp: numeral_eq_Suc length_Suc_conv)

lemma length_bytes_of [simp]: "length (bytes_of ws) = 4 * length ws"
  by (induction ws) (simp_all add: bytes_of_def)

lemma words_of_bytes_of [simp]: "words_of (bytes_of ws) = ws"
proof (induction ws)
  case (Cons w ws)
  have "le_word (le_bytes 4 w) = w" by (rule le_word_le_bytes) simp
  with Cons show ?case by (simp add: bytes_of_def words_of_append4)
qed (simp add: bytes_of_def)

lemma take_bytes_of: "take (4 * n) (bytes_of ws) = bytes_of (take n ws)"
proof (induction ws arbitrary: n)
  case (Cons w ws)
  then show ?case by (cases n) (simp_all add: bytes_of_def)
qed (simp add: bytes_of_def)

definition shows_bytes :: "MemorySystem \<Rightarrow> nat \<Rightarrow> u32 \<Rightarrow> u8 list \<Rightarrow> bool" where
  "shows_bytes m table a bs \<longleftrightarrow> unat a + length bs \<le> 4294967296
     \<and> (\<forall>i < length bs. byte_at m table (a + of_nat i) = Some (bs ! i))"

abbreviation shows_words :: "MemorySystem \<Rightarrow> nat \<Rightarrow> u32 \<Rightarrow> u32 list \<Rightarrow> bool" where
  "shows_words m table a ws \<equiv> shows_bytes m table a (bytes_of ws)"

lemma shows_bytes_take: "shows_bytes m table a bs \<Longrightarrow> shows_bytes m table a (take n bs)"
  by (auto simp: shows_bytes_def)

lemma read_shown_bytes:
  assumes "shows_bytes (ik_memory k) (table_of k p) a bs"
  shows "read_block D p a (length bs) k = Some (bs, k)"
proof -
  have "\<forall>i < length bs. uncached (ik_memory k) (table_of k p) (vaddr_at (page_of a) (page_offset_of a + i))"
    using assms by (fastforce simp: shows_bytes_def vaddr_at_address byte_at_def)
  then have "ReadBlockImpl D False (table_of k p) (ik_memory k) a (length bs)
      = Some (map (\<lambda>i. the (byte_at (ik_memory k) (table_of k p) (a + of_nat i))) [0..<length bs], ik_memory k)"
    unfolding ReadBlockImpl_def
    using ReadBlock_loop_bytes [of "page_of a" "page_offset_of a" "length bs" "ik_memory k" "table_of k p" D False] assms
    by (simp add: vaddr_at_address page_split [of a] shows_bytes_def those_map)
  moreover have "map (\<lambda>i. the (byte_at (ik_memory k) (table_of k p) (a + of_nat i))) [0..<length bs] = bs"
    by (rule nth_equalityI) (use assms in \<open>simp_all add: shows_bytes_def\<close>)
  ultimately show ?thesis by (simp add: read_block_def)
qed

lemma read_words:
  assumes "shows_words (ik_memory k) (table_of k p) a ws" "n \<le> length ws"
  shows "read_block D p a (4 * n) k = Some (bytes_of (take n ws), k)"
proof -
  have "shows_bytes (ik_memory k) (table_of k p) a (bytes_of (take n ws))"
    using shows_bytes_take [OF assms(1)] by (simp flip: take_bytes_of)
  from read_shown_bytes [OF this] assms(2) show ?thesis by simp
qed

text \<open>
  Room for words: a range of pages with pointers, with all its bytes within their host buffers, of a
  table in which no two pages share memory.
\<close>

definition takes_words :: "MemorySystem \<Rightarrow> nat \<Rightarrow> u32 \<Rightarrow> nat \<Rightarrow> bool" where
  "takes_words m table a n \<longleftrightarrow> unat a + 4 * n \<le> 4294967296
     \<and> (\<forall>i < 4 * n. attributes (page_tables m table) (page_of (a + of_nat i)) = PageMemory)
     \<and> all_shown m table a (4 * n) \<and> separate (page_tables m table) \<and> pt_ok (page_tables m table)"

lemma write_words:
  assumes "takes_words (ik_memory k) (table_of k p) a (length ws)"
  obtains st where "write_block D p a (bytes_of ws) k = Some (k\<lparr>ik_memory := (ik_memory k)\<lparr>bytes := st\<rparr>\<rparr>)"
    "shows_words ((ik_memory k)\<lparr>bytes := st\<rparr>) (table_of k p) a ws"
    "st = poke_all (page_tables (ik_memory k) (table_of k p)) (bytes (ik_memory k)) a (bytes_of ws)"
proof -
  let ?m = "ik_memory k" and ?t = "table_of k p"
  note a = assms [unfolded takes_words_def]
  obtain st where w: "WriteBlockImpl D False ?t ?m a (bytes_of ws) = Some (?m\<lparr>bytes := st\<rparr>)"
    "\<forall>v. byte_at (?m\<lparr>bytes := st\<rparr>) ?t v = overwritten ?m ?t (unat a) (bytes_of ws) v"
    "st = poke_all (page_tables ?m ?t) (bytes ?m) a (bytes_of ws)"
    by (rule WriteBlock_shows [of a "bytes_of ws" ?m ?t D False]) (use a in simp_all)
  have "byte_at (?m\<lparr>bytes := st\<rparr>) ?t (a + of_nat i) = Some (bytes_of ws ! i)" if "i < 4 * length ws" for i
  proof -
    have "unat (of_nat i :: u32) = i" using that a by simp
    then have "unat (a + of_nat i) = unat a + i" using that a by (simp add: unat_plus_no_wrap_u32)
    with that a w(2) show ?thesis by (simp add: overwritten_def)
  qed
  with w(1,3) a that show thesis by (simp add: write_block_def shows_bytes_def)
qed

section \<open>Progress\<close>

lemma put_word_moves: "put_word w t = Some t' \<Longrightarrow> tr_pos t' = Suc (tr_pos t) \<and> length (tr_cmd_buf t') = length (tr_cmd_buf t)"
  by (auto simp: put_word_def split: if_splits)

lemma translate_handle_moves:
  assumes "translate_handle c d t = Some t'"
  shows "tr_pos t' = Suc (tr_pos t) \<and> length (tr_cmd_buf t') = length (tr_cmd_buf t)"
proof -
  obtain h where h: "get_word t = Some h" using assms by (auto simp: translate_handle_def bind_eq_Some_conv)
  obtain x k where x: "take_object c d h (tr_kernel t) = (x, k)" by (cases "take_object c d h (tr_kernel t)")
  from assms h x show ?thesis
    by (cases x) (auto simp: translate_handle_def bind_eq_Some_conv dest!: put_word_moves)
qed

lemma translate_handles_moves:
  "translate_handles c d n t = Some t' \<Longrightarrow> tr_pos t' = tr_pos t + n \<and> length (tr_cmd_buf t') = length (tr_cmd_buf t)"
  by (induction n arbitrary: t) (auto simp: bind_eq_Some_conv dest!: translate_handle_moves)

lemma translate_static_moves:
  "translate_static D c d t = Some t' \<Longrightarrow> tr_pos t' = Suc (tr_pos t) \<and> length (tr_cmd_buf t') = length (tr_cmd_buf t)"
  by (auto simp: translate_static_def Let_def bind_eq_Some_conv split: if_splits dest!: put_word_moves)

lemma map_buffer_moves:
  assumes "map_buffer D c perms sz src off n t = Some t'"
  shows "tr_pos t' = Suc (tr_pos t) \<and> length (tr_cmd_buf t') = length (tr_cmd_buf t)"
proof -
  obtain bs k1 where "read_block D (ic_src c) src (unat sz) (tr_kernel t) = Some (bs, k1)"
    using assms by (auto simp: map_buffer_def Let_def bind_eq_Some_conv)
  moreover obtain b k2 where "new_buffer (unat ((n + 2) * 0x1000)) (unat (0x1000 + off)) bs k1 = (b, k2)"
    by (cases "new_buffer (unat ((n + 2) * 0x1000)) (unat (0x1000 + off)) bs k1")
  moreover from calculation obtain r k3 where "on_space (ic_dst c) (\<lambda>vm. MapBackingMemoryToBase D vm IPC_MAPPING_VADDR
      IPC_MAPPING_SIZE (Some (b, 0)) ((n + 2) * 0x1000) MSShared) k2 = Some (r, k3)"
    using assms by (auto simp: map_buffer_def Let_def bind_eq_Some_conv)
  ultimately show ?thesis
    using assms by (cases r) (auto simp: map_buffer_def Let_def bind_eq_Some_conv dest!: put_word_moves)
qed

lemma translate_mapped_moves:
  "translate_mapped D c d t = Some t' \<Longrightarrow> tr_pos t' = Suc (tr_pos t) \<and> length (tr_cmd_buf t') = length (tr_cmd_buf t)"
  by (auto simp: translate_mapped_def return_buffer_def Let_def bind_eq_Some_conv
      split: if_split_asm dest!: put_word_moves map_buffer_moves)

text \<open>Each descriptor moves the position on, so that a round per word is enough.\<close>

lemma translate_descriptor_moves:
  "translate_descriptor D c n t = Some (r, t') \<Longrightarrow> tr_pos t < tr_pos t' \<and> length (tr_cmd_buf t') = length (tr_cmd_buf t)"
  by (auto simp: translate_descriptor_def Let_def bind_eq_Some_conv split: if_splits
      dest!: put_word_moves translate_handles_moves translate_static_moves translate_mapped_moves)

lemma translate_loop_enough:
  "n - tr_pos t \<le> fuel \<Longrightarrow> translate_loop (fuel + extra) D c n t = translate_loop fuel D c n t"
proof (induction fuel arbitrary: t)
  case 0
  then show ?case by (cases extra) auto
next
  case (Suc fuel)
  show ?case
  proof (cases "translate_descriptor D c n t")
    case (Some p)
    obtain r t1 where p: "p = (r, t1)" by (cases p)
    have "tr_pos t < tr_pos t1" using translate_descriptor_moves Some p by blast
    then have "n - tr_pos t1 \<le> fuel" using Suc.prems by simp
    from Suc.IH [OF this] Some p show ?thesis by simp
  qed simp
qed

end
