(* ===== verification/ProcessProps.thy ===== *)
theory ProcessProps imports ProcessFacts begin

text \<open>
  The properties of a process's memory, each for every interval set that satisfies
  \<^const>\<open>interval_set\<close>, and a process in which they are applied.
\<close>

section \<open>The heap\<close>

text \<open>
  C20: Allocating a page-aligned, non-empty range of the heap is refused, with nothing changed, when the
  range is outside the heap, when some address of it is mapped, or when the region has fewer free bytes.
  Otherwise it succeeds. The bytes taken are the topmost free bytes of the region, and the range shows
  them in ascending order, each once, with the permissions and state asked for; the region, the
  holdings, the usage counter and the resource limit are charged, and the invariant is kept. Addresses
  outside the range are unchanged, but for readable and writable ones that get the same permissions.
\<close>

theorem HeapAllocate_refines:
  assumes "interval_set I ok" "memory_ok I ok p" "own_region p = Some r"
    and "page_aligned target" "page_aligned sz" "0 < unat sz"
  shows "if outside_heap target sz
    then Process_HeapAllocate I D target sz perms state False p = Some (Inl ResultInvalidAddress, p)
    else if \<not> range_free target sz (pm_vm p)
    then Process_HeapAllocate I D target sz perms state False p = Some (Inl ResultInvalidAddressState, p)
    else if card (free_bytes I r) < unat sz
    then Process_HeapAllocate I D target sz perms state False p = Some (Inl ResultOutOfHeapMemory, p)
    else \<exists>p' r' bs. Process_HeapAllocate I D target sz perms state False p = Some (Inr target, p')
      \<and> memory_ok I ok p' \<and> own_region p' = Some r'
      \<and> separated 0 bs \<and> length (offsets bs) = unat sz \<and> set (offsets bs) \<subseteq> free_bytes I r
      \<and> free_bytes I r' = free_bytes I r - set (offsets bs)
      \<and> (\<forall>a \<in> set (offsets bs). \<forall>b \<in> free_bytes I r'. b < a)
      \<and> shows_fcram perms state (unat target) (offsets bs) (pm_vm p')
      \<and> spills_perms {unat target..<unat target + unat sz} perms state (pm_vm p) (pm_vm p')
      \<and> members I (holding_memory p') = members I (holding_memory p) \<union> set (offsets bs)
      \<and> memory_used p' = memory_used p + sz
      \<and> resource_limit p' = map_option (\<lambda>l. snd (Reserve RLCommit sz l)) (resource_limit p)"
proof (cases "outside_heap target sz")
  case True
  then show ?thesis by (simp add: Process_HeapAllocate_def)
next
  case False
  then have "\<not> outside_heap target sz \<or> False \<and> unat target + unat sz \<le> MAXA" by simp
  note spec = interval_set.HeapAllocate_spec [OF assms this, of D perms state]
  show ?thesis
  proof (cases "range_free target sz (pm_vm p) \<and> \<not> card (free_bytes I r) < unat sz")
    case True
    then have c: "\<not> \<not> range_free target sz (pm_vm p)" "\<not> card (free_bytes I r) < unat sz" by simp_all
    from spec [unfolded if_not_P [OF c(1)] if_not_P [OF c(2)]] obtain p' r' bs where h:
      "Process_HeapAllocate I D target sz perms state False p = Some (Inr target, p')"
      "memory_ok I ok p'" "own_region p' = Some r'" "separated 0 bs" "length (offsets bs) = unat sz"
      "covered bs \<subseteq> free_bytes I r" "free_bytes I r' = free_bytes I r - covered bs"
      "\<forall>a \<in> covered bs. \<forall>b \<in> free_bytes I r'. b < a"
      "shows_fcram perms state (unat target) (offsets bs) (pm_vm p')"
      "spills_perms {unat target..<unat target + unat sz} perms state (pm_vm p) (pm_vm p')"
      "members I (holding_memory p') = members I (holding_memory p) \<union> covered bs"
      "memory_used p' = memory_used p + sz"
      "resource_limit p' = map_option (\<lambda>l. snd (Reserve RLCommit sz l)) (resource_limit p)" by blast
    show ?thesis
      unfolding if_not_P [OF False] if_not_P [OF c(1)] if_not_P [OF c(2)] set_offsets
      by (intro exI conjI) (rule h)+
  next
    case refused: False
    show ?thesis
    proof (cases "range_free target sz (pm_vm p)")
      case True
      then have c: "\<not> \<not> range_free target sz (pm_vm p)" "card (free_bytes I r) < unat sz" using refused by simp_all
      from spec [unfolded if_not_P [OF c(1)] if_P [OF c(2)]] show ?thesis
        unfolding if_not_P [OF \<open>\<not> outside_heap target sz\<close>] if_not_P [OF c(1)] if_P [OF c(2)] .
    next
      case False
      from spec [unfolded if_P [OF False]] show ?thesis
        unfolding if_not_P [OF \<open>\<not> outside_heap target sz\<close>] if_P [OF False] .
    qed
  qed
qed

text \<open>
  C21: Freeing what a heap allocation of a page-aligned, non-empty range has just mapped succeeds and
  gives the memory back: the region has the same free bytes as before, the process holds the same
  bytes, and the usage counter and the current commit of the resource limit are as before. The
  address space is exactly as before when the allocation was readable and writable. When it had
  other permissions there is one exception, a defect of the allocation that the release does not
  repair: an address of the same state that was readable and writable may have been left with the
  permissions of the allocation; every other address is as before.
\<close>

theorem HeapFree_undoes_HeapAllocate:
  assumes "interval_set I ok" "memory_ok I ok p" "own_region p = Some r"
    and "page_aligned target" "page_aligned sz" "0 < unat sz"
    and alloc: "Process_HeapAllocate I D target sz perms state False p = Some (Inr addr, p1)"
  shows "\<exists>p2 r2. Process_HeapFree I D' target sz p1 = Some (None, p2) \<and> memory_ok I ok p2
    \<and> own_region p2 = Some r2 \<and> free_bytes I r2 = free_bytes I r
    \<and> members I (holding_memory p2) = members I (holding_memory p)
    \<and> memory_used p2 = memory_used p \<and> resource_limit p2 = resource_limit p
    \<and> (\<forall>a. attrs (pm_vm p2) a = attrs (pm_vm p) a \<or> perms \<noteq> PermReadWrite
         \<and> (\<exists>o'. attrs (pm_vm p) a = Some (BackingMemoryVMA, PermReadWrite, state, o')
              \<and> attrs (pm_vm p2) a = Some (BackingMemoryVMA, perms, state, o')))"
proof -
  have inside: "\<not> outside_heap target sz" using alloc by (auto simp: Process_HeapAllocate_def)
  note ha = interval_set.HeapAllocate_spec [OF assms(1-6), of False D perms state]
  have cases: "range_free target sz (pm_vm p)" "\<not> card (free_bytes I r) < unat sz"
    using ha inside alloc by (auto split: if_splits)
  with ha inside alloc obtain r1 bs where a: "memory_ok I ok p1" "own_region p1 = Some r1" "mr_base r1 = mr_base r"
    "mr_size r1 = mr_size r" "separated 0 bs" "aligned_blocks bs" "length (offsets bs) = unat sz" "covered bs \<subseteq> free_bytes I r"
    "free_bytes I r1 = free_bytes I r - covered bs"
    "shows_fcram perms state (unat target) (offsets bs) (pm_vm p1)"
    "spills_perms {unat target..<unat target + unat sz} perms state (pm_vm p) (pm_vm p1)"
    "members I (holding_memory p1) = members I (holding_memory p) \<union> covered bs"
    "memory_used p1 = memory_used p + sz"
    "resource_limit p1 = map_option (\<lambda>l. snd (Reserve RLCommit sz l)) (resource_limit p)" by auto
  have ok: "region_ok I ok r" "members I (holding_memory p) \<subseteq> extent r - free_bytes I r"
    using assms(2,3) by (auto simp: memory_ok_def)
  have ext: "set (offsets bs) \<subseteq> extent r1 - free_bytes I r1"
    using a(3,4,8,9) ok(1) by (auto simp: region_ok_def extent_def)
  from interval_set.HeapFree_spec [OF assms(1) a(1,2) assms(4-6) inside a(7) page_starts_offsets [OF a(6)]
      shows_mapped [OF a(10)] distinct_offsets [OF a(5)] ext, of D']
  obtain p2 r2 where f: "Process_HeapFree I D' target sz p1 = Some (None, p2)" "memory_ok I ok p2" "own_region p2 = Some r2"
    "free_bytes I r2 = free_bytes I r1 \<union> covered bs"
    "\<And>a. attrs (pm_vm p2) a = (if unat target \<le> a \<and> a < unat target + unat sz then Some free_attributes else attrs (pm_vm p1) a)"
    "members I (holding_memory p2) = members I (holding_memory p1) - covered bs"
    "memory_used p2 = memory_used p1 - sz"
    "resource_limit p2 = map_option (\<lambda>l. snd (Release RLCommit sz l)) (resource_limit p1)"
    by auto
  have region: "free_bytes I r2 = free_bytes I r" using f(4) a(8,9) by auto
  have held: "members I (holding_memory p2) = members I (holding_memory p)"
    using f(6) a(8,12) ok(2) by auto
  have limit: "resource_limit p2 = resource_limit p"
    using f(8) a(14) by (cases "resource_limit p") (simp_all add: Release_def Reserve_def)
  have "spills_perms {} perms state (pm_vm p) (pm_vm p2)"
    unfolding spills_perms_def
  proof (intro allI impI)
    fix a
    have m: "map_ok (vma_map (pm_vm p))" using assms(2) by (simp add: memory_ok_def space_ok_def)
    show "spill perms state (attrs (pm_vm p) a) (attrs (pm_vm p2) a)"
    proof (cases "unat target \<le> a \<and> a < unat target + unat sz")
      case True
      then have "free_at (vma_map (pm_vm p)) a" using cases(1) by blast
      then obtain v where "v \<in> set (vma_map (pm_vm p))" "attrs (pm_vm p) a = Some (vattr v)" "free v"
        using attr_at_ex [of "vma_map (pm_vm p)" a] fst_vattr unfolding free_at_def by metis
      then have "attrs (pm_vm p) a = Some free_attributes"
        using m free_attr [of v] by (simp add: map_ok_def free_attributes_def)
      with True f(5) show ?thesis by simp
    next
      case False
      with f(5) [of a] a(11) show ?thesis by (auto simp: spills_perms_def)
    qed
  qed
  note space = spills_perms_exactly [OF this]
  have used: "memory_used p2 = memory_used p" using f(7) a(13) by simp
  show ?thesis by (intro exI conjI) (rule f(1) f(2) f(3) region held used limit space)+
qed


section \<open>The linear heap\<close>

text \<open>
  A non-empty, page-aligned block of the linear heap whose address is left to the system is taken
  from the lowest place of the region that has room, and shown at the address that belongs to it in the
  linear area; without room the call is refused and nothing changes. The call aborts exactly when that
  place is mapped to something else already. On success region, holdings, counters and invariant are
  kept as for the heap.
\<close>

theorem LinearAllocate_takes_lowest:
  assumes "interval_set I ok" "memory_ok I ok p" "own_region p = Some r" "page_aligned sz" "0 < unat sz"
  shows "if \<forall>k. \<not> {k..<k + unat sz} \<subseteq> free_bytes I r
    then Process_LinearAllocate I D 0 sz perms p = Some (Inl ResultOutOfHeapMemory, p)
    else \<exists>off. {unat off..<unat off + unat sz} \<subseteq> free_bytes I r
      \<and> (\<forall>k. {k..<k + unat sz} \<subseteq> free_bytes I r \<longrightarrow> unat off \<le> k)
      \<and> (if \<not> range_free (off + GetLinearHeapAreaAddress p) sz (pm_vm p)
         then Process_LinearAllocate I D 0 sz perms p = None
         else \<exists>p' r'. Process_LinearAllocate I D 0 sz perms p = Some (Inr (off + GetLinearHeapAreaAddress p), p')
           \<and> memory_ok I ok p' \<and> own_region p' = Some r'
           \<and> free_bytes I r' = free_bytes I r - {unat off..<unat off + unat sz}
           \<and> shows_fcram perms MSContinuous (unat (off + GetLinearHeapAreaAddress p)) [unat off..<unat off + unat sz] (pm_vm p')
           \<and> spills_perms {unat (off + GetLinearHeapAreaAddress p)..<unat (off + GetLinearHeapAreaAddress p) + unat sz}
               perms MSContinuous (pm_vm p) (pm_vm p')
           \<and> members I (holding_memory p') = members I (holding_memory p) \<union> {unat off..<unat off + unat sz}
           \<and> memory_used p' = memory_used p + sz
           \<and> resource_limit p' = map_option (\<lambda>l. snd (Reserve RLCommit sz l)) (resource_limit p))"
proof (cases "\<exists>k. {k..<k + unat sz} \<subseteq> free_bytes I r")
  case True
  with interval_set.LinearAllocate_spec [OF assms] obtain off r' where
    t: "{unat off..<unat off + unat sz} \<subseteq> free_bytes I r" "4096 dvd unat off"
      "\<forall>k. {k..<k + unat sz} \<subseteq> free_bytes I r \<longrightarrow> unat off \<le> k"
      "free_bytes I r' = free_bytes I r - {unat off..<unat off + unat sz}" "region_ok I ok r'" "\<not> mr_locked r'"
      "mr_base r' = mr_base r" "mr_size r' = mr_size r"
      "place_linear I 0 sz p = Some (Inr (linear_address p off, off), set_region r' p)" by auto
  note m = interval_set.LinearAllocate_mapping [OF assms t(5-8,4,1,2,9), of D perms]
  have c: "\<not> (\<forall>k. \<not> {k..<k + unat sz} \<subseteq> free_bytes I r)" using True by simp
  show ?thesis
  proof (cases "range_free (linear_address p off) sz (pm_vm p)")
    case free: True
    then have f: "\<not> \<not> range_free (linear_address p off) sz (pm_vm p)" by simp
    from m [unfolded if_not_P [OF f]] obtain p' where h:
      "Process_LinearAllocate I D 0 sz perms p = Some (Inr (linear_address p off), p')"
      "memory_ok I ok p'" "own_region p' = Some r'"
      "shows_fcram perms MSContinuous (unat (linear_address p off)) [unat off..<unat off + unat sz] (pm_vm p')"
      "spills_perms {unat (linear_address p off)..<unat (linear_address p off) + unat sz} perms MSContinuous (pm_vm p) (pm_vm p')"
      "members I (holding_memory p') = members I (holding_memory p) \<union> {unat off..<unat off + unat sz}"
      "memory_used p' = memory_used p + sz"
      "resource_limit p' = map_option (\<lambda>l. snd (Reserve RLCommit sz l)) (resource_limit p)" by blast
    show ?thesis
      unfolding if_not_P [OF c]
      by (intro exI [of _ off] conjI, rule t(1), rule t(3), unfold if_not_P [OF f], intro exI conjI) (rule h t(4))+
  next
    case mapped: False
    show ?thesis
      unfolding if_not_P [OF c]
      by (intro exI [of _ off] conjI, rule t(1), rule t(3), unfold if_P [OF mapped]) (rule m [unfolded if_P [OF mapped]])
  qed
next
  case False
  with interval_set.LinearAllocate_spec [OF assms, of D perms] show ?thesis by simp
qed


text \<open>
  Two blocks of the linear heap that happen to be adjacent, the first readable and writable: the
  second allocation also sets its permissions on the first block, because the address-space manager
  merges the new area with its neighbour before the permissions are set.
\<close>

theorem LinearAllocate_changes_neighbour:
  assumes "interval_set I ok" "memory_ok I ok p" "page_aligned sz1" "page_aligned sz2" "0 < unat sz1" "0 < unat sz2"
    and one: "Process_LinearAllocate I D 0 sz1 PermReadWrite p = Some (Inr a, p1)"
    and two: "Process_LinearAllocate I D 0 sz2 perms p1 = Some (Inr (a + sz1), p2)"
  shows "\<exists>off. attrs (pm_vm p1) (unat (a + sz1) - 1)
      = Some (backed PermReadWrite MSContinuous (RegionMem FCRAM) off (unat (a + sz1) - 1))
    \<and> attrs (pm_vm p2) (unat (a + sz1) - 1)
      = Some (backed perms MSContinuous (RegionMem FCRAM) off (unat (a + sz1) - 1))"
proof -
  obtain r where r: "own_region p = Some r" using assms(2) by (auto simp: memory_ok_def)
  note la1 = interval_set.LinearAllocate_spec [OF assms(1,2) r assms(3,5), of D PermReadWrite]
  have "\<exists>k. {k..<k + unat sz1} \<subseteq> free_bytes I r" using la1 one by (auto split: if_splits)
  from la1 [unfolded if_P [OF this]] obtain off1 r1 where t1: "{unat off1..<unat off1 + unat sz1} \<subseteq> free_bytes I r"
    "4096 dvd unat off1" "free_bytes I r1 = free_bytes I r - {unat off1..<unat off1 + unat sz1}" "region_ok I ok r1"
    "\<not> mr_locked r1" "mr_base r1 = mr_base r" "mr_size r1 = mr_size r"
    "place_linear I 0 sz1 p = Some (Inr (linear_address p off1, off1), set_region r1 p)" by blast
  note m1 = interval_set.LinearAllocate_mapping [OF assms(1,2) r assms(3,5) t1(4-7,3,1,2,8), of D PermReadWrite]
  have f1: "\<not> \<not> range_free (linear_address p off1) sz1 (pm_vm p)" using m1 one by (auto split: if_splits)
  from m1 [unfolded if_not_P [OF f1]] one have h1: "a = linear_address p off1" "memory_ok I ok p1"
    "own_region p1 = Some r1" "kernel_version p1 = kernel_version p"
    "shows_fcram PermReadWrite MSContinuous (unat a) [unat off1..<unat off1 + unat sz1] (pm_vm p1)" by auto
  note la2 = interval_set.LinearAllocate_spec [OF assms(1) h1(2,3) assms(4,6), of D perms]
  have "\<exists>k. {k..<k + unat sz2} \<subseteq> free_bytes I r1" using la2 two by (auto split: if_splits)
  from la2 [unfolded if_P [OF this]] obtain off2 r2 where t2: "{unat off2..<unat off2 + unat sz2} \<subseteq> free_bytes I r1"
    "4096 dvd unat off2" "free_bytes I r2 = free_bytes I r1 - {unat off2..<unat off2 + unat sz2}" "region_ok I ok r2"
    "\<not> mr_locked r2" "mr_base r2 = mr_base r1" "mr_size r2 = mr_size r1"
    "place_linear I 0 sz2 p1 = Some (Inr (linear_address p1 off2, off2), set_region r2 p1)" by blast
  note m2 = interval_set.LinearAllocate_mapping [OF assms(1) h1(2,3) assms(4,6) t2(4-7,3,1,2,8), of D perms]
  have f2: "\<not> \<not> range_free (linear_address p1 off2) sz2 (pm_vm p1)" using m2 two by (auto split: if_splits)
  from m2 [unfolded if_not_P [OF f2]] two have h2: "linear_address p1 off2 = a + sz1"
    "attrs (pm_vm p1) (unat (a + sz1) - 1)
       = Some (backed PermReadWrite MSContinuous (RegionMem FCRAM) (unat off2) (unat (a + sz1)))
     \<longrightarrow> attrs (pm_vm p2) (unat (a + sz1) - 1)
       = Some (backed perms MSContinuous (RegionMem FCRAM) (unat off2) (unat (a + sz1)))" by auto
  have reg: "region_ok I ok r" using assms(2) r by (auto simp: memory_ok_def)
  then have ext: "{unat off1..<unat off1 + unat sz1} \<subseteq> extent r" using t1(1) by (auto simp: region_ok_def)
  note b = linear_address_bounds(1) [OF reg ext assms(5)] linear_address_bounds(2-) [OF reg ext assms(5), of p]
  have "off2 = off1 + sz1" using h2(1) h1(1,4) by (simp add: GetLinearHeapAreaAddress_def)
  then have off2: "unat off2 = unat off1 + unat sz1" using b(1) by (simp add: unat_plus_no_wrap_u32)
  have e: "unat (a + sz1) = unat a + unat sz1" using b(3) by (simp add: h1(1) unat_plus_no_wrap_u32)
  define k where "k = unat sz1 - 1"
  have k: "k < unat sz1" "unat (a + sz1) - 1 = unat a + k" using assms(5) by (simp_all add: k_def e)
  have shift: "backed q MSContinuous (RegionMem FCRAM) (unat off1 + k) (unat a + k)
      = backed q MSContinuous (RegionMem FCRAM) (unat off2) (unat (a + sz1))" for q
    by (simp add: backed_def origin_def off2 e)
  have "attrs (pm_vm p1) (unat a + k) = Some (backed PermReadWrite MSContinuous (RegionMem FCRAM) (unat off1 + k) (unat a + k))"
    using h1(5) k(1) by (simp add: shows_fcram_def)
  then show ?thesis using h2(2) unfolding k(2) shift [symmetric] by blast
qed

section \<open>Exit\<close>

text \<open>
  C23: When a process goes, every byte it holds, of its own region and of the region the pages of
  thread-local storage come from, is free again in its region, no other region changes, the usage
  counter and the commit of the resource limit drop by what was held, and nothing is held any more.
  No assertion of the regions fails on the way.
\<close>

theorem FreeAllMemory_returns_everything:
  assumes "interval_set I ok" "memory_ok I ok p" "memory_region p = Some k" "resource_limit p = Some l"
    and "ok (holding_tls_memory p)" "paged (members I (holding_tls_memory p))"
    and "BASE_REGION < length (memory_regions p)" "region_ok I ok (memory_regions p ! BASE_REGION)"
      "\<not> mr_locked (memory_regions p ! BASE_REGION)"
    and "members I (holding_tls_memory p)
      \<subseteq> extent (memory_regions p ! BASE_REGION) - free_bytes I (memory_regions p ! BASE_REGION)"
    and "k = BASE_REGION \<Longrightarrow> members I (holding_tls_memory p) \<inter> members I (holding_memory p) = {}"
  shows "\<exists>p'. FreeAllMemory I p = Some p' \<and> length (memory_regions p') = length (memory_regions p)
    \<and> (\<forall>j < length (memory_regions p). free_bytes I (memory_regions p' ! j)
        = free_bytes I (memory_regions p ! j) \<union> (if j = k then members I (holding_memory p) else {})
          \<union> (if j = BASE_REGION then members I (holding_tls_memory p) else {}))
    \<and> region_ok I ok (memory_regions p' ! k) \<and> region_ok I ok (memory_regions p' ! BASE_REGION)
    \<and> holding_memory p' = iset_empty I \<and> holding_tls_memory p' = iset_empty I \<and> tls_slots p' = []
    \<and> memory_used p' = memory_used p
        - of_nat (card (members I (holding_memory p)) + card (members I (holding_tls_memory p)))
    \<and> resource_limit p' = Some (snd (Release RLCommit (of_nat (card (members I (holding_memory p)))) l))"
proof -
  let ?hold = "iset_blocks I (holding_memory p)" and ?tls = "iset_blocks I (holding_tls_memory p)"
  have ok: "ok (holding_memory p)" "paged (covered ?hold)" using assms(2) by (simp_all add: memory_ok_def)
  from assms(2,3) have r: "k < length (memory_regions p)" "region_ok I ok (memory_regions p ! k)"
    "\<not> mr_locked (memory_regions p ! k)" "covered ?hold \<subseteq> extent (memory_regions p ! k) - free_bytes I (memory_regions p ! k)"
    by (auto simp: memory_ok_def own_region_Some)
  note sep = interval_set.blocks_separated [OF assms(1) ok(1)] interval_set.blocks_separated [OF assms(1,5)]
  note al = paged_blocks_aligned [OF sep(1) ok(2)] paged_blocks_aligned [OF sep(2) assms(6)]
  from interval_set.free_holding_spec [OF assms(1) sep(1) al(1) assms(3) r(1) assms(4) r(2-4)] obtain r1 where
    one: "free_holding I ?hold p = Some (p\<lparr>memory_regions := (memory_regions p)[k := r1],
          memory_used := memory_used p - of_nat (card (covered ?hold)),
          resource_limit := Some (snd (Release RLCommit (of_nat (card (covered ?hold))) l))\<rparr>)"
      "region_ok I ok r1" "\<not> mr_locked r1" "extent r1 = extent (memory_regions p ! k)"
      "free_bytes I r1 = free_bytes I (memory_regions p ! k) \<union> covered ?hold" by blast
  let ?p1 = "p\<lparr>memory_regions := (memory_regions p)[k := r1], memory_used := memory_used p - of_nat (card (covered ?hold)),
          resource_limit := Some (snd (Release RLCommit (of_nat (card (covered ?hold))) l)), holding_memory := iset_empty I\<rparr>"
  let ?b1 = "(memory_regions p)[k := r1] ! BASE_REGION"
  have base: "region_ok I ok ?b1" "\<not> mr_locked ?b1" "covered ?tls \<subseteq> extent ?b1 - free_bytes I ?b1"
    "BASE_REGION < length (memory_regions ?p1)"
    using assms(7-11) one(2-5) by (cases "k = BASE_REGION"; auto)+
  from interval_set.free_tls_spec [OF assms(1) sep(2) al(2), of ?p1] base obtain r2 where
    two: "free_tls I ?tls ?p1 = Some (?p1\<lparr>memory_regions := (memory_regions ?p1)[BASE_REGION := r2],
          memory_used := memory_used ?p1 - of_nat (card (covered ?tls))\<rparr>)"
      "region_ok I ok r2" "free_bytes I r2 = free_bytes I ?b1 \<union> covered ?tls" by auto
  have "FreeAllMemory I p = Some (?p1\<lparr>memory_regions := (memory_regions ?p1)[BASE_REGION := r2],
      memory_used := memory_used ?p1 - of_nat (card (covered ?tls)), holding_tls_memory := iset_empty I, tls_slots := []\<rparr>)"
    using assms(3,4) one(1) two(1) by (simp add: FreeAllMemory_def)
  then show ?thesis
    using one(2,5) two(2,3) r(1) assms(7)
    by (auto simp: nth_list_update diff_diff_eq)
qed


section \<open>The supervisor call\<close>

lemma SplitVMA_refuses: "off = 0 \<or> vma_size (vs ! i) \<le> off \<Longrightarrow> SplitVMA vs i off = None"
  by (auto simp: SplitVMA_def Let_def)

lemma CarveVMA_empty:
  assumes "map_ok vs"
  shows "case CarveVMA vs target 0 of None \<Rightarrow> True | Some (r, _) \<Rightarrow> \<exists>e. r = Inl e"
proof -
  let ?i = "FindVMA vs target"
  let ?v = "vs ! ?i"
  let ?off = "target - vma_base ?v"
  consider "\<not> page_aligned (0 :: u32) \<or> \<not> page_aligned target" | "?i = length vs" | "vma_type ?v \<noteq> FreeVMA" | "vma_size ?v < ?off"
    | "page_aligned target" "page_aligned (0 :: u32)" "?i \<noteq> length vs" "vma_type ?v = FreeVMA" "?off \<le> vma_size ?v"
    by fastforce
  then show ?thesis
  proof cases
    case 5
    have c: "chain 0 vs MAXA" using assms by (simp add: map_ok_def)
    have "unat target < MAXA" using 5(3) FindVMA_end [of target vs] by linarith
    then have "?i < length vs" using FindVMA_split [OF c] by (metis length_append less_add_same_cancel1 length_greater_0_conv list.distinct(1))
    then have pos: "0 < vsize ?v" using chain_bounds [OF c, of ?v] by simp
    show ?thesis
    proof (cases "?off = vma_size ?v")
      case True
      then have "?off \<noteq> 0" using pos by auto
      with True have "CarveVMA vs target 0 = None" using 5
        by (simp add: CarveVMA_def Let_def SplitVMA_refuses)
      then show ?thesis by simp
    next
      case False
      have "(do { (vs2, j) \<leftarrow> (if ?off \<noteq> 0 then SplitVMA vs1 ?i ?off else Some (vs1, ?i)); Some (Inr j :: result_code + nat, vs2) }) = None"
        if s: "SplitVMA vs ?i ?off = Some (vs1, k)" for vs1 k
      proof -
        from s have off: "?off \<noteq> 0" and i: "?i < length vs" by (auto simp: SplitVMA_def Let_def split: if_splits)
        from s i have "vma_size (vs1 ! ?i) = ?off"
          by (auto simp: SplitVMA_def Let_def bind_eq_Some_conv nth_append split: if_splits)
        then show ?thesis using off by (simp add: SplitVMA_refuses)
      qed
      then have "CarveVMA vs target 0 = None" using 5 False
        by (cases "SplitVMA vs ?i ?off") (auto simp: CarveVMA_def Let_def)
      then show ?thesis by simp
    qed
  qed (auto simp: CarveVMA_def Let_def)
qed

lemma map_block_empty:
  assumes "space_ok vm"
  shows "map_block D perms state target (Some (b, i)) 0 vm = None"
  using CarveVMA_empty [of "vma_map vm" target] assms
  by (auto simp: map_block_def MapBackingMemory_def space_ok_def split: option.splits sum.splits)

text \<open>
  Three calls a guest can make abort the emulator: committing an empty block of the linear heap at
  an address of the system's choice, changing the permissions of an empty range, and mapping an alias
  at an address outside the managed space.
\<close>

theorem ControlMemory_aborts:
  assumes "interval_set I ok" "memory_ok I ok p" "own_region p = Some r" "free_bytes I r \<noteq> {}"
    and "page_aligned addr" "permissions AND 3 = permissions"
    and "page_aligned source" "page_aligned sz" "\<not> outside_heap source sz"
    and "page_aligned target" "MAX_ADDRESS \<le> target" "\<not> ranges_overlap target source sz"
  shows "ControlMemory I D 0 addr 0 (MEMOP_COMMIT OR MEMOP_LINEAR) permissions p = None
    \<and> ControlMemory I D addr source 0 MEMOP_PROTECT permissions p = None
    \<and> ControlMemory I D target source sz MEMOP_MAP permissions p = None"
proof (intro conjI)
  have vm: "space_ok (pm_vm p)" and r: "region_ok I ok r" "\<not> mr_locked r"
    using assms(2,3) by (auto simp: memory_ok_def)
  have "iset_blocks I (free_blocks r) \<noteq> []" using assms(4) by auto
  then obtain lo hi bs where b: "iset_blocks I (free_blocks r) = (lo, hi) # bs"
    by (metis list.exhaust surj_pair)
  then have alloc: "\<exists>r'. Region_LinearAllocate I 0 r = Some (Some lo, r')"
    using r(2) by (simp add: Region_LinearAllocate_def)
  have "Process_LinearAllocate I D 0 0 perms p = None" for perms
    using alloc vm
    by (auto simp: Process_LinearAllocate_def place_linear_def upd_own_region_eq [OF assms(3)] GetFCRAMRef_def
        make_ref_def map_block_empty split: option.splits if_splits)
  then show "ControlMemory I D 0 addr 0 (MEMOP_COMMIT OR MEMOP_LINEAR) permissions p = None"
    using assms(5,6)
    by (simp add: ControlMemory_def page_aligned_def MEMOP_COMMIT_def MEMOP_LINEAR_def MEMOP_REGION_MASK_def
        MEMOP_OPERATION_MASK_def MEMOP_FREE_def with_address_def Let_def)
  have "ReprotectRange D (pm_vm p) addr 0 perms = None" for perms
    by (simp add: ReprotectRange_def CarveVMARange_def)
  then show "ControlMemory I D addr source 0 MEMOP_PROTECT permissions p = None"
    using assms(5-7)
    by (simp add: ControlMemory_def page_aligned_def MEMOP_COMMIT_def MEMOP_PROTECT_def MEMOP_REGION_MASK_def
        MEMOP_OPERATION_MASK_def MEMOP_FREE_def MEMOP_MAP_def MEMOP_UNMAP_def without_address_def on_vm_def Let_def)
  have "Process_Map D target source sz perms False p = None" for perms
    using assms(9,11,12) by (simp add: Process_Map_def area_free_def Let_def FindVMA_def)
  then show "ControlMemory I D target source sz MEMOP_MAP permissions p = None"
    using assms(6-8,10)
    by (simp add: ControlMemory_def MEMOP_COMMIT_def MEMOP_REGION_MASK_def
        MEMOP_OPERATION_MASK_def MEMOP_FREE_def MEMOP_MAP_def without_address_def Let_def)
qed


section \<open>A process\<close>

text \<open>
  Three small regions with holes, an empty address space and a process of the first region that
  holds one page of it and one page of thread-local storage.
\<close>

definition sample_region_info :: "u32 \<Rightarrow> u32 \<Rightarrow> u32 \<Rightarrow> (u32 \<times> u32) list \<Rightarrow> (u32 \<times> u32) list MemoryRegionInfo" where
  "sample_region_info base sz used bs = \<lparr>mr_base = base, mr_size = sz, mr_used = used, free_blocks = bs, mr_locked = False\<rparr>"

definition sample_process :: "(u32 \<times> u32) list ProcessMemory" where
  "sample_process = \<lparr>pm_vm = sample_vm [free_space 0 0x40000000], memory_used = 0x2000, holding_memory = [(0, 0x1000)],
     holding_tls_memory = [(0x8000, 0x9000)], tls_slots = [True # replicate 7 False], kernel_version = 0x238,
     memory_region = Some 0,
     memory_regions = [sample_region_info 0 0x6000 0x3000 [(0x1000, 0x3000), (0x5000, 0x6000)],
       sample_region_info 0x6000 0x2000 0 [(0x6000, 0x8000)], sample_region_info 0x8000 0x3000 0x1000 [(0x9000, 0xB000)]],
     resource_limit = Some ResourceLimit_Create\<rparr>"

abbreviation sample_own :: "(u32 \<times> u32) list MemoryRegionInfo" where
  "sample_own \<equiv> sample_region_info 0 0x6000 0x3000 [(0x1000, 0x3000), (0x5000, 0x6000)]"

lemma sample_own_region: "own_region sample_process = Some sample_own"
  by (simp add: sample_process_def own_region_def)

lemma list_members [simp]: "members list_set_ops bs = covered bs"
  by (simp add: list_set_ops_def)

lemma card_two_intervals: "b \<le> c \<Longrightarrow> card ({a..<b} \<union> {c..<(d :: nat)}) = (b - a) + (d - c)"
  by (subst card_Un_disjoint) auto

lemma sample_regions_ok:
  "region_ok list_set_ops (separated 0) sample_own"
  "region_ok list_set_ops (separated 0) (sample_region_info 0x8000 0x3000 0x1000 [(0x9000, 0xB000)])"
  by (auto simp: region_ok_def sample_region_info_def extent_def card_two_intervals intro!: paged_Un paged_interval)

lemma sample_memory_ok: "memory_ok list_set_ops (separated 0) sample_process"
proof -
  have "map_ok [free_space 0 0x40000000]"
    by (simp add: map_ok_def sample_defs area_ok_def page_aligned_def free_apart_def free_def)
  then have "space_ok (pm_vm sample_process)" by (simp add: sample_process_def space_ok_def sample_vm_def)
  moreover have "paged (members list_set_ops (holding_memory sample_process))"
    by (simp add: sample_process_def paged_interval)
  moreover have "members list_set_ops (holding_memory sample_process)
      \<subseteq> extent sample_own - free_bytes list_set_ops sample_own"
    by (auto simp: sample_process_def sample_region_info_def extent_def)
  ultimately show ?thesis
    using sample_regions_ok(1) sample_own_region unfolding memory_ok_def
    by (auto simp: sample_process_def sample_region_info_def)
qed

lemma sample_space_free: "range_free target sz (pm_vm sample_process)" if "unat target + unat sz \<le> MAXA"
  using that by (auto simp: sample_process_def sample_vm_def sample_defs free_at_def vattr_def)

lemma HeapAllocate_refines_witness:
  "\<forall>D. \<exists>p'. Process_HeapAllocate list_set_ops D 0x08000000 0x2000 1 MSPrivate False sample_process
      = Some (Inr 0x08000000, p') \<and> memory_ok list_set_ops (separated 0) p' \<and> memory_used p' = 0x4000"
proof
  fix D
  have c: "\<not> outside_heap 0x08000000 0x2000" by (simp add: outside_heap_def HEAP_VADDR_END_def HEAP_VADDR_def HEAP_SIZE_def)
  have f: "\<not> \<not> range_free 0x08000000 0x2000 (pm_vm sample_process)" using sample_space_free [of "0x08000000" "0x2000"] by simp
  have n: "\<not> card (free_bytes list_set_ops sample_own) < unat (0x2000 :: u32)"
    by (simp add: sample_region_info_def card_two_intervals)
  from HeapAllocate_refines [OF list_set.interval_set_axioms sample_memory_ok sample_own_region,
      of "0x08000000" "0x2000" D 1 MSPrivate, unfolded if_not_P [OF c] if_not_P [OF f] if_not_P [OF n]]
  show "\<exists>p'. Process_HeapAllocate list_set_ops D 0x08000000 0x2000 1 MSPrivate False sample_process
      = Some (Inr 0x08000000, p') \<and> memory_ok list_set_ops (separated 0) p' \<and> memory_used p' = 0x4000"
    by (auto simp: page_aligned_def sample_process_def)
qed


lemma sample_heap_allocates:
  "\<exists>p'. Process_HeapAllocate list_set_ops D 0x08000000 0x2000 1 MSPrivate False sample_process
      = Some (Inr 0x08000000, p')"
proof -
  have c: "\<not> outside_heap 0x08000000 0x2000 \<or> False \<and> unat (0x08000000 :: u32) + unat (0x2000 :: u32) \<le> MAXA"
    by (simp add: outside_heap_def HEAP_VADDR_END_def HEAP_VADDR_def HEAP_SIZE_def)
  have f: "\<not> \<not> range_free 0x08000000 0x2000 (pm_vm sample_process)" using sample_space_free [of "0x08000000" "0x2000"] by simp
  have n: "\<not> card (free_bytes list_set_ops sample_own) < unat (0x2000 :: u32)"
    by (simp add: sample_region_info_def card_two_intervals)
  from list_set.HeapAllocate_spec [OF sample_memory_ok sample_own_region _ _ _ c,
      of D 1 MSPrivate, unfolded if_not_P [OF f] if_not_P [OF n]]
  show ?thesis by (auto simp: page_aligned_def)
qed

lemma HeapFree_undoes_HeapAllocate_witness:
  "\<forall>D. \<exists>p1 p2. Process_HeapAllocate list_set_ops D 0x08000000 0x2000 1 MSPrivate False sample_process
      = Some (Inr 0x08000000, p1)
    \<and> Process_HeapFree list_set_ops D 0x08000000 0x2000 p1 = Some (None, p2) \<and> memory_used p2 = 0x2000"
proof
  fix D
  obtain p1 where a: "Process_HeapAllocate list_set_ops D 0x08000000 0x2000 1 MSPrivate False sample_process
      = Some (Inr 0x08000000, p1)"
    using sample_heap_allocates [of D] by blast
  from HeapFree_undoes_HeapAllocate [OF list_set.interval_set_axioms sample_memory_ok sample_own_region _ _ _ a, of D] a
  show "\<exists>p1 p2. Process_HeapAllocate list_set_ops D 0x08000000 0x2000 1 MSPrivate False sample_process
      = Some (Inr 0x08000000, p1)
    \<and> Process_HeapFree list_set_ops D 0x08000000 0x2000 p1 = Some (None, p2) \<and> memory_used p2 = 0x2000"
    by (auto simp: page_aligned_def sample_process_def)
qed

lemma linear_step:
  assumes I: "interval_set I ok" and p: "memory_ok I ok p" "own_region p = Some r" and al: "page_aligned sz" "0 < unat sz"
    and off: "{unat off..<unat off + unat sz} \<subseteq> free_bytes I r" "\<forall>a \<in> free_bytes I r. unat off \<le> a"
    and fre: "range_free (linear_address p off) sz (pm_vm p)"
  shows "\<exists>p' r'. Process_LinearAllocate I D 0 sz perms p = Some (Inr (linear_address p off), p')
    \<and> memory_ok I ok p' \<and> own_region p' = Some r' \<and> free_bytes I r' = free_bytes I r - {unat off..<unat off + unat sz}
    \<and> kernel_version p' = kernel_version p
    \<and> spills_perms {unat (linear_address p off)..<unat (linear_address p off) + unat sz} perms MSContinuous (pm_vm p) (pm_vm p')"
proof -
  have ex: "\<exists>k. {k..<k + unat sz} \<subseteq> free_bytes I r" using off(1) by blast
  from interval_set.LinearAllocate_spec [OF I p al, unfolded if_P [OF ex]] obtain o' r' where
    t: "{unat o'..<unat o' + unat sz} \<subseteq> free_bytes I r" "4096 dvd unat o'"
      "\<forall>k. {k..<k + unat sz} \<subseteq> free_bytes I r \<longrightarrow> unat o' \<le> k"
      "free_bytes I r' = free_bytes I r - {unat o'..<unat o' + unat sz}" "region_ok I ok r'" "\<not> mr_locked r'"
      "mr_base r' = mr_base r" "mr_size r' = mr_size r"
      "place_linear I 0 sz p = Some (Inr (linear_address p o', o'), set_region r' p)" by blast
  have "unat o' \<le> unat off" using t(3) off(1) by blast
  moreover have "unat o' \<in> free_bytes I r" using t(1) al(2) by auto
  then have "unat off \<le> unat o'" using off(2) by blast
  ultimately have eq: "o' = off" by (simp add: word_unat_eq_iff)
  note m = interval_set.LinearAllocate_mapping [OF I p al t(5-8,4,1,2,9), of D perms, unfolded eq]
  have f: "\<not> \<not> range_free (linear_address p off) sz (pm_vm p)" using fre by simp
  from m [unfolded if_not_P [OF f]] t(4) show ?thesis unfolding eq by blast
qed

lemma sample_linear_steps:
  obtains p1 p2 where "Process_LinearAllocate list_set_ops D 0 0x1000 PermReadWrite sample_process = Some (Inr 0x30001000, p1)"
    "Process_LinearAllocate list_set_ops D 0 0x1000 1 p1 = Some (Inr 0x30002000, p2)"
proof -
  have area: "linear_address sample_process 0x1000 = 0x30001000"
    by (simp add: sample_process_def GetLinearHeapAreaAddress_def NEW_LINEAR_HEAP_VADDR_def word_less_nat_alt)
  have free: "free_bytes list_set_ops sample_own = {0x1000..<0x3000} \<union> {0x5000..<0x6000}"
    by (simp add: sample_region_info_def)
  have al: "page_aligned (0x1000 :: u32)" "0 < unat (0x1000 :: u32)" by (simp_all add: page_aligned_def)
  have run: "{unat (0x1000 :: u32)..<unat (0x1000 :: u32) + unat (0x1000 :: u32)} \<subseteq> free_bytes list_set_ops sample_own"
    "\<forall>a \<in> free_bytes list_set_ops sample_own. unat (0x1000 :: u32) \<le> a" unfolding free by auto
  have fr: "range_free (linear_address sample_process 0x1000) 0x1000 (pm_vm sample_process)"
    unfolding area by (rule sample_space_free) simp
  obtain p1 r1 where one: "Process_LinearAllocate list_set_ops D 0 0x1000 PermReadWrite sample_process = Some (Inr 0x30001000, p1)"
    "memory_ok list_set_ops (separated 0) p1" "own_region p1 = Some r1"
    "free_bytes list_set_ops r1 = free_bytes list_set_ops sample_own - {0x1000..<0x2000}"
    "kernel_version p1 = kernel_version sample_process"
    "spills_perms {0x30001000..<0x30002000} PermReadWrite MSContinuous (pm_vm sample_process) (pm_vm p1)"
    using linear_step [OF list_set.interval_set_axioms sample_memory_ok sample_own_region al run fr, of D PermReadWrite]
    unfolding area by auto
  have area1: "linear_address p1 0x2000 = 0x30002000"
    using one(5) by (simp add: sample_process_def GetLinearHeapAreaAddress_def NEW_LINEAR_HEAP_VADDR_def word_less_nat_alt)
  have free1: "free_bytes list_set_ops r1 = {0x2000..<0x3000} \<union> {0x5000..<0x6000}" using one(4) free by auto
  have run1: "{unat (0x2000 :: u32)..<unat (0x2000 :: u32) + unat (0x1000 :: u32)} \<subseteq> free_bytes list_set_ops r1"
    "\<forall>a \<in> free_bytes list_set_ops r1. unat (0x2000 :: u32) \<le> a" unfolding free1 by auto
  have "range_free (linear_address p1 0x2000) 0x1000 (pm_vm p1)"
    unfolding area1
  proof (intro allI impI)
    fix a assume "unat (0x30002000 :: u32) \<le> a \<and> a < unat (0x30002000 :: u32) + unat (0x1000 :: u32)"
    then show "free_at (vma_map (pm_vm p1)) a"
      using spills_perms_free [OF one(6), of a] sample_space_free [of "0x30002000" "0x1000"] by simp
  qed
  from linear_step [OF list_set.interval_set_axioms one(2,3) al run1 this, of D 1] obtain p2 where
    "Process_LinearAllocate list_set_ops D 0 0x1000 1 p1 = Some (Inr 0x30002000, p2)" unfolding area1 by blast
  with one(1) that show thesis by blast
qed

lemma LinearAllocate_takes_lowest_witness:
  "\<forall>D. \<exists>p'. Process_LinearAllocate list_set_ops D 0 0x1000 3 sample_process = Some (Inr 0x30001000, p')
     \<and> memory_used p' = 0x3000"
proof
  fix D
  have area: "GetLinearHeapAreaAddress sample_process = 0x30000000"
    by (simp add: sample_process_def GetLinearHeapAreaAddress_def NEW_LINEAR_HEAP_VADDR_def word_less_nat_alt)
  have free: "free_bytes list_set_ops sample_own = {0x1000..<0x3000} \<union> {0x5000..<0x6000}"
    by (simp add: sample_region_info_def)
  have run: "{0x1000..<0x1000 + unat (0x1000 :: u32)} \<subseteq> free_bytes list_set_ops sample_own" unfolding free by auto
  then have c: "\<not> (\<forall>k. \<not> {k..<k + unat (0x1000 :: u32)} \<subseteq> free_bytes list_set_ops sample_own)" by blast
  have al: "page_aligned (0x1000 :: u32)" "0 < unat (0x1000 :: u32)" by (simp_all add: page_aligned_def)
  from LinearAllocate_takes_lowest [OF list_set.interval_set_axioms sample_memory_ok sample_own_region al, of D 3,
      unfolded if_not_P [OF c]]
  show "\<exists>p'. Process_LinearAllocate list_set_ops D 0 0x1000 3 sample_process = Some (Inr 0x30001000, p')
     \<and> memory_used p' = 0x3000"
  proof (elim exE conjE, goal_cases)
    case (1 off)
    have "unat off \<le> 0x1000" using 1(2) run by blast
    moreover have "unat off \<in> free_bytes list_set_ops sample_own" using 1(1) al(2) by auto
    then have "0x1000 \<le> unat off" unfolding free by auto
    ultimately have "off = 0x1000" by (simp add: word_unat_eq_iff)
    then have off: "off + GetLinearHeapAreaAddress sample_process = 0x30001000" by (simp add: area)
    have "\<not> \<not> range_free 0x30001000 0x1000 (pm_vm sample_process)" using sample_space_free [of "0x30001000" "0x1000"] by simp
    from 1(3) [unfolded off if_not_P [OF this]] show ?case by (auto simp: sample_process_def)
  qed
qed

lemma LinearAllocate_changes_neighbour_witness:
  "\<forall>D. \<exists>p1 p2 off. Process_LinearAllocate list_set_ops D 0 0x1000 PermReadWrite sample_process = Some (Inr 0x30001000, p1)
     \<and> Process_LinearAllocate list_set_ops D 0 0x1000 1 p1 = Some (Inr 0x30002000, p2)
     \<and> attrs (pm_vm p2) 0x30001FFF = Some (backed 1 MSContinuous (RegionMem FCRAM) off 0x30001FFF)"
proof
  fix D
  obtain p1 p2 where s: "Process_LinearAllocate list_set_ops D 0 0x1000 PermReadWrite sample_process = Some (Inr 0x30001000, p1)"
    "Process_LinearAllocate list_set_ops D 0 0x1000 1 p1 = Some (Inr 0x30002000, p2)"
    by (rule sample_linear_steps)
  from LinearAllocate_changes_neighbour [OF list_set.interval_set_axioms sample_memory_ok _ _ _ _ s(1), of "0x1000" 1 p2] s
  show "\<exists>p1 p2 off. Process_LinearAllocate list_set_ops D 0 0x1000 PermReadWrite sample_process = Some (Inr 0x30001000, p1)
     \<and> Process_LinearAllocate list_set_ops D 0 0x1000 1 p1 = Some (Inr 0x30002000, p2)
     \<and> attrs (pm_vm p2) 0x30001FFF = Some (backed 1 MSContinuous (RegionMem FCRAM) off 0x30001FFF)"
    by (auto simp: page_aligned_def)
qed

lemma FreeAllMemory_returns_everything_witness:
  "\<exists>p'. FreeAllMemory list_set_ops sample_process = Some p' \<and> memory_used p' = 0 \<and> holding_memory p' = []
     \<and> 0 \<in> free_bytes list_set_ops (memory_regions p' ! 0) \<and> 0x8000 \<in> free_bytes list_set_ops (memory_regions p' ! 2)"
proof -
  have "\<exists>p'. FreeAllMemory list_set_ops sample_process = Some p'
      \<and> length (memory_regions p') = length (memory_regions sample_process)
    \<and> (\<forall>j < length (memory_regions sample_process). free_bytes list_set_ops (memory_regions p' ! j)
        = free_bytes list_set_ops (memory_regions sample_process ! j)
          \<union> (if j = 0 then members list_set_ops (holding_memory sample_process) else {})
          \<union> (if j = BASE_REGION then members list_set_ops (holding_tls_memory sample_process) else {}))
    \<and> region_ok list_set_ops (separated 0) (memory_regions p' ! 0)
    \<and> region_ok list_set_ops (separated 0) (memory_regions p' ! BASE_REGION)
    \<and> holding_memory p' = iset_empty list_set_ops \<and> holding_tls_memory p' = iset_empty list_set_ops \<and> tls_slots p' = []
    \<and> memory_used p' = memory_used sample_process - of_nat (card (members list_set_ops (holding_memory sample_process))
        + card (members list_set_ops (holding_tls_memory sample_process)))
    \<and> resource_limit p' = Some (snd (Release RLCommit
        (of_nat (card (members list_set_ops (holding_memory sample_process)))) ResourceLimit_Create))"
    by (rule FreeAllMemory_returns_everything [OF list_set.interval_set_axioms sample_memory_ok])
      (use sample_regions_ok(2) in \<open>auto simp: sample_process_def BASE_REGION_def extent_def sample_region_info_def paged_interval\<close>)
  then show ?thesis by (auto simp: sample_process_def sample_region_info_def BASE_REGION_def list_set_ops_def)
qed

lemma ControlMemory_aborts_witness:
  "\<forall>D. ControlMemory list_set_ops D 0 0 0 0x10003 3 sample_process = None
     \<and> ControlMemory list_set_ops D 0 0x08000000 0 6 3 sample_process = None
     \<and> ControlMemory list_set_ops D 0x40000000 0x08000000 0x1000 4 3 sample_process = None"
proof
  fix D
  have "ControlMemory list_set_ops D 0 0 0 (MEMOP_COMMIT OR MEMOP_LINEAR) 3 sample_process = None
     \<and> ControlMemory list_set_ops D 0 0x08000000 0 MEMOP_PROTECT 3 sample_process = None
     \<and> ControlMemory list_set_ops D 0x40000000 0x08000000 0x1000 MEMOP_MAP 3 sample_process = None"
    by (rule ControlMemory_aborts [OF list_set.interval_set_axioms sample_memory_ok sample_own_region])
      (auto simp: sample_region_info_def page_aligned_def outside_heap_def HEAP_VADDR_END_def HEAP_VADDR_def
        HEAP_SIZE_def MAX_ADDRESS_def ranges_overlap_def)
  then show "ControlMemory list_set_ops D 0 0 0 0x10003 3 sample_process = None
     \<and> ControlMemory list_set_ops D 0 0x08000000 0 6 3 sample_process = None
     \<and> ControlMemory list_set_ops D 0x40000000 0x08000000 0x1000 4 3 sample_process = None"
    by (simp add: MEMOP_COMMIT_def MEMOP_LINEAR_def MEMOP_PROTECT_def MEMOP_MAP_def)
qed

end
