(* ===== verification/AliasProps.thy ===== *)
theory AliasProps imports ProcessProps begin

text \<open>
  Aliases: the supervisor's mapping of one range of a process's heap at a second address, what both
  ranges then show, and what unmapping and freeing them do.
\<close>

section \<open>Mapping an alias\<close>

text \<open>The blocks behind a range are shown a second time, block by block.\<close>

lemma map_aliases_spec:
  "space_ok vm \<Longrightarrow> \<forall>q \<in> set bl. fcram_block q \<and> set (ref_bytes q) \<subseteq> {..<unat FCRAM_N3DS_SIZE} \<Longrightarrow> page_aligned target \<Longrightarrow>
    unat target + length (concat (map ref_bytes bl)) \<le> MAXA \<Longrightarrow>
    \<forall>a. unat target \<le> a \<and> a < unat target + length (concat (map ref_bytes bl)) \<longrightarrow> free_at (vma_map vm) a \<Longrightarrow>
    \<exists>vm'. map_aliases D perms state target bl vm = Some vm' \<and> space_ok vm'
      \<and> shows_fcram perms state (unat target) (concat (map ref_bytes bl)) vm'
      \<and> spills_perms {unat target..<unat target + length (concat (map ref_bytes bl))} perms state vm vm'"
proof (induction bl arbitrary: target vm)
  case Nil
  then show ?case by (simp add: shows_fcram_def spills_perms_def)
next
  case (Cons q bl)
  from Cons.prems(2) obtain i n where q: "q = (Some (RegionMem FCRAM, i), n)" "0 < unat n" "4096 dvd unat n"
    by (auto simp: fcram_block_def)
  have al: "page_aligned n" using q(3) by (simp add: page_aligned_dvd)
  have "i + unat n - 1 \<in> set (ref_bytes q)" using q by auto
  with Cons.prems(2) q(2) have room: "i + unat n \<le> unat FCRAM_N3DS_SIZE" by fastforce
  let ?m = "length (concat (map ref_bytes bl))"
  have len: "length (concat (map ref_bytes (q # bl))) = unat n + ?m" by (simp add: q(1))
  obtain vm1 where one: "map_block D perms state target (Some (RegionMem FCRAM, i)) n vm = Some vm1" "space_ok vm1"
    "shows_fcram perms state (unat target) [i..<i + unat n] vm1"
    "spills_perms {unat target..<unat target + unat n} perms state vm vm1"
    "unat (target + n) = unat target + unat n" "page_aligned (target + n)"
    "\<forall>a. unat (target + n) \<le> a \<and> a < unat (target + n) + ?m \<longrightarrow> free_at (vma_map vm1) a"
    by (rule fcram_block_step [OF Cons.prems(1,3) al q(2) room Cons.prems(4) [unfolded len] Cons.prems(5) [unfolded len],
      of D perms state])
  have "\<forall>q \<in> set bl. fcram_block q \<and> set (ref_bytes q) \<subseteq> {..<unat FCRAM_N3DS_SIZE}" "unat (target + n) + ?m \<le> MAXA"
    using Cons.prems(2,4) unfolding len one(5) by simp_all
  from Cons.IH [OF one(2) this(1) one(6) this(2) one(7)] obtain vm2 where
    two: "map_aliases D perms state (target + n) bl vm1 = Some vm2" "space_ok vm2"
      "shows_fcram perms state (unat target + unat n) (concat (map ref_bytes bl)) vm2"
      "spills_perms {unat target + unat n..<unat target + unat n + ?m} perms state vm1 vm2"
    unfolding one(5) by blast
  note st = shows_fcram_step [of perms state "unat target" "[i..<i + unat n]" vm1 vm "concat (map ref_bytes bl)" vm2,
    unfolded length_upt add_diff_cancel_left', OF one(3,4) two(3,4)]
  have "concat (map ref_bytes (q # bl)) = [i..<i + unat n] @ concat (map ref_bytes bl)" by (simp add: q(1))
  with st have "shows_fcram perms state (unat target) (concat (map ref_bytes (q # bl))) vm2"
      "spills_perms {unat target..<unat target + length (concat (map ref_bytes (q # bl)))} perms state vm vm2"
    unfolding len by simp_all
  moreover have "map_aliases D perms state target (q # bl) vm = Some vm2" using one(1) two(1) by (simp add: q(1))
  ultimately show ?case using two(2) by blast
qed

lemma apart_ranges:
  assumes "\<not> ranges_overlap target source sz"
  shows "unat source + unat sz \<le> unat target \<or> unat target + unat sz \<le> unat source"
proof (cases "source \<le> target")
  case True
  then have "unat (target - source) = unat target - unat source" by (simp add: unat_sub)
  with assms True show ?thesis by (auto simp: ranges_overlap_def word_le_nat_alt word_less_nat_alt)
next
  case False
  then have "unat (source - target) = unat source - unat target" by (simp add: unat_sub)
  with assms False show ?thesis by (auto simp: ranges_overlap_def word_le_nat_alt word_less_nat_alt)
qed

text \<open>A change of state and permissions of a whole range.\<close>

lemma updated_shows:
  assumes "range_updated (with_state st perms) target sz vs (vma_map vm')" "vs = vma_map vm"
    and "shows_fcram q st' (unat target) os vm" "length os = unat sz"
  shows "shows_fcram perms st (unat target) os vm'"
  using assms by (auto simp: shows_fcram_def range_updated_def with_state_def backed_def)

lemma spills_shows_other:
  assumes "shows_fcram q st t os vm" "spills_perms R perms state vm vm'" "st \<noteq> state"
    and "\<forall>x \<in> R. x < t \<or> t + length os \<le> x"
  shows "shows_fcram q st t os vm'"
  unfolding shows_fcram_def
proof (intro allI impI)
  fix k assume k: "k < length os"
  then have "t + k \<notin> R" using assms(4) by auto
  with assms(1-3) k show "attrs vm' (t + k) = Some (backed q st (RegionMem FCRAM) (os ! k) (t + k))"
    unfolding spills_perms_def shows_fcram_def by (intro spill_other [of perms state]) metis
qed

lemma updated_free:
  assumes "range_updated (with_state st perms) target sz (vma_map vm) (vma_map vm')"
    and "a < unat target \<or> unat target + unat sz \<le> a"
  shows "attrs vm' a = attrs vm a"
  using assms by (auto simp: range_updated_def)

lemma shows_state:
  assumes "shows_fcram q st (unat target) os vm" "length os = unat sz"
  shows "\<not> range_has_free target sz (vma_map vm)" "p AND q = p \<Longrightarrow> range_expected target sz st p (vma_map vm)"
proof -
  have at: "attrs vm a = Some (backed q st (RegionMem FCRAM) (os ! (a - unat target)) a)"
    if "unat target \<le> a" "a < unat target + unat sz" for a
    using assms that by (auto simp: shows_fcram_def dest: spec [of _ "a - unat target"])
  show "\<not> range_has_free target sz (vma_map vm)"
    by (auto simp: range_has_free_def free_at_def backed_def dest!: at)
  assume "p AND q = p"
  then show "range_expected target sz st p (vma_map vm)"
    unfolding range_expected_def using at by (auto simp: backed_def and.commute)
qed

lemma memory_ok_vm:
  "memory_ok I ok p \<Longrightarrow> space_ok vm \<Longrightarrow> memory_ok I ok (p\<lparr>pm_vm := vm\<rparr>)"
  by (auto simp: memory_ok_def own_region_def split: option.splits)

lemma Map_spec:
  assumes vm: "space_ok (pm_vm p)" and al: "page_aligned target" "page_aligned source" "page_aligned sz"
    and sz: "0 < unat sz" and heap: "\<not> outside_heap source sz" and apart: "\<not> ranges_overlap target source sz"
    and bound: "unat target + unat sz \<le> MAXA" and os: "length os = unat sz" "page_starts os" "set os \<subseteq> {..<unat FCRAM_N3DS_SIZE}"
    and src: "shows_fcram PermReadWrite MSPrivate (unat source) os (pm_vm p)"
    and tgt: "range_free target sz (pm_vm p)"
  obtains vm1 vm' where "Process_Map D target source sz perms False p = Some (None, p\<lparr>pm_vm := vm'\<rparr>)" "space_ok vm1" "space_ok vm'"
    "range_updated (with_state MSAliased PermReadWrite) source sz (vma_map (pm_vm p)) (vma_map vm1)"
    "shows_fcram perms MSAlias (unat target) os vm'" "shows_fcram PermReadWrite MSAliased (unat source) os vm'"
    "spills_perms {unat target..<unat target + unat sz} perms MSAlias vm1 vm'"
proof -
  note b = inside_heap [OF heap] and far = apart_ranges [OF apart]
  have sb: "unat source + unat sz \<le> MAXA" using b(2) by simp
  have vm': "map_ok (vma_map (pm_vm p))" "\<not> is_locked (pm_vm p)" using vm by (simp_all add: space_ok_def)
  have e: "range_expected source sz MSPrivate PermReadWrite (vma_map (pm_vm p))"
    using shows_state(2) [OF src os(1)] by simp
  from ChangeMemoryState_spec [OF vm'(1) al(2,3) sz sb, of D MSPrivate PermReadWrite MSAliased PermReadWrite] obtain vm1 where
    c: "ChangeMemoryState D (pm_vm p) source sz MSPrivate PermReadWrite MSAliased PermReadWrite = Some (None, vm1)"
      "space_ok vm1" "range_updated (with_state MSAliased PermReadWrite) source sz (vma_map (pm_vm p)) (vma_map vm1)"
    using vm'(2) shows_state(1) [OF src os(1)] e by (auto simp: space_ok_def)
  have src1: "shows_fcram PermReadWrite MSAliased (unat source) os vm1" by (rule updated_shows [OF c(3) refl src os(1)])
  obtain bl where bl: "GetBackingBlocksForRange vm1 source sz = Some (Inr bl)" "concat (map ref_bytes bl) = os"
    "\<forall>q \<in> set bl. fcram_block q"
    by (rule GetBackingBlocksForRange_spec [OF c(2) al(2,3) os(1) sz sb os(2) shows_mapped [OF src1]])
  have in_fcram: "\<forall>q \<in> set bl. fcram_block q \<and> set (ref_bytes q) \<subseteq> {..<unat FCRAM_N3DS_SIZE}"
    using bl(3) os(3) unfolding bl(2) [symmetric] by auto
  have "free_at (vma_map vm1) a" if "unat target \<le> a" "a < unat target + unat sz" for a
    using tgt updated_free [OF c(3), of a] far that by (auto simp: free_at_def)
  then obtain vm2 where m: "map_aliases D perms MSAlias target bl vm1 = Some vm2" "space_ok vm2"
      "shows_fcram perms MSAlias (unat target) os vm2"
      "spills_perms {unat target..<unat target + unat sz} perms MSAlias vm1 vm2"
    using map_aliases_spec [OF c(2) in_fcram al(1), of D perms MSAlias] bound unfolding bl(2) os(1) by blast
  have "shows_fcram PermReadWrite MSAliased (unat source) os vm2"
    by (rule spills_shows_other [OF src1 m(4)]) (use far os(1) in auto)
  moreover have "Process_Map D target source sz perms False p = Some (None, p\<lparr>pm_vm := vm2\<rparr>)"
    using heap apart tgt c(1) bl(1) m(1) by (simp add: Process_Map_def area_free_iff [OF vm sz bound] on_vm_def)
  ultimately show thesis using that c(2,3) m(2-4) by blast
qed

lemma Map_refused:
  assumes "space_ok (pm_vm p)" "0 < unat sz" "unat target + unat sz \<le> MAXA" "\<not> range_free target sz (pm_vm p)"
    and "\<not> outside_heap source sz" "\<not> ranges_overlap target source sz"
  shows "Process_Map D target source sz perms False p = Some (Some ResultInvalidAddressState, p)"
  using assms(4-6) by (simp add: Process_Map_def area_free_iff [OF assms(1-3)])

section \<open>Properties\<close>

text \<open>A source that may be aliased: mapped, private and readable and writable from end to end.\<close>

definition aliasable :: "u32 \<Rightarrow> u32 \<Rightarrow> VM \<Rightarrow> bool" where
  "aliasable source sz vm \<longleftrightarrow> \<not> range_has_free source sz (vma_map vm)
     \<and> range_expected source sz MSPrivate PermReadWrite (vma_map vm)"

lemma Map_not_aliasable:
  assumes vm: "space_ok (pm_vm p)" and al: "page_aligned source" "page_aligned sz" and sz: "0 < unat sz"
    and heap: "\<not> outside_heap source sz" and bound: "unat target + unat sz \<le> MAXA" and no: "\<not> aliasable source sz (pm_vm p)"
  shows "Process_Map D target source sz perms False p = Some (Some ResultInvalidAddressState, p)"
proof -
  have sb: "unat source + unat sz \<le> MAXA" using inside_heap(2) [OF heap] by simp
  have vm': "map_ok (vma_map (pm_vm p))" "\<not> is_locked (pm_vm p)" using vm by (simp_all add: space_ok_def)
  have "ChangeMemoryState D (pm_vm p) source sz MSPrivate PermReadWrite MSAliased PermReadWrite
      = Some (Some ResultInvalidAddressState, pm_vm p)"
    using ChangeMemoryState_spec [OF vm'(1) al sz sb, of D MSPrivate PermReadWrite MSAliased PermReadWrite] vm'(2) no
    by (auto simp: aliasable_def)
  then show ?thesis using heap by (simp add: Process_Map_def area_free_iff [OF vm sz bound] on_vm_def)
qed

text \<open>
  C22: Mapping an alias of part of the heap, on behalf of the process itself, for page-aligned, non-empty
  ranges, the target ending within the address space (beyond it the call stops the emulator): the
  call is refused and changes nothing when the source is not inside the heap area, when source and
  target overlap, when some address of the target is mapped, or when the source is not private,
  readable and writable from end to end. Otherwise, for a source that shows FCRAM with just these
  permissions, as what a heap allocation maps does, it succeeds: both ranges show the same bytes of
  FCRAM in the same order, the source readable and writable and marked aliased, the target with the
  permissions asked for and marked an alias, and nothing of the process but its address space changes.
\<close>

theorem Map_shows_same_bytes:
  assumes "memory_ok I ok p" "page_aligned target" "page_aligned source" "page_aligned sz" "0 < unat sz"
    and "unat target + unat sz \<le> MAXA"
    and "length os = unat sz" "page_starts os" "set os \<subseteq> {..<unat FCRAM_N3DS_SIZE}"
    and "aliasable source sz (pm_vm p) \<Longrightarrow> shows_fcram PermReadWrite MSPrivate (unat source) os (pm_vm p)"
  shows "if outside_heap source sz
    then Process_Map D target source sz perms False p = Some (Some ResultInvalidAddress, p)
    else if ranges_overlap target source sz \<or> \<not> range_free target sz (pm_vm p) \<or> \<not> aliasable source sz (pm_vm p)
    then Process_Map D target source sz perms False p = Some (Some ResultInvalidAddressState, p)
    else \<exists>vm. Process_Map D target source sz perms False p = Some (None, p\<lparr>pm_vm := vm\<rparr>)
      \<and> memory_ok I ok (p\<lparr>pm_vm := vm\<rparr>)
      \<and> shows_fcram perms MSAlias (unat target) os vm \<and> shows_fcram PermReadWrite MSAliased (unat source) os vm"
proof -
  have vm: "space_ok (pm_vm p)" using assms(1) by (simp add: memory_ok_def)
  consider (outside) "outside_heap source sz" | (overlap) "\<not> outside_heap source sz" "ranges_overlap target source sz"
    | (taken) "\<not> outside_heap source sz" "\<not> ranges_overlap target source sz" "\<not> range_free target sz (pm_vm p)"
    | (not_private) "\<not> outside_heap source sz" "\<not> aliasable source sz (pm_vm p)"
    | (fine) "\<not> outside_heap source sz" "\<not> ranges_overlap target source sz" "range_free target sz (pm_vm p)"
      "aliasable source sz (pm_vm p)" by blast
  then show ?thesis
  proof cases
    case outside
    then show ?thesis by (simp add: Process_Map_def)
  next
    case overlap
    then show ?thesis by (simp add: Process_Map_def)
  next
    case taken
    from Map_refused [OF vm assms(5,6) taken(3,1,2)] taken show ?thesis by simp
  next
    case not_private
    from Map_not_aliasable [OF vm assms(3-5) not_private(1) assms(6) not_private(2)] not_private show ?thesis by simp
  next
    case fine
    note src = assms(10) [OF fine(4)]
    obtain vm' where "Process_Map D target source sz perms False p = Some (None, p\<lparr>pm_vm := vm'\<rparr>)" "space_ok vm'"
      "shows_fcram perms MSAlias (unat target) os vm'" "shows_fcram PermReadWrite MSAliased (unat source) os vm'"
      by (rule Map_spec [OF vm assms(2-5) fine(1,2) assms(6-9) src fine(3), of D perms])
    with fine memory_ok_vm [OF assms(1)] show ?thesis by simp blast
  qed
qed

text \<open>The address space once the target is free again and the source has its state back.\<close>

lemma Unmap_spec:
  assumes vm: "space_ok (pm_vm p)" and al: "page_aligned target" "page_aligned source" "page_aligned sz"
    and sz: "0 < unat sz" and heap: "\<not> outside_heap source sz" and apart: "\<not> ranges_overlap target source sz"
    and bound: "unat target + unat sz \<le> MAXA" and os: "length os = unat sz"
    and tgt: "shows_fcram q MSAlias (unat target) os (pm_vm p)"
    and src: "shows_fcram PermReadWrite MSAliased (unat source) os (pm_vm p)"
  obtains vm1 :: VM and vm' where "Process_Unmap D target source sz perms False p = Some (None, p\<lparr>pm_vm := vm'\<rparr>)" "space_ok vm'"
    "range_updated (\<lambda>_. free_attributes) target sz (vma_map (pm_vm p)) (vma_map vm1)"
    "range_updated (with_state MSPrivate perms) source sz (vma_map vm1) (vma_map vm')"
proof -
  note b = inside_heap [OF heap] and far = apart_ranges [OF apart]
  have sb: "unat source + unat sz \<le> MAXA" using b(2) by simp
  have vm': "map_ok (vma_map (pm_vm p))" "\<not> is_locked (pm_vm p)" using vm by (simp_all add: space_ok_def)
  from UnmapRange_spec [OF vm' al(1,3) sz bound, of D] obtain vm1 where
    u: "UnmapRange D (pm_vm p) target sz = Some (None, vm1)" "space_ok vm1"
      "range_updated (\<lambda>_. free_attributes) target sz (vma_map (pm_vm p)) (vma_map vm1)"
    using shows_state(1) [OF tgt os] vm'(2) by (auto simp: space_ok_def)
  have src1: "shows_fcram PermReadWrite MSAliased (unat source) os vm1"
    using src u(3) far os by (auto simp: shows_fcram_def range_updated_def)
  have vm1: "map_ok (vma_map vm1)" "\<not> is_locked vm1" using u(2) by (simp_all add: space_ok_def)
  have e: "range_expected source sz MSAliased PermNone (vma_map vm1)"
    using shows_state(2) [OF src1 os, of PermNone] by (simp add: PermNone_def)
  from ChangeMemoryState_spec [OF vm1(1) al(2,3) sz sb, of D MSAliased PermNone MSPrivate perms] obtain vm2 where
    c: "ChangeMemoryState D vm1 source sz MSAliased PermNone MSPrivate perms = Some (None, vm2)"
      "space_ok vm2" "range_updated (with_state MSPrivate perms) source sz (vma_map vm1) (vma_map vm2)"
    using vm1(2) shows_state(1) [OF src1 os] e by (auto simp: space_ok_def)
  have "Process_Unmap D target source sz perms False p = Some (None, p\<lparr>pm_vm := vm2\<rparr>)"
    using heap apart u(1) c(1) by (simp add: Process_Unmap_def on_vm_def)
  then show thesis using that c(2,3) u(3) by blast
qed

lemma free_at_attributes:
  assumes "space_ok vm" "free_at (vma_map vm) a"
  shows "attrs vm a = Some free_attributes"
proof -
  obtain v where "v \<in> set (vma_map vm)" "attrs vm a = Some (vattr v)" "free v"
    using assms(2) attr_at_ex [of "vma_map vm" a] fst_vattr unfolding free_at_def by metis
  with assms(1) show ?thesis using free_attr [of v] by (simp add: space_ok_def map_ok_def free_attributes_def)
qed

text \<open>
  Unmapping an alias that has just been mapped of a private, readable and writable range of FCRAM
  in the heap, and asking for the source to be readable and writable again, succeeds: the target is
  free, the source is private, readable and writable and shows the same bytes. The rest of the
  address space is exactly as before when the alias was readable and writable; when it had other
  permissions, an address that was itself a readable and writable alias may have been left with the
  permissions of this one, a defect of the mapping that unmapping does not repair, and every other
  address is as before.
\<close>

theorem Unmap_undoes_Map:
  assumes "memory_ok I ok p" "page_aligned target" "page_aligned source" "page_aligned sz" "0 < unat sz"
    and "\<not> outside_heap source sz" "\<not> ranges_overlap target source sz" "unat target + unat sz \<le> MAXA"
    and "length os = unat sz" "page_starts os" "set os \<subseteq> {..<unat FCRAM_N3DS_SIZE}"
    and src: "shows_fcram PermReadWrite MSPrivate (unat source) os (pm_vm p)"
    and run: "Process_Map D target source sz perms False p = Some (None, p1)"
  shows "\<exists>vm. Process_Unmap D' target source sz PermReadWrite False p1 = Some (None, p\<lparr>pm_vm := vm\<rparr>)
    \<and> memory_ok I ok (p\<lparr>pm_vm := vm\<rparr>) \<and> range_free target sz vm
    \<and> shows_fcram PermReadWrite MSPrivate (unat source) os vm
    \<and> (\<forall>a. attrs vm a = attrs (pm_vm p) a \<or> perms \<noteq> PermReadWrite
         \<and> (\<exists>o'. attrs (pm_vm p) a = Some (BackingMemoryVMA, PermReadWrite, MSAlias, o')
              \<and> attrs vm a = Some (BackingMemoryVMA, perms, MSAlias, o')))"
proof -
  have vm: "space_ok (pm_vm p)" using assms(1) by (simp add: memory_ok_def)
  note far = apart_ranges [OF assms(7)]
  have free: "range_free target sz (pm_vm p)"
    using Map_refused [OF vm assms(5,8) _ assms(6,7)] run by fastforce
  obtain vm1 vm2 where m: "Process_Map D target source sz perms False p = Some (None, p\<lparr>pm_vm := vm2\<rparr>)" "space_ok vm2"
    "range_updated (with_state MSAliased PermReadWrite) source sz (vma_map (pm_vm p)) (vma_map vm1)"
    "shows_fcram perms MSAlias (unat target) os vm2" "shows_fcram PermReadWrite MSAliased (unat source) os vm2"
    "spills_perms {unat target..<unat target + unat sz} perms MSAlias vm1 vm2"
    using Map_spec [OF vm assms(2-12) free, of D perms] by metis
  have p1: "p1 = p\<lparr>pm_vm := vm2\<rparr>" using run m(1) by simp
  obtain vm3 :: VM and vm4 where u: "Process_Unmap D' target source sz PermReadWrite False p1 = Some (None, p1\<lparr>pm_vm := vm4\<rparr>)" "space_ok vm4"
    "range_updated (\<lambda>_. free_attributes) target sz (vma_map vm2) (vma_map vm3)"
    "range_updated (with_state MSPrivate PermReadWrite) source sz (vma_map vm3) (vma_map vm4)"
    by (rule Unmap_spec [of p1 target source sz os perms D' PermReadWrite])
      (use m(2,4,5) assms(2-9) in \<open>simp_all add: p1\<close>)
  have in_target: "attrs vm4 a = Some free_attributes" if "unat target \<le> a" "a < unat target + unat sz" for a
    using u(3,4) free_at_attributes [OF vm, of a] free that far m(6) attr_at_inside [of 0 "vma_map vm2" MAXA a] m(2) assms(8)
    by (auto simp: range_updated_def space_ok_def map_ok_def)
  have src3: "shows_fcram PermReadWrite MSAliased (unat source) os vm3"
    using m(5) u(3) far assms(9) by (auto simp: shows_fcram_def range_updated_def)
  have src4: "shows_fcram PermReadWrite MSPrivate (unat source) os vm4" by (rule updated_shows [OF u(4) refl src3 assms(9)])
  have "spills_perms {} perms MSAlias (pm_vm p) vm4"
    unfolding spills_perms_def
  proof (intro allI impI)
    fix a
    consider (target) "unat target \<le> a \<and> a < unat target + unat sz" | (source) "unat source \<le> a \<and> a < unat source + unat sz"
      | (other) "\<not> (unat target \<le> a \<and> a < unat target + unat sz)" "\<not> (unat source \<le> a \<and> a < unat source + unat sz)" by blast
    then show "spill perms MSAlias (attrs (pm_vm p) a) (attrs vm4 a)"
    proof cases
      case target
      then show ?thesis using in_target free_at_attributes [OF vm, of a] free by simp
    next
      case source
      then obtain k where "a = unat source + k" "k < unat sz" by (metis le_Suc_ex nat_add_left_cancel_less)
      then show ?thesis using src src4 assms(9) by (simp add: shows_fcram_def)
    next
      case other
      then have "attrs vm1 a = attrs (pm_vm p) a" "attrs vm4 a = attrs vm2 a"
        using m(3) u(3,4) by (auto simp: range_updated_def)
      with other m(6) show ?thesis by (auto simp: spills_perms_def)
    qed
  qed
  note space = spills_perms_exactly [OF this]
  moreover have "range_free target sz vm4" using in_target by (auto simp: free_at_def free_attributes_def)
  ultimately show ?thesis using u(1) src4 memory_ok_vm [OF assms(1) u(2)] unfolding p1 by auto
qed

text \<open>
  A process can keep memory that the system believes to be free: it allocates part of its heap, maps
  an alias of it inside the heap and frees the alias. Freeing does not look at the state of the memory,
  so every byte goes back to the region, while the original range still shows all of them, readable
  and writable.
\<close>

theorem HeapFree_of_alias_frees_mapped_memory:
  assumes "interval_set I ok" "memory_ok I ok p" "page_aligned target" "page_aligned source" "page_aligned sz" "0 < unat sz"
    and "\<not> outside_heap target sz" "\<not> ranges_overlap target source sz"
    and alloc: "Process_HeapAllocate I D source sz PermReadWrite MSPrivate False p = Some (Inr addr, p1)"
    and shown: "Process_Map D target source sz perms False p1 = Some (None, p2)"
  shows "\<exists>p3 r os. Process_HeapFree I D target sz p2 = Some (None, p3) \<and> own_region p3 = Some r
    \<and> length os = unat sz \<and> set os \<subseteq> free_bytes I r
    \<and> shows_fcram PermReadWrite MSAliased (unat source) os (pm_vm p3)"
proof -
  obtain r0 where r0: "own_region p = Some r0" "region_ok I ok r0" using assms(2) by (auto simp: memory_ok_def)
  have inside: "\<not> outside_heap source sz" using alloc by (auto simp: Process_HeapAllocate_def)
  then have "\<not> outside_heap source sz \<or> False \<and> unat source + unat sz \<le> MAXA" by simp
  note ha = interval_set.HeapAllocate_spec [OF assms(1,2) r0(1) assms(4-6) this, of D PermReadWrite MSPrivate]
  have "\<not> \<not> range_free source sz (pm_vm p)" "\<not> card (free_bytes I r0) < unat sz"
    using ha alloc by (auto split: if_splits)
  from ha [unfolded if_not_P [OF this(1)] if_not_P [OF this(2)]] alloc obtain r1 bs where
    a: "memory_ok I ok p1" "own_region p1 = Some r1" "mr_base r1 = mr_base r0" "mr_size r1 = mr_size r0" "separated 0 bs"
      "aligned_blocks bs" "length (offsets bs) = unat sz" "covered bs \<subseteq> free_bytes I r0"
      "free_bytes I r1 = free_bytes I r0 - covered bs"
      "shows_fcram PermReadWrite MSPrivate (unat source) (offsets bs) (pm_vm p1)"
    by auto
  have ext: "set (offsets bs) \<subseteq> extent r1 - free_bytes I r1"
    using a(3,4,8,9) r0(2) by (auto simp: region_ok_def extent_def)
  have fcram: "set (offsets bs) \<subseteq> {..<unat FCRAM_N3DS_SIZE}"
    using a(8) r0(2) by (auto simp: region_ok_def extent_def)
  have bound: "unat target + unat sz \<le> MAXA" using inside_heap(2) [OF assms(7)] by simp
  have vm: "space_ok (pm_vm p1)" using a(1) by (simp add: memory_ok_def)
  have free: "range_free target sz (pm_vm p1)"
    using Map_refused [OF vm assms(6) bound _ inside assms(8)] shown by fastforce
  obtain vm2 where m: "p2 = p1\<lparr>pm_vm := vm2\<rparr>" "space_ok vm2"
    "shows_fcram perms MSAlias (unat target) (offsets bs) vm2"
    "shows_fcram PermReadWrite MSAliased (unat source) (offsets bs) vm2"
    by (rule Map_spec [OF vm assms(3-6) inside assms(8) bound a(7) page_starts_offsets [OF a(6)] fcram a(10) free, of D perms])
      (use shown in auto)
  have p2: "memory_ok I ok p2" "own_region p2 = Some r1" using memory_ok_vm [OF a(1) m(2)] a(2) by (simp_all add: m(1))
  have mapped: "mapped_fcram (unat target) (offsets bs) (pm_vm p2)" using shows_mapped [OF m(3)] by (simp add: m(1))
  from interval_set.HeapFree_spec [OF assms(1) p2 assms(3,5,6,7) a(7) page_starts_offsets [OF a(6)] mapped
      distinct_offsets [OF a(5)] ext, of D]
  obtain p3 r3 where f: "Process_HeapFree I D target sz p2 = Some (None, p3)" "own_region p3 = Some r3"
    "free_bytes I r3 = free_bytes I r1 \<union> set (offsets bs)"
    "\<forall>b. attrs (pm_vm p3) b = (if unat target \<le> b \<and> b < unat target + unat sz then Some free_attributes else attrs (pm_vm p2) b)"
    by blast
  have "shows_fcram PermReadWrite MSAliased (unat source) (offsets bs) (pm_vm p3)"
    using m(4) f(4) apart_ranges [OF assms(8)] a(7) by (auto simp: shows_fcram_def m(1))
  with f(1-3) a(7) show ?thesis by (intro exI [of _ p3] exI [of _ r3] exI [of _ "offsets bs"]) auto
qed

section \<open>Witnesses\<close>

abbreviation sample_target :: u32 where "sample_target \<equiv> 0x08004000"
abbreviation sample_source :: u32 where "sample_source \<equiv> 0x08000000"

lemma sample_ranges:
  "\<not> outside_heap sample_source 0x2000" "\<not> outside_heap sample_target 0x2000"
  "\<not> ranges_overlap sample_target sample_source 0x2000"
  "page_aligned sample_target" "page_aligned sample_source" "page_aligned 0x2000"
  by (simp_all add: outside_heap_def HEAP_VADDR_END_def HEAP_VADDR_def HEAP_SIZE_def ranges_overlap_def page_aligned_def)

lemma sample_heap_mapped:
  obtains p1 os where "Process_HeapAllocate list_set_ops D sample_source 0x2000 PermReadWrite MSPrivate False sample_process
      = Some (Inr sample_source, p1)" "memory_ok list_set_ops (separated 0) p1"
    "length os = unat (0x2000 :: u32)" "page_starts os" "set os \<subseteq> {..<unat FCRAM_N3DS_SIZE}"
    "shows_fcram PermReadWrite MSPrivate (unat sample_source) os (pm_vm p1)" "range_free sample_target 0x2000 (pm_vm p1)"
proof -
  have c: "\<not> outside_heap sample_source 0x2000 \<or> False \<and> unat sample_source + unat (0x2000 :: u32) \<le> MAXA"
    using sample_ranges(1) by simp
  have f: "\<not> \<not> range_free sample_source 0x2000 (pm_vm sample_process)" using sample_space_free [of sample_source "0x2000"] by simp
  have n: "\<not> card (free_bytes list_set_ops sample_own) < unat (0x2000 :: u32)"
    by (simp add: sample_region_info_def card_two_intervals)
  from list_set.HeapAllocate_spec [OF sample_memory_ok sample_own_region sample_ranges(5,6) _ c,
      of D PermReadWrite MSPrivate, unfolded if_not_P [OF f] if_not_P [OF n]]
  obtain p1 bs where a: "Process_HeapAllocate list_set_ops D sample_source 0x2000 PermReadWrite MSPrivate False sample_process
      = Some (Inr sample_source, p1)" "memory_ok list_set_ops (separated 0) p1" "aligned_blocks bs"
    "length (offsets bs) = unat (0x2000 :: u32)" "covered bs \<subseteq> free_bytes list_set_ops sample_own"
    "shows_fcram PermReadWrite MSPrivate (unat sample_source) (offsets bs) (pm_vm p1)"
    "spills_perms {unat sample_source..<unat sample_source + unat (0x2000 :: u32)} PermReadWrite MSPrivate (pm_vm sample_process) (pm_vm p1)"
    by auto
  have "range_free sample_target 0x2000 (pm_vm p1)"
  proof (intro allI impI)
    fix k assume k: "unat sample_target \<le> k \<and> k < unat sample_target + unat (0x2000 :: u32)"
    then have "k \<notin> {unat sample_source..<unat sample_source + unat (0x2000 :: u32)}" by simp
    from spills_perms_free [OF a(7) this] show "free_at (vma_map (pm_vm p1)) k"
      using sample_space_free [of sample_target "0x2000"] k by simp
  qed
  moreover have "set (offsets bs) \<subseteq> {..<unat FCRAM_N3DS_SIZE}"
    using a(5) by (auto simp: sample_region_info_def)
  ultimately show thesis using that a(1,2,4,6) page_starts_offsets [OF a(3)] by blast
qed

lemma sample_mapped_twice:
  obtains p1 p2 os where "Process_HeapAllocate list_set_ops D sample_source 0x2000 PermReadWrite MSPrivate False sample_process
      = Some (Inr sample_source, p1)" "memory_ok list_set_ops (separated 0) p1"
    "length os = unat (0x2000 :: u32)" "page_starts os" "set os \<subseteq> {..<unat FCRAM_N3DS_SIZE}"
    "shows_fcram PermReadWrite MSPrivate (unat sample_source) os (pm_vm p1)"
    "Process_Map D sample_target sample_source 0x2000 1 False p1 = Some (None, p2)"
proof (rule sample_heap_mapped [of D])
  fix p1 os
  assume a: "Process_HeapAllocate list_set_ops D sample_source 0x2000 PermReadWrite MSPrivate False sample_process
      = Some (Inr sample_source, p1)" "memory_ok list_set_ops (separated 0) p1"
    "length os = unat (0x2000 :: u32)" "page_starts os" "set os \<subseteq> {..<unat FCRAM_N3DS_SIZE}"
    "shows_fcram PermReadWrite MSPrivate (unat sample_source) os (pm_vm p1)" "range_free sample_target 0x2000 (pm_vm p1)"
  have "space_ok (pm_vm p1)" using a(2) by (simp add: memory_ok_def)
  from Map_spec [OF this sample_ranges(4-6) _ sample_ranges(1,3) _ a(3-7), of D 1]
  obtain p2 where "Process_Map D sample_target sample_source 0x2000 1 False p1 = Some (None, p2)" by auto
  with that a(1-6) show thesis by blast
qed

lemma Map_shows_same_bytes_witness:
  "\<forall>D. \<exists>p1 p2. Process_HeapAllocate list_set_ops D sample_source 0x2000 PermReadWrite MSPrivate False sample_process
      = Some (Inr sample_source, p1)
    \<and> Process_Map D sample_target sample_source 0x2000 1 False p1 = Some (None, p2)"
proof
  fix D
  obtain p1 os where a: "Process_HeapAllocate list_set_ops D sample_source 0x2000 PermReadWrite MSPrivate False sample_process
      = Some (Inr sample_source, p1)" "memory_ok list_set_ops (separated 0) p1"
    "length os = unat (0x2000 :: u32)" "page_starts os" "set os \<subseteq> {..<unat FCRAM_N3DS_SIZE}"
    "shows_fcram PermReadWrite MSPrivate (unat sample_source) os (pm_vm p1)"
    and f: "range_free sample_target 0x2000 (pm_vm p1)"
    by (rule sample_heap_mapped)
  then have c: "\<not> \<not> range_free sample_target 0x2000 (pm_vm p1)" by simp
  have source: "aliasable sample_source 0x2000 (pm_vm p1)"
    using shows_state(1) [OF a(6,3)] shows_state(2) [OF a(6,3), of PermReadWrite] by (simp add: aliasable_def)
  have "\<not> (ranges_overlap sample_target sample_source 0x2000 \<or> \<not> range_free sample_target 0x2000 (pm_vm p1)
      \<or> \<not> aliasable sample_source 0x2000 (pm_vm p1))" using c source sample_ranges(3) by blast
  from Map_shows_same_bytes [OF a(2) sample_ranges(4-6) _ _ a(3-6), of D 1,
      unfolded if_not_P [OF sample_ranges(1)] if_not_P [OF this]] a(1)
  show "\<exists>p1 p2. Process_HeapAllocate list_set_ops D sample_source 0x2000 PermReadWrite MSPrivate False sample_process
      = Some (Inr sample_source, p1)
    \<and> Process_Map D sample_target sample_source 0x2000 1 False p1 = Some (None, p2)" by auto
qed

lemma Unmap_undoes_Map_witness:
  "\<forall>D. \<exists>p1 p2 p3. Process_HeapAllocate list_set_ops D sample_source 0x2000 PermReadWrite MSPrivate False sample_process
      = Some (Inr sample_source, p1)
    \<and> Process_Map D sample_target sample_source 0x2000 1 False p1 = Some (None, p2)
    \<and> Process_Unmap D sample_target sample_source 0x2000 PermReadWrite False p2 = Some (None, p3)"
proof
  fix D
  obtain p1 p2 os where a: "Process_HeapAllocate list_set_ops D sample_source 0x2000 PermReadWrite MSPrivate False sample_process
      = Some (Inr sample_source, p1)" "memory_ok list_set_ops (separated 0) p1"
    "length os = unat (0x2000 :: u32)" "page_starts os" "set os \<subseteq> {..<unat FCRAM_N3DS_SIZE}"
    "shows_fcram PermReadWrite MSPrivate (unat sample_source) os (pm_vm p1)"
    "Process_Map D sample_target sample_source 0x2000 1 False p1 = Some (None, p2)"
    by (rule sample_mapped_twice)
  from Unmap_undoes_Map [OF a(2) sample_ranges(4-6) _ sample_ranges(1,3) _ a(3-7), of D] a(1,7)
  show "\<exists>p1 p2 p3. Process_HeapAllocate list_set_ops D sample_source 0x2000 PermReadWrite MSPrivate False sample_process
      = Some (Inr sample_source, p1)
    \<and> Process_Map D sample_target sample_source 0x2000 1 False p1 = Some (None, p2)
    \<and> Process_Unmap D sample_target sample_source 0x2000 PermReadWrite False p2 = Some (None, p3)" by auto
qed

lemma HeapFree_of_alias_frees_mapped_memory_witness:
  "\<forall>D. \<exists>p1 p2 p3. Process_HeapAllocate list_set_ops D sample_source 0x2000 PermReadWrite MSPrivate False sample_process
      = Some (Inr sample_source, p1)
    \<and> Process_Map D sample_target sample_source 0x2000 1 False p1 = Some (None, p2)
    \<and> Process_HeapFree list_set_ops D sample_target 0x2000 p2 = Some (None, p3)"
proof
  fix D
  obtain p1 p2 where a: "Process_HeapAllocate list_set_ops D sample_source 0x2000 PermReadWrite MSPrivate False sample_process
      = Some (Inr sample_source, p1)"
    "Process_Map D sample_target sample_source 0x2000 1 False p1 = Some (None, p2)"
    by (rule sample_mapped_twice)
  from HeapFree_of_alias_frees_mapped_memory [OF list_set.interval_set_axioms sample_memory_ok sample_ranges(4-6) _
      sample_ranges(2,3) a] a
  show "\<exists>p1 p2 p3. Process_HeapAllocate list_set_ops D sample_source 0x2000 PermReadWrite MSPrivate False sample_process
      = Some (Inr sample_source, p1)
    \<and> Process_Map D sample_target sample_source 0x2000 1 False p1 = Some (None, p2)
    \<and> Process_HeapFree list_set_ops D sample_target 0x2000 p2 = Some (None, p3)" by auto
qed

end
