(* ===== verification/IpcBuffers.thy ===== *)
theory IpcBuffers imports IpcFacts AliasProps begin

text \<open>Buffers that a call maps for its receiver and takes back with the reply.\<close>

section \<open>Pages of a buffer\<close>

lemma unat_mod_page: "unat (v mod 0x1000 :: u32) = unat v mod 4096"
  by (simp add: unat_mod)

lemma AlignDown_page: "unat (AlignDown v 0x1000) = unat v - unat v mod 4096"
proof -
  have "v mod 0x1000 \<le> v" by (simp add: word_le_nat_alt unat_mod_page)
  then show ?thesis by (simp add: AlignDown_def unat_minus_no_wrap unat_mod_page)
qed

lemma page_offset: "unat (v - AlignDown v 0x1000) = unat v mod 4096"
proof -
  have "v - AlignDown v 0x1000 = v mod 0x1000" by (simp add: AlignDown_def)
  then show ?thesis by (simp add: unat_mod_page)
qed

text \<open>The number of pages a buffer of \<open>n\<close> bytes at offset \<open>o'\<close> of a page touches.\<close>

definition pages_for :: "nat \<Rightarrow> nat \<Rightarrow> nat" where
  "pages_for off n = (off + n + 4095) div 4096"

lemma unat_drop_page: "unat (drop_bit 12 v :: u32) = unat v div 4096"
  by (simp add: drop_bit_eq_div unat_div)

lemma next_page:
  assumes "(n :: nat) mod 4096 \<noteq> 0"
  shows "(n - n mod 4096 + 4096) div 4096 = (n + 4095) div 4096"
proof -
  define q r where "q = n div 4096" and "r = n mod 4096"
  have n: "n = 4096 * q + r" "r < 4096" "0 < r" using assms by (simp_all add: q_def r_def)
  have "(4096 * q + r + 4095) div 4096 = Suc q" by (rule div_nat_eqI) (use n in auto)
  moreover have "n - n mod 4096 + 4096 = 4096 * Suc q" using n(1) unfolding r_def [symmetric] by simp
  ultimately show ?thesis using n(1) by (simp only: nonzero_mult_div_cancel_left)
qed

lemma AlignUp_pages:
  assumes "unat v < 0x20000000"
  shows "unat (drop_bit 12 (AlignUp v 0x1000)) = pages_for 0 (unat v)"
proof -
  have low: "unat (v - v mod 0x1000) = unat v - unat v mod 4096"
    using AlignDown_page [of v] by (simp add: AlignDown_def)
  show ?thesis
  proof (cases "unat v mod 4096 = 0")
    case True
    then have "v mod 0x1000 = 0" using unat_mod_page [of v] unat_eq_0 by metis
    with True show ?thesis by (auto simp: AlignUp_def Let_def pages_for_def unat_drop_page)
  next
    case False
    then have "v mod 0x1000 \<noteq> 0" using unat_mod_page [of v] by (metis unat_0)
    moreover have "unat (v - v mod 0x1000 + 0x1000) = unat v - unat v mod 4096 + 4096"
      using assms by (subst unat_plus_no_wrap_u32) (simp_all add: low)
    moreover note next_page [OF False]
    ultimately show ?thesis by (simp add: AlignUp_def Let_def pages_for_def unat_drop_page)
  qed
qed

lemma pages_for_bounds:
  assumes "0 < n"
  shows "off + n \<le> 4096 * pages_for off n" "0 < pages_for off n"
  using assms by (auto simp: pages_for_def div_greater_zero_iff)

section \<open>The receiver's address space\<close>

text \<open>
  A buffer of \<open>n\<close> bytes shown from \<open>low\<close> on, its first and its last page as reserved guard pages,
  where nothing was mapped before.
\<close>

definition shows_buffer :: "BackingMem \<Rightarrow> nat \<Rightarrow> nat \<Rightarrow> VM \<Rightarrow> VM \<Rightarrow> bool" where
  "shows_buffer b low n vm vm' \<longleftrightarrow> (\<forall>a. attrs vm' a =
     (if low \<le> a \<and> a < low + n
      then Some (if a < low + 4096 \<or> low + n \<le> a + 4096 then backed PermNone MSReserved b (a - low) a
                 else backed PermReadWrite MSShared b (a - low) a)
      else attrs vm a))"

lemma space_of_frame [simp]:
  "vma_map (space_of k p) = vma_map (ip_space (ik_processes k p))"
  "is_locked (space_of k p) = is_locked (ip_space (ik_processes k p))"
  "vm_table (space_of k p) = vm_table (ip_space (ik_processes k p))"
  by (simp_all add: space_of_def)

lemma on_space_Some:
  assumes "f (space_of k p) = Some (x, vm)"
  shows "on_space p f k = Some (x, (upd_ipc_process p (\<lambda>q. q\<lparr>ip_space := vm\<rparr>) k)\<lparr>ik_memory := vm_memory vm\<rparr>)"
  using assms by (simp add: on_space_def)

text \<open>Mapping a buffer at the place the search finds.\<close>

lemma MapBackingMemoryToBase_maps:
  assumes vm: "space_ok vm" and place: "first_fit (vma_map vm) base n = Some v" "target = max base (vma_base v)"
    and al: "page_aligned base" "page_aligned n" "0 < unat n" and fits: "unat target + unat n \<le> unat base + unat room"
      "unat base + unat room \<le> MAXA"
    and run: "range_free target n vm" and b: "backing_size b = unat n"
  obtains vm' where "MapBackingMemoryToBase D vm base room (Some (b, 0)) n state = Some (Inr target, vm')" "space_ok vm'"
    "range_updated (\<lambda>_. mapped_attributes (unat target) (Some (b, 0)) state) target n (vma_map vm) (vma_map vm')"
    "page_aligned target"
proof -
  have ok: "map_ok (vma_map vm)" "\<not> is_locked vm" using vm by (simp_all add: space_ok_def)
  have "v \<in> set (vma_map vm)" using place(1) by (auto simp: first_fit_def find_Some_iff)
  then have "page_aligned (vma_base v)" using ok(1) by (simp add: map_ok_def area_ok_def)
  then have t: "page_aligned target" using place(2) al(1) by (simp add: max_def)
  have e: "unat (target + n) = unat target + unat n" "unat (base + room) = unat base + unat room"
    using fits by (simp_all add: unat_plus_no_wrap_u32)
  have bound: "unat target + unat n \<le> MAXA" using fits by simp
  have ref: "Some (b, 0 :: nat) \<noteq> None" "unat n \<le> ref_size (Some (b, 0))" using b by simp_all
  obtain vm' L w R where m: "MapBackingMemory D vm target (Some (b, 0)) n state = Some (Inr (length L), vm')"
    "vma_map vm' = L @ w # R" "map_ok (vma_map vm')" "is_locked vm' = is_locked vm"
    "range_updated (\<lambda>_. mapped_attributes (unat target) (Some (b, 0)) state) target n (vma_map vm) (vma_map vm')"
    by (rule MapBackingMemory_area [OF ok t al(2,3) bound ref run])
  have "MapBackingMemoryToBase D vm base room (Some (b, 0)) n state = Some (Inr target, vm')"
    using ok(2) place m(1) fits(1) e by (simp add: MapBackingMemoryToBase_def word_less_nat_alt Let_def)
  with m(3-5) ok(2) t that show thesis by (simp add: space_ok_def)
qed

text \<open>Guarding a page of a shared range.\<close>

lemma set_guard_spec:
  assumes vm: "space_ok (space_of k p)" and al: "page_aligned a" "unat a + 4096 \<le> MAXA"
    and here: "\<forall>x. unat a \<le> x \<and> x < unat a + 4096
      \<longrightarrow> (\<exists>o'. attrs (space_of k p) x = Some (BackingMemoryVMA, PermReadWrite, MSShared, o'))"
  obtains vm' where "set_guard D p a k = Some ((upd_ipc_process p (\<lambda>q. q\<lparr>ip_space := vm'\<rparr>) k)\<lparr>ik_memory := vm_memory vm'\<rparr>)"
    "ChangeMemoryState D (space_of k p) a 0x1000 MSShared PermReadWrite MSReserved PermNone = Some (None, vm')"
    "space_ok vm'" "range_updated (with_state MSReserved PermNone) a 0x1000 (vma_map (space_of k p)) (vma_map vm')"
proof -
  have ok: "map_ok (vma_map (space_of k p))" "\<not> is_locked (space_of k p)" using vm unfolding space_ok_def by blast+
  have sz: "page_aligned 0x1000" "0 < unat (0x1000 :: u32)" "unat a + unat (0x1000 :: u32) \<le> MAXA" using al(2) by (simp_all add: page_aligned_dvd)
  have "\<not> range_has_free a 0x1000 (vma_map (space_of k p))"
    using here by (fastforce simp: range_has_free_def free_at_def)
  moreover have "range_expected a 0x1000 MSShared PermReadWrite (vma_map (space_of k p))"
    using here by (fastforce simp: range_expected_def)
  ultimately obtain vm' where "ChangeMemoryState D (space_of k p) a 0x1000 MSShared PermReadWrite MSReserved PermNone = Some (None, vm')"
    "map_ok (vma_map vm')" "is_locked vm' = is_locked (space_of k p)"
    "range_updated (with_state MSReserved PermNone) a 0x1000 (vma_map (space_of k p)) (vma_map vm')"
    using ChangeMemoryState_spec [OF ok(1) al(1) sz, of D MSShared PermReadWrite MSReserved PermNone] ok(2) by auto
  with ok(2) that show thesis by (simp add: set_guard_def on_space_Some space_ok_def)
qed

section \<open>What buffers hold\<close>

text \<open>
  The renderer keeps surfaces of physical memory: what it writes back does not go to buffers of host
  memory that are only mapped at virtual addresses.
\<close>

definition same_buffers :: "MemorySystem \<Rightarrow> MemorySystem \<Rightarrow> bool" where
  "same_buffers m m' \<longleftrightarrow> (\<forall>i n. bytes m' (BufferMem i n) = bytes m (BufferMem i n))"

definition keeps_buffers :: "Devices \<Rightarrow> bool" where
  "keeps_buffers D \<longleftrightarrow> (\<forall>mode a n m. same_buffers m (rasterizer D mode a n m))"

lemma same_buffers_refl [simp]: "same_buffers m m"
  and same_buffers_trans: "same_buffers m m' \<Longrightarrow> same_buffers m' m'' \<Longrightarrow> same_buffers m m''"
  by (simp_all add: same_buffers_def)

lemma CheckRegion_buffers: "keeps_buffers D \<Longrightarrow> same_buffers m0 m \<Longrightarrow> same_buffers m0 (CheckRegion D s e mode rs re p m)"
  using same_buffers_trans by (auto simp: CheckRegion_def Let_def keeps_buffers_def)

lemma RasterizerFlush_buffers: "keeps_buffers D \<Longrightarrow> same_buffers m (RasterizerFlushVirtualRegion D m s n mode)"
  by (simp add: RasterizerFlushVirtualRegion_def Let_def CheckRegion_buffers split: option.split)

lemma MapPages_buffers: "keeps_buffers D \<Longrightarrow> MapPages D m table base n ref ty = Some m' \<Longrightarrow> same_buffers m m'"
  using RasterizerFlush_buffers [of D m]
  by (auto simp: MapPages_def Let_def bind_eq_Some_conv same_buffers_def split: if_splits)

lemma update_vma_buffers:
  assumes "keeps_buffers D" "update_vma D f vm i = Some (vm', j)"
  shows "same_buffers (vm_memory vm) (vm_memory vm')"
  using assms(2) MapPages_buffers [OF assms(1)]
  by (auto simp: update_vma_def UpdatePageTableForVMA_def UnmapRegion_def MapMemoryRegion_def Let_def bind_eq_Some_conv
      split: VMAType.splits if_splits)

lemma range_loop_buffers:
  "keeps_buffers D \<Longrightarrow> range_loop D f e vm i = Some vm' \<Longrightarrow> same_buffers (vm_memory vm) (vm_memory vm')"
proof (induction D f e vm i rule: range_loop.induct)
  case (1 D f e vm i)
  show ?case
  proof (cases "i < length (vma_map vm) \<and> vma_base (vma_map vm ! i) < e")
    case True
    with 1(3) obtain vm1 j where u: "update_vma D f vm i = Some (vm1, j)" "range_loop D f e vm1 (Suc j) = Some vm'"
      by (auto simp: range_loop.simps [of D f e vm i] split: option.splits)
    with 1(1) [OF True u(1) refl 1(2)] update_vma_buffers [OF 1(2)] show ?thesis using same_buffers_trans by blast
  next
    case False
    with 1(3) show ?thesis by (simp add: range_loop.simps [of D f e vm i])
  qed
qed

lemma ChangeMemoryState_buffers:
  assumes "keeps_buffers D" "ChangeMemoryState D vm a n st p st' p' = Some (r, vm')"
  shows "same_buffers (vm_memory vm) (vm_memory vm')"
proof (cases "CarveVMARange (vma_map vm) a n")
  case None
  with assms(2) show ?thesis by (auto simp: ChangeMemoryState_def Let_def split: if_split_asm)
next
  case (Some c)
  obtain q vs where c: "c = (q, vs)" by (cases c)
  with Some assms(2) show ?thesis
    by (cases q) (auto simp: ChangeMemoryState_def Let_def bind_eq_Some_conv split: if_split_asm
        dest!: range_loop_buffers [OF assms(1)])
qed

lemma MapBackingMemoryToBase_buffers:
  assumes "keeps_buffers D" "MapBackingMemoryToBase D vm base room ref n st = Some (r, vm')"
  shows "same_buffers (vm_memory vm) (vm_memory vm')"
proof -
  have "same_buffers (vm_memory vm) (vm_memory vm1)" if m: "MapBackingMemory D vm t ref n st = Some (q, vm1)" for t q vm1
  proof -
    obtain x vs where c: "CarveVMA (vma_map vm) t n = Some (x, vs)"
      using m by (auto simp: MapBackingMemory_def bind_eq_Some_conv split: if_split_asm)
    with m show ?thesis
      by (cases x) (auto simp: MapBackingMemory_def bind_eq_Some_conv split: if_split_asm
          dest!: update_vma_buffers [OF assms(1)])
  qed
  with assms(2) show ?thesis
    by (auto simp: MapBackingMemoryToBase_def Let_def bind_eq_Some_conv split: if_splits option.splits)
qed

section \<open>A request maps its buffer\<close>

lemma space_of_upd [simp]:
  "space_of ((upd_ipc_process p (\<lambda>q. q\<lparr>ip_space := vm\<rparr>) k)\<lparr>ik_memory := vm_memory vm\<rparr>) p = vm"
  by (simp add: space_of_def)

text \<open>Both guards, on a range that has just been mapped.\<close>

lemma set_guards:
  assumes vm: "space_ok (space_of k p)" and al: "page_aligned low" "page_aligned n" "12288 \<le> unat n" "unat low + unat n \<le> MAXA"
    and here: "range_updated (\<lambda>_. mapped_attributes (unat low) (Some (b, 0)) MSShared) low n (vma_map vm0) (vma_map (space_of k p))"
      "range_free low n vm0"
  obtains k1 vm' where "set_guard D p low k = Some k1"
    "set_guard D p (low + n - 0x1000) k1 = Some ((upd_ipc_process p (\<lambda>q. q\<lparr>ip_space := vm'\<rparr>) k)\<lparr>ik_memory := vm_memory vm'\<rparr>)"
    "space_ok vm'" "shows_buffer b (unat low) (unat n) vm0 vm'"
    "keeps_buffers D \<longrightarrow> same_buffers (ik_memory k) (vm_memory vm')"
proof -
  let ?vm = "space_of k p"
  have shown: "attrs ?vm x = Some (backed PermReadWrite MSShared b (x - unat low) x)" if "unat low \<le> x" "x < unat low + unat n" for x
  proof -
    have "attrs vm0 x \<noteq> None" using here(2) that by (auto simp: free_at_def)
    then obtain y where "attrs vm0 x = Some y" by auto
    with here(1) that show ?thesis by (simp add: range_updated_def mapped_attributes_def backed_def origin_def)
  qed
  have elsewhere: "attrs ?vm x = attrs vm0 x" if "\<not> (unat low \<le> x \<and> x < unat low + unat n)" for x
    using here(1) that by (auto simp: range_updated_def)
  have a1: "unat low + 4096 \<le> MAXA" using al by simp
  have h1: "\<forall>x. unat low \<le> x \<and> x < unat low + 4096 \<longrightarrow> (\<exists>o'. attrs ?vm x = Some (BackingMemoryVMA, PermReadWrite, MSShared, o'))"
    using shown al(3) by (auto simp: backed_def)
  obtain vm1 where g1: "set_guard D p low k = Some ((upd_ipc_process p (\<lambda>q. q\<lparr>ip_space := vm1\<rparr>) k)\<lparr>ik_memory := vm_memory vm1\<rparr>)"
    "ChangeMemoryState D ?vm low 0x1000 MSShared PermReadWrite MSReserved PermNone = Some (None, vm1)"
    "space_ok vm1" "range_updated (with_state MSReserved PermNone) low 0x1000 (vma_map ?vm) (vma_map vm1)"
    by (rule set_guard_spec [OF vm al(1) a1 h1])
  let ?k1 = "(upd_ipc_process p (\<lambda>q. q\<lparr>ip_space := vm1\<rparr>) k)\<lparr>ik_memory := vm_memory vm1\<rparr>"
  let ?high = "low + n - 0x1000"
  have "unat (low + n) = unat low + unat n" using al(4) by (simp add: unat_plus_no_wrap_u32)
  moreover from this have "0x1000 \<le> low + n" using al(3) by (simp add: word_le_nat_alt)
  ultimately have high: "unat ?high = unat low + unat n - 4096" by (simp add: unat_minus_no_wrap)
  have a2: "page_aligned ?high" "unat ?high + 4096 \<le> MAXA" using al by (simp_all add: page_aligned_dvd high dvd_diff_nat)
  have vm1: "space_ok (space_of ?k1 p)" using g1(3) by simp
  have h2: "\<forall>x. unat ?high \<le> x \<and> x < unat ?high + 4096
      \<longrightarrow> (\<exists>o'. attrs (space_of ?k1 p) x = Some (BackingMemoryVMA, PermReadWrite, MSShared, o'))"
    using g1(4) shown al(3) by (auto simp: range_updated_def high backed_def)
  obtain vm2 where g2: "set_guard D p ?high ?k1 = Some ((upd_ipc_process p (\<lambda>q. q\<lparr>ip_space := vm2\<rparr>) ?k1)\<lparr>ik_memory := vm_memory vm2\<rparr>)"
    "ChangeMemoryState D (space_of ?k1 p) ?high 0x1000 MSShared PermReadWrite MSReserved PermNone = Some (None, vm2)"
    "space_ok vm2" "range_updated (with_state MSReserved PermNone) ?high 0x1000 (vma_map (space_of ?k1 p)) (vma_map vm2)"
    by (rule set_guard_spec [OF vm1 a2 h2])
  have "(upd_ipc_process p (\<lambda>q. q\<lparr>ip_space := vm2\<rparr>) ?k1)\<lparr>ik_memory := vm_memory vm2\<rparr>
      = (upd_ipc_process p (\<lambda>q. q\<lparr>ip_space := vm2\<rparr>) k)\<lparr>ik_memory := vm_memory vm2\<rparr>" by (simp add: upd_ipc_process_def)
  note g2' = g2(1) [unfolded this]
  have "shows_buffer b (unat low) (unat n) vm0 vm2"
    unfolding shows_buffer_def
  proof
    fix x
    have g: "attrs vm1 x = (if unat low \<le> x \<and> x < unat low + 4096 then map_option (with_state MSReserved PermNone) (attrs ?vm x) else attrs ?vm x)"
      "attrs vm2 x = (if unat low + unat n - 4096 \<le> x \<and> x < unat low + unat n - 4096 + 4096
         then map_option (with_state MSReserved PermNone) (attrs vm1 x) else attrs vm1 x)"
      using g1(4) g2(4) by (simp_all add: range_updated_def high)
    show "attrs vm2 x = (if unat low \<le> x \<and> x < unat low + unat n
      then Some (if x < unat low + 4096 \<or> unat low + unat n \<le> x + 4096 then backed PermNone MSReserved b (x - unat low) x
                 else backed PermReadWrite MSShared b (x - unat low) x)
      else attrs vm0 x)"
      using shown [of x] elsewhere [of x] al(3) unfolding g by (auto simp: with_state_def backed_def)
  qed
  moreover have "same_buffers (ik_memory k) (vm_memory vm2)" if "keeps_buffers D"
    using ChangeMemoryState_buffers [OF that g1(2)] ChangeMemoryState_buffers [OF that g2(2)] same_buffers_trans
    by (auto simp: space_of_def)
  ultimately show thesis using that g1(1) g2' g2(3) by blast
qed

text \<open>Where the buffer of \<open>n\<close> bytes goes in the address space of the receiver: all of it is free there.\<close>

definition buffer_place :: "VM \<Rightarrow> u32 \<Rightarrow> u32 \<Rightarrow> bool" where
  "buffer_place vm n low \<longleftrightarrow> space_ok vm
     \<and> (\<exists>v. first_fit (vma_map vm) IPC_MAPPING_VADDR n = Some v \<and> low = max IPC_MAPPING_VADDR (vma_base v))
     \<and> unat low + unat n \<le> 0x8000000 \<and> range_free low n vm"

text \<open>The buffer of the size asked for, with its guards, at an offset of a page.\<close>

definition buffer_size :: "nat \<Rightarrow> nat \<Rightarrow> nat" where
  "buffer_size off n = 4096 * (pages_for off n + 2)"

lemma guarded_size:
  assumes "unat (num_pages :: u32) = pages_for off n" "n < 0x10000000" "off < 4096"
  shows "unat ((num_pages + 2) * 0x1000) = buffer_size off n"
proof -
  have pages: "pages_for off n \<le> 0x10001" using assms(2,3) by (simp add: pages_for_def)
  have "unat (num_pages + 2) = pages_for off n + 2"
    using pages by (subst unat_plus_no_wrap_u32) (simp_all add: assms(1))
  moreover have "unat ((num_pages + 2) * 0x1000) = unat (num_pages + 2) * unat (0x1000 :: u32) mod 2 ^ 32"
    by (simp only: unat_word_ariths) simp
  ultimately show ?thesis using pages by (simp add: buffer_size_def)
qed

lemma map_buffer_spec:
  assumes read: "read_block D (ic_src c) src (unat sz) (tr_kernel t) = Some (bs, (tr_kernel t)\<lparr>ik_memory := m\<rparr>)"
    and n: "unat num_pages = pages_for (unat off) (unat sz)" "0 < unat sz" "unat sz < 0x10000000" "unat off < 4096"
    and place: "buffer_place (space_of (tr_kernel t) (ic_dst c)) ((num_pages + 2) * 0x1000) low"
    and pos: "tr_pos t < length (tr_cmd_buf t)"
  obtains vm' where
    "map_buffer D c perms sz src off num_pages t = Some (t\<lparr>tr_cmd_buf := (tr_cmd_buf t)[tr_pos t := low + 0x1000 + off],
        tr_pos := Suc (tr_pos t), tr_contexts := tr_contexts t @ [\<lparr>mb_permissions = perms, mb_size = sz,
          mb_source_address = src, mb_target_address = low + 0x1000 + off,
          mb_buffer = BufferMem (ik_next_buffer (tr_kernel t)) (buffer_size (unat off) (unat sz))\<rparr>],
        tr_kernel := (upd_ipc_process (ic_dst c) (\<lambda>q. q\<lparr>ip_space := vm'\<rparr>) (tr_kernel t))
          \<lparr>ik_memory := vm_memory vm', ik_next_buffer := Suc (ik_next_buffer (tr_kernel t))\<rparr>\<rparr>)"
    "space_ok vm'"
    "shows_buffer (BufferMem (ik_next_buffer (tr_kernel t)) (buffer_size (unat off) (unat sz))) (unat low)
        (buffer_size (unat off) (unat sz)) (space_of (tr_kernel t) (ic_dst c)) vm'"
    "keeps_buffers D \<longrightarrow> bytes (vm_memory vm') (BufferMem (ik_next_buffer (tr_kernel t)) (buffer_size (unat off) (unat sz)))
        = (\<lambda>i. if 4096 + unat off \<le> i \<and> i < 4096 + unat off + length bs then bs ! (i - (4096 + unat off)) else 0)"
proof -
  let ?k = "tr_kernel t" and ?d = "ic_dst c" and ?bsz = "(num_pages + 2) * 0x1000" and ?n = "buffer_size (unat off) (unat sz)"
  have size: "unat ?bsz = ?n" by (rule guarded_size [OF n(1,3,4)])
  have big: "12288 \<le> ?n" using pages_for_bounds(2) [OF n(2), of "unat off"] by (simp add: buffer_size_def)
  have al: "page_aligned ?bsz" unfolding page_aligned_dvd size by (simp add: buffer_size_def)
  have base: "page_aligned IPC_MAPPING_VADDR" "unat IPC_MAPPING_VADDR + unat IPC_MAPPING_SIZE = 0x8000000"
    by (simp_all add: page_aligned_def IPC_MAPPING_VADDR_def IPC_MAPPING_SIZE_def)
  have "unat (0x1000 + off) = 4096 + unat off" using n(4) by (subst unat_plus_no_wrap_u32) simp_all
  note off = this
  let ?b = "BufferMem (ik_next_buffer ?k) ?n"
  let ?m = "m\<lparr>bytes := write_bytes ((bytes m)(?b := (\<lambda>_. 0))) ?b (4096 + unat off) bs\<rparr>"
  let ?k2 = "?k\<lparr>ik_memory := ?m, ik_next_buffer := Suc (ik_next_buffer ?k)\<rparr>"
  have new: "new_buffer (unat ?bsz) (unat (0x1000 + off)) bs (?k\<lparr>ik_memory := m\<rparr>) = (?b, ?k2)"
    unfolding size off by (simp add: new_buffer_def Let_def)
  from place obtain v where v: "space_ok (space_of ?k ?d)" "first_fit (vma_map (space_of ?k ?d)) IPC_MAPPING_VADDR ?bsz = Some v"
    "low = max IPC_MAPPING_VADDR (vma_base v)" "unat low + unat ?bsz \<le> 0x8000000" "range_free low ?bsz (space_of ?k ?d)"
    by (auto simp: buffer_place_def)
  have same: "vma_map (space_of ?k2 ?d) = vma_map (space_of ?k ?d)" "is_locked (space_of ?k2 ?d) = is_locked (space_of ?k ?d)" by simp_all
  have ok2: "space_ok (space_of ?k2 ?d)" using v(1) unfolding space_ok_def same .
  have run2: "range_free low ?bsz (space_of ?k2 ?d)" using v(5) unfolding same .
  have fits: "unat low + unat ?bsz \<le> unat IPC_MAPPING_VADDR + unat IPC_MAPPING_SIZE"
    "unat IPC_MAPPING_VADDR + unat IPC_MAPPING_SIZE \<le> MAXA" "0 < unat ?bsz"
    using v(4) base(2) big size by simp_all
  have bsize: "backing_size ?b = unat ?bsz" using size by simp
  obtain vm1 where m1: "MapBackingMemoryToBase D (space_of ?k2 ?d) IPC_MAPPING_VADDR IPC_MAPPING_SIZE (Some (?b, 0)) ?bsz MSShared
      = Some (Inr low, vm1)" "space_ok vm1"
    "range_updated (\<lambda>_. mapped_attributes (unat low) (Some (?b, 0)) MSShared) low ?bsz (vma_map (space_of ?k2 ?d)) (vma_map vm1)"
    "page_aligned low"
    by (rule MapBackingMemoryToBase_maps [OF ok2 v(2) [folded same] v(3) base(1) al fits(3,1,2) run2 bsize])
  let ?k3 = "(upd_ipc_process ?d (\<lambda>q. q\<lparr>ip_space := vm1\<rparr>) ?k2)\<lparr>ik_memory := vm_memory vm1\<rparr>"
  have k3: "space_of ?k3 ?d = vm1" by simp
  have low: "unat low + unat ?bsz \<le> MAXA" "12288 \<le> unat ?bsz" using v(4) big size by simp_all
  obtain k4 vm' where g: "set_guard D ?d low ?k3 = Some k4"
    "set_guard D ?d (low + ?bsz - 0x1000) k4 = Some ((upd_ipc_process ?d (\<lambda>q. q\<lparr>ip_space := vm'\<rparr>) ?k3)\<lparr>ik_memory := vm_memory vm'\<rparr>)"
    "space_ok vm'" "shows_buffer ?b (unat low) (unat ?bsz) (space_of ?k2 ?d) vm'"
    "keeps_buffers D \<longrightarrow> same_buffers (ik_memory ?k3) (vm_memory vm')"
    by (rule set_guards [of ?k3 ?d low ?bsz ?b "space_of ?k2 ?d" D, unfolded k3, OF m1(2,4) al low(2,1) m1(3) run2])
  have last: "(upd_ipc_process ?d (\<lambda>q. q\<lparr>ip_space := vm'\<rparr>) ?k3)\<lparr>ik_memory := vm_memory vm'\<rparr>
      = (upd_ipc_process ?d (\<lambda>q. q\<lparr>ip_space := vm'\<rparr>) ?k)\<lparr>ik_memory := vm_memory vm', ik_next_buffer := Suc (ik_next_buffer ?k)\<rparr>"
    by (simp add: upd_ipc_process_def)
  have mapped: "on_space ?d (\<lambda>vm. MapBackingMemoryToBase D vm IPC_MAPPING_VADDR IPC_MAPPING_SIZE (Some (?b, 0)) ?bsz MSShared) ?k2
      = Some (Inr low, ?k3)" by (rule on_space_Some) (rule m1(1))
  have "map_buffer D c perms sz src off num_pages t = Some (t\<lparr>tr_cmd_buf := (tr_cmd_buf t)[tr_pos t := low + 0x1000 + off],
        tr_pos := Suc (tr_pos t), tr_contexts := tr_contexts t @ [\<lparr>mb_permissions = perms, mb_size = sz,
          mb_source_address = src, mb_target_address = low + 0x1000 + off, mb_buffer = ?b\<rparr>],
        tr_kernel := (upd_ipc_process ?d (\<lambda>q. q\<lparr>ip_space := vm'\<rparr>) ?k)
          \<lparr>ik_memory := vm_memory vm', ik_next_buffer := Suc (ik_next_buffer ?k)\<rparr>\<rparr>)"
    unfolding map_buffer_def Let_def read bind.bind_lunit option.case prod.case new mapped sum.case g(1) g(2) last using pos
    by (simp add: put_word_def)
  moreover have "shows_buffer ?b (unat low) ?n (space_of ?k ?d) vm'"
    using g(4) unfolding size shows_buffer_def same .
  moreover have "bytes (vm_memory vm') ?b = (\<lambda>i. if 4096 + unat off \<le> i \<and> i < 4096 + unat off + length bs then bs ! (i - (4096 + unat off)) else 0)"
    if k: "keeps_buffers D"
  proof -
    have "same_buffers ?m (vm_memory vm')"
      using MapBackingMemoryToBase_buffers [OF k m1(1)] g(5) k same_buffers_trans by (auto simp: space_of_def)
    then show ?thesis by (simp add: same_buffers_def write_bytes_def cong: if_cong)
  qed
  ultimately show thesis using that g(3) by blast
qed

text \<open>The pages of a buffer, from its address and its size.\<close>

abbreviation buffer_extent :: "u32 \<Rightarrow> u32 \<Rightarrow> nat" where
  "buffer_extent src sz \<equiv> buffer_size (unat src mod 4096) (unat sz)"

lemma mapped_buffer_size_bound: "unat (mapped_buffer_size d) < 0x10000000"
proof -
  define w where "w = d AND field_mask 4 28"
  have "unat (drop_bit 4 w) = unat w div 16" by (simp add: drop_bit_eq_div unat_div)
  moreover have "unat w < 4294967296" using unsigned_less [of w] by simp
  ultimately show ?thesis by (simp add: mapped_buffer_size_def ExtractValue_def flip: w_def)
qed

lemma num_pages_of_buffer:
  assumes "unat sz < 0x10000000" "0 < unat sz"
  shows "unat (drop_bit 12 (AlignUp (src - AlignDown src 0x1000 + sz) 0x1000)) = pages_for (unat src mod 4096) (unat sz)"
proof -
  have "unat src mod 4096 < 4096" by simp
  then have e: "unat (src - AlignDown src 0x1000 + sz) = unat src mod 4096 + unat sz"
    using assms by (subst unat_plus_no_wrap_u32) (simp_all add: page_offset)
  then have "unat (src - AlignDown src 0x1000 + sz) < 0x20000000" using assms \<open>unat src mod 4096 < 4096\<close> by simp
  from AlignUp_pages [OF this] show ?thesis by (simp add: e pages_for_def)
qed

section \<open>A reply takes its buffer back\<close>

lemma state_at_attrs:
  assumes "space_ok vm" "unat a < MAXA" "attrs vm (unat a) = Some (ty, perms, st, o')"
  shows "state_at vm a = Some st"
proof -
  have c: "chain 0 (vma_map vm) MAXA" using assms(1) by (simp add: space_ok_def map_ok_def)
  obtain L v R where v: "vma_map vm = L @ v # R" "FindVMA (vma_map vm) a = length L" "vbase v \<le> unat a" "unat a < vend v"
    by (rule FindVMA_split [OF c assms(2)])
  have "attrs vm (unat a) = Some (vattr v)" using attr_at_here [OF c [unfolded v(1)] v(3,4)] v(1) by simp
  with assms(3) have "vma_state v = st" by (simp add: vattr_def)
  with v(1,2) show ?thesis by (simp add: state_at_def Let_def)
qed

lemma find_context_first:
  assumes "\<forall>y \<in> set xs. mb_target_address y \<noteq> mb_target_address x"
  shows "find_context (mb_permissions x) (mb_size x) (mb_target_address x) (xs @ x # ys) = Some (length xs)"
  using assms by (induction xs) simp_all

text \<open>Unmapping a guarded buffer leaves the address space as it was before the buffer was mapped.\<close>

lemma unmap_buffer:
  assumes vm: "space_ok vm" "space_ok vm0" and run: "range_free low n vm0" and shown: "shows_buffer b (unat low) (unat n) vm0 vm"
    and al: "page_aligned low" "page_aligned n" "0 < unat n" "unat low + unat n \<le> MAXA"
  obtains vm' where "UnmapRange D vm low n = Some (None, vm')" "space_ok vm'" "\<forall>a. attrs vm' a = attrs vm0 a"
proof -
  have ok: "map_ok (vma_map vm)" "\<not> is_locked vm" using vm(1) by (simp_all add: space_ok_def)
  have "\<not> range_has_free low n (vma_map vm)"
    using shown by (auto simp: range_has_free_def shows_buffer_def free_at_def backed_def split: if_splits)
  then obtain vm' where u: "UnmapRange D vm low n = Some (None, vm')" "map_ok (vma_map vm')" "is_locked vm' = is_locked vm"
    "range_updated (\<lambda>_. free_attributes) low n (vma_map vm) (vma_map vm')"
    using UnmapRange_spec [OF ok al, of D] by auto
  have "attrs vm' a = attrs vm0 a" for a
    using u(4) shown run free_at_attributes [OF vm(2), of a] by (auto simp: range_updated_def shows_buffer_def)
  with u ok(2) that show thesis by (simp add: space_ok_def)
qed

text \<open>What a reply copies back, when the receiver could write to the buffer.\<close>

definition copied_back :: "Devices \<Rightarrow> 'o IpcCall \<Rightarrow> MappedBufferContext \<Rightarrow> 'o IpcKernel \<Rightarrow> MemorySystem option" where
  "copied_back D c x k =
     (if mb_permissions x \<noteq> PermR
      then CopyBlock D (table_of k (ic_dst c)) (table_of k (ic_src c)) (ik_memory k)
        (mb_source_address x) (mb_target_address x) (unat (mb_size x))
      else Some (ik_memory k))"

lemma return_buffer_spec:
  assumes ctx: "tr_contexts t = xs @ x # ys" "\<forall>y \<in> set xs. mb_target_address y \<noteq> mb_target_address x"
    and copied: "copied_back D c x (tr_kernel t) = Some m"
    and n: "unat num_pages = pages_for off (unat (mb_size x))" "unat (mb_size x) < 0x10000000" "0 < unat (mb_size x)" "off < 4096"
    and vm: "space_ok (space_of (tr_kernel t) (ic_src c))" "space_ok vm0" and run: "range_free low ((num_pages + 2) * 0x1000) vm0"
    and shown: "shows_buffer b (unat low) (buffer_size off (unat (mb_size x))) vm0 (space_of (tr_kernel t) (ic_src c))"
    and low: "page_aligned low" "unat low + buffer_size off (unat (mb_size x)) \<le> MAXA"
  obtains vm' where "return_buffer D c (mb_permissions x) (mb_size x) (mb_target_address x) (low + 0x1000) num_pages t
      = Some (t\<lparr>tr_pos := Suc (tr_pos t), tr_contexts := xs @ ys,
          tr_kernel := (upd_ipc_process (ic_src c) (\<lambda>q. q\<lparr>ip_space := vm'\<rparr>) (tr_kernel t))\<lparr>ik_memory := vm_memory vm'\<rparr>\<rparr>)"
    "space_ok vm'" "\<forall>a. attrs vm' a = attrs vm0 a"
proof -
  let ?k = "(tr_kernel t)\<lparr>ik_memory := m\<rparr>" and ?p = "ic_src c" and ?bsz = "(num_pages + 2) * 0x1000"
  let ?n = "buffer_size off (unat (mb_size x))"
  have size: "unat ?bsz = ?n" by (rule guarded_size [OF n(1,2,4)])
  have big: "12288 \<le> ?n" using pages_for_bounds(2) [OF n(3), of off] by (simp add: buffer_size_def)
  have al: "page_aligned ?bsz" unfolding page_aligned_dvd size by (simp add: buffer_size_def)
  have vmk: "vma_map (space_of ?k ?p) = vma_map (space_of (tr_kernel t) ?p)" "space_ok (space_of ?k ?p)"
    using vm(1) by (simp_all add: space_ok_def)
  have high: "low + 0x1000 + num_pages * 0x1000 = low + ?bsz - 0x1000" by (simp add: algebra_simps)
  have e: "unat (low + ?bsz) = unat low + ?n" using low(2) by (simp add: unat_plus_no_wrap_u32 size del: distrib_right_numeral)
  then have "0x1000 \<le> low + ?bsz" using big by (simp add: word_le_nat_alt del: distrib_right_numeral)
  then have uh: "unat (low + ?bsz - 0x1000) = unat low + ?n - 4096" using e by (simp add: unat_minus_no_wrap del: distrib_right_numeral)
  have guard: "state_at (space_of ?k ?p) low = Some MSReserved" "state_at (space_of ?k ?p) (low + ?bsz - 0x1000) = Some MSReserved"
    using shown low(2) big
    by (auto intro!: state_at_attrs [OF vmk(2)] simp: vmk(1) uh shows_buffer_def backed_def simp del: distrib_right_numeral)
  have sz: "0 < unat ?bsz" "unat low + unat ?bsz \<le> MAXA" using big low(2) unfolding size by simp_all
  have shown': "shows_buffer b (unat low) (unat ?bsz) vm0 (space_of ?k ?p)"
    using shown unfolding size shows_buffer_def by simp
  obtain vm' where u: "UnmapRange D (space_of ?k ?p) low ?bsz = Some (None, vm')" "space_ok vm'" "\<forall>a. attrs vm' a = attrs vm0 a"
    by (rule unmap_buffer [OF vmk(2) vm(2) run shown' low(1) al sz])
  have "upd_ipc_process ?p (\<lambda>q. q\<lparr>ip_space := vm'\<rparr>) ?k\<lparr>ik_memory := vm_memory vm'\<rparr>
      = upd_ipc_process ?p (\<lambda>q. q\<lparr>ip_space := vm'\<rparr>) (tr_kernel t)\<lparr>ik_memory := vm_memory vm'\<rparr>"
    by (simp add: upd_ipc_process_def)
  with on_space_Some [of "\<lambda>vm. UnmapRange D vm low ?bsz" ?k ?p, OF u(1)]
  have unmapped: "on_space ?p (\<lambda>vm. UnmapRange D vm low ?bsz) ?k = Some (None,
      upd_ipc_process ?p (\<lambda>q. q\<lparr>ip_space := vm'\<rparr>) (tr_kernel t)\<lparr>ik_memory := vm_memory vm'\<rparr>)" by simp
  have k1: "(if mb_permissions x \<noteq> PermR then map_option (\<lambda>m. tr_kernel t\<lparr>ik_memory := m\<rparr>)
         (CopyBlock D (table_of (tr_kernel t) (ic_dst c)) (table_of (tr_kernel t) ?p) (ik_memory (tr_kernel t))
            (mb_source_address x) (mb_target_address x) (unat (mb_size x)))
       else Some (tr_kernel t)) = Some ?k"
    using copied by (auto simp: copied_back_def split: if_splits)
  have lo: "low + 0x1000 - 0x1000 = low" by simp
  have rest: "tr_contexts t ! length xs = x" "take (length xs) (tr_contexts t) @ drop (Suc (length xs)) (tr_contexts t) = xs @ ys"
    by (simp_all add: ctx(1))
  have found: "find_context (mb_permissions x) (mb_size x) (mb_target_address x) (tr_contexts t) = Some (length xs)"
    unfolding ctx(1) by (rule find_context_first [OF ctx(2)])
  have "return_buffer D c (mb_permissions x) (mb_size x) (mb_target_address x) (low + 0x1000) num_pages t
      = Some (t\<lparr>tr_kernel := upd_ipc_process ?p (\<lambda>q. q\<lparr>ip_space := vm'\<rparr>) (tr_kernel t)\<lparr>ik_memory := vm_memory vm'\<rparr>,
          tr_contexts := xs @ ys, tr_pos := Suc (tr_pos t)\<rparr>)"
    unfolding return_buffer_def Let_def found bind.bind_lunit rest k1 lo high guard unmapped prod.case by simp
  then have "return_buffer D c (mb_permissions x) (mb_size x) (mb_target_address x) (low + 0x1000) num_pages t
      = Some (t\<lparr>tr_pos := Suc (tr_pos t), tr_contexts := xs @ ys,
          tr_kernel := upd_ipc_process ?p (\<lambda>q. q\<lparr>ip_space := vm'\<rparr>) (tr_kernel t)\<lparr>ik_memory := vm_memory vm'\<rparr>\<rparr>)" by simp
  with u that show thesis by blast
qed

section \<open>The descriptor of a mapped buffer\<close>

lemma unat_page_offset: "unat (src - AlignDown src 0x1000) = unat src mod 4096" "src - AlignDown src 0x1000 = src mod 0x1000"
  by (rule page_offset) (simp add: AlignDown_def)

text \<open>What a request needs to map a buffer of the sender's bytes \<open>bs\<close> at \<open>low\<close>.\<close>

definition buffer_request :: "'o IpcCall \<Rightarrow> u32 \<Rightarrow> 'o Translation \<Rightarrow> u32 \<Rightarrow> u8 list \<Rightarrow> u32 \<Rightarrow> bool" where
  "buffer_request c d t src bs low \<longleftrightarrow>
     \<not> ic_reply c \<and> bs \<noteq> [] \<and> length bs = unat (mapped_buffer_size d)
     \<and> tr_pos t < length (tr_cmd_buf t) \<and> tr_cmd_buf t ! tr_pos t = src
     \<and> shows_bytes (ik_memory (tr_kernel t)) (table_of (tr_kernel t) (ic_src c)) src bs
     \<and> buffer_place (space_of (tr_kernel t) (ic_dst c)) (of_nat (buffer_extent src (mapped_buffer_size d))) low"

definition buffer_context :: "u32 \<Rightarrow> 'o Translation \<Rightarrow> u32 \<Rightarrow> u32 \<Rightarrow> MappedBufferContext" where
  "buffer_context d t src low = \<lparr>mb_permissions = mapped_buffer_perms d, mb_size = mapped_buffer_size d,
     mb_source_address = src, mb_target_address = low + 0x1000 + src mod 0x1000,
     mb_buffer = BufferMem (ik_next_buffer (tr_kernel t)) (buffer_extent src (mapped_buffer_size d))\<rparr>"

lemma buffer_request_maps:
  assumes req: "buffer_request c d t src bs low"
  obtains vm' where "translate_mapped D c d t = Some (t\<lparr>tr_cmd_buf := (tr_cmd_buf t)[tr_pos t := mb_target_address (buffer_context d t src low)],
        tr_pos := Suc (tr_pos t), tr_contexts := tr_contexts t @ [buffer_context d t src low],
        tr_kernel := (upd_ipc_process (ic_dst c) (\<lambda>q. q\<lparr>ip_space := vm'\<rparr>) (tr_kernel t))
          \<lparr>ik_memory := vm_memory vm', ik_next_buffer := Suc (ik_next_buffer (tr_kernel t))\<rparr>\<rparr>)"
    "space_ok vm'"
    "shows_buffer (mb_buffer (buffer_context d t src low)) (unat low) (buffer_extent src (mapped_buffer_size d))
        (space_of (tr_kernel t) (ic_dst c)) vm'"
    "keeps_buffers D \<longrightarrow> bytes (vm_memory vm') (mb_buffer (buffer_context d t src low))
        = (\<lambda>i. if 4096 + unat src mod 4096 \<le> i \<and> i < 4096 + unat src mod 4096 + length bs
            then bs ! (i - (4096 + unat src mod 4096)) else 0)"
proof -
  note r = req [unfolded buffer_request_def]
  let ?sz = "mapped_buffer_size d" and ?off = "src - AlignDown src 0x1000"
  let ?np = "drop_bit 12 (AlignUp (?off + ?sz) 0x1000)"
  have sz: "0 < unat ?sz" "unat ?sz < 0x10000000" using r mapped_buffer_size_bound [of d] by (cases bs; simp)+
  have np: "unat ?np = pages_for (unat ?off) (unat ?sz)"
    unfolding unat_page_offset(1) by (rule num_pages_of_buffer [OF sz(2,1)])
  have off: "unat ?off < 4096" unfolding unat_page_offset(1) by simp
  have "unat ((?np + 2) * 0x1000) = buffer_extent src ?sz"
    using guarded_size [OF np sz(2) off] by (simp only: unat_page_offset(1))
  then have "(?np + 2) * 0x1000 = of_nat (buffer_extent src ?sz)" by (metis of_nat_unat ucast_id)
  with r have place: "buffer_place (space_of (tr_kernel t) (ic_dst c)) ((?np + 2) * 0x1000) low" by simp
  have read: "read_block D (ic_src c) src (unat ?sz) (tr_kernel t) = Some (bs, (tr_kernel t)\<lparr>ik_memory := ik_memory (tr_kernel t)\<rparr>)"
    using read_shown_bytes [of "tr_kernel t" "ic_src c" src bs D] r by simp
  have "0 < unat ?np" unfolding np by (rule pages_for_bounds(2) [OF sz(1)])
  then have "\<not> ?np < 1" by (simp add: word_less_nat_alt)
  moreover have "?sz \<noteq> 0" using sz(1) by auto
  moreover have "get_word t = Some src" using r by (simp add: get_word_def)
  ultimately have eq: "translate_mapped D c d t = map_buffer D c (mapped_buffer_perms d) ?sz src ?off ?np t"
    using r by (simp add: translate_mapped_def Let_def)
  have pos: "tr_pos t < length (tr_cmd_buf t)" using r by blast
  show thesis
    using map_buffer_spec [OF read np sz off place pos, of "mapped_buffer_perms d" thesis] that
    unfolding eq buffer_context_def unat_page_offset(1) by (simp add: unat_page_offset(2) add.assoc)
qed

lemma buffer_place_aligned:
  assumes "buffer_place vm n low"
  shows "page_aligned low" "IPC_MAPPING_VADDR \<le> low" "unat low + unat n \<le> 0x8000000"
proof -
  from assms obtain v where v: "map_ok (vma_map vm)" "first_fit (vma_map vm) IPC_MAPPING_VADDR n = Some v"
    "low = max IPC_MAPPING_VADDR (vma_base v)" "unat low + unat n \<le> 0x8000000"
    by (auto simp: buffer_place_def space_ok_def)
  have "v \<in> set (vma_map vm)" using v(2) by (auto simp: first_fit_def find_Some_iff)
  then have "page_aligned (vma_base v)" using v(1) by (simp add: map_ok_def area_ok_def)
  moreover have "page_aligned IPC_MAPPING_VADDR" by (simp add: page_aligned_def IPC_MAPPING_VADDR_def)
  ultimately show "page_aligned low" "IPC_MAPPING_VADDR \<le> low" "unat low + unat n \<le> 0x8000000"
    using v(3,4) by (simp_all add: max_def)
qed

text \<open>The receiver's address of a buffer, from which the reply finds its pages.\<close>

lemma target_pages:
  assumes "page_aligned low" "unat low \<le> 0x8000000"
  shows "unat (low + 0x1000 + src mod 0x1000) mod 4096 = unat src mod 4096"
    "AlignDown (low + 0x1000 + src mod 0x1000) 0x1000 = low + 0x1000"
proof -
  obtain q where q: "unat low = 4096 * q" using assms(1) by (auto simp: page_aligned_dvd elim: dvdE)
  have "unat src mod 4096 < 4096" by simp
  then have u: "unat (low + 0x1000) = 4096 * Suc q" "unat (low + 0x1000 + src mod 0x1000) = 4096 * Suc q + unat src mod 4096"
    using assms(2) q by (simp_all add: unat_plus_no_wrap_u32 unat_mod_page)
  then show m: "unat (low + 0x1000 + src mod 0x1000) mod 4096 = unat src mod 4096"
    unfolding u(2) by (simp only: mod_mult_self4 mod_mod_trivial)
  have "unat (AlignDown (low + 0x1000 + src mod 0x1000) 0x1000) = unat (low + 0x1000)"
    using AlignDown_page [of "low + 0x1000 + src mod 0x1000"] u unfolding m by simp
  then show "AlignDown (low + 0x1000 + src mod 0x1000) 0x1000 = low + 0x1000" by (simp only: word_unat_eq_iff)
qed

text \<open>A reply with the address the request gave out.\<close>

lemma buffer_reply_unmaps:
  assumes x: "mb_permissions x = mapped_buffer_perms d" "mb_size x = mapped_buffer_size d"
      "mb_target_address x = low + 0x1000 + src mod 0x1000"
    and sz: "0 < unat (mapped_buffer_size d)"
    and low: "page_aligned low" "unat low + buffer_extent src (mapped_buffer_size d) \<le> 0x8000000"
    and reply: "ic_reply c" "tr_pos t < length (tr_cmd_buf t)" "tr_cmd_buf t ! tr_pos t = mb_target_address x"
    and ctx: "tr_contexts t = xs @ x # ys" "\<forall>y \<in> set xs. mb_target_address y \<noteq> mb_target_address x"
    and copied: "copied_back D c x (tr_kernel t) = Some m"
    and vm: "space_ok (space_of (tr_kernel t) (ic_src c))" "space_ok vm0"
    and run: "range_free low (of_nat (buffer_extent src (mapped_buffer_size d))) vm0"
    and shown: "shows_buffer b (unat low) (buffer_extent src (mapped_buffer_size d)) vm0 (space_of (tr_kernel t) (ic_src c))"
  shows "\<exists>t'. translate_mapped D c d t = Some t' \<and> tr_contexts t' = xs @ ys \<and> tr_pos t' = Suc (tr_pos t)
    \<and> space_ok (space_of (tr_kernel t') (ic_src c)) \<and> (\<forall>a. attrs (space_of (tr_kernel t') (ic_src c)) a = attrs vm0 a)"
proof -
  let ?sz = "mapped_buffer_size d" and ?w = "low + 0x1000 + src mod 0x1000"
  have bound: "unat ?sz < 0x10000000" by (rule mapped_buffer_size_bound)
  have "unat low \<le> 0x8000000" using low(2) by simp
  note tp = target_pages [OF low(1) this, of src]
  let ?np = "drop_bit 12 (AlignUp (?w - AlignDown ?w 0x1000 + ?sz) 0x1000)"
  have np: "unat ?np = pages_for (unat src mod 4096) (unat ?sz)"
    using num_pages_of_buffer [OF bound sz, of ?w] unfolding tp(1) .
  have off: "unat src mod 4096 < 4096" by simp
  have size: "unat ((?np + 2) * 0x1000) = buffer_extent src ?sz" by (rule guarded_size [OF np bound off])
  then have "(?np + 2) * 0x1000 = of_nat (buffer_extent src ?sz)" by (metis of_nat_unat ucast_id)
  note run' = run [folded this]
  have "0 < unat ?np" unfolding np by (rule pages_for_bounds(2) [OF sz])
  then have np1: "\<not> ?np < 1" by (simp add: word_less_nat_alt)
  have nz: "?sz \<noteq> 0" using sz by auto
  have here: "get_word t = Some ?w" using reply(2,3) x(3) by (simp add: get_word_def)
  have eq: "translate_mapped D c d t
      = return_buffer D c (mapped_buffer_perms d) ?sz ?w (AlignDown ?w 0x1000) ?np t"
    unfolding translate_mapped_def here bind.bind_lunit Let_def using nz np1 reply(1) by simp
  have max: "unat low + buffer_size (unat src mod 4096) (unat (mb_size x)) \<le> MAXA" using low(2) x(2) by simp
  obtain vm' where r: "return_buffer D c (mb_permissions x) (mb_size x) (mb_target_address x) (low + 0x1000) ?np t
      = Some (t\<lparr>tr_pos := Suc (tr_pos t), tr_contexts := xs @ ys,
          tr_kernel := (upd_ipc_process (ic_src c) (\<lambda>q. q\<lparr>ip_space := vm'\<rparr>) (tr_kernel t))\<lparr>ik_memory := vm_memory vm'\<rparr>\<rparr>)"
    "space_ok vm'" "\<forall>a. attrs vm' a = attrs vm0 a"
    by (rule return_buffer_spec [OF ctx copied, unfolded x(2), OF np bound sz off vm run' shown low(1) max [unfolded x(2)]])
      (simp add: x(2))
  have "translate_mapped D c d t = Some (t\<lparr>tr_pos := Suc (tr_pos t), tr_contexts := xs @ ys,
          tr_kernel := (upd_ipc_process (ic_src c) (\<lambda>q. q\<lparr>ip_space := vm'\<rparr>) (tr_kernel t))\<lparr>ik_memory := vm_memory vm'\<rparr>\<rparr>)"
    using r(1) unfolding eq tp(2) x .
  with r(2,3) show ?thesis by auto
qed

end
