(* ===== verification/IpcProps.thy ===== *)
theory IpcProps imports IpcBuffers begin

text \<open>
  The properties of the translation of commands: what the words of a command mean, what becomes of
  handles, where a command overruns its array, and buffers that are mapped for the receiver and
  returned.
\<close>

section \<open>A concrete system\<close>

text \<open>Two processes whose page at \<open>0x1000\<close> shows the first and the second page of FCRAM; process 0 has one handle.\<close>

definition sample_tables :: "nat \<Rightarrow> PageTable" where
  "sample_tables t = set_page 1 PageMemory (Some (RegionMem FCRAM, t * 4096)) PageTable_Clear"

definition sample_kernel :: "u32 list \<Rightarrow> nat IpcKernel" where
  "sample_kernel ws = \<lparr>ik_memory = empty_memory\<lparr>page_tables := sample_tables,
       bytes := (\<lambda>b i. if b = RegionMem FCRAM \<and> i < 4 * length ws then bytes_of ws ! i else 0)\<rparr>,
     ik_processes = (\<lambda>p. \<lparr>ip_handles = if p = 0 then snd (Create HandleTable_init 7) else HandleTable_init,
       ip_space = (sample_vm [free_space 0 0x40000000])\<lparr>vm_table := p\<rparr>, ip_id = 0\<rparr>),
     ik_next_buffer = 0\<rparr>"

definition sample_call :: "bool \<Rightarrow> nat IpcCall" where
  "sample_call reply = \<lparr>ic_src = if reply then 1 else 0, ic_dst = if reply then 0 else 1, ic_src_thread = 8,
     ic_src_process = 9, ic_dst_address = 0x1000, ic_reply = reply\<rparr>"

lemma sample_call_simps [simp]:
  "ic_src (sample_call False) = 0" "ic_dst (sample_call False) = 1" "ic_src (sample_call True) = 1"
  "ic_dst (sample_call True) = 0" "ic_dst_address (sample_call r) = 0x1000" "ic_reply (sample_call r) = r"
  "ic_src_thread (sample_call r) = 8" "ic_src_process (sample_call r) = 9"
  by (simp_all add: sample_call_def)

lemma sample_table_of [simp]: "table_of (sample_kernel ws) p = p"
  by (simp add: table_of_def sample_kernel_def)

lemma sample_address:
  assumes "i < 4096"
  shows "page_of (0x1000 + of_nat i) = 1" "page_offset_of (0x1000 + of_nat i) = i"
proof -
  have "unat (0x1000 + of_nat i :: u32) = 4096 + i" using assms by (subst unat_plus_no_wrap_u32) (simp_all add: unat_of_nat)
  then show "page_of (0x1000 + of_nat i) = 1" "page_offset_of (0x1000 + of_nat i) = i"
    using assms by (simp_all add: page_of_div page_offset_mod)
qed

lemma sample_shows_words:
  assumes "length ws \<le> 64"
  shows "shows_words (ik_memory (sample_kernel ws)) 0 0x1000 ws"
  using assms by (auto simp: shows_bytes_def byte_at_def sample_kernel_def sample_tables_def set_page_def sample_address
      FCRAM_N3DS_SIZE_def)

lemma sample_takes_words:
  assumes "n \<le> 64"
  shows "takes_words (ik_memory (sample_kernel ws)) 1 0x1000 n"
  using assms by (auto simp: takes_words_def sample_kernel_def sample_tables_def set_page_def sample_address
      separate_def pt_ok_def PageTable_Clear_def all_shown_def byte_at_def FCRAM_N3DS_SIZE_def)

text \<open>
  A command at \<open>a\<close> of the sender with one descriptor, \<open>d\<close>, of \<open>n\<close> handles at its end, and room for it at
  the receiver.
\<close>

definition handle_command :: "'o IpcCall \<Rightarrow> 'o IpcKernel \<Rightarrow> u32 \<Rightarrow> u32 list \<Rightarrow> u32 \<Rightarrow> nat \<Rightarrow> bool" where
  "handle_command c k a ws d n \<longleftrightarrow>
     length ws = command_size_of (ws ! 0) \<and> length ws \<le> COMMAND_BUFFER_LENGTH
     \<and> untranslated_size (ws ! 0) + 1 + n = length ws \<and> ws ! untranslated_size (ws ! 0) = d
     \<and> shows_words (ik_memory k) (table_of k (ic_src c)) a ws
     \<and> takes_words (ik_memory k) (table_of k (ic_dst c)) (ic_dst_address c) (length ws)"

lemma sample_command:
  assumes "length ws = command_size_of (ws ! 0)" "length ws \<le> 64" "untranslated_size (ws ! 0) + 1 + n = length ws"
    and "ws ! untranslated_size (ws ! 0) = d"
  shows "handle_command (sample_call False) (sample_kernel ws) 0x1000 ws d n"
  using assms sample_shows_words [of ws] sample_takes_words [of "length ws" ws]
  by (simp add: handle_command_def COMMAND_BUFFER_LENGTH_def)

lemma sample_handles:
  "handles_of (sample_kernel ws) 0 = snd (Create HandleTable_init 7)" "handles_of (sample_kernel ws) (Suc 0) = HandleTable_init"
  "ht_inv (handles_of (sample_kernel ws) p)" "n < 4096 \<Longrightarrow> n \<le> card (empty_slots (handles_of (sample_kernel ws) (Suc 0)))"
  "handle_map (handles_of (sample_kernel ws) 0) 1 = Some 7"
proof -
  show init: "handles_of (sample_kernel ws) 0 = snd (Create HandleTable_init 7)"
    "handles_of (sample_kernel ws) (Suc 0) = HandleTable_init" by (simp_all add: handles_of_def sample_kernel_def)
  obtain t' where c: "Create (HandleTable_init :: nat handle_table) 7 = (Inr 1, t')"
    by (auto simp: Create_cases HandleTable_init_def Clear_def MAX_COUNT_def bump_generation_def)
  show "ht_inv (handles_of (sample_kernel ws) p)"
    using Create_inv [OF HandleTable_init_inv c] c by (simp add: handles_of_def sample_kernel_def HandleTable_init_inv)
  have "empty_slots (HandleTable_init :: nat handle_table) = {..<MAX_COUNT}"
    by (auto simp: empty_slots_def HandleTable_init_def Clear_def)
  then show "n < 4096 \<Longrightarrow> n \<le> card (empty_slots (handles_of (sample_kernel ws) (Suc 0)))"
    unfolding init by (simp add: MAX_COUNT_def)
  show "handle_map (handles_of (sample_kernel ws) 0) 1 = Some 7"
    unfolding init using handle_map_Create [OF HandleTable_init_inv c] c by simp
qed

lemma sample_receiver:
  "ht_inv (handles_of (sample_kernel ws) (ic_dst (sample_call False)))"
  "2 \<le> card (empty_slots (handles_of (sample_kernel ws) (ic_dst (sample_call False))))"
  "empty_slots (handles_of (sample_kernel ws) (ic_dst (sample_call False))) \<noteq> {}"
  using sample_handles(3) [of ws] sample_handles(4) [of 2 ws] by (simp, simp) (use sample_handles(4) [of 2 ws] in auto)

section \<open>Words\<close>

text \<open>
  The words the header's functions make read back as what they were made of, cut to the width of
  the fields, and every descriptor is recognized as the kind it was made as.
\<close>

theorem descriptors_roundtrip:
  assumes "0 < m" "m \<le> 64"
  shows "translate_params_size (MakeHeader cmd n t) = take_bit 6 t
    \<and> normal_params_size (MakeHeader cmd n t) = take_bit 6 n
    \<and> command_id (MakeHeader cmd n t) = ucast cmd
    \<and> GetDescriptorType (StaticBufferDesc sz bid) = StaticBuffer
    \<and> static_buffer_id (StaticBufferDesc sz bid) = take_bit 4 (ucast bid)
    \<and> static_buffer_size (StaticBufferDesc sz bid) = take_bit 18 sz
    \<and> GetDescriptorType (MappedBufferDesc sz perms) = MappedBuffer
    \<and> mapped_buffer_perms (MappedBufferDesc sz perms) = take_bit 2 perms
    \<and> mapped_buffer_size (MappedBufferDesc sz perms) = take_bit 28 sz
    \<and> GetDescriptorType (PXIBufferDesc sz b ro) = PXIBuffer
    \<and> GetDescriptorType CallingPidDesc = CallingPid
    \<and> GetDescriptorType (CopyHandleDesc m) = CopyHandle
    \<and> GetDescriptorType (MoveHandleDesc m) = MoveHandle
    \<and> HandleNumberFromDesc (CopyHandleDesc m) = m \<and> HandleNumberFromDesc (MoveHandleDesc m) = m"
  using assms by (simp add: descriptor_values)

lemma descriptors_roundtrip_witness:
  "HandleNumberFromDesc (MoveHandleDesc 3) = 3 \<and> static_buffer_size (StaticBufferDesc 0x40001 2) = 1"
  using descriptors_roundtrip [of 3 0 0 0 "0x40001" 2] by simp

section \<open>Handles\<close>

lemma handle_command_translated:
  assumes cmd: "handle_command c k a ws d n" and junk: "length junk = COMMAND_BUFFER_LENGTH"
    and d: "GetDescriptorType d = CopyHandle \<or> GetDescriptorType d = MoveHandle" "unat (HandleNumberFromDesc d) = n"
    and run: "translate_handles c d n \<lparr>tr_cmd_buf = ws @ drop (length ws) junk, tr_pos = length ws - n,
      tr_contexts = ctx, tr_kernel = k\<rparr> = Some \<lparr>tr_cmd_buf = ws' @ rest, tr_pos = length ws, tr_contexts = ctx, tr_kernel = k'\<rparr>"
    and frame: "ik_memory k' = ik_memory k" "table_of k' = table_of k" "length ws' = length ws"
  obtains st where "TranslateCommandBuffer D c a junk ctx k = Some (None, ctx, k'\<lparr>ik_memory := (ik_memory k)\<lparr>bytes := st\<rparr>\<rparr>)"
    "shows_words ((ik_memory k)\<lparr>bytes := st\<rparr>) (table_of k (ic_dst c)) (ic_dst_address c) ws'"
    "st = poke_all (page_tables (ik_memory k) (table_of k (ic_dst c))) (bytes (ik_memory k)) (ic_dst_address c) (bytes_of ws')"
proof -
  note c = cmd [unfolded handle_command_def]
  let ?u = "untranslated_size (ws ! 0)" and ?n = "length ws"
  have ne: "ws \<noteq> []" "?u < ?n" "1 \<le> ?n" using c by auto
  have one: "read_block D (ic_src c) a 4 k = Some (le_bytes 4 (ws ! 0), k)"
    using read_words [of k "ic_src c" a ws 1 D] c ne by (cases ws) (simp_all add: bytes_of_def)
  have all: "read_block D (ic_src c) a (?n * 4) k = Some (bytes_of ws, k)"
    using read_words [of k "ic_src c" a ws ?n D] c by (simp add: mult.commute)
  have header: "le_word (le_bytes 4 (ws ! 0)) = ws ! 0" by (rule le_word_le_bytes) simp
  let ?t = "\<lparr>tr_cmd_buf = ws @ drop ?n junk, tr_pos = ?u, tr_contexts = ctx, tr_kernel = k\<rparr>"
  have "?u + 1 + n = ?n" using c by blast
  then have pos: "?n - n = Suc ?u" by linarith
  have "translate_descriptor D c ?n ?t = Some (None, \<lparr>tr_cmd_buf = ws' @ rest, tr_pos = ?n, tr_contexts = ctx, tr_kernel = k'\<rparr>)"
  proof -
    have "get_word ?t = Some d" using c ne(2) by (simp add: get_word_def nth_append)
    moreover have "\<not> ?n < Suc ?u + n" using pos ne(2) by linarith
    ultimately show ?thesis using d run [unfolded pos] by (simp add: translate_descriptor_def Let_def)
  qed
  then have loop: "translate_loop COMMAND_BUFFER_LENGTH D c ?n ?t
      = Some (None, \<lparr>tr_cmd_buf = ws' @ rest, tr_pos = ?n, tr_contexts = ctx, tr_kernel = k'\<rparr>)"
    using ne(2) by (simp add: COMMAND_BUFFER_LENGTH_def numeral_eq_Suc)
  have takes: "takes_words (ik_memory k') (table_of k' (ic_dst c)) (ic_dst_address c) (length ws')"
    unfolding frame using c by blast
  obtain st where w: "write_block D (ic_dst c) (ic_dst_address c) (bytes_of ws') k'
      = Some (k'\<lparr>ik_memory := (ik_memory k')\<lparr>bytes := st\<rparr>\<rparr>)"
    "shows_words ((ik_memory k')\<lparr>bytes := st\<rparr>) (table_of k' (ic_dst c)) (ic_dst_address c) ws'"
    "st = poke_all (page_tables (ik_memory k') (table_of k' (ic_dst c))) (bytes (ik_memory k')) (ic_dst_address c) (bytes_of ws')"
    by (rule write_words [OF takes])
  have "TranslateCommandBuffer D c a junk ctx k = Some (None, ctx, k'\<lparr>ik_memory := (ik_memory k)\<lparr>bytes := st\<rparr>\<rparr>)"
    unfolding TranslateCommandBuffer_def
    using one all header loop w(1) c frame by (simp add: Let_def not_less)
  then show thesis using that w(2,3) unfolding frame by blast
qed

lemma handles_copied:
  assumes apart: "ic_src c \<noteq> ic_dst c" and cmd: "handle_command c k a ws d n" and junk: "length junk = COMMAND_BUFFER_LENGTH"
    and d: "GetDescriptorType d = CopyHandle \<or> GetDescriptorType d = MoveHandle" "unat (HandleNumberFromDesc d) = n" "d \<noteq> MoveHandle"
    and inv: "ht_inv (handles_of k (ic_dst c))" and room: "n \<le> card (empty_slots (handles_of k (ic_dst c)))"
  shows "\<exists>tab out. TranslateCommandBuffer D c a junk ctx k = Some (None, ctx,
        (upd_ipc_process (ic_dst c) (\<lambda>p. p\<lparr>ip_handles := tab\<rparr>) k)\<lparr>ik_memory := (ik_memory k)\<lparr>bytes :=
           poke_all (page_tables (ik_memory k) (table_of k (ic_dst c))) (bytes (ik_memory k)) (ic_dst_address c)
             (bytes_of (take (length ws - n) ws @ out))\<rparr>\<rparr>)
    \<and> shows_words ((ik_memory k)\<lparr>bytes :=
           poke_all (page_tables (ik_memory k) (table_of k (ic_dst c))) (bytes (ik_memory k)) (ic_dst_address c)
             (bytes_of (take (length ws - n) ws @ out))\<rparr>) (table_of k (ic_dst c)) (ic_dst_address c) (take (length ws - n) ws @ out)
    \<and> ht_inv tab \<and> received c k (drop (length ws - n) ws) out (handle_map (handles_of k (ic_dst c))) (handle_map tab)"
proof -
  note c = cmd [unfolded handle_command_def]
  have n: "n \<le> length ws" using c by simp
  let ?t = "\<lparr>tr_cmd_buf = ws @ drop (length ws) junk, tr_pos = length ws - n, tr_contexts = ctx, tr_kernel = k\<rparr>"
  have "tr_pos ?t + n \<le> length (tr_cmd_buf ?t)" using n by simp
  with translate_handles_copy [OF apart d(3), of ?t n] inv room obtain tab out where
    t: "translate_handles c d n ?t = Some (?t\<lparr>tr_cmd_buf := take (tr_pos ?t) (tr_cmd_buf ?t) @ out @ drop (tr_pos ?t + n) (tr_cmd_buf ?t),
        tr_pos := tr_pos ?t + n, tr_kernel := upd_ipc_process (ic_dst c) (\<lambda>p. p\<lparr>ip_handles := tab\<rparr>) k\<rparr>)"
      "length out = n" "ht_inv tab"
      "received c k (take n (drop (length ws - n) (ws @ drop (length ws) junk))) out (handle_map (handles_of k (ic_dst c))) (handle_map tab)"
    by auto
  let ?k' = "upd_ipc_process (ic_dst c) (\<lambda>p. p\<lparr>ip_handles := tab\<rparr>) k"
  let ?ws = "take (length ws - n) ws @ out"
  have run: "translate_handles c d n ?t = Some \<lparr>tr_cmd_buf = ?ws @ drop (length ws) junk, tr_pos = length ws, tr_contexts = ctx, tr_kernel = ?k'\<rparr>"
    using t(1) n by simp
  have frame: "ik_memory ?k' = ik_memory k" "table_of ?k' = table_of k" "length ?ws = length ws"
    using t(2) n by (auto simp: table_of_def)
  obtain st where res: "TranslateCommandBuffer D c a junk ctx k = Some (None, ctx, ?k'\<lparr>ik_memory := (ik_memory k)\<lparr>bytes := st\<rparr>\<rparr>)"
    "shows_words ((ik_memory k)\<lparr>bytes := st\<rparr>) (table_of k (ic_dst c)) (ic_dst_address c) ?ws"
    "st = poke_all (page_tables (ik_memory k) (table_of k (ic_dst c))) (bytes (ik_memory k)) (ic_dst_address c) (bytes_of ?ws)"
    by (rule handle_command_translated [OF cmd junk d(1,2) run frame])
  have "take n (drop (length ws - n) (ws @ drop (length ws) junk)) = drop (length ws - n) ws" using n by simp
  note got = t(4) [unfolded this]
  from res(1,2) t(3) got show ?thesis unfolding res(3) by blast
qed

text \<open>
  C24: Copying handles: when the sender shows a command that is one descriptor of handles at the end of its
  words, and the receiver has room for the command and for the handles, the command is translated.
  The whole of the new state is this: the words of the command, the handles replaced, are written
  byte by byte at the receiver's address, where they can be read, and the receiver's handle table
  has, in order, a new handle for the object of each valid handle sent, of which it is told, and is
  told zero for every other handle; its other handles are as before. No other byte, no address
  space and no handle of the sender or of another process changes.
\<close>

theorem CopyHandle_gives_handles:
  assumes "ic_src c \<noteq> ic_dst c" "0 < n" "n < 64" "handle_command c k a ws (CopyHandleDesc (of_nat n)) n"
    and "length junk = COMMAND_BUFFER_LENGTH"
    and "ht_inv (handles_of k (ic_dst c))" "n \<le> card (empty_slots (handles_of k (ic_dst c)))"
  shows "\<exists>tab out. TranslateCommandBuffer D c a junk ctx k = Some (None, ctx,
        (upd_ipc_process (ic_dst c) (\<lambda>p. p\<lparr>ip_handles := tab\<rparr>) k)\<lparr>ik_memory := (ik_memory k)\<lparr>bytes :=
           poke_all (page_tables (ik_memory k) (table_of k (ic_dst c))) (bytes (ik_memory k)) (ic_dst_address c)
             (bytes_of (take (length ws - n) ws @ out))\<rparr>\<rparr>)
    \<and> shows_words ((ik_memory k)\<lparr>bytes :=
           poke_all (page_tables (ik_memory k) (table_of k (ic_dst c))) (bytes (ik_memory k)) (ic_dst_address c)
             (bytes_of (take (length ws - n) ws @ out))\<rparr>) (table_of k (ic_dst c)) (ic_dst_address c) (take (length ws - n) ws @ out)
    \<and> ht_inv tab \<and> received c k (drop (length ws - n) ws) out (handle_map (handles_of k (ic_dst c))) (handle_map tab)"
  by (rule handles_copied [OF assms(1,4,5) _ _ _ assms(6,7)])
    (use assms(2,3) in \<open>simp_all add: descriptor_values word_less_nat_alt word_le_nat_alt CopyHandleDesc_not_Move\<close>)

lemma CopyHandle_gives_handles_witness:
  "\<exists>k' out. TranslateCommandBuffer idle_devices (sample_call False) 0x1000 (replicate 64 0) []
      (sample_kernel [MakeHeader 1 0 3, CopyHandleDesc 2, 1, CurrentThread]) = Some (None, [], k')
    \<and> received (sample_call False) (sample_kernel [MakeHeader 1 0 3, CopyHandleDesc 2, 1, CurrentThread])
        [1, CurrentThread] out (handle_map HandleTable_init) (handle_map (handles_of k' 1))"
proof -
  let ?ws = "[MakeHeader 1 0 3, CopyHandleDesc (of_nat 2), 1, CurrentThread]"
  have "handle_command (sample_call False) (sample_kernel ?ws) 0x1000 ?ws (CopyHandleDesc (of_nat 2)) 2"
    by (rule sample_command) (simp_all add: command_size_of_def untranslated_size_def descriptor_values)
  from CopyHandle_gives_handles [OF _ _ _ this _ sample_receiver(1,2), of "replicate 64 0" idle_devices "[]"] obtain tab out where
    "\<exists>m. TranslateCommandBuffer idle_devices (sample_call False) 0x1000 (replicate 64 0) [] (sample_kernel ?ws)
       = Some (None, [], (upd_ipc_process 1 (\<lambda>p. p\<lparr>ip_handles := tab\<rparr>) (sample_kernel ?ws))\<lparr>ik_memory := m\<rparr>)"
    "received (sample_call False) (sample_kernel ?ws) [1, CurrentThread] out (handle_map HandleTable_init) (handle_map tab)"
    by (auto simp: sample_handles(2) COMMAND_BUFFER_LENGTH_def simp del: received.simps)
  moreover have "handles_of ((upd_ipc_process 1 (\<lambda>p. p\<lparr>ip_handles := tab\<rparr>) (sample_kernel ?ws))\<lparr>ik_memory := m\<rparr>) 1 = tab" for m
    by (simp add: handles_of_def)
  ultimately show ?thesis by (metis of_nat_numeral)
qed

text \<open>
  Moving two or more handles with one descriptor copies them: the receiver gets handles for all the
  objects, and every handle of the sender stays valid, because the code compares the whole
  descriptor, which holds the number of handles, with the kind.
\<close>

theorem MoveHandle_of_several_keeps_source:
  assumes "ic_src c \<noteq> ic_dst c" "2 \<le> n" "n < 64" "handle_command c k a ws (MoveHandleDesc (of_nat n)) n"
    and "length junk = COMMAND_BUFFER_LENGTH"
    and "ht_inv (handles_of k (ic_dst c))" "n \<le> card (empty_slots (handles_of k (ic_dst c)))"
  shows "\<exists>k' out. TranslateCommandBuffer D c a junk ctx k = Some (None, ctx, k')
    \<and> handles_of k' (ic_src c) = handles_of k (ic_src c)
    \<and> received c k (drop (length ws - n) ws) out (handle_map (handles_of k (ic_dst c))) (handle_map (handles_of k' (ic_dst c)))"
proof -
  let ?sent = "\<lambda>out. poke_all (page_tables (ik_memory k) (table_of k (ic_dst c))) (bytes (ik_memory k)) (ic_dst_address c)
             (bytes_of (take (length ws - n) ws @ out))"
  have "\<exists>tab out. TranslateCommandBuffer D c a junk ctx k = Some (None, ctx,
        (upd_ipc_process (ic_dst c) (\<lambda>p. p\<lparr>ip_handles := tab\<rparr>) k)\<lparr>ik_memory := (ik_memory k)\<lparr>bytes := ?sent out\<rparr>\<rparr>)
    \<and> shows_words ((ik_memory k)\<lparr>bytes := ?sent out\<rparr>) (table_of k (ic_dst c)) (ic_dst_address c) (take (length ws - n) ws @ out)
    \<and> ht_inv tab \<and> received c k (drop (length ws - n) ws) out (handle_map (handles_of k (ic_dst c))) (handle_map tab)"
    by (rule handles_copied [OF assms(1,4,5) _ _ _ assms(6,7)])
      (use assms(2,3) in \<open>simp_all add: descriptor_values word_less_nat_alt word_le_nat_alt MoveHandleDesc_several\<close>)
  then obtain tab out where
    t: "TranslateCommandBuffer D c a junk ctx k = Some (None, ctx,
        (upd_ipc_process (ic_dst c) (\<lambda>p. p\<lparr>ip_handles := tab\<rparr>) k)\<lparr>ik_memory := (ik_memory k)\<lparr>bytes := ?sent out\<rparr>\<rparr>)"
    "received c k (drop (length ws - n) ws) out (handle_map (handles_of k (ic_dst c))) (handle_map tab)" by blast
  with assms(1) show ?thesis by (intro exI conjI) (rule t(1), auto simp: handles_of_def simp del: received.simps)
qed

lemma MoveHandle_of_several_keeps_source_witness:
  "\<exists>k' out. TranslateCommandBuffer idle_devices (sample_call False) 0x1000 (replicate 64 0) []
      (sample_kernel [MakeHeader 1 0 3, MoveHandleDesc 2, 1, 1]) = Some (None, [], k')
    \<and> handle_map (handles_of k' 0) 1 = Some 7
    \<and> received (sample_call False) (sample_kernel [MakeHeader 1 0 3, MoveHandleDesc 2, 1, 1])
        [1, 1] out (handle_map HandleTable_init) (handle_map (handles_of k' 1))"
proof -
  let ?ws = "[MakeHeader 1 0 3, MoveHandleDesc (of_nat 2), 1, 1]"
  have "handle_command (sample_call False) (sample_kernel ?ws) 0x1000 ?ws (MoveHandleDesc (of_nat 2)) 2"
    by (rule sample_command) (simp_all add: command_size_of_def untranslated_size_def descriptor_values)
  from MoveHandle_of_several_keeps_source [OF _ _ _ this _ sample_receiver(1,2), of "replicate 64 0" idle_devices "[]"] sample_handles(5) [of ?ws]
  show ?thesis by (auto simp: sample_handles(2) COMMAND_BUFFER_LENGTH_def simp del: received.simps)
qed

lemma list_update_last_word:
  assumes "ws \<noteq> []"
  shows "length ws - 1 < length (ws @ r)" "(ws @ r) ! (length ws - 1) = last ws"
    "(ws @ r)[length ws - 1 := w] = (butlast ws @ [w]) @ r"
proof -
  have e: "ws @ r = butlast ws @ last ws # r" "length ws - 1 = length (butlast ws)" using assms by simp_all
  show "length ws - 1 < length (ws @ r)" "(ws @ r) ! (length ws - 1) = last ws"
    "(ws @ r)[length ws - 1 := w] = (butlast ws @ [w]) @ r"
    unfolding e by (simp_all del: length_butlast)
qed

text \<open>
  Moving one handle, valid and not a pseudo-handle: the receiver gets a new handle for the object and
  the handle is gone from the sender's table, which is otherwise as before.
\<close>

theorem MoveHandle_hands_over:
  assumes apart: "ic_src c \<noteq> ic_dst c" and cmd: "handle_command c k a ws (MoveHandleDesc 1) 1"
    and junk: "length junk = COMMAND_BUFFER_LENGTH"
    and inv: "ht_inv (handles_of k (ic_src c))" "ht_inv (handles_of k (ic_dst c))"
    and room: "empty_slots (handles_of k (ic_dst c)) \<noteq> {}"
    and h: "handle_map (handles_of k (ic_src c)) (last ws) = Some x"
  shows "\<exists>k' w. TranslateCommandBuffer D c a junk ctx k = Some (None, ctx, k')
    \<and> shows_words (ik_memory k') (table_of k (ic_dst c)) (ic_dst_address c) (butlast ws @ [w])
    \<and> handle_map (handles_of k' (ic_src c)) = (handle_map (handles_of k (ic_src c)))(last ws := None)
    \<and> handle_map (handles_of k (ic_dst c)) w = None
    \<and> handle_map (handles_of k' (ic_dst c)) = (handle_map (handles_of k (ic_dst c)))(w \<mapsto> x)"
proof -
  note c = cmd [unfolded handle_command_def]
  let ?h = "last ws" and ?src = "handles_of k (ic_src c)"
  have ne: "ws \<noteq> []" using c by auto
  have can: "canonical ?h" "lookup_handle ?src ?h = Some x" using h by (auto simp: handle_map_def split: if_splits)
  have valid: "IsValid ?src ?h" using can(2) by (auto simp: lookup_handle_eq split: if_splits)
  then have pseudo: "?h \<noteq> CurrentThread" "?h \<noteq> CurrentProcess" using IsValid_not_pseudo by blast+
  have nz: "?h \<noteq> 0"
  proof
    assume "?h = 0"
    with valid have "objects ?src 0 \<noteq> None" "generations ?src 0 = 0"
      by (auto simp: IsValid_def Let_def GetSlot_def GetGeneration_def)
    with ht_inv_live [OF inv(1), of 0] show False by (auto simp: gen_ok_def MAX_COUNT_def)
  qed
  have take: "take_object c MoveHandle ?h k = (Some x,
      upd_ipc_process (ic_src c) (\<lambda>p. p\<lparr>ip_handles := snd (Close (ip_handles p) ?h)\<rparr>) k)"
    using take_object_move [OF pseudo nz, of c k] unfolding can(2) .
  obtain tab where cl: "Close ?src ?h = (Inr (), tab)" using valid by (auto simp: Close_def Let_def)
  let ?k1 = "upd_ipc_process (ic_src c) (\<lambda>p. p\<lparr>ip_handles := snd (Close (ip_handles p) ?h)\<rparr>) k"
  have dst: "handles_of ?k1 (ic_dst c) = handles_of k (ic_dst c)" using apart by (simp add: handles_of_def)
  have "0 < card (empty_slots (handles_of k (ic_dst c)))" using room finite_empty_slots by (simp add: card_gt_0_iff)
  with inv(2) have i: "ht_inv (handles_of ?k1 (ic_dst c))" "0 < card (empty_slots (handles_of ?k1 (ic_dst c)))"
    unfolding dst by blast+
  obtain w tab' where "give_object (ic_dst c) x ?k1 = Some (w, upd_ipc_process (ic_dst c) (\<lambda>q. q\<lparr>ip_handles := tab'\<rparr>) ?k1)"
    "handle_map (handles_of ?k1 (ic_dst c)) w = None" "handle_map tab' = (handle_map (handles_of ?k1 (ic_dst c)))(w \<mapsto> x)"
    by (rule give_object_spec [OF i, of x])
  note g = this [unfolded dst]
  let ?k2 = "upd_ipc_process (ic_dst c) (\<lambda>q. q\<lparr>ip_handles := tab'\<rparr>) ?k1"
  let ?t = "\<lparr>tr_cmd_buf = ws @ drop (length ws) junk, tr_pos = length ws - 1, tr_contexts = ctx, tr_kernel = k\<rparr>"
  have pos: "length ws - 1 < length (ws @ drop (length ws) junk)" "(ws @ drop (length ws) junk) ! (length ws - 1) = ?h"
    "(ws @ drop (length ws) junk)[length ws - 1 := w] = (butlast ws @ [w]) @ drop (length ws) junk"
    by (rule list_update_last_word [OF ne])+
  have run: "translate_handles c (MoveHandleDesc 1) 1 ?t = Some \<lparr>tr_cmd_buf = (butlast ws @ [w]) @ drop (length ws) junk,
      tr_pos = length ws, tr_contexts = ctx, tr_kernel = ?k2\<rparr>"
    using ne pos take g(1) by (simp add: translate_handle_def get_word_def put_word_def MoveHandleDesc_def)
  have frame: "ik_memory ?k2 = ik_memory k" "table_of ?k2 = table_of k" "length (butlast ws @ [w]) = length ws"
    using ne by (auto simp: table_of_def)
  have d: "GetDescriptorType (MoveHandleDesc 1) = CopyHandle \<or> GetDescriptorType (MoveHandleDesc 1) = MoveHandle"
    "unat (HandleNumberFromDesc (MoveHandleDesc 1)) = 1" by (simp_all add: descriptor_values)
  obtain st where res: "TranslateCommandBuffer D c a junk ctx k = Some (None, ctx, ?k2\<lparr>ik_memory := (ik_memory k)\<lparr>bytes := st\<rparr>\<rparr>)"
    "shows_words ((ik_memory k)\<lparr>bytes := st\<rparr>) (table_of k (ic_dst c)) (ic_dst_address c) (butlast ws @ [w])"
    by (rule handle_command_translated [OF cmd junk d run frame])
  have "handle_map tab = (handle_map ?src)(?h := None)" by (rule handle_map_Close [OF inv(1) can(1) cl])
  with res g cl apart show ?thesis
    by (intro exI [of _ "?k2\<lparr>ik_memory := (ik_memory k)\<lparr>bytes := st\<rparr>\<rparr>"] exI [of _ w]) (simp add: handles_of_def)
qed

lemma MoveHandle_hands_over_witness:
  "\<exists>k' w. TranslateCommandBuffer idle_devices (sample_call False) 0x1000 (replicate 64 0) []
      (sample_kernel [MakeHeader 1 0 2, MoveHandleDesc 1, 1]) = Some (None, [], k')
    \<and> handle_map (handles_of k' 0) 1 = None \<and> handle_map (handles_of k' 1) w = Some 7"
proof -
  let ?ws = "[MakeHeader 1 0 2, MoveHandleDesc 1, 1]"
  have "handle_command (sample_call False) (sample_kernel ?ws) 0x1000 ?ws (MoveHandleDesc 1) 1"
    by (rule sample_command) (simp_all add: command_size_of_def untranslated_size_def descriptor_values)
  from MoveHandle_hands_over [OF _ this _ sample_handles(3) sample_receiver(1,3), of "replicate 64 0" 7 idle_devices "[]"]
    sample_handles(5) [of ?ws]
  show ?thesis by (auto simp: sample_handles(2) COMMAND_BUFFER_LENGTH_def)
qed

section \<open>Commands that overrun their array\<close>

text \<open>
  C25: A command as long as the buffer, of 62 plain parameters and one last word that is a descriptor of
  the caller's identity, of a static buffer or of a mapped buffer, makes the translation access the word after its array.
\<close>

theorem descriptor_at_the_end_overruns:
  assumes "length ws = COMMAND_BUFFER_LENGTH" "command_size_of (ws ! 0) = COMMAND_BUFFER_LENGTH"
    and "untranslated_size (ws ! 0) = 63" "GetDescriptorType (last ws) \<in> {CallingPid, StaticBuffer, MappedBuffer}"
    and "length junk = COMMAND_BUFFER_LENGTH" "shows_words (ik_memory k) (table_of k (ic_src c)) a ws"
  shows "TranslateCommandBuffer D c a junk ctx k = None"
proof -
  have len: "length ws = 64" using assms(1) by (simp add: COMMAND_BUFFER_LENGTH_def)
  then have ne: "ws \<noteq> []" by auto
  have one: "read_block D (ic_src c) a 4 k = Some (le_bytes 4 (ws ! 0), k)"
    using read_words [of k "ic_src c" a ws 1 D] assms(6) ne by (cases ws) (simp_all add: bytes_of_def)
  have all: "read_block D (ic_src c) a (64 * 4) k = Some (bytes_of ws, k)"
    using read_words [of k "ic_src c" a ws 64 D] assms(6) len by simp
  have header: "le_word (le_bytes 4 (ws ! 0)) = ws ! 0" by (rule le_word_le_bytes) simp
  let ?t = "\<lparr>tr_cmd_buf = ws, tr_pos = 63, tr_contexts = ctx, tr_kernel = k\<rparr>"
  have gone: "get_word (?t\<lparr>tr_pos := 64\<rparr>) = None" "put_word w (?t\<lparr>tr_pos := 64\<rparr>) = None" for w
    using len by (simp_all add: get_word_def put_word_def)
  have "get_word ?t = Some (last ws)" using len ne by (simp add: get_word_def last_conv_nth)
  then have "translate_descriptor D c 64 ?t = None"
    using assms(4) gone
    by (auto simp: translate_descriptor_def translate_static_def translate_mapped_def Let_def descriptor_kinds)
  then have "translate_loop COMMAND_BUFFER_LENGTH D c 64 ?t = None" by (simp add: COMMAND_BUFFER_LENGTH_def numeral_eq_Suc)
  then show ?thesis
    using one all header assms(2,3,5) len
    by (simp add: TranslateCommandBuffer_def COMMAND_BUFFER_LENGTH_def Let_def)
qed

lemma descriptor_at_the_end_overruns_witness:
  "TranslateCommandBuffer idle_devices (sample_call False) 0x1000 (replicate 64 0) []
    (sample_kernel (MakeHeader 1 62 1 # replicate 62 0 @ [StaticBufferDesc 4 0])) = None"
  by (rule descriptor_at_the_end_overruns [of "MakeHeader 1 62 1 # replicate 62 0 @ [StaticBufferDesc 4 0]"])
    (simp_all add: COMMAND_BUFFER_LENGTH_def command_size_of_def untranslated_size_def descriptor_values sample_shows_words)

section \<open>Mapped buffers\<close>

text \<open>
  C26: A request with a mapped buffer whose bytes the sender can read, and for which the place that the
  search finds at the receiver has room:
  the receiver sees a new buffer with the sender's bytes at the same offset in their page and zeros
  around them, in pages it can read and write between two reserved guard pages, and the command holds
  its address there. No other address of the receiver changes.
\<close>

theorem MappedBuffer_request_maps:
  assumes "buffer_request c d t src bs low" "keeps_buffers D"
  shows "\<exists>t'. translate_mapped D c d t = Some t'
    \<and> tr_cmd_buf t' = (tr_cmd_buf t)[tr_pos t := low + 0x1000 + src mod 0x1000]
    \<and> tr_contexts t' = tr_contexts t @ [buffer_context d t src low]
    \<and> shows_buffer (mb_buffer (buffer_context d t src low)) (unat low) (buffer_extent src (mapped_buffer_size d))
        (space_of (tr_kernel t) (ic_dst c)) (space_of (tr_kernel t') (ic_dst c))
    \<and> (\<forall>i. bytes (ik_memory (tr_kernel t')) (mb_buffer (buffer_context d t src low)) i
        = (if 4096 + unat src mod 4096 \<le> i \<and> i < 4096 + unat src mod 4096 + length bs
           then bs ! (i - (4096 + unat src mod 4096)) else 0))"
proof -
  obtain vm' where r: "translate_mapped D c d t = Some (t\<lparr>tr_cmd_buf := (tr_cmd_buf t)[tr_pos t := mb_target_address (buffer_context d t src low)],
        tr_pos := Suc (tr_pos t), tr_contexts := tr_contexts t @ [buffer_context d t src low],
        tr_kernel := (upd_ipc_process (ic_dst c) (\<lambda>q. q\<lparr>ip_space := vm'\<rparr>) (tr_kernel t))
          \<lparr>ik_memory := vm_memory vm', ik_next_buffer := Suc (ik_next_buffer (tr_kernel t))\<rparr>\<rparr>)"
    "shows_buffer (mb_buffer (buffer_context d t src low)) (unat low) (buffer_extent src (mapped_buffer_size d))
        (space_of (tr_kernel t) (ic_dst c)) vm'"
    "keeps_buffers D \<longrightarrow> bytes (vm_memory vm') (mb_buffer (buffer_context d t src low))
        = (\<lambda>i. if 4096 + unat src mod 4096 \<le> i \<and> i < 4096 + unat src mod 4096 + length bs
            then bs ! (i - (4096 + unat src mod 4096)) else 0)"
    by (rule buffer_request_maps [OF assms(1), of D])
  with assms(2) show ?thesis by (simp add: buffer_context_def shows_buffer_def)
qed

text \<open>A buffer of the second word of the sender's page.\<close>

definition sample_translation :: "nat Translation" where
  "sample_translation = \<lparr>tr_cmd_buf = [0x1004], tr_pos = 0, tr_contexts = [], tr_kernel = sample_kernel [5, 6]\<rparr>"

lemma sample_buffer_request:
  "buffer_request (sample_call False) (MappedBufferDesc 4 1) sample_translation 0x1004 (le_bytes 4 (6 :: u32)) 0x04000000"
proof -
  have "map_ok [free_space 0 0x40000000]"
    by (simp add: map_ok_def sample_defs area_ok_def page_aligned_def free_apart_def free_def)
  then have "space_ok (space_of (sample_kernel [5, 6]) 1)"
    by (simp add: space_ok_def sample_kernel_def sample_vm_def)
  moreover have "first_fit [free_space 0 0x40000000] IPC_MAPPING_VADDR 0x3000 = Some (free_space 0 0x40000000)"
    by (simp add: first_fit_def sample_defs IPC_MAPPING_VADDR_def)
  moreover have "range_free 0x04000000 0x3000 (space_of (sample_kernel [5, 6]) 1)"
    by (auto simp: sample_kernel_def sample_vm_def sample_defs free_at_def vattr_def)
  ultimately have "buffer_place (space_of (sample_kernel [5, 6]) 1) 0x3000 0x04000000"
    by (auto simp: buffer_place_def sample_kernel_def sample_vm_def IPC_MAPPING_VADDR_def sample_defs)
  moreover have "le_bytes 4 (6 :: u32) \<noteq> []" by (simp add: le_bytes_def)
  moreover have "shows_bytes (ik_memory (sample_kernel [5, 6])) 0 0x1004 (le_bytes 4 (6 :: u32))"
    unfolding shows_bytes_def
  proof (intro conjI allI impI)
    fix i assume "i < length (le_bytes 4 (6 :: u32))"
    then have "4 + i < 8" by simp
    moreover have "\<forall>j < 8. byte_at (ik_memory (sample_kernel [5, 6])) 0 (0x1000 + of_nat j) = Some (bytes_of [5, 6] ! j)"
      using sample_shows_words [of "[5, 6]"] by (simp add: shows_bytes_def)
    ultimately have "byte_at (ik_memory (sample_kernel [5, 6])) 0 (0x1000 + of_nat (4 + i)) = Some (bytes_of [5, 6] ! (4 + i))"
      by blast
    then show "byte_at (ik_memory (sample_kernel [5, 6])) 0 (0x1004 + of_nat i) = Some (le_bytes 4 (6 :: u32) ! i)"
      by (simp add: bytes_of_def nth_append add.assoc [symmetric])
  qed simp
  ultimately show ?thesis
    by (simp add: buffer_request_def sample_translation_def descriptor_values buffer_size_def pages_for_def)
qed

lemma MappedBuffer_request_maps_witness:
  "\<exists>t'. translate_mapped idle_devices (sample_call False) (MappedBufferDesc 4 1) sample_translation = Some t'
    \<and> tr_cmd_buf t' = [0x04001004] \<and> bytes (ik_memory (tr_kernel t')) (BufferMem 0 0x3000) 0x1004 = 6"
proof -
  have "keeps_buffers idle_devices" by (simp add: keeps_buffers_def idle_devices_def)
  from MappedBuffer_request_maps [OF sample_buffer_request this] obtain t' where
    t: "translate_mapped idle_devices (sample_call False) (MappedBufferDesc 4 1) sample_translation = Some t'"
      "tr_cmd_buf t' = [0x04001004]" and
    b: "\<forall>i. bytes (ik_memory (tr_kernel t')) (BufferMem 0 0x3000) i
        = (if 4096 + 4 \<le> i \<and> i < 4096 + 4 + 4 then le_bytes 4 (6 :: u32) ! (i - (4096 + 4)) else 0)"
    by (auto simp: sample_translation_def buffer_context_def sample_kernel_def descriptor_values buffer_size_def pages_for_def
        cong: if_cong)
  have "le_bytes 4 (6 :: u32) ! 0 = 6" by (simp add: le_bytes_def)
  with t spec [OF b, where x = "0x1004"] show ?thesis by auto
qed

text \<open>
  C27: The reply to such a request, with the same descriptor and the address the request gave out, when the
  receiver's space still shows what the request left: the buffer is copied back if the receiver could
  write to it, and the receiver's address space and the kernel's list of buffers are as before the
  request.
\<close>

theorem MappedBuffer_reply_unmaps:
  assumes req: "buffer_request c d t src bs low" and request: "translate_mapped D c d t = Some t1"
    and reply: "ic_reply c'" "ic_src c' = ic_dst c" "tr_pos t2 < length (tr_cmd_buf t2)"
      "tr_cmd_buf t2 ! tr_pos t2 = tr_cmd_buf t1 ! tr_pos t" "tr_contexts t2 = tr_contexts t1"
    and fresh: "\<forall>y \<in> set (tr_contexts t). mb_target_address y \<noteq> tr_cmd_buf t1 ! tr_pos t"
    and space: "space_ok (space_of (tr_kernel t2) (ic_dst c))"
      "\<forall>a. attrs (space_of (tr_kernel t2) (ic_dst c)) a = attrs (space_of (tr_kernel t1) (ic_dst c)) a"
    and copied: "copied_back D' c' (buffer_context d t src low) (tr_kernel t2) = Some m"
  shows "\<exists>t3. translate_mapped D' c' d t2 = Some t3 \<and> tr_contexts t3 = tr_contexts t
    \<and> (\<forall>a. attrs (space_of (tr_kernel t3) (ic_dst c)) a = attrs (space_of (tr_kernel t) (ic_dst c)) a)"
proof -
  note r = req [unfolded buffer_request_def]
  let ?x = "buffer_context d t src low"
  obtain vm' where q: "translate_mapped D c d t = Some (t\<lparr>tr_cmd_buf := (tr_cmd_buf t)[tr_pos t := mb_target_address ?x],
        tr_pos := Suc (tr_pos t), tr_contexts := tr_contexts t @ [?x],
        tr_kernel := (upd_ipc_process (ic_dst c) (\<lambda>q. q\<lparr>ip_space := vm'\<rparr>) (tr_kernel t))
          \<lparr>ik_memory := vm_memory vm', ik_next_buffer := Suc (ik_next_buffer (tr_kernel t))\<rparr>\<rparr>)"
    "shows_buffer (mb_buffer ?x) (unat low) (buffer_extent src (mapped_buffer_size d)) (space_of (tr_kernel t) (ic_dst c)) vm'"
    by (rule buffer_request_maps [OF req, of D])
  have t1: "tr_contexts t1 = tr_contexts t @ [?x]" "tr_cmd_buf t1 ! tr_pos t = mb_target_address ?x"
    "attrs (space_of (tr_kernel t1) (ic_dst c)) = attrs vm'"
    using q(1) request r by auto
  have x: "mb_permissions ?x = mapped_buffer_perms d" "mb_size ?x = mapped_buffer_size d"
    "mb_target_address ?x = low + 0x1000 + src mod 0x1000" by (simp_all add: buffer_context_def)
  have sz: "0 < unat (mapped_buffer_size d)" using r by (cases bs) auto
  have place: "buffer_place (space_of (tr_kernel t) (ic_dst c)) (of_nat (buffer_extent src (mapped_buffer_size d))) low"
    using r by blast
  have "buffer_extent src (mapped_buffer_size d) < 4294967296"
    using mapped_buffer_size_bound [of d] by (simp add: buffer_size_def pages_for_def)
  then have n: "unat (of_nat (buffer_extent src (mapped_buffer_size d)) :: u32) = buffer_extent src (mapped_buffer_size d)"
    by (simp add: unat_of_nat)
  note low = buffer_place_aligned [OF place, unfolded n]
  have run: "range_free low (of_nat (buffer_extent src (mapped_buffer_size d))) (space_of (tr_kernel t) (ic_dst c))"
    "space_ok (space_of (tr_kernel t) (ic_dst c))" using place by (auto simp: buffer_place_def)
  have shown: "shows_buffer (mb_buffer ?x) (unat low) (buffer_extent src (mapped_buffer_size d))
      (space_of (tr_kernel t) (ic_dst c)) (space_of (tr_kernel t2) (ic_src c'))"
    using q(2) space(2) t1(3) unfolding reply(2) by (simp add: shows_buffer_def)
  have "\<exists>t3. translate_mapped D' c' d t2 = Some t3 \<and> tr_contexts t3 = tr_contexts t @ [] \<and> tr_pos t3 = Suc (tr_pos t2)
    \<and> space_ok (space_of (tr_kernel t3) (ic_src c'))
    \<and> (\<forall>a. attrs (space_of (tr_kernel t3) (ic_src c')) a = attrs (space_of (tr_kernel t) (ic_dst c)) a)"
    by (rule buffer_reply_unmaps [OF x sz low(1,3) reply(1,3) _ _ _ copied _ run(2,1) shown])
      (use reply(2,4,5) t1 fresh space(1) in simp_all)
  then show ?thesis unfolding reply(2) by auto
qed

lemma MappedBuffer_reply_unmaps_witness:
  "\<exists>t1 t3. translate_mapped idle_devices (sample_call False) (MappedBufferDesc 4 1) sample_translation = Some t1
    \<and> translate_mapped idle_devices (sample_call True) (MappedBufferDesc 4 1) (t1\<lparr>tr_pos := 0\<rparr>) = Some t3
    \<and> tr_contexts t3 = []
    \<and> (\<forall>a. attrs (space_of (tr_kernel t3) 1) a = attrs (sample_vm [free_space 0 0x40000000]) a)"
proof -
  obtain vm' where r: "translate_mapped idle_devices (sample_call False) (MappedBufferDesc 4 1) sample_translation
      = Some (sample_translation\<lparr>tr_cmd_buf := (tr_cmd_buf sample_translation)[tr_pos sample_translation :=
            mb_target_address (buffer_context (MappedBufferDesc 4 1) sample_translation 0x1004 0x04000000)],
        tr_pos := Suc (tr_pos sample_translation),
        tr_contexts := tr_contexts sample_translation @ [buffer_context (MappedBufferDesc 4 1) sample_translation 0x1004 0x04000000],
        tr_kernel := (upd_ipc_process (ic_dst (sample_call False)) (\<lambda>q. q\<lparr>ip_space := vm'\<rparr>) (tr_kernel sample_translation))
          \<lparr>ik_memory := vm_memory vm', ik_next_buffer := Suc (ik_next_buffer (tr_kernel sample_translation))\<rparr>\<rparr>)" "space_ok vm'"
    by (rule buffer_request_maps [OF sample_buffer_request, of idle_devices])
  then obtain t1 where t1: "translate_mapped idle_devices (sample_call False) (MappedBufferDesc 4 1) sample_translation = Some t1"
    "length (tr_cmd_buf t1) = 1" "space_ok (space_of (tr_kernel t1) 1)"
    by (auto simp: sample_translation_def space_of_def)
  have "copied_back idle_devices (sample_call True) (buffer_context (MappedBufferDesc 4 1) sample_translation 0x1004 0x04000000)
      (tr_kernel (t1\<lparr>tr_pos := 0\<rparr>)) = Some (ik_memory (tr_kernel t1))"
    by (simp add: copied_back_def buffer_context_def descriptor_values PermR_def)
  from MappedBuffer_reply_unmaps [OF sample_buffer_request t1(1) _ _ _ _ _ _ _ _ this] t1 show ?thesis
    by (auto simp: sample_translation_def sample_kernel_def)
qed

end
