(* ===== verification/IpsPatch.thy ===== *)
theory IpsPatch imports Prelude "HOL-Library.Monad_Syntax" begin

text \<open>
  Patches of executable code in the IPS format (\<open>ApplyIpsPatch\<close> of src/core/file_sys/patch.cpp): a
  magic word, then records that overwrite a range with given bytes or fill it with one byte, then an
  end mark.

  The outer \<^const>\<open>None\<close> is an access beyond the patch. Sizes and offsets are natural numbers: a record's
  offset has three bytes and its length two, so that no sum of them wraps.
\<close>

section \<open>The code\<close>

definition ips_magic :: "u8 list" where "ips_magic = [0x50, 0x41, 0x54, 0x43, 0x48]"
definition ips_eof :: "u8 list" where "ips_eof = [0x45, 0x4F, 0x46]"

definition be_number :: "u8 list \<Rightarrow> nat" where
  "be_number = foldl (\<lambda>n b. 256 * n + unat b) 0"

definition read_be :: "u8 list \<Rightarrow> nat \<Rightarrow> nat \<Rightarrow> nat option" where
  "read_be ips cursor n = (if cursor + n \<le> length ips then Some (be_number (take n (drop cursor ips))) else None)"

definition overwrite :: "u8 list \<Rightarrow> nat \<Rightarrow> u8 list \<Rightarrow> u8 list" where
  "overwrite buffer offset bs = take offset buffer @ bs @ drop (offset + length bs) buffer"

text \<open>One record: the value the function returns, or the next cursor and the buffer.\<close>

definition ips_record :: "u8 list \<Rightarrow> nat \<Rightarrow> u8 list \<Rightarrow> (bool + nat \<times> u8 list) option" where
  "ips_record ips cursor buffer = do {
     offset \<leftarrow> read_be ips cursor 3;
     len \<leftarrow> read_be ips (cursor + 3) 2;
     if len = 0
     then do {
       run \<leftarrow> read_be ips (cursor + 5) 2;
       if length buffer < offset + run then Some (Inl False)
       else if run = 0 then Some (Inr (cursor + 8, buffer))
       else if cursor + 7 < length ips
       then Some (Inr (cursor + 8, overwrite buffer offset (replicate run (ips ! (cursor + 7)))))
       else None }
     else if length buffer < offset + len then Some (Inl False)
     else if cursor + 5 + len \<le> length ips
     then Some (Inr (cursor + len + 5, overwrite buffer offset (take len (drop (cursor + 5) ips))))
     else None }"

lemma ips_record_moves: "ips_record ips cursor buffer = Some (Inr (cursor', buffer')) \<Longrightarrow> cursor < cursor'"
  by (auto simp: ips_record_def bind_eq_Some_conv split: if_splits)

function ips_loop :: "u8 list \<Rightarrow> nat \<Rightarrow> u8 list \<Rightarrow> (bool \<times> u8 list) option" where
  "ips_loop ips cursor buffer =
     (if cursor < length ips - 3
      then if take 3 (drop cursor ips) = ips_eof then Some (False, buffer)
      else (case ips_record ips cursor buffer of
              None \<Rightarrow> None
            | Some (Inl r) \<Rightarrow> Some (r, buffer)
            | Some (Inr (cursor', buffer')) \<Rightarrow> ips_loop ips cursor' buffer')
      else Some (True, buffer))"
  by pat_completeness auto
termination
  by (relation "measure (\<lambda>(ips, cursor, _). length ips - cursor)") (auto dest: ips_record_moves)

declare ips_loop.simps [simp del]

definition ApplyIpsPatch :: "u8 list \<Rightarrow> u8 list \<Rightarrow> (bool \<times> u8 list) option" where
  "ApplyIpsPatch ips buffer =
     (if length ips < 5 then None
      else if take 5 ips \<noteq> ips_magic then Some (False, buffer)
      else ips_loop ips 5 buffer)"

section \<open>The format\<close>

datatype ips_change = IpsBytes nat "u8 list" | IpsFill nat nat u8

fun be_bytes :: "nat \<Rightarrow> nat \<Rightarrow> u8 list" where
  "be_bytes 0 x = []"
| "be_bytes (Suc n) x = of_nat (x div 256 ^ n) # be_bytes n x"

fun encode_change :: "ips_change \<Rightarrow> u8 list" where
  "encode_change (IpsBytes offset bs) = be_bytes 3 offset @ be_bytes 2 (length bs) @ bs"
| "encode_change (IpsFill offset n b) = be_bytes 3 offset @ [0, 0] @ be_bytes 2 n @ [b]"

fun apply_change :: "ips_change \<Rightarrow> u8 list \<Rightarrow> u8 list" where
  "apply_change (IpsBytes offset bs) buffer = overwrite buffer offset bs"
| "apply_change (IpsFill offset n b) buffer = overwrite buffer offset (replicate n b)"

text \<open>A change of a buffer of \<open>size\<close> bytes that the format can express: its offset must not read as the end mark.\<close>

definition ips_offset :: "nat \<Rightarrow> bool" where
  "ips_offset offset \<longleftrightarrow> offset < 256 ^ 3 \<and> be_bytes 3 offset \<noteq> ips_eof"

fun change_ok :: "nat \<Rightarrow> ips_change \<Rightarrow> bool" where
  "change_ok sz (IpsBytes offset bs) \<longleftrightarrow> ips_offset offset \<and> bs \<noteq> [] \<and> length bs < 256 ^ 2 \<and> offset + length bs \<le> sz"
| "change_ok sz (IpsFill offset n b) \<longleftrightarrow> ips_offset offset \<and> n < 256 ^ 2 \<and> offset + n \<le> sz"

definition encode_changes :: "ips_change list \<Rightarrow> u8 list" where
  "encode_changes cs = concat (map encode_change cs)"

definition apply_changes :: "ips_change list \<Rightarrow> u8 list \<Rightarrow> u8 list" where
  "apply_changes cs buffer = fold apply_change cs buffer"

section \<open>Reading it\<close>

lemma length_be_bytes [simp]: "length (be_bytes n x) = n"
  by (induction n) simp_all

lemma be_number_append: "be_number (xs @ [b]) = 256 * be_number xs + unat b"
  by (simp add: be_number_def)

lemma be_number_Cons: "be_number (b # xs) = unat b * 256 ^ length xs + be_number xs"
proof (induction xs rule: rev_induct)
  case (snoc c xs)
  then show ?case using be_number_append [of "b # xs" c] be_number_append [of xs c] by simp
qed (simp add: be_number_def)

lemma be_number_be_bytes: "be_number (be_bytes n x) = x mod 256 ^ n"
proof (induction n)
  case 0
  show ?case by (simp add: be_number_def)
next
  case (Suc n)
  have "unat (of_nat (x div 256 ^ n) :: u8) = x div 256 ^ n mod 256" by (simp add: unat_of_nat take_bit_eq_mod)
  moreover have "x mod 256 ^ Suc n = x div 256 ^ n mod 256 * 256 ^ n + x mod 256 ^ n"
    using mod_mult2_eq [of x "256 ^ n" 256] by (simp add: mult.commute)
  ultimately show ?case by (simp add: be_number_Cons Suc)
qed

lemma read_be_here: "read_be (pre @ be_bytes n x @ post) (length pre) n = Some (x mod 256 ^ n)"
  by (simp add: read_be_def be_number_be_bytes)

lemma read_be_at:
  assumes "cursor = length pre" "ips = pre @ be_bytes n x @ post" "x < 256 ^ n"
  shows "read_be ips cursor n = Some x"
  using read_be_here [of pre n x post] assms by simp

lemma length_overwrite [simp]: "offset + length bs \<le> length buffer \<Longrightarrow> length (overwrite buffer offset bs) = length buffer"
  by (simp add: overwrite_def)

lemma length_apply_change [simp]: "change_ok (length buffer) c \<Longrightarrow> length (apply_change c buffer) = length buffer"
  by (cases c) simp_all

lemma overwrite_nothing [simp]: "offset \<le> length buffer \<Longrightarrow> overwrite buffer offset [] = buffer"
  by (simp add: overwrite_def)

text \<open>A record of the format makes its change, and the cursor moves behind it.\<close>

lemma ips_record_encoded:
  assumes "change_ok (length buffer) c"
  shows "ips_record (pre @ encode_change c @ post) (length pre) buffer
    = Some (Inr (length pre + length (encode_change c), apply_change c buffer))"
proof (cases c)
  case (IpsBytes offset bs)
  let ?ips = "pre @ encode_change c @ post"
  have ok: "offset < 256 ^ 3" "bs \<noteq> []" "length bs < 256 ^ 2" "\<not> length buffer < offset + length bs"
    using assms by (simp_all add: IpsBytes ips_offset_def)
  have r: "read_be ?ips (length pre) 3 = Some offset" "read_be ?ips (length pre + 3) 2 = Some (length bs)"
    using ok by (intro read_be_at [of _ pre _ 3 offset "be_bytes 2 (length bs) @ bs @ post"]
      read_be_at [of _ "pre @ be_bytes 3 offset" _ 2 "length bs" "bs @ post"]; simp add: IpsBytes)+
  have "take (length bs) (drop (length pre + 5) ?ips) = bs" by (simp add: IpsBytes)
  with r ok show ?thesis by (simp add: ips_record_def IpsBytes)
next
  case (IpsFill offset n b)
  let ?ips = "pre @ encode_change c @ post"
  have ok: "offset < 256 ^ 3" "n < 256 ^ 2" "\<not> length buffer < offset + n"
    using assms by (simp_all add: IpsFill ips_offset_def)
  have zero: "be_bytes 2 0 = [0, 0]" by (simp add: numeral_2_eq_2)
  have r: "read_be ?ips (length pre) 3 = Some offset" "read_be ?ips (length pre + 3) 2 = Some 0"
    "read_be ?ips (length pre + 5) 2 = Some n"
    using ok by (intro read_be_at [of _ pre _ 3 offset "[0, 0] @ be_bytes 2 n @ [b] @ post"]
      read_be_at [of _ "pre @ be_bytes 3 offset" _ 2 0 "be_bytes 2 n @ [b] @ post"]
      read_be_at [of _ "pre @ be_bytes 3 offset @ [0, 0]" _ 2 n "[b] @ post"]; simp add: IpsFill zero)+
  have "?ips ! (length pre + 7) = b" by (simp add: IpsFill nth_append)
  with r ok show ?thesis by (auto simp: ips_record_def IpsFill)
qed

lemma encode_change_starts:
  assumes "change_ok sz c"
  shows "take 3 (encode_change c) \<noteq> ips_eof" "6 \<le> length (encode_change c)"
  using assms by (cases c; auto simp: ips_offset_def Suc_le_eq)+

text \<open>The records of a list of changes, with whatever follows.\<close>

lemma ips_loop_encoded:
  assumes "\<forall>c \<in> set cs. change_ok (length buffer) c" "3 \<le> length post"
  shows "ips_loop (pre @ encode_changes cs @ post) (length pre) buffer
    = ips_loop (pre @ encode_changes cs @ post) (length pre + length (encode_changes cs)) (apply_changes cs buffer)"
  using assms
proof (induction cs arbitrary: pre buffer)
  case Nil
  show ?case by (simp add: encode_changes_def apply_changes_def)
next
  case (Cons c cs)
  let ?ips = "pre @ encode_change c @ encode_changes cs @ post"
  have c: "change_ok (length buffer) c" using Cons.prems by simp
  note st = encode_change_starts [OF c]
  have enc: "encode_changes (c # cs) = encode_change c @ encode_changes cs" by (simp add: encode_changes_def)
  have "take 3 (drop (length pre) ?ips) = take 3 (encode_change c)" using st(2) by simp
  moreover have "length pre < length ?ips - 3" using st(2) Cons.prems(2) by simp
  ultimately have "ips_loop ?ips (length pre) buffer = ips_loop ?ips (length pre + length (encode_change c)) (apply_change c buffer)"
    using st(1) ips_record_encoded [OF c, of pre "encode_changes cs @ post"]
    by (simp add: ips_loop.simps [of ?ips "length pre"] del: take_append drop_append length_append)
  moreover have "\<forall>c' \<in> set cs. change_ok (length (apply_change c buffer)) c'" using Cons.prems(1) c by simp
  ultimately show ?case
    using Cons.IH [of "apply_change c buffer" "pre @ encode_change c"] Cons.prems(2)
    by (simp add: enc apply_changes_def add.assoc)
qed

lemma length_apply_changes:
  "\<forall>c \<in> set cs. change_ok (length buffer) c \<Longrightarrow> length (apply_changes cs buffer) = length buffer"
  by (induction cs arbitrary: buffer) (simp_all add: apply_changes_def)

lemma ApplyIpsPatch_magic: "ApplyIpsPatch (ips_magic @ xs) buffer = ips_loop (ips_magic @ xs) (length ips_magic) buffer"
proof -
  have "length ips_magic = 5" by (simp add: ips_magic_def)
  then show ?thesis by (simp add: ApplyIpsPatch_def)
qed

text \<open>
  C28: A patch of changes the format can express, with its end mark, makes exactly these changes, in order.
  The result is true when nothing follows the end mark, and false otherwise, although the changes are
  made: the code takes an end mark before the last three bytes for an error.
\<close>

theorem ApplyIpsPatch_makes_changes:
  assumes "\<forall>c \<in> set cs. change_ok (length buffer) c"
  shows "ApplyIpsPatch (ips_magic @ encode_changes cs @ ips_eof @ rest) buffer = Some (rest = [], apply_changes cs buffer)"
proof -
  have "3 \<le> length (ips_eof @ rest)" by (simp add: ips_eof_def)
  note loop = ips_loop_encoded [OF assms this, of ips_magic]
  let ?ips = "ips_magic @ encode_changes cs @ ips_eof @ rest" and ?i = "length ips_magic + length (encode_changes cs)"
  have "take 3 (drop ?i ?ips) = ips_eof" by (simp add: ips_eof_def)
  moreover have "?i < length ?ips - 3 \<longleftrightarrow> rest \<noteq> []" by (simp add: ips_eof_def)
  ultimately have "ips_loop ?ips ?i (apply_changes cs buffer) = Some (rest = [], apply_changes cs buffer)"
    by (simp add: ips_loop.simps [of ?ips])
  with loop show ?thesis by (simp add: ApplyIpsPatch_magic)
qed

theorem ApplyIpsPatch_makes_changes_witness:
  "ApplyIpsPatch (ips_magic @ encode_changes [IpsBytes 1 [7, 8], IpsFill 0 2 5] @ ips_eof @ [0, 0, 1]) [1, 2, 3]
    = Some (False, [5, 5, 8])"
proof -
  have "\<forall>c \<in> set [IpsBytes 1 [7, 8], IpsFill 0 2 5]. change_ok (length [1, 2, 3 :: u8]) c"
    by (simp add: ips_offset_def numeral_3_eq_3 ips_eof_def)
  from ApplyIpsPatch_makes_changes [OF this, of "[0, 0, 1]"] show ?thesis
    by (simp add: apply_changes_def overwrite_def numeral_2_eq_2)
qed

text \<open>
  A patch that ends within the bytes of a record, for a range the buffer has, makes the function read
  beyond the patch.
\<close>

theorem ApplyIpsPatch_cut_off_overruns:
  assumes "\<forall>c \<in> set cs. change_ok (length buffer) c" "ips_offset offset" "offset + n \<le> length buffer"
    and "length bs < n" "n < 256 ^ 2"
  shows "ApplyIpsPatch (ips_magic @ encode_changes cs @ be_bytes 3 offset @ be_bytes 2 n @ bs) buffer = None"
proof -
  let ?post = "be_bytes 3 offset @ be_bytes 2 n @ bs"
  let ?ips = "ips_magic @ encode_changes cs @ ?post" and ?pre = "ips_magic @ encode_changes cs"
  have "3 \<le> length ?post" by simp
  note loop = ips_loop_encoded [OF assms(1) this, of ips_magic]
  have len: "length (apply_changes cs buffer) = length buffer" by (rule length_apply_changes [OF assms(1)])
  have r: "read_be ?ips (length ?pre) 3 = Some offset" "read_be ?ips (length ?pre + 3) 2 = Some n"
    using assms(2,5) by (intro read_be_at [of _ ?pre _ 3 offset "be_bytes 2 n @ bs"]
      read_be_at [of _ "?pre @ be_bytes 3 offset" _ 2 n bs]; simp add: ips_offset_def)+
  have "\<not> length (apply_changes cs buffer) < offset + n" "\<not> length ?pre + 5 + n \<le> length ?ips" "n \<noteq> 0"
    using assms(3,4) len by simp_all
  with r have none: "ips_record ?ips (length ?pre) (apply_changes cs buffer) = None"
    by (simp add: ips_record_def del: length_append append_assoc)
  have "take 3 (drop (length ?pre) ?ips) \<noteq> ips_eof" using assms(2) by (simp add: ips_offset_def)
  moreover have "length ?pre < length ?ips - 3" by simp
  ultimately have "ips_loop ?ips (length ?pre) (apply_changes cs buffer) = None"
    using none by (simp add: ips_loop.simps [of ?ips] del: length_append append_assoc)
  with loop show ?thesis by (simp add: ApplyIpsPatch_magic)
qed

theorem ApplyIpsPatch_cut_off_overruns_witness:
  "ApplyIpsPatch (ips_magic @ encode_changes [] @ be_bytes 3 0 @ be_bytes 2 4 @ [9]) [1, 2, 3, 4, 5] = None"
  by (rule ApplyIpsPatch_cut_off_overruns) (simp_all add: ips_offset_def numeral_3_eq_3 ips_eof_def)

end
