(* ===== verification/BpsPatch.thy ===== *)
theory BpsPatch imports Memory begin

text \<open>
  Patches of executable code in the BPS format (the namespace \<open>Bps\<close> and \<open>ApplyBpsPatch\<close> of
  src/core/file_sys/patch.cpp): commands that compose the new file from pieces of the old one, of the
  patch and of itself.

  The outer \<^const>\<open>None\<close> is an access beyond an array, or the value of an empty optional. The checksum of
  the boost library is the parameter \<open>crc\<close>.
\<close>

section \<open>Streams\<close>

definition MagicSize :: nat where "MagicSize = 4"
definition FooterSize :: nat where "FooterSize = 12"

record Stream =
  st_data :: "u8 list"
  st_offset :: nat

text \<open>\<open>Read\<close> of a number of bytes: the bytes and the stream behind them, when they are there.\<close>

definition stream_read :: "nat \<Rightarrow> Stream \<Rightarrow> (u8 list \<times> Stream) option" where
  "stream_read n s =
     (if length (st_data s) < st_offset s + n then None
      else Some (take n (drop (st_offset s) (st_data s)), s\<lparr>st_offset := st_offset s + n\<rparr>))"

text \<open>\<open>CopyFrom\<close>: the two streams behind the bytes copied, or nothing when one is too short.\<close>

definition CopyFrom :: "Stream \<Rightarrow> Stream \<Rightarrow> nat \<Rightarrow> (Stream \<times> Stream) option" where
  "CopyFrom s other n =
     (if length (st_data s) < st_offset s + n then None
      else map_option (\<lambda>(bs, other').
             (s\<lparr>st_data := take (st_offset s) (st_data s) @ bs @ drop (st_offset s + n) (st_data s),
                st_offset := st_offset s + n\<rparr>, other')) (stream_read n other))"

definition Seek :: "nat \<Rightarrow> Stream \<Rightarrow> Stream option" where
  "Seek offset s = (if length (st_data s) < offset then None else Some (s\<lparr>st_offset := offset\<rparr>))"

text \<open>The loop of \<open>ReadNumber\<close>, over the bytes from the offset on: the number and the bytes read.\<close>

fun number_loop :: "u32 \<Rightarrow> u32 \<Rightarrow> u8 list \<Rightarrow> u32 \<times> nat" where
  "number_loop data shift [] = (data, 0)"
| "number_loop data shift (x # xs) =
     (let data1 = data + ucast (x AND 0x7F) * shift
      in if x AND 0x80 \<noteq> 0 then (data1, 1)
         else let shift1 = push_bit 7 shift;
                  (r, n) = number_loop (data1 + shift1) shift1 xs
              in (r, Suc n))"

definition ReadNumber :: "Stream \<Rightarrow> u32 \<times> Stream" where
  "ReadNumber s =
     (let (r, n) = number_loop 0 1 (drop (st_offset s) (st_data s)) in (r, s\<lparr>st_offset := st_offset s + n\<rparr>))"

section \<open>Commands\<close>

record PatchApplier =
  m_source :: Stream
  m_target :: Stream
  m_patch :: Stream
  m_source_relative_offset :: u64
  m_target_relative_offset :: u64

text \<open>\<open>(data & 1 ? -1 : +1) * int(data >> 1)\<close>, added to an offset of 64 bits.\<close>

definition relative :: "u32 \<Rightarrow> u64" where
  "relative data = (if data AND 1 \<noteq> 0 then - ucast (drop_bit 1 data) else ucast (drop_bit 1 data))"

definition SourceRead :: "nat \<Rightarrow> PatchApplier \<Rightarrow> bool \<times> PatchApplier" where
  "SourceRead n a =
     (case Seek (st_offset (m_target a)) (m_source a) of
        None \<Rightarrow> (False, a)
      | Some src \<Rightarrow> (case CopyFrom (m_target a) src n of
            None \<Rightarrow> (False, a\<lparr>m_source := src\<rparr>)
          | Some (tgt, src') \<Rightarrow> (True, a\<lparr>m_target := tgt, m_source := src'\<rparr>)))"

definition TargetRead :: "nat \<Rightarrow> PatchApplier \<Rightarrow> bool \<times> PatchApplier" where
  "TargetRead n a =
     (case CopyFrom (m_target a) (m_patch a) n of
        None \<Rightarrow> (False, a)
      | Some (tgt, p) \<Rightarrow> (True, a\<lparr>m_target := tgt, m_patch := p\<rparr>))"

definition SourceCopy :: "nat \<Rightarrow> PatchApplier \<Rightarrow> bool \<times> PatchApplier" where
  "SourceCopy n a =
     (let (data, p) = ReadNumber (m_patch a);
          a1 = a\<lparr>m_patch := p, m_source_relative_offset := m_source_relative_offset a + relative data\<rparr>
      in case Seek (unat (m_source_relative_offset a1)) (m_source a1) of
           None \<Rightarrow> (False, a1)
         | Some src \<Rightarrow> (case CopyFrom (m_target a1) src n of
               None \<Rightarrow> (False, a1\<lparr>m_source := src\<rparr>)
             | Some (tgt, src') \<Rightarrow> (True, a1\<lparr>m_target := tgt, m_source := src',
                 m_source_relative_offset := m_source_relative_offset a1 + of_nat n\<rparr>)))"

text \<open>The copy within the target, byte by byte: a range may overlap what it writes.\<close>

fun copy_bytes :: "nat \<Rightarrow> nat \<Rightarrow> u64 \<Rightarrow> u8 list \<Rightarrow> (u64 \<times> u8 list) option" where
  "copy_bytes 0 to from xs = Some (from, xs)"
| "copy_bytes (Suc n) to from xs =
     (if unat from < length xs \<and> to < length xs
      then copy_bytes n (Suc to) (from + 1) (xs[to := xs ! unat from]) else None)"

definition TargetCopy :: "nat \<Rightarrow> PatchApplier \<Rightarrow> (bool \<times> PatchApplier) option" where
  "TargetCopy n a =
     (let (data, p) = ReadNumber (m_patch a);
          rel = m_target_relative_offset a + relative data;
          a1 = a\<lparr>m_patch := p, m_target_relative_offset := rel\<rparr>;
          tgt = m_target a1
      in if length (st_data tgt) < st_offset tgt + n then Some (False, a1)
         else if of_nat (length (st_data tgt)) < rel + of_nat n then Some (False, a1)
         else do {
           (rel', xs) \<leftarrow> copy_bytes n (st_offset tgt) rel (st_data tgt);
           Some (True, a1\<lparr>m_target_relative_offset := rel',
             m_target := \<lparr>st_data = xs, st_offset = st_offset tgt + n\<rparr>\<rparr>) })"

definition HandleCommand :: "PatchApplier \<Rightarrow> (bool \<times> PatchApplier) option" where
  "HandleCommand a =
     (let (data, p) = ReadNumber (m_patch a);
          a1 = a\<lparr>m_patch := p\<rparr>;
          command = data AND 3;
          n = unat (drop_bit 2 data + 1)
      in if command = 0 then Some (SourceRead n a1)
         else if command = 1 then Some (TargetRead n a1)
         else if command = 2 then Some (SourceCopy n a1)
         else TargetCopy n a1)"

section \<open>Patches\<close>

text \<open>The loop over the commands, for as many rounds as the patch has bytes.\<close>

fun command_loop :: "nat \<Rightarrow> nat \<Rightarrow> PatchApplier \<Rightarrow> (bool \<times> PatchApplier) option" where
  "command_loop 0 finish a = (if st_offset (m_patch a) < finish then None else Some (True, a))"
| "command_loop (Suc fuel) finish a =
     (if st_offset (m_patch a) < finish
      then do {
        (ok, a1) \<leftarrow> HandleCommand a;
        if ok then command_loop fuel finish a1 else Some (False, a1) }
      else Some (True, a))"

definition bps_magic :: "u8 list" where "bps_magic = [0x42, 0x50, 0x53, 0x31]"

definition seek_or_stay :: "nat \<Rightarrow> Stream \<Rightarrow> Stream" where
  "seek_or_stay offset s = (case Seek offset s of None \<Rightarrow> s | Some s' \<Rightarrow> s')"

definition PatchApplier_Apply :: "(u8 list \<Rightarrow> u32) \<Rightarrow> PatchApplier \<Rightarrow> (bool \<times> PatchApplier) option" where
  "PatchApplier_Apply crc a = do {
     (magic, p0) \<leftarrow> stream_read MagicSize (m_patch a);
     let (source_size, p1) = ReadNumber p0;
     let (target_size, p2) = ReadNumber p1;
     let (metadata_size, p3) = ReadNumber p2;
     if magic \<noteq> bps_magic then Some (False, a\<lparr>m_patch := p0\<rparr>)
     else if length (st_data (m_source a)) < unat source_size \<or> length (st_data (m_target a)) < unat target_size
       \<or> metadata_size \<noteq> 0 then Some (False, a\<lparr>m_patch := p3\<rparr>)
     else do {
       let finish = unat (of_nat (length (st_data p3)) - of_nat FooterSize :: u64);
       (source_crc, p4) \<leftarrow> stream_read 4 (seek_or_stay finish p3);
       (target_crc, p5) \<leftarrow> stream_read 4 p4;
       let p6 = seek_or_stay (st_offset p3) p5;
       if crc (take (unat source_size) (st_data (m_source a))) \<noteq> le_word source_crc
       then Some (False, a\<lparr>m_patch := p6\<rparr>)
       else do {
         let tgt = (m_target a)\<lparr>st_data := replicate (length (st_data (m_target a))) 0\<rparr>;
         (ok, a1) \<leftarrow> command_loop (length (st_data p6)) finish (a\<lparr>m_patch := p6, m_target := tgt\<rparr>);
         Some (ok \<and> crc (take (unat target_size) (st_data (m_target a1))) = le_word target_crc, a1) } } }"

definition resize :: "nat \<Rightarrow> u8 list \<Rightarrow> u8 list" where
  "resize n xs = take n xs @ replicate (n - length xs) 0"

definition ApplyBpsPatch :: "(u8 list \<Rightarrow> u32) \<Rightarrow> u8 list \<Rightarrow> u8 list \<Rightarrow> (bool \<times> u8 list) option" where
  "ApplyBpsPatch crc patch buffer =
     (let s0 = \<lparr>st_data = patch, st_offset = 0\<rparr>;
          (source_size, s1) = ReadNumber (seek_or_stay MagicSize s0);
          (target_size, s2) = ReadNumber s1;
          source = (if source_size < target_size then resize (unat target_size) buffer else buffer)
      in do {
        (ok, a) \<leftarrow> PatchApplier_Apply crc \<lparr>m_source = \<lparr>st_data = source, st_offset = 0\<rparr>,
          m_target = \<lparr>st_data = source, st_offset = 0\<rparr>, m_patch = seek_or_stay 0 s2,
          m_source_relative_offset = 0, m_target_relative_offset = 0\<rparr>;
        Some (ok, st_data (m_target a)) })"

end
