(* ===== verification/BpsFacts.thy ===== *)
theory BpsFacts imports BpsPatch MemoryFacts begin

text \<open>
  What a BPS patch means: the format of its numbers and commands, a reference account of what a list
  of commands composes, and the proof that the code composes just that.
\<close>

section \<open>Numbers\<close>

function encode_number :: "nat \<Rightarrow> u8 list" where
  "encode_number n = (if n < 128 then [of_nat (n + 128)] else of_nat (n mod 128) # encode_number (n div 128 - 1))"
  by pat_completeness auto
termination
proof (relation "measure id")
  fix n :: nat assume "\<not> n < 128"
  then have "n div 128 - 1 < n" by linarith
  then show "(n div 128 - 1, n) \<in> measure id" by simp
qed simp

declare encode_number.simps [simp del]

lemma low_bits:
  assumes "n < 128"
  shows "(of_nat n :: u8) AND 0x80 = 0" "(of_nat n + 128 :: u8) AND 0x80 \<noteq> 0"
    "ucast ((of_nat n :: u8) AND 0x7F) = (of_nat n :: u32)" "ucast ((of_nat n + 128 :: u8) AND 0x7F) = (of_nat n :: u32)"
proof -
  have "\<forall>n < 128. (of_nat n :: u8) AND 0x80 = 0 \<and> (of_nat n + 128 :: u8) AND 0x80 \<noteq> 0
    \<and> ucast ((of_nat n :: u8) AND 0x7F) = (of_nat n :: u32) \<and> ucast ((of_nat n + 128 :: u8) AND 0x7F) = (of_nat n :: u32)"
    by code_simp
  with assms show "(of_nat n :: u8) AND 0x80 = 0" "(of_nat n + 128 :: u8) AND 0x80 \<noteq> 0"
    "ucast ((of_nat n :: u8) AND 0x7F) = (of_nat n :: u32)" "ucast ((of_nat n + 128 :: u8) AND 0x7F) = (of_nat n :: u32)" by blast+
qed

lemma number_loop_encoded:
  "number_loop d s (encode_number n @ rest) = (d + s * of_nat n, length (encode_number n))"
proof (induction n arbitrary: d s rule: encode_number.induct)
  case (1 n)
  show ?case
  proof (cases "n < 128")
    case True
    then show ?thesis by (simp add: encode_number.simps [of n] low_bits(2,4) Let_def)
  next
    case False
    define q r where "q = n div 128 - 1" and "r = n mod 128"
    have n: "n = 128 * Suc q + r" "r < 128" using False by (simp_all add: q_def r_def)
    have "push_bit 7 s = 128 * s" by (simp add: push_bit_eq_mult)
    moreover have "encode_number n = of_nat r # encode_number q" using False by (simp add: encode_number.simps [of n] q_def r_def)
    moreover note 1 [OF False, folded q_def] low_bits(1,3) [OF n(2)]
    moreover have "(of_nat n :: u32) = 128 * of_nat q + 128 + of_nat r" unfolding n(1) by simp
    ultimately show ?thesis by (simp add: Let_def algebra_simps)
  qed
qed

text \<open>The stream is at the bytes \<open>xs\<close>.\<close>

definition at_bytes :: "Stream \<Rightarrow> u8 list \<Rightarrow> bool" where
  "at_bytes s xs \<longleftrightarrow> st_offset s \<le> length (st_data s) \<and> drop (st_offset s) (st_data s) = xs"

lemma at_bytes_length: "at_bytes s xs \<Longrightarrow> length (st_data s) = st_offset s + length xs"
  by (auto simp: at_bytes_def)

lemma at_bytes_skip:
  assumes "at_bytes s (xs @ ys)"
  shows "at_bytes (s\<lparr>st_offset := st_offset s + length xs\<rparr>) ys"
proof -
  have "drop (length xs) (drop (st_offset s) (st_data s)) = ys" using assms by (simp add: at_bytes_def del: drop_drop)
  then show ?thesis using at_bytes_length [OF assms] by (simp add: at_bytes_def add.commute)
qed

lemma ReadNumber_encoded:
  assumes "at_bytes s (encode_number n @ xs)"
  shows "ReadNumber s = (of_nat n, s\<lparr>st_offset := st_offset s + length (encode_number n)\<rparr>)"
    "at_bytes (s\<lparr>st_offset := st_offset s + length (encode_number n)\<rparr>) xs"
  using assms number_loop_encoded [of 0 1 n xs] at_bytes_skip [OF assms] by (simp_all add: ReadNumber_def at_bytes_def)

lemma stream_read_here:
  assumes "at_bytes s (xs @ ys)"
  shows "stream_read (length xs) s = Some (xs, s\<lparr>st_offset := st_offset s + length xs\<rparr>)"
    "at_bytes (s\<lparr>st_offset := st_offset s + length xs\<rparr>) ys"
proof -
  from assms at_bytes_length [OF assms] show "stream_read (length xs) s = Some (xs, s\<lparr>st_offset := st_offset s + length xs\<rparr>)"
    by (simp add: stream_read_def at_bytes_def)
  show "at_bytes (s\<lparr>st_offset := st_offset s + length xs\<rparr>) ys" by (rule at_bytes_skip [OF assms])
qed

section \<open>Commands\<close>

datatype bps_action = BpsSourceRead nat | BpsTargetRead "u8 list" | BpsSourceCopy int nat | BpsTargetCopy int nat

definition encode_delta :: "int \<Rightarrow> u8 list" where
  "encode_delta d = encode_number (2 * nat \<bar>d\<bar> + (if d < 0 then 1 else 0))"

fun encode_action :: "bps_action \<Rightarrow> u8 list" where
  "encode_action (BpsSourceRead n) = encode_number (4 * (n - 1))"
| "encode_action (BpsTargetRead bs) = encode_number (4 * (length bs - 1) + 1) @ bs"
| "encode_action (BpsSourceCopy d n) = encode_number (4 * (n - 1) + 2) @ encode_delta d"
| "encode_action (BpsTargetCopy d n) = encode_number (4 * (n - 1) + 3) @ encode_delta d"

text \<open>What has been composed, and where the next relative copies start from.\<close>

record Composition =
  co_out :: "u8 list"
  co_source :: int
  co_target :: int

fun repeat_from :: "nat \<Rightarrow> nat \<Rightarrow> u8 list \<Rightarrow> u8 list" where
  "repeat_from 0 i out = out"
| "repeat_from (Suc n) i out = repeat_from n (Suc i) (out @ [out ! i])"

fun compose :: "u8 list \<Rightarrow> bps_action \<Rightarrow> Composition \<Rightarrow> Composition" where
  "compose source (BpsSourceRead n) c = c\<lparr>co_out := co_out c @ take n (drop (length (co_out c)) source)\<rparr>"
| "compose source (BpsTargetRead bs) c = c\<lparr>co_out := co_out c @ bs\<rparr>"
| "compose source (BpsSourceCopy d n) c =
     c\<lparr>co_out := co_out c @ take n (drop (nat (co_source c + d)) source), co_source := co_source c + d + int n\<rparr>"
| "compose source (BpsTargetCopy d n) c =
     c\<lparr>co_out := repeat_from n (nat (co_target c + d)) (co_out c), co_target := co_target c + d + int n\<rparr>"

text \<open>A command the format can express, within the source and a target of \<open>m\<close> bytes.\<close>

fun action_ok :: "nat \<Rightarrow> u8 list \<Rightarrow> Composition \<Rightarrow> bps_action \<Rightarrow> bool" where
  "action_ok m source c (BpsSourceRead n) \<longleftrightarrow>
     0 < n \<and> n \<le> 2 ^ 30 \<and> length (co_out c) + n \<le> m \<and> length (co_out c) + n \<le> length source"
| "action_ok m source c (BpsTargetRead bs) \<longleftrightarrow> bs \<noteq> [] \<and> length bs \<le> 2 ^ 30 \<and> length (co_out c) + length bs \<le> m"
| "action_ok m source c (BpsSourceCopy d n) \<longleftrightarrow> 0 < n \<and> n \<le> 2 ^ 30 \<and> \<bar>d\<bar> < 2 ^ 31
     \<and> 0 \<le> co_source c + d \<and> co_source c + d + int n \<le> int (length source) \<and> length (co_out c) + n \<le> m"
| "action_ok m source c (BpsTargetCopy d n) \<longleftrightarrow> 0 < n \<and> n \<le> 2 ^ 30 \<and> \<bar>d\<bar> < 2 ^ 31
     \<and> 0 \<le> co_target c + d \<and> co_target c + d < int (length (co_out c)) \<and> length (co_out c) + n \<le> m"

fun actions_ok :: "nat \<Rightarrow> u8 list \<Rightarrow> Composition \<Rightarrow> bps_action list \<Rightarrow> bool" where
  "actions_ok m source c [] \<longleftrightarrow> True"
| "actions_ok m source c (a # as) \<longleftrightarrow> action_ok m source c a \<and> actions_ok m source (compose source a c) as"

lemma length_repeat_from [simp]: "length (repeat_from n i out) = length out + n"
  by (induction n arbitrary: i out) simp_all

section \<open>The code composes it\<close>

definition composing :: "nat \<Rightarrow> u8 list \<Rightarrow> Composition \<Rightarrow> PatchApplier \<Rightarrow> bool" where
  "composing m source c a \<longleftrightarrow> m < 2 ^ 32 \<and> length (co_out c) \<le> m
     \<and> (\<exists>pad. st_data (m_source a) = source @ pad) \<and> length (st_data (m_source a)) < 2 ^ 32
     \<and> st_data (m_target a) = co_out c @ replicate (m - length (co_out c)) 0
     \<and> st_offset (m_target a) = length (co_out c)
     \<and> m_source_relative_offset a = of_int (co_source c) \<and> m_target_relative_offset a = of_int (co_target c)"

lemma unat_of_nat_small: "n < 2 ^ 64 \<Longrightarrow> unat (of_nat n :: u64) = n"
  by (simp add: unat_of_nat take_bit_nat_eq_self)

lemma unat_of_int_u64: "0 \<le> i \<Longrightarrow> i < 2 ^ 64 \<Longrightarrow> unat (of_int i :: u64) = nat i"
  using unat_of_nat_small [of "nat i"] by simp

lemma relative_delta:
  assumes "\<bar>d\<bar> < 2 ^ 31"
  shows "relative (of_nat (2 * nat \<bar>d\<bar> + (if d < 0 then 1 else 0))) = of_int d"
proof -
  define k where "k = nat \<bar>d\<bar>"
  have k: "k < 2 ^ 31" using assms by (simp add: k_def)
  have u: "unat (of_nat (2 * k) :: u32) = 2 * k" "unat (of_nat (2 * k + 1) :: u32) = 2 * k + 1" using k by (simp_all del: of_nat_add of_nat_mult of_nat_Suc)
  have odd: "(w AND 1 \<noteq> 0) = odd (unat w)" for w :: u32 
    by (simp add: word_unat_eq_iff and_one_eq unat_mod odd_iff_mod_2_eq_one)
  have half: "ucast (drop_bit 1 w) = (of_nat (unat w div 2) :: u64)" for w :: u32
  proof -
    have "unat (drop_bit 1 w) = unat w div 2" by (simp add: drop_bit_eq_div unat_div)
    moreover have "of_nat (unat (drop_bit 1 w)) = (ucast (drop_bit 1 w) :: u64)" by (rule of_nat_unat)
    ultimately show ?thesis by metis
  qed
  show ?thesis
  proof (cases "d < 0")
    case True
    then have "of_int d = - (of_nat k :: u64)" by (simp add: k_def)
    with u(2) odd [of "of_nat (2 * k + 1)"] half [of "of_nat (2 * k + 1)"] have "relative (of_nat (2 * k + 1)) = of_int d"
      by (simp add: relative_def)
    with True show ?thesis by (simp only: k_def if_True)
  next
    case False
    then have "of_int d = (of_nat k :: u64)" by (simp add: k_def)
    with u(1) odd [of "of_nat (2 * k)"] half [of "of_nat (2 * k)"] have "relative (of_nat (2 * k)) = of_int d"
      by (simp add: relative_def)
    with False show ?thesis by (simp only: k_def if_False add_0_right)
  qed
qed

lemma command_fields:
  assumes "0 < n" "n \<le> 2 ^ 30" "t < 4"
  shows "of_nat (4 * (n - 1) + t) AND (3 :: u32) = of_nat t" "unat (drop_bit 2 (of_nat (4 * (n - 1) + t) :: u32) + 1) = n"
proof -
  define x where "x = 4 * (n - 1) + t"
  have "x < 2 ^ 32" using assms by (simp add: x_def)
  then have u: "unat (of_nat x :: u32) = x" by simp
  have x: "x mod 4 = t" "x div 4 = n - 1" using assms(3) by (simp_all add: x_def)
  have "of_nat x AND (3 :: u32) = take_bit 2 (of_nat x)" by (simp add: take_bit_eq_mask mask_eq_exp_minus_1)
  then have "unat (of_nat x AND (3 :: u32)) = unat (of_nat t :: u32)"
    using u x(1) assms(3) by (simp add: take_bit_eq_mod unat_mod)
  then show "of_nat (4 * (n - 1) + t) AND (3 :: u32) = of_nat t" unfolding x_def [symmetric] by (simp only: word_unat_eq_iff)
  have "unat (drop_bit 2 (of_nat x :: u32)) = n - 1" using u x(2) by (simp add: drop_bit_eq_div unat_div)
  then have "unat (drop_bit 2 (of_nat x :: u32) + 1) = n" using assms(1,2) by (subst unat_plus_no_wrap_u32) simp_all
  then show "unat (drop_bit 2 (of_nat (4 * (n - 1) + t) :: u32) + 1) = n" unfolding x_def .
qed

definition target_stream :: "nat \<Rightarrow> u8 list \<Rightarrow> Stream" where
  "target_stream m out = \<lparr>st_data = out @ replicate (m - length out) 0, st_offset = length out\<rparr>"

lemma CopyFrom_target:
  assumes "at_bytes s (bs @ ys)" "length out + length bs \<le> m"
  shows "CopyFrom (target_stream m out) s (length bs) = Some (target_stream m (out @ bs), s\<lparr>st_offset := st_offset s + length bs\<rparr>)"
  using assms stream_read_here [OF assms(1)] by (simp add: CopyFrom_def target_stream_def)

lemma Seek_source:
  assumes "st_data s = source @ pad" "i + n \<le> length source"
  shows "Seek i s = Some (s\<lparr>st_offset := i\<rparr>)"
    "at_bytes (s\<lparr>st_offset := i\<rparr>) (take n (drop i source) @ drop (i + n) source @ pad)"
proof -
  show "Seek i s = Some (s\<lparr>st_offset := i\<rparr>)" using assms by (simp add: Seek_def)
  have "take n (drop i source) @ drop (i + n) source = drop i source"
    by (metis add.commute append_take_drop_id drop_drop)
  then have "take n (drop i source) @ drop (i + n) source @ pad = drop i source @ pad" by (metis append_assoc)
  with assms show "at_bytes (s\<lparr>st_offset := i\<rparr>) (take n (drop i source) @ drop (i + n) source @ pad)"
    by (simp add: at_bytes_def)
qed

lemma copy_bytes_target:
  assumes "unat from < length out" "length out + n \<le> m" "m < 2 ^ 32"
  shows "copy_bytes n (length out) from (out @ replicate (m - length out) 0)
    = Some (from + of_nat n, repeat_from n (unat from) out @ replicate (m - (length out + n)) 0)"
  using assms
proof (induction n arbitrary: out "from")
  case (Suc n)
  let ?xs = "out @ replicate (m - length out) 0"
  have k: "m - length out = Suc (m - Suc (length out))" using Suc.prems by simp
  have upd: "?xs[length out := ?xs ! unat from] = (out @ [out ! unat from]) @ replicate (m - length (out @ [out ! unat from])) 0"
    using Suc.prems by (simp add: nth_append k list_update_append)
  have "unat (from + 1) = (unat from + 1) mod 2 ^ 64" by (simp add: unat_word_ariths)
  then have "unat (from + 1) = unat from + 1" using Suc.prems by simp
  then show ?case
    using Suc.IH [of "from + 1" "out @ [out ! unat from]"] Suc.prems upd
    by (simp add: add.assoc)
qed simp

lemma HandleCommand_encoded:
  assumes inv: "composing m source c a" and ok: "action_ok m source c act"
    and here: "at_bytes (m_patch a) (encode_action act @ ys)"
  shows "\<exists>a'. HandleCommand a = Some (True, a') \<and> composing m source (compose source act c) a'
    \<and> m_patch a' = (m_patch a)\<lparr>st_offset := st_offset (m_patch a) + length (encode_action act)\<rparr>"
proof -
  let ?p = "m_patch a" and ?out = "co_out c"
  obtain pad where i: "m < 2 ^ 32" "length ?out \<le> m" "st_data (m_source a) = source @ pad" "length (st_data (m_source a)) < 2 ^ 32"
    "m_target a = target_stream m ?out"
    "m_source_relative_offset a = of_int (co_source c)" "m_target_relative_offset a = of_int (co_target c)"
    using inv by (auto simp: composing_def target_stream_def)
  show ?thesis
  proof (cases act)
    case (BpsSourceRead n)
    note f = command_fields [of n 0]
    note r = ReadNumber_encoded [of ?p "4 * (n - 1)" ys]
    have n: "0 < n" "n \<le> 2 ^ 30" "length ?out + n \<le> m" "length ?out + n \<le> length source" using ok BpsSourceRead by simp_all
    note sk = Seek_source [OF i(3) n(4)]
    have len: "length (take n (drop (length ?out) source)) = n" using n by simp
    note cp = CopyFrom_target [OF sk(2), of ?out m, unfolded len, OF n(3)]
    have off: "st_offset (target_stream m ?out) = length ?out" by (simp add: target_stream_def)
    from f r here n sk cp i show ?thesis
      by (simp add: HandleCommand_def BpsSourceRead Let_def SourceRead_def off composing_def)
        (simp add: target_stream_def)
  next
    case (BpsTargetRead bs)
    note f = command_fields [of "length bs" 1]
    note r = ReadNumber_encoded [of ?p "4 * (length bs - 1) + 1" "bs @ ys"]
    have n: "0 < length bs" "length bs \<le> 2 ^ 30" "length ?out + length bs \<le> m" using ok BpsTargetRead by simp_all
    have "at_bytes ?p (encode_number (4 * (length bs - 1) + 1) @ bs @ ys)" using here BpsTargetRead by simp
    note r = r [OF this]
    note cp = CopyFrom_target [OF r(2) n(3)]
    from f r(1) n cp i show ?thesis
      by (simp add: HandleCommand_def BpsTargetRead Let_def TargetRead_def composing_def)
        (simp add: target_stream_def)
  next
    case (BpsSourceCopy d n)
    note f = command_fields [of n 2]
    let ?e = "encode_number (4 * (n - 1) + 2)" and ?s = "co_source c + d"
    have n: "0 < n" "n \<le> 2 ^ 30" "length ?out + n \<le> m" "\<bar>d\<bar> < 2 ^ 31" "0 \<le> ?s" "?s + int n \<le> int (length source)"
      using ok BpsSourceCopy by simp_all
    have "at_bytes ?p (?e @ encode_delta d @ ys)" using here BpsSourceCopy by simp
    note r = ReadNumber_encoded [OF this]
    note r2 = ReadNumber_encoded [OF r(2) [unfolded encode_delta_def]]
    have s: "nat ?s + n \<le> length source" using n by simp
    have "unat (of_int ?s :: u64) = nat ?s" by (rule unat_of_int_u64) (use n i(3,4) in simp_all)
    note u = this
    note sk = Seek_source [OF i(3) s]
    have len: "length (take n (drop (nat ?s) source)) = n" using s by simp
    note cp = CopyFrom_target [OF sk(2), of ?out m, unfolded len, OF n(3)]
    from f r(1) r2(1) n(1,2,3,5) sk(1) cp i u relative_delta [OF n(4)] show ?thesis
      by (simp add: HandleCommand_def BpsSourceCopy Let_def SourceCopy_def composing_def encode_delta_def)
        (simp add: target_stream_def min_def)
  next
    case (BpsTargetCopy d n)
    note f = command_fields [of n 3]
    let ?e = "encode_number (4 * (n - 1) + 3)" and ?s = "co_target c + d"
    have n: "0 < n" "n \<le> 2 ^ 30" "length ?out + n \<le> m" "\<bar>d\<bar> < 2 ^ 31" "0 \<le> ?s" "?s < int (length ?out)"
      using ok BpsTargetCopy by simp_all
    have "at_bytes ?p (?e @ encode_delta d @ ys)" using here BpsTargetCopy by simp
    note r = ReadNumber_encoded [OF this]
    note r2 = ReadNumber_encoded [OF r(2) [unfolded encode_delta_def]]
    have s: "unat (of_int ?s :: u64) = nat ?s" "unat (of_int ?s + of_nat n :: u64) = nat ?s + n"
    proof -
      show "unat (of_int ?s :: u64) = nat ?s" by (rule unat_of_int_u64) (use n i(1,2) in simp_all)
      have "of_int ?s + of_nat n = (of_int (?s + int n) :: u64)" by simp
      moreover have "unat (of_int (?s + int n) :: u64) = nat (?s + int n)" by (rule unat_of_int_u64) (use n i(1,2) in simp_all)
      ultimately show "unat (of_int ?s + of_nat n :: u64) = nat ?s + n" using n(5) by (simp only: nat_add_distrib of_nat_0_le_iff nat_int)
    qed
    note cp = copy_bytes_target [of "of_int ?s" ?out n m, unfolded s(1), OF _ n(3) i(1)]
    have "unat (of_nat m :: u64) = m" using i(1) by (simp add: unat_of_nat_small)
    then have "\<not> of_nat m < (of_int ?s + of_nat n :: u64)" using s(2) n by (simp add: word_less_nat_alt)
    moreover have "nat ?s < length ?out" using n by simp
    moreover have "length (st_data (target_stream m ?out)) = m" "st_offset (target_stream m ?out) = length ?out"
      using i(2) by (simp_all add: target_stream_def)
    moreover note f r(1) r2(1) n(1,2,3,5) cp i relative_delta [OF n(4)]
    ultimately show ?thesis
      by (simp add: HandleCommand_def BpsTargetCopy Let_def TargetCopy_def composing_def encode_delta_def)
        (simp add: target_stream_def)
  qed
qed

lemma encode_number_nonempty: "encode_number n \<noteq> []"
  by (simp add: encode_number.simps [of n])

lemma encode_action_nonempty: "encode_action act \<noteq> []"
  by (cases act) (simp_all add: encode_number_nonempty)

definition encode_actions :: "bps_action list \<Rightarrow> u8 list" where
  "encode_actions acts = concat (map encode_action acts)"

lemma length_encode_actions: "length acts \<le> length (encode_actions acts)"
proof (induction acts)
  case (Cons act acts)
  moreover have "0 < length (encode_action act)" using encode_action_nonempty by simp
  moreover have "length (encode_actions (act # acts)) = length (encode_action act) + length (encode_actions acts)"
    by (simp add: encode_actions_def)
  ultimately show ?case by (simp only: list.size)
qed (simp add: encode_actions_def)

text \<open>All commands, one after the other: a round per byte of the patch is enough.\<close>

lemma command_loop_encoded:
  assumes "composing m source c a" "actions_ok m source c acts" "at_bytes (m_patch a) (encode_actions acts @ ys)"
    and "finish = st_offset (m_patch a) + length (encode_actions acts)" "length acts \<le> fuel"
  shows "\<exists>a'. command_loop fuel finish a = Some (True, a') \<and> composing m source (fold (compose source) acts c) a'"
  using assms
proof (induction acts arbitrary: c a fuel)
  case Nil
  then show ?case by (cases fuel) (simp_all add: encode_actions_def)
next
  case (Cons act acts)
  have enc: "encode_actions (act # acts) = encode_action act @ encode_actions acts" by (simp add: encode_actions_def)
  obtain fuel' where fuel: "fuel = Suc fuel'" using Cons.prems(5) by (cases fuel) simp_all
  have ok: "action_ok m source c act" "actions_ok m source (compose source act c) acts" using Cons.prems(2) by simp_all
  have here: "at_bytes (m_patch a) (encode_action act @ encode_actions acts @ ys)" using Cons.prems(3) by (simp add: enc)
  obtain a1 where one: "HandleCommand a = Some (True, a1)" "composing m source (compose source act c) a1"
    "m_patch a1 = (m_patch a)\<lparr>st_offset := st_offset (m_patch a) + length (encode_action act)\<rparr>"
    using HandleCommand_encoded [OF Cons.prems(1) ok(1) here] by blast
  have "at_bytes (m_patch a1) (encode_actions acts @ ys)" unfolding one(3) by (rule at_bytes_skip [OF here])
  moreover have "finish = st_offset (m_patch a1) + length (encode_actions acts)" using Cons.prems(4) one(3) by (simp add: enc)
  ultimately obtain a' where "command_loop fuel' finish a1 = Some (True, a')"
    "composing m source (fold (compose source) acts (compose source act c)) a'"
    using Cons.IH [OF one(2) ok(2), of fuel'] Cons.prems(5) fuel by auto
  moreover have "st_offset (m_patch a) < finish"
    using Cons.prems(4) encode_action_nonempty [of act] by (simp add: enc)
  ultimately show ?case using one(1) fuel by simp
qed

section \<open>Whole patches\<close>

definition bps_patch :: "nat \<Rightarrow> nat \<Rightarrow> bps_action list \<Rightarrow> u32 \<Rightarrow> u32 \<Rightarrow> u32 \<Rightarrow> u8 list" where
  "bps_patch ssize tsize acts source_crc target_crc patch_crc =
     bps_magic @ encode_number ssize @ encode_number tsize @ encode_number 0 @ encode_actions acts
       @ le_bytes 4 source_crc @ le_bytes 4 target_crc @ le_bytes 4 patch_crc"

definition compose_all :: "u8 list \<Rightarrow> bps_action list \<Rightarrow> u8 list" where
  "compose_all source acts = co_out (fold (compose source) acts \<lparr>co_out = [], co_source = 0, co_target = 0\<rparr>)"

definition patch_ok :: "u8 list \<Rightarrow> bps_action list \<Rightarrow> bool" where
  "patch_ok source acts \<longleftrightarrow> length source < 2 ^ 32 \<and> length (compose_all source acts) < 2 ^ 32
     \<and> actions_ok (max (length source) (length (compose_all source acts))) source
         \<lparr>co_out = [], co_source = 0, co_target = 0\<rparr> acts"

definition padded :: "nat \<Rightarrow> u8 list \<Rightarrow> u8 list" where
  "padded m xs = xs @ replicate (m - length xs) 0"

lemma at_bytes_start: "at_bytes \<lparr>st_data = xs, st_offset = 0\<rparr> xs"
  by (simp add: at_bytes_def)

lemma at_bytes_seek: "st_data s = xs @ ys \<Longrightarrow> seek_or_stay (length xs) s = s\<lparr>st_offset := length xs\<rparr>"
  "st_data s = xs @ ys \<Longrightarrow> at_bytes (s\<lparr>st_offset := length xs\<rparr>) ys"
  by (simp_all add: seek_or_stay_def Seek_def at_bytes_def)

lemma PatchApplier_Apply_encoded:
  fixes source :: "u8 list" and acts
  defines "out \<equiv> compose_all source acts"
  assumes ok: "patch_ok source acts" and p: "p = bps_patch (length source) (length out) acts sc tc pc" "length p < 2 ^ 64"
    and a: "m_source a = \<lparr>st_data = padded (max (length source) (length out)) source, st_offset = 0\<rparr>"
      "st_data (m_target a) = padded (max (length source) (length out)) source" "st_offset (m_target a) = 0"
      "m_patch a = \<lparr>st_data = p, st_offset = 0\<rparr>" "m_source_relative_offset a = 0" "m_target_relative_offset a = 0"
  shows "\<exists>a'. PatchApplier_Apply crc a = Some (sc = crc source \<and> tc = crc out, a')
    \<and> st_data (m_target a') = (if sc = crc source then padded (max (length source) (length out)) out
        else padded (max (length source) (length out)) source)"
proof -
  let ?m = "max (length source) (length out)" and ?c0 = "\<lparr>co_out = [], co_source = 0, co_target = 0\<rparr>"
  have b: "length source < 2 ^ 32" "length out < 2 ^ 32" "actions_ok ?m source ?c0 acts"
    using ok by (simp_all add: patch_ok_def out_def)
  let ?foot = "le_bytes 4 sc @ le_bytes 4 tc @ le_bytes 4 pc"
  let ?pre = "bps_magic @ encode_number (length source) @ encode_number (length out) @ encode_number 0"
  let ?s = "\<lambda>i. \<lparr>st_data = p, st_offset = i\<rparr>"
  have split: "p = ?pre @ encode_actions acts @ ?foot" by (simp add: p(1) bps_patch_def)
  have at: "at_bytes (?s (length xs)) ys" if "p = xs @ ys" for xs ys using that by (simp add: at_bytes_def)
  have l4: "length bps_magic = 4" by (simp add: bps_magic_def)
  have mg: "stream_read MagicSize (?s 0) = Some (bps_magic, ?s 4)"
    using stream_read_here(1) [OF at_bytes_start [of p, unfolded split, simplified append_assoc]]
    by (simp add: MagicSize_def l4 split)
  let ?n1 = "length (encode_number (length source))" and ?n2 = "length (encode_number (length out))"
  let ?n3 = "length (encode_number 0)"
  have r: "ReadNumber (?s 4) = (of_nat (length source), ?s (4 + ?n1))"
    "ReadNumber (?s (4 + ?n1)) = (of_nat (length out), ?s (4 + ?n1 + ?n2))"
    "ReadNumber (?s (4 + ?n1 + ?n2)) = (0, ?s (4 + ?n1 + ?n2 + ?n3))"
    using ReadNumber_encoded(1) [OF at [of bps_magic "encode_number (length source) @ encode_number (length out) @ encode_number 0 @ encode_actions acts @ ?foot"]]
      ReadNumber_encoded(1) [OF at [of "bps_magic @ encode_number (length source)" "encode_number (length out) @ encode_number 0 @ encode_actions acts @ ?foot"]]
      ReadNumber_encoded(1) [OF at [of "bps_magic @ encode_number (length source) @ encode_number (length out)" "encode_number 0 @ encode_actions acts @ ?foot"]]
    by (simp_all add: split l4 add.assoc)
  let ?i = "4 + ?n1 + ?n2 + ?n3"
  have lp: "length p = ?i + length (encode_actions acts) + 12" by (simp add: split l4)
  have fin: "unat (of_nat (length p) - of_nat FooterSize :: u64) = ?i + length (encode_actions acts)"
  proof -
    have "of_nat (length p) - of_nat FooterSize = (of_nat (?i + length (encode_actions acts)) :: u64)" by (simp add: lp FooterSize_def)
    then show ?thesis using p(2) lp by (simp only:) (rule unat_of_nat_small, simp)
  qed
  let ?j = "?i + length (encode_actions acts)"
  have pre: "length (?pre @ encode_actions acts) = ?j" "length ?pre = ?i" by (simp_all add: l4)
  have sk: "seek_or_stay ?j (?s ?i) = ?s ?j" "seek_or_stay ?i (?s (?j + 8)) = ?s ?i"
    by (simp_all add: seek_or_stay_def Seek_def lp)
  have crcs: "stream_read 4 (?s ?j) = Some (le_bytes 4 sc, ?s (?j + 4))" "stream_read 4 (?s (?j + 4)) = Some (le_bytes 4 tc, ?s (?j + 8))"
    using stream_read_here(1) [OF at [of "?pre @ encode_actions acts" ?foot]]
      stream_read_here(1) [OF at [of "?pre @ encode_actions acts @ le_bytes 4 sc" "le_bytes 4 tc @ le_bytes 4 pc"]]
    by (simp_all add: split l4 add.assoc)
  have words: "le_word (le_bytes 4 sc) = sc" "le_word (le_bytes 4 tc) = tc" by (rule le_word_le_bytes; simp)+
  have sizes: "unat (of_nat (length source) :: u32) = length source" "unat (of_nat (length out) :: u32) = length out"
    using b by simp_all
  have len: "length (padded ?m source) = ?m" "take (length source) (padded ?m source) = source"
    by (simp_all add: padded_def)
  let ?a = "a\<lparr>m_patch := ?s ?i, m_target := (m_target a)\<lparr>st_data := replicate (length (st_data (m_target a))) 0\<rparr>\<rparr>"
  have "composing ?m source ?c0 ?a" using a b(1,2) by (auto simp: composing_def padded_def)
  moreover have "at_bytes (m_patch ?a) (encode_actions acts @ ?foot)" using at [of ?pre "encode_actions acts @ ?foot"] split l4 by (simp add: add.assoc)
  moreover have "length acts \<le> length p" using length_encode_actions [of acts] lp by simp
  moreover have "?j = st_offset (m_patch ?a) + length (encode_actions acts)" by simp
  ultimately obtain a' where run: "command_loop (length p) ?j ?a = Some (True, a')"
    "composing ?m source (fold (compose source) acts ?c0) a'"
    using command_loop_encoded [OF _ b(3), of ?a ?foot ?j "length p"] by blast
  have tgt: "st_data (m_target a') = padded ?m out" using run(2) by (simp add: composing_def out_def compose_all_def padded_def)
  have hd: "PatchApplier_Apply crc a = (if sc \<noteq> crc source then Some (False, a\<lparr>m_patch := ?s ?i\<rparr>)
      else command_loop (length p) ?j ?a \<bind> (\<lambda>(ok, a1). Some (ok \<and> crc (take (length out) (st_data (m_target a1))) = tc, a1)))"
    unfolding PatchApplier_Apply_def a(4) mg bind.bind_lunit prod.case r Let_def Stream.select_convs fin sk crcs words sizes
    by (simp add: a(1,2) len)
  have "take (length out) (padded ?m out) = out" by (simp add: padded_def)
  with run tgt hd a(2) show ?thesis by auto
qed

text \<open>
  C29: A BPS patch of commands within their bounds, for a file of the size it names: when the checksum of
  the file is the one named, the buffer becomes what the commands compose, followed by zeros when the
  file was longer, and the result says whether its checksum is the one named. Otherwise the buffer is
  only made long enough.
\<close>

theorem ApplyBpsPatch_composes:
  assumes "patch_ok source acts" "p = bps_patch (length source) (length (compose_all source acts)) acts sc tc pc" "length p < 2 ^ 64"
  shows "ApplyBpsPatch crc p source = Some (sc = crc source \<and> tc = crc (compose_all source acts),
    padded (max (length source) (length (compose_all source acts))) (if sc = crc source then compose_all source acts else source))"
proof -
  let ?out = "compose_all source acts"
  let ?m = "max (length source) (length ?out)"
  let ?rest = "encode_number 0 @ encode_actions acts @ le_bytes 4 sc @ le_bytes 4 tc @ le_bytes 4 pc"
  have b: "length source < 2 ^ 32" "length ?out < 2 ^ 32" using assms(1) by (simp_all add: patch_ok_def)
  have split: "p = bps_magic @ encode_number (length source) @ encode_number (length ?out) @ ?rest"
    using assms(2) by (simp add: bps_patch_def)
  have l4: "length bps_magic = MagicSize" by (simp add: bps_magic_def MagicSize_def)
  let ?s = "\<lambda>i. \<lparr>st_data = p, st_offset = i\<rparr>"
  have sk: "seek_or_stay MagicSize (?s 0) = ?s MagicSize" "seek_or_stay 0 (?s i) = ?s 0" for i
    using l4 by (simp_all add: seek_or_stay_def Seek_def split)
  have at: "at_bytes (?s (length xs)) ys" if "p = xs @ ys" for xs ys using that by (simp add: at_bytes_def)
  have r: "ReadNumber (?s MagicSize) = (of_nat (length source), ?s (MagicSize + length (encode_number (length source))))"
    "ReadNumber (?s (MagicSize + length (encode_number (length source)))) =
       (of_nat (length ?out), ?s (MagicSize + length (encode_number (length source)) + length (encode_number (length ?out))))"
    using ReadNumber_encoded(1) [OF at [of bps_magic "encode_number (length source) @ encode_number (length ?out) @ ?rest"]]
      ReadNumber_encoded(1) [OF at [of "bps_magic @ encode_number (length source)" "encode_number (length ?out) @ ?rest"]]
    by (simp_all add: split l4)
  have grown: "(if (of_nat (length source) :: u32) < of_nat (length ?out) then resize (unat (of_nat (length ?out) :: u32)) source else source)
      = padded ?m source"
    using b by (simp add: word_less_nat_alt resize_def padded_def max_def)
  let ?a = "\<lparr>m_source = \<lparr>st_data = padded ?m source, st_offset = 0\<rparr>, m_target = \<lparr>st_data = padded ?m source, st_offset = 0\<rparr>,
    m_patch = ?s 0, m_source_relative_offset = 0, m_target_relative_offset = 0\<rparr>"
  obtain a' where "PatchApplier_Apply crc ?a = Some (sc = crc source \<and> tc = crc ?out, a')"
    "st_data (m_target a') = (if sc = crc source then padded ?m ?out else padded ?m source)"
    using PatchApplier_Apply_encoded [OF assms, of ?a crc] by auto
  then show ?thesis
    unfolding ApplyBpsPatch_def Let_def sk r prod.case grown by simp
qed

definition sample_source :: "u8 list" where "sample_source = [1, 2, 3]"

definition sample_actions :: "bps_action list" where
  "sample_actions = [BpsSourceCopy 1 2, BpsTargetRead [9], BpsTargetCopy 1 3]"

lemma sample_compose: "compose_all sample_source sample_actions = [2, 3, 9, 3, 9, 3]"
  by (simp add: compose_all_def sample_source_def sample_actions_def numeral_3_eq_3)

theorem ApplyBpsPatch_composes_witness:
  "ApplyBpsPatch (\<lambda>bs. of_nat (length bs)) (bps_patch 3 6 sample_actions 3 6 0) sample_source = Some (True, [2, 3, 9, 3, 9, 3])"
proof -
  have ok: "patch_ok sample_source sample_actions"
    unfolding patch_ok_def sample_compose by (simp add: sample_source_def sample_actions_def)
  have len: "length sample_source = 3" "length (compose_all sample_source sample_actions) = 6"
    by (simp_all add: sample_compose) (simp add: sample_source_def)
  have "length (bps_patch (length sample_source) (length (compose_all sample_source sample_actions)) sample_actions 3 6 0) < 2 ^ 64"
    by (simp add: len) (simp add: bps_patch_def bps_magic_def encode_actions_def sample_actions_def encode_delta_def encode_number.simps)
  from ApplyBpsPatch_composes [OF ok refl this, of "\<lambda>bs. of_nat (length bs)", unfolded len] show ?thesis
    by (simp add: len sample_compose padded_def)
qed

text \<open>
  A command that copies within the target and moves the offset it copies from back before the start
  passes both tests of its bounds when it is at least that long, because their sum wraps, and reads
  before the start of the target.
\<close>

theorem TargetCopy_reads_before_start:
  assumes "at_bytes (m_patch a) (encode_action (BpsTargetCopy (- int k) n) @ ys)" "m_target_relative_offset a = 0"
    and "0 < k" "k \<le> n" "n \<le> 2 ^ 30" "st_offset (m_target a) + n \<le> length (st_data (m_target a))"
    and "length (st_data (m_target a)) < 2 ^ 32"
  shows "HandleCommand a = None"
proof -
  let ?tgt = "m_target a"
  note f = command_fields [of n 3]
  have "at_bytes (m_patch a) (encode_number (4 * (n - 1) + 3) @ encode_delta (- int k) @ ys)" using assms(1) by simp
  note r = ReadNumber_encoded [OF this]
  note r2 = ReadNumber_encoded [OF r(2) [unfolded encode_delta_def]]
  have "\<bar>- int k\<bar> < 2 ^ 31" using assms(4,5) by simp
  note rel = relative_delta [OF this]
  have "of_int (- int k) + of_nat n = (of_nat (n - k) :: u64)" using assms(4) by (simp add: of_nat_diff)
  then have sum: "unat (of_int (- int k) + of_nat n :: u64) = n - k"
    using assms(5) unat_of_nat_small [of "n - k"] by simp
  have "unat (of_nat (length (st_data ?tgt)) :: u64) = length (st_data ?tgt)" using assms(7) by (intro unat_of_nat_small) simp
  then have test: "\<not> of_nat (length (st_data ?tgt)) < (of_int (- int k) + of_nat n :: u64)"
    using sum assms(6) by (simp add: word_less_nat_alt)
  have "of_int (- int k) = (of_nat (2 ^ 64 - k) :: u64)" using assms(4,5) by (simp add: of_nat_diff)
  then have "unat (of_int (- int k) :: u64) = 2 ^ 64 - k" using assms(3) unat_of_nat_small [of "2 ^ 64 - k"] by simp
  then have far: "\<not> unat (of_int (- int k) :: u64) < length (st_data ?tgt)" using assms(4,5,7) by simp
  obtain n' where n': "n = Suc n'" using assms(3,4) by (cases n) simp_all
  have none: "copy_bytes n (st_offset ?tgt) (of_int (- int k)) (st_data ?tgt) = None"
    using far by (simp only: n' copy_bytes.simps) simp
  from f r(1) r2(1) rel test none assms(2-6) show ?thesis
    by (simp add: HandleCommand_def Let_def TargetCopy_def encode_delta_def not_less)
qed

theorem TargetCopy_reads_before_start_witness:
  "HandleCommand \<lparr>m_source = \<lparr>st_data = [], st_offset = 0\<rparr>, m_target = \<lparr>st_data = [0, 0, 0], st_offset = 0\<rparr>,
     m_patch = \<lparr>st_data = encode_action (BpsTargetCopy (- 1) 2), st_offset = 0\<rparr>,
     m_source_relative_offset = 0, m_target_relative_offset = 0\<rparr> = None"
  by (rule TargetCopy_reads_before_start [of _ 1 2 "[]"]) (simp_all add: at_bytes_def)

end
