(* ===== verification/Lzss.thy ===== *)
theory Lzss imports MemoryFacts begin

text \<open>
  The decompression of executable files (\<open>LZSS_Decompress\<close> of src/core/file_sys/ncch_container.cpp).
  Both buffers are walked from the end to the start: \<open>index\<close> is the end of what is left to read,
  \<open>out\<close> that of what is left to write.

  The outer \<^const>\<open>None\<close> is an access beyond a buffer: every byte is read and written through
  \<open>byte_from\<close> and \<open>byte_to\<close>. The loops keep \<open>index\<close> and \<open>out\<close> as natural numbers; taking more from one
  than it holds (\<open>down\<close>), which on 64 bits gives an index beyond any buffer, is \<^const>\<open>None\<close> too. The two
  differences at the start, which may wrap, are computed on 64 bits.
\<close>

section \<open>The code\<close>

definition byte_from :: "u8 list \<Rightarrow> nat \<Rightarrow> u8 option" where
  "byte_from xs i = (if i < length xs then Some (xs ! i) else None)"

definition byte_to :: "u8 list \<Rightarrow> nat \<Rightarrow> u8 \<Rightarrow> u8 list option" where
  "byte_to xs i b = (if i < length xs then Some (xs[i := b]) else None)"

definition down :: "nat \<Rightarrow> nat \<Rightarrow> nat option" where
  "down k n = (if k \<le> n then Some (n - k) else None)"

definition word_from :: "u8 list \<Rightarrow> nat \<Rightarrow> u32 option" where
  "word_from xs i = (if i + 4 \<le> length xs then Some (le_word (take 4 (drop i xs))) else None)"

definition LZSS_GetDecompressedSize :: "u8 list \<Rightarrow> nat option" where
  "LZSS_GetDecompressedSize buffer =
     (if length buffer < 4 then None
      else map_option (\<lambda>w. unat w + length buffer) (word_from buffer (length buffer - 4)))"

text \<open>A segment of bytes that are already written: whether it stays within the buffer, and what is left to write.\<close>

fun copy_segment :: "nat \<Rightarrow> nat \<Rightarrow> nat \<Rightarrow> u8 list \<Rightarrow> (bool \<times> nat \<times> u8 list) option" where
  "copy_segment 0 offset out d = Some (True, out, d)"
| "copy_segment (Suc n) offset out d =
     (if length d \<le> out + offset then Some (False, out, d)
      else do {
        b \<leftarrow> byte_from d (out + offset);
        out' \<leftarrow> down 1 out;
        d' \<leftarrow> byte_to d out' b;
        copy_segment n offset out' d' })"

record Lzss =
  lz_index :: nat
  lz_out :: nat
  lz_buffer :: "u8 list"

text \<open>One bit of a control byte, when there is something left: false when the data is out of bounds.\<close>

definition lzss_token :: "u8 list \<Rightarrow> bool \<Rightarrow> Lzss \<Rightarrow> (bool \<times> Lzss) option" where
  "lzss_token compressed segment s =
     (if segment
      then if lz_index s < 2 then Some (False, s)
        else do {
          i \<leftarrow> down 2 (lz_index s);
          lo \<leftarrow> byte_from compressed i;
          hi \<leftarrow> byte_from compressed (i + 1);
          let w = (ucast lo :: u32) OR push_bit 8 (ucast hi);
          let n = unat ((drop_bit 12 w AND 15) + 3);
          let offset = unat ((w AND 0x0FFF) + 2);
          if lz_out s < n then Some (False, s\<lparr>lz_index := i\<rparr>)
          else do {
            (ok, out, d) \<leftarrow> copy_segment n offset (lz_out s) (lz_buffer s);
            Some (ok, \<lparr>lz_index = i, lz_out = out, lz_buffer = d\<rparr>) } }
      else if lz_out s < 1 then Some (False, s)
      else do {
        i \<leftarrow> down 1 (lz_index s);
        b \<leftarrow> byte_from compressed i;
        out \<leftarrow> down 1 (lz_out s);
        d \<leftarrow> byte_to (lz_buffer s) out b;
        Some (True, \<lparr>lz_index = i, lz_out = out, lz_buffer = d\<rparr>) })"

fun lzss_tokens :: "u8 list \<Rightarrow> nat \<Rightarrow> nat \<Rightarrow> u8 \<Rightarrow> Lzss \<Rightarrow> (bool \<times> Lzss) option" where
  "lzss_tokens compressed stop 0 control s = Some (True, s)"
| "lzss_tokens compressed stop (Suc i) control s =
     (if lz_index s \<le> stop \<or> lz_index s = 0 \<or> lz_out s = 0 then Some (True, s)
      else do {
        (ok, s1) \<leftarrow> lzss_token compressed (control AND 0x80 \<noteq> 0) s;
        if ok then lzss_tokens compressed stop i (push_bit 1 control) s1 else Some (False, s1) })"

lemma lzss_token_moves:
  assumes "lzss_token compressed segment s = Some (ok, s')"
  shows "lz_index s' \<le> lz_index s"
  using assms by (auto simp: lzss_token_def down_def Let_def bind_eq_Some_conv split: if_splits prod.splits)

lemma lzss_tokens_moves: "lzss_tokens compressed stop i control s = Some (ok, s') \<Longrightarrow> lz_index s' \<le> lz_index s"
proof (induction i arbitrary: control s)
  case (Suc i)
  show ?case
  proof (cases "lz_index s \<le> stop \<or> lz_index s = 0 \<or> lz_out s = 0")
    case False
    with Suc.prems obtain r s1 where t: "lzss_token compressed (control AND 0x80 \<noteq> 0) s = Some (r, s1)"
      and rest: "(if r then lzss_tokens compressed stop i (push_bit 1 control) s1 else Some (False, s1)) = Some (ok, s')"
      by (auto simp: bind_eq_Some_conv)
    show ?thesis using lzss_token_moves [OF t] rest Suc.IH [of "push_bit 1 control" s1] by (auto split: if_splits)
  qed (use Suc.prems in auto)
qed simp

function lzss_loop :: "u8 list \<Rightarrow> nat \<Rightarrow> Lzss \<Rightarrow> (bool \<times> u8 list) option" where
  "lzss_loop compressed stop s =
     (if stop < lz_index s
      then case byte_from compressed (lz_index s - 1) of
             None \<Rightarrow> None
           | Some control \<Rightarrow>
               (case lzss_tokens compressed stop 8 control (s\<lparr>lz_index := lz_index s - 1\<rparr>) of
                  None \<Rightarrow> None
                | Some (ok, s1) \<Rightarrow> if ok then lzss_loop compressed stop s1 else Some (False, lz_buffer s1))
      else Some (True, lz_buffer s))"
  by pat_completeness auto
termination
proof (relation "measure (\<lambda>(_, _, s). lz_index s)")
  fix compressed :: "u8 list" and stop :: nat and s s1 :: Lzss and control :: u8 and r and ok :: bool
  assume a: "stop < lz_index s" "lzss_tokens compressed stop 8 control (s\<lparr>lz_index := lz_index s - 1\<rparr>) = Some r" "(ok, s1) = r"
  have "lzss_tokens compressed stop 8 control (s\<lparr>lz_index := lz_index s - 1\<rparr>) = Some (ok, s1)" using a(2,3) by simp
  from lzss_tokens_moves [OF this] a(1)
  show "((compressed, stop, s1), (compressed, stop, s)) \<in> measure (\<lambda>(_, _, s). lz_index s)" by simp
qed simp

declare lzss_loop.simps [simp del]

text \<open>The result and the buffer of \<open>size\<close> bytes.\<close>

definition LZSS_Decompress :: "u8 list \<Rightarrow> nat \<Rightarrow> (bool \<times> u8 list) option" where
  "LZSS_Decompress compressed sz =
     (if length compressed < 8 then None
      else do {
        w \<leftarrow> word_from compressed (length compressed - 8);
        let index = unat (of_nat (length compressed) - ucast (drop_bit 24 w AND 0xFF) :: u64);
        let stop = unat (of_nat (length compressed) - ucast (w AND 0xFFFFFF) :: u64);
        if sz < length compressed then None
        else lzss_loop compressed stop \<lparr>lz_index = index, lz_out = sz,
               lz_buffer = compressed @ replicate (sz - length compressed) 0\<rparr> })"

end
