(* ===== verification/LzssFacts.thy ===== *)
theory LzssFacts imports Lzss begin

text \<open>
  The decompression never leaves its buffers, but for files shorter than their own footer says, and it
  restores what the format encodes: a tail of bytes written from its end to its start, each token a
  byte or a repetition of bytes already written.
\<close>

section \<open>Bounds\<close>

lemma copy_segment_in_bounds:
  "n \<le> out \<Longrightarrow> out \<le> length d \<Longrightarrow> \<exists>ok out' d'. copy_segment n offset out d = Some (ok, out', d') \<and> out' \<le> length d'"
proof (induction n arbitrary: out d)
  case (Suc n)
  show ?case
  proof (cases "length d \<le> out + offset")
    case True
    with Suc.prems show ?thesis by (intro exI [of _ False] exI [of _ out] exI [of _ d]) simp
  next
    case False
    let ?d = "d[out - 1 := d ! (out + offset)]"
    have "\<exists>ok out' d'. copy_segment n offset (out - 1) ?d = Some (ok, out', d') \<and> out' \<le> length d'"
      using Suc.prems by (intro Suc.IH) simp_all
    with False Suc.prems show ?thesis by (simp add: byte_from_def byte_to_def down_def)
  qed
qed (simp add: ex_bool_eq)

text \<open>What is left to read lies in the file, what is left to write in the buffer.\<close>

definition inside :: "u8 list \<Rightarrow> Lzss \<Rightarrow> bool" where
  "inside compressed s \<longleftrightarrow> lz_index s \<le> length compressed \<and> lz_out s \<le> length (lz_buffer s)"

lemma lzss_token_in_bounds:
  assumes "inside compressed s" "0 < lz_index s"
  shows "\<exists>ok s'. lzss_token compressed segment s = Some (ok, s') \<and> inside compressed s'"
proof (cases segment)
  case False
  with assms show ?thesis by (auto simp: lzss_token_def inside_def down_def byte_from_def byte_to_def)
next
  case True
  show ?thesis
  proof (cases "lz_index s < 2")
    case short: True
    with True assms show ?thesis by (auto simp: lzss_token_def)
  next
    case False
    define w where "w = (ucast (compressed ! (lz_index s - 2)) :: u32) OR push_bit 8 (ucast (compressed ! (lz_index s - 2 + 1)))"
    define n where "n = unat ((drop_bit 12 w AND 15) + 3)"
    define offset where "offset = unat ((w AND 0x0FFF) + 2)"
    have e: "lzss_token compressed segment s =
      (if lz_out s < n then Some (False, s\<lparr>lz_index := lz_index s - 2\<rparr>)
       else do { (ok, out, d) \<leftarrow> copy_segment n offset (lz_out s) (lz_buffer s);
                 Some (ok, \<lparr>lz_index = lz_index s - 2, lz_out = out, lz_buffer = d\<rparr>) })"
    proof -
      have i: "lz_index s - 2 < length compressed" "lz_index s - 2 + 1 < length compressed"
        using False assms(1) by (auto simp: inside_def)
      have two: "down 2 (lz_index s) = Some (lz_index s - 2)" using False by (simp add: down_def)
      from i have b: "byte_from compressed (lz_index s - 2) = Some (compressed ! (lz_index s - 2))"
        "byte_from compressed (lz_index s - 2 + 1) = Some (compressed ! (lz_index s - 2 + 1))"
        by (simp_all only: byte_from_def if_True)
      show ?thesis unfolding lzss_token_def two Let_def bind.bind_lunit b n_def offset_def w_def
        using True False by (simp only: if_True if_False)
    qed
    show ?thesis
    proof (cases "lz_out s < n")
      case True
      with e assms show ?thesis by (auto simp: inside_def)
    next
      case fits: False
      then obtain ok out d where "copy_segment n offset (lz_out s) (lz_buffer s) = Some (ok, out, d)" "out \<le> length d"
        using copy_segment_in_bounds [of n "lz_out s" "lz_buffer s" offset] assms(1) by (auto simp: inside_def)
      with e fits assms(1) show ?thesis by (auto simp: inside_def)
    qed
  qed
qed

lemma lzss_tokens_in_bounds:
  "inside compressed s \<Longrightarrow> \<exists>ok s'. lzss_tokens compressed stop i control s = Some (ok, s') \<and> inside compressed s'"
proof (induction i arbitrary: control s)
  case (Suc i)
  show ?case
  proof (cases "lz_index s \<le> stop \<or> lz_index s = 0 \<or> lz_out s = 0")
    case False
    then obtain ok s1 where t: "lzss_token compressed (control AND 0x80 \<noteq> 0) s = Some (ok, s1)" "inside compressed s1"
      using lzss_token_in_bounds [OF Suc.prems] by blast
    from Suc.IH [OF t(2), of "push_bit 1 control"] show ?thesis using t False by (cases ok) auto
  qed (use Suc.prems in \<open>auto simp: ex_bool_eq\<close>)
qed (simp add: ex_bool_eq)

lemma lzss_loop_in_bounds: "inside compressed s \<Longrightarrow> lzss_loop compressed stop s \<noteq> None"
proof (induction compressed stop s rule: lzss_loop.induct)
  case (1 compressed stop s)
  show ?case
  proof (cases "stop < lz_index s")
    case True
    then have b: "byte_from compressed (lz_index s - 1) = Some (compressed ! (lz_index s - 1))"
      using 1(2) by (auto simp: byte_from_def inside_def)
    let ?s = "s\<lparr>lz_index := lz_index s - 1\<rparr>"
    have "inside compressed ?s" using 1(2) by (auto simp: inside_def)
    then obtain ok s1 where t: "lzss_tokens compressed stop 8 (compressed ! (lz_index s - 1)) ?s = Some (ok, s1)"
      "inside compressed s1" using lzss_tokens_in_bounds by blast
    then have "ok \<Longrightarrow> lzss_loop compressed stop s1 \<noteq> None" using 1(1) [OF True b t(1) refl] by blast
    with True b t show ?thesis by (simp add: lzss_loop.simps [of compressed stop s] del: not_None_eq)
  qed (simp add: lzss_loop.simps [of compressed stop s])
qed

definition lzss_footer :: "u8 list \<Rightarrow> u32" where
  "lzss_footer compressed = le_word (take 4 (drop (length compressed - 8) compressed))"

definition lzss_top :: "u8 list \<Rightarrow> nat" where
  "lzss_top compressed = unat (drop_bit 24 (lzss_footer compressed) AND 0xFF)"

definition lzss_bottom :: "u8 list \<Rightarrow> nat" where
  "lzss_bottom compressed = unat (lzss_footer compressed AND 0xFFFFFF)"

lemma u64_difference:
  assumes "n < 2 ^ 64"
  shows "unat (of_nat n - ucast (w :: u32) :: u64) = (if unat w \<le> n then n - unat w else 2 ^ 64 + n - unat w)"
proof -
  have "unat w < 2 ^ 32" using unsigned_less [of w] by simp
  then have "unat w < 2 ^ 64" by simp
  then have "unat (ucast w :: u64) = unat w" by (simp add: unsigned_ucast_eq take_bit_nat_eq_self)
  moreover have "unat (of_nat n :: u64) = n" using assms by (simp add: unat_of_nat take_bit_nat_eq_self)
  moreover have "unat (x - y) = (if unat y \<le> unat x then unat x - unat y else unat x + 2 ^ 64 - unat y)" for x y :: u64
    by (simp add: unat_sub_if')
  ultimately show ?thesis by (simp only: add.commute)
qed

lemma LZSS_Decompress_start:
  assumes "8 \<le> length c" "length c \<le> sz" "length c < 2 ^ 64"
  shows "LZSS_Decompress c sz = lzss_loop c
      (if lzss_bottom c \<le> length c then length c - lzss_bottom c else 2 ^ 64 + length c - lzss_bottom c)
      \<lparr>lz_index = if lzss_top c \<le> length c then length c - lzss_top c else 2 ^ 64 + length c - lzss_top c,
        lz_out = sz, lz_buffer = c @ replicate (sz - length c) 0\<rparr>"
proof -
  have "word_from c (length c - 8) = Some (lzss_footer c)" using assms(1) by (simp add: word_from_def lzss_footer_def)
  then show ?thesis using assms by (simp add: LZSS_Decompress_def Let_def u64_difference lzss_top_def lzss_bottom_def)
qed

lemma lzss_sizes: "lzss_top c < 256" "lzss_bottom c < 2 ^ 24"
proof -
  have mask: "unat (w AND v) \<le> unat v" for w v :: u32
    using word_and_le1 [of w v] by (simp add: word_le_nat_alt)
  have "unat (w AND 0xFF) \<le> 255" "unat (w AND 0xFFFFFF) \<le> 16777215" for w :: u32
    using mask [of w "0xFF"] mask [of w "0xFFFFFF"] by simp_all
  then show "lzss_top c < 256" "lzss_bottom c < 2 ^ 24"
    unfolding lzss_top_def lzss_bottom_def by (simp_all add: le_imp_less_Suc [of _ 255, simplified] le_imp_less_Suc [of _ 16777215, simplified])
qed

text \<open>
  C31: Decompressing a file (below 4 GiB) ends without an access outside the file and the output buffer,
  reads and writes alike, but for exactly three cases: the file is shorter than its eight byte footer;
  the buffer is smaller than the file that is first copied into it; or the file is shorter than the
  part its footer's top byte cuts off, and its compressed part does not end before it begins, in
  which case the first control byte is read beyond the file.
\<close>

theorem LZSS_Decompress_in_bounds:
  assumes "length c < 2 ^ 32"
  shows "LZSS_Decompress c sz = None \<longleftrightarrow> length c < 8 \<or> sz < length c
    \<or> length c < lzss_top c \<and> (lzss_bottom c \<le> length c \<or> lzss_top c < lzss_bottom c)"
proof (cases "8 \<le> length c \<and> length c \<le> sz")
  case False
  then show ?thesis by (auto simp: LZSS_Decompress_def Let_def bind_eq_None_conv)
next
  case True
  then have sizes: "8 \<le> length c" "length c \<le> sz" "length c < 2 ^ 64" using assms by simp_all
  show ?thesis
  proof (cases "lzss_top c \<le> length c")
    case True
    with sizes have "inside c \<lparr>lz_index = length c - lzss_top c, lz_out = sz, lz_buffer = c @ replicate (sz - length c) 0\<rparr>"
      by (simp add: inside_def)
    then have "LZSS_Decompress c sz \<noteq> None" using True sizes lzss_loop_in_bounds by (simp add: LZSS_Decompress_start del: not_None_eq)
    with True sizes show ?thesis by auto
  next
    case False
    let ?i = "2 ^ 64 + length c - lzss_top c"
    have big: "length c < ?i" "\<not> ?i - 1 < length c" using assms lzss_sizes(1) [of c] by simp_all
    then have b: "byte_from c (?i - 1) = None" by (simp only: byte_from_def if_False)
    have none: "lzss_loop c stop \<lparr>lz_index = ?i, lz_out = sz, lz_buffer = d\<rparr> = None \<longleftrightarrow> stop < ?i" for stop d
      using b by (simp add: lzss_loop.simps [of c stop])
    show ?thesis
      using False sizes none big lzss_sizes [of c] by (auto simp: LZSS_Decompress_start)
  qed
qed

text \<open>The witness has a file that is read beyond its end, and one that is not.\<close>

lemma LZSS_Decompress_in_bounds_witness:
  "LZSS_Decompress [0, 0, 0, 9, 0, 0, 0, 0] 8 = None \<and> LZSS_Decompress [0, 0, 0, 8, 0, 0, 0, 0] 8 \<noteq> None"
proof -
  let ?c = "[0, 0, 0, 9, 0, 0, 0, 0] :: u8 list" and ?d = "[0, 0, 0, 8, 0, 0, 0, 0] :: u8 list"
  have "lzss_footer ?c = 0x09000000" "lzss_footer ?d = 0x08000000" by (simp_all add: lzss_footer_def)
  then have "lzss_top ?c = 9" "lzss_bottom ?c = 0" "lzss_top ?d = 8" by (simp_all add: lzss_top_def lzss_bottom_def)
  with LZSS_Decompress_in_bounds [of ?c 8] LZSS_Decompress_in_bounds [of ?d 8] show ?thesis by simp
qed

section \<open>The format\<close>

text \<open>Tokens, in the order they are read: a byte, or \<open>n\<close> bytes from \<open>offset\<close> behind the byte to write.\<close>

datatype lz_token = Lit u8 | Seg nat nat

fun repeat_segment :: "nat \<Rightarrow> nat \<Rightarrow> u8 list \<Rightarrow> u8 list" where
  "repeat_segment 0 offset tail = tail"
| "repeat_segment (Suc n) offset tail = repeat_segment n offset (tail ! offset # tail)"

fun expand :: "lz_token \<Rightarrow> u8 list \<Rightarrow> u8 list" where
  "expand (Lit b) tail = b # tail"
| "expand (Seg offset n) tail = repeat_segment n offset tail"

fun token_ok :: "lz_token \<Rightarrow> u8 list \<Rightarrow> bool" where
  "token_ok (Lit b) tail \<longleftrightarrow> True"
| "token_ok (Seg offset n) tail \<longleftrightarrow> 2 \<le> offset \<and> offset < 4098 \<and> 3 \<le> n \<and> n \<le> 18 \<and> offset < length tail"

fun expand_all :: "lz_token list \<Rightarrow> u8 list \<Rightarrow> u8 list" where
  "expand_all [] tail = tail"
| "expand_all (t # ts) tail = expand_all ts (expand t tail)"

fun tokens_ok :: "lz_token list \<Rightarrow> u8 list \<Rightarrow> bool" where
  "tokens_ok [] tail \<longleftrightarrow> True"
| "tokens_ok (t # ts) tail \<longleftrightarrow> token_ok t tail \<and> tokens_ok ts (expand t tail)"

fun is_seg :: "lz_token \<Rightarrow> bool" where
  "is_seg (Lit b) \<longleftrightarrow> False"
| "is_seg (Seg offset n) \<longleftrightarrow> True"

definition seg_word :: "nat \<Rightarrow> nat \<Rightarrow> nat" where
  "seg_word offset n = 4096 * (n - 3) + (offset - 2)"

text \<open>What a token takes of the file, in the order it is read, from the end to the start.\<close>

fun token_bytes :: "lz_token \<Rightarrow> u8 list" where
  "token_bytes (Lit b) = [b]"
| "token_bytes (Seg offset n) = [of_nat (seg_word offset n div 256), of_nat (seg_word offset n mod 256)]"

fun control_of :: "lz_token list \<Rightarrow> u8" where
  "control_of [] = 0"
| "control_of (t # ts) = (if is_seg t then 0x80 else 0) OR drop_bit 1 (control_of ts)"

definition all_bytes :: "lz_token list \<Rightarrow> u8 list" where
  "all_bytes ts = concat (map token_bytes ts)"

function encode_tokens :: "lz_token list \<Rightarrow> u8 list" where
  "encode_tokens ts = (if ts = [] then []
     else control_of (take 8 ts) # all_bytes (take 8 ts) @ encode_tokens (drop 8 ts))"
  by pat_completeness auto
termination by (relation "measure length") auto

declare encode_tokens.simps [simp del]

lemma length_repeat_segment [simp]: "length (repeat_segment n offset tail) = n + length tail"
  by (induction n arbitrary: tail) simp_all

lemma expand_longer: "length tail < length (expand t tail)" if "token_ok t tail"
  using that by (cases t) simp_all

lemma expand_all_longer: "tokens_ok ts tail \<Longrightarrow> length tail + length ts \<le> length (expand_all ts tail)"
proof (induction ts arbitrary: tail)
  case (Cons t ts)
  then show ?case using expand_longer [of t tail] by fastforce
qed simp

section \<open>Control bytes\<close>

lemma bit_control: "bit (control_of ts) i \<Longrightarrow> i < 8 \<and> 8 \<le> i + length ts"
proof (induction ts arbitrary: i)
  case (Cons t ts)
  have "i < 8" using bit_imp_le_length [OF Cons.prems] by simp
  moreover have "i = 7 \<or> bit (control_of ts) (Suc i)"
  proof -
    have "bit (0x80 :: u8) i \<Longrightarrow> i = 7" using \<open>i < 8\<close> by (auto simp: numeral_eq_Suc less_Suc_eq bit_simps)
    with Cons.prems show ?thesis by (auto simp: bit_simps split: if_splits)
  qed
  ultimately show ?case using Cons.IH [of "Suc i"] by auto
qed simp

lemma control_of_first:
  assumes "length ts < 8"
  shows "control_of (t # ts) AND 0x80 \<noteq> 0 \<longleftrightarrow> is_seg t" "push_bit 1 (control_of (t # ts)) = control_of ts"
proof -
  have top: "(w AND 0x80 \<noteq> 0) = bit w 7" for w :: u8
  proof -
    have "w AND 0x80 = (if bit w 7 then 0x80 else 0)"
      by (rule bit_word_eqI) (auto simp: bit_simps numeral_eq_Suc less_Suc_eq)
    then show ?thesis by simp
  qed
  have "\<not> bit (drop_bit 1 (control_of ts)) 7" using bit_control [of ts 8] by (auto simp: bit_simps)
  then show "control_of (t # ts) AND 0x80 \<noteq> 0 \<longleftrightarrow> is_seg t" unfolding top by (simp add: bit_simps)
  have low: "\<not> bit (control_of ts) 0" using bit_control [of ts 0] assms by auto
  show "push_bit 1 (control_of (t # ts)) = control_of ts"
  proof (rule bit_word_eqI)
    fix i assume i: "i < LENGTH(8)"
    show "bit (push_bit 1 (control_of (t # ts))) i = bit (control_of ts) i"
    proof (cases i)
      case 0
      with low show ?thesis by (simp only: bit_push_bit_iff) simp
    next
      case (Suc j)
      then have "j < 7" using i by simp
      then have "\<not> bit (0x80 :: u8) j" by (auto simp: numeral_eq_Suc less_Suc_eq bit_simps)
      then have "bit (control_of (t # ts)) j = bit (control_of ts) i" using Suc by (auto simp: bit_simps)
      then show ?thesis using Suc i by (simp only: bit_push_bit_iff) simp
    qed
  qed
qed

section \<open>Reading it\<close>

lemma copy_segment_tail:
  assumes "n \<le> length front" "offset < length tail"
  shows "copy_segment n offset (length front) (front @ tail)
    = Some (True, length front - n, take (length front - n) front @ repeat_segment n offset tail)"
  using assms
proof (induction n arbitrary: front tail)
  case (Suc n)
  define b where "b = tail ! offset"
  obtain f x where f: "front = f @ [x]" using Suc.prems(1) by (cases front rule: rev_cases) auto
  have "(front @ tail)[length front - 1 := b] = f @ (b # tail)" by (simp add: f)
  moreover have "(front @ tail) ! (length front + offset) = b" by (simp add: b_def nth_append)
  ultimately show ?case using Suc.IH [of f "b # tail"] Suc.prems
    by (simp add: f byte_from_def byte_to_def down_def flip: b_def)
qed simp

lemma seg_fields:
  assumes "2 \<le> offset" "offset < 4098" "3 \<le> n" "n \<le> 18"
  defines "w \<equiv> (ucast (of_nat (seg_word offset n mod 256) :: u8) :: u32) OR push_bit 8 (ucast (of_nat (seg_word offset n div 256) :: u8))"
  shows "unat ((drop_bit 12 w AND 15) + 3) = n" "unat ((w AND 0x0FFF) + 2) = offset"
proof -
  let ?x = "seg_word offset n"
  have x: "?x < 65536" "?x div 4096 = n - 3" "?x mod 4096 = offset - 2"
  proof -
    have o: "offset - 2 < 4096" using assms(1,2) by simp
    show "?x < 65536" "?x div 4096 = n - 3" unfolding seg_word_def using o assms(3,4) by simp_all
    show "?x mod 4096 = offset - 2" unfolding seg_word_def mod_mult_self4 using o by (rule mod_less)
  qed
  have b: "ucast (of_nat m :: u8) = (of_nat m :: u32)" if "m < 256" for m
    using that by (simp add: word_unat_eq_iff unsigned_ucast_eq unat_of_nat take_bit_nat_eq_self)
  have parts: "?x mod 256 < 256" "?x div 256 < 256" using x(1) by simp_all
  have "w = of_nat ?x"
  proof -
    have "w = ucast (of_nat (?x mod 256) :: u8) + push_bit 8 (ucast (of_nat (?x div 256) :: u8))"
      unfolding w_def by (rule disjunctive_add [symmetric]) (auto simp: bit_simps dest: bit_imp_le_length)
    also have "\<dots> = of_nat (?x mod 256) + 256 * of_nat (?x div 256)"
      unfolding b [OF parts(1)] b [OF parts(2)] by (simp add: push_bit_eq_mult mult.commute)
    also have "\<dots> = of_nat (?x mod 256 + 256 * (?x div 256))" by (simp only: of_nat_add of_nat_mult of_nat_numeral)
    finally show ?thesis by simp
  qed
  then have u: "unat w = ?x" using x(1) by simp
  have "drop_bit 12 w AND 15 = take_bit 4 (drop_bit 12 w)" "w AND 0x0FFF = take_bit 12 w"
    by (simp_all add: take_bit_eq_mask mask_eq_exp_minus_1)
  then have "unat (drop_bit 12 w AND 15) = n - 3" "unat (w AND 0x0FFF) = offset - 2"
    using x u assms(4) by (simp_all add: take_bit_eq_mod unat_mod drop_bit_eq_div unat_div)
  then show "unat ((drop_bit 12 w AND 15) + 3) = n" "unat ((w AND 0x0FFF) + 2) = offset"
    using assms(1-4) by (simp_all add: unat_plus_no_wrap_u32)
qed

text \<open>A token that ends at \<open>pre\<close> writes what it stands for in front of the tail.\<close>

definition reading :: "nat \<Rightarrow> u8 list \<Rightarrow> u8 list \<Rightarrow> Lzss" where
  "reading index front tail = \<lparr>lz_index = index, lz_out = length front, lz_buffer = front @ tail\<rparr>"

lemma lzss_token_encoded:
  assumes "token_ok t tail" "length (expand t tail) - length tail \<le> length front"
  shows "lzss_token (pre @ rev (token_bytes t) @ post) (is_seg t) (reading (length pre + length (token_bytes t)) front tail)
    = Some (True, reading (length pre) (take (length front - (length (expand t tail) - length tail)) front) (expand t tail))"
proof (cases t)
  case (Lit b)
  obtain f x where f: "front = f @ [x]" using assms(2) Lit by (cases front rule: rev_cases) auto
  then show ?thesis by (simp add: Lit lzss_token_def byte_from_def byte_to_def down_def reading_def nth_append)
next
  case (Seg offset n)
  have ok: "2 \<le> offset" "offset < 4098" "3 \<le> n" "n \<le> 18" "offset < length tail" using assms(1) Seg by simp_all
  have len: "n \<le> length front" using assms(2) Seg by simp
  note sf = seg_fields [OF ok(1-4)]
  have b: "byte_from (pre @ rev (token_bytes t) @ post) (length pre) = Some (of_nat (seg_word offset n mod 256))"
    "byte_from (pre @ rev (token_bytes t) @ post) (length pre + 1) = Some (of_nat (seg_word offset n div 256))"
    by (simp_all add: Seg byte_from_def nth_append)
  have i: "lz_index (reading (length pre + length (token_bytes t)) front tail) = length pre + 2" by (simp add: Seg reading_def)
  have r: "lz_out (reading i front tail) = length front" "lz_buffer (reading i front tail) = front @ tail" for i
    by (simp_all add: reading_def)
  have i2: "\<not> length pre + 2 < 2" "down 2 (length pre + 2) = Some (length pre)" by (simp_all add: down_def)
  show ?thesis
    unfolding lzss_token_def i r Let_def i2 bind.bind_lunit b bind.bind_lunit sf copy_segment_tail [OF len ok(5)] prod.case
    using len by (auto simp: Seg reading_def not_less min_def)
qed

lemma all_bytes_simps [simp]: "all_bytes [] = []" "all_bytes (t # ts) = token_bytes t @ all_bytes ts"
  by (simp_all add: all_bytes_def)

lemma token_bytes_nonempty: "0 < length (token_bytes t)"
  by (cases t) simp_all

lemma lzss_tokens_encoded:
  assumes "tokens_ok ts tail" "length (expand_all ts tail) - length tail \<le> length front"
    and "length ts = k \<or> length ts \<le> k \<and> length pre = stop" "stop \<le> length pre" "k \<le> 8"
  shows "lzss_tokens (pre @ rev (all_bytes ts) @ post) stop k (control_of ts) (reading (length pre + length (all_bytes ts)) front tail)
    = Some (True, reading (length pre) (take (length front - (length (expand_all ts tail) - length tail)) front) (expand_all ts tail))"
  using assms
proof (induction ts arbitrary: k tail front post)
  case Nil
  then show ?case by (cases k) (simp_all add: reading_def)
next
  case (Cons t ts)
  obtain k' where k: "k = Suc k'" using Cons.prems(3) by (cases k) auto
  let ?c = "pre @ rev (all_bytes (t # ts)) @ post" and ?pre = "pre @ rev (all_bytes ts)"
  have ok: "token_ok t tail" "tokens_ok ts (expand t tail)" using Cons.prems(1) by simp_all
  note longer = expand_longer [OF ok(1)] expand_all_longer [OF ok(2)]
  have c: "?c = ?pre @ rev (token_bytes t) @ post" by simp
  have i: "length pre + length (all_bytes (t # ts)) = length ?pre + length (token_bytes t)" by simp
  have "length ts < 8" using Cons.prems(3,5) by auto
  note ctl = control_of_first [OF this, of t]
  let ?grown = "length (expand t tail) - length tail"
  have fits: "?grown \<le> length front" using Cons.prems(2) longer by simp
  note one = lzss_token_encoded [OF ok(1) fits, of ?pre post]
  let ?front = "take (length front - ?grown) front"
  have fits': "length (expand_all ts (expand t tail)) - length (expand t tail) \<le> length ?front"
    using Cons.prems(2) longer by simp
  have "lzss_tokens ?c stop k' (control_of ts) (reading (length pre + length (all_bytes ts)) ?front (expand t tail))
    = Some (True, reading (length pre) (take (length ?front - (length (expand_all ts (expand t tail)) - length (expand t tail))) ?front)
        (expand_all ts (expand t tail)))"
    using Cons.IH [OF ok(2) fits', of k' "rev (token_bytes t) @ post"] Cons.prems(3-5) k by auto
  moreover have "take (length ?front - (length (expand_all ts (expand t tail)) - length (expand t tail))) ?front
      = take (length front - (length (expand_all (t # ts) tail) - length tail)) front"
    using longer Cons.prems(2) by (simp add: min_def)
  moreover have "\<not> (lz_index (reading (length ?pre + length (token_bytes t)) front tail) \<le> stop
      \<or> lz_index (reading (length ?pre + length (token_bytes t)) front tail) = 0 \<or> lz_out (reading (length ?pre + length (token_bytes t)) front tail) = 0)"
    using Cons.prems(4) token_bytes_nonempty [of t] fits longer by (auto simp: reading_def simp del: length_greater_0_conv)
  ultimately show ?case
    unfolding k lzss_tokens.simps i using one ctl unfolding c by (simp del: control_of.simps)
qed

lemma expand_all_append: "expand_all (ts @ us) tail = expand_all us (expand_all ts tail)"
  and tokens_ok_append: "tokens_ok (ts @ us) tail \<longleftrightarrow> tokens_ok ts tail \<and> tokens_ok us (expand_all ts tail)"
  by (induction ts arbitrary: tail) simp_all

lemma front_rest:
  assumes "length front = n + (b - t)" "t \<le> a" "a \<le> b" "take n front = raw"
  shows "length (take (length front - (a - t)) front) = n + (b - a)" "take n (take (length front - (a - t)) front) = raw"
proof -
  have "length front - (a - t) = n + (b - a)" "length front - (a - t) \<le> length front" using assms(1-3) by simp_all
  then show "length (take (length front - (a - t)) front) = n + (b - a)" "take n (take (length front - (a - t)) front) = raw"
    using assms(4) by (simp_all add: min_absorb1)
qed

lemma lzss_loop_encoded:
  assumes "tokens_ok ts tail" "length front = length raw + (length (expand_all ts tail) - length tail)" "take (length raw) front = raw"
  shows "lzss_loop (raw @ rev (encode_tokens ts) @ post) (length raw) (reading (length raw + length (encode_tokens ts)) front tail)
    = Some (True, raw @ expand_all ts tail)"
  using assms
proof (induction ts arbitrary: tail front post rule: encode_tokens.induct)
  case (1 ts)
  show ?case
  proof (cases "ts = []")
    case True
    with 1(3,4) show ?thesis by (simp add: lzss_loop.simps encode_tokens.simps [of "[]"] reading_def)
  next
    case False
    let ?now = "take 8 ts" and ?later = "drop 8 ts"
    have e: "encode_tokens ts = control_of ?now # all_bytes ?now @ encode_tokens ?later"
      using False by (simp add: encode_tokens.simps [of ts])
    let ?pre = "raw @ rev (encode_tokens ?later)" and ?post = "control_of ?now # post"
    let ?c = "raw @ rev (encode_tokens ts) @ post"
    have c: "?c = ?pre @ rev (all_bytes ?now) @ ?post" by (simp add: e)
    have split: "expand_all ts tail = expand_all ?later (expand_all ?now tail)" "tokens_ok ?now tail"
      "tokens_ok ?later (expand_all ?now tail)"
      using expand_all_append [of ?now ?later tail] tokens_ok_append [of ?now ?later tail] 1(2) by simp_all
    note longer = expand_all_longer [OF split(2)] expand_all_longer [OF split(3)]
    have i: "length raw + length (encode_tokens ts) = Suc (length ?pre + length (all_bytes ?now))" by (simp add: e)
    have b: "byte_from ?c (length ?pre + length (all_bytes ?now)) = Some (control_of ?now)"
      unfolding c by (simp add: byte_from_def nth_append)
    let ?s = "reading (length ?pre + length (all_bytes ?now)) front tail"
    let ?front = "take (length front - (length (expand_all ?now tail) - length tail)) front"
    have fits: "length (expand_all ?now tail) - length tail \<le> length front" using 1(3) split(1) longer by simp
    have grp: "length ?now = 8 \<or> length ?now \<le> 8 \<and> length ?pre = length raw"
      by (cases "length ts < 8") (simp_all add: encode_tokens.simps [of "[]"])
    have tok: "lzss_tokens ?c (length raw) 8 (control_of ?now) ?s = Some (True, reading (length ?pre) ?front (expand_all ?now tail))"
      unfolding c by (rule lzss_tokens_encoded [OF split(2) fits grp]) simp_all
    define C j where "C = ?c" and "j = length ?pre + length (all_bytes ?now)"
    have s: "(reading (Suc j) front tail)\<lparr>lz_index := j\<rparr> = reading j front tail" "lz_index (reading (Suc j) front tail) = Suc j"
      by (simp_all add: reading_def)
    have "length raw < Suc j" by (simp add: j_def)
    then have "lzss_loop C (length raw) (reading (Suc j) front tail) = lzss_loop C (length raw) (reading (length ?pre) ?front (expand_all ?now tail))"
      using b tok unfolding C_def [symmetric] j_def [symmetric] by (subst lzss_loop.simps) (simp only: s diff_Suc_1 if_True option.case prod.case)
    then have "lzss_loop ?c (length raw) (reading (length raw + length (encode_tokens ts)) front tail)
        = lzss_loop ?c (length raw) (reading (length ?pre) ?front (expand_all ?now tail))"
      unfolding i C_def j_def .
    moreover have "lzss_loop ?c (length raw) (reading (length raw + length (encode_tokens ?later)) ?front (expand_all ?now tail))
        = Some (True, raw @ expand_all ?later (expand_all ?now tail))"
      unfolding c append_assoc
      by (rule 1(1) [OF False split(3) front_rest [OF 1(3) [unfolded split(1)] _ _ 1(4)]]) (use longer in simp_all)
    ultimately show ?thesis by (simp only: split(1) length_append length_rev)
  qed
qed

section \<open>Whole files\<close>

text \<open>
  A file: bytes that stay as they are, the encoded tokens from the end to the start, and a footer of
  \<open>pad\<close> and two words: where the tokens begin and end, counted from the end of the file, and how much
  longer the decompressed file is.
\<close>

definition lzss_file :: "u8 list \<Rightarrow> lz_token list \<Rightarrow> u8 list \<Rightarrow> u8 list" where
  "lzss_file raw ts pad =
     (let end_tokens = length pad + 8; begin_tokens = length (encode_tokens ts) + end_tokens
      in raw @ rev (encode_tokens ts) @ pad @ le_bytes 4 (of_nat (2 ^ 24 * end_tokens + begin_tokens) :: u32)
           @ le_bytes 4 (of_nat (length (expand_all ts []) - begin_tokens) :: u32))"

definition lzss_file_ok :: "u8 list \<Rightarrow> lz_token list \<Rightarrow> u8 list \<Rightarrow> bool" where
  "lzss_file_ok raw ts pad \<longleftrightarrow> tokens_ok ts [] \<and> length pad + 8 < 256
     \<and> length (encode_tokens ts) + length pad + 8 < 2 ^ 24
     \<and> length (encode_tokens ts) + length pad + 8 \<le> length (expand_all ts [])
     \<and> length raw + length (expand_all ts []) < 2 ^ 32"

lemma footer_fields:
  assumes "t < 256" "bottom < 2 ^ 24"
  shows "unat (drop_bit 24 (of_nat (2 ^ 24 * t + bottom) :: u32) AND 0xFF) = t"
    "unat ((of_nat (2 ^ 24 * t + bottom) :: u32) AND 0xFFFFFF) = bottom"
proof -
  let ?x = "2 ^ 24 * t + bottom" and ?w = "of_nat (2 ^ 24 * t + bottom) :: u32"
  have x: "?x < 4294967296" "?x div 16777216 = t" "?x mod 16777216 = bottom" using assms by simp_all
  then have u: "unat ?w = ?x" by (intro unat_of_nat_u32)
  have "drop_bit 24 ?w AND 0xFF = take_bit 8 (drop_bit 24 ?w)" "?w AND 0xFFFFFF = take_bit 24 ?w"
    by (simp_all add: take_bit_eq_mask mask_eq_exp_minus_1)
  then have "unat (drop_bit 24 ?w AND 0xFF) = unat ?w div 16777216 mod 256" "unat (?w AND 0xFFFFFF) = unat ?w mod 16777216"
    by (simp_all add: take_bit_eq_mod unat_mod drop_bit_eq_div unat_div del: of_nat_add of_nat_mult)
  then show "unat (drop_bit 24 ?w AND 0xFF) = t" "unat (?w AND 0xFFFFFF) = bottom"
    unfolding u x(2,3) using assms(1) by simp_all
qed

text \<open>
  C30: A compressed file is restored: the size the first function computes is that of the bytes that stay
  and the expanded tokens, and decompressing into a buffer of that size succeeds with just these.
\<close>

theorem LZSS_Decompress_restores:
  assumes "lzss_file_ok raw ts pad"
  shows "LZSS_GetDecompressedSize (lzss_file raw ts pad) = Some (length (raw @ expand_all ts []))
    \<and> LZSS_Decompress (lzss_file raw ts pad) (length (raw @ expand_all ts [])) = Some (True, raw @ expand_all ts [])"
proof -
  let ?out = "expand_all ts []" and ?enc = "encode_tokens ts" and ?top = "length pad + 8"
  let ?bottom = "length ?enc + ?top" and ?c = "lzss_file raw ts pad"
  note ok = assms [unfolded lzss_file_ok_def]
  define w1 w2 where "w1 = (of_nat (2 ^ 24 * ?top + ?bottom) :: u32)" and "w2 = (of_nat (length ?out - ?bottom) :: u32)"
  have c: "?c = raw @ rev ?enc @ pad @ le_bytes 4 w1 @ le_bytes 4 w2" by (simp only: lzss_file_def Let_def w1_def w2_def)
  have len: "length ?c = length raw + ?bottom" unfolding c by simp
  have words: "le_word (le_bytes 4 w1) = w1" "le_word (le_bytes 4 w2) = w2" by (rule le_word_le_bytes; simp)+
  have "take 4 (drop (length ?c - 8) ?c) = le_bytes 4 w1" "take 4 (drop (length ?c - 4) ?c) = le_bytes 4 w2"
    unfolding len by (simp_all add: c)
  then have foot: "lzss_footer ?c = w1" "word_from ?c (length ?c - 4) = Some w2"
    using words len by (simp_all add: lzss_footer_def word_from_def)
  have "?top < 256" "?bottom < 2 ^ 24" using ok by simp_all
  note tb = footer_fields [OF this, folded w1_def, folded foot(1), folded lzss_top_def lzss_bottom_def]
  have "unat w2 = length ?out - ?bottom" unfolding w2_def by (rule unat_of_nat_u32, rule le_less_trans [OF diff_le_self]) (use ok in simp)
  then have size: "LZSS_GetDecompressedSize ?c = Some (length (raw @ ?out))"
    using ok len foot(2) by (simp add: LZSS_GetDecompressedSize_def)
  let ?front = "?c @ replicate (length (raw @ ?out) - length ?c) 0"
  have front: "length ?front = length raw + (length ?out - length ([] :: u8 list))" "take (length raw) ?front = raw"
    using ok len by (simp_all add: c)
  have "lzss_loop ?c (length raw) (reading (length raw + length ?enc) ?front []) = Some (True, raw @ ?out)"
    using lzss_loop_encoded [OF _ front] ok unfolding c by blast
  moreover have "reading (length raw + length ?enc) ?front [] = \<lparr>lz_index = length raw + length ?enc,
      lz_out = length (raw @ ?out), lz_buffer = ?front\<rparr>" using front(1) by (simp add: reading_def)
  moreover have "8 \<le> length ?c" "length ?c \<le> length (raw @ ?out)" "length ?c < 2 ^ 64" using ok len by simp_all
  ultimately show ?thesis
    using size tb len by (simp add: LZSS_Decompress_start)
qed

definition sample_tokens :: "lz_token list" where
  "sample_tokens = [Lit 1, Lit 2, Lit 3, Seg 2 18]"

lemma LZSS_Decompress_restores_witness:
  "LZSS_Decompress (lzss_file [9] sample_tokens []) 22 = Some (True, 9 # concat (replicate 7 [3, 2, 1]))"
proof -
  have e: "expand_all sample_tokens [] = concat (replicate 7 [3, 2, 1])"
    by (simp add: sample_tokens_def numeral_eq_Suc)
  have "tokens_ok sample_tokens []" by (simp add: sample_tokens_def)
  moreover have "length (encode_tokens sample_tokens) = 6"
    by (simp add: sample_tokens_def encode_tokens.simps)
  moreover have len: "length (concat (replicate 7 [3, 2, 1 :: u8])) = 21" by (simp add: numeral_eq_Suc)
  ultimately have "lzss_file_ok [9] sample_tokens []" by (simp only: lzss_file_ok_def e) simp
  from LZSS_Decompress_restores [OF this] len show ?thesis by (simp only: e) simp
qed

end
