(* ===== verification/SharedMemory.thy ===== *)
theory SharedMemory imports ProcessMemory HandleTable begin

text \<open>
  Blocks of memory that processes share (src/core/hle/kernel/shared_memory.cpp, and the supervisor
  calls on them in svc.cpp).

  Operations act on the record of one process, which holds the regions and the memory of the whole
  system; the flag \<open>own\<close> says that it is the owner of the block. A block that the kernel makes for
  itself has no owner: then the record only stands for the regions and the memory. The outer
  \<^const>\<open>None\<close> is a failed assertion.
\<close>

section \<open>Blocks\<close>

definition DontCare :: u32 where "DontCare = 0x10000000"
definition SYSTEM_REGION :: nat where "SYSTEM_REGION = 1"
definition PROCESS_IMAGE_VADDR :: u32 where "PROCESS_IMAGE_VADDR = 0x00100000"
definition SHARED_MEMORY_VADDR_END :: u32 where "SHARED_MEMORY_VADDR_END = 0x14000000"

record 'i SharedMemory =
  linear_heap_phys_offset :: u32
  sm_backing_blocks :: "(MemoryRef \<times> u32) list"
  sm_size :: u32
  sm_region :: nat
  permissions :: u32
  other_permissions :: u32
  sm_owned :: bool
  base_address :: u32
  sm_holding :: 'i

definition ConvertPermissions :: "u32 \<Rightarrow> u8" where
  "ConvertPermissions permission = ucast (permission AND 7)"

definition new_block :: "'i IntervalOps \<Rightarrow> bool \<Rightarrow> u32 \<Rightarrow> nat \<Rightarrow> u32 \<Rightarrow> u32 \<Rightarrow> 'i SharedMemory" where
  "new_block I owned sz region perms other =
     \<lparr>linear_heap_phys_offset = 0, sm_backing_blocks = [], sm_size = sz, sm_region = region, permissions = perms,
       other_permissions = other, sm_owned = owned, base_address = 0, sm_holding = iset_empty I\<rparr>"

section \<open>The end of a block\<close>

fun free_region_blocks :: "'i IntervalOps \<Rightarrow> nat \<Rightarrow> (u32 \<times> u32) list \<Rightarrow> 'i ProcessMemory \<Rightarrow> 'i ProcessMemory option" where
  "free_region_blocks I k [] p = Some p"
| "free_region_blocks I k ((lo, hi) # bs) p = do {
     (_, p1) \<leftarrow> upd_region k (\<lambda>r. map_option (Pair ()) (Region_Free I lo (hi - lo) r)) p;
     free_region_blocks I k bs p1 }"

text \<open>The result of the change of state is not looked at. \<open>alive\<close>: the owner still exists.\<close>

definition SharedMemory_destroy ::
  "'i IntervalOps \<Rightarrow> Devices \<Rightarrow> bool \<Rightarrow> 'i SharedMemory \<Rightarrow> 'i ProcessMemory \<Rightarrow> 'i ProcessMemory option" where
  "SharedMemory_destroy I D alive b p = do {
     p1 \<leftarrow> free_region_blocks I (sm_region b) (iset_blocks I (sm_holding b)) p;
     if \<not> (sm_owned b \<and> alive) then Some p1
     else do {
       l \<leftarrow> resource_limit p1;
       let p2 = p1\<lparr>resource_limit := Some (snd (Release RLSharedMemory 1 l))\<rparr>;
       if base_address b \<noteq> 0
       then map_option snd (on_vm p2 (\<lambda>vm. ChangeMemoryState D vm (base_address b) (sm_size b) MSLocked PermNone
              MSPrivate PermReadWrite))
       else Some (p2\<lparr>memory_used := memory_used p2 - sm_size b\<rparr>) } }"

section \<open>Creation\<close>

text \<open>Memory of the region, at no address of the owner.\<close>

definition create_linear ::
  "'i IntervalOps \<Rightarrow> 'i SharedMemory \<Rightarrow> 'i ProcessMemory \<Rightarrow> ('i SharedMemory \<times> 'i ProcessMemory) option" where
  "create_linear I b p = do {
     (off, p1) \<leftarrow> upd_region (sm_region b) (Region_LinearAllocate I (sm_size b)) p;
     offset \<leftarrow> off;
     from \<leftarrow> GetFCRAMPointer offset;
     to \<leftarrow> GetFCRAMPointer (offset + sm_size b);
     ref \<leftarrow> GetFCRAMRef offset;
     let p2 = p1\<lparr>pm_vm := zero_fill from (snd to - snd from) (pm_vm p1)\<rparr>;
     Some (b\<lparr>sm_backing_blocks := [(ref, sm_size b)], linear_heap_phys_offset := offset,
             sm_holding := iset_add I (sm_holding b) (offset, offset + sm_size b)\<rparr>,
           if sm_owned b then p2\<lparr>memory_used := memory_used p2 + sm_size b\<rparr> else p2) }"

text \<open>Memory the owner has mapped already, which it can no longer change.\<close>

definition create_mapped ::
  "Devices \<Rightarrow> u32 \<Rightarrow> 'i SharedMemory \<Rightarrow> 'i ProcessMemory \<Rightarrow> ((result_code + 'i SharedMemory) \<times> 'i ProcessMemory) option" where
  "create_mapped D address b p = do {
     (res, p1) \<leftarrow> on_vm p (\<lambda>vm. ChangeMemoryState D vm address (sm_size b) MSPrivate PermReadWrite
                    MSLocked (ConvertPermissions (permissions b)));
     case res of
       Some e \<Rightarrow> Some (Inl e, p1)
     | None \<Rightarrow> do {
         r \<leftarrow> GetBackingBlocksForRange (pm_vm p1) address (sm_size b);
         case r of
           Inl _ \<Rightarrow> None
         | Inr bs \<Rightarrow> Some (Inr (b\<lparr>sm_backing_blocks := bs\<rparr>), p1) } }"

text \<open>A block that cannot be made is destroyed, with its owner and size already set.\<close>

definition CreateSharedMemory ::
  "'i IntervalOps \<Rightarrow> Devices \<Rightarrow> bool \<Rightarrow> u32 \<Rightarrow> u32 \<Rightarrow> u32 \<Rightarrow> u32 \<Rightarrow> nat \<Rightarrow> 'i ProcessMemory
     \<Rightarrow> ((result_code + 'i SharedMemory) \<times> 'i ProcessMemory) option" where
  "CreateSharedMemory I D owned sz perms other address region p =
     (let b = new_block I owned sz region perms other
      in if address = 0 then map_option (\<lambda>(b1, p1). (Inr b1, p1)) (create_linear I b p)
      else if \<not> owned then None
      else do {
        (r, p1) \<leftarrow> create_mapped D address b p;
        case r of
          Inl e \<Rightarrow> map_option (Pair (Inl e)) (SharedMemory_destroy I D True b p1)
        | Inr b1 \<Rightarrow> Some (Inr (b1\<lparr>base_address := address\<rparr>), p1) })"

fun applet_blocks ::
  "(u32 \<times> u32) list \<Rightarrow> 'i ProcessMemory \<Rightarrow> ((MemoryRef \<times> u32) list \<times> 'i ProcessMemory) option" where
  "applet_blocks [] p = Some ([], p)"
| "applet_blocks ((lo, hi) # bs) p = do {
     ref \<leftarrow> GetFCRAMRef lo;
     from \<leftarrow> GetFCRAMPointer lo;
     to \<leftarrow> GetFCRAMPointer hi;
     (rest, p1) \<leftarrow> applet_blocks bs (p\<lparr>pm_vm := zero_fill from (snd to - snd from) (pm_vm p)\<rparr>);
     Some ((ref, hi - lo) # rest, p1) }"

definition CreateSharedMemoryForApplet ::
  "'i IntervalOps \<Rightarrow> u32 \<Rightarrow> u32 \<Rightarrow> u32 \<Rightarrow> u32 \<Rightarrow> 'i ProcessMemory \<Rightarrow> ('i SharedMemory \<times> 'i ProcessMemory) option" where
  "CreateSharedMemoryForApplet I offset sz perms other p = do {
     (got, p1) \<leftarrow> upd_region SYSTEM_REGION (Region_HeapAllocate I sz) p;
     if iset_blocks I got = [] then None
     else do {
       (bs, p2) \<leftarrow> applet_blocks (iset_blocks I got) p1;
       Some ((new_block I False sz SYSTEM_REGION perms other)\<lparr>sm_holding := got, sm_backing_blocks := bs,
         base_address := HEAP_VADDR + offset\<rparr>, p2) } }"

section \<open>Mapping\<close>

text \<open>The checks of \<open>Map\<close> before it looks at the address space of the target.\<close>

definition map_refusal :: "bool \<Rightarrow> u32 \<Rightarrow> u32 \<Rightarrow> u32 \<Rightarrow> 'i SharedMemory \<Rightarrow> result_code option" where
  "map_refusal own address perms other b =
     (if base_address b = 0 \<and> other \<noteq> DontCare then Some ResultInvalidCombination
      else if perms AND NOT (if own then permissions b else other_permissions b) \<noteq> 0 then Some ResultInvalidCombination
      else if base_address b \<noteq> 0 \<and> other = DontCare then Some ResultInvalidCombination
      else if other \<noteq> DontCare \<and> permissions b AND NOT other \<noteq> 0 then Some ResultWrongPermission
      else if address \<noteq> 0 \<and> (address < HEAP_VADDR \<or> SHARED_MEMORY_VADDR_END \<le> address + sm_size b)
      then Some ResultInvalidAddress
      else None)"

definition target_of :: "u32 \<Rightarrow> 'i SharedMemory \<Rightarrow> u32" where
  "target_of address b =
     (if base_address b = 0 \<and> address = 0 then linear_heap_phys_offset b + LINEAR_HEAP_VADDR else address)"

definition SharedMemory_Map ::
  "Devices \<Rightarrow> bool \<Rightarrow> u32 \<Rightarrow> u32 \<Rightarrow> u32 \<Rightarrow> 'i SharedMemory \<Rightarrow> 'i ProcessMemory
     \<Rightarrow> (result_code option \<times> 'i ProcessMemory) option" where
  "SharedMemory_Map D own address perms other b p =
     (case map_refusal own address perms other b of
        Some e \<Rightarrow> Some (Some e, p)
      | None \<Rightarrow> do {
          ok \<leftarrow> area_free (vma_map (pm_vm p)) (target_of address b) (sm_size b);
          if \<not> ok then Some (Some ResultInvalidAddressState, p)
          else do {
            vm \<leftarrow> map_aliases D (ConvertPermissions perms) MSShared (target_of address b) (sm_backing_blocks b) (pm_vm p);
            Some (None, p\<lparr>pm_vm := vm\<rparr>) } })"

definition SharedMemory_Unmap ::
  "Devices \<Rightarrow> u32 \<Rightarrow> 'i SharedMemory \<Rightarrow> 'i ProcessMemory \<Rightarrow> (result_code option \<times> 'i ProcessMemory) option" where
  "SharedMemory_Unmap D address b p = on_vm p (\<lambda>vm. UnmapRange D vm address (sm_size b))"

definition GetPointer_of_block :: "u32 \<Rightarrow> 'i SharedMemory \<Rightarrow> MemoryRef option" where
  "GetPointer_of_block offset b =
     (case sm_backing_blocks b of
        [] \<Rightarrow> None
      | (ref, _) # _ \<Rightarrow> Some (map_option (\<lambda>(m, i). (m, i + unat offset)) ref))"

section \<open>Supervisor calls\<close>

definition VerifyPermissions :: "u32 \<Rightarrow> bool" where
  "VerifyPermissions permission \<longleftrightarrow> permission \<in> {0, 1, 2, 3, DontCare}"

text \<open>
  Handles of the process are to objects of the type \<open>'o\<close>, of which a block is one by \<open>object\<close>; \<open>block\<close>
  is the downcast. A block that gets no handle is destroyed.
\<close>

definition CreateMemoryBlock ::
  "'i IntervalOps \<Rightarrow> Devices \<Rightarrow> ('i SharedMemory \<Rightarrow> 'o) \<Rightarrow> bool \<Rightarrow> u32 \<Rightarrow> u32 \<Rightarrow> u32 \<Rightarrow> u32
     \<Rightarrow> 'o handle_table \<Rightarrow> 'i ProcessMemory \<Rightarrow> ((result_code + u32) \<times> 'o handle_table \<times> 'i ProcessMemory) option" where
  "CreateMemoryBlock I D object shared_device_mem addr sz my other t p =
     (if sz mod 0x1000 \<noteq> 0 then Some (Inl ResultMisalignedSize, t, p)
      else if \<not> VerifyPermissions my \<or> \<not> VerifyPermissions other then Some (Inl ResultInvalidCombination, t, p)
      else if (addr < PROCESS_IMAGE_VADDR \<or> SHARED_MEMORY_VADDR_END < addr + sz) \<and> addr \<noteq> 0
      then Some (Inl ResultInvalidAddress, t, p)
      else do {
        l \<leftarrow> resource_limit p;
        let (ok, l1) = Reserve RLSharedMemory 1 l;
        let p1 = p\<lparr>resource_limit := Some l1\<rparr>;
        if \<not> ok then Some (Inl ResultOutOfSharedMems, t, p1)
        else do {
          region \<leftarrow> (if addr = 0 \<and> shared_device_mem then memory_region p1 else Some BASE_REGION);
          (r, p2) \<leftarrow> CreateSharedMemory I D True sz my other addr region p1;
          case r of
            Inl e \<Rightarrow> Some (Inl e, t, p2)
          | Inr b \<Rightarrow>
              (case Create t (object b) of
                 (Inl e, t1) \<Rightarrow> map_option (\<lambda>p3. (Inl e, t1, p3)) (SharedMemory_destroy I D True b p2)
               | (Inr h, t1) \<Rightarrow> Some (Inr h, t1, p2)) } })"

definition MapMemoryBlock ::
  "Devices \<Rightarrow> ('o \<Rightarrow> 'i SharedMemory option) \<Rightarrow> ('i SharedMemory \<Rightarrow> bool) \<Rightarrow> u32 \<Rightarrow> u32 \<Rightarrow> u32 \<Rightarrow> u32
     \<Rightarrow> 'o handle_table \<Rightarrow> 'i ProcessMemory \<Rightarrow> (result_code option \<times> 'i ProcessMemory) option" where
  "MapMemoryBlock D block own handle addr perms other t p =
     (case lookup_handle t handle \<bind> block of
        None \<Rightarrow> Some (Some ResultInvalidHandle, p)
      | Some b \<Rightarrow>
          if perms \<in> {1, 2, 3, 4, 5, 6, 7, DontCare} then SharedMemory_Map D (own b) addr perms other b p
          else Some (Some ResultInvalidCombination, p))"

definition UnmapMemoryBlock ::
  "Devices \<Rightarrow> ('o \<Rightarrow> 'i SharedMemory option) \<Rightarrow> u32 \<Rightarrow> u32
     \<Rightarrow> 'o handle_table \<Rightarrow> 'i ProcessMemory \<Rightarrow> (result_code option \<times> 'i ProcessMemory) option" where
  "UnmapMemoryBlock D block handle addr t p =
     (case lookup_handle t handle \<bind> block of
        None \<Rightarrow> Some (Some ResultInvalidHandle, p)
      | Some b \<Rightarrow> SharedMemory_Unmap D addr b p)"

end
