(* ===== verification/SharedProps.thy ===== *)
theory SharedProps imports SharedMemory AliasProps begin

text \<open>
  Shared blocks: what another process sees of a block, what the end of a block gives back, and what
  the failed creation of a block leaves behind.
\<close>

section \<open>A block over memory of its owner\<close>

lemma create_mapped_spec:
  assumes vm: "space_ok (pm_vm p)" and al: "page_aligned address" "page_aligned (sm_size b)" and sz: "0 < unat (sm_size b)"
    and bound: "unat address + unat (sm_size b) \<le> MAXA" and os: "length os = unat (sm_size b)" "page_starts os"
    and src: "shows_fcram PermReadWrite MSPrivate (unat address) os (pm_vm p)"
  obtains vm' bl where "create_mapped D address b p = Some (Inr (b\<lparr>sm_backing_blocks := bl\<rparr>), p\<lparr>pm_vm := vm'\<rparr>)"
    "space_ok vm'" "concat (map ref_bytes bl) = os" "\<forall>q \<in> set bl. fcram_block q"
    "range_updated (with_state MSLocked (ConvertPermissions (permissions b))) address (sm_size b) (vma_map (pm_vm p)) (vma_map vm')"
    "shows_fcram (ConvertPermissions (permissions b)) MSLocked (unat address) os vm'"
proof -
  let ?q = "ConvertPermissions (permissions b)"
  have vm': "map_ok (vma_map (pm_vm p))" "\<not> is_locked (pm_vm p)" using vm by (simp_all add: space_ok_def)
  have e: "range_expected address (sm_size b) MSPrivate PermReadWrite (vma_map (pm_vm p))"
    using shows_state(2) [OF src os(1)] by simp
  from ChangeMemoryState_spec [OF vm'(1) al sz bound, of D MSPrivate PermReadWrite MSLocked ?q] obtain vm1 where
    c: "ChangeMemoryState D (pm_vm p) address (sm_size b) MSPrivate PermReadWrite MSLocked ?q = Some (None, vm1)" "space_ok vm1"
      "range_updated (with_state MSLocked ?q) address (sm_size b) (vma_map (pm_vm p)) (vma_map vm1)"
    using vm'(2) shows_state(1) [OF src os(1)] e by (auto simp: space_ok_def)
  have locked: "shows_fcram ?q MSLocked (unat address) os vm1" by (rule updated_shows [OF c(3) refl src os(1)])
  obtain bl where bl: "GetBackingBlocksForRange vm1 address (sm_size b) = Some (Inr bl)" "concat (map ref_bytes bl) = os"
    "\<forall>q \<in> set bl. fcram_block q"
    by (rule GetBackingBlocksForRange_spec [OF c(2) al os(1) sz bound os(2) shows_mapped [OF locked]])
  from that [OF _ c(2) bl(2,3) c(3) locked] c(1) bl(1) show thesis by (simp add: create_mapped_def on_vm_def)
qed

lemma CreateSharedMemory_mapped:
  assumes p: "space_ok (pm_vm p)" and addr: "address \<noteq> 0" and al: "page_aligned address" "page_aligned sz" "0 < unat sz"
    and bound: "unat address + unat sz \<le> MAXA" and os: "length os = unat sz" "page_starts os"
    and src: "shows_fcram PermReadWrite MSPrivate (unat address) os (pm_vm p)"
  obtains vm' bl where "CreateSharedMemory I D True sz perms other address k p
      = Some (Inr ((new_block I True sz k perms other)\<lparr>sm_backing_blocks := bl, base_address := address\<rparr>), p\<lparr>pm_vm := vm'\<rparr>)"
    "space_ok vm'" "concat (map ref_bytes bl) = os" "\<forall>q \<in> set bl. fcram_block q"
    "range_updated (with_state MSLocked (ConvertPermissions perms)) address sz (vma_map (pm_vm p)) (vma_map vm')"
    "shows_fcram (ConvertPermissions perms) MSLocked (unat address) os vm'"
  by (rule create_mapped_spec [of p address "new_block I True sz k perms other" os D])
    (use assms in \<open>simp_all add: new_block_def CreateSharedMemory_def\<close>)

section \<open>Mapping\<close>

lemma inside_shared:
  assumes "HEAP_VADDR \<le> target" "unat target + unat sz < unat SHARED_MEMORY_VADDR_END"
  shows "\<not> (target \<noteq> 0 \<and> (target < HEAP_VADDR \<or> SHARED_MEMORY_VADDR_END \<le> target + sz))"
    "unat target + unat sz \<le> MAXA" "target \<noteq> 0"
proof -
  have n: "unat SHARED_MEMORY_VADDR_END = 0x14000000" by (simp add: SHARED_MEMORY_VADDR_END_def)
  have "unat (target + sz) = unat target + unat sz" using assms(2) n by (intro unat_plus_no_wrap_u32) simp
  then show "\<not> (target \<noteq> 0 \<and> (target < HEAP_VADDR \<or> SHARED_MEMORY_VADDR_END \<le> target + sz))"
    using assms by (auto simp: word_le_nat_alt word_less_nat_alt)
  show "unat target + unat sz \<le> MAXA" using assms(2) n by simp
  show "target \<noteq> 0" using assms(1) by (auto simp: HEAP_VADDR_def)
qed

lemma SharedMemory_Map_spec:
  assumes q: "memory_ok I ok q" and al: "page_aligned target" and sz: "0 < unat (sm_size b)"
    and range: "HEAP_VADDR \<le> target" "unat target + unat (sm_size b) < unat SHARED_MEMORY_VADDR_END"
    and bl: "\<forall>q \<in> set (sm_backing_blocks b). fcram_block q" "concat (map ref_bytes (sm_backing_blocks b)) = os"
    and os: "length os = unat (sm_size b)" "set os \<subseteq> {..<unat FCRAM_N3DS_SIZE}"
    and ok: "map_refusal own target perms other b = None"
  shows "if \<not> range_free target (sm_size b) (pm_vm q)
    then SharedMemory_Map D own target perms other b q = Some (Some ResultInvalidAddressState, q)
    else \<exists>vm. SharedMemory_Map D own target perms other b q = Some (None, q\<lparr>pm_vm := vm\<rparr>) \<and> memory_ok I ok (q\<lparr>pm_vm := vm\<rparr>)
      \<and> shows_fcram (ConvertPermissions perms) MSShared (unat target) os vm
      \<and> spills_perms {unat target..<unat target + unat (sm_size b)} (ConvertPermissions perms) MSShared (pm_vm q) vm"
proof -
  have vm: "space_ok (pm_vm q)" using q by (simp add: memory_ok_def)
  note r = inside_shared [OF range]
  have t: "target_of target b = target" using r(3) by (simp add: target_of_def)
  note free = area_free_iff [OF vm sz r(2)]
  show ?thesis
  proof (cases "range_free target (sm_size b) (pm_vm q)")
    case True
    have "\<forall>q \<in> set (sm_backing_blocks b). fcram_block q \<and> set (ref_bytes q) \<subseteq> {..<unat FCRAM_N3DS_SIZE}"
      using bl(1) os(2) unfolding bl(2) [symmetric] by fastforce
    from map_aliases_spec [OF vm this al, unfolded bl(2) os(1), OF r(2) True, of D "ConvertPermissions perms" MSShared]
    show ?thesis using True ok memory_ok_vm [OF q] by (auto simp: SharedMemory_Map_def t free)
  next
    case False
    then show ?thesis using ok by (simp add: SharedMemory_Map_def t free)
  qed
qed

text \<open>
  C32: A block made over private, readable and writable memory of its owner, mapped by another process at
  a page-aligned address other than 0 (which is not checked) from which the block does not wrap round
  the address space. The call is refused, and changes nothing, when the permissions of others are left
  open or more is asked for than the owner allows to others (\<open>ResultInvalidCombination\<close>), when the
  owner's own permissions are not among those conceded (\<open>ResultWrongPermission\<close>), when the target
  begins before the heap or does not end before the end of the shared range (\<open>ResultInvalidAddress\<close>),
  and when some address of the target is mapped (\<open>ResultInvalidAddressState\<close>). Otherwise it succeeds
  and the process sees, byte for byte, the memory that the owner sees at the address of the block,
  with the permissions it asked for.
\<close>

theorem SharedMemory_Map_shows_owner_memory:
  assumes "memory_ok I ok p" "address \<noteq> 0" "page_aligned address" "page_aligned sz" "0 < unat sz"
    and "unat address + unat sz \<le> MAXA" "length os = unat sz" "page_starts os" "set os \<subseteq> {..<unat FCRAM_N3DS_SIZE}"
    and "shows_fcram PermReadWrite MSPrivate (unat address) os (pm_vm p)"
    and created: "CreateSharedMemory I D True sz perms other address k p = Some (Inr b, p1)"
    and q: "memory_ok I ok q" "page_aligned target" "target \<noteq> 0" "unat target + unat sz < 2 ^ 32"
  shows "shows_fcram (ConvertPermissions perms) MSLocked (unat address) os (pm_vm p1)
    \<and> (if their = DontCare \<or> mine AND NOT other \<noteq> 0
       then SharedMemory_Map D' False target mine their b q = Some (Some ResultInvalidCombination, q)
       else if perms AND NOT their \<noteq> 0
       then SharedMemory_Map D' False target mine their b q = Some (Some ResultWrongPermission, q)
       else if target < HEAP_VADDR \<or> SHARED_MEMORY_VADDR_END \<le> target + sz
       then SharedMemory_Map D' False target mine their b q = Some (Some ResultInvalidAddress, q)
       else if \<not> range_free target sz (pm_vm q)
       then SharedMemory_Map D' False target mine their b q = Some (Some ResultInvalidAddressState, q)
       else \<exists>vm. SharedMemory_Map D' False target mine their b q = Some (None, q\<lparr>pm_vm := vm\<rparr>)
         \<and> memory_ok I ok (q\<lparr>pm_vm := vm\<rparr>) \<and> shows_fcram (ConvertPermissions mine) MSShared (unat target) os vm)"
proof -
  have vm: "space_ok (pm_vm p)" using assms(1) by (simp add: memory_ok_def)
  obtain vm' bl where c: "CreateSharedMemory I D True sz perms other address k p
      = Some (Inr ((new_block I True sz k perms other)\<lparr>sm_backing_blocks := bl, base_address := address\<rparr>), p\<lparr>pm_vm := vm'\<rparr>)"
    "concat (map ref_bytes bl) = os" "\<forall>q \<in> set bl. fcram_block q"
    "shows_fcram (ConvertPermissions perms) MSLocked (unat address) os vm'"
    by (rule CreateSharedMemory_mapped [OF vm assms(2-8,10)])
  then have b: "b = (new_block I True sz k perms other)\<lparr>sm_backing_blocks := bl, base_address := address\<rparr>"
    and p1: "p1 = p\<lparr>pm_vm := vm'\<rparr>" using created by simp_all
  have size: "sm_size b = sz" by (simp add: b new_block_def)
  have r: "map_refusal False target mine their b =
      (if their = DontCare \<or> mine AND NOT other \<noteq> 0 then Some ResultInvalidCombination
       else if perms AND NOT their \<noteq> 0 then Some ResultWrongPermission
       else if target < HEAP_VADDR \<or> SHARED_MEMORY_VADDR_END \<le> target + sz then Some ResultInvalidAddress else None)"
    using assms(2) q(3) by (auto simp: map_refusal_def b new_block_def)
  have m: "SharedMemory_Map D' False target mine their b q = Some (Some e, q)"
    if "map_refusal False target mine their b = Some e" for e
    using that by (simp add: SharedMemory_Map_def)
  note s = SharedMemory_Map_spec [OF q(1,2), of b os False mine their D', unfolded size, OF assms(5) _ _ _ _ assms(7,9)]
  have owner: "shows_fcram (ConvertPermissions perms) MSLocked (unat address) os (pm_vm p1)" using c(4) by (simp add: p1)
  have bl: "\<forall>q \<in> set (sm_backing_blocks b). fcram_block q" "concat (map ref_bytes (sm_backing_blocks b)) = os"
    using c(2,3) by (simp_all add: b)
  show ?thesis
  proof (cases "map_refusal False target mine their b")
    case None
    from None have no: "\<not> (their = DontCare \<or> mine AND NOT other \<noteq> 0)" "\<not> perms AND NOT their \<noteq> 0"
      "\<not> (target < HEAP_VADDR \<or> SHARED_MEMORY_VADDR_END \<le> target + sz)"
      unfolding r by (simp_all split: if_splits)
    then have place: "HEAP_VADDR \<le> target" "unat target + unat sz < unat SHARED_MEMORY_VADDR_END"
      using q(4) by (simp_all add: not_less not_le word_less_nat_alt word_le_nat_alt unat_plus_no_wrap_u32)
    note mapped = s [OF place bl None]
    note choice = if_not_P [OF no(1)] if_not_P [OF no(2)] if_not_P [OF no(3)]
    show ?thesis unfolding choice using mapped owner by (cases "range_free target sz (pm_vm q)") auto
  next
    case (Some e)
    with m [OF Some] owner show ?thesis unfolding r by (simp split: if_splits)
  qed
qed

section \<open>The end of a block\<close>

lemma Release_Reserve: "snd (Release ty n (snd (Reserve ty n l))) = l"
  by (simp add: Release_def Reserve_def)

text \<open>
  C: The end of a block over memory of its owner: the limit gets its place back and every address of
  the owner is as it was before the block was made, the range of the block private, readable and
  writable again; the regions keep what they have.
\<close>

theorem SharedMemory_destroy_unlocks_owner:
  assumes "interval_set I ok" "memory_ok I ok p" "address \<noteq> 0" "page_aligned address" "page_aligned sz" "0 < unat sz"
    and "unat address + unat sz \<le> MAXA" "length os = unat sz" "page_starts os"
    and src: "shows_fcram PermReadWrite MSPrivate (unat address) os (pm_vm p)"
    and created: "CreateSharedMemory I D True sz perms other address k p = Some (Inr b, p1)"
  shows "\<exists>vm. SharedMemory_destroy I D' True b p1
      = Some (p\<lparr>pm_vm := vm, resource_limit := map_option (snd \<circ> Release RLSharedMemory 1) (resource_limit p)\<rparr>)
    \<and> space_ok vm \<and> (\<forall>a. attrs vm a = attrs (pm_vm p) a)"
proof -
  have vm: "space_ok (pm_vm p)" using assms(2) by (simp add: memory_ok_def)
  obtain l where l: "resource_limit p = Some l" using assms(2) by (auto simp: memory_ok_def)
  obtain vm' bl where c: "CreateSharedMemory I D True sz perms other address k p
      = Some (Inr ((new_block I True sz k perms other)\<lparr>sm_backing_blocks := bl, base_address := address\<rparr>), p\<lparr>pm_vm := vm'\<rparr>)"
    "space_ok vm'"
    "range_updated (with_state MSLocked (ConvertPermissions perms)) address sz (vma_map (pm_vm p)) (vma_map vm')"
    "shows_fcram (ConvertPermissions perms) MSLocked (unat address) os vm'"
    by (rule CreateSharedMemory_mapped [OF vm assms(3-9) src])
  then have b: "b = (new_block I True sz k perms other)\<lparr>sm_backing_blocks := bl, base_address := address\<rparr>"
    and p1: "p1 = p\<lparr>pm_vm := vm'\<rparr>" using created by simp_all
  have vm1: "map_ok (vma_map vm')" "\<not> is_locked vm'" using c(2) by (simp_all add: space_ok_def)
  have e: "range_expected address sz MSLocked PermNone (vma_map vm')"
    using shows_state(2) [OF c(4) assms(8), of PermNone] by (simp add: PermNone_def)
  from ChangeMemoryState_spec [OF vm1(1) assms(4-7), of D' MSLocked PermNone MSPrivate PermReadWrite] obtain vm2 where
    u: "ChangeMemoryState D' vm' address sz MSLocked PermNone MSPrivate PermReadWrite = Some (None, vm2)" "space_ok vm2"
      "range_updated (with_state MSPrivate PermReadWrite) address sz (vma_map vm') (vma_map vm2)"
    using vm1(2) shows_state(1) [OF c(4) assms(8)] e by (auto simp: space_ok_def)
  have "attrs vm2 a = attrs (pm_vm p) a" for a
  proof (cases "unat address \<le> a \<and> a < unat address + unat sz")
    case True
    then have "attrs (pm_vm p) a = Some (backed PermReadWrite MSPrivate (RegionMem FCRAM) (os ! (a - unat address)) a)"
      using src assms(8) by (auto simp: shows_fcram_def dest: spec [of _ "a - unat address"])
    with True c(3) u(3) show ?thesis by (simp add: range_updated_def with_state_def backed_def)
  next
    case False
    with c(3) u(3) show ?thesis by (auto simp: range_updated_def)
  qed
  moreover have "SharedMemory_destroy I D' True b p1
      = Some (p\<lparr>pm_vm := vm2, resource_limit := map_option (snd \<circ> Release RLSharedMemory 1) (resource_limit p)\<rparr>)"
    using assms(3) u(1) l interval_set.empty_blocks [OF assms(1)]
    by (simp add: SharedMemory_destroy_def b p1 new_block_def on_vm_def Let_def)
  ultimately show ?thesis using u(2) by blast
qed

section \<open>A block of its own\<close>

lemma read_zero_filled [simp]: "read_bytes (bytes (vm_memory (zero_fill (c, i) n vm))) c i n = replicate n 0"
  by (simp add: zero_fill_def Let_def)

context interval_set
begin

lemma free_region_blocks_spec:
  "separated n bs \<Longrightarrow> aligned_blocks bs \<Longrightarrow> k < length (memory_regions p) \<Longrightarrow>
    region_ok I ok (memory_regions p ! k) \<Longrightarrow> \<not> mr_locked (memory_regions p ! k) \<Longrightarrow>
    covered bs \<subseteq> extent (memory_regions p ! k) - free_bytes I (memory_regions p ! k) \<Longrightarrow>
    \<exists>r'. free_region_blocks I k bs p = Some (p\<lparr>memory_regions := (memory_regions p)[k := r']\<rparr>)
      \<and> region_ok I ok r' \<and> \<not> mr_locked r' \<and> extent r' = extent (memory_regions p ! k)
      \<and> free_bytes I r' = free_bytes I (memory_regions p ! k) \<union> covered bs"
proof (induction bs arbitrary: n p)
  case Nil
  then show ?case by (intro exI [of _ "memory_regions p ! k"]) simp
next
  case (Cons b bs)
  obtain lo hi where b: "b = (lo, hi)" by (cases b)
  from Cons.prems(1,2) have s: "lo < hi" "separated (Suc (unat hi)) bs" "4096 dvd unat lo" "4096 dvd unat hi" "aligned_blocks bs"
    by (auto simp: b aligned_blocks_def)
  have sub: "{unat lo..<unat hi} \<subseteq> extent (memory_regions p ! k) - free_bytes I (memory_regions p ! k)"
    using Cons.prems(6) by (auto simp: b)
  obtain r1 where r1: "upd_region k (\<lambda>r. map_option (Pair ()) (Region_Free I lo (hi - lo) r)) p
      = Some ((), p\<lparr>memory_regions := (memory_regions p)[k := r1]\<rparr>)"
    "region_ok I ok r1" "\<not> mr_locked r1" "extent r1 = extent (memory_regions p ! k)"
    "free_bytes I r1 = free_bytes I (memory_regions p ! k) \<union> {unat lo..<unat hi}"
    using give_block [OF Cons.prems(3-5) s(1,3,4) sub] by blast
  let ?p1 = "p\<lparr>memory_regions := (memory_regions p)[k := r1]\<rparr>"
  have "covered bs \<inter> {unat lo..<unat hi} = {}" using separated_above [OF s(2)] by fastforce
  then have "covered bs \<subseteq> extent r1 - free_bytes I r1" using Cons.prems(6) unfolding r1(4,5) by (auto simp: b)
  with Cons.IH [OF s(2,5), of ?p1] Cons.prems(3) r1(2,3) obtain r2 where
    "free_region_blocks I k bs ?p1 = Some (?p1\<lparr>memory_regions := (memory_regions ?p1)[k := r2]\<rparr>)"
    "region_ok I ok r2" "\<not> mr_locked r2" "extent r2 = extent r1" "free_bytes I r2 = free_bytes I r1 \<union> covered bs" by auto
  then show ?case using r1(1,4,5) by (intro exI [of _ r2]) (simp add: b Un_assoc)
qed

lemma create_linear_spec:
  assumes k: "k < length (memory_regions p)" and r: "region_ok I ok (memory_regions p ! k)" "\<not> mr_locked (memory_regions p ! k)"
    and sz: "page_aligned (sm_size b)" "0 < unat (sm_size b)" and b: "sm_region b = k" "sm_holding b = iset_empty I" "sm_owned b"
    and room: "{j..<j + unat (sm_size b)} \<subseteq> free_bytes I (memory_regions p ! k)"
  obtains off r' where "create_linear I b p = Some (b\<lparr>sm_backing_blocks := [(Some (RegionMem FCRAM, unat off), sm_size b)],
        linear_heap_phys_offset := off, sm_holding := iset_add I (iset_empty I) (off, off + sm_size b)\<rparr>,
      p\<lparr>memory_regions := (memory_regions p)[k := r'],
        pm_vm := zero_fill (RegionMem FCRAM, unat off) (unat (sm_size b)) (pm_vm p), memory_used := memory_used p + sm_size b\<rparr>)"
    "region_ok I ok r'" "\<not> mr_locked r'" "extent r' = extent (memory_regions p ! k)" "4096 dvd unat off"
    "{unat off..<unat off + unat (sm_size b)} \<subseteq> free_bytes I (memory_regions p ! k)"
    "free_bytes I r' = free_bytes I (memory_regions p ! k) - {unat off..<unat off + unat (sm_size b)}"
    "unat off + unat (sm_size b) \<le> unat FCRAM_N3DS_SIZE"
proof -
  let ?r = "memory_regions p ! k" and ?sz = "sm_size b"
  have "4096 dvd unat ?sz" using sz(1) by (simp add: page_aligned_dvd)
  with Region_LinearAllocate_spec [OF r sz(2)] room obtain off r' where
    f: "Region_LinearAllocate I ?sz ?r = Some (Some off, r')" "{unat off..<unat off + unat ?sz} \<subseteq> free_bytes I ?r"
      "free_bytes I r' = free_bytes I ?r - {unat off..<unat off + unat ?sz}" "4096 dvd unat off"
      "mr_base r' = mr_base ?r" "mr_size r' = mr_size ?r" "\<not> mr_locked r'" "region_ok I ok r'" by (auto split: if_splits)
  have "unat off + unat ?sz - 1 \<in> {unat off..<unat off + unat ?sz}" using sz(2) by simp
  then have "unat off + unat ?sz - 1 \<in> extent ?r" using f(2) r(1) by (auto simp: region_ok_def)
  then have bound: "unat off + unat ?sz \<le> unat FCRAM_N3DS_SIZE" using r(1) sz(2) by (auto simp: region_ok_def extent_def)
  then have sum: "unat (off + ?sz) = unat off + unat ?sz" by (simp add: unat_plus_no_wrap_u32)
  have refs: "GetFCRAMPointer off = Some (RegionMem FCRAM, unat off)"
    "GetFCRAMPointer (off + ?sz) = Some (RegionMem FCRAM, unat off + unat ?sz)"
    "GetFCRAMRef off = Some (Some (RegionMem FCRAM, unat off))"
    using bound sum by (simp_all add: GetFCRAMPointer_def GetFCRAMRef_def make_ref_def word_le_nat_alt)
  have "extent r' = extent ?r" using f(5,6) by (simp add: extent_def)
  with that [of off r'] f bound show thesis
    using k b refs by (simp add: create_linear_def upd_region_def Let_def)
qed

end

text \<open>
  C33: A block that is not made over memory of its owner: when its region has a run of free bytes of the
  size, the block takes a run of them, which becomes zero and is its one backing block, and the
  process is charged for it; when there is no such run the program aborts. The end of the block gives
  back exactly these bytes, the charge and one place of the limit.
\<close>

theorem SharedMemory_destroy_returns_bytes:
  assumes I: "interval_set I ok" and k: "k < length (memory_regions p)" "memory_regions p ! k = r"
    and l: "resource_limit p = Some l" and r: "region_ok I ok r" "\<not> mr_locked r" and sz: "page_aligned sz" "0 < unat sz"
  shows "if \<exists>j. {j..<j + unat sz} \<subseteq> free_bytes I r
    then \<exists>b p1 p2 i. CreateSharedMemory I D True sz perms other 0 k p = Some (Inr b, p1)
      \<and> sm_backing_blocks b = [(Some (RegionMem FCRAM, i), sz)] \<and> {i..<i + unat sz} \<subseteq> free_bytes I r
      \<and> free_bytes I (memory_regions p1 ! k) = free_bytes I r - {i..<i + unat sz} \<and> memory_used p1 = memory_used p + sz
      \<and> read_bytes (bytes (vm_memory (pm_vm p1))) (RegionMem FCRAM) i (unat sz) = replicate (unat sz) 0
      \<and> SharedMemory_destroy I D' True b p1 = Some p2
      \<and> region_ok I ok (memory_regions p2 ! k) \<and> free_bytes I (memory_regions p2 ! k) = free_bytes I r
      \<and> memory_used p2 = memory_used p \<and> resource_limit p2 = Some (snd (Release RLSharedMemory 1 l))
    else CreateSharedMemory I D True sz perms other 0 k p = None"
proof (cases "\<exists>j. {j..<j + unat sz} \<subseteq> free_bytes I r")
  case False
  with interval_set.Region_LinearAllocate_spec [OF I r sz(2)] k show ?thesis
    by (simp add: CreateSharedMemory_def new_block_def create_linear_def upd_region_def)
next
  case True
  let ?b = "new_block I True sz k perms other"
  have b: "sm_size ?b = sz" "sm_region ?b = k" "sm_holding ?b = iset_empty I" "sm_owned ?b" "base_address ?b = 0"
    by (simp_all add: new_block_def)
  from True k(2) obtain j where room: "{j..<j + unat (sm_size ?b)} \<subseteq> free_bytes I (memory_regions p ! k)" by (auto simp: b)
  obtain off r' where c: "create_linear I ?b p = Some (?b\<lparr>sm_backing_blocks := [(Some (RegionMem FCRAM, unat off), sz)],
        linear_heap_phys_offset := off, sm_holding := iset_add I (iset_empty I) (off, off + sz)\<rparr>,
      p\<lparr>memory_regions := (memory_regions p)[k := r'],
        pm_vm := zero_fill (RegionMem FCRAM, unat off) (unat sz) (pm_vm p), memory_used := memory_used p + sz\<rparr>)"
    and r': "region_ok I ok r'" "\<not> mr_locked r'" "extent r' = extent r" "4096 dvd unat off"
      "{unat off..<unat off + unat sz} \<subseteq> free_bytes I r" "free_bytes I r' = free_bytes I r - {unat off..<unat off + unat sz}"
    and bound: "unat off + unat sz \<le> unat FCRAM_N3DS_SIZE"
    by (rule interval_set.create_linear_spec [OF I k(1), of ?b j]) (use r sz k(2) room in \<open>simp_all add: b\<close>)
  let ?h = "iset_add I (iset_empty I) (off, off + sz)" and ?p1 = "snd (the (create_linear I ?b p))"
  have span: "span (off, off + sz) = {unat off..<unat off + unat sz}" using bound by (simp add: unat_plus_no_wrap_u32)
  have h: "ok ?h" "members I ?h = {unat off..<unat off + unat sz}"
    using interval_set.add_ok [OF I interval_set.empty_ok [OF I]] span
      interval_set.add_members [OF I interval_set.empty_ok [OF I], of "(off, off + sz)"] interval_set.empty_blocks [OF I] by simp_all
  have sep: "separated 0 (iset_blocks I ?h)" using interval_set.blocks_separated [OF I h(1)] .
  have "aligned_blocks (iset_blocks I ?h)"
    using paged_blocks_aligned [OF sep] paged_interval [OF r'(4) dvd_add [OF r'(4), of "unat sz"]] sz(1)
    by (simp add: h(2) page_aligned_dvd)
  moreover have "members I ?h \<subseteq> extent r' - free_bytes I r'"
    using h(2) r'(3,5,6) r(1) unfolding region_ok_def by blast
  ultimately obtain r2 where
    f: "free_region_blocks I k (iset_blocks I ?h) ?p1 = Some (?p1\<lparr>memory_regions := (memory_regions ?p1)[k := r2]\<rparr>)"
      "region_ok I ok r2" "free_bytes I r2 = free_bytes I r' \<union> {unat off..<unat off + unat sz}"
    using interval_set.free_region_blocks_spec [OF I sep, of k ?p1] k(1) r'(1,2) h(2) by (auto simp: c)
  have "CreateSharedMemory I D True sz perms other 0 k p = Some (Inr (fst (the (create_linear I ?b p))), ?p1)"
    by (simp add: CreateSharedMemory_def c)
  moreover have "SharedMemory_destroy I D' True (fst (the (create_linear I ?b p))) ?p1
    = Some (p\<lparr>memory_regions := (memory_regions p)[k := r2], pm_vm := zero_fill (RegionMem FCRAM, unat off) (unat sz) (pm_vm p),
        resource_limit := Some (snd (Release RLSharedMemory 1 l))\<rparr>)"
    using f(1) l by (simp add: SharedMemory_destroy_def c b Let_def)
  ultimately show ?thesis using True f(2,3) r'(5,6) k(1) by (auto simp: c)
qed

section \<open>A block that cannot be made\<close>

text \<open>
  C34: The request for a block over memory that is not, or not everywhere, private, readable and writable
  memory of the process is refused with \<open>ResultInvalidAddressState\<close> and the limit is as before, but the
  process is given back the size of the block, which it was never charged for: its count of used
  memory falls by it, below zero when it was smaller.
\<close>

theorem CreateMemoryBlock_failure_lowers_memory_used:
  assumes "interval_set I ok" "memory_ok I ok p" "page_aligned address" "page_aligned sz" "0 < unat sz"
    and "VerifyPermissions my" "VerifyPermissions other"
    and range: "PROCESS_IMAGE_VADDR \<le> address" "unat address + unat sz \<le> unat SHARED_MEMORY_VADDR_END"
    and bad: "range_has_free address sz (vma_map (pm_vm p))
      \<or> \<not> range_expected address sz MSPrivate PermReadWrite (vma_map (pm_vm p))"
  shows "CreateMemoryBlock I D object device address sz my other t p
    = Some (Inl ResultInvalidAddressState, t, p\<lparr>memory_used := memory_used p - sz\<rparr>)"
proof -
  obtain l where l: "resource_limit p = Some l" and vm: "map_ok (vma_map (pm_vm p))" "\<not> is_locked (pm_vm p)"
    using assms(2) by (auto simp: memory_ok_def space_ok_def)
  have n: "unat SHARED_MEMORY_VADDR_END = 0x14000000" by (simp add: SHARED_MEMORY_VADDR_END_def)
  have sum: "unat (address + sz) = unat address + unat sz" using range(2) n by (intro unat_plus_no_wrap_u32) simp
  have a: "address \<noteq> 0" using range(1) by (auto simp: PROCESS_IMAGE_VADDR_def)
  have inside: "\<not> (address < PROCESS_IMAGE_VADDR \<or> SHARED_MEMORY_VADDR_END < address + sz)"
    using range sum by (auto simp: word_le_nat_alt word_less_nat_alt)
  have "unat (sz mod 0x1000) = 0" using assms(4) by (simp add: page_aligned_dvd unat_mod_distrib)
  then have size: "sz mod 0x1000 = 0" by (simp only: unsigned_eq_0_iff)
  have "unat address + unat sz \<le> MAXA" using range(2) n by simp
  from ChangeMemoryState_spec [OF vm(1) assms(3-5) this, of D MSPrivate PermReadWrite MSLocked "ConvertPermissions my"] vm(2) bad
  have e: "ChangeMemoryState D (pm_vm p) address sz MSPrivate PermReadWrite MSLocked (ConvertPermissions my)
      = Some (Some ResultInvalidAddressState, pm_vm p)" by simp
  obtain l1 where l1: "Reserve RLSharedMemory 1 l = (True, l1)" by (simp add: Reserve_def)
  have restored: "p\<lparr>resource_limit := Some (snd (Release RLSharedMemory 1 l1))\<rparr> = p"
    using l Release_Reserve [of RLSharedMemory 1 l] by (simp add: l1)
  have c: "CreateSharedMemory I D True sz my other address k (p\<lparr>resource_limit := Some l1\<rparr>)
      = Some (Inl ResultInvalidAddressState, p\<lparr>memory_used := memory_used p - sz\<rparr>)" for k
    using a e restored interval_set.empty_blocks [OF assms(1)]
    by (simp add: CreateSharedMemory_def new_block_def create_mapped_def on_vm_def SharedMemory_destroy_def Let_def)
  show ?thesis
    using size assms(6,7) inside a l c l1
    by (simp add: CreateMemoryBlock_def Let_def)
qed

section \<open>Witnesses\<close>

abbreviation sample_shared :: u32 where "sample_shared \<equiv> 0x10000000"

lemma sample_bounds:
  "page_aligned sample_shared" "HEAP_VADDR \<le> sample_shared"
  "unat sample_shared + unat (0x2000 :: u32) < unat SHARED_MEMORY_VADDR_END"
  "sample_shared \<noteq> 0" "unat sample_shared + unat (0x2000 :: u32) < 2 ^ 32"
  "\<not> (sample_shared < HEAP_VADDR \<or> SHARED_MEMORY_VADDR_END \<le> sample_shared + 0x2000)"
  by (simp_all add: page_aligned_def HEAP_VADDR_def SHARED_MEMORY_VADDR_END_def)

text \<open>A block made over two pages of the heap.\<close>

lemma sample_block:
  obtains p1 os b p2 where "Process_HeapAllocate list_set_ops D sample_source 0x2000 PermReadWrite MSPrivate False sample_process
      = Some (Inr sample_source, p1)" "memory_ok list_set_ops (separated 0) p1"
    "length os = unat (0x2000 :: u32)" "page_starts os" "set os \<subseteq> {..<unat FCRAM_N3DS_SIZE}"
    "shows_fcram PermReadWrite MSPrivate (unat sample_source) os (pm_vm p1)"
    "CreateSharedMemory list_set_ops D True 0x2000 3 1 sample_source BASE_REGION p1 = Some (Inr b, p2)"
proof (rule sample_heap_mapped [of D])
  fix p1 os
  assume a: "Process_HeapAllocate list_set_ops D sample_source 0x2000 PermReadWrite MSPrivate False sample_process
      = Some (Inr sample_source, p1)" "memory_ok list_set_ops (separated 0) p1"
    "length os = unat (0x2000 :: u32)" "page_starts os" "set os \<subseteq> {..<unat FCRAM_N3DS_SIZE}"
    "shows_fcram PermReadWrite MSPrivate (unat sample_source) os (pm_vm p1)" "range_free sample_target 0x2000 (pm_vm p1)"
  have vm: "space_ok (pm_vm p1)" using a(2) by (simp add: memory_ok_def)
  show thesis
    by (rule CreateSharedMemory_mapped [OF vm _ sample_ranges(5,6) _ _ a(3,4,6), of list_set_ops D 3 1 BASE_REGION])
      (use that a(1-6) in auto)
qed

lemma SharedMemory_Map_shows_owner_memory_witness:
  "\<forall>D. \<exists>p1 b p2 vm. Process_HeapAllocate list_set_ops D sample_source 0x2000 PermReadWrite MSPrivate False sample_process
      = Some (Inr sample_source, p1)
    \<and> CreateSharedMemory list_set_ops D True 0x2000 3 1 sample_source BASE_REGION p1 = Some (Inr b, p2)
    \<and> SharedMemory_Map D False sample_shared 3 3 b sample_process = Some (Some ResultInvalidCombination, sample_process)
    \<and> SharedMemory_Map D False sample_shared 1 3 b sample_process = Some (None, sample_process\<lparr>pm_vm := vm\<rparr>)"
proof
  fix D
  obtain p1 os b p2 where a: "Process_HeapAllocate list_set_ops D sample_source 0x2000 PermReadWrite MSPrivate False sample_process
      = Some (Inr sample_source, p1)" "memory_ok list_set_ops (separated 0) p1"
    "length os = unat (0x2000 :: u32)" "page_starts os" "set os \<subseteq> {..<unat FCRAM_N3DS_SIZE}"
    "shows_fcram PermReadWrite MSPrivate (unat sample_source) os (pm_vm p1)"
    "CreateSharedMemory list_set_ops D True 0x2000 3 1 sample_source BASE_REGION p1 = Some (Inr b, p2)"
    by (rule sample_block)
  have free: "\<not> \<not> range_free sample_shared 0x2000 (pm_vm sample_process)"
    using sample_space_free [of sample_shared "0x2000"] by simp
  note m = SharedMemory_Map_shows_owner_memory [OF a(2) _ sample_ranges(5,6) _ _ a(3-7) sample_memory_ok sample_bounds(1,4,5)]
  have "\<exists>vm. SharedMemory_Map D False sample_shared 1 3 b sample_process = Some (None, sample_process\<lparr>pm_vm := vm\<rparr>)"
    using m [of 3 1 D, unfolded if_not_P [OF free] if_not_P [OF sample_bounds(6)]] by (auto simp: DontCare_def)
  moreover have "SharedMemory_Map D False sample_shared 3 3 b sample_process = Some (Some ResultInvalidCombination, sample_process)"
    using m [of 3 3 D] by (simp add: DontCare_def)
  ultimately show "\<exists>p1 b p2 vm. Process_HeapAllocate list_set_ops D sample_source 0x2000 PermReadWrite MSPrivate False sample_process
      = Some (Inr sample_source, p1)
    \<and> CreateSharedMemory list_set_ops D True 0x2000 3 1 sample_source BASE_REGION p1 = Some (Inr b, p2)
    \<and> SharedMemory_Map D False sample_shared 3 3 b sample_process = Some (Some ResultInvalidCombination, sample_process)
    \<and> SharedMemory_Map D False sample_shared 1 3 b sample_process = Some (None, sample_process\<lparr>pm_vm := vm\<rparr>)"
    using a(1,7) by blast
qed

lemma SharedMemory_destroy_unlocks_owner_witness:
  "\<forall>D. \<exists>p1 b p2 p3. Process_HeapAllocate list_set_ops D sample_source 0x2000 PermReadWrite MSPrivate False sample_process
      = Some (Inr sample_source, p1)
    \<and> CreateSharedMemory list_set_ops D True 0x2000 3 1 sample_source BASE_REGION p1 = Some (Inr b, p2)
    \<and> SharedMemory_destroy list_set_ops D True b p2 = Some p3
    \<and> (\<forall>a. attrs (pm_vm p3) a = attrs (pm_vm p1) a)"
proof
  fix D
  obtain p1 os b p2 where a: "Process_HeapAllocate list_set_ops D sample_source 0x2000 PermReadWrite MSPrivate False sample_process
      = Some (Inr sample_source, p1)" "memory_ok list_set_ops (separated 0) p1"
    "length os = unat (0x2000 :: u32)" "page_starts os" "set os \<subseteq> {..<unat FCRAM_N3DS_SIZE}"
    "shows_fcram PermReadWrite MSPrivate (unat sample_source) os (pm_vm p1)"
    "CreateSharedMemory list_set_ops D True 0x2000 3 1 sample_source BASE_REGION p1 = Some (Inr b, p2)"
    by (rule sample_block)
  from SharedMemory_destroy_unlocks_owner [OF list_set.interval_set_axioms a(2) _ sample_ranges(5,6) _ _ a(3,4,6,7), of D] a(1,7)
  show "\<exists>p1 b p2 p3. Process_HeapAllocate list_set_ops D sample_source 0x2000 PermReadWrite MSPrivate False sample_process
      = Some (Inr sample_source, p1)
    \<and> CreateSharedMemory list_set_ops D True 0x2000 3 1 sample_source BASE_REGION p1 = Some (Inr b, p2)
    \<and> SharedMemory_destroy list_set_ops D True b p2 = Some p3
    \<and> (\<forall>a. attrs (pm_vm p3) a = attrs (pm_vm p1) a)" by auto
qed

lemma SharedMemory_destroy_returns_bytes_witness:
  "\<forall>D. \<exists>b p1 p2. CreateSharedMemory list_set_ops D True 0x1000 3 1 0 BASE_REGION sample_process = Some (Inr b, p1)
    \<and> memory_used p1 = 0x3000 \<and> SharedMemory_destroy list_set_ops D True b p1 = Some p2 \<and> memory_used p2 = 0x2000"
proof
  fix D
  let ?r = "sample_region_info 0x8000 0x3000 0x1000 [(0x9000, 0xB000)]"
  have k: "BASE_REGION < length (memory_regions sample_process)" "memory_regions sample_process ! BASE_REGION = ?r"
    "resource_limit sample_process = Some ResourceLimit_Create" "memory_used sample_process = 0x2000"
    by (simp_all add: sample_process_def BASE_REGION_def)
  have "{0x9000..<0x9000 + unat (0x1000 :: u32)} \<subseteq> free_bytes list_set_ops ?r" by (auto simp: sample_region_info_def)
  then have room: "\<exists>j. {j..<j + unat (0x1000 :: u32)} \<subseteq> free_bytes list_set_ops ?r" by blast
  have "\<not> mr_locked ?r" "page_aligned (0x1000 :: u32)" by (simp_all add: sample_region_info_def page_aligned_def)
  from SharedMemory_destroy_returns_bytes [OF list_set.interval_set_axioms k(1,2,3) sample_regions_ok(2) this, of D 3 1 D,
      unfolded if_P [OF room] k(4)]
  show "\<exists>b p1 p2. CreateSharedMemory list_set_ops D True 0x1000 3 1 0 BASE_REGION sample_process = Some (Inr b, p1)
    \<and> memory_used p1 = 0x3000 \<and> SharedMemory_destroy list_set_ops D True b p1 = Some p2 \<and> memory_used p2 = 0x2000"
    by auto
qed

lemma CreateMemoryBlock_failure_lowers_memory_used_witness:
  "\<forall>D. CreateMemoryBlock list_set_ops D id False sample_source 0x3000 3 1 HandleTable_init sample_process
    = Some (Inl ResultInvalidAddressState, HandleTable_init, sample_process\<lparr>memory_used := 0xFFFFF000\<rparr>)"
proof
  fix D
  have "free_at (vma_map (pm_vm sample_process)) (unat sample_source)"
    using sample_space_free [of sample_source 1] by simp
  then have bad: "range_has_free sample_source 0x3000 (vma_map (pm_vm sample_process))"
    unfolding range_has_free_def by (intro exI [of _ "unat sample_source"]) simp
  have used: "memory_used sample_process = 0x2000" by (simp add: sample_process_def)
  have "CreateMemoryBlock list_set_ops D id False sample_source 0x3000 3 1 HandleTable_init sample_process
    = Some (Inl ResultInvalidAddressState, HandleTable_init, sample_process\<lparr>memory_used := memory_used sample_process - 0x3000\<rparr>)"
    by (rule CreateMemoryBlock_failure_lowers_memory_used [OF list_set.interval_set_axioms sample_memory_ok sample_ranges(5)])
      (use bad in \<open>simp_all add: page_aligned_def VerifyPermissions_def PROCESS_IMAGE_VADDR_def SHARED_MEMORY_VADDR_END_def\<close>)
  then show "CreateMemoryBlock list_set_ops D id False sample_source 0x3000 3 1 HandleTable_init sample_process
    = Some (Inl ResultInvalidAddressState, HandleTable_init, sample_process\<lparr>memory_used := 0xFFFFF000\<rparr>)" by (simp add: used)
qed

end
