(* ===== verification/ArmSupp.thy ===== *)
theory ArmSupp imports Prelude begin

text \<open>
  The support arithmetic of the ARM interpreter, src/core/arm/skyeye_common/armsupp.cpp and
  armsupp.h: the bit-field macros, the adder that yields carry and overflow, and the saturating
  operations. A signed C integer is the word that represents it, read with \<open>sint\<close>; a result that
  the source returns through a \<open>bool*\<close> is a component of the pair the definition returns.
\<close>

section \<open>Bit fields\<close>

definition BITS :: "u32 \<Rightarrow> nat \<Rightarrow> nat \<Rightarrow> u32" where
  "BITS s a b = drop_bit (31 - b + a) (push_bit (31 - b) s)"

definition BIT :: "'a::len word \<Rightarrow> nat \<Rightarrow> 'a word" where
  "BIT s n = drop_bit n s AND 1"

definition POS :: "u32 \<Rightarrow> u32" where "POS i = drop_bit 31 (NOT i)"
definition NEG :: "u32 \<Rightarrow> u32" where "NEG i = drop_bit 31 i"

section \<open>Addition\<close>

definition AddWithCarry :: "u32 \<Rightarrow> u32 \<Rightarrow> u32 \<Rightarrow> u32 \<times> bool \<times> bool" where
  "AddWithCarry left right carry_in =
     (let unsigned_sum = ucast left + ucast right + ucast carry_in :: u64;
          signed_sum = scast left + scast right + ucast carry_in :: u64;
          result = unsigned_sum AND 0xFFFFFFFF
      in (ucast result, result \<noteq> unsigned_sum,
          (scast (ucast result :: u32) :: u64) \<noteq> signed_sum))"

definition AddOverflow :: "u32 \<Rightarrow> u32 \<Rightarrow> u32 \<Rightarrow> bool" where
  "AddOverflow a b result \<longleftrightarrow>
     (NEG a \<noteq> 0 \<and> NEG b \<noteq> 0 \<and> POS result \<noteq> 0) \<or> (POS a \<noteq> 0 \<and> POS b \<noteq> 0 \<and> NEG result \<noteq> 0)"

definition SubOverflow :: "u32 \<Rightarrow> u32 \<Rightarrow> u32 \<Rightarrow> bool" where
  "SubOverflow a b result \<longleftrightarrow>
     (NEG a \<noteq> 0 \<and> POS b \<noteq> 0 \<and> POS result \<noteq> 0) \<or> (POS a \<noteq> 0 \<and> NEG b \<noteq> 0 \<and> NEG result \<noteq> 0)"

definition ARMul_AddOverflowQ :: "u32 \<Rightarrow> u32 \<Rightarrow> bool" where
  "ARMul_AddOverflowQ a b =
     (let result = a + b
      in (result XOR a) AND 0x80000000 \<noteq> 0 \<and> (a XOR b) AND 0x80000000 = 0)"

section \<open>Saturating operations\<close>

definition ARMul_UnsignedAbsoluteDifference :: "u8 \<Rightarrow> u8 \<Rightarrow> u8" where
  "ARMul_UnsignedAbsoluteDifference left right = (if right < left then left - right else right - left)"

definition ARMul_SignedSaturatedAdd8 :: "u8 \<Rightarrow> u8 \<Rightarrow> u8" where
  "ARMul_SignedSaturatedAdd8 left right =
     (let result = left + right
      in if (result XOR left) AND 0x80 \<noteq> 0 \<and> (left XOR right) AND 0x80 = 0
         then if left AND 0x80 \<noteq> 0 then 0x80 else 0x7F
         else result)"

definition ARMul_SignedSaturatedSub8 :: "u8 \<Rightarrow> u8 \<Rightarrow> u8" where
  "ARMul_SignedSaturatedSub8 left right =
     (let result = left - right
      in if (result XOR left) AND 0x80 \<noteq> 0 \<and> (left XOR right) AND 0x80 \<noteq> 0
         then if left AND 0x80 \<noteq> 0 then 0x80 else 0x7F
         else result)"

definition ARMul_SignedSaturatedAdd16 :: "u16 \<Rightarrow> u16 \<Rightarrow> u16" where
  "ARMul_SignedSaturatedAdd16 left right =
     (let result = left + right
      in if (result XOR left) AND 0x8000 \<noteq> 0 \<and> (left XOR right) AND 0x8000 = 0
         then if left AND 0x8000 \<noteq> 0 then 0x8000 else 0x7FFF
         else result)"

definition ARMul_SignedSaturatedSub16 :: "u16 \<Rightarrow> u16 \<Rightarrow> u16" where
  "ARMul_SignedSaturatedSub16 left right =
     (let result = left - right
      in if (result XOR left) AND 0x8000 \<noteq> 0 \<and> (left XOR right) AND 0x8000 \<noteq> 0
         then if left AND 0x8000 \<noteq> 0 then 0x8000 else 0x7FFF
         else result)"

definition ARMul_UnsignedSaturatedAdd8 :: "u8 \<Rightarrow> u8 \<Rightarrow> u8" where
  "ARMul_UnsignedSaturatedAdd8 left right =
     (let result = left + right in if result < left then 0xFF else result)"

definition ARMul_UnsignedSaturatedAdd16 :: "u16 \<Rightarrow> u16 \<Rightarrow> u16" where
  "ARMul_UnsignedSaturatedAdd16 left right =
     (let result = left + right in if result < left then 0xFFFF else result)"

definition ARMul_UnsignedSaturatedSub8 :: "u8 \<Rightarrow> u8 \<Rightarrow> u8" where
  "ARMul_UnsignedSaturatedSub8 left right = (if left \<le> right then 0 else left - right)"

definition ARMul_UnsignedSaturatedSub16 :: "u16 \<Rightarrow> u16 \<Rightarrow> u16" where
  "ARMul_UnsignedSaturatedSub16 left right = (if left \<le> right then 0 else left - right)"

definition ARMul_SignedSatQ :: "u32 \<Rightarrow> nat \<Rightarrow> u32 \<times> bool" where
  "ARMul_SignedSatQ value shift =
     (let max = push_bit shift 1 - 1;
          top = sint (signed_drop_bit shift value)
      in if 0 < top then (max, True)
         else if top < -1 then (NOT max, True)
         else (value, False))"

definition ARMul_UnsignedSatQ :: "u32 \<Rightarrow> nat \<Rightarrow> u32 \<times> bool" where
  "ARMul_UnsignedSatQ value shift =
     (let max = push_bit shift 1 - 1
      in if sint value < 0 then (0, True)
         else if max < value then (max, True)
         else (value, False))"

end
