(* ===== verification/ArmSuppFacts.thy ===== *)
theory ArmSuppFacts imports ArmSupp begin

section \<open>Signs\<close>

lemma bit_31_iff: "bit (w :: u32) 31 \<longleftrightarrow> sint w < 0"
  using bit_last_iff [of w] by simp

lemma bit_7_iff: "bit (w :: u8) 7 \<longleftrightarrow> sint w < 0"
  using bit_last_iff [of w] by simp

lemma bit_15_iff: "bit (w :: u16) 15 \<longleftrightarrow> sint w < 0"
  using bit_last_iff [of w] by simp

lemma drop_bit_31: "drop_bit 31 (w :: u32) = of_bool (bit w 31)"
proof (rule bit_word_eqI)
  fix n assume "n < LENGTH(32)"
  show "bit (drop_bit 31 w) n \<longleftrightarrow> bit (of_bool (bit w 31) :: u32) n"
  proof (cases n)
    case (Suc k)
    then have "\<not> bit w (31 + n)" by (auto dest: bit_imp_le_length)
    with Suc show ?thesis by (simp add: bit_simps)
  qed (simp add: bit_simps)
qed

lemma NEG_iff: "NEG w = of_bool (sint w < 0)"
  by (simp add: NEG_def drop_bit_31 bit_31_iff)

lemma POS_iff: "POS w = of_bool (0 \<le> sint w)"
proof -
  have "bit (NOT w) 31 \<longleftrightarrow> 0 \<le> sint w"
    by (simp only: bit_not_iff bit_31_iff [of w]) (simp add: not_less)
  then show ?thesis by (simp only: POS_def drop_bit_31)
qed

lemma and_exp_word: "(w :: 'a::len word) AND 2 ^ n = (if bit w n then 2 ^ n else 0)"
  by (rule bit_word_eqI) (auto simp: bit_simps)

lemma and_0x80: "(w :: u8) AND 0x80 = (if sint w < 0 then 0x80 else 0)"
proof -
  have "w AND 0x80 = (if bit w 7 then 0x80 else 0)"
    using and_exp_word [of w 7] by simp
  then show ?thesis by (simp add: bit_7_iff)
qed

lemma and_0x8000: "(w :: u16) AND 0x8000 = (if sint w < 0 then 0x8000 else 0)"
proof -
  have "w AND 0x8000 = (if bit w 15 then 0x8000 else 0)"
    using and_exp_word [of w 15] by simp
  then show ?thesis by (simp add: bit_15_iff)
qed

section \<open>The adder on integers\<close>

lemma unat_sum_u64:
  "unat (ucast (l :: u32) + ucast (r :: u32) + ucast (c :: u32) :: u64) = unat l + unat r + unat c"
proof -
  have "unat l < 4294967296" "unat r < 4294967296" "unat c < 4294967296"
    by (rule unat_lt_u32)+
  then show ?thesis
    by (simp add: unat_word_ariths unsigned_ucast_eq take_bit_nat_eq_self)
qed

lemma word_of_int_u64_eq:
  assumes "- 9223372036854775808 \<le> a" "a < 9223372036854775808"
    and "- 9223372036854775808 \<le> b" "b < 9223372036854775808"
  shows "(word_of_int a :: u64) = word_of_int b \<longleftrightarrow> a = b"
proof
  assume "(word_of_int a :: u64) = word_of_int b"
  then have "sint (word_of_int a :: u64) = sint (word_of_int b :: u64)" by simp
  with assms show "a = b"
    by (simp add: sint_sbintrunc' signed_take_bit_int_eq_self)
qed simp

lemma sint_range_u32: "- 2147483648 \<le> sint (w :: u32)" "sint (w :: u32) < 2147483648"
  using sint_ge [of w] sint_lt [of w] by simp_all

lemma uint_lt_u32: "uint (w :: u32) < 4294967296"
  using uint_lt2p [of w] by simp

lemma ucast_take_bit_32: "ucast (take_bit 32 (w :: u64)) = (ucast w :: u32)"
  by (rule bit_word_eqI) (simp add: bit_simps)

lemma AddWithCarry_integers:
  "AddWithCarry l r c =
     (l + r + c, 2 ^ 32 \<le> unat l + unat r + unat c, sint (l + r + c) \<noteq> sint l + sint r + uint c)"
proof -
  let ?U = "ucast l + ucast r + ucast c :: u64"
  have mask: "?U AND 0xFFFFFFFF = take_bit 32 ?U"
    by (simp add: take_bit_eq_mask mask_eq_exp_minus_1)
  have res: "ucast (take_bit 32 ?U) = l + r + c"
  proof -
    have "ucast (take_bit 32 ?U) = (ucast ?U :: u32)" by (rule ucast_take_bit_32)
    also have "\<dots> = of_nat (unat ?U)" by (rule of_nat_unat [symmetric])
    also have "\<dots> = of_nat (unat l + unat r + unat c)" by (simp only: unat_sum_u64)
    also have "\<dots> = l + r + c" by simp
    finally show ?thesis .
  qed
  have carry: "take_bit 32 ?U \<noteq> ?U \<longleftrightarrow> 2 ^ 32 \<le> unat l + unat r + unat c"
  proof -
    have "take_bit 32 ?U = ?U \<longleftrightarrow> take_bit 32 (unat ?U) = unat ?U"
      by (simp only: word_unat_eq_iff unsigned_take_bit_eq)
    then show ?thesis by (simp add: unat_sum_u64 take_bit_nat_eq_self_iff not_less)
  qed
  have signed: "scast l + scast r + ucast c = (word_of_int (sint l + sint r + uint c) :: u64)"
    by (simp add: signed_of_int)
  have over: "(scast (l + r + c) :: u64) \<noteq> scast l + scast r + ucast c \<longleftrightarrow>
      sint (l + r + c) \<noteq> sint l + sint r + uint c"
  proof -
    have "(word_of_int (sint (l + r + c)) :: u64) = word_of_int (sint l + sint r + uint c) \<longleftrightarrow>
        sint (l + r + c) = sint l + sint r + uint c"
      using sint_range_u32 [of l] sint_range_u32 [of r] sint_range_u32 [of "l + r + c"]
        uint_lt_u32 [of c] uint_ge_0 [of c]
      by (intro word_of_int_u64_eq) linarith+
    then show ?thesis by (simp only: signed) (simp add: signed_of_int)
  qed
  show ?thesis
    by (simp only: AddWithCarry_def Let_def mask res carry over)
qed

section \<open>Saturation\<close>

text \<open>Each saturating operation is the exact result, clamped to what the width can hold.\<close>

definition clamp :: "int \<Rightarrow> int \<Rightarrow> int \<Rightarrow> int" where
  "clamp lo hi x = (if x < lo then lo else if hi < x then hi else x)"

lemma sint_range_u8: "- 128 \<le> sint (w :: u8)" "sint (w :: u8) < 128"
  using sint_ge [of w] sint_lt [of w] by simp_all

lemma sint_range_u16: "- 32768 \<le> sint (w :: u16)" "sint (w :: u16) < 32768"
  using sint_ge [of w] sint_lt [of w] by simp_all

lemma stake_cases:
  assumes "- (2 * m) \<le> x" "x < 2 * m" and m: "m = 2 ^ n"
  shows "signed_take_bit n x =
     (if x < - m then x + 2 * m else if m \<le> x then x - 2 * m else (x :: int))"
proof -
  have e: "signed_take_bit n x = (x + m) mod (2 * m) - m"
    by (simp add: signed_take_bit_eq_take_bit_shift take_bit_eq_mod m)
  consider "x < - m" | "- m \<le> x" "x < m" | "m \<le> x" by linarith
  then show ?thesis
  proof cases
    case 1
    have "(x + m) mod (2 * m) = (x + m + 2 * m) mod (2 * m)" by (simp only: mod_add_self2)
    also have "\<dots> = x + m + 2 * m" using 1 assms by (intro mod_pos_pos_trivial) auto
    finally show ?thesis using 1 e by simp
  next
    case 2
    then have "(x + m) mod (2 * m) = x + m" by (intro mod_pos_pos_trivial) auto
    with 2 e show ?thesis by simp
  next
    case 3
    have "(x + m) mod (2 * m) = (x + m - 2 * m) mod (2 * m)" by (simp only: minus_mod_self2)
    also have "\<dots> = x + m - 2 * m" using 3 assms by (intro mod_pos_pos_trivial) auto
    finally have "signed_take_bit n x = x - 2 * m" using e by simp
    moreover have "\<not> x < - m" using 3 m by (smt (verit) zero_less_power)
    ultimately show ?thesis using 3 by simp
  qed
qed

lemma sint_xor_neg_u8: "sint ((x :: u8) XOR y) < 0 \<longleftrightarrow> (sint x < 0) \<noteq> (sint y < 0)"
  by (simp only: bit_7_iff [symmetric] bit_xor_iff)

lemma sint_xor_neg_u16: "sint ((x :: u16) XOR y) < 0 \<longleftrightarrow> (sint x < 0) \<noteq> (sint y < 0)"
  by (simp only: bit_15_iff [symmetric] bit_xor_iff)

lemma ARMul_SignedSaturatedAdd8_clamp:
  "sint (ARMul_SignedSaturatedAdd8 a b) = clamp (- 128) 127 (sint a + sint b)"
proof -
  have r: "sint (a + b) = signed_take_bit 7 (sint a + sint b)"
    by (simp add: sint_word_ariths)
  show ?thesis
    using sint_range_u8 [of a] sint_range_u8 [of b]
    by (auto simp: ARMul_SignedSaturatedAdd8_def Let_def clamp_def and_0x80 sint_xor_neg_u8 r
        stake_cases [where n = 7 and m = 128])
qed

lemma ARMul_SignedSaturatedSub8_clamp:
  "sint (ARMul_SignedSaturatedSub8 a b) = clamp (- 128) 127 (sint a - sint b)"
proof -
  have r: "sint (a - b) = signed_take_bit 7 (sint a - sint b)"
    by (simp add: sint_word_ariths)
  show ?thesis
    using sint_range_u8 [of a] sint_range_u8 [of b]
    by (auto simp: ARMul_SignedSaturatedSub8_def Let_def clamp_def and_0x80 sint_xor_neg_u8 r
        stake_cases [where n = 7 and m = 128])
qed

lemma ARMul_SignedSaturatedAdd16_clamp:
  "sint (ARMul_SignedSaturatedAdd16 a b) = clamp (- 32768) 32767 (sint a + sint b)"
proof -
  have r: "sint (a + b) = signed_take_bit 15 (sint a + sint b)"
    by (simp add: sint_word_ariths)
  show ?thesis
    using sint_range_u16 [of a] sint_range_u16 [of b]
    by (auto simp: ARMul_SignedSaturatedAdd16_def Let_def clamp_def and_0x8000 sint_xor_neg_u16 r
        stake_cases [where n = 15 and m = 32768])
qed

lemma ARMul_SignedSaturatedSub16_clamp:
  "sint (ARMul_SignedSaturatedSub16 a b) = clamp (- 32768) 32767 (sint a - sint b)"
proof -
  have r: "sint (a - b) = signed_take_bit 15 (sint a - sint b)"
    by (simp add: sint_word_ariths)
  show ?thesis
    using sint_range_u16 [of a] sint_range_u16 [of b]
    by (auto simp: ARMul_SignedSaturatedSub16_def Let_def clamp_def and_0x8000 sint_xor_neg_u16 r
        stake_cases [where n = 15 and m = 32768])
qed

lemma exp_bound: "n < 32 \<Longrightarrow> (2::int) ^ n \<le> 2147483648"
  using power_increasing [of n 31 "2 :: int"] by simp

lemma uint_max_u32:
  assumes "n < 32"
  shows "uint (2 ^ n - 1 :: u32) = 2 ^ n - 1"
proof -
  have "(2 ^ n - 1 :: u32) = word_of_int (2 ^ n - 1)" by simp
  then have "uint (2 ^ n - 1 :: u32) = take_bit 32 (2 ^ n - 1)"
    by (simp only: unsigned_of_int) simp
  then show ?thesis using exp_bound [OF assms] by (simp add: take_bit_int_eq_self_iff)
qed

lemma sint_max_u32:
  assumes "n < 32"
  shows "sint (2 ^ n - 1 :: u32) = 2 ^ n - 1"
proof -
  have "signed_take_bit 31 (2 ^ n - 1 :: int) = 2 ^ n - 1"
    using exp_bound [OF assms] zero_le_power [of "2 :: int" n]
    by (intro signed_take_bit_int_eq_self) (simp_all del: zero_le_power)
  then show ?thesis
    by (simp only: sint_uint uint_max_u32 [OF assms]) simp
qed

lemma sint_not_max_u32: "n < 32 \<Longrightarrow> sint (NOT (2 ^ n - 1) :: u32) = - (2 ^ n)"
proof -
  assume n: "n < 32"
  have "NOT (2 ^ n - 1) = (word_of_int (- (2 ^ n)) :: u32)" by (simp add: not_eq_complement)
  then have "sint (NOT (2 ^ n - 1) :: u32) = signed_take_bit 31 (- (2 ^ n))"
    by (simp only: sint_sbintrunc') simp
  then show ?thesis
    using exp_bound [OF n] zero_less_power [of "2 :: int" n]
    by (simp add: signed_take_bit_int_eq_self del: zero_less_power)
qed

lemma div_less_minus_1:
  assumes "0 < d"
  shows "x div d < -1 \<longleftrightarrow> x < - (d :: int)"
proof -
  have x: "x = d * (x div d) + x mod d" by simp
  have r: "0 \<le> x mod d" "x mod d < d" using assms by simp_all
  show ?thesis
  proof
    assume "x div d < -1"
    then have "d * (x div d) \<le> d * (-2)" using assms by (intro mult_left_mono) auto
    with x r show "x < - d" by linarith
  next
    assume "x < - d"
    show "x div d < -1"
    proof (rule ccontr)
      assume "\<not> x div d < -1"
      then have "d * (-1) \<le> d * (x div d)" using assms by (intro mult_left_mono) auto
      with x r \<open>x < - d\<close> show False by linarith
    qed
  qed
qed

lemma sdrop_pos: "0 < sint (signed_drop_bit n (v :: u32)) \<longleftrightarrow> 2 ^ n \<le> sint v"
  by (simp add: sint_signed_drop_bit_eq drop_bit_eq_div pos_imp_zdiv_pos_iff)

lemma sdrop_neg: "sint (signed_drop_bit n (v :: u32)) < -1 \<longleftrightarrow> sint v < - (2 ^ n)"
proof -
  have "sint v div 2 ^ n < -1 \<longleftrightarrow> sint v < - (2 ^ n)"
    by (rule div_less_minus_1) simp
  then show ?thesis by (simp add: sint_signed_drop_bit_eq drop_bit_eq_div)
qed

lemma ARMul_SignedSatQ_clamp:
  assumes "n < 32"
  shows "sint (fst (ARMul_SignedSatQ v n)) = clamp (- (2 ^ n)) (2 ^ n - 1) (sint v)"
    and "snd (ARMul_SignedSatQ v n) \<longleftrightarrow> sint v < - (2 ^ n) \<or> 2 ^ n \<le> sint v"
proof -
  have "(0::int) < 2 ^ n" by simp
  then have "sint v < - (2 ^ n) \<Longrightarrow> \<not> 2 ^ n \<le> sint v" by linarith
  then show "sint (fst (ARMul_SignedSatQ v n)) = clamp (- (2 ^ n)) (2 ^ n - 1) (sint v)"
    and "snd (ARMul_SignedSatQ v n) \<longleftrightarrow> sint v < - (2 ^ n) \<or> 2 ^ n \<le> sint v"
    using assms
    by (auto simp: ARMul_SignedSatQ_def Let_def clamp_def sdrop_pos sdrop_neg
        sint_max_u32 sint_not_max_u32)
qed

lemma sint_eq_uint_nonneg: "\<not> sint (v :: u32) < 0 \<Longrightarrow> uint v = sint v"
  using sint_range_u32 [of v] by (simp add: uint_sint take_bit_int_eq_self)

lemma ARMul_UnsignedSatQ_clamp:
  assumes "n < 32"
  shows "uint (fst (ARMul_UnsignedSatQ v n)) = clamp 0 (2 ^ n - 1) (sint v)"
    and "snd (ARMul_UnsignedSatQ v n) \<longleftrightarrow> sint v < 0 \<or> 2 ^ n \<le> sint v"
proof -
  have "\<not> sint v < 0 \<Longrightarrow> (2 ^ n - 1 < v) \<longleftrightarrow> 2 ^ n - 1 < sint v"
    by (simp add: word_less_def uint_max_u32 assms sint_eq_uint_nonneg)
  moreover have "\<not> 2 ^ n - 1 < (-1 :: int)" by simp
  ultimately show "uint (fst (ARMul_UnsignedSatQ v n)) = clamp 0 (2 ^ n - 1) (sint v)"
    and "snd (ARMul_UnsignedSatQ v n) \<longleftrightarrow> sint v < 0 \<or> 2 ^ n \<le> sint v"
    using assms
    by (auto simp: ARMul_UnsignedSatQ_def Let_def clamp_def uint_max_u32 sint_eq_uint_nonneg)
qed

end
