(* ===== verification/ArmInst.thy ===== *)
theory ArmInst imports ArmSupp begin

text \<open>
  Translated instructions, src/core/arm/dyncom/arm_dyncom_trans.h and arm_dyncom_trans.cpp. A
  translated instruction (\<open>arm_inst\<close>) is the index of the label that executes it, its
  condition, what it does to the block it stands in, and a component, the structure its translator
  fills. Structures with the same fields are one type here. The function pointers stored in them
  are the constructors of \<open>shtop_fp_t\<close> and \<open>get_addr_fp_t\<close>, with \<open>None\<close> for a null
  pointer; ArmOperands holds the functions they stand for. A field that a translator leaves
  unset is 0 here; no label reads such a field. Register numbers are natural numbers.
\<close>

section \<open>Function pointers\<close>

datatype shtop_fp_t =
    DPO_Immediate | DPO_Register
  | DPO_LogicalShiftLeftByImmediate | DPO_LogicalShiftLeftByRegister
  | DPO_LogicalShiftRightByImmediate | DPO_LogicalShiftRightByRegister
  | DPO_ArithmeticShiftRightByImmediate | DPO_ArithmeticShiftRightByRegister
  | DPO_RotateRightByImmediate | DPO_RotateRightByRegister

datatype get_addr_fp_t =
    LnSWoUB_ImmediateOffset | LnSWoUB_RegisterOffset | LnSWoUB_ScaledRegisterOffset
  | LnSWoUB_ImmediatePreIndexed | LnSWoUB_RegisterPreIndexed | LnSWoUB_ScaledRegisterPreIndexed
  | LnSWoUB_ImmediatePostIndexed | LnSWoUB_RegisterPostIndexed | LnSWoUB_ScaledRegisterPostIndexed
  | MLnS_ImmediateOffset | MLnS_RegisterOffset | MLnS_ImmediatePreIndexed
  | MLnS_RegisterPreIndexed | MLnS_ImmediatePostIndexed | MLnS_RegisterPostIndexed
  | LdnStM_IncrementAfter | LdnStM_IncrementBefore | LdnStM_DecrementAfter | LdnStM_DecrementBefore

definition GetShifterOp :: "u32 \<Rightarrow> shtop_fp_t option" where
  "GetShifterOp inst =
     (if BIT inst 25 \<noteq> 0 then Some DPO_Immediate
      else if BITS inst 4 11 = 0 then Some DPO_Register
      else if BITS inst 4 6 = 0 then Some DPO_LogicalShiftLeftByImmediate
      else if BITS inst 4 7 = 1 then Some DPO_LogicalShiftLeftByRegister
      else if BITS inst 4 6 = 2 then Some DPO_LogicalShiftRightByImmediate
      else if BITS inst 4 7 = 3 then Some DPO_LogicalShiftRightByRegister
      else if BITS inst 4 6 = 4 then Some DPO_ArithmeticShiftRightByImmediate
      else if BITS inst 4 7 = 5 then Some DPO_ArithmeticShiftRightByRegister
      else if BITS inst 4 6 = 6 then Some DPO_RotateRightByImmediate
      else if BITS inst 4 7 = 7 then Some DPO_RotateRightByRegister
      else None)"

definition GetAddressingOp :: "u32 \<Rightarrow> get_addr_fp_t option" where
  "GetAddressingOp inst =
     (if BITS inst 24 27 = 5 \<and> BIT inst 21 = 0 then Some LnSWoUB_ImmediateOffset
      else if BITS inst 24 27 = 7 \<and> BIT inst 21 = 0 \<and> BITS inst 4 11 = 0
      then Some LnSWoUB_RegisterOffset
      else if BITS inst 24 27 = 7 \<and> BIT inst 21 = 0 \<and> BIT inst 4 = 0
      then Some LnSWoUB_ScaledRegisterOffset
      else if BITS inst 24 27 = 5 \<and> BIT inst 21 = 1 then Some LnSWoUB_ImmediatePreIndexed
      else if BITS inst 24 27 = 7 \<and> BIT inst 21 = 1 \<and> BITS inst 4 11 = 0
      then Some LnSWoUB_RegisterPreIndexed
      else if BITS inst 24 27 = 7 \<and> BIT inst 21 = 1 \<and> BIT inst 4 = 0
      then Some LnSWoUB_ScaledRegisterPreIndexed
      else if BITS inst 24 27 = 4 \<and> BIT inst 21 = 0 then Some LnSWoUB_ImmediatePostIndexed
      else if BITS inst 24 27 = 6 \<and> BIT inst 21 = 0 \<and> BITS inst 4 11 = 0
      then Some LnSWoUB_RegisterPostIndexed
      else if BITS inst 24 27 = 6 \<and> BIT inst 21 = 0 \<and> BIT inst 4 = 0
      then Some LnSWoUB_ScaledRegisterPostIndexed
      else if BITS inst 24 27 = 1 \<and> BITS inst 21 22 = 2 \<and> BIT inst 7 = 1 \<and> BIT inst 4 = 1
      then Some MLnS_ImmediateOffset
      else if BITS inst 24 27 = 1 \<and> BITS inst 21 22 = 0 \<and> BIT inst 7 = 1 \<and> BIT inst 4 = 1
      then Some MLnS_RegisterOffset
      else if BITS inst 24 27 = 1 \<and> BITS inst 21 22 = 3 \<and> BIT inst 7 = 1 \<and> BIT inst 4 = 1
      then Some MLnS_ImmediatePreIndexed
      else if BITS inst 24 27 = 1 \<and> BITS inst 21 22 = 1 \<and> BIT inst 7 = 1 \<and> BIT inst 4 = 1
      then Some MLnS_RegisterPreIndexed
      else if BITS inst 24 27 = 0 \<and> BITS inst 21 22 = 2 \<and> BIT inst 7 = 1 \<and> BIT inst 4 = 1
      then Some MLnS_ImmediatePostIndexed
      else if BITS inst 24 27 = 0 \<and> BITS inst 21 22 = 0 \<and> BIT inst 7 = 1 \<and> BIT inst 4 = 1
      then Some MLnS_RegisterPostIndexed
      else if BITS inst 23 27 = 0x11 then Some LdnStM_IncrementAfter
      else if BITS inst 23 27 = 0x13 then Some LdnStM_IncrementBefore
      else if BITS inst 23 27 = 0x10 then Some LdnStM_DecrementAfter
      else if BITS inst 23 27 = 0x12 then Some LdnStM_DecrementBefore
      else None)"

definition GetAddressingOpLoadStoreT :: "u32 \<Rightarrow> get_addr_fp_t option" where
  "GetAddressingOpLoadStoreT inst =
     (if BITS inst 25 27 = 2 then Some LnSWoUB_ImmediatePostIndexed
      else if BITS inst 25 27 = 3 then Some LnSWoUB_ScaledRegisterPostIndexed
      else None)"

section \<open>Components\<close>

datatype TransExtData =
    COND | NON_BRANCH | DIRECT_BRANCH | INDIRECT_BRANCH | CALL | RET | END_OF_PAGE | THUMB | SINGLE_STEP

text \<open>
  One constructor per structure of the header, its fields in the order the header has them;
  structures that differ in name only share one: \<open>data_inst\<close> is \<open>adc_inst\<close>, \<open>add_inst\<close>,
  \<open>and_inst\<close>, \<open>bic_inst\<close>, \<open>eor_inst\<close>, \<open>orr_inst\<close>, \<open>rsb_inst\<close>, \<open>rsc_inst\<close>, \<open>sbc_inst\<close>,
  \<open>sub_inst\<close> and \<open>tst_inst\<close>; \<open>cmp_inst\<close> is also \<open>cmn_inst\<close> and \<open>teq_inst\<close>; \<open>mov_inst\<close> also
  \<open>mvn_inst\<close>; \<open>extend_inst\<close> is \<open>sxtb_inst\<close>, \<open>sxth_inst\<close> and \<open>uxth_inst\<close>; \<open>extend_add_inst\<close>
  is \<open>sxtab_inst\<close>, \<open>sxtah_inst\<close>, \<open>uxtab_inst\<close> and \<open>uxtah_inst\<close>; \<open>cp_inst\<close> is \<open>mcr_inst\<close> and
  \<open>mrc_inst\<close>; \<open>umull_inst\<close> also \<open>umlal_inst\<close>; \<open>bl_thumb\<close> is \<open>b_2_thumb\<close>, \<open>bl_1_thumb\<close>,
  \<open>bl_2_thumb\<close> and \<open>blx_1_thumb\<close>. \<open>no_inst\<close> stands for the structures without fields.
\<close>

datatype (plugins only: code) component =
    data_inst u32 u32 nat nat u32 "shtop_fp_t option"    \<comment> \<open>I S Rn Rd shifter_operand shtop_func\<close>
  | cmp_inst u32 nat u32 "shtop_fp_t option"             \<comment> \<open>I Rn shifter_operand shtop_func\<close>
  | mov_inst u32 u32 nat u32 "shtop_fp_t option"         \<comment> \<open>I S Rd shifter_operand shtop_func\<close>
  | ldst_inst u32 "get_addr_fp_t option"                 \<comment> \<open>inst get_addr\<close>
  | generic_arm_inst nat nat nat nat u32 u32             \<comment> \<open>Ra Rm Rn Rd op1 op2\<close>
  | bbl_inst u32 u32                                     \<comment> \<open>L signed_immed_24\<close>
  | bx_inst nat                                          \<comment> \<open>Rm\<close>
  | blx_inst u32 u32                                     \<comment> \<open>val inst\<close>
  | bkpt_inst u32                                        \<comment> \<open>imm\<close>
  | clz_inst nat nat                                     \<comment> \<open>Rm Rd\<close>
  | cps_inst u32 u32 u32 u32 u32 u32 u32                 \<comment> \<open>imod0 imod1 mmod A I F mode\<close>
  | cp_inst u32 u32 u32 u32 u32 nat u32                  \<comment> \<open>opcode_1 opcode_2 cp_num crn crm Rd inst\<close>
  | mla_inst u32 nat nat nat nat                         \<comment> \<open>S Rn Rd Rs Rm\<close>
  | mul_inst u32 nat nat nat                             \<comment> \<open>S Rd Rs Rm\<close>
  | mrs_inst u32 nat                                     \<comment> \<open>R Rd\<close>
  | msr_inst u32 u32 u32                                 \<comment> \<open>field_mask R inst\<close>
  | pkh_inst nat nat nat nat                             \<comment> \<open>Rm Rn Rd imm\<close>
  | rev_inst nat nat u32 u32                             \<comment> \<open>Rd Rm op1 op2\<close>
  | setend_inst u32                                      \<comment> \<open>set_bigend\<close>
  | smla_inst u32 u32 nat nat nat nat                    \<comment> \<open>x y Rm Rd Rs Rn\<close>
  | smlad_inst u32 nat nat nat nat u32 u32               \<comment> \<open>m Rm Rd Ra Rn op1 op2\<close>
  | smlalxy_inst u32 u32 nat nat nat nat                 \<comment> \<open>x y RdLo RdHi Rm Rn\<close>
  | smlald_inst nat nat nat nat u32 u32 u32              \<comment> \<open>RdLo RdHi Rm Rn swap op1 op2\<close>
  | smul_inst nat nat nat u32 u32                        \<comment> \<open>Rd Rs Rm x y\<close>
  | umull_inst u32 nat nat nat nat                       \<comment> \<open>S Rm Rs RdHi RdLo\<close>
  | umaal_inst nat nat nat nat                           \<comment> \<open>Rn Rm RdHi RdLo\<close>
  | ssat_inst nat nat nat nat u32                        \<comment> \<open>Rn Rd imm5 sat_imm shift_type\<close>
  | swi_inst u32                                         \<comment> \<open>num\<close>
  | swp_inst nat nat nat                                 \<comment> \<open>Rn Rd Rm\<close>
  | extend_inst nat nat nat                              \<comment> \<open>Rd Rm rotate\<close>
  | extend_add_inst nat nat nat nat                      \<comment> \<open>Rd Rn Rm rotate\<close>
  | bl_thumb u32                                         \<comment> \<open>imm\<close>
  | b_cond_thumb u32 u32                                 \<comment> \<open>imm cond\<close>
  | vfp_inst u32                                         \<comment> \<open>a VFP instruction, not translated\<close>
  | no_inst

record arm_inst =
  idx :: nat
  cond :: u32
  br :: TransExtData
  component :: component

text \<open>The register number in the four bits from \<open>n\<close> on.\<close>

definition reg_field :: "u32 \<Rightarrow> nat \<Rightarrow> nat" where
  "reg_field inst n = unat (BITS inst n (n + 3))"

text \<open>What most translators do first: the condition of the word, and no branch.\<close>

definition plain_inst :: "u32 \<Rightarrow> nat \<Rightarrow> component \<Rightarrow> arm_inst" where
  "plain_inst inst index c =
     \<lparr>idx = index, cond = BITS inst 28 31, br = NON_BRANCH, component = c\<rparr>"

section \<open>Data processing\<close>

text \<open>A write to the program counter ends the block.\<close>

definition branch_if_pc :: "u32 \<Rightarrow> arm_inst \<Rightarrow> arm_inst" where
  "branch_if_pc inst b = (if reg_field inst 12 = 15 then b\<lparr>br := INDIRECT_BRANCH\<rparr> else b)"

definition translate_data :: "u32 \<Rightarrow> nat \<Rightarrow> arm_inst" where
  "translate_data inst index =
     plain_inst inst index (data_inst (BIT inst 25) (BIT inst 20) (reg_field inst 16)
       (reg_field inst 12) (BITS inst 0 11) (GetShifterOp inst))"

definition translate_adc :: "u32 \<Rightarrow> nat \<Rightarrow> arm_inst" where
  "translate_adc inst index =
     branch_if_pc inst (translate_data inst index)"

definition translate_add :: "u32 \<Rightarrow> nat \<Rightarrow> arm_inst" where
  "translate_add inst index =
     branch_if_pc inst (translate_data inst index)"

definition translate_and :: "u32 \<Rightarrow> nat \<Rightarrow> arm_inst" where
  "translate_and inst index =
     branch_if_pc inst (translate_data inst index)"

definition translate_bic :: "u32 \<Rightarrow> nat \<Rightarrow> arm_inst" where
  "translate_bic inst index =
     branch_if_pc inst (translate_data inst index)"

definition translate_eor :: "u32 \<Rightarrow> nat \<Rightarrow> arm_inst" where
  "translate_eor inst index =
     branch_if_pc inst (translate_data inst index)"

definition translate_orr :: "u32 \<Rightarrow> nat \<Rightarrow> arm_inst" where
  "translate_orr inst index =
     branch_if_pc inst (translate_data inst index)"

definition translate_rsb :: "u32 \<Rightarrow> nat \<Rightarrow> arm_inst" where
  "translate_rsb inst index =
     branch_if_pc inst (translate_data inst index)"

definition translate_rsc :: "u32 \<Rightarrow> nat \<Rightarrow> arm_inst" where
  "translate_rsc inst index =
     branch_if_pc inst (translate_data inst index)"

definition translate_sbc :: "u32 \<Rightarrow> nat \<Rightarrow> arm_inst" where
  "translate_sbc inst index =
     branch_if_pc inst (translate_data inst index)"

definition translate_sub :: "u32 \<Rightarrow> nat \<Rightarrow> arm_inst" where
  "translate_sub inst index =
     branch_if_pc inst (translate_data inst index)"

definition translate_tst :: "u32 \<Rightarrow> nat \<Rightarrow> arm_inst" where
  "translate_tst = translate_data"

definition translate_cmp :: "u32 \<Rightarrow> nat \<Rightarrow> arm_inst" where
  "translate_cmp inst index =
     plain_inst inst index
       (cmp_inst (BIT inst 25) (reg_field inst 16) (BITS inst 0 11) (GetShifterOp inst))"

definition translate_cmn :: "u32 \<Rightarrow> nat \<Rightarrow> arm_inst" where
  "translate_cmn = translate_cmp"

definition translate_teq :: "u32 \<Rightarrow> nat \<Rightarrow> arm_inst" where
  "translate_teq = translate_cmp"

definition translate_mov :: "u32 \<Rightarrow> nat \<Rightarrow> arm_inst" where
  "translate_mov inst index =
     branch_if_pc inst (plain_inst inst index
       (mov_inst (BIT inst 25) (BIT inst 20) (reg_field inst 12) (BITS inst 0 11) (GetShifterOp inst)))"

definition translate_cpy :: "u32 \<Rightarrow> nat \<Rightarrow> arm_inst" where
  "translate_cpy = translate_mov"

definition translate_mvn :: "u32 \<Rightarrow> nat \<Rightarrow> arm_inst" where
  "translate_mvn = translate_mov"

section \<open>Branches and status\<close>

definition translate_bbl :: "u32 \<Rightarrow> nat \<Rightarrow> arm_inst" where
  "translate_bbl inst index =
     (plain_inst inst index (bbl_inst (BIT inst 24)
        (if BIT inst 23 \<noteq> 0 then push_bit 2 (0xff000000 OR (inst AND 0xffffff))
         else push_bit 2 (inst AND 0x7fffff))))
       \<lparr>br := (if BIT inst 24 \<noteq> 0 then CALL else DIRECT_BRANCH)\<rparr>"

definition translate_bkpt :: "u32 \<Rightarrow> nat \<Rightarrow> arm_inst" where
  "translate_bkpt inst index =
     plain_inst inst index (bkpt_inst (push_bit 4 (BITS inst 8 19) OR BITS inst 0 3))"

definition translate_blx :: "u32 \<Rightarrow> nat \<Rightarrow> arm_inst" where
  "translate_blx inst index =
     (plain_inst inst index (blx_inst
        (if BITS inst 20 27 = 0x12 \<and> BITS inst 4 7 = 0x3 then BITS inst 0 3 else BITS inst 0 23)
        inst))\<lparr>br := INDIRECT_BRANCH\<rparr>"

definition translate_bx :: "u32 \<Rightarrow> nat \<Rightarrow> arm_inst" where
  "translate_bx inst index =
     (plain_inst inst index (bx_inst (reg_field inst 0)))\<lparr>br := INDIRECT_BRANCH\<rparr>"

definition translate_bxj :: "u32 \<Rightarrow> nat \<Rightarrow> arm_inst" where
  "translate_bxj = translate_bx"

definition translate_clz :: "u32 \<Rightarrow> nat \<Rightarrow> arm_inst" where
  "translate_clz inst index =
     plain_inst inst index (clz_inst (reg_field inst 0) (reg_field inst 12))"

definition translate_cps :: "u32 \<Rightarrow> nat \<Rightarrow> arm_inst" where
  "translate_cps inst index =
     plain_inst inst index (cps_inst (BIT inst 18) (BIT inst 19) (BIT inst 17)
       (BIT inst 8) (BIT inst 7) (BIT inst 6) (BITS inst 0 4))"

definition translate_mcr :: "u32 \<Rightarrow> nat \<Rightarrow> arm_inst" where
  "translate_mcr inst index =
     plain_inst inst index (cp_inst (BITS inst 21 23) (BITS inst 5 7) (BITS inst 8 11)
       (BITS inst 16 19) (BITS inst 0 3) (reg_field inst 12) inst)"

definition translate_mrc :: "u32 \<Rightarrow> nat \<Rightarrow> arm_inst" where
  "translate_mrc = translate_mcr"

definition translate_mrs :: "u32 \<Rightarrow> nat \<Rightarrow> arm_inst" where
  "translate_mrs inst index =
     plain_inst inst index (mrs_inst (BIT inst 22) (reg_field inst 12))"

definition translate_msr :: "u32 \<Rightarrow> nat \<Rightarrow> arm_inst" where
  "translate_msr inst index =
     plain_inst inst index (msr_inst (BITS inst 16 19) (BIT inst 22) inst)"

definition translate_setend :: "u32 \<Rightarrow> nat \<Rightarrow> arm_inst" where
  "translate_setend inst index =
     (plain_inst inst index (setend_inst (BIT inst 9)))\<lparr>cond := 14\<rparr>"

definition translate_swi :: "u32 \<Rightarrow> nat \<Rightarrow> arm_inst" where
  "translate_swi inst index =
     plain_inst inst index (swi_inst (BITS inst 0 23))"

definition translate_nop :: "u32 \<Rightarrow> nat \<Rightarrow> arm_inst" where
  "translate_nop inst index =
     plain_inst inst index no_inst"

definition translate_cdp :: "u32 \<Rightarrow> nat \<Rightarrow> arm_inst" where
  "translate_cdp = translate_nop"

definition translate_clrex :: "u32 \<Rightarrow> nat \<Rightarrow> arm_inst" where
  "translate_clrex = translate_nop"

definition translate_ldc :: "u32 \<Rightarrow> nat \<Rightarrow> arm_inst" where
  "translate_ldc = translate_nop"

definition translate_stc :: "u32 \<Rightarrow> nat \<Rightarrow> arm_inst" where
  "translate_stc = translate_nop"

definition translate_mcrr :: "u32 \<Rightarrow> nat \<Rightarrow> arm_inst" where
  "translate_mcrr = translate_nop"

definition translate_mrrc :: "u32 \<Rightarrow> nat \<Rightarrow> arm_inst" where
  "translate_mrrc = translate_nop"

definition translate_pld :: "u32 \<Rightarrow> nat \<Rightarrow> arm_inst" where
  "translate_pld = translate_nop"

definition translate_sev :: "u32 \<Rightarrow> nat \<Rightarrow> arm_inst" where
  "translate_sev = translate_nop"

definition translate_wfe :: "u32 \<Rightarrow> nat \<Rightarrow> arm_inst" where
  "translate_wfe = translate_nop"

definition translate_wfi :: "u32 \<Rightarrow> nat \<Rightarrow> arm_inst" where
  "translate_wfi = translate_nop"

definition translate_yield :: "u32 \<Rightarrow> nat \<Rightarrow> arm_inst" where
  "translate_yield = translate_nop"

section \<open>Loads and stores\<close>

definition translate_ldst :: "u32 \<Rightarrow> nat \<Rightarrow> arm_inst" where
  "translate_ldst inst index =
     plain_inst inst index (ldst_inst inst (GetAddressingOp inst))"

definition translate_ldst_t :: "u32 \<Rightarrow> nat \<Rightarrow> arm_inst" where
  "translate_ldst_t inst index =
     plain_inst inst index (ldst_inst inst (GetAddressingOpLoadStoreT inst))"

definition translate_ldm :: "u32 \<Rightarrow> nat \<Rightarrow> arm_inst" where
  "translate_ldm inst index =
     (let b = translate_ldst inst index
      in if BIT inst 15 \<noteq> 0 then b\<lparr>br := INDIRECT_BRANCH\<rparr> else b)"

definition translate_ldr :: "u32 \<Rightarrow> nat \<Rightarrow> arm_inst" where
  "translate_ldr inst index =
     branch_if_pc inst (translate_ldst inst index)"

definition translate_ldrcond :: "u32 \<Rightarrow> nat \<Rightarrow> arm_inst" where
  "translate_ldrcond = translate_ldr"

definition translate_ldrb :: "u32 \<Rightarrow> nat \<Rightarrow> arm_inst" where
  "translate_ldrb = translate_ldst"

definition translate_ldrd :: "u32 \<Rightarrow> nat \<Rightarrow> arm_inst" where
  "translate_ldrd = translate_ldst"

definition translate_ldrh :: "u32 \<Rightarrow> nat \<Rightarrow> arm_inst" where
  "translate_ldrh = translate_ldst"

definition translate_ldrsb :: "u32 \<Rightarrow> nat \<Rightarrow> arm_inst" where
  "translate_ldrsb = translate_ldst"

definition translate_ldrsh :: "u32 \<Rightarrow> nat \<Rightarrow> arm_inst" where
  "translate_ldrsh = translate_ldst"

definition translate_stm :: "u32 \<Rightarrow> nat \<Rightarrow> arm_inst" where
  "translate_stm = translate_ldst"

definition translate_str :: "u32 \<Rightarrow> nat \<Rightarrow> arm_inst" where
  "translate_str = translate_ldst"

definition translate_strb :: "u32 \<Rightarrow> nat \<Rightarrow> arm_inst" where
  "translate_strb = translate_ldst"

definition translate_strd :: "u32 \<Rightarrow> nat \<Rightarrow> arm_inst" where
  "translate_strd = translate_ldst"

definition translate_strh :: "u32 \<Rightarrow> nat \<Rightarrow> arm_inst" where
  "translate_strh = translate_ldst"

definition translate_ldrbt :: "u32 \<Rightarrow> nat \<Rightarrow> arm_inst" where
  "translate_ldrbt = translate_ldst_t"

definition translate_strbt :: "u32 \<Rightarrow> nat \<Rightarrow> arm_inst" where
  "translate_strbt = translate_ldst_t"

definition translate_strt :: "u32 \<Rightarrow> nat \<Rightarrow> arm_inst" where
  "translate_strt = translate_ldst_t"

definition translate_ldrt :: "u32 \<Rightarrow> nat \<Rightarrow> arm_inst" where
  "translate_ldrt inst index =
     branch_if_pc inst (translate_ldst_t inst index)"

definition translate_rfe :: "u32 \<Rightarrow> nat \<Rightarrow> arm_inst" where
  "translate_rfe inst index =
     (translate_ldst inst index)\<lparr>cond := 14, br := INDIRECT_BRANCH\<rparr>"

definition translate_srs :: "u32 \<Rightarrow> nat \<Rightarrow> arm_inst" where
  "translate_srs inst index =
     (translate_ldst inst index)\<lparr>cond := 14\<rparr>"

definition translate_ldrex :: "u32 \<Rightarrow> nat \<Rightarrow> arm_inst" where
  "translate_ldrex inst index =
     branch_if_pc inst (plain_inst inst index
       (generic_arm_inst 0 0 (reg_field inst 16) (reg_field inst 12) 0 0))"

definition translate_ldrexb :: "u32 \<Rightarrow> nat \<Rightarrow> arm_inst" where
  "translate_ldrexb = translate_ldrex"

definition translate_ldrexh :: "u32 \<Rightarrow> nat \<Rightarrow> arm_inst" where
  "translate_ldrexh = translate_ldrex"

definition translate_ldrexd :: "u32 \<Rightarrow> nat \<Rightarrow> arm_inst" where
  "translate_ldrexd = translate_ldrex"

definition translate_strex :: "u32 \<Rightarrow> nat \<Rightarrow> arm_inst" where
  "translate_strex inst index =
     plain_inst inst index
       (generic_arm_inst 0 (reg_field inst 0) (reg_field inst 16) (reg_field inst 12) 0 0)"

definition translate_strexb :: "u32 \<Rightarrow> nat \<Rightarrow> arm_inst" where
  "translate_strexb = translate_strex"

definition translate_strexh :: "u32 \<Rightarrow> nat \<Rightarrow> arm_inst" where
  "translate_strexh = translate_strex"

definition translate_strexd :: "u32 \<Rightarrow> nat \<Rightarrow> arm_inst" where
  "translate_strexd = translate_strex"

definition translate_swp :: "u32 \<Rightarrow> nat \<Rightarrow> arm_inst" where
  "translate_swp inst index =
     plain_inst inst index (swp_inst (reg_field inst 16) (reg_field inst 12) (reg_field inst 0))"

definition translate_swpb :: "u32 \<Rightarrow> nat \<Rightarrow> arm_inst" where
  "translate_swpb = translate_swp"

section \<open>Multiplications\<close>

definition translate_mla :: "u32 \<Rightarrow> nat \<Rightarrow> arm_inst" where
  "translate_mla inst index =
     plain_inst inst index (mla_inst (BIT inst 20) (reg_field inst 12) (reg_field inst 16)
       (reg_field inst 8) (reg_field inst 0))"

definition translate_mul :: "u32 \<Rightarrow> nat \<Rightarrow> arm_inst" where
  "translate_mul inst index =
     plain_inst inst index
       (mul_inst (BIT inst 20) (reg_field inst 16) (reg_field inst 8) (reg_field inst 0))"

definition translate_smla :: "u32 \<Rightarrow> nat \<Rightarrow> arm_inst" where
  "translate_smla inst index =
     plain_inst inst index (smla_inst (BIT inst 5) (BIT inst 6) (reg_field inst 0)
       (reg_field inst 16) (reg_field inst 8) (reg_field inst 12))"

definition translate_smlad :: "u32 \<Rightarrow> nat \<Rightarrow> arm_inst" where
  "translate_smlad inst index =
     plain_inst inst index (smlad_inst (BIT inst 5) (reg_field inst 8) (reg_field inst 16)
       (reg_field inst 12) (reg_field inst 0) (BITS inst 20 22) (BITS inst 5 7))"

definition translate_smuad :: "u32 \<Rightarrow> nat \<Rightarrow> arm_inst" where
  "translate_smuad = translate_smlad"

definition translate_smusd :: "u32 \<Rightarrow> nat \<Rightarrow> arm_inst" where
  "translate_smusd = translate_smlad"

definition translate_smlsd :: "u32 \<Rightarrow> nat \<Rightarrow> arm_inst" where
  "translate_smlsd = translate_smlad"

definition translate_smlal :: "u32 \<Rightarrow> nat \<Rightarrow> arm_inst" where
  "translate_smlal inst index =
     plain_inst inst index (umull_inst (BIT inst 20) (reg_field inst 0) (reg_field inst 8)
       (reg_field inst 16) (reg_field inst 12))"

definition translate_smull :: "u32 \<Rightarrow> nat \<Rightarrow> arm_inst" where
  "translate_smull = translate_smlal"

definition translate_umlal :: "u32 \<Rightarrow> nat \<Rightarrow> arm_inst" where
  "translate_umlal = translate_smlal"

definition translate_umull :: "u32 \<Rightarrow> nat \<Rightarrow> arm_inst" where
  "translate_umull = translate_smlal"

definition translate_smlalxy :: "u32 \<Rightarrow> nat \<Rightarrow> arm_inst" where
  "translate_smlalxy inst index =
     plain_inst inst index (smlalxy_inst (BIT inst 5) (BIT inst 6) (reg_field inst 12)
       (reg_field inst 16) (reg_field inst 8) (unat (BITS inst 0 4)))"

definition translate_smlaw :: "u32 \<Rightarrow> nat \<Rightarrow> arm_inst" where
  "translate_smlaw inst index =
     plain_inst inst index (smlad_inst (BIT inst 6) (reg_field inst 8) (reg_field inst 16)
       (reg_field inst 12) (reg_field inst 0) 0 0)"

definition translate_smlald :: "u32 \<Rightarrow> nat \<Rightarrow> arm_inst" where
  "translate_smlald inst index =
     plain_inst inst index (smlald_inst (reg_field inst 12) (reg_field inst 16)
       (reg_field inst 8) (reg_field inst 0) (BIT inst 5) (BITS inst 20 22) (BITS inst 5 7))"

definition translate_smlsld :: "u32 \<Rightarrow> nat \<Rightarrow> arm_inst" where
  "translate_smlsld = translate_smlald"

definition translate_smmla :: "u32 \<Rightarrow> nat \<Rightarrow> arm_inst" where
  "translate_smmla = translate_smlad"

definition translate_smmls :: "u32 \<Rightarrow> nat \<Rightarrow> arm_inst" where
  "translate_smmls = translate_smmla"

definition translate_smmul :: "u32 \<Rightarrow> nat \<Rightarrow> arm_inst" where
  "translate_smmul = translate_smmla"

definition translate_smul :: "u32 \<Rightarrow> nat \<Rightarrow> arm_inst" where
  "translate_smul inst index =
     plain_inst inst index (smul_inst (reg_field inst 16) (reg_field inst 8) (reg_field inst 0)
       (BIT inst 5) (BIT inst 6))"

definition translate_smulw :: "u32 \<Rightarrow> nat \<Rightarrow> arm_inst" where
  "translate_smulw inst index =
     plain_inst inst index (smlad_inst (BIT inst 6) (reg_field inst 8) (reg_field inst 16) 0
       (reg_field inst 0) 0 0)"

definition translate_umaal :: "u32 \<Rightarrow> nat \<Rightarrow> arm_inst" where
  "translate_umaal inst index =
     plain_inst inst index (umaal_inst (reg_field inst 0) (reg_field inst 8)
       (reg_field inst 16) (reg_field inst 12))"

section \<open>Media instructions\<close>

definition translate_qadd :: "u32 \<Rightarrow> nat \<Rightarrow> arm_inst" where
  "translate_qadd inst index =
     plain_inst inst index (generic_arm_inst 0 (reg_field inst 0) (reg_field inst 16)
       (reg_field inst 12) (BITS inst 21 22) 0)"

definition translate_qdadd :: "u32 \<Rightarrow> nat \<Rightarrow> arm_inst" where
  "translate_qdadd = translate_qadd"

definition translate_qdsub :: "u32 \<Rightarrow> nat \<Rightarrow> arm_inst" where
  "translate_qdsub = translate_qadd"

definition translate_qsub :: "u32 \<Rightarrow> nat \<Rightarrow> arm_inst" where
  "translate_qsub = translate_qadd"

definition translate_qadd8 :: "u32 \<Rightarrow> nat \<Rightarrow> arm_inst" where
  "translate_qadd8 inst index =
     plain_inst inst index (generic_arm_inst 0 (reg_field inst 0) (reg_field inst 16)
       (reg_field inst 12) (BITS inst 20 21) (BITS inst 5 7))"

definition translate_qadd16 :: "u32 \<Rightarrow> nat \<Rightarrow> arm_inst" where
  "translate_qadd16 = translate_qadd8"

definition translate_qaddsubx :: "u32 \<Rightarrow> nat \<Rightarrow> arm_inst" where
  "translate_qaddsubx = translate_qadd8"

definition translate_qsub8 :: "u32 \<Rightarrow> nat \<Rightarrow> arm_inst" where
  "translate_qsub8 = translate_qadd8"

definition translate_qsub16 :: "u32 \<Rightarrow> nat \<Rightarrow> arm_inst" where
  "translate_qsub16 = translate_qadd8"

definition translate_qsubaddx :: "u32 \<Rightarrow> nat \<Rightarrow> arm_inst" where
  "translate_qsubaddx = translate_qadd8"

definition translate_sadd8 :: "u32 \<Rightarrow> nat \<Rightarrow> arm_inst" where
  "translate_sadd8 = translate_qadd8"

definition translate_sadd16 :: "u32 \<Rightarrow> nat \<Rightarrow> arm_inst" where
  "translate_sadd16 = translate_sadd8"

definition translate_saddsubx :: "u32 \<Rightarrow> nat \<Rightarrow> arm_inst" where
  "translate_saddsubx = translate_sadd8"

definition translate_ssub8 :: "u32 \<Rightarrow> nat \<Rightarrow> arm_inst" where
  "translate_ssub8 = translate_sadd8"

definition translate_ssub16 :: "u32 \<Rightarrow> nat \<Rightarrow> arm_inst" where
  "translate_ssub16 = translate_sadd8"

definition translate_ssubaddx :: "u32 \<Rightarrow> nat \<Rightarrow> arm_inst" where
  "translate_ssubaddx = translate_sadd8"

definition translate_shadd8 :: "u32 \<Rightarrow> nat \<Rightarrow> arm_inst" where
  "translate_shadd8 = translate_qadd8"

definition translate_shadd16 :: "u32 \<Rightarrow> nat \<Rightarrow> arm_inst" where
  "translate_shadd16 = translate_shadd8"

definition translate_shaddsubx :: "u32 \<Rightarrow> nat \<Rightarrow> arm_inst" where
  "translate_shaddsubx = translate_shadd8"

definition translate_shsub8 :: "u32 \<Rightarrow> nat \<Rightarrow> arm_inst" where
  "translate_shsub8 = translate_shadd8"

definition translate_shsub16 :: "u32 \<Rightarrow> nat \<Rightarrow> arm_inst" where
  "translate_shsub16 = translate_shadd8"

definition translate_shsubaddx :: "u32 \<Rightarrow> nat \<Rightarrow> arm_inst" where
  "translate_shsubaddx = translate_shadd8"

definition translate_uadd8 :: "u32 \<Rightarrow> nat \<Rightarrow> arm_inst" where
  "translate_uadd8 = translate_qadd8"

definition translate_uadd16 :: "u32 \<Rightarrow> nat \<Rightarrow> arm_inst" where
  "translate_uadd16 = translate_uadd8"

definition translate_uaddsubx :: "u32 \<Rightarrow> nat \<Rightarrow> arm_inst" where
  "translate_uaddsubx = translate_uadd8"

definition translate_usub8 :: "u32 \<Rightarrow> nat \<Rightarrow> arm_inst" where
  "translate_usub8 = translate_uadd8"

definition translate_usub16 :: "u32 \<Rightarrow> nat \<Rightarrow> arm_inst" where
  "translate_usub16 = translate_uadd8"

definition translate_usubaddx :: "u32 \<Rightarrow> nat \<Rightarrow> arm_inst" where
  "translate_usubaddx = translate_uadd8"

definition translate_uhadd8 :: "u32 \<Rightarrow> nat \<Rightarrow> arm_inst" where
  "translate_uhadd8 = translate_qadd8"

definition translate_uhadd16 :: "u32 \<Rightarrow> nat \<Rightarrow> arm_inst" where
  "translate_uhadd16 = translate_uhadd8"

definition translate_uhaddsubx :: "u32 \<Rightarrow> nat \<Rightarrow> arm_inst" where
  "translate_uhaddsubx = translate_uhadd8"

definition translate_uhsub8 :: "u32 \<Rightarrow> nat \<Rightarrow> arm_inst" where
  "translate_uhsub8 = translate_uhadd8"

definition translate_uhsub16 :: "u32 \<Rightarrow> nat \<Rightarrow> arm_inst" where
  "translate_uhsub16 = translate_uhadd8"

definition translate_uhsubaddx :: "u32 \<Rightarrow> nat \<Rightarrow> arm_inst" where
  "translate_uhsubaddx = translate_uhadd8"

definition translate_uqadd8 :: "u32 \<Rightarrow> nat \<Rightarrow> arm_inst" where
  "translate_uqadd8 = translate_qadd8"

definition translate_uqadd16 :: "u32 \<Rightarrow> nat \<Rightarrow> arm_inst" where
  "translate_uqadd16 = translate_uqadd8"

definition translate_uqaddsubx :: "u32 \<Rightarrow> nat \<Rightarrow> arm_inst" where
  "translate_uqaddsubx = translate_uqadd8"

definition translate_uqsub8 :: "u32 \<Rightarrow> nat \<Rightarrow> arm_inst" where
  "translate_uqsub8 = translate_uqadd8"

definition translate_uqsub16 :: "u32 \<Rightarrow> nat \<Rightarrow> arm_inst" where
  "translate_uqsub16 = translate_uqadd8"

definition translate_uqsubaddx :: "u32 \<Rightarrow> nat \<Rightarrow> arm_inst" where
  "translate_uqsubaddx = translate_uqadd8"

definition translate_sel :: "u32 \<Rightarrow> nat \<Rightarrow> arm_inst" where
  "translate_sel inst index =
     plain_inst inst index (generic_arm_inst 0 (reg_field inst 0) (reg_field inst 16)
       (reg_field inst 12) (BITS inst 20 22) (BITS inst 5 7))"

definition translate_usada8 :: "u32 \<Rightarrow> nat \<Rightarrow> arm_inst" where
  "translate_usada8 inst index =
     plain_inst inst index (generic_arm_inst (reg_field inst 12) (reg_field inst 8)
       (reg_field inst 0) (reg_field inst 16) (BITS inst 20 24) (BITS inst 5 7))"

definition translate_usad8 :: "u32 \<Rightarrow> nat \<Rightarrow> arm_inst" where
  "translate_usad8 = translate_usada8"

definition translate_pkhbt :: "u32 \<Rightarrow> nat \<Rightarrow> arm_inst" where
  "translate_pkhbt inst index =
     plain_inst inst index (pkh_inst (reg_field inst 0) (reg_field inst 16) (reg_field inst 12)
       (unat (BITS inst 7 11)))"

definition translate_pkhtb :: "u32 \<Rightarrow> nat \<Rightarrow> arm_inst" where
  "translate_pkhtb = translate_pkhbt"

definition translate_rev :: "u32 \<Rightarrow> nat \<Rightarrow> arm_inst" where
  "translate_rev inst index =
     plain_inst inst index (rev_inst (reg_field inst 12) (reg_field inst 0) (BITS inst 20 22)
       (BITS inst 5 7))"

definition translate_rev16 :: "u32 \<Rightarrow> nat \<Rightarrow> arm_inst" where
  "translate_rev16 = translate_rev"

definition translate_revsh :: "u32 \<Rightarrow> nat \<Rightarrow> arm_inst" where
  "translate_revsh = translate_rev"

definition translate_ssat :: "u32 \<Rightarrow> nat \<Rightarrow> arm_inst" where
  "translate_ssat inst index =
     plain_inst inst index (ssat_inst (reg_field inst 0) (reg_field inst 12)
       (unat (BITS inst 7 11)) (unat (BITS inst 16 20)) (BIT inst 6))"

definition translate_ssat16 :: "u32 \<Rightarrow> nat \<Rightarrow> arm_inst" where
  "translate_ssat16 inst index =
     plain_inst inst index (ssat_inst (reg_field inst 0) (reg_field inst 12) 0
       (reg_field inst 16) 0)"

definition translate_usat :: "u32 \<Rightarrow> nat \<Rightarrow> arm_inst" where
  "translate_usat = translate_ssat"

definition translate_usat16 :: "u32 \<Rightarrow> nat \<Rightarrow> arm_inst" where
  "translate_usat16 = translate_ssat16"

definition translate_sxtb :: "u32 \<Rightarrow> nat \<Rightarrow> arm_inst" where
  "translate_sxtb inst index =
     plain_inst inst index (extend_inst (reg_field inst 12) (reg_field inst 0)
       (unat (BITS inst 10 11)))"

definition translate_sxth :: "u32 \<Rightarrow> nat \<Rightarrow> arm_inst" where
  "translate_sxth = translate_sxtb"

definition translate_uxtb :: "u32 \<Rightarrow> nat \<Rightarrow> arm_inst" where
  "translate_uxtb = translate_sxtb"

definition translate_uxth :: "u32 \<Rightarrow> nat \<Rightarrow> arm_inst" where
  "translate_uxth = translate_sxtb"

definition translate_sxtab :: "u32 \<Rightarrow> nat \<Rightarrow> arm_inst" where
  "translate_sxtab inst index =
     plain_inst inst index (extend_add_inst (reg_field inst 12) (reg_field inst 16)
       (reg_field inst 0) (unat (BITS inst 10 11)))"

definition translate_sxtah :: "u32 \<Rightarrow> nat \<Rightarrow> arm_inst" where
  "translate_sxtah = translate_sxtab"

definition translate_uxtab :: "u32 \<Rightarrow> nat \<Rightarrow> arm_inst" where
  "translate_uxtab = translate_sxtab"

definition translate_uxtah :: "u32 \<Rightarrow> nat \<Rightarrow> arm_inst" where
  "translate_uxtah = translate_sxtab"

definition translate_sxtab16 :: "u32 \<Rightarrow> nat \<Rightarrow> arm_inst" where
  "translate_sxtab16 = translate_sxtab"

definition translate_uxtab16 :: "u32 \<Rightarrow> nat \<Rightarrow> arm_inst" where
  "translate_uxtab16 = translate_sxtab"

definition translate_sxtb16 :: "u32 \<Rightarrow> nat \<Rightarrow> arm_inst" where
  "translate_sxtb16 = translate_sxtab16"

definition translate_uxtb16 :: "u32 \<Rightarrow> nat \<Rightarrow> arm_inst" where
  "translate_uxtb16 = translate_uxtab16"

section \<open>Thumb branches\<close>

text \<open>A Thumb branch has no condition field of its own; the source leaves \<open>cond\<close> unset.\<close>

definition thumb_inst :: "nat \<Rightarrow> TransExtData \<Rightarrow> component \<Rightarrow> arm_inst" where
  "thumb_inst index b c = \<lparr>idx = index, cond = 0, br = b, component = c\<rparr>"

definition translate_b_2_thumb :: "u32 \<Rightarrow> nat \<Rightarrow> arm_inst" where
  "translate_b_2_thumb tinst index =
     thumb_inst index DIRECT_BRANCH (bl_thumb (push_bit 1 (tinst AND 0x3FF) OR
       (if tinst AND push_bit 10 1 \<noteq> 0 then 0xFFFFF800 else 0)))"

definition translate_b_cond_thumb :: "u32 \<Rightarrow> nat \<Rightarrow> arm_inst" where
  "translate_b_cond_thumb tinst index =
     thumb_inst index DIRECT_BRANCH (b_cond_thumb (push_bit 1 (tinst AND 0x7F) OR
       (if tinst AND push_bit 7 1 \<noteq> 0 then 0xFFFFFF00 else 0)) (drop_bit 8 tinst AND 0xf))"

definition translate_bl_1_thumb :: "u32 \<Rightarrow> nat \<Rightarrow> arm_inst" where
  "translate_bl_1_thumb tinst index =
     thumb_inst index NON_BRANCH (bl_thumb (push_bit 12 (tinst AND 0x07FF) OR
       (if tinst AND push_bit 10 1 \<noteq> 0 then 0xFF800000 else 0)))"

definition translate_bl_2_thumb :: "u32 \<Rightarrow> nat \<Rightarrow> arm_inst" where
  "translate_bl_2_thumb tinst index =
     thumb_inst index DIRECT_BRANCH (bl_thumb (push_bit 1 (tinst AND 0x07FF)))"

definition translate_blx_1_thumb :: "u32 \<Rightarrow> nat \<Rightarrow> arm_inst" where
  "translate_blx_1_thumb = translate_bl_2_thumb"

section \<open>Floating point\<close>

text \<open>The VFP translators are not modelled: the instruction word is kept as it is.\<close>

definition translate_vfp :: "u32 \<Rightarrow> nat \<Rightarrow> arm_inst" where
  "translate_vfp inst index =
     plain_inst inst index (vfp_inst inst)"

end
