(* ===== verification/ArmDecode.thy ===== *)
theory ArmDecode imports ArmInst begin

text \<open>
  The decoder, src/core/arm/dyncom/arm_dyncom_dec.cpp: a table of encodings, each a number of bit
  fields and the values they must have, and a second table of the encodings an entry excludes.
  The first entry whose fields all match, and whose exclusion does not, gives the index of the
  translator and of the label of an instruction. \<open>arm_instruction_trans\<close> is the table of
  translators of arm_dyncom_trans.cpp. An entry is its number of fields, its version and its
  fields; its name is the comment beside it.

  The second half is a decoder for classes of instructions: from the bits that all words of a
  class share it finds the entry that decodes every word of the class.
\<close>

section \<open>Tables\<close>

type_synonym InstructionSetEncodingItem = "nat \<times> nat \<times> (nat \<times> nat \<times> u32) list"

abbreviation (input) ARMVFP2 :: nat where "ARMVFP2 \<equiv> 9"
abbreviation (input) ARMVFP3 :: nat where "ARMVFP3 \<equiv> 10"
abbreviation (input) ARMV6K :: nat where "ARMV6K \<equiv> 11"

definition arm_instruction :: "InstructionSetEncodingItem list" where
  "arm_instruction =
     [(5, ARMVFP2, [(23, 27, 0x1c), (20, 21, 0x0), (9, 11, 0x5), (6, 6, 0x0), (4, 4, 0x0)]),  \<comment> \<open>0 vmla\<close>
      (5, ARMVFP2, [(23, 27, 0x1c), (20, 21, 0x0), (9, 11, 0x5), (6, 6, 0x1), (4, 4, 0x0)]),  \<comment> \<open>1 vmls\<close>
      (5, ARMVFP2, [(23, 27, 0x1c), (20, 21, 0x1), (9, 11, 0x5), (6, 6, 0x1), (4, 4, 0x0)]),  \<comment> \<open>2 vnmla\<close>
      (5, ARMVFP2, [(23, 27, 0x1c), (20, 21, 0x1), (9, 11, 0x5), (6, 6, 0x0), (4, 4, 0x0)]),  \<comment> \<open>3 vnmls\<close>
      (5, ARMVFP2, [(23, 27, 0x1c), (20, 21, 0x2), (9, 11, 0x5), (6, 6, 0x1), (4, 4, 0x0)]),  \<comment> \<open>4 vnmul\<close>
      (5, ARMVFP2, [(23, 27, 0x1c), (20, 21, 0x2), (9, 11, 0x5), (6, 6, 0x0), (4, 4, 0x0)]),  \<comment> \<open>5 vmul\<close>
      (5, ARMVFP2, [(23, 27, 0x1c), (20, 21, 0x3), (9, 11, 0x5), (6, 6, 0x0), (4, 4, 0x0)]),  \<comment> \<open>6 vadd\<close>
      (5, ARMVFP2, [(23, 27, 0x1c), (20, 21, 0x3), (9, 11, 0x5), (6, 6, 0x1), (4, 4, 0x0)]),  \<comment> \<open>7 vsub\<close>
      (5, ARMVFP2, [(23, 27, 0x1d), (20, 21, 0x0), (9, 11, 0x5), (6, 6, 0x0), (4, 4, 0x0)]),  \<comment> \<open>8 vdiv\<close>
      (4, ARMVFP3, [(23, 27, 0x1d), (20, 21, 0x3), (9, 11, 0x5), (4, 7, 0x0)]),  \<comment> \<open>9 vmov(i)\<close>
      (5, ARMVFP3, [(23, 27, 0x1d), (16, 21, 0x30), (9, 11, 0x5), (6, 7, 0x1), (4, 4, 0x0)]),  \<comment> \<open>10 vmov(r)\<close>
      (5, ARMVFP2, [(23, 27, 0x1d), (16, 21, 0x30), (9, 11, 0x5), (6, 7, 0x3), (4, 4, 0x0)]),  \<comment> \<open>11 vabs\<close>
      (5, ARMVFP2, [(23, 27, 0x1d), (17, 21, 0x18), (9, 11, 0x5), (6, 7, 0x1), (4, 4, 0x0)]),  \<comment> \<open>12 vneg\<close>
      (5, ARMVFP2, [(23, 27, 0x1d), (16, 21, 0x31), (9, 11, 0x5), (6, 7, 0x3), (4, 4, 0x0)]),  \<comment> \<open>13 vsqrt\<close>
      (5, ARMVFP2, [(23, 27, 0x1d), (16, 21, 0x34), (9, 11, 0x5), (6, 6, 0x1), (4, 4, 0x0)]),  \<comment> \<open>14 vcmp\<close>
      (5, ARMVFP2, [(23, 27, 0x1d), (16, 21, 0x35), (9, 11, 0x5), (0, 6, 0x40)]),  \<comment> \<open>15 vcmp2\<close>
      (5, ARMVFP2, [(23, 27, 0x1d), (16, 21, 0x37), (9, 11, 0x5), (6, 7, 0x3), (4, 4, 0x0)]),  \<comment> \<open>16 vcvt(bds)\<close>
      (6, ARMVFP3, [(23, 27, 0x1d), (19, 21, 0x7), (17, 17, 0x1), (9, 11, 0x5), (6, 6, 0x1)]),  \<comment> \<open>17 vcvt(bff)\<close>
      (5, ARMVFP2, [(23, 27, 0x1d), (19, 21, 0x7), (9, 11, 0x5), (6, 6, 0x1), (4, 4, 0x0)]),  \<comment> \<open>18 vcvt(bfi)\<close>
      (3, ARMVFP2, [(21, 27, 0x70), (8, 11, 0xa), (0, 6, 0x10)]),  \<comment> \<open>19 vmovbrs\<close>
      (2, ARMVFP2, [(20, 27, 0xee), (0, 11, 0xa10)]),  \<comment> \<open>20 vmsr\<close>
      (4, ARMVFP2, [(23, 27, 0x1c), (20, 20, 0x0), (8, 11, 0xb), (0, 4, 0x10)]),  \<comment> \<open>21 vmovbrc\<close>
      (2, ARMVFP2, [(20, 27, 0xef), (0, 11, 0xa10)]),  \<comment> \<open>22 vmrs\<close>
      (4, ARMVFP2, [(24, 27, 0xe), (20, 20, 0x1), (8, 11, 0xb), (0, 4, 0x10)]),  \<comment> \<open>23 vmovbcr\<close>
      (3, ARMVFP2, [(21, 27, 0x62), (8, 11, 0xa), (4, 4, 0x1)]),  \<comment> \<open>24 vmovbrrss\<close>
      (3, ARMVFP2, [(21, 27, 0x62), (6, 11, 0x2c), (4, 4, 0x1)]),  \<comment> \<open>25 vmovbrrd\<close>
      (3, ARMVFP2, [(24, 27, 0xd), (20, 21, 0x0), (9, 11, 0x5)]),  \<comment> \<open>26 vstr\<close>
      (3, ARMVFP2, [(23, 27, 0x1a), (16, 21, 0x2d), (9, 11, 0x5)]),  \<comment> \<open>27 vpush\<close>
      (3, ARMVFP2, [(25, 27, 0x6), (20, 20, 0x0), (9, 11, 0x5)]),  \<comment> \<open>28 vstm\<close>
      (3, ARMVFP2, [(23, 27, 0x19), (16, 21, 0x3d), (9, 11, 0x5)]),  \<comment> \<open>29 vpop\<close>
      (3, ARMVFP2, [(24, 27, 0xd), (20, 21, 0x1), (9, 11, 0x5)]),  \<comment> \<open>30 vldr\<close>
      (3, ARMVFP2, [(25, 27, 0x6), (20, 20, 0x1), (9, 11, 0x5)]),  \<comment> \<open>31 vldm\<close>
      (4, 6, [(25, 31, 0x7c), (22, 22, 0x1), (16, 20, 0xd), (8, 11, 0x5)]),  \<comment> \<open>32 srs\<close>
      (4, 6, [(25, 31, 0x7c), (22, 22, 0x0), (20, 20, 0x1), (8, 11, 0xa)]),  \<comment> \<open>33 rfe\<close>
      (2, 3, [(20, 27, 0x12), (4, 7, 0x7)]),  \<comment> \<open>34 bkpt\<close>
      (1, 3, [(25, 31, 0x7d)]),  \<comment> \<open>35 blx\<close>
      (3, 6, [(20, 31, 0xf10), (16, 16, 0x0), (5, 5, 0x0)]),  \<comment> \<open>36 cps\<close>
      (4, 4, [(26, 31, 0x3d), (24, 24, 0x1), (20, 22, 0x5), (12, 15, 0xf)]),  \<comment> \<open>37 pld\<close>
      (2, 6, [(16, 31, 0xf101), (4, 7, 0x0)]),  \<comment> \<open>38 setend\<close>
      (1, 6, [(0, 31, 0xf57ff01f)]),  \<comment> \<open>39 clrex\<close>
      (2, 6, [(16, 27, 0x6bf), (4, 11, 0xfb)]),  \<comment> \<open>40 rev16\<close>
      (3, 6, [(20, 27, 0x78), (12, 15, 0xf), (4, 7, 0x1)]),  \<comment> \<open>41 usad8\<close>
      (2, 6, [(16, 27, 0x6af), (4, 7, 0x7)]),  \<comment> \<open>42 sxtb\<close>
      (2, 6, [(16, 27, 0x6ef), (4, 7, 0x7)]),  \<comment> \<open>43 uxtb\<close>
      (2, 6, [(16, 27, 0x6bf), (4, 7, 0x7)]),  \<comment> \<open>44 sxth\<close>
      (2, 6, [(16, 27, 0x68f), (4, 7, 0x7)]),  \<comment> \<open>45 sxtb16\<close>
      (2, 6, [(16, 27, 0x6ff), (4, 7, 0x7)]),  \<comment> \<open>46 uxth\<close>
      (2, 6, [(16, 27, 0x6cf), (4, 7, 0x7)]),  \<comment> \<open>47 uxtb16\<close>
      (2, 6, [(20, 27, 0x1a), (4, 11, 0x0)]),  \<comment> \<open>48 cpy\<close>
      (2, 6, [(20, 27, 0x6e), (4, 9, 0x7)]),  \<comment> \<open>49 uxtab\<close>
      (2, 6, [(20, 27, 0x61), (4, 7, 0xf)]),  \<comment> \<open>50 ssub8\<close>
      (2, 6, [(20, 27, 0x63), (4, 7, 0xf)]),  \<comment> \<open>51 shsub8\<close>
      (2, 6, [(20, 27, 0x61), (4, 7, 0x5)]),  \<comment> \<open>52 ssubaddx\<close>
      (2, 6, [(20, 27, 0x18), (4, 7, 0x9)]),  \<comment> \<open>53 strex\<close>
      (2, 7, [(20, 27, 0x1c), (4, 7, 0x9)]),  \<comment> \<open>54 strexb\<close>
      (2, 0, [(20, 27, 0x10), (4, 7, 0x9)]),  \<comment> \<open>55 swp\<close>
      (2, 0, [(20, 27, 0x14), (4, 7, 0x9)]),  \<comment> \<open>56 swpb\<close>
      (2, 6, [(20, 27, 0x61), (4, 7, 0x7)]),  \<comment> \<open>57 ssub16\<close>
      (2, 6, [(20, 27, 0x6a), (4, 7, 0x3)]),  \<comment> \<open>58 ssat16\<close>
      (2, 6, [(20, 27, 0x63), (4, 7, 0x5)]),  \<comment> \<open>59 shsubaddx\<close>
      (2, 6, [(20, 27, 0x62), (4, 7, 0x5)]),  \<comment> \<open>60 qsubaddx\<close>
      (2, 6, [(20, 27, 0x63), (4, 7, 0x3)]),  \<comment> \<open>61 shaddsubx\<close>
      (2, 6, [(20, 27, 0x63), (4, 7, 0x9)]),  \<comment> \<open>62 shadd8\<close>
      (2, 6, [(20, 27, 0x63), (4, 7, 0x1)]),  \<comment> \<open>63 shadd16\<close>
      (2, 6, [(20, 27, 0x68), (4, 7, 0xb)]),  \<comment> \<open>64 sel\<close>
      (2, 6, [(20, 27, 0x61), (4, 7, 0x3)]),  \<comment> \<open>65 saddsubx\<close>
      (2, 6, [(20, 27, 0x61), (4, 7, 0x9)]),  \<comment> \<open>66 sadd8\<close>
      (2, 6, [(20, 27, 0x61), (4, 7, 0x1)]),  \<comment> \<open>67 sadd16\<close>
      (2, 6, [(20, 27, 0x63), (4, 7, 0x7)]),  \<comment> \<open>68 shsub16\<close>
      (2, 6, [(20, 27, 0x4), (4, 7, 0x9)]),  \<comment> \<open>69 umaal\<close>
      (2, 6, [(20, 27, 0x6c), (4, 7, 0x7)]),  \<comment> \<open>70 uxtab16\<close>
      (2, 6, [(20, 27, 0x65), (4, 7, 0x5)]),  \<comment> \<open>71 usubaddx\<close>
      (2, 6, [(20, 27, 0x65), (4, 7, 0xf)]),  \<comment> \<open>72 usub8\<close>
      (2, 6, [(20, 27, 0x65), (4, 7, 0x7)]),  \<comment> \<open>73 usub16\<close>
      (2, 6, [(20, 27, 0x6e), (4, 7, 0x3)]),  \<comment> \<open>74 usat16\<close>
      (2, 6, [(20, 27, 0x78), (4, 7, 0x1)]),  \<comment> \<open>75 usada8\<close>
      (2, 6, [(20, 27, 0x66), (4, 7, 0x5)]),  \<comment> \<open>76 uqsubaddx\<close>
      (2, 6, [(20, 27, 0x66), (4, 7, 0xf)]),  \<comment> \<open>77 uqsub8\<close>
      (2, 6, [(20, 27, 0x66), (4, 7, 0x7)]),  \<comment> \<open>78 uqsub16\<close>
      (2, 6, [(20, 27, 0x66), (4, 7, 0x3)]),  \<comment> \<open>79 uqaddsubx\<close>
      (2, 6, [(20, 27, 0x66), (4, 7, 0x9)]),  \<comment> \<open>80 uqadd8\<close>
      (2, 6, [(20, 27, 0x66), (4, 7, 0x1)]),  \<comment> \<open>81 uqadd16\<close>
      (2, 6, [(20, 27, 0x6a), (4, 7, 0x7)]),  \<comment> \<open>82 sxtab\<close>
      (2, 6, [(20, 27, 0x67), (4, 7, 0x5)]),  \<comment> \<open>83 uhsubaddx\<close>
      (2, 6, [(20, 27, 0x67), (4, 7, 0xf)]),  \<comment> \<open>84 uhsub8\<close>
      (2, 6, [(20, 27, 0x67), (4, 7, 0x7)]),  \<comment> \<open>85 uhsub16\<close>
      (2, 6, [(20, 27, 0x67), (4, 7, 0x3)]),  \<comment> \<open>86 uhaddsubx\<close>
      (2, 6, [(20, 27, 0x67), (4, 7, 0x9)]),  \<comment> \<open>87 uhadd8\<close>
      (2, 6, [(20, 27, 0x67), (4, 7, 0x1)]),  \<comment> \<open>88 uhadd16\<close>
      (2, 6, [(20, 27, 0x65), (4, 7, 0x3)]),  \<comment> \<open>89 uaddsubx\<close>
      (2, 6, [(20, 27, 0x65), (4, 7, 0x9)]),  \<comment> \<open>90 uadd8\<close>
      (2, 6, [(20, 27, 0x65), (4, 7, 0x1)]),  \<comment> \<open>91 uadd16\<close>
      (2, 6, [(20, 27, 0x6b), (4, 7, 0x7)]),  \<comment> \<open>92 sxtah\<close>
      (2, 6, [(20, 27, 0x68), (4, 7, 0x7)]),  \<comment> \<open>93 sxtab16\<close>
      (2, 6, [(20, 27, 0x62), (4, 7, 0x9)]),  \<comment> \<open>94 qadd8\<close>
      (2, 5, [(20, 27, 0x12), (4, 7, 0x2)]),  \<comment> \<open>95 bxj\<close>
      (2, 3, [(20, 27, 0x16), (4, 7, 0x1)]),  \<comment> \<open>96 clz\<close>
      (2, 6, [(20, 27, 0x6f), (4, 7, 0x7)]),  \<comment> \<open>97 uxtah\<close>
      (2, 2, [(20, 27, 0x12), (4, 7, 0x1)]),  \<comment> \<open>98 bx\<close>
      (2, 6, [(20, 27, 0x6b), (4, 7, 0x3)]),  \<comment> \<open>99 rev\<close>
      (2, 3, [(20, 27, 0x12), (4, 7, 0x3)]),  \<comment> \<open>100 blx\<close>
      (2, 6, [(20, 27, 0x6f), (4, 7, 0xb)]),  \<comment> \<open>101 revsh\<close>
      (2, 4, [(20, 27, 0x10), (4, 7, 0x5)]),  \<comment> \<open>102 qadd\<close>
      (2, 6, [(20, 27, 0x62), (4, 7, 0x1)]),  \<comment> \<open>103 qadd16\<close>
      (2, 6, [(20, 27, 0x62), (4, 7, 0x3)]),  \<comment> \<open>104 qaddsubx\<close>
      (2, 0, [(20, 27, 0x19), (4, 7, 0x9)]),  \<comment> \<open>105 ldrex\<close>
      (2, 4, [(20, 27, 0x14), (4, 7, 0x5)]),  \<comment> \<open>106 qdadd\<close>
      (2, 4, [(20, 27, 0x16), (4, 7, 0x5)]),  \<comment> \<open>107 qdsub\<close>
      (2, 4, [(20, 27, 0x12), (4, 7, 0x5)]),  \<comment> \<open>108 qsub\<close>
      (2, 7, [(20, 27, 0x1d), (4, 7, 0x9)]),  \<comment> \<open>109 ldrexb\<close>
      (2, 6, [(20, 27, 0x62), (4, 7, 0xf)]),  \<comment> \<open>110 qsub8\<close>
      (2, 6, [(20, 27, 0x62), (4, 7, 0x7)]),  \<comment> \<open>111 qsub16\<close>
      (4, 6, [(20, 27, 0x70), (12, 15, 0xf), (6, 7, 0x0), (4, 4, 0x1)]),  \<comment> \<open>112 smuad\<close>
      (4, 6, [(20, 27, 0x75), (12, 15, 0xf), (6, 7, 0x0), (4, 4, 0x1)]),  \<comment> \<open>113 smmul\<close>
      (4, 6, [(20, 27, 0x70), (12, 15, 0xf), (6, 7, 0x1), (4, 4, 0x1)]),  \<comment> \<open>114 smusd\<close>
      (3, 6, [(20, 27, 0x70), (6, 7, 0x1), (4, 4, 0x1)]),  \<comment> \<open>115 smlsd\<close>
      (3, 6, [(20, 27, 0x74), (6, 7, 0x1), (4, 4, 0x1)]),  \<comment> \<open>116 smlsld\<close>
      (3, 6, [(20, 27, 0x75), (6, 7, 0x0), (4, 4, 0x1)]),  \<comment> \<open>117 smmla\<close>
      (3, 6, [(20, 27, 0x75), (6, 7, 0x3), (4, 4, 0x1)]),  \<comment> \<open>118 smmls\<close>
      (3, 6, [(20, 27, 0x74), (6, 7, 0x0), (4, 4, 0x1)]),  \<comment> \<open>119 smlald\<close>
      (3, 6, [(20, 27, 0x70), (6, 7, 0x0), (4, 4, 0x1)]),  \<comment> \<open>120 smlad\<close>
      (3, 4, [(20, 27, 0x12), (7, 7, 0x1), (4, 5, 0x0)]),  \<comment> \<open>121 smlaw\<close>
      (3, 4, [(20, 27, 0x12), (7, 7, 0x1), (4, 5, 0x2)]),  \<comment> \<open>122 smulw\<close>
      (2, 6, [(20, 27, 0x68), (4, 6, 0x5)]),  \<comment> \<open>123 pkhtb\<close>
      (2, 6, [(20, 27, 0x68), (4, 6, 0x1)]),  \<comment> \<open>124 pkhbt\<close>
      (3, 4, [(20, 27, 0x16), (7, 7, 0x1), (4, 4, 0x0)]),  \<comment> \<open>125 smul\<close>
      (3, 4, [(20, 27, 0x14), (7, 7, 0x1), (4, 4, 0x0)]),  \<comment> \<open>126 smlalxy\<close>
      (3, 4, [(20, 27, 0x10), (7, 7, 0x1), (4, 4, 0x0)]),  \<comment> \<open>127 smla\<close>
      (1, 6, [(20, 27, 0xc4)]),  \<comment> \<open>128 mcrr\<close>
      (1, 6, [(20, 27, 0xc5)]),  \<comment> \<open>129 mrrc\<close>
      (2, 0, [(26, 27, 0x0), (20, 24, 0x15)]),  \<comment> \<open>130 cmp\<close>
      (2, 0, [(26, 27, 0x0), (20, 24, 0x11)]),  \<comment> \<open>131 tst\<close>
      (2, 0, [(26, 27, 0x0), (20, 24, 0x13)]),  \<comment> \<open>132 teq\<close>
      (2, 0, [(26, 27, 0x0), (20, 24, 0x17)]),  \<comment> \<open>133 cmn\<close>
      (2, 0, [(21, 27, 0x6), (4, 7, 0x9)]),  \<comment> \<open>134 smull\<close>
      (2, 0, [(21, 27, 0x4), (4, 7, 0x9)]),  \<comment> \<open>135 umull\<close>
      (2, 0, [(21, 27, 0x5), (4, 7, 0x9)]),  \<comment> \<open>136 umlal\<close>
      (2, 0, [(21, 27, 0x7), (4, 7, 0x9)]),  \<comment> \<open>137 smlal\<close>
      (2, 0, [(21, 27, 0x0), (4, 7, 0x9)]),  \<comment> \<open>138 mul\<close>
      (2, 0, [(21, 27, 0x1), (4, 7, 0x9)]),  \<comment> \<open>139 mla\<close>
      (2, 6, [(21, 27, 0x35), (4, 5, 0x1)]),  \<comment> \<open>140 ssat\<close>
      (2, 6, [(21, 27, 0x37), (4, 5, 0x1)]),  \<comment> \<open>141 usat\<close>
      (4, 0, [(23, 27, 0x2), (20, 21, 0x0), (16, 19, 0xf), (0, 11, 0x0)]),  \<comment> \<open>142 mrs\<close>
      (3, 0, [(23, 27, 0x2), (20, 21, 0x2), (4, 7, 0x0)]),  \<comment> \<open>143 msr\<close>
      (2, 0, [(26, 27, 0x0), (21, 24, 0x0)]),  \<comment> \<open>144 and\<close>
      (2, 0, [(26, 27, 0x0), (21, 24, 0xe)]),  \<comment> \<open>145 bic\<close>
      (3, 0, [(25, 27, 0x4), (20, 22, 0x5), (15, 15, 0x0)]),  \<comment> \<open>146 ldm\<close>
      (2, 0, [(26, 27, 0x0), (21, 24, 0x1)]),  \<comment> \<open>147 eor\<close>
      (2, 0, [(26, 27, 0x0), (21, 24, 0x4)]),  \<comment> \<open>148 add\<close>
      (2, 0, [(26, 27, 0x0), (21, 24, 0x3)]),  \<comment> \<open>149 rsb\<close>
      (2, 0, [(26, 27, 0x0), (21, 24, 0x7)]),  \<comment> \<open>150 rsc\<close>
      (2, 0, [(26, 27, 0x0), (21, 24, 0x6)]),  \<comment> \<open>151 sbc\<close>
      (2, 0, [(26, 27, 0x0), (21, 24, 0x5)]),  \<comment> \<open>152 adc\<close>
      (2, 0, [(26, 27, 0x0), (21, 24, 0x2)]),  \<comment> \<open>153 sub\<close>
      (2, 0, [(26, 27, 0x0), (21, 24, 0xc)]),  \<comment> \<open>154 orr\<close>
      (2, 0, [(26, 27, 0x0), (21, 24, 0xf)]),  \<comment> \<open>155 mvn\<close>
      (2, 0, [(26, 27, 0x0), (21, 24, 0xd)]),  \<comment> \<open>156 mov\<close>
      (2, 0, [(25, 27, 0x4), (20, 22, 0x4)]),  \<comment> \<open>157 stm\<close>
      (4, 0, [(25, 27, 0x4), (22, 22, 0x1), (20, 20, 0x1), (15, 15, 0x1)]),  \<comment> \<open>158 ldm\<close>
      (3, 2, [(25, 27, 0x0), (20, 20, 0x1), (4, 7, 0xf)]),  \<comment> \<open>159 ldrsh\<close>
      (3, 0, [(25, 27, 0x4), (22, 22, 0x0), (20, 20, 0x0)]),  \<comment> \<open>160 stm\<close>
      (3, 0, [(25, 27, 0x4), (22, 22, 0x0), (20, 20, 0x1)]),  \<comment> \<open>161 ldm\<close>
      (3, 2, [(25, 27, 0x0), (20, 20, 0x1), (4, 7, 0xd)]),  \<comment> \<open>162 ldrsb\<close>
      (3, 4, [(25, 27, 0x0), (20, 20, 0x0), (4, 7, 0xf)]),  \<comment> \<open>163 strd\<close>
      (3, 0, [(25, 27, 0x0), (20, 20, 0x1), (4, 7, 0xb)]),  \<comment> \<open>164 ldrh\<close>
      (3, 0, [(25, 27, 0x0), (20, 20, 0x0), (4, 7, 0xb)]),  \<comment> \<open>165 strh\<close>
      (3, 4, [(25, 27, 0x0), (20, 20, 0x0), (4, 7, 0xd)]),  \<comment> \<open>166 ldrd\<close>
      (3, 0, [(26, 27, 0x1), (24, 24, 0x0), (20, 22, 0x2)]),  \<comment> \<open>167 strt\<close>
      (3, 0, [(26, 27, 0x1), (24, 24, 0x0), (20, 22, 0x6)]),  \<comment> \<open>168 strbt\<close>
      (3, 0, [(26, 27, 0x1), (24, 24, 0x0), (20, 22, 0x7)]),  \<comment> \<open>169 ldrbt\<close>
      (3, 0, [(26, 27, 0x1), (24, 24, 0x0), (20, 22, 0x3)]),  \<comment> \<open>170 ldrt\<close>
      (3, 6, [(24, 27, 0xe), (20, 20, 0x1), (4, 4, 0x1)]),  \<comment> \<open>171 mrc\<close>
      (3, 0, [(24, 27, 0xe), (20, 20, 0x0), (4, 4, 0x1)]),  \<comment> \<open>172 mcr\<close>
      (3, 0, [(23, 27, 0x6), (20, 21, 0x2), (22, 22, 0x1)]),  \<comment> \<open>173 msr\<close>
      (4, 0, [(23, 27, 0x6), (20, 21, 0x2), (22, 22, 0x0), (16, 19, 0x4)]),  \<comment> \<open>174 msr\<close>
      (5, 0, [(23, 27, 0x6), (20, 21, 0x2), (22, 22, 0x0), (19, 19, 0x1), (16, 17, 0x0)]),  \<comment> \<open>175 msr\<close>
      (4, 0, [(23, 27, 0x6), (20, 21, 0x2), (22, 22, 0x0), (16, 17, 0x1)]),  \<comment> \<open>176 msr\<close>
      (4, 0, [(23, 27, 0x6), (20, 21, 0x2), (22, 22, 0x0), (17, 17, 0x1)]),  \<comment> \<open>177 msr\<close>
      (3, 0, [(26, 27, 0x1), (22, 22, 0x1), (20, 20, 0x1)]),  \<comment> \<open>178 ldrb\<close>
      (3, 0, [(26, 27, 0x1), (22, 22, 0x1), (20, 20, 0x0)]),  \<comment> \<open>179 strb\<close>
      (4, 0, [(28, 31, 0xe), (26, 27, 0x1), (22, 22, 0x0), (20, 20, 0x1)]),  \<comment> \<open>180 ldr\<close>
      (3, 0, [(26, 27, 0x1), (22, 22, 0x0), (20, 20, 0x1)]),  \<comment> \<open>181 ldrcond\<close>
      (3, 0, [(26, 27, 0x1), (22, 22, 0x0), (20, 20, 0x0)]),  \<comment> \<open>182 str\<close>
      (2, 0, [(24, 27, 0xe), (4, 4, 0x0)]),  \<comment> \<open>183 cdp\<close>
      (2, 0, [(25, 27, 0x6), (20, 20, 0x0)]),  \<comment> \<open>184 stc\<close>
      (2, 0, [(25, 27, 0x6), (20, 20, 0x1)]),  \<comment> \<open>185 ldc\<close>
      (2, ARMV6K, [(20, 27, 0x1b), (4, 7, 0x9)]),  \<comment> \<open>186 ldrexd\<close>
      (2, ARMV6K, [(20, 27, 0x1a), (4, 7, 0x9)]),  \<comment> \<open>187 strexd\<close>
      (2, ARMV6K, [(20, 27, 0x1f), (4, 7, 0x9)]),  \<comment> \<open>188 ldrexh\<close>
      (2, ARMV6K, [(20, 27, 0x1e), (4, 7, 0x9)]),  \<comment> \<open>189 strexh\<close>
      (5, ARMV6K, [(23, 27, 0x6), (22, 22, 0x0), (20, 21, 0x2), (16, 19, 0x0), (0, 7, 0x0)]),  \<comment> \<open>190 nop\<close>
      (5, ARMV6K, [(23, 27, 0x6), (22, 22, 0x0), (20, 21, 0x2), (16, 19, 0x0), (0, 7, 0x1)]),  \<comment> \<open>191 yield\<close>
      (5, ARMV6K, [(23, 27, 0x6), (22, 22, 0x0), (20, 21, 0x2), (16, 19, 0x0), (0, 7, 0x2)]),  \<comment> \<open>192 wfe\<close>
      (5, ARMV6K, [(23, 27, 0x6), (22, 22, 0x0), (20, 21, 0x2), (16, 19, 0x0), (0, 7, 0x3)]),  \<comment> \<open>193 wfi\<close>
      (5, ARMV6K, [(23, 27, 0x6), (22, 22, 0x0), (20, 21, 0x2), (16, 19, 0x0), (0, 7, 0x4)]),  \<comment> \<open>194 sev\<close>
      (1, 0, [(24, 27, 0xf)]),  \<comment> \<open>195 swi\<close>
      (1, 0, [(25, 27, 0x5)])]  \<comment> \<open>196 bbl\<close>"

definition arm_exclusion_code :: "InstructionSetEncodingItem list" where
  "arm_exclusion_code =
     [(0, ARMVFP2, []),  \<comment> \<open>0 vmla\<close>
      (0, ARMVFP2, []),  \<comment> \<open>1 vmls\<close>
      (0, ARMVFP2, []),  \<comment> \<open>2 vnmla\<close>
      (0, ARMVFP2, []),  \<comment> \<open>3 vnmls\<close>
      (0, ARMVFP2, []),  \<comment> \<open>4 vnmul\<close>
      (0, ARMVFP2, []),  \<comment> \<open>5 vmul\<close>
      (0, ARMVFP2, []),  \<comment> \<open>6 vadd\<close>
      (0, ARMVFP2, []),  \<comment> \<open>7 vsub\<close>
      (0, ARMVFP2, []),  \<comment> \<open>8 vdiv\<close>
      (0, ARMVFP3, []),  \<comment> \<open>9 vmov(i)\<close>
      (0, ARMVFP3, []),  \<comment> \<open>10 vmov(r)\<close>
      (0, ARMVFP2, []),  \<comment> \<open>11 vabs\<close>
      (0, ARMVFP2, []),  \<comment> \<open>12 vneg\<close>
      (0, ARMVFP2, []),  \<comment> \<open>13 vsqrt\<close>
      (0, ARMVFP2, []),  \<comment> \<open>14 vcmp\<close>
      (0, ARMVFP2, []),  \<comment> \<open>15 vcmp2\<close>
      (0, ARMVFP3, [(4, 4, 0x1)]),  \<comment> \<open>16 vcvt(bff)\<close>
      (0, ARMVFP2, []),  \<comment> \<open>17 vcvt(bds)\<close>
      (0, ARMVFP2, []),  \<comment> \<open>18 vcvt(bfi)\<close>
      (0, ARMVFP2, []),  \<comment> \<open>19 vmovbrs\<close>
      (0, ARMVFP2, []),  \<comment> \<open>20 vmsr\<close>
      (0, ARMVFP2, []),  \<comment> \<open>21 vmovbrc\<close>
      (0, ARMVFP2, []),  \<comment> \<open>22 vmrs\<close>
      (0, ARMVFP2, []),  \<comment> \<open>23 vmovbcr\<close>
      (0, ARMVFP2, []),  \<comment> \<open>24 vmovbrrss\<close>
      (0, ARMVFP2, []),  \<comment> \<open>25 vmovbrrd\<close>
      (0, ARMVFP2, []),  \<comment> \<open>26 vstr\<close>
      (0, ARMVFP2, []),  \<comment> \<open>27 vpush\<close>
      (0, ARMVFP2, []),  \<comment> \<open>28 vstm\<close>
      (0, ARMVFP2, []),  \<comment> \<open>29 vpop\<close>
      (0, ARMVFP2, []),  \<comment> \<open>30 vldr\<close>
      (0, ARMVFP2, []),  \<comment> \<open>31 vldm\<close>
      (0, 6, []),  \<comment> \<open>32 srs\<close>
      (0, 6, []),  \<comment> \<open>33 rfe\<close>
      (0, 3, []),  \<comment> \<open>34 bkpt\<close>
      (0, 3, []),  \<comment> \<open>35 blx\<close>
      (0, 6, []),  \<comment> \<open>36 cps\<close>
      (0, 4, []),  \<comment> \<open>37 pld\<close>
      (0, 6, []),  \<comment> \<open>38 setend\<close>
      (0, 6, []),  \<comment> \<open>39 clrex\<close>
      (0, 6, []),  \<comment> \<open>40 rev16\<close>
      (0, 6, []),  \<comment> \<open>41 usad8\<close>
      (0, 6, []),  \<comment> \<open>42 sxtb\<close>
      (0, 6, []),  \<comment> \<open>43 uxtb\<close>
      (0, 6, []),  \<comment> \<open>44 sxth\<close>
      (0, 6, []),  \<comment> \<open>45 sxtb16\<close>
      (0, 6, []),  \<comment> \<open>46 uxth\<close>
      (0, 6, []),  \<comment> \<open>47 uxtb16\<close>
      (0, 6, []),  \<comment> \<open>48 cpy\<close>
      (0, 6, []),  \<comment> \<open>49 uxtab\<close>
      (0, 6, []),  \<comment> \<open>50 ssub8\<close>
      (0, 6, []),  \<comment> \<open>51 shsub8\<close>
      (0, 6, []),  \<comment> \<open>52 ssubaddx\<close>
      (0, 6, []),  \<comment> \<open>53 strex\<close>
      (0, 7, []),  \<comment> \<open>54 strexb\<close>
      (0, 0, []),  \<comment> \<open>55 swp\<close>
      (0, 0, []),  \<comment> \<open>56 swpb\<close>
      (0, 6, []),  \<comment> \<open>57 ssub16\<close>
      (0, 6, []),  \<comment> \<open>58 ssat16\<close>
      (0, 6, []),  \<comment> \<open>59 shsubaddx\<close>
      (0, 6, []),  \<comment> \<open>60 qsubaddx\<close>
      (0, 6, []),  \<comment> \<open>61 shaddsubx\<close>
      (0, 6, []),  \<comment> \<open>62 shadd8\<close>
      (0, 6, []),  \<comment> \<open>63 shadd16\<close>
      (0, 6, []),  \<comment> \<open>64 sel\<close>
      (0, 6, []),  \<comment> \<open>65 saddsubx\<close>
      (0, 6, []),  \<comment> \<open>66 sadd8\<close>
      (0, 6, []),  \<comment> \<open>67 sadd16\<close>
      (0, 6, []),  \<comment> \<open>68 shsub16\<close>
      (0, 6, []),  \<comment> \<open>69 umaal\<close>
      (0, 6, []),  \<comment> \<open>70 uxtab16\<close>
      (0, 6, []),  \<comment> \<open>71 usubaddx\<close>
      (0, 6, []),  \<comment> \<open>72 usub8\<close>
      (0, 6, []),  \<comment> \<open>73 usub16\<close>
      (0, 6, []),  \<comment> \<open>74 usat16\<close>
      (0, 6, []),  \<comment> \<open>75 usada8\<close>
      (0, 6, []),  \<comment> \<open>76 uqsubaddx\<close>
      (0, 6, []),  \<comment> \<open>77 uqsub8\<close>
      (0, 6, []),  \<comment> \<open>78 uqsub16\<close>
      (0, 6, []),  \<comment> \<open>79 uqaddsubx\<close>
      (0, 6, []),  \<comment> \<open>80 uqadd8\<close>
      (0, 6, []),  \<comment> \<open>81 uqadd16\<close>
      (0, 6, []),  \<comment> \<open>82 sxtab\<close>
      (0, 6, []),  \<comment> \<open>83 uhsubaddx\<close>
      (0, 6, []),  \<comment> \<open>84 uhsub8\<close>
      (0, 6, []),  \<comment> \<open>85 uhsub16\<close>
      (0, 6, []),  \<comment> \<open>86 uhaddsubx\<close>
      (0, 6, []),  \<comment> \<open>87 uhadd8\<close>
      (0, 6, []),  \<comment> \<open>88 uhadd16\<close>
      (0, 6, []),  \<comment> \<open>89 uaddsubx\<close>
      (0, 6, []),  \<comment> \<open>90 uadd8\<close>
      (0, 6, []),  \<comment> \<open>91 uadd16\<close>
      (0, 6, []),  \<comment> \<open>92 sxtah\<close>
      (0, 6, []),  \<comment> \<open>93 sxtab16\<close>
      (0, 6, []),  \<comment> \<open>94 qadd8\<close>
      (0, 5, []),  \<comment> \<open>95 bxj\<close>
      (0, 3, []),  \<comment> \<open>96 clz\<close>
      (0, 6, []),  \<comment> \<open>97 uxtah\<close>
      (0, 2, []),  \<comment> \<open>98 bx\<close>
      (0, 6, []),  \<comment> \<open>99 rev\<close>
      (0, 3, []),  \<comment> \<open>100 blx\<close>
      (0, 6, []),  \<comment> \<open>101 revsh\<close>
      (0, 4, []),  \<comment> \<open>102 qadd\<close>
      (0, 6, []),  \<comment> \<open>103 qadd16\<close>
      (0, 6, []),  \<comment> \<open>104 qaddsubx\<close>
      (0, 0, []),  \<comment> \<open>105 ldrex\<close>
      (0, 4, []),  \<comment> \<open>106 qdadd\<close>
      (0, 4, []),  \<comment> \<open>107 qdsub\<close>
      (0, 4, []),  \<comment> \<open>108 qsub\<close>
      (0, 7, []),  \<comment> \<open>109 ldrexb\<close>
      (0, 6, []),  \<comment> \<open>110 qsub8\<close>
      (0, 6, []),  \<comment> \<open>111 qsub16\<close>
      (0, 6, []),  \<comment> \<open>112 smuad\<close>
      (0, 6, []),  \<comment> \<open>113 smmul\<close>
      (0, 6, []),  \<comment> \<open>114 smusd\<close>
      (0, 6, []),  \<comment> \<open>115 smlsd\<close>
      (0, 6, []),  \<comment> \<open>116 smlsld\<close>
      (0, 6, []),  \<comment> \<open>117 smmla\<close>
      (0, 6, []),  \<comment> \<open>118 smmls\<close>
      (0, 6, []),  \<comment> \<open>119 smlald\<close>
      (0, 6, []),  \<comment> \<open>120 smlad\<close>
      (0, 4, []),  \<comment> \<open>121 smlaw\<close>
      (0, 4, []),  \<comment> \<open>122 smulw\<close>
      (0, 6, []),  \<comment> \<open>123 pkhtb\<close>
      (0, 6, []),  \<comment> \<open>124 pkhbt\<close>
      (0, 4, []),  \<comment> \<open>125 smul\<close>
      (0, 4, []),  \<comment> \<open>126 smlal\<close>
      (0, 4, []),  \<comment> \<open>127 smla\<close>
      (0, 6, []),  \<comment> \<open>128 mcrr\<close>
      (0, 6, []),  \<comment> \<open>129 mrrc\<close>
      (3, 0, [(4, 4, 0x1), (7, 7, 0x1), (25, 25, 0x0)]),  \<comment> \<open>130 cmp\<close>
      (3, 0, [(4, 4, 0x1), (7, 7, 0x1), (25, 25, 0x0)]),  \<comment> \<open>131 tst\<close>
      (3, 0, [(4, 4, 0x1), (7, 7, 0x1), (25, 25, 0x0)]),  \<comment> \<open>132 teq\<close>
      (3, 0, [(4, 4, 0x1), (7, 7, 0x1), (25, 25, 0x0)]),  \<comment> \<open>133 cmn\<close>
      (0, 0, []),  \<comment> \<open>134 smull\<close>
      (0, 0, []),  \<comment> \<open>135 umull\<close>
      (0, 0, []),  \<comment> \<open>136 umlal\<close>
      (0, 0, []),  \<comment> \<open>137 smlal\<close>
      (0, 0, []),  \<comment> \<open>138 mul\<close>
      (0, 0, []),  \<comment> \<open>139 mla\<close>
      (0, 6, []),  \<comment> \<open>140 ssat\<close>
      (0, 6, []),  \<comment> \<open>141 usat\<close>
      (0, 0, []),  \<comment> \<open>142 mrs\<close>
      (0, 0, []),  \<comment> \<open>143 msr\<close>
      (3, 0, [(4, 4, 0x1), (7, 7, 0x1), (25, 25, 0x0)]),  \<comment> \<open>144 and\<close>
      (3, 0, [(4, 4, 0x1), (7, 7, 0x1), (25, 25, 0x0)]),  \<comment> \<open>145 bic\<close>
      (0, 0, []),  \<comment> \<open>146 ldm\<close>
      (3, 0, [(4, 4, 0x1), (7, 7, 0x1), (25, 25, 0x0)]),  \<comment> \<open>147 eor\<close>
      (3, 0, [(4, 4, 0x1), (7, 7, 0x1), (25, 25, 0x0)]),  \<comment> \<open>148 add\<close>
      (3, 0, [(4, 4, 0x1), (7, 7, 0x1), (25, 25, 0x0)]),  \<comment> \<open>149 rsb\<close>
      (3, 0, [(4, 4, 0x1), (7, 7, 0x1), (25, 25, 0x0)]),  \<comment> \<open>150 rsc\<close>
      (3, 0, [(4, 4, 0x1), (7, 7, 0x1), (25, 25, 0x0)]),  \<comment> \<open>151 sbc\<close>
      (3, 0, [(4, 4, 0x1), (7, 7, 0x1), (25, 25, 0x0)]),  \<comment> \<open>152 adc\<close>
      (3, 0, [(4, 4, 0x1), (7, 7, 0x1), (25, 25, 0x0)]),  \<comment> \<open>153 sub\<close>
      (3, 0, [(4, 4, 0x1), (7, 7, 0x1), (25, 25, 0x0)]),  \<comment> \<open>154 orr\<close>
      (3, 0, [(4, 4, 0x1), (7, 7, 0x1), (25, 25, 0x0)]),  \<comment> \<open>155 mvn\<close>
      (3, 0, [(4, 4, 0x1), (7, 7, 0x1), (25, 25, 0x0)]),  \<comment> \<open>156 mov\<close>
      (0, 0, []),  \<comment> \<open>157 stm\<close>
      (0, 0, []),  \<comment> \<open>158 ldm\<close>
      (0, 2, []),  \<comment> \<open>159 ldrsh\<close>
      (0, 0, []),  \<comment> \<open>160 stm\<close>
      (0, 0, []),  \<comment> \<open>161 ldm\<close>
      (0, 2, []),  \<comment> \<open>162 ldrsb\<close>
      (0, 4, []),  \<comment> \<open>163 strd\<close>
      (0, 0, []),  \<comment> \<open>164 ldrh\<close>
      (0, 0, []),  \<comment> \<open>165 strh\<close>
      (0, 4, []),  \<comment> \<open>166 ldrd\<close>
      (0, 0, []),  \<comment> \<open>167 strt\<close>
      (0, 0, []),  \<comment> \<open>168 strbt\<close>
      (0, 0, []),  \<comment> \<open>169 ldrbt\<close>
      (0, 0, []),  \<comment> \<open>170 ldrt\<close>
      (0, 6, []),  \<comment> \<open>171 mrc\<close>
      (0, 0, []),  \<comment> \<open>172 mcr\<close>
      (0, 0, []),  \<comment> \<open>173 msr\<close>
      (0, 0, []),  \<comment> \<open>174 msr\<close>
      (0, 0, []),  \<comment> \<open>175 msr\<close>
      (0, 0, []),  \<comment> \<open>176 msr\<close>
      (0, 0, []),  \<comment> \<open>177 msr\<close>
      (0, 0, []),  \<comment> \<open>178 ldrb\<close>
      (0, 0, []),  \<comment> \<open>179 strb\<close>
      (0, 0, []),  \<comment> \<open>180 ldr\<close>
      (1, 0, [(28, 31, 0xe)]),  \<comment> \<open>181 ldrcond\<close>
      (0, 0, []),  \<comment> \<open>182 str\<close>
      (0, 0, []),  \<comment> \<open>183 cdp\<close>
      (0, 0, []),  \<comment> \<open>184 stc\<close>
      (0, 0, []),  \<comment> \<open>185 ldc\<close>
      (0, ARMV6K, []),  \<comment> \<open>186 ldrexd\<close>
      (0, ARMV6K, []),  \<comment> \<open>187 strexd\<close>
      (0, ARMV6K, []),  \<comment> \<open>188 ldrexh\<close>
      (0, ARMV6K, []),  \<comment> \<open>189 strexh\<close>
      (0, ARMV6K, []),  \<comment> \<open>190 nop\<close>
      (0, ARMV6K, []),  \<comment> \<open>191 yield\<close>
      (0, ARMV6K, []),  \<comment> \<open>192 wfe\<close>
      (0, ARMV6K, []),  \<comment> \<open>193 wfi\<close>
      (0, ARMV6K, []),  \<comment> \<open>194 sev\<close>
      (0, 0, []),  \<comment> \<open>195 swi\<close>
      (0, 0, []),  \<comment> \<open>196 bbl\<close>
      (0, 0, []),  \<comment> \<open>197 bl_1_thumb\<close>
      (0, 0, []),  \<comment> \<open>198 bl_2_thumb\<close>
      (0, 0, []),  \<comment> \<open>199 blx_1_thumb\<close>
      (0, 0, [])]  \<comment> \<open>200 invalid\<close>"

definition arm_instruction_trans :: "(u32 \<Rightarrow> nat \<Rightarrow> arm_inst) list" where
  "arm_instruction_trans = [
      translate_vfp, translate_vfp, translate_vfp, translate_vfp, translate_vfp, translate_vfp,
      translate_vfp, translate_vfp, translate_vfp, translate_vfp, translate_vfp, translate_vfp,
      translate_vfp, translate_vfp, translate_vfp, translate_vfp, translate_vfp, translate_vfp,
      translate_vfp, translate_vfp, translate_vfp, translate_vfp, translate_vfp, translate_vfp,
      translate_vfp, translate_vfp, translate_vfp, translate_vfp, translate_vfp, translate_vfp,
      translate_vfp, translate_vfp, translate_srs, translate_rfe, translate_bkpt,
      translate_blx, translate_cps, translate_pld, translate_setend, translate_clrex,
      translate_rev16, translate_usad8, translate_sxtb, translate_uxtb, translate_sxth,
      translate_sxtb16, translate_uxth, translate_uxtb16, translate_cpy, translate_uxtab,
      translate_ssub8, translate_shsub8, translate_ssubaddx, translate_strex, translate_strexb,
      translate_swp, translate_swpb, translate_ssub16, translate_ssat16, translate_shsubaddx,
      translate_qsubaddx, translate_shaddsubx, translate_shadd8, translate_shadd16,
      translate_sel, translate_saddsubx, translate_sadd8, translate_sadd16, translate_shsub16,
      translate_umaal, translate_uxtab16, translate_usubaddx, translate_usub8,
      translate_usub16, translate_usat16, translate_usada8, translate_uqsubaddx,
      translate_uqsub8, translate_uqsub16, translate_uqaddsubx, translate_uqadd8,
      translate_uqadd16, translate_sxtab, translate_uhsubaddx, translate_uhsub8,
      translate_uhsub16, translate_uhaddsubx, translate_uhadd8, translate_uhadd16,
      translate_uaddsubx, translate_uadd8, translate_uadd16, translate_sxtah,
      translate_sxtab16, translate_qadd8, translate_bxj, translate_clz, translate_uxtah,
      translate_bx, translate_rev, translate_blx, translate_revsh, translate_qadd,
      translate_qadd16, translate_qaddsubx, translate_ldrex, translate_qdadd, translate_qdsub,
      translate_qsub, translate_ldrexb, translate_qsub8, translate_qsub16, translate_smuad,
      translate_smmul, translate_smusd, translate_smlsd, translate_smlsld, translate_smmla,
      translate_smmls, translate_smlald, translate_smlad, translate_smlaw, translate_smulw,
      translate_pkhtb, translate_pkhbt, translate_smul, translate_smlalxy, translate_smla,
      translate_mcrr, translate_mrrc, translate_cmp, translate_tst, translate_teq,
      translate_cmn, translate_smull, translate_umull, translate_umlal, translate_smlal,
      translate_mul, translate_mla, translate_ssat, translate_usat, translate_mrs,
      translate_msr, translate_and, translate_bic, translate_ldm, translate_eor, translate_add,
      translate_rsb, translate_rsc, translate_sbc, translate_adc, translate_sub, translate_orr,
      translate_mvn, translate_mov, translate_stm, translate_ldm, translate_ldrsh,
      translate_stm, translate_ldm, translate_ldrsb, translate_strd, translate_ldrh,
      translate_strh, translate_ldrd, translate_strt, translate_strbt, translate_ldrbt,
      translate_ldrt, translate_mrc, translate_mcr, translate_msr, translate_msr,
      translate_msr, translate_msr, translate_msr, translate_ldrb, translate_strb,
      translate_ldr, translate_ldrcond, translate_str, translate_cdp, translate_stc,
      translate_ldc, translate_ldrexd, translate_strexd, translate_ldrexh, translate_strexh,
      translate_nop, translate_yield, translate_wfe, translate_wfi, translate_sev,
      translate_swi, translate_bbl, translate_b_2_thumb, translate_b_cond_thumb,
      translate_bl_1_thumb, translate_bl_2_thumb, translate_blx_1_thumb]"

section \<open>The decoder\<close>

text \<open>All of the first \<open>n\<close> fields of an entry match; a field from bit 0 to bit 31 is the whole word.\<close>

fun fields_match :: "u32 \<Rightarrow> nat \<Rightarrow> (nat \<times> nat \<times> u32) list \<Rightarrow> bool" where
  "fields_match inst 0 content \<longleftrightarrow> True"
| "fields_match inst (Suc n) [] \<longleftrightarrow> BITS inst 0 0 = 0 \<and> fields_match inst n []"
| "fields_match inst (Suc n) ((a, b, v) # content) \<longleftrightarrow>
     (if b = 31 \<and> a = 0 then inst = v else BITS inst a b = v) \<and> fields_match inst n content"

text \<open>The exclusion loop reads its fields in the same way, without the case of a whole word.\<close>

fun exclusion_match :: "u32 \<Rightarrow> nat \<Rightarrow> (nat \<times> nat \<times> u32) list \<Rightarrow> bool" where
  "exclusion_match inst 0 content \<longleftrightarrow> True"
| "exclusion_match inst (Suc n) [] \<longleftrightarrow> BITS inst 0 0 = 0 \<and> exclusion_match inst n []"
| "exclusion_match inst (Suc n) ((a, b, v) # content) \<longleftrightarrow>
     BITS inst a b = v \<and> exclusion_match inst n content"

fun decode_from :: "u32 \<Rightarrow> nat \<Rightarrow> (InstructionSetEncodingItem \<times> InstructionSetEncodingItem) list \<Rightarrow> nat option" where
  "decode_from inst i [] = None"
| "decode_from inst i (((n, version, content), (xn, _, xcontent)) # items) =
     (if version = ARMVFP3 then decode_from inst (Suc i) items
      else if fields_match inst n content \<and> \<not> (xn \<noteq> 0 \<and> exclusion_match inst xn xcontent)
      then Some i
      else decode_from inst (Suc i) items)"

definition decode_table :: "(InstructionSetEncodingItem \<times> InstructionSetEncodingItem) list" where
  "decode_table = zip arm_instruction arm_exclusion_code"

definition DecodeARMInstruction :: "u32 \<Rightarrow> nat option" where
  "DecodeARMInstruction inst = decode_from inst 0 decode_table"

end
