(* ===== verification/ArmState.thy ===== *)
theory ArmState imports ArmInst Memory "HOL-Library.Monad_Syntax" begin

text \<open>
  The state of an ARM core and what acts on it alone, src/core/arm/skyeye_common/armstate.cpp and
  armstate.h: the registers and their banks, the change of privilege mode, reset, access to memory
  in the byte order of the E bit, the coprocessor registers and the exclusive monitor. Registers
  are functions from their number. Not in the record: the floating-point registers, the signals
  nobody reads and the debugger's breakpoints; \<open>instruction_cache\<close> holds the translated block
  itself where the source holds its offset in a buffer.
\<close>

section \<open>The registers of coprocessor 15\<close>

abbreviation (input) CP15_MAIN_ID :: nat where "CP15_MAIN_ID \<equiv> 0"
abbreviation (input) CP15_CACHE_TYPE :: nat where "CP15_CACHE_TYPE \<equiv> 1"
abbreviation (input) CP15_TLB_TYPE :: nat where "CP15_TLB_TYPE \<equiv> 3"
abbreviation (input) CP15_CPU_ID :: nat where "CP15_CPU_ID \<equiv> 4"
abbreviation (input) CP15_PROCESSOR_FEATURE_0 :: nat where "CP15_PROCESSOR_FEATURE_0 \<equiv> 5"
abbreviation (input) CP15_PROCESSOR_FEATURE_1 :: nat where "CP15_PROCESSOR_FEATURE_1 \<equiv> 6"
abbreviation (input) CP15_DEBUG_FEATURE_0 :: nat where "CP15_DEBUG_FEATURE_0 \<equiv> 7"
abbreviation (input) CP15_MEMORY_MODEL_FEATURE_0 :: nat where "CP15_MEMORY_MODEL_FEATURE_0 \<equiv> 9"
abbreviation (input) CP15_MEMORY_MODEL_FEATURE_1 :: nat where "CP15_MEMORY_MODEL_FEATURE_1 \<equiv> 10"
abbreviation (input) CP15_MEMORY_MODEL_FEATURE_2 :: nat where "CP15_MEMORY_MODEL_FEATURE_2 \<equiv> 11"
abbreviation (input) CP15_MEMORY_MODEL_FEATURE_3 :: nat where "CP15_MEMORY_MODEL_FEATURE_3 \<equiv> 12"
abbreviation (input) CP15_ISA_FEATURE_0 :: nat where "CP15_ISA_FEATURE_0 \<equiv> 13"
abbreviation (input) CP15_ISA_FEATURE_1 :: nat where "CP15_ISA_FEATURE_1 \<equiv> 14"
abbreviation (input) CP15_ISA_FEATURE_2 :: nat where "CP15_ISA_FEATURE_2 \<equiv> 15"
abbreviation (input) CP15_ISA_FEATURE_3 :: nat where "CP15_ISA_FEATURE_3 \<equiv> 16"
abbreviation (input) CP15_ISA_FEATURE_4 :: nat where "CP15_ISA_FEATURE_4 \<equiv> 17"
abbreviation (input) CP15_CONTROL :: nat where "CP15_CONTROL \<equiv> 18"
abbreviation (input) CP15_AUXILIARY_CONTROL :: nat where "CP15_AUXILIARY_CONTROL \<equiv> 19"
abbreviation (input) CP15_COPROCESSOR_ACCESS_CONTROL :: nat where "CP15_COPROCESSOR_ACCESS_CONTROL \<equiv> 20"
abbreviation (input) CP15_TRANSLATION_BASE_TABLE_0 :: nat where "CP15_TRANSLATION_BASE_TABLE_0 \<equiv> 21"
abbreviation (input) CP15_TRANSLATION_BASE_TABLE_1 :: nat where "CP15_TRANSLATION_BASE_TABLE_1 \<equiv> 22"
abbreviation (input) CP15_TRANSLATION_BASE_CONTROL :: nat where "CP15_TRANSLATION_BASE_CONTROL \<equiv> 23"
abbreviation (input) CP15_DOMAIN_ACCESS_CONTROL :: nat where "CP15_DOMAIN_ACCESS_CONTROL \<equiv> 24"
abbreviation (input) CP15_FAULT_STATUS :: nat where "CP15_FAULT_STATUS \<equiv> 26"
abbreviation (input) CP15_INSTR_FAULT_STATUS :: nat where "CP15_INSTR_FAULT_STATUS \<equiv> 27"
abbreviation (input) CP15_FAULT_ADDRESS :: nat where "CP15_FAULT_ADDRESS \<equiv> 28"
abbreviation (input) CP15_WFAR :: nat where "CP15_WFAR \<equiv> 29"
abbreviation (input) CP15_WAIT_FOR_INTERRUPT :: nat where "CP15_WAIT_FOR_INTERRUPT \<equiv> 31"
abbreviation (input) CP15_PHYS_ADDRESS :: nat where "CP15_PHYS_ADDRESS \<equiv> 32"
abbreviation (input) CP15_INVALIDATE_INSTR_CACHE :: nat where "CP15_INVALIDATE_INSTR_CACHE \<equiv> 33"
abbreviation (input) CP15_INVALIDATE_INSTR_CACHE_USING_MVA :: nat where "CP15_INVALIDATE_INSTR_CACHE_USING_MVA \<equiv> 34"
abbreviation (input) CP15_INVALIDATE_INSTR_CACHE_USING_INDEX :: nat where "CP15_INVALIDATE_INSTR_CACHE_USING_INDEX \<equiv> 35"
abbreviation (input) CP15_FLUSH_PREFETCH_BUFFER :: nat where "CP15_FLUSH_PREFETCH_BUFFER \<equiv> 36"
abbreviation (input) CP15_FLUSH_BRANCH_TARGET_CACHE :: nat where "CP15_FLUSH_BRANCH_TARGET_CACHE \<equiv> 37"
abbreviation (input) CP15_FLUSH_BRANCH_TARGET_CACHE_ENTRY :: nat where "CP15_FLUSH_BRANCH_TARGET_CACHE_ENTRY \<equiv> 38"
abbreviation (input) CP15_INVALIDATE_DATA_CACHE :: nat where "CP15_INVALIDATE_DATA_CACHE \<equiv> 39"
abbreviation (input) CP15_INVALIDATE_DATA_CACHE_LINE_USING_MVA :: nat where "CP15_INVALIDATE_DATA_CACHE_LINE_USING_MVA \<equiv> 40"
abbreviation (input) CP15_INVALIDATE_DATA_CACHE_LINE_USING_INDEX :: nat where "CP15_INVALIDATE_DATA_CACHE_LINE_USING_INDEX \<equiv> 41"
abbreviation (input) CP15_INVALIDATE_DATA_AND_INSTR_CACHE :: nat where "CP15_INVALIDATE_DATA_AND_INSTR_CACHE \<equiv> 42"
abbreviation (input) CP15_CLEAN_DATA_CACHE :: nat where "CP15_CLEAN_DATA_CACHE \<equiv> 43"
abbreviation (input) CP15_CLEAN_DATA_CACHE_LINE_USING_MVA :: nat where "CP15_CLEAN_DATA_CACHE_LINE_USING_MVA \<equiv> 44"
abbreviation (input) CP15_CLEAN_DATA_CACHE_LINE_USING_INDEX :: nat where "CP15_CLEAN_DATA_CACHE_LINE_USING_INDEX \<equiv> 45"
abbreviation (input) CP15_DATA_SYNC_BARRIER :: nat where "CP15_DATA_SYNC_BARRIER \<equiv> 46"
abbreviation (input) CP15_DATA_MEMORY_BARRIER :: nat where "CP15_DATA_MEMORY_BARRIER \<equiv> 47"
abbreviation (input) CP15_CLEAN_AND_INVALIDATE_DATA_CACHE :: nat where "CP15_CLEAN_AND_INVALIDATE_DATA_CACHE \<equiv> 48"
abbreviation (input) CP15_CLEAN_AND_INVALIDATE_DATA_CACHE_LINE_USING_MVA :: nat where "CP15_CLEAN_AND_INVALIDATE_DATA_CACHE_LINE_USING_MVA \<equiv> 49"
abbreviation (input) CP15_CLEAN_AND_INVALIDATE_DATA_CACHE_LINE_USING_INDEX :: nat where "CP15_CLEAN_AND_INVALIDATE_DATA_CACHE_LINE_USING_INDEX \<equiv> 50"
abbreviation (input) CP15_INVALIDATE_ITLB :: nat where "CP15_INVALIDATE_ITLB \<equiv> 51"
abbreviation (input) CP15_INVALIDATE_ITLB_SINGLE_ENTRY :: nat where "CP15_INVALIDATE_ITLB_SINGLE_ENTRY \<equiv> 52"
abbreviation (input) CP15_INVALIDATE_ITLB_ENTRY_ON_ASID_MATCH :: nat where "CP15_INVALIDATE_ITLB_ENTRY_ON_ASID_MATCH \<equiv> 53"
abbreviation (input) CP15_INVALIDATE_ITLB_ENTRY_ON_MVA :: nat where "CP15_INVALIDATE_ITLB_ENTRY_ON_MVA \<equiv> 54"
abbreviation (input) CP15_INVALIDATE_DTLB :: nat where "CP15_INVALIDATE_DTLB \<equiv> 55"
abbreviation (input) CP15_INVALIDATE_DTLB_SINGLE_ENTRY :: nat where "CP15_INVALIDATE_DTLB_SINGLE_ENTRY \<equiv> 56"
abbreviation (input) CP15_INVALIDATE_DTLB_ENTRY_ON_ASID_MATCH :: nat where "CP15_INVALIDATE_DTLB_ENTRY_ON_ASID_MATCH \<equiv> 57"
abbreviation (input) CP15_INVALIDATE_DTLB_ENTRY_ON_MVA :: nat where "CP15_INVALIDATE_DTLB_ENTRY_ON_MVA \<equiv> 58"
abbreviation (input) CP15_INVALIDATE_UTLB :: nat where "CP15_INVALIDATE_UTLB \<equiv> 59"
abbreviation (input) CP15_INVALIDATE_UTLB_SINGLE_ENTRY :: nat where "CP15_INVALIDATE_UTLB_SINGLE_ENTRY \<equiv> 60"
abbreviation (input) CP15_INVALIDATE_UTLB_ENTRY_ON_ASID_MATCH :: nat where "CP15_INVALIDATE_UTLB_ENTRY_ON_ASID_MATCH \<equiv> 61"
abbreviation (input) CP15_INVALIDATE_UTLB_ENTRY_ON_MVA :: nat where "CP15_INVALIDATE_UTLB_ENTRY_ON_MVA \<equiv> 62"
abbreviation (input) CP15_DATA_CACHE_LOCKDOWN :: nat where "CP15_DATA_CACHE_LOCKDOWN \<equiv> 63"
abbreviation (input) CP15_TLB_LOCKDOWN :: nat where "CP15_TLB_LOCKDOWN \<equiv> 64"
abbreviation (input) CP15_PRIMARY_REGION_REMAP :: nat where "CP15_PRIMARY_REGION_REMAP \<equiv> 65"
abbreviation (input) CP15_NORMAL_REGION_REMAP :: nat where "CP15_NORMAL_REGION_REMAP \<equiv> 66"
abbreviation (input) CP15_PID :: nat where "CP15_PID \<equiv> 67"
abbreviation (input) CP15_CONTEXT_ID :: nat where "CP15_CONTEXT_ID \<equiv> 68"
abbreviation (input) CP15_THREAD_UPRW :: nat where "CP15_THREAD_UPRW \<equiv> 69"
abbreviation (input) CP15_THREAD_URO :: nat where "CP15_THREAD_URO \<equiv> 70"
abbreviation (input) CP15_THREAD_PRW :: nat where "CP15_THREAD_PRW \<equiv> 71"
abbreviation (input) CP15_PERFORMANCE_MONITOR_CONTROL :: nat where "CP15_PERFORMANCE_MONITOR_CONTROL \<equiv> 72"
abbreviation (input) CP15_CYCLE_COUNTER :: nat where "CP15_CYCLE_COUNTER \<equiv> 73"
abbreviation (input) CP15_COUNT_0 :: nat where "CP15_COUNT_0 \<equiv> 74"
abbreviation (input) CP15_COUNT_1 :: nat where "CP15_COUNT_1 \<equiv> 75"
abbreviation (input) CP15_READ_MAIN_TLB_LOCKDOWN_ENTRY :: nat where "CP15_READ_MAIN_TLB_LOCKDOWN_ENTRY \<equiv> 76"
abbreviation (input) CP15_WRITE_MAIN_TLB_LOCKDOWN_ENTRY :: nat where "CP15_WRITE_MAIN_TLB_LOCKDOWN_ENTRY \<equiv> 77"
abbreviation (input) CP15_MAIN_TLB_LOCKDOWN_VIRT_ADDRESS :: nat where "CP15_MAIN_TLB_LOCKDOWN_VIRT_ADDRESS \<equiv> 78"
abbreviation (input) CP15_MAIN_TLB_LOCKDOWN_PHYS_ADDRESS :: nat where "CP15_MAIN_TLB_LOCKDOWN_PHYS_ADDRESS \<equiv> 79"
abbreviation (input) CP15_MAIN_TLB_LOCKDOWN_ATTRIBUTE :: nat where "CP15_MAIN_TLB_LOCKDOWN_ATTRIBUTE \<equiv> 80"
abbreviation (input) CP15_TLB_DEBUG_CONTROL :: nat where "CP15_TLB_DEBUG_CONTROL \<equiv> 81"

section \<open>The state\<close>

record ARMul_State =
  Reg :: "nat \<Rightarrow> u32"
  Reg_usr :: "nat \<Rightarrow> u32"
  Reg_svc :: "nat \<Rightarrow> u32"
  Reg_abort :: "nat \<Rightarrow> u32"
  Reg_undef :: "nat \<Rightarrow> u32"
  Reg_irq :: "nat \<Rightarrow> u32"
  Reg_firq :: "nat \<Rightarrow> u32"
  Spsr :: "nat \<Rightarrow> u32"
  CP15 :: "nat \<Rightarrow> u32"
  Cpsr :: u32
  Spsr_copy :: u32
  Mode :: u32
  Bank :: nat
  NFlag :: u32
  ZFlag :: u32
  CFlag :: u32
  VFlag :: u32
  TFlag :: u32
  shifter_carry_out :: u32
  NirqSig :: bool
  NumInstrsToExecute :: nat
  exclusive_tag :: u32
  exclusive_state :: bool
  instruction_cache :: "u32 \<Rightarrow> arm_inst list option"
  memory :: MemorySystem

abbreviation (input) USER32MODE :: u32 where "USER32MODE \<equiv> 16"
abbreviation (input) FIQ32MODE :: u32 where "FIQ32MODE \<equiv> 17"
abbreviation (input) IRQ32MODE :: u32 where "IRQ32MODE \<equiv> 18"
abbreviation (input) SVC32MODE :: u32 where "SVC32MODE \<equiv> 19"
abbreviation (input) ABORT32MODE :: u32 where "ABORT32MODE \<equiv> 23"
abbreviation (input) UNDEF32MODE :: u32 where "UNDEF32MODE \<equiv> 27"
abbreviation (input) SYSTEM32MODE :: u32 where "SYSTEM32MODE \<equiv> 31"

abbreviation (input) USERBANK :: nat where "USERBANK \<equiv> 0"
abbreviation (input) FIQBANK :: nat where "FIQBANK \<equiv> 1"
abbreviation (input) IRQBANK :: nat where "IRQBANK \<equiv> 2"
abbreviation (input) SVCBANK :: nat where "SVCBANK \<equiv> 3"
abbreviation (input) ABORTBANK :: nat where "ABORTBANK \<equiv> 4"
abbreviation (input) UNDEFBANK :: nat where "UNDEFBANK \<equiv> 5"
abbreviation (input) SYSTEMBANK :: nat where "SYSTEMBANK \<equiv> 7"

definition set_reg :: "nat \<Rightarrow> u32 \<Rightarrow> ARMul_State \<Rightarrow> ARMul_State" where
  "set_reg n v cpu = cpu\<lparr>Reg := (Reg cpu)(n := v)\<rparr>"

definition InBigEndianMode :: "ARMul_State \<Rightarrow> bool" where
  "InBigEndianMode cpu \<longleftrightarrow> Cpsr cpu AND push_bit 9 1 \<noteq> 0"

definition InAPrivilegedMode :: "ARMul_State \<Rightarrow> bool" where
  "InAPrivilegedMode cpu \<longleftrightarrow> Mode cpu \<noteq> USER32MODE"

definition CurrentModeHasSPSR :: "ARMul_State \<Rightarrow> bool" where
  "CurrentModeHasSPSR cpu \<longleftrightarrow> Mode cpu \<noteq> SYSTEM32MODE \<and> InAPrivilegedMode cpu"

definition GetInstructionSize :: "ARMul_State \<Rightarrow> u32" where
  "GetInstructionSize cpu = (if TFlag cpu \<noteq> 0 then 2 else 4)"

section \<open>Privilege modes\<close>

text \<open>The first switch saves what the old mode banks, the second loads what the new mode banks.\<close>

definition save_bank :: "ARMul_State \<Rightarrow> ARMul_State" where
  "save_bank cpu =
     (let two = (\<lambda>_. 0)(0 := Reg cpu 13, 1 := Reg cpu 14)
      in if Mode cpu = SYSTEM32MODE \<or> Mode cpu = USER32MODE then cpu\<lparr>Reg_usr := two\<rparr>
         else if Mode cpu = IRQ32MODE
         then cpu\<lparr>Reg_irq := two, Spsr := (Spsr cpu)(IRQBANK := Spsr_copy cpu)\<rparr>
         else if Mode cpu = SVC32MODE
         then cpu\<lparr>Reg_svc := two, Spsr := (Spsr cpu)(SVCBANK := Spsr_copy cpu)\<rparr>
         else if Mode cpu = ABORT32MODE
         then cpu\<lparr>Reg_abort := two, Spsr := (Spsr cpu)(ABORTBANK := Spsr_copy cpu)\<rparr>
         else if Mode cpu = UNDEF32MODE
         then cpu\<lparr>Reg_undef := two, Spsr := (Spsr cpu)(UNDEFBANK := Spsr_copy cpu)\<rparr>
         else if Mode cpu = FIQ32MODE
         then cpu\<lparr>Reg_firq := (\<lambda>i. if i < 7 then Reg cpu (8 + i) else 0),
                Spsr := (Spsr cpu)(FIQBANK := Spsr_copy cpu)\<rparr>
         else cpu)"

definition load_two :: "(nat \<Rightarrow> u32) \<Rightarrow> ARMul_State \<Rightarrow> ARMul_State" where
  "load_two bank cpu = set_reg 14 (bank 1) (set_reg 13 (bank 0) cpu)"

definition load_bank :: "u32 \<Rightarrow> ARMul_State \<Rightarrow> ARMul_State" where
  "load_bank new_mode cpu =
     (if new_mode = USER32MODE then (load_two (Reg_usr cpu) cpu)\<lparr>Bank := USERBANK\<rparr>
      else if new_mode = IRQ32MODE
      then (load_two (Reg_irq cpu) cpu)\<lparr>Spsr_copy := Spsr cpu IRQBANK, Bank := IRQBANK\<rparr>
      else if new_mode = SVC32MODE
      then (load_two (Reg_svc cpu) cpu)\<lparr>Spsr_copy := Spsr cpu SVCBANK, Bank := SVCBANK\<rparr>
      else if new_mode = ABORT32MODE
      then (load_two (Reg_abort cpu) cpu)\<lparr>Spsr_copy := Spsr cpu ABORTBANK, Bank := ABORTBANK\<rparr>
      else if new_mode = UNDEF32MODE
      then (load_two (Reg_undef cpu) cpu)\<lparr>Spsr_copy := Spsr cpu UNDEFBANK, Bank := UNDEFBANK\<rparr>
      else if new_mode = FIQ32MODE
      then cpu\<lparr>Reg := (\<lambda>n. if 8 \<le> n \<and> n < 15 then Reg_firq cpu (n - 8) else Reg cpu n),
             Spsr_copy := Spsr cpu FIQBANK, Bank := FIQBANK\<rparr>
      else if new_mode = SYSTEM32MODE then (load_two (Reg_usr cpu) cpu)\<lparr>Bank := SYSTEMBANK\<rparr>
      else cpu)"

text \<open>The source compares the new mode with \<open>USERBANK\<close>, which is 0 and no mode.\<close>

definition ChangePrivilegeMode :: "u32 \<Rightarrow> ARMul_State \<Rightarrow> ARMul_State" where
  "ChangePrivilegeMode new_mode cpu =
     (if Mode cpu = new_mode then cpu
      else if new_mode \<noteq> of_nat USERBANK
      then let cpu1 = load_bank new_mode (save_bank cpu)
           in cpu1\<lparr>Cpsr := (Cpsr cpu1 AND NOT (Mode cpu1)) OR new_mode, Mode := new_mode\<rparr>
      else cpu)"

section \<open>Reset\<close>

definition ResetMPCoreCP15Registers :: "ARMul_State \<Rightarrow> ARMul_State" where
  "ResetMPCoreCP15Registers cpu =
     cpu\<lparr>CP15 := (CP15 cpu)(
        CP15_MAIN_ID := 0x410fb024,
        CP15_TLB_TYPE := 0x800,
        CP15_PROCESSOR_FEATURE_0 := 0x111,
        CP15_PROCESSOR_FEATURE_1 := 0x1,
        CP15_DEBUG_FEATURE_0 := 0x2,
        CP15_MEMORY_MODEL_FEATURE_0 := 0x1100103,
        CP15_MEMORY_MODEL_FEATURE_1 := 0x10020302,
        CP15_MEMORY_MODEL_FEATURE_2 := 0x1222000,
        CP15_MEMORY_MODEL_FEATURE_3 := 0x0,
        CP15_ISA_FEATURE_0 := 0x100011,
        CP15_ISA_FEATURE_1 := 0x12002111,
        CP15_ISA_FEATURE_2 := 0x11221011,
        CP15_ISA_FEATURE_3 := 0x1102131,
        CP15_ISA_FEATURE_4 := 0x141,
        CP15_CONTROL := 0x54078,
        CP15_AUXILIARY_CONTROL := 0xf,
        CP15_COPROCESSOR_ACCESS_CONTROL := 0x0,
        CP15_TRANSLATION_BASE_TABLE_0 := 0x0,
        CP15_TRANSLATION_BASE_TABLE_1 := 0x0,
        CP15_TRANSLATION_BASE_CONTROL := 0x0,
        CP15_DOMAIN_ACCESS_CONTROL := 0x0,
        CP15_PHYS_ADDRESS := 0x0,
        CP15_DATA_CACHE_LOCKDOWN := 0xfffffff0,
        CP15_TLB_LOCKDOWN := 0x0,
        CP15_PRIMARY_REGION_REMAP := 0x98aa4,
        CP15_NORMAL_REGION_REMAP := 0x44e048e0,
        CP15_PID := 0x0,
        CP15_CONTEXT_ID := 0x0,
        CP15_THREAD_UPRW := 0x0,
        CP15_THREAD_URO := 0x0,
        CP15_THREAD_PRW := 0x0,
        CP15_PERFORMANCE_MONITOR_CONTROL := 0x0,
        CP15_MAIN_TLB_LOCKDOWN_VIRT_ADDRESS := 0x0,
        CP15_MAIN_TLB_LOCKDOWN_PHYS_ADDRESS := 0x0,
        CP15_MAIN_TLB_LOCKDOWN_ATTRIBUTE := 0x0,
        CP15_TLB_DEBUG_CONTROL := 0x0)\<rparr>"

definition Reset :: "ARMul_State \<Rightarrow> ARMul_State" where
  "Reset cpu =
     (let cpu1 = set_reg 15 0 (set_reg 13 0x10000000 cpu);
          cpu2 = ResetMPCoreCP15Registers (cpu1\<lparr>Cpsr := 0x1C0 OR SVC32MODE, Mode := SVC32MODE,
            Bank := SVCBANK\<rparr>)
      in cpu2\<lparr>NirqSig := True\<rparr>)"

section \<open>Memory\<close>

definition swap_bytes :: "'a::len word \<Rightarrow> 'a word" where
  "swap_bytes w = le_word (rev (le_bytes (LENGTH('a) div 8) w))"

definition in_order :: "ARMul_State \<Rightarrow> 'a::len word \<Rightarrow> 'a word" where
  "in_order cpu data = (if InBigEndianMode cpu then swap_bytes data else data)"

definition ReadMemory8 :: "Devices \<Rightarrow> ARMul_State \<Rightarrow> u32 \<Rightarrow> (u8 \<times> ARMul_State) option" where
  "ReadMemory8 D cpu address =
     do { (data, m) \<leftarrow> Read8 D (memory cpu) address; Some (data, cpu\<lparr>memory := m\<rparr>) }"

definition ReadMemory16 :: "Devices \<Rightarrow> ARMul_State \<Rightarrow> u32 \<Rightarrow> (u16 \<times> ARMul_State) option" where
  "ReadMemory16 D cpu address =
     do { (data, m) \<leftarrow> Read16 D (memory cpu) address; Some (in_order cpu data, cpu\<lparr>memory := m\<rparr>) }"

definition ReadMemory32 :: "Devices \<Rightarrow> ARMul_State \<Rightarrow> u32 \<Rightarrow> (u32 \<times> ARMul_State) option" where
  "ReadMemory32 D cpu address =
     do { (data, m) \<leftarrow> Read32 D (memory cpu) address; Some (in_order cpu data, cpu\<lparr>memory := m\<rparr>) }"

definition ReadMemory64 :: "Devices \<Rightarrow> ARMul_State \<Rightarrow> u32 \<Rightarrow> (u64 \<times> ARMul_State) option" where
  "ReadMemory64 D cpu address =
     do { (data, m) \<leftarrow> Read64 D (memory cpu) address; Some (in_order cpu data, cpu\<lparr>memory := m\<rparr>) }"

definition WriteMemory8 :: "Devices \<Rightarrow> u32 \<Rightarrow> u8 \<Rightarrow> ARMul_State \<Rightarrow> ARMul_State option" where
  "WriteMemory8 D address data cpu =
     do { m \<leftarrow> Write8 D (memory cpu) address data; Some (cpu\<lparr>memory := m\<rparr>) }"

definition WriteMemory16 :: "Devices \<Rightarrow> u32 \<Rightarrow> u16 \<Rightarrow> ARMul_State \<Rightarrow> ARMul_State option" where
  "WriteMemory16 D address data cpu =
     do { m \<leftarrow> Write16 D (memory cpu) address (in_order cpu data); Some (cpu\<lparr>memory := m\<rparr>) }"

definition WriteMemory32 :: "Devices \<Rightarrow> u32 \<Rightarrow> u32 \<Rightarrow> ARMul_State \<Rightarrow> ARMul_State option" where
  "WriteMemory32 D address data cpu =
     do { m \<leftarrow> Write32 D (memory cpu) address (in_order cpu data); Some (cpu\<lparr>memory := m\<rparr>) }"

definition WriteMemory64 :: "Devices \<Rightarrow> u32 \<Rightarrow> u64 \<Rightarrow> ARMul_State \<Rightarrow> ARMul_State option" where
  "WriteMemory64 D address data cpu =
     do { m \<leftarrow> Write64 D (memory cpu) address (in_order cpu data); Some (cpu\<lparr>memory := m\<rparr>) }"

section \<open>The exclusive monitor\<close>

definition RESERVATION_GRANULE_MASK :: u32 where "RESERVATION_GRANULE_MASK = 0xFFFFFFF8"

definition IsExclusiveMemoryAccess :: "ARMul_State \<Rightarrow> u32 \<Rightarrow> bool" where
  "IsExclusiveMemoryAccess cpu address \<longleftrightarrow>
     exclusive_state cpu \<and> exclusive_tag cpu = address AND RESERVATION_GRANULE_MASK"

definition SetExclusiveMemoryAddress :: "u32 \<Rightarrow> ARMul_State \<Rightarrow> ARMul_State" where
  "SetExclusiveMemoryAddress address cpu =
     cpu\<lparr>exclusive_tag := address AND RESERVATION_GRANULE_MASK, exclusive_state := True\<rparr>"

definition UnsetExclusiveMemoryAddress :: "ARMul_State \<Rightarrow> ARMul_State" where
  "UnsetExclusiveMemoryAddress cpu = cpu\<lparr>exclusive_tag := 0xFFFFFFFF, exclusive_state := False\<rparr>"

section \<open>Access to the coprocessor\<close>

text \<open>
  The registers by the numbers of the instruction: a chain of tests that ends with the first
  register that fits; no register gives \<open>None\<close>, where the source logs an error.
\<close>

definition unprivileged_register :: "u32 \<Rightarrow> u32 \<Rightarrow> u32 \<Rightarrow> u32 \<Rightarrow> nat option" where
  "unprivileged_register crn opcode_1 crm opcode_2 =
     (if crn = 13 \<and> opcode_1 = 0 \<and> crm = 0
      then if opcode_2 = 2 then Some CP15_THREAD_UPRW
           else if opcode_2 = 3 then Some CP15_THREAD_URO else None
      else None)"

definition id_register :: "u32 \<Rightarrow> u32 \<Rightarrow> nat option" where
  "id_register crm opcode_2 =
     (if crm = 0 then map_of [(0, CP15_MAIN_ID), (1, CP15_CACHE_TYPE), (3, CP15_TLB_TYPE),
        (5, CP15_CPU_ID)] opcode_2
      else if crm = 1 then map_of [(0, CP15_PROCESSOR_FEATURE_0), (1, CP15_PROCESSOR_FEATURE_1),
        (2, CP15_DEBUG_FEATURE_0), (4, CP15_MEMORY_MODEL_FEATURE_0),
        (5, CP15_MEMORY_MODEL_FEATURE_1), (6, CP15_MEMORY_MODEL_FEATURE_2),
        (7, CP15_MEMORY_MODEL_FEATURE_3)] opcode_2
      else if crm = 2 then map_of [(0, CP15_ISA_FEATURE_0), (1, CP15_ISA_FEATURE_1),
        (2, CP15_ISA_FEATURE_2), (3, CP15_ISA_FEATURE_3), (4, CP15_ISA_FEATURE_4)] opcode_2
      else None)"

definition privileged_register :: "u32 \<Rightarrow> u32 \<Rightarrow> u32 \<Rightarrow> u32 \<Rightarrow> nat option" where
  "privileged_register crn opcode_1 crm opcode_2 =
     (if crn = 0 \<and> opcode_1 = 0 then id_register crm opcode_2
      else if crn = 1 \<and> opcode_1 = 0 \<and> crm = 0
      then map_of [(0, CP15_CONTROL), (1, CP15_AUXILIARY_CONTROL),
        (2, CP15_COPROCESSOR_ACCESS_CONTROL)] opcode_2
      else if crn = 2 \<and> opcode_1 = 0 \<and> crm = 0
      then map_of [(0, CP15_TRANSLATION_BASE_TABLE_0), (1, CP15_TRANSLATION_BASE_TABLE_1),
        (2, CP15_TRANSLATION_BASE_CONTROL)] opcode_2
      else if crn = 3 \<and> opcode_1 = 0 \<and> crm = 0 \<and> opcode_2 = 0
      then Some CP15_DOMAIN_ACCESS_CONTROL
      else if crn = 5 \<and> opcode_1 = 0 \<and> crm = 0
      then map_of [(0, CP15_FAULT_STATUS), (1, CP15_INSTR_FAULT_STATUS)] opcode_2
      else if crn = 6 \<and> opcode_1 = 0 \<and> crm = 0
      then map_of [(0, CP15_FAULT_ADDRESS), (1, CP15_WFAR)] opcode_2
      else if crn = 7 \<and> opcode_1 = 0 \<and> crm = 4 \<and> opcode_2 = 0 then Some CP15_PHYS_ADDRESS
      else if crn = 9 \<and> opcode_1 = 0 \<and> crm = 0 \<and> opcode_2 = 0 then Some CP15_DATA_CACHE_LOCKDOWN
      else if crn = 10 \<and> opcode_1 = 0
      then if crm = 0 \<and> opcode_2 = 0 then Some CP15_TLB_LOCKDOWN
        else if crm = 2
        then map_of [(0, CP15_PRIMARY_REGION_REMAP), (1, CP15_NORMAL_REGION_REMAP)] opcode_2
        else None
      else if crn = 13 \<and> crm = 0
      then map_of [(0, CP15_PID), (1, CP15_CONTEXT_ID), (4, CP15_THREAD_PRW)] opcode_2
      else if crn = 15
      then if opcode_1 = 0 \<and> crm = 12
        then map_of [(0, CP15_PERFORMANCE_MONITOR_CONTROL), (1, CP15_CYCLE_COUNTER),
          (2, CP15_COUNT_0), (3, CP15_COUNT_1)] opcode_2
        else if opcode_1 = 5 \<and> opcode_2 = 2
        then map_of [(5, CP15_MAIN_TLB_LOCKDOWN_VIRT_ADDRESS),
          (6, CP15_MAIN_TLB_LOCKDOWN_PHYS_ADDRESS), (7, CP15_MAIN_TLB_LOCKDOWN_ATTRIBUTE)] crm
        else if opcode_1 = 7 \<and> crm = 1 \<and> opcode_2 = 0 then Some CP15_TLB_DEBUG_CONTROL
        else None
      else None)"

definition ReadCP15Register :: "ARMul_State \<Rightarrow> u32 \<Rightarrow> u32 \<Rightarrow> u32 \<Rightarrow> u32 \<Rightarrow> u32" where
  "ReadCP15Register cpu crn opcode_1 crm opcode_2 =
     (case unprivileged_register crn opcode_1 crm opcode_2 of
        Some r \<Rightarrow> CP15 cpu r
      | None \<Rightarrow>
          if InAPrivilegedMode cpu
          then (case privileged_register crn opcode_1 crm opcode_2 of
            Some r \<Rightarrow> CP15 cpu r | None \<Rightarrow> 0)
          else 0)"

definition cache_operation :: "u32 \<Rightarrow> u32 \<Rightarrow> nat option" where
  "cache_operation crm opcode_2 =
     (if crm = 0 \<and> opcode_2 = 4 then Some CP15_WAIT_FOR_INTERRUPT
      else if crm = 4 \<and> opcode_2 = 0 then None
      else if crm = 5
      then map_of [(0, CP15_INVALIDATE_INSTR_CACHE), (1, CP15_INVALIDATE_INSTR_CACHE_USING_MVA),
        (2, CP15_INVALIDATE_INSTR_CACHE_USING_INDEX), (6, CP15_FLUSH_BRANCH_TARGET_CACHE),
        (7, CP15_FLUSH_BRANCH_TARGET_CACHE_ENTRY)] opcode_2
      else if crm = 6
      then map_of [(0, CP15_INVALIDATE_DATA_CACHE), (1, CP15_INVALIDATE_DATA_CACHE_LINE_USING_MVA),
        (2, CP15_INVALIDATE_DATA_CACHE_LINE_USING_INDEX)] opcode_2
      else if crm = 7 \<and> opcode_2 = 0 then Some CP15_INVALIDATE_DATA_AND_INSTR_CACHE
      else if crm = 10
      then map_of [(0, CP15_CLEAN_DATA_CACHE), (1, CP15_CLEAN_DATA_CACHE_LINE_USING_MVA),
        (2, CP15_CLEAN_DATA_CACHE_LINE_USING_INDEX)] opcode_2
      else if crm = 14
      then map_of [(0, CP15_CLEAN_AND_INVALIDATE_DATA_CACHE),
        (1, CP15_CLEAN_AND_INVALIDATE_DATA_CACHE_LINE_USING_MVA),
        (2, CP15_CLEAN_AND_INVALIDATE_DATA_CACHE_LINE_USING_INDEX)] opcode_2
      else None)"

definition tlb_operation :: "u32 \<Rightarrow> u32 \<Rightarrow> nat option" where
  "tlb_operation crm opcode_2 =
     (if crm = 5
      then map_of [(0, CP15_INVALIDATE_ITLB), (1, CP15_INVALIDATE_ITLB_SINGLE_ENTRY),
        (2, CP15_INVALIDATE_ITLB_ENTRY_ON_ASID_MATCH), (3, CP15_INVALIDATE_ITLB_ENTRY_ON_MVA)] opcode_2
      else if crm = 6
      then map_of [(0, CP15_INVALIDATE_DTLB), (1, CP15_INVALIDATE_DTLB_SINGLE_ENTRY),
        (2, CP15_INVALIDATE_DTLB_ENTRY_ON_ASID_MATCH), (3, CP15_INVALIDATE_DTLB_ENTRY_ON_MVA)] opcode_2
      else if crm = 7
      then map_of [(0, CP15_INVALIDATE_UTLB), (1, CP15_INVALIDATE_UTLB_SINGLE_ENTRY),
        (2, CP15_INVALIDATE_UTLB_ENTRY_ON_ASID_MATCH), (3, CP15_INVALIDATE_UTLB_ENTRY_ON_MVA)] opcode_2
      else None)"

text \<open>The register a privileged write reaches, and the one any write reaches.\<close>

definition privileged_write :: "u32 \<Rightarrow> u32 \<Rightarrow> u32 \<Rightarrow> u32 \<Rightarrow> nat option" where
  "privileged_write crn opcode_1 crm opcode_2 =
     (if crn = 1 \<and> opcode_1 = 0 \<and> crm = 0
      then map_of [(0, CP15_CONTROL), (1, CP15_AUXILIARY_CONTROL),
        (2, CP15_COPROCESSOR_ACCESS_CONTROL)] opcode_2
      else if crn = 2 \<and> opcode_1 = 0 \<and> crm = 0
      then map_of [(0, CP15_TRANSLATION_BASE_TABLE_0), (1, CP15_TRANSLATION_BASE_TABLE_1),
        (2, CP15_TRANSLATION_BASE_CONTROL)] opcode_2
      else if crn = 3 \<and> opcode_1 = 0 \<and> crm = 0 \<and> opcode_2 = 0
      then Some CP15_DOMAIN_ACCESS_CONTROL
      else if crn = 5 \<and> opcode_1 = 0 \<and> crm = 0
      then map_of [(0, CP15_FAULT_STATUS), (1, CP15_INSTR_FAULT_STATUS)] opcode_2
      else if crn = 6 \<and> opcode_1 = 0 \<and> crm = 0
      then map_of [(0, CP15_FAULT_ADDRESS), (1, CP15_WFAR)] opcode_2
      else if crn = 7 \<and> opcode_1 = 0 then cache_operation crm opcode_2
      else if crn = 8 \<and> opcode_1 = 0 then tlb_operation crm opcode_2
      else if crn = 9 \<and> opcode_1 = 0 \<and> crm = 0 \<and> opcode_2 = 0 then Some CP15_DATA_CACHE_LOCKDOWN
      else if crn = 10 \<and> opcode_1 = 0
      then if crm = 0 \<and> opcode_2 = 0 then Some CP15_TLB_LOCKDOWN
        else if crm = 2
        then map_of [(0, CP15_PRIMARY_REGION_REMAP), (1, CP15_NORMAL_REGION_REMAP)] opcode_2
        else None
      else if crn = 13 \<and> opcode_1 = 0 \<and> crm = 0
      then map_of [(0, CP15_PID), (1, CP15_CONTEXT_ID), (3, CP15_THREAD_URO),
        (4, CP15_THREAD_PRW)] opcode_2
      else if crn = 15
      then if opcode_1 = 0 \<and> crm = 12
        then map_of [(0, CP15_PERFORMANCE_MONITOR_CONTROL), (1, CP15_CYCLE_COUNTER),
          (2, CP15_COUNT_0), (3, CP15_COUNT_1)] opcode_2
        else if opcode_1 = 5
        then if crm = 4
          then map_of [(2, CP15_READ_MAIN_TLB_LOCKDOWN_ENTRY),
            (4, CP15_WRITE_MAIN_TLB_LOCKDOWN_ENTRY)] opcode_2
          else if opcode_2 = 2
          then map_of [(5, CP15_MAIN_TLB_LOCKDOWN_VIRT_ADDRESS),
            (6, CP15_MAIN_TLB_LOCKDOWN_PHYS_ADDRESS), (7, CP15_MAIN_TLB_LOCKDOWN_ATTRIBUTE)] crm
          else None
        else if opcode_1 = 7 \<and> crm = 1 \<and> opcode_2 = 0 then Some CP15_TLB_DEBUG_CONTROL
        else None
      else None)"

definition unprivileged_write :: "u32 \<Rightarrow> u32 \<Rightarrow> u32 \<Rightarrow> u32 \<Rightarrow> nat option" where
  "unprivileged_write crn opcode_1 crm opcode_2 =
     (if crn = 7 \<and> opcode_1 = 0 \<and> crm = 5 \<and> opcode_2 = 4 then Some CP15_FLUSH_PREFETCH_BUFFER
      else if crn = 7 \<and> opcode_1 = 0 \<and> crm = 10
      then map_of [(4, CP15_DATA_SYNC_BARRIER), (5, CP15_DATA_MEMORY_BARRIER)] opcode_2
      else if crn = 13 \<and> opcode_1 = 0 \<and> crm = 0 \<and> opcode_2 = 2 then Some CP15_THREAD_UPRW
      else None)"

definition set_cp15 :: "nat option \<Rightarrow> u32 \<Rightarrow> ARMul_State \<Rightarrow> ARMul_State" where
  "set_cp15 r value cpu =
     (case r of Some n \<Rightarrow> cpu\<lparr>CP15 := (CP15 cpu)(n := value)\<rparr> | None \<Rightarrow> cpu)"

definition WriteCP15Register :: "u32 \<Rightarrow> u32 \<Rightarrow> u32 \<Rightarrow> u32 \<Rightarrow> u32 \<Rightarrow> ARMul_State \<Rightarrow> ARMul_State" where
  "WriteCP15Register value crn opcode_1 crm opcode_2 cpu =
     (let cpu1 = (if InAPrivilegedMode cpu
                  then set_cp15 (privileged_write crn opcode_1 crm opcode_2) value cpu else cpu)
      in set_cp15 (unprivileged_write crn opcode_1 crm opcode_2) value cpu1)"

end
