(* ===== verification/ArmOperands.thy ===== *)
theory ArmOperands imports ArmState begin

text \<open>
  Conditions, shifter operands and addressing modes, src/core/arm/dyncom/arm_dyncom_interpreter.cpp
  lines 36-640 and arm_dyncom_run.h. A shifter operand is computed from the low twelve bits of an
  instruction and leaves the shifter's carry in the state; an addressing mode yields an address and
  may write the base register back. Shift counts of the host stay below the width except in
  \<open>ROTATE_RIGHT_32 n 0\<close>, whose left shift by 32 contributes nothing or the word itself, according
  to the host: the disjunction with the word is the word either way.
\<close>

section \<open>Conditions\<close>

definition CondPassed :: "ARMul_State \<Rightarrow> u32 \<Rightarrow> bool" where
  "CondPassed cpu c =
     (let n_flag = NFlag cpu \<noteq> 0; z_flag = ZFlag cpu \<noteq> 0; c_flag = CFlag cpu \<noteq> 0;
          v_flag = VFlag cpu \<noteq> 0
      in if c = 0 then z_flag
         else if c = 1 then \<not> z_flag
         else if c = 2 then c_flag
         else if c = 3 then \<not> c_flag
         else if c = 4 then n_flag
         else if c = 5 then \<not> n_flag
         else if c = 6 then v_flag
         else if c = 7 then \<not> v_flag
         else if c = 8 then c_flag \<and> \<not> z_flag
         else if c = 9 then \<not> c_flag \<or> z_flag
         else if c = 10 then n_flag = v_flag
         else if c = 11 then n_flag \<noteq> v_flag
         else if c = 12 then \<not> z_flag \<and> n_flag = v_flag
         else if c = 13 then z_flag \<or> n_flag \<noteq> v_flag
         else c = 14 \<or> c = 15)"

section \<open>Reading a register\<close>

definition CHECK_READ_REG15_WA :: "ARMul_State \<Rightarrow> nat \<Rightarrow> u32" where
  "CHECK_READ_REG15_WA cpu n =
     (if n = 15 then (Reg cpu 15 AND NOT 0x3) + GetInstructionSize cpu * 2 else Reg cpu n)"

definition CHECK_READ_REG15 :: "ARMul_State \<Rightarrow> nat \<Rightarrow> u32" where
  "CHECK_READ_REG15 cpu n =
     (if n = 15 then (Reg cpu 15 AND NOT 0x1) + GetInstructionSize cpu * 2 else Reg cpu n)"

definition ROTATE_RIGHT_32 :: "u32 \<Rightarrow> nat \<Rightarrow> u32" where
  "ROTATE_RIGHT_32 n i = push_bit (32 - i) n OR drop_bit i n"

section \<open>Shifter operands\<close>

text \<open>Each returns the operand and the carry out of the shifter.\<close>

definition shift_Immediate :: "ARMul_State \<Rightarrow> u32 \<Rightarrow> u32 \<times> u32" where
  "shift_Immediate cpu sht_oper =
     (let immed_8 = BITS sht_oper 0 7;
          rotate_imm = BITS sht_oper 8 11;
          shifter_operand = ROTATE_RIGHT_32 immed_8 (unat rotate_imm * 2)
      in (shifter_operand, if rotate_imm = 0 then CFlag cpu else BIT shifter_operand 31))"

definition shift_Register :: "ARMul_State \<Rightarrow> u32 \<Rightarrow> u32 \<times> u32" where
  "shift_Register cpu sht_oper = (CHECK_READ_REG15 cpu (reg_field sht_oper 0), CFlag cpu)"

definition shift_LogicalShiftLeftByImmediate :: "ARMul_State \<Rightarrow> u32 \<Rightarrow> u32 \<times> u32" where
  "shift_LogicalShiftLeftByImmediate cpu sht_oper =
     (let shift_imm = unat (BITS sht_oper 7 11);
          rm = CHECK_READ_REG15 cpu (reg_field sht_oper 0)
      in if shift_imm = 0 then (rm, CFlag cpu)
         else (push_bit shift_imm rm, BIT rm (32 - shift_imm)))"

definition shift_LogicalShiftLeftByRegister :: "ARMul_State \<Rightarrow> u32 \<Rightarrow> u32 \<times> u32" where
  "shift_LogicalShiftLeftByRegister cpu sht_oper =
     (let rm = CHECK_READ_REG15 cpu (reg_field sht_oper 0);
          rs = CHECK_READ_REG15 cpu (reg_field sht_oper 8);
          amount = unat (BITS rs 0 7)
      in if amount = 0 then (rm, CFlag cpu)
         else if amount < 32 then (push_bit amount rm, BIT rm (32 - amount))
         else if amount = 32 then (0, BIT rm 0)
         else (0, 0))"

definition shift_LogicalShiftRightByImmediate :: "ARMul_State \<Rightarrow> u32 \<Rightarrow> u32 \<times> u32" where
  "shift_LogicalShiftRightByImmediate cpu sht_oper =
     (let rm = CHECK_READ_REG15 cpu (reg_field sht_oper 0);
          shift_imm = unat (BITS sht_oper 7 11)
      in if shift_imm = 0 then (0, BIT rm 31)
         else (drop_bit shift_imm rm, BIT rm (shift_imm - 1)))"

definition shift_LogicalShiftRightByRegister :: "ARMul_State \<Rightarrow> u32 \<Rightarrow> u32 \<times> u32" where
  "shift_LogicalShiftRightByRegister cpu sht_oper =
     (let rs = CHECK_READ_REG15 cpu (reg_field sht_oper 8);
          rm = CHECK_READ_REG15 cpu (reg_field sht_oper 0);
          amount = unat (BITS rs 0 7)
      in if amount = 0 then (rm, CFlag cpu)
         else if amount < 32 then (drop_bit amount rm, BIT rm (amount - 1))
         else if amount = 32 then (0, BIT rm 31)
         else (0, 0))"

definition shift_ArithmeticShiftRightByImmediate :: "ARMul_State \<Rightarrow> u32 \<Rightarrow> u32 \<times> u32" where
  "shift_ArithmeticShiftRightByImmediate cpu sht_oper =
     (let rm = CHECK_READ_REG15 cpu (reg_field sht_oper 0);
          shift_imm = unat (BITS sht_oper 7 11)
      in if shift_imm = 0 then (if BIT rm 31 = 0 then 0 else 0xFFFFFFFF, BIT rm 31)
         else (signed_drop_bit shift_imm rm, BIT rm (shift_imm - 1)))"

definition shift_ArithmeticShiftRightByRegister :: "ARMul_State \<Rightarrow> u32 \<Rightarrow> u32 \<times> u32" where
  "shift_ArithmeticShiftRightByRegister cpu sht_oper =
     (let rs = CHECK_READ_REG15 cpu (reg_field sht_oper 8);
          rm = CHECK_READ_REG15 cpu (reg_field sht_oper 0);
          amount = unat (BITS rs 0 7)
      in if amount = 0 then (rm, CFlag cpu)
         else if amount < 32 then (signed_drop_bit amount rm, BIT rm (amount - 1))
         else (if BIT rm 31 = 0 then 0 else 0xffffffff, BIT rm 31))"

definition shift_RotateRightByImmediate :: "ARMul_State \<Rightarrow> u32 \<Rightarrow> u32 \<times> u32" where
  "shift_RotateRightByImmediate cpu sht_oper =
     (let rm = CHECK_READ_REG15 cpu (reg_field sht_oper 0);
          shift_imm = unat (BITS sht_oper 7 11)
      in if shift_imm = 0 then (push_bit 31 (CFlag cpu) OR drop_bit 1 rm, BIT rm 0)
         else (ROTATE_RIGHT_32 rm shift_imm, BIT rm (shift_imm - 1)))"

definition shift_RotateRightByRegister :: "ARMul_State \<Rightarrow> u32 \<Rightarrow> u32 \<times> u32" where
  "shift_RotateRightByRegister cpu sht_oper =
     (let rm = CHECK_READ_REG15 cpu (reg_field sht_oper 0);
          rs = CHECK_READ_REG15 cpu (reg_field sht_oper 8)
      in if BITS rs 0 7 = 0 then (rm, CFlag cpu)
         else if BITS rs 0 4 = 0 then (rm, BIT rm 31)
         else (ROTATE_RIGHT_32 rm (unat (BITS rs 0 4)), BIT rm (unat (BITS rs 0 4) - 1)))"

fun shifter :: "shtop_fp_t \<Rightarrow> ARMul_State \<Rightarrow> u32 \<Rightarrow> u32 \<times> u32" where
  "shifter DPO_Immediate = shift_Immediate"
| "shifter DPO_Register = shift_Register"
| "shifter DPO_LogicalShiftLeftByImmediate = shift_LogicalShiftLeftByImmediate"
| "shifter DPO_LogicalShiftLeftByRegister = shift_LogicalShiftLeftByRegister"
| "shifter DPO_LogicalShiftRightByImmediate = shift_LogicalShiftRightByImmediate"
| "shifter DPO_LogicalShiftRightByRegister = shift_LogicalShiftRightByRegister"
| "shifter DPO_ArithmeticShiftRightByImmediate = shift_ArithmeticShiftRightByImmediate"
| "shifter DPO_ArithmeticShiftRightByRegister = shift_ArithmeticShiftRightByRegister"
| "shifter DPO_RotateRightByImmediate = shift_RotateRightByImmediate"
| "shifter DPO_RotateRightByRegister = shift_RotateRightByRegister"

text \<open>\<open>SHIFTER_OPERAND\<close>: the call through the pointer; a call through a null pointer is \<open>None\<close>.\<close>

definition SHIFTER_OPERAND :: "shtop_fp_t option \<Rightarrow> u32 \<Rightarrow> ARMul_State \<Rightarrow> (u32 \<times> ARMul_State) option" where
  "SHIFTER_OPERAND shtop_func shifter_operand cpu =
     do { f \<leftarrow> shtop_func;
          let (operand, carry) = shifter f cpu shifter_operand;
          Some (operand, cpu\<lparr>shifter_carry_out := carry\<rparr>) }"

section \<open>Addressing modes\<close>

text \<open>\<open>up_down\<close> is the U bit: the offset is added when it is set and subtracted otherwise.\<close>

definition up_down :: "u32 \<Rightarrow> u32 \<Rightarrow> u32 \<Rightarrow> u32" where
  "up_down inst a off = (if BIT inst 23 \<noteq> 0 then a + off else a - off)"

definition write_base :: "u32 \<Rightarrow> u32 \<Rightarrow> ARMul_State \<Rightarrow> ARMul_State" where
  "write_base inst v cpu = set_reg (reg_field inst 16) v cpu"

definition write_base_if_passed :: "u32 \<Rightarrow> u32 \<Rightarrow> ARMul_State \<Rightarrow> ARMul_State" where
  "write_base_if_passed inst v cpu =
     (if CondPassed cpu (BITS inst 28 31) then write_base inst v cpu else cpu)"

definition rn_wa :: "u32 \<Rightarrow> ARMul_State \<Rightarrow> u32" where
  "rn_wa inst cpu = CHECK_READ_REG15_WA cpu (reg_field inst 16)"

definition rm_wa :: "u32 \<Rightarrow> ARMul_State \<Rightarrow> u32" where
  "rm_wa inst cpu = CHECK_READ_REG15_WA cpu (reg_field inst 0)"

definition rn_reg :: "u32 \<Rightarrow> ARMul_State \<Rightarrow> u32" where
  "rn_reg inst cpu = Reg cpu (reg_field inst 16)"

definition offset_8 :: "u32 \<Rightarrow> u32" where
  "offset_8 inst = push_bit 4 (BITS inst 8 11) OR BITS inst 0 3"

definition scaled_index :: "u32 \<Rightarrow> ARMul_State \<Rightarrow> u32" where
  "scaled_index inst cpu =
     (let shift = BITS inst 5 6;
          shift_imm = unat (BITS inst 7 11);
          rm = rm_wa inst cpu
      in if shift = 0 then push_bit shift_imm rm
         else if shift = 1 then (if shift_imm = 0 then 0 else drop_bit shift_imm rm)
         else if shift = 2
         then (if shift_imm = 0 then (if BIT rm 31 = 1 then 0xFFFFFFFF else 0)
               else signed_drop_bit shift_imm rm)
         else (if shift_imm = 0 then push_bit 31 (CFlag cpu) OR drop_bit 1 rm
               else ROTATE_RIGHT_32 rm shift_imm))"

text \<open>Words: an offset, an indexed address written back, an address taken before the write-back.\<close>

definition addr_ImmediateOffset :: "u32 \<Rightarrow> ARMul_State \<Rightarrow> u32 \<times> ARMul_State" where
  "addr_ImmediateOffset inst cpu = (up_down inst (rn_wa inst cpu) (BITS inst 0 11), cpu)"

definition addr_RegisterOffset :: "u32 \<Rightarrow> ARMul_State \<Rightarrow> u32 \<times> ARMul_State" where
  "addr_RegisterOffset inst cpu = (up_down inst (rn_wa inst cpu) (rm_wa inst cpu), cpu)"

definition addr_ScaledRegisterOffset :: "u32 \<Rightarrow> ARMul_State \<Rightarrow> u32 \<times> ARMul_State" where
  "addr_ScaledRegisterOffset inst cpu =
     (up_down inst (rn_wa inst cpu) (scaled_index inst cpu), cpu)"

definition addr_ImmediatePreIndexed :: "u32 \<Rightarrow> ARMul_State \<Rightarrow> u32 \<times> ARMul_State" where
  "addr_ImmediatePreIndexed inst cpu =
     (let addr = up_down inst (rn_wa inst cpu) (BITS inst 0 11)
      in (addr, write_base_if_passed inst addr cpu))"

definition addr_RegisterPreIndexed :: "u32 \<Rightarrow> ARMul_State \<Rightarrow> u32 \<times> ARMul_State" where
  "addr_RegisterPreIndexed inst cpu =
     (let addr = up_down inst (rn_wa inst cpu) (rm_wa inst cpu)
      in (addr, write_base_if_passed inst addr cpu))"

definition addr_ScaledRegisterPreIndexed :: "u32 \<Rightarrow> ARMul_State \<Rightarrow> u32 \<times> ARMul_State" where
  "addr_ScaledRegisterPreIndexed inst cpu =
     (let addr = up_down inst (rn_wa inst cpu) (scaled_index inst cpu)
      in (addr, write_base_if_passed inst addr cpu))"

text \<open>Unlike the others, this mode writes the base back whether the condition holds or not.\<close>

definition addr_ImmediatePostIndexed :: "u32 \<Rightarrow> ARMul_State \<Rightarrow> u32 \<times> ARMul_State" where
  "addr_ImmediatePostIndexed inst cpu =
     (rn_wa inst cpu, write_base inst (up_down inst (rn_reg inst cpu) (BITS inst 0 11)) cpu)"

definition addr_RegisterPostIndexed :: "u32 \<Rightarrow> ARMul_State \<Rightarrow> u32 \<times> ARMul_State" where
  "addr_RegisterPostIndexed inst cpu =
     (rn_wa inst cpu,
      write_base_if_passed inst (up_down inst (rn_reg inst cpu) (rm_wa inst cpu)) cpu)"

definition addr_ScaledRegisterPostIndexed :: "u32 \<Rightarrow> ARMul_State \<Rightarrow> u32 \<times> ARMul_State" where
  "addr_ScaledRegisterPostIndexed inst cpu =
     (rn_wa inst cpu,
      write_base_if_passed inst (up_down inst (rn_reg inst cpu) (scaled_index inst cpu)) cpu)"

text \<open>Halfwords, signed bytes and doublewords.\<close>

definition addr_MLnS_ImmediateOffset :: "u32 \<Rightarrow> ARMul_State \<Rightarrow> u32 \<times> ARMul_State" where
  "addr_MLnS_ImmediateOffset inst cpu = (up_down inst (rn_wa inst cpu) (offset_8 inst), cpu)"

definition addr_MLnS_RegisterOffset :: "u32 \<Rightarrow> ARMul_State \<Rightarrow> u32 \<times> ARMul_State" where
  "addr_MLnS_RegisterOffset inst cpu = (up_down inst (rn_wa inst cpu) (rm_wa inst cpu), cpu)"

definition addr_MLnS_ImmediatePreIndexed :: "u32 \<Rightarrow> ARMul_State \<Rightarrow> u32 \<times> ARMul_State" where
  "addr_MLnS_ImmediatePreIndexed inst cpu =
     (let addr = up_down inst (rn_wa inst cpu) (offset_8 inst)
      in (addr, write_base_if_passed inst addr cpu))"

definition addr_MLnS_RegisterPreIndexed :: "u32 \<Rightarrow> ARMul_State \<Rightarrow> u32 \<times> ARMul_State" where
  "addr_MLnS_RegisterPreIndexed inst cpu =
     (let addr = up_down inst (rn_wa inst cpu) (rm_wa inst cpu)
      in (addr, write_base_if_passed inst addr cpu))"

definition addr_MLnS_ImmediatePostIndexed :: "u32 \<Rightarrow> ARMul_State \<Rightarrow> u32 \<times> ARMul_State" where
  "addr_MLnS_ImmediatePostIndexed inst cpu =
     (let rn = rn_wa inst cpu
      in (rn, write_base_if_passed inst (up_down inst rn (offset_8 inst)) cpu))"

definition addr_MLnS_RegisterPostIndexed :: "u32 \<Rightarrow> ARMul_State \<Rightarrow> u32 \<times> ARMul_State" where
  "addr_MLnS_RegisterPostIndexed inst cpu =
     (rn_wa inst cpu,
      write_base_if_passed inst (up_down inst (rn_reg inst cpu) (rm_wa inst cpu)) cpu)"

text \<open>Blocks of registers. The loop counts the set bits of the register list.\<close>

function count_ones :: "u32 \<Rightarrow> nat" where
  "count_ones i = (if i = 0 then 0 else (if i AND 1 \<noteq> 0 then 1 else 0) + count_ones (drop_bit 1 i))"
  by pat_completeness auto
termination
proof (relation "measure unat")
  fix i :: u32 assume "i \<noteq> 0"
  then have "0 < unat i" by (simp add: unat_gt_0)
  then show "(drop_bit 1 i, i) \<in> measure unat"
    by (simp add: drop_bit_eq_div unat_div)
qed simp

declare count_ones.simps [simp del]

definition list_bytes :: "u32 \<Rightarrow> u32" where
  "list_bytes inst = of_nat (count_ones (BITS inst 0 15)) * 4"

definition write_back :: "u32 \<Rightarrow> u32 \<Rightarrow> ARMul_State \<Rightarrow> ARMul_State" where
  "write_back inst v cpu =
     (if CondPassed cpu (BITS inst 28 31) \<and> BIT inst 21 \<noteq> 0 then write_base inst v cpu else cpu)"

definition addr_DecrementBefore :: "u32 \<Rightarrow> ARMul_State \<Rightarrow> u32 \<times> ARMul_State" where
  "addr_DecrementBefore inst cpu =
     (rn_wa inst cpu - list_bytes inst, write_back inst (rn_reg inst cpu - list_bytes inst) cpu)"

definition addr_IncrementBefore :: "u32 \<Rightarrow> ARMul_State \<Rightarrow> u32 \<times> ARMul_State" where
  "addr_IncrementBefore inst cpu =
     (rn_wa inst cpu + 4, write_back inst (rn_reg inst cpu + list_bytes inst) cpu)"

definition addr_IncrementAfter :: "u32 \<Rightarrow> ARMul_State \<Rightarrow> u32 \<times> ARMul_State" where
  "addr_IncrementAfter inst cpu =
     (rn_wa inst cpu, write_back inst (rn_reg inst cpu + list_bytes inst) cpu)"

definition addr_DecrementAfter :: "u32 \<Rightarrow> ARMul_State \<Rightarrow> u32 \<times> ARMul_State" where
  "addr_DecrementAfter inst cpu =
     (rn_wa inst cpu - list_bytes inst + 4, write_back inst (rn_reg inst cpu - list_bytes inst) cpu)"

fun addressing :: "get_addr_fp_t \<Rightarrow> u32 \<Rightarrow> ARMul_State \<Rightarrow> u32 \<times> ARMul_State" where
  "addressing LnSWoUB_ImmediateOffset = addr_ImmediateOffset"
| "addressing LnSWoUB_RegisterOffset = addr_RegisterOffset"
| "addressing LnSWoUB_ScaledRegisterOffset = addr_ScaledRegisterOffset"
| "addressing LnSWoUB_ImmediatePreIndexed = addr_ImmediatePreIndexed"
| "addressing LnSWoUB_RegisterPreIndexed = addr_RegisterPreIndexed"
| "addressing LnSWoUB_ScaledRegisterPreIndexed = addr_ScaledRegisterPreIndexed"
| "addressing LnSWoUB_ImmediatePostIndexed = addr_ImmediatePostIndexed"
| "addressing LnSWoUB_RegisterPostIndexed = addr_RegisterPostIndexed"
| "addressing LnSWoUB_ScaledRegisterPostIndexed = addr_ScaledRegisterPostIndexed"
| "addressing MLnS_ImmediateOffset = addr_MLnS_ImmediateOffset"
| "addressing MLnS_RegisterOffset = addr_MLnS_RegisterOffset"
| "addressing MLnS_ImmediatePreIndexed = addr_MLnS_ImmediatePreIndexed"
| "addressing MLnS_RegisterPreIndexed = addr_MLnS_RegisterPreIndexed"
| "addressing MLnS_ImmediatePostIndexed = addr_MLnS_ImmediatePostIndexed"
| "addressing MLnS_RegisterPostIndexed = addr_MLnS_RegisterPostIndexed"
| "addressing LdnStM_IncrementAfter = addr_IncrementAfter"
| "addressing LdnStM_IncrementBefore = addr_IncrementBefore"
| "addressing LdnStM_DecrementAfter = addr_DecrementAfter"
| "addressing LdnStM_DecrementBefore = addr_DecrementBefore"

definition get_addr :: "get_addr_fp_t option \<Rightarrow> u32 \<Rightarrow> ARMul_State \<Rightarrow> (u32 \<times> ARMul_State) option" where
  "get_addr f inst cpu = map_option (\<lambda>g. addressing g inst cpu) f"

end
