(* ===== verification/ArmData.thy ===== *)
theory ArmData imports ArmOperands begin

text \<open>
  The labels of the interpreter's main loop, src/core/arm/dyncom/arm_dyncom_interpreter.cpp:
  data processing, branches and the status registers. Each definition is one label: its condition,
  then the fields of the structure it reads, then the state. Its result is where the loop goes on
  (\<open>outcome\<close>), and \<open>None\<close> when the host fails: a call through a null pointer, an index behind
  the registers, or a memory access the memory system asserts against.
\<close>

section \<open>How a label ends\<close>

text \<open>
  \<open>Next\<close> falls through to the next instruction of the block, \<open>Dispatch\<close> looks up the block
  at the program counter, \<open>Supervisor\<close> calls the kernel, and \<open>Leave\<close> returns from the loop.
\<close>

datatype outcome =
    Next ARMul_State
  | Dispatch ARMul_State
  | Supervisor u32 ARMul_State
  | Leave ARMul_State

definition advance :: "ARMul_State \<Rightarrow> ARMul_State" where
  "advance cpu = set_reg 15 (Reg cpu 15 + GetInstructionSize cpu) cpu"

definition when_passed :: "u32 \<Rightarrow> ARMul_State \<Rightarrow> outcome option \<Rightarrow> outcome option" where
  "when_passed c cpu body =
     (if c = 14 \<or> CondPassed cpu c then body else Some (Next (advance cpu)))"

definition branch_when_passed :: "u32 \<Rightarrow> ARMul_State \<Rightarrow> outcome option \<Rightarrow> outcome option" where
  "branch_when_passed c cpu body =
     (if c = 14 \<or> CondPassed cpu c then body else Some (Dispatch (advance cpu)))"

text \<open>A label that writes one register and goes on.\<close>

definition write_next :: "nat \<Rightarrow> u32 \<Rightarrow> ARMul_State \<Rightarrow> outcome option" where
  "write_next n v cpu = Some (Next (advance (set_reg n v cpu)))"

section \<open>Flags\<close>

definition set_NZ :: "u32 \<Rightarrow> ARMul_State \<Rightarrow> ARMul_State" where
  "set_NZ dst cpu =
     cpu\<lparr>NFlag := (if BIT dst 31 \<noteq> 0 then 1 else 0), ZFlag := (if dst \<noteq> 0 then 0 else 1)\<rparr>"

definition UPDATE_CFLAG_WITH_SC :: "ARMul_State \<Rightarrow> ARMul_State" where
  "UPDATE_CFLAG_WITH_SC cpu = cpu\<lparr>CFlag := shifter_carry_out cpu\<rparr>"

definition set_CV :: "bool \<Rightarrow> bool \<Rightarrow> ARMul_State \<Rightarrow> ARMul_State" where
  "set_CV carry overflow cpu = cpu\<lparr>CFlag := of_bool carry, VFlag := of_bool overflow\<rparr>"

definition SAVE_NZCVT :: "ARMul_State \<Rightarrow> ARMul_State" where
  "SAVE_NZCVT cpu =
     cpu\<lparr>Cpsr := (Cpsr cpu AND 0x0fffffdf) OR push_bit 31 (NFlag cpu) OR push_bit 30 (ZFlag cpu)
       OR push_bit 29 (CFlag cpu) OR push_bit 28 (VFlag cpu) OR push_bit 5 (TFlag cpu)\<rparr>"

definition LOAD_NZCVT :: "ARMul_State \<Rightarrow> ARMul_State" where
  "LOAD_NZCVT cpu =
     cpu\<lparr>NFlag := drop_bit 31 (Cpsr cpu), ZFlag := drop_bit 30 (Cpsr cpu) AND 1,
       CFlag := drop_bit 29 (Cpsr cpu) AND 1, VFlag := drop_bit 28 (Cpsr cpu) AND 1,
       TFlag := drop_bit 5 (Cpsr cpu) AND 1\<rparr>"

section \<open>Data processing\<close>

text \<open>\<open>RN\<close>, with the program counter two instructions ahead.\<close>

definition operand_RN :: "ARMul_State \<Rightarrow> nat \<Rightarrow> u32" where
  "operand_RN cpu n = (if n = 15 then Reg cpu 15 + 2 * GetInstructionSize cpu else Reg cpu n)"

text \<open>A flag-setting write to the program counter returns from an exception.\<close>

definition restore_Spsr :: "ARMul_State \<Rightarrow> ARMul_State" where
  "restore_Spsr cpu =
     (if CurrentModeHasSPSR cpu
      then LOAD_NZCVT (ChangePrivilegeMode (Spsr_copy cpu AND 0x1F) (cpu\<lparr>Cpsr := Spsr_copy cpu\<rparr>))
      else cpu)"

definition finish_data :: "u32 \<Rightarrow> nat \<Rightarrow> (ARMul_State \<Rightarrow> ARMul_State) \<Rightarrow> ARMul_State \<Rightarrow> outcome" where
  "finish_data S Rd flags cpu =
     (let cpu1 = (if S \<noteq> 0 \<and> Rd = 15 then restore_Spsr cpu else if S \<noteq> 0 then flags cpu else cpu)
      in if Rd = 15 then Dispatch cpu1 else Next (advance cpu1))"

definition arith_flags :: "u32 \<Rightarrow> bool \<Rightarrow> bool \<Rightarrow> ARMul_State \<Rightarrow> ARMul_State" where
  "arith_flags result carry overflow cpu = set_CV carry overflow (set_NZ result cpu)"

definition logic_flags :: "u32 \<Rightarrow> ARMul_State \<Rightarrow> ARMul_State" where
  "logic_flags result cpu = UPDATE_CFLAG_WITH_SC (set_NZ result cpu)"

definition finish_arith :: "u32 \<Rightarrow> nat \<Rightarrow> u32 \<times> bool \<times> bool \<Rightarrow> ARMul_State \<Rightarrow> outcome" where
  "finish_arith S Rd added cpu =
     (case added of (result, carry, overflow) \<Rightarrow>
        finish_data S Rd (arith_flags result carry overflow) (set_reg Rd result cpu))"

definition finish_logic :: "u32 \<Rightarrow> nat \<Rightarrow> u32 \<Rightarrow> ARMul_State \<Rightarrow> outcome" where
  "finish_logic S Rd result cpu = finish_data S Rd (logic_flags result) (set_reg Rd result cpu)"

type_synonym data_label =
  "u32 \<Rightarrow> u32 \<Rightarrow> u32 \<Rightarrow> nat \<Rightarrow> nat \<Rightarrow> u32 \<Rightarrow> shtop_fp_t option \<Rightarrow> ARMul_State \<Rightarrow> outcome option"

definition ADC_INST :: data_label where
  "ADC_INST c I S Rn Rd so sf cpu = when_passed c cpu (do {
     let rn_val = operand_RN cpu Rn;
     (operand, cpu1) \<leftarrow> SHIFTER_OPERAND sf so cpu;
     Some (finish_arith S Rd (AddWithCarry rn_val operand (CFlag cpu)) cpu1) })"

definition ADD_INST :: data_label where
  "ADD_INST c I S Rn Rd so sf cpu = when_passed c cpu (do {
     let rn_val = CHECK_READ_REG15_WA cpu Rn;
     (operand, cpu1) \<leftarrow> SHIFTER_OPERAND sf so cpu;
     Some (finish_arith S Rd (AddWithCarry rn_val operand 0) cpu1) })"

definition AND_INST :: data_label where
  "AND_INST c I S Rn Rd so sf cpu = when_passed c cpu (do {
     (rop, cpu1) \<leftarrow> SHIFTER_OPERAND sf so cpu;
     Some (finish_logic S Rd (operand_RN cpu Rn AND rop) cpu1) })"

definition BIC_INST :: data_label where
  "BIC_INST c I S Rn Rd so sf cpu = when_passed c cpu (do {
     (rop, cpu1) \<leftarrow> SHIFTER_OPERAND sf so cpu;
     Some (finish_logic S Rd (operand_RN cpu Rn AND NOT rop) cpu1) })"

definition EOR_INST :: data_label where
  "EOR_INST c I S Rn Rd so sf cpu = when_passed c cpu (do {
     (rop, cpu1) \<leftarrow> SHIFTER_OPERAND sf so cpu;
     Some (finish_logic S Rd (operand_RN cpu Rn XOR rop) cpu1) })"

definition ORR_INST :: data_label where
  "ORR_INST c I S Rn Rd so sf cpu = when_passed c cpu (do {
     (rop, cpu1) \<leftarrow> SHIFTER_OPERAND sf so cpu;
     Some (finish_logic S Rd (operand_RN cpu Rn OR rop) cpu1) })"

definition RSB_INST :: data_label where
  "RSB_INST c I S Rn Rd so sf cpu = when_passed c cpu (do {
     let rn_val = operand_RN cpu Rn;
     (operand, cpu1) \<leftarrow> SHIFTER_OPERAND sf so cpu;
     Some (finish_arith S Rd (AddWithCarry (NOT rn_val) operand 1) cpu1) })"

definition RSC_INST :: data_label where
  "RSC_INST c I S Rn Rd so sf cpu = when_passed c cpu (do {
     let rn_val = operand_RN cpu Rn;
     (operand, cpu1) \<leftarrow> SHIFTER_OPERAND sf so cpu;
     Some (finish_arith S Rd (AddWithCarry (NOT rn_val) operand (CFlag cpu)) cpu1) })"

definition SBC_INST :: data_label where
  "SBC_INST c I S Rn Rd so sf cpu = when_passed c cpu (do {
     let rn_val = operand_RN cpu Rn;
     (operand, cpu1) \<leftarrow> SHIFTER_OPERAND sf so cpu;
     Some (finish_arith S Rd (AddWithCarry rn_val (NOT operand) (CFlag cpu)) cpu1) })"

definition SUB_INST :: data_label where
  "SUB_INST c I S Rn Rd so sf cpu = when_passed c cpu (do {
     let rn_val = CHECK_READ_REG15_WA cpu Rn;
     (operand, cpu1) \<leftarrow> SHIFTER_OPERAND sf so cpu;
     Some (finish_arith S Rd (AddWithCarry rn_val (NOT operand) 1) cpu1) })"

definition TST_INST :: data_label where
  "TST_INST c I S Rn Rd so sf cpu = when_passed c cpu (do {
     (rop, cpu1) \<leftarrow> SHIFTER_OPERAND sf so cpu;
     Some (Next (advance (logic_flags (operand_RN cpu Rn AND rop) cpu1))) })"

type_synonym cmp_label =
  "u32 \<Rightarrow> u32 \<Rightarrow> nat \<Rightarrow> u32 \<Rightarrow> shtop_fp_t option \<Rightarrow> ARMul_State \<Rightarrow> outcome option"

definition compare_with :: "u32 \<times> bool \<times> bool \<Rightarrow> ARMul_State \<Rightarrow> outcome" where
  "compare_with added cpu =
     (case added of (result, carry, overflow) \<Rightarrow> Next (advance (arith_flags result carry overflow cpu)))"

definition CMN_INST :: cmp_label where
  "CMN_INST c I Rn so sf cpu = when_passed c cpu (do {
     let rn_val = operand_RN cpu Rn;
     (operand, cpu1) \<leftarrow> SHIFTER_OPERAND sf so cpu;
     Some (compare_with (AddWithCarry rn_val operand 0) cpu1) })"

definition CMP_INST :: cmp_label where
  "CMP_INST c I Rn so sf cpu = when_passed c cpu (do {
     let rn_val = operand_RN cpu Rn;
     (operand, cpu1) \<leftarrow> SHIFTER_OPERAND sf so cpu;
     Some (compare_with (AddWithCarry rn_val (NOT operand) 1) cpu1) })"

definition TEQ_INST :: cmp_label where
  "TEQ_INST c I Rn so sf cpu = when_passed c cpu (do {
     (rop, cpu1) \<leftarrow> SHIFTER_OPERAND sf so cpu;
     Some (Next (advance (logic_flags (operand_RN cpu Rn XOR rop) cpu1))) })"

type_synonym mov_label =
  "u32 \<Rightarrow> u32 \<Rightarrow> u32 \<Rightarrow> nat \<Rightarrow> u32 \<Rightarrow> shtop_fp_t option \<Rightarrow> ARMul_State \<Rightarrow> outcome option"

definition CPY_INST :: mov_label where
  "CPY_INST c I S Rd so sf cpu = when_passed c cpu (do {
     (operand, cpu1) \<leftarrow> SHIFTER_OPERAND sf so cpu;
     let cpu2 = set_reg Rd operand cpu1;
     Some (if Rd = 15 then Dispatch cpu2 else Next (advance cpu2)) })"

definition MOV_INST :: mov_label where
  "MOV_INST c I S Rd so sf cpu = when_passed c cpu (do {
     (operand, cpu1) \<leftarrow> SHIFTER_OPERAND sf so cpu;
     Some (finish_logic S Rd operand cpu1) })"

definition MVN_INST :: mov_label where
  "MVN_INST c I S Rd so sf cpu = when_passed c cpu (do {
     (operand, cpu1) \<leftarrow> SHIFTER_OPERAND sf so cpu;
     Some (finish_logic S Rd (NOT operand) cpu1) })"

definition clz :: "u32 \<Rightarrow> nat" where
  "clz x =
     (if x = 0 then 32
      else let (n, x) = (1, x);
               (n, x) = (if drop_bit 16 x = 0 then (n + 16, push_bit 16 x) else (n, x));
               (n, x) = (if drop_bit 24 x = 0 then (n + 8, push_bit 8 x) else (n, x));
               (n, x) = (if drop_bit 28 x = 0 then (n + 4, push_bit 4 x) else (n, x));
               (n, x) = (if drop_bit 30 x = 0 then (n + 2, push_bit 2 x) else (n, x))
           in n - unat (drop_bit 31 x))"

definition CLZ_INST :: "u32 \<Rightarrow> nat \<Rightarrow> nat \<Rightarrow> ARMul_State \<Rightarrow> outcome option" where
  "CLZ_INST c Rm Rd cpu = when_passed c cpu (write_next Rd (of_nat (clz (Reg cpu Rm))) cpu)"

section \<open>Branches\<close>

definition BBL_INST :: "u32 \<Rightarrow> u32 \<Rightarrow> u32 \<Rightarrow> ARMul_State \<Rightarrow> outcome option" where
  "BBL_INST c L signed_immed_24 cpu = branch_when_passed c cpu
     (let cpu1 = (if L \<noteq> 0 then set_reg 14 (Reg cpu 15 + 4) cpu else cpu)
      in Some (Dispatch (set_reg 15 (Reg cpu1 15 + 8 + signed_immed_24) cpu1)))"

definition BLX_INST :: "u32 \<Rightarrow> u32 \<Rightarrow> u32 \<Rightarrow> ARMul_State \<Rightarrow> outcome option" where
  "BLX_INST c val inst cpu = branch_when_passed c cpu
     (if BITS inst 20 27 = 0x12 \<and> BITS inst 4 7 = 0x3
      then let jump_address = Reg cpu (unat val);
               link = Reg cpu 15 + GetInstructionSize cpu;
               link = (if TFlag cpu \<noteq> 0 then link OR 0x1 else link);
               cpu1 = set_reg 15 (jump_address AND 0xfffffffe) (set_reg 14 link cpu)
           in Some (Dispatch (cpu1\<lparr>TFlag := jump_address AND 0x1\<rparr>))
      else let cpu1 = (set_reg 14 (Reg cpu 15 + GetInstructionSize cpu) cpu)\<lparr>TFlag := 0x1\<rparr>;
               signed_int = (if val AND 0x800000 \<noteq> 0 then 0x3F000000 OR val else val);
               signed_int = push_bit 2 signed_int
           in Some (Dispatch (set_reg 15
                (Reg cpu1 15 + 8 + signed_int + push_bit 1 (BIT inst 24)) cpu1)))"

definition BX_INST :: "u32 \<Rightarrow> nat \<Rightarrow> ARMul_State \<Rightarrow> outcome option" where
  "BX_INST c Rm cpu = branch_when_passed c cpu
     (let address = operand_RN cpu Rm
      in Some (Dispatch (set_reg 15 (address AND 0xfffffffe) (cpu\<lparr>TFlag := address AND 1\<rparr>))))"

definition B_2_THUMB :: "u32 \<Rightarrow> ARMul_State \<Rightarrow> outcome option" where
  "B_2_THUMB imm cpu = Some (Dispatch (set_reg 15 (Reg cpu 15 + 4 + imm) cpu))"

definition B_COND_THUMB :: "u32 \<Rightarrow> u32 \<Rightarrow> ARMul_State \<Rightarrow> outcome option" where
  "B_COND_THUMB imm c cpu =
     Some (Dispatch (set_reg 15
       (if CondPassed cpu c then Reg cpu 15 + 4 + imm else Reg cpu 15 + 2) cpu))"

definition BL_1_THUMB :: "u32 \<Rightarrow> ARMul_State \<Rightarrow> outcome option" where
  "BL_1_THUMB imm cpu = Some (Next (advance (set_reg 14 (Reg cpu 15 + 4 + imm) cpu)))"

definition BL_2_THUMB :: "u32 \<Rightarrow> ARMul_State \<Rightarrow> outcome option" where
  "BL_2_THUMB imm cpu =
     (let tmp = (Reg cpu 15 + 2) OR 1
      in Some (Dispatch (set_reg 14 tmp (set_reg 15 (Reg cpu 14 + imm) cpu))))"

definition BLX_1_THUMB :: "u32 \<Rightarrow> ARMul_State \<Rightarrow> outcome option" where
  "BLX_1_THUMB imm cpu =
     (let tmp = Reg cpu 15;
          cpu1 = set_reg 15 ((Reg cpu 14 + imm) AND 0xFFFFFFFC) cpu
      in Some (Dispatch ((set_reg 14 ((tmp + 2) OR 1) cpu1)\<lparr>TFlag := 0\<rparr>)))"

section \<open>Status registers and the system\<close>

definition CPS_INST ::
  "u32 \<Rightarrow> u32 \<Rightarrow> u32 \<Rightarrow> u32 \<Rightarrow> u32 \<Rightarrow> u32 \<Rightarrow> u32 \<Rightarrow> ARMul_State \<Rightarrow> outcome option" where
  "CPS_INST imod0 imod1 mmod A I F mode cpu =
     (let aif_val = (if A \<noteq> 0 then push_bit 8 imod0 else 0) OR (if I \<noteq> 0 then push_bit 7 imod0 else 0)
            OR (if F \<noteq> 0 then push_bit 6 imod0 else 0);
          aif_mask = NOT ((if A \<noteq> 0 then push_bit 8 1 else 0) OR (if I \<noteq> 0 then push_bit 7 1 else 0)
            OR (if F \<noteq> 0 then push_bit 6 1 else 0));
          cpu1 = (if InAPrivilegedMode cpu \<and> imod1 \<noteq> 0
                  then cpu\<lparr>Cpsr := (Cpsr cpu AND aif_mask) OR aif_val\<rparr> else cpu);
          cpu2 = (if InAPrivilegedMode cpu \<and> mmod \<noteq> 0
                  then ChangePrivilegeMode mode (cpu1\<lparr>Cpsr := (Cpsr cpu1 AND 0xffffffe0) OR mode\<rparr>)
                  else cpu1)
      in Some (Next (advance cpu2)))"

definition MRS_INST :: "u32 \<Rightarrow> u32 \<Rightarrow> nat \<Rightarrow> ARMul_State \<Rightarrow> outcome option" where
  "MRS_INST c R Rd cpu = when_passed c cpu
     (if R \<noteq> 0 then write_next Rd (Spsr_copy cpu) cpu
      else let cpu1 = SAVE_NZCVT cpu in write_next Rd (Cpsr cpu1) cpu1)"

definition MSR_INST :: "u32 \<Rightarrow> u32 \<Rightarrow> u32 \<Rightarrow> u32 \<Rightarrow> ARMul_State \<Rightarrow> outcome option" where
  "MSR_INST c field_mask R inst cpu = when_passed c cpu
     (let UserMask = 0xf80f0200; PrivMask = 0x000001df; StateMask = 0x01000020;
          operand = (if BIT inst 25 \<noteq> 0
            then ROTATE_RIGHT_32 (BITS inst 0 7) (unat (BITS inst 8 11) * 2)
            else Reg cpu (reg_field inst 0));
          byte_mask = (if BIT inst 16 \<noteq> 0 then 0xff else 0) OR (if BIT inst 17 \<noteq> 0 then 0xff00 else 0)
            OR (if BIT inst 18 \<noteq> 0 then 0xff0000 else 0) OR (if BIT inst 19 \<noteq> 0 then 0xff000000 else 0)
      in if R = 0
         then let msk = (if InAPrivilegedMode cpu
                         then if operand AND StateMask \<noteq> 0 then 0 else byte_mask AND (UserMask OR PrivMask)
                         else byte_mask AND UserMask);
                  cpu1 = SAVE_NZCVT cpu;
                  cpu2 = cpu1\<lparr>Cpsr := (Cpsr cpu1 AND NOT msk) OR (operand AND msk)\<rparr>;
                  cpu3 = LOAD_NZCVT (ChangePrivilegeMode (Cpsr cpu2 AND 0x1F) cpu2)
              in Some (Next (advance cpu3))
         else let msk = byte_mask AND (UserMask OR PrivMask OR StateMask);
                  cpu1 = (if CurrentModeHasSPSR cpu
                    then cpu\<lparr>Spsr_copy := (Spsr_copy cpu AND NOT msk) OR (operand AND msk)\<rparr> else cpu)
              in Some (Next (advance cpu1)))"

definition MCR_INST :: "u32 \<Rightarrow> u32 \<Rightarrow> u32 \<Rightarrow> u32 \<Rightarrow> u32 \<Rightarrow> u32 \<Rightarrow> nat \<Rightarrow> u32 \<Rightarrow> ARMul_State \<Rightarrow> outcome option" where
  "MCR_INST c opcode_1 opcode_2 cp_num crn crm Rd inst cpu = when_passed c cpu
     (Some (Next (advance
       (if Rd \<noteq> 15 \<and> cp_num = 15
        then WriteCP15Register (Reg cpu Rd) crn opcode_1 crm opcode_2 cpu else cpu))))"

definition MRC_INST :: "u32 \<Rightarrow> u32 \<Rightarrow> u32 \<Rightarrow> u32 \<Rightarrow> u32 \<Rightarrow> u32 \<Rightarrow> nat \<Rightarrow> u32 \<Rightarrow> ARMul_State \<Rightarrow> outcome option" where
  "MRC_INST c opcode_1 opcode_2 cp_num crn crm Rd inst cpu = when_passed c cpu
     (let value = ReadCP15Register cpu crn opcode_1 crm opcode_2
      in Some (Next (advance
       (if cp_num = 15
        then if Rd = 15
          then LOAD_NZCVT (cpu\<lparr>Cpsr := (Cpsr cpu AND NOT 0xF0000000) OR (value AND 0xF0000000)\<rparr>)
          else set_reg Rd value cpu
        else cpu))))"

definition SETEND_INST :: "u32 \<Rightarrow> ARMul_State \<Rightarrow> outcome option" where
  "SETEND_INST set_bigend cpu =
     Some (Next (advance (cpu\<lparr>Cpsr := (if set_bigend = 1 then Cpsr cpu OR push_bit 9 1
                                       else Cpsr cpu AND NOT (push_bit 9 1))\<rparr>)))"

definition CLREX_INST :: "ARMul_State \<Rightarrow> outcome option" where
  "CLREX_INST cpu = Some (Next (advance (UnsetExclusiveMemoryAddress cpu)))"

definition SWI_INST :: "u32 \<Rightarrow> u32 \<Rightarrow> ARMul_State \<Rightarrow> outcome option" where
  "SWI_INST c num cpu = when_passed c cpu (Some (Supervisor (num AND 0xFFFF) cpu))"

definition CDP_INST :: "u32 \<Rightarrow> ARMul_State \<Rightarrow> outcome option" where
  "CDP_INST c cpu = when_passed c cpu (Some (Leave (cpu\<lparr>NumInstrsToExecute := 0\<rparr>)))"

text \<open>Hints, and instructions the interpreter only steps over or logs.\<close>

definition NOP_INST :: "ARMul_State \<Rightarrow> outcome option" where
  "NOP_INST cpu = Some (Next (advance cpu))"

end
