(* ===== verification/ArmMedia.thy ===== *)
theory ArmMedia imports ArmData begin

text \<open>
  The labels of src/core/arm/dyncom/arm_dyncom_interpreter.cpp that multiply, saturate, extend,
  and work on the bytes and halves of a register. A value the source holds in a signed variable
  that cannot overflow is an integer here; where the source computes in a width that wraps, it is a
  word of that width.
\<close>

section \<open>Bytes and halves\<close>

definition lo16 :: "u32 \<Rightarrow> u16" where "lo16 w = ucast (w AND 0xFFFF)"
definition hi16 :: "u32 \<Rightarrow> u16" where "hi16 w = ucast (drop_bit 16 w AND 0xFFFF)"
definition byte_of :: "u32 \<Rightarrow> nat \<Rightarrow> u8" where "byte_of w k = ucast (drop_bit (8 * k) w AND 0xFF)"

definition pack8 :: "u8 \<Rightarrow> u8 \<Rightarrow> u16" where "pack8 lo hi = ucast lo OR push_bit 8 (ucast hi)"

definition pack16 :: "u16 \<Rightarrow> u16 \<Rightarrow> u32" where
  "pack16 lo hi = (ucast lo AND 0xFFFF) OR push_bit 16 (ucast hi AND 0xFFFF)"

text \<open>The low halves and the low bytes of integers, put together.\<close>

definition halves :: "int \<Rightarrow> int \<Rightarrow> u32" where
  "halves lo hi = (word_of_int lo AND 0xFFFF) OR push_bit 16 (word_of_int hi AND 0xFFFF)"

definition quarters :: "int \<Rightarrow> int \<Rightarrow> int \<Rightarrow> int \<Rightarrow> u32" where
  "quarters a b c d = (word_of_int a AND 0xFF) OR push_bit 8 (word_of_int b AND 0xFF)
     OR push_bit 16 (word_of_int c AND 0xFF) OR push_bit 24 (word_of_int d AND 0xFF)"

definition set_Q :: "bool \<Rightarrow> ARMul_State \<Rightarrow> ARMul_State" where
  "set_Q q cpu = (if q then cpu\<lparr>Cpsr := Cpsr cpu OR push_bit 27 1\<rparr> else cpu)"

definition set_GE :: "nat \<Rightarrow> bool \<Rightarrow> ARMul_State \<Rightarrow> ARMul_State" where
  "set_GE n b cpu =
     cpu\<lparr>Cpsr := (if b then Cpsr cpu OR push_bit n 1 else Cpsr cpu AND NOT (push_bit n 1))\<rparr>"

definition set_GE_halves :: "bool \<Rightarrow> bool \<Rightarrow> ARMul_State \<Rightarrow> ARMul_State" where
  "set_GE_halves lo hi cpu = set_GE 19 hi (set_GE 18 hi (set_GE 17 lo (set_GE 16 lo cpu)))"

definition set_GE_bytes :: "bool \<Rightarrow> bool \<Rightarrow> bool \<Rightarrow> bool \<Rightarrow> ARMul_State \<Rightarrow> ARMul_State" where
  "set_GE_bytes a b c d cpu = set_GE 19 d (set_GE 18 c (set_GE 17 b (set_GE 16 a cpu)))"

type_synonym generic_label =
  "u32 \<Rightarrow> nat \<Rightarrow> nat \<Rightarrow> nat \<Rightarrow> nat \<Rightarrow> u32 \<Rightarrow> u32 \<Rightarrow> ARMul_State \<Rightarrow> outcome option"

section \<open>Saturating arithmetic\<close>

definition saturated :: "u32 \<Rightarrow> u32" where
  "saturated result = (if POS result \<noteq> 0 then 0x80000000 else 0x7FFFFFFF)"

definition q_add :: "u32 \<Rightarrow> u32 \<Rightarrow> u32 \<times> bool" where
  "q_add a b = (let result = a + b
                in if AddOverflow a b result then (saturated result, True) else (result, False))"

definition q_sub :: "u32 \<Rightarrow> u32 \<Rightarrow> u32 \<times> bool" where
  "q_sub a b = (let result = a - b
                in if SubOverflow a b result then (saturated result, True) else (result, False))"

definition q_double :: "u32 \<Rightarrow> u32 \<times> bool" where
  "q_double a = (let mul = a * 2
                 in if AddOverflow a a mul then (saturated mul, True) else (mul, False))"

definition QADD_INST :: generic_label where
  "QADD_INST c Ra Rm Rn Rd op1 op2 cpu = when_passed c cpu
     (let rm_val = Reg cpu Rm; rn_val = Reg cpu Rn;
          (result, q) =
            (if op1 = 0 then q_add rm_val rn_val
             else if op1 = 1 then q_sub rm_val rn_val
             else if op1 = 2
             then let (mul, q1) = q_double rn_val; (r, q2) = q_add rm_val mul in (r, q1 \<or> q2)
             else if op1 = 3
             then let (mul, q1) = q_double rn_val; (r, q2) = q_sub rm_val mul in (r, q1 \<or> q2)
             else (0, False))
      in write_next Rd result (set_Q q cpu))"

definition QADD8_INST :: generic_label where
  "QADD8_INST c Ra Rm Rn Rd op1 op2 cpu = when_passed c cpu
     (let rm = Reg cpu Rm; rn = Reg cpu Rn;
          add = ARMul_SignedSaturatedAdd16; sub = ARMul_SignedSaturatedSub16;
          add8 = (\<lambda>k. ARMul_SignedSaturatedAdd8 (byte_of rn k) (byte_of rm k));
          sub8 = (\<lambda>k. ARMul_SignedSaturatedSub8 (byte_of rn k) (byte_of rm k));
          (lo_result, hi_result) =
            (if op2 = 0 then (add (lo16 rn) (lo16 rm), add (hi16 rn) (hi16 rm))
             else if op2 = 1 then (sub (lo16 rn) (hi16 rm), add (hi16 rn) (lo16 rm))
             else if op2 = 2 then (add (lo16 rn) (hi16 rm), sub (hi16 rn) (lo16 rm))
             else if op2 = 3 then (sub (lo16 rn) (lo16 rm), sub (hi16 rn) (hi16 rm))
             else if op2 = 4 then (pack8 (add8 0) (add8 1), pack8 (add8 2) (add8 3))
             else if op2 = 7 then (pack8 (sub8 0) (sub8 1), pack8 (sub8 2) (sub8 3))
             else (0, 0))
      in write_next Rd (pack16 lo_result hi_result) cpu)"

definition UQADD8_INST :: generic_label where
  "UQADD8_INST c Ra Rm Rn Rd op1 op2 cpu = when_passed c cpu
     (let rm = Reg cpu Rm; rn = Reg cpu Rn;
          add = ARMul_UnsignedSaturatedAdd16; sub = ARMul_UnsignedSaturatedSub16;
          add8 = (\<lambda>k. ARMul_UnsignedSaturatedAdd8 (byte_of rn k) (byte_of rm k));
          sub8 = (\<lambda>k. ARMul_UnsignedSaturatedSub8 (byte_of rn k) (byte_of rm k));
          (lo_val, hi_val) =
            (if op2 = 0 then (add (lo16 rn) (lo16 rm), add (hi16 rn) (hi16 rm))
             else if op2 = 1 then (sub (lo16 rn) (hi16 rm), add (hi16 rn) (lo16 rm))
             else if op2 = 2 then (add (lo16 rn) (hi16 rm), sub (hi16 rn) (lo16 rm))
             else if op2 = 3 then (sub (lo16 rn) (lo16 rm), sub (hi16 rn) (hi16 rm))
             else if op2 = 4 then (pack8 (add8 0) (add8 1), pack8 (add8 2) (add8 3))
             else (pack8 (sub8 0) (sub8 1), pack8 (sub8 2) (sub8 3)))
      in write_next Rd (pack16 lo_val hi_val) cpu)"

type_synonym sat_label =
  "u32 \<Rightarrow> nat \<Rightarrow> nat \<Rightarrow> nat \<Rightarrow> nat \<Rightarrow> u32 \<Rightarrow> ARMul_State \<Rightarrow> outcome option"

definition sat_operand :: "nat \<Rightarrow> u32 \<Rightarrow> u32 \<Rightarrow> u32" where
  "sat_operand imm5 shift_type rn_val =
     (let shift_amount = (if shift_type = 1 \<and> imm5 = 0 then 31 else imm5)
      in if shift_type = 0 then push_bit shift_amount rn_val
         else if shift_type = 1 then signed_drop_bit shift_amount rn_val
         else rn_val)"

definition SSAT_INST :: sat_label where
  "SSAT_INST c Rn Rd imm5 sat_imm shift_type cpu = when_passed c cpu
     (let (rn_val, q) = ARMul_SignedSatQ (sat_operand imm5 shift_type (Reg cpu Rn)) sat_imm
      in write_next Rd rn_val (set_Q q cpu))"

definition USAT_INST :: sat_label where
  "USAT_INST c Rn Rd imm5 sat_imm shift_type cpu = when_passed c cpu
     (let (rn_val, q) = ARMul_UnsignedSatQ (sat_operand imm5 shift_type (Reg cpu Rn)) sat_imm
      in write_next Rd rn_val (set_Q q cpu))"

definition SSAT16_INST :: sat_label where
  "SSAT16_INST c Rn Rd imm5 sat_imm shift_type cpu = when_passed c cpu
     (let (lo, sat1) = ARMul_SignedSatQ (scast (lo16 (Reg cpu Rn))) sat_imm;
          (hi, sat2) = ARMul_SignedSatQ (signed_drop_bit 16 (Reg cpu Rn)) sat_imm
      in write_next Rd ((lo AND 0xFFFF) OR push_bit 16 hi) (set_Q (sat1 \<or> sat2) cpu))"

definition USAT16_INST :: sat_label where
  "USAT16_INST c Rn Rd imm5 sat_imm shift_type cpu = when_passed c cpu
     (let (lo, sat1) = ARMul_UnsignedSatQ (scast (lo16 (Reg cpu Rn))) sat_imm;
          (hi, sat2) = ARMul_UnsignedSatQ (signed_drop_bit 16 (Reg cpu Rn)) sat_imm
      in write_next Rd ((lo AND 0xFFFF) OR push_bit 16 hi) (set_Q (sat1 \<or> sat2) cpu))"

section \<open>Parallel arithmetic\<close>

definition SADD8_INST :: generic_label where
  "SADD8_INST c Ra Rm Rn Rd op1 op2 cpu = when_passed c cpu
     (let rn = Reg cpu Rn; rm = Reg cpu Rm;
          rn_lo = sint (lo16 rn); rn_hi = sint (hi16 rn); rm_lo = sint (lo16 rm); rm_hi = sint (hi16 rm);
          b = (\<lambda>f k. f (sint (byte_of rn k)) (sint (byte_of rm k)) :: int)
      in if op2 = 0 \<or> op2 = 1 \<or> op2 = 2 \<or> op2 = 3
         then let (lo_result, hi_result) =
                (if op2 = 0 then (rn_lo + rm_lo, rn_hi + rm_hi)
                 else if op2 = 1 then (rn_lo - rm_hi, rn_hi + rm_lo)
                 else if op2 = 2 then (rn_lo + rm_hi, rn_hi - rm_lo)
                 else (rn_lo - rm_lo, rn_hi - rm_hi))
              in Some (Next (advance (set_GE_halves (0 \<le> lo_result) (0 \<le> hi_result)
                   (set_reg Rd (halves lo_result hi_result) cpu))))
         else if op2 = 4 \<or> op2 = 7
         then let f = (if op2 = 4 then (+) else (-));
                  lo_val1 = b f 0; lo_val2 = b f 1; hi_val1 = b f 2; hi_val2 = b f 3
              in Some (Next (advance
                   (set_GE_bytes (0 \<le> lo_val1) (0 \<le> lo_val2) (0 \<le> hi_val1) (0 \<le> hi_val2)
                     (set_reg Rd (quarters lo_val1 lo_val2 hi_val1 hi_val2) cpu))))
         else Some (Next (advance cpu)))"

definition SHADD8_INST :: generic_label where
  "SHADD8_INST c Ra Rm Rn Rd op1 op2 cpu = when_passed c cpu
     (let rn = Reg cpu Rn; rm = Reg cpu Rm;
          rn_lo = sint (lo16 rn); rn_hi = sint (hi16 rn); rm_lo = sint (lo16 rm); rm_hi = sint (hi16 rm);
          b = (\<lambda>f k. drop_bit 1 (f (sint (byte_of rn k)) (sint (byte_of rm k)) :: int))
      in if op2 = 0 \<or> op2 = 1 \<or> op2 = 2 \<or> op2 = 3
         then let (lo_result, hi_result) =
                (if op2 = 0 then (rn_lo + rm_lo, rn_hi + rm_hi)
                 else if op2 = 1 then (rn_lo - rm_hi, rn_hi + rm_lo)
                 else if op2 = 2 then (rn_lo + rm_hi, rn_hi - rm_lo)
                 else (rn_lo - rm_lo, rn_hi - rm_hi))
              in write_next Rd (halves (drop_bit 1 lo_result) (drop_bit 1 hi_result)) cpu
         else if op2 = 4 \<or> op2 = 7
         then let f = (if op2 = 4 then (+) else (-))
              in write_next Rd (quarters (b f 0) (b f 1) (b f 2) (b f 3)) cpu
         else Some (Next (advance cpu)))"

text \<open>
  The unsigned forms compute in 32 bits that wrap, and read the result as signed to see a borrow.
\<close>

definition UADD8_INST :: generic_label where
  "UADD8_INST c Ra Rm Rn Rd op1 op2 cpu = when_passed c cpu
     (let rm = Reg cpu Rm; rn = Reg cpu Rn;
          rn_lo = rn AND 0xFFFF; rn_hi = drop_bit 16 rn AND 0xFFFF;
          rm_lo = rm AND 0xFFFF; rm_hi = drop_bit 16 rm AND 0xFFFF;
          over = (\<lambda>r. r AND 0xFFFF0000 \<noteq> 0);
          b = (\<lambda>f k. ucast (f (drop_bit (8 * k) rn AND 0xFF) (drop_bit (8 * k) rm AND 0xFF) :: u32) :: u16);
          pair = (\<lambda>x y. ucast (x AND 0xFF) OR push_bit 8 (ucast (y AND 0xFF)) :: u32);
          (lo_result, hi_result, cpu1) =
            (if op2 = 0
             then let lo = rn_lo + rm_lo; hi = rn_hi + rm_hi
                  in (lo, hi, set_GE_halves (over lo) (over hi) cpu)
             else if op2 = 1
             then let lo = rn_lo - rm_hi; hi = rn_hi + rm_lo
                  in (lo, hi, set_GE_halves (0 \<le> sint lo) (0x10000 \<le> sint hi) cpu)
             else if op2 = 2
             then let lo = rn_lo + rm_hi; hi = rn_hi - rm_lo
                  in (lo, hi, set_GE_halves (0x10000 \<le> sint lo) (0 \<le> sint hi) cpu)
             else if op2 = 3
             then let lo = rn_lo - rm_lo; hi = rn_hi - rm_hi
                  in (lo, hi, set_GE_halves (\<not> over lo) (\<not> over hi) cpu)
             else if op2 = 4
             then let s = b (+)
                  in (pair (s 0) (s 1), pair (s 2) (s 3),
                      set_GE_bytes (0x100 \<le> sint (s 0)) (0x100 \<le> sint (s 1)) (0x100 \<le> sint (s 2))
                        (0x100 \<le> sint (s 3)) cpu)
             else if op2 = 7
             then let d = b (-)
                  in (pair (d 0) (d 1), pair (d 2) (d 3),
                      set_GE_bytes (0 \<le> sint (d 0)) (0 \<le> sint (d 1)) (0 \<le> sint (d 2))
                        (0 \<le> sint (d 3)) cpu)
             else (0, 0, cpu))
      in write_next Rd ((lo_result AND 0xFFFF) OR push_bit 16 (hi_result AND 0xFFFF)) cpu1)"

definition UHADD8_INST :: generic_label where
  "UHADD8_INST c Ra Rm Rn Rd op1 op2 cpu = when_passed c cpu
     (let rm = Reg cpu Rm; rn = Reg cpu Rn;
          rn_lo = rn AND 0xFFFF; rn_hi = drop_bit 16 rn AND 0xFFFF;
          rm_lo = rm AND 0xFFFF; rm_hi = drop_bit 16 rm AND 0xFFFF;
          b = (\<lambda>f k. drop_bit 1 (f (drop_bit (8 * k) rn AND 0xFF) (drop_bit (8 * k) rm AND 0xFF) :: u32))
      in if op2 = 0 \<or> op2 = 1 \<or> op2 = 2 \<or> op2 = 3
         then let (lo_val, hi_val) =
                (if op2 = 0 then (rn_lo + rm_lo, rn_hi + rm_hi)
                 else if op2 = 1 then (rn_lo - rm_hi, rn_hi + rm_lo)
                 else if op2 = 2 then (rn_lo + rm_hi, rn_hi - rm_lo)
                 else (rn_lo - rm_lo, rn_hi - rm_hi))
              in write_next Rd ((drop_bit 1 lo_val AND 0xFFFF) OR push_bit 16 (drop_bit 1 hi_val AND 0xFFFF)) cpu
         else if op2 = 4 \<or> op2 = 7
         then let f = (if op2 = 4 then (+) else (-))
              in write_next Rd ((b f 0 AND 0xFF) OR push_bit 8 (b f 1 AND 0xFF)
                   OR push_bit 16 (b f 2 AND 0xFF) OR push_bit 24 (b f 3 AND 0xFF)) cpu
         else Some (Next (advance cpu)))"

definition USAD8_INST :: generic_label where
  "USAD8_INST c Ra Rm Rn Rd op1 op2 cpu = when_passed c cpu
     (let rm = Reg cpu Rm; rn = Reg cpu Rn;
          d = (\<lambda>k. ucast (ARMul_UnsignedAbsoluteDifference (byte_of rn k) (byte_of rm k)) :: u32);
          finalDif = d 0 + d 1 + d 2 + d 3
      in write_next Rd (if Ra \<noteq> 15 then finalDif + Reg cpu Ra else finalDif) cpu)"

definition SEL_INST :: generic_label where
  "SEL_INST c Ra Rm Rn Rd op1 op2 cpu = when_passed c cpu
     (let to = Reg cpu Rm; from = Reg cpu Rn;
          pick = (\<lambda>n m. (if Cpsr cpu AND push_bit n 1 \<noteq> 0 then from else to) AND m)
      in write_next Rd (pick 16 0xff OR pick 17 0x0000ff00 OR pick 18 0x00ff0000 OR pick 19 0xff000000) cpu)"

section \<open>Packing, extension, reversal\<close>

definition PKHBT_INST :: "u32 \<Rightarrow> nat \<Rightarrow> nat \<Rightarrow> nat \<Rightarrow> nat \<Rightarrow> ARMul_State \<Rightarrow> outcome option" where
  "PKHBT_INST c Rm Rn Rd imm cpu = when_passed c cpu
     (write_next Rd ((Reg cpu Rn AND 0xFFFF) OR (push_bit imm (Reg cpu Rm) AND 0xFFFF0000)) cpu)"

definition PKHTB_INST :: "u32 \<Rightarrow> nat \<Rightarrow> nat \<Rightarrow> nat \<Rightarrow> nat \<Rightarrow> ARMul_State \<Rightarrow> outcome option" where
  "PKHTB_INST c Rm Rn Rd imm cpu = when_passed c cpu
     (let shift_imm = (if imm \<noteq> 0 then imm else 31)
      in write_next Rd ((signed_drop_bit shift_imm (Reg cpu Rm) AND 0xFFFF)
           OR (Reg cpu Rn AND 0xFFFF0000)) cpu)"

definition REV_INST :: "u32 \<Rightarrow> nat \<Rightarrow> nat \<Rightarrow> u32 \<Rightarrow> u32 \<Rightarrow> ARMul_State \<Rightarrow> outcome option" where
  "REV_INST c Rd Rm op1 op2 cpu = when_passed c cpu
     (let rm = Reg cpu Rm
      in if op1 = 0x03 \<and> op2 = 0x01
         then write_next Rd (push_bit 24 (rm AND 0xFF) OR push_bit 16 (drop_bit 8 rm AND 0xFF)
           OR push_bit 8 (drop_bit 16 rm AND 0xFF) OR (drop_bit 24 rm AND 0xFF)) cpu
         else if op1 = 0x03 \<and> op2 = 0x05
         then write_next Rd (push_bit 8 (rm AND 0xFF) OR drop_bit 8 (rm AND 0xFF00)
           OR push_bit 8 (rm AND 0xFF0000) OR drop_bit 8 (rm AND 0xFF000000)) cpu
         else if op1 = 0x07 \<and> op2 = 0x05
         then let rd = push_bit 8 (rm AND 0xFF) OR drop_bit 8 (rm AND 0xFF00)
              in write_next Rd (if rd AND 0x8000 \<noteq> 0 then rd OR 0xffff0000 else rd) cpu
         else Some (Next (advance cpu)))"

type_synonym extend_label = "u32 \<Rightarrow> nat \<Rightarrow> nat \<Rightarrow> nat \<Rightarrow> ARMul_State \<Rightarrow> outcome option"

definition SXTB_INST :: extend_label where
  "SXTB_INST c Rd Rm rot cpu = when_passed c cpu
     (let operand2 = ROTATE_RIGHT_32 (Reg cpu Rm) (8 * rot)
      in write_next Rd (if BIT operand2 7 \<noteq> 0 then operand2 OR 0xffffff00 else operand2 AND 0xff) cpu)"

definition SXTH_INST :: extend_label where
  "SXTH_INST c Rd Rm rot cpu = when_passed c cpu
     (let operand2 = ROTATE_RIGHT_32 (Reg cpu Rm) (8 * rot)
      in write_next Rd (if BIT operand2 15 \<noteq> 0 then operand2 OR 0xffff0000 else operand2 AND 0xffff) cpu)"

definition UXTB_INST :: extend_label where
  "UXTB_INST c Rd Rm rot cpu = when_passed c cpu
     (write_next Rd (ROTATE_RIGHT_32 (Reg cpu Rm) (8 * rot) AND 0xff) cpu)"

definition UXTH_INST :: extend_label where
  "UXTH_INST c Rd Rm rot cpu = when_passed c cpu
     (write_next Rd (ROTATE_RIGHT_32 (Reg cpu Rm) (8 * rot) AND 0xffff) cpu)"

type_synonym extend_add_label = "u32 \<Rightarrow> nat \<Rightarrow> nat \<Rightarrow> nat \<Rightarrow> nat \<Rightarrow> ARMul_State \<Rightarrow> outcome option"

definition SXTAB_INST :: extend_add_label where
  "SXTAB_INST c Rd Rn Rm rot cpu = when_passed c cpu
     (let operand2 = ROTATE_RIGHT_32 (Reg cpu Rm) (8 * rot) AND 0xff;
          operand2 = (if 0x80 AND operand2 \<noteq> 0 then 0xFFFFFF00 OR operand2 else operand2)
      in write_next Rd (Reg cpu Rn + operand2) cpu)"

definition SXTAH_INST :: extend_add_label where
  "SXTAH_INST c Rd Rn Rm rot cpu = when_passed c cpu
     (let operand2 = ROTATE_RIGHT_32 (Reg cpu Rm) (8 * rot) AND 0xffff;
          operand2 = (if 0x8000 AND operand2 \<noteq> 0 then 0xFFFF0000 OR operand2 else operand2)
      in write_next Rd (Reg cpu Rn + operand2) cpu)"

definition UXTAB_INST :: extend_add_label where
  "UXTAB_INST c Rd Rn Rm rot cpu = when_passed c cpu
     (write_next Rd (Reg cpu Rn + (ROTATE_RIGHT_32 (Reg cpu Rm) (8 * rot) AND 0xff)) cpu)"

definition UXTAH_INST :: extend_add_label where
  "UXTAH_INST c Rd Rn Rm rot cpu = when_passed c cpu
     (write_next Rd (Reg cpu Rn + (ROTATE_RIGHT_32 (Reg cpu Rm) (8 * rot) AND 0xffff)) cpu)"

definition s8 :: "u32 \<Rightarrow> u32" where "s8 w = scast (ucast w :: u8)"

definition SXTAB16_INST :: extend_add_label where
  "SXTAB16_INST c Rd Rn Rm rot cpu = when_passed c cpu
     (let rotation = rot * 8;
          rn_val = Reg cpu Rn;
          rm_val = (if rotation \<noteq> 0 then push_bit (32 - rotation) (Reg cpu Rm) OR drop_bit rotation (Reg cpu Rm)
                    else Reg cpu Rm)
      in if Rn = 15
         then let lo = s8 rm_val; hi = s8 (drop_bit 16 rm_val)
              in write_next Rd ((lo AND 0xFFFF) OR push_bit 16 hi) cpu
         else let lo = rn_val + s8 (rm_val AND 0xFF);
                  hi = drop_bit 16 rn_val + s8 (drop_bit 16 rm_val AND 0xFF)
              in write_next Rd ((lo AND 0xFFFF) OR push_bit 16 hi) cpu)"

definition UXTAB16_INST :: extend_add_label where
  "UXTAB16_INST c Rd Rn Rm rot cpu = when_passed c cpu
     (let rotated_rm = ROTATE_RIGHT_32 (Reg cpu Rm) (rot * 8)
      in if Rn = 15 then write_next Rd (rotated_rm AND 0x00FF00FF) cpu
         else let rn_val = Reg cpu Rn;
                  lo_result = ucast (rn_val AND 0xFFFF) + ucast (ucast (rotated_rm AND 0xFF) :: u8) :: u16;
                  hi_result = ucast (drop_bit 16 rn_val)
                    + ucast (ucast (drop_bit 16 rotated_rm AND 0xFF) :: u8) :: u16
              in write_next Rd (push_bit 16 (ucast hi_result) OR (ucast lo_result AND 0xFFFF)) cpu)"

section \<open>Multiplication\<close>

definition MUL_INST :: "u32 \<Rightarrow> u32 \<Rightarrow> nat \<Rightarrow> nat \<Rightarrow> nat \<Rightarrow> ARMul_State \<Rightarrow> outcome option" where
  "MUL_INST c S Rd Rs Rm cpu = when_passed c cpu
     (let rm = ucast (Reg cpu Rm) :: u64; rs = ucast (Reg cpu Rs);
          result = ucast ((rm * rs) AND 0xffffffff);
          cpu1 = set_reg Rd result cpu
      in Some (Next (advance (if S \<noteq> 0 then set_NZ result cpu1 else cpu1))))"

definition MLA_INST :: "u32 \<Rightarrow> u32 \<Rightarrow> nat \<Rightarrow> nat \<Rightarrow> nat \<Rightarrow> nat \<Rightarrow> ARMul_State \<Rightarrow> outcome option" where
  "MLA_INST c S Rn Rd Rs Rm cpu = when_passed c cpu
     (let rm = ucast (Reg cpu Rm) :: u64; rs = ucast (Reg cpu Rs); rn = ucast (Reg cpu Rn);
          result = ucast ((rm * rs + rn) AND 0xffffffff);
          cpu1 = set_reg Rd result cpu
      in Some (Next (advance (if S \<noteq> 0 then set_NZ result cpu1 else cpu1))))"

text \<open>One half of a register, extended with its sign.\<close>

definition signed_half :: "u32 \<Rightarrow> u32 \<Rightarrow> u32" where
  "signed_half high r =
     (if high = 0 then if BIT r 15 \<noteq> 0 then BITS r 0 15 OR 0xffff0000 else BITS r 0 15
      else if BIT r 31 \<noteq> 0 then BITS r 16 31 OR 0xffff0000 else BITS r 16 31)"

definition SMLA_INST :: "u32 \<Rightarrow> u32 \<Rightarrow> u32 \<Rightarrow> nat \<Rightarrow> nat \<Rightarrow> nat \<Rightarrow> nat \<Rightarrow> ARMul_State \<Rightarrow> outcome option" where
  "SMLA_INST c x y Rm Rd Rs Rn cpu = when_passed c cpu
     (let product = signed_half x (Reg cpu Rm) * signed_half y (Reg cpu Rs);
          result = product + Reg cpu Rn
      in write_next Rd result (set_Q (AddOverflow product (Reg cpu Rn) result) cpu))"

definition SMUL_INST :: "u32 \<Rightarrow> nat \<Rightarrow> nat \<Rightarrow> nat \<Rightarrow> u32 \<Rightarrow> u32 \<Rightarrow> ARMul_State \<Rightarrow> outcome option" where
  "SMUL_INST c Rd Rs Rm x y cpu = when_passed c cpu
     (write_next Rd (signed_half x (Reg cpu Rm) * signed_half y (Reg cpu Rs)) cpu)"

type_synonym smlad_label =
  "u32 \<Rightarrow> u32 \<Rightarrow> nat \<Rightarrow> nat \<Rightarrow> nat \<Rightarrow> nat \<Rightarrow> u32 \<Rightarrow> u32 \<Rightarrow> ARMul_State \<Rightarrow> outcome option"

definition swap_halves :: "u32 \<Rightarrow> u32" where
  "swap_halves w = push_bit 16 (w AND 0xFFFF) OR drop_bit 16 w"

definition SMLAD_INST :: smlad_label where
  "SMLAD_INST c m Rm Rd Ra Rn op1 op2 cpu = when_passed c cpu
     (let rm_val = (if m \<noteq> 0 then swap_halves (Reg cpu Rm) else Reg cpu Rm);
          rn_val = Reg cpu Rn;
          product1 = scast (lo16 rn_val) * scast (lo16 rm_val) :: u32;
          product2 = scast (hi16 rn_val) * scast (hi16 rm_val) :: u32
      in if BIT op2 1 = 0
         then let both = product1 + product2;
                  rd_val = (if Ra \<noteq> 15 then both + Reg cpu Ra else both)
              in write_next Rd rd_val
                   (set_Q ((Ra \<noteq> 15 \<and> ARMul_AddOverflowQ both (Reg cpu Ra))
                     \<or> ARMul_AddOverflowQ product1 product2) cpu)
         else let both = product1 - product2;
                  rd_val = (if Ra \<noteq> 15 then both + Reg cpu Ra else both)
              in write_next Rd rd_val (set_Q (Ra \<noteq> 15 \<and> ARMul_AddOverflowQ both (Reg cpu Ra)) cpu))"

definition SMLAW_INST :: smlad_label where
  "SMLAW_INST c m Rm Rd Ra Rn op1 op2 cpu = when_passed c cpu
     (let operand2 = sint (if m = 1 then hi16 (Reg cpu Rm) else lo16 (Reg cpu Rm));
          result = sint (Reg cpu Rn) * operand2 + push_bit 16 (sint (Reg cpu Ra));
          rd = word_of_int (drop_bit 16 result) :: u32
      in write_next Rd rd (set_Q (drop_bit 16 result \<noteq> sint rd) cpu))"

definition SMULW_INST :: smlad_label where
  "SMULW_INST c m Rm Rd Ra Rn op1 op2 cpu = when_passed c cpu
     (let rm = sint (if m = 1 then hi16 (Reg cpu Rm) else lo16 (Reg cpu Rm));
          result = rm * sint (Reg cpu Rn)
      in write_next Rd (word_of_int (drop_bit 16 result)) cpu)"

definition SMMLA_INST :: smlad_label where
  "SMMLA_INST c m Rm Rd Ra Rn op1 op2 cpu = when_passed c cpu
     (let result = scast (Reg cpu Rn) * scast (Reg cpu Rm) :: u64;
          ra = push_bit 32 (ucast (Reg cpu Ra));
          result = (if Ra \<noteq> 15 then if BIT op2 1 = 0 then result + ra else ra - result else result);
          result = (if m = 1 then result + 0x80000000 else result)
      in write_next Rd (ucast (drop_bit 32 result AND 0xFFFFFFFF)) cpu)"

text \<open>The two words of a 64-bit result, and the flags they set.\<close>

definition double_word :: "u32 \<Rightarrow> u32 \<Rightarrow> u64" where
  "double_word hi lo = push_bit 32 (ucast hi) OR ucast lo"

definition low_word :: "u64 \<Rightarrow> u32" where "low_word w = ucast (w AND 0xFFFFFFFF)"
definition high_word :: "u64 \<Rightarrow> u32" where "high_word w = ucast (drop_bit 32 w AND 0xFFFFFFFF)"

definition write_long :: "u32 \<Rightarrow> nat \<Rightarrow> nat \<Rightarrow> ARMul_State \<Rightarrow> outcome option" where
  "write_long S RdHi RdLo cpu =
     Some (Next (advance (if S \<noteq> 0
       then cpu\<lparr>NFlag := BIT (Reg cpu RdHi) 31, ZFlag := of_bool (Reg cpu RdHi = 0 \<and> Reg cpu RdLo = 0)\<rparr>
       else cpu)))"

type_synonym umull_label =
  "u32 \<Rightarrow> u32 \<Rightarrow> nat \<Rightarrow> nat \<Rightarrow> nat \<Rightarrow> nat \<Rightarrow> ARMul_State \<Rightarrow> outcome option"

definition sign_extend_64 :: "u32 \<Rightarrow> u64" where
  "sign_extend_64 r = (let w = ucast r :: u64 in if BIT w 31 \<noteq> 0 then w OR 0xffffffff00000000 else w)"

definition SMULL_INST :: umull_label where
  "SMULL_INST c S Rm Rs RdHi RdLo cpu = when_passed c cpu
     (let rst = sign_extend_64 (Reg cpu Rm) * sign_extend_64 (Reg cpu Rs)
      in write_long S RdHi RdLo (set_reg RdLo (low_word rst) (set_reg RdHi (high_word rst) cpu)))"

definition UMULL_INST :: umull_label where
  "UMULL_INST c S Rm Rs RdHi RdLo cpu = when_passed c cpu
     (let rst = ucast (Reg cpu Rm) * ucast (Reg cpu Rs)
      in write_long S RdHi RdLo (set_reg RdLo (low_word rst) (set_reg RdHi (high_word rst) cpu)))"

definition SMLAL_INST :: umull_label where
  "SMLAL_INST c S Rm Rs RdHi RdLo cpu = when_passed c cpu
     (let rst = sign_extend_64 (Reg cpu Rm) * sign_extend_64 (Reg cpu Rs)
            + (push_bit 32 (ucast (Reg cpu RdHi)) + ucast (Reg cpu RdLo))
      in write_long S RdHi RdLo (set_reg RdHi (high_word rst) (set_reg RdLo (low_word rst) cpu)))"

definition UMLAL_INST :: umull_label where
  "UMLAL_INST c S Rm Rs RdHi RdLo cpu = when_passed c cpu
     (let rst = ucast (Reg cpu Rm) * ucast (Reg cpu Rs)
            + (push_bit 32 (ucast (Reg cpu RdHi)) + ucast (Reg cpu RdLo))
      in write_long S RdHi RdLo (set_reg RdHi (high_word rst) (set_reg RdLo (low_word rst) cpu)))"

definition UMAAL_INST :: "u32 \<Rightarrow> nat \<Rightarrow> nat \<Rightarrow> nat \<Rightarrow> nat \<Rightarrow> ARMul_State \<Rightarrow> outcome option" where
  "UMAAL_INST c Rn Rm RdHi RdLo cpu = when_passed c cpu
     (let result = ucast (Reg cpu Rm) * ucast (Reg cpu Rn) + ucast (Reg cpu RdLo) + ucast (Reg cpu RdHi)
      in write_long 0 RdHi RdLo (set_reg RdHi (high_word result) (set_reg RdLo (low_word result) cpu)))"

definition half_operand :: "u32 \<Rightarrow> u32 \<Rightarrow> u64" where
  "half_operand high r =
     (let operand = ucast r;
          operand = (if high \<noteq> 0 then drop_bit 16 operand else operand) AND 0xFFFF
      in if operand AND 0x8000 \<noteq> 0 then operand - 65536 else operand)"

definition SMLALXY_INST :: "u32 \<Rightarrow> u32 \<Rightarrow> u32 \<Rightarrow> nat \<Rightarrow> nat \<Rightarrow> nat \<Rightarrow> nat \<Rightarrow> ARMul_State \<Rightarrow> outcome option" where
  "SMLALXY_INST c x y RdLo RdHi Rm Rn cpu = when_passed c cpu
     (let dest = double_word (Reg cpu RdHi) (Reg cpu RdLo)
            + half_operand x (Reg cpu Rn) * half_operand y (Reg cpu Rm)
      in write_long 0 RdHi RdLo (set_reg RdHi (high_word dest) (set_reg RdLo (low_word dest) cpu)))"

definition SMLALD_INST ::
  "u32 \<Rightarrow> nat \<Rightarrow> nat \<Rightarrow> nat \<Rightarrow> nat \<Rightarrow> u32 \<Rightarrow> u32 \<Rightarrow> u32 \<Rightarrow> ARMul_State \<Rightarrow> outcome option" where
  "SMLALD_INST c RdLo RdHi Rm Rn swap op1 op2 cpu = when_passed c cpu
     (let rn_val = Reg cpu Rn;
          rm_val = (if swap = 1 then swap_halves (Reg cpu Rm) else Reg cpu Rm);
          product1 = scast (lo16 rn_val) * scast (lo16 rm_val) :: u32;
          product2 = scast (hi16 rn_val) * scast (hi16 rm_val) :: u32;
          both = (if BIT op2 1 = 0 then product1 + product2 else product1 - product2);
          result = scast both + double_word (Reg cpu RdHi) (Reg cpu RdLo)
      in write_long 0 RdHi RdLo (set_reg RdHi (high_word result) (set_reg RdLo (low_word result) cpu)))"

end
