(* ===== verification/ArmMemory.thy ===== *)
theory ArmMemory imports ArmData begin

text \<open>
  The labels of src/core/arm/dyncom/arm_dyncom_interpreter.cpp that load and store. \<open>D\<close> stands for
  the devices behind the special pages of the memory system. A store or a load that the memory
  system asserts against is \<open>None\<close>, and so is the register after the last one, which the source
  reaches as \<open>Reg[Rd + 1]\<close> when \<open>Rd\<close> is 15.
\<close>

section \<open>One register\<close>

type_synonym ldst_label =
  "Devices \<Rightarrow> u32 \<Rightarrow> u32 \<Rightarrow> get_addr_fp_t option \<Rightarrow> ARMul_State \<Rightarrow> outcome option"

text \<open>A load that keeps on: the address, the value, the register of bits 12 to 15.\<close>

definition load_next ::
  "(ARMul_State \<Rightarrow> u32 \<Rightarrow> (u32 \<times> ARMul_State) option) \<Rightarrow> u32 \<Rightarrow> get_addr_fp_t option \<Rightarrow> ARMul_State \<Rightarrow>
   outcome option" where
  "load_next rd inst ga cpu = do {
     (addr, cpu1) \<leftarrow> get_addr ga inst cpu;
     (value, cpu2) \<leftarrow> rd cpu1 addr;
     write_next (reg_field inst 12) value cpu2 }"

definition store_next ::
  "(u32 \<Rightarrow> u32 \<Rightarrow> ARMul_State \<Rightarrow> ARMul_State option) \<Rightarrow> (u32 \<Rightarrow> ARMul_State \<Rightarrow> u32) \<Rightarrow> u32 \<Rightarrow>
   get_addr_fp_t option \<Rightarrow> ARMul_State \<Rightarrow> outcome option" where
  "store_next wr value inst ga cpu = do {
     (addr, cpu1) \<leftarrow> get_addr ga inst cpu;
     cpu2 \<leftarrow> wr addr (value inst cpu1) cpu1;
     Some (Next (advance cpu2)) }"

text \<open>A load into the program counter selects the instruction set by bit 0 and ends the block.\<close>

definition load_word :: "Devices \<Rightarrow> u32 \<Rightarrow> get_addr_fp_t option \<Rightarrow> ARMul_State \<Rightarrow> outcome option" where
  "load_word D inst ga cpu = do {
     (addr, cpu1) \<leftarrow> get_addr ga inst cpu;
     (value, cpu2) \<leftarrow> ReadMemory32 D cpu1 addr;
     let cpu3 = set_reg (reg_field inst 12) value cpu2;
     Some (if reg_field inst 12 = 15
           then Dispatch (set_reg 15 (Reg cpu3 15 AND 0xFFFFFFFE) (cpu3\<lparr>TFlag := value AND 1\<rparr>))
           else Next (advance cpu3)) }"

definition LDR_INST :: ldst_label where
  "LDR_INST D c inst ga cpu = load_word D inst ga cpu"

definition LDRCOND_INST :: ldst_label where
  "LDRCOND_INST D c inst ga cpu =
     (if CondPassed cpu c then load_word D inst ga cpu else Some (Next (advance cpu)))"

definition read_byte :: "Devices \<Rightarrow> ARMul_State \<Rightarrow> u32 \<Rightarrow> (u32 \<times> ARMul_State) option" where
  "read_byte D cpu addr = do { (v, cpu1) \<leftarrow> ReadMemory8 D cpu addr; Some (ucast v, cpu1) }"

definition read_half :: "Devices \<Rightarrow> ARMul_State \<Rightarrow> u32 \<Rightarrow> (u32 \<times> ARMul_State) option" where
  "read_half D cpu addr = do { (v, cpu1) \<leftarrow> ReadMemory16 D cpu addr; Some (ucast v, cpu1) }"

definition LDRB_INST :: ldst_label where
  "LDRB_INST D c inst ga cpu = when_passed c cpu (load_next (read_byte D) inst ga cpu)"

definition LDRH_INST :: ldst_label where
  "LDRH_INST D c inst ga cpu = when_passed c cpu (load_next (read_half D) inst ga cpu)"

definition LDRSB_INST :: ldst_label where
  "LDRSB_INST D c inst ga cpu = when_passed c cpu
     (load_next (\<lambda>cpu addr. do {
        (value, cpu1) \<leftarrow> read_byte D cpu addr;
        Some (if BIT value 7 \<noteq> 0 then value OR 0xffffff00 else value, cpu1) }) inst ga cpu)"

definition LDRSH_INST :: ldst_label where
  "LDRSH_INST D c inst ga cpu = when_passed c cpu
     (load_next (\<lambda>cpu addr. do {
        (value, cpu1) \<leftarrow> read_half D cpu addr;
        Some (if BIT value 15 \<noteq> 0 then value OR 0xffff0000 else value, cpu1) }) inst ga cpu)"

text \<open>The unprivileged forms access memory in user mode and go back to the mode they came from.\<close>

definition read_as_user ::
  "(ARMul_State \<Rightarrow> u32 \<Rightarrow> (u32 \<times> ARMul_State) option) \<Rightarrow> ARMul_State \<Rightarrow> u32 \<Rightarrow> (u32 \<times> ARMul_State) option"
where
  "read_as_user rd cpu addr = do {
     (value, cpu1) \<leftarrow> rd (ChangePrivilegeMode USER32MODE cpu) addr;
     Some (value, ChangePrivilegeMode (Mode cpu) cpu1) }"

definition write_as_user ::
  "(u32 \<Rightarrow> u32 \<Rightarrow> ARMul_State \<Rightarrow> ARMul_State option) \<Rightarrow> u32 \<Rightarrow> u32 \<Rightarrow> ARMul_State \<Rightarrow> ARMul_State option"
where
  "write_as_user wr addr value cpu = do {
     cpu1 \<leftarrow> wr addr value (ChangePrivilegeMode USER32MODE cpu);
     Some (ChangePrivilegeMode (Mode cpu) cpu1) }"

definition LDRBT_INST :: ldst_label where
  "LDRBT_INST D c inst ga cpu = when_passed c cpu
     (load_next (read_as_user (read_byte D)) inst ga cpu)"

definition LDRT_INST :: ldst_label where
  "LDRT_INST D c inst ga cpu = when_passed c cpu
     (load_next (read_as_user (ReadMemory32 D)) inst ga cpu)"

text \<open>The value a store takes from its register; two instructions ahead for the program counter.\<close>

definition stored :: "u32 \<Rightarrow> ARMul_State \<Rightarrow> u32" where
  "stored inst cpu = Reg cpu (reg_field inst 12)"

definition stored_word :: "u32 \<Rightarrow> ARMul_State \<Rightarrow> u32" where
  "stored_word inst cpu =
     (if reg_field inst 12 = 15 then stored inst cpu + 2 * GetInstructionSize cpu else stored inst cpu)"

definition write_byte :: "Devices \<Rightarrow> u32 \<Rightarrow> u32 \<Rightarrow> ARMul_State \<Rightarrow> ARMul_State option" where
  "write_byte D addr value = WriteMemory8 D addr (ucast (value AND 0xff))"

definition write_half :: "Devices \<Rightarrow> u32 \<Rightarrow> u32 \<Rightarrow> ARMul_State \<Rightarrow> ARMul_State option" where
  "write_half D addr value = WriteMemory16 D addr (ucast (value AND 0xffff))"

definition STR_INST :: ldst_label where
  "STR_INST D c inst ga cpu = when_passed c cpu
     (store_next (WriteMemory32 D) stored_word inst ga cpu)"

definition STRB_INST :: ldst_label where
  "STRB_INST D c inst ga cpu = when_passed c cpu (store_next (write_byte D) stored inst ga cpu)"

definition STRH_INST :: ldst_label where
  "STRH_INST D c inst ga cpu = when_passed c cpu (store_next (write_half D) stored inst ga cpu)"

definition STRBT_INST :: ldst_label where
  "STRBT_INST D c inst ga cpu = when_passed c cpu
     (store_next (write_as_user (write_byte D)) stored inst ga cpu)"

definition STRT_INST :: ldst_label where
  "STRT_INST D c inst ga cpu = when_passed c cpu
     (store_next (write_as_user (WriteMemory32 D)) stored_word inst ga cpu)"

section \<open>Two registers\<close>

definition reg_pair :: "nat \<Rightarrow> nat option" where
  "reg_pair n = (if n + 1 < 16 then Some (n + 1) else None)"

definition LDRD_INST :: ldst_label where
  "LDRD_INST D c inst ga cpu =
     (if c = 14 \<or> CondPassed cpu c
      then do {
        (addr, cpu1) \<leftarrow> get_addr ga inst cpu;
        (lo, cpu2) \<leftarrow> ReadMemory32 D cpu1 addr;
        (hi, cpu3) \<leftarrow> ReadMemory32 D cpu2 (addr + 4);
        second \<leftarrow> reg_pair (reg_field inst 12);
        let cpu4 = set_reg second hi (set_reg (reg_field inst 12) lo cpu3);
        Some (Next (set_reg 15 (Reg cpu4 15 + 4) cpu4)) }
      else Some (Next (set_reg 15 (Reg cpu 15 + 4) cpu)))"

definition STRD_INST :: ldst_label where
  "STRD_INST D c inst ga cpu = when_passed c cpu (do {
     (addr, cpu1) \<leftarrow> get_addr ga inst cpu;
     cpu2 \<leftarrow> WriteMemory32 D addr (Reg cpu1 (reg_field inst 12)) cpu1;
     second \<leftarrow> reg_pair (reg_field inst 12);
     cpu3 \<leftarrow> WriteMemory32 D (addr + 4) (Reg cpu2 second) cpu2;
     Some (Next (advance cpu3)) })"

section \<open>Exclusive access\<close>

type_synonym exclusive_label =
  "Devices \<Rightarrow> u32 \<Rightarrow> nat \<Rightarrow> nat \<Rightarrow> nat \<Rightarrow> ARMul_State \<Rightarrow> outcome option"

definition load_exclusive ::
  "(ARMul_State \<Rightarrow> u32 \<Rightarrow> (u32 \<times> ARMul_State) option) \<Rightarrow> nat \<Rightarrow> nat \<Rightarrow> ARMul_State \<Rightarrow> outcome option" where
  "load_exclusive rd Rn Rd cpu = do {
     let read_addr = Reg cpu Rn;
     (value, cpu1) \<leftarrow> rd (SetExclusiveMemoryAddress read_addr cpu) read_addr;
     write_next Rd value cpu1 }"

definition LDREX_INST :: exclusive_label where
  "LDREX_INST D c Rm Rn Rd cpu = when_passed c cpu (load_exclusive (ReadMemory32 D) Rn Rd cpu)"

definition LDREXB_INST :: exclusive_label where
  "LDREXB_INST D c Rm Rn Rd cpu = when_passed c cpu (load_exclusive (read_byte D) Rn Rd cpu)"

definition LDREXH_INST :: exclusive_label where
  "LDREXH_INST D c Rm Rn Rd cpu = when_passed c cpu (load_exclusive (read_half D) Rn Rd cpu)"

definition LDREXD_INST :: exclusive_label where
  "LDREXD_INST D c Rm Rn Rd cpu = when_passed c cpu (do {
     let read_addr = Reg cpu Rn;
     (lo, cpu1) \<leftarrow> ReadMemory32 D (SetExclusiveMemoryAddress read_addr cpu) read_addr;
     (hi, cpu2) \<leftarrow> ReadMemory32 D cpu1 (read_addr + 4);
     second \<leftarrow> reg_pair Rd;
     Some (Next (advance (set_reg second hi (set_reg Rd lo cpu2)))) })"

definition store_exclusive ::
  "(u32 \<Rightarrow> ARMul_State \<Rightarrow> ARMul_State option) \<Rightarrow> nat \<Rightarrow> nat \<Rightarrow> ARMul_State \<Rightarrow> outcome option" where
  "store_exclusive wr Rn Rd cpu =
     (let write_addr = Reg cpu Rn
      in if IsExclusiveMemoryAccess cpu write_addr
         then do { cpu1 \<leftarrow> wr write_addr (UnsetExclusiveMemoryAddress cpu); write_next Rd 0 cpu1 }
         else write_next Rd 1 cpu)"

definition STREX_INST :: exclusive_label where
  "STREX_INST D c Rm Rn Rd cpu = when_passed c cpu
     (store_exclusive (\<lambda>addr cpu. WriteMemory32 D addr (Reg cpu Rm) cpu) Rn Rd cpu)"

definition STREXB_INST :: exclusive_label where
  "STREXB_INST D c Rm Rn Rd cpu = when_passed c cpu
     (store_exclusive (\<lambda>addr cpu. WriteMemory8 D addr (ucast (Reg cpu Rm)) cpu) Rn Rd cpu)"

definition STREXH_INST :: exclusive_label where
  "STREXH_INST D c Rm Rn Rd cpu = when_passed c cpu
     (store_exclusive (\<lambda>addr cpu. WriteMemory16 D addr (ucast (Reg cpu Rm)) cpu) Rn Rd cpu)"

definition STREXD_INST :: exclusive_label where
  "STREXD_INST D c Rm Rn Rd cpu = when_passed c cpu
     (store_exclusive (\<lambda>addr cpu. do {
        second \<leftarrow> reg_pair Rm;
        let rt = (ucast (Reg cpu Rm) :: u64);
        let rt2 = (ucast (Reg cpu second) :: u64);
        WriteMemory64 D addr
          (if InBigEndianMode cpu then push_bit 32 rt OR rt2 else push_bit 32 rt2 OR rt) cpu }) Rn Rd cpu)"

definition SWP_INST :: "Devices \<Rightarrow> u32 \<Rightarrow> nat \<Rightarrow> nat \<Rightarrow> nat \<Rightarrow> ARMul_State \<Rightarrow> outcome option" where
  "SWP_INST D c Rn Rd Rm cpu = when_passed c cpu (do {
     let addr = Reg cpu Rn;
     (value, cpu1) \<leftarrow> ReadMemory32 D cpu addr;
     cpu2 \<leftarrow> WriteMemory32 D addr (Reg cpu1 Rm) cpu1;
     write_next Rd value cpu2 })"

definition SWPB_INST :: "Devices \<Rightarrow> u32 \<Rightarrow> nat \<Rightarrow> nat \<Rightarrow> nat \<Rightarrow> ARMul_State \<Rightarrow> outcome option" where
  "SWPB_INST D c Rn Rd Rm cpu = when_passed c cpu (do {
     let addr = Reg cpu Rn;
     (value, cpu1) \<leftarrow> read_byte D cpu addr;
     cpu2 \<leftarrow> write_byte D addr (Reg cpu1 Rm) cpu1;
     write_next Rd value cpu2 })"

section \<open>Blocks of registers\<close>

text \<open>The registers of a list that the word names, each from the next word of memory.\<close>

fun load_list :: "Devices \<Rightarrow> u32 \<Rightarrow> nat list \<Rightarrow> u32 \<Rightarrow> ARMul_State \<Rightarrow> (u32 \<times> ARMul_State) option" where
  "load_list D inst [] addr cpu = Some (addr, cpu)"
| "load_list D inst (i # is) addr cpu =
     (if BIT inst i \<noteq> 0
      then do { (v, cpu1) \<leftarrow> ReadMemory32 D cpu addr; load_list D inst is (addr + 4) (set_reg i v cpu1) }
      else load_list D inst is addr cpu)"

text \<open>Registers 13 and 14 of user mode, \<open>k\<close> being 0 and 1: in the bank while another mode runs.\<close>

definition load_user :: "Devices \<Rightarrow> u32 \<Rightarrow> nat \<Rightarrow> u32 \<Rightarrow> ARMul_State \<Rightarrow> (u32 \<times> ARMul_State) option" where
  "load_user D inst k addr cpu =
     (if BIT inst (13 + k) \<noteq> 0
      then do {
        (v, cpu1) \<leftarrow> ReadMemory32 D cpu addr;
        Some (addr + 4, if Mode cpu1 = USER32MODE then set_reg (13 + k) v cpu1
                        else cpu1\<lparr>Reg_usr := (Reg_usr cpu1)(k := v)\<rparr>) }
      else Some (addr, cpu))"

definition LDM_INST :: ldst_label where
  "LDM_INST D c inst ga cpu = when_passed c cpu (do {
     (addr, cpu1) \<leftarrow> get_addr ga inst cpu;
     if BIT inst 22 \<noteq> 0 \<and> BIT inst 15 = 0
     then do {
       (addr, cpu2) \<leftarrow> load_list D inst [0..<13] addr cpu1;
       (addr, cpu3) \<leftarrow> load_user D inst 0 addr cpu2;
       (addr, cpu4) \<leftarrow> load_user D inst 1 addr cpu3;
       Some (Next (advance cpu4)) }
     else if BIT inst 22 = 0
     then do {
       (addr, cpu2) \<leftarrow> load_list D inst [0..<15] addr cpu1;
       if BIT inst 15 \<noteq> 0
       then do {
         (ret, cpu3) \<leftarrow> ReadMemory32 D cpu2 addr;
         Some (Dispatch (set_reg 15 (ret AND 0xFFFFFFFE) (cpu3\<lparr>TFlag := ret AND 1\<rparr>))) }
       else Some (Next (advance cpu2)) }
     else do {
       (addr, cpu2) \<leftarrow> load_list D inst [0..<15] addr cpu1;
       (pc, cpu3) \<leftarrow> ReadMemory32 D
         (if CurrentModeHasSPSR cpu2
          then LOAD_NZCVT (ChangePrivilegeMode (Spsr_copy cpu2 AND 0x1F) (cpu2\<lparr>Cpsr := Spsr_copy cpu2\<rparr>))
          else cpu2) addr;
       Some (Dispatch (set_reg 15 pc cpu3)) } })"

text \<open>\<open>value i\<close> is what is stored for register \<open>i\<close>.\<close>

fun store_list ::
  "Devices \<Rightarrow> u32 \<Rightarrow> (nat \<Rightarrow> ARMul_State \<Rightarrow> u32) \<Rightarrow> nat list \<Rightarrow> u32 \<Rightarrow> ARMul_State \<Rightarrow>
   (u32 \<times> ARMul_State) option" where
  "store_list D inst value [] addr cpu = Some (addr, cpu)"
| "store_list D inst value (i # is) addr cpu =
     (if BIT inst i \<noteq> 0
      then do { cpu1 \<leftarrow> WriteMemory32 D addr (value i cpu) cpu; store_list D inst value is (addr + 4) cpu1 }
      else store_list D inst value is addr cpu)"

definition user_value :: "nat \<Rightarrow> ARMul_State \<Rightarrow> u32" where
  "user_value i cpu =
     (if i < 13 \<or> Mode cpu = USER32MODE then Reg cpu i else Reg_usr cpu (i - 13))"

definition store_pc :: "Devices \<Rightarrow> u32 \<Rightarrow> u32 \<Rightarrow> ARMul_State \<Rightarrow> ARMul_State option" where
  "store_pc D inst addr cpu =
     (if BIT inst 15 \<noteq> 0 then WriteMemory32 D addr (Reg cpu 15 + 8) cpu else Some cpu)"

definition STM_INST :: ldst_label where
  "STM_INST D c inst ga cpu = when_passed c cpu (do {
     let Rn = reg_field inst 16;
     let old_RN = Reg cpu Rn;
     (addr, cpu1) \<leftarrow> get_addr ga inst cpu;
     (addr, cpu2) \<leftarrow> store_list D inst
       (if BIT inst 22 = 1 then user_value
        else (\<lambda>i cpu. if i = Rn then old_RN else Reg cpu i)) [0..<15] addr cpu1;
     cpu3 \<leftarrow> store_pc D inst addr cpu2;
     Some (Next (advance cpu3)) })"

section \<open>Returning from an exception\<close>

definition RFE_INST :: "Devices \<Rightarrow> u32 \<Rightarrow> get_addr_fp_t option \<Rightarrow> ARMul_State \<Rightarrow> outcome option" where
  "RFE_INST D inst ga cpu = do {
     (address, cpu1) \<leftarrow> get_addr ga inst cpu;
     (psr, cpu2) \<leftarrow> ReadMemory32 D cpu1 address;
     (pc, cpu3) \<leftarrow> ReadMemory32 D (cpu2\<lparr>Cpsr := psr\<rparr>) (address + 4);
     Some (Dispatch (set_reg 15 pc cpu3)) }"

definition SRS_INST :: "Devices \<Rightarrow> u32 \<Rightarrow> get_addr_fp_t option \<Rightarrow> ARMul_State \<Rightarrow> outcome option" where
  "SRS_INST D inst ga cpu = do {
     (address, cpu1) \<leftarrow> get_addr ga inst cpu;
     cpu2 \<leftarrow> WriteMemory32 D address (Reg cpu1 14) cpu1;
     cpu3 \<leftarrow> WriteMemory32 D (address + 4) (Spsr_copy cpu2) cpu2;
     Some (Next (advance cpu3)) }"

end
