(* ===== verification/ArmLabels.thy ===== *)
theory ArmLabels imports ArmDecode ArmMedia ArmMemory begin

text \<open>
  The table of labels of src/core/arm/dyncom/arm_dyncom_interpreter.cpp, \<open>InstLabel\<close>. A label
  casts the component of the instruction to the structure it reads: \<open>on_...\<close> is that cast, and a
  component of another structure is \<open>None\<close>. Several entries of the table name one label, and labels
  that stand before one body share its definition. The first 32 entries are the floating point
  labels, a parameter here.
\<close>

section \<open>Casts\<close>

type_synonym executor = "Devices \<Rightarrow> u32 \<Rightarrow> component \<Rightarrow> ARMul_State \<Rightarrow> outcome option"

definition on_data :: "data_label \<Rightarrow> executor" where
  "on_data f D c s cpu = (case s of data_inst I S Rn Rd so sf \<Rightarrow> f c I S Rn Rd so sf cpu | _ \<Rightarrow> None)"

definition on_cmp :: "cmp_label \<Rightarrow> executor" where
  "on_cmp f D c s cpu = (case s of cmp_inst I Rn so sf \<Rightarrow> f c I Rn so sf cpu | _ \<Rightarrow> None)"

definition on_mov :: "mov_label \<Rightarrow> executor" where
  "on_mov f D c s cpu = (case s of mov_inst I S Rd so sf \<Rightarrow> f c I S Rd so sf cpu | _ \<Rightarrow> None)"

definition on_ldst :: "ldst_label \<Rightarrow> executor" where
  "on_ldst f D c s cpu = (case s of ldst_inst inst ga \<Rightarrow> f D c inst ga cpu | _ \<Rightarrow> None)"

definition on_exception :: "(Devices \<Rightarrow> u32 \<Rightarrow> get_addr_fp_t option \<Rightarrow> ARMul_State \<Rightarrow> outcome option) \<Rightarrow> executor" where
  "on_exception f D c s cpu = (case s of ldst_inst inst ga \<Rightarrow> f D inst ga cpu | _ \<Rightarrow> None)"

definition on_generic :: "generic_label \<Rightarrow> executor" where
  "on_generic f D c s cpu = (case s of generic_arm_inst Ra Rm Rn Rd op1 op2 \<Rightarrow> f c Ra Rm Rn Rd op1 op2 cpu | _ \<Rightarrow> None)"

definition on_exclusive :: "exclusive_label \<Rightarrow> executor" where
  "on_exclusive f D c s cpu = (case s of generic_arm_inst Ra Rm Rn Rd op1 op2 \<Rightarrow> f D c Rm Rn Rd cpu | _ \<Rightarrow> None)"

definition on_bbl :: executor where
  "on_bbl D c s cpu = (case s of bbl_inst L imm \<Rightarrow> BBL_INST c L imm cpu | _ \<Rightarrow> None)"

definition on_bx :: executor where
  "on_bx D c s cpu = (case s of bx_inst Rm \<Rightarrow> BX_INST c Rm cpu | _ \<Rightarrow> None)"

definition on_blx :: executor where
  "on_blx D c s cpu = (case s of blx_inst val inst \<Rightarrow> BLX_INST c val inst cpu | _ \<Rightarrow> None)"

definition on_clz :: executor where
  "on_clz D c s cpu = (case s of clz_inst Rm Rd \<Rightarrow> CLZ_INST c Rm Rd cpu | _ \<Rightarrow> None)"

definition on_cps :: executor where
  "on_cps D c s cpu = (case s of cps_inst imod0 imod1 mmod A I F mode \<Rightarrow> CPS_INST imod0 imod1 mmod A I F mode cpu | _ \<Rightarrow> None)"

definition on_cp :: "(u32 \<Rightarrow> u32 \<Rightarrow> u32 \<Rightarrow> u32 \<Rightarrow> u32 \<Rightarrow> u32 \<Rightarrow> nat \<Rightarrow> u32 \<Rightarrow> ARMul_State \<Rightarrow> outcome option) \<Rightarrow> executor" where
  "on_cp f D c s cpu = (case s of cp_inst op1 op2 cp crn crm Rd inst \<Rightarrow> f c op1 op2 cp crn crm Rd inst cpu | _ \<Rightarrow> None)"

definition on_mla :: executor where
  "on_mla D c s cpu = (case s of mla_inst S Rn Rd Rs Rm \<Rightarrow> MLA_INST c S Rn Rd Rs Rm cpu | _ \<Rightarrow> None)"

definition on_mul :: executor where
  "on_mul D c s cpu = (case s of mul_inst S Rd Rs Rm \<Rightarrow> MUL_INST c S Rd Rs Rm cpu | _ \<Rightarrow> None)"

definition on_mrs :: executor where
  "on_mrs D c s cpu = (case s of mrs_inst R Rd \<Rightarrow> MRS_INST c R Rd cpu | _ \<Rightarrow> None)"

definition on_msr :: executor where
  "on_msr D c s cpu = (case s of msr_inst field_mask R inst \<Rightarrow> MSR_INST c field_mask R inst cpu | _ \<Rightarrow> None)"

definition on_pkh :: "(u32 \<Rightarrow> nat \<Rightarrow> nat \<Rightarrow> nat \<Rightarrow> nat \<Rightarrow> ARMul_State \<Rightarrow> outcome option) \<Rightarrow> executor" where
  "on_pkh f D c s cpu = (case s of pkh_inst Rm Rn Rd imm \<Rightarrow> f c Rm Rn Rd imm cpu | _ \<Rightarrow> None)"

definition on_rev :: executor where
  "on_rev D c s cpu = (case s of rev_inst Rd Rm op1 op2 \<Rightarrow> REV_INST c Rd Rm op1 op2 cpu | _ \<Rightarrow> None)"

definition on_setend :: executor where
  "on_setend D c s cpu = (case s of setend_inst e \<Rightarrow> SETEND_INST e cpu | _ \<Rightarrow> None)"

definition on_smla :: executor where
  "on_smla D c s cpu = (case s of smla_inst x y Rm Rd Rs Rn \<Rightarrow> SMLA_INST c x y Rm Rd Rs Rn cpu | _ \<Rightarrow> None)"

definition on_smlad :: "smlad_label \<Rightarrow> executor" where
  "on_smlad f D c s cpu = (case s of smlad_inst m Rm Rd Ra Rn op1 op2 \<Rightarrow> f c m Rm Rd Ra Rn op1 op2 cpu | _ \<Rightarrow> None)"

definition on_smlalxy :: executor where
  "on_smlalxy D c s cpu = (case s of smlalxy_inst x y RdLo RdHi Rm Rn \<Rightarrow> SMLALXY_INST c x y RdLo RdHi Rm Rn cpu | _ \<Rightarrow> None)"

definition on_smlald :: executor where
  "on_smlald D c s cpu = (case s of smlald_inst RdLo RdHi Rm Rn swap op1 op2 \<Rightarrow> SMLALD_INST c RdLo RdHi Rm Rn swap op1 op2 cpu | _ \<Rightarrow> None)"

definition on_smul :: executor where
  "on_smul D c s cpu = (case s of smul_inst Rd Rs Rm x y \<Rightarrow> SMUL_INST c Rd Rs Rm x y cpu | _ \<Rightarrow> None)"

definition on_umull :: "umull_label \<Rightarrow> executor" where
  "on_umull f D c s cpu = (case s of umull_inst S Rm Rs RdHi RdLo \<Rightarrow> f c S Rm Rs RdHi RdLo cpu | _ \<Rightarrow> None)"

definition on_umaal :: executor where
  "on_umaal D c s cpu = (case s of umaal_inst Rn Rm RdHi RdLo \<Rightarrow> UMAAL_INST c Rn Rm RdHi RdLo cpu | _ \<Rightarrow> None)"

definition on_ssat :: "sat_label \<Rightarrow> executor" where
  "on_ssat f D c s cpu = (case s of ssat_inst Rn Rd imm5 sat_imm shift_type \<Rightarrow> f c Rn Rd imm5 sat_imm shift_type cpu | _ \<Rightarrow> None)"

definition on_swi :: executor where
  "on_swi D c s cpu = (case s of swi_inst num \<Rightarrow> SWI_INST c num cpu | _ \<Rightarrow> None)"

definition on_swp :: "(Devices \<Rightarrow> u32 \<Rightarrow> nat \<Rightarrow> nat \<Rightarrow> nat \<Rightarrow> ARMul_State \<Rightarrow> outcome option) \<Rightarrow> executor" where
  "on_swp f D c s cpu = (case s of swp_inst Rn Rd Rm \<Rightarrow> f D c Rn Rd Rm cpu | _ \<Rightarrow> None)"

definition on_extend :: "extend_label \<Rightarrow> executor" where
  "on_extend f D c s cpu = (case s of extend_inst Rd Rm rot \<Rightarrow> f c Rd Rm rot cpu | _ \<Rightarrow> None)"

definition on_extend_add :: "extend_add_label \<Rightarrow> executor" where
  "on_extend_add f D c s cpu = (case s of extend_add_inst Rd Rn Rm rot \<Rightarrow> f c Rd Rn Rm rot cpu | _ \<Rightarrow> None)"

definition on_thumb :: "(u32 \<Rightarrow> ARMul_State \<Rightarrow> outcome option) \<Rightarrow> executor" where
  "on_thumb f D c s cpu = (case s of bl_thumb imm \<Rightarrow> f imm cpu | _ \<Rightarrow> None)"

definition on_thumb_cond :: executor where
  "on_thumb_cond D c s cpu = (case s of b_cond_thumb imm cc \<Rightarrow> B_COND_THUMB imm cc cpu | _ \<Rightarrow> None)"

text \<open>Labels that read no structure.\<close>

definition on_clrex :: executor where "on_clrex D c s cpu = CLREX_INST cpu"
definition on_cdp :: executor where "on_cdp D c s cpu = CDP_INST c cpu"
definition on_nop :: executor where "on_nop D c s cpu = NOP_INST cpu"

section \<open>The table\<close>

definition InstLabel :: "(nat \<Rightarrow> executor) \<Rightarrow> executor list" where
  "InstLabel vfp = map vfp [0..<32] @ [
      on_exception SRS_INST, on_exception RFE_INST, on_nop, on_blx, on_cps, on_nop, on_setend,
      on_clrex, on_rev, on_generic USAD8_INST, on_extend SXTB_INST, on_extend UXTB_INST,
      on_extend SXTH_INST, on_extend_add SXTAB16_INST, on_extend UXTH_INST,
      on_extend_add UXTAB16_INST, on_mov CPY_INST, on_extend_add UXTAB_INST,
      on_generic SADD8_INST, on_generic SHADD8_INST, on_generic SADD8_INST,
      on_exclusive STREX_INST, on_exclusive STREXB_INST, on_swp SWP_INST, on_swp SWPB_INST,
      on_generic SADD8_INST, on_ssat SSAT16_INST, on_generic SHADD8_INST, on_generic QADD8_INST,
      on_generic SHADD8_INST, on_generic SHADD8_INST, on_generic SHADD8_INST, on_generic SEL_INST,
      on_generic SADD8_INST, on_generic SADD8_INST, on_generic SADD8_INST, on_generic SHADD8_INST,
      on_umaal, on_extend_add UXTAB16_INST, on_generic UADD8_INST, on_generic UADD8_INST,
      on_generic UADD8_INST, on_ssat USAT16_INST, on_generic USAD8_INST, on_generic UQADD8_INST,
      on_generic UQADD8_INST, on_generic UQADD8_INST, on_generic UQADD8_INST,
      on_generic UQADD8_INST, on_generic UQADD8_INST, on_extend_add SXTAB_INST,
      on_generic UHADD8_INST, on_generic UHADD8_INST, on_generic UHADD8_INST,
      on_generic UHADD8_INST, on_generic UHADD8_INST, on_generic UHADD8_INST,
      on_generic UADD8_INST, on_generic UADD8_INST, on_generic UADD8_INST,
      on_extend_add SXTAH_INST, on_extend_add SXTAB16_INST, on_generic QADD8_INST, on_bx, on_clz,
      on_extend_add UXTAH_INST, on_bx, on_rev, on_blx, on_rev, on_generic QADD_INST,
      on_generic QADD8_INST, on_generic QADD8_INST, on_exclusive LDREX_INST, on_generic QADD_INST,
      on_generic QADD_INST, on_generic QADD_INST, on_exclusive LDREXB_INST, on_generic QADD8_INST,
      on_generic QADD8_INST, on_smlad SMLAD_INST, on_smlad SMMLA_INST, on_smlad SMLAD_INST,
      on_smlad SMLAD_INST, on_smlald, on_smlad SMMLA_INST, on_smlad SMMLA_INST, on_smlald,
      on_smlad SMLAD_INST, on_smlad SMLAW_INST, on_smlad SMULW_INST, on_pkh PKHTB_INST,
      on_pkh PKHBT_INST, on_smul, on_smlalxy, on_smla, on_nop, on_nop, on_cmp CMP_INST,
      on_data TST_INST, on_cmp TEQ_INST, on_cmp CMN_INST, on_umull SMULL_INST,
      on_umull UMULL_INST, on_umull UMLAL_INST, on_umull SMLAL_INST, on_mul, on_mla,
      on_ssat SSAT_INST, on_ssat USAT_INST, on_mrs, on_msr, on_data AND_INST, on_data BIC_INST,
      on_ldst LDM_INST, on_data EOR_INST, on_data ADD_INST, on_data RSB_INST, on_data RSC_INST,
      on_data SBC_INST, on_data ADC_INST, on_data SUB_INST, on_data ORR_INST, on_mov MVN_INST,
      on_mov MOV_INST, on_ldst STM_INST, on_ldst LDM_INST, on_ldst LDRSH_INST, on_ldst STM_INST,
      on_ldst LDM_INST, on_ldst LDRSB_INST, on_ldst STRD_INST, on_ldst LDRH_INST,
      on_ldst STRH_INST, on_ldst LDRD_INST, on_ldst STRT_INST, on_ldst STRBT_INST,
      on_ldst LDRBT_INST, on_ldst LDRT_INST, on_cp MRC_INST, on_cp MCR_INST, on_msr, on_msr,
      on_msr, on_msr, on_msr, on_ldst LDRB_INST, on_ldst STRB_INST, on_ldst LDR_INST,
      on_ldst LDRCOND_INST, on_ldst STR_INST, on_cdp, on_nop, on_nop, on_exclusive LDREXD_INST,
      on_exclusive STREXD_INST, on_exclusive LDREXH_INST, on_exclusive STREXH_INST, on_nop,
      on_nop, on_nop, on_nop, on_nop, on_swi, on_bbl, on_thumb B_2_THUMB, on_thumb_cond,
      on_thumb BL_1_THUMB, on_thumb BL_2_THUMB, on_thumb BLX_1_THUMB]"

text \<open>The jump through the table, and the body of the label.\<close>

definition execute :: "(nat \<Rightarrow> executor) \<Rightarrow> Devices \<Rightarrow> arm_inst \<Rightarrow> ARMul_State \<Rightarrow> outcome option" where
  "execute vfp D inst cpu =
     (if idx inst < length (InstLabel vfp)
      then (InstLabel vfp ! idx inst) D (cond inst) (component inst) cpu else None)"

text \<open>The translator the table has for an entry.\<close>

definition arm_instruction_of :: "nat \<Rightarrow> u32 \<Rightarrow> arm_inst" where
  "arm_instruction_of index inst = (arm_instruction_trans ! index) inst index"

end
