(* ===== verification/ArmThumb.thy ===== *)
theory ArmThumb imports ArmSupp begin

text \<open>
  The Thumb translator, src/core/arm/dyncom/arm_dyncom_thumb.cpp and arm_dyncom_thumb.h: a 16-bit
  Thumb instruction becomes the 32-bit ARM instruction that does the same, except for the branches,
  which have translators of their own. The groups below are the cases of the switch on the top five
  bits. An instruction the switch refuses leaves the placeholder \<open>0xDEADC0DE\<close>.
\<close>

datatype ThumbDecodeStatus = UNDEFINED | DECODED | BRANCH | UNINITIALIZED

definition GetThumbInstruction :: "u32 \<Rightarrow> u32 \<Rightarrow> u32" where
  "GetThumbInstruction instr address =
     (if address AND 0x3 \<noteq> 0 then drop_bit 16 instr else instr AND 0xFFFF)"

section \<open>Arithmetic\<close>

definition thumb_shift :: "u32 \<Rightarrow> u32" where
  "thumb_shift tinstr =
     0xE1B00000 OR drop_bit (11 - 5) (tinstr AND 0x1800) OR push_bit (7 - 6) (tinstr AND 0x07C0)
     OR drop_bit 3 (tinstr AND 0x0038) OR push_bit 12 (tinstr AND 0x0007)"

definition thumb_add_sub :: "u32 \<Rightarrow> u32" where
  "thumb_add_sub tinstr =
     [0xE0900000, 0xE0500000, 0xE2900000, 0xE2500000] ! unat (drop_bit 9 (tinstr AND 0x0600))
     OR drop_bit 6 (tinstr AND 0x01C0) OR push_bit (16 - 3) (tinstr AND 0x0038)
     OR push_bit (12 - 0) (tinstr AND 0x0007)"

definition thumb_immediate :: "u32 \<Rightarrow> u32" where
  "thumb_immediate tinstr =
     [0xE3B00000, 0xE3500000, 0xE2900000, 0xE2500000] ! unat (drop_bit 11 (tinstr AND 0x1800))
     OR drop_bit 0 (tinstr AND 0x00FF) OR push_bit (16 - 8) (tinstr AND 0x0700)
     OR push_bit (12 - 8) (tinstr AND 0x0700)"

datatype otype = t_norm | t_shift | t_neg | t_mul

definition thumb_alu_subset :: "(u32 \<times> otype) list" where
  "thumb_alu_subset =
     [(0xE0100000, t_norm), (0xE0300000, t_norm), (0xE1B00010, t_shift), (0xE1B00030, t_shift),
      (0xE1B00050, t_shift), (0xE0B00000, t_norm), (0xE0D00000, t_norm), (0xE1B00070, t_shift),
      (0xE1100000, t_norm), (0xE2700000, t_neg), (0xE1500000, t_norm), (0xE1700000, t_norm),
      (0xE1900000, t_norm), (0xE0100090, t_mul), (0xE1D00000, t_norm), (0xE1F00000, t_norm)]"

definition thumb_alu :: "u32 \<Rightarrow> u32" where
  "thumb_alu tinstr =
     (let (opcode, type) = thumb_alu_subset ! unat (drop_bit 6 (tinstr AND 0x03C0))
      in opcode OR
        (case type of
           t_norm \<Rightarrow> push_bit 16 (tinstr AND 0x0007) OR push_bit 12 (tinstr AND 0x0007)
             OR drop_bit 3 (tinstr AND 0x0038)
         | t_shift \<Rightarrow> push_bit 12 (tinstr AND 0x0007) OR drop_bit 0 (tinstr AND 0x0007)
             OR push_bit (8 - 3) (tinstr AND 0x0038)
         | t_neg \<Rightarrow> push_bit 12 (tinstr AND 0x0007) OR push_bit (16 - 3) (tinstr AND 0x0038)
         | t_mul \<Rightarrow> push_bit 16 (tinstr AND 0x0007) OR push_bit 8 (tinstr AND 0x0007)
             OR drop_bit 3 (tinstr AND 0x0038)))"

definition thumb_high :: "u32 \<Rightarrow> u32" where
  "thumb_high tinstr =
     (let Rs = drop_bit 3 (tinstr AND 0x0078);
          Rd = drop_bit 0 (tinstr AND 0x0007) + (if tinstr AND push_bit 7 1 \<noteq> 0 then 8 else 0);
          op = drop_bit 6 (tinstr AND 0x03C0)
      in if op < 0x4 then 0xE0800000 OR push_bit 16 Rd OR push_bit 12 Rd OR push_bit 0 Rs
         else if op < 0x8 then 0xE1500000 OR push_bit 16 Rd OR push_bit 0 Rs
         else if op < 0xC then 0xE1A00000 OR push_bit 12 Rd OR push_bit 0 Rs
         else if op < 0xE then 0xE12FFF10 OR drop_bit 3 (tinstr AND 0x0078)
         else 0xE1200030 OR push_bit 0 Rs)"

section \<open>Loads and stores\<close>

definition thumb_ldr_pc :: "u32 \<Rightarrow> u32" where
  "thumb_ldr_pc tinstr =
     0xE59F0000 OR push_bit (12 - 8) (tinstr AND 0x0700) OR push_bit (2 - 0) (tinstr AND 0x00FF)"

definition thumb_ldst_register :: "u32 \<Rightarrow> u32" where
  "thumb_ldst_register tinstr =
     [0xE7800000, 0xE18000B0, 0xE7C00000, 0xE19000D0, 0xE7900000, 0xE19000B0, 0xE7D00000, 0xE19000F0]
       ! unat (drop_bit 9 (tinstr AND 0xE00))
     OR push_bit (12 - 0) (tinstr AND 0x0007) OR push_bit (16 - 3) (tinstr AND 0x0038)
     OR drop_bit 6 (tinstr AND 0x01C0)"

definition thumb_ldst_immediate :: "u32 \<Rightarrow> u32" where
  "thumb_ldst_immediate tinstr =
     [0xE5800000, 0xE5900000, 0xE5C00000, 0xE5D00000] ! unat (drop_bit 11 (tinstr AND 0x1800))
     OR push_bit (12 - 0) (tinstr AND 0x0007) OR push_bit (16 - 3) (tinstr AND 0x0038)
     OR drop_bit (6 - (if tinstr AND push_bit 12 1 \<noteq> 0 then 0 else 2)) (tinstr AND 0x07C0)"

definition thumb_ldst_half :: "u32 \<Rightarrow> u32" where
  "thumb_ldst_half tinstr =
     (if tinstr AND push_bit 11 1 \<noteq> 0 then 0xE1D000B0 else 0xE1C000B0)
     OR push_bit (12 - 0) (tinstr AND 0x0007) OR push_bit (16 - 3) (tinstr AND 0x0038)
     OR drop_bit (6 - 1) (tinstr AND 0x01C0) OR drop_bit (9 - 8) (tinstr AND 0x0600)"

definition thumb_ldst_sp :: "u32 \<Rightarrow> u32" where
  "thumb_ldst_sp tinstr =
     (if tinstr AND push_bit 11 1 \<noteq> 0 then 0xE59D0000 else 0xE58D0000)
     OR push_bit (12 - 8) (tinstr AND 0x0700) OR push_bit 2 (tinstr AND 0x00FF)"

definition thumb_add_pc_sp :: "u32 \<Rightarrow> u32" where
  "thumb_add_pc_sp tinstr =
     (if tinstr AND push_bit 11 1 = 0 then 0xE28F0F00 else 0xE28D0F00)
     OR push_bit (12 - 8) (tinstr AND 0x0700) OR (tinstr AND 0x00FF)"

section \<open>Miscellaneous\<close>

definition thumb_push_pop :: "u32 \<Rightarrow> u32" where
  "thumb_push_pop tinstr =
     [0xE92D0000, 0xE92D4000, 0xE8BD0000, 0xE8BD8000]
       ! unat (drop_bit 10 (tinstr AND push_bit 11 1) OR drop_bit 8 (tinstr AND push_bit 8 1))
     OR (tinstr AND 0x00FF)"

definition thumb_misc :: "u32 \<Rightarrow> ThumbDecodeStatus \<times> u32" where
  "thumb_misc tinstr =
     (let op = tinstr AND 0x0F00
      in if op = 0x0000
         then (UNINITIALIZED, (if tinstr AND push_bit 7 1 \<noteq> 0 then 0xE24DDF00 else 0xE28DDF00)
           OR (tinstr AND 0x007F))
         else if op = 0x0e00
         then (UNINITIALIZED, 0xEF000000 OR BITS tinstr 0 3 OR push_bit 8 (BITS tinstr 4 7))
         else if op = 0x0200
         then (UNINITIALIZED,
           [0xE6BF0070, 0xE6AF0070, 0xE6FF0070, 0xE6EF0070] ! unat (BITS tinstr 6 7)
           OR push_bit 12 (BITS tinstr 0 2) OR BITS tinstr 3 5)
         else if op = 0x0600
         then if BIT tinstr 5 = 0
           then (UNINITIALIZED, 0xF1010000 OR push_bit 9 (BIT tinstr 3))
           else (UNINITIALIZED, 0xF1080000 OR push_bit 6 (BIT tinstr 0) OR push_bit 7 (BIT tinstr 1)
             OR push_bit 8 (BIT tinstr 2) OR push_bit 18 (BIT tinstr 4))
         else if op = 0x0a00
         then if BITS tinstr 6 7 = 2 then (UNDEFINED, 0xDEADC0DE)
           else (UNINITIALIZED,
             [0xE6BF0F30, 0xE6BF0FB0, 0, 0xE6FF0FB0] ! unat (BITS tinstr 6 7)
             OR push_bit 12 (BITS tinstr 0 2) OR BITS tinstr 3 5)
         else (UNINITIALIZED, thumb_push_pop tinstr))"

definition thumb_ldst_multiple :: "u32 \<Rightarrow> u32" where
  "thumb_ldst_multiple tinstr =
     (if tinstr AND push_bit 11 1 \<noteq> 0
      then let rn = BITS tinstr 8 10;
               base = 0xE8900000 OR (if tinstr AND push_bit (unat rn) 1 = 0 then push_bit 21 1 else 0)
           in base OR push_bit 16 rn OR (tinstr AND 0x00FF)
      else 0xE8A00000 OR push_bit 16 (BITS tinstr 8 10) OR (tinstr AND 0x00FF))"

definition thumb_swi :: "u32 \<Rightarrow> u32" where
  "thumb_swi tinstr =
     0xEF000000 OR
     (if tinstr AND 0x00FF = 0x18 then push_bit 16 (tinstr AND 0x00FF)
      else if tinstr AND 0x00FF = 0xFE then 0x180000
      else tinstr AND 0x00FF)"

section \<open>The translator\<close>

text \<open>The result is the status, the ARM instruction and the size of what was translated.\<close>

definition TranslateThumbInstruction :: "u32 \<Rightarrow> u32 \<Rightarrow> ThumbDecodeStatus \<times> u32 \<times> u32" where
  "TranslateThumbInstruction addr instr =
     (let tinstr = GetThumbInstruction instr addr;
          op = unat (drop_bit 11 (tinstr AND 0xF800));
          (valid, ainstr) =
            (if op \<le> 2 then (UNINITIALIZED, thumb_shift tinstr)
             else if op = 3 then (UNINITIALIZED, thumb_add_sub tinstr)
             else if op \<le> 7 then (UNINITIALIZED, thumb_immediate tinstr)
             else if op = 8
             then (UNINITIALIZED,
               if tinstr AND push_bit 10 1 = 0 then thumb_alu tinstr else thumb_high tinstr)
             else if op = 9 then (UNINITIALIZED, thumb_ldr_pc tinstr)
             else if op \<le> 11 then (UNINITIALIZED, thumb_ldst_register tinstr)
             else if op \<le> 15 then (UNINITIALIZED, thumb_ldst_immediate tinstr)
             else if op \<le> 17 then (UNINITIALIZED, thumb_ldst_half tinstr)
             else if op \<le> 19 then (UNINITIALIZED, thumb_ldst_sp tinstr)
             else if op \<le> 21 then (UNINITIALIZED, thumb_add_pc_sp tinstr)
             else if op \<le> 23 then thumb_misc tinstr
             else if op \<le> 25 then (UNINITIALIZED, thumb_ldst_multiple tinstr)
             else if op \<le> 27
             then if tinstr AND 0x0F00 = 0x0F00 then (UNINITIALIZED, thumb_swi tinstr)
               else if tinstr AND 0x0F00 \<noteq> 0x0E00 then (BRANCH, 0xDEADC0DE)
               else (UNDEFINED, 0xDEADC0DE)
             else if op = 28 then (BRANCH, 0xDEADC0DE)
             else if op = 29
             then if tinstr AND 0x1 \<noteq> 0 then (UNDEFINED, 0xDEADC0DE) else (BRANCH, 0xDEADC0DE)
             else (BRANCH, 0xDEADC0DE))
      in (valid, ainstr, 2))"

end
