(* ===== verification/ArmLoop.thy ===== *)
theory ArmLoop imports ArmLabels ArmThumb CoreTiming begin

text \<open>
  The interpreter of an ARM core: translation of instructions and blocks and the main loop of
  src/core/arm/dyncom/arm_dyncom_interpreter.cpp, and the core's interface, arm_dyncom.cpp. The
  buffer of translated instructions is not a buffer here: a block is the list of its
  instructions, and the loop holds the instructions that follow the current one. No debugger is
  attached. The loop runs one step per jump, and a run is bounded by a number of steps
  (\<open>Running\<close> when it is used up); \<open>Crashed\<close> is the end of the host.
\<close>

section \<open>Translation\<close>

text \<open>
  The last entries of the translation table are the Thumb branches. The result is the status, the
  ARM instruction, the size, and the translated branch if there is one.
\<close>

definition DecodeThumbInstruction ::
  "u32 \<Rightarrow> u32 \<Rightarrow> ThumbDecodeStatus \<times> u32 \<times> u32 \<times> arm_inst option" where
  "DecodeThumbInstruction inst addr =
     (let (ret, ainstr, inst_size) = TranslateThumbInstruction addr inst;
          tinstr = GetThumbInstruction inst addr;
          op = drop_bit 11 (tinstr AND 0xF800);
          branch = (\<lambda>k. Some (arm_instruction_of (length arm_instruction_trans - k) tinstr))
      in if ret = BRANCH
         then if op = 26 \<or> op = 27
              then (ret, ainstr, inst_size,
                if tinstr AND 0x0F00 \<noteq> 0x0E00 \<and> tinstr AND 0x0F00 \<noteq> 0x0F00 then branch 4 else None)
              else if op = 28 then (ret, ainstr, inst_size, branch 5)
              else if op = 8 \<or> op = 29 then (ret, ainstr, inst_size, branch 1)
              else if op = 30 then (ret, ainstr, inst_size, branch 3)
              else if op = 31 then (ret, ainstr, inst_size, branch 2)
              else (UNDEFINED, ainstr, inst_size, None)
         else (ret, ainstr, inst_size, None))"

text \<open>
  One instruction and its size. A word no entry of the table matches is logged, and the translator
  is then taken from the table at an index that was never set: \<open>None\<close>.
\<close>

definition InterpreterTranslateInstruction ::
  "Devices \<Rightarrow> u32 \<Rightarrow> ARMul_State \<Rightarrow> ((arm_inst \<times> u32) \<times> ARMul_State) option" where
  "InterpreterTranslateInstruction D phys_addr cpu = do {
     (inst, m) \<leftarrow> Read32 D (memory cpu) (phys_addr AND 0xFFFFFFFC);
     let cpu1 = cpu\<lparr>memory := m\<rparr>;
     let (state, ainst, inst_size, base) =
       (if TFlag cpu \<noteq> 0 then DecodeThumbInstruction inst phys_addr else (UNDEFINED, inst, 4, None));
     if state = BRANCH
     then map_option (\<lambda>b. ((b, inst_size), cpu1)) base
     else do { i \<leftarrow> DecodeARMInstruction ainst; Some ((arm_instruction_of i ainst, inst_size), cpu1) } }"

datatype 'a ran = Done 'a | Crashed | Running

text \<open>A block ends with the first instruction that branches, or at the end of a page.\<close>

fun translate_block :: "nat \<Rightarrow> Devices \<Rightarrow> u32 \<Rightarrow> ARMul_State \<Rightarrow> (arm_inst list \<times> ARMul_State) ran" where
  "translate_block 0 D phys_addr cpu = Running"
| "translate_block (Suc n) D phys_addr cpu =
     (case InterpreterTranslateInstruction D phys_addr cpu of
        None \<Rightarrow> Crashed
      | Some ((inst_base, inst_size), cpu1) \<Rightarrow>
          let phys_addr1 = phys_addr + inst_size;
              inst1 = (if phys_addr1 AND 0xfff = 0 then inst_base\<lparr>br := END_OF_PAGE\<rparr> else inst_base)
          in if br inst1 = NON_BRANCH
             then (case translate_block n D phys_addr1 cpu1 of
                Done (block, cpu2) \<Rightarrow> Done (inst1 # block, cpu2)
              | Crashed \<Rightarrow> Crashed
              | Running \<Rightarrow> Running)
             else Done ([inst1], cpu1))"

definition cache_block :: "u32 \<Rightarrow> arm_inst list \<Rightarrow> ARMul_State \<Rightarrow> ARMul_State" where
  "cache_block pc block cpu = cpu\<lparr>instruction_cache := (instruction_cache cpu)(pc \<mapsto> block)\<rparr>"

text \<open>A page holds at most 2048 instructions.\<close>

definition InterpreterTranslateBlock :: "Devices \<Rightarrow> u32 \<Rightarrow> ARMul_State \<Rightarrow> (arm_inst list \<times> ARMul_State) ran" where
  "InterpreterTranslateBlock D addr cpu =
     (case translate_block 2048 D addr cpu of
        Done (block, cpu1) \<Rightarrow> Done (block, cache_block (Reg cpu 15) block cpu1)
      | Crashed \<Rightarrow> Crashed
      | Running \<Rightarrow> Running)"

definition InterpreterTranslateSingle :: "Devices \<Rightarrow> u32 \<Rightarrow> ARMul_State \<Rightarrow> (arm_inst list \<times> ARMul_State) ran" where
  "InterpreterTranslateSingle D addr cpu =
     (case InterpreterTranslateInstruction D addr cpu of
        None \<Rightarrow> Crashed
      | Some ((inst_base, _), cpu1) \<Rightarrow>
          let block = [if br inst_base = NON_BRANCH then inst_base\<lparr>br := SINGLE_STEP\<rparr> else inst_base]
          in Done (block, cache_block (Reg cpu 15) block cpu1))"

section \<open>The main loop\<close>

text \<open>
  What the loop calls and this development does not model: the devices, the floating point labels,
  the scale of the timer, and the supervisor calls, which act on the kernel and on the core itself.
\<close>

record ('e, 'k) System =
  timer :: "'e Timer"
  kernel :: 'k

record ('e, 'k) Host =
  devices :: Devices
  vfp_label :: "nat \<Rightarrow> executor"
  tick_scale :: "u64 \<Rightarrow> u64"
  CallSVC :: "u32 \<Rightarrow> ('e, 'k) System \<Rightarrow> ARMul_State \<Rightarrow> (('e, 'k) System \<times> ARMul_State) option"

text \<open>Where the loop is: before a dispatch, or before \<open>GOTO_NEXT_INST\<close> with what the buffer holds.\<close>

datatype position = Dispatching | At "arm_inst list"

record ('e, 'k) Machine =
  core :: ARMul_State
  position :: position
  num_instrs :: u32
  sys :: "('e, 'k) System"

definition charge :: "(u64 \<Rightarrow> u64) \<Rightarrow> u32 \<Rightarrow> ('e, 'k) System \<Rightarrow> ('e, 'k) System" where
  "charge scale n s = s\<lparr>timer := AddTicks scale (ucast n) (timer s)\<rparr>"

definition END_label :: "ARMul_State \<Rightarrow> ARMul_State" where
  "END_label cpu = (SAVE_NZCVT cpu)\<lparr>NumInstrsToExecute := 0\<rparr>"

definition mask_pc :: "ARMul_State \<Rightarrow> ARMul_State" where
  "mask_pc cpu = set_reg 15 (Reg cpu 15 AND (if TFlag cpu \<noteq> 0 then 0xfffffffe else 0xfffffffc)) cpu"

definition find_block :: "Devices \<Rightarrow> ARMul_State \<Rightarrow> (arm_inst list \<times> ARMul_State) ran" where
  "find_block D cpu =
     (case instruction_cache cpu (Reg cpu 15) of
        Some block \<Rightarrow> Done (block, cpu)
      | None \<Rightarrow>
          if NumInstrsToExecute cpu \<noteq> 1 then InterpreterTranslateBlock D (Reg cpu 15) cpu
          else InterpreterTranslateSingle D (Reg cpu 15) cpu)"

definition update_T :: "ARMul_State \<Rightarrow> ARMul_State" where
  "update_T cpu = cpu\<lparr>Cpsr := (Cpsr cpu AND NOT (push_bit 5 1)) OR push_bit 5 (TFlag cpu)\<rparr>"

text \<open>The supervisor call charges what ran so far, and the rest of the budget starts from zero.\<close>

definition Supervisor_call :: "('e, 'k) Host \<Rightarrow> u32 \<Rightarrow> ('e, 'k) Machine \<Rightarrow> ('e, 'k) Machine option" where
  "Supervisor_call H num m = do {
     let cpu = core m;
     let left = (if NumInstrsToExecute cpu \<le> unat (num_instrs m) then 0
                 else NumInstrsToExecute cpu - unat (num_instrs m));
     (s, cpu1) \<leftarrow> CallSVC H num (charge (tick_scale H) (num_instrs m) (sys m))
                    (cpu\<lparr>NumInstrsToExecute := left\<rparr>);
     Some (m\<lparr>core := advance (UnsetExclusiveMemoryAddress cpu1), num_instrs := 0, sys := s\<rparr>) }"

text \<open>\<open>FETCH_INST\<close> behind an instruction: the next of the block, or a dispatch.\<close>

definition FETCH_INST :: "arm_inst \<Rightarrow> arm_inst list \<Rightarrow> position" where
  "FETCH_INST inst rest = (if br inst \<noteq> NON_BRANCH then Dispatching else At rest)"

text \<open>One step ends with another machine or, behind \<open>END\<close>, with the returned count.\<close>

definition dispatch_step :: "('e, 'k) Host \<Rightarrow> ('e, 'k) Machine \<Rightarrow> (('e, 'k) Machine + ('e, 'k) Machine) ran" where
  "dispatch_step H m =
     (let cpu = core m
      in if \<not> NirqSig cpu \<and> Cpsr cpu AND 0x80 = 0 then Done (Inr (m\<lparr>core := END_label cpu\<rparr>))
         else (case find_block (devices H) (mask_pc cpu) of
            Done (block, cpu1) \<Rightarrow> Done (Inl (m\<lparr>core := cpu1, position := At block\<rparr>))
          | Crashed \<Rightarrow> Crashed
          | Running \<Rightarrow> Running))"

definition finish_label ::
  "('e, 'k) Host \<Rightarrow> arm_inst \<Rightarrow> arm_inst list \<Rightarrow> outcome \<Rightarrow> ('e, 'k) Machine \<Rightarrow>
   (('e, 'k) Machine + ('e, 'k) Machine) ran" where
  "finish_label H inst rest out m =
     (case out of
        Next cpu \<Rightarrow> Done (Inl (m\<lparr>core := cpu, position := FETCH_INST inst rest\<rparr>))
      | Dispatch cpu \<Rightarrow> Done (Inl (m\<lparr>core := cpu, position := Dispatching\<rparr>))
      | Supervisor num cpu \<Rightarrow>
          (case Supervisor_call H num (m\<lparr>core := cpu\<rparr>) of
             None \<Rightarrow> Crashed
           | Some m1 \<Rightarrow> Done (Inl (m1\<lparr>position := FETCH_INST inst rest\<rparr>)))
      | Leave cpu \<Rightarrow> Done (Inr (m\<lparr>core := cpu\<rparr>)))"

definition inst_step ::
  "('e, 'k) Host \<Rightarrow> arm_inst list \<Rightarrow> ('e, 'k) Machine \<Rightarrow> (('e, 'k) Machine + ('e, 'k) Machine) ran" where
  "inst_step H insts m =
     (let cpu = update_T (core m)
      in if NumInstrsToExecute cpu \<le> unat (num_instrs m) then Done (Inr (m\<lparr>core := END_label cpu\<rparr>))
         else (case insts of
            [] \<Rightarrow> Crashed
          | inst # rest \<Rightarrow>
              (case execute (vfp_label H) (devices H) inst cpu of
                 None \<Rightarrow> Crashed
               | Some out \<Rightarrow> finish_label H inst rest out (m\<lparr>num_instrs := num_instrs m + 1\<rparr>))))"

definition step :: "('e, 'k) Host \<Rightarrow> ('e, 'k) Machine \<Rightarrow> (('e, 'k) Machine + ('e, 'k) Machine) ran" where
  "step H m = (case position m of Dispatching \<Rightarrow> dispatch_step H m | At insts \<Rightarrow> inst_step H insts m)"

fun run_steps :: "nat \<Rightarrow> ('e, 'k) Host \<Rightarrow> ('e, 'k) Machine \<Rightarrow> ('e, 'k) Machine ran" where
  "run_steps 0 H m = Running"
| "run_steps (Suc n) H m =
     (case step H m of
        Done (Inl m1) \<Rightarrow> run_steps n H m1
      | Done (Inr m1) \<Rightarrow> Done m1
      | Crashed \<Rightarrow> Crashed
      | Running \<Rightarrow> Running)"

definition InterpreterMainLoop ::
  "nat \<Rightarrow> ('e, 'k) Host \<Rightarrow> ('e, 'k) System \<Rightarrow> ARMul_State \<Rightarrow> ('e, 'k) Machine ran" where
  "InterpreterMainLoop fuel H s cpu =
     run_steps fuel H \<lparr>core = LOAD_NZCVT cpu, position = Dispatching, num_instrs = 0, sys = s\<rparr>"

section \<open>The interface of the core\<close>

text \<open>Two steps for each instruction of the budget, one more to find that it is used up.\<close>

definition ExecuteInstructions ::
  "('e, 'k) Host \<Rightarrow> nat \<Rightarrow> ('e, 'k) System \<Rightarrow> ARMul_State \<Rightarrow> (('e, 'k) System \<times> ARMul_State) ran" where
  "ExecuteInstructions H num_instructions s cpu =
     (case InterpreterMainLoop (2 * num_instructions + 2) H s
             (cpu\<lparr>NumInstrsToExecute := num_instructions\<rparr>) of
        Done m \<Rightarrow> Done (charge (tick_scale H) (num_instrs m) (sys m), core m)
      | Crashed \<Rightarrow> Crashed
      | Running \<Rightarrow> Running)"

definition Run :: "('e, 'k) Host \<Rightarrow> ('e, 'k) System \<Rightarrow> ARMul_State \<Rightarrow> (('e, 'k) System \<times> ARMul_State) ran" where
  "Run H s cpu =
     ExecuteInstructions H (if sint (downcount (timer s)) < 0 then 0 else unat (downcount (timer s))) s cpu"

definition Step :: "('e, 'k) Host \<Rightarrow> ('e, 'k) System \<Rightarrow> ARMul_State \<Rightarrow> (('e, 'k) System \<times> ARMul_State) ran" where
  "Step H s cpu = ExecuteInstructions H 1 s cpu"

definition ClearInstructionCache :: "ARMul_State \<Rightarrow> ARMul_State" where
  "ClearInstructionCache cpu = cpu\<lparr>instruction_cache := (\<lambda>_. None)\<rparr>"

definition PrepareReschedule :: "ARMul_State \<Rightarrow> ARMul_State" where
  "PrepareReschedule cpu = cpu\<lparr>NumInstrsToExecute := 0\<rparr>"

text \<open>The registers and the status of a thread's context; the floating point registers are not kept.\<close>

record ThreadContext =
  cpu_registers :: "nat \<Rightarrow> u32"
  ctx_cpsr :: u32

definition SaveContext :: "ARMul_State \<Rightarrow> ThreadContext" where
  "SaveContext cpu = \<lparr>cpu_registers = Reg cpu, ctx_cpsr = Cpsr cpu\<rparr>"

definition LoadContext :: "ThreadContext \<Rightarrow> ARMul_State \<Rightarrow> ARMul_State" where
  "LoadContext ctx cpu = cpu\<lparr>Reg := cpu_registers ctx, Cpsr := ctx_cpsr ctx\<rparr>"

end
