(* ===== verification/ArmFrame.thy ===== *)
theory ArmFrame imports ArmLoop begin

text \<open>
  What every label of the interpreter keeps: the flags are single bits, the cached blocks end with a
  branch, and the instruction budget is what it was, except behind \<open>Leave\<close>, which sets it to 0.
  The rules of the collection \<open>wp\<close> compute what a label ensures from what its operations do.
\<close>

named_theorems keeps \<open>operations that keep the flags, the cached blocks and the budget\<close>
named_theorems wp \<open>what an operation that may fail ensures of its result\<close>

section \<open>What a computation ensures\<close>

text \<open>\<open>ensures m Q\<close>: if the computation has a result, the result satisfies \<open>Q\<close>.\<close>

definition ensures :: "'a option \<Rightarrow> ('a \<Rightarrow> bool) \<Rightarrow> bool" where
  "ensures m Q \<longleftrightarrow> (\<forall>x. m = Some x \<longrightarrow> Q x)"

lemma ensures_Some [simp]: "ensures (Some x) Q = Q x"
  by (simp add: ensures_def)

lemma ensures_None [simp]: "ensures None Q"
  by (simp add: ensures_def)

lemma ensures_bind [simp]: "ensures (m \<bind> f) Q = ensures m (\<lambda>x. ensures (f x) Q)"
  by (cases m) simp_all

lemma ensuresD: "ensures m Q \<Longrightarrow> m = Some x \<Longrightarrow> Q x"
  by (simp add: ensures_def)

lemma ensures_if [wp]: "(b \<Longrightarrow> ensures m Q) \<Longrightarrow> (\<not> b \<Longrightarrow> ensures k Q) \<Longrightarrow> ensures (if b then m else k) Q"
  by simp

section \<open>Flags and budget\<close>

definition flags_ok :: "ARMul_State \<Rightarrow> bool" where
  "flags_ok cpu \<longleftrightarrow> NFlag cpu \<le> 1 \<and> ZFlag cpu \<le> 1 \<and> CFlag cpu \<le> 1 \<and> VFlag cpu \<le> 1 \<and> TFlag cpu \<le> 1
     \<and> shifter_carry_out cpu \<le> 1"

text \<open>A block goes on up to its last instruction and not behind it.\<close>

definition block_ok :: "arm_inst list \<Rightarrow> bool" where
  "block_ok b \<longleftrightarrow> b \<noteq> [] \<and> br (last b) \<noteq> NON_BRANCH"

definition blocks_ok :: "ARMul_State \<Rightarrow> bool" where
  "blocks_ok cpu \<longleftrightarrow> (\<forall>b \<in> ran (instruction_cache cpu). block_ok b)"

definition good :: "nat \<Rightarrow> ARMul_State \<Rightarrow> bool" where
  "good n cpu \<longleftrightarrow> NumInstrsToExecute cpu = n \<and> flags_ok cpu \<and> blocks_ok cpu"

fun good_out :: "nat \<Rightarrow> outcome \<Rightarrow> bool" where
  "good_out n (Next cpu) = good n cpu"
| "good_out n (Dispatch cpu) = good n cpu"
| "good_out n (Supervisor _ cpu) = good n cpu"
| "good_out n (Leave cpu) = good 0 cpu"

lemmas good_defs = good_def flags_ok_def blocks_ok_def

lemma good_update [simp]:
  "good n (cpu\<lparr>Reg := r\<rparr>) = good n cpu" "good n (cpu\<lparr>Reg_usr := r\<rparr>) = good n cpu"
  "good n (cpu\<lparr>Reg_svc := r\<rparr>) = good n cpu" "good n (cpu\<lparr>Reg_abort := r\<rparr>) = good n cpu"
  "good n (cpu\<lparr>Reg_undef := r\<rparr>) = good n cpu" "good n (cpu\<lparr>Reg_irq := r\<rparr>) = good n cpu"
  "good n (cpu\<lparr>Reg_firq := r\<rparr>) = good n cpu" "good n (cpu\<lparr>Spsr := r\<rparr>) = good n cpu"
  "good n (cpu\<lparr>CP15 := r\<rparr>) = good n cpu" "good n (cpu\<lparr>Cpsr := c\<rparr>) = good n cpu"
  "good n (cpu\<lparr>Spsr_copy := c\<rparr>) = good n cpu" "good n (cpu\<lparr>Mode := c\<rparr>) = good n cpu"
  "good n (cpu\<lparr>Bank := b\<rparr>) = good n cpu" "good n (cpu\<lparr>NirqSig := q\<rparr>) = good n cpu"
  "good n (cpu\<lparr>exclusive_tag := c\<rparr>) = good n cpu" "good n (cpu\<lparr>exclusive_state := q\<rparr>) = good n cpu"
  "good n (cpu\<lparr>memory := m\<rparr>) = good n cpu"
  by (simp_all add: good_defs)

lemma good_flag:
  "good n cpu \<Longrightarrow> v \<le> 1 \<Longrightarrow> good n (cpu\<lparr>NFlag := v\<rparr>)"
  "good n cpu \<Longrightarrow> v \<le> 1 \<Longrightarrow> good n (cpu\<lparr>ZFlag := v\<rparr>)"
  "good n cpu \<Longrightarrow> v \<le> 1 \<Longrightarrow> good n (cpu\<lparr>CFlag := v\<rparr>)"
  "good n cpu \<Longrightarrow> v \<le> 1 \<Longrightarrow> good n (cpu\<lparr>VFlag := v\<rparr>)"
  "good n cpu \<Longrightarrow> v \<le> 1 \<Longrightarrow> good n (cpu\<lparr>TFlag := v\<rparr>)"
  "good n cpu \<Longrightarrow> v \<le> 1 \<Longrightarrow> good n (cpu\<lparr>shifter_carry_out := v\<rparr>)"
  by (simp_all add: good_defs)

lemma good_if [keeps]: "good n a \<Longrightarrow> good n b \<Longrightarrow> good n (if p then a else b)"
  by simp

lemma good_carry: "good n cpu \<Longrightarrow> CFlag cpu \<le> 1" "good n cpu \<Longrightarrow> shifter_carry_out cpu \<le> 1"
  by (simp_all add: good_defs)

section \<open>Single bits\<close>

lemma and_1_bit: "(w :: u32) AND 1 = of_bool (odd w)"
  by (simp add: and_one_eq mod_2_eq_odd)

lemma and_1_le [simp]: "(w :: u32) AND 1 \<le> 1" "1 AND (w :: u32) \<le> 1"
  using and_1_bit [of w] by (simp_all add: and.commute)

lemma BIT_le [simp]: "BIT (w :: u32) k \<le> 1"
  by (simp add: BIT_def and_1_bit)

lemma of_bool_le [simp]: "(of_bool b :: u32) \<le> 1"
  by (cases b) simp_all

lemma drop_31_le [simp]: "drop_bit 31 (w :: u32) \<le> 1"
  using unsigned_less [of w, where ?'a = nat] by (simp add: word_le_nat_alt drop_bit_eq_div unat_div)

section \<open>Operations\<close>

lemma good_set_reg [simp]: "good n (set_reg r v cpu) = good n cpu"
  by (simp add: set_reg_def)

lemma good_advance [simp]: "good n (advance cpu) = good n cpu"
  by (simp add: advance_def)

lemma good_set_NZ [keeps]: "good n cpu \<Longrightarrow> good n (set_NZ d cpu)"
  by (simp add: set_NZ_def good_flag)

lemma good_set_CV [keeps]: "good n cpu \<Longrightarrow> good n (set_CV c v cpu)"
  by (simp add: set_CV_def good_flag)

lemma good_UPDATE_CFLAG [keeps]: "good n cpu \<Longrightarrow> good n (UPDATE_CFLAG_WITH_SC cpu)"
  by (simp add: UPDATE_CFLAG_WITH_SC_def good_flag good_carry)

lemma good_arith_flags [keeps]: "good n cpu \<Longrightarrow> good n (arith_flags r c v cpu)"
  by (simp add: arith_flags_def good_set_CV good_set_NZ)

lemma good_logic_flags [keeps]: "good n cpu \<Longrightarrow> good n (logic_flags r cpu)"
  by (simp add: logic_flags_def good_UPDATE_CFLAG good_set_NZ)

lemma good_LOAD_NZCVT [keeps]: "good n cpu \<Longrightarrow> good n (LOAD_NZCVT cpu)"
  by (simp add: LOAD_NZCVT_def good_flag)

lemma good_SAVE_NZCVT [simp]: "good n (SAVE_NZCVT cpu) = good n cpu"
  by (simp add: SAVE_NZCVT_def)

lemma good_save_bank [simp]: "good n (save_bank cpu) = good n cpu"
  by (simp add: save_bank_def Let_def)

lemma good_load_bank [simp]: "good n (load_bank md cpu) = good n cpu"
  by (simp add: load_bank_def load_two_def)

lemma good_ChangePrivilegeMode [simp]: "good n (ChangePrivilegeMode md cpu) = good n cpu"
  by (simp add: ChangePrivilegeMode_def Let_def)

lemma good_restore_Spsr [keeps]: "good n cpu \<Longrightarrow> good n (restore_Spsr cpu)"
  by (simp add: restore_Spsr_def good_LOAD_NZCVT)

lemma good_set_Q [simp]: "good n (set_Q q cpu) = good n cpu"
  by (simp add: set_Q_def)

lemma good_set_GE [simp]:
  "good n (set_GE k b cpu) = good n cpu" "good n (set_GE_halves b1 b2 cpu) = good n cpu"
  "good n (set_GE_bytes b1 b2 b3 b4 cpu) = good n cpu"
  by (simp_all add: set_GE_def set_GE_halves_def set_GE_bytes_def)

lemma good_cp15 [simp]:
  "good n (set_cp15 r v cpu) = good n cpu" "good n (WriteCP15Register v a b c d cpu) = good n cpu"
  by (simp_all add: set_cp15_def WriteCP15Register_def Let_def split: option.splits)

lemma good_exclusive [simp]:
  "good n (SetExclusiveMemoryAddress a cpu) = good n cpu"
  "good n (UnsetExclusiveMemoryAddress cpu) = good n cpu"
  by (simp_all add: SetExclusiveMemoryAddress_def UnsetExclusiveMemoryAddress_def)

section \<open>Operands and addresses\<close>

lemma shifter_carry: "CFlag cpu \<le> 1 \<Longrightarrow> snd (shifter f cpu so) \<le> 1"
  by (cases f) (auto simp: shift_Immediate_def shift_Register_def shift_LogicalShiftLeftByImmediate_def
    shift_LogicalShiftLeftByRegister_def shift_LogicalShiftRightByImmediate_def
    shift_LogicalShiftRightByRegister_def shift_ArithmeticShiftRightByImmediate_def
    shift_ArithmeticShiftRightByRegister_def shift_RotateRightByImmediate_def
    shift_RotateRightByRegister_def Let_def)

lemma wp_SHIFTER_OPERAND [wp]:
  assumes "good n cpu" "\<And>v c. good n c \<Longrightarrow> Q (v, c)"
  shows "ensures (SHIFTER_OPERAND sf so cpu) Q"
  using shifter_carry [of cpu "the sf" so] assms(1)
  by (cases sf) (auto simp: SHIFTER_OPERAND_def good_carry split: prod.splits
    intro!: assms(2) good_flag)

lemma good_write_base [simp]:
  "good n (write_base inst v cpu) = good n cpu"
  "good n (write_base_if_passed inst v cpu) = good n cpu"
  "good n (write_back inst v cpu) = good n cpu"
  by (simp_all add: write_base_def write_base_if_passed_def write_back_def)

lemmas addr_defs =
  addr_ImmediateOffset_def addr_RegisterOffset_def addr_ScaledRegisterOffset_def
  addr_ImmediatePreIndexed_def addr_RegisterPreIndexed_def addr_ScaledRegisterPreIndexed_def
  addr_ImmediatePostIndexed_def addr_RegisterPostIndexed_def addr_ScaledRegisterPostIndexed_def
  addr_MLnS_ImmediateOffset_def addr_MLnS_RegisterOffset_def addr_MLnS_ImmediatePreIndexed_def
  addr_MLnS_RegisterPreIndexed_def addr_MLnS_ImmediatePostIndexed_def addr_MLnS_RegisterPostIndexed_def
  addr_DecrementBefore_def addr_IncrementBefore_def addr_IncrementAfter_def addr_DecrementAfter_def

lemma good_addressing [simp]: "good n (snd (addressing f inst cpu)) = good n cpu"
  by (cases f) (simp_all add: addr_defs Let_def)

lemma wp_get_addr [wp]:
  assumes "good n cpu" "\<And>a c. good n c \<Longrightarrow> Q (a, c)"
  shows "ensures (get_addr ga inst cpu) Q"
  using assms(2) [of "snd (addressing (the ga) inst cpu)" "fst (addressing (the ga) inst cpu)"] assms(1)
  by (cases ga) (simp_all add: get_addr_def)

section \<open>Memory\<close>

lemmas ReadMemory_defs = ReadMemory8_def ReadMemory16_def ReadMemory32_def ReadMemory64_def
lemmas WriteMemory_defs = WriteMemory8_def WriteMemory16_def WriteMemory32_def WriteMemory64_def

lemma wp_ReadMemory [wp]:
  "good n cpu \<Longrightarrow> (\<And>v c. good n c \<Longrightarrow> Q8 (v, c)) \<Longrightarrow> ensures (ReadMemory8 D cpu a) Q8"
  "good n cpu \<Longrightarrow> (\<And>v c. good n c \<Longrightarrow> Q16 (v, c)) \<Longrightarrow> ensures (ReadMemory16 D cpu a) Q16"
  "good n cpu \<Longrightarrow> (\<And>v c. good n c \<Longrightarrow> Q32 (v, c)) \<Longrightarrow> ensures (ReadMemory32 D cpu a) Q32"
  "good n cpu \<Longrightarrow> (\<And>v c. good n c \<Longrightarrow> Q64 (v, c)) \<Longrightarrow> ensures (ReadMemory64 D cpu a) Q64"
  by (auto simp: ReadMemory_defs ensures_def bind_eq_Some_conv)

lemma wp_WriteMemory [wp]:
  "good n cpu \<Longrightarrow> (\<And>c. good n c \<Longrightarrow> Q c) \<Longrightarrow> ensures (WriteMemory8 D a v8 cpu) Q"
  "good n cpu \<Longrightarrow> (\<And>c. good n c \<Longrightarrow> Q c) \<Longrightarrow> ensures (WriteMemory16 D a v16 cpu) Q"
  "good n cpu \<Longrightarrow> (\<And>c. good n c \<Longrightarrow> Q c) \<Longrightarrow> ensures (WriteMemory32 D a v32 cpu) Q"
  "good n cpu \<Longrightarrow> (\<And>c. good n c \<Longrightarrow> Q c) \<Longrightarrow> ensures (WriteMemory64 D a v64 cpu) Q"
  by (auto simp: WriteMemory_defs ensures_def bind_eq_Some_conv)

lemma wp_read [wp]:
  "good n cpu \<Longrightarrow> (\<And>v c. good n c \<Longrightarrow> Q (v, c)) \<Longrightarrow> ensures (read_byte D cpu a) Q"
  "good n cpu \<Longrightarrow> (\<And>v c. good n c \<Longrightarrow> Q (v, c)) \<Longrightarrow> ensures (read_half D cpu a) Q"
  by (auto simp: read_byte_def read_half_def intro!: wp)

lemma wp_write [wp]:
  "good n cpu \<Longrightarrow> (\<And>c. good n c \<Longrightarrow> Q c) \<Longrightarrow> ensures (write_byte D a v cpu) Q"
  "good n cpu \<Longrightarrow> (\<And>c. good n c \<Longrightarrow> Q c) \<Longrightarrow> ensures (write_half D a v cpu) Q"
  by (auto simp: write_byte_def write_half_def intro!: wp)

lemma wp_load_list [wp]:
  "good n cpu \<Longrightarrow> (\<And>a c. good n c \<Longrightarrow> Q (a, c)) \<Longrightarrow> ensures (load_list D inst is a cpu) Q"
  by (induction "is" arbitrary: a cpu) (auto intro!: wp)

lemma wp_store_list [wp]:
  "good n cpu \<Longrightarrow> (\<And>a c. good n c \<Longrightarrow> Q (a, c)) \<Longrightarrow> ensures (store_list D inst f is a cpu) Q"
  by (induction "is" arbitrary: a cpu) (auto intro!: wp)

lemma wp_load_user [wp]:
  "good n cpu \<Longrightarrow> (\<And>a c. good n c \<Longrightarrow> Q (a, c)) \<Longrightarrow> ensures (load_user D inst k a cpu) Q"
  by (auto simp: load_user_def intro!: wp)

lemma wp_store_pc [wp]:
  "good n cpu \<Longrightarrow> (\<And>c. good n c \<Longrightarrow> Q c) \<Longrightarrow> ensures (store_pc D inst a cpu) Q"
  by (auto simp: store_pc_def intro!: wp)

lemma wp_reg_pair [wp]: "(\<And>k. Q k) \<Longrightarrow> ensures (reg_pair r) Q"
  by (simp add: ensures_def)

section \<open>Labels\<close>

lemma wp_when_passed [wp]:
  "good n cpu \<Longrightarrow> ensures body (good_out n) \<Longrightarrow> ensures (when_passed c cpu body) (good_out n)"
  "good n cpu \<Longrightarrow> ensures body (good_out n) \<Longrightarrow> ensures (branch_when_passed c cpu body) (good_out n)"
  by (simp_all add: when_passed_def branch_when_passed_def)

lemma wp_write_next [wp]: "good n cpu \<Longrightarrow> ensures (write_next r v cpu) (good_out n)"
  by (simp add: write_next_def)

lemma wp_write_long [wp]: "good n cpu \<Longrightarrow> ensures (write_long S hi lo cpu) (good_out n)"
  by (auto simp: write_long_def intro!: good_flag)

lemma good_finish [keeps]:
  "good n cpu \<Longrightarrow> good_out n (finish_arith S Rd r cpu)" "good n cpu \<Longrightarrow> good_out n (finish_logic S Rd v cpu)"
  "good n cpu \<Longrightarrow> good_out n (compare_with r cpu)"
  by (auto simp: finish_arith_def finish_logic_def finish_data_def compare_with_def Let_def
    split: prod.splits intro!: keeps)

lemma wp_data [wp]:
  assumes "good n cpu"
  shows "ensures (ADC_INST c I S Rn Rd so sf cpu) (good_out n)"
    "ensures (ADD_INST c I S Rn Rd so sf cpu) (good_out n)"
    "ensures (AND_INST c I S Rn Rd so sf cpu) (good_out n)"
    "ensures (BIC_INST c I S Rn Rd so sf cpu) (good_out n)"
    "ensures (EOR_INST c I S Rn Rd so sf cpu) (good_out n)"
    "ensures (ORR_INST c I S Rn Rd so sf cpu) (good_out n)"
    "ensures (RSB_INST c I S Rn Rd so sf cpu) (good_out n)"
    "ensures (RSC_INST c I S Rn Rd so sf cpu) (good_out n)"
    "ensures (SBC_INST c I S Rn Rd so sf cpu) (good_out n)"
    "ensures (SUB_INST c I S Rn Rd so sf cpu) (good_out n)"
    "ensures (TST_INST c I S Rn Rd so sf cpu) (good_out n)"
    "ensures (CMN_INST c I Rn so sf cpu) (good_out n)"
    "ensures (CMP_INST c I Rn so sf cpu) (good_out n)"
    "ensures (TEQ_INST c I Rn so sf cpu) (good_out n)"
    "ensures (CPY_INST c I S Rd so sf cpu) (good_out n)"
    "ensures (MOV_INST c I S Rd so sf cpu) (good_out n)"
    "ensures (MVN_INST c I S Rd so sf cpu) (good_out n)"
  using assms by (auto simp: ADC_INST_def ADD_INST_def AND_INST_def BIC_INST_def EOR_INST_def
    ORR_INST_def RSB_INST_def RSC_INST_def SBC_INST_def SUB_INST_def TST_INST_def CMN_INST_def
    CMP_INST_def TEQ_INST_def CPY_INST_def MOV_INST_def MVN_INST_def Let_def intro!: wp keeps)

lemma wp_branches [wp]:
  assumes "good n cpu"
  shows "ensures (BBL_INST c L imm cpu) (good_out n)" "ensures (BX_INST c Rm cpu) (good_out n)"
    "ensures (BLX_INST c val inst cpu) (good_out n)" "ensures (B_2_THUMB imm cpu) (good_out n)"
    "ensures (B_COND_THUMB imm cc cpu) (good_out n)" "ensures (BL_1_THUMB imm cpu) (good_out n)"
    "ensures (BL_2_THUMB imm cpu) (good_out n)" "ensures (BLX_1_THUMB imm cpu) (good_out n)"
  using assms by (auto simp: BBL_INST_def BX_INST_def BLX_INST_def B_2_THUMB_def B_COND_THUMB_def
    BL_1_THUMB_def BL_2_THUMB_def BLX_1_THUMB_def Let_def intro!: wp good_flag)

lemma wp_status [wp]:
  assumes "good n cpu"
  shows "ensures (MRS_INST c R Rd cpu) (good_out n)"
    "ensures (MCR_INST c op1 op2 cp crn crm Rd inst cpu) (good_out n)"
    "ensures (MRC_INST c op1 op2 cp crn crm Rd inst cpu) (good_out n)"
    "ensures (SETEND_INST e cpu) (good_out n)" "ensures (CLREX_INST cpu) (good_out n)"
    "ensures (SWI_INST c num cpu) (good_out n)" "ensures (NOP_INST cpu) (good_out n)"
    "ensures (CLZ_INST c Rm Rd cpu) (good_out n)"
  using assms by (auto simp: MRS_INST_def MCR_INST_def MRC_INST_def
    SETEND_INST_def CLREX_INST_def SWI_INST_def NOP_INST_def CLZ_INST_def Let_def intro!: wp keeps)

lemma wp_CPS [wp]:
  assumes "good n cpu"
  shows "ensures (CPS_INST imod0 imod1 mmod A I F mode cpu) (good_out n)"
proof -
  have "good_out n (Next (advance (if b then ChangePrivilegeMode m (c\<lparr>Cpsr := x c\<rparr>) else c)))"
    if "good n c" for b m c x using that by simp
  then show ?thesis using assms unfolding CPS_INST_def Let_def ensures_Some by simp
qed

lemma wp_MSR [wp]:
  assumes "good n cpu"
  shows "ensures (MSR_INST c field_mask R inst cpu) (good_out n)"
  unfolding MSR_INST_def Let_def
  by (rule wp_when_passed [OF assms], rule ensures_if)
    (simp_all add: assms good_LOAD_NZCVT good_if split del: if_split)

lemma wp_CDP [wp]: "good n cpu \<Longrightarrow> ensures (CDP_INST c cpu) (good_out n)"
  by (rule subst [of "when_passed c cpu (Some (Leave (cpu\<lparr>NumInstrsToExecute := 0\<rparr>)))"])
    (auto simp: CDP_INST_def good_defs intro!: wp)

section \<open>Media labels\<close>

lemma ensures_prod [wp]: "(\<And>a b. p = (a, b) \<Longrightarrow> ensures (f a b) Q) \<Longrightarrow> ensures (case p of (a, b) \<Rightarrow> f a b) Q"
  by (cases p) simp

lemma wp_generic [wp]:
  assumes "good n cpu"
  shows "ensures (QADD_INST c Ra Rm Rn Rd op1 op2 cpu) (good_out n)"
    "ensures (QADD8_INST c Ra Rm Rn Rd op1 op2 cpu) (good_out n)"
    "ensures (SADD8_INST c Ra Rm Rn Rd op1 op2 cpu) (good_out n)"
    "ensures (SEL_INST c Ra Rm Rn Rd op1 op2 cpu) (good_out n)"
    "ensures (SHADD8_INST c Ra Rm Rn Rd op1 op2 cpu) (good_out n)"
    "ensures (UHADD8_INST c Ra Rm Rn Rd op1 op2 cpu) (good_out n)"
    "ensures (UQADD8_INST c Ra Rm Rn Rd op1 op2 cpu) (good_out n)"
    "ensures (USAD8_INST c Ra Rm Rn Rd op1 op2 cpu) (good_out n)"
  using assms by (auto simp: QADD_INST_def QADD8_INST_def SADD8_INST_def SEL_INST_def
    SHADD8_INST_def UHADD8_INST_def UQADD8_INST_def USAD8_INST_def Let_def split
    del: if_split intro!: wp)

lemma wp_UADD8 [wp]:
  assumes "good n cpu"
  shows "ensures (UADD8_INST c Ra Rm Rn Rd op1 op2 cpu) (good_out n)"
  using assms unfolding UADD8_INST_def Let_def
  by (intro wp) (auto split: if_splits)

lemma wp_sat [wp]:
  assumes "good n cpu"
  shows "ensures (SSAT_INST c Rn Rd imm5 sat_imm sh cpu) (good_out n)"
    "ensures (USAT_INST c Rn Rd imm5 sat_imm sh cpu) (good_out n)"
    "ensures (SSAT16_INST c Rn Rd imm5 sat_imm sh cpu) (good_out n)"
    "ensures (USAT16_INST c Rn Rd imm5 sat_imm sh cpu) (good_out n)"
  using assms by (auto simp: SSAT_INST_def USAT_INST_def SSAT16_INST_def USAT16_INST_def Let_def
    split del: if_split intro!: wp)

lemma wp_extend [wp]:
  assumes "good n cpu"
  shows "ensures (SXTB_INST c Rd Rm rot cpu) (good_out n)"
    "ensures (SXTH_INST c Rd Rm rot cpu) (good_out n)"
    "ensures (UXTB_INST c Rd Rm rot cpu) (good_out n)"
    "ensures (UXTH_INST c Rd Rm rot cpu) (good_out n)"
  using assms by (auto simp: SXTB_INST_def SXTH_INST_def UXTB_INST_def UXTH_INST_def Let_def split
    del: if_split intro!: wp)

lemma wp_extend_add [wp]:
  assumes "good n cpu"
  shows "ensures (SXTAB_INST c Rd Rn Rm rot cpu) (good_out n)"
    "ensures (SXTAH_INST c Rd Rn Rm rot cpu) (good_out n)"
    "ensures (UXTAB_INST c Rd Rn Rm rot cpu) (good_out n)"
    "ensures (UXTAH_INST c Rd Rn Rm rot cpu) (good_out n)"
    "ensures (SXTAB16_INST c Rd Rn Rm rot cpu) (good_out n)"
    "ensures (UXTAB16_INST c Rd Rn Rm rot cpu) (good_out n)"
  using assms by (auto simp: SXTAB_INST_def SXTAH_INST_def UXTAB_INST_def UXTAH_INST_def
    SXTAB16_INST_def UXTAB16_INST_def Let_def split del: if_split intro!: wp)

lemma wp_smlad [wp]:
  assumes "good n cpu"
  shows "ensures (SMLAD_INST c m Rm Rd Ra Rn op1 op2 cpu) (good_out n)"
    "ensures (SMLAW_INST c m Rm Rd Ra Rn op1 op2 cpu) (good_out n)"
    "ensures (SMULW_INST c m Rm Rd Ra Rn op1 op2 cpu) (good_out n)"
    "ensures (SMMLA_INST c m Rm Rd Ra Rn op1 op2 cpu) (good_out n)"
  using assms by (auto simp: SMLAD_INST_def SMLAW_INST_def SMULW_INST_def SMMLA_INST_def Let_def
    split del: if_split intro!: wp)

lemma wp_umull [wp]:
  assumes "good n cpu"
  shows "ensures (SMULL_INST c S Rm Rs RdHi RdLo cpu) (good_out n)"
    "ensures (UMULL_INST c S Rm Rs RdHi RdLo cpu) (good_out n)"
    "ensures (SMLAL_INST c S Rm Rs RdHi RdLo cpu) (good_out n)"
    "ensures (UMLAL_INST c S Rm Rs RdHi RdLo cpu) (good_out n)"
  using assms by (auto simp: SMULL_INST_def UMULL_INST_def SMLAL_INST_def UMLAL_INST_def Let_def
    split del: if_split intro!: wp)

lemma wp_pkh [wp]:
  assumes "good n cpu"
  shows "ensures (PKHBT_INST c Rm Rn Rd imm cpu) (good_out n)"
    "ensures (PKHTB_INST c Rm Rn Rd imm cpu) (good_out n)"
  using assms by (auto simp: PKHBT_INST_def PKHTB_INST_def Let_def split del: if_split intro!: wp)

lemma wp_multiply [wp]:
  assumes "good n cpu"
  shows "ensures (MUL_INST c S Rd Rs Rm cpu) (good_out n)"
    "ensures (MLA_INST c S Rn Rd Rs Rm cpu) (good_out n)"
    "ensures (SMLA_INST c x y Rm Rd Rs Rn cpu) (good_out n)"
    "ensures (SMUL_INST c Rd Rs Rm x y cpu) (good_out n)"
    "ensures (UMAAL_INST c Rn Rm RdHi RdLo cpu) (good_out n)"
    "ensures (SMLALXY_INST c x y RdLo RdHi Rm Rn cpu) (good_out n)"
    "ensures (SMLALD_INST c RdLo RdHi Rm Rn sw op1 op2 cpu) (good_out n)"
    "ensures (REV_INST c Rd Rm op1 op2 cpu) (good_out n)"
  using assms by (auto simp: MUL_INST_def MLA_INST_def SMLA_INST_def SMUL_INST_def UMAAL_INST_def
    SMLALXY_INST_def SMLALD_INST_def REV_INST_def Let_def split del: if_split intro!: wp keeps)

section \<open>Loads and stores\<close>

lemma wp_as_user [wp]:
  assumes "good n cpu" "\<And>v c. good n c \<Longrightarrow> Q (v, c)"
  shows "ensures (read_as_user (read_byte D) cpu a) Q" "ensures (read_as_user (ReadMemory32 D) cpu a) Q"
  using assms(1) by (auto simp: read_as_user_def intro!: wp assms(2))

lemma wp_write_as_user [wp]:
  assumes "good n cpu" "\<And>c. good n c \<Longrightarrow> Q c"
  shows "ensures (write_as_user (write_byte D) a v cpu) Q"
    "ensures (write_as_user (WriteMemory32 D) a v cpu) Q"
  using assms(1) by (auto simp: write_as_user_def intro!: wp assms(2))

lemma wp_ldst [wp]:
  assumes "good n cpu"
  shows "ensures (LDR_INST D c inst ga cpu) (good_out n)"
    "ensures (LDRCOND_INST D c inst ga cpu) (good_out n)"
    "ensures (LDRB_INST D c inst ga cpu) (good_out n)"
    "ensures (LDRBT_INST D c inst ga cpu) (good_out n)"
    "ensures (LDRD_INST D c inst ga cpu) (good_out n)"
    "ensures (LDRH_INST D c inst ga cpu) (good_out n)"
    "ensures (LDRSB_INST D c inst ga cpu) (good_out n)"
    "ensures (LDRSH_INST D c inst ga cpu) (good_out n)"
    "ensures (LDRT_INST D c inst ga cpu) (good_out n)"
    "ensures (STM_INST D c inst ga cpu) (good_out n)"
    "ensures (STR_INST D c inst ga cpu) (good_out n)"
    "ensures (STRB_INST D c inst ga cpu) (good_out n)"
    "ensures (STRBT_INST D c inst ga cpu) (good_out n)"
    "ensures (STRD_INST D c inst ga cpu) (good_out n)"
    "ensures (STRH_INST D c inst ga cpu) (good_out n)"
    "ensures (STRT_INST D c inst ga cpu) (good_out n)"
  using assms by (auto simp: LDR_INST_def LDRCOND_INST_def LDRB_INST_def LDRBT_INST_def
    LDRD_INST_def LDRH_INST_def LDRSB_INST_def LDRSH_INST_def LDRT_INST_def STM_INST_def
    STR_INST_def STRB_INST_def STRBT_INST_def STRD_INST_def STRH_INST_def STRT_INST_def
    load_next_def store_next_def load_word_def Let_def intro!: wp keeps good_flag)

lemma wp_LDM [wp]:
  assumes "good n cpu"
  shows "ensures (LDM_INST D c inst ga cpu) (good_out n)"
  using assms unfolding LDM_INST_def Let_def
  by (intro wp; simp; intro wp) (auto intro!: wp good_flag good_LOAD_NZCVT)

lemma wp_exclusive [wp]:
  assumes "good n cpu"
  shows "ensures (LDREX_INST D c Rm Rn Rd cpu) (good_out n)"
    "ensures (LDREXB_INST D c Rm Rn Rd cpu) (good_out n)"
    "ensures (LDREXH_INST D c Rm Rn Rd cpu) (good_out n)"
    "ensures (LDREXD_INST D c Rm Rn Rd cpu) (good_out n)"
    "ensures (STREX_INST D c Rm Rn Rd cpu) (good_out n)"
    "ensures (STREXB_INST D c Rm Rn Rd cpu) (good_out n)"
    "ensures (STREXH_INST D c Rm Rn Rd cpu) (good_out n)"
    "ensures (STREXD_INST D c Rm Rn Rd cpu) (good_out n)"
  using assms by (auto simp: LDREX_INST_def LDREXB_INST_def LDREXH_INST_def LDREXD_INST_def
    STREX_INST_def STREXB_INST_def STREXH_INST_def STREXD_INST_def load_exclusive_def
    store_exclusive_def Let_def intro!: wp keeps)

lemma wp_swp [wp]:
  assumes "good n cpu"
  shows "ensures (SWP_INST D c Rn Rd Rm cpu) (good_out n)"
    "ensures (SWPB_INST D c Rn Rd Rm cpu) (good_out n)"
  using assms by (auto simp: SWP_INST_def SWPB_INST_def  Let_def intro!: wp keeps)

lemma wp_exception [wp]:
  assumes "good n cpu"
  shows "ensures (SRS_INST D inst ga cpu) (good_out n)"
    "ensures (RFE_INST D inst ga cpu) (good_out n)"
  using assms by (auto simp: SRS_INST_def RFE_INST_def  Let_def intro!: wp keeps)

section \<open>The table\<close>

definition good_exec :: "executor \<Rightarrow> bool" where
  "good_exec f \<longleftrightarrow> (\<forall>D c s n cpu. good n cpu \<longrightarrow> ensures (f D c s cpu) (good_out n))"

lemma good_execI: "(\<And>D c s n cpu. good n cpu \<Longrightarrow> ensures (f D c s cpu) (good_out n)) \<Longrightarrow> good_exec f"
  by (simp add: good_exec_def)

lemma exec_data:
  "good_exec (on_data ADC_INST)"
    "good_exec (on_data ADD_INST)"
    "good_exec (on_data AND_INST)"
    "good_exec (on_data BIC_INST)"
    "good_exec (on_data EOR_INST)"
    "good_exec (on_data ORR_INST)"
    "good_exec (on_data RSB_INST)"
    "good_exec (on_data RSC_INST)"
    "good_exec (on_data SBC_INST)"
    "good_exec (on_data SUB_INST)"
    "good_exec (on_data TST_INST)"
  by (rule good_execI; auto simp: on_data_def intro: wp split: component.splits)+

lemma exec_cmp:
  "good_exec (on_cmp CMN_INST)"
    "good_exec (on_cmp CMP_INST)"
    "good_exec (on_cmp TEQ_INST)"
  by (rule good_execI; auto simp: on_cmp_def intro: wp split: component.splits)+

lemma exec_mov:
  "good_exec (on_mov CPY_INST)"
    "good_exec (on_mov MOV_INST)"
    "good_exec (on_mov MVN_INST)"
  by (rule good_execI; auto simp: on_mov_def intro: wp split: component.splits)+

lemma exec_ldst:
  "good_exec (on_ldst LDM_INST)"
    "good_exec (on_ldst LDR_INST)"
    "good_exec (on_ldst LDRCOND_INST)"
    "good_exec (on_ldst LDRB_INST)"
    "good_exec (on_ldst LDRBT_INST)"
    "good_exec (on_ldst LDRD_INST)"
    "good_exec (on_ldst LDRH_INST)"
    "good_exec (on_ldst LDRSB_INST)"
    "good_exec (on_ldst LDRSH_INST)"
    "good_exec (on_ldst LDRT_INST)"
    "good_exec (on_ldst STM_INST)"
    "good_exec (on_ldst STR_INST)"
    "good_exec (on_ldst STRB_INST)"
    "good_exec (on_ldst STRBT_INST)"
    "good_exec (on_ldst STRD_INST)"
    "good_exec (on_ldst STRH_INST)"
    "good_exec (on_ldst STRT_INST)"
  by (rule good_execI; auto simp: on_ldst_def intro: wp split: component.splits)+

lemma exec_exception:
  "good_exec (on_exception RFE_INST)"
    "good_exec (on_exception SRS_INST)"
  by (rule good_execI; auto simp: on_exception_def intro: wp split: component.splits)+

lemma exec_generic:
  "good_exec (on_generic QADD_INST)"
    "good_exec (on_generic QADD8_INST)"
    "good_exec (on_generic SADD8_INST)"
    "good_exec (on_generic SEL_INST)"
    "good_exec (on_generic SHADD8_INST)"
    "good_exec (on_generic UADD8_INST)"
    "good_exec (on_generic UHADD8_INST)"
    "good_exec (on_generic UQADD8_INST)"
    "good_exec (on_generic USAD8_INST)"
  by (rule good_execI; auto simp: on_generic_def intro: wp split: component.splits)+

lemma exec_exclusive:
  "good_exec (on_exclusive LDREX_INST)"
    "good_exec (on_exclusive LDREXB_INST)"
    "good_exec (on_exclusive LDREXH_INST)"
    "good_exec (on_exclusive LDREXD_INST)"
    "good_exec (on_exclusive STREX_INST)"
    "good_exec (on_exclusive STREXB_INST)"
    "good_exec (on_exclusive STREXH_INST)"
    "good_exec (on_exclusive STREXD_INST)"
  by (rule good_execI; auto simp: on_exclusive_def intro: wp split: component.splits)+

lemma exec_bbl:
  "good_exec on_bbl"
  by (rule good_execI; auto simp: on_bbl_def intro: wp split: component.splits)+

lemma exec_bx:
  "good_exec on_bx"
  by (rule good_execI; auto simp: on_bx_def intro: wp split: component.splits)+

lemma exec_blx:
  "good_exec on_blx"
  by (rule good_execI; auto simp: on_blx_def intro: wp split: component.splits)+

lemma exec_clz:
  "good_exec on_clz"
  by (rule good_execI; auto simp: on_clz_def intro: wp split: component.splits)+

lemma exec_cps:
  "good_exec on_cps"
  by (rule good_execI; auto simp: on_cps_def intro: wp split: component.splits)+

lemma exec_cp:
  "good_exec (on_cp MCR_INST)"
    "good_exec (on_cp MRC_INST)"
  by (rule good_execI; auto simp: on_cp_def intro: wp split: component.splits)+

lemma exec_mla:
  "good_exec on_mla"
  by (rule good_execI; auto simp: on_mla_def intro: wp split: component.splits)+

lemma exec_mul:
  "good_exec on_mul"
  by (rule good_execI; auto simp: on_mul_def intro: wp split: component.splits)+

lemma exec_mrs:
  "good_exec on_mrs"
  by (rule good_execI; auto simp: on_mrs_def intro: wp split: component.splits)+

lemma exec_msr:
  "good_exec on_msr"
  by (rule good_execI; auto simp: on_msr_def intro: wp split: component.splits)+

lemma exec_pkh:
  "good_exec (on_pkh PKHBT_INST)"
    "good_exec (on_pkh PKHTB_INST)"
  by (rule good_execI; auto simp: on_pkh_def intro: wp split: component.splits)+

lemma exec_rev:
  "good_exec on_rev"
  by (rule good_execI; auto simp: on_rev_def intro: wp split: component.splits)+

lemma exec_setend:
  "good_exec on_setend"
  by (rule good_execI; auto simp: on_setend_def intro: wp split: component.splits)+

lemma exec_smla:
  "good_exec on_smla"
  by (rule good_execI; auto simp: on_smla_def intro: wp split: component.splits)+

lemma exec_smlad:
  "good_exec (on_smlad SMLAD_INST)"
    "good_exec (on_smlad SMLAW_INST)"
    "good_exec (on_smlad SMULW_INST)"
    "good_exec (on_smlad SMMLA_INST)"
  by (rule good_execI; auto simp: on_smlad_def intro: wp split: component.splits)+

lemma exec_smlalxy:
  "good_exec on_smlalxy"
  by (rule good_execI; auto simp: on_smlalxy_def intro: wp split: component.splits)+

lemma exec_smlald:
  "good_exec on_smlald"
  by (rule good_execI; auto simp: on_smlald_def intro: wp split: component.splits)+

lemma exec_smul:
  "good_exec on_smul"
  by (rule good_execI; auto simp: on_smul_def intro: wp split: component.splits)+

lemma exec_umull:
  "good_exec (on_umull SMULL_INST)"
    "good_exec (on_umull UMULL_INST)"
    "good_exec (on_umull SMLAL_INST)"
    "good_exec (on_umull UMLAL_INST)"
  by (rule good_execI; auto simp: on_umull_def intro: wp split: component.splits)+

lemma exec_umaal:
  "good_exec on_umaal"
  by (rule good_execI; auto simp: on_umaal_def intro: wp split: component.splits)+

lemma exec_ssat:
  "good_exec (on_ssat SSAT_INST)"
    "good_exec (on_ssat USAT_INST)"
    "good_exec (on_ssat SSAT16_INST)"
    "good_exec (on_ssat USAT16_INST)"
  by (rule good_execI; auto simp: on_ssat_def intro: wp split: component.splits)+

lemma exec_swi:
  "good_exec on_swi"
  by (rule good_execI; auto simp: on_swi_def intro: wp split: component.splits)+

lemma exec_swp:
  "good_exec (on_swp SWP_INST)"
    "good_exec (on_swp SWPB_INST)"
  by (rule good_execI; auto simp: on_swp_def intro: wp split: component.splits)+

lemma exec_extend:
  "good_exec (on_extend SXTB_INST)"
    "good_exec (on_extend SXTH_INST)"
    "good_exec (on_extend UXTB_INST)"
    "good_exec (on_extend UXTH_INST)"
  by (rule good_execI; auto simp: on_extend_def intro: wp split: component.splits)+

lemma exec_extend_add:
  "good_exec (on_extend_add SXTAB_INST)"
    "good_exec (on_extend_add SXTAH_INST)"
    "good_exec (on_extend_add UXTAB_INST)"
    "good_exec (on_extend_add UXTAH_INST)"
    "good_exec (on_extend_add SXTAB16_INST)"
    "good_exec (on_extend_add UXTAB16_INST)"
  by (rule good_execI; auto simp: on_extend_add_def intro: wp split: component.splits)+

lemma exec_thumb:
  "good_exec (on_thumb B_2_THUMB)"
    "good_exec (on_thumb BL_1_THUMB)"
    "good_exec (on_thumb BL_2_THUMB)"
    "good_exec (on_thumb BLX_1_THUMB)"
  by (rule good_execI; auto simp: on_thumb_def intro: wp split: component.splits)+

lemma exec_thumb_cond:
  "good_exec on_thumb_cond"
  by (rule good_execI; auto simp: on_thumb_cond_def intro: wp split: component.splits)+

lemma exec_plain: "good_exec on_clrex" "good_exec on_cdp" "good_exec on_nop"
  by (rule good_execI; simp add: on_clrex_def on_cdp_def on_nop_def wp)+

lemmas execs = exec_data exec_cmp exec_mov exec_ldst exec_exception exec_generic exec_exclusive exec_bbl
  exec_bx exec_blx exec_clz exec_cps exec_cp exec_mla exec_mul exec_mrs exec_msr exec_pkh
  exec_rev exec_setend exec_smla exec_smlad exec_smlalxy exec_smlald exec_smul exec_umull
  exec_umaal exec_ssat exec_swi exec_swp exec_extend exec_extend_add exec_thumb
  exec_thumb_cond exec_plain

text \<open>Every entry of the table is good when the floating point labels do.\<close>

lemma InstLabel_good:
  assumes "\<And>i. i < 32 \<Longrightarrow> good_exec (vfp i)"
  shows "list_all good_exec (InstLabel vfp)"
proof -
  have "list_all good_exec (map vfp [0..<32])" using assms by (simp add: list_all_iff)
  then show ?thesis unfolding InstLabel_def list_all_append by (simp only: list.pred_inject execs simp_thms)
qed

lemma execute_good:
  assumes "\<And>i. i < 32 \<Longrightarrow> good_exec (vfp i)" "good n cpu"
  shows "ensures (execute vfp D inst cpu) (good_out n)"
  using InstLabel_good [of vfp, OF assms(1)] assms(2)
  by (auto simp: execute_def list_all_length good_exec_def)

end
