(* ===== verification/ArmLoopFacts.thy ===== *)
theory ArmLoopFacts imports ArmFrame MemoryFacts begin

text \<open>
  The interpreter's main loop: the translation of a block ends within its page, the loop never runs
  behind a block, it returns within its budget, and it charges the timer no more than the budget.
\<close>

section \<open>Translation ends\<close>

lemma TranslateThumbInstruction_size: "snd (snd (TranslateThumbInstruction addr inst)) = 2"
  by (simp add: TranslateThumbInstruction_def Let_def split: prod.splits)

lemma DecodeThumbInstruction_size:
  "DecodeThumbInstruction inst addr = (st, ainst, len, base) \<Longrightarrow> len = 2"
  using TranslateThumbInstruction_size [of addr inst]
  by (auto simp: DecodeThumbInstruction_def Let_def split: prod.splits if_splits)

lemma translate_instruction_size:
  assumes "InterpreterTranslateInstruction D a cpu = Some ((i, len), cpu1)"
  shows "len = GetInstructionSize cpu" "cpu1 = cpu\<lparr>memory := memory cpu1\<rparr>"
proof -
  obtain inst m where rd: "Read32 D (memory cpu) (a AND 0xFFFFFFFC) = Some (inst, m)"
    using assms by (auto simp: InterpreterTranslateInstruction_def bind_eq_Some_conv)
  obtain st ainst sz base where d:
    "(if TFlag cpu \<noteq> 0 then DecodeThumbInstruction inst a else (UNDEFINED, inst, 4, None)) = (st, ainst, sz, base)"
    using prod_cases4 by blast
  have "sz = GetInstructionSize cpu"
    using d DecodeThumbInstruction_size by (auto simp: GetInstructionSize_def split: if_splits)
  then show "len = GetInstructionSize cpu" "cpu1 = cpu\<lparr>memory := memory cpu1\<rparr>"
    using assms by (auto simp: InterpreterTranslateInstruction_def rd d bind_eq_Some_conv Let_def
        split: if_splits)
qed

text \<open>How many bytes are left in the page of an address.\<close>

definition page_rest :: "u32 \<Rightarrow> nat" where
  "page_rest a = 4096 - unat a mod 4096"

lemma page_end_iff: "a AND 0xfff = (0 :: u32) \<longleftrightarrow> unat a mod 4096 = 0"
proof -
  have "unat (a AND 0xfff) = unat a mod 4096"
    using page_offset_mod [of a] by (simp add: page_offset_of_def)
  then show ?thesis by (metis unat_eq_zero)
qed

lemma aligned_step:
  assumes "(q + sz) mod 4096 \<noteq> 0" "q mod sz = 0" "q < 4096" "sz \<in> {2, 4 :: nat}"
  shows "q + sz < 4096"
proof -
  obtain k where q: "q = sz * k" using assms(2) by (metis mod_0_imp_dvd dvdE)
  then have "k \<noteq> 4096 div sz - 1" using assms(1, 4) by auto
  then show ?thesis using q assms(3, 4) by auto
qed

lemma page_rest_step:
  assumes "unat a mod sz = 0" "sz \<in> {2, 4}" "(a + of_nat sz) AND 0xfff \<noteq> (0 :: u32)"
  shows "page_rest (a + of_nat sz) + sz = page_rest a" "unat (a + of_nat sz) mod sz = 0"
proof -
  let ?q = "unat a mod 4096"
  have nat: "unat (a + of_nat sz) = (unat a + sz) mod 4294967296"
    using assms(2) by (auto simp: unat_word_ariths)
  have sum: "unat (a + of_nat sz) mod 4096 = (?q + sz) mod 4096"
    unfolding nat by (simp add: mod_mod_cancel mod_simps)
  have "(?q + sz) mod 4096 \<noteq> 0" using assms(3) sum by (simp add: page_end_iff)
  moreover have "?q mod sz = 0" using assms(1, 2) by (auto simp: mod_mod_cancel)
  ultimately have less: "?q + sz < 4096" using assms(2) by (intro aligned_step) simp_all
  show "page_rest (a + of_nat sz) + sz = page_rest a" using sum less by (simp add: page_rest_def)
  have "sz dvd 4294967296" using assms(2) by auto
  then have "(unat a + sz) mod 4294967296 mod sz = (unat a + sz) mod sz" by (rule mod_mod_cancel)
  then show "unat (a + of_nat sz) mod sz = 0" using assms(1) nat by simp
qed

lemma GetInstructionSize_nat:
  "GetInstructionSize cpu = of_nat (if TFlag cpu \<noteq> 0 then 2 else 4)"
  by (simp add: GetInstructionSize_def)

lemma translate_block_ends:
  assumes "unat a mod sz = 0" "sz = (if TFlag cpu \<noteq> 0 then 2 else 4)" "page_rest a \<le> n * sz"
  shows "translate_block n D a cpu \<noteq> Running"
  using assms
proof (induction n arbitrary: a cpu)
  case 0
  have "unat a mod 4096 < 4096" by simp
  then show ?case using 0 by (simp add: page_rest_def)
next
  case (Suc n)
  show ?case
  proof (cases "InterpreterTranslateInstruction D a cpu")
    case (Some r)
    then obtain i len cpu1 where r: "r = ((i, len), cpu1)" by (metis prod.exhaust)
    note tr = translate_instruction_size [OF Some [unfolded r]]
    have T: "TFlag cpu1 = TFlag cpu" by (subst tr(2)) simp
    have len: "len = of_nat sz" using tr(1) Suc.prems(2) by (simp add: GetInstructionSize_nat)
    show ?thesis
    proof (cases "(a + len) AND 0xfff = 0")
      case True
      then show ?thesis by (simp add: Some r Let_def)
    next
      case False
      have "translate_block n D (a + len) cpu1 \<noteq> Running"
        using page_rest_step [OF Suc.prems(1)] False Suc.prems T unfolding len
        by (intro Suc.IH) (auto split: if_splits)
      then show ?thesis by (auto simp: Some r Let_def split: ran.splits)
    qed
  qed simp
qed

section \<open>Blocks\<close>

lemma translate_block_ok:
  "translate_block n D a cpu = Done (b, cpu1) \<Longrightarrow> block_ok b \<and> cpu1 = cpu\<lparr>memory := memory cpu1\<rparr>"
proof (induction n arbitrary: a cpu b cpu1)
  case (Suc n)
  then obtain i len cpu2 where tr: "InterpreterTranslateInstruction D a cpu = Some ((i, len), cpu2)"
    by (auto split: option.splits)
  define inst1 where "inst1 = (if (a + len) AND 0xfff = 0 then i\<lparr>br := END_OF_PAGE\<rparr> else i)"
  have mem: "cpu2 = cpu\<lparr>memory := memory cpu2\<rparr>" by (rule translate_instruction_size(2) [OF tr])
  show ?case
  proof (cases "br inst1 = NON_BRANCH")
    case True
    then obtain b1 where b1: "translate_block n D (a + len) cpu2 = Done (b1, cpu1)" "b = inst1 # b1"
      using Suc.prems by (auto simp: tr Let_def inst1_def split: ran.splits)
    have "cpu1 = cpu2\<lparr>memory := memory cpu1\<rparr>" "block_ok b1" using Suc.IH [OF b1(1)] by simp_all
    then show ?thesis using b1(2) mem
      by (metis ARMul_State.surjective ARMul_State.update_convs(25) block_ok_def last_ConsR list.distinct(1))
  next
    case False
    then have "b = [inst1]" "cpu1 = cpu2"
      using Suc.prems by (simp_all add: tr Let_def inst1_def)
    then show ?thesis using False mem by (simp add: block_ok_def)
  qed
qed simp

lemma good_cache_block: "good n cpu \<Longrightarrow> block_ok b \<Longrightarrow> good n (cache_block pc b cpu)"
  by (auto simp: good_defs cache_block_def ran_def)

lemma good_mask_pc [simp]: "good n (mask_pc cpu) = good n cpu"
  by (simp add: mask_pc_def)

lemma good_update_T [simp]: "good n (update_T cpu) = good n cpu"
  by (simp add: update_T_def)

lemma mask_pc_aligned:
  "unat (Reg (mask_pc cpu) 15) mod (if TFlag (mask_pc cpu) \<noteq> 0 then 2 else 4) = 0"
proof -
  have "take_bit 1 (w AND 0xfffffffe) = 0" "take_bit 2 (w AND 0xfffffffc) = 0" for w :: u32
    by simp_all
  then have "take_bit 1 (unat (w AND 0xfffffffe)) = 0" "take_bit 2 (unat (w AND 0xfffffffc)) = 0" for w :: u32
    by (simp_all flip: unsigned_take_bit_eq)
  then show ?thesis by (auto simp: mask_pc_def set_reg_def take_bit_eq_mod)
qed

lemma page_rest_le: "page_rest a \<le> 4096"
  by (simp add: page_rest_def)

lemma InterpreterTranslateBlock_ends:
  "InterpreterTranslateBlock D (Reg (mask_pc cpu) 15) (mask_pc cpu) \<noteq> Running"
proof -
  have "translate_block 2048 D (Reg (mask_pc cpu) 15) (mask_pc cpu) \<noteq> Running"
    using page_rest_le [of "Reg (mask_pc cpu) 15"]
    by (intro translate_block_ends [OF mask_pc_aligned refl]) simp
  then show ?thesis by (auto simp: InterpreterTranslateBlock_def split: ran.splits)
qed

lemma find_block_ends: "find_block D (mask_pc cpu) \<noteq> Running"
  using InterpreterTranslateBlock_ends
  by (auto simp: find_block_def InterpreterTranslateSingle_def Let_def split: option.splits)

lemma good_memory_update: "cpu1 = cpu\<lparr>memory := memory cpu1\<rparr> \<Longrightarrow> good n cpu \<Longrightarrow> good n cpu1"
  by (metis good_update(17))

lemma InterpreterTranslateBlock_ok:
  assumes "InterpreterTranslateBlock D a cpu = Done (b, cpu1)" "good n cpu"
  shows "block_ok b \<and> good n cpu1"
  using assms translate_block_ok [of 2048 D a cpu]
  by (auto simp: InterpreterTranslateBlock_def split: ran.splits
    intro!: good_cache_block intro: good_memory_update)

lemma InterpreterTranslateSingle_ok:
  assumes "InterpreterTranslateSingle D a cpu = Done (b, cpu1)" "good n cpu"
  shows "block_ok b \<and> good n cpu1"
  using assms translate_instruction_size(2) [of D a cpu]
  by (auto simp: InterpreterTranslateSingle_def Let_def block_ok_def split: option.splits if_splits
    intro!: good_cache_block intro: good_memory_update)

lemma find_block_ok:
  assumes "find_block D cpu = Done (b, cpu1)" "good n cpu"
  shows "block_ok b \<and> good n cpu1"
  using assms InterpreterTranslateBlock_ok InterpreterTranslateSingle_ok
  by (fastforce simp: find_block_def good_defs ran_def split: option.splits if_splits)

section \<open>The loop\<close>

text \<open>The labels and the calls outside the model keep what the loop needs, and never raise the budget.\<close>

definition host_ok :: "('e, 'k) Host \<Rightarrow> bool" where
  "host_ok H \<longleftrightarrow> (\<forall>i < 32. good_exec (vfp_label H i))
     \<and> (\<forall>num s n cpu. good n cpu \<longrightarrow> ensures (CallSVC H num s cpu) (\<lambda>(s1, cpu1). \<exists>k \<le> n. good k cpu1))"

definition machine_ok :: "('e, 'k) Machine \<Rightarrow> bool" where
  "machine_ok m \<longleftrightarrow> good (NumInstrsToExecute (core m)) (core m)
     \<and> unat (num_instrs m) \<le> NumInstrsToExecute (core m) \<and> NumInstrsToExecute (core m) < 2 ^ 32
     \<and> (case position m of Dispatching \<Rightarrow> True | At b \<Rightarrow> block_ok b)"

text \<open>Two steps for each instruction left, and one for a dispatch under way.\<close>

definition steps_left :: "('e, 'k) Machine \<Rightarrow> nat" where
  "steps_left m = 2 * (NumInstrsToExecute (core m) - unat (num_instrs m))
     + (case position m of Dispatching \<Rightarrow> 1 | At _ \<Rightarrow> 0)"

lemma good_budget: "good n cpu \<Longrightarrow> NumInstrsToExecute cpu = n"
  by (simp add: good_def)

lemma dispatch_ok:
  assumes "machine_ok m" "dispatch_step H m = Done (Inl m1)" "position m = Dispatching"
  shows "machine_ok m1 \<and> steps_left m1 < steps_left m"
proof -
  obtain b cpu1 where fb: "find_block (devices H) (mask_pc (core m)) = Done (b, cpu1)"
    and m1: "m1 = m\<lparr>core := cpu1, position := At b\<rparr>"
    using assms(2) by (auto simp: dispatch_step_def Let_def split: if_splits ran.splits)
  let ?n = "NumInstrsToExecute (core m)"
  have "good ?n (mask_pc (core m))" using assms(1) by (simp add: machine_ok_def)
  then have "block_ok b" "good ?n cpu1" using find_block_ok [OF fb] by auto
  then show ?thesis using assms(1, 3) good_budget [of ?n cpu1]
    by (simp add: machine_ok_def steps_left_def m1)
qed

lemma dispatch_step_ends: "dispatch_step H m \<noteq> Running"
  using find_block_ends by (auto simp: dispatch_step_def Let_def split: ran.splits)

lemma rest_ok: "block_ok (i # rest) \<Longrightarrow> case FETCH_INST i rest of Dispatching \<Rightarrow> True | At b \<Rightarrow> block_ok b"
  by (auto simp: FETCH_INST_def block_ok_def split: if_splits)

lemma at_most_one: "(case p of Dispatching \<Rightarrow> 1 | At _ \<Rightarrow> 0) \<le> (1 :: nat)"
  by (cases p) simp_all

text \<open>What is left of the budget behind a label that starts with \<open>n\<close> and a count of \<open>k\<close>.\<close>

lemma Supervisor_call_ok:
  assumes "Supervisor_call H num m = Some m1" "host_ok H" "good n (core m)" "n < 2 ^ 32"
  shows "good (NumInstrsToExecute (core m1)) (core m1)"
    "NumInstrsToExecute (core m1) \<le> n - unat (num_instrs m)" "num_instrs m1 = 0"
proof -
  have budget: "NumInstrsToExecute (core m) = n" using good_budget assms(3) by blast
  define cpu where "cpu = core m\<lparr>NumInstrsToExecute := n - unat (num_instrs m)\<rparr>"
  have "good (n - unat (num_instrs m)) cpu" using assms(3) by (simp add: cpu_def good_defs)
  then have svc: "ensures (CallSVC H num s cpu) (\<lambda>(s1, cpu1). \<exists>k \<le> n - unat (num_instrs m). good k cpu1)" for s
    using assms(2) unfolding host_ok_def by blast
  have left: "(if NumInstrsToExecute (core m) \<le> unat (num_instrs m) then 0
     else NumInstrsToExecute (core m) - unat (num_instrs m)) = n - unat (num_instrs m)"
    using budget by simp
  obtain s1 cpu1 where call: "CallSVC H num (charge (tick_scale H) (num_instrs m) (sys m)) cpu = Some (s1, cpu1)"
    and m1: "m1 = m\<lparr>core := advance (UnsetExclusiveMemoryAddress cpu1), num_instrs := 0, sys := s1\<rparr>"
    using assms(1) by (auto simp: Supervisor_call_def Let_def left cpu_def [symmetric] bind_eq_Some_conv)
  obtain k where k: "k \<le> n - unat (num_instrs m)" "good k cpu1" using ensuresD [OF svc call] by auto
  then have "good k (core m1)" by (simp add: m1)
  then show "good (NumInstrsToExecute (core m1)) (core m1)"
    "NumInstrsToExecute (core m1) \<le> n - unat (num_instrs m)" "num_instrs m1 = 0"
    using good_budget k(1) by (auto simp: m1)
qed

lemma inst_step_ok:
  assumes "machine_ok m" "host_ok H" "position m = At b" "inst_step H b m = Done (Inl m1)"
  shows "machine_ok m1 \<and> steps_left m1 < steps_left m"
proof -
  let ?n = "NumInstrsToExecute (core m)"
  let ?m = "m\<lparr>num_instrs := num_instrs m + 1\<rparr>"
  have n: "good ?n (update_T (core m))" "?n < 2 ^ 32" "block_ok b"
    using assms(1, 3) by (simp_all add: machine_ok_def)
  have n': "NumInstrsToExecute (update_T (core m)) = ?n" by (simp add: update_T_def)
  then have less: "unat (num_instrs m) < ?n"
    using assms(4) by (auto simp: inst_step_def Let_def split: if_splits)
  then have plus: "unat (num_instrs m + 1) = unat (num_instrs m) + 1"
    using n(2) by (simp add: unat_word_ariths)
  obtain i rest where b: "b = i # rest" using n(3) by (cases b) (auto simp: block_ok_def)
  note rest = rest_ok [OF n(3) [unfolded b]]
  obtain out where ex: "execute (vfp_label H) (devices H) i (update_T (core m)) = Some out"
    and fin: "finish_label H i rest out ?m = Done (Inl m1)"
    using assms(4) less n' by (auto simp: inst_step_def Let_def b split: option.splits)
  have out: "good_out ?n out"
    using execute_good [OF _ n(1)] assms(2) ex by (auto simp: host_ok_def dest!: ensuresD)
  show ?thesis
  proof (cases out)
    case (Supervisor num cpu)
    then obtain m2 where call: "Supervisor_call H num (?m\<lparr>core := cpu\<rparr>) = Some m2"
      and m1: "m1 = m2\<lparr>position := FETCH_INST i rest\<rparr>"
      using fin by (auto simp: finish_label_def split: option.splits)
    have "good ?n (core (?m\<lparr>core := cpu\<rparr>))" using out Supervisor by simp
    note ok = Supervisor_call_ok [OF call assms(2) this n(2)]
    have count: "2 * a + e < 2 * (n - k)" if "a \<le> n - (k + 1)" "k < n" "e \<le> 1" for a e k n :: nat
      using that by simp
    show ?thesis using ok less plus n(2) rest at_most_one [of "FETCH_INST i rest"]
      by (auto simp: machine_ok_def steps_left_def m1 assms(3) intro!: count)
  qed (use fin out less plus n(2) rest at_most_one [of "FETCH_INST i rest"] good_budget [of ?n] in
    \<open>auto simp: finish_label_def machine_ok_def steps_left_def assms(3)\<close>)
qed

lemma inst_step_ends: "inst_step H b m \<noteq> Running"
  by (auto simp: inst_step_def finish_label_def Let_def split: list.splits option.splits outcome.splits)

lemma step_ok:
  assumes "machine_ok m" "host_ok H" "step H m = Done (Inl m1)"
  shows "machine_ok m1 \<and> steps_left m1 < steps_left m"
proof (cases "position m")
  case Dispatching
  then show ?thesis using assms dispatch_ok [OF assms(1)] by (simp add: step_def)
next
  case (At b)
  then show ?thesis using assms inst_step_ok [OF assms(1, 2) At] by (simp add: step_def)
qed

lemma step_ends: "step H m \<noteq> Running"
  by (cases "position m") (simp_all add: step_def dispatch_step_ends inst_step_ends)

text \<open>With a step for all that is left and one more, the loop does not run out of steps.\<close>

lemma run_steps_ends: "machine_ok m \<Longrightarrow> host_ok H \<Longrightarrow> steps_left m < k \<Longrightarrow> run_steps k H m \<noteq> Running"
proof (induction k arbitrary: m)
  case (Suc k)
  have "run_steps k H m1 \<noteq> Running" if "step H m = Done (Inl m1)" for m1
    using step_ok [OF Suc.prems(1, 2) that] Suc.prems(2, 3) by (intro Suc.IH) auto
  then show ?case using step_ends [of H m] by (auto split: ran.splits sum.splits)
qed simp

end
