(* ===== verification/ArmLoopProps.thy ===== *)
theory ArmLoopProps imports ArmLoopFacts MemoryBlocks begin

text \<open>
  Properties of the interpreter's main loop: it returns, it stays within blocks and within its slice
  of time, and the translation of a block ends.
\<close>

section \<open>Ends of the loop\<close>

lemma good_END: "good n cpu \<Longrightarrow> good 0 (END_label cpu)"
  by (auto simp: END_label_def SAVE_NZCVT_def good_defs)

lemma step_end:
  assumes "machine_ok m" "host_ok H" "step H m = Done (Inr m1)"
  shows "good 0 (core m1)"
proof (cases "position m")
  case Dispatching
  then show ?thesis using assms(1, 3) good_END
    by (auto simp: step_def dispatch_step_def machine_ok_def Let_def split: if_splits ran.splits)
next
  case (At b)
  let ?n = "NumInstrsToExecute (core m)"
  have n: "good ?n (update_T (core m))" using assms(1) by (simp add: machine_ok_def)
  have out: "good_out ?n out" if "execute (vfp_label H) (devices H) i (update_T (core m)) = Some out" for i out
    using execute_good [OF _ n, of "vfp_label H" "devices H" i] assms(2) that
    by (auto simp: host_ok_def dest!: ensuresD)
  show ?thesis
    using assms(3) At good_END [OF n]
    by (auto simp: step_def inst_step_def finish_label_def Let_def
      split: if_splits list.splits option.splits outcome.splits dest!: out)
qed

lemma run_steps_end:
  "machine_ok m \<Longrightarrow> host_ok H \<Longrightarrow> run_steps k H m = Done m1 \<Longrightarrow> good 0 (core m1)"
proof (induction k arbitrary: m)
  case (Suc k)
  then show ?case using step_ok [OF Suc.prems(1, 2)] step_end [OF Suc.prems(1, 2)]
    by (auto split: ran.splits sum.splits)
qed simp

definition start :: "('e, 'k) System \<Rightarrow> ARMul_State \<Rightarrow> ('e, 'k) Machine" where
  "start s cpu = \<lparr>core = LOAD_NZCVT cpu, position = Dispatching, num_instrs = 0, sys = s\<rparr>"

text \<open>What a core has between two runs.\<close>

definition core_ok :: "ARMul_State \<Rightarrow> bool" where
  "core_ok cpu \<longleftrightarrow> shifter_carry_out cpu \<le> 1 \<and> blocks_ok cpu"

lemma start_ok:
  assumes "core_ok cpu" "NumInstrsToExecute cpu < 2 ^ 32"
  shows "machine_ok (start s cpu)" "steps_left (start s cpu) = 2 * NumInstrsToExecute cpu + 1"
  using assms by (auto simp: machine_ok_def start_def steps_left_def core_ok_def good_defs LOAD_NZCVT_def)

lemma good_core_ok: "good n cpu \<Longrightarrow> core_ok cpu"
  by (simp add: good_def flags_ok_def core_ok_def)

text \<open>
  C35: A run of the interpreter over a budget of instructions comes to an end, within two steps of the
  loop per instruction and two more: it either stops the host (a null pointer, an index behind a
  table, a failed assertion) or returns, and then the budget is 0 and the core is ready for the next
  run. This holds for every program and every memory, if the supervisor calls and the floating point
  instructions do not raise the budget while it runs.
\<close>

theorem ExecuteInstructions_returns:
  assumes "host_ok H" "core_ok cpu" "n < 2 ^ 32"
  shows "ExecuteInstructions H n s cpu = Crashed
    \<or> (\<exists>s1 cpu1. ExecuteInstructions H n s cpu = Done (s1, cpu1)
         \<and> NumInstrsToExecute cpu1 = 0 \<and> flags_ok cpu1 \<and> core_ok cpu1)"
proof -
  let ?cpu = "cpu\<lparr>NumInstrsToExecute := n\<rparr>"
  have ok: "core_ok ?cpu" "NumInstrsToExecute ?cpu < 2 ^ 32"
    using assms(2, 3) by (simp_all add: core_ok_def blocks_ok_def)
  note st = start_ok [OF ok, of s]
  have ends: "run_steps (2 * n + 2) H (start s ?cpu) \<noteq> Running"
    by (rule run_steps_ends [OF st(1) assms(1)]) (simp add: st(2))
  have loop: "InterpreterMainLoop (2 * n + 2) H s ?cpu = run_steps (2 * n + 2) H (start s ?cpu)"
    by (simp only: InterpreterMainLoop_def start_def)
  show ?thesis
  proof (cases "run_steps (2 * n + 2) H (start s ?cpu)")
    case (Done m)
    have "good 0 (core m)" by (rule run_steps_end [OF st(1) assms(1) Done])
    then show ?thesis using good_core_ok [of 0 "core m"]
      by (simp only: ExecuteInstructions_def loop Done ran.case) (auto simp: good_def)
  qed (use ends in \<open>simp_all only: ExecuteInstructions_def loop ran.case simp_thms\<close>)
qed

section \<open>A sample\<close>

definition idle_core :: ARMul_State where
  "idle_core = \<lparr>Reg = (\<lambda>_. 0), Reg_usr = (\<lambda>_. 0), Reg_svc = (\<lambda>_. 0), Reg_abort = (\<lambda>_. 0),
     Reg_undef = (\<lambda>_. 0), Reg_irq = (\<lambda>_. 0), Reg_firq = (\<lambda>_. 0), Spsr = (\<lambda>_. 0), CP15 = (\<lambda>_. 0),
     Cpsr = 0x10, Spsr_copy = 0, Mode = 0x10, Bank = 0, NFlag = 0, ZFlag = 0, CFlag = 0, VFlag = 0,
     TFlag = 0, shifter_carry_out = 0, NirqSig = True, NumInstrsToExecute = 0, exclusive_tag = 0,
     exclusive_state = False, instruction_cache = (\<lambda>_. None), memory = empty_memory\<rparr>"

definition idle_host :: "(unit, unit) Host" where
  "idle_host = \<lparr>devices = idle_devices, vfp_label = (\<lambda>_. on_nop), tick_scale = (\<lambda>n. n),
     CallSVC = (\<lambda>_ s cpu. Some (s, cpu))\<rparr>"

definition idle_system :: "(unit, unit) System" where
  "idle_system = \<lparr>timer = Timer_init 0, kernel = ()\<rparr>"

lemma idle_host_ok: "host_ok idle_host"
  by (auto simp: host_ok_def idle_host_def execs)

lemma idle_core_ok: "core_ok idle_core"
  by (simp add: core_ok_def blocks_ok_def idle_core_def)

theorem ExecuteInstructions_returns_witness:
  "ExecuteInstructions idle_host 1000 idle_system idle_core = Crashed
    \<or> (\<exists>s1 cpu1. ExecuteInstructions idle_host 1000 idle_system idle_core = Done (s1, cpu1)
         \<and> NumInstrsToExecute cpu1 = 0 \<and> flags_ok cpu1 \<and> core_ok cpu1)"
  using ExecuteInstructions_returns [OF idle_host_ok idle_core_ok, of 1000 idle_system] by simp

section \<open>Time\<close>

lemma sint_eq_uint_u64: "0 \<le> sint (d :: u64) \<Longrightarrow> uint d = sint d"
  using sint_less [of d] by (simp add: uint_sint take_bit_int_eq_self)

text \<open>
  What the supervisor calls themselves take from the downcount, by adding ticks or by shortening the
  slice, is kept in account by \<open>spent\<close>, a function of the kernel's state: a call leaves the sum of the
  two as it was.
\<close>

definition balance :: "('k \<Rightarrow> u64) \<Rightarrow> ('e, 'k) System \<Rightarrow> u64" where
  "balance spent s = downcount (timer s) + spent (kernel s)"

definition accounts_for_calls :: "('k \<Rightarrow> u64) \<Rightarrow> ('e, 'k) Host \<Rightarrow> bool" where
  "accounts_for_calls spent H \<longleftrightarrow> (\<forall>num s cpu s1 cpu1.
     CallSVC H num s cpu = Some (s1, cpu1) \<longrightarrow> balance spent s1 = balance spent s)"

lemma of_nat_unat_u64: "of_nat (unat (k :: u32)) = (ucast k :: u64)"
  by simp

lemma balance_charge:
  assumes "scale = (\<lambda>n. n)"
  shows "balance spent (charge scale k s) = balance spent s - of_nat (unat k)"
  by (simp add: balance_def charge_def AddTicks_def assms of_nat_unat_u64)

lemma Supervisor_call_balance:
  assumes "Supervisor_call H num m = Some m1" "accounts_for_calls spent H" "tick_scale H = (\<lambda>n. n)"
  shows "balance spent (sys m1) = balance spent (sys m) - of_nat (unat (num_instrs m))"
  using assms balance_charge [OF assms(3), of spent "num_instrs m" "sys m"]
  by (auto simp: Supervisor_call_def accounts_for_calls_def Let_def bind_eq_Some_conv) metis+

text \<open>A step takes from the balance no more than it takes from the budget.\<close>

lemma step_balance:
  assumes "machine_ok m" "host_ok H" "accounts_for_calls spent H" "tick_scale H = (\<lambda>n. n)"
  shows "step H m = Done (Inl m1) \<Longrightarrow>
      \<exists>k. balance spent (sys m1) = balance spent (sys m) - of_nat k
        \<and> k + NumInstrsToExecute (core m1) \<le> NumInstrsToExecute (core m)"
    and "step H m = Done (Inr m2) \<Longrightarrow> \<exists>k \<le> NumInstrsToExecute (core m).
      balance spent (charge (tick_scale H) (num_instrs m2) (sys m2)) = balance spent (sys m) - of_nat k"
proof -
  let ?n = "NumInstrsToExecute (core m)"
  let ?out = "\<lambda>r. case r of
      Inl m1 \<Rightarrow> \<exists>k. balance spent (sys m1) = balance spent (sys m) - of_nat k \<and> k + NumInstrsToExecute (core m1) \<le> ?n
    | Inr m1 \<Rightarrow> sys m1 = sys m \<and> unat (num_instrs m1) \<le> ?n"
  have num: "unat (num_instrs m) \<le> ?n" "?n < 2 ^ 32" and n: "good ?n (update_T (core m))" "good ?n (mask_pc (core m))"
    using assms(1) by (simp_all add: machine_ok_def)
  have main: "?out r" if r: "step H m = Done r" for r
  proof (cases "position m")
    case Dispatching
    have "sys m1 = sys m \<and> NumInstrsToExecute (core m1) \<le> ?n" if "r = Inl m1" for m1
      using r that Dispatching find_block_ok [OF _ n(2), of "devices H"] good_budget [of ?n]
      by (fastforce simp: step_def dispatch_step_def Let_def split: if_splits ran.splits)
    moreover have "sys m1 = sys m \<and> unat (num_instrs m1) \<le> ?n" if "r = Inr m1" for m1
      using r that Dispatching num(1) by (auto simp: step_def dispatch_step_def Let_def split: if_splits ran.splits)
    ultimately show ?thesis by (cases r) (auto intro: exI [of _ 0])
  next
    case (At b)
    show ?thesis
    proof (cases "?n \<le> unat (num_instrs m)")
      case True
      then show ?thesis using r At num(1)
        by (auto simp: step_def inst_step_def Let_def update_T_def)
    next
      case False
      let ?m = "m\<lparr>num_instrs := num_instrs m + 1\<rparr>"
      have plus: "unat (num_instrs m + 1) \<le> ?n" using False num(2) by (simp add: unat_word_ariths)
      obtain i rest out where b: "b = i # rest"
        and ex: "execute (vfp_label H) (devices H) i (update_T (core m)) = Some out"
        and fin: "finish_label H i rest out ?m = Done r"
        using r At False by (auto simp: step_def inst_step_def Let_def update_T_def split: list.splits option.splits)
      have out: "good_out ?n out"
        using execute_good [OF _ n(1), of "vfp_label H" "devices H" i] assms(2) ex
        by (auto simp: host_ok_def dest!: ensuresD)
      show ?thesis
      proof (cases out)
        case (Supervisor svc cpu)
        with fin obtain m3 where m3: "Supervisor_call H svc (?m\<lparr>core := cpu\<rparr>) = Some m3"
          and r3: "r = Inl (m3\<lparr>position := FETCH_INST i rest\<rparr>)"
          by (auto simp: finish_label_def split: option.splits)
        have "good ?n (core (?m\<lparr>core := cpu\<rparr>))" using out Supervisor by simp
        from Supervisor_call_ok(2) [OF m3 assms(2) this num(2)]
        have "unat (num_instrs m + 1) + NumInstrsToExecute (core m3) \<le> ?n" using plus by simp
        moreover have "balance spent (sys m3) = balance spent (sys m) - of_nat (unat (num_instrs m + 1))"
          using Supervisor_call_balance [OF m3 assms(3,4)] by simp
        ultimately show ?thesis unfolding r3 by (auto intro!: exI [of _ "unat (num_instrs m + 1)"])
      qed (use fin out plus good_budget [of ?n] in \<open>auto simp: finish_label_def intro: exI [of _ 0]\<close>)
    qed
  qed
  show "step H m = Done (Inl m1) \<Longrightarrow> \<exists>k. balance spent (sys m1) = balance spent (sys m) - of_nat k
        \<and> k + NumInstrsToExecute (core m1) \<le> ?n"
    using main [of "Inl m1"] by simp
  show "step H m = Done (Inr m2) \<Longrightarrow> \<exists>k \<le> ?n.
      balance spent (charge (tick_scale H) (num_instrs m2) (sys m2)) = balance spent (sys m) - of_nat k"
    using main [of "Inr m2"] by (auto simp: balance_charge [OF assms(4)])
qed

lemma run_steps_balance:
  assumes "host_ok H" "accounts_for_calls spent H" "tick_scale H = (\<lambda>n. n)"
  shows "machine_ok m \<Longrightarrow> run_steps fuel H m = Done m1 \<Longrightarrow> \<exists>k \<le> NumInstrsToExecute (core m).
    balance spent (charge (tick_scale H) (num_instrs m1) (sys m1)) = balance spent (sys m) - of_nat k"
proof (induction fuel arbitrary: m)
  case (Suc fuel)
  note bal = step_balance [OF Suc.prems(1) assms]
  show ?case
  proof (cases "step H m")
    case (Done r)
    show ?thesis
    proof (cases r)
      case (Inl m2)
      obtain j where j: "balance spent (sys m2) = balance spent (sys m) - of_nat j"
        "j + NumInstrsToExecute (core m2) \<le> NumInstrsToExecute (core m)"
        using bal(1) Done Inl by blast
      have "machine_ok m2" using step_ok [OF Suc.prems(1) assms(1)] Done Inl by blast
      with Suc.IH [OF this] Suc.prems(2) Done Inl obtain k where "k \<le> NumInstrsToExecute (core m2)"
        "balance spent (charge (tick_scale H) (num_instrs m1) (sys m1)) = balance spent (sys m2) - of_nat k" by auto
      with j show ?thesis by (intro exI [of _ "j + k"]) (simp add: algebra_simps)
    next
      case (Inr m2)
      with Done Suc.prems(2) bal(2) show ?thesis by auto
    qed
  qed (use Suc.prems in simp_all)
qed simp

text \<open>
  C38: A run of a core over its slice of time charges at most the slice: however the program branches and
  however many supervisor calls it makes on the way, each of which first charges what ran before it,
  the downcount falls by \<open>k\<close>, for one \<open>k\<close> no greater than the downcount the run began with (0 when that
  was negative), and beyond this by exactly what the calls took from it themselves. A slice is thus
  never overdrawn by the instructions, only by the ticks that calls add. For slices below \<open>2 ^ 32\<close> ticks
  and a clock at 100 per cent, at which an instruction is one tick.
\<close>

theorem Run_charges_at_most_the_slice:
  assumes "host_ok H" "accounts_for_calls spent H" "tick_scale H = (\<lambda>n. n)" "core_ok cpu"
    and "sint (downcount (timer s)) < 2 ^ 32" "Run H s cpu = Done (s1, cpu1)"
  shows "\<exists>k \<le> nat (sint (downcount (timer s))).
    downcount (timer s1) = downcount (timer s) - of_nat k - (spent (kernel s1) - spent (kernel s))"
proof -
  define n where "n = (if sint (downcount (timer s)) < 0 then 0 else unat (downcount (timer s)))"
  let ?cpu = "cpu\<lparr>NumInstrsToExecute := n\<rparr>"
  have n: "n = nat (sint (downcount (timer s)))"
    by (simp add: n_def unat_eq_nat_uint sint_eq_uint_u64)
  then have "n < 2 ^ 32" using assms(5) by simp
  then have ok: "core_ok ?cpu" "NumInstrsToExecute ?cpu < 2 ^ 32"
    using assms(4) by (simp_all add: core_ok_def blocks_ok_def)
  have "ExecuteInstructions H n s cpu = Done (s1, cpu1)"
    using assms(6) unfolding Run_def n_def .
  then obtain m where m: "run_steps (2 * n + 2) H (start s ?cpu) = Done m"
    and s1: "s1 = charge (tick_scale H) (num_instrs m) (sys m)"
    by (simp only: ExecuteInstructions_def InterpreterMainLoop_def start_def [symmetric] split: ran.splits)
      auto
  obtain k where "k \<le> NumInstrsToExecute (core (start s ?cpu))"
    "balance spent s1 = balance spent (sys (start s ?cpu)) - of_nat k"
    using run_steps_balance [OF assms(1-3) start_ok(1) [OF ok] m] unfolding s1 by blast
  then have "k \<le> n" "downcount (timer s1) + spent (kernel s1) = downcount (timer s) + spent (kernel s) - of_nat k"
    by (simp_all add: start_def LOAD_NZCVT_def balance_def)
  then show ?thesis unfolding n by (intro exI [of _ k]) (simp add: algebra_simps)
qed

definition spinning_core :: ARMul_State where
  "spinning_core = idle_core\<lparr>instruction_cache :=
     (\<lambda>_. Some [\<lparr>idx = 0, cond = 14, br = DIRECT_BRANCH, component = no_inst\<rparr>])\<rparr>"

lemma spinning_core_ok: "core_ok spinning_core"
  by (auto simp: core_ok_def blocks_ok_def spinning_core_def idle_core_def block_ok_def ran_def)

lemma InstLabel_0: "InstLabel vfp ! 0 = vfp 0" "InstLabel vfp \<noteq> []"
  by (simp_all add: InstLabel_def nth_append)

text \<open>
  The witness: a slice of one tick, a core whose blocks are a supervisor call, and calls that take five
  ticks each, which the kernel counts.
\<close>

definition taking_host :: "(unit, u64) Host" where
  "taking_host = \<lparr>devices = idle_devices, vfp_label = (\<lambda>_. on_nop), tick_scale = (\<lambda>n. n),
     CallSVC = (\<lambda>_ s cpu. Some (s\<lparr>timer := AddTicks (\<lambda>n. n) 5 (timer s), kernel := kernel s + 5\<rparr>, cpu))\<rparr>"

definition short_slice :: "(unit, u64) System" where
  "short_slice = \<lparr>timer = (Timer_init 0)\<lparr>downcount := 1\<rparr>, kernel = 0\<rparr>"

lemma InstLabel_swi: "InstLabel vfp ! 195 = on_swi" "195 < length (InstLabel vfp)"
  by (simp_all add: InstLabel_def nth_append)

definition calling_core :: ARMul_State where
  "calling_core = idle_core\<lparr>instruction_cache :=
     (\<lambda>_. Some [\<lparr>idx = 195, cond = 14, br = NON_BRANCH, component = swi_inst 9\<rparr>,
       \<lparr>idx = 0, cond = 14, br = DIRECT_BRANCH, component = no_inst\<rparr>])\<rparr>"

lemma calling_core_ok: "core_ok calling_core"
  by (auto simp: core_ok_def blocks_ok_def calling_core_def idle_core_def block_ok_def ran_def)

lemma taking_host_ok: "host_ok taking_host"
  by (auto simp: host_ok_def taking_host_def execs)

lemma taking_host_accounts: "accounts_for_calls (\<lambda>k. k) taking_host"
  by (auto simp: accounts_for_calls_def taking_host_def balance_def AddTicks_def)

lemma run_four_steps: "run_steps 4 = run_steps (Suc (Suc (Suc (Suc 0))))"
  by (simp add: numeral_eq_Suc)

lemma short_run:
  "\<exists>s1 cpu1. Run taking_host short_slice calling_core = Done (s1, cpu1) \<and> kernel s1 = 5"
  by (simp add: Run_def ExecuteInstructions_def InterpreterMainLoop_def short_slice_def calling_core_def
    idle_core_def taking_host_def step_def dispatch_step_def inst_step_def find_block_def mask_pc_def
    LOAD_NZCVT_def set_reg_def update_T_def execute_def InstLabel_swi on_swi_def SWI_INST_def when_passed_def
    Supervisor_call_def charge_def advance_def UnsetExclusiveMemoryAddress_def CondPassed_def
    finish_label_def FETCH_INST_def run_four_steps Let_def)

theorem Run_charges_at_most_the_slice_witness:
  "\<exists>s1 cpu1 k. Run taking_host short_slice calling_core = Done (s1, cpu1) \<and> k \<le> 1
     \<and> downcount (timer s1) = 1 - of_nat k - 5"
proof -
  obtain s1 cpu1 where run: "Run taking_host short_slice calling_core = Done (s1, cpu1)" "kernel s1 = 5"
    using short_run by blast
  have h: "tick_scale taking_host = (\<lambda>n. n)" "sint (downcount (timer short_slice)) < 2 ^ 32"
    by (simp_all add: taking_host_def short_slice_def)
  from Run_charges_at_most_the_slice [OF taking_host_ok taking_host_accounts h(1) calling_core_ok h(2) run(1)] run
  show ?thesis by (fastforce simp: short_slice_def)
qed

section \<open>Blocks and pages\<close>

text \<open>The machines the loop passes through.\<close>

inductive reaches :: "('e, 'k) Host \<Rightarrow> ('e, 'k) Machine \<Rightarrow> ('e, 'k) Machine \<Rightarrow> bool" for H m where
  here: "reaches H m m"
| there: "reaches H m m1 \<Longrightarrow> step H m1 = Done (Inl m2) \<Longrightarrow> reaches H m m2"

lemma reaches_ok:
  assumes "reaches H m m1" "machine_ok m" "host_ok H"
  shows "machine_ok m1 \<and> steps_left m1 \<le> steps_left m"
  using assms by (induction rule: reaches.induct) (auto dest: step_ok)

text \<open>
  C36: Wherever the interpreter gets in a run, the instructions that stand before it end with one that
  leaves the block, so that it never reads behind a translated block; all blocks of the cache are of
  this kind; the flags, which are kept apart from the status register and joined into it by shifts,
  are single bits; and the count of executed instructions is within the budget.
\<close>

theorem loop_stays_in_blocks:
  assumes "host_ok H" "core_ok cpu" "NumInstrsToExecute cpu < 2 ^ 32" "reaches H (start s cpu) m"
  shows "(case position m of Dispatching \<Rightarrow> True | At b \<Rightarrow> b \<noteq> [] \<and> br (last b) \<noteq> NON_BRANCH)
    \<and> (\<forall>pc b. instruction_cache (core m) pc = Some b \<longrightarrow> b \<noteq> [] \<and> br (last b) \<noteq> NON_BRANCH)
    \<and> flags_ok (core m) \<and> unat (num_instrs m) \<le> NumInstrsToExecute (core m)"
  using reaches_ok [OF assms(4) start_ok(1) [OF assms(2, 3)] assms(1)]
  by (auto simp: machine_ok_def good_def blocks_ok_def block_ok_def ran_def split: position.splits)

theorem loop_stays_in_blocks_witness:
  "\<exists>m b. step idle_host (start idle_system spinning_core) = Done (Inl m) \<and> position m = At b \<and> b \<noteq> []
     \<and> br (last b) \<noteq> NON_BRANCH \<and> flags_ok (core m)"
proof -
  have "\<exists>m b. step idle_host (start idle_system spinning_core) = Done (Inl m) \<and> position m = At b"
    by (simp add: start_def spinning_core_def idle_core_def idle_host_def step_def dispatch_step_def
      find_block_def mask_pc_def LOAD_NZCVT_def set_reg_def Let_def)
  then obtain m b where m: "step idle_host (start idle_system spinning_core) = Done (Inl m)" "position m = At b"
    by blast
  then have "reaches idle_host (start idle_system spinning_core) m" by (blast intro: reaches.intros)
  from loop_stays_in_blocks [OF idle_host_ok spinning_core_ok _ this] m show ?thesis
    by (auto simp: spinning_core_def idle_core_def)
qed

text \<open>More steps than are needed change nothing.\<close>

lemma translate_block_more:
  "translate_block n D a cpu \<noteq> Running \<Longrightarrow> n \<le> k \<Longrightarrow> translate_block k D a cpu = translate_block n D a cpu"
proof (induction n arbitrary: a cpu k)
  case (Suc n)
  obtain j where j: "k = Suc j" "n \<le> j" using Suc.prems(2) by (cases k) auto
  show ?case
  proof (cases "InterpreterTranslateInstruction D a cpu")
    case (Some r)
    obtain i len cpu1 where r: "r = ((i, len), cpu1)" by (metis prod.exhaust)
    then have "br (if (a + len) AND 0xfff = 0 then i\<lparr>br := END_OF_PAGE\<rparr> else i) = NON_BRANCH \<Longrightarrow>
      translate_block n D (a + len) cpu1 \<noteq> Running"
      using Suc.prems(1) Some by (auto simp: Let_def split: ran.splits)
    then show ?thesis using Suc.IH [OF _ j(2), of "a + len" cpu1] j(1)
      by (simp add: Some r Let_def)
  qed (simp add: j(1))
qed simp

text \<open>
  C37: The translation of a block ends within the page of its first instruction: from an address aligned
  to the size of an instruction it takes at most as many rounds as instructions fit in what is left
  of the page, and rounds that are allowed beyond these make no difference.
\<close>

theorem translate_block_terminates:
  assumes "4 dvd unat a \<or> TFlag cpu \<noteq> 0 \<and> 2 dvd unat a"
    and "(4096 - unat a mod 4096) div (if TFlag cpu \<noteq> 0 then 2 else 4) \<le> n"
  shows "translate_block n D a cpu \<noteq> Running
    \<and> (\<forall>k \<ge> n. translate_block k D a cpu = translate_block n D a cpu)"
proof -
  let ?sz = "if TFlag cpu \<noteq> 0 then 2 else 4 :: nat"
  have al: "unat a mod ?sz = 0" using assms(1) by (auto simp: mod_eq_0_iff_dvd)
  have "page_rest a mod ?sz = 0"
    using al by (auto simp: page_rest_def mod_eq_0_iff_dvd dvd_mod_iff intro!: dvd_diff_nat)
  then have "page_rest a \<le> n * ?sz"
    using assms(2) by (metis div_le_mono mult_le_mono1 nonzero_mult_div_cancel_right page_rest_def
        div_mult_mod_eq add.right_neutral)
  then have "translate_block n D a cpu \<noteq> Running" using al by (intro translate_block_ends) auto
  then show ?thesis by (blast intro: translate_block_more)
qed

theorem translate_block_terminates_witness:
  "translate_block 4 idle_devices 0xFF0 idle_core \<noteq> Running
   \<and> translate_block 2048 idle_devices 0xFF0 idle_core = translate_block 4 idle_devices 0xFF0 idle_core"
proof -
  have *: "4 dvd unat (0xFF0 :: u32) \<or> TFlag idle_core \<noteq> 0 \<and> 2 dvd unat (0xFF0 :: u32)"
    "(4096 - unat (0xFF0 :: u32) mod 4096) div (if TFlag idle_core \<noteq> 0 then 2 else 4) \<le> 4"
    by (simp_all add: idle_core_def)
  have "(4 :: nat) \<le> 2048" by simp
  then show ?thesis using translate_block_terminates [OF *, of idle_devices] by blast
qed

end
