(* ===== verification/ArmDecodeFacts.thy ===== *)
theory ArmDecodeFacts imports ArmDecode begin

text \<open>
  A decoder for classes of instruction words. A class is given by the bits its words share: a mask
  \<open>m\<close> and the value \<open>v\<close> of the bits under it. \<open>narrow\<close> removes the entries of the table that no
  word of the class can match, and \<open>sure\<close> finds the entry that every word of the class matches.
  Both compute, so that a fact about all words of a class is one evaluation.
\<close>

section \<open>Bits of a field\<close>

lemma bit_BITS:
  assumes "a \<le> b" "b \<le> 31"
  shows "bit (BITS s a b) n \<longleftrightarrow> n \<le> b - a \<and> bit s (a + n)"
proof -
  have "31 - b + a + n < 32 \<longleftrightarrow> n \<le> b - a" using assms by linarith
  then show ?thesis
    using assms by (auto simp: BITS_def bit_simps add.commute add.left_commute)
qed

lemma BITS_whole: "BITS s 0 31 = s"
  by (simp add: BITS_def)

section \<open>Classes of words\<close>

datatype verdict = Yes | No | Unknown

definition field_mask :: "nat \<Rightarrow> nat \<Rightarrow> u32" where
  "field_mask a b = push_bit a (mask (Suc b - a))"

definition field_verdict :: "u32 \<Rightarrow> u32 \<Rightarrow> nat \<times> nat \<times> u32 \<Rightarrow> verdict" where
  "field_verdict m v t =
     (case t of (a, b, w) \<Rightarrow>
        let fm = field_mask a b
        in if \<not> (a \<le> b \<and> b \<le> 31) then Unknown
           else if (v XOR push_bit a w) AND (m AND fm) \<noteq> 0 then No
           else if fm AND m = fm then (if BITS v a b = w then Yes else No)
           else Unknown)"

fun verdict_and :: "verdict \<Rightarrow> verdict \<Rightarrow> verdict" where
  "verdict_and No y = No"
| "verdict_and Yes y = y"
| "verdict_and Unknown y = (case y of No \<Rightarrow> No | _ \<Rightarrow> Unknown)"

fun fields_verdict :: "u32 \<Rightarrow> u32 \<Rightarrow> nat \<Rightarrow> (nat \<times> nat \<times> u32) list \<Rightarrow> verdict" where
  "fields_verdict m v 0 content = Yes"
| "fields_verdict m v (Suc n) [] = Unknown"
| "fields_verdict m v (Suc n) (t # content) = verdict_and (field_verdict m v t) (fields_verdict m v n content)"

type_synonym entry = "InstructionSetEncodingItem \<times> InstructionSetEncodingItem"

definition entry_verdict :: "u32 \<Rightarrow> u32 \<Rightarrow> entry \<Rightarrow> verdict" where
  "entry_verdict m v e =
     (case e of ((n, version, content), (xn, _, xcontent)) \<Rightarrow>
        if version = ARMVFP3 then No
        else verdict_and (fields_verdict m v n content)
          (if xn = 0 then Yes
           else case fields_verdict m v xn xcontent of Yes \<Rightarrow> No | No \<Rightarrow> Yes | Unknown \<Rightarrow> Unknown))"

definition entry_matches :: "u32 \<Rightarrow> entry \<Rightarrow> bool" where
  "entry_matches inst e =
     (case e of ((n, version, content), (xn, _, xcontent)) \<Rightarrow>
        version \<noteq> ARMVFP3 \<and> fields_match inst n content
        \<and> \<not> (xn \<noteq> 0 \<and> exclusion_match inst xn xcontent))"

fun decode_in :: "u32 \<Rightarrow> (nat \<times> entry) list \<Rightarrow> nat option" where
  "decode_in inst [] = None"
| "decode_in inst ((i, e) # es) = (if entry_matches inst e then Some i else decode_in inst es)"

fun narrow :: "u32 \<Rightarrow> u32 \<Rightarrow> (nat \<times> entry) list \<Rightarrow> (nat \<times> entry) list" where
  "narrow m v [] = []"
| "narrow m v ((i, e) # es) =
     (case entry_verdict m v e of No \<Rightarrow> narrow m v es | _ \<Rightarrow> (i, e) # narrow m v es)"

fun sure :: "u32 \<Rightarrow> u32 \<Rightarrow> (nat \<times> entry) list \<Rightarrow> nat option" where
  "sure m v [] = None"
| "sure m v ((i, e) # es) =
     (case entry_verdict m v e of No \<Rightarrow> sure m v es | Yes \<Rightarrow> Some i | Unknown \<Rightarrow> None)"

definition numbered_table :: "(nat \<times> entry) list" where
  "numbered_table = enumerate 0 decode_table"

section \<open>The class decoder is sound\<close>

lemma decode_from_in: "decode_from inst i es = decode_in inst (enumerate i es)"
  by (induction inst i es rule: decode_from.induct) (auto simp: entry_matches_def)

lemma DecodeARMInstruction_in: "DecodeARMInstruction inst = decode_in inst numbered_table"
  by (simp add: DecodeARMInstruction_def numbered_table_def decode_from_in)

lemma bit_encoding_mask: "bit (field_mask a b) n \<longleftrightarrow> a \<le> n \<and> n \<le> b \<and> n < 32"
  by (auto simp: field_mask_def bit_simps bit_mask_iff)

lemma field_verdict_sound:
  assumes c: "inst AND m = v"
  shows "field_verdict m v (a, b, w) = Yes \<Longrightarrow> BITS inst a b = w"
    and "field_verdict m v (a, b, w) = No \<Longrightarrow> BITS inst a b \<noteq> w"
proof -
  have v: "bit v n \<longleftrightarrow> bit inst n \<and> bit m n" for n
    using c by (auto simp: bit_simps)
  have eq: "BITS v a b = BITS inst a b"
    if r: "a \<le> b" "b \<le> 31" and k: "field_mask a b AND m = field_mask a b"
  proof (rule bit_word_eqI)
    fix n assume "n < LENGTH(32)"
    have "bit m k" if "a \<le> k" "k \<le> b" for k
      using that r arg_cong [OF k, of "\<lambda>x. bit x k"] by (simp add: bit_and_iff bit_encoding_mask)
    then show "bit (BITS v a b) n \<longleftrightarrow> bit (BITS inst a b) n"
      using r by (auto simp: bit_BITS v)
  qed
  have ne: "BITS inst a b \<noteq> w"
    if r: "a \<le> b" "b \<le> 31" and k: "(v XOR push_bit a w) AND (m AND field_mask a b) \<noteq> 0"
  proof
    assume w: "BITS inst a b = w"
    obtain n where "bit ((v XOR push_bit a w) AND (m AND field_mask a b)) n"
      using k by (metis bit_eqI bit_0_eq bot_apply bot_bool_def)
    then have n: "bit v n \<noteq> (a \<le> n \<and> bit w (n - a))" "bit m n" "a \<le> n" "n \<le> b" "n < 32"
      by (auto simp: bit_and_iff bit_xor_iff bit_push_bit_iff bit_encoding_mask)
    moreover have "bit w (n - a) \<longleftrightarrow> bit inst n"
      using w n r by (auto simp: bit_BITS)
    ultimately show False by (simp add: v)
  qed
  show "field_verdict m v (a, b, w) = Yes \<Longrightarrow> BITS inst a b = w"
    using eq by (auto simp: field_verdict_def Let_def split: if_splits)
  show "field_verdict m v (a, b, w) = No \<Longrightarrow> BITS inst a b \<noteq> w"
    using eq ne by (auto simp: field_verdict_def Let_def split: if_splits)
qed

lemma verdict_and_cases:
  "verdict_and x y = Yes \<longleftrightarrow> x = Yes \<and> y = Yes"
  "verdict_and x y = No \<longleftrightarrow> x = No \<or> y = No"
  by (cases x; cases y; simp)+

lemma fields_match_BITS: "fields_match inst n content = exclusion_match inst n content"
  by (induction inst n content rule: fields_match.induct) (auto simp: BITS_whole)

lemma fields_verdict_sound:
  assumes c: "inst AND m = v"
  shows "(fields_verdict m v n content = Yes \<longrightarrow> exclusion_match inst n content) \<and>
    (fields_verdict m v n content = No \<longrightarrow> \<not> exclusion_match inst n content)"
proof (induction n arbitrary: content)
  case (Suc n)
  show ?case
  proof (cases content)
    case (Cons t content')
    obtain a b w where t: "t = (a, b, w)" by (cases t)
    show ?thesis
      using Suc [of content'] field_verdict_sound [OF c, of a b w]
      by (auto simp: Cons t verdict_and_cases)
  qed simp
qed simp

lemma entry_verdict_sound:
  assumes c: "inst AND m = v"
  shows "entry_verdict m v e = Yes \<Longrightarrow> entry_matches inst e"
    and "entry_verdict m v e = No \<Longrightarrow> \<not> entry_matches inst e"
  using fields_verdict_sound [OF c]
  by (fastforce simp: entry_verdict_def entry_matches_def verdict_and_cases fields_match_BITS
      split: prod.splits if_splits verdict.splits)+

lemma decode_in_narrow: "inst AND m = v \<Longrightarrow> decode_in inst (narrow m v es) = decode_in inst es"
proof (induction es)
  case (Cons p es)
  obtain i e where p: "p = (i, e)" by (cases p)
  show ?case
    using Cons entry_verdict_sound [OF Cons.prems, of e] by (auto simp: p split: verdict.split)
qed simp

lemma decode_in_sure: "inst AND m = v \<Longrightarrow> sure m v es = Some i \<Longrightarrow> decode_in inst es = Some i"
proof (induction es)
  case (Cons p es)
  obtain j e where p: "p = (j, e)" by (cases p)
  show ?case
    using Cons entry_verdict_sound [OF Cons.prems(1), of e] by (auto simp: p split: verdict.splits)
qed simp

lemma DecodeARMInstruction_class:
  assumes "inst AND m = v" "sure m v numbered_table = Some i"
  shows "DecodeARMInstruction inst = Some i"
  using assms by (simp add: DecodeARMInstruction_in decode_in_sure)


end
