(* ===== verification/ArmOperandProps.thy ===== *)
theory ArmOperandProps imports ArmLoopProps ArmSuppFacts ArmDecodeFacts begin

text \<open>
  Shifter operands against a reference: the shifts of the architecture as arithmetic on integers,
  with the amounts and the special cases that an instruction word encodes.
\<close>

section \<open>Fields and bits\<close>

lemma BIT_bit: "BIT (w :: 'a::len word) k = of_bool (bit w k)"
proof (rule bit_word_eqI)
  fix n assume "n < LENGTH('a)"
  then show "bit (BIT w k) n \<longleftrightarrow> bit (of_bool (bit w k) :: 'a word) n"
    by (cases n) (auto simp: BIT_def bit_simps)
qed

lemma BITS_take:
  assumes "a \<le> b" "b \<le> 31"
  shows "BITS s a b = take_bit (Suc b - a) (drop_bit a s)"
proof (rule bit_word_eqI)
  fix n assume "n < LENGTH(32)"
  have "n \<le> b - a \<longleftrightarrow> n < Suc b - a" using assms(1) by linarith
  then show "bit (BITS s a b) n \<longleftrightarrow> bit (take_bit (Suc b - a) (drop_bit a s)) n"
    by (simp add: bit_BITS [OF assms] bit_take_bit_iff bit_drop_bit_eq)
qed

lemma unat_BITS:
  "a \<le> b \<Longrightarrow> b \<le> 31 \<Longrightarrow> unat (BITS s a b) = unat s div 2 ^ a mod 2 ^ (Suc b - a)"
  by (simp only: BITS_take unsigned_take_bit_eq unat_drop_bit_eq) (simp only: take_bit_eq_mod drop_bit_eq_div)

lemma BITS_low: "a \<le> b \<Longrightarrow> b \<le> 11 \<Longrightarrow> BITS (BITS s 0 11) a b = BITS s a b"
  by (rule bit_word_eqI) (auto simp: bit_BITS)

lemma reg_field_low: "n \<le> 8 \<Longrightarrow> reg_field (BITS s 0 11) n = reg_field s n"
  by (simp add: reg_field_def BITS_low)

lemma BITS_one: "n \<le> 31 \<Longrightarrow> BITS s n n = of_bool (bit s n)"
  by (rule bit_word_eqI) (auto simp: bit_BITS bit_simps)

section \<open>The reference\<close>

text \<open>The shift of type \<open>ty\<close> by \<open>n\<close> of a value with a carry in: LSL, LSR, ASR and ROR.\<close>

definition Shift_C :: "nat \<Rightarrow> nat \<Rightarrow> u32 \<Rightarrow> bool \<Rightarrow> u32 \<times> bool" where
  "Shift_C ty n x c =
     (if n = 0 then (x, c)
      else if ty = 0 then (of_nat (unat x * 2 ^ n), odd (unat x * 2 ^ n div 2 ^ 32))
      else if ty = 1 then (of_nat (unat x div 2 ^ n), odd (unat x div 2 ^ (n - 1)))
      else if ty = 2 then (of_int (sint x div 2 ^ n), odd (sint x div 2 ^ (n - 1)))
      else (word_rotr n x, bit (word_rotr n x) 31))"

definition RRX_C :: "u32 \<Rightarrow> bool \<Rightarrow> u32 \<times> bool" where
  "RRX_C x c = (of_nat (of_bool c * 2 ^ 31 + unat x div 2), odd (unat x))"

definition reference_operand :: "ARMul_State \<Rightarrow> u32 \<Rightarrow> u32 \<times> bool" where
  "reference_operand cpu inst =
     (let c = CFlag cpu \<noteq> 0; rm = CHECK_READ_REG15 cpu (reg_field inst 0); ty = unat (BITS inst 5 6)
      in if bit inst 25
         then Shift_C 3 (2 * unat (BITS inst 8 11)) (BITS inst 0 7) c
         else if bit inst 4
         then Shift_C ty (unat (CHECK_READ_REG15 cpu (reg_field inst 8)) mod 256) rm c
         else let n = unat (BITS inst 7 11)
              in if n = 0 \<and> ty = 3 then RRX_C rm c
                 else Shift_C ty (if n = 0 \<and> ty \<noteq> 0 then 32 else n) rm c)"

section \<open>The shifts of the host\<close>

lemma odd_div_bit: "odd (n div 2 ^ k) = bit (n :: nat) k"
  by (simp add: bit_iff_odd)

lemma odd_sint_bit: "odd (sint (x :: u32) div 2 ^ k) = bit x (if k < 32 then k else 31)"
proof -
  have "odd (sint x div 2 ^ k) = bit (sint x) k" by (simp add: bit_iff_odd)
  moreover have "\<not> bit x k" if "32 \<le> k" using that by (auto dest: bit_imp_le_length)
  ultimately show ?thesis by (auto simp: bit_sint_iff not_less)
qed

lemma unat_bit: "bit (unat (x :: u32)) k = bit x k"
  by (simp add: bit_unsigned_iff)

lemma unat_div_power: "unat (x :: u32) div 2 ^ n = unat (drop_bit n x)"
  by (simp only: drop_bit_eq_div [symmetric] unat_drop_bit_eq)

lemma of_nat_div_power: "(of_nat (unat (x :: u32) div 2 ^ n) :: u32) = drop_bit n x"
  by (simp only: unat_div_power of_nat_unat ucast_id)

lemma odd_unat: "odd (unat (x :: u32)) = bit x 0"
  using unat_bit [of x 0] by (simp only: bit_0)

lemma Shift_C_zero: "Shift_C ty 0 x c = (x, c)"
  by (simp add: Shift_C_def)

lemma Shift_C_LSL:
  assumes "0 < n"
  shows "Shift_C 0 n x c = (push_bit n x, n \<le> 32 \<and> bit x (32 - n))"
proof -
  have "odd (unat x * 2 ^ n div 2 ^ 32) \<longleftrightarrow> n \<le> 32 \<and> bit x (32 - n)"
    by (simp only: odd_div_bit push_bit_eq_mult [symmetric] bit_push_bit_iff unat_bit) auto
  then show ?thesis using assms by (simp add: Shift_C_def push_bit_eq_mult)
qed

lemma Shift_C_LSR:
  assumes "0 < n"
  shows "Shift_C (Suc 0) n x c = (drop_bit n x, bit x (n - 1))"
proof -
  show ?thesis using assms by (simp add: Shift_C_def of_nat_div_power odd_div_bit unat_bit)
qed

lemma Shift_C_ASR:
  assumes "0 < n"
  shows "Shift_C 2 n x c = (signed_drop_bit n x, bit x (if n \<le> 32 then n - 1 else 31))"
proof -
  have v: "(of_int (sint x div 2 ^ n) :: u32) = signed_drop_bit n x"
    by (simp only: drop_bit_eq_div [symmetric] sint_signed_drop_bit_eq [symmetric] of_int_sint scast_id)
  have "n - 1 < 32 \<longleftrightarrow> n \<le> 32" using assms by linarith
  then show ?thesis using assms by (simp add: Shift_C_def v odd_sint_bit)
qed

lemma Shift_C_ROR:
  assumes "0 < n"
  shows "Shift_C 3 n x c = (word_rotr n x, bit (word_rotr n x) 31)"
  using assms by (simp add: Shift_C_def)

lemma bit_rotr: "k < 32 \<Longrightarrow> bit (word_rotr n (x :: u32)) k = bit x ((k + n) mod 32)"
  by (simp add: bit_word_rotr_iff)

lemma rotr_mod: "word_rotr (n mod 32) (x :: u32) = word_rotr n x"
  by (rule bit_word_eqI) (simp add: bit_rotr mod_simps)

lemma rotr_0: "word_rotr 0 (x :: u32) = x"
  by (rule bit_word_eqI) (simp add: bit_rotr)

lemma ROTATE_RIGHT_32_rotr:
  assumes "i < 32"
  shows "ROTATE_RIGHT_32 x i = word_rotr i x"
proof (rule bit_word_eqI)
  fix k assume k: "k < LENGTH(32)"
  have "(k + i) mod 32 = (if k + i < 32 then k + i else k - (32 - i))"
    using k assms by (auto simp: mod_if)
  moreover have "bit x (i + k) \<Longrightarrow> i + k < 32" by (auto dest: bit_imp_le_length)
  moreover have "bit x (k - (32 - i)) \<and> 32 - i \<le> k \<longleftrightarrow> 32 - i \<le> k \<and> bit x (k - (32 - i))" by blast
  ultimately show "bit (ROTATE_RIGHT_32 x i) k \<longleftrightarrow> bit (word_rotr i x) k"
    using k by (auto simp: ROTATE_RIGHT_32_def bit_rotr bit_or_iff bit_push_bit_iff bit_drop_bit_eq
      add.commute not_less)
qed

lemma rotr_carry:
  assumes "n mod 32 \<noteq> 0"
  shows "bit (word_rotr n (x :: u32)) 31 = bit x (n mod 32 - 1)"
proof -
  have "(31 + n) mod 32 = (31 + n mod 32) mod 32" by (simp add: mod_simps)
  also have "\<dots> = n mod 32 - 1"
  proof -
    have "n mod 32 < 32" by simp
    then have "31 + n mod 32 = 32 + (n mod 32 - 1)" "n mod 32 - 1 < 32" using assms by linarith+
    then show ?thesis by (metis mod_add_self1 mod_less)
  qed
  finally show ?thesis by (simp add: bit_rotr)
qed

lemma not_bit_32: "32 \<le> n \<Longrightarrow> \<not> bit (x :: u32) n"
  by (auto dest: bit_imp_le_length)

lemma drop_bit_32: "32 \<le> n \<Longrightarrow> drop_bit n (x :: u32) = 0"
  by (rule bit_word_eqI) (auto simp: bit_drop_bit_eq dest: bit_imp_le_length)

lemma push_bit_32: "32 \<le> n \<Longrightarrow> push_bit n (x :: u32) = 0"
  by (rule bit_word_eqI) (auto simp: bit_push_bit_iff)

lemma signed_drop_bit_32: "32 \<le> n \<Longrightarrow> signed_drop_bit n (x :: u32) = (if bit x 31 then - 1 else 0)"
  by (rule bit_word_eqI) (auto simp: bit_signed_drop_bit_iff)

lemma RRX_C_host: "RRX_C x b = (push_bit 31 (of_bool b) OR drop_bit 1 x, bit x 0)"
proof -
  have "push_bit 31 (of_bool b) OR drop_bit 1 x = push_bit 31 (of_bool b) + drop_bit 1 x"
  proof (rule disjunctive_add [symmetric])
    fix n show "\<not> bit (push_bit 31 (of_bool b) :: u32) n \<or> \<not> bit (drop_bit 1 x) n"
      by (auto simp: bit_simps dest: bit_imp_le_length)
  qed
  moreover have "(of_nat (of_bool b * 2 ^ 31 + unat x div 2) :: u32) = push_bit 31 (of_bool b) + drop_bit 1 x"
    using of_nat_div_power [of x 1] by (cases b) (simp_all add: push_bit_eq_mult)
  ultimately show ?thesis by (simp only: RRX_C_def odd_unat)
qed

section \<open>The fields that choose the shift\<close>

lemma BITS_split:
  assumes "a \<le> c" "c < b" "b \<le> 31"
  shows "unat (BITS s a b) = unat (BITS s a c) + 2 ^ (Suc c - a) * unat (BITS s (Suc c) b)"
proof -
  have e: "(2 :: nat) ^ (Suc b - a) = 2 ^ (Suc c - a) * 2 ^ (b - c)" "(2 :: nat) ^ Suc c = 2 ^ a * 2 ^ (Suc c - a)"
    using assms by (simp_all only: power_add [symmetric]) simp_all
  have "Suc b - Suc c = b - c" by simp
  moreover have "a \<le> b" "c \<le> 31" "Suc c \<le> b" using assms by linarith+
  ultimately show ?thesis
    using assms by (simp only: unat_BITS e div_mult2_eq mod_mult2_eq add.commute)
qed

lemma field_4_6: "unat (BITS s 4 6) = of_bool (bit s 4) + 2 * unat (BITS s 5 6)"
  using BITS_split [of 4 4 6 s] by (simp add: BITS_one)

lemma field_4_7:
  "unat (BITS s 4 7) = of_bool (bit s 4) + 2 * unat (BITS s 5 6) + 8 * of_bool (bit s 7)"
  using BITS_split [of 4 6 7 s] by (simp add: BITS_one field_4_6)

lemma field_4_11: "unat (BITS s 4 11) = of_bool (bit s 4) + 2 * unat (BITS s 5 6) + 8 * unat (BITS s 7 11)"
  using BITS_split [of 4 6 11 s] by (simp add: field_4_6)

lemma shift_type_cases: "unat (BITS s 5 6) \<in> {0, 1, 2, 3}"
proof -
  have "unat (BITS s 5 6) < 4" by (simp add: unat_BITS)
  then show ?thesis by auto
qed

lemmas word_as_nat = word_unat_eq_iff [of "BITS s a b" for s a b]

lemma GetShifterOp_fields:
  assumes "\<not> bit inst 25"
  shows "GetShifterOp inst = (let ty = unat (BITS inst 5 6); n = unat (BITS inst 7 11)
     in if bit inst 4
        then if bit inst 7 then None
          else Some ([DPO_LogicalShiftLeftByRegister, DPO_LogicalShiftRightByRegister,
            DPO_ArithmeticShiftRightByRegister, DPO_RotateRightByRegister] ! ty)
        else if ty = 0 \<and> n = 0 then Some DPO_Register
          else Some ([DPO_LogicalShiftLeftByImmediate, DPO_LogicalShiftRightByImmediate,
            DPO_ArithmeticShiftRightByImmediate, DPO_RotateRightByImmediate] ! ty))"
  using assms shift_type_cases [of inst]
  by (auto simp: GetShifterOp_def word_as_nat field_4_6 field_4_7 field_4_11 BIT_bit Let_def)

section \<open>Agreement\<close>

definition with_carry :: "u32 \<times> bool \<Rightarrow> u32 \<times> u32" where
  "with_carry r = (fst r, of_bool (snd r))"

lemma carry_bool: "CFlag cpu \<le> 1 \<Longrightarrow> CFlag cpu = of_bool (CFlag cpu \<noteq> 0)"
  by (auto simp: word_le_nat_alt word_unat_eq_iff)

lemma immediate_rotation:
  assumes c: "CFlag cpu = of_bool b"
  shows "shift_Immediate cpu inst = with_carry (Shift_C 3 (2 * unat (BITS inst 8 11)) (BITS inst 0 7) b)"
proof -
  have n: "unat (BITS inst 8 11) < 16" by (simp add: unat_BITS)
  then have r: "ROTATE_RIGHT_32 (BITS inst 0 7) (unat (BITS inst 8 11) * 2)
      = word_rotr (2 * unat (BITS inst 8 11)) (BITS inst 0 7)"
    by (simp add: ROTATE_RIGHT_32_rotr mult.commute)
  have z: "BITS inst 8 11 = 0 \<longleftrightarrow> unat (BITS inst 8 11) = 0" by (simp add: word_as_nat)
  show ?thesis
    by (simp only: shift_Immediate_def Let_def r z BIT_bit)
      (simp add: with_carry_def Shift_C_def c rotr_0)
qed

lemma immediate_shift:
  assumes c: "CFlag cpu = of_bool b" and f: "f = [DPO_LogicalShiftLeftByImmediate, DPO_LogicalShiftRightByImmediate,
      DPO_ArithmeticShiftRightByImmediate, DPO_RotateRightByImmediate] ! unat (BITS inst 5 6)"
  shows "shifter f cpu inst = with_carry
    (let n = unat (BITS inst 7 11); ty = unat (BITS inst 5 6); rm = CHECK_READ_REG15 cpu (reg_field inst 0)
     in if n = 0 \<and> ty = 3 then RRX_C rm b
        else Shift_C ty (if n = 0 \<and> ty \<noteq> 0 then 32 else n) rm b)"
proof -
  have n: "unat (BITS inst 7 11) < 32" by (simp add: unat_BITS)
  show ?thesis
    using n shift_type_cases [of inst]
    by (auto simp: f Let_def with_carry_def BIT_bit RRX_C_host Shift_C_zero Shift_C_LSL Shift_C_LSR Shift_C_ASR
      Shift_C_ROR c shift_LogicalShiftLeftByImmediate_def
      shift_LogicalShiftRightByImmediate_def shift_ArithmeticShiftRightByImmediate_def
      shift_RotateRightByImmediate_def ROTATE_RIGHT_32_rotr rotr_carry drop_bit_32 signed_drop_bit_32)
qed

lemma register_shift:
  assumes c: "CFlag cpu = of_bool b" and f: "f = [DPO_LogicalShiftLeftByRegister, DPO_LogicalShiftRightByRegister,
      DPO_ArithmeticShiftRightByRegister, DPO_RotateRightByRegister] ! unat (BITS inst 5 6)"
  shows "shifter f cpu inst = with_carry
    (Shift_C (unat (BITS inst 5 6)) (unat (CHECK_READ_REG15 cpu (reg_field inst 8)) mod 256)
       (CHECK_READ_REG15 cpu (reg_field inst 0)) b)"
proof -
  let ?rs = "CHECK_READ_REG15 cpu (reg_field inst 8)"
  have n: "unat (BITS ?rs 0 7) = unat ?rs mod 256" by (simp add: unat_BITS)
  have r: "unat (BITS ?rs 0 4) = unat ?rs mod 256 mod 32" by (simp add: unat_BITS mod_mod_cancel)
  define k where "k = unat ?rs mod 256"
  have "k mod 32 < 32" by simp
  note rot = ROTATE_RIGHT_32_rotr [OF this] ROTATE_RIGHT_32_rotr rotr_mod rotr_mod [of 32, symmetric]
  have z: "word_rotr k x = x" if "k mod 32 = 0" for x :: u32
    using rotr_mod [of k x] that by (simp add: rotr_0)
  consider "k = 0" | "0 < k" "k < 32" | "k = 32" | "32 < k" by linarith
  then show ?thesis
    using shift_type_cases [of inst]
    by cases (auto simp: f Let_def with_carry_def BIT_bit word_as_nat n r k_def [symmetric] Shift_C_zero
      Shift_C_LSL Shift_C_LSR Shift_C_ASR Shift_C_ROR c shift_LogicalShiftLeftByRegister_def
      shift_LogicalShiftRightByRegister_def shift_ArithmeticShiftRightByRegister_def
      shift_RotateRightByRegister_def rot rotr_carry drop_bit_32 push_bit_32 signed_drop_bit_32 z rotr_0
      not_bit_32)
qed

text \<open>
  C39: The shifter operand of an instruction is the one of the architecture: the host's shifts, which
  keep below the width and treat each special case apart, give the same value and the same carry as
  shifts written as arithmetic on integers, for all ten forms, all amounts from 0 to 255, and the
  encodings in which an amount of 0 stands for 32 or for a rotation through the carry. A word with a
  register shift and bit 7 set has no shifter operand.
\<close>

theorem shifter_operand_matches_reference:
  assumes "CFlag cpu \<le> 1"
  shows "SHIFTER_OPERAND (GetShifterOp inst) (BITS inst 0 11) cpu =
    (if \<not> bit inst 25 \<and> bit inst 4 \<and> bit inst 7 then None
     else let (operand, carry) = reference_operand cpu inst
          in Some (operand, cpu\<lparr>shifter_carry_out := of_bool carry\<rparr>))"
proof -
  obtain b where c: "CFlag cpu = of_bool b" using carry_bool [OF assms] by blast
  let ?low = "BITS inst 0 11"
  have f: "BITS ?low 0 7 = BITS inst 0 7" "BITS ?low 8 11 = BITS inst 8 11" "BITS ?low 7 11 = BITS inst 7 11"
    "BITS ?low 5 6 = BITS inst 5 6" "reg_field ?low 0 = reg_field inst 0" "reg_field ?low 8 = reg_field inst 8"
    by (simp_all add: BITS_low reg_field_low)
  note imm = immediate_shift [OF c refl, of ?low, unfolded f]
  note reg = register_shift [OF c refl, of ?low, unfolded f]
  show ?thesis
  proof (cases "bit inst 25")
    case True
    then show ?thesis
      using immediate_rotation [OF c, of ?low, unfolded f]
      by (simp add: SHIFTER_OPERAND_def GetShifterOp_def BIT_bit reference_operand_def with_carry_def c split_def)
  next
    case False
    show ?thesis
    proof (cases "bit inst 4")
      case True
      with False show ?thesis using reg
        by (simp add: GetShifterOp_fields SHIFTER_OPERAND_def reference_operand_def with_carry_def c split_def Let_def)
    next
      case bit4: False
      show ?thesis
      proof (cases "unat (BITS inst 5 6) = 0 \<and> unat (BITS inst 7 11) = 0")
        case True
        with False bit4 show ?thesis
          by (simp add: GetShifterOp_fields SHIFTER_OPERAND_def reference_operand_def shift_Register_def f c
            Shift_C_zero)
      next
        case other: False
        with False bit4 show ?thesis using imm
          by (auto simp: GetShifterOp_fields SHIFTER_OPERAND_def reference_operand_def with_carry_def c split_def
            Let_def)
      qed
    qed
  qed
qed

theorem shifter_operand_matches_reference_witness:
  "SHIFTER_OPERAND (GetShifterOp 0xE1A00061) (BITS 0xE1A00061 0 11) (idle_core\<lparr>CFlag := 1, Reg := (\<lambda>_. 5)\<rparr>)
   = Some (0x80000002, idle_core\<lparr>CFlag := 1, Reg := (\<lambda>_. 5), shifter_carry_out := 1\<rparr>)"
  using shifter_operand_matches_reference [of "idle_core\<lparr>CFlag := 1, Reg := (\<lambda>_. 5)\<rparr>" "0xE1A00061"]
  by (simp add: reference_operand_def RRX_C_def CHECK_READ_REG15_def reg_field_def BITS_def)

end
