(* ===== verification/ArmLabelProps.thy ===== *)
theory ArmLabelProps imports ArmOperandProps begin

text \<open>
  The three tables of the interpreter, of encodings, of translators and of labels, against each other:
  what the translator of an entry fills in is what the label of the entry reads.
\<close>

section \<open>A failed condition\<close>

lemma CondPassed_always [simp]: "CondPassed cpu 14" "CondPassed cpu 15"
  by (simp_all add: CondPassed_def)

lemma when_failed:
  assumes "\<not> CondPassed cpu c"
  shows "when_passed c cpu body = Some (Next (advance cpu))"
    "branch_when_passed c cpu body = Some (Dispatch (advance cpu))"
  using assms by (auto simp: when_passed_def branch_when_passed_def)

lemma branch_if_pc_fields [simp]:
  "idx (branch_if_pc inst b) = idx b" "cond (branch_if_pc inst b) = cond b" "component (branch_if_pc inst b) = component b"
  by (simp_all add: branch_if_pc_def)

lemma translate_ldm_fields [simp]:
  "idx (translate_ldm inst i) = i" "cond (translate_ldm inst i) = BITS inst 28 31"
  "component (translate_ldm inst i) = ldst_inst inst (GetAddressingOp inst)"
  by (simp_all add: translate_ldm_def translate_ldst_def plain_inst_def Let_def)

lemma advance_arm: "TFlag cpu = 0 \<Longrightarrow> advance cpu = set_reg 15 (Reg cpu 15 + 4) cpu"
  by (simp add: advance_def GetInstructionSize_def)

text \<open>The label passes over every word that the translator has seen, when the condition fails.\<close>

definition skips :: "u32 \<Rightarrow> (u32 \<Rightarrow> nat \<Rightarrow> arm_inst) \<Rightarrow> executor \<Rightarrow> bool" where
  "skips inst t f \<longleftrightarrow> (\<forall>i D cpu. \<not> CondPassed cpu (BITS inst 28 31) \<longrightarrow> TFlag cpu = 0 \<longrightarrow> idx (t inst i) = i \<and>
     f D (cond (t inst i)) (component (t inst i)) cpu \<in> {Some (Next (advance cpu)), Some (Dispatch (advance cpu))})"

lemmas label_defs = ADC_INST_def ADD_INST_def AND_INST_def BIC_INST_def EOR_INST_def ORR_INST_def RSB_INST_def
  RSC_INST_def SBC_INST_def SUB_INST_def TST_INST_def CMN_INST_def CMP_INST_def TEQ_INST_def CPY_INST_def
  MOV_INST_def MVN_INST_def CLZ_INST_def BBL_INST_def BLX_INST_def BX_INST_def B_2_THUMB_def B_COND_THUMB_def
  BL_1_THUMB_def BL_2_THUMB_def BLX_1_THUMB_def CPS_INST_def MRS_INST_def MSR_INST_def MCR_INST_def MRC_INST_def
  SETEND_INST_def CLREX_INST_def SWI_INST_def CDP_INST_def NOP_INST_def QADD_INST_def QADD8_INST_def
  UQADD8_INST_def SSAT_INST_def USAT_INST_def SSAT16_INST_def USAT16_INST_def SADD8_INST_def SHADD8_INST_def
  UADD8_INST_def UHADD8_INST_def USAD8_INST_def SEL_INST_def PKHBT_INST_def PKHTB_INST_def REV_INST_def
  SXTB_INST_def SXTH_INST_def UXTB_INST_def UXTH_INST_def SXTAB_INST_def SXTAH_INST_def UXTAB_INST_def
  UXTAH_INST_def SXTAB16_INST_def UXTAB16_INST_def MUL_INST_def MLA_INST_def SMLA_INST_def SMUL_INST_def
  SMLAD_INST_def SMLAW_INST_def SMULW_INST_def SMMLA_INST_def SMULL_INST_def UMULL_INST_def SMLAL_INST_def
  UMLAL_INST_def UMAAL_INST_def SMLALXY_INST_def SMLALD_INST_def LDRCOND_INST_def LDRB_INST_def LDRH_INST_def
  LDRSB_INST_def LDRSH_INST_def LDRBT_INST_def LDRT_INST_def STR_INST_def STRB_INST_def STRH_INST_def
  STRBT_INST_def STRT_INST_def LDRD_INST_def STRD_INST_def LDREX_INST_def LDREXB_INST_def LDREXH_INST_def
  LDREXD_INST_def STREX_INST_def STREXB_INST_def STREXH_INST_def STREXD_INST_def SWP_INST_def SWPB_INST_def
  LDM_INST_def STM_INST_def RFE_INST_def SRS_INST_def

lemmas translator_defs = plain_inst_def translate_data_def translate_adc_def translate_add_def translate_and_def
  translate_bic_def translate_eor_def translate_orr_def translate_rsb_def translate_rsc_def translate_sbc_def
  translate_sub_def translate_tst_def translate_cmp_def translate_cmn_def translate_teq_def translate_mov_def
  translate_cpy_def translate_mvn_def translate_bbl_def translate_bkpt_def translate_blx_def translate_bx_def
  translate_bxj_def translate_clz_def translate_cps_def translate_mcr_def translate_mrc_def translate_mrs_def
  translate_msr_def translate_setend_def translate_swi_def translate_nop_def translate_cdp_def
  translate_clrex_def translate_ldc_def translate_stc_def translate_mcrr_def translate_mrrc_def
  translate_pld_def translate_sev_def translate_wfe_def translate_wfi_def translate_yield_def translate_ldst_def
  translate_ldst_t_def translate_ldr_def translate_ldrcond_def translate_ldrb_def
  translate_ldrd_def translate_ldrh_def translate_ldrsb_def translate_ldrsh_def translate_stm_def
  translate_str_def translate_strb_def translate_strd_def translate_strh_def translate_ldrbt_def
  translate_strbt_def translate_strt_def translate_ldrt_def translate_rfe_def translate_srs_def
  translate_ldrex_def translate_ldrexb_def translate_ldrexh_def translate_ldrexd_def translate_strex_def
  translate_strexb_def translate_strexh_def translate_strexd_def translate_swp_def translate_swpb_def
  translate_mla_def translate_mul_def translate_smla_def translate_smlad_def translate_smuad_def
  translate_smusd_def translate_smlsd_def translate_smlal_def translate_smull_def translate_umlal_def
  translate_umull_def translate_smlalxy_def translate_smlaw_def translate_smlald_def translate_smlsld_def
  translate_smmla_def translate_smmls_def translate_smmul_def translate_smul_def translate_smulw_def
  translate_umaal_def translate_qadd_def translate_qdadd_def translate_qdsub_def translate_qsub_def
  translate_qadd8_def translate_qadd16_def translate_qaddsubx_def translate_qsub8_def translate_qsub16_def
  translate_qsubaddx_def translate_sadd8_def translate_sadd16_def translate_saddsubx_def translate_ssub8_def
  translate_ssub16_def translate_ssubaddx_def translate_shadd8_def translate_shadd16_def translate_shaddsubx_def
  translate_shsub8_def translate_shsub16_def translate_shsubaddx_def translate_uadd8_def translate_uadd16_def
  translate_uaddsubx_def translate_usub8_def translate_usub16_def translate_usubaddx_def translate_uhadd8_def
  translate_uhadd16_def translate_uhaddsubx_def translate_uhsub8_def translate_uhsub16_def
  translate_uhsubaddx_def translate_uqadd8_def translate_uqadd16_def translate_uqaddsubx_def
  translate_uqsub8_def translate_uqsub16_def translate_uqsubaddx_def translate_sel_def translate_usada8_def
  translate_usad8_def translate_pkhbt_def translate_pkhtb_def translate_rev_def translate_rev16_def
  translate_revsh_def translate_ssat_def translate_ssat16_def translate_usat_def translate_usat16_def
  translate_sxtb_def translate_sxth_def translate_uxtb_def translate_uxth_def translate_sxtab_def
  translate_sxtah_def translate_uxtab_def translate_uxtah_def translate_sxtab16_def translate_uxtab16_def
  translate_sxtb16_def translate_uxtb16_def translate_b_2_thumb_def translate_b_cond_thumb_def
  translate_bl_1_thumb_def translate_bl_2_thumb_def translate_blx_1_thumb_def translate_vfp_def

lemmas cast_defs = on_data_def on_cmp_def on_mov_def on_ldst_def on_exception_def on_generic_def
  on_exclusive_def on_bbl_def on_bx_def on_blx_def on_clz_def on_cps_def on_cp_def on_mla_def on_mul_def
  on_mrs_def on_msr_def on_pkh_def on_rev_def on_setend_def on_smla_def on_smlad_def on_smlalxy_def
  on_smlald_def on_smul_def on_umull_def on_umaal_def on_ssat_def on_swi_def on_swp_def on_extend_def
  on_extend_add_def on_thumb_def on_thumb_cond_def on_clrex_def on_cdp_def on_nop_def

lemma skips_nop:
  "skips inst translate_bkpt on_nop"
  "skips inst translate_pld on_nop"
  "skips inst translate_mcrr on_nop"
  "skips inst translate_mrrc on_nop"
  "skips inst translate_stc on_nop"
  "skips inst translate_ldc on_nop"
  "skips inst translate_nop on_nop"
  "skips inst translate_yield on_nop"
  "skips inst translate_wfe on_nop"
  "skips inst translate_wfi on_nop"
  "skips inst translate_sev on_nop"
  by (simp_all add: skips_def cast_defs translator_defs label_defs when_failed)

lemma skips_blx:
  "skips inst translate_blx on_blx"
  by (simp_all add: skips_def cast_defs translator_defs label_defs when_failed)

lemma skips_rev:
  "skips inst translate_rev16 on_rev"
  "skips inst translate_rev on_rev"
  "skips inst translate_revsh on_rev"
  by (simp_all add: skips_def cast_defs translator_defs label_defs when_failed)

lemma skips_generic:
  "skips inst translate_usad8 (on_generic USAD8_INST)"
  "skips inst translate_ssub8 (on_generic SADD8_INST)"
  "skips inst translate_shsub8 (on_generic SHADD8_INST)"
  "skips inst translate_ssubaddx (on_generic SADD8_INST)"
  "skips inst translate_ssub16 (on_generic SADD8_INST)"
  "skips inst translate_shsubaddx (on_generic SHADD8_INST)"
  "skips inst translate_qsubaddx (on_generic QADD8_INST)"
  "skips inst translate_shaddsubx (on_generic SHADD8_INST)"
  "skips inst translate_shadd8 (on_generic SHADD8_INST)"
  "skips inst translate_shadd16 (on_generic SHADD8_INST)"
  "skips inst translate_sel (on_generic SEL_INST)"
  "skips inst translate_saddsubx (on_generic SADD8_INST)"
  "skips inst translate_sadd8 (on_generic SADD8_INST)"
  "skips inst translate_sadd16 (on_generic SADD8_INST)"
  "skips inst translate_shsub16 (on_generic SHADD8_INST)"
  "skips inst translate_usubaddx (on_generic UADD8_INST)"
  "skips inst translate_usub8 (on_generic UADD8_INST)"
  "skips inst translate_usub16 (on_generic UADD8_INST)"
  "skips inst translate_usada8 (on_generic USAD8_INST)"
  "skips inst translate_uqsubaddx (on_generic UQADD8_INST)"
  "skips inst translate_uqsub8 (on_generic UQADD8_INST)"
  "skips inst translate_uqsub16 (on_generic UQADD8_INST)"
  "skips inst translate_uqaddsubx (on_generic UQADD8_INST)"
  "skips inst translate_uqadd8 (on_generic UQADD8_INST)"
  "skips inst translate_uqadd16 (on_generic UQADD8_INST)"
  "skips inst translate_uhsubaddx (on_generic UHADD8_INST)"
  "skips inst translate_uhsub8 (on_generic UHADD8_INST)"
  "skips inst translate_uhsub16 (on_generic UHADD8_INST)"
  "skips inst translate_uhaddsubx (on_generic UHADD8_INST)"
  "skips inst translate_uhadd8 (on_generic UHADD8_INST)"
  "skips inst translate_uhadd16 (on_generic UHADD8_INST)"
  "skips inst translate_uaddsubx (on_generic UADD8_INST)"
  "skips inst translate_uadd8 (on_generic UADD8_INST)"
  "skips inst translate_uadd16 (on_generic UADD8_INST)"
  "skips inst translate_qadd8 (on_generic QADD8_INST)"
  "skips inst translate_qadd (on_generic QADD_INST)"
  "skips inst translate_qadd16 (on_generic QADD8_INST)"
  "skips inst translate_qaddsubx (on_generic QADD8_INST)"
  "skips inst translate_qdadd (on_generic QADD_INST)"
  "skips inst translate_qdsub (on_generic QADD_INST)"
  "skips inst translate_qsub (on_generic QADD_INST)"
  "skips inst translate_qsub8 (on_generic QADD8_INST)"
  "skips inst translate_qsub16 (on_generic QADD8_INST)"
  by (simp_all add: skips_def cast_defs translator_defs label_defs when_failed)

lemma skips_extend:
  "skips inst translate_sxtb (on_extend SXTB_INST)"
  "skips inst translate_uxtb (on_extend UXTB_INST)"
  "skips inst translate_sxth (on_extend SXTH_INST)"
  "skips inst translate_uxth (on_extend UXTH_INST)"
  by (simp_all add: skips_def cast_defs translator_defs label_defs when_failed)

lemma skips_extend_add:
  "skips inst translate_sxtb16 (on_extend_add SXTAB16_INST)"
  "skips inst translate_uxtb16 (on_extend_add UXTAB16_INST)"
  "skips inst translate_uxtab (on_extend_add UXTAB_INST)"
  "skips inst translate_uxtab16 (on_extend_add UXTAB16_INST)"
  "skips inst translate_sxtab (on_extend_add SXTAB_INST)"
  "skips inst translate_sxtah (on_extend_add SXTAH_INST)"
  "skips inst translate_sxtab16 (on_extend_add SXTAB16_INST)"
  "skips inst translate_uxtah (on_extend_add UXTAH_INST)"
  by (simp_all add: skips_def cast_defs translator_defs label_defs when_failed)

lemma skips_mov:
  "skips inst translate_cpy (on_mov CPY_INST)"
  "skips inst translate_mvn (on_mov MVN_INST)"
  "skips inst translate_mov (on_mov MOV_INST)"
  by (simp_all add: skips_def cast_defs translator_defs label_defs when_failed)

lemma skips_exclusive:
  "skips inst translate_strex (on_exclusive STREX_INST)"
  "skips inst translate_strexb (on_exclusive STREXB_INST)"
  "skips inst translate_ldrex (on_exclusive LDREX_INST)"
  "skips inst translate_ldrexb (on_exclusive LDREXB_INST)"
  "skips inst translate_ldrexd (on_exclusive LDREXD_INST)"
  "skips inst translate_strexd (on_exclusive STREXD_INST)"
  "skips inst translate_ldrexh (on_exclusive LDREXH_INST)"
  "skips inst translate_strexh (on_exclusive STREXH_INST)"
  by (simp_all add: skips_def cast_defs translator_defs label_defs when_failed)

lemma skips_swp:
  "skips inst translate_swp (on_swp SWP_INST)"
  "skips inst translate_swpb (on_swp SWPB_INST)"
  by (simp_all add: skips_def cast_defs translator_defs label_defs when_failed)

lemma skips_ssat:
  "skips inst translate_ssat16 (on_ssat SSAT16_INST)"
  "skips inst translate_usat16 (on_ssat USAT16_INST)"
  "skips inst translate_ssat (on_ssat SSAT_INST)"
  "skips inst translate_usat (on_ssat USAT_INST)"
  by (simp_all add: skips_def cast_defs translator_defs label_defs when_failed)

lemma skips_umaal:
  "skips inst translate_umaal on_umaal"
  by (simp_all add: skips_def cast_defs translator_defs label_defs when_failed)

lemma skips_bx:
  "skips inst translate_bxj on_bx"
  "skips inst translate_bx on_bx"
  by (simp_all add: skips_def cast_defs translator_defs label_defs when_failed)

lemma skips_clz:
  "skips inst translate_clz on_clz"
  by (simp_all add: skips_def cast_defs translator_defs label_defs when_failed)

lemma skips_smlad:
  "skips inst translate_smuad (on_smlad SMLAD_INST)"
  "skips inst translate_smmul (on_smlad SMMLA_INST)"
  "skips inst translate_smusd (on_smlad SMLAD_INST)"
  "skips inst translate_smlsd (on_smlad SMLAD_INST)"
  "skips inst translate_smmla (on_smlad SMMLA_INST)"
  "skips inst translate_smmls (on_smlad SMMLA_INST)"
  "skips inst translate_smlad (on_smlad SMLAD_INST)"
  "skips inst translate_smlaw (on_smlad SMLAW_INST)"
  "skips inst translate_smulw (on_smlad SMULW_INST)"
  by (simp_all add: skips_def cast_defs translator_defs label_defs when_failed)

lemma skips_smlald:
  "skips inst translate_smlsld on_smlald"
  "skips inst translate_smlald on_smlald"
  by (simp_all add: skips_def cast_defs translator_defs label_defs when_failed)

lemma skips_pkh:
  "skips inst translate_pkhtb (on_pkh PKHTB_INST)"
  "skips inst translate_pkhbt (on_pkh PKHBT_INST)"
  by (simp_all add: skips_def cast_defs translator_defs label_defs when_failed)

lemma skips_smul:
  "skips inst translate_smul on_smul"
  by (simp_all add: skips_def cast_defs translator_defs label_defs when_failed)

lemma skips_smlalxy:
  "skips inst translate_smlalxy on_smlalxy"
  by (simp_all add: skips_def cast_defs translator_defs label_defs when_failed)

lemma skips_smla:
  "skips inst translate_smla on_smla"
  by (simp_all add: skips_def cast_defs translator_defs label_defs when_failed)

lemma skips_cmp:
  "skips inst translate_cmp (on_cmp CMP_INST)"
  "skips inst translate_teq (on_cmp TEQ_INST)"
  "skips inst translate_cmn (on_cmp CMN_INST)"
  by (simp_all add: skips_def cast_defs translator_defs label_defs when_failed)

lemma skips_data:
  "skips inst translate_tst (on_data TST_INST)"
  "skips inst translate_and (on_data AND_INST)"
  "skips inst translate_bic (on_data BIC_INST)"
  "skips inst translate_eor (on_data EOR_INST)"
  "skips inst translate_add (on_data ADD_INST)"
  "skips inst translate_rsb (on_data RSB_INST)"
  "skips inst translate_rsc (on_data RSC_INST)"
  "skips inst translate_sbc (on_data SBC_INST)"
  "skips inst translate_adc (on_data ADC_INST)"
  "skips inst translate_sub (on_data SUB_INST)"
  "skips inst translate_orr (on_data ORR_INST)"
  by (simp_all add: skips_def cast_defs translator_defs label_defs when_failed)

lemma skips_umull:
  "skips inst translate_smull (on_umull SMULL_INST)"
  "skips inst translate_umull (on_umull UMULL_INST)"
  "skips inst translate_umlal (on_umull UMLAL_INST)"
  "skips inst translate_smlal (on_umull SMLAL_INST)"
  by (simp_all add: skips_def cast_defs translator_defs label_defs when_failed)

lemma skips_mul:
  "skips inst translate_mul on_mul"
  by (simp_all add: skips_def cast_defs translator_defs label_defs when_failed)

lemma skips_mla:
  "skips inst translate_mla on_mla"
  by (simp_all add: skips_def cast_defs translator_defs label_defs when_failed)

lemma skips_mrs:
  "skips inst translate_mrs on_mrs"
  by (simp_all add: skips_def cast_defs translator_defs label_defs when_failed)

lemma skips_msr:
  "skips inst translate_msr on_msr"
  by (simp_all add: skips_def cast_defs translator_defs label_defs when_failed)

lemma skips_ldst:
  "skips inst translate_ldm (on_ldst LDM_INST)"
  "skips inst translate_stm (on_ldst STM_INST)"
  "skips inst translate_ldrsh (on_ldst LDRSH_INST)"
  "skips inst translate_ldrsb (on_ldst LDRSB_INST)"
  "skips inst translate_strd (on_ldst STRD_INST)"
  "skips inst translate_ldrh (on_ldst LDRH_INST)"
  "skips inst translate_strh (on_ldst STRH_INST)"
  "skips inst translate_ldrd (on_ldst LDRD_INST)"
  "skips inst translate_strt (on_ldst STRT_INST)"
  "skips inst translate_strbt (on_ldst STRBT_INST)"
  "skips inst translate_ldrbt (on_ldst LDRBT_INST)"
  "skips inst translate_ldrt (on_ldst LDRT_INST)"
  "skips inst translate_ldrb (on_ldst LDRB_INST)"
  "skips inst translate_strb (on_ldst STRB_INST)"
  "skips inst translate_ldrcond (on_ldst LDRCOND_INST)"
  "skips inst translate_str (on_ldst STR_INST)"
  by (simp_all add: skips_def cast_defs translator_defs label_defs when_failed advance_arm)

lemma skips_cp:
  "skips inst translate_mrc (on_cp MRC_INST)"
  "skips inst translate_mcr (on_cp MCR_INST)"
  by (simp_all add: skips_def cast_defs translator_defs label_defs when_failed)

lemma skips_cdp:
  "skips inst translate_cdp on_cdp"
  by (simp_all add: skips_def cast_defs translator_defs label_defs when_failed)

lemma skips_swi:
  "skips inst translate_swi on_swi"
  by (simp_all add: skips_def cast_defs translator_defs label_defs when_failed)

lemma skips_bbl:
  "skips inst translate_bbl on_bbl"
  by (simp_all add: skips_def cast_defs translator_defs label_defs when_failed)

section \<open>The tables\<close>

text \<open>Entries whose encoding fixes the condition to one that always holds.\<close>

lemma always_passed:
  "unat (BITS inst 28 31) = 15 \<or> unat (BITS inst 28 31) = 14 \<Longrightarrow> CondPassed cpu (BITS inst 28 31)"
proof -
  assume "unat (BITS inst 28 31) = 15 \<or> unat (BITS inst 28 31) = 14"
  then have "BITS inst 28 31 = 15 \<or> BITS inst 28 31 = 14" by (simp add: word_as_nat)
  then show ?thesis by auto
qed

lemma skips_passed: "unat (BITS inst 28 31) = 15 \<or> unat (BITS inst 28 31) = 14 \<Longrightarrow> skips inst t f"
  using always_passed by (simp add: skips_def)

lemma top_of_field:
  assumes "BITS inst a 31 = v" "a < 28" "unat v div 2 ^ (28 - a) = 15"
  shows "unat (BITS inst 28 31) = 15"
proof -
  have "unat v = unat (BITS inst a 27) + 2 ^ (28 - a) * unat (BITS inst 28 31)"
    using BITS_split [of a 27 31 inst] assms(1, 2) by simp
  moreover have "unat (BITS inst a 27) < 2 ^ (28 - a)"
    using assms(2) by (simp add: unat_BITS)
  ultimately show ?thesis using assms(3) by simp
qed

definition row_skips :: "InstructionSetEncodingItem \<times> (u32 \<Rightarrow> nat \<Rightarrow> arm_inst) \<times> executor \<Rightarrow> bool" where
  "row_skips r = (case r of ((n, version, content), t, f) \<Rightarrow>
     \<forall>inst. fields_match inst n content \<longrightarrow> skips inst t f)"

lemma row_skipsI: "(\<And>inst. skips inst t f) \<Longrightarrow> row_skips ((n, version, content), t, f)"
  by (simp add: row_skips_def)

lemma row_passes:
  "0 < n \<Longrightarrow> row_skips ((n, version, (28, 31, 14) # content), t, f)"
  "0 < n \<Longrightarrow> 0 < a \<Longrightarrow> a < 28 \<Longrightarrow> unat v div 2 ^ (28 - a) = 15 \<Longrightarrow>
     row_skips ((n, version, (a, 31, v) # content), t, f)"
  "0 < n \<Longrightarrow> unat v div 2 ^ 28 = 15 \<Longrightarrow> row_skips ((n, version, (0, 31, v) # content), t, f)"
  by (cases n; auto simp: row_skips_def unat_BITS intro!: skips_passed intro: top_of_field)+

lemmas skips_rules = skips_nop skips_blx skips_rev skips_generic skips_extend skips_extend_add skips_mov skips_exclusive
  skips_swp skips_ssat skips_umaal skips_bx skips_clz skips_smlad skips_smlald skips_pkh
  skips_smul skips_smlalxy skips_smla skips_cmp skips_data skips_umull skips_mul skips_mla
  skips_mrs skips_msr skips_ldst skips_cp skips_cdp skips_swi skips_bbl

lemma rows_skip:
  "list_all row_skips (zip (drop 32 arm_instruction) (zip (drop 32 arm_instruction_trans) (drop 32 (InstLabel vfp))))"
  unfolding arm_instruction_def arm_instruction_trans_def InstLabel_def
  by (simp add: row_skipsI skips_rules row_passes)

lemma decode_in_entry: "decode_in inst es = Some i \<Longrightarrow> \<exists>p \<in> set es. fst p = i \<and> entry_matches inst (snd p)"
  by (induction es) (auto simp del: split_paired_Ex split: if_splits)

lemma table_lengths:
  "length arm_instruction = 197" "length arm_instruction_trans = 202" "length (InstLabel vfp) = 202"
  by (simp_all add: arm_instruction_def arm_instruction_trans_def InstLabel_def)

lemma decoded_entry:
  assumes "DecodeARMInstruction inst = Some i"
  obtains n version content where "i < 197" "arm_instruction ! i = (n, version, content)"
    "fields_match inst n content"
proof -
  have e: "i < length decode_table" "entry_matches inst (decode_table ! i)"
    using decode_in_entry [of inst numbered_table i] assms
    by (auto simp: DecodeARMInstruction_in numbered_table_def in_set_enumerate_eq simp del: split_paired_Ex)
  then have i: "i < length arm_instruction" "i < length arm_exclusion_code" by (simp_all add: decode_table_def)
  obtain n version content where a: "arm_instruction ! i = (n, version, content)" by (metis prod.exhaust)
  have "fields_match inst n content"
    using e(2) i a by (auto simp: decode_table_def entry_matches_def split: prod.splits)
  with that i(1) a show thesis by (simp add: table_lengths)
qed

text \<open>
  C40: An instruction whose condition fails does nothing but move the program counter on: for every word
  that the decoder accepts outside floating point, whichever of the 165 entries it selects, the label
  of the entry finds the structure that the translator of the entry has filled, tests the condition of
  the word, and goes on behind the instruction, with all other registers, the flags, the memory and
  the exclusive monitor as they were. Labels without a test belong to words that always pass.
\<close>

theorem failed_condition_skips:
  assumes "DecodeARMInstruction inst = Some i" "32 \<le> i"
    and "\<not> CondPassed cpu (BITS inst 28 31)" "TFlag cpu = 0"
  shows "execute vfp D (arm_instruction_of i inst) cpu
    \<in> {Some (Next (set_reg 15 (Reg cpu 15 + 4) cpu)), Some (Dispatch (set_reg 15 (Reg cpu 15 + 4) cpu))}"
proof -
  obtain n version content where e: "i < 197" "arm_instruction ! i = (n, version, content)"
    "fields_match inst n content" using decoded_entry [OF assms(1)] .
  define k where "k = i - 32"
  have k: "k < 165" "i = 32 + k" using e(1) assms(2) by (simp_all add: k_def)
  have "row_skips (arm_instruction ! i, arm_instruction_trans ! i, InstLabel vfp ! i)"
    using rows_skip [of vfp] k by (simp add: list_all_length table_lengths)
  then have "skips inst (arm_instruction_trans ! i) (InstLabel vfp ! i)"
    using e(2, 3) by (simp add: row_skips_def)
  then show ?thesis
    using assms(3, 4) e(1)
    by (simp add: skips_def execute_def arm_instruction_of_def table_lengths advance_arm)
qed

lemma fields_verdict_numeral:
  "fields_verdict m v (numeral k) (t # content) = verdict_and (field_verdict m v t) (fields_verdict m v (pred_numeral k) content)"
  by (simp add: numeral_eq_Suc)

lemmas class_simps = field_verdict_def field_mask_def Let_def BITS_def mask_numeral entry_verdict_def
  fields_verdict_numeral numbered_table_def decode_table_def arm_instruction_def arm_exclusion_code_def

lemma decode_sxtbeq: "DecodeARMInstruction 0x06AF0071 = Some 42"
  by (rule DecodeARMInstruction_class [of _ "0xFFFFFFFF"]) (simp, simp add: class_simps)

theorem failed_condition_skips_witness:
  "execute (vfp_label idle_host) idle_devices (arm_instruction_of 42 0x06AF0071) idle_core
    \<in> {Some (Next (idle_core\<lparr>Reg := (\<lambda>_. 0)(15 := 4)\<rparr>)), Some (Dispatch (idle_core\<lparr>Reg := (\<lambda>_. 0)(15 := 4)\<rparr>))}"
proof -
  have "\<not> CondPassed idle_core (BITS 0x06AF0071 28 31)" "TFlag idle_core = 0" "(32 :: nat) \<le> 42"
    by (simp_all add: CondPassed_def BITS_def idle_core_def)
  from failed_condition_skips [OF decode_sxtbeq this(3) this(1, 2), of "vfp_label idle_host" idle_devices]
  show ?thesis by (simp add: set_reg_def idle_core_def)
qed

end
