(* ===== verification/ArmDataProps.thy ===== *)
theory ArmDataProps imports ArmOperandProps begin

text \<open>
  What the data processing labels mean: comparisons decide the conditions, long sums are carried from
  word to word, and a change of the privilege mode keeps the registers of the mode it leaves.
\<close>

section \<open>Comparison\<close>

lemma sint_diff_u32:
  "sint ((a :: u32) - b) =
     (if sint a - sint b < - 2147483648 then sint a - sint b + 4294967296
      else if 2147483648 \<le> sint a - sint b then sint a - sint b - 4294967296 else sint a - sint b)"
proof -
  have "sint (a - b) = signed_take_bit 31 (sint a - sint b)" by (simp add: sint_word_ariths)
  moreover have "- (2 * 2147483648) \<le> sint a - sint b" "sint a - sint b < 2 * 2147483648"
    using sint_range_u32 [of a] sint_range_u32 [of b] by linarith+
  note stake_cases [OF this, of 31]
  ultimately show ?thesis by simp
qed

lemma sint_not: "sint (NOT (b :: u32)) = - sint b - 1"
proof -
  have "NOT b = word_of_int (- sint b - 1)" by (simp add: not_eq_complement)
  then have "sint (NOT b) = signed_take_bit 31 (- sint b - 1)" by (simp only: sint_sbintrunc') simp
  also have "\<dots> = - sint b - 1"
    using sint_range_u32 [of b] by (intro signed_take_bit_int_eq_self) simp_all
  finally show ?thesis .
qed

lemma unat_not: "unat (NOT (b :: u32)) = 4294967295 - unat b"
proof -
  have "NOT b = 0xFFFFFFFF - b" by (simp add: not_eq_complement)
  moreover have "b \<le> 0xFFFFFFFF" using unat_lt_u32 [of b] by (simp add: word_le_nat_alt)
  ultimately show ?thesis by (simp add: unat_sub)
qed

lemma AddWithCarry_minus:
  "AddWithCarry a (NOT b) 1 = (a - b, unat b \<le> unat a, sint (a - b) \<noteq> sint a - sint b)"
proof -
  have s: "a + NOT b + 1 = a - b" by (simp add: not_eq_complement)
  moreover have "unat b < 4294967296" by (rule unat_lt_u32)
  then have "4294967296 \<le> unat a + (4294967295 - unat b) + 1 \<longleftrightarrow> unat b \<le> unat a" by linarith
  ultimately show ?thesis by (simp only: AddWithCarry_integers s sint_not unat_not) simp
qed

lemma advance_fields [simp]:
  "NFlag (advance cpu) = NFlag cpu" "ZFlag (advance cpu) = ZFlag cpu" "CFlag (advance cpu) = CFlag cpu"
  "VFlag (advance cpu) = VFlag cpu" "memory (advance cpu) = memory cpu" "Mode (advance cpu) = Mode cpu"
  "r \<noteq> 15 \<Longrightarrow> Reg (advance cpu) r = Reg cpu r"
  by (simp_all add: advance_def set_reg_def)

lemma arith_flags_fields [simp]:
  "NFlag (arith_flags v c o1 cpu) = of_bool (sint v < 0)" "ZFlag (arith_flags v c o1 cpu) = of_bool (v = 0)"
  "CFlag (arith_flags v c o1 cpu) = of_bool c" "VFlag (arith_flags v c o1 cpu) = of_bool o1"
  "Reg (arith_flags v c o1 cpu) = Reg cpu" "memory (arith_flags v c o1 cpu) = memory cpu"
  "Mode (arith_flags v c o1 cpu) = Mode cpu"
  by (simp_all add: arith_flags_def set_CV_def set_NZ_def BIT_bit bit_31_iff)

text \<open>The relation of two operands that a condition stands for after their comparison.\<close>

definition condition_holds :: "u32 \<Rightarrow> u32 \<Rightarrow> u32 \<Rightarrow> bool" where
  "condition_holds c a b =
     [a = b, a \<noteq> b, unat b \<le> unat a, unat a < unat b, sint (a - b) < 0, 0 \<le> sint (a - b),
      sint (a - b) \<noteq> sint a - sint b, sint (a - b) = sint a - sint b, unat b < unat a, unat a \<le> unat b,
      sint b \<le> sint a, sint a < sint b, sint b < sint a, sint a \<le> sint b, True, True] ! unat c"

lemma CondPassed_flags:
  assumes "unat c < 16"
  shows "CondPassed (arith_flags v ca ov cpu) c =
    [v = 0, v \<noteq> 0, ca, \<not> ca, sint v < 0, \<not> sint v < 0, ov, \<not> ov, ca \<and> v \<noteq> 0, \<not> ca \<or> v = 0,
     (sint v < 0) = ov, (sint v < 0) \<noteq> ov, v \<noteq> 0 \<and> (sint v < 0) = ov, v = 0 \<or> (sint v < 0) \<noteq> ov, True, True] ! unat c"
proof -
  have "unat c = 0 \<or> unat c = 1 \<or> unat c = 2 \<or> unat c = 3 \<or> unat c = 4 \<or> unat c = 5 \<or> unat c = 6
    \<or> unat c = 7 \<or> unat c = 8 \<or> unat c = 9 \<or> unat c = 10 \<or> unat c = 11 \<or> unat c = 12 \<or> unat c = 13
    \<or> unat c = 14 \<or> unat c = 15" using assms by presburger
  then have "c \<in> {0, 1, 2, 3, 4, 5, 6, 7, 8, 9, 10, 11, 12, 13, 14, 15}" by (simp add: word_unat_eq_iff)
  then show ?thesis by (elim insertE; simp add: CondPassed_def Let_def)
qed

lemma signed_order:
  "(sint (a - b) < 0) = (sint (a - b) \<noteq> sint a - sint b) \<longleftrightarrow> sint b \<le> sint (a :: u32)"
  using sint_diff_u32 [of a b] sint_range_u32 [of a] sint_range_u32 [of b] by (auto split: if_splits)

lemma CondPassed_compared:
  assumes "unat c < 16"
  shows "CondPassed (arith_flags (a - b) (unat b \<le> unat a) (sint (a - b) \<noteq> sint a - sint b) cpu) c =
    condition_holds c a b"
proof -
  have u: "a \<noteq> b \<longleftrightarrow> unat a \<noteq> unat b" by (simp only: word_unat_eq_iff)
  have s: "a \<noteq> b \<longleftrightarrow> sint a \<noteq> sint b" by (auto intro: signed_word_eqI)
  have o1: "unat b \<le> unat a \<and> a \<noteq> b \<longleftrightarrow> unat b < unat a" "unat a < unat b \<or> a = b \<longleftrightarrow> unat a \<le> unat b"
    using u by linarith+
  have o2: "a \<noteq> b \<and> sint b \<le> sint a \<longleftrightarrow> sint b < sint a" "a = b \<or> sint a < sint b \<longleftrightarrow> sint a \<le> sint b"
    using s by linarith+
  have z: "a - b = 0 \<longleftrightarrow> a = b" by simp
  show ?thesis
    unfolding CondPassed_flags [OF assms] condition_holds_def
    by (simp only: signed_order z o1 o2 not_less not_le not_not)
qed

lemma SHIFTER_OPERAND_fields:
  assumes "SHIFTER_OPERAND sf so cpu = Some (b, cpu1)"
  shows "Reg cpu1 = Reg cpu" "memory cpu1 = memory cpu" "NFlag cpu1 = NFlag cpu" "ZFlag cpu1 = ZFlag cpu"
    "CFlag cpu1 = CFlag cpu" "VFlag cpu1 = VFlag cpu" "TFlag cpu1 = TFlag cpu" "Mode cpu1 = Mode cpu"
  using assms by (auto simp: SHIFTER_OPERAND_def split_def Let_def bind_eq_Some_conv)

text \<open>
  After a comparison of two operands every condition of the architecture holds exactly when the
  relation it is named after holds between them: equality, the unsigned orders, the signed orders also
  where the difference overflows, its sign, and the overflow itself. Registers other than the program
  counter and the memory are left alone. The second operand is any shifter operand.
\<close>

theorem CMP_decides_conditions:
  assumes "SHIFTER_OPERAND sf so cpu = Some (b, cpu1)"
  shows "\<exists>cpu2. CMP_INST 14 I Rn so sf cpu = Some (Next cpu2)
    \<and> (\<forall>c. unat c < 16 \<longrightarrow> CondPassed cpu2 c = condition_holds c (operand_RN cpu Rn) b)
    \<and> (\<forall>r. r \<noteq> 15 \<longrightarrow> Reg cpu2 r = Reg cpu r) \<and> memory cpu2 = memory cpu"
proof -
  let ?a = "operand_RN cpu Rn"
  let ?cpu2 = "advance (arith_flags (?a - b) (unat b \<le> unat ?a) (sint (?a - b) \<noteq> sint ?a - sint b) cpu1)"
  have 1: "Reg cpu1 = Reg cpu" "memory cpu1 = memory cpu"
    using assms by (rule SHIFTER_OPERAND_fields)+
  have "CMP_INST 14 I Rn so sf cpu = Some (Next ?cpu2)"
    by (simp add: CMP_INST_def when_passed_def assms compare_with_def AddWithCarry_minus Let_def)
  moreover have "CondPassed ?cpu2 c = condition_holds c ?a b" if "unat c < 16" for c
    using CondPassed_compared [OF that, of ?a b cpu1] by (simp add: CondPassed_def)
  ultimately show ?thesis using 1 by (intro exI [of _ ?cpu2]) simp
qed

theorem CMP_decides_conditions_witness:
  "\<exists>cpu2. CMP_INST 14 1 0 1 (Some DPO_Immediate) (idle_core\<lparr>Reg := (\<lambda>_. 0x80000000)\<rparr>) = Some (Next cpu2)
     \<and> CondPassed cpu2 11 \<and> CondPassed cpu2 8 \<and> \<not> CondPassed cpu2 10"
proof -
  let ?cpu = "idle_core\<lparr>Reg := (\<lambda>_. 0x80000000)\<rparr>"
  have "SHIFTER_OPERAND (Some DPO_Immediate) 1 ?cpu = Some (1, ?cpu\<lparr>shifter_carry_out := 0\<rparr>)"
    by (simp add: SHIFTER_OPERAND_def shift_Immediate_def BITS_def ROTATE_RIGHT_32_def idle_core_def)
  from CMP_decides_conditions [OF this, of 1 0] obtain cpu2
    where "CMP_INST 14 1 0 1 (Some DPO_Immediate) ?cpu = Some (Next cpu2)"
      and "\<And>c. unat c < 16 \<Longrightarrow> CondPassed cpu2 c = condition_holds c (operand_RN ?cpu 0) 1" by blast
  then show ?thesis by (auto simp: condition_holds_def operand_RN_def)
qed

section \<open>Sums of two words\<close>

definition long_nat :: "u32 \<Rightarrow> u32 \<Rightarrow> nat" where
  "long_nat hi lo = unat hi * 2 ^ 32 + unat lo"

definition long_int :: "u32 \<Rightarrow> u32 \<Rightarrow> int" where
  "long_int hi lo = sint hi * 2 ^ 32 + uint lo"

lemma unat_plus_carry: "unat (a + b + of_bool c :: u32) = (unat a + unat b + of_bool c) mod 2 ^ 32"
  by (simp add: unat_word_ariths mod_simps)

lemma low_sum:
  "unat a + unat b = of_bool (2 ^ 32 \<le> unat a + unat b) * 2 ^ 32 + unat (a + b :: u32)"
proof -
  have "(unat a + unat b) div 2 ^ 32 = of_bool (2 ^ 32 \<le> unat a + unat b)"
    using unat_lt_u32 [of a] unat_lt_u32 [of b] by (auto simp: div_nat_eqI)
  then show ?thesis
    using div_mult_mod_eq [of "unat a + unat b" "2 ^ 32"] by (simp add: unat_word_ariths)
qed

lemma long_sum:
  fixes a0 a1 b0 b1 :: u32
  defines "c \<equiv> 2 ^ 32 \<le> unat a0 + unat b0"
  defines "lo \<equiv> a0 + b0" and "hi \<equiv> a1 + b1 + of_bool c"
  shows "long_nat hi lo = (long_nat a1 a0 + long_nat b1 b0) mod 2 ^ 64"
    and "2 ^ 32 \<le> unat a1 + unat b1 + of_bool c \<longleftrightarrow> 2 ^ 64 \<le> long_nat a1 a0 + long_nat b1 b0"
    and "sint hi \<noteq> sint a1 + sint b1 + of_bool c \<longleftrightarrow> long_int hi lo \<noteq> long_int a1 a0 + long_int b1 b0"
proof -
  have low: "unat a0 + unat b0 = of_bool c * 2 ^ 32 + unat lo" unfolding c_def lo_def by (rule low_sum)
  have lo: "unat lo < 2 ^ 32" using unat_lt_u32 [of lo] by simp
  define h where "h = unat a1 + unat b1 + of_bool c"
  have sum: "long_nat a1 a0 + long_nat b1 b0 = h * 2 ^ 32 + unat lo"
    using low by (simp add: long_nat_def h_def algebra_simps)
  have "(h * 2 ^ 32 + unat lo) mod (2 ^ 32 * 2 ^ 32) = h mod 2 ^ 32 * 2 ^ 32 + unat lo"
    using lo by (subst mod_mult2_eq) simp
  then show "long_nat hi lo = (long_nat a1 a0 + long_nat b1 b0) mod 2 ^ 64"
    by (simp add: sum) (simp add: long_nat_def hi_def unat_plus_carry h_def)
  show "2 ^ 32 \<le> unat a1 + unat b1 + of_bool c \<longleftrightarrow> 2 ^ 64 \<le> long_nat a1 a0 + long_nat b1 b0"
    using lo unfolding sum h_def [symmetric] by (simp; linarith)
  have "uint a0 + uint b0 = of_bool c * 2 ^ 32 + uint lo"
    using arg_cong [OF low, of int] by simp
  then show "sint hi \<noteq> sint a1 + sint b1 + of_bool c \<longleftrightarrow> long_int hi lo \<noteq> long_int a1 a0 + long_int b1 b0"
    unfolding long_int_def by (auto simp: algebra_simps)
qed

text \<open>
  A sum of numbers of 64 bits made of an addition that sets the flags and one that adds the carry
  is the sum of the numbers modulo $2^{64}$, and the carry and overflow flags it leaves are the carry
  and the signed overflow of the long sum. The first sum may overwrite its own operands but not those
  of the second.
\<close>

theorem ADDS_ADCS_add_long:
  assumes "n0 < 15" "m0 < 15" "d0 < 15" "n1 < 15" "m1 < 15" "d1 < 15"
    and "d0 \<noteq> n1" "d0 \<noteq> m1" "d0 \<noteq> d1"
  shows "\<exists>cpu1 cpu2. ADD_INST 14 0 1 n0 d0 (of_nat m0) (Some DPO_Register) cpu = Some (Next cpu1)
    \<and> ADC_INST 14 0 1 n1 d1 (of_nat m1) (Some DPO_Register) cpu1 = Some (Next cpu2)
    \<and> long_nat (Reg cpu2 d1) (Reg cpu2 d0)
        = (long_nat (Reg cpu n1) (Reg cpu n0) + long_nat (Reg cpu m1) (Reg cpu m0)) mod 2 ^ 64
    \<and> CFlag cpu2 = of_bool (2 ^ 64 \<le> long_nat (Reg cpu n1) (Reg cpu n0) + long_nat (Reg cpu m1) (Reg cpu m0))
    \<and> VFlag cpu2 = of_bool (long_int (Reg cpu2 d1) (Reg cpu2 d0)
        \<noteq> long_int (Reg cpu n1) (Reg cpu n0) + long_int (Reg cpu m1) (Reg cpu m0))"
proof -
  have f: "reg_field (of_nat m) 0 = m" if "m < 15" for m
    using that by (simp add: reg_field_def unat_BITS take_bit_nat_eq_self)
  have op: "SHIFTER_OPERAND (Some DPO_Register) (of_nat m) cpu = Some (Reg cpu m, cpu\<lparr>shifter_carry_out := CFlag cpu\<rparr>)"
    if "m < 15" for m cpu
    using that by (simp add: SHIFTER_OPERAND_def shift_Register_def f CHECK_READ_REG15_def)
  let ?a0 = "Reg cpu n0" and ?b0 = "Reg cpu m0" and ?a1 = "Reg cpu n1" and ?b1 = "Reg cpu m1"
  let ?c = "2 ^ 32 \<le> unat ?a0 + unat ?b0"
  define cpu1 where "cpu1 = advance (arith_flags (?a0 + ?b0) ?c (sint (?a0 + ?b0) \<noteq> sint ?a0 + sint ?b0)
    (set_reg d0 (?a0 + ?b0) (cpu\<lparr>shifter_carry_out := CFlag cpu\<rparr>)))"
  let ?hi = "?a1 + ?b1 + of_bool ?c"
  define cpu2 where "cpu2 = advance (arith_flags ?hi (2 ^ 32 \<le> unat ?a1 + unat ?b1 + of_bool ?c)
    (sint ?hi \<noteq> sint ?a1 + sint ?b1 + of_bool ?c) (set_reg d1 ?hi (cpu1\<lparr>shifter_carry_out := CFlag cpu1\<rparr>)))"
  have 1: "ADD_INST 14 0 1 n0 d0 (of_nat m0) (Some DPO_Register) cpu = Some (Next cpu1)"
    using assms by (simp add: ADD_INST_def when_passed_def op finish_arith_def finish_data_def
      AddWithCarry_integers CHECK_READ_REG15_WA_def cpu1_def Let_def)
  have r1: "Reg cpu1 n1 = ?a1" "Reg cpu1 m1 = ?b1" "Reg cpu1 d0 = ?a0 + ?b0" "CFlag cpu1 = of_bool ?c"
    using assms by (simp_all add: cpu1_def set_reg_def)
  have 2: "ADC_INST 14 0 1 n1 d1 (of_nat m1) (Some DPO_Register) cpu1 = Some (Next cpu2)"
    using assms by (simp add: ADC_INST_def when_passed_def op finish_arith_def finish_data_def
      AddWithCarry_integers operand_RN_def r1 cpu2_def Let_def)
  have r2: "Reg cpu2 d1 = ?hi" "Reg cpu2 d0 = ?a0 + ?b0"
    "CFlag cpu2 = of_bool (2 ^ 32 \<le> unat ?a1 + unat ?b1 + of_bool ?c)"
    "VFlag cpu2 = of_bool (sint ?hi \<noteq> sint ?a1 + sint ?b1 + of_bool ?c)"
    using assms r1(3) by (simp_all add: cpu2_def set_reg_def)
  show ?thesis
    using 1 2 long_sum [where ?a0.0 = ?a0 and ?b0.0 = ?b0 and ?a1.0 = ?a1 and ?b1.0 = ?b1]
    by (intro exI [of _ cpu1] exI [of _ cpu2]) (simp only: r2)
qed

theorem ADDS_ADCS_add_long_witness:
  "\<exists>cpu1 cpu2. ADD_INST 14 0 1 0 0 2 (Some DPO_Register) (idle_core\<lparr>Reg := (\<lambda>_. 0xFFFFFFFF)\<rparr>) = Some (Next cpu1)
    \<and> ADC_INST 14 0 1 1 1 3 (Some DPO_Register) cpu1 = Some (Next cpu2)
    \<and> long_nat (Reg cpu2 1) (Reg cpu2 0) = 2 ^ 64 - 2 \<and> CFlag cpu2 = 1"
proof -
  let ?cpu = "idle_core\<lparr>Reg := (\<lambda>_. 0xFFFFFFFF)\<rparr>"
  have n: "long_nat (Reg ?cpu 1) (Reg ?cpu 0) = 2 ^ 64 - 1" "long_nat (Reg ?cpu 3) (Reg ?cpu 2) = 2 ^ 64 - 1"
    by (simp_all add: long_nat_def)
  obtain cpu1 cpu2 where *: "ADD_INST 14 0 1 0 0 2 (Some DPO_Register) ?cpu = Some (Next cpu1)"
    "ADC_INST 14 0 1 1 1 3 (Some DPO_Register) cpu1 = Some (Next cpu2)"
    "long_nat (Reg cpu2 1) (Reg cpu2 0) = (2 ^ 64 - 1 + (2 ^ 64 - 1)) mod 2 ^ 64"
    "CFlag cpu2 = of_bool ((2 :: nat) ^ 64 \<le> 2 ^ 64 - 1 + (2 ^ 64 - 1))"
    using ADDS_ADCS_add_long [of 0 2 0 1 3 1 ?cpu, unfolded n] by (auto simp del: One_nat_def)
  show ?thesis by (rule exI [of _ cpu1], rule exI [of _ cpu2]) (simp add: * del: One_nat_def)
qed

section \<open>Privilege modes\<close>

definition modes :: "u32 set" where
  "modes = {USER32MODE, FIQ32MODE, IRQ32MODE, SVC32MODE, ABORT32MODE, UNDEF32MODE, SYSTEM32MODE}"

lemma modes_low: "m \<in> modes \<Longrightarrow> m AND 31 = m"
  by (auto simp: modes_def)

lemma mode_bits_back:
  assumes "c AND 31 = m0" "m AND 31 = (m :: u32)"
  shows "((((c AND NOT m0) OR m) AND NOT m) OR m0) = c"
proof (rule bit_word_eqI)
  fix n assume "n < LENGTH(32)"
  have "bit m0 n \<longleftrightarrow> bit c n \<and> bit (31 :: u32) n" "bit m n \<longleftrightarrow> bit m n \<and> bit (31 :: u32) n"
    using assms by (metis bit_and_iff)+
  then show "bit ((((c AND NOT m0) OR m) AND NOT m) OR m0) n \<longleftrightarrow> bit c n"
    using \<open>n < LENGTH(32)\<close> by (auto simp: bit_and_iff bit_or_iff bit_not_iff)
qed

text \<open>The two words a mode banks: its registers 13 and 14.\<close>

definition bank_of :: "u32 \<Rightarrow> ARMul_State \<Rightarrow> nat \<Rightarrow> u32" where
  "bank_of m cpu =
     (if m = IRQ32MODE then Reg_irq cpu else if m = SVC32MODE then Reg_svc cpu
      else if m = ABORT32MODE then Reg_abort cpu else if m = UNDEF32MODE then Reg_undef cpu
      else if m = FIQ32MODE then (\<lambda>i. Reg_firq cpu (i + 5)) else Reg_usr cpu)"

definition same_bank :: "u32 \<Rightarrow> u32 \<Rightarrow> bool" where
  "same_bank m k \<longleftrightarrow> m = k \<or> {m, k} = {USER32MODE, SYSTEM32MODE}"

lemma save_bank_two:
  "Mode cpu \<in> modes \<Longrightarrow> m \<in> modes \<Longrightarrow> i < 2 \<Longrightarrow>
   bank_of m (save_bank cpu) i = (if same_bank m (Mode cpu) then Reg cpu (13 + i) else bank_of m cpu i)"
  by (auto simp: modes_def bank_of_def save_bank_def same_bank_def less_2_cases_iff doubleton_eq_iff)

lemma save_bank_firq:
  "i < 7 \<Longrightarrow> Reg_firq (save_bank cpu) i = (if Mode cpu = FIQ32MODE then Reg cpu (8 + i) else Reg_firq cpu i)"
  by (auto simp: save_bank_def Let_def)

lemma save_bank_reg: "Reg (save_bank cpu) = Reg cpu" "Mode (save_bank cpu) = Mode cpu" "Cpsr (save_bank cpu) = Cpsr cpu"
  by (simp_all add: save_bank_def Let_def)

lemma ChangePrivilegeMode_fields:
  assumes "k \<in> modes" "k \<noteq> Mode c"
  shows "Mode (ChangePrivilegeMode k c) = k"
    and "Cpsr (ChangePrivilegeMode k c) = (Cpsr c AND NOT (Mode c)) OR k"
    and "Reg (ChangePrivilegeMode k c) n =
      (if n = 13 \<or> n = 14 then bank_of k (save_bank c) (n - 13)
       else if k = FIQ32MODE \<and> 8 \<le> n \<and> n \<le> 12 then Reg_firq (save_bank c) (n - 8) else Reg c n)"
    and "bank_of m (ChangePrivilegeMode k c) = bank_of m (save_bank c)"
    and "Reg_firq (ChangePrivilegeMode k c) = Reg_firq (save_bank c)"
    and "Spsr (ChangePrivilegeMode k c) = Spsr (save_bank c)"
  using assms
  by (auto simp: ChangePrivilegeMode_def Let_def load_bank_def load_two_def set_reg_def modes_def bank_of_def
    save_bank_reg)

text \<open>
  A change of the privilege mode and back restores the status register, every register, and the saved
  status of a mode that has one, for every pair of modes; but when the other mode is that of fast
  interrupts, registers 8 to 12 come back with the values banked for it: the banks hold them for that
  mode only.
\<close>

theorem ChangePrivilegeMode_and_back:
  assumes "m \<in> modes" "Mode cpu \<in> modes" "m \<noteq> Mode cpu" "Cpsr cpu AND 0x1F = Mode cpu"
  defines "back \<equiv> ChangePrivilegeMode (Mode cpu) (ChangePrivilegeMode m cpu)"
  shows "Mode back = Mode cpu \<and> Cpsr back = Cpsr cpu
    \<and> (\<forall>n. Reg back n = (if m = FIQ32MODE \<and> 8 \<le> n \<and> n \<le> 12 then Reg_firq cpu (n - 8) else Reg cpu n))"
proof -
  define c1 where "c1 = ChangePrivilegeMode m cpu"
  note there = ChangePrivilegeMode_fields [OF assms(1, 3), folded c1_def]
  have "Mode cpu \<noteq> Mode c1" using assms(3) by (simp add: there)
  note again = ChangePrivilegeMode_fields [OF assms(2) this, unfolded c1_def, folded back_def, folded c1_def]
  have saved: "bank_of k (save_bank c1) i = (if same_bank k m then Reg c1 (13 + i) else bank_of k c1 i)"
    if "k \<in> modes" "i < 2" for k i
    using save_bank_two [of c1 k i] that assms(1) by (simp add: there)
  have firq: "Reg_firq (save_bank c1) i = (if m = FIQ32MODE then Reg c1 (8 + i) else Reg_firq c1 i)" if "i < 7" for i
    using save_bank_firq [OF that, of c1] by (simp add: there)
  have "Reg back n = (if m = FIQ32MODE \<and> 8 \<le> n \<and> n \<le> 12 then Reg_firq cpu (n - 8) else Reg cpu n)" for n
  proof -
    consider "n = 13 \<or> n = 14" | "8 \<le> n" "n \<le> 12" | "n < 8 \<or> 14 < n" by linarith
    then show ?thesis
    proof cases
      case 1
      then show ?thesis using assms(1, 2)
        by (auto simp: again there saved save_bank_two same_bank_def)
    next
      case 2
      then show ?thesis using assms(3)
        by (auto simp: again there firq save_bank_firq)
    qed (auto simp: again there)
  qed
  moreover have "Cpsr back = Cpsr cpu"
    using mode_bits_back [OF assms(4) modes_low [OF assms(1)]] by (simp add: there again)
  ultimately show ?thesis by (simp add: again)
qed

theorem ChangePrivilegeMode_and_back_witness:
  "Reg (ChangePrivilegeMode 16 (ChangePrivilegeMode 17 (idle_core\<lparr>Reg := (\<lambda>n. of_nat n)\<rparr>))) 9 = 0
   \<and> Reg (ChangePrivilegeMode 16 (ChangePrivilegeMode 19 (idle_core\<lparr>Reg := (\<lambda>n. of_nat n)\<rparr>))) 13 = 13"
  using ChangePrivilegeMode_and_back [of 17 "idle_core\<lparr>Reg := (\<lambda>n. of_nat n)\<rparr>"]
    ChangePrivilegeMode_and_back [of 19 "idle_core\<lparr>Reg := (\<lambda>n. of_nat n)\<rparr>"]
  by (simp add: modes_def idle_core_def)

end
