(* ===== verification/Spec2Isabelle.thy ===== *)
theory Spec2Isabelle imports HandleTable GatewayCheatLoops CheatText VMProps TimingFacts Results SchedProps KernelProps WaitProps ArbiterProps IpcProps IpsPatch BpsFacts LzssFacts SharedProps ArmSuppFacts ArmLoopProps ArmOperandProps ArmLabelProps ArmDataProps begin

text \<open>
  A model of the core of Borked3DS, an emulator of the Nintendo 3DS: the emulated kernel's handles,
  memory, threads, synchronization objects and scheduler, its event timing, the interpreter of the
  processor, the cheat engine that runs on top, and the patches and the decompression that prepare the code a guest runs. Sources are named
  relative to src/src/.

  \<^bold>\<open>The parts.\<close> Guest code runs on up to four cores. A core's thread manager chooses the thread that
  runs, and the interpreter executes its instructions for a slice of time; threads sleep in the wait lists of kernel objects or in an address arbiter and are woken by
  other threads' calls or by events of the core timers. Guest memory is reached through the page
  table of the current process, which its virtual memory manager keeps in step with a map of areas.
  Guests name kernel objects by handles, and pass handles and buffers to each other in commands that
  the kernel translates. The cheat engine is an event of the timers that patches guest memory. The code
  of a guest is decompressed and patched before it is mapped.

  \<^bold>\<open>Theories, in the order of use.\<close>
  \<^item> \<open>Prelude\<close>: word types, result codes as used by the operations, lemmas on lists and words.
  \<^item> \<open>HandleTable\<close> (core/hle/kernel/handle_table.cpp, .h): the arrays of the table, its free list and
    generation counter. The table refines a finite map of handles, under every sequence of operations.
  \<^item> \<open>Memory\<close>, \<open>MemoryFacts\<close>, \<open>MemoryBlocks\<close> (core/memory.cpp, .h, common/memory_ref.h,
    common/atomic_ops.h): page tables with pointers, attributes and rasterizer marks; typed, exclusive
    and block accesses; mapping; physical lookup. Host memory is a store of bytes per backing object; \<open>host_read\<close> and \<open>host_write\<close>
    fail beyond the size of the object. \<open>poke_all\<close> is the account of a block write, byte by byte.
    The renderer, the plugin loader and the program counter are the record \<open>Devices\<close> of functions.
  \<^item> \<open>VMManager\<close>, \<open>VMFacts\<close>, \<open>VMProps\<close> (core/hle/kernel/vm_manager.cpp, .h): the areas as a list sorted
    by base, and the operations that carve, split, merge, map and re-protect. They refine a map from
    addresses to attributes, and keep the areas a partition of the address space.
  \<^item> \<open>ThreadQueueList\<close> (common/thread_queue_list.h): the multi-level queue with the linked list of its
    prepared levels. The locale \<open>ready_queue\<close> states what the scheduler relies on, the interpretation
    \<open>tq\<close> proves it for the code's queue, and \<open>SchedulerFacts\<close> proves the client's loop in the locale.
  \<^item> \<open>CoreTiming\<close>, \<open>TimingFacts\<close> (core/core_timing.cpp, .h): timers with their event queues as sorted
    lists, in a record that the kernel's state extends, so that callbacks act on the whole state.
  \<^item> \<open>Results\<close> (core/hle/result.h, core/hle/kernel/errors.h, common/bit_field.h): bit fields, the make-up
    of result codes, and the table of kernel errors.
  \<^item> \<open>ResourceLimits\<close> (core/hle/kernel/resource_limit.cpp): counters and the limits of the categories.
  \<^item> \<open>Kernel\<close> (core/hle/kernel/thread.cpp, wait_object.cpp, mutex.cpp, semaphore.cpp, event.cpp,
    timer.cpp): the record \<open>Kernel\<close> of all threads and objects, and every operation that acquires,
    releases, signals or wakes, with priority inheritance. Objects are numbers in place of pointers,
    so that sharing is explicit; a failed assertion is the outcome \<^const>\<open>None\<close>.
  \<^item> \<open>Scheduler\<close> (thread.cpp, kernel.cpp, process.cpp, svc.cpp): choosing and switching, sleeping and
    waking, creating and stopping threads, thread-local storage slots, the wait calls.
  \<^item> \<open>MemoryRegion\<close> (core/hle/kernel/memory.cpp, .h): the three regions of FCRAM with their free lists.
    Boost's interval sets are the parameter \<open>IntervalOps\<close> with the laws of the locale \<open>interval_set\<close>;
    the interpretation \<open>list_set\<close> proves them for sorted lists of blocks.
  \<^item> \<open>ProcessMemory\<close>, \<open>ProcessFacts\<close>, \<open>ProcessProps\<close>, \<open>AliasProps\<close> (process.cpp, svc.cpp): the heap, linear
    heap, aliases and thread-local storage of a process, over its address space, its region and its
    resource limit. \<open>memory_ok\<close>: what a process holds are used pages of its region. \<open>shows_fcram\<close>: a
    range shows given bytes of FCRAM. \<open>spills_perms\<close>: no other address changes but, by a defect of the
    code, the permissions of areas of the same state that were readable and writable; the properties
    that undo an operation say which of them keep other permissions.
  \<^item> \<open>Ipc\<close>, \<open>IpcFacts\<close>, \<open>IpcBuffers\<close>, \<open>IpcProps\<close> (core/hle/ipc.h, core/hle/kernel/ipc.cpp): the words of a
    command buffer, and the translation of a command from one process to another over both handle
    tables, both address spaces and the memory they share. \<open>handle_command\<close>: a command of one
    descriptor of handles; \<open>received\<close>: what the receiver gets for it; \<open>shows_buffer\<close>: a mapped buffer
    between its guard pages; \<open>keeps_buffers\<close>: the renderer writes no buffer of host memory.
  \<^item> \<open>SharedMemory\<close>, \<open>SharedProps\<close> (core/hle/kernel/shared_memory.cpp, .h, svc.cpp): blocks of memory that
    processes share, over new memory of a region or over memory of the owner.
  \<^item> \<open>AddressArbiter\<close> (address_arbiter.cpp): the arbitration types over threads and memory.
  \<^item> \<open>KernelInvariants\<close>, \<open>WaitFacts\<close>, \<open>Tokens\<close>, \<open>SchedulerFacts\<close>: the invariants and what keeps them.
    \<open>queues_ok\<close>: a core's queue holds exactly its ready threads, at their current priority.
    \<open>wait_inv\<close>: a thread is in the lists of exactly the objects it waits for, asleep. \<open>mutex_inv\<close>:
    holders and held mutexes agree. \<open>token\<close>: what an object has to give, which only an acquisition takes.
  \<^item> \<open>WakeProps\<close>, \<open>KernelProps\<close>, \<open>SchedProps\<close>, \<open>WaitProps\<close>, \<open>ArbiterProps\<close>: the properties of waking,
    semaphores, mutexes, events, rescheduling, the wait calls and the arbiter. \<open>KernelSample\<close> holds a
    kernel in which they are applied.
  \<^item> \<open>GatewayCheat\<close>, \<open>GatewayCheatFacts\<close>, \<open>GatewayCheatLoops\<close>, \<open>CheatText\<close> (core/cheats/gateway_cheat.cpp,
    .h, cheats.cpp, common/string_util.cpp): the interpreter of Gateway cheats on guest memory, and the
    text form of cheats.
  \<^item> \<open>IpsPatch\<close>, \<open>BpsPatch\<close>, \<open>BpsFacts\<close> (core/file_sys/patch.cpp), \<open>Lzss\<close>, \<open>LzssFacts\<close>
    (core/file_sys/ncch_container.cpp): what is done to executable code before it runs: patches in two
    formats and decompression. Each format has a reference account (\<open>apply_changes\<close>, \<open>compose\<close>,
    \<open>expand\<close>) with an encoder, and the code is proved to agree with it. The checksum of BPS patches is
    a parameter.

  \<^item> \<open>ArmSupp\<close>, \<open>ArmSuppFacts\<close> (core/arm/skyeye_common/armsupp.cpp, .h): addition with carry and the
    saturating operations, with their meaning on integers.
  \<^item> \<open>ArmInst\<close> (core/arm/dyncom/arm_dyncom_trans.cpp, .h): the structures of translated instructions and
    their translators. \<open>ArmDecode\<close> (arm_dyncom_dec.cpp): the tables of encodings; \<open>ArmThumb\<close>
    (arm_dyncom_thumb.cpp): Thumb instructions as words of the other set.
  \<^item> \<open>ArmState\<close> (core/arm/skyeye_common/armstate.cpp, .h): registers, banks, modes, coprocessor 15, memory
    in the byte order of the core, the exclusive monitor.
  \<^item> \<open>ArmOperands\<close>, \<open>ArmData\<close>, \<open>ArmMedia\<close>, \<open>ArmMemory\<close>, \<open>ArmLabels\<close> (arm_dyncom_interpreter.cpp,
    arm_dyncom_run.h): conditions, shifter operands, addressing modes, the labels of all instructions
    and the table that leads to them.
  \<^item> \<open>ArmLoop\<close> (arm_dyncom_interpreter.cpp, arm_dyncom.cpp): translation of blocks, the block cache,
    dispatch, supervisor calls, the budget, and the interface of a core.
  \<^item> \<open>ArmFrame\<close>, \<open>ArmLoopFacts\<close>, \<open>ArmLoopProps\<close>: what every label keeps (\<open>good\<close>: flags of one bit, cached
    blocks that end with an instruction that leaves them, the budget), what the loop keeps
    (\<open>machine_ok\<close>), what it asks of floating point labels and supervisor calls (\<open>host_ok\<close>: they keep
    this and do not raise the budget; \<open>accounts_for_calls\<close>: the ticks that calls add are those they are
    said to spend), and termination, block structure and accounting of ticks.
  \<^item> \<open>ArmDecodeFacts\<close>, \<open>ArmOperandProps\<close>, \<open>ArmLabelProps\<close>, \<open>ArmDataProps\<close>: what a word that the decoder
    accepts has in common with its entry; shifter operands against integer arithmetic; failed
    conditions for every entry of the table; comparisons, long sums and changes of mode.

  \<^bold>\<open>Conventions.\<close> Fixed-width integers are words of their width; signed ones are read with \<open>sint\<close>.
  Thread priorities and identifiers, on which no arithmetic is done, are natural numbers. Errors are
  values of a sum or option of \<open>result_code\<close>; a crash, a failed assertion or an out-of-range access,
  as of the iterator \<open>MapBackingMemoryToBase\<close> reads before it knows whether it found an area,
  is the outer \<^const>\<open>None\<close>, and the properties prove that it does not happen, or where it does.

  \<^bold>\<open>Bounds and fuel.\<close> The loop of \<open>WakeupAllWaitingThreads\<close> is given as many rounds as threads wait;
  each round takes one out of the list, so the bound is enough (\<open>WakeupAllWaitingThreads_drains\<close>). The
  search of the scheduler is given as many pops as the queue holds threads (\<open>pop_schedulable_spec\<close>).
  \<open>Advance\<close> is given as many rounds as there are events due, which is enough when callbacks schedule
  nothing for the past. The translation of a command is given as many rounds as its array has words,
  and every descriptor moves the position on (\<open>translate_loop_enough\<close>). The commands of a BPS patch get
  a round per byte of the patch, of which each takes one (\<open>command_loop_encoded\<close>). The walks over linked levels are given one step per level. A cheat runs for
  a number of line steps; without loops one step per line is enough (\<open>loop_free_cheat_terminates\<close>),
  with them it may not end. A block is translated in at most 2048 rounds, the halfwords of a page
  (\<open>translate_block_terminates\<close>), and the interpreter runs \<open>2 * n + 2\<close> steps for a budget of \<open>n\<close>
  instructions, which is enough (\<open>ExecuteInstructions_returns\<close>).

  \<^bold>\<open>Simplifications that show.\<close> A core's cache holds the translated blocks themselves, where the code
  holds offsets into one static buffer that all cores share: its size, its assertion and its reset
  by \<open>ClearInstructionCache\<close> are absent. A word that cannot be decoded is \<^const>\<open>None\<close>, where the code logs
  it and uses an index that was not set. A supervisor call is a parameter of the interpreter; ticks
  it adds are accounted for (\<open>spent\<close>). The count of locks of a mutex is an unbounded integer. The number
  of handles of \<open>WaitSynchronizationN\<close> is independent of the list. Callbacks of emulated services are
  recorded when a thread wakes, not run.

  \<^bold>\<open>Not modelled.\<close> Serialization, logging and names everywhere; the parameters above; the other
  supervisor calls, sessions and ports, the recorder of calls and the start of a process; floating
  point instructions, whose translators and labels are a parameter, the recompiler and the debugger;
  services, loaders, graphics, audio, frontends and network, which are outside this development:
  they are floating point, host libraries or bulk input and output.
\<close>

end
